(* ===== verification/Prelude.thy ===== *)
theory Prelude
  imports Main "HOL-Library.Word"
begin

text \<open>
  Shared vocabulary of the development: Go's machine integers and time values, results that may
  be an error, maps with Go's zero-value lookup, and the lemma collections the component
  theories add to and simplify with.

  \<^item> A Go \<open>string\<close> or \<open>[]byte\<close> is a list of 8-bit characters (\<open>string\<close>); its
    length is its byte length, as \<open>len\<close> is.
  \<^item> A \<open>time.Time\<close> is the number of nanoseconds since Go's zero time (1 January of year
    1, UTC); the zero time is 0. Go keeps seconds in 64 bits, so the calendar range is
    far beyond any reachable clock value and \<open>Add\<close> is exact; \<open>Sub\<close> saturates
    at the 64-bit duration range, and that is written out. The monotonic clock reading a
    \<open>time.Time\<close> may carry is not represented.
  \<^item> A \<open>time.Duration\<close> is its number of nanoseconds.
  \<^item> \<open>uint64\<close> counters are \<open>64 word\<close>: they wrap around.
\<close>

named_theorems gate_simps \<open>evaluation rules of the approval gate\<close>
named_theorems time_simps \<open>comparisons of time values\<close>
named_theorems wf_intros \<open>preservation of well-formedness by the operations of a component\<close>

type_synonym time = int
type_synonym duration = int
type_synonym u64 = "64 word"
type_synonym u32 = "32 word"
type_synonym u8 = "8 word"

abbreviation (input) nanosecond :: duration where "nanosecond \<equiv> 1"

definition go_second :: duration where
  "go_second = 1000000000"

definition go_minute :: duration where
  "go_minute = 60 * go_second"

definition go_hour :: duration where
  "go_hour = 60 * go_minute"

lemmas go_units = go_second_def go_minute_def go_hour_def

subsection \<open>time.Time and time.Duration\<close>

definition zero_time :: time where
  "zero_time = 0"

definition is_zero_time :: "time \<Rightarrow> bool" where
  "is_zero_time t \<longleftrightarrow> t = zero_time"

definition max_duration :: duration where
  "max_duration = 2 ^ 63 - 1"

definition min_duration :: duration where
  "min_duration = - (2 ^ 63)"

definition time_sub :: "time \<Rightarrow> time \<Rightarrow> duration" where
  "time_sub a b = max min_duration (min max_duration (a - b))"

lemma is_zero_time_iff [simp]: "is_zero_time t \<longleftrightarrow> t = 0"
  by (simp add: is_zero_time_def zero_time_def)

text \<open>Comparing a saturated difference with an ordinary duration is the plain comparison.\<close>

lemma time_sub_less [time_simps]:
  "min_duration < d \<Longrightarrow> d \<le> max_duration \<Longrightarrow> time_sub a b < d \<longleftrightarrow> a - b < d"
  by (auto simp: time_sub_def)

lemma time_sub_ge [time_simps]:
  "min_duration < d \<Longrightarrow> d \<le> max_duration \<Longrightarrow> d \<le> time_sub a b \<longleftrightarrow> d \<le> a - b"
  by (auto simp: time_sub_def)

lemma time_sub_exact:
  "min_duration \<le> a - b \<Longrightarrow> a - b \<le> max_duration \<Longrightarrow> time_sub a b = a - b"
  by (simp add: time_sub_def)

lemma duration_in_range [simp]:
  "min_duration < go_second" "go_second \<le> max_duration"
  "min_duration < 10 * go_second" "10 * go_second \<le> max_duration"
  by (simp_all add: go_units min_duration_def max_duration_def)

subsection \<open>Maps with Go's lookup\<close>

text \<open>Reading an absent key of a Go map yields the zero value of the element type.\<close>

definition lookup_or :: "'v \<Rightarrow> ('k \<rightharpoonup> 'v) \<Rightarrow> 'k \<Rightarrow> 'v" where
  "lookup_or z m k = (case m k of None \<Rightarrow> z | Some v \<Rightarrow> v)"

lemma lookup_or_None [simp]: "m k = None \<Longrightarrow> lookup_or z m k = z"
  and lookup_or_Some [simp]: "m k = Some v \<Longrightarrow> lookup_or z m k = v"
  by (simp_all add: lookup_or_def)

lemma lookup_or_upd [simp]:
  "lookup_or z (m(k \<mapsto> v)) l = (if l = k then v else lookup_or z m l)"
  by (simp add: lookup_or_def)

lemma lookup_or_del [simp]:
  "lookup_or z (m(k := None)) l = (if l = k then z else lookup_or z m l)"
  by (simp add: lookup_or_def)

definition map_len :: "('k \<rightharpoonup> 'v) \<Rightarrow> nat" where
  "map_len m = card (dom m)"

lemma map_len_empty [simp]: "map_len Map.empty = 0"
  by (simp add: map_len_def)

lemma map_len_upd:
  "finite (dom m) \<Longrightarrow> map_len (m(k \<mapsto> v)) = (if k \<in> dom m then map_len m else Suc (map_len m))"
  by (simp add: map_len_def insert_absorb card_insert_if)

lemma map_len_del:
  "finite (dom m) \<Longrightarrow> map_len (m(k := None)) = (if k \<in> dom m then map_len m - 1 else map_len m)"
  by (simp add: map_len_def)

subsection \<open>Results\<close>

text \<open>
  A Go function returning \<open>(T, error)\<close> yields \<open>Inl e\<close> for a non-nil error and
  \<open>Inr v\<close> otherwise; a function returning only an \<open>error\<close> yields an option.
\<close>

definition first_error :: "'e option list \<Rightarrow> 'e option" where
  "first_error es = (case dropWhile (\<lambda>e. e = None) es of [] \<Rightarrow> None | e # _ \<Rightarrow> e)"

lemma first_error_Nil [simp]: "first_error [] = None"
  by (simp add: first_error_def)

lemma first_error_Cons [simp]:
  "first_error (e # es) = (case e of None \<Rightarrow> first_error es | Some x \<Rightarrow> Some x)"
  by (simp add: first_error_def split: option.split)

lemma first_error_append:
  "first_error (xs @ ys) = (case first_error xs of None \<Rightarrow> first_error ys | Some x \<Rightarrow> Some x)"
  by (induction xs) (auto split: option.split)

text \<open>The guard \<open>if cond { return err }\<close> of Go as an optional error.\<close>

definition fail_if :: "bool \<Rightarrow> 'e \<Rightarrow> 'e option" where
  "fail_if b e = (if b then Some e else None)"

lemma fail_if_simps [simp]:
  "fail_if True e = Some e" "fail_if False e = None"
  "fail_if b e = None \<longleftrightarrow> \<not> b" "fail_if b e = Some x \<longleftrightarrow> b \<and> x = e"
  by (auto simp: fail_if_def)

lemma first_error_None: "first_error es = None \<longleftrightarrow> (\<forall>e\<in>set es. e = None)"
  by (induction es) (auto split: option.split)

lemma first_error_Some_mem: "first_error es = Some x \<Longrightarrow> Some x \<in> set es"
  by (induction es) (auto split: option.splits)

subsection \<open>Counters\<close>

text \<open>A 64-bit counter below its maximum grows when incremented.\<close>

lemma word_plus_one_gt:
  assumes "(e :: u64) \<noteq> - 1"
  shows "e < e + 1"
proof -
  have "uint (- 1 :: u64) = 2 ^ 64 - 1" by (simp add: unsigned_minus_1_eq_mask mask_eq_exp_minus_1)
  then have "uint e \<noteq> 2 ^ 64 - 1" using assms by (metis word_uint_eq_iff)
  moreover have "uint e < 2 ^ 64" using uint_lt2p[of e] by simp
  ultimately have "uint e + uint (1 :: u64) < 2 ^ 64" by simp
  then have "e \<le> e + 1" using no_olen_add[of e 1] by simp
  then show ?thesis by (simp add: less_le)
qed

lemma unat_plus_one:
  assumes "(e :: u64) \<noteq> - 1"
  shows "unat (e + 1) = Suc (unat e)"
proof -
  have "unat e < unat (e + 1)" using word_plus_one_gt[OF assms] by (simp add: word_less_nat_alt)
  moreover have "unat (e + 1) = (unat e + 1) mod 2 ^ 64" by (simp add: unat_word_ariths)
  moreover have "unat e < 2 ^ LENGTH(64)" by (rule unsigned_less)
  ultimately show ?thesis by (cases "unat e + 1 = 2 ^ 64") auto
qed

end
