(* ===== verification/Go_Strings.thy ===== *)
theory Go_Strings
  imports Prelude
begin

text \<open>
  The parts of Go's \<open>strings\<close>, \<open>unicode\<close> and \<open>unicode/utf8\<close> packages that
  the modelled code calls. A string is a byte list; ranging over it decodes UTF-8 and yields
  the replacement rune U+FFFD of width one for a byte that starts no well-formed sequence.
\<close>

subsection \<open>UTF-8 decoding\<close>

definition byte :: "char \<Rightarrow> int" where
  "byte c = of_char c"

definition rune_error :: int where
  "rune_error = 0xFFFD"

definition in_range :: "int \<Rightarrow> int \<Rightarrow> int \<Rightarrow> bool" where
  "in_range lo hi b \<longleftrightarrow> lo \<le> b \<and> b \<le> hi"

text \<open>
  \<open>utf8.DecodeRuneInString\<close>: the first rune and its width, with the accept ranges of the
  second byte that exclude overlong forms, surrogates and values past U+10FFFF.
\<close>

definition decode_rune :: "string \<Rightarrow> int \<times> nat" where
  "decode_rune s =
     (case map byte (take 4 s) of
        [] \<Rightarrow> (rune_error, 0)
      | b0 # r \<Rightarrow>
          if b0 < 0x80 then (b0, 1)
          else if in_range 0xC2 0xDF b0 then
            (case r of
               b1 # _ \<Rightarrow> if in_range 0x80 0xBF b1
                 then ((b0 - 0xC0) * 64 + (b1 - 0x80), 2) else (rune_error, 1)
             | [] \<Rightarrow> (rune_error, 1))
          else if in_range 0xE0 0xEF b0 then
            (case r of
               b1 # b2 # _ \<Rightarrow>
                 if in_range (if b0 = 0xE0 then 0xA0 else 0x80) (if b0 = 0xED then 0x9F else 0xBF) b1
                    \<and> in_range 0x80 0xBF b2
                 then ((b0 - 0xE0) * 4096 + (b1 - 0x80) * 64 + (b2 - 0x80), 3) else (rune_error, 1)
             | _ \<Rightarrow> (rune_error, 1))
          else if in_range 0xF0 0xF4 b0 then
            (case r of
               b1 # b2 # b3 # _ \<Rightarrow>
                 if in_range (if b0 = 0xF0 then 0x90 else 0x80) (if b0 = 0xF4 then 0x8F else 0xBF) b1
                    \<and> in_range 0x80 0xBF b2 \<and> in_range 0x80 0xBF b3
                 then ((b0 - 0xF0) * 262144 + (b1 - 0x80) * 4096 + (b2 - 0x80) * 64 + (b3 - 0x80), 4)
                 else (rune_error, 1)
             | _ \<Rightarrow> (rune_error, 1))
          else (rune_error, 1))"

lemma decode_rune_width_pos: "s \<noteq> [] \<Longrightarrow> 0 < snd (decode_rune s)"
  by (cases s) (auto simp: decode_rune_def split: list.split)

lemma decode_rune_ascii [simp]: "byte c < 0x80 \<Longrightarrow> decode_rune (c # s) = (byte c, 1)"
  by (simp add: decode_rune_def)

text \<open>The runes of a string, each with the bytes it was decoded from.\<close>

function segs :: "string \<Rightarrow> (int \<times> string) list" where
  "segs [] = []"
| "segs (c # s) =
     (let (r, w) = decode_rune (c # s)
      in (r, take w (c # s)) # segs (drop w (c # s)))"
  by pat_completeness auto
termination
proof (relation "measure length", goal_cases)
  case (2 c s x r w)
  then have "0 < w" using decode_rune_width_pos[of "c # s"] by (metis list.distinct(1) snd_conv)
  then show ?case by simp
qed simp

definition runes :: "string \<Rightarrow> int list" where
  "runes s = map fst (segs s)"

definition valid_utf8 :: "string \<Rightarrow> bool" where
  "valid_utf8 s \<longleftrightarrow> list_all (\<lambda>(r, c). \<not> (r = rune_error \<and> length c = 1)) (segs s)"

lemma concat_segs [simp]: "concat (map snd (segs s)) = s"
proof (induction s rule: segs.induct)
  case 1 then show ?case by simp
next
  case (2 c s)
  show ?case
  proof (cases "decode_rune (c # s)")
    case (Pair r w)
    then have IH: "concat (map snd (segs (drop w (c # s)))) = drop w (c # s)"
      using "2.IH" by simp
    from Pair have "segs (c # s) = (r, take w (c # s)) # segs (drop w (c # s))" by simp
    then show ?thesis using IH by simp
  qed
qed

lemma segs_ascii [simp]: "byte c < 0x80 \<Longrightarrow> segs (c # s) = (byte c, [c]) # segs s"
  by simp

declare segs.simps(2) [simp del]

lemma segs_all_ascii:
  "list_all (\<lambda>c. byte c < 0x80) s \<Longrightarrow> segs s = map (\<lambda>c. (byte c, [c])) s"
  by (induction s) auto

lemma byte_less [simp]: "byte c < 256"
  and byte_nonneg [simp]: "0 \<le> byte c"
  by (simp_all add: byte_def of_char_def horner_sum_of_bool_2_less)

subsection \<open>Character classes\<close>

text \<open>\<open>unicode.IsSpace\<close>: the Latin-1 cases and the White_Space property.\<close>

definition is_space :: "int \<Rightarrow> bool" where
  "is_space r \<longleftrightarrow> in_range 9 13 r \<or> r = 0x20 \<or> r = 0x85 \<or> r = 0xA0 \<or> r = 0x1680
     \<or> in_range 0x2000 0x200A r \<or> in_range 0x2028 0x2029 r \<or> r = 0x202F \<or> r = 0x205F
     \<or> r = 0x3000"

text \<open>\<open>unicode.IsControl\<close>: category Cc.\<close>

definition is_control :: "int \<Rightarrow> bool" where
  "is_control r \<longleftrightarrow> r < 0x20 \<or> in_range 0x7F 0x9F r"

text \<open>\<open>unicode.Is(unicode.Cf, r)\<close>: the format characters of Unicode 15, the version of the toolchain's tables.\<close>

definition is_format :: "int \<Rightarrow> bool" where
  "is_format r \<longleftrightarrow> r = 0xAD \<or> in_range 0x600 0x605 r \<or> r = 0x61C \<or> r = 0x6DD \<or> r = 0x70F
     \<or> in_range 0x890 0x891 r \<or> r = 0x8E2 \<or> r = 0x180E \<or> in_range 0x200B 0x200F r
     \<or> in_range 0x202A 0x202E r \<or> in_range 0x2060 0x2064 r \<or> in_range 0x2066 0x206F r
     \<or> r = 0xFEFF \<or> in_range 0xFFF9 0xFFFB r \<or> r = 0x110BD \<or> r = 0x110CD
     \<or> in_range 0x13430 0x1343F r \<or> in_range 0x1BCA0 0x1BCA3 r \<or> in_range 0x1D173 0x1D17A r
     \<or> r = 0xE0001 \<or> in_range 0xE0020 0xE007F r"

lemmas rune_classes = is_space_def is_control_def is_format_def in_range_def

subsection \<open>strings\<close>

text \<open>
  \<open>strings.TrimSpace\<close>. UTF-8 is self-synchronising, so decoding from the right, as Go
  does for the trailing end, cuts the same chunks as decoding from the left.
\<close>

definition trim_segs :: "(int \<times> string) list \<Rightarrow> (int \<times> string) list" where
  "trim_segs xs = rev (dropWhile (\<lambda>(r, _). is_space r) (rev (dropWhile (\<lambda>(r, _). is_space r) xs)))"

definition trim_space :: "string \<Rightarrow> string" where
  "trim_space s = concat (map snd (trim_segs (segs s)))"

text \<open>
  \<open>strings.ToLower\<close> on the runes whose lower case is ASCII: the letters A to Z, U+0130
  (to i) and U+212A (to k). Every other rune lowers to a non-ASCII one and is kept as it is, so
  the function agrees with Go's wherever the result is compared with an ASCII literal or the
  argument is ASCII, which is every use in the modelled code.
\<close>

definition lower_byte :: "char \<Rightarrow> char" where
  "lower_byte c = (if in_range 65 90 (byte c) then char_of (byte c + 32) else c)"

definition lower_seg :: "int \<times> string \<Rightarrow> string" where
  "lower_seg rc = (case rc of (r, c) \<Rightarrow>
     if r < 0x80 then map lower_byte c
     else if r = 0x130 then ''i'' else if r = 0x212A then ''k'' else c)"

definition to_lower :: "string \<Rightarrow> string" where
  "to_lower s = concat (map lower_seg (segs s))"

definition has_prefix :: "string \<Rightarrow> string \<Rightarrow> bool" where
  "has_prefix s p \<longleftrightarrow> take (length p) s = p"

definition has_suffix :: "string \<Rightarrow> string \<Rightarrow> bool" where
  "has_suffix s p \<longleftrightarrow> length p \<le> length s \<and> drop (length s - length p) s = p"

fun contains :: "string \<Rightarrow> string \<Rightarrow> bool" where
  "contains [] p = (p = [])"
| "contains (c # s) p = (has_prefix (c # s) p \<or> contains s p)"

lemma has_prefix_iff: "has_prefix s p \<longleftrightarrow> (\<exists>t. s = p @ t)"
  unfolding has_prefix_def by (metis append_eq_conv_conj append_take_drop_id)

lemma has_prefix_append [simp]: "has_prefix (p @ t) p"
  by (simp add: has_prefix_def)

lemma contains_iff: "contains s p \<longleftrightarrow> (\<exists>a b. s = a @ p @ b)"
proof (induction s)
  case Nil then show ?case by simp
next
  case (Cons c s)
  show ?case
  proof
    assume "contains (c # s) p"
    then consider "has_prefix (c # s) p" | "contains s p" by auto
    then show "\<exists>a b. c # s = a @ p @ b"
    proof cases
      case 1 then show ?thesis by (metis has_prefix_iff append_Nil)
    next
      case 2 then show ?thesis using Cons.IH by (metis append_Cons)
    qed
  next
    assume "\<exists>a b. c # s = a @ p @ b"
    then obtain a b where ab: "c # s = a @ p @ b" by blast
    show "contains (c # s) p"
    proof (cases a)
      case Nil
      then have "has_prefix (c # s) p" using ab by (simp add: has_prefix_def)
      then show ?thesis by simp
    next
      case (Cons d a')
      then show ?thesis using ab Cons.IH by auto
    qed
  qed
qed

text \<open>A string trims to nothing exactly when it holds only space runes.\<close>

lemma trim_segs_Nil_iff: "trim_segs xs = [] \<longleftrightarrow> (\<forall>(r, _)\<in>set xs. is_space r)"
proof -
  have "trim_segs xs = [] \<longleftrightarrow> (\<forall>x\<in>set (dropWhile (\<lambda>(r, _). is_space r) xs). (\<lambda>(r, _). is_space r) x)"
    by (simp add: trim_segs_def)
  also have "\<dots> \<longleftrightarrow> (\<forall>(r, _)\<in>set xs. is_space r)"
    by (metis (no_types, lifting) dropWhile_eq_Nil_conv list.set(1) empty_iff set_dropWhileD
        hd_dropWhile list.set_sel(1))
  finally show ?thesis .
qed

text \<open>An ASCII byte ends every sequence before it: decoding is done piece by piece.\<close>

lemma decode_rune_cut:
  assumes "a \<noteq> []" "byte c < 0x80"
  shows "decode_rune (a @ c # b) = decode_rune a \<and> snd (decode_rune a) \<le> length a"
proof -
  have no: "\<not> in_range 0x80 h (byte c)" "\<not> in_range 0x90 h (byte c)" "\<not> in_range 0xA0 h (byte c)" for h
    using assms(2) by (simp_all add: in_range_def)
  consider x where "a = [x]" | x y where "a = [x, y]" | x y z where "a = [x, y, z]"
    | x y z w v where "a = x # y # z # w # v"
    using assms(1) by (metis list.exhaust)
  then show ?thesis
    by cases (use no in \<open>auto simp: decode_rune_def split: list.split if_splits\<close>)
qed

lemma segs_append_cut:
  "byte c < 0x80 \<Longrightarrow> segs (a @ c # b) = segs a @ (byte c, [c]) # segs b"
proof (induction a rule: segs.induct)
  case (2 x a)
  obtain r w where d: "decode_rune (x # a) = (r, w)" by (meson surj_pair)
  have cut: "decode_rune ((x # a) @ c # b) = (r, w)" "w \<le> length (x # a)"
    using decode_rune_cut[of "x # a" c b] 2(2) d by auto
  have "take w ((x # a) @ c # b) = take w (x # a)" "drop w ((x # a) @ c # b) = drop w (x # a) @ c # b"
    using cut(2) by (simp_all only: take_append drop_append) simp_all
  then show ?case using "2.IH"[OF d[symmetric] refl 2(2)] d cut(1)
    by (simp add: segs.simps(2) del: segs_ascii)
qed simp

lemma to_lower_append_cut:
  "byte c < 0x80 \<Longrightarrow> to_lower (a @ c # b) = to_lower a @ lower_byte c # to_lower b"
  by (simp add: to_lower_def segs_append_cut lower_seg_def)

lemma byte_lower_ascii: "byte c < 0x80 \<Longrightarrow> byte (lower_byte c) < 0x80"
  by (simp add: lower_byte_def byte_def in_range_def)

lemma to_lower_ascii:
  "list_all (\<lambda>c. byte c < 0x80) s \<Longrightarrow> to_lower s = map lower_byte s"
  by (induction s) (auto simp: to_lower_def lower_seg_def)

end
