(* ===== verification/Go_Crypto.thy ===== *)
theory Go_Crypto
  imports Go_Strings
begin

text \<open>
  \<open>crypto/sha256\<close>, \<open>encoding/hex\<close> and the part of \<open>encoding/json\<close> that the
  modelled code uses to derive digests and nonces: strings, unsigned integers and booleans of
  an object with a fixed list of fields.
\<close>

unbundle bit_operations_syntax

subsection \<open>Bytes and big-endian words\<close>

definition be_word :: "string \<Rightarrow> u32" where
  "be_word s = foldl (\<lambda>acc c. push_bit 8 acc OR word_of_int (byte c)) 0 s"

fun be_bytes :: "nat \<Rightarrow> int \<Rightarrow> string" where
  "be_bytes 0 n = []"
| "be_bytes (Suc k) n = be_bytes k (n div 256) @ [char_of (n mod 256)]"

fun chunks :: "nat \<Rightarrow> 'a list \<Rightarrow> 'a list list" where
  "chunks n xs = (if n = 0 \<or> xs = [] then [] else take n xs # chunks n (drop n xs))"

declare chunks.simps [simp del]

subsection \<open>SHA-256\<close>

definition sha_K :: "u32 list" where
  "sha_K = [
    1116352408, 1899447441, 3049323471, 3921009573, 961987163, 1508970993, 2453635748, 2870763221,
    3624381080, 310598401, 607225278, 1426881987, 1925078388, 2162078206, 2614888103, 3248222580,
    3835390401, 4022224774, 264347078, 604807628, 770255983, 1249150122, 1555081692, 1996064986,
    2554220882, 2821834349, 2952996808, 3210313671, 3336571891, 3584528711, 113926993, 338241895,
    666307205, 773529912, 1294757372, 1396182291, 1695183700, 1986661051, 2177026350, 2456956037,
    2730485921, 2820302411, 3259730800, 3345764771, 3516065817, 3600352804, 4094571909, 275423344,
    430227734, 506948616, 659060556, 883997877, 958139571, 1322822218, 1537002063, 1747873779,
    1955562222, 2024104815, 2227730452, 2361852424, 2428436474, 2756734187, 3204031479, 3329325298]"

definition sha_H0 :: "u32 list" where
  "sha_H0 = [1779033703, 3144134277, 1013904242, 2773480762,
             1359893119, 2600822924, 528734635, 1541459225]"

definition sha_pad :: "string \<Rightarrow> string" where
  "sha_pad s = (let l = length s; z = (119 - l mod 64) mod 64
                in s @ [char_of (128::int)] @ replicate z (char_of (0::int)) @ be_bytes 8 (8 * int l))"

text \<open>The message schedule, kept newest word first.\<close>

definition sha_extend :: "u32 list \<Rightarrow> u32 list" where
  "sha_extend w =
     (let w15 = w ! 14; w2 = w ! 1;
          s0 = word_rotr 7 w15 XOR word_rotr 18 w15 XOR drop_bit 3 w15;
          s1 = word_rotr 17 w2 XOR word_rotr 19 w2 XOR drop_bit 10 w2
      in (w ! 15 + s0 + w ! 6 + s1) # w)"

definition sha_schedule :: "string \<Rightarrow> u32 list" where
  "sha_schedule block = rev ((sha_extend ^^ 48) (rev (map be_word (chunks 4 block))))"

fun sha_round :: "u32 list \<Rightarrow> u32 \<times> u32 \<Rightarrow> u32 list" where
  "sha_round [a, b, c, d, e, f, g, h] (k, w) =
     (let S1 = word_rotr 6 e XOR word_rotr 11 e XOR word_rotr 25 e;
          ch = (e AND f) XOR ((NOT e) AND g);
          t1 = h + S1 + ch + k + w;
          S0 = word_rotr 2 a XOR word_rotr 13 a XOR word_rotr 22 a;
          maj = (a AND b) XOR (a AND c) XOR (b AND c)
      in [t1 + S0 + maj, a, b, c, d + t1, e, f, g])"
| "sha_round st _ = st"

definition sha_block :: "u32 list \<Rightarrow> string \<Rightarrow> u32 list" where
  "sha_block H block = map2 (+) H (foldl sha_round H (zip sha_K (sha_schedule block)))"

definition sha256 :: "string \<Rightarrow> string" where
  "sha256 s = concat (map (\<lambda>w. be_bytes 4 (uint w)) (foldl sha_block sha_H0 (chunks 64 (sha_pad s))))"

subsection \<open>Hexadecimal\<close>

definition hex_digits :: string where
  "hex_digits = ''0123456789abcdef''"

definition hex_encode :: "string \<Rightarrow> string" where
  "hex_encode s = concat (map (\<lambda>c. [hex_digits ! nat (byte c div 16), hex_digits ! nat (byte c mod 16)]) s)"

definition is_hex :: "char \<Rightarrow> bool" where
  "is_hex c \<longleftrightarrow> in_range 48 57 (byte c) \<or> in_range 97 102 (byte c) \<or> in_range 65 70 (byte c)"

text \<open>\<open>hex.DecodeString\<close> fails on an odd length or on a byte that is no hexadecimal digit.\<close>

definition hex_decodable :: "string \<Rightarrow> bool" where
  "hex_decodable s \<longleftrightarrow> even (length s) \<and> list_all is_hex s"

text \<open>
  The digest check shared by the approval gate and the control-plane state machine: the hex
  form of a SHA-256 sum, in lower case.
\<close>

definition valid_digest :: "string \<Rightarrow> bool" where
  "valid_digest value \<longleftrightarrow>
     length value = 64 \<and> hex_decodable value \<and> value = to_lower value"

definition hex_sha256 :: "string \<Rightarrow> string" where
  "hex_sha256 s = hex_encode (sha256 s)"

lemma length_sha_round [simp]: "length (sha_round st kw) = length st"
  by (cases "(st, kw)" rule: sha_round.cases) (auto simp: Let_def)

lemma length_fold_rounds [simp]: "length (foldl sha_round st kws) = length st"
  by (induction kws arbitrary: st) auto

lemma length_sha_block [simp]: "length (sha_block H block) = length H"
  by (simp add: sha_block_def)

lemma length_fold_blocks [simp]: "length (foldl sha_block H bs) = length H"
  by (induction bs arbitrary: H) auto

lemma length_be_bytes [simp]: "length (be_bytes k n) = k"
  by (induction k arbitrary: n) auto

lemma length_sha256 [simp]: "length (sha256 s) = 32"
proof -
  have len: "length (concat (map (\<lambda>w. be_bytes 4 (uint (w::u32))) ws)) = 4 * length ws" for ws
    by (induction ws) auto
  have "length (foldl sha_block sha_H0 (chunks 64 (sha_pad s))) = 8"
    by (simp add: sha_H0_def)
  then show ?thesis unfolding sha256_def using len by simp
qed

lemma length_hex_encode [simp]: "length (hex_encode s) = 2 * length s"
  by (induction s) (auto simp: hex_encode_def)

lemma hex_digits_lower:
  "n < 16 \<Longrightarrow> is_hex (hex_digits ! n) \<and> byte (hex_digits ! n) < 0x80
     \<and> lower_byte (hex_digits ! n) = hex_digits ! n"
proof -
  assume "n < 16"
  moreover have "list_all (\<lambda>c. is_hex c \<and> byte c < 0x80 \<and> lower_byte c = c) hex_digits"
    by code_simp
  moreover have "length hex_digits = 16" by (simp add: hex_digits_def)
  ultimately show ?thesis by (simp add: list_all_length)
qed

lemma hex_encode_chars:
  "c \<in> set (hex_encode s) \<Longrightarrow> is_hex c \<and> byte c < 0x80 \<and> lower_byte c = c"
proof (induction s)
  case (Cons a s)
  have "nat (byte a div 16) < 16" using byte_less[of a] byte_nonneg[of a] by linarith
  moreover have "nat (byte a mod 16) < 16" by (simp add: nat_less_iff)
  ultimately show ?case using Cons hex_digits_lower by (auto simp: hex_encode_def)
qed (simp add: hex_encode_def)

text \<open>Every digest the code computes passes the digest check.\<close>

lemma valid_digest_hex_sha256 [simp]: "valid_digest (hex_sha256 s)"
proof -
  let ?h = "hex_sha256 s"
  have ch: "\<And>c. c \<in> set ?h \<Longrightarrow> is_hex c \<and> byte c < 0x80 \<and> lower_byte c = c"
    unfolding hex_sha256_def by (rule hex_encode_chars)
  have "to_lower ?h = map lower_byte ?h"
    using ch by (intro to_lower_ascii) (simp add: list_all_iff)
  also have "\<dots> = ?h" using ch by (simp add: map_idI)
  finally show ?thesis using ch
    by (simp add: valid_digest_def hex_decodable_def list_all_iff hex_sha256_def)
qed

subsection \<open>JSON\<close>

definition hex4 :: "int \<Rightarrow> string" where
  "hex4 n = map (\<lambda>d. hex_digits ! nat ((n div d) mod 16)) [4096, 256, 16, 1]"

definition quote :: char where
  "quote = char_of (34::int)"

definition backslash :: char where
  "backslash = char_of (92::int)"

text \<open>
  \<open>json.Marshal\<close> of a string with HTML escaping on, as \<open>Marshal\<close> has it: quote and
  backslash are escaped, control characters use the short forms or \<open>u00XX\<close>, the
  characters less-than, greater-than and ampersand and the two line separators are written as
  \<open>u\<close> escapes, and a byte outside UTF-8 becomes \<open>ufffd\<close>.
\<close>

definition json_seg :: "int \<times> string \<Rightarrow> string" where
  "json_seg rc = (case rc of (r, c) \<Rightarrow>
     if r = 34 \<or> r = 92 then backslash # c
     else if r = 8 then [backslash, CHR ''b'']
     else if r = 12 then [backslash, CHR ''f'']
     else if r = 10 then [backslash, CHR ''n'']
     else if r = 13 then [backslash, CHR ''r'']
     else if r = 9 then [backslash, CHR ''t'']
     else if r < 32 \<or> r = 60 \<or> r = 62 \<or> r = 38 \<or> r = 0x2028 \<or> r = 0x2029
             \<or> (r = rune_error \<and> length c = 1)
     then [backslash, CHR ''u''] @ hex4 r
     else c)"

definition json_string :: "string \<Rightarrow> string" where
  "json_string s = quote # concat (map json_seg (segs s)) @ [quote]"

fun decimal :: "int \<Rightarrow> string" where
  "decimal n = (if n < 10 then [char_of (48 + n)] else decimal (n div 10) @ [char_of (48 + n mod 10)])"

declare decimal.simps [simp del]

definition json_int :: "int \<Rightarrow> string" where
  "json_int i = (if i < 0 then CHR ''-'' # decimal (- i) else decimal i)"

definition json_bool :: "bool \<Rightarrow> string" where
  "json_bool b = (if b then ''true'' else ''false'')"

fun json_fields :: "(string \<times> string) list \<Rightarrow> string" where
  "json_fields [] = []"
| "json_fields [(k, v)] = json_string k @ '':'' @ v"
| "json_fields ((k, v) # fs) = json_string k @ '':'' @ v @ '','' @ json_fields fs"

definition json_object :: "(string \<times> string) list \<Rightarrow> string" where
  "json_object fs = ''{'' @ json_fields fs @ ''}''"

end
