(* ===== verification/Approval_Types.thy ===== *)
theory Approval_Types
  imports Go_Crypto
begin

text \<open>
  The data of \<open>internal/approval\<close>: requests, confirmations, authorization commits, audit
  events and records, the errors, and the validation of requests and of stored records. The
  state machine over them is in \<open>Approval_Gate\<close>.

  A Go struct is a record whose field names carry a prefix (\<open>req_\<close>, \<open>conf_\<close>,
  \<open>com_\<close>, \<open>ev_\<close>, \<open>rec_\<close>); string enumerations stay strings, so that
  values outside the declared constants exist and are refused where the code refuses them.
\<close>

subsection \<open>Constants and errors\<close>

definition WarningDelay :: duration where
  "WarningDelay = 10 * go_second"

definition MaxApprovalTTL :: duration where
  "MaxApprovalTTL = 30 * go_minute"

type_synonym RiskLevel = string

definition RiskLow :: RiskLevel where "RiskLow = ''low''"

definition RiskMedium :: RiskLevel where "RiskMedium = ''medium''"

definition RiskHigh :: RiskLevel where "RiskHigh = ''high''"

definition RiskEmergency :: RiskLevel where "RiskEmergency = ''emergency''"

lemmas risk_defs = RiskLow_def RiskMedium_def RiskHigh_def RiskEmergency_def

type_synonym Status = string

definition StatusPending :: Status where "StatusPending = ''pending''"

definition StatusApproved :: Status where "StatusApproved = ''approved''"

definition StatusRevoked :: Status where "StatusRevoked = ''revoked''"

definition StatusExpired :: Status where "StatusExpired = ''expired''"

lemmas status_defs = StatusPending_def StatusApproved_def StatusRevoked_def StatusExpired_def

lemma status_distinct [simp]:
  "StatusPending \<noteq> StatusApproved" "StatusPending \<noteq> StatusRevoked" "StatusPending \<noteq> StatusExpired"
  "StatusApproved \<noteq> StatusPending" "StatusApproved \<noteq> StatusRevoked" "StatusApproved \<noteq> StatusExpired"
  "StatusRevoked \<noteq> StatusPending" "StatusRevoked \<noteq> StatusApproved" "StatusRevoked \<noteq> StatusExpired"
  "StatusExpired \<noteq> StatusPending" "StatusExpired \<noteq> StatusApproved" "StatusExpired \<noteq> StatusRevoked"
  by (simp_all add: status_defs)

lemma risk_distinct [simp]:
  "RiskLow \<noteq> RiskHigh" "RiskLow \<noteq> RiskEmergency" "RiskHigh \<noteq> RiskLow" "RiskEmergency \<noteq> RiskLow"
  "RiskHigh \<noteq> RiskEmergency" "RiskEmergency \<noteq> RiskHigh"
  by (simp_all add: risk_defs)

type_synonym ActorRole = string

definition RoleOperator :: ActorRole where "RoleOperator = ''operator''"

definition RoleSecurityAdmin :: ActorRole where "RoleSecurityAdmin = ''security_admin''"

definition RoleTenantOwner :: ActorRole where "RoleTenantOwner = ''tenant_owner''"

type_synonym AuditType = string

definition AuditSubmitted :: AuditType where "AuditSubmitted = ''submitted''"

definition AuditAuthorized :: AuditType where "AuditAuthorized = ''authorized''"

definition AuditCheckpoint :: AuditType where "AuditCheckpoint = ''checkpoint''"

definition AuditRejected :: AuditType where "AuditRejected = ''rejected''"

definition AuditRevoked :: AuditType where "AuditRevoked = ''revoked''"

definition AuditExpired :: AuditType where "AuditExpired = ''expired''"

datatype approval_error =
    ErrInvalidRequest | ErrDuplicateRequest | ErrNotFound | ErrNotPending | ErrWarningDelay
  | ErrPasswordConfirmation | ErrSecondConfirmation | ErrThirdConfirmation
  | ErrConfirmationRequired | ErrLocalConfirmation | ErrConfirmationReplay | ErrActorRequired
  | ErrInvalidActor | ErrSessionRequired | ErrSessionChanged | ErrInvalidConfirmationID
  | ErrConfirmationLanguage | ErrConfirmationPhrase | ErrIntentChanged | ErrWorkflowChanged
  | ErrTTLChanged | ErrConfirmationSequence | ErrReasonRequired | ErrInvalidReason
  | ErrScopeChanged | ErrEpochChanged | ErrExpired | ErrRevoked | ErrBreakGlassRequired
  | ErrBreakGlassReason | ErrBreakGlassActor | ErrEpochRegression | ErrTTLExceeded
  | ErrInvalidPersistence | ErrIdempotencyConflict | ErrEventSequence | ErrBindingConflict
  | ErrApprovalNotFound | AdapterError string

text \<open>\<open>err.Error()\<close>, which the gate writes into the reason of a rejection event.\<close>

primrec error_text :: "approval_error \<Rightarrow> string" where
  "error_text ErrInvalidRequest = ''invalid approval request''"
| "error_text ErrDuplicateRequest = ''approval request already exists''"
| "error_text ErrNotFound = ''approval request not found''"
| "error_text ErrNotPending = ''approval request is not pending''"
| "error_text ErrWarningDelay = ''warning must be read for at least 10 seconds''"
| "error_text ErrPasswordConfirmation = ''password confirmation is required''"
| "error_text ErrSecondConfirmation = ''second confirmation is required''"
| "error_text ErrThirdConfirmation = ''third confirmation is required''"
| "error_text ErrConfirmationRequired = ''interactive confirmation is required''"
| "error_text ErrLocalConfirmation = ''interactive confirmation must come from the local control plane''"
| "error_text ErrConfirmationReplay = ''confirmation ID has already been used''"
| "error_text ErrActorRequired = ''confirmation actor is required''"
| "error_text ErrInvalidActor = ''confirmation actor is invalid''"
| "error_text ErrSessionRequired = ''confirmation session is required''"
| "error_text ErrSessionChanged = ''approval session changed''"
| "error_text ErrInvalidConfirmationID = ''confirmation ID is invalid''"
| "error_text ErrConfirmationLanguage = ''confirmation language is unsupported''"
| "error_text ErrConfirmationPhrase = ''confirmation phrase is invalid''"
| "error_text ErrIntentChanged = ''approval intent changed''"
| "error_text ErrWorkflowChanged = ''approval workflow changed''"
| "error_text ErrTTLChanged = ''approval TTL changed''"
| "error_text ErrConfirmationSequence = ''confirmation checkpoints must be completed in order''"
| "error_text ErrReasonRequired = ''audit reason is required''"
| "error_text ErrInvalidReason = ''audit reason is invalid''"
| "error_text ErrScopeChanged = ''approval scope changed''"
| "error_text ErrEpochChanged = ''approval policy epoch changed''"
| "error_text ErrExpired = ''approval request expired''"
| "error_text ErrRevoked = ''approval request revoked''"
| "error_text ErrBreakGlassRequired = ''restricted break-glass authorization is required''"
| "error_text ErrBreakGlassReason = ''break-glass reason is required''"
| "error_text ErrBreakGlassActor = ''break-glass requires a security administrator or tenant owner''"
| "error_text ErrEpochRegression = ''policy epoch cannot move backwards''"
| "error_text ErrTTLExceeded = ''approval TTL exceeds platform limit''"
| "error_text ErrInvalidPersistence = ''invalid approval persistence mutation''"
| "error_text ErrIdempotencyConflict = ''approval persistence idempotency conflict''"
| "error_text ErrEventSequence = ''approval event sequence conflict''"
| "error_text ErrApprovalNotFound = ''persisted approval not found''"
| "error_text ErrBindingConflict = ''approval persistence binding conflict''"
| "error_text (AdapterError e) = e"

subsection \<open>Data\<close>

record Request =
  req_ID :: string
  req_Risk :: RiskLevel
  req_Scope :: string
  req_PolicyEpoch :: u64
  req_TTL :: duration
  req_PreApproved :: bool
  req_Untrusted :: bool
  req_Test :: bool
  req_TokenOperation :: bool
  req_KMSOperation :: bool
  req_ClusterOperation :: bool
  req_BreakGlass :: bool
  req_Actor :: string
  req_SessionID :: string
  req_ConfirmationLanguage :: string
  req_IntentDigest :: string
  req_WorkflowDigest :: string
  req_Nonce :: string

record Confirmation =
  conf_WarningReadAt :: time
  conf_PasswordConfirmed :: bool
  conf_SecondConfirmation :: bool
  conf_ThirdConfirmation :: bool
  conf_ConfirmationID :: string
  conf_Actor :: string
  conf_ActorRole :: ActorRole
  conf_Scope :: string
  conf_PolicyEpoch :: u64
  conf_TTL :: duration
  conf_Local :: bool
  conf_BreakGlass :: bool
  conf_BreakGlassReason :: string
  conf_SessionID :: string
  conf_ConfirmationLanguage :: string
  conf_ConfirmationPhrase :: string
  conf_IntentDigest :: string
  conf_WorkflowDigest :: string
  conf_Nonce :: string
  conf_TOTPConfirmed :: bool
  conf_ConfirmationStep :: u8

definition zero_Confirmation :: Confirmation where
  "zero_Confirmation = \<lparr>conf_WarningReadAt = zero_time, conf_PasswordConfirmed = False,
     conf_SecondConfirmation = False, conf_ThirdConfirmation = False, conf_ConfirmationID = [],
     conf_Actor = [], conf_ActorRole = [], conf_Scope = [], conf_PolicyEpoch = 0, conf_TTL = 0,
     conf_Local = False, conf_BreakGlass = False, conf_BreakGlassReason = [], conf_SessionID = [],
     conf_ConfirmationLanguage = [], conf_ConfirmationPhrase = [], conf_IntentDigest = [],
     conf_WorkflowDigest = [], conf_Nonce = [], conf_TOTPConfirmed = False,
     conf_ConfirmationStep = 0\<rparr>"

record AuthorizationCommit =
  com_RequestID :: string
  com_ConfirmationID :: string
  com_Actor :: string
  com_Scope :: string
  com_PolicyEpoch :: u64
  com_Risk :: RiskLevel
  com_TTL :: duration
  com_IssuedAt :: time
  com_ExpiresAt :: time
  com_WorkflowDigest :: string
  com_SessionID :: string
  com_ConfirmationLanguage :: string
  com_IntentDigest :: string
  com_Nonce :: string

record AuditEvent =
  ev_Sequence :: u64
  ev_Type :: AuditType
  ev_At :: time
  ev_RequestID :: string
  ev_Actor :: string
  ev_Scope :: string
  ev_PolicyEpoch :: u64
  ev_ConfirmationID :: string
  ev_Reason :: string
  ev_WorkflowDigest :: string
  ev_IntentDigest :: string
  ev_SessionID :: string
  ev_ConfirmationStep :: u8
  ev_Nonce :: string
  ev_PreviousHash :: string
  ev_Hash :: string

record Record =
  rec_ID :: string
  rec_Request :: Request
  rec_Status :: Status
  rec_SubmittedAt :: time
  rec_ExpiresAt :: time
  rec_Confirmation :: Confirmation
  rec_Commit :: "AuthorizationCommit option"

subsection \<open>Opaque values, languages and phrases\<close>

definition opaque_rune :: "int \<Rightarrow> bool" where
  "opaque_rune r \<longleftrightarrow> \<not> (is_space r \<or> is_control r \<or> is_format r)"

definition validateOpaque :: "string \<Rightarrow> bool \<Rightarrow> approval_error option" where
  "validateOpaque value required =
     first_error [fail_if (required \<and> value = []) ErrInvalidRequest,
                  fail_if (\<not> valid_utf8 value) ErrInvalidRequest,
                  fail_if (\<not> list_all opaque_rune (runes value)) ErrInvalidRequest]"

definition ValidateIdentifier :: "string \<Rightarrow> approval_error option" where
  "ValidateIdentifier value = validateOpaque value True"

lemma validateOpaque_None:
  "validateOpaque v req = None \<longleftrightarrow>
     (req \<longrightarrow> v \<noteq> []) \<and> valid_utf8 v \<and> list_all opaque_rune (runes v)"
  by (auto simp: validateOpaque_def split: option.splits)

lemma validateOpaque_required:
  "v \<noteq> [] \<Longrightarrow> validateOpaque v True = validateOpaque v False"
  by (simp add: validateOpaque_def)

definition DefaultConfirmationLanguage :: string where
  "DefaultConfirmationLanguage = ''zh-CN''"

definition NormalizeConfirmationLanguage :: "string \<Rightarrow> approval_error + string" where
  "NormalizeConfirmationLanguage value =
     (if value = [] then Inr DefaultConfirmationLanguage
      else if validateOpaque value False \<noteq> None then Inl ErrConfirmationLanguage
      else let l = to_lower value in
        if l \<in> {''zh'', ''zh-cn'', ''zh-hans''} then Inr ''zh-CN''
        else if l \<in> {''zh-tw'', ''zh-hk'', ''zh-hant''} then Inr ''zh-TW''
        else if l \<in> {''en'', ''en-us'', ''en-gb''} then Inr ''en-US''
        else Inl ErrConfirmationLanguage)"

text \<open>The phrases are the UTF-8 bytes of the source's literals.\<close>

definition phrase_zh_CN :: string where
  "phrase_zh_CN = [CHR 0xE7, CHR 0xA1, CHR 0xAE, CHR 0xE8, CHR 0xAE, CHR 0xA4]"

definition phrase_zh_TW :: string where
  "phrase_zh_TW = [CHR 0xE7, CHR 0xA2, CHR 0xBA, CHR 0xE8, CHR 0xAA, CHR 0x8D]"

definition ExpectedConfirmationPhrase :: "string \<Rightarrow> approval_error + string" where
  "ExpectedConfirmationPhrase language =
     (case NormalizeConfirmationLanguage language of
        Inl e \<Rightarrow> Inl e
      | Inr canonical \<Rightarrow>
          if canonical = ''zh-CN'' then Inr phrase_zh_CN
          else if canonical = ''zh-TW'' then Inr phrase_zh_TW
          else if canonical = ''en-US'' then Inr ''CONFIRM''
          else Inl ErrConfirmationLanguage)"

text \<open>A Go call \<open>phrase, _ := f()\<close> that drops the error keeps the zero value.\<close>

definition phrase_or_empty :: "string \<Rightarrow> string" where
  "phrase_or_empty language = (case ExpectedConfirmationPhrase language of Inl _ \<Rightarrow> [] | Inr p \<Rightarrow> p)"

definition validateReason :: "string \<Rightarrow> approval_error option" where
  "validateReason value =
     first_error [fail_if (\<not> valid_utf8 value) ErrInvalidReason,
                  fail_if (length (runes value) > 2048) ErrInvalidReason,
                  fail_if (\<not> list_all (\<lambda>r. \<not> is_control r \<and> \<not> is_format r) (runes value))
                    ErrInvalidReason]"

subsection \<open>Requests\<close>

definition sensitive :: "Request \<Rightarrow> bool" where
  "sensitive r \<longleftrightarrow> req_Untrusted r \<or> req_Test r \<or> req_TokenOperation r \<or> req_KMSOperation r
     \<or> req_ClusterOperation r \<or> req_Risk r = RiskHigh \<or> req_Risk r = RiskEmergency"

definition requiresThirdConfirmation :: "Request \<Rightarrow> bool" where
  "requiresThirdConfirmation r = sensitive r"

definition sensitiveScope :: "string \<Rightarrow> bool" where
  "sensitiveScope scope \<longleftrightarrow> has_prefix scope ''crp:'' \<or> has_prefix scope ''cluster:''
     \<or> has_prefix scope ''kms:'' \<or> has_prefix scope ''token:''"

definition IntentDigestForRequest :: "Request \<Rightarrow> string" where
  "IntentDigestForRequest r = hex_sha256 (json_object (
     [(''id'', json_string (req_ID r)), (''risk'', json_string (req_Risk r)),
      (''scope'', json_string (req_Scope r)), (''policy_epoch'', json_int (uint (req_PolicyEpoch r))),
      (''ttl_ns'', json_int (req_TTL r)), (''pre_approved'', json_bool (req_PreApproved r)),
      (''untrusted'', json_bool (req_Untrusted r)), (''test'', json_bool (req_Test r)),
      (''token_operation'', json_bool (req_TokenOperation r)),
      (''kms_operation'', json_bool (req_KMSOperation r)),
      (''cluster_operation'', json_bool (req_ClusterOperation r)),
      (''break_glass'', json_bool (req_BreakGlass r))]
     @ (if req_WorkflowDigest r = [] then []
        else [(''workflow_digest'', json_string (req_WorkflowDigest r))])))"

definition nonceForRequest :: "Request \<Rightarrow> string" where
  "nonceForRequest r = hex_sha256 (''cheesewaf approval nonce'' @ [CHR 0x00] @ req_ID r
     @ [CHR 0x00] @ req_Scope r @ [CHR 0x00] @ req_Risk r @ [CHR 0x00] @ req_Actor r)"

text \<open>
  The mutation of the request, in the source's order: the scope raises the risk, the language
  is normalised, then a missing nonce and a missing digest are filled in.
\<close>

definition raise_risk :: "Request \<Rightarrow> Request" where
  "raise_risk r = (if sensitiveScope (req_Scope r) \<and> req_Risk r \<noteq> RiskEmergency
                   then r\<lparr>req_Risk := RiskHigh\<rparr> else r)"

definition fill_nonce :: "Request \<Rightarrow> Request" where
  "fill_nonce r = (if req_Nonce r = [] then r\<lparr>req_Nonce := nonceForRequest r\<rparr> else r)"

definition fill_digest :: "Request \<Rightarrow> Request" where
  "fill_digest r = (if req_IntentDigest r = [] then r\<lparr>req_IntentDigest := IntentDigestForRequest r\<rparr>
                    else r)"

definition normalizeRequest :: "Request \<Rightarrow> approval_error + Request" where
  "normalizeRequest r0 =
     (if sensitiveScope (req_Scope r0) \<and> req_PreApproved r0 then Inl ErrInvalidRequest
      else let r = raise_risk r0 in
        case first_error
          [fail_if (validateOpaque (req_ID r) True \<noteq> None) ErrInvalidRequest,
           fail_if (validateOpaque (req_Scope r) True \<noteq> None) ErrInvalidRequest,
           fail_if (validateOpaque (req_Actor r) True \<noteq> None) ErrInvalidRequest,
           fail_if (req_SessionID r \<noteq> [] \<and> validateOpaque (req_SessionID r) False \<noteq> None)
             ErrInvalidRequest,
           fail_if (req_SessionID r = []) ErrInvalidRequest,
           fail_if (req_ConfirmationLanguage r = []) ErrInvalidRequest] of
          Some e \<Rightarrow> Inl e
        | None \<Rightarrow>
          (case NormalizeConfirmationLanguage (req_ConfirmationLanguage r) of
             Inl _ \<Rightarrow> Inl ErrInvalidRequest
           | Inr language \<Rightarrow>
             let r1 = r\<lparr>req_ConfirmationLanguage := language\<rparr> in
             case first_error
               [fail_if (req_WorkflowDigest r1 \<noteq> [] \<and> validateOpaque (req_WorkflowDigest r1) False \<noteq> None)
                  ErrInvalidRequest,
                fail_if (req_Nonce r1 \<noteq> [] \<and> validateOpaque (req_Nonce r1) False \<noteq> None)
                  ErrInvalidRequest] of
               Some e \<Rightarrow> Inl e
             | None \<Rightarrow>
               let r2 = fill_nonce r1 in
               if req_IntentDigest r2 \<noteq> [] \<and> \<not> valid_digest (req_IntentDigest r2)
               then Inl ErrInvalidRequest else Inr (fill_digest r2)))"

definition validateRequest :: "Request \<Rightarrow> approval_error option" where
  "validateRequest r = first_error
     [fail_if (req_ID r = [] \<or> req_Scope r = [] \<or> req_TTL r \<le> 0 \<or> req_Actor r = []
        \<or> req_SessionID r = [] \<or> req_ConfirmationLanguage r = []
        \<or> \<not> valid_digest (req_IntentDigest r) \<or> req_Nonce r = []) ErrInvalidRequest,
      fail_if (validateOpaque (req_ID r) True \<noteq> None \<or> validateOpaque (req_Scope r) True \<noteq> None
        \<or> validateOpaque (req_Actor r) True \<noteq> None \<or> validateOpaque (req_SessionID r) True \<noteq> None
        \<or> validateOpaque (req_Nonce r) True \<noteq> None) ErrInvalidRequest,
      fail_if (NormalizeConfirmationLanguage (req_ConfirmationLanguage r)
                 \<noteq> Inr (req_ConfirmationLanguage r)) ErrInvalidRequest,
      fail_if (req_WorkflowDigest r \<noteq> [] \<and> validateOpaque (req_WorkflowDigest r) False \<noteq> None)
        ErrInvalidRequest,
      fail_if (req_TTL r > MaxApprovalTTL) ErrTTLExceeded,
      fail_if (req_Risk r \<notin> {RiskLow, RiskMedium, RiskHigh, RiskEmergency}) ErrInvalidRequest,
      fail_if (req_Risk r = RiskEmergency \<and> \<not> req_BreakGlass r) ErrBreakGlassRequired,
      fail_if (sensitiveScope (req_Scope r)
        \<and> (req_PreApproved r \<or> (req_Risk r \<noteq> RiskHigh \<and> req_Risk r \<noteq> RiskEmergency)))
        ErrInvalidRequest]"

subsection \<open>Records\<close>

definition commit_checks :: "Record \<Rightarrow> AuthorizationCommit \<Rightarrow> approval_error option" where
  "commit_checks record commit =
     (let req = rec_Request record; confirmation = rec_Confirmation record in first_error
     [fail_if (com_Risk commit \<noteq> req_Risk req \<or> com_TTL commit \<noteq> req_TTL req
        \<or> com_ConfirmationLanguage commit \<noteq> req_ConfirmationLanguage req) ErrInvalidRequest,
      fail_if (\<not> req_PreApproved req
        \<and> (conf_ConfirmationID confirmation = [] \<or> \<not> conf_Local confirmation
           \<or> conf_Actor confirmation \<noteq> com_Actor commit
           \<or> conf_SessionID confirmation \<noteq> com_SessionID commit
           \<or> (requiresThirdConfirmation req
              \<and> (conf_ConfirmationStep confirmation \<noteq> 3 \<or> \<not> conf_ThirdConfirmation confirmation))))
        ErrInvalidRequest,
      fail_if (\<not> req_PreApproved req \<and> (req_Risk req = RiskHigh \<or> req_Risk req = RiskEmergency)
        \<and> (com_Actor commit = req_Actor req \<or> com_SessionID commit = req_SessionID req))
        ErrInvalidActor,
      fail_if (rec_Status record \<noteq> StatusApproved \<or> com_RequestID commit \<noteq> rec_ID record
        \<or> ValidateIdentifier (com_ConfirmationID commit) \<noteq> None
        \<or> ValidateIdentifier (com_Actor commit) \<noteq> None \<or> com_Scope commit \<noteq> req_Scope req
        \<or> com_PolicyEpoch commit \<noteq> req_PolicyEpoch req
        \<or> com_IntentDigest commit \<noteq> req_IntentDigest req
        \<or> com_WorkflowDigest commit \<noteq> req_WorkflowDigest req
        \<or> ValidateIdentifier (com_SessionID commit) \<noteq> None \<or> com_Nonce commit \<noteq> req_Nonce req
        \<or> com_ExpiresAt commit \<noteq> rec_ExpiresAt record \<or> is_zero_time (com_IssuedAt commit)
        \<or> com_IssuedAt commit < rec_SubmittedAt record
        \<or> com_IssuedAt commit > rec_ExpiresAt record) ErrInvalidRequest])"

definition confirmation_checks :: "Record \<Rightarrow> approval_error option" where
  "confirmation_checks record =
     (let req = rec_Request record; confirmation = rec_Confirmation record;
          interactive = \<not> req_PreApproved req in first_error
     [fail_if (rec_Status record \<notin> {StatusPending, StatusApproved, StatusRevoked, StatusExpired})
        ErrInvalidRequest,
      fail_if (ValidateIdentifier (conf_ConfirmationID confirmation) \<noteq> None
        \<or> ValidateIdentifier (conf_Actor confirmation) \<noteq> None
        \<or> ValidateIdentifier (conf_SessionID confirmation) \<noteq> None
        \<or> conf_Scope confirmation \<noteq> req_Scope req
        \<or> conf_PolicyEpoch confirmation \<noteq> req_PolicyEpoch req
        \<or> conf_IntentDigest confirmation \<noteq> req_IntentDigest req
        \<or> conf_WorkflowDigest confirmation \<noteq> req_WorkflowDigest req
        \<or> conf_Nonce confirmation \<noteq> req_Nonce req
        \<or> conf_ConfirmationLanguage confirmation \<noteq> req_ConfirmationLanguage req
        \<or> conf_ConfirmationPhrase confirmation = [] \<or> conf_TTL confirmation \<noteq> req_TTL req
        \<or> (rec_Status record = StatusApproved
           \<and> (case rec_Commit record of None \<Rightarrow> False
              | Some commit \<Rightarrow> conf_ConfirmationID confirmation \<noteq> com_ConfirmationID commit))
        \<or> (interactive
           \<and> (is_zero_time (conf_WarningReadAt confirmation)
              \<or> \<not> conf_SecondConfirmation confirmation
              \<or> (\<not> conf_PasswordConfirmed confirmation \<and> \<not> conf_TOTPConfirmed confirmation)
              \<or> conf_ConfirmationStep confirmation < 2 \<or> conf_ConfirmationStep confirmation > 3
              \<or> (requiresThirdConfirmation req \<and> conf_ConfirmationStep confirmation = 3
                 \<and> \<not> conf_ThirdConfirmation confirmation)))) ErrInvalidRequest,
      fail_if (ExpectedConfirmationPhrase (conf_ConfirmationLanguage confirmation)
                 \<noteq> Inr (conf_ConfirmationPhrase confirmation)) ErrInvalidRequest])"

definition ValidateRecordForAdapter :: "Record \<Rightarrow> approval_error option" where
  "ValidateRecordForAdapter record = first_error
     [fail_if (ValidateIdentifier (rec_ID record) \<noteq> None
        \<or> req_ID (rec_Request record) \<noteq> rec_ID record) ErrInvalidRequest,
      validateRequest (rec_Request record),
      fail_if (is_zero_time (rec_SubmittedAt record) \<or> is_zero_time (rec_ExpiresAt record)
        \<or> rec_ExpiresAt record < rec_SubmittedAt record
        \<or> rec_ExpiresAt record \<noteq> rec_SubmittedAt record + req_TTL (rec_Request record))
        ErrInvalidRequest,
      fail_if (rec_Status record \<notin> {StatusPending, StatusApproved, StatusRevoked, StatusExpired})
        ErrInvalidRequest,
      fail_if (rec_Status record = StatusApproved \<and> rec_Commit record = None) ErrInvalidRequest,
      (case rec_Commit record of None \<Rightarrow> None | Some commit \<Rightarrow> commit_checks record commit),
      (if conf_ConfirmationID (rec_Confirmation record) \<noteq> [] then confirmation_checks record
       else None)]"

definition sameCheckpoint :: "Confirmation \<Rightarrow> Confirmation \<Rightarrow> approval_error option" where
  "sameCheckpoint previous current = first_error
     [fail_if (conf_ConfirmationID previous \<noteq> conf_ConfirmationID current) ErrConfirmationReplay,
      fail_if (conf_Scope previous \<noteq> conf_Scope current) ErrScopeChanged,
      fail_if (conf_IntentDigest previous \<noteq> conf_IntentDigest current) ErrIntentChanged,
      fail_if (conf_Nonce previous \<noteq> conf_Nonce current) ErrIntentChanged,
      fail_if (conf_PolicyEpoch previous \<noteq> conf_PolicyEpoch current) ErrEpochChanged,
      fail_if (conf_SessionID previous \<noteq> conf_SessionID current) ErrSessionChanged,
      fail_if (conf_ConfirmationLanguage previous \<noteq> conf_ConfirmationLanguage current
        \<or> conf_ConfirmationPhrase previous \<noteq> conf_ConfirmationPhrase current) ErrConfirmationLanguage,
      fail_if (is_zero_time (conf_WarningReadAt previous)
        \<or> conf_WarningReadAt previous \<noteq> conf_WarningReadAt current) ErrConfirmationSequence,
      fail_if (conf_Actor previous \<noteq> conf_Actor current \<or> conf_ActorRole previous \<noteq> conf_ActorRole current
        \<or> conf_Local previous \<noteq> conf_Local current \<or> conf_BreakGlass previous \<noteq> conf_BreakGlass current
        \<or> conf_BreakGlassReason previous \<noteq> conf_BreakGlassReason current
        \<or> conf_PasswordConfirmed previous \<noteq> conf_PasswordConfirmed current
        \<or> conf_TOTPConfirmed previous \<noteq> conf_TOTPConfirmed current
        \<or> conf_SecondConfirmation previous \<noteq> conf_SecondConfirmation current) ErrConfirmationSequence]"

end
