(* ===== verification/Approval_Gate.thy ===== *)
theory Approval_Gate
  imports Approval_Types
begin

text \<open>
  The approval gate of \<open>internal/approval/gate.go\<close>: the state, its snapshot and
  rollback, the durable ledger it may be bound to, and every operation that changes it. All
  operations run under the gate's mutex, so each is one function from the state before to the
  result and the state after.

  The ledger is an interface value. The gate calls its methods and, by type assertion, the
  methods of optional stronger interfaces; \<open>Persistence\<close> holds one function per
  method, an optional method being an option. The adapter's own state has the type variable
  \<open>'p\<close>. Contexts are passed on to the adapter unchanged and are not represented.
\<close>

subsection \<open>The durable ledger\<close>

record ApprovalMutation =
  mut_IdempotencyKey :: string
  mut_WorkflowDigest :: string
  mut_Record :: Record
  mut_Event :: AuditEvent

record 'p Persistence =
  p_Apply :: "'p \<Rightarrow> ApprovalMutation \<Rightarrow> approval_error option \<times> 'p"
  p_Load :: "'p \<Rightarrow> string \<Rightarrow> approval_error + Record"
  p_Events :: "'p \<Rightarrow> string \<Rightarrow> approval_error + AuditEvent list"
  p_LoadWithEvents :: "('p \<Rightarrow> string \<Rightarrow> approval_error + Record \<times> AuditEvent list) option"
  p_LoadWithEventsAtEpoch :: "('p \<Rightarrow> string \<Rightarrow> u64 \<Rightarrow> approval_error + Record \<times> AuditEvent list) option"
  p_ApplyBatch :: "('p \<Rightarrow> ApprovalMutation list \<Rightarrow> approval_error option \<times> 'p) option"
  p_ApplyAtEpoch :: "('p \<Rightarrow> u64 \<Rightarrow> ApprovalMutation \<Rightarrow> approval_error option \<times> 'p) option"
  p_ApplyBatchAtEpoch :: "('p \<Rightarrow> u64 \<Rightarrow> ApprovalMutation list \<Rightarrow> approval_error option \<times> 'p) option"
  p_CompareAndSetEpoch :: "('p \<Rightarrow> u64 \<Rightarrow> u64 \<Rightarrow> approval_error option \<times> 'p) option"
  p_PolicyEpoch :: "('p \<Rightarrow> approval_error + u64) option"
  p_ListIDs :: "('p \<Rightarrow> approval_error + string list) option"

subsection \<open>The gate\<close>

record 'p Gate =
  policyEpoch :: u64
  requests :: "string \<rightharpoonup> Record"
  usedIDs :: "string set"
  confirmationOwners :: "string \<rightharpoonup> string"
  audit :: "AuditEvent list"
  gate_sequence :: u64
  persistence :: "('p Persistence \<times> 'p) option"
  durableSequences :: "string \<rightharpoonup> u64"

definition NewGate :: "u64 \<Rightarrow> 'p Gate" where
  "NewGate epoch = \<lparr>policyEpoch = epoch, requests = Map.empty, usedIDs = {},
     confirmationOwners = Map.empty, audit = [], gate_sequence = 0, persistence = None,
     durableSequences = Map.empty\<rparr>"

definition NewGateWithPersistence ::
    "u64 \<Rightarrow> ('p Persistence \<times> 'p) option \<Rightarrow> approval_error + 'p Gate" where
  "NewGateWithPersistence epoch p =
     (case p of None \<Rightarrow> Inl ErrInvalidPersistence
      | Some ap \<Rightarrow> Inr ((NewGate epoch)\<lparr>persistence := Some ap\<rparr>))"

definition BindPersistence ::
    "('p Persistence \<times> 'p) option \<Rightarrow> 'p Gate \<Rightarrow> approval_error option \<times> 'p Gate" where
  "BindPersistence p g =
     (case p of None \<Rightarrow> (Some ErrInvalidPersistence, g)
      | Some ap \<Rightarrow>
          if persistence g \<noteq> None \<or> map_len (requests g) \<noteq> 0 \<or> length (audit g) \<noteq> 0
          then (Some ErrBindingConflict, g)
          else (None, g\<lparr>persistence := Some ap\<rparr>))"

record gateSnapshot =
  snap_requests :: "string \<rightharpoonup> Record"
  snap_used :: "string set"
  snap_owners :: "string \<rightharpoonup> string"
  snap_audit :: "AuditEvent list"
  snap_sequence :: u64
  snap_durable :: "string \<rightharpoonup> u64"

definition snapshot :: "'p Gate \<Rightarrow> gateSnapshot" where
  "snapshot g = \<lparr>snap_requests = requests g, snap_used = usedIDs g,
     snap_owners = confirmationOwners g, snap_audit = audit g, snap_sequence = gate_sequence g,
     snap_durable = durableSequences g\<rparr>"

definition restore :: "gateSnapshot \<Rightarrow> 'p Gate \<Rightarrow> 'p Gate" where
  "restore s g = g\<lparr>requests := snap_requests s, usedIDs := snap_used s,
     confirmationOwners := snap_owners s, audit := snap_audit s, gate_sequence := snap_sequence s,
     durableSequences := snap_durable s\<rparr>"

definition appendAudit ::
    "time \<Rightarrow> AuditType \<Rightarrow> string \<Rightarrow> string \<Rightarrow> string \<Rightarrow> u64 \<Rightarrow> string \<Rightarrow> string \<Rightarrow> 'p Gate \<Rightarrow> 'p Gate" where
  "appendAudit now typ requestID actor scope epoch confirmationID reason g =
     (let seq = gate_sequence g + 1;
          event = \<lparr>ev_Sequence = seq, ev_Type = typ, ev_At = now, ev_RequestID = requestID,
            ev_Actor = actor, ev_Scope = scope, ev_PolicyEpoch = epoch,
            ev_ConfirmationID = confirmationID, ev_Reason = reason, ev_WorkflowDigest = [],
            ev_IntentDigest = [], ev_SessionID = [], ev_ConfirmationStep = 0, ev_Nonce = [],
            ev_PreviousHash = [], ev_Hash = []\<rparr>;
          event' = (case requests g requestID of None \<Rightarrow> event
            | Some record \<Rightarrow> event\<lparr>
                ev_WorkflowDigest := req_WorkflowDigest (rec_Request record),
                ev_IntentDigest := req_IntentDigest (rec_Request record),
                ev_SessionID := req_SessionID (rec_Request record),
                ev_ConfirmationStep := conf_ConfirmationStep (rec_Confirmation record),
                ev_Nonce := req_Nonce (rec_Request record)\<rparr>)
      in g\<lparr>gate_sequence := seq, audit := audit g @ [event']\<rparr>)"

subsection \<open>Writing through to the ledger\<close>

text \<open>Numbering the new events of one request with its durable sequence.\<close>

fun ledger_batch :: "string \<Rightarrow> Record \<Rightarrow> u64 \<Rightarrow> AuditEvent list \<Rightarrow> ApprovalMutation list" where
  "ledger_batch requestID record n [] = []"
| "ledger_batch requestID record n (e # es) =
     (let n' = n + 1 in
      \<lparr>mut_IdempotencyKey = ''gate:'' @ requestID @ '':'' @ decimal (uint n'),
       mut_WorkflowDigest = req_WorkflowDigest (rec_Request record), mut_Record = record,
       mut_Event = e\<lparr>ev_Sequence := n'\<rparr>\<rparr> # ledger_batch requestID record n' es)"

definition zero_Record :: Record where
  "zero_Record = \<lparr>rec_ID = [],
     rec_Request = \<lparr>req_ID = [], req_Risk = [], req_Scope = [], req_PolicyEpoch = 0, req_TTL = 0,
       req_PreApproved = False, req_Untrusted = False, req_Test = False, req_TokenOperation = False,
       req_KMSOperation = False, req_ClusterOperation = False, req_BreakGlass = False, req_Actor = [],
       req_SessionID = [], req_ConfirmationLanguage = [], req_IntentDigest = [],
       req_WorkflowDigest = [], req_Nonce = []\<rparr>,
     rec_Status = [], rec_SubmittedAt = zero_time, rec_ExpiresAt = zero_time,
     rec_Confirmation = zero_Confirmation, rec_Commit = None\<rparr>"

text \<open>
  Which method of the adapter a batch goes to: more than one mutation needs an atomic method,
  and an adapter that fences single writes by epoch must also offer the fenced batch.
\<close>

definition ledger_write ::
    "'p Persistence \<Rightarrow> 'p \<Rightarrow> u64 \<Rightarrow> ApprovalMutation list \<Rightarrow> approval_error option \<times> 'p" where
  "ledger_write api p epoch batch =
     (if length batch > 1 then
        (case p_ApplyBatchAtEpoch api of
           Some f \<Rightarrow> f p epoch batch
         | None \<Rightarrow>
             if p_ApplyAtEpoch api \<noteq> None then (Some ErrInvalidPersistence, p)
             else (case p_ApplyBatch api of
                     None \<Rightarrow> (Some ErrInvalidPersistence, p)
                   | Some f \<Rightarrow> f p batch))
      else if length batch = 1 then
        (case p_ApplyAtEpoch api of
           Some f \<Rightarrow> f p epoch (hd batch)
         | None \<Rightarrow>
             (case p_ApplyBatchAtEpoch api of
                Some f \<Rightarrow> f p epoch batch
              | None \<Rightarrow> p_Apply api p (hd batch)))
      else (None, p))"

definition persistSince :: "nat \<Rightarrow> string \<Rightarrow> 'p Gate \<Rightarrow> approval_error option \<times> 'p Gate" where
  "persistSince start requestID g =
     (case persistence g of
        None \<Rightarrow> (None, g)
      | Some (api, p) \<Rightarrow>
          let n = lookup_or 0 (durableSequences g) requestID;
              record = lookup_or zero_Record (requests g) requestID;
              events = filter (\<lambda>e. ev_RequestID e = requestID) (drop start (audit g));
              batch = ledger_batch requestID record n events
          in case ledger_write api p (policyEpoch g) batch of
               (Some e, p') \<Rightarrow> (Some e, g\<lparr>persistence := Some (api, p')\<rparr>)
             | (None, p') \<Rightarrow> (None, g\<lparr>persistence := Some (api, p'),
                 durableSequences := (durableSequences g)(requestID \<mapsto> n + of_nat (length events))\<rparr>))"

text \<open>
  The deferred function of \<open>Confirm\<close>: with a ledger bound, whatever the operation
  returned is written through, and a failure undoes the in-memory change and replaces the
  result. The other operations run it only when they succeeded.
\<close>

definition write_through ::
    "'p Gate \<Rightarrow> string \<Rightarrow> (approval_error + 'a) \<times> 'p Gate \<Rightarrow> (approval_error + 'a) \<times> 'p Gate" where
  "write_through g0 requestID rg =
     (case persistSince (length (audit g0)) requestID (snd rg) of
        (Some e, g') \<Rightarrow> (Inl e, restore (snapshot g0) g')
      | (None, g') \<Rightarrow> (fst rg, g'))"

definition write_through_ok ::
    "'p Gate \<Rightarrow> string \<Rightarrow> (approval_error + 'a) \<times> 'p Gate \<Rightarrow> (approval_error + 'a) \<times> 'p Gate" where
  "write_through_ok g0 requestID rg =
     (case fst rg of Inl e \<Rightarrow> rg | Inr _ \<Rightarrow> write_through g0 requestID rg)"

subsection \<open>Submit\<close>

definition preapproved :: "Request \<Rightarrow> bool" where
  "preapproved req \<longleftrightarrow> req_PreApproved req \<and> req_Risk req = RiskLow \<and> \<not> sensitive req
     \<and> \<not> req_BreakGlass req"

definition pending_record :: "time \<Rightarrow> Request \<Rightarrow> Record" where
  "pending_record now req = \<lparr>rec_ID = req_ID req, rec_Request = req, rec_Status = StatusPending,
     rec_SubmittedAt = now, rec_ExpiresAt = now + req_TTL req,
     rec_Confirmation = zero_Confirmation, rec_Commit = None\<rparr>"

definition preapproved_record :: "time \<Rightarrow> Request \<Rightarrow> Record" where
  "preapproved_record now req =
     (let id = ''preapproved:'' @ req_ID req; record = pending_record now req
      in record\<lparr>rec_Status := StatusApproved,
        rec_Commit := Some \<lparr>com_RequestID = req_ID req, com_ConfirmationID = id,
          com_Actor = req_Actor req, com_Scope = req_Scope req, com_PolicyEpoch = req_PolicyEpoch req,
          com_Risk = req_Risk req, com_TTL = req_TTL req, com_IssuedAt = now,
          com_ExpiresAt = rec_ExpiresAt record, com_WorkflowDigest = req_WorkflowDigest req,
          com_SessionID = req_SessionID req,
          com_ConfirmationLanguage = req_ConfirmationLanguage req,
          com_IntentDigest = req_IntentDigest req, com_Nonce = req_Nonce req\<rparr>,
        rec_Confirmation := zero_Confirmation\<lparr>conf_ConfirmationID := id,
          conf_Actor := req_Actor req, conf_Scope := req_Scope req,
          conf_PolicyEpoch := req_PolicyEpoch req, conf_TTL := req_TTL req,
          conf_SessionID := req_SessionID req,
          conf_ConfirmationLanguage := req_ConfirmationLanguage req,
          conf_ConfirmationPhrase := phrase_or_empty (req_ConfirmationLanguage req),
          conf_IntentDigest := req_IntentDigest req, conf_WorkflowDigest := req_WorkflowDigest req,
          conf_Nonce := req_Nonce req\<rparr>\<rparr>)"

definition submit_core ::
    "time \<Rightarrow> Request \<Rightarrow> 'p Gate \<Rightarrow> (approval_error + Record) \<times> 'p Gate" where
  "submit_core now req0 g =
     (case normalizeRequest req0 of
        Inl e \<Rightarrow> (Inl e, g)
      | Inr req \<Rightarrow>
        (case validateRequest req of
           Some e \<Rightarrow> (Inl e, g)
         | None \<Rightarrow>
           if req_PolicyEpoch req \<noteq> policyEpoch g then (Inl ErrEpochChanged, g)
           else if requests g (req_ID req) \<noteq> None then (Inl ErrDuplicateRequest, g)
           else
             let record = (if preapproved req then preapproved_record now req
                           else pending_record now req);
                 g1 = g\<lparr>requests := (requests g)(req_ID req \<mapsto> record)\<rparr>;
                 g2 = appendAudit now AuditSubmitted (req_ID req) (req_Actor req) (req_Scope req)
                        (req_PolicyEpoch req) [] [] g1
             in (Inr record,
                 (case rec_Commit record of
                    None \<Rightarrow> g2
                  | Some commit \<Rightarrow>
                      appendAudit now AuditAuthorized (req_ID req) (req_Actor req) (req_Scope req)
                        (req_PolicyEpoch req) (com_ConfirmationID commit) ''pre-approved''
                        (g2\<lparr>usedIDs := insert (com_ConfirmationID commit) (usedIDs g2)\<rparr>)))))"

definition Submit ::
    "time \<Rightarrow> Request \<Rightarrow> 'p Gate \<Rightarrow> (approval_error + Record) \<times> 'p Gate" where
  "Submit now req g = write_through_ok g (req_ID req) (submit_core now req g)"

subsection \<open>Confirm\<close>

text \<open>The checks of \<open>Confirm\<close> that reject with an audited error, in the source's order.\<close>

definition confirm_guards ::
    "'p Gate \<Rightarrow> time \<Rightarrow> string \<Rightarrow> Record \<Rightarrow> Confirmation \<Rightarrow> approval_error option" where
  "confirm_guards g now requestID record c = (let req = rec_Request record in first_error
    ([fail_if (req_PolicyEpoch req \<noteq> policyEpoch g \<or> conf_PolicyEpoch c \<noteq> req_PolicyEpoch req)
       ErrEpochChanged,
     fail_if (conf_Scope c \<noteq> req_Scope req) ErrScopeChanged,
     fail_if (conf_Actor c = []) ErrActorRequired,
     fail_if (validateOpaque (conf_Actor c) False \<noteq> None) ErrInvalidActor,
     fail_if (conf_ConfirmationID c = []) ErrConfirmationRequired,
     fail_if (validateOpaque (conf_ConfirmationID c) False \<noteq> None) ErrInvalidConfirmationID,
     fail_if (conf_ConfirmationID c \<in> usedIDs g) ErrConfirmationReplay,
     fail_if (case confirmationOwners g (conf_ConfirmationID c) of None \<Rightarrow> False
              | Some owner \<Rightarrow> owner \<noteq> requestID) ErrConfirmationReplay,
     fail_if (\<not> conf_Local c) ErrLocalConfirmation,
     fail_if (conf_SessionID c = []) ErrSessionRequired,
     fail_if (validateOpaque (conf_SessionID c) False \<noteq> None) ErrSessionRequired,
     fail_if ((req_Risk req = RiskHigh \<or> req_Risk req = RiskEmergency)
        \<and> (conf_Actor c = req_Actor req \<or> conf_SessionID c = req_SessionID req)) ErrInvalidActor,
     fail_if (req_Risk req \<noteq> RiskHigh \<and> req_Risk req \<noteq> RiskEmergency
        \<and> conf_SessionID c \<noteq> req_SessionID req) ErrSessionChanged,
     fail_if (conf_ConfirmationLanguage c = []) ErrConfirmationLanguage,
     fail_if (NormalizeConfirmationLanguage (conf_ConfirmationLanguage c)
                \<noteq> Inr (req_ConfirmationLanguage req)) ErrConfirmationLanguage,
     fail_if (conf_ConfirmationPhrase c \<noteq> phrase_or_empty (req_ConfirmationLanguage req))
       ErrConfirmationPhrase,
     fail_if (conf_IntentDigest c \<noteq> req_IntentDigest req) ErrIntentChanged,
     fail_if (conf_WorkflowDigest c \<noteq> req_WorkflowDigest req) ErrWorkflowChanged,
     fail_if (conf_Nonce c = [] \<or> conf_Nonce c \<noteq> req_Nonce req) ErrIntentChanged,
     fail_if (conf_TTL c \<noteq> 0 \<and> conf_TTL c \<noteq> req_TTL req) ErrTTLChanged,
     fail_if (is_zero_time (conf_WarningReadAt c) \<or> conf_WarningReadAt c > now
        \<or> time_sub now (conf_WarningReadAt c) < WarningDelay) ErrWarningDelay,
     fail_if (\<not> conf_PasswordConfirmed c \<and> \<not> conf_TOTPConfirmed c) ErrPasswordConfirmation,
     fail_if (\<not> conf_SecondConfirmation c) ErrSecondConfirmation]
    @ (if req_Risk req = RiskEmergency then
        [fail_if (\<not> req_BreakGlass req \<or> \<not> conf_BreakGlass c) ErrBreakGlassRequired,
         fail_if (trim_space (conf_BreakGlassReason c) = []) ErrBreakGlassReason,
         fail_if (validateReason (conf_BreakGlassReason c) \<noteq> None) ErrInvalidReason,
         fail_if (conf_ActorRole c \<noteq> RoleSecurityAdmin \<and> conf_ActorRole c \<noteq> RoleTenantOwner)
           ErrBreakGlassActor]
       else [])))"

text \<open>
  The checkpoint logic after the guards: a sensitive request needs a recorded second
  confirmation before the third one, by the same person in the same session.
\<close>

definition confirm_checkpoint :: "Record \<Rightarrow> Confirmation \<Rightarrow> approval_error option" where
  "confirm_checkpoint record c =
     (if requiresThirdConfirmation (rec_Request record) then
        (if \<not> conf_ThirdConfirmation c then
           (if conf_ConfirmationID (rec_Confirmation record) \<noteq> []
            then sameCheckpoint (rec_Confirmation record) c else None)
         else if conf_ConfirmationID (rec_Confirmation record) = []
                 \<or> conf_ConfirmationStep (rec_Confirmation record) < 2
         then Some ErrConfirmationSequence
         else sameCheckpoint (rec_Confirmation record) c)
      else None)"

definition commit_of :: "time \<Rightarrow> string \<Rightarrow> Record \<Rightarrow> Confirmation \<Rightarrow> AuthorizationCommit" where
  "commit_of now requestID record c =
     \<lparr>com_RequestID = requestID, com_ConfirmationID = conf_ConfirmationID c,
      com_Actor = conf_Actor c, com_Scope = conf_Scope c, com_PolicyEpoch = conf_PolicyEpoch c,
      com_Risk = req_Risk (rec_Request record), com_TTL = req_TTL (rec_Request record),
      com_IssuedAt = now, com_ExpiresAt = rec_ExpiresAt record,
      com_WorkflowDigest = req_WorkflowDigest (rec_Request record),
      com_SessionID = conf_SessionID c,
      com_ConfirmationLanguage = conf_ConfirmationLanguage c,
      com_IntentDigest = conf_IntentDigest c, com_Nonce = req_Nonce (rec_Request record)\<rparr>"

definition record_checkpoint ::
    "time \<Rightarrow> string \<Rightarrow> Record \<Rightarrow> Confirmation \<Rightarrow> 'p Gate \<Rightarrow> 'p Gate" where
  "record_checkpoint now requestID record c g =
     appendAudit now AuditCheckpoint requestID (conf_Actor c) (conf_Scope c) (conf_PolicyEpoch c)
       (conf_ConfirmationID c) ''second confirmation recorded; third confirmation required''
       (if conf_ConfirmationID (rec_Confirmation record) \<noteq> [] then g
        else let c' = c\<lparr>conf_TTL := req_TTL (rec_Request record), conf_ConfirmationStep := 2\<rparr>
             in g\<lparr>requests := (requests g)(requestID \<mapsto> record\<lparr>rec_Confirmation := c'\<rparr>),
                 confirmationOwners := (confirmationOwners g)(conf_ConfirmationID c \<mapsto> requestID)\<rparr>)"

definition authorize ::
    "time \<Rightarrow> string \<Rightarrow> Record \<Rightarrow> Confirmation \<Rightarrow> 'p Gate \<Rightarrow> AuthorizationCommit \<times> 'p Gate" where
  "authorize now requestID record c g =
     (let c' = c\<lparr>conf_ConfirmationStep :=
                   (if requiresThirdConfirmation (rec_Request record) then 3 else 2),
                 conf_TTL := req_TTL (rec_Request record)\<rparr>;
          commit = commit_of now requestID record c';
          record' = record\<lparr>rec_Status := StatusApproved, rec_Confirmation := c',
                           rec_Commit := Some commit\<rparr>
      in (commit,
          appendAudit now AuditAuthorized requestID (conf_Actor c') (conf_Scope c')
            (conf_PolicyEpoch c') (conf_ConfirmationID c') ''interactive confirmation''
            (g\<lparr>requests := (requests g)(requestID \<mapsto> record'),
               usedIDs := insert (conf_ConfirmationID c') (usedIDs g)\<rparr>)))"

definition confirm_reject ::
    "time \<Rightarrow> string \<Rightarrow> Record \<Rightarrow> Confirmation \<Rightarrow> approval_error \<Rightarrow> 'p Gate
       \<Rightarrow> (approval_error + AuthorizationCommit) \<times> 'p Gate" where
  "confirm_reject now requestID record c e g =
     (Inl e, appendAudit now AuditRejected requestID (conf_Actor c) (req_Scope (rec_Request record))
        (req_PolicyEpoch (rec_Request record)) (conf_ConfirmationID c) (error_text e) g)"

definition confirm_core ::
    "time \<Rightarrow> string \<Rightarrow> Confirmation \<Rightarrow> 'p Gate \<Rightarrow> (approval_error + AuthorizationCommit) \<times> 'p Gate" where
  "confirm_core now requestID c0 g =
     (case requests g requestID of
        None \<Rightarrow> (Inl ErrNotFound, g)
      | Some record \<Rightarrow>
          let req = rec_Request record;
              reject = (\<lambda>c e. confirm_reject now requestID record c e g) in
          if rec_Status record = StatusRevoked then reject c0 ErrRevoked
          else if rec_Status record = StatusExpired then reject c0 ErrExpired
          else if rec_Status record \<noteq> StatusPending then reject c0 ErrNotPending
          else if \<not> now < rec_ExpiresAt record then
            (Inl ErrExpired,
             appendAudit now AuditExpired requestID (conf_Actor c0) (req_Scope req)
               (req_PolicyEpoch req) (conf_ConfirmationID c0) ''TTL elapsed''
               (g\<lparr>requests := (requests g)(requestID \<mapsto> record\<lparr>rec_Status := StatusExpired\<rparr>)\<rparr>))
          else case confirm_guards g now requestID record c0 of
            Some e \<Rightarrow> reject c0 e
          | None \<Rightarrow>
            let c = c0\<lparr>conf_ConfirmationLanguage := req_ConfirmationLanguage req\<rparr> in
            (case confirm_checkpoint record c of
               Some e \<Rightarrow> reject c e
             | None \<Rightarrow>
                 if requiresThirdConfirmation req \<and> \<not> conf_ThirdConfirmation c
                 then (Inl ErrThirdConfirmation, record_checkpoint now requestID record c g)
                 else let (commit, g') = authorize now requestID record c g in (Inr commit, g')))"

definition Confirm ::
    "time \<Rightarrow> string \<Rightarrow> Confirmation \<Rightarrow> 'p Gate \<Rightarrow> (approval_error + AuthorizationCommit) \<times> 'p Gate" where
  "Confirm now requestID c g = write_through g requestID (confirm_core now requestID c g)"

subsection \<open>Revoke, AdvanceEpoch, ConsumeAuthorization\<close>

definition revoke_core ::
    "time \<Rightarrow> string \<Rightarrow> string \<Rightarrow> string \<Rightarrow> 'p Gate \<Rightarrow> (approval_error + unit) \<times> 'p Gate" where
  "revoke_core now requestID actor reason g =
     (case requests g requestID of
        None \<Rightarrow> (Inl ErrNotFound, g)
      | Some record \<Rightarrow>
          (case first_error
             [fail_if (rec_Status record = StatusRevoked) ErrRevoked,
              fail_if (actor = []) ErrActorRequired,
              fail_if (validateOpaque actor False \<noteq> None) ErrInvalidActor,
              fail_if (trim_space reason = []) ErrReasonRequired,
              fail_if (validateReason reason \<noteq> None) ErrInvalidReason] of
             Some e \<Rightarrow> (Inl e, g)
           | None \<Rightarrow>
               (Inr (),
                appendAudit now AuditRevoked requestID actor (req_Scope (rec_Request record))
                  (req_PolicyEpoch (rec_Request record)) [] reason
                  (g\<lparr>requests := (requests g)(requestID \<mapsto>
                       record\<lparr>rec_Status := StatusRevoked, rec_Commit := None\<rparr>)\<rparr>))))"

definition Revoke ::
    "time \<Rightarrow> string \<Rightarrow> string \<Rightarrow> string \<Rightarrow> 'p Gate \<Rightarrow> (approval_error + unit) \<times> 'p Gate" where
  "Revoke now requestID actor reason g =
     write_through_ok g requestID (revoke_core now requestID actor reason g)"

definition AdvanceEpoch :: "u64 \<Rightarrow> 'p Gate \<Rightarrow> approval_error option \<times> 'p Gate" where
  "AdvanceEpoch epoch g =
     (if epoch < policyEpoch g then (Some ErrEpochRegression, g)
      else case persistence g of
        None \<Rightarrow> (None, g\<lparr>policyEpoch := epoch\<rparr>)
      | Some (api, p) \<Rightarrow>
          (case p_CompareAndSetEpoch api of
             None \<Rightarrow> (Some ErrInvalidPersistence, g)
           | Some cas \<Rightarrow>
               (case cas p (policyEpoch g) epoch of
                  (Some e, p') \<Rightarrow> (Some e, g\<lparr>persistence := Some (api, p')\<rparr>)
                | (None, p') \<Rightarrow> (None, g\<lparr>persistence := Some (api, p'), policyEpoch := epoch\<rparr>))))"

definition consume_checks ::
    "time \<Rightarrow> Record \<Rightarrow> string \<Rightarrow> string \<Rightarrow> u64 \<Rightarrow> approval_error option" where
  "consume_checks now record scope intentDigest epoch = first_error
     [fail_if (rec_Status record \<noteq> StatusApproved \<or> rec_Commit record = None) ErrNotPending,
      fail_if (req_PolicyEpoch (rec_Request record) \<noteq> epoch) ErrEpochChanged,
      fail_if (\<not> now < rec_ExpiresAt record) ErrExpired,
      fail_if (req_Scope (rec_Request record) \<noteq> scope
        \<or> req_IntentDigest (rec_Request record) \<noteq> intentDigest) ErrIntentChanged,
      ValidateRecordForAdapter record]"

definition consume_core ::
    "time \<Rightarrow> string \<Rightarrow> string \<Rightarrow> Record \<Rightarrow> 'p Gate \<Rightarrow> (approval_error + unit) \<times> 'p Gate" where
  "consume_core now requestID scope record g =
     (Inr (),
      appendAudit now AuditRevoked requestID (conf_Actor (rec_Confirmation record)) scope
        (req_PolicyEpoch (rec_Request record))
        (conf_ConfirmationID (rec_Confirmation record)) ''authorization consumed''
        (g\<lparr>requests := (requests g)(requestID \<mapsto>
             record\<lparr>rec_Status := StatusRevoked, rec_Commit := None\<rparr>)\<rparr>))"

definition ConsumeAuthorization ::
    "time \<Rightarrow> string \<Rightarrow> string \<Rightarrow> string \<Rightarrow> 'p Gate \<Rightarrow> (approval_error + unit) \<times> 'p Gate" where
  "ConsumeAuthorization now requestID scope intentDigest g =
     (case requests g requestID of
        None \<Rightarrow> (Inl ErrNotFound, g)
      | Some record \<Rightarrow>
          (case consume_checks now record scope intentDigest (policyEpoch g) of
             Some e \<Rightarrow> (Inl e, g)
           | None \<Rightarrow> write_through g requestID (consume_core now requestID scope record g)))"

subsection \<open>Restoring from the ledger\<close>

definition ledger_load :: "'p Persistence \<Rightarrow> 'p \<Rightarrow> string \<Rightarrow> approval_error + Record \<times> AuditEvent list" where
  "ledger_load api p requestID =
     (case p_LoadWithEvents api of
        Some f \<Rightarrow> f p requestID
      | None \<Rightarrow> (case p_Load api p requestID of
           Inl e \<Rightarrow> Inl e
         | Inr record \<Rightarrow> (case p_Events api p requestID of Inl e \<Rightarrow> Inl e | Inr es \<Rightarrow> Inr (record, es))))"

definition ledger_restore_load ::
    "'p Persistence \<Rightarrow> 'p \<Rightarrow> u64 \<Rightarrow> string \<Rightarrow> approval_error + Record \<times> AuditEvent list" where
  "ledger_restore_load api p epoch requestID =
     (case p_LoadWithEventsAtEpoch api of
        Some f \<Rightarrow> f p requestID epoch
      | None \<Rightarrow>
          (case p_PolicyEpoch api of
             None \<Rightarrow> ledger_load api p requestID
           | Some pe \<Rightarrow>
               (case pe p of
                  Inl e \<Rightarrow> Inl e
                | Inr persisted \<Rightarrow> if persisted \<noteq> epoch then Inl ErrEpochChanged
                    else ledger_load api p requestID)))"

definition event_bound :: "Record \<Rightarrow> AuditEvent \<Rightarrow> bool" where
  "event_bound record e \<longleftrightarrow> ev_RequestID e = rec_ID record
     \<and> ev_Scope e = req_Scope (rec_Request record)
     \<and> ev_PolicyEpoch e = req_PolicyEpoch (rec_Request record)
     \<and> ev_IntentDigest e = req_IntentDigest (rec_Request record)
     \<and> ev_SessionID e = req_SessionID (rec_Request record)
     \<and> ev_Nonce e = req_Nonce (rec_Request record)"

definition replay_event :: "string \<Rightarrow> AuditEvent \<Rightarrow> 'p Gate \<Rightarrow> 'p Gate" where
  "replay_event recordID e g =
     (let seq = gate_sequence g + 1;
          g1 = g\<lparr>gate_sequence := seq, audit := audit g @ [e\<lparr>ev_Sequence := seq\<rparr>]\<rparr>;
          cid = ev_ConfirmationID e
      in if cid = [] then g1
         else g1\<lparr>usedIDs := (if ev_Type e = AuditAuthorized then insert cid (usedIDs g1) else usedIDs g1),
                 confirmationOwners := (if ev_Type e = AuditCheckpoint
                   then (confirmationOwners g1)(cid \<mapsto> recordID) else confirmationOwners g1)\<rparr>)"

definition RestoreRecord :: "string \<Rightarrow> 'p Gate \<Rightarrow> approval_error option \<times> 'p Gate" where
  "RestoreRecord requestID g =
     (case persistence g of
        None \<Rightarrow> (Some ErrInvalidPersistence, g)
      | Some (api, p) \<Rightarrow>
          if requests g requestID \<noteq> None then (Some ErrDuplicateRequest, g)
          else case ledger_restore_load api p (policyEpoch g) requestID of
            Inl e \<Rightarrow> (Some e, g)
          | Inr (record, events) \<Rightarrow>
              (case first_error
                 [ValidateRecordForAdapter record,
                  fail_if (req_PolicyEpoch (rec_Request record) \<noteq> policyEpoch g) ErrEpochChanged,
                  fail_if (events = []) ErrInvalidPersistence,
                  fail_if (\<not> list_all (event_bound record) events) ErrBindingConflict] of
                 Some e \<Rightarrow> (Some e, g)
               | None \<Rightarrow>
                   let g1 = fold (replay_event (rec_ID record)) events
                              (g\<lparr>requests := (requests g)(rec_ID record \<mapsto> record)\<rparr>)
                   in (None, g1\<lparr>durableSequences :=
                         (durableSequences g1)(rec_ID record \<mapsto> of_nat (length events))\<rparr>)))"

fun restore_all :: "gateSnapshot \<Rightarrow> string list \<Rightarrow> 'p Gate \<Rightarrow> approval_error option \<times> 'p Gate" where
  "restore_all snap [] g = (None, g)"
| "restore_all snap (i # is) g =
     (case RestoreRecord i g of
        (Some e, g') \<Rightarrow> (Some e, restore snap g')
      | (None, g') \<Rightarrow> restore_all snap is g')"

definition Restore :: "string list \<Rightarrow> 'p Gate \<Rightarrow> approval_error option \<times> 'p Gate" where
  "Restore requestIDs g =
     (case persistence g of
        None \<Rightarrow> (Some ErrInvalidPersistence, g)
      | Some (api, p) \<Rightarrow>
          (case (if requestIDs \<noteq> [] then Inr requestIDs
                 else (case p_ListIDs api of None \<Rightarrow> Inl ErrInvalidPersistence | Some f \<Rightarrow> f p)) of
             Inl e \<Rightarrow> (Some e, g)
           | Inr ids \<Rightarrow> restore_all (snapshot g) ids g))"

subsection \<open>Reading\<close>

definition Get :: "string \<Rightarrow> 'p Gate \<Rightarrow> Record option" where
  "Get requestID g = requests g requestID"

end
