(* ===== verification/Event_Log.thy ===== *)
theory Event_Log
  imports Prelude
begin

text \<open>
  The append-only event lists of the approval gate and of the token manager share one
  discipline: a 64-bit counter is incremented and the new event carries its value. The locale
  states it over the component's own append operation; the numbering invariant and its
  consequences are proved once.
\<close>

definition numbered :: "('e \<Rightarrow> u64) \<Rightarrow> 'e list \<Rightarrow> u64 \<Rightarrow> bool" where
  "numbered num xs s \<longleftrightarrow> s = of_nat (length xs) \<and> (\<forall>i<length xs. num (xs ! i) = of_nat (Suc i))"

lemma numbered_Nil [simp]: "numbered num [] 0"
  by (simp add: numbered_def)

lemma numbered_snoc:
  assumes "numbered num xs s" and "num e = s + 1"
  shows "numbered num (xs @ [e]) (s + 1)"
  using assms by (auto simp: numbered_def nth_append less_Suc_eq)

text \<open>Below the wrap-around of the counter no two events share a number.\<close>

lemma numbered_distinct:
  assumes "numbered num xs s" and "length xs < 2 ^ 64"
  shows "distinct (map num xs)"
proof -
  have "inj_on (\<lambda>i. num (xs ! i)) {..<length xs}"
  proof (rule inj_onI)
    fix i j assume ij: "i \<in> {..<length xs}" "j \<in> {..<length xs}" "num (xs ! i) = num (xs ! j)"
    then have "(of_nat (Suc i) :: u64) = of_nat (Suc j)"
      using assms(1) by (simp add: numbered_def)
    then have "unat (of_nat (Suc i) :: u64) = unat (of_nat (Suc j) :: u64)" by simp
    then have "Suc i mod 2 ^ 64 = Suc j mod 2 ^ 64" by (simp only: unat_of_nat) simp
    moreover have "Suc i \<le> length xs" "Suc j \<le> length xs" using ij by auto
    ultimately show "i = j" using assms(2) by simp
  qed
  then show ?thesis
    by (auto simp: distinct_conv_nth inj_on_def)
qed

locale event_log =
  fixes log :: "'s \<Rightarrow> 'e list"
    and seq :: "'s \<Rightarrow> u64"
    and num :: "'e \<Rightarrow> u64"
    and append_event :: "'a \<Rightarrow> 's \<Rightarrow> 's"
  assumes append_log: "\<exists>e. log (append_event a s) = log s @ [e] \<and> num e = seq s + 1"
    and append_seq: "seq (append_event a s) = seq s + 1"
begin

lemma numbered_append:
  assumes "numbered num (log s) (seq s)"
  shows "numbered num (log (append_event a s)) (seq (append_event a s))"
proof -
  from append_log obtain e where "log (append_event a s) = log s @ [e]" "num e = seq s + 1" by blast
  then show ?thesis using assms append_seq by (simp add: numbered_snoc)
qed

lemma length_append: "length (log (append_event a s)) = Suc (length (log s))"
  using append_log[of a s] by auto

lemma take_append: "take (length (log s)) (log (append_event a s)) = log s"
  using append_log[of a s] by auto

end

end
