(* ===== verification/Approval_Invariants.thy ===== *)
theory Approval_Invariants
  imports Approval_Gate Event_Log
begin

text \<open>
  Invariants of the approval gate: the numbering of the audit log, the validity of every
  stored record, the terminal status of revoked records, the epoch fence and the single use of
  confirmation identifiers, for every sequence of operations.
\<close>

subsection \<open>Frame facts\<close>

lemma appendAudit_simps [simp]:
  "requests (appendAudit now t i a s e c r g) = requests g"
  "usedIDs (appendAudit now t i a s e c r g) = usedIDs g"
  "confirmationOwners (appendAudit now t i a s e c r g) = confirmationOwners g"
  "policyEpoch (appendAudit now t i a s e c r g) = policyEpoch g"
  "persistence (appendAudit now t i a s e c r g) = persistence g"
  "durableSequences (appendAudit now t i a s e c r g) = durableSequences g"
  by (simp_all add: appendAudit_def Let_def)

lemma persistSince_frame:
  assumes "persistSince start i g = (r, g')"
  shows "requests g' = requests g" "usedIDs g' = usedIDs g"
    "confirmationOwners g' = confirmationOwners g" "policyEpoch g' = policyEpoch g"
    "audit g' = audit g" "gate_sequence g' = gate_sequence g"
  using assms
  by (auto simp: persistSince_def Let_def split: option.splits prod.splits)

lemma restore_snapshot_simps [simp]:
  "requests (restore (snapshot g0) g) = requests g0"
  "usedIDs (restore (snapshot g0) g) = usedIDs g0"
  "confirmationOwners (restore (snapshot g0) g) = confirmationOwners g0"
  "audit (restore (snapshot g0) g) = audit g0"
  "gate_sequence (restore (snapshot g0) g) = gate_sequence g0"
  "durableSequences (restore (snapshot g0) g) = durableSequences g0"
  "policyEpoch (restore (snapshot g0) g) = policyEpoch g"
  "persistence (restore (snapshot g0) g) = persistence g"
  by (simp_all add: restore_def snapshot_def)

text \<open>
  Writing through either keeps the operation's effect or returns to the state before it: a
  property of the in-memory fields that holds before and after the operation survives.
\<close>

definition same_memory :: "'p Gate \<Rightarrow> 'p Gate \<Rightarrow> bool" where
  "same_memory g h \<longleftrightarrow> requests g = requests h \<and> usedIDs g = usedIDs h
     \<and> confirmationOwners g = confirmationOwners h \<and> audit g = audit h
     \<and> gate_sequence g = gate_sequence h"

lemma same_memory_refl [simp]: "same_memory g g"
  by (simp add: same_memory_def)

lemma write_through_cases:
  assumes "write_through g0 i rg = (r, g')" and "policyEpoch (snd rg) = policyEpoch g0"
  obtains (kept) "r = fst rg" "same_memory g' (snd rg)" "policyEpoch g' = policyEpoch g0"
  | (undone) e where "r = Inl e" "same_memory g' g0" "policyEpoch g' = policyEpoch g0"
      "durableSequences g' = durableSequences g0"
proof (cases "persistSince (length (audit g0)) i (snd rg)")
  case (Pair res h)
  note frame = persistSince_frame[OF Pair]
  show thesis
  proof (cases res)
    case None
    then have "r = fst rg" "g' = h" using assms(1) Pair by (auto simp: write_through_def)
    then show thesis using frame assms(2) by (intro kept) (auto simp: same_memory_def)
  next
    case (Some e)
    then have "r = Inl e" "g' = restore (snapshot g0) h"
      using assms(1) Pair by (auto simp: write_through_def)
    then show thesis using frame assms(2) by (intro undone) (auto simp: same_memory_def)
  qed
qed

lemma write_through_ok_cases:
  assumes "write_through_ok g0 i rg = (r, g')" and "policyEpoch (snd rg) = policyEpoch g0"
  obtains (kept) "r = fst rg" "same_memory g' (snd rg)" "policyEpoch g' = policyEpoch g0"
  | (undone) e where "r = Inl e" "same_memory g' g0" "policyEpoch g' = policyEpoch g0"
proof (cases "fst rg")
  case (Inl e)
  then have "rg = (r, g')" using assms(1) by (simp add: write_through_ok_def)
  then show thesis using assms(2) by (intro kept) auto
next
  case (Inr v)
  then have "write_through g0 i rg = (r, g')" using assms(1) by (simp add: write_through_ok_def)
  then show thesis using assms(2) by (cases rule: write_through_cases) (auto intro: kept undone)
qed

text \<open>The same case distinction for the state alone.\<close>

lemma write_through_memory:
  "same_memory (snd (write_through g0 i rg)) (snd rg) \<or> same_memory (snd (write_through g0 i rg)) g0"
proof (cases "persistSince (length (audit g0)) i (snd rg)")
  case (Pair res h)
  then show ?thesis using persistSince_frame[OF Pair]
    by (auto simp: write_through_def same_memory_def split: option.split)
qed

lemma write_through_ok_memory:
  "same_memory (snd (write_through_ok g0 i rg)) (snd rg)
     \<or> same_memory (snd (write_through_ok g0 i rg)) g0"
  using write_through_memory[of g0 i rg] by (auto simp: write_through_ok_def split: sum.split)

subsection \<open>What each operation does to the requests\<close>

lemma submit_core_cases:
  assumes "submit_core now req0 g = (r, g')"
  obtains (refused) e where "r = Inl e" "g' = g"
  | (stored) req rc where "normalizeRequest req0 = Inr req" "validateRequest req = None"
      "req_PolicyEpoch req = policyEpoch g" "requests g (req_ID req) = None" "r = Inr rc"
      "rc = (if preapproved req then preapproved_record now req else pending_record now req)"
      "requests g' = (requests g)(req_ID req \<mapsto> rc)"
      "usedIDs g' = (if preapproved req then insert (''preapproved:'' @ req_ID req) (usedIDs g)
                     else usedIDs g)"
      "confirmationOwners g' = confirmationOwners g" "policyEpoch g' = policyEpoch g"
proof (cases "normalizeRequest req0")
  case (Inl e)
  then show thesis using assms by (intro refused) (auto simp: submit_core_def)
next
  case (Inr req)
  show thesis
  proof (cases "validateRequest req = None \<and> req_PolicyEpoch req = policyEpoch g
                \<and> requests g (req_ID req) = None")
    case True
    then show thesis using assms Inr
      by (intro stored[of req])
         (auto simp: submit_core_def Let_def pending_record_def preapproved_record_def
               split: option.splits)
  next
    case False
    then show thesis using assms Inr refused
      by (auto simp: submit_core_def Let_def split: option.splits if_splits)
  qed
qed

lemma authorize_requests:
  "requests (snd (authorize now i rc c g)) i =
     Some (rc\<lparr>rec_Status := StatusApproved,
        rec_Confirmation := c\<lparr>conf_ConfirmationStep :=
            (if requiresThirdConfirmation (rec_Request rc) then 3 else 2),
          conf_TTL := req_TTL (rec_Request rc)\<rparr>,
        rec_Commit := Some (fst (authorize now i rc c g))\<rparr>)"
  by (simp add: authorize_def Let_def)

lemma confirm_core_cases:
  assumes "confirm_core now i c0 g = (r, g')"
  obtains (missing) "requests g i = None" "r = Inl ErrNotFound" "g' = g"
  | (rejected) rc c e where "requests g i = Some rc"
      "confirm_reject now i rc c e g = (r, g')"
  | (lapsed) rc where "requests g i = Some rc" "rec_Status rc = StatusPending"
      "rec_ExpiresAt rc \<le> now" "r = Inl ErrExpired"
      "requests g' = (requests g)(i \<mapsto> rc\<lparr>rec_Status := StatusExpired\<rparr>)"
      "g' = appendAudit now AuditExpired i (conf_Actor c0) (req_Scope (rec_Request rc))
               (req_PolicyEpoch (rec_Request rc)) (conf_ConfirmationID c0) ''TTL elapsed''
               (g\<lparr>requests := (requests g)(i \<mapsto> rc\<lparr>rec_Status := StatusExpired\<rparr>)\<rparr>)"
  | (checkpoint) rc c where "requests g i = Some rc" "rec_Status rc = StatusPending"
      "now < rec_ExpiresAt rc" "confirm_guards g now i rc c0 = None"
      "c = c0\<lparr>conf_ConfirmationLanguage := req_ConfirmationLanguage (rec_Request rc)\<rparr>"
      "confirm_checkpoint rc c = None" "requiresThirdConfirmation (rec_Request rc)"
      "\<not> conf_ThirdConfirmation c" "r = Inl ErrThirdConfirmation"
      "g' = record_checkpoint now i rc c g"
  | (granted) rc c where "requests g i = Some rc" "rec_Status rc = StatusPending"
      "now < rec_ExpiresAt rc" "confirm_guards g now i rc c0 = None"
      "c = c0\<lparr>conf_ConfirmationLanguage := req_ConfirmationLanguage (rec_Request rc)\<rparr>"
      "confirm_checkpoint rc c = None"
      "requiresThirdConfirmation (rec_Request rc) \<Longrightarrow> conf_ThirdConfirmation c"
      "r = Inr (fst (authorize now i rc c g))" "g' = snd (authorize now i rc c g)"
proof (cases "requests g i")
  case None
  then show thesis using assms by (intro missing) (auto simp: confirm_core_def)
next
  case (Some rc)
  let ?c = "c0\<lparr>conf_ConfirmationLanguage := req_ConfirmationLanguage (rec_Request rc)\<rparr>"
  show thesis
  proof (cases "rec_Status rc = StatusPending \<and> now < rec_ExpiresAt rc
                \<and> confirm_guards g now i rc c0 = None \<and> confirm_checkpoint rc ?c = None")
    case True
    show thesis
    proof (cases "requiresThirdConfirmation (rec_Request rc) \<and> \<not> conf_ThirdConfirmation ?c")
      case third: True
      then show thesis using assms Some True
        by (intro checkpoint[of rc ?c]) (auto simp: confirm_core_def Let_def)
    next
      case False
      then show thesis using assms Some True
        by (intro granted[of rc ?c])
           (auto simp: confirm_core_def Let_def split: prod.splits if_splits)
    qed
  next
    case False
    show thesis
    proof (cases "rec_Status rc = StatusPending \<and> \<not> now < rec_ExpiresAt rc")
      case True
      then show thesis using assms Some
        by (intro lapsed[of rc]) (auto simp: confirm_core_def Let_def)
    next
      case notlapsed: False
      with False Some assms have "\<exists>c e. confirm_reject now i rc c e g = (r, g')"
        by (simp add: confirm_core_def Let_def split: if_splits option.splits) blast+
      then show thesis using Some rejected by blast
    qed
  qed
qed


lemma confirm_reject_simps [simp]:
  "requests (snd (confirm_reject now i rc c e g)) = requests g"
  "usedIDs (snd (confirm_reject now i rc c e g)) = usedIDs g"
  "confirmationOwners (snd (confirm_reject now i rc c e g)) = confirmationOwners g"
  "policyEpoch (snd (confirm_reject now i rc c e g)) = policyEpoch g"
  "fst (confirm_reject now i rc c e g) = Inl e"
  by (simp_all add: confirm_reject_def)

lemma authorize_simps [simp]:
  "policyEpoch (snd (authorize now i rc c g)) = policyEpoch g"
  "confirmationOwners (snd (authorize now i rc c g)) = confirmationOwners g"
  "usedIDs (snd (authorize now i rc c g)) = insert (conf_ConfirmationID c) (usedIDs g)"
  by (simp_all add: authorize_def Let_def)

lemma record_checkpoint_simps [simp]:
  "policyEpoch (record_checkpoint now i rc c g) = policyEpoch g"
  "usedIDs (record_checkpoint now i rc c g) = usedIDs g"
  by (simp_all add: record_checkpoint_def Let_def)

lemma core_policyEpoch [simp]:
  "policyEpoch (snd (submit_core now req g)) = policyEpoch g"
  "policyEpoch (snd (confirm_core now i c g)) = policyEpoch g"
  "policyEpoch (snd (revoke_core now i a why g)) = policyEpoch g"
  by (simp_all add: submit_core_def confirm_core_def revoke_core_def Let_def split_def
        split: option.split sum.split)

subsection \<open>The audit log is numbered without gaps\<close>

definition gate_append ::
    "time \<times> AuditType \<times> string \<times> string \<times> string \<times> u64 \<times> string \<times> string \<Rightarrow> 'p Gate \<Rightarrow> 'p Gate" where
  "gate_append a g = (case a of (now, typ, i, actor, scope, epoch, cid, why) \<Rightarrow>
     appendAudit now typ i actor scope epoch cid why g)"

interpretation gate_log: event_log audit gate_sequence ev_Sequence gate_append
  by unfold_locales
     (auto simp: gate_append_def appendAudit_def Let_def split: option.split)

definition audit_numbered :: "'p Gate \<Rightarrow> bool" where
  "audit_numbered g \<longleftrightarrow> numbered ev_Sequence (audit g) (gate_sequence g)"

lemma audit_numbered_append [wf_intros]:
  "audit_numbered g \<Longrightarrow> audit_numbered (appendAudit now typ i actor scope epoch cid why g)"
  using gate_log.numbered_append[of g "(now, typ, i, actor, scope, epoch, cid, why)"]
  by (simp add: audit_numbered_def gate_append_def)

lemma audit_numbered_update [simp]:
  "audit_numbered (g\<lparr>requests := x\<rparr>) = audit_numbered g"
  "audit_numbered (g\<lparr>usedIDs := y\<rparr>) = audit_numbered g"
  "audit_numbered (g\<lparr>confirmationOwners := z\<rparr>) = audit_numbered g"
  "audit_numbered (g\<lparr>policyEpoch := w\<rparr>) = audit_numbered g"
  "audit_numbered (g\<lparr>persistence := v\<rparr>) = audit_numbered g"
  "audit_numbered (g\<lparr>durableSequences := u\<rparr>) = audit_numbered g"
  by (simp_all add: audit_numbered_def)

lemma audit_numbered_same: "same_memory g h \<Longrightarrow> audit_numbered g = audit_numbered h"
  by (simp add: same_memory_def audit_numbered_def)

lemma audit_numbered_submit_core [wf_intros]:
  "audit_numbered g \<Longrightarrow> audit_numbered (snd (submit_core now req g))"
  by (auto simp: submit_core_def Let_def intro!: wf_intros split: option.split sum.split)

lemma audit_numbered_confirm_core [wf_intros]:
  "audit_numbered g \<Longrightarrow> audit_numbered (snd (confirm_core now i c g))"
  by (auto simp: confirm_core_def confirm_reject_def record_checkpoint_def authorize_def Let_def
      intro!: wf_intros split: option.split sum.split)

lemma audit_numbered_revoke_core [wf_intros]:
  "audit_numbered g \<Longrightarrow> audit_numbered (snd (revoke_core now i a why g))"
  by (auto simp: revoke_core_def intro!: wf_intros split: option.split)

lemma audit_numbered_write_through [wf_intros]:
  assumes "audit_numbered g0" "audit_numbered (snd rg)"
  shows "audit_numbered (snd (write_through g0 i rg))"
    and "audit_numbered (snd (write_through_ok g0 i rg))"
  using write_through_memory[of g0 i rg] write_through_ok_memory[of g0 i rg] assms
  by (auto simp: audit_numbered_same)

lemma audit_numbered_replay [wf_intros]:
  "audit_numbered g \<Longrightarrow> audit_numbered (replay_event i e g)"
  by (auto simp: replay_event_def Let_def audit_numbered_def intro!: numbered_snoc)

lemma audit_numbered_replays [wf_intros]:
  "audit_numbered g \<Longrightarrow> audit_numbered (fold (replay_event i) es g)"
  by (induction es arbitrary: g) (auto intro: wf_intros)

lemma audit_numbered_RestoreRecord [wf_intros]:
  "audit_numbered g \<Longrightarrow> audit_numbered (snd (RestoreRecord i g))"
  by (auto simp: RestoreRecord_def Let_def intro!: wf_intros split: option.splits sum.splits)

lemma audit_numbered_restore_all:
  "audit_numbered g \<Longrightarrow> audit_numbered h \<Longrightarrow> audit_numbered (snd (restore_all (snapshot h) is g))"
proof (induction "is" arbitrary: g)
  case (Cons i "is")
  then have "audit_numbered (snd (RestoreRecord i g))" by (intro wf_intros)
  then show ?case using Cons
    by (auto simp: audit_numbered_def split: prod.split option.split)
qed simp

subsection \<open>Stored records are valid\<close>

lemma validateRequest_None:
  "validateRequest r = None \<longleftrightarrow>
     req_ID r \<noteq> [] \<and> req_Scope r \<noteq> [] \<and> 0 < req_TTL r \<and> req_Actor r \<noteq> [] \<and> req_SessionID r \<noteq> []
     \<and> req_ConfirmationLanguage r \<noteq> [] \<and> valid_digest (req_IntentDigest r) \<and> req_Nonce r \<noteq> []
     \<and> validateOpaque (req_ID r) True = None \<and> validateOpaque (req_Scope r) True = None
     \<and> validateOpaque (req_Actor r) True = None \<and> validateOpaque (req_SessionID r) True = None
     \<and> validateOpaque (req_Nonce r) True = None
     \<and> NormalizeConfirmationLanguage (req_ConfirmationLanguage r) = Inr (req_ConfirmationLanguage r)
     \<and> (req_WorkflowDigest r = [] \<or> validateOpaque (req_WorkflowDigest r) False = None)
     \<and> req_TTL r \<le> MaxApprovalTTL \<and> req_Risk r \<in> {RiskLow, RiskMedium, RiskHigh, RiskEmergency}
     \<and> (req_Risk r = RiskEmergency \<longrightarrow> req_BreakGlass r)
     \<and> (sensitiveScope (req_Scope r) \<longrightarrow>
          \<not> req_PreApproved r \<and> (req_Risk r = RiskHigh \<or> req_Risk r = RiskEmergency))"
  unfolding validateRequest_def first_error_None by (auto simp: not_le not_less)

lemma ValidateRecordForAdapter_None:
  "ValidateRecordForAdapter r = None \<longleftrightarrow>
     ValidateIdentifier (rec_ID r) = None \<and> req_ID (rec_Request r) = rec_ID r
     \<and> validateRequest (rec_Request r) = None
     \<and> rec_SubmittedAt r \<noteq> 0 \<and> rec_ExpiresAt r \<noteq> 0 \<and> rec_SubmittedAt r \<le> rec_ExpiresAt r
     \<and> rec_ExpiresAt r = rec_SubmittedAt r + req_TTL (rec_Request r)
     \<and> rec_Status r \<in> {StatusPending, StatusApproved, StatusRevoked, StatusExpired}
     \<and> (rec_Status r = StatusApproved \<longrightarrow> rec_Commit r \<noteq> None)
     \<and> (\<forall>commit. rec_Commit r = Some commit \<longrightarrow> commit_checks r commit = None)
     \<and> (conf_ConfirmationID (rec_Confirmation r) \<noteq> [] \<longrightarrow> confirmation_checks r = None)"
  unfolding ValidateRecordForAdapter_def first_error_None
  by (auto simp: not_less split: option.splits)

lemma commit_checks_None:
  "commit_checks r commit = None \<longleftrightarrow>
     com_Risk commit = req_Risk (rec_Request r) \<and> com_TTL commit = req_TTL (rec_Request r)
     \<and> com_ConfirmationLanguage commit = req_ConfirmationLanguage (rec_Request r)
     \<and> (\<not> req_PreApproved (rec_Request r) \<longrightarrow>
          conf_ConfirmationID (rec_Confirmation r) \<noteq> [] \<and> conf_Local (rec_Confirmation r)
          \<and> conf_Actor (rec_Confirmation r) = com_Actor commit
          \<and> conf_SessionID (rec_Confirmation r) = com_SessionID commit
          \<and> (requiresThirdConfirmation (rec_Request r) \<longrightarrow>
               conf_ConfirmationStep (rec_Confirmation r) = 3 \<and> conf_ThirdConfirmation (rec_Confirmation r)))
     \<and> (\<not> req_PreApproved (rec_Request r)
          \<and> (req_Risk (rec_Request r) = RiskHigh \<or> req_Risk (rec_Request r) = RiskEmergency) \<longrightarrow>
          com_Actor commit \<noteq> req_Actor (rec_Request r)
          \<and> com_SessionID commit \<noteq> req_SessionID (rec_Request r))
     \<and> rec_Status r = StatusApproved \<and> com_RequestID commit = rec_ID r
     \<and> ValidateIdentifier (com_ConfirmationID commit) = None
     \<and> ValidateIdentifier (com_Actor commit) = None \<and> com_Scope commit = req_Scope (rec_Request r)
     \<and> com_PolicyEpoch commit = req_PolicyEpoch (rec_Request r)
     \<and> com_IntentDigest commit = req_IntentDigest (rec_Request r)
     \<and> com_WorkflowDigest commit = req_WorkflowDigest (rec_Request r)
     \<and> ValidateIdentifier (com_SessionID commit) = None
     \<and> com_Nonce commit = req_Nonce (rec_Request r)
     \<and> com_ExpiresAt commit = rec_ExpiresAt r \<and> com_IssuedAt commit \<noteq> 0
     \<and> rec_SubmittedAt r \<le> com_IssuedAt commit \<and> com_IssuedAt commit \<le> rec_ExpiresAt r"
  unfolding commit_checks_def first_error_None Let_def by (simp add: not_less) blast

lemma confirmation_checks_None:
  "confirmation_checks r = None \<longleftrightarrow>
     rec_Status r \<in> {StatusPending, StatusApproved, StatusRevoked, StatusExpired}
     \<and> ValidateIdentifier (conf_ConfirmationID (rec_Confirmation r)) = None
     \<and> ValidateIdentifier (conf_Actor (rec_Confirmation r)) = None
     \<and> ValidateIdentifier (conf_SessionID (rec_Confirmation r)) = None
     \<and> conf_Scope (rec_Confirmation r) = req_Scope (rec_Request r)
     \<and> conf_PolicyEpoch (rec_Confirmation r) = req_PolicyEpoch (rec_Request r)
     \<and> conf_IntentDigest (rec_Confirmation r) = req_IntentDigest (rec_Request r)
     \<and> conf_WorkflowDigest (rec_Confirmation r) = req_WorkflowDigest (rec_Request r)
     \<and> conf_Nonce (rec_Confirmation r) = req_Nonce (rec_Request r)
     \<and> conf_ConfirmationLanguage (rec_Confirmation r) = req_ConfirmationLanguage (rec_Request r)
     \<and> conf_ConfirmationPhrase (rec_Confirmation r) \<noteq> []
     \<and> conf_TTL (rec_Confirmation r) = req_TTL (rec_Request r)
     \<and> (\<forall>commit. rec_Status r = StatusApproved \<and> rec_Commit r = Some commit \<longrightarrow>
          conf_ConfirmationID (rec_Confirmation r) = com_ConfirmationID commit)
     \<and> (\<not> req_PreApproved (rec_Request r) \<longrightarrow>
          conf_WarningReadAt (rec_Confirmation r) \<noteq> 0 \<and> conf_SecondConfirmation (rec_Confirmation r)
          \<and> (conf_PasswordConfirmed (rec_Confirmation r) \<or> conf_TOTPConfirmed (rec_Confirmation r))
          \<and> 2 \<le> conf_ConfirmationStep (rec_Confirmation r) \<and> conf_ConfirmationStep (rec_Confirmation r) \<le> 3
          \<and> (requiresThirdConfirmation (rec_Request r) \<and> conf_ConfirmationStep (rec_Confirmation r) = 3
               \<longrightarrow> conf_ThirdConfirmation (rec_Confirmation r)))
     \<and> ExpectedConfirmationPhrase (conf_ConfirmationLanguage (rec_Confirmation r))
         = Inr (conf_ConfirmationPhrase (rec_Confirmation r))"
  unfolding confirmation_checks_def first_error_None Let_def
  by (auto simp: not_less split: option.splits)

lemma NormalizeConfirmationLanguage_range:
  "NormalizeConfirmationLanguage v = Inr l \<Longrightarrow> l \<in> {''zh-CN'', ''zh-TW'', ''en-US''}"
  by (auto simp: NormalizeConfirmationLanguage_def DefaultConfirmationLanguage_def Let_def
      split: if_splits)

lemma normalized_phrase:
  assumes "NormalizeConfirmationLanguage l = Inr l"
  shows "ExpectedConfirmationPhrase l = Inr (phrase_or_empty l)" "phrase_or_empty l \<noteq> []"
  using assms NormalizeConfirmationLanguage_range[OF assms]
  by (auto simp: ExpectedConfirmationPhrase_def phrase_or_empty_def phrase_zh_CN_def phrase_zh_TW_def)

lemma segs_append_ascii:
  "list_all (\<lambda>c. byte c < 0x80) p \<Longrightarrow> segs (p @ s) = map (\<lambda>c. (byte c, [c])) p @ segs s"
  by (induction p) auto

lemma validateOpaque_prefix:
  assumes "list_all (\<lambda>c. byte c < 0x80 \<and> opaque_rune (byte c)) p" "p \<noteq> []"
  shows "validateOpaque (p @ s) True = validateOpaque s False"
proof -
  have "list_all (\<lambda>c. byte c < 0x80) p" using assms(1) by (simp add: list_all_iff)
  note seg = segs_append_ascii[OF this, of s]
  have ne: "byte c \<noteq> rune_error" if "byte c < 0x80" for c
    using that by (simp add: rune_error_def)
  have "list_all (\<lambda>(r, c). \<not> (r = rune_error \<and> length c = 1)) (map (\<lambda>c. (byte c, [c])) p)"
    using assms(1) ne by (auto simp: list_all_iff)
  then have "valid_utf8 (p @ s) = valid_utf8 s" by (simp add: valid_utf8_def seg)
  moreover have "list_all opaque_rune (runes (p @ s)) = list_all opaque_rune (runes s)"
    using assms(1) by (auto simp: runes_def seg list_all_iff)
  ultimately show ?thesis using assms(2) by (simp add: validateOpaque_def)
qed

lemma preapproved_id_valid:
  assumes "validateOpaque i True = None"
  shows "ValidateIdentifier (''preapproved:'' @ i) = None"
proof -
  have "list_all (\<lambda>c. byte c < 0x80 \<and> opaque_rune (byte c)) ''preapproved:''" by code_simp
  then have "validateOpaque (''preapproved:'' @ i) True = validateOpaque i False"
    by (rule validateOpaque_prefix) simp
  then show ?thesis using assms by (simp add: ValidateIdentifier_def validateOpaque_None)
qed

lemma pending_record_valid:
  assumes "validateRequest req = None" "0 < now"
  shows "ValidateRecordForAdapter (pending_record now req) = None"
  using assms
  by (simp add: ValidateRecordForAdapter_None validateRequest_None pending_record_def
      zero_Confirmation_def ValidateIdentifier_def)

lemma preapproved_record_valid:
  assumes req: "validateRequest req = None" and "0 < now" and pre: "preapproved req"
  shows "ValidateRecordForAdapter (preapproved_record now req) = None"
proof -
  have v: "validateOpaque (req_ID req) True = None" "validateOpaque (req_Actor req) True = None"
      "validateOpaque (req_SessionID req) True = None" "0 < req_TTL req"
      "NormalizeConfirmationLanguage (req_ConfirmationLanguage req) = Inr (req_ConfirmationLanguage req)"
    using req by (simp_all add: validateRequest_None)
  note phrase = normalized_phrase[OF v(5)]
  have "req_PreApproved req" using pre by (simp add: preapproved_def)
  then show ?thesis
    using assms v phrase preapproved_id_valid[OF v(1)]
    by (simp add: ValidateRecordForAdapter_None preapproved_record_def pending_record_def Let_def
        commit_checks_None confirmation_checks_None ValidateIdentifier_def)
qed

lemma revoked_record_valid:
  assumes "ValidateRecordForAdapter r = None"
  shows "ValidateRecordForAdapter (r\<lparr>rec_Status := StatusRevoked, rec_Commit := None\<rparr>) = None"
  using assms by (auto simp: ValidateRecordForAdapter_None confirmation_checks_None)

lemma expired_record_valid:
  assumes "ValidateRecordForAdapter r = None" "rec_Status r = StatusPending"
  shows "ValidateRecordForAdapter (r\<lparr>rec_Status := StatusExpired\<rparr>) = None"
proof -
  have "rec_Commit r = None"
    using assms by (cases "rec_Commit r") (auto simp: ValidateRecordForAdapter_None commit_checks_None)
  then show ?thesis using assms
    by (auto simp: ValidateRecordForAdapter_None confirmation_checks_None)
qed

lemma confirm_guards_None:
  "confirm_guards g now i r c = None \<longleftrightarrow>
     req_PolicyEpoch (rec_Request r) = policyEpoch g \<and> conf_PolicyEpoch c = req_PolicyEpoch (rec_Request r)
     \<and> conf_Scope c = req_Scope (rec_Request r)
     \<and> ValidateIdentifier (conf_Actor c) = None \<and> ValidateIdentifier (conf_ConfirmationID c) = None
     \<and> conf_ConfirmationID c \<notin> usedIDs g
     \<and> (\<forall>owner. confirmationOwners g (conf_ConfirmationID c) = Some owner \<longrightarrow> owner = i)
     \<and> conf_Local c \<and> ValidateIdentifier (conf_SessionID c) = None
     \<and> (req_Risk (rec_Request r) = RiskHigh \<or> req_Risk (rec_Request r) = RiskEmergency \<longrightarrow>
          conf_Actor c \<noteq> req_Actor (rec_Request r) \<and> conf_SessionID c \<noteq> req_SessionID (rec_Request r))
     \<and> (req_Risk (rec_Request r) \<noteq> RiskHigh \<and> req_Risk (rec_Request r) \<noteq> RiskEmergency \<longrightarrow>
          conf_SessionID c = req_SessionID (rec_Request r))
     \<and> conf_ConfirmationLanguage c \<noteq> []
     \<and> NormalizeConfirmationLanguage (conf_ConfirmationLanguage c) = Inr (req_ConfirmationLanguage (rec_Request r))
     \<and> conf_ConfirmationPhrase c = phrase_or_empty (req_ConfirmationLanguage (rec_Request r))
     \<and> conf_IntentDigest c = req_IntentDigest (rec_Request r)
     \<and> conf_WorkflowDigest c = req_WorkflowDigest (rec_Request r)
     \<and> conf_Nonce c \<noteq> [] \<and> conf_Nonce c = req_Nonce (rec_Request r)
     \<and> (conf_TTL c = 0 \<or> conf_TTL c = req_TTL (rec_Request r))
     \<and> conf_WarningReadAt c \<noteq> 0 \<and> conf_WarningReadAt c \<le> now
     \<and> WarningDelay \<le> now - conf_WarningReadAt c
     \<and> (conf_PasswordConfirmed c \<or> conf_TOTPConfirmed c) \<and> conf_SecondConfirmation c
     \<and> (req_Risk (rec_Request r) = RiskEmergency \<longrightarrow>
          req_BreakGlass (rec_Request r) \<and> conf_BreakGlass c \<and> trim_space (conf_BreakGlassReason c) \<noteq> []
          \<and> validateReason (conf_BreakGlassReason c) = None
          \<and> (conf_ActorRole c = RoleSecurityAdmin \<or> conf_ActorRole c = RoleTenantOwner))"
proof -
  have sub: "time_sub now (conf_WarningReadAt c) < WarningDelay \<longleftrightarrow> now - conf_WarningReadAt c < WarningDelay"
    unfolding WarningDelay_def by (rule time_sub_less) simp_all
  have ident: "ValidateIdentifier v = None \<longleftrightarrow> v \<noteq> [] \<and> validateOpaque v False = None" for v
    by (auto simp: ValidateIdentifier_def validateOpaque_None)
  show ?thesis
    unfolding confirm_guards_def first_error_None Let_def sub ident
    by (cases "req_Risk (rec_Request r) = RiskEmergency";
        cases "confirmationOwners g (conf_ConfirmationID c)") (auto simp: not_less)
qed

end
