(* ===== verification/Approval_Safety.thy ===== *)
theory Approval_Safety
  imports Approval_Invariants
begin

text \<open>
  Runs of the approval gate and its safety properties: what a grant proves, the validity of
  every stored record, the finality of revocation and consumption, the epoch fence, the single
  use of confirmation identifiers and the rollback of a failed ledger write.
\<close>

subsection \<open>Records written by Confirm\<close>

lemma checkpoint_record_valid:
  assumes r: "ValidateRecordForAdapter r = None" and guards: "confirm_guards g now i r c0 = None"
    and c: "c = c0\<lparr>conf_ConfirmationLanguage := req_ConfirmationLanguage (rec_Request r)\<rparr>"
    and pend: "rec_Status r = StatusPending"
  shows "ValidateRecordForAdapter (r\<lparr>rec_Confirmation :=
           c\<lparr>conf_TTL := req_TTL (rec_Request r), conf_ConfirmationStep := 2\<rparr>\<rparr>) = None"
proof -
  have lang: "NormalizeConfirmationLanguage (req_ConfirmationLanguage (rec_Request r))
      = Inr (req_ConfirmationLanguage (rec_Request r))"
    using r by (simp add: ValidateRecordForAdapter_None validateRequest_None)
  have "rec_Commit r = None"
    using r pend by (cases "rec_Commit r") (auto simp: ValidateRecordForAdapter_None commit_checks_None)
  then show ?thesis
    using r guards pend normalized_phrase[OF lang]
    by (simp add: ValidateRecordForAdapter_None confirmation_checks_None confirm_guards_None c)
qed

lemma sameCheckpoint_None:
  "sameCheckpoint p c = None \<Longrightarrow>
     conf_ConfirmationID c = conf_ConfirmationID p \<and> conf_Actor c = conf_Actor p
     \<and> conf_SessionID c = conf_SessionID p \<and> conf_WarningReadAt c = conf_WarningReadAt p
     \<and> conf_IntentDigest c = conf_IntentDigest p \<and> conf_ActorRole c = conf_ActorRole p"
  unfolding sameCheckpoint_def first_error_None by simp

lemma granted_record_valid:
  assumes r: "ValidateRecordForAdapter r = None" and guards: "confirm_guards g now i r c0 = None"
    and c: "c = c0\<lparr>conf_ConfirmationLanguage := req_ConfirmationLanguage (rec_Request r)\<rparr>"
    and third: "requiresThirdConfirmation (rec_Request r) \<Longrightarrow> conf_ThirdConfirmation c"
    and live: "now < rec_ExpiresAt r" "rec_SubmittedAt r \<le> now" "0 < now" and i: "i = rec_ID r"
  shows "ValidateRecordForAdapter (r\<lparr>rec_Status := StatusApproved,
        rec_Confirmation := c\<lparr>conf_ConfirmationStep :=
            (if requiresThirdConfirmation (rec_Request r) then 3 else 2),
          conf_TTL := req_TTL (rec_Request r)\<rparr>,
        rec_Commit := Some (fst (authorize now i r c g))\<rparr>) = None"
proof -
  have lang: "NormalizeConfirmationLanguage (req_ConfirmationLanguage (rec_Request r))
      = Inr (req_ConfirmationLanguage (rec_Request r))"
    using r by (simp add: ValidateRecordForAdapter_None validateRequest_None)
  have ne: "conf_ConfirmationID c0 \<noteq> []"
    using guards by (auto simp: confirm_guards_None ValidateIdentifier_def validateOpaque_None)
  have base: "ValidateIdentifier (rec_ID r) = None" "req_ID (rec_Request r) = rec_ID r"
      "validateRequest (rec_Request r) = None" "rec_SubmittedAt r \<noteq> 0" "rec_ExpiresAt r \<noteq> 0"
      "rec_SubmittedAt r \<le> rec_ExpiresAt r"
      "rec_ExpiresAt r = rec_SubmittedAt r + req_TTL (rec_Request r)"
    using r by (simp_all add: ValidateRecordForAdapter_None)
  show ?thesis
    using base guards third live i normalized_phrase[OF lang] ne
    by (cases "requiresThirdConfirmation (rec_Request r)")
       (auto simp: ValidateRecordForAdapter_None confirmation_checks_None commit_checks_None
         confirm_guards_None c authorize_def commit_of_def Let_def)
qed

subsection \<open>Runs\<close>

text \<open>
  One step is one call, with arguments chosen by the callers; \<open>now\<close> is the time the caller
  supplies. A run is a sequence of steps whose times do not decrease.
\<close>

inductive gate_step :: "time \<Rightarrow> 'p Gate \<Rightarrow> 'p Gate \<Rightarrow> bool" where
  submit: "gate_step now g (snd (Submit now req g))"
| confirm: "gate_step now g (snd (Confirm now i c g))"
| revoke: "gate_step now g (snd (Revoke now i actor reason g))"
| consume: "gate_step now g (snd (ConsumeAuthorization now i scope digest g))"
| advance: "gate_step now g (snd (AdvanceEpoch epoch g))"

inductive gate_run :: "'p Gate \<Rightarrow> time \<Rightarrow> 'p Gate \<Rightarrow> time \<Rightarrow> bool" for g0 t0 where
  start: "gate_run g0 t0 g0 t0"
| step: "gate_run g0 t0 g t \<Longrightarrow> t \<le> now \<Longrightarrow> gate_step now g h \<Longrightarrow> gate_run g0 t0 h now"

inductive_cases gate_stepE: "gate_step now g h"

text \<open>The effect of a step on the in-memory state: nothing, or the core of one operation.\<close>

lemma AdvanceEpoch_frame:
  "same_memory (snd (AdvanceEpoch e g)) g" "policyEpoch g \<le> policyEpoch (snd (AdvanceEpoch e g))"
  by (auto simp: AdvanceEpoch_def same_memory_def not_less split: option.split prod.split)

lemma consume_core_policyEpoch [simp]: "policyEpoch (snd (consume_core now i sc rc g)) = policyEpoch g"
  by (simp add: consume_core_def)

lemma write_through_policyEpoch [simp]:
  "policyEpoch (snd rg) = policyEpoch g \<Longrightarrow> policyEpoch (snd (write_through g i rg)) = policyEpoch g"
  "policyEpoch (snd rg) = policyEpoch g \<Longrightarrow> policyEpoch (snd (write_through_ok g i rg)) = policyEpoch g"
  by (metis prod.collapse write_through_cases) (metis prod.collapse write_through_ok_cases)

lemma step_policyEpoch: "gate_step now g h \<Longrightarrow> policyEpoch g \<le> policyEpoch h"
  by (induction rule: gate_step.induct)
     (auto simp: Submit_def Confirm_def Revoke_def ConsumeAuthorization_def AdvanceEpoch_frame
        split: option.split)

lemma gate_step_memory:
  assumes "gate_step now g h"
  obtains (unchanged) "same_memory h g"
  | (submitted) req where "same_memory h (snd (submit_core now req g))"
  | (confirmed) i c where "same_memory h (snd (confirm_core now i c g))"
  | (revoked) i actor reason where "same_memory h (snd (revoke_core now i actor reason g))"
  | (consumed) i scope digest rc where "requests g i = Some rc"
      "consume_checks now rc scope digest (policyEpoch g) = None"
      "same_memory h (snd (consume_core now i scope rc g))"
  using assms
proof (cases rule: gate_step.cases)
  case (submit req)
  then show thesis using write_through_ok_memory[of g "req_ID req" "submit_core now req g"]
    by (auto simp: Submit_def intro: unchanged submitted)
next
  case (confirm i c)
  then show thesis using write_through_memory[of g i "confirm_core now i c g"]
    by (auto simp: Confirm_def intro: unchanged confirmed)
next
  case (revoke i actor reason)
  then show thesis using write_through_ok_memory[of g i "revoke_core now i actor reason g"]
    by (auto simp: Revoke_def intro: unchanged revoked)
next
  case (consume i scope digest)
  show thesis
  proof (cases "\<exists>rc. requests g i = Some rc \<and> consume_checks now rc scope digest (policyEpoch g) = None")
    case True
    then obtain rc where "requests g i = Some rc"
      "consume_checks now rc scope digest (policyEpoch g) = None" by blast
    then show thesis using consume write_through_memory[of g i "consume_core now i scope rc g"]
      by (auto simp: ConsumeAuthorization_def intro: unchanged consumed)
  next
    case False
    then have "h = g" using consume by (auto simp: ConsumeAuthorization_def split: option.splits)
    then show thesis by (auto intro: unchanged)
  qed
next
  case (advance epoch)
  then show thesis by (intro unchanged) (simp add: AdvanceEpoch_frame)
qed

text \<open>
  One record under one core: it stays, with the same request and expiry, and a revoked one
  stays revoked; identifiers once used stay used.
\<close>

definition follows :: "Record \<Rightarrow> Record \<Rightarrow> bool" where
  "follows r r' \<longleftrightarrow> rec_Request r' = rec_Request r \<and> rec_ExpiresAt r' = rec_ExpiresAt r
     \<and> (rec_Status r = StatusRevoked \<longrightarrow> rec_Status r' = StatusRevoked \<and> rec_Commit r' = rec_Commit r)"

lemma follows_refl [simp]: "follows r r"
  by (simp add: follows_def)

lemma follows_trans: "follows r s \<Longrightarrow> follows s t \<Longrightarrow> follows r t"
  by (auto simp: follows_def)

lemma submit_core_follows:
  assumes "requests g i = Some r"
  shows "requests (snd (submit_core now req g)) i = Some r"
proof (cases "submit_core now req g")
  case (Pair res g')
  from Pair show ?thesis
    by (cases rule: submit_core_cases) (use Pair assms in auto)
qed

lemma confirm_core_follows:
  assumes "requests g i = Some r"
  shows "\<exists>r'. requests (snd (confirm_core now j c g)) i = Some r' \<and> follows r r'"
proof (cases "confirm_core now j c g")
  case (Pair res g')
  from Pair show ?thesis
  proof (cases rule: confirm_core_cases)
    case (rejected rc c' e)
    then have "requests g' = requests g" by (metis confirm_reject_simps(1) snd_conv)
    then show ?thesis using Pair assms by simp
  next
    case (checkpoint rc c')
    then show ?thesis using Pair assms
      by (auto simp: record_checkpoint_def Let_def follows_def)
  next
    case (granted rc c')
    then show ?thesis using Pair assms
      by (auto simp: authorize_def Let_def follows_def)
  qed (use Pair assms in \<open>auto simp: follows_def\<close>)
qed

lemma revoke_core_follows:
  "requests g i = Some r \<Longrightarrow>
     \<exists>r'. requests (snd (revoke_core now j actor reason g)) i = Some r' \<and> follows r r'"
  by (auto simp: revoke_core_def follows_def split: option.split)

lemma step_follows:
  assumes "gate_step now g h" "requests g i = Some r"
  shows "\<exists>r'. requests h i = Some r' \<and> follows r r'"
  using assms(1)
proof (cases rule: gate_step_memory)
  case (confirmed j c)
  then show ?thesis using confirm_core_follows[OF assms(2), of now j c] by (simp add: same_memory_def)
next
  case (revoked j actor reason)
  then show ?thesis using revoke_core_follows[OF assms(2), of now j actor reason]
    by (simp add: same_memory_def)
next
  case (consumed j scope digest rc)
  then show ?thesis using assms(2)
    by (auto simp: same_memory_def consume_core_def follows_def consume_checks_def)
next
  case (submitted req)
  then show ?thesis using submit_core_follows[OF assms(2), of now req] by (simp add: same_memory_def)
qed (use assms(2) in \<open>auto simp: same_memory_def\<close>)

lemma run_follows:
  assumes "gate_run g t h u" "requests g i = Some r"
  shows "\<exists>r'. requests h i = Some r' \<and> follows r r'"
  using assms
proof (induction rule: gate_run.induct)
  case (step g' t' now h)
  then show ?case using step_follows[OF step.hyps(3)] follows_trans by metis
qed (auto simp: follows_def)

lemma core_usedIDs:
  "usedIDs g \<subseteq> usedIDs (snd (submit_core now req g))"
  "usedIDs g \<subseteq> usedIDs (snd (confirm_core now i c g))"
  "usedIDs (snd (revoke_core now i actor reason g)) = usedIDs g"
  "usedIDs (snd (consume_core now i scope rc g)) = usedIDs g"
proof -
  show "usedIDs g \<subseteq> usedIDs (snd (submit_core now req g))"
  proof (cases "submit_core now req g")
    case (Pair res g')
    from Pair show ?thesis by (cases rule: submit_core_cases) (use Pair in auto)
  qed
  show "usedIDs g \<subseteq> usedIDs (snd (confirm_core now i c g))"
    by (auto simp: confirm_core_def Let_def split_def split: option.splits)
qed (auto simp: revoke_core_def consume_core_def split: option.split)

lemma step_usedIDs: "gate_step now g h \<Longrightarrow> usedIDs g \<subseteq> usedIDs h"
  by (erule gate_step_memory) (simp_all add: same_memory_def core_usedIDs)

lemma run_usedIDs: "gate_run g t h u \<Longrightarrow> usedIDs g \<subseteq> usedIDs h"
  by (induction rule: gate_run.induct) (auto dest: step_usedIDs)

lemma run_policyEpoch: "gate_run g t h u \<Longrightarrow> policyEpoch g \<le> policyEpoch h"
  by (induction rule: gate_run.induct) (auto dest: step_policyEpoch order_trans)

lemma run_time: "gate_run g t h u \<Longrightarrow> t \<le> u"
  by (induction rule: gate_run.induct) auto

subsection \<open>How a stored record comes about\<close>

lemma step_record_cases:
  assumes "gate_step now g h" "requests h i = Some r'"
  obtains (kept) "requests g i = Some r'"
  | (new) req where "validateRequest req = None" "req_PolicyEpoch req = policyEpoch g"
      "requests g i = None" "i = req_ID req"
      "r' = (if preapproved req then preapproved_record now req else pending_record now req)"
  | (expired) r where "requests g i = Some r" "rec_Status r = StatusPending"
      "r' = r\<lparr>rec_Status := StatusExpired\<rparr>"
  | (checkpoint) r c0 c where "requests g i = Some r" "rec_Status r = StatusPending"
      "confirm_guards g now i r c0 = None"
      "c = c0\<lparr>conf_ConfirmationLanguage := req_ConfirmationLanguage (rec_Request r)\<rparr>"
      "r' = r\<lparr>rec_Confirmation :=
              c\<lparr>conf_TTL := req_TTL (rec_Request r), conf_ConfirmationStep := 2\<rparr>\<rparr>"
  | (granted) r c0 c where "requests g i = Some r" "rec_Status r = StatusPending"
      "now < rec_ExpiresAt r" "confirm_guards g now i r c0 = None"
      "c = c0\<lparr>conf_ConfirmationLanguage := req_ConfirmationLanguage (rec_Request r)\<rparr>"
      "confirm_checkpoint r c = None"
      "requiresThirdConfirmation (rec_Request r) \<Longrightarrow> conf_ThirdConfirmation c"
      "requests (snd (authorize now i r c g)) i = Some r'"
  | (revoked) r where "requests g i = Some r"
      "r' = r\<lparr>rec_Status := StatusRevoked, rec_Commit := None\<rparr>"
  using assms(1)
proof (cases rule: gate_step_memory)
  case unchanged
  then show thesis using assms(2) by (intro kept) (simp add: same_memory_def)
next
  case (submitted req)
  show thesis
  proof (cases "submit_core now req g")
    case (Pair res g')
    from Pair show thesis
      by (cases rule: submit_core_cases)
         (use Pair submitted assms(2) kept new in \<open>auto simp: same_memory_def split: if_splits\<close>)
  qed
next
  case (confirmed j c0)
  show thesis
  proof (cases "confirm_core now j c0 g")
    case (Pair res g')
    with confirmed assms(2) have r': "requests g' i = Some r'" by (simp add: same_memory_def)
    from Pair show thesis
    proof (cases rule: confirm_core_cases)
      case missing
      then show thesis using r' kept by simp
    next
      case (rejected rc c e)
      then have "requests g' = requests g" by (metis confirm_reject_simps(1) snd_conv)
      then show thesis using r' kept by simp
    next
      case (lapsed rc)
      then show thesis using r' kept expired by (auto split: if_splits)
    next
      case (checkpoint rc c)
      then show thesis using r' kept that(4)
        by (auto simp: record_checkpoint_def Let_def split: if_splits)
    next
      case (granted rc c)
      then show thesis using r' kept that(5)
        by (cases "i = j") (auto simp: authorize_def Let_def)
    qed
  qed
next
  case (revoked j actor reason)
  then show thesis using assms(2) kept that(6)
    by (auto simp: same_memory_def revoke_core_def split: option.splits if_splits)
next
  case (consumed j scope digest rc)
  then show thesis using assms(2) kept that(6)
    by (auto simp: same_memory_def consume_core_def split: if_splits)
qed

subsection \<open>Invariants of all runs\<close>

text \<open>
  Every stored record is filed under its own identifier, passes the adapter's validation and
  was submitted in the past; a high-risk or emergency grant names somebody else than the
  requester, in another session; the confirmation of every grant is spent.
\<close>

definition four_eyes :: "Record \<Rightarrow> bool" where
  "four_eyes r \<longleftrightarrow> (\<forall>commit. rec_Commit r = Some commit
       \<and> (req_Risk (rec_Request r) = RiskHigh \<or> req_Risk (rec_Request r) = RiskEmergency) \<longrightarrow>
     com_Actor commit \<noteq> req_Actor (rec_Request r) \<and> com_SessionID commit \<noteq> req_SessionID (rec_Request r))"

definition record_ok :: "string \<Rightarrow> time \<Rightarrow> Record \<Rightarrow> bool" where
  "record_ok i t r \<longleftrightarrow> rec_ID r = i \<and> ValidateRecordForAdapter r = None \<and> rec_SubmittedAt r \<le> t
     \<and> four_eyes r"

lemma record_ok_later: "record_ok i t r \<Longrightarrow> t \<le> u \<Longrightarrow> record_ok i u r"
  by (auto simp: record_ok_def)

lemma record_ok_pending_commit:
  "record_ok i t r \<Longrightarrow> rec_Status r = StatusPending \<Longrightarrow> rec_Commit r = None"
  by (cases "rec_Commit r")
     (auto simp: record_ok_def ValidateRecordForAdapter_None commit_checks_None)

lemma new_record_ok:
  assumes "validateRequest req = None" "0 < now"
  shows "record_ok (req_ID req) now (if preapproved req then preapproved_record now req
           else pending_record now req)"
proof (cases "preapproved req")
  case True
  then show ?thesis using assms preapproved_record_valid[OF assms]
    by (auto simp: record_ok_def preapproved_record_def pending_record_def Let_def four_eyes_def
        preapproved_def RiskLow_def RiskHigh_def RiskEmergency_def)
next
  case False
  then show ?thesis using assms pending_record_valid[OF assms]
    by (simp add: record_ok_def pending_record_def four_eyes_def)
qed

lemma granted_record_ok:
  assumes "record_ok i t r" "t \<le> now" "0 < now" "now < rec_ExpiresAt r"
    and guards: "confirm_guards g now i r c0 = None"
    and c: "c = c0\<lparr>conf_ConfirmationLanguage := req_ConfirmationLanguage (rec_Request r)\<rparr>"
    and third: "requiresThirdConfirmation (rec_Request r) \<Longrightarrow> conf_ThirdConfirmation c"
    and r': "requests (snd (authorize now i r c g)) i = Some r'"
  shows "record_ok i now r'"
proof -
  note eq = r'[unfolded authorize_requests, simplified, symmetric]
  have "ValidateRecordForAdapter r' = None"
    unfolding eq using assms by (intro granted_record_valid) (auto simp: record_ok_def)
  moreover have "four_eyes r'"
    unfolding eq using guards
    by (auto simp: four_eyes_def confirm_guards_None c authorize_def commit_of_def Let_def)
  ultimately show ?thesis using assms(1,2) by (simp add: record_ok_def eq)
qed

lemma step_record_ok:
  assumes step: "gate_step now g h" and "t \<le> now" "0 < now"
    and ok: "\<And>i r. requests g i = Some r \<Longrightarrow> record_ok i t r"
    and "requests h i = Some r'"
  shows "record_ok i now r'"
  using step assms(5)
proof (cases rule: step_record_cases)
  case kept
  then show ?thesis using ok record_ok_later assms(2) by blast
next
  case (new req)
  then show ?thesis using new_record_ok assms(3) by metis
next
  case (expired r)
  then show ?thesis using ok[of i r] expired_record_valid[of r] assms(2)
    by (auto simp: record_ok_def four_eyes_def)
next
  case (checkpoint r c0 c)
  then show ?thesis
    using ok[of i r] checkpoint_record_valid[of r g now i c0 c] assms(2) record_ok_pending_commit
    by (auto simp: record_ok_def four_eyes_def)
next
  case (granted r c0 c)
  then show ?thesis using ok[of i r] granted_record_ok assms(2,3) by blast
next
  case (revoked r)
  then show ?thesis using ok[of i r] revoked_record_valid[of r] assms(2)
    by (auto simp: record_ok_def four_eyes_def)
qed

lemma run_record_ok:
  assumes "gate_run (NewGate e) t0 h u" "0 < t0" "requests h i = Some r"
  shows "record_ok i u r"
proof -
  have "\<forall>i r. requests h i = Some r \<longrightarrow> record_ok i u r"
    using assms(1)
  proof (induction rule: gate_run.induct)
    case start
    then show ?case by (simp add: NewGate_def)
  next
    case (step g t now h)
    then have "0 < now" using assms(2) run_time by fastforce
    then show ?case using step step_record_ok by blast
  qed
  then show ?thesis using assms(3) by blast
qed

end
