(* ===== verification/Approval_History.thy ===== *)
theory Approval_History
  imports Approval_Safety
begin

text \<open>
  Whole lives of the approval gate: besides the calls of \<open>gate_step\<close>, binding a ledger,
  restoring records from it (\<open>RestoreRecord\<close>, \<open>Restore\<close>) and writes of other processes to the
  ledger. \<open>RestoreRecord\<close> runs under the gate's mutex, so it is one event and calls may fall
  between two of them; this covers every \<open>Restore\<close> that succeeds. \<open>Restore\<close> itself takes its
  snapshot and each record separately: as an event of its own, which a failed one has to be
  since it ends by putting the snapshot back, it stands for a \<open>Restore\<close> with no other call
  between its start and its end. \<open>failed_Restore_undoes_calls\<close> below shows what happens
  otherwise.
\<close>

subsection \<open>What restoring does to the gate\<close>

lemma replay_event_frame [simp]:
  "requests (replay_event j e g) = requests g" "policyEpoch (replay_event j e g) = policyEpoch g"
  "persistence (replay_event j e g) = persistence g"
  by (simp_all add: replay_event_def Let_def)

lemma replay_event_usedIDs: "usedIDs g \<subseteq> usedIDs (replay_event j e g)"
  by (auto simp: replay_event_def Let_def)

lemma replays_frame [simp]:
  "requests (fold (replay_event j) es g) = requests g"
  "policyEpoch (fold (replay_event j) es g) = policyEpoch g"
  "persistence (fold (replay_event j) es g) = persistence g"
  by (induction es arbitrary: g) simp_all

lemma replays_usedIDs: "usedIDs g \<subseteq> usedIDs (fold (replay_event j) es g)"
proof (induction es arbitrary: g)
  case (Cons e es)
  then show ?case using replay_event_usedIDs[of g j e] by fastforce
qed simp

text \<open>
  A ledger is honest for a gate at a time when what it loads under an identifier is a record of
  that identifier, submitted in the past.
\<close>

definition ledger_honest :: "time \<Rightarrow> 'p Gate \<Rightarrow> bool" where
  "ledger_honest now g \<longleftrightarrow> (\<forall>api p i rec evs. persistence g = Some (api, p)
     \<and> ledger_restore_load api p (policyEpoch g) i = Inr (rec, evs) \<longrightarrow>
       rec_ID rec = i \<and> rec_SubmittedAt rec \<le> now)"

lemma RestoreRecord_cases:
  assumes "RestoreRecord i g = (res, h)" "ledger_honest now g"
  obtains (refused) e where "res = Some e" "h = g"
  | (loaded) rec where "res = None" "requests g i = None" "requests h = (requests g)(i \<mapsto> rec)"
      "rec_ID rec = i" "ValidateRecordForAdapter rec = None" "rec_SubmittedAt rec \<le> now"
      "req_PolicyEpoch (rec_Request rec) = policyEpoch g"
      "usedIDs g \<subseteq> usedIDs h" "policyEpoch h = policyEpoch g" "persistence h = persistence g"
proof (cases "res")
  case (Some e)
  then have "h = g" using assms(1)
    by (auto simp: RestoreRecord_def Let_def split: option.splits sum.splits if_splits)
  then show thesis using Some refused by blast
next
  case None
  then obtain api p rec evs where load: "persistence g = Some (api, p)" "requests g i = None"
      "ledger_restore_load api p (policyEpoch g) i = Inr (rec, evs)"
      "ValidateRecordForAdapter rec = None" "req_PolicyEpoch (rec_Request rec) = policyEpoch g"
    and h: "h = (let g1 = fold (replay_event (rec_ID rec)) evs
                              (g\<lparr>requests := (requests g)(rec_ID rec \<mapsto> rec)\<rparr>)
                   in g1\<lparr>durableSequences :=
                         (durableSequences g1)(rec_ID rec \<mapsto> of_nat (length evs))\<rparr>)"
    using assms(1)
    by (auto simp: RestoreRecord_def Let_def first_error_None split: option.splits sum.splits if_splits)
  have keyed: "rec_ID rec = i" "rec_SubmittedAt rec \<le> now"
    using assms(2) load(1,3) unfolding ledger_honest_def by blast+
  have "usedIDs g \<subseteq> usedIDs h"
    using replays_usedIDs[of "g\<lparr>requests := (requests g)(rec_ID rec \<mapsto> rec)\<rparr>" "rec_ID rec" evs]
    by (simp add: h Let_def)
  then show thesis using None load keyed by (intro loaded) (simp_all add: h Let_def)
qed

lemma RestoreRecord_honest:
  assumes "ledger_honest now g" shows "ledger_honest now (snd (RestoreRecord i g))"
proof (cases "RestoreRecord i g")
  case (Pair res h)
  from Pair assms show ?thesis
    by (cases rule: RestoreRecord_cases) (use Pair assms in \<open>auto simp: ledger_honest_def\<close>)
qed

subsection \<open>Events and histories\<close>

inductive gate_event :: "time \<Rightarrow> 'p Gate \<Rightarrow> 'p Gate \<Rightarrow> bool" where
  call: "gate_step now g h \<Longrightarrow> gate_event now g h"
| bind: "gate_event now g (snd (BindPersistence p g))"
| restore_record: "ledger_honest now g \<Longrightarrow> gate_event now g (snd (RestoreRecord i g))"
| restore_all: "ledger_honest now g \<Longrightarrow> gate_event now g (snd (Restore ids g))"
| outside: "persistence g = Some (api, p) \<Longrightarrow> gate_event now g (g\<lparr>persistence := Some (api, p')\<rparr>)"

inductive gate_history :: "'p Gate \<Rightarrow> time \<Rightarrow> 'p Gate \<Rightarrow> time \<Rightarrow> bool" for g0 t0 where
  start: "gate_history g0 t0 g0 t0"
| event: "gate_history g0 t0 g t \<Longrightarrow> t \<le> now \<Longrightarrow> gate_event now g h \<Longrightarrow> gate_history g0 t0 h now"

lemma run_is_history: "gate_run g t h u \<Longrightarrow> gate_history g t h u"
  by (induction rule: gate_run.induct) (auto intro: gate_history.intros gate_event.call)

lemma history_time: "gate_history g t h u \<Longrightarrow> t \<le> u"
  by (induction rule: gate_history.induct) auto

text \<open>
  Restoring keeps every fact about the gate's memory that survives adding one valid record
  under a free identifier.
\<close>

definition memory_closed :: "time \<Rightarrow> ('p Gate \<Rightarrow> bool) \<Rightarrow> bool" where
  "memory_closed now P \<longleftrightarrow> (\<forall>g h i rec. P g \<and> requests g i = None \<and> rec_ID rec = i
     \<and> ValidateRecordForAdapter rec = None \<and> rec_SubmittedAt rec \<le> now
     \<and> req_PolicyEpoch (rec_Request rec) = policyEpoch g
     \<and> requests h = (requests g)(i \<mapsto> rec) \<and> usedIDs g \<subseteq> usedIDs h \<and> policyEpoch h = policyEpoch g
       \<longrightarrow> P h)
   \<and> (\<forall>g h. P g \<and> requests h = requests g \<and> usedIDs h = usedIDs g \<and> policyEpoch h = policyEpoch g \<longrightarrow> P h)"

lemma memory_closed_same:
  "memory_closed now P \<Longrightarrow> P g \<Longrightarrow> requests h = requests g \<Longrightarrow> usedIDs h = usedIDs g
     \<Longrightarrow> policyEpoch h = policyEpoch g \<Longrightarrow> P h"
  unfolding memory_closed_def by blast

lemma RestoreRecord_keeps:
  assumes "memory_closed now P" "ledger_honest now g" "P g"
  shows "P (snd (RestoreRecord i g))"
proof (cases "RestoreRecord i g")
  case (Pair res h)
  from Pair assms(2) have "P h"
  proof (cases rule: RestoreRecord_cases)
    case (loaded rec)
    then show ?thesis using assms(1,3) unfolding memory_closed_def by blast
  qed (use assms(3) in simp)
  then show ?thesis using Pair by simp
qed

lemma restore_all_keeps:
  assumes "memory_closed now P" "ledger_honest now g" "P g" "P g0" "policyEpoch g = policyEpoch g0"
  shows "P (snd (restore_all (snapshot g0) ids g))"
  using assms(2-5)
proof (induction ids arbitrary: g)
  case (Cons i ids)
  obtain res h where r: "RestoreRecord i g = (res, h)" by (meson surj_pair)
  have h: "P h" "ledger_honest now h" "policyEpoch h = policyEpoch g0"
    using RestoreRecord_keeps[OF assms(1) Cons.prems(1,2), of i]
      RestoreRecord_honest[OF Cons.prems(1), of i] r Cons.prems(1,4)
    by (auto elim: RestoreRecord_cases)
  show ?case
  proof (cases res)
    case None
    then show ?thesis using Cons.IH[OF h(2,1) Cons.prems(3) h(3)] r by simp
  next
    case (Some e)
    have "P (restore (snapshot g0) h)"
      by (rule memory_closed_same[OF assms(1) Cons.prems(3)]) (simp_all add: h(3))
    then show ?thesis using Some r by simp
  qed
qed simp

lemma Restore_keeps:
  assumes "memory_closed now P" "ledger_honest now g" "P g"
  shows "P (snd (Restore ids g))"
  using restore_all_keeps[OF assms assms(3) refl] assms(3)
  by (auto simp: Restore_def split: option.split sum.split prod.split)

lemma event_keeps:
  assumes "gate_event now g h" "memory_closed now P" "P g" "\<And>h. gate_step now g h \<Longrightarrow> P h"
  shows "P h"
  using assms(1)
proof cases
  case (bind p)
  then show ?thesis
    by (intro memory_closed_same[OF assms(2,3)]) (simp_all add: BindPersistence_def split: option.split)
next
  case (outside api p p')
  then show ?thesis by (intro memory_closed_same[OF assms(2,3)]) simp_all
qed (use assms(2-4) RestoreRecord_keeps Restore_keeps in blast)+

subsection \<open>Facts of all histories\<close>

lemma event_follows:
  assumes "gate_event now g h" "requests g i = Some r"
  shows "\<exists>r'. requests h i = Some r' \<and> follows r r'"
  by (rule event_keeps[OF assms(1)])
     (use assms(2) step_follows in \<open>auto simp: memory_closed_def\<close>)

lemma history_follows:
  assumes "gate_history g t h u" "requests g i = Some r"
  shows "\<exists>r'. requests h i = Some r' \<and> follows r r'"
  using assms
proof (induction rule: gate_history.induct)
  case (event g' t' now h)
  then show ?case using event_follows[OF event.hyps(3)] follows_trans by metis
qed auto

lemma history_policyEpoch: "gate_history g t h u \<Longrightarrow> policyEpoch g \<le> policyEpoch h"
proof (induction rule: gate_history.induct)
  case (event g' t' now h)
  have "policyEpoch g' \<le> policyEpoch h"
    by (rule event_keeps[OF event.hyps(3)]) (auto simp: memory_closed_def step_policyEpoch)
  then show ?case using event.IH by order
qed simp

lemma history_usedIDs: "gate_history g t h u \<Longrightarrow> usedIDs g \<subseteq> usedIDs h"
proof (induction rule: gate_history.induct)
  case (event g' t' now h)
  have "usedIDs g' \<subseteq> usedIDs h"
    by (rule event_keeps[OF event.hyps(3)]) (auto simp: memory_closed_def dest: step_usedIDs)
  then show ?case using event.IH by order
qed simp

text \<open>What a stored record satisfies whether it was made here or restored.\<close>

definition record_valid :: "string \<Rightarrow> time \<Rightarrow> Record \<Rightarrow> bool" where
  "record_valid i t r \<longleftrightarrow> rec_ID r = i \<and> ValidateRecordForAdapter r = None \<and> rec_SubmittedAt r \<le> t"

lemma step_record_valid:
  assumes step: "gate_step now g h" and "t \<le> now" "0 < now"
    and ok: "\<And>i r. requests g i = Some r \<Longrightarrow> record_valid i t r"
    and "requests h i = Some r'"
  shows "record_valid i now r'"
  using step assms(5)
proof (cases rule: step_record_cases)
  case kept
  then show ?thesis using ok[of i r'] assms(2) by (simp add: record_valid_def)
next
  case (new req)
  then show ?thesis using new_record_ok[of req now] assms(3)
    unfolding record_ok_def record_valid_def by metis
next
  case (expired r)
  then show ?thesis using ok[of i r] expired_record_valid[of r] assms(2)
    by (auto simp: record_valid_def)
next
  case (checkpoint r c0 c)
  then show ?thesis using ok[of i r] checkpoint_record_valid[of r g now i c0 c] assms(2)
    by (auto simp: record_valid_def)
next
  case (granted r c0 c)
  note eq = granted(8)[unfolded authorize_requests, simplified, symmetric]
  have "ValidateRecordForAdapter r' = None"
    unfolding eq using ok[of i r] granted assms(2,3)
    by (intro granted_record_valid) (auto simp: record_valid_def)
  then show ?thesis using ok[of i r] granted(1) assms(2) by (simp add: record_valid_def eq)
next
  case (revoked r)
  then show ?thesis using ok[of i r] revoked_record_valid[of r] assms(2)
    by (auto simp: record_valid_def)
qed

lemma event_record_valid:
  assumes "gate_event now g h" "t \<le> now" "0 < now"
    and ok: "\<And>i r. requests g i = Some r \<Longrightarrow> record_valid i t r"
  shows "\<forall>i r. requests h i = Some r \<longrightarrow> record_valid i now r"
proof (rule event_keeps[OF assms(1)])
  show "memory_closed now (\<lambda>g. \<forall>i r. requests g i = Some r \<longrightarrow> record_valid i now r)"
    by (auto simp: memory_closed_def record_valid_def)
  show "\<forall>i r. requests g i = Some r \<longrightarrow> record_valid i now r"
    using ok assms(2) order_trans unfolding record_valid_def by blast
  show "\<forall>i r. requests h' i = Some r \<longrightarrow> record_valid i now r" if "gate_step now g h'" for h'
    using step_record_valid[OF that assms(2,3) ok] by blast
qed

lemma history_record_valid:
  assumes "gate_history g0 t0 h u" "requests g0 = Map.empty" "0 < t0" "requests h i = Some r"
  shows "record_valid i u r"
proof -
  have "\<forall>i r. requests h i = Some r \<longrightarrow> record_valid i u r"
    using assms(1)
  proof (induction rule: gate_history.induct)
    case start
    then show ?case using assms(2) by simp
  next
    case (event g t now h)
    then have "0 < now" using assms(3) history_time by fastforce
    then show ?case using event event_record_valid[of now g h t] by blast
  qed
  then show ?thesis using assms(4) by blast
qed

subsection \<open>A failed Restore that calls fall into\<close>

text \<open>
  \<open>Restore\<close> takes its snapshot before the first record and puts it back when a record fails.
  A call that completes in between is forgotten by the gate: with a snapshot taken before a
  successful \<open>ConsumeAuthorization\<close>, the same authorization can be consumed again.
\<close>

lemma failed_Restore_undoes_calls:
  assumes "ConsumeAuthorization now i scope digest g = (Inr (), g1)"
    and "RestoreRecord j g1 = (Some e, g2)"
  shows "requests (snd (restore_all (snapshot g) [j] g1)) = requests g
    \<and> (\<exists>r. requests (snd (restore_all (snapshot g) [j] g1)) i = Some r
         \<and> consume_checks now r scope digest (policyEpoch g) = None)"
  using assms by (auto simp: ConsumeAuthorization_def split: option.splits)

end
