(* ===== verification/Approval_Properties.thy ===== *)
theory Approval_Properties
  imports Approval_History
begin

text \<open>
  The properties of the approval gate, over single calls and over all runs, with a concrete
  run as their witness: a request on a change-release scope is submitted, confirmed twice by
  another administrator, and consumed.
\<close>

subsection \<open>The example run\<close>

definition ex_digest :: string where
  "ex_digest = ''0123456789abcdef0123456789abcdef0123456789abcdef0123456789abcdef''"

definition ex_request :: Request where
  "ex_request = \<lparr>req_ID = ''r1'', req_Risk = RiskLow, req_Scope = ''crp:apply'', req_PolicyEpoch = 7,
     req_TTL = 100 * go_second, req_PreApproved = False, req_Untrusted = False, req_Test = False,
     req_TokenOperation = False, req_KMSOperation = False, req_ClusterOperation = False,
     req_BreakGlass = False, req_Actor = ''alice'', req_SessionID = ''s1'',
     req_ConfirmationLanguage = ''en'', req_IntentDigest = ex_digest, req_WorkflowDigest = [],
     req_Nonce = ''n1''\<rparr>"

definition ex_confirmation :: "bool \<Rightarrow> Confirmation" where
  "ex_confirmation third = \<lparr>conf_WarningReadAt = 1, conf_PasswordConfirmed = True,
     conf_SecondConfirmation = True, conf_ThirdConfirmation = third, conf_ConfirmationID = ''c1'',
     conf_Actor = ''bob'', conf_ActorRole = [], conf_Scope = ''crp:apply'', conf_PolicyEpoch = 7,
     conf_TTL = 0, conf_Local = True, conf_BreakGlass = False, conf_BreakGlassReason = [],
     conf_SessionID = ''s2'', conf_ConfirmationLanguage = ''en'', conf_ConfirmationPhrase = ''CONFIRM'',
     conf_IntentDigest = ex_digest, conf_WorkflowDigest = [], conf_Nonce = ''n1'',
     conf_TOTPConfirmed = False, conf_ConfirmationStep = 0\<rparr>"

definition ex_submitted :: "unit Gate" where
  "ex_submitted = snd (Submit 1 ex_request (NewGate 7))"

definition ex_checkpointed :: "unit Gate" where
  "ex_checkpointed = snd (Confirm (20 * go_second) ''r1'' (ex_confirmation False) ex_submitted)"

definition ex_granted :: "unit Gate" where
  "ex_granted = snd (Confirm (20 * go_second) ''r1'' (ex_confirmation True) ex_checkpointed)"

definition ex_commit :: AuthorizationCommit where
  "ex_commit = projr (fst (Confirm (20 * go_second) ''r1'' (ex_confirmation True) ex_checkpointed))"

definition ex_consumed :: "unit Gate" where
  "ex_consumed = snd (ConsumeAuthorization (21 * go_second) ''r1'' ''crp:apply'' ex_digest ex_granted)"

lemma ex_grant:
  "Confirm (20 * go_second) ''r1'' (ex_confirmation True) ex_checkpointed = (Inr ex_commit, ex_granted)"
proof -
  have "\<not> isl (fst (Confirm (20 * go_second) ''r1'' (ex_confirmation True) ex_checkpointed))"
    by code_simp
  then show ?thesis by (simp add: ex_commit_def ex_granted_def prod_eq_iff)
qed

lemma ex_consume:
  "ConsumeAuthorization (21 * go_second) ''r1'' ''crp:apply'' ex_digest ex_granted = (Inr (), ex_consumed)"
proof -
  have "fst (ConsumeAuthorization (21 * go_second) ''r1'' ''crp:apply'' ex_digest ex_granted) = Inr ()"
    by code_simp
  then show ?thesis by (simp add: ex_consumed_def prod_eq_iff)
qed

lemma ex_run: "gate_run (NewGate 7) 1 ex_granted (20 * go_second)"
proof -
  have "gate_run (NewGate 7) 1 ex_submitted (1 :: time)"
    unfolding ex_submitted_def by (rule gate_run.step[OF gate_run.start]) (auto intro: gate_step.submit)
  then have "gate_run (NewGate 7) 1 ex_checkpointed (20 * go_second)"
    unfolding ex_checkpointed_def
    by (rule gate_run.step) (auto simp: go_units intro: gate_step.confirm)
  then show ?thesis
    unfolding ex_granted_def by (rule gate_run.step) (auto intro: gate_step.confirm)
qed

subsection \<open>What a grant proves\<close>

lemma Confirm_granted:
  assumes "Confirm now i c0 g = (Inr commit, g')"
  obtains rc c where "requests g i = Some rc" "rec_Status rc = StatusPending"
      "now < rec_ExpiresAt rc" "confirm_guards g now i rc c0 = None"
      "c = c0\<lparr>conf_ConfirmationLanguage := req_ConfirmationLanguage (rec_Request rc)\<rparr>"
      "confirm_checkpoint rc c = None"
      "requiresThirdConfirmation (rec_Request rc) \<Longrightarrow> conf_ThirdConfirmation c"
      "commit = fst (authorize now i rc c g)" "same_memory g' (snd (authorize now i rc c g))"
      "policyEpoch g' = policyEpoch g"
proof -
  have wt: "write_through g i (confirm_core now i c0 g) = (Inr commit, g')"
    using assms by (simp add: Confirm_def)
  then have kept: "fst (confirm_core now i c0 g) = Inr commit" "same_memory g' (snd (confirm_core now i c0 g))"
      "policyEpoch g' = policyEpoch g"
    by (cases rule: write_through_cases; simp)+
  show thesis
  proof (cases "confirm_core now i c0 g")
    case (Pair res h)
    then have res: "res = Inr commit" "same_memory g' h" using kept by simp_all
    from Pair show thesis
    proof (cases rule: confirm_core_cases)
      case (rejected rc c e)
      then show thesis using res(1) by (simp add: confirm_reject_def)
    next
      case (granted rc c)
      then show thesis using res kept(3) by (intro that) simp_all
    qed (use res in simp_all)
  qed
qed

text \<open>The fields a third confirmation has to repeat are all but four.\<close>

lemma sameCheckpoint_repeats:
  assumes "sameCheckpoint p c = None"
  shows "p = c\<lparr>conf_ThirdConfirmation := conf_ThirdConfirmation p, conf_TTL := conf_TTL p,
    conf_WorkflowDigest := conf_WorkflowDigest p, conf_ConfirmationStep := conf_ConfirmationStep p\<rparr>"
  using assms unfolding sameCheckpoint_def first_error_None by (intro Confirmation.equality) simp_all

lemma normalized_language:
  assumes "NormalizeConfirmationLanguage v = Inr l"
  shows "(l, phrase_or_empty l) \<in> {(''zh-CN'', phrase_zh_CN), (''zh-TW'', phrase_zh_TW), (''en-US'', ''CONFIRM'')}"
proof -
  have "map phrase_or_empty [''zh-CN'', ''zh-TW'', ''en-US''] = [phrase_zh_CN, phrase_zh_TW, ''CONFIRM'']"
    by code_simp
  then show ?thesis using NormalizeConfirmationLanguage_range[OF assms] by auto
qed

text \<open>
  C3: a successful \<open>Confirm\<close> has passed every guard. The request is pending, unexpired and of
  the current policy epoch; the confirmation repeats its epoch, scope, intent, workflow and nonce, and its
  lifetime unless it names none; actor, session and confirmation identifier are well-formed; the
  identifier was never used and is not reserved by another request; the confirmation is local, in the
  request's language with that language's phrase, at least ten seconds after the warning was read, with a
  second factor and the second confirmation. A high-risk or emergency request is confirmed by another actor
  in another session, any other request in the requester's session; an emergency needs break-glass on both
  sides, a valid reason and a security administrator or tenant owner. A sensitive request has a recorded
  second confirmation which the third one repeats in every field that is compared. The commit
  consists of exactly the values of the confirmation and the request, and the stored record changes
  in its status, its confirmation and its commit only.
\<close>

theorem confirm_grant_requires:
  assumes "Confirm now i c g = (Inr commit, g')"
  shows "\<exists>rc lang. requests g i = Some rc \<and> rec_Status rc = StatusPending \<and> now < rec_ExpiresAt rc
    \<and> req_PolicyEpoch (rec_Request rc) = policyEpoch g \<and> conf_PolicyEpoch c = policyEpoch g
    \<and> conf_Scope c = req_Scope (rec_Request rc) \<and> conf_IntentDigest c = req_IntentDigest (rec_Request rc)
    \<and> conf_WorkflowDigest c = req_WorkflowDigest (rec_Request rc)
    \<and> conf_Nonce c = req_Nonce (rec_Request rc) \<and> conf_Nonce c \<noteq> []
    \<and> (conf_TTL c = 0 \<or> conf_TTL c = req_TTL (rec_Request rc))
    \<and> ValidateIdentifier (conf_Actor c) = None \<and> ValidateIdentifier (conf_SessionID c) = None
    \<and> ValidateIdentifier (conf_ConfirmationID c) = None
    \<and> conf_ConfirmationID c \<notin> usedIDs g \<and> usedIDs g' = insert (conf_ConfirmationID c) (usedIDs g)
    \<and> confirmationOwners g (conf_ConfirmationID c) \<in> {None, Some i}
    \<and> conf_Local c \<and> conf_ConfirmationLanguage c \<noteq> []
    \<and> NormalizeConfirmationLanguage (conf_ConfirmationLanguage c) = Inr lang
    \<and> req_ConfirmationLanguage (rec_Request rc) = lang
    \<and> (lang, conf_ConfirmationPhrase c) \<in> {(''zh-CN'', phrase_zh_CN), (''zh-TW'', phrase_zh_TW), (''en-US'', ''CONFIRM'')}
    \<and> 10 * go_second \<le> now - conf_WarningReadAt c \<and> conf_WarningReadAt c \<noteq> 0
    \<and> (conf_PasswordConfirmed c \<or> conf_TOTPConfirmed c) \<and> conf_SecondConfirmation c
    \<and> (if req_Risk (rec_Request rc) = RiskHigh \<or> req_Risk (rec_Request rc) = RiskEmergency
       then conf_Actor c \<noteq> req_Actor (rec_Request rc) \<and> conf_SessionID c \<noteq> req_SessionID (rec_Request rc)
       else conf_SessionID c = req_SessionID (rec_Request rc))
    \<and> (sensitive (rec_Request rc) \<longrightarrow> conf_ThirdConfirmation c
         \<and> (\<exists>third ttl digest n. 2 \<le> n \<and> rec_Confirmation rc = c\<lparr>conf_ConfirmationLanguage := lang,
              conf_ThirdConfirmation := third, conf_TTL := ttl, conf_WorkflowDigest := digest, conf_ConfirmationStep := n\<rparr>))
    \<and> (req_Risk (rec_Request rc) = RiskEmergency \<longrightarrow>
         req_BreakGlass (rec_Request rc) \<and> conf_BreakGlass c \<and> trim_space (conf_BreakGlassReason c) \<noteq> []
         \<and> validateReason (conf_BreakGlassReason c) = None \<and> conf_ActorRole c \<in> {RoleSecurityAdmin, RoleTenantOwner})
    \<and> commit = \<lparr>com_RequestID = i, com_ConfirmationID = conf_ConfirmationID c, com_Actor = conf_Actor c,
         com_Scope = conf_Scope c, com_PolicyEpoch = conf_PolicyEpoch c, com_Risk = req_Risk (rec_Request rc),
         com_TTL = req_TTL (rec_Request rc), com_IssuedAt = now, com_ExpiresAt = rec_ExpiresAt rc,
         com_WorkflowDigest = conf_WorkflowDigest c, com_SessionID = conf_SessionID c, com_ConfirmationLanguage = lang,
         com_IntentDigest = conf_IntentDigest c, com_Nonce = conf_Nonce c\<rparr>
    \<and> requests g' = (requests g)(i \<mapsto> rc\<lparr>rec_Status := StatusApproved,
         rec_Confirmation := c\<lparr>conf_ConfirmationLanguage := lang,
           conf_ConfirmationStep := (if sensitive (rec_Request rc) then 3 else 2), conf_TTL := req_TTL (rec_Request rc)\<rparr>,
         rec_Commit := Some commit\<rparr>)"
  using assms
proof (cases rule: Confirm_granted)
  case (1 rc c')
  let ?lang = "req_ConfirmationLanguage (rec_Request rc)"
  note guards = 1(4)[unfolded confirm_guards_None]
  have lang: "NormalizeConfirmationLanguage (conf_ConfirmationLanguage c) = Inr ?lang" using guards by blast
  have phrase: "(?lang, conf_ConfirmationPhrase c) \<in> {(''zh-CN'', phrase_zh_CN), (''zh-TW'', phrase_zh_TW), (''en-US'', ''CONFIRM'')}"
    using normalized_language[OF lang] guards by simp
  have owner: "confirmationOwners g (conf_ConfirmationID c) \<in> {None, Some i}"
    using guards by (cases "confirmationOwners g (conf_ConfirmationID c)") auto
  have checkpoint: "\<exists>third ttl digest n. 2 \<le> n \<and> rec_Confirmation rc = c\<lparr>conf_ConfirmationLanguage := ?lang,
      conf_ThirdConfirmation := third, conf_TTL := ttl, conf_WorkflowDigest := digest, conf_ConfirmationStep := n\<rparr>"
    if "sensitive (rec_Request rc)"
  proof -
    have "sameCheckpoint (rec_Confirmation rc) c' = None" "2 \<le> conf_ConfirmationStep (rec_Confirmation rc)"
      using 1(6,7) that by (auto simp: confirm_checkpoint_def requiresThirdConfirmation_def not_less split: if_splits)
    then show ?thesis using sameCheckpoint_repeats[of "rec_Confirmation rc" c'] unfolding 1(5) by (intro exI conjI)
  qed
  have third: "sensitive (rec_Request rc) \<longrightarrow> conf_ThirdConfirmation c" using 1(5,7) by (simp add: requiresThirdConfirmation_def)
  have stored: "requests g' = (requests g)(i \<mapsto> rc\<lparr>rec_Status := StatusApproved,
         rec_Confirmation := c\<lparr>conf_ConfirmationLanguage := ?lang,
           conf_ConfirmationStep := (if sensitive (rec_Request rc) then 3 else 2), conf_TTL := req_TTL (rec_Request rc)\<rparr>,
         rec_Commit := Some commit\<rparr>)"
    and used: "usedIDs g' = insert (conf_ConfirmationID c) (usedIDs g)"
    unfolding 1(8) using 1(9) unfolding 1(5)
    by (simp_all add: same_memory_def authorize_def Let_def requiresThirdConfirmation_def)
  have commit: "commit = \<lparr>com_RequestID = i, com_ConfirmationID = conf_ConfirmationID c, com_Actor = conf_Actor c,
         com_Scope = conf_Scope c, com_PolicyEpoch = conf_PolicyEpoch c, com_Risk = req_Risk (rec_Request rc),
         com_TTL = req_TTL (rec_Request rc), com_IssuedAt = now, com_ExpiresAt = rec_ExpiresAt rc,
         com_WorkflowDigest = conf_WorkflowDigest c, com_SessionID = conf_SessionID c, com_ConfirmationLanguage = ?lang,
         com_IntentDigest = conf_IntentDigest c, com_Nonce = conf_Nonce c\<rparr>"
    using 1(8) guards by (simp add: authorize_def commit_of_def Let_def 1(5))
  show ?thesis
  proof (intro exI[of _ rc] exI[of _ ?lang] conjI)
    show "sensitive (rec_Request rc) \<longrightarrow> conf_ThirdConfirmation c
      \<and> (\<exists>third ttl digest n. 2 \<le> n \<and> rec_Confirmation rc = c\<lparr>conf_ConfirmationLanguage := ?lang,
           conf_ThirdConfirmation := third, conf_TTL := ttl, conf_WorkflowDigest := digest, conf_ConfirmationStep := n\<rparr>)"
      using checkpoint third by blast
  qed (fact stored used commit lang phrase owner 1(1) 1(2) 1(3) | use guards in \<open>simp add: WarningDelay_def\<close>)+
qed

theorem confirm_grant_requires_witness:
  "Confirm (20 * go_second) ''r1'' (ex_confirmation True) ex_checkpointed = (Inr ex_commit, ex_granted)
   \<and> ''c1'' \<notin> usedIDs ex_checkpointed \<and> usedIDs ex_granted = insert ''c1'' (usedIDs ex_checkpointed)
   \<and> com_Actor ex_commit = ''bob''"
proof -
  have c: "conf_ConfirmationID (ex_confirmation True) = ''c1''" "conf_Actor (ex_confirmation True) = ''bob''"
    by (simp_all add: ex_confirmation_def)
  have "conf_ConfirmationID (ex_confirmation True) \<notin> usedIDs ex_checkpointed"
    "usedIDs ex_granted = insert (conf_ConfirmationID (ex_confirmation True)) (usedIDs ex_checkpointed)"
    using confirm_grant_requires[OF ex_grant] by blast+
  moreover have "com_Actor ex_commit = conf_Actor (ex_confirmation True)"
    using confirm_grant_requires[OF ex_grant] by (metis AuthorizationCommit.select_convs(3))
  ultimately show ?thesis unfolding c using ex_grant by blast
qed

subsection \<open>Properties of all runs\<close>

text \<open>
  A ledger that holds one request and accepts every write: the instance on which the
  witnesses restore.
\<close>

definition ex_shelf :: "unit Persistence" where
  "ex_shelf = \<lparr>p_Apply = (\<lambda>p m. (None, p)), p_Load = (\<lambda>p i. Inl ErrNotFound),
     p_Events = (\<lambda>p i. Inl ErrNotFound),
     p_LoadWithEvents = Some (\<lambda>p i. if i = ''r1''
       then Inr (the (requests ex_submitted ''r1''), audit ex_submitted) else Inl ErrNotFound),
     p_LoadWithEventsAtEpoch = None, p_ApplyBatch = None, p_ApplyAtEpoch = None,
     p_ApplyBatchAtEpoch = None, p_CompareAndSetEpoch = None, p_PolicyEpoch = None, p_ListIDs = None\<rparr>"

lemma ex_shelf_honest:
  assumes "persistence g = Some (ex_shelf, ())" "1 \<le> now"
  shows "ledger_honest now g"
proof -
  have "rec_ID (the (requests ex_submitted ''r1'')) = ''r1''"
      "rec_SubmittedAt (the (requests ex_submitted ''r1'')) = 1" by code_simp+
  then show ?thesis using assms
    by (auto simp: ledger_honest_def ledger_restore_load_def ledger_load_def ex_shelf_def split: if_splits)
qed

text \<open>
  C4: in every life of a gate made by \<open>NewGate\<close> or \<open>NewGateWithPersistence\<close>, with calls,
  bindings, restores from an honest ledger and foreign writes to it in any order, times
  positive and non-decreasing, every stored record is filed under its own identifier, passes
  \<open>ValidateRecordForAdapter\<close> and was submitted in the past: the gate never holds a
  record that its own ledger adapters would refuse to write or to restore.
\<close>

theorem reachable_records_valid:
  assumes "g0 = NewGate e \<or> NewGateWithPersistence e p = Inr g0" "gate_history g0 t0 h u" "0 < t0"
    and "Get i h = Some r"
  shows "rec_ID r = i \<and> ValidateRecordForAdapter r = None \<and> rec_SubmittedAt r \<le> u"
proof -
  have "requests g0 = Map.empty"
    using assms(1) by (auto simp: NewGate_def NewGateWithPersistence_def split: option.splits)
  then show ?thesis using history_record_valid[OF assms(2) _ assms(3)] assms(4)
    by (simp add: Get_def record_valid_def)
qed

theorem reachable_records_valid_witness:
  "\<exists>r. Get ''r1'' (snd (Restore [''r1''] ((NewGate 7)\<lparr>persistence := Some (ex_shelf, ())\<rparr>))) = Some r
     \<and> ValidateRecordForAdapter r = None"
proof -
  let ?g = "(NewGate 7)\<lparr>persistence := Some (ex_shelf, ())\<rparr>"
  have new: "NewGateWithPersistence 7 (Some (ex_shelf, ())) = Inr ?g"
    by (simp add: NewGateWithPersistence_def)
  have h: "gate_history ?g 1 (snd (Restore [''r1''] ?g)) 1"
    by (rule gate_history.event[OF gate_history.start _ gate_event.restore_all[OF ex_shelf_honest]]) simp_all
  have "Get ''r1'' (snd (Restore [''r1''] ?g)) \<noteq> None" by code_simp
  then obtain r where r: "Get ''r1'' (snd (Restore [''r1''] ?g)) = Some r" by blast
  then show ?thesis using reachable_records_valid[OF disjI2[OF new] h _ r] by simp
qed

text \<open>
  The four-eyes rule holds in every reachable state, also for a request that was marked
  pre-approved: an approved high-risk or emergency request was granted to an actor other
  than its requester, in a session other than the requester's.
\<close>

theorem four_eyes_invariant:
  assumes "gate_run (NewGate e) t0 h u" "0 < t0" "Get i h = Some r" "rec_Commit r = Some commit"
    and "req_Risk (rec_Request r) = RiskHigh \<or> req_Risk (rec_Request r) = RiskEmergency"
  shows "com_Actor commit \<noteq> req_Actor (rec_Request r) \<and> com_SessionID commit \<noteq> req_SessionID (rec_Request r)"
  using run_record_ok[of e t0 h u i r] assms by (simp add: Get_def record_ok_def four_eyes_def)

theorem four_eyes_invariant_witness:
  "\<exists>r. Get ''r1'' ex_granted = Some r \<and> req_Risk (rec_Request r) = RiskHigh
     \<and> (\<exists>commit. rec_Commit r = Some commit \<and> com_Actor commit \<noteq> req_Actor (rec_Request r))"
proof -
  have "(case Get ''r1'' ex_granted of None \<Rightarrow> False
         | Some r \<Rightarrow> req_Risk (rec_Request r) = RiskHigh \<and> rec_Commit r \<noteq> None)" by code_simp
  then obtain r commit where r: "Get ''r1'' ex_granted = Some r" "rec_Commit r = Some commit"
      "req_Risk (rec_Request r) = RiskHigh"
    by (auto split: option.splits)
  then show ?thesis using four_eyes_invariant[OF ex_run _ r(1,2)] by auto
qed

lemma revoked_is_final:
  assumes "requests g i = Some r" "rec_Status r = StatusRevoked" "gate_history g t h u"
  shows "ConsumeAuthorization now i scope digest h = (Inl ErrNotPending, h)"
    and "fst (Confirm now i c h) \<noteq> Inr commit"
proof -
  obtain r' where r': "requests h i = Some r'" "rec_Status r' = StatusRevoked"
    using history_follows[OF assms(3,1)] assms(2) by (auto simp: follows_def)
  then show "ConsumeAuthorization now i scope digest h = (Inl ErrNotPending, h)"
    by (simp add: ConsumeAuthorization_def consume_checks_def StatusApproved_def StatusRevoked_def)
  show "fst (Confirm now i c h) \<noteq> Inr commit"
  proof
    assume "fst (Confirm now i c h) = Inr commit"
    then have "Confirm now i c h = (Inr commit, snd (Confirm now i c h))" by (simp add: prod_eq_iff)
    then show False
      by (cases rule: Confirm_granted) (use r' in \<open>simp add: StatusPending_def StatusRevoked_def\<close>)
  qed
qed

lemma ConsumeAuthorization_ok:
  assumes "ConsumeAuthorization now i scope digest g = (Inr (), g')"
  obtains r where "requests g i = Some r" "consume_checks now r scope digest (policyEpoch g) = None"
    "same_memory g' (snd (consume_core now i scope r g))" "policyEpoch g' = policyEpoch g"
proof (cases "requests g i")
  case None
  then show thesis using assms by (simp add: ConsumeAuthorization_def)
next
  case (Some r)
  show thesis
  proof (cases "consume_checks now r scope digest (policyEpoch g)")
    case None
    then have "write_through g i (consume_core now i scope r g) = (Inr (), g')"
      using assms Some by (simp add: ConsumeAuthorization_def)
    then show thesis
      by (cases rule: write_through_cases) (use Some None that in auto)
  qed (use assms Some in \<open>simp add: ConsumeAuthorization_def\<close>)
qed

text \<open>
  C5: an authorization is consumed at most once: after a successful
  \<open>ConsumeAuthorization\<close>, in every continuation of the gate's life, restores from an
  honest ledger and foreign writes to it included, no call consumes the request again and no
  confirmation revives it.
\<close>

theorem consume_at_most_once:
  assumes "ConsumeAuthorization now i scope digest g = (Inr (), g')" "gate_history g' now h u"
  shows "ConsumeAuthorization now' i scope' digest' h = (Inl ErrNotPending, h)
    \<and> fst (Confirm now' i c h) \<noteq> Inr commit"
  using assms(1)
proof (cases rule: ConsumeAuthorization_ok)
  case (1 r)
  then have "requests g' i = Some (r\<lparr>rec_Status := StatusRevoked, rec_Commit := None\<rparr>)"
    by (simp add: same_memory_def consume_core_def)
  then show ?thesis using revoked_is_final[OF _ _ assms(2)] by simp
qed

definition ex_shelved :: "unit Gate" where
  "ex_shelved = ex_granted\<lparr>persistence := Some (ex_shelf, ())\<rparr>"

lemma persistSince_unit_ledger:
  "persistence g = Some (api, ()) \<Longrightarrow> persistence (snd (persistSince n i g)) = Some (api, ())"
  by (auto simp: persistSince_def Let_def split: option.split prod.split)

lemma ConsumeAuthorization_unit_ledger:
  assumes "persistence g = Some (api, ())"
  shows "persistence (snd (ConsumeAuthorization now i scope digest g)) = Some (api, ())"
proof -
  have "persistence (snd (consume_core now i scope rc g)) = Some (api, ())" for rc
    using assms by (simp add: consume_core_def)
  from persistSince_unit_ledger[OF this] show ?thesis
    using assms
    by (auto simp: ConsumeAuthorization_def write_through_def split: option.split prod.split)
       (metis snd_conv)+
qed

theorem consume_at_most_once_witness:
  "\<exists>g' h. ConsumeAuthorization (21 * go_second) ''r1'' ''crp:apply'' ex_digest ex_shelved = (Inr (), g')
     \<and> Restore [''r1''] g' = (Some ErrDuplicateRequest, h)
     \<and> ConsumeAuthorization (22 * go_second) ''r1'' ''crp:apply'' ex_digest h = (Inl ErrNotPending, h)"
proof -
  let ?g = "snd (ConsumeAuthorization (21 * go_second) ''r1'' ''crp:apply'' ex_digest ex_shelved)"
  let ?h = "snd (Restore [''r1''] ?g)"
  have "fst (ConsumeAuthorization (21 * go_second) ''r1'' ''crp:apply'' ex_digest ex_shelved) = Inr ()"
      "fst (Restore [''r1''] ?g) = Some ErrDuplicateRequest"
    by code_simp+
  then have ok: "ConsumeAuthorization (21 * go_second) ''r1'' ''crp:apply'' ex_digest ex_shelved = (Inr (), ?g)"
      "Restore [''r1''] ?g = (Some ErrDuplicateRequest, ?h)"
    by (simp_all add: prod_eq_iff)
  have "persistence ?g = Some (ex_shelf, ())"
    by (rule ConsumeAuthorization_unit_ledger) (simp add: ex_shelved_def)
  then have "gate_history ?g (21 * go_second) ?h (21 * go_second)"
    by (intro gate_history.event[OF gate_history.start _ gate_event.restore_all[OF ex_shelf_honest]])
       (simp_all add: go_units)
  from consume_at_most_once[OF ok(1) this] ok show ?thesis by blast
qed

text \<open>
  Revocation is final: after a successful \<open>Revoke\<close>, in every continuation of the
  gate's life the request can be neither confirmed nor consumed.
\<close>

theorem revoke_is_final:
  assumes "Revoke now i actor reason g = (Inr (), g')" "gate_history g' now h u"
  shows "ConsumeAuthorization now' i scope digest h = (Inl ErrNotPending, h)
    \<and> fst (Confirm now' i c h) \<noteq> Inr commit"
proof -
  have "write_through_ok g i (revoke_core now i actor reason g) = (Inr (), g')"
    using assms(1) by (simp add: Revoke_def)
  then have kept: "fst (revoke_core now i actor reason g) = Inr ()"
      "same_memory g' (snd (revoke_core now i actor reason g))"
    by (cases rule: write_through_ok_cases; simp)+
  then obtain r where "requests g' i = Some (r\<lparr>rec_Status := StatusRevoked, rec_Commit := None\<rparr>)"
    by (auto simp: same_memory_def revoke_core_def split: option.splits)
  then show ?thesis using revoked_is_final[OF _ _ assms(2)] by simp
qed

theorem revoke_is_final_witness:
  "fst (Revoke (21 * go_second) ''r1'' ''carol'' ''withdrawn'' ex_granted) = Inr ()
   \<and> fst (ConsumeAuthorization (22 * go_second) ''r1'' ''crp:apply'' ex_digest
       (snd (Revoke (21 * go_second) ''r1'' ''carol'' ''withdrawn'' ex_granted))) = Inl ErrNotPending"
proof -
  let ?rv = "Revoke (21 * go_second) ''r1'' ''carol'' ''withdrawn'' ex_granted"
  have ok: "fst ?rv = Inr ()" by code_simp
  then have "?rv = (Inr (), snd ?rv)" by (simp add: prod_eq_iff)
  then show ?thesis using revoke_is_final[OF _ gate_history.start] ok by (metis fst_conv)
qed

text \<open>
  C6: the epoch fence: once the gate has advanced past the policy epoch a request was
  submitted under, then in every continuation of the gate's life, restores from an honest ledger
  included, the request is neither granted nor consumed.
\<close>

theorem epoch_fence:
  assumes "requests g i = Some r" "AdvanceEpoch epoch g = (None, g')"
    and "req_PolicyEpoch (rec_Request r) < epoch" "gate_history g' t h u"
  shows "fst (ConsumeAuthorization now i scope digest h) \<noteq> Inr ()
    \<and> fst (Confirm now i c h) \<noteq> Inr commit"
proof -
  have g': "policyEpoch g' = epoch" "requests g' = requests g"
    using assms(2) by (auto simp: AdvanceEpoch_def split: if_splits option.splits prod.splits)
  obtain r' where r': "requests h i = Some r'" "rec_Request r' = rec_Request r"
    using history_follows[OF assms(4), of i r] assms(1) g'(2) by (auto simp: follows_def)
  have late: "req_PolicyEpoch (rec_Request r') \<noteq> policyEpoch h"
    using history_policyEpoch[OF assms(4)] assms(3) r'(2) g'(1) by auto
  have "consume_checks now r' scope digest (policyEpoch h) \<noteq> None"
    unfolding consume_checks_def first_error_None using late by simp
  then have "fst (ConsumeAuthorization now i scope digest h) \<noteq> Inr ()"
    using r' by (auto simp: ConsumeAuthorization_def)
  moreover have "fst (Confirm now i c h) \<noteq> Inr commit"
  proof
    assume "fst (Confirm now i c h) = Inr commit"
    then have "Confirm now i c h = (Inr commit, snd (Confirm now i c h))" by (simp add: prod_eq_iff)
    then show False
      by (cases rule: Confirm_granted) (use r' late in \<open>simp add: confirm_guards_None\<close>)
  qed
  ultimately show ?thesis ..
qed

theorem epoch_fence_witness:
  "fst (AdvanceEpoch 8 ex_granted) = None
   \<and> fst (ConsumeAuthorization (21 * go_second) ''r1'' ''crp:apply'' ex_digest
       (snd (AdvanceEpoch 8 ex_granted))) \<noteq> Inr ()"
proof -
  have "(case requests ex_granted ''r1'' of None \<Rightarrow> False
         | Some r \<Rightarrow> req_PolicyEpoch (rec_Request r) < 8)" by code_simp
  then obtain r where r: "requests ex_granted ''r1'' = Some r" "req_PolicyEpoch (rec_Request r) < 8"
    by (auto split: option.splits)
  have ok: "fst (AdvanceEpoch 8 ex_granted) = None" by code_simp
  then have "AdvanceEpoch 8 ex_granted = (None, snd (AdvanceEpoch 8 ex_granted))"
    by (simp add: prod_eq_iff)
  then show ?thesis using epoch_fence[OF r(1) _ r(2) gate_history.start] ok by blast
qed



subsection \<open>Submission, the audit log and the ledger\<close>

text \<open>
  A submission is approved on the spot exactly when it is marked pre-approved, of low risk and
  neither sensitive nor break-glass; a change-release, cluster, key or token scope never is.
  Every other accepted submission is pending without a commit. It is stored under the
  request's identifier, which was free before.
\<close>

theorem submit_approves_only_preapproved:
  assumes "Submit now req g = (Inr rc, g')"
  shows "requests g (rec_ID rc) = None \<and> requests g' (rec_ID rc) = Some rc
    \<and> req_PolicyEpoch (rec_Request rc) = policyEpoch g
    \<and> (rec_Status rc = StatusApproved \<longleftrightarrow> rec_Commit rc \<noteq> None)
    \<and> (rec_Status rc = StatusApproved \<longleftrightarrow>
         req_PreApproved (rec_Request rc) \<and> req_Risk (rec_Request rc) = RiskLow
         \<and> \<not> sensitive (rec_Request rc) \<and> \<not> req_BreakGlass (rec_Request rc))
    \<and> (rec_Status rc \<noteq> StatusApproved \<longrightarrow> rec_Status rc = StatusPending)
    \<and> (sensitiveScope (req_Scope (rec_Request rc)) \<longrightarrow> rec_Status rc = StatusPending)"
proof -
  have "write_through_ok g (req_ID req) (submit_core now req g) = (Inr rc, g')"
    using assms by (simp add: Submit_def)
  then have kept: "fst (submit_core now req g) = Inr rc" "same_memory g' (snd (submit_core now req g))"
    by (cases rule: write_through_ok_cases; simp)+
  show ?thesis
  proof (cases "submit_core now req g")
    case (Pair res h)
    from Pair show ?thesis
    proof (cases rule: submit_core_cases)
      case (stored req' rc')
      have rc: "rc = rc'" using stored(5) kept(1) Pair by simp
      have safe: "preapproved req' \<Longrightarrow> \<not> sensitiveScope (req_Scope req')"
        using stored(2) by (auto simp: validateRequest_None preapproved_def)
      have fields: "rec_ID rc' = req_ID req'" "rec_Request rc' = req'"
          "rec_Status rc' = (if preapproved req' then StatusApproved else StatusPending)"
          "(rec_Commit rc' \<noteq> None) = preapproved req'"
        unfolding stored(6) by (auto simp: pending_record_def preapproved_record_def Let_def)
      show ?thesis using stored(3,4,7) kept(2) Pair safe
        by (auto simp: rc fields same_memory_def StatusPending_def StatusApproved_def
            preapproved_def[symmetric] simp del: not_None_eq split: if_splits)
    qed (use kept Pair in simp)
  qed
qed

theorem submit_approves_only_preapproved_witness:
  "\<exists>rc. fst (Submit 1 ex_request (NewGate 7 :: unit Gate)) = Inr rc \<and> rec_Status rc = StatusPending"
proof -
  let ?s = "Submit 1 ex_request (NewGate 7 :: unit Gate)"
  have "(case fst ?s of Inl e \<Rightarrow> False | Inr rc \<Rightarrow> sensitiveScope (req_Scope (rec_Request rc)))"
    by code_simp
  then obtain rc where rc: "fst ?s = Inr rc" "sensitiveScope (req_Scope (rec_Request rc))"
    by (auto split: sum.splits)
  then have "?s = (Inr rc, snd ?s)" by (simp add: prod_eq_iff)
  from submit_approves_only_preapproved[OF this] show ?thesis using rc by blast
qed

text \<open>
  The life of a gate: calls, and restoring records from a bound ledger, in any order.
\<close>

inductive gate_life :: "'p Gate \<Rightarrow> bool" where
  fresh: "gate_life (NewGate e)"
| bound: "NewGateWithPersistence e p = Inr g \<Longrightarrow> gate_life g"
| bind: "gate_life g \<Longrightarrow> gate_life (snd (BindPersistence p g))"
| call: "gate_life g \<Longrightarrow> gate_step now g h \<Longrightarrow> gate_life h"
| restored: "gate_life g \<Longrightarrow> gate_life (snd (Restore ids g))"

lemma audit_numbered_step:
  assumes "gate_step now g h" "audit_numbered g"
  shows "audit_numbered h"
  using assms(1)
proof (cases rule: gate_step_memory)
  case (consumed i scope digest rc)
  then show ?thesis using assms(2)
    by (simp add: audit_numbered_same consume_core_def audit_numbered_append)
qed (use assms(2) in \<open>auto simp: audit_numbered_same intro: wf_intros\<close>)

lemma audit_numbered_Restore: "audit_numbered g \<Longrightarrow> audit_numbered (snd (Restore ids g))"
  by (auto simp: Restore_def audit_numbered_restore_all split: option.split sum.split prod.split)

lemma audit_numbered_BindPersistence [simp]:
  "audit_numbered (snd (BindPersistence p g)) = audit_numbered g"
  by (simp add: BindPersistence_def split: option.split)

lemma gate_life_audit: "gate_life g \<Longrightarrow> audit_numbered g"
proof (induction rule: gate_life.induct)
  case (fresh e)
  then show ?case by (simp add: audit_numbered_def NewGate_def)
next
  case (bound e p g)
  then show ?case
    by (auto simp: audit_numbered_def NewGate_def NewGateWithPersistence_def split: option.splits)
qed (simp_all add: audit_numbered_step audit_numbered_Restore)

text \<open>
  In every life of a gate, failed and rolled-back calls and restores included, the audit
  log is numbered from one without gaps, the counter is the log's length, and below the
  wrap-around of the 64-bit counter no two events share a sequence number.
\<close>

theorem audit_log_numbered:
  assumes "gate_life g" "length (audit g) < 2 ^ 64" "k < length (audit g)"
  shows "ev_Sequence (audit g ! k) = of_nat (Suc k) \<and> gate_sequence g = of_nat (length (audit g))
    \<and> distinct (map ev_Sequence (audit g))"
proof -
  have "audit_numbered g" using assms(1) by (rule gate_life_audit)
  then show ?thesis using assms(2,3) numbered_distinct[of ev_Sequence "audit g"]
    by (simp add: audit_numbered_def numbered_def)
qed

theorem audit_log_numbered_witness: "ev_Sequence (audit ex_submitted ! 0) = 1"
proof -
  have "gate_life ex_submitted"
    unfolding ex_submitted_def by (rule gate_life.call[OF gate_life.fresh gate_step.submit])
  moreover have len: "length (audit ex_submitted) = 1" by code_simp
  ultimately show ?thesis using audit_log_numbered[of ex_submitted 0] by simp
qed

lemma snapshot_restore [simp]: "snapshot (restore s g) = s"
  by (simp add: snapshot_def restore_def)

lemma write_through_failed:
  assumes "write_through g i rg = (Inl e, h)" "fst rg \<noteq> Inl e" "policyEpoch (snd rg) = policyEpoch g"
  shows "snapshot h = snapshot g \<and> policyEpoch h = policyEpoch g"
  using assms(1,3)
  by (cases rule: write_through_cases) (use assms(2) in \<open>auto simp: snapshot_def same_memory_def\<close>)

lemma write_through_ok_failed:
  assumes "write_through_ok g i rg = (Inl e, h)" "policyEpoch (snd rg) = policyEpoch g"
    and "isl (fst rg) \<Longrightarrow> snd rg = g"
  shows "snapshot h = snapshot g \<and> policyEpoch h = policyEpoch g"
proof (cases "fst rg")
  case (Inl e')
  then show ?thesis using assms(1,3) by (auto simp: write_through_ok_def)
next
  case (Inr v)
  then show ?thesis using write_through_failed[of g i rg e h] assms(1,2)
    by (simp add: write_through_ok_def)
qed

lemma core_error_unchanged:
  "isl (fst (submit_core now req g)) \<Longrightarrow> snd (submit_core now req g) = g"
  "isl (fst (revoke_core now i actor reason g)) \<Longrightarrow> snd (revoke_core now i actor reason g) = g"
  by (auto simp: submit_core_def revoke_core_def Let_def split: option.splits sum.splits if_splits)

text \<open>
  Calls are all-or-nothing: a \<open>Submit\<close>, \<open>Revoke\<close> or
  \<open>ConsumeAuthorization\<close> that returns an error, from a check or from the ledger, leaves the
  requests, the spent identifiers, the checkpoint owners, the audit log, its counter, the
  durable sequence numbers and the policy epoch as they were.
\<close>

theorem failed_call_changes_nothing:
  assumes "Submit now req g = (Inl e, h) \<or> Revoke now i actor reason g = (Inl e, h)
    \<or> ConsumeAuthorization now i scope digest g = (Inl e, h)"
  shows "snapshot h = snapshot g \<and> policyEpoch h = policyEpoch g"
  using assms
proof (elim disjE)
  assume "Submit now req g = (Inl e, h)"
  then show ?thesis
    by (intro write_through_ok_failed[of g "req_ID req" "submit_core now req g"])
       (simp_all add: Submit_def core_error_unchanged)
next
  assume "Revoke now i actor reason g = (Inl e, h)"
  then show ?thesis
    by (intro write_through_ok_failed[of g i "revoke_core now i actor reason g"])
       (simp_all add: Revoke_def core_error_unchanged)
next
  assume consume: "ConsumeAuthorization now i scope digest g = (Inl e, h)"
  show ?thesis
  proof (cases "\<exists>r. requests g i = Some r \<and> consume_checks now r scope digest (policyEpoch g) = None")
    case True
    then obtain r where "write_through g i (consume_core now i scope r g) = (Inl e, h)"
      using consume by (auto simp: ConsumeAuthorization_def)
    then show ?thesis by (rule write_through_failed) (simp_all add: consume_core_def)
  qed (use consume in \<open>auto simp: ConsumeAuthorization_def split: option.splits\<close>)
qed

text \<open>A ledger that is down: every write fails.\<close>

definition ex_down :: "unit Persistence" where
  "ex_down = \<lparr>p_Apply = (\<lambda>p m. (Some ErrInvalidPersistence, p)),
     p_Load = (\<lambda>p i. Inl ErrNotFound), p_Events = (\<lambda>p i. Inl ErrNotFound), p_LoadWithEvents = None,
     p_LoadWithEventsAtEpoch = None, p_ApplyBatch = None, p_ApplyAtEpoch = None,
     p_ApplyBatchAtEpoch = None, p_CompareAndSetEpoch = None, p_PolicyEpoch = None, p_ListIDs = None\<rparr>"

theorem failed_call_changes_nothing_witness:
  "fst (Submit 1 ex_request ((NewGate 7)\<lparr>persistence := Some (ex_down, ())\<rparr>)) = Inl ErrInvalidPersistence
   \<and> snapshot (snd (Submit 1 ex_request ((NewGate 7)\<lparr>persistence := Some (ex_down, ())\<rparr>)))
     = snapshot ((NewGate 7)\<lparr>persistence := Some (ex_down, ())\<rparr>)"
proof -
  let ?g = "(NewGate 7)\<lparr>persistence := Some (ex_down, ())\<rparr>"
  have failed: "fst (Submit 1 ex_request ?g) = Inl ErrInvalidPersistence" by code_simp
  then have "Submit 1 ex_request ?g = (Inl ErrInvalidPersistence, snd (Submit 1 ex_request ?g))"
    by (simp add: prod_eq_iff)
  then show ?thesis using failed_call_changes_nothing failed by blast
qed

lemma appendAudit_snoc:
  "\<exists>ev. audit (appendAudit now ty i a sc e cid why g) = audit g @ [ev]
     \<and> ev_RequestID ev = i \<and> ev_At ev = now \<and> ev_Sequence ev = gate_sequence g + 1"
  by (auto simp: appendAudit_def Let_def split: option.split)

lemma confirm_core_audited:
  assumes "Get i g \<noteq> None"
  shows "\<exists>ev. audit (snd (confirm_core now i c g)) = audit g @ [ev]
      \<and> ev_RequestID ev = i \<and> ev_At ev = now \<and> ev_Sequence ev = gate_sequence g + 1"
proof (cases "confirm_core now i c g")
  case (Pair res h)
  from Pair show ?thesis
  proof (cases rule: confirm_core_cases)
    case missing
    then show ?thesis using assms by (simp add: Get_def)
  next
    case (rejected rc c' e)
    then have "h = snd (confirm_reject now i rc c' e g)" by simp
    then show ?thesis using Pair appendAudit_snoc[of now _ i _ _ _ _ _ g] by (simp add: confirm_reject_def)
  next
    case (lapsed rc)
    then show ?thesis using Pair appendAudit_snoc[of now _ i _ _ _ _ _ "g\<lparr>requests := _\<rparr>"] by simp
  next
    case (checkpoint rc c')
    let ?x = "(if conf_ConfirmationID (rec_Confirmation rc) \<noteq> [] then g
      else let c'' = c'\<lparr>conf_TTL := req_TTL (rec_Request rc), conf_ConfirmationStep := 2\<rparr>
           in g\<lparr>requests := (requests g)(i \<mapsto> rc\<lparr>rec_Confirmation := c''\<rparr>),
               confirmationOwners := (confirmationOwners g)(conf_ConfirmationID c' \<mapsto> i)\<rparr>)"
    have "audit ?x = audit g" "gate_sequence ?x = gate_sequence g" by (simp_all add: Let_def)
    then show ?thesis using Pair checkpoint appendAudit_snoc[of now _ i _ _ _ _ _ ?x]
      by (simp only: record_checkpoint_def snd_conv)
  next
    case (granted rc c')
    then show ?thesis using Pair appendAudit_snoc[of now _ i _ _ _ _ _ "g\<lparr>requests := _, usedIDs := _\<rparr>"]
      by (simp add: authorize_def Let_def)
  qed
qed

text \<open>
  \<open>Confirm\<close> audits every attempt on a known request, refused ones included, and a
  ledger that refuses the write takes the attempt back: with no ledger bound the log grows by
  exactly one event of that request; a failed write leaves the in-memory state as it was, so no
  grant is ever visible that the ledger does not hold.
\<close>

theorem confirm_is_audited:
  assumes "Get i g \<noteq> None"
  shows "(persistence g = None \<longrightarrow> (\<exists>ev. audit (snd (Confirm now i c g)) = audit g @ [ev]
            \<and> ev_RequestID ev = i \<and> ev_At ev = now \<and> ev_Sequence ev = gate_sequence g + 1))
    \<and> (fst (persistSince (length (audit g)) i (snd (confirm_core now i c g))) \<noteq> None \<longrightarrow>
         snapshot (snd (Confirm now i c g)) = snapshot g \<and> isl (fst (Confirm now i c g)))"
proof -
  note core = confirm_core_audited[OF assms, of now c]
  have pers: "persistence (snd (confirm_core now i c g)) = persistence g"
    by (simp add: confirm_core_def confirm_reject_def record_checkpoint_def authorize_def Let_def
        split: option.split)
  then have "persistence g = None \<Longrightarrow> Confirm now i c g = confirm_core now i c g"
    by (simp add: Confirm_def write_through_def persistSince_def)
  moreover have "fst (persistSince (length (audit g)) i (snd (confirm_core now i c g))) \<noteq> None \<Longrightarrow>
      snapshot (snd (Confirm now i c g)) = snapshot g \<and> isl (fst (Confirm now i c g))"
    by (auto simp: Confirm_def write_through_def split: option.split prod.split)
  ultimately show ?thesis using core by auto
qed

theorem confirm_is_audited_witness:
  "\<exists>ev. audit ex_granted = audit ex_checkpointed @ [ev] \<and> ev_RequestID ev = ''r1''"
proof -
  have "Get ''r1'' ex_checkpointed \<noteq> None" "persistence ex_checkpointed = None" by code_simp+
  then show ?thesis unfolding ex_granted_def using confirm_is_audited by blast
qed

end
