(* ===== verification/Approval_Workflow.thy ===== *)
theory Approval_Workflow
  imports Approval_Properties
begin

text \<open>
  \<open>internal/approval/workflow.go\<close> and \<open>roles.go\<close>: the routing of a request, the
  binding a workflow sidecar holds to a core request, logical batches of bindings, one-hop
  delegations and their ledger, and the mapping of stored roles to approval authority.
\<close>

subsection \<open>Routing\<close>

type_synonym WorkflowRoute = string

definition WorkflowAutoApproved :: WorkflowRoute where "WorkflowAutoApproved = ''auto_approved''"

definition WorkflowLocalManual :: WorkflowRoute where "WorkflowLocalManual = ''local_manual''"

definition WorkflowSidecarPending :: WorkflowRoute where "WorkflowSidecarPending = ''workflow_pending''"

definition WorkflowBreakGlass :: WorkflowRoute where "WorkflowBreakGlass = ''break_glass_pending''"

lemmas route_defs = WorkflowAutoApproved_def WorkflowLocalManual_def WorkflowSidecarPending_def
  WorkflowBreakGlass_def

record WorkflowPlan =
  plan_Route :: WorkflowRoute
  plan_WorkflowAvailable :: bool
  plan_RequiresInteractive :: bool
  plan_RequiresWorkflow :: bool
  plan_RequiresBreakGlass :: bool
  plan_Reason :: string

definition PlanWorkflow :: "Request \<Rightarrow> bool \<Rightarrow> approval_error + WorkflowPlan" where
  "PlanWorkflow req workflowAvailable =
     (case normalizeRequest req of
        Inl _ \<Rightarrow> Inl ErrInvalidRequest
      | Inr n \<Rightarrow>
          if req_Risk n = RiskEmergency then
            Inr \<lparr>plan_Route = WorkflowBreakGlass, plan_WorkflowAvailable = workflowAvailable,
              plan_RequiresInteractive = True, plan_RequiresWorkflow = workflowAvailable,
              plan_RequiresBreakGlass = True,
              plan_Reason = ''emergency operations require restricted break-glass confirmation''\<rparr>
          else if req_Risk n = RiskLow \<and> req_PreApproved n \<and> \<not> sensitive n \<and> \<not> req_BreakGlass n then
            Inr \<lparr>plan_Route = WorkflowAutoApproved, plan_WorkflowAvailable = workflowAvailable,
              plan_RequiresInteractive = False, plan_RequiresWorkflow = False,
              plan_RequiresBreakGlass = False, plan_Reason = ''explicit low-risk pre-approval''\<rparr>
          else if sensitive n \<or> req_Risk n = RiskHigh then
            Inr \<lparr>plan_Route = WorkflowSidecarPending, plan_WorkflowAvailable = workflowAvailable,
              plan_RequiresInteractive = True, plan_RequiresWorkflow = True,
              plan_RequiresBreakGlass = False,
              plan_Reason = ''sensitive or high-risk operation cannot be auto-approved''\<rparr>
          else
            Inr \<lparr>plan_Route = WorkflowLocalManual, plan_WorkflowAvailable = workflowAvailable,
              plan_RequiresInteractive = True, plan_RequiresWorkflow = False,
              plan_RequiresBreakGlass = False,
              plan_Reason = ''ordinary operation requires local human confirmation''\<rparr>)"

subsection \<open>Bindings\<close>

record WorkflowBinding =
  bind_ApprovalID :: string
  bind_ConfirmationID :: string
  bind_IntentDigest :: string
  bind_WorkflowDigest :: string
  bind_Scope :: string
  bind_SessionID :: string
  bind_Nonce :: string
  bind_PolicyEpoch :: u64
  bind_EventSequence :: u64
  bind_TTL :: duration

datatype workflow_error =
    GateError approval_error
  | ErrWorkflowBinding | ErrWorkflowEventStale | ErrBatchInvalid
  | ErrDelegationInvalid | ErrDelegationReplay | ErrDelegationChain | ErrDelegationSelf

text \<open>The loop over the audit log that keeps the largest sequence number of a request.\<close>

definition latest_sequence :: "string \<Rightarrow> AuditEvent list \<Rightarrow> u64" where
  "latest_sequence requestID events =
     foldl (\<lambda>latest e. if ev_RequestID e = requestID \<and> ev_Sequence e > latest
                       then ev_Sequence e else latest) 0 events"

definition WorkflowBindingFor :: "time \<Rightarrow> string \<Rightarrow> 'p Gate \<Rightarrow> workflow_error + WorkflowBinding" where
  "WorkflowBindingFor now requestID g =
     (case requests g requestID of
        None \<Rightarrow> Inl (GateError ErrNotFound)
      | Some r \<Rightarrow>
          if \<not> now < rec_ExpiresAt r then Inl (GateError ErrExpired)
          else if rec_Status r = StatusRevoked then Inl (GateError ErrRevoked)
          else let sequence = latest_sequence (rec_ID r) (audit g) in
            if sequence = 0 then Inl ErrWorkflowBinding
            else Inr \<lparr>bind_ApprovalID = rec_ID r,
              bind_ConfirmationID = (case rec_Commit r of
                 None \<Rightarrow> conf_ConfirmationID (rec_Confirmation r)
               | Some commit \<Rightarrow> com_ConfirmationID commit),
              bind_IntentDigest = req_IntentDigest (rec_Request r),
              bind_WorkflowDigest = req_WorkflowDigest (rec_Request r),
              bind_Scope = req_Scope (rec_Request r), bind_SessionID = req_SessionID (rec_Request r),
              bind_Nonce = req_Nonce (rec_Request r), bind_PolicyEpoch = req_PolicyEpoch (rec_Request r),
              bind_EventSequence = sequence, bind_TTL = req_TTL (rec_Request r)\<rparr>)"

definition ValidateWorkflowBinding ::
    "time \<Rightarrow> string \<Rightarrow> WorkflowBinding \<Rightarrow> 'p Gate \<Rightarrow> workflow_error option" where
  "ValidateWorkflowBinding now requestID b g =
     (case requests g requestID of
        None \<Rightarrow> Some (GateError ErrNotFound)
      | Some r \<Rightarrow> first_error
          [fail_if (rec_Status r = StatusRevoked) (GateError ErrRevoked),
           fail_if (\<not> now < rec_ExpiresAt r) (GateError ErrExpired),
           fail_if (bind_ApprovalID b \<noteq> requestID
             \<or> bind_IntentDigest b \<noteq> req_IntentDigest (rec_Request r)
             \<or> bind_WorkflowDigest b \<noteq> req_WorkflowDigest (rec_Request r)
             \<or> bind_Scope b \<noteq> req_Scope (rec_Request r)
             \<or> bind_SessionID b \<noteq> req_SessionID (rec_Request r)
             \<or> bind_Nonce b \<noteq> req_Nonce (rec_Request r)
             \<or> bind_PolicyEpoch b \<noteq> req_PolicyEpoch (rec_Request r)
             \<or> bind_TTL b \<noteq> req_TTL (rec_Request r) \<or> bind_EventSequence b = 0) ErrWorkflowBinding,
           fail_if (case rec_Commit r of None \<Rightarrow> False
                    | Some commit \<Rightarrow> bind_ConfirmationID b \<noteq> com_ConfirmationID commit) ErrWorkflowBinding,
           fail_if (rec_Commit r = None \<and> bind_ConfirmationID b \<noteq> []
             \<and> bind_ConfirmationID b \<noteq> conf_ConfirmationID (rec_Confirmation r)) ErrWorkflowBinding,
           fail_if (bind_EventSequence b \<noteq> latest_sequence requestID (audit g)) ErrWorkflowEventStale])"

definition binding_well_formed :: "WorkflowBinding \<Rightarrow> bool" where
  "binding_well_formed b \<longleftrightarrow> \<not> (ValidateIdentifier (bind_ApprovalID b) \<noteq> None
     \<or> \<not> valid_digest (bind_IntentDigest b)
     \<or> (bind_WorkflowDigest b \<noteq> [] \<and> ValidateIdentifier (bind_WorkflowDigest b) \<noteq> None)
     \<or> ValidateIdentifier (bind_Scope b) \<noteq> None \<or> ValidateIdentifier (bind_SessionID b) \<noteq> None
     \<or> ValidateIdentifier (bind_Nonce b) \<noteq> None
     \<or> (bind_ConfirmationID b \<noteq> [] \<and> ValidateIdentifier (bind_ConfirmationID b) \<noteq> None)
     \<or> bind_PolicyEpoch b = 0 \<or> bind_EventSequence b = 0 \<or> bind_TTL b \<le> 0)"

fun super_batch_loop :: "u64 \<Rightarrow> string \<Rightarrow> string set \<Rightarrow> WorkflowBinding list \<Rightarrow> workflow_error option" where
  "super_batch_loop epoch workflow seen [] = None"
| "super_batch_loop epoch workflow seen (b # bs) =
     (if \<not> binding_well_formed b then Some ErrBatchInvalid
      else if bind_PolicyEpoch b \<noteq> epoch \<or> bind_WorkflowDigest b \<noteq> workflow then Some ErrBatchInvalid
      else if bind_ApprovalID b \<in> seen then Some ErrBatchInvalid
      else super_batch_loop epoch workflow (insert (bind_ApprovalID b) seen) bs)"

definition ValidateSuperBatch :: "WorkflowBinding list \<Rightarrow> workflow_error option" where
  "ValidateSuperBatch bindings =
     (if bindings = [] then Some ErrBatchInvalid
      else super_batch_loop (bind_PolicyEpoch (hd bindings)) (bind_WorkflowDigest (hd bindings)) {} bindings)"

subsection \<open>Delegations\<close>

record ApprovalDelegation =
  del_ID :: string
  del_ApprovalID :: string
  del_Issuer :: string
  del_IssuerSessionID :: string
  del_Delegate :: string
  del_DelegateSessionID :: string
  del_Scope :: string
  del_IntentDigest :: string
  del_WorkflowDigest :: string
  del_PolicyEpoch :: u64
  del_IssuedAt :: time
  del_ExpiresAt :: time
  del_OneTime :: bool
  del_ParentID :: string

definition delegation_invalid :: "Record \<Rightarrow> ApprovalDelegation \<Rightarrow> time \<Rightarrow> bool" where
  "delegation_invalid r d now \<longleftrightarrow>
     ValidateIdentifier (del_ID d) \<noteq> None \<or> del_ApprovalID d \<noteq> rec_ID r
     \<or> ValidateIdentifier (del_Issuer d) \<noteq> None \<or> ValidateIdentifier (del_IssuerSessionID d) \<noteq> None
     \<or> ValidateIdentifier (del_Delegate d) \<noteq> None \<or> ValidateIdentifier (del_DelegateSessionID d) \<noteq> None
     \<or> ValidateIdentifier (del_Scope d) \<noteq> None \<or> \<not> valid_digest (del_IntentDigest d)
     \<or> (del_WorkflowDigest d \<noteq> [] \<and> ValidateIdentifier (del_WorkflowDigest d) \<noteq> None)
     \<or> del_PolicyEpoch d \<noteq> req_PolicyEpoch (rec_Request r) \<or> del_Issuer d \<noteq> req_Actor (rec_Request r)
     \<or> del_IssuerSessionID d \<noteq> req_SessionID (rec_Request r) \<or> del_Scope d \<noteq> req_Scope (rec_Request r)
     \<or> del_IntentDigest d \<noteq> req_IntentDigest (rec_Request r)
     \<or> del_WorkflowDigest d \<noteq> req_WorkflowDigest (rec_Request r) \<or> \<not> del_OneTime d
     \<or> del_ParentID d \<noteq> [] \<or> del_Issuer d = del_Delegate d \<or> \<not> del_IssuedAt d < del_ExpiresAt d
     \<or> \<not> now < del_ExpiresAt d \<or> del_ExpiresAt d > rec_ExpiresAt r"

definition ValidateApprovalDelegation ::
    "Record \<Rightarrow> ApprovalDelegation \<Rightarrow> time \<Rightarrow> workflow_error option" where
  "ValidateApprovalDelegation r d now =
     (if rec_Status r = StatusRevoked \<or> rec_Status r = StatusExpired \<or> \<not> now < rec_ExpiresAt r
      then Some ErrDelegationInvalid
      else if delegation_invalid r d now then
        (if del_ParentID d \<noteq> [] then Some ErrDelegationChain
         else if del_Issuer d = del_Delegate d then Some ErrDelegationSelf
         else Some ErrDelegationInvalid)
      else None)"

record DelegationLedger =
  used :: "string set"

definition NewDelegationLedger :: DelegationLedger where
  "NewDelegationLedger = \<lparr>used = {}\<rparr>"

definition Consume ::
    "time \<Rightarrow> Record \<Rightarrow> ApprovalDelegation \<Rightarrow> DelegationLedger \<Rightarrow> workflow_error option \<times> DelegationLedger" where
  "Consume now r d l =
     (case ValidateApprovalDelegation r d now of
        Some e \<Rightarrow> (Some e, l)
      | None \<Rightarrow> if del_ID d \<in> used l then (Some ErrDelegationReplay, l)
                else (None, l\<lparr>used := insert (del_ID d) (used l)\<rparr>))"

subsection \<open>Roles\<close>

definition CanApprove :: "string \<Rightarrow> string \<Rightarrow> bool" where
  "CanApprove role scope \<longleftrightarrow> role = ''admin''"

definition CanBreakGlass :: "string \<Rightarrow> string \<Rightarrow> bool" where
  "CanBreakGlass role scope = False"

definition CanonicalActorRole :: "string \<Rightarrow> ActorRole \<times> bool" where
  "CanonicalActorRole role =
     (if role = ''admin'' then (RoleOperator, True)
      else if role = RoleSecurityAdmin then (RoleSecurityAdmin, True)
      else if role = RoleTenantOwner then (RoleTenantOwner, True)
      else ([], False))"

subsection \<open>The route agrees with the gate\<close>

lemma PlanWorkflow_fields:
  assumes "PlanWorkflow req av = Inr plan" "normalizeRequest req = Inr n"
  shows "plan_Route plan = WorkflowAutoApproved \<longleftrightarrow> preapproved n"
    "plan_RequiresInteractive plan \<longleftrightarrow> \<not> preapproved n"
    "plan_RequiresBreakGlass plan \<longleftrightarrow> req_Risk n = RiskEmergency"
    "sensitive n \<Longrightarrow> req_Risk n \<noteq> RiskEmergency \<Longrightarrow> plan_RequiresWorkflow plan"
proof -
  have risk: "RiskLow \<noteq> RiskEmergency" and routes: "WorkflowBreakGlass \<noteq> WorkflowAutoApproved"
    "WorkflowSidecarPending \<noteq> WorkflowAutoApproved" "WorkflowLocalManual \<noteq> WorkflowAutoApproved"
    by (simp_all add: risk_defs route_defs)
  have plan: "Inr plan = PlanWorkflow req av" using assms(1) by simp
  consider (emergency) "req_Risk n = RiskEmergency" "\<not> preapproved n"
    | (auto) "req_Risk n \<noteq> RiskEmergency" "preapproved n"
    | (other) "req_Risk n \<noteq> RiskEmergency" "\<not> preapproved n"
    using risk by (auto simp: preapproved_def)
  then have "(plan_Route plan = WorkflowAutoApproved \<longleftrightarrow> preapproved n) \<and> (plan_RequiresInteractive plan \<longleftrightarrow> \<not> preapproved n)
    \<and> (plan_RequiresBreakGlass plan \<longleftrightarrow> req_Risk n = RiskEmergency)
    \<and> (sensitive n \<longrightarrow> req_Risk n \<noteq> RiskEmergency \<longrightarrow> plan_RequiresWorkflow plan)"
  proof cases
    case other
    then show ?thesis using plan routes assms(2)
      by (cases "sensitive n \<or> req_Risk n = RiskHigh") (auto simp: PlanWorkflow_def preapproved_def)
  qed (use plan routes assms(2) in \<open>simp_all add: PlanWorkflow_def preapproved_def\<close>)
  then show "plan_Route plan = WorkflowAutoApproved \<longleftrightarrow> preapproved n"
    "plan_RequiresInteractive plan \<longleftrightarrow> \<not> preapproved n"
    "plan_RequiresBreakGlass plan \<longleftrightarrow> req_Risk n = RiskEmergency"
    "sensitive n \<Longrightarrow> req_Risk n \<noteq> RiskEmergency \<Longrightarrow> plan_RequiresWorkflow plan"
    by simp_all
qed

text \<open>
  The workflow planner and the gate agree: for an accepted submission the planned route
  is automatic approval exactly when the gate stores the request as approved; every other
  route asks for an interactive confirmation, and an emergency for break-glass.
\<close>

theorem plan_agrees_with_submit:
  assumes "PlanWorkflow req av = Inr plan" "Submit now req g = (Inr rc, g')"
  shows "(plan_Route plan = WorkflowAutoApproved \<longleftrightarrow> rec_Status rc = StatusApproved)
    \<and> (plan_RequiresInteractive plan \<longleftrightarrow> rec_Status rc = StatusPending)
    \<and> (plan_RequiresBreakGlass plan \<longleftrightarrow> req_Risk (rec_Request rc) = RiskEmergency)
    \<and> (sensitive (rec_Request rc) \<and> req_Risk (rec_Request rc) \<noteq> RiskEmergency \<longrightarrow> plan_RequiresWorkflow plan)"
proof -
  have "fst (submit_core now req g) = Inr rc"
    using assms(2) unfolding Submit_def by (cases rule: write_through_ok_cases) simp_all
  then obtain h where "submit_core now req g = (Inr rc, h)" by (cases "submit_core now req g") auto
  then show ?thesis
  proof (cases rule: submit_core_cases)
    case (stored n rc')
    then have rc: "rc = (if preapproved n then preapproved_record now n else pending_record now n)"
      by simp
    have "rec_Request rc = n" "rec_Status rc = (if preapproved n then StatusApproved else StatusPending)"
      unfolding rc by (auto simp: preapproved_record_def pending_record_def Let_def)
    moreover have "StatusApproved \<noteq> StatusPending" by (simp add: status_defs)
    ultimately show ?thesis using PlanWorkflow_fields[OF assms(1) stored(1)] by simp
  qed simp
qed

theorem plan_agrees_with_submit_witness:
  "\<exists>plan rc. PlanWorkflow ex_request True = Inr plan
     \<and> fst (Submit 1 ex_request (NewGate 7 :: unit Gate)) = Inr rc
     \<and> plan_RequiresInteractive plan \<and> plan_RequiresWorkflow plan \<and> rec_Status rc = StatusPending"
proof -
  let ?s = "Submit 1 ex_request (NewGate 7 :: unit Gate)"
  have "(case PlanWorkflow ex_request True of Inl _ \<Rightarrow> False | Inr plan \<Rightarrow> plan_RequiresInteractive plan)"
    "(case fst ?s of Inl _ \<Rightarrow> False | Inr rc \<Rightarrow> req_Risk (rec_Request rc) = RiskHigh)"
    by code_simp+
  then obtain plan rc where *: "PlanWorkflow ex_request True = Inr plan" "plan_RequiresInteractive plan"
      "fst ?s = Inr rc" "req_Risk (rec_Request rc) = RiskHigh"
    by (auto split: sum.splits)
  then have "?s = (Inr rc, snd ?s)" by (simp add: prod_eq_iff)
  from plan_agrees_with_submit[OF *(1) this] show ?thesis using * by (auto simp: sensitive_def)
qed

subsection \<open>Bindings are fresh\<close>

lemma latest_sequence_snoc:
  "latest_sequence i (es @ [e]) =
     (if ev_RequestID e = i \<and> ev_Sequence e > latest_sequence i es then ev_Sequence e
      else latest_sequence i es)"
  by (simp add: latest_sequence_def)

lemma latest_sequence_bound:
  "(\<And>e. e \<in> set es \<Longrightarrow> ev_Sequence e \<le> n) \<Longrightarrow> latest_sequence i es \<le> n"
  by (induction es rule: rev_induct) (auto simp: latest_sequence_snoc latest_sequence_def)

lemma of_nat_u64_le: "a \<le> b \<Longrightarrow> b < 2 ^ 64 \<Longrightarrow> (of_nat a :: u64) \<le> of_nat b"
  by (simp add: word_le_nat_alt unat_of_nat)

lemma latest_below_next:
  assumes "audit_numbered g" "Suc (length (audit g)) < 2 ^ 64"
  shows "latest_sequence i (audit g) < gate_sequence g + 1"
proof -
  have "ev_Sequence e \<le> of_nat (length (audit g))" if e: "e \<in> set (audit g)" for e
  proof -
    from e obtain k where k: "k < length (audit g)" "e = audit g ! k" by (auto simp: in_set_conv_nth)
    then have "ev_Sequence e = of_nat (Suc k)"
      using assms(1) by (simp add: audit_numbered_def numbered_def)
    then show ?thesis using of_nat_u64_le[of "Suc k" "length (audit g)"] k assms(2)
      by (simp only: Suc_le_eq)
  qed
  then have "latest_sequence i (audit g) \<le> of_nat (length (audit g))" by (rule latest_sequence_bound)
  also have "(of_nat (length (audit g)) :: u64) < of_nat (Suc (length (audit g)))"
    using assms(2) by (simp add: word_less_nat_alt unat_of_nat del: of_nat_Suc)
  also have "of_nat (Suc (length (audit g))) = gate_sequence g + 1"
    using assms(1) by (simp add: audit_numbered_def numbered_def)
  finally show ?thesis .
qed

lemma ValidateWorkflowBinding_sequence:
  assumes "ValidateWorkflowBinding now i b g = None"
  shows "bind_EventSequence b = latest_sequence i (audit g)"
proof (cases "requests g i")
  case (Some r)
  show ?thesis
    using assms[unfolded ValidateWorkflowBinding_def Some option.case first_error_None] by simp
qed (use assms in \<open>simp add: ValidateWorkflowBinding_def\<close>)

text \<open>
  A binding is current when it is issued and stale after the next confirmation attempt:
  \<open>ValidateWorkflowBinding\<close> accepts what \<open>WorkflowBindingFor\<close> returns in the same
  state, and refuses it after any \<open>Confirm\<close> of that request, granted or refused.
\<close>

theorem binding_current_then_stale:
  assumes "gate_life g" "Suc (length (audit g)) < 2 ^ 64" "persistence g = None"
    and filed: "\<And>r. Get i g = Some r \<Longrightarrow> rec_ID r = i"
    and b: "WorkflowBindingFor now i g = Inr b"
  shows "ValidateWorkflowBinding now i b g = None
    \<and> ValidateWorkflowBinding now' i b (snd (Confirm now'' i c g)) \<noteq> None"
proof -
  from b obtain r where r: "requests g i = Some r" by (auto simp: WorkflowBindingFor_def split: option.splits)
  have ID: "rec_ID r = i" using filed r by (simp add: Get_def)
  have seq: "bind_EventSequence b = latest_sequence i (audit g)"
    using b r ID by (auto simp: WorkflowBindingFor_def Let_def split: if_splits)
  have "ValidateWorkflowBinding now i b g = None"
    using b r ID by (auto simp: WorkflowBindingFor_def ValidateWorkflowBinding_def Let_def
        split: if_splits option.splits)
  moreover have "ValidateWorkflowBinding now' i b (snd (Confirm now'' i c g)) \<noteq> None"
  proof -
    have pers: "persistence (snd (confirm_core now'' i c g)) = persistence g"
      by (simp add: confirm_core_def confirm_reject_def record_checkpoint_def authorize_def Let_def
          split: option.split)
    then have eq: "Confirm now'' i c g = confirm_core now'' i c g"
      using assms(3) by (simp add: Confirm_def write_through_def persistSince_def)
    obtain ev where ev: "audit (snd (confirm_core now'' i c g)) = audit g @ [ev]"
        "ev_RequestID ev = i" "ev_Sequence ev = gate_sequence g + 1"
      using confirm_core_audited[of i g now'' c] r by (auto simp: Get_def)
    have "latest_sequence i (audit g @ [ev]) = gate_sequence g + 1"
      using latest_below_next[OF gate_life_audit[OF assms(1)] assms(2), of i] ev
      by (simp add: latest_sequence_snoc)
    then have "bind_EventSequence b \<noteq> latest_sequence i (audit (snd (Confirm now'' i c g)))"
      using latest_below_next[OF gate_life_audit[OF assms(1)] assms(2), of i] seq ev eq by auto
    then show ?thesis using ValidateWorkflowBinding_sequence by blast
  qed
  ultimately show ?thesis ..
qed

theorem binding_current_then_stale_witness:
  "\<exists>b. WorkflowBindingFor 2 ''r1'' ex_submitted = Inr b
     \<and> ValidateWorkflowBinding 2 ''r1'' b ex_submitted = None
     \<and> ValidateWorkflowBinding 2 ''r1'' b
         (snd (Confirm (20 * go_second) ''r1'' (ex_confirmation False) ex_submitted)) \<noteq> None"
proof -
  have life: "gate_life ex_submitted"
    unfolding ex_submitted_def by (rule gate_life.call[OF gate_life.fresh gate_step.submit])
  have len: "Suc (length (audit ex_submitted)) < 2 ^ 64"
  proof -
    have "length (audit ex_submitted) = 1" by code_simp
    then show ?thesis by simp
  qed
  have pers: "persistence ex_submitted = None" by code_simp
  have "(case Get ''r1'' ex_submitted of None \<Rightarrow> False | Some r \<Rightarrow> rec_ID r = ''r1'')" by code_simp
  then have filed: "\<And>r. Get ''r1'' ex_submitted = Some r \<Longrightarrow> rec_ID r = ''r1''"
    by (auto split: option.splits)
  have "\<not> isl (WorkflowBindingFor 2 ''r1'' ex_submitted)" by code_simp
  then obtain b where b: "WorkflowBindingFor 2 ''r1'' ex_submitted = Inr b"
    by (cases "WorkflowBindingFor 2 ''r1'' ex_submitted") auto
  then show ?thesis using binding_current_then_stale[OF life len pers filed b] by blast
qed

lemma super_batch_loop_None:
  "super_batch_loop epoch workflow seen bs = None \<longleftrightarrow>
     (\<forall>b\<in>set bs. binding_well_formed b \<and> bind_PolicyEpoch b = epoch \<and> bind_WorkflowDigest b = workflow)
     \<and> distinct (map bind_ApprovalID bs) \<and> set (map bind_ApprovalID bs) \<inter> seen = {}"
  by (induction bs arbitrary: seen) auto

text \<open>
  A logical batch passes the prepare barrier exactly when it is non-empty, every binding
  is well formed, all carry the same policy epoch and workflow digest, and no approval occurs
  twice.
\<close>

theorem super_batch_valid_iff:
  "ValidateSuperBatch bs = None \<longleftrightarrow>
     bs \<noteq> [] \<and> list_all binding_well_formed bs \<and> distinct (map bind_ApprovalID bs)
     \<and> (\<exists>epoch workflow. list_all (\<lambda>b. bind_PolicyEpoch b = epoch \<and> bind_WorkflowDigest b = workflow) bs)"
  by (cases bs) (auto simp: ValidateSuperBatch_def super_batch_loop_None list_all_iff
      simp del: super_batch_loop.simps)

subsection \<open>Delegations are one-hop and one-time\<close>

fun consume_all :: "(time \<times> Record \<times> ApprovalDelegation) list \<Rightarrow> DelegationLedger \<Rightarrow> DelegationLedger" where
  "consume_all [] l = l"
| "consume_all ((now, r, d) # cs) l = consume_all cs (snd (Consume now r d l))"

lemma Consume_used: "used l \<subseteq> used (snd (Consume now r d l))"
  by (auto simp: Consume_def split: option.split)

lemma consume_all_used: "used l \<subseteq> used (consume_all cs l)"
proof (induction cs l rule: consume_all.induct)
  case (2 now r d cs l)
  then show ?case using Consume_used[of l now r d] by auto
qed simp

text \<open>
  A delegation is accepted only for a live request, from its requester and the requester's session to
  somebody else, in one hop, within the lifetime of the request; and it is accepted once:
  whatever other delegations are consumed afterwards, one with the same identifier is refused.
\<close>

theorem delegation_one_hop_once:
  assumes "Consume now r d l = (None, l')"
  shows "now < rec_ExpiresAt r \<and> del_ExpiresAt d \<le> rec_ExpiresAt r \<and> now < del_ExpiresAt d
    \<and> rec_Status r \<notin> {StatusRevoked, StatusExpired}
    \<and> del_Issuer d = req_Actor (rec_Request r) \<and> del_IssuerSessionID d = req_SessionID (rec_Request r)
    \<and> del_Delegate d \<noteq> req_Actor (rec_Request r) \<and> del_ParentID d = [] \<and> del_OneTime d
    \<and> (del_ID d' = del_ID d \<longrightarrow> fst (Consume now' r' d' (consume_all cs l')) \<noteq> None)"
proof -
  have v: "ValidateApprovalDelegation r d now = None" "l' = l\<lparr>used := insert (del_ID d) (used l)\<rparr>"
    using assms by (auto simp: Consume_def split: option.splits if_splits)
  have "del_ID d \<in> used (consume_all cs l')" using consume_all_used[of l' cs] v(2) by auto
  then have "del_ID d' = del_ID d \<longrightarrow> fst (Consume now' r' d' (consume_all cs l')) \<noteq> None"
    by (auto simp: Consume_def split: option.split)
  then show ?thesis using v(1)
    by (auto simp: ValidateApprovalDelegation_def delegation_invalid_def split: if_splits)
qed

definition ex_delegation :: ApprovalDelegation where
  "ex_delegation = \<lparr>del_ID = ''d1'', del_ApprovalID = ''r1'', del_Issuer = ''alice'',
     del_IssuerSessionID = ''s1'', del_Delegate = ''bob'', del_DelegateSessionID = ''s2'',
     del_Scope = ''crp:apply'', del_IntentDigest = ex_digest, del_WorkflowDigest = [],
     del_PolicyEpoch = 7, del_IssuedAt = 1, del_ExpiresAt = 50 * go_second, del_OneTime = True,
     del_ParentID = []\<rparr>"

definition ex_record :: Record where
  "ex_record = pending_record 1 (ex_request\<lparr>req_Risk := RiskHigh\<rparr>)"

theorem delegation_one_hop_once_witness:
  "fst (Consume 2 ex_record ex_delegation NewDelegationLedger) = None
   \<and> fst (Consume 3 ex_record ex_delegation
       (snd (Consume 2 ex_record ex_delegation NewDelegationLedger))) \<noteq> None"
proof -
  let ?l = "snd (Consume 2 ex_record ex_delegation NewDelegationLedger)"
  have ok: "fst (Consume 2 ex_record ex_delegation NewDelegationLedger) = None" by code_simp
  then have "Consume 2 ex_record ex_delegation NewDelegationLedger = (None, ?l)"
    by (simp add: prod_eq_iff)
  from delegation_one_hop_once[OF this, of ex_delegation 3 ex_record "[]"] show ?thesis using ok by simp
qed

text \<open>
  Of the stored roles only \<open>admin\<close>, \<open>security_admin\<close> and
  \<open>tenant_owner\<close> are approval authorities, the default resolver lets only
  \<open>admin\<close> approve and nobody break glass, and the actor role of an \<open>admin\<close> does
  not pass the break-glass check of the gate.
\<close>

theorem roles_separate_break_glass:
  "(snd (CanonicalActorRole role) \<longleftrightarrow> role \<in> {''admin'', ''security_admin'', ''tenant_owner''})
   \<and> \<not> CanBreakGlass role scope
   \<and> (CanApprove role scope \<longleftrightarrow> CanonicalActorRole role = (RoleOperator, True))
   \<and> RoleOperator \<notin> {RoleSecurityAdmin, RoleTenantOwner}"
  by (simp add: CanonicalActorRole_def CanBreakGlass_def CanApprove_def RoleOperator_def
      RoleSecurityAdmin_def RoleTenantOwner_def)

end
