(* ===== verification/Approval_Ledger.thy ===== *)
theory Approval_Ledger
  imports Approval_Gate
begin

text \<open>
  The in-memory ledger of \<open>internal/approval/persistence.go\<close>: validation of a mutation,
  its fingerprint, the hash chain of the events of a request, the idempotency table, batches
  with rollback, and the reads. \<open>memory_api\<close> is the ledger as the gate sees it: the
  methods \<open>MemoryPersistence\<close> has, and none of the optional ones it lacks.

  Hashes are taken over \<open>json.Marshal\<close>; the encodings follow the struct tags. A
  \<open>time.Time\<close> is written as RFC 3339 with nanoseconds, in UTC; outside the years 0 to
  9999 the encoder fails, and the code, which drops that error, hashes the empty byte
  string. \<open>ctx.Err()\<close> is an argument: the error of a cancelled context, or none. The
  mutex makes every method one step; copies made by \<open>cloneRecord\<close> and
  \<open>append\<close> are equal values.
\<close>

subsection \<open>JSON of times, events, records and mutations\<close>

text \<open>Calendar date of a day count since 1 January of year 1, in the Gregorian calendar.\<close>

definition civil_date :: "int \<Rightarrow> int \<times> int \<times> int" where
  "civil_date days =
     (let z = days + 306; era = z div 146097; doe = z mod 146097;
          yoe = (doe - doe div 1460 + doe div 36524 - doe div 146096) div 365;
          doy = doe - (365 * yoe + yoe div 4 - yoe div 100);
          mp = (5 * doy + 2) div 153;
          day = doy - (153 * mp + 2) div 5 + 1;
          month = (if mp < 10 then mp + 3 else mp - 9)
      in (yoe + era * 400 + (if month \<le> 2 then 1 else 0), month, day))"

fun pad_decimal :: "nat \<Rightarrow> int \<Rightarrow> string" where
  "pad_decimal 0 n = []"
| "pad_decimal (Suc w) n = pad_decimal w (n div 10) @ [char_of (48 + n mod 10)]"

text \<open>The fraction of a second, with its trailing zeros dropped.\<close>

definition drop_zeros :: "string \<Rightarrow> string" where
  "drop_zeros s = rev (dropWhile (\<lambda>c. c = CHR ''0'') (rev s))"

definition fraction :: "int \<Rightarrow> string" where
  "fraction nanos = (if nanos = 0 then [] else CHR ''.'' # drop_zeros (pad_decimal 9 nanos))"

definition json_time :: "time \<Rightarrow> string option" where
  "json_time t =
     (let secs = t div go_second; days = secs div 86400; s = secs mod 86400 in
      case civil_date days of (year, month, day) \<Rightarrow>
        if year < 0 \<or> 9999 < year then None
        else Some (quote # pad_decimal 4 year @ ''-'' @ pad_decimal 2 month @ ''-''
               @ pad_decimal 2 day @ ''T'' @ pad_decimal 2 (s div 3600) @ '':''
               @ pad_decimal 2 (s div 60 mod 60) @ '':'' @ pad_decimal 2 (s mod 60)
               @ fraction (t mod go_second) @ ''Z'' @ [quote]))"

text \<open>The tag \<open>omitempty\<close>.\<close>

definition omit_empty :: "string \<Rightarrow> string \<Rightarrow> (string \<times> string) list" where
  "omit_empty k v = (if v = [] then [] else [(k, json_string v)])"

definition json_event :: "AuditEvent \<Rightarrow> string option" where
  "json_event e = map_option (\<lambda>tm. json_object (
     [(''sequence'', json_int (uint (ev_Sequence e))), (''type'', json_string (ev_Type e)),
      (''at'', tm), (''request_id'', json_string (ev_RequestID e)),
      (''actor'', json_string (ev_Actor e)), (''scope'', json_string (ev_Scope e)),
      (''policy_epoch'', json_int (uint (ev_PolicyEpoch e)))]
     @ omit_empty ''confirmation_id'' (ev_ConfirmationID e) @ omit_empty ''reason'' (ev_Reason e)
     @ omit_empty ''workflow_digest'' (ev_WorkflowDigest e)
     @ omit_empty ''intent_digest'' (ev_IntentDigest e)
     @ omit_empty ''session_id'' (ev_SessionID e)
     @ (if ev_ConfirmationStep e = 0 then []
        else [(''confirmation_step'', json_int (uint (ev_ConfirmationStep e)))])
     @ omit_empty ''nonce'' (ev_Nonce e) @ omit_empty ''previous_hash'' (ev_PreviousHash e)
     @ omit_empty ''hash'' (ev_Hash e))) (json_time (ev_At e))"

definition json_request :: "Request \<Rightarrow> string" where
  "json_request r = json_object (
     [(''id'', json_string (req_ID r)), (''risk'', json_string (req_Risk r)),
      (''scope'', json_string (req_Scope r)), (''policy_epoch'', json_int (uint (req_PolicyEpoch r))),
      (''ttl'', json_int (req_TTL r)), (''pre_approved'', json_bool (req_PreApproved r)),
      (''untrusted'', json_bool (req_Untrusted r)), (''test'', json_bool (req_Test r)),
      (''token_operation'', json_bool (req_TokenOperation r)),
      (''kms_operation'', json_bool (req_KMSOperation r)),
      (''cluster_operation'', json_bool (req_ClusterOperation r)),
      (''break_glass'', json_bool (req_BreakGlass r)), (''actor'', json_string (req_Actor r)),
      (''session_id'', json_string (req_SessionID r)),
      (''confirmation_language'', json_string (req_ConfirmationLanguage r)),
      (''intent_digest'', json_string (req_IntentDigest r))]
     @ omit_empty ''workflow_digest'' (req_WorkflowDigest r) @ [(''nonce'', json_string (req_Nonce r))])"

definition json_confirmation :: "Confirmation \<Rightarrow> string option" where
  "json_confirmation c = map_option (\<lambda>tm. json_object (
     [(''warning_read_at'', tm), (''password_confirmed'', json_bool (conf_PasswordConfirmed c)),
      (''second_confirmation'', json_bool (conf_SecondConfirmation c)),
      (''third_confirmation'', json_bool (conf_ThirdConfirmation c)),
      (''confirmation_id'', json_string (conf_ConfirmationID c)),
      (''actor'', json_string (conf_Actor c)), (''actor_role'', json_string (conf_ActorRole c)),
      (''scope'', json_string (conf_Scope c)), (''policy_epoch'', json_int (uint (conf_PolicyEpoch c))),
      (''ttl'', json_int (conf_TTL c)), (''local'', json_bool (conf_Local c)),
      (''break_glass'', json_bool (conf_BreakGlass c))]
     @ omit_empty ''break_glass_reason'' (conf_BreakGlassReason c)
     @ [(''session_id'', json_string (conf_SessionID c)),
        (''confirmation_language'', json_string (conf_ConfirmationLanguage c)),
        (''confirmation_phrase'', json_string (conf_ConfirmationPhrase c)),
        (''intent_digest'', json_string (conf_IntentDigest c))]
     @ omit_empty ''workflow_digest'' (conf_WorkflowDigest c)
     @ [(''nonce'', json_string (conf_Nonce c)), (''totp_confirmed'', json_bool (conf_TOTPConfirmed c)),
        (''confirmation_step'', json_int (uint (conf_ConfirmationStep c)))]))
     (json_time (conf_WarningReadAt c))"

definition json_commit :: "AuthorizationCommit \<Rightarrow> string option" where
  "json_commit c =
     (case (json_time (com_IssuedAt c), json_time (com_ExpiresAt c)) of
        (Some issued, Some expires) \<Rightarrow> Some (json_object (
          [(''request_id'', json_string (com_RequestID c)),
           (''confirmation_id'', json_string (com_ConfirmationID c)),
           (''actor'', json_string (com_Actor c)), (''scope'', json_string (com_Scope c)),
           (''policy_epoch'', json_int (uint (com_PolicyEpoch c))), (''risk'', json_string (com_Risk c)),
           (''ttl'', json_int (com_TTL c)), (''issued_at'', issued), (''expires_at'', expires)]
          @ omit_empty ''workflow_digest'' (com_WorkflowDigest c)
          @ [(''session_id'', json_string (com_SessionID c)),
             (''confirmation_language'', json_string (com_ConfirmationLanguage c)),
             (''intent_digest'', json_string (com_IntentDigest c)),
             (''nonce'', json_string (com_Nonce c))]))
      | _ \<Rightarrow> None)"

definition json_record :: "Record \<Rightarrow> string option" where
  "json_record r =
     (case (json_time (rec_SubmittedAt r), json_time (rec_ExpiresAt r),
            json_confirmation (rec_Confirmation r),
            (case rec_Commit r of None \<Rightarrow> Some [] | Some c \<Rightarrow> map_option (\<lambda>j. [(''commit'', j)]) (json_commit c))) of
        (Some submitted, Some expires, Some confirmation, Some commit) \<Rightarrow> Some (json_object (
          [(''id'', json_string (rec_ID r)), (''request'', json_request (rec_Request r)),
           (''status'', json_string (rec_Status r)), (''submitted_at'', submitted),
           (''expires_at'', expires), (''confirmation'', confirmation)] @ commit))
      | _ \<Rightarrow> None)"

definition json_mutation :: "ApprovalMutation \<Rightarrow> string option" where
  "json_mutation m =
     (case (json_record (mut_Record m), json_event (mut_Event m)) of
        (Some r, Some e) \<Rightarrow> Some (json_object
          [(''IdempotencyKey'', json_string (mut_IdempotencyKey m)),
           (''WorkflowDigest'', json_string (mut_WorkflowDigest m)), (''Record'', r), (''Event'', e)])
      | _ \<Rightarrow> None)"

text \<open>\<open>b, _ := json.Marshal(v)\<close>: a failed encoding leaves no bytes.\<close>

definition bytes_or_none :: "string option \<Rightarrow> string" where
  "bytes_or_none j = (case j of None \<Rightarrow> [] | Some b \<Rightarrow> b)"

definition HashBytes :: "string \<Rightarrow> string" where
  "HashBytes b = hex_sha256 b"

definition mutationFingerprint :: "ApprovalMutation \<Rightarrow> string" where
  "mutationFingerprint m = hex_sha256 (bytes_or_none (json_mutation m))"

definition hashEvent :: "AuditEvent \<Rightarrow> string" where
  "hashEvent e = hex_sha256 (bytes_or_none (json_event (e\<lparr>ev_Hash := []\<rparr>)))"

subsection \<open>State\<close>

record approvalMemoryRecord =
  amr_record :: Record
  amr_workflow :: string
  amr_events :: "AuditEvent list"

record MemoryPersistence =
  mp_records :: "string \<rightharpoonup> approvalMemoryRecord"
  mp_idempotency :: "string \<rightharpoonup> string"

definition NewMemoryPersistence :: MemoryPersistence where
  "NewMemoryPersistence = \<lparr>mp_records = Map.empty, mp_idempotency = Map.empty\<rparr>"

subsection \<open>Writing\<close>

definition validateMutation :: "ApprovalMutation \<Rightarrow> approval_error option" where
  "validateMutation m =
     (let r = mut_Record m; req = rec_Request r; e = mut_Event m in first_error
     [fail_if (validateOpaque (mut_IdempotencyKey m) True \<noteq> None
        \<or> validateOpaque (rec_ID r) True \<noteq> None \<or> req_ID req \<noteq> rec_ID r
        \<or> (mut_WorkflowDigest m \<noteq> [] \<and> validateOpaque (mut_WorkflowDigest m) True \<noteq> None)
        \<or> ev_Sequence e = 0 \<or> is_zero_time (ev_At e) \<or> ev_RequestID e \<noteq> rec_ID r
        \<or> (ev_WorkflowDigest e \<noteq> [] \<and> ev_WorkflowDigest e \<noteq> mut_WorkflowDigest m))
        ErrInvalidPersistence,
      fail_if (validateRequest req \<noteq> None \<or> validateOpaque (req_Nonce req) True \<noteq> None)
        ErrInvalidPersistence,
      fail_if (ev_Scope e \<noteq> req_Scope req \<or> ev_PolicyEpoch e \<noteq> req_PolicyEpoch req
        \<or> (ev_IntentDigest e \<noteq> [] \<and> ev_IntentDigest e \<noteq> req_IntentDigest req)
        \<or> (ev_SessionID e \<noteq> [] \<and> ev_SessionID e \<noteq> req_SessionID req)
        \<or> (ev_Nonce e \<noteq> [] \<and> ev_Nonce e \<noteq> req_Nonce req)) ErrBindingConflict,
      fail_if (ev_Actor e \<noteq> [] \<and> validateOpaque (ev_Actor e) False \<noteq> None) ErrInvalidPersistence,
      fail_if (is_zero_time (rec_ExpiresAt r) \<or> is_zero_time (rec_SubmittedAt r)
        \<or> rec_ExpiresAt r < rec_SubmittedAt r) ErrInvalidPersistence])"

definition ValidateMutationForAdapter :: "ApprovalMutation \<Rightarrow> approval_error option" where
  "ValidateMutationForAdapter m = validateMutation m"

text \<open>The event as the ledger stores it, before the chain fields.\<close>

definition bind_event :: "ApprovalMutation \<Rightarrow> AuditEvent" where
  "bind_event m = (mut_Event m)\<lparr>ev_WorkflowDigest := mut_WorkflowDigest m,
     ev_IntentDigest := req_IntentDigest (rec_Request (mut_Record m)),
     ev_SessionID := req_SessionID (rec_Request (mut_Record m)),
     ev_Nonce := req_Nonce (rec_Request (mut_Record m))\<rparr>"

definition zero_memory_record :: approvalMemoryRecord where
  "zero_memory_record = \<lparr>amr_record = zero_Record, amr_workflow = [], amr_events = []\<rparr>"

definition binding_conflict :: "approvalMemoryRecord \<Rightarrow> ApprovalMutation \<Rightarrow> AuditEvent \<Rightarrow> bool" where
  "binding_conflict prior m e \<longleftrightarrow>
     (let old = rec_Request (amr_record prior); req = rec_Request (mut_Record m) in
      amr_workflow prior \<noteq> mut_WorkflowDigest m \<or> req_Scope old \<noteq> req_Scope req
      \<or> req_PolicyEpoch old \<noteq> req_PolicyEpoch req \<or> req_IntentDigest old \<noteq> req_IntentDigest req
      \<or> req_SessionID old \<noteq> req_SessionID req \<or> req_Nonce old \<noteq> req_Nonce req
      \<or> rec_ExpiresAt (amr_record prior) \<noteq> rec_ExpiresAt (mut_Record m)
      \<or> ev_Scope e \<noteq> req_Scope req \<or> ev_PolicyEpoch e \<noteq> req_PolicyEpoch req)"

text \<open>The chain position of the event: an error, or the event with the previous hash.\<close>

definition chain_event ::
    "approvalMemoryRecord \<Rightarrow> ApprovalMutation \<Rightarrow> AuditEvent \<Rightarrow> approval_error + AuditEvent" where
  "chain_event prior m e =
     (let req = rec_Request (mut_Record m) in
      if rec_ID (amr_record prior) \<noteq> [] then
        (if binding_conflict prior m e then Inl ErrBindingConflict
         else if amr_events prior \<noteq> [] then
           (if ev_Sequence e \<noteq> ev_Sequence (last (amr_events prior)) + 1 then Inl ErrEventSequence
            else Inr (e\<lparr>ev_PreviousHash := ev_Hash (last (amr_events prior))\<rparr>))
         else Inr e)
      else if ev_Sequence e \<noteq> 1 \<or> ev_Scope e \<noteq> req_Scope req \<or> ev_PolicyEpoch e \<noteq> req_PolicyEpoch req
              \<or> ev_IntentDigest e \<noteq> req_IntentDigest req \<or> ev_SessionID e \<noteq> req_SessionID req
      then Inl ErrEventSequence
      else Inr e)"

definition applyLocked ::
    "approval_error option \<Rightarrow> MemoryPersistence \<Rightarrow> ApprovalMutation
       \<Rightarrow> approval_error option \<times> MemoryPersistence" where
  "applyLocked ctx p m =
     (case first_error [ctx, validateMutation m,
             fail_if (ev_WorkflowDigest (mut_Event m) \<noteq> []
               \<and> ev_WorkflowDigest (mut_Event m) \<noteq> mut_WorkflowDigest m) ErrBindingConflict] of
        Some e \<Rightarrow> (Some e, p)
      | None \<Rightarrow>
          let e0 = bind_event m; fp = mutationFingerprint (m\<lparr>mut_Event := e0\<rparr>);
              key = rec_ID (mut_Record m); idem = mut_IdempotencyKey m;
              prior = lookup_or zero_memory_record (mp_records p) key
          in (case mp_idempotency p idem of
                Some seen \<Rightarrow> if seen = fp then (None, p) else (Some ErrIdempotencyConflict, p)
              | None \<Rightarrow>
                  (case chain_event prior m e0 of
                     Inl err \<Rightarrow> (Some err, p)
                   | Inr e1 \<Rightarrow>
                       let e2 = e1\<lparr>ev_Hash := hashEvent e1\<rparr> in
                       (None, p\<lparr>mp_records := (mp_records p)(key \<mapsto>
                            \<lparr>amr_record = mut_Record m, amr_workflow = mut_WorkflowDigest m,
                             amr_events = amr_events prior @ [e2]\<rparr>),
                          mp_idempotency := (mp_idempotency p)(idem \<mapsto> fp)\<rparr>))))"

text \<open>\<open>Apply\<close> and \<open>ApplyBatch\<close>; a nil receiver or context is refused first.\<close>

definition Apply ::
    "bool \<Rightarrow> approval_error option \<Rightarrow> MemoryPersistence \<Rightarrow> ApprovalMutation
       \<Rightarrow> approval_error option \<times> MemoryPersistence" where
  "Apply isnil ctx p m = (if isnil then (Some ErrInvalidPersistence, p) else applyLocked ctx p m)"

text \<open>\<open>ctxs ! i\<close> is what \<open>ctx.Err()\<close> answers at the i-th mutation; past the end
  the context is live.\<close>

fun apply_loop ::
    "approval_error option list \<Rightarrow> MemoryPersistence \<Rightarrow> ApprovalMutation list
       \<Rightarrow> approval_error option \<times> MemoryPersistence" where
  "apply_loop ctxs p [] = (None, p)"
| "apply_loop ctxs p (m # ms) =
     (case applyLocked (case ctxs of [] \<Rightarrow> None | c # _ \<Rightarrow> c) p m of
        (Some e, p') \<Rightarrow> (Some e, p')
      | (None, p') \<Rightarrow> apply_loop (tl ctxs) p' ms)"

definition ApplyBatch ::
    "bool \<Rightarrow> approval_error option list \<Rightarrow> MemoryPersistence \<Rightarrow> ApprovalMutation list
       \<Rightarrow> approval_error option \<times> MemoryPersistence" where
  "ApplyBatch isnil ctxs p ms =
     (if isnil \<or> ms = [] then (Some ErrInvalidPersistence, p)
      else let records = mp_records p; idem = mp_idempotency p in
        case apply_loop ctxs p ms of
          (Some e, p') \<Rightarrow> (Some e, p'\<lparr>mp_records := records, mp_idempotency := idem\<rparr>)
        | (None, p') \<Rightarrow> (None, p'))"

subsection \<open>Reading\<close>

definition Load ::
    "bool \<Rightarrow> approval_error option \<Rightarrow> MemoryPersistence \<Rightarrow> string \<Rightarrow> approval_error + Record" where
  "Load isnil ctx p i =
     (if isnil then Inl ErrInvalidPersistence
      else case ctx of Some e \<Rightarrow> Inl e
      | None \<Rightarrow>
          if validateOpaque i True \<noteq> None then Inl ErrInvalidPersistence
          else (case mp_records p i of None \<Rightarrow> Inl ErrApprovalNotFound
                | Some r \<Rightarrow> Inr (amr_record r)))"

definition event_valid :: "Record \<Rightarrow> nat \<Rightarrow> string \<Rightarrow> AuditEvent \<Rightarrow> bool" where
  "event_valid record index previous e \<longleftrightarrow> \<not> (ev_Sequence e \<noteq> of_nat (index + 1)
     \<or> ev_RequestID e \<noteq> rec_ID record \<or> ev_Scope e \<noteq> req_Scope (rec_Request record)
     \<or> ev_PolicyEpoch e \<noteq> req_PolicyEpoch (rec_Request record)
     \<or> ev_IntentDigest e \<noteq> req_IntentDigest (rec_Request record)
     \<or> ev_WorkflowDigest e \<noteq> req_WorkflowDigest (rec_Request record)
     \<or> ev_SessionID e \<noteq> req_SessionID (rec_Request record)
     \<or> ev_Nonce e \<noteq> req_Nonce (rec_Request record)
     \<or> ev_PreviousHash e \<noteq> previous \<or> ev_Hash e = [] \<or> hashEvent e \<noteq> ev_Hash e)"

fun validate_events_from :: "Record \<Rightarrow> nat \<Rightarrow> string \<Rightarrow> AuditEvent list \<Rightarrow> approval_error option" where
  "validate_events_from record index previous [] = None"
| "validate_events_from record index previous (e # es) =
     (if \<not> event_valid record index previous e then Some ErrInvalidPersistence
      else validate_events_from record (index + 1) (ev_Hash e) es)"

definition validatePersistedEvents :: "Record \<Rightarrow> AuditEvent list \<Rightarrow> approval_error option" where
  "validatePersistedEvents record events = validate_events_from record 0 [] events"

definition loadWithEventsLocked ::
    "MemoryPersistence \<Rightarrow> string \<Rightarrow> approval_error + Record \<times> AuditEvent list" where
  "loadWithEventsLocked p i =
     (if validateOpaque i True \<noteq> None then Inl ErrInvalidPersistence
      else case mp_records p i of
        None \<Rightarrow> Inl ErrApprovalNotFound
      | Some r \<Rightarrow>
          (case validatePersistedEvents (amr_record r) (amr_events r) of
             Some e \<Rightarrow> Inl e
           | None \<Rightarrow> Inr (amr_record r, amr_events r)))"

definition LoadWithEvents ::
    "bool \<Rightarrow> approval_error option \<Rightarrow> MemoryPersistence \<Rightarrow> string
       \<Rightarrow> approval_error + Record \<times> AuditEvent list" where
  "LoadWithEvents isnil ctx p i =
     (if isnil then Inl ErrInvalidPersistence
      else case ctx of Some e \<Rightarrow> Inl e | None \<Rightarrow> loadWithEventsLocked p i)"

definition LoadWithEventsAtEpoch ::
    "bool \<Rightarrow> approval_error option \<Rightarrow> MemoryPersistence \<Rightarrow> string \<Rightarrow> u64
       \<Rightarrow> approval_error + Record \<times> AuditEvent list" where
  "LoadWithEventsAtEpoch isnil ctx p i expectedEpoch =
     (if isnil then Inl ErrInvalidPersistence
      else case ctx of Some e \<Rightarrow> Inl e
      | None \<Rightarrow>
          (case loadWithEventsLocked p i of
             Inl e \<Rightarrow> Inl e
           | Inr (record, events) \<Rightarrow>
               if req_PolicyEpoch (rec_Request record) \<noteq> expectedEpoch then Inl ErrEpochChanged
               else Inr (record, events)))"

definition Events ::
    "bool \<Rightarrow> approval_error option \<Rightarrow> MemoryPersistence \<Rightarrow> string \<Rightarrow> approval_error + AuditEvent list" where
  "Events isnil ctx p i =
     (case LoadWithEvents isnil ctx p i of Inl e \<Rightarrow> Inl e | Inr (_, es) \<Rightarrow> Inr es)"

subsection \<open>The ledger as the gate's adapter\<close>

text \<open>
  The adapter's state carries the answers \<open>ctx.Err()\<close> will give, in the order the
  ledger's writes ask for them, so that a run may have contexts cancelled at any write.
\<close>

type_synonym memory_state = "MemoryPersistence \<times> approval_error option list"

definition memory_api :: "memory_state Persistence" where
  "memory_api = \<lparr>
     p_Apply = (\<lambda>(p, ctxs) m. case Apply False (case ctxs of [] \<Rightarrow> None | c # _ \<Rightarrow> c) p m of
                  (r, p') \<Rightarrow> (r, (p', tl ctxs))),
     p_Load = (\<lambda>(p, ctxs) i. Load False None p i),
     p_Events = (\<lambda>(p, ctxs) i. Events False None p i),
     p_LoadWithEvents = Some (\<lambda>(p, ctxs) i. LoadWithEvents False None p i),
     p_LoadWithEventsAtEpoch = Some (\<lambda>(p, ctxs) i e. LoadWithEventsAtEpoch False None p i e),
     p_ApplyBatch = Some (\<lambda>(p, ctxs) ms. case ApplyBatch False ctxs p ms of
                       (r, p') \<Rightarrow> (r, (p', drop (length ms) ctxs))),
     p_ApplyAtEpoch = None, p_ApplyBatchAtEpoch = None, p_CompareAndSetEpoch = None,
     p_PolicyEpoch = None, p_ListIDs = None\<rparr>"

end
