(* ===== verification/Approval_Chain.thy ===== *)
theory Approval_Chain
  imports Approval_Ledger
begin

text \<open>
  Correctness of the in-memory ledger: the hash chain of every stored request validates
  as long as the written events name their request, and retries are idempotent; the last lemma
  shows a write that is accepted and can no longer be read.
\<close>

subsection \<open>Chains\<close>

definition last_hash :: "AuditEvent list \<Rightarrow> string" where
  "last_hash es = (if es = [] then [] else ev_Hash (last es))"

lemma last_hash_simps [simp]: "last_hash [] = []" "last_hash (es @ [e]) = ev_Hash e"
  by (simp_all add: last_hash_def)

lemma validate_events_from_append:
  "validate_events_from r k prev (es @ [e]) = None \<longleftrightarrow>
     validate_events_from r k prev es = None
     \<and> event_valid r (k + length es) (if es = [] then prev else ev_Hash (last es)) e"
  by (induction es arbitrary: k prev) auto

lemma validate_snoc:
  "validatePersistedEvents r (es @ [e]) = None \<longleftrightarrow>
     validatePersistedEvents r es = None \<and> event_valid r (length es) (last_hash es) e"
  by (simp add: validatePersistedEvents_def validate_events_from_append last_hash_def)

lemma validate_Nil [simp]: "validatePersistedEvents r [] = None"
  by (simp add: validatePersistedEvents_def)

lemma chain_nth:
  assumes "validatePersistedEvents r es = None" "k < length es"
  shows "event_valid r k (if k = 0 then [] else ev_Hash (es ! (k - 1))) (es ! k)"
  using assms
proof (induction es arbitrary: k rule: rev_induct)
  case (snoc e es)
  show ?case
  proof (cases "k < length es")
    case True
    then have "event_valid r k (if k = 0 then [] else ev_Hash (es ! (k - 1))) (es ! k)"
      using snoc.IH[of k] snoc.prems(1) by (simp add: validate_snoc)
    then show ?thesis using True by (auto simp: nth_append)
  next
    case False
    then have "k = length es" using snoc.prems(2) by simp
    then show ?thesis using snoc.prems(1)
      by (auto simp: validate_snoc nth_append last_hash_def last_conv_nth)
  qed
qed simp

text \<open>A chain speaks only of the identity and the bindings of its record.\<close>

definition same_binding :: "Record \<Rightarrow> Record \<Rightarrow> bool" where
  "same_binding r s \<longleftrightarrow> rec_ID r = rec_ID s
     \<and> req_Scope (rec_Request r) = req_Scope (rec_Request s)
     \<and> req_PolicyEpoch (rec_Request r) = req_PolicyEpoch (rec_Request s)
     \<and> req_IntentDigest (rec_Request r) = req_IntentDigest (rec_Request s)
     \<and> req_WorkflowDigest (rec_Request r) = req_WorkflowDigest (rec_Request s)
     \<and> req_SessionID (rec_Request r) = req_SessionID (rec_Request s)
     \<and> req_Nonce (rec_Request r) = req_Nonce (rec_Request s)"

lemma validate_same_binding:
  assumes "same_binding r s"
  shows "validatePersistedEvents r es = validatePersistedEvents s es"
proof -
  have "event_valid r k prev e = event_valid s k prev e" for k prev e
    using assms by (simp add: event_valid_def same_binding_def)
  then have "validate_events_from r k prev es = validate_events_from s k prev es" for k prev
    by (induction es arbitrary: k prev) simp_all
  then show ?thesis by (simp add: validatePersistedEvents_def)
qed

lemma hashEvent_Hash [simp]: "hashEvent (e\<lparr>ev_Hash := h\<rparr>) = hashEvent e"
  by (simp add: hashEvent_def)

lemma hashEvent_nonempty [simp]: "hashEvent e \<noteq> []"
proof -
  have "length (hashEvent e) = 64" by (simp add: hashEvent_def hex_sha256_def)
  then show ?thesis by auto
qed

subsection \<open>What a successful write does\<close>

lemma applyLocked_cases:
  assumes "applyLocked ctx p m = (res, p')"
  obtains (refused) e where "res = Some e" "p' = p"
  | (seen) "res = None" "p' = p" "ctx = None" "validateMutation m = None"
      "mp_idempotency p (mut_IdempotencyKey m)
         = Some (mutationFingerprint (m\<lparr>mut_Event := bind_event m\<rparr>))"
  | (stored) e1 prior where "res = None" "ctx = None" "validateMutation m = None"
      "prior = lookup_or zero_memory_record (mp_records p) (rec_ID (mut_Record m))"
      "mp_idempotency p (mut_IdempotencyKey m) = None"
      "chain_event prior m (bind_event m) = Inr e1"
      "mp_records p' = (mp_records p)(rec_ID (mut_Record m) \<mapsto>
         \<lparr>amr_record = mut_Record m, amr_workflow = mut_WorkflowDigest m,
          amr_events = amr_events prior @ [e1\<lparr>ev_Hash := hashEvent e1\<rparr>]\<rparr>)"
      "mp_idempotency p' = (mp_idempotency p)(mut_IdempotencyKey m \<mapsto>
         mutationFingerprint (m\<lparr>mut_Event := bind_event m\<rparr>))"
proof -
  define prior where "prior = lookup_or zero_memory_record (mp_records p) (rec_ID (mut_Record m))"
  define fp where "fp = mutationFingerprint (m\<lparr>mut_Event := bind_event m\<rparr>)"
  define err where "err = first_error [ctx, validateMutation m,
             fail_if (ev_WorkflowDigest (mut_Event m) \<noteq> []
               \<and> ev_WorkflowDigest (mut_Event m) \<noteq> mut_WorkflowDigest m) ErrBindingConflict]"
  note run = assms[unfolded applyLocked_def Let_def, folded err_def fp_def prior_def]
  show thesis
  proof (cases err)
    case (Some e)
    then show thesis using run refused[of e] by simp
  next
    case None
    then have ok: "ctx = None" "validateMutation m = None"
      unfolding err_def first_error_None by auto
    show thesis
    proof (cases "mp_idempotency p (mut_IdempotencyKey m)")
      case (Some s)
      then show thesis using run None ok refused seen fp_def by (auto split: if_splits)
    next
      case fresh: None
      show thesis
      proof (cases "chain_event prior m (bind_event m)")
        case (Inl e)
        then show thesis using run None fresh refused[of e] by simp
      next
        case (Inr e1)
        then show thesis using run None fresh ok by (intro stored[OF _ _ _ prior_def _ Inr]) (auto simp: fp_def)
      qed
    qed
  qed
qed

text \<open>
  The mutations the gate sends: the workflow of the mutation is the one of its record, and the
  caller leaves the chain field of the event empty.
\<close>

definition well_bound :: "ApprovalMutation \<Rightarrow> bool" where
  "well_bound m \<longleftrightarrow> mut_WorkflowDigest m = req_WorkflowDigest (rec_Request (mut_Record m))
     \<and> ev_PreviousHash (mut_Event m) = []"

definition entry_ok :: "string \<Rightarrow> approvalMemoryRecord \<Rightarrow> bool" where
  "entry_ok i lr \<longleftrightarrow> rec_ID (amr_record lr) = i \<and> validateOpaque i True = None
     \<and> amr_workflow lr = req_WorkflowDigest (rec_Request (amr_record lr))
     \<and> amr_events lr \<noteq> [] \<and> validatePersistedEvents (amr_record lr) (amr_events lr) = None"

definition ledger_ok :: "MemoryPersistence \<Rightarrow> bool" where
  "ledger_ok p \<longleftrightarrow> (\<forall>i lr. mp_records p i = Some lr \<longrightarrow> entry_ok i lr)"

lemma validateMutation_None:
  assumes "validateMutation m = None"
  shows "validateOpaque (rec_ID (mut_Record m)) True = None"
    "req_ID (rec_Request (mut_Record m)) = rec_ID (mut_Record m)"
    "ev_RequestID (mut_Event m) = rec_ID (mut_Record m)" "ev_Sequence (mut_Event m) \<noteq> 0"
    "ev_Scope (mut_Event m) = req_Scope (rec_Request (mut_Record m))"
    "ev_PolicyEpoch (mut_Event m) = req_PolicyEpoch (rec_Request (mut_Record m))"
  using assms unfolding validateMutation_def Let_def first_error_None by auto

lemma bind_event_simps [simp]:
  "ev_Sequence (bind_event m) = ev_Sequence (mut_Event m)"
  "ev_Type (bind_event m) = ev_Type (mut_Event m)"
  "ev_RequestID (bind_event m) = ev_RequestID (mut_Event m)"
  "ev_Scope (bind_event m) = ev_Scope (mut_Event m)"
  "ev_PolicyEpoch (bind_event m) = ev_PolicyEpoch (mut_Event m)"
  "ev_ConfirmationID (bind_event m) = ev_ConfirmationID (mut_Event m)"
  "ev_WorkflowDigest (bind_event m) = mut_WorkflowDigest m"
  "ev_IntentDigest (bind_event m) = req_IntentDigest (rec_Request (mut_Record m))"
  "ev_SessionID (bind_event m) = req_SessionID (rec_Request (mut_Record m))"
  "ev_Nonce (bind_event m) = req_Nonce (rec_Request (mut_Record m))"
  "ev_PreviousHash (bind_event m) = ev_PreviousHash (mut_Event m)"
  by (simp_all add: bind_event_def)

lemma zero_memory_record_simps [simp]:
  "rec_ID (amr_record zero_memory_record) = []" "amr_events zero_memory_record = []"
  by (simp_all add: zero_memory_record_def zero_Record_def)

lemma entry_lookup:
  assumes "ledger_ok p"
  obtains (absent) "mp_records p i = None" "lookup_or zero_memory_record (mp_records p) i = zero_memory_record"
  | (present) lr where "mp_records p i = Some lr" "lookup_or zero_memory_record (mp_records p) i = lr" "entry_ok i lr"
  using assms by (cases "mp_records p i") (auto simp: ledger_ok_def)

lemma last_sequence:
  assumes "validatePersistedEvents r es = None" "es \<noteq> []"
  shows "ev_Sequence (last es) = of_nat (length es)"
  using assms by (cases es rule: rev_cases) (auto simp: validate_snoc event_valid_def)

lemma stored_entry_ok:
  assumes ok: "ledger_ok p" and wb: "well_bound m" and vm: "validateMutation m = None"
    and prior: "prior = lookup_or zero_memory_record (mp_records p) (rec_ID (mut_Record m))"
    and ch: "chain_event prior m (bind_event m) = Inr e1"
  shows "entry_ok (rec_ID (mut_Record m))
     \<lparr>amr_record = mut_Record m, amr_workflow = mut_WorkflowDigest m,
      amr_events = amr_events prior @ [e1\<lparr>ev_Hash := hashEvent e1\<rparr>]\<rparr>"
proof -
  note v = validateMutation_None[OF vm]
  have id: "rec_ID (mut_Record m) \<noteq> []" using v(1) by (auto simp: validateOpaque_None)
  have valid: "event_valid (mut_Record m) (length (amr_events prior)) (last_hash (amr_events prior))
      (e1\<lparr>ev_Hash := hashEvent e1\<rparr>) \<and> validatePersistedEvents (mut_Record m) (amr_events prior) = None"
    using ok
  proof (cases rule: entry_lookup[where i = "rec_ID (mut_Record m)"])
    case absent
    then have "e1 = bind_event m" "ev_Sequence (mut_Event m) = 1" "amr_events prior = []"
      using ch prior by (auto simp: chain_event_def Let_def split: if_splits)
    then show ?thesis using v wb by (simp add: event_valid_def well_bound_def)
  next
    case (present lr)
    then have eo: "rec_ID (amr_record prior) = rec_ID (mut_Record m)" "amr_events prior \<noteq> []"
      "validatePersistedEvents (amr_record prior) (amr_events prior) = None"
      "amr_workflow prior = req_WorkflowDigest (rec_Request (amr_record prior))"
      using prior by (auto simp: entry_ok_def)
    then have e1: "\<not> binding_conflict prior m (bind_event m)"
      "ev_Sequence (mut_Event m) = ev_Sequence (last (amr_events prior)) + 1"
      "e1 = (bind_event m)\<lparr>ev_PreviousHash := ev_Hash (last (amr_events prior))\<rparr>"
      using ch id by (auto simp: chain_event_def Let_def split: if_splits)
    have "same_binding (mut_Record m) (amr_record prior)"
      using e1(1) eo wb by (simp add: same_binding_def binding_conflict_def Let_def well_bound_def)
    then have "validatePersistedEvents (mut_Record m) (amr_events prior) = None"
      using eo(3) by (simp add: validate_same_binding)
    moreover have "ev_Sequence (mut_Event m) = of_nat (length (amr_events prior) + 1)"
      using e1(2) last_sequence[OF eo(3,2)] by simp
    ultimately show ?thesis using e1(3) eo(2) v wb
      by (simp add: event_valid_def well_bound_def last_hash_def)
  qed
  then show ?thesis using v(1) wb by (simp add: entry_ok_def validate_snoc well_bound_def)
qed

lemma applyLocked_ok:
  assumes "ledger_ok p" "well_bound m"
  shows "ledger_ok (snd (applyLocked ctx p m))"
proof (cases "applyLocked ctx p m")
  case (Pair res p')
  from Pair show ?thesis
  proof (cases rule: applyLocked_cases)
    case (stored e1 prior)
    then show ?thesis using assms stored_entry_ok[OF assms stored(3,4,6)] Pair
      by (auto simp: ledger_ok_def)
  qed (use assms(1) Pair in simp_all)
qed

lemma apply_loop_ok:
  assumes "ledger_ok p" "list_all well_bound ms"
  shows "ledger_ok (snd (apply_loop ctxs p ms))"
  using assms
proof (induction ms arbitrary: ctxs p)
  case (Cons m ms)
  obtain r p' where a: "applyLocked (case ctxs of [] \<Rightarrow> None | c # _ \<Rightarrow> c) p m = (r, p')"
    by (meson surj_pair)
  have "well_bound m" using Cons.prems(2) by simp
  then have "ledger_ok p'" using applyLocked_ok[OF Cons.prems(1)] a by (metis snd_conv)
  then show ?case using Cons a by (cases r) auto
qed simp

lemma ApplyBatch_failed:
  assumes "ApplyBatch isnil ctxs p ms = (Some e, p')"
  shows "p' = p"
  using assms
  by (cases "apply_loop ctxs p ms") (auto simp: ApplyBatch_def Let_def split: if_splits option.splits)

lemma ApplyBatch_ok:
  assumes "ledger_ok p" "list_all well_bound ms"
  shows "ledger_ok (snd (ApplyBatch isnil ctxs p ms))"
proof (cases "ApplyBatch isnil ctxs p ms")
  case (Pair r p')
  show ?thesis
  proof (cases r)
    case None
    then have "apply_loop ctxs p ms = (None, p')"
      using Pair by (auto simp: ApplyBatch_def Let_def split: if_splits option.splits prod.splits)
    then show ?thesis using apply_loop_ok[OF assms, of ctxs] Pair by simp
  next
    case (Some e)
    then show ?thesis using ApplyBatch_failed Pair assms(1) by (metis snd_conv)
  qed
qed

subsection \<open>Runs of the ledger\<close>

text \<open>Any writes, by \<open>Apply\<close> or \<open>ApplyBatch\<close>, failed ones included.\<close>

inductive ledger_step :: "MemoryPersistence \<Rightarrow> ApprovalMutation list \<Rightarrow> MemoryPersistence \<Rightarrow> bool" where
  single: "ledger_step p [m] (snd (Apply isnil ctx p m))"
| batch: "ledger_step p ms (snd (ApplyBatch isnil ctxs p ms))"

inductive ledger_run :: "MemoryPersistence \<Rightarrow> ApprovalMutation list \<Rightarrow> MemoryPersistence \<Rightarrow> bool" for p0 where
  start: "ledger_run p0 [] p0"
| step: "ledger_run p0 ms p \<Longrightarrow> ledger_step p ns p' \<Longrightarrow> ledger_run p0 (ms @ ns) p'"

lemma ledger_run_ok:
  "ledger_run p0 ms p \<Longrightarrow> ledger_ok p0 \<Longrightarrow> list_all well_bound ms \<Longrightarrow> ledger_ok p"
  by (induction rule: ledger_run.induct)
     (auto elim!: ledger_step.cases simp: Apply_def applyLocked_ok ApplyBatch_ok)

lemma new_ledger_ok [simp]: "ledger_ok NewMemoryPersistence"
  by (simp add: ledger_ok_def NewMemoryPersistence_def)

lemma load_ok:
  assumes "ledger_ok p" "mp_records p i = Some lr"
  shows "loadWithEventsLocked p i = Inr (amr_record lr, amr_events lr)"
  using assms by (simp add: ledger_ok_def entry_ok_def loadWithEventsLocked_def)

definition ex_ledger_record :: Record where
  "ex_ledger_record = \<lparr>rec_ID = ''r1'', rec_Request = \<lparr>req_ID = ''r1'', req_Risk = RiskHigh,
     req_Scope = ''crp:apply'', req_PolicyEpoch = 7, req_TTL = 100 * go_second, req_PreApproved = False,
     req_Untrusted = False, req_Test = False, req_TokenOperation = False, req_KMSOperation = False,
     req_ClusterOperation = False, req_BreakGlass = False, req_Actor = ''alice'', req_SessionID = ''s1'',
     req_ConfirmationLanguage = ''en-US'',
     req_IntentDigest = ''0123456789abcdef0123456789abcdef0123456789abcdef0123456789abcdef'',
     req_WorkflowDigest = [], req_Nonce = ''n1''\<rparr>, rec_Status = StatusPending, rec_SubmittedAt = 1,
     rec_ExpiresAt = 1 + 100 * go_second, rec_Confirmation = zero_Confirmation, rec_Commit = None\<rparr>"

definition ex_ledger_mutation :: "string \<Rightarrow> string \<Rightarrow> ApprovalMutation" where
  "ex_ledger_mutation workflow previous = \<lparr>mut_IdempotencyKey = ''k1'', mut_WorkflowDigest = workflow,
     mut_Record = ex_ledger_record, mut_Event = \<lparr>ev_Sequence = 1, ev_Type = AuditSubmitted, ev_At = 1,
       ev_RequestID = ''r1'', ev_Actor = ''alice'', ev_Scope = ''crp:apply'', ev_PolicyEpoch = 7,
       ev_ConfirmationID = [], ev_Reason = [], ev_WorkflowDigest = [], ev_IntentDigest = [],
       ev_SessionID = [], ev_ConfirmationStep = 0, ev_Nonce = [], ev_PreviousHash = previous,
       ev_Hash = []\<rparr>\<rparr>"

lemma ex_mutation_valid:
  "validateMutation (ex_ledger_mutation [] []) = None"
  "validateMutation (ex_ledger_mutation ''w1'' []) = None"
  "validateMutation (ex_ledger_mutation [] ''x'') = None"
  by code_simp+

lemma apply_new:
  assumes "validateMutation m = None" "ev_WorkflowDigest (mut_Event m) = []"
    "ev_Sequence (mut_Event m) = 1"
  shows "applyLocked None NewMemoryPersistence m = (None,
     \<lparr>mp_records = [rec_ID (mut_Record m) \<mapsto> \<lparr>amr_record = mut_Record m, amr_workflow = mut_WorkflowDigest m,
         amr_events = [(bind_event m)\<lparr>ev_Hash := hashEvent (bind_event m)\<rparr>]\<rparr>],
      mp_idempotency = [mut_IdempotencyKey m \<mapsto> mutationFingerprint (m\<lparr>mut_Event := bind_event m\<rparr>)]\<rparr>)"
proof -
  note v = validateMutation_None[OF assms(1)]
  have "chain_event zero_memory_record m (bind_event m) = Inr (bind_event m)"
    using assms(3) v by (simp add: chain_event_def)
  then show ?thesis using assms by (simp add: applyLocked_def NewMemoryPersistence_def Let_def lookup_or_def)
qed

text \<open>
  C8: whatever sequence of writes the in-memory ledger has seen, refused and rolled-back ones
  included, every stored request can be loaded: its events are numbered from one without gaps,
  bound to the request's identity, scope, epoch, intent, workflow, session and nonce, and
  linked by their hashes, provided each mutation carries the workflow digest of its record and
  leaves the previous-hash field empty.
\<close>

theorem ledger_chains_load:
  assumes "ledger_run NewMemoryPersistence ms p" "list_all well_bound ms" "mp_records p i = Some lr"
  shows "LoadWithEvents False None p i = Inr (amr_record lr, amr_events lr)
    \<and> Events False None p i = Inr (amr_events lr) \<and> Load False None p i = Inr (amr_record lr)
    \<and> amr_events lr \<noteq> [] \<and> rec_ID (amr_record lr) = i
    \<and> (k < length (amr_events lr) \<longrightarrow> ev_Sequence (amr_events lr ! k) = of_nat (Suc k)
         \<and> ev_Hash (amr_events lr ! k) = hashEvent (amr_events lr ! k)
         \<and> ev_PreviousHash (amr_events lr ! k) = (if k = 0 then [] else ev_Hash (amr_events lr ! (k - 1))))"
proof -
  have ok: "ledger_ok p" using ledger_run_ok[OF assms(1) new_ledger_ok assms(2)] .
  then have entry: "entry_ok i lr" using assms(3) by (simp add: ledger_ok_def)
  have "Load False None p i = Inr (amr_record lr)"
    using entry assms(3) by (simp add: Load_def entry_ok_def)
  then show ?thesis
    using load_ok[OF ok assms(3)] entry chain_nth[of "amr_record lr" "amr_events lr" k]
    by (auto simp: LoadWithEvents_def Events_def entry_ok_def event_valid_def)
qed

theorem ledger_chains_load_witness:
  "\<exists>lr :: approvalMemoryRecord. LoadWithEvents False None (snd (Apply False None NewMemoryPersistence (ex_ledger_mutation [] []))) ''r1''
     = Inr (amr_record lr, amr_events lr) \<and> length (amr_events lr) = 1"
proof -
  let ?m = "ex_ledger_mutation [] []"
  let ?p = "snd (Apply False None NewMemoryPersistence ?m)"
  have run: "ledger_run NewMemoryPersistence ([] @ [?m]) ?p"
    by (rule ledger_run.step[OF ledger_run.start ledger_step.single])
  have wb: "list_all well_bound ([] @ [?m])"
    by (simp add: well_bound_def ex_ledger_mutation_def ex_ledger_record_def)
  have new: "mp_records ?p = [''r1'' \<mapsto> \<lparr>amr_record = mut_Record ?m, amr_workflow = mut_WorkflowDigest ?m,
         amr_events = [(bind_event ?m)\<lparr>ev_Hash := hashEvent (bind_event ?m)\<rparr>]\<rparr>]"
    using apply_new[OF ex_mutation_valid(1)]
    by (simp add: Apply_def) (simp add: ex_ledger_mutation_def ex_ledger_record_def)
  let ?lr = "\<lparr>amr_record = mut_Record ?m, amr_workflow = mut_WorkflowDigest ?m,
         amr_events = [(bind_event ?m)\<lparr>ev_Hash := hashEvent (bind_event ?m)\<rparr>]\<rparr>"
  have "mp_records ?p ''r1'' = Some ?lr" by (simp add: new)
  note loaded = ledger_chains_load[OF run wb this, THEN conjunct1]
  show ?thesis using loaded by (intro exI[of _ ?lr]) simp
qed

subsection \<open>Retries\<close>

lemma apply_loop_idem:
  "mp_idempotency p \<subseteq>\<^sub>m mp_idempotency (snd (apply_loop ctxs p ms))"
proof (induction ms arbitrary: ctxs p)
  case (Cons m ms)
  obtain r p' where a: "applyLocked (case ctxs of [] \<Rightarrow> None | c # _ \<Rightarrow> c) p m = (r, p')"
    by (meson surj_pair)
  then have "mp_idempotency p \<subseteq>\<^sub>m mp_idempotency p'"
    by (cases rule: applyLocked_cases) (auto simp: map_le_def)
  moreover have "mp_idempotency p' \<subseteq>\<^sub>m mp_idempotency (snd (apply_loop (tl ctxs) p' ms))"
    by (rule Cons)
  ultimately show ?case using a map_le_trans by (cases r) auto
qed simp

lemma ledger_run_idem: "ledger_run p0 ms p \<Longrightarrow> mp_idempotency p0 \<subseteq>\<^sub>m mp_idempotency p"
proof (induction rule: ledger_run.induct)
  case (step ms p ns p')
  from step(2) have "mp_idempotency p \<subseteq>\<^sub>m mp_idempotency p'"
  proof cases
    case (single m isnil ctx)
    then show ?thesis using apply_loop_idem[of p "[ctx]" "[m]"]
      by (cases "applyLocked ctx p m") (auto simp: Apply_def split: option.splits)
  next
    case (batch isnil ctxs)
    show ?thesis
    proof (cases "ApplyBatch isnil ctxs p ns")
      case (Pair r q)
      show ?thesis
      proof (cases r)
        case None
        then have "apply_loop ctxs p ns = (None, q)"
          using Pair by (auto simp: ApplyBatch_def Let_def split: if_splits option.splits prod.splits)
        then show ?thesis using apply_loop_idem[of p ctxs ns] Pair batch by simp
      next
        case (Some e)
        then show ?thesis using ApplyBatch_failed Pair batch by fastforce
      qed
    qed
  qed
  then show ?case using step.IH map_le_trans by blast
qed simp

text \<open>
  C9: retrying is safe. Once a mutation was accepted, applying it again, after any other
  writes, succeeds and changes nothing; another mutation under the same idempotency key with
  another fingerprint is refused and changes nothing.
\<close>

theorem accepted_write_is_idempotent:
  assumes "Apply False None p m = (None, p1)" "ledger_run p1 ms p2"
  shows "Apply False None p2 m = (None, p2)
    \<and> (mut_IdempotencyKey n = mut_IdempotencyKey m \<and> validateMutation n = None
         \<and> mutationFingerprint (n\<lparr>mut_Event := bind_event n\<rparr>)
             \<noteq> mutationFingerprint (m\<lparr>mut_Event := bind_event m\<rparr>)
       \<longrightarrow> Apply False None p2 n = (Some ErrIdempotencyConflict, p2))"
proof -
  have a: "applyLocked None p m = (None, p1)" using assms(1) by (simp add: Apply_def)
  then have vm: "validateMutation m = None"
    and seen: "mp_idempotency p1 (mut_IdempotencyKey m)
         = Some (mutationFingerprint (m\<lparr>mut_Event := bind_event m\<rparr>))"
    by (cases rule: applyLocked_cases; simp)+
  from seen have seen2: "mp_idempotency p2 (mut_IdempotencyKey m)
         = Some (mutationFingerprint (m\<lparr>mut_Event := bind_event m\<rparr>))"
    using ledger_run_idem[OF assms(2)] by (auto simp: map_le_def dom_def)
  have wf: "ev_WorkflowDigest (mut_Event k) = [] \<or> ev_WorkflowDigest (mut_Event k) = mut_WorkflowDigest k"
    if "validateMutation k = None" for k
    using that unfolding validateMutation_def Let_def first_error_None by auto
  show ?thesis using seen2 vm wf[OF vm] wf[of n]
    by (auto simp: Apply_def applyLocked_def Let_def)
qed

theorem accepted_write_is_idempotent_witness:
  "\<exists>p1. Apply False None NewMemoryPersistence (ex_ledger_mutation [] []) = (None, p1)
     \<and> Apply False None p1 (ex_ledger_mutation [] []) = (None, p1)"
proof -
  obtain p1 where a: "Apply False None NewMemoryPersistence (ex_ledger_mutation [] []) = (None, p1)"
    using apply_new[OF ex_mutation_valid(1)] by (simp add: Apply_def ex_ledger_mutation_def)
  then show ?thesis using accepted_write_is_idempotent[OF a ledger_run.start] by blast
qed

subsection \<open>What the ledger accepts and cannot read back\<close>

text \<open>
  A mutation whose workflow digest is not its record's, and a first event that arrives with a
  previous hash, are both accepted; from then on the request can never be loaded.
\<close>

lemma accepted_but_unreadable:
  assumes "workflow = ''w1'' \<and> previous = [] \<or> workflow = [] \<and> previous = ''x''"
  shows "\<exists>p. Apply False None NewMemoryPersistence (ex_ledger_mutation workflow previous) = (None, p)
     \<and> Load False None p ''r1'' = Inr ex_ledger_record
     \<and> LoadWithEvents False None p ''r1'' = Inl ErrInvalidPersistence"
proof -
  let ?m = "ex_ledger_mutation workflow previous"
  have v: "validateMutation ?m = None" using assms ex_mutation_valid by auto
  have opaque: "validateOpaque ''r1'' True = None" by code_simp
  have f: "ev_Sequence (mut_Event ?m) = 1" "ev_WorkflowDigest (mut_Event ?m) = []"
    "rec_ID (mut_Record ?m) = ''r1''" "mut_WorkflowDigest ?m = workflow"
    "ev_PreviousHash (mut_Event ?m) = previous" "mut_Record ?m = ex_ledger_record"
    "req_WorkflowDigest (rec_Request ex_ledger_record) = []"
    by (simp_all add: ex_ledger_mutation_def ex_ledger_record_def)
  show ?thesis
    using apply_new[OF v f(2,1)] f(3-) assms opaque
    by (auto simp: Apply_def Load_def LoadWithEvents_def loadWithEventsLocked_def
        validatePersistedEvents_def event_valid_def)
qed

end
