(* ===== verification/Approval_Restart.thy ===== *)
theory Approval_Restart
  imports Approval_Chain Approval_Properties
begin

text \<open>
  The gate on its ledger: along every run of a gate bound to the in-memory ledger, cancelled
  contexts and refused writes included, the ledger holds exactly the gate's records, and the
  confirmation identifiers the gate has spent or assigned are the ones its events name. A new
  gate that restores from that ledger is then the old gate again.
\<close>

subsection \<open>What the events of a request say about confirmation identifiers\<close>

definition named_by :: "AuditType \<Rightarrow> AuditEvent list \<Rightarrow> string set" where
  "named_by typ es = {cid. cid \<noteq> [] \<and> (\<exists>e\<in>set es. ev_Type e = typ \<and> ev_ConfirmationID e = cid)}"

abbreviation used_of :: "AuditEvent list \<Rightarrow> string set" where
  "used_of \<equiv> named_by AuditAuthorized"

abbreviation owned_of :: "AuditEvent list \<Rightarrow> string set" where
  "owned_of \<equiv> named_by AuditCheckpoint"

lemma named_by_simps [simp]:
  "named_by typ [] = {}"
  "named_by typ (e # es) = (if ev_Type e = typ \<and> ev_ConfirmationID e \<noteq> [] then {ev_ConfirmationID e} else {})
     \<union> named_by typ es"
  "named_by typ (es @ fs) = named_by typ es \<union> named_by typ fs"
  by (auto simp: named_by_def)

definition same_names :: "AuditEvent \<Rightarrow> AuditEvent \<Rightarrow> bool" where
  "same_names e f \<longleftrightarrow> ev_Type e = ev_Type f \<and> ev_ConfirmationID e = ev_ConfirmationID f"

lemma named_by_same: "list_all2 same_names es fs \<Longrightarrow> named_by typ es = named_by typ fs"
  by (induction rule: list_all2_induct) (auto simp: same_names_def)

subsection \<open>Idempotency keys of the gate\<close>

definition gate_key :: "string \<Rightarrow> u64 \<Rightarrow> string" where
  "gate_key i n = ''gate:'' @ i @ '':'' @ decimal (uint n)"

lemma decimal_digits: "0 \<le> n \<Longrightarrow> CHR '':'' \<notin> set (decimal n)"
proof (induction n rule: decimal.induct)
  case (1 n)
  have digit: "CHR '':'' \<noteq> char_of (48 + d)" if "0 \<le> d" "d < 10" for d :: int
  proof
    assume "CHR '':'' = char_of (48 + d)"
    then have "of_char (CHR '':'') = (of_char (char_of (48 + d)) :: int)" by simp
    also have "\<dots> = 48 + d" using that by (simp add: of_char_of)
    finally show False using that by simp
  qed
  show ?case
  proof (cases "n < 10")
    case True
    then show ?thesis using 1(2) digit[of n] by (simp add: decimal.simps)
  next
    case False
    then show ?thesis using 1 digit[of "n mod 10"] by (subst decimal.simps) simp
  qed
qed

lemma decimal_value:
  "0 \<le> n \<Longrightarrow> foldl (\<lambda>v c. 10 * v + (of_char c - 48)) (0 :: int) (decimal n) = n"
proof (induction n rule: decimal.induct)
  case (1 n)
  have val: "of_char (char_of (48 + d)) = 48 + d" if "0 \<le> d" "d < 10" for d :: int
    using that by (simp add: of_char_of)
  show ?case
  proof (cases "n < 10")
    case True
    then show ?thesis using 1(2) val[of n] by (simp add: decimal.simps)
  next
    case False
    have v: "of_char (char_of (48 + n mod 10)) - 48 = n mod 10" using val[of "n mod 10"] by simp
    have "foldl (\<lambda>v c. 10 * v + (of_char c - 48)) 0 (decimal (n div 10)) = n div 10"
      using 1 False by simp
    then show ?thesis using False v by (subst decimal.simps) simp
  qed
qed

lemma last_colon:
  assumes "xs @ '':'' @ ys = xs' @ '':'' @ ys'" "CHR '':'' \<notin> set ys" "CHR '':'' \<notin> set ys'"
  shows "xs = xs' \<and> ys = ys'"
  using assms by (auto simp: append_eq_append_conv2 append_eq_Cons_conv Cons_eq_append_conv)

lemma gate_key_inject: "gate_key i n = gate_key j m \<longleftrightarrow> i = j \<and> n = m"
proof
  assume "gate_key i n = gate_key j m"
  then have "i @ '':'' @ decimal (uint n) = j @ '':'' @ decimal (uint m)" by (simp add: gate_key_def)
  then have "i = j \<and> decimal (uint n) = decimal (uint m)"
    by (rule last_colon) (rule decimal_digits, rule uint_ge_0)+
  moreover have "uint n = uint m" if "decimal (uint n) = decimal (uint m)"
    using decimal_value[OF uint_ge_0, of n] decimal_value[OF uint_ge_0, of m] that by metis
  ultimately show "i = j \<and> n = m" by (simp add: word_uint_eq_iff)
qed simp

subsection \<open>The gate's batches on the ledger\<close>

abbreviation entry_of :: "MemoryPersistence \<Rightarrow> string \<Rightarrow> approvalMemoryRecord" where
  "entry_of p i \<equiv> lookup_or zero_memory_record (mp_records p) i"

abbreviation events_of :: "MemoryPersistence \<Rightarrow> string \<Rightarrow> AuditEvent list" where
  "events_of p i \<equiv> amr_events (entry_of p i)"

text \<open>Only the gate writes: every key names a stored event, and sequence numbers have not wrapped.\<close>

definition keys_ok :: "MemoryPersistence \<Rightarrow> bool" where
  "keys_ok p \<longleftrightarrow> (\<forall>k\<in>dom (mp_idempotency p). \<exists>j. \<exists>e\<in>set (events_of p j). k = gate_key j (ev_Sequence e))
     \<and> (\<forall>j. \<forall>e\<in>set (events_of p j). ev_Sequence e \<noteq> 0)"

lemma events_numbered:
  assumes "ledger_ok p" "k < length (events_of p i)"
  shows "ev_Sequence (events_of p i ! k) = of_nat (Suc k)"
  using assms(1)
proof (cases rule: entry_lookup[where i = i])
  case (present lr)
  then show ?thesis using chain_nth[of "amr_record lr" "amr_events lr" k] assms(2)
    by (simp add: entry_ok_def event_valid_def)
qed (use assms(2) in simp)

text \<open>The next sequence number of a request was never used.\<close>

lemma next_sequence_fresh:
  assumes "ledger_ok p" "keys_ok p" "e \<in> set (events_of p i)"
    and next0: "(of_nat (Suc (length (events_of p i))) :: u64) \<noteq> 0"
  shows "ev_Sequence e \<noteq> of_nat (Suc (length (events_of p i)))"
proof
  let ?n = "length (events_of p i)"
  assume eq: "ev_Sequence e = of_nat (Suc ?n)"
  from assms(3) obtain k where k: "k < ?n" "events_of p i ! k = e" by (auto simp: in_set_conv_nth)
  have pos: "(of_nat (Suc j) :: u64) \<noteq> 0" if "j < ?n" for j
    using assms(2) events_numbered[OF assms(1) that] that unfolding keys_ok_def by (metis nth_mem)
  have small: "Suc ?n \<le> 2 ^ 64"
  proof (rule ccontr)
    assume "\<not> Suc ?n \<le> 2 ^ 64"
    then have "(2 ^ 64 - 1 :: nat) < ?n" by simp
    from pos[OF this] show False by (simp add: of_nat_eq_0_iff)
  qed
  have "(of_nat (Suc k) :: u64) = of_nat (Suc ?n)"
    using eq events_numbered[OF assms(1) k(1)] k(2) by simp
  then have "unat (of_nat (Suc k) :: u64) = unat (of_nat (Suc ?n) :: u64)" by simp
  then have "Suc k mod 2 ^ 64 = Suc ?n mod 2 ^ 64" by (simp only: unat_of_nat) simp
  moreover have "Suc ?n \<noteq> 2 ^ 64" using next0 by auto
  ultimately show False using k(1) small by simp
qed

lemma chain_event_names: "chain_event prior m e = Inr e1 \<Longrightarrow> same_names e e1 \<and> ev_Sequence e1 = ev_Sequence e"
  by (auto simp: chain_event_def Let_def same_names_def split: if_splits)

definition gate_mutation :: "string \<Rightarrow> Record \<Rightarrow> u64 \<Rightarrow> AuditEvent \<Rightarrow> ApprovalMutation" where
  "gate_mutation i r n e = \<lparr>mut_IdempotencyKey = gate_key i n,
     mut_WorkflowDigest = req_WorkflowDigest (rec_Request r), mut_Record = r,
     mut_Event = e\<lparr>ev_Sequence := n\<rparr>\<rparr>"

lemma gate_mutation_simps [simp]:
  "mut_IdempotencyKey (gate_mutation i r n e) = gate_key i n" "mut_Record (gate_mutation i r n e) = r"
  "mut_WorkflowDigest (gate_mutation i r n e) = req_WorkflowDigest (rec_Request r)"
  "mut_Event (gate_mutation i r n e) = e\<lparr>ev_Sequence := n\<rparr>"
  "well_bound (gate_mutation i r n e) \<longleftrightarrow> ev_PreviousHash e = []"
  by (simp_all add: gate_mutation_def well_bound_def)

lemma ledger_batch_Cons:
  "ledger_batch i r n (e # es) = gate_mutation i r (n + 1) e # ledger_batch i r (n + 1) es"
  by (simp add: gate_mutation_def gate_key_def Let_def)

lemma length_ledger_batch [simp]: "length (ledger_batch i r n es) = length es"
  by (induction es arbitrary: n) (simp_all add: Let_def)

text \<open>One accepted write of the gate appends exactly one event to the request's chain.\<close>

lemma gate_write:
  assumes ok: "ledger_ok p" "keys_ok p" and r: "rec_ID r = i" and e: "ev_PreviousHash e = []"
    and n: "n = of_nat (Suc (length (events_of p i)))"
    and w: "applyLocked ctx p (gate_mutation i r n e) = (None, p')"
  shows "\<exists>e'. same_names e e' \<and> mp_records p' = (mp_records p)(i \<mapsto>
           \<lparr>amr_record = r, amr_workflow = req_WorkflowDigest (rec_Request r),
            amr_events = events_of p i @ [e']\<rparr>)"
    and "ledger_ok p'" "keys_ok p'"
proof -
  let ?m = "gate_mutation i r n e"
  show ok': "ledger_ok p'" using applyLocked_ok[OF ok(1), of ?m ctx] w e by simp
  have n0: "validateMutation ?m = None \<Longrightarrow> n \<noteq> 0" using validateMutation_None(4)[of ?m] by simp
  obtain e1 where st: "validateMutation ?m = None" "chain_event (entry_of p i) ?m (bind_event ?m) = Inr e1"
      "mp_records p' = (mp_records p)(i \<mapsto> \<lparr>amr_record = r,
         amr_workflow = req_WorkflowDigest (rec_Request r),
         amr_events = events_of p i @ [e1\<lparr>ev_Hash := hashEvent e1\<rparr>]\<rparr>)"
      "mp_idempotency p' = (mp_idempotency p)(gate_key i n \<mapsto>
         mutationFingerprint (?m\<lparr>mut_Event := bind_event ?m\<rparr>))"
    using w
  proof (cases rule: applyLocked_cases)
    case seen
    then have "gate_key i n \<in> dom (mp_idempotency p)" by auto
    then obtain j f where f: "f \<in> set (events_of p j)" "gate_key i n = gate_key j (ev_Sequence f)"
      using ok(2) unfolding keys_ok_def by blast
    then have "j = i" "ev_Sequence f = n" by (auto simp: gate_key_inject)
    then show thesis using next_sequence_fresh[OF ok, of f i] f(1) n n0 seen by auto
  next
    case (stored e1 prior)
    then show thesis using that r by simp
  qed simp_all
  let ?e' = "e1\<lparr>ev_Hash := hashEvent e1\<rparr>"
  have names: "same_names e ?e'" and seq: "ev_Sequence ?e' = n"
    using chain_event_names[OF st(2)] by (auto simp: same_names_def)
  show "\<exists>e'. same_names e e' \<and> mp_records p' = (mp_records p)(i \<mapsto>
           \<lparr>amr_record = r, amr_workflow = req_WorkflowDigest (rec_Request r),
            amr_events = events_of p i @ [e']\<rparr>)"
    using names st(3) by blast
  have events: "events_of p' j = (if j = i then events_of p i @ [?e'] else events_of p j)" for j
    by (simp add: st(3))
  have "\<exists>j. \<exists>f\<in>set (events_of p' j). k = gate_key j (ev_Sequence f)" if "k \<in> dom (mp_idempotency p')" for k
  proof (cases "k = gate_key i n")
    case True
    then show ?thesis using seq by (intro exI[of _ i]) (auto simp: events)
  next
    case False
    then have "k \<in> dom (mp_idempotency p)" using that st(4) by auto
    then obtain j f where "f \<in> set (events_of p j)" "k = gate_key j (ev_Sequence f)"
      using ok(2) unfolding keys_ok_def by blast
    then show ?thesis by (intro exI[of _ j]) (auto simp: events)
  qed
  moreover have "\<forall>j. \<forall>f\<in>set (events_of p' j). ev_Sequence f \<noteq> 0"
    using ok(2) n0[OF st(1)] seq by (auto simp: events keys_ok_def)
  ultimately show "keys_ok p'" by (simp add: keys_ok_def)
qed

lemma gate_batch:
  assumes "ledger_ok p" "keys_ok p" "rec_ID r = i" "\<forall>e\<in>set es. ev_PreviousHash e = []"
    and "n = of_nat (length (events_of p i))"
    and "apply_loop ctxs p (ledger_batch i r n es) = (None, p')"
  shows "ledger_ok p' \<and> keys_ok p' \<and> (if es = [] then mp_records p' = mp_records p
     else \<exists>es'. list_all2 same_names es es' \<and> mp_records p' = (mp_records p)(i \<mapsto>
       \<lparr>amr_record = r, amr_workflow = req_WorkflowDigest (rec_Request r),
        amr_events = events_of p i @ es'\<rparr>))"
  using assms
proof (induction es arbitrary: n p ctxs)
  case (Cons e es)
  let ?ctx = "case ctxs of [] \<Rightarrow> None | c # _ \<Rightarrow> c"
  obtain q where q: "applyLocked ?ctx p (gate_mutation i r (n + 1) e) = (None, q)"
    "apply_loop (tl ctxs) q (ledger_batch i r (n + 1) es) = (None, p')"
    using Cons.prems(6) unfolding ledger_batch_Cons by (auto split: prod.splits option.splits)
  have n1: "n + 1 = of_nat (Suc (length (events_of p i)))" using Cons.prems(5) by (simp add: add.commute)
  have e: "ev_PreviousHash e = []" using Cons.prems(4) by simp
  note w = gate_write[OF Cons.prems(1,2,3) e n1 q(1)]
  obtain e' where e': "same_names e e'" "mp_records q = (mp_records p)(i \<mapsto>
      \<lparr>amr_record = r, amr_workflow = req_WorkflowDigest (rec_Request r), amr_events = events_of p i @ [e']\<rparr>)"
    using w(1) by blast
  have "n + 1 = of_nat (length (events_of q i))" using e'(2) n1 by simp
  from Cons.IH[OF w(2,3) Cons.prems(3) _ this q(2)] Cons.prems(4)
  have ih: "ledger_ok p'" "keys_ok p'" "if es = [] then mp_records p' = mp_records q
     else \<exists>es'. list_all2 same_names es es' \<and> mp_records p' = (mp_records q)(i \<mapsto>
       \<lparr>amr_record = r, amr_workflow = req_WorkflowDigest (rec_Request r),
        amr_events = events_of q i @ es'\<rparr>)" by auto
  have "\<exists>es'. list_all2 same_names (e # es) es' \<and> mp_records p' = (mp_records p)(i \<mapsto>
       \<lparr>amr_record = r, amr_workflow = req_WorkflowDigest (rec_Request r),
        amr_events = events_of p i @ es'\<rparr>)"
  proof (cases "es = []")
    case True
    then show ?thesis using ih(3) e' by (intro exI[of _ "[e']"]) simp
  next
    case False
    then obtain es' where "list_all2 same_names es es'" "mp_records p' = (mp_records q)(i \<mapsto>
       \<lparr>amr_record = r, amr_workflow = req_WorkflowDigest (rec_Request r),
        amr_events = events_of q i @ es'\<rparr>)" using ih(3) by auto
    then show ?thesis using e' by (intro exI[of _ "e' # es'"]) simp
  qed
  then show ?case using ih(1,2) by simp
qed simp

text \<open>The gate's choice of method on this ledger: all of the batch, or nothing.\<close>

lemma ledger_write_memory:
  assumes "ledger_write memory_api (p, ctxs) epoch ms = (res, p', ctxs')"
  shows "case res of None \<Rightarrow> apply_loop ctxs p ms = (None, p') | Some _ \<Rightarrow> p' = p"
proof -
  consider "ms = []" | m where "ms = [m]" | "1 < length ms" by (cases ms rule: remdups_adj.cases) auto
  then show ?thesis
  proof cases
    case 1
    then show ?thesis using assms by (simp add: ledger_write_def)
  next
    case (2 m)
    then have a: "applyLocked (case ctxs of [] \<Rightarrow> None | c # _ \<Rightarrow> c) p m = (res, p')"
      using assms by (auto simp: ledger_write_def memory_api_def Apply_def split: prod.splits)
    from a have "res \<noteq> None \<Longrightarrow> p' = p" by (cases rule: applyLocked_cases) auto
    then show ?thesis using 2 a by (auto split: option.split)
  next
    case 3
    then have b: "ApplyBatch False ctxs p ms = (res, p')"
      using assms by (auto simp: ledger_write_def memory_api_def split: prod.splits)
    have "res = None \<Longrightarrow> apply_loop ctxs p ms = (None, p')"
      using b 3 by (auto simp: ApplyBatch_def Let_def split: prod.splits option.splits if_splits)
    then show ?thesis using ApplyBatch_failed b by (auto split: option.split)
  qed
qed

subsection \<open>What one operation adds\<close>

text \<open>
  The gate's memory between two states of one operation on request \<open>i\<close> that logs the
  events \<open>es\<close>: only that request changes, and the identifiers spent or assigned are
  those the new events name.
\<close>

definition gate_delta :: "string \<Rightarrow> 'p Gate \<Rightarrow> AuditEvent list \<Rightarrow> 'p Gate \<Rightarrow> bool" where
  "gate_delta i g es h \<longleftrightarrow> audit h = audit g @ es
     \<and> (\<forall>e\<in>set es. ev_RequestID e = i \<and> ev_PreviousHash e = [])
     \<and> usedIDs h = usedIDs g \<union> used_of es
     \<and> confirmationOwners h = (\<lambda>cid. if cid \<in> owned_of es then Some i else confirmationOwners g cid)
     \<and> (\<forall>cid\<in>owned_of es. confirmationOwners g cid = None \<or> confirmationOwners g cid = Some i)
     \<and> persistence h = persistence g \<and> durableSequences h = durableSequences g
     \<and> policyEpoch h = policyEpoch g
     \<and> (if es = [] then requests h = requests g
        else \<exists>r. requests h = (requests g)(i \<mapsto> r) \<and> rec_ID r = i
               \<and> req_PolicyEpoch (rec_Request r) = policyEpoch g
               \<and> (rec_Status r = StatusPending \<and> conf_ConfirmationID (rec_Confirmation r) \<noteq> []
                  \<longrightarrow> confirmationOwners h (conf_ConfirmationID (rec_Confirmation r)) = Some i))"

text \<open>Every record is filed under its identifier, at the gate's epoch, and the checkpoint of a
  pending record is assigned to it.\<close>

definition memory_ok :: "'p Gate \<Rightarrow> bool" where
  "memory_ok g \<longleftrightarrow> (\<forall>i r. requests g i = Some r \<longrightarrow> rec_ID r = i
     \<and> req_PolicyEpoch (rec_Request r) = policyEpoch g
     \<and> (rec_Status r = StatusPending \<and> conf_ConfirmationID (rec_Confirmation r) \<noteq> []
        \<longrightarrow> confirmationOwners g (conf_ConfirmationID (rec_Confirmation r)) = Some i))"

lemma gate_delta_refl [simp]: "gate_delta i g [] g"
  by (simp add: gate_delta_def)

lemma audit_types_distinct [simp]:
  "AuditSubmitted \<noteq> AuditAuthorized" "AuditSubmitted \<noteq> AuditCheckpoint"
  "AuditAuthorized \<noteq> AuditCheckpoint" "AuditCheckpoint \<noteq> AuditAuthorized"
  "AuditRejected \<noteq> AuditAuthorized" "AuditRejected \<noteq> AuditCheckpoint"
  "AuditExpired \<noteq> AuditAuthorized" "AuditExpired \<noteq> AuditCheckpoint"
  "AuditRevoked \<noteq> AuditAuthorized" "AuditRevoked \<noteq> AuditCheckpoint"
  by (simp_all add: AuditSubmitted_def AuditAuthorized_def AuditCheckpoint_def AuditRejected_def
      AuditExpired_def AuditRevoked_def)

lemma appendAudit_event:
  obtains e where "audit (appendAudit now typ i a sc ep cid why g) = audit g @ [e]" "ev_Type e = typ"
    "ev_RequestID e = i" "ev_ConfirmationID e = cid" "ev_PreviousHash e = []"
  by (rule that[of "last (audit (appendAudit now typ i a sc ep cid why g))"])
     (simp_all add: appendAudit_def Let_def split: option.split)

text \<open>Logging one event after storing one record.\<close>

lemma gate_delta_append:
  assumes "requests h = (requests g)(i \<mapsto> r)" "rec_ID r = i" "req_PolicyEpoch (rec_Request r) = policyEpoch g"
    "audit h = audit g" "persistence h = persistence g" "durableSequences h = durableSequences g"
    "policyEpoch h = policyEpoch g"
    and used: "usedIDs h = usedIDs g \<union> (if typ = AuditAuthorized \<and> cid \<noteq> [] then {cid} else {})"
    and owners: "confirmationOwners h = (if typ = AuditCheckpoint \<and> cid \<noteq> []
        then (confirmationOwners g)(cid \<mapsto> i) else confirmationOwners g)"
    and pend: "rec_Status r = StatusPending \<and> conf_ConfirmationID (rec_Confirmation r) \<noteq> []
        \<Longrightarrow> confirmationOwners h (conf_ConfirmationID (rec_Confirmation r)) = Some i"
    and free: "typ = AuditCheckpoint \<Longrightarrow> confirmationOwners g cid = None \<or> confirmationOwners g cid = Some i"
  shows "\<exists>es. gate_delta i g es (appendAudit now typ i a sc ep cid why h)"
proof -
  obtain e where e: "audit (appendAudit now typ i a sc ep cid why h) = audit h @ [e]" "ev_Type e = typ"
    "ev_RequestID e = i" "ev_ConfirmationID e = cid" "ev_PreviousHash e = []"
    by (rule appendAudit_event)
  have "gate_delta i g [e] (appendAudit now typ i a sc ep cid why h)"
    unfolding gate_delta_def using assms e by auto
  then show ?thesis by blast
qed

lemma normalizeRequest_ID: "normalizeRequest r0 = Inr r \<Longrightarrow> req_ID r = req_ID r0"
  by (auto simp: normalizeRequest_def Let_def raise_risk_def fill_nonce_def fill_digest_def
      split: if_splits option.splits sum.splits)

lemma submit_delta:
  "\<exists>es. gate_delta (req_ID req0) g es (snd (submit_core now req0 g))"
proof (cases "submit_core now req0 g")
  case (Pair res h)
  from Pair show ?thesis
  proof (cases rule: submit_core_cases)
    case (refused e)
    then show ?thesis using Pair by (metis gate_delta_refl snd_conv)
  next
    case (stored req rc)
    have i: "req_ID req = req_ID req0" using normalizeRequest_ID[OF stored(1)] .
    let ?i = "req_ID req" and ?g1 = "g\<lparr>requests := (requests g)(req_ID req \<mapsto> rc)\<rparr>"
    let ?g2 = "appendAudit now AuditSubmitted ?i (req_Actor req) (req_Scope req) (req_PolicyEpoch req) [] [] ?g1"
    have rc: "rec_ID rc = ?i" "req_PolicyEpoch (rec_Request rc) = policyEpoch g"
      "\<not> (rec_Status rc = StatusPending \<and> conf_ConfirmationID (rec_Confirmation rc) \<noteq> [])"
      using stored(3,6) by (auto simp: pending_record_def preapproved_record_def zero_Confirmation_def Let_def)
    have "\<exists>es. gate_delta ?i g es ?g2" by (rule gate_delta_append) (use rc in auto)
    then obtain es where d: "gate_delta ?i g es ?g2" by blast
    show ?thesis
    proof (cases "preapproved req")
      case False
      then have "h = ?g2" using Pair stored(1-4,6) by (auto simp: submit_core_def Let_def pending_record_def)
      then show ?thesis using d Pair i by auto
    next
      case True
      let ?cid = "''preapproved:'' @ ?i"
      let ?g3 = "?g2\<lparr>usedIDs := insert ?cid (usedIDs ?g2)\<rparr>"
      have h: "h = appendAudit now AuditAuthorized ?i (req_Actor req) (req_Scope req)
          (req_PolicyEpoch req) ?cid ''pre-approved'' ?g3"
        using Pair stored(1-4,6) True by (auto simp: submit_core_def Let_def preapproved_record_def)
      obtain e where e: "audit h = audit ?g3 @ [e]" "ev_Type e = AuditAuthorized"
        "ev_RequestID e = ?i" "ev_ConfirmationID e = ?cid" "ev_PreviousHash e = []"
        unfolding h by (rule appendAudit_event)
      have ne: "es \<noteq> []" using d by (auto simp: gate_delta_def appendAudit_def Let_def)
      have "gate_delta ?i g (es @ [e]) h"
        using d e ne unfolding h gate_delta_def by auto
      then show ?thesis using Pair i by auto
    qed
  qed
qed

lemma revoke_delta:
  assumes "memory_ok g"
  shows "\<exists>es. gate_delta i g es (snd (revoke_core now i actor why g))"
proof (cases "fst (revoke_core now i actor why g)")
  case (Inl e)
  then have "snd (revoke_core now i actor why g) = g"
    by (auto simp: revoke_core_def split: option.splits)
  then show ?thesis by (metis gate_delta_refl)
next
  case (Inr u)
  then obtain rc where rc: "requests g i = Some rc"
    "snd (revoke_core now i actor why g) = appendAudit now AuditRevoked i actor (req_Scope (rec_Request rc))
       (req_PolicyEpoch (rec_Request rc)) [] why
       (g\<lparr>requests := (requests g)(i \<mapsto> rc\<lparr>rec_Status := StatusRevoked, rec_Commit := None\<rparr>)\<rparr>)"
    by (auto simp: revoke_core_def split: option.splits)
  show ?thesis unfolding rc(2)
    by (rule gate_delta_append) (use assms rc(1) in \<open>auto simp: memory_ok_def\<close>)
qed

lemma consume_delta:
  assumes "memory_ok g" "requests g i = Some rc"
  shows "\<exists>es. gate_delta i g es (snd (consume_core now i scope rc g))"
  unfolding consume_core_def snd_conv
  by (rule gate_delta_append) (use assms in \<open>auto simp: memory_ok_def\<close>)

lemma guards_cid:
  assumes "confirm_guards g now i rc c = None"
  shows "conf_ConfirmationID c \<noteq> []"
    "confirmationOwners g (conf_ConfirmationID c) = None \<or> confirmationOwners g (conf_ConfirmationID c) = Some i"
proof -
  have "ValidateIdentifier (conf_ConfirmationID c) = None"
    and own: "\<forall>owner. confirmationOwners g (conf_ConfirmationID c) = Some owner \<longrightarrow> owner = i"
    using assms unfolding confirm_guards_None by simp_all
  then show "conf_ConfirmationID c \<noteq> []" by (auto simp: ValidateIdentifier_def validateOpaque_None)
  show "confirmationOwners g (conf_ConfirmationID c) = None \<or> confirmationOwners g (conf_ConfirmationID c) = Some i"
    using own by (cases "confirmationOwners g (conf_ConfirmationID c)") simp_all
qed

lemma checkpoint_delta:
  assumes mem: "memory_ok g" and rc: "requests g i = Some rc" "rec_Status rc = StatusPending"
    and guards: "confirm_guards g now i rc c0 = None"
    and c: "c = c0\<lparr>conf_ConfirmationLanguage := req_ConfirmationLanguage (rec_Request rc)\<rparr>"
    and cp: "confirm_checkpoint rc c = None" "requiresThirdConfirmation (rec_Request rc)" "\<not> conf_ThirdConfirmation c"
  shows "\<exists>es. gate_delta i g es (record_checkpoint now i rc c g)"
proof -
  have cid: "conf_ConfirmationID c \<noteq> []"
    "confirmationOwners g (conf_ConfirmationID c) = None \<or> confirmationOwners g (conf_ConfirmationID c) = Some i"
    using guards_cid[OF guards] c by simp_all
  note ok = mem[unfolded memory_ok_def, rule_format, OF rc(1)]
  show ?thesis
  proof (cases "conf_ConfirmationID (rec_Confirmation rc) = []")
    case True
    then show ?thesis unfolding record_checkpoint_def Let_def
      by (intro gate_delta_append[where r = "rc\<lparr>rec_Confirmation := c\<lparr>conf_TTL := req_TTL (rec_Request rc),
              conf_ConfirmationStep := 2\<rparr>\<rparr>"]) (use ok cid in auto)
  next
    case False
    then have "conf_ConfirmationID (rec_Confirmation rc) = conf_ConfirmationID c"
      using cp by (simp add: confirm_checkpoint_def sameCheckpoint_None)
    then have own: "confirmationOwners g (conf_ConfirmationID c) = Some i" using ok rc(2) False by simp
    have "requests g = (requests g)(i \<mapsto> rc)" using rc(1) by auto
    then show ?thesis unfolding record_checkpoint_def Let_def
      by (intro gate_delta_append[where r = rc]) (use ok cid own False in \<open>auto simp: fun_upd_idem\<close>)
  qed
qed

lemma confirm_delta:
  assumes "memory_ok g"
  shows "\<exists>es. gate_delta i g es (snd (confirm_core now i c0 g))"
proof (cases "confirm_core now i c0 g")
  case (Pair res h)
  from Pair show ?thesis
  proof (cases rule: confirm_core_cases)
    case missing
    then show ?thesis using Pair by (metis gate_delta_refl snd_conv)
  next
    case (rejected rc c e)
    then have "requests g = (requests g)(i \<mapsto> rc)" by auto
    moreover have "h = snd (confirm_reject now i rc c e g)" using rejected by simp
    ultimately show ?thesis using Pair assms rejected(1) unfolding confirm_reject_def
      by (simp, intro gate_delta_append[where r = rc]) (auto simp: memory_ok_def)
  next
    case (lapsed rc)
    have "\<exists>es. gate_delta i g es h" unfolding lapsed(6)
      by (rule gate_delta_append) (use assms lapsed(1) in \<open>auto simp: memory_ok_def\<close>)
    then show ?thesis using Pair by simp
  next
    case (checkpoint rc c)
    then show ?thesis using checkpoint_delta[OF assms] Pair by auto
  next
    case (granted rc c)
    have "conf_ConfirmationID c \<noteq> []" using guards_cid(1)[OF granted(4)] granted(5) by simp
    then have "\<exists>es. gate_delta i g es h" unfolding granted(9) authorize_def Let_def snd_conv
      by (intro gate_delta_append[where r = "rc\<lparr>rec_Status := StatusApproved,
            rec_Confirmation := c\<lparr>conf_ConfirmationStep := (if requiresThirdConfirmation (rec_Request rc) then 3 else 2),
              conf_TTL := req_TTL (rec_Request rc)\<rparr>,
            rec_Commit := Some (commit_of now i rc (c\<lparr>conf_ConfirmationStep := (if requiresThirdConfirmation (rec_Request rc) then 3 else 2),
              conf_TTL := req_TTL (rec_Request rc)\<rparr>))\<rparr>"])
         (use assms granted(1) in \<open>auto simp: memory_ok_def\<close>)
    then show ?thesis using Pair by simp
  qed
qed

lemma delta_memory_ok:
  assumes "gate_delta i g es h" "memory_ok g"
  shows "memory_ok h"
  unfolding memory_ok_def
proof (intro allI impI)
  fix j r assume r: "requests h j = Some r"
  note d = assms(1)[unfolded gate_delta_def]
  show "rec_ID r = j \<and> req_PolicyEpoch (rec_Request r) = policyEpoch h
     \<and> (rec_Status r = StatusPending \<and> conf_ConfirmationID (rec_Confirmation r) \<noteq> []
        \<longrightarrow> confirmationOwners h (conf_ConfirmationID (rec_Confirmation r)) = Some j)"
  proof (cases "es \<noteq> [] \<and> j = i")
    case True
    then show ?thesis using d r by auto
  next
    case False
    then have old: "requests g j = Some r" using d r by (auto split: if_splits)
    note ok = assms(2)[unfolded memory_ok_def, rule_format, OF old]
    have "confirmationOwners h cid = Some j" if "confirmationOwners g cid = Some j" for cid
    proof (cases "cid \<in> owned_of es")
      case True
      then have "es \<noteq> []" by auto
      moreover have "confirmationOwners g cid = None \<or> confirmationOwners g cid = Some i" using d True by blast
      ultimately show ?thesis using that False by auto
    next
      case out: False
      have "confirmationOwners h = (\<lambda>cid. if cid \<in> owned_of es then Some i else confirmationOwners g cid)"
        using d by blast
      then show ?thesis using that out by simp
    qed
    moreover have "policyEpoch h = policyEpoch g" using d by blast
    ultimately show ?thesis using ok by auto
  qed
qed

subsection \<open>The gate and its ledger agree\<close>

definition synced :: "memory_state Gate \<Rightarrow> MemoryPersistence \<Rightarrow> bool" where
  "synced g p \<longleftrightarrow> (\<exists>ctxs. persistence g = Some (memory_api, p, ctxs))
     \<and> ledger_ok p \<and> keys_ok p \<and> memory_ok g
     \<and> (\<forall>i. requests g i = map_option amr_record (mp_records p i))
     \<and> (\<forall>i. lookup_or 0 (durableSequences g) i = of_nat (length (events_of p i)))
     \<and> usedIDs g = (\<Union>i. used_of (events_of p i))
     \<and> (\<forall>cid i. confirmationOwners g cid = Some i \<longleftrightarrow> cid \<in> owned_of (events_of p i))"

lemma gate_deltaD:
  assumes "gate_delta i g es h"
  shows "audit h = audit g @ es" "\<And>e. e \<in> set es \<Longrightarrow> ev_RequestID e = i"
    "\<forall>e\<in>set es. ev_PreviousHash e = []" "usedIDs h = usedIDs g \<union> used_of es"
    "\<And>cid. confirmationOwners h cid = (if cid \<in> owned_of es then Some i else confirmationOwners g cid)"
    "\<And>cid. cid \<in> owned_of es \<Longrightarrow> confirmationOwners g cid = None \<or> confirmationOwners g cid = Some i"
    "persistence h = persistence g" "durableSequences h = durableSequences g"
    "policyEpoch h = policyEpoch g" "es = [] \<Longrightarrow> requests h = requests g"
    "es \<noteq> [] \<Longrightarrow> \<exists>r. requests h = (requests g)(i \<mapsto> r) \<and> rec_ID r = i"
  using assms unfolding gate_delta_def by (auto simp del: named_by_simps split: if_splits)

lemma syncedD:
  assumes "synced g p"
  shows "\<exists>ctxs. persistence g = Some (memory_api, p, ctxs)" "ledger_ok p" "keys_ok p" "memory_ok g"
    "requests g i = map_option amr_record (mp_records p i)"
    "lookup_or 0 (durableSequences g) i = of_nat (length (events_of p i))"
    "usedIDs g = (\<Union>i. used_of (events_of p i))"
    "confirmationOwners g cid = Some i \<longleftrightarrow> cid \<in> owned_of (events_of p i)"
  using assms unfolding synced_def by blast+

text \<open>Only these fields matter.\<close>

lemma synced_cong:
  assumes "synced g p" "requests f = requests g" "usedIDs f = usedIDs g"
    "confirmationOwners f = confirmationOwners g" "policyEpoch f = policyEpoch g"
    "persistence f = Some (memory_api, p, ctxs)"
    "\<And>i. lookup_or 0 (durableSequences f) i = lookup_or 0 (durableSequences g) i"
  shows "synced f p"
proof -
  have "memory_ok f" using syncedD(4)[OF assms(1)] assms(2,4,5) by (simp add: memory_ok_def)
  then show ?thesis using assms unfolding synced_def by simp
qed

text \<open>What the ledger holds after the gate's batch was accepted.\<close>

lemma synced_stored:
  assumes sy: "synced g p" and d: "gate_delta i g es h"
    and p': "ledger_ok p'" "keys_ok p'" "list_all2 same_names es es'" "es \<noteq> []"
      "requests h i = Some r" "mp_records p' = (mp_records p)(i \<mapsto> \<lparr>amr_record = r,
         amr_workflow = w, amr_events = events_of p i @ es'\<rparr>)"
    and f: "requests f = requests h" "usedIDs f = usedIDs h" "confirmationOwners f = confirmationOwners h"
      "policyEpoch f = policyEpoch h" "persistence f = Some (memory_api, p', ctxs)"
      "durableSequences f = (durableSequences h)(i \<mapsto> of_nat (length (events_of p i)) + of_nat (length es))"
  shows "synced f p'"
proof -
  note s = syncedD[OF sy] and dd = gate_deltaD[OF d]
  have ev: "events_of p' j = (if j = i then events_of p i @ es' else events_of p j)" for j
    by (simp add: p'(6))
  have names: "named_by t es' = named_by t es" for t using named_by_same[OF p'(3)] by simp
  have "memory_ok f" using delta_memory_ok[OF d s(4)] f(1,3,4) by (simp add: memory_ok_def)
  moreover have "requests f j = map_option amr_record (mp_records p' j)" for j
    using s(5)[of j] dd(11)[OF p'(4)] f(1) p'(5) by (auto simp: p'(6))
  moreover have "lookup_or 0 (durableSequences f) j = of_nat (length (events_of p' j))" for j
    using s(6)[of j] dd(8) f(6) list_all2_lengthD[OF p'(3)] by (simp add: ev)
  moreover have "usedIDs f = (\<Union>j. used_of (events_of p' j))"
  proof -
    have u: "used_of (events_of p' j) = used_of (events_of p j) \<union> (if j = i then used_of es else {})" for j
      by (simp add: ev names)
    have "(\<Union>j. used_of (events_of p' j)) = (\<Union>j. used_of (events_of p j)) \<union> used_of es"
      unfolding u by (auto split: if_splits)
    then show ?thesis using s(7) dd(4) f(2) by simp
  qed
  moreover have "confirmationOwners f cid = Some j \<longleftrightarrow> cid \<in> owned_of (events_of p' j)" for cid j
  proof (cases "cid \<in> owned_of es")
    case True
    then have "confirmationOwners f cid = Some i" using dd(5) f(3) by simp
    moreover have "cid \<notin> owned_of (events_of p j)" if "j \<noteq> i"
      using s(8)[of cid j] dd(6)[OF True] that by auto
    ultimately show ?thesis using True by (auto simp: ev names)
  next
    case False
    then have "confirmationOwners f cid = confirmationOwners g cid" using dd(5) f(3) by simp
    then show ?thesis using s(8)[of cid j] False by (simp add: ev names)
  qed
  ultimately show ?thesis using p'(1,2) f(5) by (auto simp: synced_def)
qed

lemma write_through_synced:
  assumes sy: "synced g p" and d: "gate_delta i g es (snd rg)"
  shows "\<exists>p'. synced (snd (write_through g i rg)) p'"
proof -
  note s = syncedD[OF sy] and dd = gate_deltaD[OF d]
  let ?h = "snd rg"
  obtain ctxs where per: "persistence g = Some (memory_api, p, ctxs)" using s(1) by blast
  let ?n = "lookup_or 0 (durableSequences ?h) i"
  let ?r = "lookup_or zero_Record (requests ?h) i"
  have n: "?n = of_nat (length (events_of p i))" using s(6)[of i] dd(8) by simp
  have es: "filter (\<lambda>e. ev_RequestID e = i) (drop (length (audit g)) (audit ?h)) = es"
    using dd(1,2) by (simp add: filter_id_conv)
  obtain res p' ctxs' where w: "ledger_write memory_api (p, ctxs) (policyEpoch ?h)
      (ledger_batch i ?r ?n es) = (res, p', ctxs')" by (metis prod_cases3)
  have hper: "persistence ?h = Some (memory_api, p, ctxs)" using dd(7) per by simp
  note lw = ledger_write_memory[OF w]
  show ?thesis
  proof (cases res)
    case (Some e)
    then have "p' = p" using lw by simp
    then have f: "snd (write_through g i rg) = restore (snapshot g) (?h\<lparr>persistence := Some (memory_api, p, ctxs')\<rparr>)"
      using w Some hper unfolding write_through_def persistSince_def by (simp add: es Let_def)
    have "synced (snd (write_through g i rg)) p"
      by (rule synced_cong[OF sy]) (simp_all add: f dd(9))
    then show ?thesis by blast
  next
    case None
    define f where "f = ?h\<lparr>persistence := Some (memory_api, p', ctxs'),
        durableSequences := (durableSequences ?h)(i \<mapsto> ?n + of_nat (length es))\<rparr>"
    have f: "snd (write_through g i rg) = f"
      using w None hper unfolding write_through_def persistSince_def f_def by (simp add: es Let_def)
    have loop: "apply_loop ctxs p (ledger_batch i ?r ?n es) = (None, p')" using lw None by simp
    show ?thesis
    proof (cases "es = []")
      case True
      then have "p' = p" using loop by simp
      have "synced f p"
        by (rule synced_cong[OF sy])
           (use True \<open>p' = p\<close> n s(6)[of i] in \<open>simp_all add: f_def dd(4,8,9,10)\<close>,
            simp add: fun_eq_iff dd(5))
      then show ?thesis using f by auto
    next
      case False
      then obtain r where r: "requests ?h i = Some r" "rec_ID r = i" using dd(11) by auto
      note b = gate_batch[OF s(2,3) _ dd(3) n loop]
      have b: "ledger_ok p'" "keys_ok p'" "\<exists>es'. list_all2 same_names es es' \<and> mp_records p' = (mp_records p)(i \<mapsto>
           \<lparr>amr_record = r, amr_workflow = req_WorkflowDigest (rec_Request r), amr_events = events_of p i @ es'\<rparr>)"
        using b r False by auto
      then obtain es' where es': "list_all2 same_names es es'" "mp_records p' = (mp_records p)(i \<mapsto>
           \<lparr>amr_record = r, amr_workflow = req_WorkflowDigest (rec_Request r), amr_events = events_of p i @ es'\<rparr>)"
        by blast
      have "synced f p'"
        by (rule synced_stored[OF sy d b(1,2) es'(1) False r(1) es'(2)]) (simp_all add: f_def n)
      then show ?thesis using f by auto
    qed
  qed
qed

lemma write_through_ok_synced:
  assumes "synced g p" "gate_delta i g es (snd rg)" "\<And>e. fst rg = Inl e \<Longrightarrow> snd rg = g"
  shows "\<exists>p'. synced (snd (write_through_ok g i rg)) p'"
  using assms(1,3) write_through_synced[OF assms(1,2)]
  by (cases "fst rg") (auto simp: write_through_ok_def)

lemma step_synced:
  assumes "gate_step now g h" "synced g p"
  shows "\<exists>p'. synced h p'"
  using assms(1)
proof (cases rule: gate_step.cases)
  case (submit req)
  obtain es where "gate_delta (req_ID req) g es (snd (submit_core now req g))" using submit_delta by blast
  moreover have "snd (submit_core now req g) = g" if "fst (submit_core now req g) = Inl e" for e
    using that by (cases "submit_core now req g") (auto elim: submit_core_cases)
  ultimately show ?thesis unfolding submit Submit_def by (rule write_through_ok_synced[OF assms(2)])
next
  case (confirm i c)
  have "memory_ok g" using assms(2) by (simp add: synced_def)
  then obtain es where "gate_delta i g es (snd (confirm_core now i c g))" using confirm_delta by blast
  then show ?thesis unfolding confirm Confirm_def by (rule write_through_synced[OF assms(2)])
next
  case (revoke i actor reason)
  have "memory_ok g" using assms(2) by (simp add: synced_def)
  then obtain es where "gate_delta i g es (snd (revoke_core now i actor reason g))" using revoke_delta by blast
  moreover have "snd (revoke_core now i actor reason g) = g" if "fst (revoke_core now i actor reason g) = Inl e" for e
    using that by (auto simp: revoke_core_def split: option.splits)
  ultimately show ?thesis unfolding revoke Revoke_def by (rule write_through_ok_synced[OF assms(2)])
next
  case (consume i scope digest)
  have mem: "memory_ok g" using assms(2) by (simp add: synced_def)
  show ?thesis
  proof (cases "\<exists>rc. requests g i = Some rc \<and> consume_checks now rc scope digest (policyEpoch g) = None")
    case True
    then obtain rc where rc: "requests g i = Some rc" "consume_checks now rc scope digest (policyEpoch g) = None"
      by blast
    then obtain es where "gate_delta i g es (snd (consume_core now i scope rc g))"
      using consume_delta[OF mem] by blast
    then have "\<exists>p'. synced (snd (write_through g i (consume_core now i scope rc g))) p'"
      by (rule write_through_synced[OF assms(2)])
    then show ?thesis using rc unfolding consume ConsumeAuthorization_def by simp
  next
    case False
    then have "h = g" unfolding consume ConsumeAuthorization_def by (auto split: option.splits)
    then show ?thesis using assms(2) by blast
  qed
next
  case (advance epoch)
  obtain ctxs where "persistence g = Some (memory_api, p, ctxs)" using assms(2) by (auto simp: synced_def)
  then have "h = g" unfolding advance AdvanceEpoch_def by (simp add: memory_api_def)
  then show ?thesis using assms(2) by blast
qed

lemma new_synced:
  assumes "NewGateWithPersistence epoch (Some (memory_api, NewMemoryPersistence, ctxs)) = Inr g0"
  shows "synced g0 NewMemoryPersistence"
proof -
  have "keys_ok NewMemoryPersistence" by (simp add: keys_ok_def NewMemoryPersistence_def lookup_or_def)
  moreover have "g0 = (NewGate epoch)\<lparr>persistence := Some (memory_api, NewMemoryPersistence, ctxs)\<rparr>"
    using assms by (simp add: NewGateWithPersistence_def)
  ultimately show ?thesis
    by (simp add: synced_def memory_ok_def NewGate_def NewMemoryPersistence_def ledger_ok_def lookup_or_def)
qed

lemma run_synced: "gate_run g0 t0 g t \<Longrightarrow> synced g0 p0 \<Longrightarrow> \<exists>p. synced g p"
  by (induction rule: gate_run.induct) (auto dest: step_synced)

lemma restart_step_epoch:
  assumes "gate_step now g h" "synced g p"
  shows "policyEpoch h = policyEpoch g"
proof -
  obtain ctxs where "persistence g = Some (memory_api, p, ctxs)" using syncedD(1)[OF assms(2)] by blast
  then have adv: "policyEpoch (snd (AdvanceEpoch e g)) = policyEpoch g" for e
    by (simp add: AdvanceEpoch_def memory_api_def)
  show ?thesis using assms(1)
    by (cases rule: gate_step.cases)
       (auto simp: Submit_def Confirm_def Revoke_def ConsumeAuthorization_def adv split: option.split)
qed

lemma restart_run_epoch: "gate_run g0 t0 g t \<Longrightarrow> synced g0 p0 \<Longrightarrow> policyEpoch g = policyEpoch g0"
proof (induction rule: gate_run.induct)
  case (step g t now h)
  then obtain p where "synced g p" using run_synced by blast
  then show ?case using step restart_step_epoch by metis
qed simp

lemma run_records_ok:
  assumes "gate_run g0 t0 g t" "requests g0 = Map.empty" "0 < t0" "requests g i = Some r"
  shows "record_ok i t r"
proof -
  have "\<forall>i r. requests g i = Some r \<longrightarrow> record_ok i t r"
    using assms(1)
  proof (induction rule: gate_run.induct)
    case start
    then show ?case using assms(2) by simp
  next
    case (step g t now h)
    then have "0 < now" using assms(3) run_time by fastforce
    then show ?case using step step_record_ok by blast
  qed
  then show ?thesis using assms(4) by blast
qed

subsection \<open>Restoring\<close>

lemma replay_event_simps [simp]:
  "requests (replay_event i e f) = requests f" "policyEpoch (replay_event i e f) = policyEpoch f"
  "persistence (replay_event i e f) = persistence f"
  "durableSequences (replay_event i e f) = durableSequences f"
  "usedIDs (replay_event i e f) = usedIDs f \<union> used_of [e]"
  "confirmationOwners (replay_event i e f) cid
     = (if cid \<in> owned_of [e] then Some i else confirmationOwners f cid)"
  by (simp_all add: replay_event_def Let_def)

lemma replay_events [simp]:
  "requests (fold (replay_event i) es f) = requests f"
  "policyEpoch (fold (replay_event i) es f) = policyEpoch f"
  "persistence (fold (replay_event i) es f) = persistence f"
  "durableSequences (fold (replay_event i) es f) = durableSequences f"
  by (induction es arbitrary: f) simp_all

lemma replay_used: "usedIDs (fold (replay_event i) es f) = usedIDs f \<union> used_of es"
proof (induction es arbitrary: f)
  case (Cons e es)
  have "used_of (e # es) = used_of [e] \<union> used_of es" by simp
  then show ?case using Cons[of "replay_event i e f"] by (simp only: fold.simps comp_apply replay_event_simps Un_assoc)
qed simp

lemma replay_owners:
  "confirmationOwners (fold (replay_event i) es f) cid
     = (if cid \<in> owned_of es then Some i else confirmationOwners f cid)"
proof (induction es arbitrary: f)
  case (Cons e es)
  have "owned_of (e # es) = owned_of [e] \<union> owned_of es" by simp
  then show ?case using Cons[of "replay_event i e f"] by (simp only: fold.simps comp_apply replay_event_simps Un_iff if_bool_eq_conj) auto
qed simp

lemma restore_one:
  assumes ok: "ledger_ok p" and per: "persistence f = Some (memory_api, p, ctxs)"
    and new: "requests f i = None" and lr: "mp_records p i = Some lr"
    and valid: "ValidateRecordForAdapter (amr_record lr) = None"
    and epoch: "req_PolicyEpoch (rec_Request (amr_record lr)) = policyEpoch f"
  shows "\<exists>f'. RestoreRecord i f = (None, f')
     \<and> requests f' = (requests f)(i \<mapsto> amr_record lr)
     \<and> usedIDs f' = usedIDs f \<union> used_of (amr_events lr)
     \<and> confirmationOwners f' = (\<lambda>cid. if cid \<in> owned_of (amr_events lr) then Some i else confirmationOwners f cid)
     \<and> policyEpoch f' = policyEpoch f \<and> persistence f' = persistence f
     \<and> durableSequences f' = (durableSequences f)(i \<mapsto> of_nat (length (amr_events lr)))"
proof -
  have e: "rec_ID (amr_record lr) = i" "amr_events lr \<noteq> []"
    "validatePersistedEvents (amr_record lr) (amr_events lr) = None"
    using ok lr by (auto simp: ledger_ok_def entry_ok_def)
  have load: "ledger_restore_load memory_api (p, ctxs) (policyEpoch f) i = Inr (amr_record lr, amr_events lr)"
    using load_ok[OF ok lr] epoch
    by (simp add: ledger_restore_load_def memory_api_def LoadWithEventsAtEpoch_def)
  have "event_bound (amr_record lr) (amr_events lr ! k)" if "k < length (amr_events lr)" for k
    using chain_nth[OF e(3) that] by (simp add: event_valid_def event_bound_def)
  then have bound: "list_all (event_bound (amr_record lr)) (amr_events lr)" by (simp add: list_all_length)
  let ?f1 = "fold (replay_event i) (amr_events lr) (f\<lparr>requests := (requests f)(i \<mapsto> amr_record lr)\<rparr>)"
  have "RestoreRecord i f = (None, ?f1\<lparr>durableSequences :=
      (durableSequences ?f1)(i \<mapsto> of_nat (length (amr_events lr)))\<rparr>)"
    using per new load valid epoch e(1,2) bound unfolding RestoreRecord_def by (simp add: Let_def)
  then show ?thesis by (intro exI conjI) (assumption, simp_all add: replay_used replay_owners fun_eq_iff)
qed

text \<open>The in-memory ledger is honest, as long as no record in it was submitted in the future.\<close>

lemma memory_ledger_honest:
  assumes "ledger_ok p" "persistence f = Some (memory_api, p, ctxs)"
    and "\<And>i lr. mp_records p i = Some lr \<Longrightarrow> rec_SubmittedAt (amr_record lr) \<le> now"
  shows "ledger_honest now f"
  unfolding ledger_honest_def
proof (intro allI impI)
  fix api q i rec evs
  assume "persistence f = Some (api, q) \<and> ledger_restore_load api q (policyEpoch f) i = Inr (rec, evs)"
  then have "loadWithEventsLocked p i = Inr (rec, evs)" using assms(2)
    by (auto simp: ledger_restore_load_def memory_api_def LoadWithEventsAtEpoch_def
        split: sum.splits if_splits)
  then obtain lr where "mp_records p i = Some lr" "rec = amr_record lr"
    by (auto simp: loadWithEventsLocked_def split: option.splits if_splits)
  then show "rec_ID rec = i \<and> rec_SubmittedAt rec \<le> now"
    using assms(1,3) by (auto simp: ledger_ok_def entry_ok_def)
qed

lemma restore_many:
  assumes "ledger_ok p" "persistence f = Some (memory_api, p, ctxs)"
    and "distinct ids" "\<And>i. i \<in> set ids \<Longrightarrow> requests f i = None"
    and "\<And>i. i \<in> set ids \<Longrightarrow> \<exists>lr. mp_records p i = Some lr \<and> ValidateRecordForAdapter (amr_record lr) = None
           \<and> req_PolicyEpoch (rec_Request (amr_record lr)) = policyEpoch f"
  shows "\<exists>f'. restore_all snap ids f = (None, f')
     \<and> (\<forall>i. requests f' i = (if i \<in> set ids then map_option amr_record (mp_records p i) else requests f i))
     \<and> usedIDs f' = usedIDs f \<union> (\<Union>i\<in>set ids. used_of (events_of p i))
     \<and> (\<forall>cid. (\<forall>i\<in>set ids. cid \<notin> owned_of (events_of p i)) \<longrightarrow> confirmationOwners f' cid = confirmationOwners f cid)
     \<and> (\<forall>cid. (\<exists>i\<in>set ids. cid \<in> owned_of (events_of p i))
          \<longrightarrow> (\<exists>i\<in>set ids. cid \<in> owned_of (events_of p i) \<and> confirmationOwners f' cid = Some i))
     \<and> policyEpoch f' = policyEpoch f \<and> persistence f' = persistence f
     \<and> (\<forall>i. lookup_or 0 (durableSequences f') i = (if i \<in> set ids then of_nat (length (events_of p i))
          else lookup_or 0 (durableSequences f) i))"
  using assms
proof (induction ids arbitrary: f)
  case (Cons i ids)
  obtain lr where lr: "mp_records p i = Some lr" "ValidateRecordForAdapter (amr_record lr) = None"
    "req_PolicyEpoch (rec_Request (amr_record lr)) = policyEpoch f"
    using Cons.prems(5)[of i] by auto
  obtain h where h: "RestoreRecord i f = (None, h)" "requests h = (requests f)(i \<mapsto> amr_record lr)"
    "usedIDs h = usedIDs f \<union> used_of (amr_events lr)"
    "confirmationOwners h = (\<lambda>cid. if cid \<in> owned_of (amr_events lr) then Some i else confirmationOwners f cid)"
    "policyEpoch h = policyEpoch f" "persistence h = persistence f"
    "durableSequences h = (durableSequences f)(i \<mapsto> of_nat (length (amr_events lr)))"
    using restore_one[OF Cons.prems(1,2) _ lr] Cons.prems(4)[of i] by auto
  have ev: "events_of p i = amr_events lr" using lr(1) by simp
  have "persistence h = Some (memory_api, p, ctxs)" "distinct ids" "i \<notin> set ids"
    using h(6) Cons.prems(2,3) by simp_all
  moreover have "\<And>j. j \<in> set ids \<Longrightarrow> requests h j = None"
    using Cons.prems(3,4) h(2) by auto
  moreover have "\<And>j. j \<in> set ids \<Longrightarrow> \<exists>lr. mp_records p j = Some lr \<and> ValidateRecordForAdapter (amr_record lr) = None
           \<and> req_PolicyEpoch (rec_Request (amr_record lr)) = policyEpoch h"
    using Cons.prems(5) h(5) by auto
  ultimately obtain f' where f': "restore_all snap ids h = (None, f')"
     "\<And>j. requests f' j = (if j \<in> set ids then map_option amr_record (mp_records p j) else requests h j)"
     "usedIDs f' = usedIDs h \<union> (\<Union>j\<in>set ids. used_of (events_of p j))"
     "\<And>cid. (\<forall>j\<in>set ids. cid \<notin> owned_of (events_of p j)) \<longrightarrow> confirmationOwners f' cid = confirmationOwners h cid"
     "\<And>cid. (\<exists>j\<in>set ids. cid \<in> owned_of (events_of p j))
          \<longrightarrow> (\<exists>j\<in>set ids. cid \<in> owned_of (events_of p j) \<and> confirmationOwners f' cid = Some j)"
     "policyEpoch f' = policyEpoch h" "persistence f' = persistence h"
     "\<And>j. lookup_or 0 (durableSequences f') j = (if j \<in> set ids then of_nat (length (events_of p j))
          else lookup_or 0 (durableSequences h) j)"
    using Cons.IH[of h, OF Cons.prems(1)] by blast
  have "restore_all snap (i # ids) f = (None, f')" using h(1) f'(1) by simp
  moreover have "\<forall>j. requests f' j = (if j \<in> set (i # ids) then map_option amr_record (mp_records p j) else requests f j)"
    using f'(2) h(2) lr(1) by simp
  moreover have "usedIDs f' = usedIDs f \<union> (\<Union>j\<in>set (i # ids). used_of (events_of p j))"
    using f'(3) h(3) ev by auto
  moreover have "\<forall>cid. (\<forall>j\<in>set (i # ids). cid \<notin> owned_of (events_of p j)) \<longrightarrow> confirmationOwners f' cid = confirmationOwners f cid"
    using f'(4) h(4) ev by auto
  moreover have "\<exists>j\<in>set (i # ids). cid \<in> owned_of (events_of p j) \<and> confirmationOwners f' cid = Some j"
    if "\<exists>j\<in>set (i # ids). cid \<in> owned_of (events_of p j)" for cid
    using f'(4,5)[of cid] h(4) ev that by (cases "\<exists>j\<in>set ids. cid \<in> owned_of (events_of p j)") auto
  moreover have "policyEpoch f' = policyEpoch f" "persistence f' = persistence f" using f'(6,7) h(5,6) by simp_all
  moreover have "\<forall>j. lookup_or 0 (durableSequences f') j = (if j \<in> set (i # ids) then of_nat (length (events_of p j))
          else lookup_or 0 (durableSequences f) j)"
    using f'(8) h(7) ev by simp
  ultimately show ?case by blast
qed simp

text \<open>
  C7: a restart loses nothing. Take any run of a gate on an in-memory ledger, with writes
  refused or contexts cancelled at any point; then open a new gate of the same epoch on the
  ledger as it is and restore the identifiers of the old gate's requests. The restore succeeds
  and the new gate has the same records, the same spent confirmation identifiers, the same
  owners of checkpointed identifiers and the same durable sequence of every request.
\<close>

theorem restart_recovers_gate:
  assumes start: "NewGateWithPersistence epoch (Some (memory_api, NewMemoryPersistence, ctxs)) = Inr g0"
    and run: "gate_run g0 t0 g t" "0 < t0"
    and ledger: "persistence g = Some (api, p, ctxs1)"
    and again: "NewGateWithPersistence epoch (Some (memory_api, p, ctxs2)) = Inr f0"
    and ids: "distinct ids" "set ids = dom (requests g)" "ids \<noteq> []"
  shows "\<exists>f. Restore ids f0 = (None, f) \<and> requests f = requests g \<and> usedIDs f = usedIDs g
    \<and> confirmationOwners f = confirmationOwners g \<and> policyEpoch f = policyEpoch g
    \<and> (\<forall>i. lookup_or 0 (durableSequences f) i = lookup_or 0 (durableSequences g) i)"
proof -
  have g0: "g0 = (NewGate epoch)\<lparr>persistence := Some (memory_api, NewMemoryPersistence, ctxs)\<rparr>"
    and f0: "f0 = (NewGate epoch)\<lparr>persistence := Some (memory_api, p, ctxs2)\<rparr>"
    using start again by (simp_all add: NewGateWithPersistence_def)
  obtain p' where "synced g p'" using run_synced[OF run(1) new_synced[OF start]] by blast
  moreover have "p' = p" using ledger syncedD(1)[OF \<open>synced g p'\<close>] by auto
  ultimately have sy: "synced g p" by simp
  note s = syncedD[OF sy]
  have epoch: "policyEpoch g = epoch" using restart_run_epoch[OF run(1) new_synced[OF start]] g0 by (simp add: NewGate_def)
  have f0s: "requests f0 = Map.empty" "usedIDs f0 = {}" "confirmationOwners f0 = Map.empty"
    "durableSequences f0 = Map.empty" "policyEpoch f0 = epoch" "persistence f0 = Some (memory_api, p, ctxs2)"
    unfolding f0 by (simp_all add: NewGate_def)
  have dom: "i \<in> set ids \<longleftrightarrow> mp_records p i \<noteq> None" for i using ids(2) s(5)[of i]
    by (cases "mp_records p i") auto
  have nil: "i \<notin> set ids \<Longrightarrow> events_of p i = []" for i using dom[of i] by (simp add: lookup_or_def)
  have recs: "\<exists>lr. mp_records p i = Some lr \<and> ValidateRecordForAdapter (amr_record lr) = None
           \<and> req_PolicyEpoch (rec_Request (amr_record lr)) = policyEpoch f0" if i: "i \<in> set ids" for i
  proof -
    obtain lr where lr: "mp_records p i = Some lr" using dom i by blast
    then have rq: "requests g i = Some (amr_record lr)" using s(5)[of i] by simp
    have "requests g0 = Map.empty" by (simp add: g0 NewGate_def)
    then have "record_ok i t (amr_record lr)" using run_records_ok[OF run(1) _ run(2) rq] by blast
    moreover have "req_PolicyEpoch (rec_Request (amr_record lr)) = policyEpoch g"
      using s(4) rq by (auto simp: memory_ok_def)
    ultimately show ?thesis using lr epoch f0s(5) by (auto simp: record_ok_def)
  qed
  obtain f where f: "restore_all (snapshot f0) ids f0 = (None, f)"
     "\<And>i. requests f i = (if i \<in> set ids then map_option amr_record (mp_records p i) else requests f0 i)"
     "usedIDs f = usedIDs f0 \<union> (\<Union>i\<in>set ids. used_of (events_of p i))"
     "\<And>cid. (\<forall>i\<in>set ids. cid \<notin> owned_of (events_of p i)) \<longrightarrow> confirmationOwners f cid = confirmationOwners f0 cid"
     "\<And>cid. (\<exists>i\<in>set ids. cid \<in> owned_of (events_of p i))
          \<longrightarrow> (\<exists>i\<in>set ids. cid \<in> owned_of (events_of p i) \<and> confirmationOwners f cid = Some i)"
     "policyEpoch f = policyEpoch f0"
     "\<And>i. lookup_or 0 (durableSequences f) i = (if i \<in> set ids then of_nat (length (events_of p i))
          else lookup_or 0 (durableSequences f0) i)"
    using restore_many[OF s(2) f0s(6) ids(1) _ recs, of "snapshot f0"] f0s(1) by auto
  have "requests f = requests g"
    by (rule ext) (use f(2) s(5) dom f0s(1) in auto)
  moreover have "usedIDs f = usedIDs g"
    using f(3) f0s(2) s(7) nil by (auto, metis empty_iff named_by_simps(1))
  moreover have "confirmationOwners f cid = confirmationOwners g cid" for cid
  proof (cases "\<exists>i\<in>set ids. cid \<in> owned_of (events_of p i)")
    case True
    then obtain i where "cid \<in> owned_of (events_of p i)" "confirmationOwners f cid = Some i" using f(5) by blast
    then show ?thesis using s(8)[of cid i] by simp
  next
    case False
    then have "cid \<notin> owned_of (events_of p i)" for i using nil[of i] by (cases "i \<in> set ids") auto
    then have "confirmationOwners g cid = None" using s(8)[of cid] by (metis not_Some_eq)
    then show ?thesis using f(4)[of cid] False f0s(3) by simp
  qed
  moreover have "lookup_or 0 (durableSequences f) i = lookup_or 0 (durableSequences g) i" for i
    using f(7)[of i] s(6)[of i] nil[of i] f0s(4) by (simp add: lookup_or_def)
  moreover have "Restore ids f0 = (None, f)" using f(1) f0s(6) ids(3) by (simp add: Restore_def)
  ultimately show ?thesis using f(6) f0s(5) epoch by auto
qed

definition ex_bound :: "memory_state Gate" where
  "ex_bound = (NewGate 7)\<lparr>persistence := Some (memory_api, NewMemoryPersistence, [])\<rparr>"

lemma ex_bound_submit:
  "\<exists>rc. requests (snd (Submit 1 ex_request ex_bound)) = [''r1'' \<mapsto> rc]"
proof -
  define h where "h = snd (submit_core 1 ex_request ex_bound)"
  define rc where "rc = lookup_or zero_Record (requests h) ''r1''"
  define m where "m = gate_mutation ''r1'' rc 1 (hd (audit h))"
  have core: "fst (submit_core 1 ex_request ex_bound) = Inr rc" "length (audit h) = 1"
    "filter (\<lambda>e. ev_RequestID e = ''r1'') (audit h) = [hd (audit h)]"
    "validateMutation m = None" "ev_WorkflowDigest (mut_Event m) = []" "ev_Sequence (mut_Event m) = 1"
    unfolding m_def rc_def h_def by code_simp+
  obtain req where req: "normalizeRequest ex_request = Inr req" "requests h = (requests ex_bound)(req_ID req \<mapsto> rc)"
    using core(1) unfolding h_def by (cases "submit_core 1 ex_request ex_bound") (auto elim: submit_core_cases)
  have "req_ID req = ''r1''" using normalizeRequest_ID[OF req(1)] by (simp add: ex_request_def)
  then have rq: "requests h = [''r1'' \<mapsto> rc]" using req(2) by (simp add: ex_bound_def NewGate_def)
  obtain es where "gate_delta ''r1'' ex_bound es h"
    using submit_delta[of ex_request ex_bound 1] by (auto simp: h_def ex_request_def)
  then have per: "persistence h = Some (memory_api, NewMemoryPersistence, [])" "durableSequences h = Map.empty"
    by (auto simp: gate_deltaD ex_bound_def NewGate_def)
  have batch: "ledger_batch ''r1'' rc 0 [hd (audit h)] = [m]"
    unfolding ledger_batch_Cons m_def by simp
  obtain q where q: "ledger_write memory_api (NewMemoryPersistence, []) (policyEpoch h) [m] = (None, q)"
    using apply_new[OF core(4-6)] by (simp add: ledger_write_def memory_api_def Apply_def)
  have "fst (persistSince 0 ''r1'' h) = None"
    using per core(3) batch q unfolding persistSince_def by (simp add: rc_def[symmetric] Let_def)
  then have "requests (snd (write_through ex_bound ''r1'' (Inr rc, h))) = requests h"
    using persistSince_frame(1)[of 0 "''r1''" h]
    by (cases "persistSince 0 ''r1'' h") (simp add: write_through_def ex_bound_def NewGate_def)
  moreover have "submit_core 1 ex_request ex_bound = (Inr rc, h)" using core(1) h_def by (simp add: prod_eq_iff)
  moreover have "req_ID ex_request = ''r1''" by (simp add: ex_request_def)
  ultimately show ?thesis using rq by (intro exI[of _ rc]) (simp add: Submit_def write_through_ok_def)
qed

theorem restart_recovers_gate_witness:
  "\<exists>f p. (\<exists>ctxs. persistence (snd (Submit 1 ex_request ex_bound)) = Some (memory_api, p, ctxs))
     \<and> Restore [''r1''] ((NewGate 7)\<lparr>persistence := Some (memory_api, p, [])\<rparr>) = (None, f)
     \<and> requests f = requests (snd (Submit 1 ex_request ex_bound)) \<and> requests f ''r1'' \<noteq> None"
proof -
  let ?g = "snd (Submit 1 ex_request ex_bound)"
  have new: "NewGateWithPersistence 7 (Some (memory_api, p, [])) = Inr ((NewGate 7)\<lparr>persistence := Some (memory_api, p, [])\<rparr>)" for p
    by (simp add: NewGateWithPersistence_def)
  have start: "NewGateWithPersistence 7 (Some (memory_api, NewMemoryPersistence, [])) = Inr ex_bound"
    unfolding ex_bound_def by (rule new)
  have run: "gate_run ex_bound 1 ?g 1" by (rule gate_run.step[OF gate_run.start _ gate_step.submit]) simp
  obtain rc where rc: "requests ?g = [''r1'' \<mapsto> rc]" using ex_bound_submit by blast
  obtain p ctxs where p: "persistence ?g = Some (memory_api, p, ctxs)"
    using run_synced[OF run new_synced[OF start]] syncedD(1) by blast
  from restart_recovers_gate[OF start run _ p new, of "[''r1'']"] rc
  obtain f where "Restore [''r1''] ((NewGate 7)\<lparr>persistence := Some (memory_api, p, [])\<rparr>) = (None, f)"
    "requests f = requests ?g" by auto
  then show ?thesis using p rc by auto
qed

end
