(* ===== verification/Go_Net.thy ===== *)
theory Go_Net
  imports Go_Strings
begin

text \<open>
  What the program uses of Go's \<open>net\<close>, \<open>net/http\<close> and \<open>strings\<close> on
  hosts and headers: splitting a host from its port, canonical header names, header maps,
  trimming a set of characters and comparing with an ASCII word regardless of case.
\<close>

text \<open>\<open>net.SplitHostPort\<close>; only whether it succeeds and the host matter.\<close>

fun last_index :: "char \<Rightarrow> string \<Rightarrow> nat option" where
  "last_index c [] = None"
| "last_index c (x # xs) =
     (case last_index c xs of Some k \<Rightarrow> Some (Suc k) | None \<Rightarrow> if x = c then Some 0 else None)"

fun first_index :: "char \<Rightarrow> string \<Rightarrow> nat option" where
  "first_index c [] = None"
| "first_index c (x # xs) = (if x = c then Some 0 else map_option Suc (first_index c xs))"

definition SplitHostPort :: "string \<Rightarrow> string option" where
  "SplitHostPort hp =
     (case last_index (CHR '':'') hp of
        None \<Rightarrow> None
      | Some i \<Rightarrow>
          if hd hp = CHR ''['' then
            (case first_index (CHR '']'') hp of
               None \<Rightarrow> None
             | Some e \<Rightarrow>
                 if Suc e \<noteq> i then None
                 else if CHR ''['' \<in> set (drop 1 hp) \<or> CHR '']'' \<in> set (drop (Suc e) hp) then None
                 else Some (drop 1 (take e hp)))
          else if CHR '':'' \<in> set (take i hp) then None
          else if CHR ''['' \<in> set hp \<or> CHR '']'' \<in> set hp then None
          else Some (take i hp))"

text \<open>\<open>strings.Trim(s, cutset)\<close> for a set of bytes.\<close>

definition trim_set :: "string \<Rightarrow> string \<Rightarrow> string" where
  "trim_set cutset s = rev (dropWhile (\<lambda>c. c \<in> set cutset) (rev (dropWhile (\<lambda>c. c \<in> set cutset) s)))"

text \<open>
  \<open>strings.EqualFold\<close> with a lower-case ASCII word: beside the upper-case letters, the
  Kelvin sign folds to k and the long s to s.
\<close>

definition fold_rune :: "int \<Rightarrow> int" where
  "fold_rune r = (if 65 \<le> r \<and> r \<le> 90 then r + 32 else if r = 0x212A then 107 else if r = 0x17F then 115 else r)"

definition equal_fold :: "string \<Rightarrow> string \<Rightarrow> bool" where
  "equal_fold s word \<longleftrightarrow> map fold_rune (runes s) = map byte word"

text \<open>
  A header map: the values of a canonical name, in the order of the request; a name is present
  with no values when its list is empty. \<open>CanonicalHeaderKey\<close> leaves a name that is
  not a token as it is.
\<close>

type_synonym header = "string \<rightharpoonup> string list"

definition upper_byte :: "char \<Rightarrow> char" where
  "upper_byte c = (if in_range 97 122 (byte c) then char_of (byte c - 32) else c)"

text \<open>\<open>strings.ToUpper\<close> on the runes whose upper case is ASCII, the dotless i and the
  long s among them; every other rune is kept.\<close>

definition upper_seg :: "int \<times> string \<Rightarrow> string" where
  "upper_seg rc = (case rc of (r, c) \<Rightarrow>
     if r < 0x80 then map upper_byte c else if r = 0x131 then ''I'' else if r = 0x17F then ''S'' else c)"

definition to_upper :: "string \<Rightarrow> string" where
  "to_upper s = concat (map upper_seg (segs s))"

fun canonical_from :: "bool \<Rightarrow> string \<Rightarrow> string" where
  "canonical_from up [] = []"
| "canonical_from up (c # s) = (if up then upper_byte c else lower_byte c) # canonical_from (c = CHR ''-'') s"

definition token_byte :: "char \<Rightarrow> bool" where
  "token_byte c \<longleftrightarrow> in_range 48 57 (byte c) \<or> in_range 65 90 (byte c) \<or> in_range 94 122 (byte c)
     \<or> byte c \<in> {33, 35, 36, 37, 38, 39, 42, 43, 45, 46, 124, 126}"

definition CanonicalHeaderKey :: "string \<Rightarrow> string" where
  "CanonicalHeaderKey s = (if list_all token_byte s then canonical_from True s else s)"

definition header_Values :: "header \<Rightarrow> string \<Rightarrow> string list" where
  "header_Values h name = (case h (CanonicalHeaderKey name) of None \<Rightarrow> [] | Some vs \<Rightarrow> vs)"

definition header_Get :: "header \<Rightarrow> string \<Rightarrow> string" where
  "header_Get h name = (case header_Values h name of [] \<Rightarrow> [] | v # _ \<Rightarrow> v)"

text \<open>\<open>strings.Join(values, ",")\<close>.\<close>

fun join_comma :: "string list \<Rightarrow> string" where
  "join_comma [] = []"
| "join_comma [v] = v"
| "join_comma (v # vs) = v @ CHR '','' # join_comma vs"

end
