(* ===== verification/Load_Balancer.thy ===== *)
theory Load_Balancer
  imports Go_Net
begin

text \<open>
  The load balancer of \<open>internal/proxy/loadbalancer.go\<close>, the health registry of
  \<open>internal/proxy/health_check.go\<close> it asks, and the failover of
  \<open>internal/proxy/failover.go\<close> and of the forwarding loop in
  \<open>internal/proxy/server.go\<close>.

  Parsing and printing URLs belongs to \<open>net/url\<close>: a \<open>url_lib\<close> holds the two
  functions, and every operation that parses or prints takes it as an argument. Counters are
  64-bit words; the number of requests in flight is a natural number. Every method runs under
  the balancer's or the registry's mutex.
\<close>

subsection \<open>Configuration and URLs\<close>

record url =
  url_Scheme :: string
  url_Host :: string
  url_Rest :: string

record url_lib =
  ul_Parse :: "string \<Rightarrow> url option"
  ul_String :: "url \<Rightarrow> string"

record UpstreamConfig =
  up_Address :: string
  up_Weight :: int

record HealthCheckConfig =
  hc_Enabled :: bool
  hc_HealthyThreshold :: int
  hc_UnhealthyThreshold :: int

record SiteConfig =
  site_ID :: string
  site_Domains :: "string list"
  site_Upstreams :: "UpstreamConfig list"
  site_LoadBalance :: string
  site_HealthCheck :: HealthCheckConfig
  site_Enabled :: bool

definition empty_SiteConfig :: SiteConfig where
  "empty_SiteConfig = \<lparr>site_ID = [], site_Domains = [], site_Upstreams = [], site_LoadBalance = [],
     site_HealthCheck = \<lparr>hc_Enabled = False, hc_HealthyThreshold = 0, hc_UnhealthyThreshold = 0\<rparr>,
     site_Enabled = False\<rparr>"

definition normalizeUpstream :: "url_lib \<Rightarrow> string \<Rightarrow> string" where
  "normalizeUpstream ul address0 =
     (let address1 = trim_space address0;
          address = (if contains address1 ''://'' then address1 else ''http://'' @ address1)
      in case ul_Parse ul address of
           None \<Rightarrow> address
         | Some u \<Rightarrow>
             let scheme = to_lower (url_Scheme u) in
             ul_String ul (if scheme = ''ws'' then u\<lparr>url_Scheme := ''http''\<rparr>
               else if scheme = ''wss'' then u\<lparr>url_Scheme := ''https''\<rparr> else u))"

subsection \<open>Hosts\<close>

definition trim_suffix :: "string \<Rightarrow> string \<Rightarrow> string" where
  "trim_suffix s suf = (if has_suffix s suf then take (length s - length suf) s else s)"

definition normalizeRequestHost :: "string \<Rightarrow> string" where
  "normalizeRequestHost host0 =
     (let host = to_lower (trim_space host0) in
      case SplitHostPort host of
        Some parsed \<Rightarrow> trim_space parsed
      | None \<Rightarrow>
          if has_prefix host ''['' \<and> has_suffix host '']''
          then trim_space (drop 1 (take (length host - 1) host))
          else trim_suffix host ''.'')"

subsection \<open>The health registry\<close>

record upstreamHealthState =
  uh_healthy :: bool
  uh_consecutiveSuccess :: int
  uh_consecutiveFailure :: int
  uh_healthyThreshold :: int
  uh_unhealthyThreshold :: int

type_synonym HealthRegistry = "string \<rightharpoonup> upstreamHealthState"

definition siteHealthKey :: "url_lib \<Rightarrow> string \<Rightarrow> string \<Rightarrow> string" where
  "siteHealthKey ul siteID address = siteID @ [CHR 0x00] @ normalizeUpstream ul address"

definition addUpstream :: "string \<Rightarrow> HealthCheckConfig \<Rightarrow> HealthRegistry \<Rightarrow> HealthRegistry" where
  "addUpstream key cfg r =
     (let ht = (if hc_HealthyThreshold cfg \<le> 0 then 1 else hc_HealthyThreshold cfg);
          ut = (if hc_UnhealthyThreshold cfg \<le> 0 then 1 else hc_UnhealthyThreshold cfg)
      in case r key of
           Some st \<Rightarrow> r(key \<mapsto> st\<lparr>uh_healthyThreshold := max ht (uh_healthyThreshold st),
                             uh_unhealthyThreshold := max ut (uh_unhealthyThreshold st)\<rparr>)
         | None \<Rightarrow> r(key \<mapsto> \<lparr>uh_healthy = True, uh_consecutiveSuccess = 0, uh_consecutiveFailure = 0,
                             uh_healthyThreshold = ht, uh_unhealthyThreshold = ut\<rparr>))"

definition NewHealthRegistry :: "url_lib \<Rightarrow> SiteConfig list \<Rightarrow> HealthRegistry" where
  "NewHealthRegistry ul sites =
     fold (\<lambda>site. fold (\<lambda>up. addUpstream (siteHealthKey ul (site_ID site) (up_Address up)) (site_HealthCheck site))
             (site_Upstreams site)) sites Map.empty"

definition updateHealth :: "upstreamHealthState \<Rightarrow> bool \<Rightarrow> upstreamHealthState" where
  "updateHealth st healthy =
     (if healthy then
        let st1 = st\<lparr>uh_consecutiveFailure := 0, uh_consecutiveSuccess := uh_consecutiveSuccess st + 1\<rparr>
        in if uh_consecutiveSuccess st1 \<ge> uh_healthyThreshold st1 then st1\<lparr>uh_healthy := True\<rparr> else st1
      else
        let st1 = st\<lparr>uh_consecutiveSuccess := 0, uh_consecutiveFailure := uh_consecutiveFailure st + 1\<rparr>
        in if uh_consecutiveFailure st1 \<ge> uh_unhealthyThreshold st1 then st1\<lparr>uh_healthy := False\<rparr> else st1)"

definition HealthyForSite :: "url_lib \<Rightarrow> string \<Rightarrow> string \<Rightarrow> HealthRegistry option \<Rightarrow> bool" where
  "HealthyForSite ul siteID address r =
     (case r of None \<Rightarrow> True
      | Some m \<Rightarrow> (case m (siteHealthKey ul siteID address) of None \<Rightarrow> True | Some st \<Rightarrow> uh_healthy st))"

definition SetForSite :: "url_lib \<Rightarrow> string \<Rightarrow> string \<Rightarrow> bool \<Rightarrow> HealthRegistry \<Rightarrow> HealthRegistry" where
  "SetForSite ul siteID address healthy r =
     (let key = siteHealthKey ul siteID address in
      case r key of None \<Rightarrow> r | Some st \<Rightarrow> r(key \<mapsto> updateHealth st healthy))"

text \<open>\<open>Set\<close> addresses every site's entry of an upstream.\<close>

definition names_upstream :: "url_lib \<Rightarrow> string \<Rightarrow> string \<Rightarrow> bool" where
  "names_upstream ul address key \<longleftrightarrow> key = normalizeUpstream ul address
     \<or> has_suffix key ([CHR 0x00] @ normalizeUpstream ul address)"

definition registry_Set :: "url_lib \<Rightarrow> string \<Rightarrow> bool \<Rightarrow> HealthRegistry \<Rightarrow> HealthRegistry" where
  "registry_Set ul address healthy r =
     (\<lambda>key. case r key of None \<Rightarrow> None
      | Some st \<Rightarrow> Some (if names_upstream ul address key then updateHealth st healthy else st))"

definition registry_UpdateSites :: "url_lib \<Rightarrow> SiteConfig list \<Rightarrow> HealthRegistry \<Rightarrow> HealthRegistry" where
  "registry_UpdateSites ul sites r =
     (let nxt = NewHealthRegistry ul sites in
      (\<lambda>key. case nxt key of None \<Rightarrow> None
       | Some configured \<Rightarrow>
           (case r key of
              None \<Rightarrow> Some configured
            | Some current \<Rightarrow> Some (current\<lparr>uh_healthyThreshold := uh_healthyThreshold configured,
                uh_unhealthyThreshold := uh_unhealthyThreshold configured\<rparr>))))"

text \<open>
  One probe of \<open>checkContext\<close>, from the moment the response or error is there:
  \<open>resp\<close> is the status code or none for an error; a cancelled context reports nothing.
\<close>

datatype probe_result = BadTarget | BadRequest | ProbeError | ProbeStatus int

definition web_socket_address :: "url_lib \<Rightarrow> string \<Rightarrow> bool" where
  "web_socket_address ul address =
     (case ul_Parse ul (trim_space address) of
        None \<Rightarrow> False
      | Some u \<Rightarrow> to_lower (url_Scheme u) \<in> {''ws'', ''wss''})"

definition checkUpstream ::
    "url_lib \<Rightarrow> string \<Rightarrow> string \<Rightarrow> probe_result \<Rightarrow> bool \<Rightarrow> HealthRegistry \<Rightarrow> HealthRegistry" where
  "checkUpstream ul siteID address res cancelled r =
     (if cancelled then r
      else case res of
        BadTarget \<Rightarrow> SetForSite ul siteID address False r
      | BadRequest \<Rightarrow> if web_socket_address ul address then SetForSite ul siteID address False r else r
      | ProbeError \<Rightarrow> SetForSite ul siteID address False r
      | ProbeStatus code \<Rightarrow> SetForSite ul siteID address
          (if web_socket_address ul address then code = 101 else 200 \<le> code \<and> code < 400) r)"

subsection \<open>The balancer\<close>

record LoadBalancer =
  lb_next :: "string \<rightharpoonup> u64"
  lb_inflight :: "string \<rightharpoonup> nat"
  lb_sites :: "SiteConfig list"
  lb_byHost :: "string \<rightharpoonup> SiteConfig"
  lb_health :: "HealthRegistry option"

definition index_domain :: "SiteConfig \<Rightarrow> string \<Rightarrow> (string \<rightharpoonup> SiteConfig) \<Rightarrow> (string \<rightharpoonup> SiteConfig)" where
  "index_domain site domain idx =
     (let key = normalizeRequestHost domain in
      if key = [] then idx else if idx key = None then idx(key \<mapsto> site) else idx)"

definition rebuildHostIndexLocked :: "SiteConfig list \<Rightarrow> (string \<rightharpoonup> SiteConfig)" where
  "rebuildHostIndexLocked sites =
     fold (\<lambda>site idx. if \<not> site_Enabled site then idx
             else fold (index_domain site) (site_Domains site) idx) sites Map.empty"

definition NewLoadBalancer :: "SiteConfig list \<Rightarrow> LoadBalancer" where
  "NewLoadBalancer sites = \<lparr>lb_next = Map.empty, lb_inflight = Map.empty, lb_sites = sites,
     lb_byHost = rebuildHostIndexLocked sites, lb_health = None\<rparr>"

definition WithHealth :: "HealthRegistry option \<Rightarrow> LoadBalancer \<Rightarrow> LoadBalancer" where
  "WithHealth health lb = lb\<lparr>lb_health := health\<rparr>"

definition lb_UpdateSites :: "SiteConfig list \<Rightarrow> HealthRegistry option \<Rightarrow> LoadBalancer \<Rightarrow> LoadBalancer" where
  "lb_UpdateSites sites health lb = lb\<lparr>lb_sites := sites, lb_health := health, lb_next := Map.empty,
     lb_inflight := Map.empty, lb_byHost := rebuildHostIndexLocked sites\<rparr>"

definition SiteForHost :: "string \<Rightarrow> LoadBalancer \<Rightarrow> SiteConfig" where
  "SiteForHost host0 lb =
     (let host = normalizeRequestHost host0 in
      case lb_byHost lb host of
        Some site \<Rightarrow> site
      | None \<Rightarrow>
          (case first_index (CHR ''.'') host of
             None \<Rightarrow> empty_SiteConfig
           | Some dot \<Rightarrow>
               if dot > 0 then
                 (case lb_byHost lb (CHR ''*'' # drop dot host) of
                    Some site \<Rightarrow> site | None \<Rightarrow> empty_SiteConfig)
               else empty_SiteConfig))"

definition healthyUpstreams :: "url_lib \<Rightarrow> SiteConfig \<Rightarrow> LoadBalancer \<Rightarrow> UpstreamConfig list" where
  "healthyUpstreams ul site lb =
     (let out = filter (\<lambda>up. HealthyForSite ul (site_ID site) (up_Address up) (lb_health lb)) (site_Upstreams site)
      in if out = [] \<and> site_Upstreams site \<noteq> [] then site_Upstreams site else out)"

definition normalizedWeight :: "int \<Rightarrow> u64" where
  "normalizedWeight weight = (if weight \<le> 0 then 1 else of_int weight)"

text \<open>\<open>hash/fnv\<close>, the 64-bit FNV-1a hash.\<close>

definition fnv_step :: "u64 \<Rightarrow> char \<Rightarrow> u64" where
  "fnv_step h c = (xor h (of_int (byte c))) * 1099511628211"

definition fnv64a :: "string \<Rightarrow> u64" where
  "fnv64a s = foldl fnv_step 14695981039346656037 s"

definition rendezvousScore :: "url_lib \<Rightarrow> string \<Rightarrow> string \<Rightarrow> u64" where
  "rendezvousScore ul clientIP address = fnv64a (clientIP @ [CHR 0x00] @ normalizeUpstream ul address)"

text \<open>
  The loops of \<open>ipHashIndex\<close> and \<open>leastConnIndex\<close>: keep the best index so far
  and move only to a strictly better candidate.
\<close>

fun best_from :: "('a \<Rightarrow> 'k) \<Rightarrow> ('k \<Rightarrow> 'k \<Rightarrow> bool) \<Rightarrow> nat \<Rightarrow> nat \<Rightarrow> 'k \<Rightarrow> 'a list \<Rightarrow> nat" where
  "best_from score better i best bestScore [] = best"
| "best_from score better i best bestScore (c # cs) =
     (if better (score c) bestScore then best_from score better (i + 1) i (score c) cs
      else best_from score better (i + 1) best bestScore cs)"

definition ipHashIndex :: "url_lib \<Rightarrow> string \<Rightarrow> UpstreamConfig list \<Rightarrow> nat" where
  "ipHashIndex ul clientIP cs =
     (case cs of [] \<Rightarrow> 0
      | c # rest \<Rightarrow> best_from (\<lambda>c. rendezvousScore ul clientIP (up_Address c)) (>) 1 0
                       (rendezvousScore ul clientIP (up_Address c)) rest)"

definition inflightLocked :: "url_lib \<Rightarrow> string \<Rightarrow> LoadBalancer \<Rightarrow> nat" where
  "inflightLocked ul address lb = lookup_or 0 (lb_inflight lb) (normalizeUpstream ul address)"

definition leastConnIndex :: "url_lib \<Rightarrow> UpstreamConfig list \<Rightarrow> LoadBalancer \<Rightarrow> nat" where
  "leastConnIndex ul cs lb =
     (case cs of [] \<Rightarrow> 0
      | c # rest \<Rightarrow> best_from (\<lambda>c. inflightLocked ul (up_Address c) lb) (<) 1 0
                       (inflightLocked ul (up_Address c) lb) rest)"

definition round_robin :: "string \<Rightarrow> nat \<Rightarrow> LoadBalancer \<Rightarrow> nat \<times> LoadBalancer" where
  "round_robin siteID n lb =
     (let index = unat (lookup_or 0 (lb_next lb) siteID mod of_nat n)
      in (index, lb\<lparr>lb_next := (lb_next lb)(siteID \<mapsto> of_nat (index + 1))\<rparr>))"

fun weighted_index :: "u64 \<Rightarrow> u64 \<Rightarrow> nat \<Rightarrow> UpstreamConfig list \<Rightarrow> nat" where
  "weighted_index cursor cumulative i [] = 0"
| "weighted_index cursor cumulative i (c # cs) =
     (let cumulative' = cumulative + normalizedWeight (up_Weight c) in
      if cursor < cumulative' then i else weighted_index cursor cumulative' (i + 1) cs)"

definition total_weight :: "UpstreamConfig list \<Rightarrow> u64" where
  "total_weight cs = foldl (\<lambda>t c. t + normalizedWeight (up_Weight c)) 0 cs"

datatype lb_error = ErrNoUpstream | ErrURLParse

definition pickIndex ::
    "url_lib \<Rightarrow> SiteConfig \<Rightarrow> string \<Rightarrow> UpstreamConfig list \<Rightarrow> LoadBalancer \<Rightarrow> (lb_error + nat) \<times> LoadBalancer" where
  "pickIndex ul site clientIP cs lb =
     (let mode = to_lower (trim_space (site_LoadBalance site)) in
      if mode = ''weighted'' then
        (let w = total_weight cs in
         if w = 0 then (Inl ErrNoUpstream, lb)
         else let cursor = lookup_or 0 (lb_next lb) (site_ID site) mod w
              in (Inr (weighted_index cursor 0 0 cs),
                  lb\<lparr>lb_next := (lb_next lb)(site_ID site \<mapsto> cursor + 1)\<rparr>))
      else if mode = ''ip_hash'' \<and> clientIP \<noteq> [] then (Inr (ipHashIndex ul clientIP cs), lb)
      else if mode = ''least_conn'' then (Inr (leastConnIndex ul cs lb), lb)
      else map_prod Inr id (round_robin (site_ID site) (length cs) lb))"

definition nextExcluding ::
    "url_lib \<Rightarrow> SiteConfig \<Rightarrow> string \<Rightarrow> string set \<Rightarrow> LoadBalancer \<Rightarrow> (lb_error + url) \<times> LoadBalancer" where
  "nextExcluding ul site clientIP skip lb =
     (let cs = filter (\<lambda>c. normalizeUpstream ul (up_Address c) \<notin> skip) (healthyUpstreams ul site lb) in
      if cs = [] then (Inl ErrNoUpstream, lb)
      else case pickIndex ul site clientIP cs lb of
        (Inl e, lb') \<Rightarrow> (Inl e, lb')
      | (Inr index, lb') \<Rightarrow>
          (case ul_Parse ul (normalizeUpstream ul (up_Address (cs ! index))) of
             None \<Rightarrow> (Inl ErrURLParse, lb')
           | Some u \<Rightarrow> (Inr u, lb')))"

definition lb_Next ::
    "url_lib \<Rightarrow> SiteConfig \<Rightarrow> string \<Rightarrow> LoadBalancer \<Rightarrow> (lb_error + url) \<times> LoadBalancer" where
  "lb_Next ul site clientIP lb = nextExcluding ul site clientIP {} lb"

definition upstreamKeyFromURL :: "url_lib \<Rightarrow> url \<Rightarrow> string" where
  "upstreamKeyFromURL ul target =
     (let host = trim_space (url_Host target); scheme = trim_space (url_Scheme target) in
      if host = [] then []
      else normalizeUpstream ul ((if scheme = [] then ''http'' else scheme) @ ''://'' @ host))"

text \<open>\<open>Track\<close>, and the function it returns.\<close>

definition Track :: "url_lib \<Rightarrow> url \<Rightarrow> LoadBalancer \<Rightarrow> LoadBalancer" where
  "Track ul target lb =
     (let key = upstreamKeyFromURL ul target in
      if key = [] then lb
      else lb\<lparr>lb_inflight := (lb_inflight lb)(key \<mapsto> lookup_or 0 (lb_inflight lb) key + 1)\<rparr>)"

definition track_release :: "url_lib \<Rightarrow> url \<Rightarrow> LoadBalancer \<Rightarrow> LoadBalancer" where
  "track_release ul target lb =
     (let key = upstreamKeyFromURL ul target; n = lookup_or 0 (lb_inflight lb) key in
      if key = [] then lb
      else if n > 1 then lb\<lparr>lb_inflight := (lb_inflight lb)(key \<mapsto> n - 1)\<rparr>
      else lb\<lparr>lb_inflight := (lb_inflight lb)(key := None)\<rparr>)"

subsection \<open>Failover\<close>

text \<open>
  An error of one attempt: whether it wraps a DNS or socket error, its text, whether a
  tampered response or an oversized body caused it.
\<close>

record proxy_error =
  pe_net :: bool
  pe_text :: string
  pe_tampered :: bool
  pe_tooLarge :: bool

definition isConnectionRefused :: "proxy_error \<Rightarrow> bool" where
  "isConnectionRefused e = contains (to_lower (pe_text e)) ''connection refused''"

definition isUpstreamConnectError :: "proxy_error \<Rightarrow> bool" where
  "isUpstreamConnectError e \<longleftrightarrow> pe_net e
     \<or> list_ex (contains (to_lower (pe_text e)))
         [''connection refused'', ''connection reset'', ''no such host'', ''i/o timeout'',
          ''network is unreachable'', ''broken pipe'', ''tls handshake timeout'']"

definition shouldRetryUpstream :: "proxy_error \<Rightarrow> bool \<Rightarrow> bool" where
  "shouldRetryUpstream e retrySafe \<longleftrightarrow> isConnectionRefused e \<or> retrySafe \<and> isUpstreamConnectError e"

definition markUpstream :: "url_lib \<Rightarrow> url \<Rightarrow> bool \<Rightarrow> LoadBalancer \<Rightarrow> LoadBalancer" where
  "markUpstream ul target healthy lb =
     lb\<lparr>lb_health := map_option (registry_Set ul (upstreamKeyFromURL ul target) healthy) (lb_health lb)\<rparr>"

definition markUpstreamForSite :: "url_lib \<Rightarrow> string \<Rightarrow> url \<Rightarrow> bool \<Rightarrow> LoadBalancer \<Rightarrow> LoadBalancer" where
  "markUpstreamForSite ul siteID target healthy lb =
     lb\<lparr>lb_health := map_option (SetForSite ul siteID (upstreamKeyFromURL ul target) healthy) (lb_health lb)\<rparr>"

record http_request =
  hr_Method :: string
  hr_ContentLength :: int
  hr_NoBody :: bool

definition retrySafeRequest :: "http_request \<Rightarrow> bool" where
  "retrySafeRequest r \<longleftrightarrow> (hr_Method r = ''GET'' \<or> hr_Method r = ''HEAD'')
     \<and> hr_ContentLength r = 0 \<and> hr_NoBody r"

datatype forward_result =
    Forwarded | NoUpstream "lb_error + proxy_error" | Tampered | BodyTooLarge | ProxyFailed "proxy_error option"

text \<open>
  The forwarding loop: \<open>attempt i\<close> is what the i-th proxied attempt ended in, no error or
  an error and whether bytes of a response had been written. Other requests use the balancer
  meanwhile: \<open>others i k\<close> is what they do to it during the i-th attempt, before \<open>Track\<close>
  (\<open>k = 0\<close>), while the request is proxied (1), between \<open>release\<close> and the health report (2)
  and after it (3). The third result lists the targets tried.
\<close>

fun forward_loop ::
    "url_lib \<Rightarrow> SiteConfig \<Rightarrow> string \<Rightarrow> bool \<Rightarrow> (nat \<Rightarrow> (proxy_error \<times> bool) option)
       \<Rightarrow> (nat \<Rightarrow> nat \<Rightarrow> LoadBalancer \<Rightarrow> LoadBalancer) \<Rightarrow> nat \<Rightarrow> nat
       \<Rightarrow> string set \<Rightarrow> proxy_error option \<Rightarrow> LoadBalancer \<Rightarrow> forward_result \<times> LoadBalancer \<times> url list" where
  "forward_loop ul site clientIP retrySafe attempt others 0 i skip lastErr lb = (ProxyFailed lastErr, lb, [])"
| "forward_loop ul site clientIP retrySafe attempt others (Suc k) i skip lastErr lb =
     (case nextExcluding ul site clientIP skip lb of
        (Inl e, lb1) \<Rightarrow> (NoUpstream (case lastErr of None \<Rightarrow> Inl e | Some l \<Rightarrow> Inr l), lb1, [])
      | (Inr target, lb1) \<Rightarrow>
          let lb2 = others i 2 (track_release ul target (others i 1 (Track ul target (others i 0 lb1)))) in
          (case attempt i of
             None \<Rightarrow> (Forwarded, markUpstreamForSite ul (site_ID site) target True lb2, [target])
           | Some (err, wrote) \<Rightarrow>
               let lb3 = (if isUpstreamConnectError err
                          then markUpstreamForSite ul (site_ID site) target False lb2 else lb2) in
               if pe_tampered err then (Tampered, lb3, [target])
               else if pe_tooLarge err then (BodyTooLarge, lb3, [target])
               else if wrote \<or> \<not> shouldRetryUpstream err retrySafe
               then (ProxyFailed (Some err), lb3, [target])
               else (case forward_loop ul site clientIP retrySafe attempt others k (i + 1)
                            (insert (upstreamKeyFromURL ul target) skip) (Some err) (others i 3 lb3) of
                       (res, lb4, ts) \<Rightarrow> (res, lb4, target # ts))))"

definition forward_attempts ::
    "url_lib \<Rightarrow> SiteConfig \<Rightarrow> string \<Rightarrow> bool \<Rightarrow> (nat \<Rightarrow> (proxy_error \<times> bool) option)
       \<Rightarrow> (nat \<Rightarrow> nat \<Rightarrow> LoadBalancer \<Rightarrow> LoadBalancer) \<Rightarrow> LoadBalancer \<Rightarrow> forward_result \<times> LoadBalancer \<times> url list" where
  "forward_attempts ul site clientIP retrySafe attempt others lb =
     forward_loop ul site clientIP retrySafe attempt others (max 1 (length (site_Upstreams site))) 0 {} None lb"

end
