(* ===== verification/LB_Properties.thy ===== *)
theory LB_Properties
  imports Load_Balancer
begin

text \<open>
  Properties of the load balancer: which site a host gets, the shares of the candidates under
  round robin and weights, the stability of address hashing, the accounting of requests in
  flight, the thresholds of the health registry, and the bounds of failover.
\<close>

subsection \<open>Hosts\<close>

definition serves :: "string \<Rightarrow> SiteConfig \<Rightarrow> bool" where
  "serves key site \<longleftrightarrow> site_Enabled site \<and> key \<in> normalizeRequestHost ` set (site_Domains site)"

lemma index_domains:
  "fold (index_domain site) ds idx key =
     (case idx key of Some s \<Rightarrow> Some s
      | None \<Rightarrow> if key \<noteq> [] \<and> key \<in> normalizeRequestHost ` set ds then Some site else None)"
  by (induction ds arbitrary: idx) (auto simp: index_domain_def Let_def split: option.splits)

lemma index_sites:
  "fold (\<lambda>site idx. if \<not> site_Enabled site then idx else fold (index_domain site) (site_Domains site) idx) sites idx key
     = (case idx key of Some s \<Rightarrow> Some s | None \<Rightarrow> if key = [] then None else find (serves key) sites)"
proof (induction sites arbitrary: idx)
  case (Cons site sites)
  show ?case
    by (simp add: Cons index_domains serves_def split: option.split)
qed (simp split: option.split)

lemma host_index: "rebuildHostIndexLocked sites key = (if key = [] then None else find (serves key) sites)"
  unfolding rebuildHostIndexLocked_def index_sites by simp

lemma find_serves:
  "find (serves key) sites = Some s \<Longrightarrow>
     s \<in> set sites \<and> site_Enabled s \<and> (\<exists>d\<in>set (site_Domains s). normalizeRequestHost d = key)"
  by (auto simp: find_Some_iff serves_def)

text \<open>The linear scan over the sites that the index stands for.\<close>

definition scan_site :: "SiteConfig list \<Rightarrow> string \<Rightarrow> SiteConfig option" where
  "scan_site sites host =
     (case (if host = [] then None else find (serves host) sites) of
        Some s \<Rightarrow> Some s
      | None \<Rightarrow> (case first_index (CHR ''.'') host of
           Some (Suc d) \<Rightarrow> find (serves (CHR ''*'' # drop (Suc d) host)) sites
         | _ \<Rightarrow> None))"

definition indexed :: "LoadBalancer \<Rightarrow> bool" where
  "indexed lb \<longleftrightarrow> lb_byHost lb = rebuildHostIndexLocked (lb_sites lb)"

lemma indexed_ops [simp]:
  "indexed (NewLoadBalancer sites)" "indexed (lb_UpdateSites sites health lb)"
  "indexed (WithHealth h lb) = indexed lb"
  "indexed (Track ul u lb) = indexed lb" "indexed (track_release ul u lb) = indexed lb"
  "indexed (markUpstreamForSite ul i u b lb) = indexed lb"
  by (simp_all add: indexed_def NewLoadBalancer_def lb_UpdateSites_def WithHealth_def Track_def
      track_release_def markUpstreamForSite_def Let_def)

text \<open>
  A host is served by the first enabled site one of whose domains normalises to it, else by
  the first one with the wildcard of its parent domain, else by no site: the host index
  answers exactly like the linear scan, so no request reaches a disabled site or a site that
  does not name its host.
\<close>

theorem host_site_is_first_match:
  assumes "indexed lb"
  shows "SiteForHost host lb
    = (case scan_site (lb_sites lb) (normalizeRequestHost host) of None \<Rightarrow> empty_SiteConfig | Some s \<Rightarrow> s)
    \<and> (SiteForHost host lb = empty_SiteConfig
       \<or> SiteForHost host lb \<in> set (lb_sites lb) \<and> site_Enabled (SiteForHost host lb)
         \<and> (\<exists>d\<in>set (site_Domains (SiteForHost host lb)). normalizeRequestHost d = normalizeRequestHost host
              \<or> (\<exists>k. normalizeRequestHost d = CHR ''*'' # drop k (normalizeRequestHost host))))"
proof
  let ?h = "normalizeRequestHost host"
  show eq: "SiteForHost host lb = (case scan_site (lb_sites lb) ?h of None \<Rightarrow> empty_SiteConfig | Some s \<Rightarrow> s)"
    using assms unfolding SiteForHost_def scan_site_def indexed_def Let_def
    by (auto simp: host_index split: option.split nat.split)
  have found: "s \<in> set (lb_sites lb) \<and> site_Enabled s
      \<and> (\<exists>d\<in>set (site_Domains s). normalizeRequestHost d = ?h \<or> (\<exists>k. normalizeRequestHost d = CHR ''*'' # drop k ?h))"
    if "scan_site (lb_sites lb) ?h = Some s" for s
  proof -
    have "find (serves ?h) (lb_sites lb) = Some s \<or> (\<exists>k. find (serves (CHR ''*'' # drop k ?h)) (lb_sites lb) = Some s)"
      using that unfolding scan_site_def by (auto split: option.splits if_splits nat.splits)
    then show ?thesis using find_serves by metis
  qed
  show "SiteForHost host lb = empty_SiteConfig
       \<or> SiteForHost host lb \<in> set (lb_sites lb) \<and> site_Enabled (SiteForHost host lb)
         \<and> (\<exists>d\<in>set (site_Domains (SiteForHost host lb)). normalizeRequestHost d = ?h
              \<or> (\<exists>k. normalizeRequestHost d = CHR ''*'' # drop k ?h))"
    unfolding eq using found by (cases "scan_site (lb_sites lb) ?h") auto
qed

definition ex_site :: SiteConfig where
  "ex_site = \<lparr>site_ID = ''s1'', site_Domains = [''*.Example.com''],
     site_Upstreams = [\<lparr>up_Address = ''a'', up_Weight = 2\<rparr>, \<lparr>up_Address = ''b'', up_Weight = 1\<rparr>],
     site_LoadBalance = ''weighted'',
     site_HealthCheck = \<lparr>hc_Enabled = True, hc_HealthyThreshold = 2, hc_UnhealthyThreshold = 3\<rparr>,
     site_Enabled = True\<rparr>"

theorem host_site_is_first_match_witness:
  "indexed (NewLoadBalancer [ex_site]) \<and> SiteForHost ''WWW.example.com:8080'' (NewLoadBalancer [ex_site])
     = (case scan_site [ex_site] ''www.example.com'' of None \<Rightarrow> empty_SiteConfig | Some s \<Rightarrow> s)
   \<and> scan_site [ex_site] ''www.example.com'' = Some ex_site"
proof -
  have "normalizeRequestHost ''WWW.example.com:8080'' = ''www.example.com''" by code_simp
  moreover have "scan_site [ex_site] ''www.example.com'' = Some ex_site" by code_simp
  moreover have "lb_sites (NewLoadBalancer [ex_site]) = [ex_site]" by (simp add: NewLoadBalancer_def)
  ultimately show ?thesis
    using host_site_is_first_match[of "NewLoadBalancer [ex_site]" "''WWW.example.com:8080''"] by simp
qed

text \<open>A trailing dot is dropped from a bare host, but not from a host with a port.\<close>

lemma trailing_dot_with_port:
  "normalizeRequestHost ''example.com.'' = ''example.com''"
  "normalizeRequestHost ''example.com.:80'' = ''example.com.''"
  by code_simp+

subsection \<open>Cursors\<close>

text \<open>
  Round robin and weights share one discipline: the stored counter is read modulo a bound and
  replaced by the reading plus one. Whatever it held before, consecutive readings run
  cyclically through the residues.
\<close>

locale cyclic_cursor =
  fixes bound :: u64 and cur :: "'s \<Rightarrow> u64" and advance :: "'s \<Rightarrow> 's"
  assumes advance_cur: "cur (advance s) = cur s mod bound + 1"
begin

lemma advance_unat:
  assumes "bound \<noteq> 0"
  shows "unat (cur (advance s)) = unat (cur s) mod unat bound + 1"
proof -
  have unat_bound_pos: "0 < unat bound" using assms by (simp add: unat_gt_0)
  have "unat (cur s) mod unat bound < unat bound" using unat_bound_pos by simp
  moreover have "unat bound < 2 ^ 64" using unsigned_less[of bound] by simp
  ultimately have lt: "unat (cur s mod bound) + 1 < 2 ^ 64" unfolding unat_mod by linarith
  have "unat (cur s mod bound + 1) = (unat (cur s mod bound) + 1) mod 2 ^ 64"
    by (simp add: unat_word_ariths(1))
  also have "\<dots> = unat (cur s mod bound) + 1" using lt by (rule mod_less)
  finally show ?thesis by (simp add: advance_cur unat_mod)
qed

lemma reading:
  assumes "bound \<noteq> 0"
  shows "unat (cur ((advance ^^ k) s) mod bound) = (unat (cur s) + k) mod unat bound"
proof (induction k)
  case (Suc k)
  have "unat (cur ((advance ^^ Suc k) s)) = (unat (cur s) + k) mod unat bound + 1"
    using Suc advance_unat[OF assms, of "(advance ^^ k) s"] by (simp add: unat_mod)
  then show ?case by (simp add: unat_mod mod_Suc_eq)
qed (simp add: unat_mod)

text \<open>Every residue is read exactly once in one round.\<close>

lemma round_covers:
  assumes "bound \<noteq> 0"
  shows "bij_betw (\<lambda>k. unat (cur ((advance ^^ k) s) mod bound)) {..<unat bound} {..<unat bound}"
  unfolding reading[OF assms]
proof -
  have unat_bound_pos: "0 < unat bound" using assms by (simp add: unat_gt_0)
  let ?n = "unat bound" and ?a = "unat (cur s)"
  let ?f = "\<lambda>k. (?a + k) mod ?n"
  have "r \<in> ?f ` {..<?n}" if "r < ?n" for r
  proof -
    let ?k = "(r + (?n - ?a mod ?n)) mod ?n"
    define q m where "q = ?a div ?n" and "m = ?a mod ?n"
    have le: "m \<le> ?n" using unat_bound_pos by (simp add: m_def less_imp_le)
    have am: "?a = ?n * q + m" by (simp add: q_def m_def)
    have "?f ?k = (?a + (r + (?n - ?a mod ?n))) mod ?n" by (simp add: mod_add_right_eq)
    also have "?a + (r + (?n - ?a mod ?n)) = r + ?n * (q + 1)"
      unfolding m_def[symmetric] using le am by (simp add: distrib_left)
    also have "(r + ?n * (q + 1)) mod ?n = r" using that by (simp only: mod_mult_self2 mod_less)
    finally show ?thesis using unat_bound_pos by (intro image_eqI[of _ _ ?k]) simp_all
  qed
  then have "{..<?n} \<subseteq> ?f ` {..<?n}" by blast
  moreover have "?f ` {..<?n} \<subseteq> {..<?n}" using unat_bound_pos by auto
  ultimately have eq: "?f ` {..<?n} = {..<?n}" by blast
  then have "inj_on ?f {..<?n}" by (intro eq_card_imp_inj_on) simp_all
  then show "bij_betw ?f {..<?n} {..<?n}" using eq by (simp add: bij_betw_def)
qed

end

definition cursor_of :: "string \<Rightarrow> LoadBalancer \<Rightarrow> u64" where
  "cursor_of siteID lb = lookup_or 0 (lb_next lb) siteID"

definition advance_cursor :: "string \<Rightarrow> u64 \<Rightarrow> LoadBalancer \<Rightarrow> LoadBalancer" where
  "advance_cursor siteID bound lb =
     lb\<lparr>lb_next := (lb_next lb)(siteID \<mapsto> cursor_of siteID lb mod bound + 1)\<rparr>"

interpretation lbc: cyclic_cursor bound "cursor_of siteID" "advance_cursor siteID bound" for bound siteID
  by unfold_locales (simp add: cursor_of_def advance_cursor_def)

text \<open>Counting the readings of one round that a chooser sends to one index.\<close>

lemma round_share:
  assumes "bound \<noteq> 0"
  shows "length (filter (\<lambda>j. j = i) (map (\<lambda>k. f (cursor_of sid ((advance_cursor sid bound ^^ k) lb) mod bound)) [0..<unat bound]))
     = card {c. c < unat bound \<and> f (of_nat c) = i}"
proof -
  let ?g = "\<lambda>k. unat (cursor_of sid ((advance_cursor sid bound ^^ k) lb) mod bound)"
  have bij: "bij_betw ?g {..<unat bound} {..<unat bound}" by (rule lbc.round_covers[OF assms])
  have "length (filter (\<lambda>j. j = i) (map (\<lambda>k. f (cursor_of sid ((advance_cursor sid bound ^^ k) lb) mod bound)) [0..<unat bound]))
      = card {k. k < unat bound \<and> f (of_nat (?g k)) = i}"
    by (simp add: filter_map o_def length_filter_conv_card cong: conj_cong)
  also have "\<dots> = card (?g ` {k. k < unat bound \<and> f (of_nat (?g k)) = i})"
    using bij by (intro card_image[symmetric]) (auto simp: bij_betw_def intro: inj_on_subset)
  also have "?g ` {k. k < unat bound \<and> f (of_nat (?g k)) = i} = {c. c < unat bound \<and> f (of_nat c) = i}"
    using bij unfolding bij_betw_def by (auto simp del: of_nat_unat)
  finally show ?thesis .
qed

subsection \<open>Weighted and plain round robin\<close>

abbreviation weight_of :: "UpstreamConfig \<Rightarrow> nat" where
  "weight_of c \<equiv> unat (normalizedWeight (up_Weight c))"

abbreviation weights :: "UpstreamConfig list \<Rightarrow> nat" where
  "weights cs \<equiv> sum_list (map weight_of cs)"

lemma total_weight_nat: "total_weight cs = of_nat (weights cs)"
proof -
  have "foldl (\<lambda>t c. t + normalizedWeight (up_Weight c)) t cs = t + of_nat (weights cs)" for t
    by (induction cs arbitrary: t) (simp_all add: algebra_simps)
  then show ?thesis by (simp add: total_weight_def)
qed

lemma weighted_index_interval:
  assumes "unat cumulative + weights cs < 2 ^ 64" "cumulative \<le> cursor"
    "unat cursor < unat cumulative + weights cs"
  shows "\<exists>j<length cs. weighted_index cursor cumulative i cs = i + j
     \<and> unat cumulative + weights (take j cs) \<le> unat cursor
     \<and> unat cursor < unat cumulative + weights (take (Suc j) cs)"
  using assms
proof (induction cs arbitrary: cumulative i)
  case (Cons c cs)
  let ?cum = "cumulative + normalizedWeight (up_Weight c)"
  have cum: "unat ?cum = unat cumulative + weight_of c"
    using Cons.prems(1) by (simp add: unat_word_ariths)
  show ?case
  proof (cases "cursor < ?cum")
    case True
    then have "unat cursor < unat cumulative + weight_of c" using cum by (simp add: word_less_nat_alt)
    then show ?thesis using True Cons.prems(2) by (intro exI[of _ 0]) (simp add: word_le_nat_alt)
  next
    case False
    have "unat ?cum + weights cs < 2 ^ 64" "?cum \<le> cursor" "unat cursor < unat ?cum + weights cs"
      using Cons.prems False by (simp_all add: cum not_less)
    from Cons.IH[OF this, of "i + 1"] obtain j where "j < length cs"
      "weighted_index cursor ?cum (i + 1) cs = i + 1 + j" "unat ?cum + weights (take j cs) \<le> unat cursor"
      "unat cursor < unat ?cum + weights (take (Suc j) cs)" by blast
    then show ?thesis using False by (intro exI[of _ "Suc j"]) (simp add: cum add.assoc)
  qed
qed (simp add: word_le_nat_alt)

lemma weights_take_mono: "i \<le> j \<Longrightarrow> weights (take i cs) \<le> weights (take j cs)"
proof -
  assume "i \<le> j"
  then have "take j cs = take i cs @ take (j - i) (drop i cs)" by (metis le_add_diff_inverse take_add)
  then show ?thesis by simp
qed

lemma weighted_share:
  assumes "weights cs < 2 ^ 64" "i < length cs"
  shows "card {c. c < weights cs \<and> weighted_index (of_nat c) 0 0 cs = i} = weight_of (cs ! i)"
proof -
  have idx: "weighted_index (of_nat c) 0 0 cs = i
      \<longleftrightarrow> weights (take i cs) \<le> c \<and> c < weights (take (Suc i) cs)" if cw: "c < weights cs" for c
  proof -
    have "c < 2 ^ 64" using cw assms(1) by simp
    then have u: "unat (of_nat c :: u64) = c" by (simp add: unat_of_nat)
    obtain j where j: "j < length cs" "weighted_index (of_nat c) 0 0 cs = j"
      "weights (take j cs) \<le> c" "c < weights (take (Suc j) cs)"
      using weighted_index_interval[of 0 cs "of_nat c" 0] assms(1) cw u by auto
    show ?thesis
    proof
      assume i: "weights (take i cs) \<le> c \<and> c < weights (take (Suc i) cs)"
      have "\<not> Suc i \<le> j" using i j(3) weights_take_mono[of "Suc i" j cs] by linarith
      moreover have "\<not> Suc j \<le> i" using i j(4) weights_take_mono[of "Suc j" i cs] by linarith
      ultimately show "weighted_index (of_nat c) 0 0 cs = i" using j(2) by simp
    qed (use j in auto)
  qed
  have "weights (take (Suc i) cs) \<le> weights cs" using weights_take_mono[of "Suc i" "length cs" cs] assms(2) by simp
  then have eq: "{c. c < weights cs \<and> weighted_index (of_nat c) 0 0 cs = i}
      = {weights (take i cs)..<weights (take (Suc i) cs)}"
  proof (intro set_eqI)
    fix c
    show "c \<in> {c. c < weights cs \<and> weighted_index (of_nat c) 0 0 cs = i}
      \<longleftrightarrow> c \<in> {weights (take i cs)..<weights (take (Suc i) cs)}"
      using idx[of c] \<open>weights (take (Suc i) cs) \<le> weights cs\<close> by auto
  qed
  have "weights (take (Suc i) cs) = weights (take i cs) + weight_of (cs ! i)"
    using assms(2) by (simp add: take_Suc_conv_app_nth)
  then show ?thesis using eq by simp
qed

text \<open>The indices chosen by consecutive calls over unchanged candidates.\<close>

fun picks :: "url_lib \<Rightarrow> SiteConfig \<Rightarrow> string \<Rightarrow> UpstreamConfig list \<Rightarrow> nat \<Rightarrow> LoadBalancer \<Rightarrow> nat list" where
  "picks ul site ip cs 0 lb = []"
| "picks ul site ip cs (Suc n) lb =
     (case pickIndex ul site ip cs lb of
        (Inl e, lb') \<Rightarrow> []
      | (Inr j, lb') \<Rightarrow> j # picks ul site ip cs n lb')"

lemma picks_cursor:
  assumes "\<And>lb. pickIndex ul site ip cs lb
      = (Inr (f (cursor_of (site_ID site) lb mod bound)), advance_cursor (site_ID site) bound lb)"
  shows "picks ul site ip cs n lb = map (\<lambda>k. f (cursor_of (site_ID site)
      ((advance_cursor (site_ID site) bound ^^ k) lb) mod bound)) [0..<n]"
proof (induction n arbitrary: lb)
  case (Suc n)
  have "[0..<Suc n] = 0 # map Suc [0..<n]" by (simp add: map_Suc_upt upt_conv_Cons)
  then show ?case using assms Suc by (simp add: funpow_swap1 del: upt_Suc)
qed simp

lemma normalizedWeight_pos: "0 < weight_of c \<longleftrightarrow> normalizedWeight (up_Weight c) \<noteq> 0"
  by (simp add: unat_gt_0)

text \<open>
  C15: the shares are exact. Under the mode \<open>weighted\<close>, in every round of as many
  consecutive choices as the weights add up to (no overflow of 64 bits), each candidate is
  chosen exactly as often as its weight says, whatever the counter held before; in the modes
  that fall back to round robin each of the candidates is chosen exactly once per round.
\<close>

theorem weighted_shares_exact:
  assumes "weights cs < 2 ^ 64" "length cs < 2 ^ 64" "i < length cs"
  shows "(to_lower (trim_space (site_LoadBalance site)) = ''weighted'' \<longrightarrow>
       count_list (picks ul site ip cs (weights cs) lb) i = weight_of (cs ! i))
    \<and> (to_lower (trim_space (site_LoadBalance site)) \<notin> {''weighted'', ''ip_hash'', ''least_conn''} \<longrightarrow>
       count_list (picks ul site ip cs (length cs) lb) i = 1)"
proof (intro conjI impI)
  have count: "count_list xs i = length (filter (\<lambda>j. j = i) xs)" for xs :: "nat list"
    by (induction xs) auto
  {
    assume mode: "to_lower (trim_space (site_LoadBalance site)) = ''weighted''"
    show "count_list (picks ul site ip cs (weights cs) lb) i = weight_of (cs ! i)"
    proof (cases "weights cs = 0")
      case True
      then have "weight_of (cs ! i) = 0" using assms(3) by (simp add: sum_list_eq_0_iff)
      then show ?thesis by (simp only: True picks.simps count_list.simps)
    next
      case False
      have w: "unat (total_weight cs) = weights cs" "total_weight cs \<noteq> 0"
      proof -
        show u: "unat (total_weight cs) = weights cs" using assms(1) by (simp add: total_weight_nat unat_of_nat)
        show "total_weight cs \<noteq> 0" using u False by (metis unat_0)
      qed
      have "pickIndex ul site ip cs lb = (Inr (weighted_index (cursor_of (site_ID site) lb mod total_weight cs) 0 0 cs),
          advance_cursor (site_ID site) (total_weight cs) lb)" for lb
        using mode w(2) by (simp add: pickIndex_def Let_def cursor_of_def advance_cursor_def)
      note p = picks_cursor[where f = "\<lambda>c. weighted_index c 0 0 cs", OF this]
      show ?thesis using round_share[OF w(2), of i "\<lambda>c. weighted_index c 0 0 cs" "site_ID site" lb] weighted_share[OF assms(1,3)]
        unfolding count p w(1) by simp
    qed
  next
    assume mode: "to_lower (trim_space (site_LoadBalance site)) \<notin> {''weighted'', ''ip_hash'', ''least_conn''}"
    let ?n = "of_nat (length cs) :: u64"
    have n1: "unat ?n = length cs" using assms(2) by (simp add: unat_of_nat)
    then have "?n \<noteq> 0" using assms(3) by (metis unat_0 not_less_zero)
    note n = n1 this
    have "pickIndex ul site ip cs lb = (Inr (unat (cursor_of (site_ID site) lb mod ?n)), advance_cursor (site_ID site) ?n lb)" for lb
      using mode by (simp add: pickIndex_def Let_def round_robin_def cursor_of_def advance_cursor_def add.commute)
    note p = picks_cursor[where f = unat, OF this]
    have "{c. c < length cs \<and> unat (of_nat c :: u64) = i} = {i}" using assms(2,3) by (auto simp: unat_of_nat)
    then show "count_list (picks ul site ip cs (length cs) lb) i = 1"
      using round_share[OF n(2), of i unat "site_ID site" lb] unfolding count p n(1) by simp
  }
qed

theorem weighted_shares_exact_witness:
  "count_list (picks \<lparr>ul_Parse = (\<lambda>_. None), ul_String = (\<lambda>_. [])\<rparr> ex_site [] (site_Upstreams ex_site) 3
     (NewLoadBalancer [ex_site])) 0 = 2"
proof -
  have w: "weights (site_Upstreams ex_site) = 3" "length (site_Upstreams ex_site) = 2"
    "weight_of (site_Upstreams ex_site ! 0) = 2"
    "to_lower (trim_space (site_LoadBalance ex_site)) = ''weighted''"
    by code_simp+
  show ?thesis
    using weighted_shares_exact[of "site_Upstreams ex_site" 0 ex_site
        "\<lparr>ul_Parse = (\<lambda>_. None), ul_String = (\<lambda>_. [])\<rparr>" "[]" "NewLoadBalancer [ex_site]"]
    unfolding w by simp
qed

subsection \<open>Choosing the best candidate\<close>

text \<open>\<open>best_from\<close> finds the first candidate no other one beats.\<close>

lemma best_from_argbest:
  fixes score :: "'a \<Rightarrow> 'k :: linorder"
  assumes "better = (<) \<or> better = (>)" "best < length pre" "bestScore = score (pre ! best)"
    "\<forall>k<length pre. \<not> better (score (pre ! k)) bestScore"
    "\<forall>k<best. better bestScore (score (pre ! k))"
  shows "let j = best_from score better (length pre) best bestScore cs in
     j < length (pre @ cs)
     \<and> (\<forall>k<length (pre @ cs). \<not> better (score ((pre @ cs) ! k)) (score ((pre @ cs) ! j)))
     \<and> (\<forall>k<j. better (score ((pre @ cs) ! j)) (score ((pre @ cs) ! k)))"
  using assms
proof (induction cs arbitrary: pre best bestScore)
  case (Cons c cs)
  show ?case
  proof (cases "better (score c) bestScore")
    case True
    have "\<forall>k<length (pre @ [c]). \<not> better (score ((pre @ [c]) ! k)) (score c)"
      using Cons.prems True by (auto simp: nth_append less_Suc_eq)
    moreover have "\<forall>k<length pre. better (score c) (score ((pre @ [c]) ! k))"
      using Cons.prems True by (fastforce simp: nth_append)
    ultimately show ?thesis using Cons.IH[OF Cons.prems(1), of "length pre" "pre @ [c]" "score c"] True by simp
  next
    case False
    have "\<forall>k<length (pre @ [c]). \<not> better (score ((pre @ [c]) ! k)) bestScore"
      using Cons.prems False by (auto simp: nth_append less_Suc_eq)
    moreover have "\<forall>k<best. better bestScore (score ((pre @ [c]) ! k))"
      using Cons.prems by (auto simp: nth_append)
    ultimately show ?thesis
      using Cons.IH[OF Cons.prems(1), of best "pre @ [c]" bestScore] Cons.prems False by (simp add: nth_append)
  qed
qed simp

lemma ipHashIndex_best:
  assumes "cs \<noteq> []"
  shows "ipHashIndex ul ip cs < length cs"
    "k < length cs \<Longrightarrow> rendezvousScore ul ip (up_Address (cs ! k))
       \<le> rendezvousScore ul ip (up_Address (cs ! ipHashIndex ul ip cs))"
    "k < ipHashIndex ul ip cs \<Longrightarrow> rendezvousScore ul ip (up_Address (cs ! k))
       < rendezvousScore ul ip (up_Address (cs ! ipHashIndex ul ip cs))"
proof -
  obtain c rest where cs: "cs = c # rest" using assms by (cases cs) auto
  let ?s = "\<lambda>c. rendezvousScore ul ip (up_Address c)"
  note b = best_from_argbest[of "(>)" 0 "[c]" "?s c" ?s rest, simplified Let_def, simplified]
  show "ipHashIndex ul ip cs < length cs"
    "k < length cs \<Longrightarrow> ?s (cs ! k) \<le> ?s (cs ! ipHashIndex ul ip cs)"
    "k < ipHashIndex ul ip cs \<Longrightarrow> ?s (cs ! k) < ?s (cs ! ipHashIndex ul ip cs)"
    using b unfolding cs ipHashIndex_def by (auto simp: not_less)
qed

lemma leastConnIndex_best:
  assumes "cs \<noteq> []"
  shows "leastConnIndex ul cs lb < length cs"
    "k < length cs \<Longrightarrow> inflightLocked ul (up_Address (cs ! leastConnIndex ul cs lb)) lb
       \<le> inflightLocked ul (up_Address (cs ! k)) lb"
proof -
  obtain c rest where cs: "cs = c # rest" using assms by (cases cs) auto
  let ?s = "\<lambda>c. inflightLocked ul (up_Address c) lb"
  note b = best_from_argbest[of "(<)" 0 "[c]" "?s c" ?s rest, simplified Let_def, simplified]
  show "leastConnIndex ul cs lb < length cs"
    "k < length cs \<Longrightarrow> ?s (cs ! leastConnIndex ul cs lb) \<le> ?s (cs ! k)"
    using b unfolding cs leastConnIndex_def by (auto simp: not_less)
qed

text \<open>The first candidate of highest score is the same in every selection that keeps it.\<close>

lemma first_best_filter:
  fixes score :: "'a \<Rightarrow> 'k :: linorder"
  assumes best: "j < length xs" "\<And>k. k < length xs \<Longrightarrow> score (xs ! k) \<le> score (xs ! j)"
      "\<And>k. k < j \<Longrightarrow> score (xs ! k) < score (xs ! j)"
    and keep: "P (xs ! j)"
    and best': "i < length (filter P xs)"
      "\<And>k. k < length (filter P xs) \<Longrightarrow> score (filter P xs ! k) \<le> score (filter P xs ! i)"
      "\<And>k. k < i \<Longrightarrow> score (filter P xs ! k) < score (filter P xs ! i)"
  shows "filter P xs ! i = xs ! j"
proof -
  let ?a = "filter P (take j xs)"
  have split: "filter P xs = ?a @ xs ! j # filter P (drop (Suc j) xs)"
    using keep id_take_nth_drop[OF best(1)] by (metis filter.simps(2) filter_append)
  have here: "filter P xs ! length ?a = xs ! j" unfolding split by simp
  have top: "score (filter P xs ! i) = score (xs ! j)"
  proof (rule antisym)
    have "filter P xs ! i \<in> set xs" using best'(1) nth_mem by force
    then show "score (filter P xs ! i) \<le> score (xs ! j)" using best(2) by (metis in_set_conv_nth)
    show "score (xs ! j) \<le> score (filter P xs ! i)" using best'(2)[of "length ?a"] here split by simp
  qed
  have "\<not> i < length ?a"
  proof
    assume i: "i < length ?a"
    then have "filter P xs ! i = ?a ! i" unfolding split by (simp add: nth_append)
    then have "filter P xs ! i \<in> set (take j xs)" using i by (metis filter_is_subset nth_mem subsetD)
    then obtain k where "k < j" "xs ! k = filter P xs ! i" using best(1) by (auto simp: in_set_conv_nth)
    then show False using best(3)[of k] top by simp
  qed
  moreover have "\<not> length ?a < i" using best'(3)[of "length ?a"] here top by auto
  ultimately show ?thesis using here by (metis linorder_neqE_nat)
qed

text \<open>
  Address hashing is stable. When candidates drop out of the pool or come back and the
  upstream a client is assigned to stays, the client keeps it: the choice from any selection
  of the candidates that still has the chosen one is the chosen one.
\<close>

theorem ip_hash_is_stable:
  assumes "cs \<noteq> []" "keep (cs ! ipHashIndex ul ip cs)"
  shows "filter keep cs ! ipHashIndex ul ip (filter keep cs) = cs ! ipHashIndex ul ip cs"
proof -
  let ?s = "\<lambda>c. rendezvousScore ul ip (up_Address c)"
  note b = ipHashIndex_best[OF assms(1), where ul = ul and ip = ip]
  have "cs ! ipHashIndex ul ip cs \<in> set (filter keep cs)" using b(1) assms(2) by simp
  then have ne: "filter keep cs \<noteq> []" by force
  note b' = ipHashIndex_best[OF ne, where ul = ul and ip = ip]
  show ?thesis
    by (rule first_best_filter[where score = ?s]) (use b b' assms(2) in auto)
qed

theorem ip_hash_is_stable_witness:
  "\<exists>cs keep. cs \<noteq> [] \<and> filter keep cs \<noteq> cs
     \<and> filter keep cs ! ipHashIndex \<lparr>ul_Parse = (\<lambda>_. None), ul_String = (\<lambda>_. [])\<rparr> ''10.0.0.1'' (filter keep cs)
        = cs ! ipHashIndex \<lparr>ul_Parse = (\<lambda>_. None), ul_String = (\<lambda>_. [])\<rparr> ''10.0.0.1'' cs"
proof -
  let ?ul = "\<lparr>ul_Parse = (\<lambda>_. None), ul_String = (\<lambda>_. [])\<rparr>" and ?cs = "site_Upstreams ex_site"
  let ?keep = "\<lambda>c. c = ?cs ! ipHashIndex ?ul ''10.0.0.1'' ?cs"
  have cs: "?cs = [\<lparr>up_Address = ''a'', up_Weight = 2\<rparr>, \<lparr>up_Address = ''b'', up_Weight = 1\<rparr>]"
    by (simp add: ex_site_def)
  then have "?cs \<noteq> []" by simp
  moreover have "filter ?keep ?cs \<noteq> ?cs"
    using cs by (auto simp: filter_id_conv)
  ultimately show ?thesis using ip_hash_is_stable[of ?cs ?keep ?ul "''10.0.0.1''"] by blast
qed

subsection \<open>Requests in flight\<close>

text \<open>Attempts that start and finish in any order, with other calls of the balancer between.\<close>

inductive tracking :: "url_lib \<Rightarrow> LoadBalancer \<Rightarrow> LoadBalancer \<Rightarrow> url list \<Rightarrow> bool" for ul lb0 where
  idle: "tracking ul lb0 lb0 []"
| started: "tracking ul lb0 lb us \<Longrightarrow> tracking ul lb0 (Track ul u lb) (u # us)"
| finished: "tracking ul lb0 lb us \<Longrightarrow> u \<in> set us \<Longrightarrow> tracking ul lb0 (track_release ul u lb) (remove1 u us)"
| picked: "tracking ul lb0 lb us \<Longrightarrow> tracking ul lb0 (snd (nextExcluding ul site ip skip lb)) us"
| marked: "tracking ul lb0 lb us \<Longrightarrow> tracking ul lb0 (markUpstreamForSite ul sid u healthy lb) us"

definition outstanding :: "url_lib \<Rightarrow> string \<Rightarrow> url list \<Rightarrow> nat" where
  "outstanding ul key us = length (filter (\<lambda>u. upstreamKeyFromURL ul u = key) us)"

lemma length_filter_remove1:
  "u \<in> set us \<Longrightarrow> length (filter P us) = length (filter P (remove1 u us)) + (if P u then 1 else 0)"
  by (induction us) auto

lemma pickIndex_frame:
  "pickIndex ul site ip cs lb = (r, lb') \<Longrightarrow>
     lb_inflight lb' = lb_inflight lb \<and> lb_health lb' = lb_health lb \<and> lb_sites lb' = lb_sites lb"
  by (auto simp: pickIndex_def Let_def round_robin_def split: if_splits)

lemma nextExcluding_frame:
  "nextExcluding ul site ip skip lb = (r, lb') \<Longrightarrow>
     lb_inflight lb' = lb_inflight lb \<and> lb_health lb' = lb_health lb \<and> lb_sites lb' = lb_sites lb"
  unfolding nextExcluding_def Let_def
  by (auto split: prod.splits sum.splits option.splits if_splits dest: pickIndex_frame)

lemma nextExcluding_inflight [simp]:
  "lb_inflight (snd (nextExcluding ul site ip skip lb)) = lb_inflight lb"
  using nextExcluding_frame by (metis prod.collapse)

lemma inflight_outstanding:
  assumes "tracking ul lb0 lb us" "lb_inflight lb0 = Map.empty" "key \<noteq> []"
  shows "lookup_or 0 (lb_inflight lb) key = outstanding ul key us"
  using assms
proof (induction rule: tracking.induct)
  case idle
  then show ?case by (simp add: outstanding_def)
next
  case (started lb us u)
  then show ?case by (auto simp: Track_def outstanding_def Let_def)
next
  case (finished lb us u)
  have "outstanding ul key us = outstanding ul key (remove1 u us) + (if upstreamKeyFromURL ul u = key then 1 else 0)"
    unfolding outstanding_def using length_filter_remove1[OF finished(2)] by simp
  then show ?case using finished by (auto simp: track_release_def Let_def)
qed (simp_all add: markUpstreamForSite_def)

text \<open>
  Under the mode \<open>least_conn\<close> the chosen upstream is a candidate with the fewest
  attempts in flight, for every interleaving of attempts that start and finish: the count the
  balancer keeps of an upstream is the number of tracked attempts with its key.
\<close>

theorem least_conn_picks_fewest:
  assumes "tracking ul lb0 lb us" "lb_inflight lb0 = Map.empty"
    and "to_lower (trim_space (site_LoadBalance site)) = ''least_conn''"
    and "nextExcluding ul site ip skip lb = (Inr target, lb')"
    and "\<forall>up\<in>set (site_Upstreams site). normalizeUpstream ul (up_Address up) \<noteq> []"
  shows "\<exists>c\<in>set (healthyUpstreams ul site lb). normalizeUpstream ul (up_Address c) \<notin> skip
     \<and> ul_Parse ul (normalizeUpstream ul (up_Address c)) = Some target
     \<and> (\<forall>d\<in>set (healthyUpstreams ul site lb). normalizeUpstream ul (up_Address d) \<notin> skip \<longrightarrow>
          outstanding ul (normalizeUpstream ul (up_Address c)) us
          \<le> outstanding ul (normalizeUpstream ul (up_Address d)) us)"
proof -
  define cs where "cs = filter (\<lambda>c. normalizeUpstream ul (up_Address c) \<notin> skip) (healthyUpstreams ul site lb)"
  let ?i = "leastConnIndex ul cs lb"
  have ne: "cs \<noteq> []" and parse: "ul_Parse ul (normalizeUpstream ul (up_Address (cs ! ?i))) = Some target"
    using assms(3,4) unfolding nextExcluding_def pickIndex_def Let_def cs_def[symmetric]
    by (auto split: if_splits option.splits)
  have sub: "set cs \<subseteq> set (site_Upstreams site)"
    by (auto simp: cs_def healthyUpstreams_def Let_def split: if_splits)
  have count: "inflightLocked ul (up_Address c) lb = outstanding ul (normalizeUpstream ul (up_Address c)) us"
    if "c \<in> set cs" for c
    using inflight_outstanding[OF assms(1,2)] that sub assms(5) by (auto simp: inflightLocked_def)
  note best = leastConnIndex_best[OF ne, where ul = ul and lb = lb]
  have mem: "cs ! ?i \<in> set cs" using best(1) by simp
  have "outstanding ul (normalizeUpstream ul (up_Address (cs ! ?i))) us
      \<le> outstanding ul (normalizeUpstream ul (up_Address d)) us" if "d \<in> set cs" for d
    using best(2) count[OF mem] count[OF that] that by (metis in_set_conv_nth)
  then show ?thesis using mem parse by (intro bexI[of _ "cs ! ?i"]) (auto simp: cs_def)
qed

subsection \<open>An example of URL functions\<close>

text \<open>
  URLs of the form scheme, host and rest, as \<open>net/url\<close> reads and prints those without
  user information, query and fragment.
\<close>

fun split_scheme :: "string \<Rightarrow> (string \<times> string) option" where
  "split_scheme s = (if has_prefix s ''://'' then Some ([], drop 3 s)
     else case s of [] \<Rightarrow> None | c # cs \<Rightarrow> map_option (\<lambda>(a, b). (c # a, b)) (split_scheme cs))"

definition ex_url_lib :: url_lib where
  "ex_url_lib = \<lparr>ul_Parse = (\<lambda>s. case split_scheme s of None \<Rightarrow> None
       | Some (sch, rest) \<Rightarrow> Some \<lparr>url_Scheme = sch, url_Host = takeWhile (\<lambda>c. c \<noteq> CHR ''/'') rest,
           url_Rest = dropWhile (\<lambda>c. c \<noteq> CHR ''/'') rest\<rparr>),
     ul_String = (\<lambda>u. url_Scheme u @ ''://'' @ url_Host u @ url_Rest u)\<rparr>"

definition ex_least :: SiteConfig where
  "ex_least = ex_site\<lparr>site_LoadBalance := ''least_conn''\<rparr>"

theorem least_conn_picks_fewest_witness:
  "\<exists>target lb'. nextExcluding ex_url_lib ex_least [] {}
       (Track ex_url_lib (the (ul_Parse ex_url_lib ''http://a'')) (NewLoadBalancer [ex_least])) = (Inr target, lb')
     \<and> url_Host target = ''b''
     \<and> (\<exists>c\<in>set (site_Upstreams ex_least). ul_Parse ex_url_lib (normalizeUpstream ex_url_lib (up_Address c)) = Some target)"
proof -
  let ?u = "the (ul_Parse ex_url_lib ''http://a'')"
  let ?lb = "Track ex_url_lib ?u (NewLoadBalancer [ex_least])"
  obtain target lb' where n: "nextExcluding ex_url_lib ex_least [] {} ?lb = (Inr target, lb')" "url_Host target = ''b''"
  proof -
    have "case fst (nextExcluding ex_url_lib ex_least [] {} ?lb) of Inl _ \<Rightarrow> False | Inr t \<Rightarrow> url_Host t = ''b''"
      by code_simp
    then show thesis using that by (cases "nextExcluding ex_url_lib ex_least [] {} ?lb") (auto split: sum.splits)
  qed
  have tr: "tracking ex_url_lib (NewLoadBalancer [ex_least]) ?lb [?u]" by (intro tracking.started tracking.idle)
  have mode: "to_lower (trim_space (site_LoadBalance ex_least)) = ''least_conn''" by code_simp
  have keys: "\<forall>up\<in>set (site_Upstreams ex_least). normalizeUpstream ex_url_lib (up_Address up) \<noteq> []" by code_simp
  have h: "healthyUpstreams ex_url_lib ex_least ?lb = site_Upstreams ex_least" by code_simp
  have "lb_inflight (NewLoadBalancer [ex_least]) = Map.empty" by (simp add: NewLoadBalancer_def)
  from least_conn_picks_fewest[OF tr this mode n(1) keys] n show ?thesis unfolding h by blast
qed

text \<open>
  An address with a path, even a single slash, is tracked under a key without it: its attempts
  in flight are never counted.
\<close>

lemma path_addresses_uncounted:
  "upstreamKeyFromURL ex_url_lib (the (ul_Parse ex_url_lib (normalizeUpstream ex_url_lib ''http://a/''))) = ''http://a''"
  "inflightLocked ex_url_lib ''http://a/'' (Track ex_url_lib (the (ul_Parse ex_url_lib (normalizeUpstream ex_url_lib ''http://a/'')))
     (NewLoadBalancer [])) = 0"
  by code_simp+

text \<open>
  Reloading the sites clears the counts while attempts are running; when those finish, they
  take away the count of attempts started since.
\<close>

lemma reload_miscounts:
  fixes u :: url
  assumes "upstreamKeyFromURL ul u = k" "k \<noteq> []" "lb_inflight lb = Map.empty"
  shows "lookup_or 0 (lb_inflight (track_release ul u (Track ul u (lb_UpdateSites sites h (Track ul u lb))))) k = 0"
  using assms by (simp add: Track_def track_release_def lb_UpdateSites_def Let_def)

subsection \<open>Health thresholds\<close>

text \<open>
  The reference: the newest reports first. As many successes in a row as the healthy threshold
  make an upstream healthy, as many failures in a row as the unhealthy threshold make it
  unhealthy, and otherwise it stays what it was.
\<close>

fun ref_health :: "nat \<Rightarrow> nat \<Rightarrow> bool list \<Rightarrow> bool" where
  "ref_health h u [] = True"
| "ref_health h u (r # rs) =
     (if r \<and> h \<le> length (takeWhile id (r # rs)) then True
      else if \<not> r \<and> u \<le> length (takeWhile Not (r # rs)) then False
      else ref_health h u rs)"

definition reports :: "upstreamHealthState \<Rightarrow> bool list \<Rightarrow> upstreamHealthState" where
  "reports st rs = foldr (\<lambda>r st. updateHealth st r) rs st"

lemma reports_counts:
  assumes "uh_consecutiveSuccess st = 0" "uh_consecutiveFailure st = 0"
  shows "uh_consecutiveSuccess (reports st rs) = int (length (takeWhile id rs))
     \<and> uh_consecutiveFailure (reports st rs) = int (length (takeWhile Not rs))
     \<and> uh_healthyThreshold (reports st rs) = uh_healthyThreshold st
     \<and> uh_unhealthyThreshold (reports st rs) = uh_unhealthyThreshold st"
  using assms by (induction rs) (auto simp: reports_def updateHealth_def Let_def)

text \<open>
  Health is hysteresis with exactly the configured thresholds. After any sequence of probe
  results on a freshly registered upstream the registry's verdict is the reference's: it turns
  unhealthy only after that many failures in a row, and healthy again only after that many
  successes in a row.
\<close>

theorem health_is_hysteresis:
  assumes "addUpstream key cfg Map.empty key = Some st"
  shows "uh_healthy (reports st rs)
     = ref_health (nat (max 1 (hc_HealthyThreshold cfg))) (nat (max 1 (hc_UnhealthyThreshold cfg))) rs"
proof -
  have st: "uh_healthy st" "uh_consecutiveSuccess st = 0" "uh_consecutiveFailure st = 0"
    "uh_healthyThreshold st = max 1 (hc_HealthyThreshold cfg)"
    "uh_unhealthyThreshold st = max 1 (hc_UnhealthyThreshold cfg)"
    using assms by (auto simp: addUpstream_def Let_def max_def)
  show ?thesis
  proof (induction rs)
    case Nil
    then show ?case using st(1) by (simp add: reports_def)
  next
    case (Cons r rs)
    note c = reports_counts[OF st(2,3), of rs]
    have step: "reports st (r # rs) = updateHealth (reports st rs) r" by (simp add: reports_def)
    show ?case unfolding step using Cons c st(4,5)
      by (cases r) (auto simp: updateHealth_def Let_def nat_le_iff)
  qed
qed

theorem health_is_hysteresis_witness:
  "\<exists>st. addUpstream ''k'' (site_HealthCheck ex_site) Map.empty ''k'' = Some st
     \<and> uh_healthy (reports st [False, False]) \<and> \<not> uh_healthy (reports st [False, False, False])"
proof -
  obtain st where st: "addUpstream ''k'' (site_HealthCheck ex_site) Map.empty ''k'' = Some st"
    by (simp add: addUpstream_def Let_def)
  have th: "nat (max 1 (hc_HealthyThreshold (site_HealthCheck ex_site))) = 2"
    "nat (max 1 (hc_UnhealthyThreshold (site_HealthCheck ex_site))) = 3" by (simp_all add: ex_site_def)
  have "ref_health 2 3 [False, False]" "\<not> ref_health 2 3 [False, False, False]" by code_simp+
  then show ?thesis using health_is_hysteresis[OF st] st unfolding th by blast
qed

subsection \<open>Failover\<close>

lemma pickIndex_bound:
  assumes "pickIndex ul site ip cs lb = (Inr j, lb')" "cs \<noteq> []" "length cs < 2 ^ 64" "weights cs < 2 ^ 64"
  shows "j < length cs"
proof -
  have rr: "unat (x mod of_nat (length cs)) < length cs" for x :: u64
  proof -
    have "unat (of_nat (length cs) :: u64) = length cs" using assms(3) by (simp add: unat_of_nat)
    then show ?thesis using assms(2) by (simp add: unat_mod)
  qed
  have wi: "weighted_index (x mod total_weight cs) 0 0 cs < length cs" if "total_weight cs \<noteq> 0" for x
  proof -
    have u: "unat (total_weight cs) = weights cs" using assms(4) by (simp add: total_weight_nat unat_of_nat)
    then have "0 < weights cs" using that by (metis unat_gt_0)
    then have "unat (x mod total_weight cs) < weights cs" by (simp add: unat_mod u)
    then show ?thesis using weighted_index_interval[of 0 cs "x mod total_weight cs" 0] assms(4) by auto
  qed
  show ?thesis
    using assms(1) rr wi ipHashIndex_best(1)[OF assms(2)] leastConnIndex_best(1)[OF assms(2)]
    by (auto simp: pickIndex_def Let_def round_robin_def split: if_splits)
qed

text \<open>A picked target is an upstream of the site that is not skipped.\<close>

lemma nextExcluding_target:
  assumes "nextExcluding ul site ip skip lb = (Inr target, lb')"
    "length (site_Upstreams site) < 2 ^ 64" "weights (site_Upstreams site) < 2 ^ 64"
  shows "\<exists>up\<in>set (site_Upstreams site). normalizeUpstream ul (up_Address up) \<notin> skip
     \<and> ul_Parse ul (normalizeUpstream ul (up_Address up)) = Some target"
proof -
  define cs where "cs = filter (\<lambda>c. normalizeUpstream ul (up_Address c) \<notin> skip) (healthyUpstreams ul site lb)"
  obtain j where p: "pickIndex ul site ip cs lb = (Inr j, lb')" "cs \<noteq> []"
    "ul_Parse ul (normalizeUpstream ul (up_Address (cs ! j))) = Some target"
    using assms(1) unfolding nextExcluding_def Let_def cs_def[symmetric]
    by (auto split: if_splits prod.splits sum.splits option.splits)
  have w: "weights (filter P us) \<le> weights us" "length (filter P us) \<le> length us" for P us
    by (induction us) (auto simp: le_SucI)
  have h: "weights (healthyUpstreams ul site lb) \<le> weights (site_Upstreams site)"
    "length (healthyUpstreams ul site lb) \<le> length (site_Upstreams site)"
    using w unfolding healthyUpstreams_def Let_def by auto
  have "length cs < 2 ^ 64" "weights cs < 2 ^ 64" using w h assms(2,3) unfolding cs_def
    by (meson le_less_trans order_trans)+
  from pickIndex_bound[OF p(1,2) this] have "cs ! j \<in> set cs" by simp
  moreover have "set cs \<subseteq> set (site_Upstreams site)"
    by (auto simp: cs_def healthyUpstreams_def Let_def split: if_splits)
  ultimately show ?thesis using p(3) by (intro bexI[of _ "cs ! j"]) (auto simp: cs_def)
qed

lemma forward_loop_targets:
  assumes "forward_loop ul site ip safe attempt others n i skip lastErr lb = (res, lb', ts)"
    "length (site_Upstreams site) < 2 ^ 64" "weights (site_Upstreams site) < 2 ^ 64"
    "\<forall>up\<in>set (site_Upstreams site). \<forall>u. ul_Parse ul (normalizeUpstream ul (up_Address up)) = Some u
        \<longrightarrow> upstreamKeyFromURL ul u = normalizeUpstream ul (up_Address up)"
  shows "length ts \<le> n \<and> distinct (map (upstreamKeyFromURL ul) ts)
     \<and> upstreamKeyFromURL ul ` set ts \<inter> skip = {}
     \<and> upstreamKeyFromURL ul ` set ts \<subseteq> (\<lambda>up. normalizeUpstream ul (up_Address up)) ` set (site_Upstreams site)
     \<and> (\<forall>k<length ts. k + 1 < length ts \<longrightarrow> (\<exists>err. attempt (i + k) = Some (err, False)
          \<and> \<not> pe_tampered err \<and> \<not> pe_tooLarge err \<and> shouldRetryUpstream err safe))"
  using assms
proof (induction n arbitrary: i skip lastErr lb res lb' ts)
  case (Suc n)
  show ?case
  proof (cases "nextExcluding ul site ip skip lb")
    case (Pair r lb1)
    show ?thesis
    proof (cases r)
      case (Inl e)
      then show ?thesis using Suc.prems(1) Pair by simp
    next
      case (Inr target)
      obtain up where up: "up \<in> set (site_Upstreams site)" "normalizeUpstream ul (up_Address up) \<notin> skip"
        "ul_Parse ul (normalizeUpstream ul (up_Address up)) = Some target"
        using nextExcluding_target[OF Pair[unfolded Inr] Suc.prems(2,3)] by blast
      then have key: "upstreamKeyFromURL ul target = normalizeUpstream ul (up_Address up)"
        using Suc.prems(4) by blast
      show ?thesis
      proof (cases "ts = [target]")
        case True
        then show ?thesis using up key by auto
      next
        case False
        then obtain err lb3 ts' where more: "attempt i = Some (err, False)" "\<not> pe_tampered err" "\<not> pe_tooLarge err"
          "shouldRetryUpstream err safe" "ts = target # ts'"
          "forward_loop ul site ip safe attempt others n (i + 1) (insert (upstreamKeyFromURL ul target) skip) (Some err) lb3 = (res, lb', ts')"
          using Suc.prems(1) Pair Inr
          by (auto simp: Let_def split: option.splits prod.splits if_splits)
        note ih = Suc.IH[OF more(6) Suc.prems(2-4)]
        have "\<exists>err. attempt (i + k) = Some (err, False) \<and> \<not> pe_tampered err \<and> \<not> pe_tooLarge err \<and> shouldRetryUpstream err safe"
          if "k + 1 < length ts" for k
          using ih more that by (cases k) auto
        then show ?thesis using ih up key unfolding more(5) by auto
      qed
    qed
  qed
qed simp

text \<open>
  C14: failover is bounded and never tries an upstream twice. If every upstream's address is its
  own key (no path) and the weights do not overflow, the forwarding loop makes at most one
  attempt per upstream, on different upstreams of the site, whatever other requests do to the
  balancer in the meantime, and it moves on only after an attempt that wrote nothing, was not
  blocked, and failed with a refused connection or, for a request that is safe to repeat, with
  a connection error.
\<close>

theorem failover_tries_each_once:
  assumes "forward_attempts ul site ip safe attempt others lb = (res, lb', ts)"
    and "length (site_Upstreams site) < 2 ^ 64" "weights (site_Upstreams site) < 2 ^ 64"
    and "\<forall>up\<in>set (site_Upstreams site). \<forall>u. ul_Parse ul (normalizeUpstream ul (up_Address up)) = Some u
        \<longrightarrow> upstreamKeyFromURL ul u = normalizeUpstream ul (up_Address up)"
  shows "length ts \<le> max 1 (length (site_Upstreams site)) \<and> distinct (map (upstreamKeyFromURL ul) ts)
     \<and> upstreamKeyFromURL ul ` set ts \<subseteq> (\<lambda>up. normalizeUpstream ul (up_Address up)) ` set (site_Upstreams site)
     \<and> (k + 1 < length ts \<longrightarrow> (\<exists>err. attempt k = Some (err, False)
          \<and> \<not> pe_tampered err \<and> \<not> pe_tooLarge err
          \<and> (isConnectionRefused err \<or> safe \<and> isUpstreamConnectError err)))"
  using forward_loop_targets[OF assms(1)[unfolded forward_attempts_def] assms(2-4)]
  by (auto simp: shouldRetryUpstream_def)

theorem failover_tries_each_once_witness:
  "\<exists>res lb' ts. forward_attempts ex_url_lib ex_site [] False
       (\<lambda>_. Some (\<lparr>pe_net = True, pe_text = ''connection refused'', pe_tampered = False, pe_tooLarge = False\<rparr>, False))
       (\<lambda>i k lb. if k = 1 then NewLoadBalancer [] else lb) (NewLoadBalancer [ex_site]) = (res, lb', ts) \<and> length ts = 2 \<and> distinct (map (upstreamKeyFromURL ex_url_lib) ts)"
proof -
  let ?att = "\<lambda>_. Some (\<lparr>pe_net = True, pe_text = ''connection refused'', pe_tampered = False, pe_tooLarge = False\<rparr>, False)"
  let ?f = "forward_attempts ex_url_lib ex_site [] False ?att (\<lambda>i k lb. if k = 1 then NewLoadBalancer [] else lb) (NewLoadBalancer [ex_site])"
  obtain res lb' ts where f: "?f = (res, lb', ts)" by (metis prod_cases3)
  have "length (snd (snd ?f)) = 2" by code_simp
  then have len: "length ts = 2" using f by simp
  have "length (site_Upstreams ex_site) = 2" "weights (site_Upstreams ex_site) = 3" by code_simp+
  then have w: "length (site_Upstreams ex_site) < 2 ^ 64" "weights (site_Upstreams ex_site) < 2 ^ 64" by simp_all
  have "\<forall>up\<in>set (site_Upstreams ex_site). case ul_Parse ex_url_lib (normalizeUpstream ex_url_lib (up_Address up)) of
      None \<Rightarrow> True | Some u \<Rightarrow> upstreamKeyFromURL ex_url_lib u = normalizeUpstream ex_url_lib (up_Address up)"
    by code_simp
  then have keys: "\<forall>up\<in>set (site_Upstreams ex_site). \<forall>u. ul_Parse ex_url_lib (normalizeUpstream ex_url_lib (up_Address up)) = Some u
        \<longrightarrow> upstreamKeyFromURL ex_url_lib u = normalizeUpstream ex_url_lib (up_Address up)"
    by (auto split: option.splits)
  from failover_tries_each_once[OF f w keys] f len show ?thesis by blast
qed

text \<open>With a path in its address the failed upstream is tried again, and the other one never.\<close>

lemma path_upstream_tried_twice:
  "map url_Host (snd (snd (forward_attempts ex_url_lib
      (ex_site\<lparr>site_LoadBalance := ''least_conn'', site_Upstreams := [\<lparr>up_Address = ''http://a/app'', up_Weight = 1\<rparr>,
         \<lparr>up_Address = ''http://b'', up_Weight = 1\<rparr>]\<rparr>) [] True
      (\<lambda>_. Some (\<lparr>pe_net = True, pe_text = [], pe_tampered = False, pe_tooLarge = False\<rparr>, False))
      (\<lambda>_ _ lb. lb) (NewLoadBalancer [])))) = [''a'', ''a'']"
  by code_simp

end
