(* ===== verification/Request_Path.thy ===== *)
theory Request_Path
  imports Go_Crypto "HOL-Library.Sublist"
begin

text \<open>
  \<open>internal/engine/path.go\<close>: the normalisation of request paths for policy decisions, the
  views under which a path is judged, and matching by path prefix; with the parts of
  \<open>net/url\<close> and \<open>path\<close> it calls.
\<close>

subsection \<open>url.PathUnescape and path.Clean\<close>

definition hex_value :: "char \<Rightarrow> int" where
  "hex_value c = (let b = byte c in
     if in_range 48 57 b then b - 48 else if in_range 97 102 b then b - 87 else b - 55)"

text \<open>A percent sign must be followed by two hex digits; every other byte stands for itself.\<close>

fun PathUnescape :: "string \<Rightarrow> string option" where
  "PathUnescape [] = Some []"
| "PathUnescape (c # s) =
     (if c = CHR ''%'' then
        (case s of
           a # b # t \<Rightarrow> if is_hex a \<and> is_hex b
             then map_option (Cons (char_of (hex_value a * 16 + hex_value b))) (PathUnescape t) else None
         | _ \<Rightarrow> None)
      else map_option (Cons c) (PathUnescape s))"

fun split_slash :: "string \<Rightarrow> string list" where
  "split_slash [] = [[]]"
| "split_slash (c # s) =
     (if c = CHR ''/'' then [] # split_slash s
      else (case split_slash s of [] \<Rightarrow> [[c]] | seg # sgs \<Rightarrow> (c # seg) # sgs))"

fun join_slash :: "string list \<Rightarrow> string" where
  "join_slash [] = []"
| "join_slash [s] = s"
| "join_slash (s # t # ss) = s @ CHR ''/'' # join_slash (t # ss)"

text \<open>
  \<open>path.Clean\<close> by its documented rules: empty and dot segments vanish, an inner parent
  segment removes the segment before it, a parent segment at the root vanishes.
\<close>

definition clean_seg :: "bool \<Rightarrow> string list \<Rightarrow> string \<Rightarrow> string list" where
  "clean_seg rooted out seg =
     (if seg = [] \<or> seg = ''.'' then out
      else if seg = ''..'' then
        (if out \<noteq> [] \<and> last out \<noteq> ''..'' then butlast out
         else if rooted then out else out @ [''..''])
      else out @ [seg])"

definition path_Clean :: "string \<Rightarrow> string" where
  "path_Clean p =
     (if p = [] then ''.''
      else let rooted = (hd p = CHR ''/''); out = foldl (clean_seg rooted) [] (split_slash p)
        in if rooted then CHR ''/'' # join_slash out
           else if out = [] then ''.'' else join_slash out)"

subsection \<open>The code\<close>

fun decode_rounds :: "nat \<Rightarrow> string \<Rightarrow> string option" where
  "decode_rounds 0 cur = (if CHR ''%'' \<in> set cur then None else Some cur)"
| "decode_rounds (Suc n) cur =
     (case PathUnescape cur of
        None \<Rightarrow> None
      | Some next \<Rightarrow>
          if next = cur then Some cur
          else if CHR 0x00 \<in> set next then None
          else decode_rounds n next)"

definition fullyDecodePath :: "string \<Rightarrow> nat \<Rightarrow> string option" where
  "fullyDecodePath raw maxRounds = decode_rounds (if maxRounds < 1 then 1 else maxRounds) raw"

function matrix_loop :: "string \<Rightarrow> bool" where
  "matrix_loop s =
     (if s = [] then False
      else if has_prefix s ''..;'' then True
      else (case dropWhile (\<lambda>c. c \<noteq> CHR ''/'') s of [] \<Rightarrow> False | c # rest \<Rightarrow> matrix_loop rest))"
  by pat_completeness auto
termination
proof (relation "measure length", goal_cases)
  case (2 s c rest)
  then have "length (c # rest) \<le> length s" by (metis length_dropWhile_le)
  then show ?case by simp
qed simp

declare matrix_loop.simps [simp del]

definition hasMatrixParentSegment :: "string \<Rightarrow> bool" where
  "hasMatrixParentSegment decoded \<longleftrightarrow> CHR '';'' \<in> set decoded \<and> matrix_loop decoded"

definition NormalizeRequestPath :: "string \<Rightarrow> string option" where
  "NormalizeRequestPath raw =
     (if raw = [] \<or> CHR 0x00 \<in> set raw then None
      else case fullyDecodePath raw 5 of
        None \<Rightarrow> None
      | Some decoded \<Rightarrow>
          if hasMatrixParentSegment decoded then None
          else let cleaned = path_Clean decoded in
            if cleaned = [] \<or> cleaned = ''.'' then None
            else let cleaned = (if has_prefix cleaned ''/'' then cleaned else path_Clean (''/'' @ cleaned)) in
              if cleaned = [] \<or> cleaned = ''.'' then None
              else if cleaned = ''..'' \<or> has_prefix cleaned ''../'' \<or> contains cleaned ''/../''
                      \<or> has_suffix cleaned ''/..'' then None
              else if CHR ''%'' \<in> set cleaned then None
              else Some cleaned)"

fun strip_matrix :: "bool \<Rightarrow> string \<Rightarrow> string" where
  "strip_matrix inParameter [] = []"
| "strip_matrix inParameter (c # s) =
     (if c = CHR ''/'' then CHR ''/'' # strip_matrix False s
      else if c = CHR '';'' then strip_matrix True s
      else if inParameter then strip_matrix True s
      else c # strip_matrix False s)"

definition SecurityPathViews :: "string \<Rightarrow> string list \<times> bool" where
  "SecurityPathViews raw =
     (case NormalizeRequestPath raw of
        None \<Rightarrow> ([], False)
      | Some cleaned \<Rightarrow>
          let views = raw # (if cleaned \<noteq> raw then [cleaned] else []) in
          if CHR '';'' \<notin> set raw \<and> CHR ''%'' \<notin> set raw then (views, True)
          else (case fullyDecodePath raw 5 of
                  None \<Rightarrow> (views, False)
                | Some decoded \<Rightarrow>
                    if CHR '';'' \<notin> set decoded then (views, True)
                    else let matrixPath = path_Clean (strip_matrix False decoded);
                             matrixPath = (if has_prefix matrixPath ''/'' then matrixPath
                                           else path_Clean (''/'' @ matrixPath))
                      in if matrixPath \<in> set views then (views, True)
                         else (views @ [matrixPath], True)))"

definition trim_right_slash :: "string \<Rightarrow> string" where
  "trim_right_slash s = rev (dropWhile (\<lambda>c. c = CHR ''/'') (rev s))"

definition PathMatchesPrefix :: "string \<Rightarrow> string \<Rightarrow> bool" where
  "PathMatchesPrefix requestPath pre =
     (if pre = [] then True
      else if requestPath = [] then False
      else let base = trim_right_slash pre in
        if base = [] then has_prefix requestPath ''/''
        else requestPath = base \<or> has_prefix requestPath (base @ ''/''))"

subsection \<open>Segments\<close>

lemma split_slash_not_Nil [simp]: "split_slash s \<noteq> []"
  by (induction s) (auto split: list.split)

lemma join_split [simp]: "join_slash (split_slash s) = s"
proof (induction s)
  case (Cons c s)
  obtain seg sgs where ss: "split_slash s = seg # sgs" by (cases "split_slash s") auto
  then show ?case using Cons by (cases sgs) auto
qed simp

lemma split_slash_append:
  "split_slash (s @ CHR ''/'' # t) = split_slash s @ split_slash t"
  by (induction s) (auto split: list.split)

lemma split_slash_single: "CHR ''/'' \<notin> set s \<Longrightarrow> split_slash s = [s]"
  by (induction s) auto

lemma split_slash_no_slash: "seg \<in> set (split_slash s) \<Longrightarrow> CHR ''/'' \<notin> set seg"
proof (induction s arbitrary: seg)
  case (Cons c s)
  obtain h t where "split_slash s = h # t" by (cases "split_slash s") auto
  then show ?case using Cons by (auto split: if_splits)
qed simp

lemma split_slash_chars: "seg \<in> set (split_slash s) \<Longrightarrow> set seg \<subseteq> set s"
proof (induction s arbitrary: seg)
  case (Cons c s)
  obtain h t where ht: "split_slash s = h # t" by (cases "split_slash s") auto
  show ?case
  proof (cases "c = CHR ''/''")
    case True
    then show ?thesis using Cons by (auto simp: ht)
  next
    case False
    then have "seg = c # h \<or> seg \<in> set t" using Cons.prems ht by auto
    then show ?thesis using Cons.IH[of h] Cons.IH[of seg] ht by auto
  qed
qed simp

lemma split_join:
  "sgs \<noteq> [] \<Longrightarrow> \<forall>s\<in>set sgs. CHR ''/'' \<notin> set s \<Longrightarrow> split_slash (join_slash sgs) = sgs"
  by (induction sgs rule: join_slash.induct) (auto simp: split_slash_append split_slash_single)

text \<open>A plain segment: one that cleaning keeps.\<close>

definition plain :: "string \<Rightarrow> bool" where
  "plain seg \<longleftrightarrow> seg \<noteq> [] \<and> seg \<noteq> ''.'' \<and> seg \<noteq> ''..'' \<and> CHR ''/'' \<notin> set seg"

lemma clean_seg_plain:
  assumes "list_all plain out" "CHR ''/'' \<notin> set seg"
  shows "list_all plain (clean_seg True out seg) \<and> set (clean_seg True out seg) \<subseteq> insert seg (set out)"
  using assms by (auto simp: clean_seg_def plain_def list_all_iff dest: in_set_butlastD)

lemma foldl_clean_plain:
  assumes "list_all plain out" "\<forall>s\<in>set sgs. CHR ''/'' \<notin> set s"
  shows "list_all plain (foldl (clean_seg True) out sgs)
    \<and> set (foldl (clean_seg True) out sgs) \<subseteq> set out \<union> set sgs"
  using assms
proof (induction sgs arbitrary: out)
  case (Cons s sgs)
  then have "list_all plain (clean_seg True out s) \<and> set (clean_seg True out s) \<subseteq> insert s (set out)"
    using clean_seg_plain by simp
  then show ?case using Cons.IH[of "clean_seg True out s"] Cons.prems(2) by fastforce
qed simp

lemma foldl_clean_id: "list_all plain sgs \<Longrightarrow> foldl (clean_seg r) out sgs = out @ sgs"
  by (induction sgs arbitrary: out) (auto simp: clean_seg_def plain_def)

text \<open>The normal form: a slash followed by plain segments.\<close>

definition normal_path :: "string list \<Rightarrow> string" where
  "normal_path sgs = CHR ''/'' # join_slash sgs"

lemma path_Clean_rooted:
  assumes "has_prefix p ''/''"
  shows "\<exists>sgs. path_Clean p = normal_path sgs \<and> list_all plain sgs
    \<and> set sgs \<subseteq> set (split_slash p)"
proof -
  from assms obtain t where p: "p = CHR ''/'' # t" by (auto simp: has_prefix_iff)
  let ?sgs = "foldl (clean_seg True) [] (split_slash p)"
  have "path_Clean p = normal_path ?sgs" using p by (simp add: path_Clean_def normal_path_def Let_def)
  moreover have "list_all plain ?sgs \<and> set ?sgs \<subseteq> set (split_slash p)"
    using foldl_clean_plain[of "[]" "split_slash p"] split_slash_no_slash by auto
  ultimately show ?thesis by blast
qed

lemma path_Clean_normal:
  assumes "list_all plain sgs"
  shows "path_Clean (normal_path sgs) = normal_path sgs"
proof (cases "sgs = []")
  case False
  then have "split_slash (normal_path sgs) = [] # sgs"
    using assms split_join[of sgs] by (auto simp: normal_path_def plain_def list_all_iff)
  then show ?thesis using foldl_clean_id[OF assms, of True "[]"]
    by (simp add: path_Clean_def normal_path_def clean_seg_def Let_def)
qed (simp add: path_Clean_def normal_path_def clean_seg_def)

end
