(* ===== verification/Net_Addr.thy ===== *)
theory Net_Addr
  imports Request_Path
begin

text \<open>
  The part of Go's \<open>net/netip\<close> that the IP policies call: addresses, prefixes, their
  textual forms, unmapping and masking. An address is its bytes, most significant first; an
  IPv6 address may carry a zone. The result \<open>None\<close> of a parser stands for an error.
\<close>

datatype Addr = Addr4 "int list" | Addr6 "int list" string

fun addr_bytes :: "Addr \<Rightarrow> int list" where
  "addr_bytes (Addr4 b) = b"
| "addr_bytes (Addr6 b z) = b"

fun Is4 :: "Addr \<Rightarrow> bool" where
  "Is4 (Addr4 b) = True"
| "Is4 (Addr6 b z) = False"

fun BitLen :: "Addr \<Rightarrow> nat" where
  "BitLen (Addr4 b) = 32"
| "BitLen (Addr6 b z) = 128"

fun addr_zone :: "Addr \<Rightarrow> string" where
  "addr_zone (Addr4 b) = []"
| "addr_zone (Addr6 b z) = z"

fun Is4In6 :: "Addr \<Rightarrow> bool" where
  "Is4In6 (Addr4 b) = False"
| "Is4In6 (Addr6 b z) \<longleftrightarrow> take 12 b = replicate 10 0 @ [255, 255]"

definition Unmap :: "Addr \<Rightarrow> Addr" where
  "Unmap a = (if Is4In6 a then Addr4 (drop 12 (addr_bytes a)) else a)"

definition addr_ok :: "Addr \<Rightarrow> bool" where
  "addr_ok a \<longleftrightarrow> length (addr_bytes a) * 8 = BitLen a"

definition addressBit :: "Addr \<Rightarrow> nat \<Rightarrow> bool" where
  "addressBit addr i \<longleftrightarrow> odd (addr_bytes addr ! (i div 8) div 2 ^ (7 - i mod 8))"

definition addr_bits :: "Addr \<Rightarrow> bool list" where
  "addr_bits a = map (addressBit a) [0..<BitLen a]"

subsection \<open>Parsing\<close>

definition is_digit :: "char \<Rightarrow> bool" where
  "is_digit c \<longleftrightarrow> in_range 48 57 (byte c)"

definition decimal_value :: "string \<Rightarrow> int" where
  "decimal_value s = foldl (\<lambda>v c. v * 10 + (byte c - 48)) 0 s"

definition hex_number :: "string \<Rightarrow> int" where
  "hex_number s = foldl (\<lambda>v c. v * 16 + hex_value c) 0 s"

fun split_at :: "char \<Rightarrow> string \<Rightarrow> string list" where
  "split_at d [] = [[]]"
| "split_at d (c # s) =
     (if c = d then [] # split_at d s
      else (case split_at d s of [] \<Rightarrow> [[c]] | x # xs \<Rightarrow> (c # x) # xs))"

text \<open>Four decimal fields of at most 255 without leading zeros.\<close>

definition ipv4_field :: "string \<Rightarrow> bool" where
  "ipv4_field f \<longleftrightarrow> f \<noteq> [] \<and> list_all is_digit f \<and> (length f = 1 \<or> hd f \<noteq> CHR ''0'') \<and> decimal_value f \<le> 255"

definition parseIPv4Fields :: "string \<Rightarrow> int list option" where
  "parseIPv4Fields s = (let fs = split_at (CHR ''.'') s in
     if length fs = 4 \<and> list_all ipv4_field fs then Some (map decimal_value fs) else None)"

text \<open>The loop over at most eight groups, with the position of a double colon seen so far.\<close>

fun parse6_loop :: "nat \<Rightarrow> int list \<Rightarrow> nat option \<Rightarrow> string \<Rightarrow> (int list \<times> nat option) option" where
  "parse6_loop 0 ip ellipsis s = (if s \<noteq> [] then None else Some (ip, ellipsis))"
| "parse6_loop (Suc n) ip ellipsis s =
     (let h = takeWhile is_hex s; rest = dropWhile is_hex s in
      if h = [] \<or> length h > 4 then None
      else if rest \<noteq> [] \<and> hd rest = CHR ''.'' then
        (if (ellipsis = None \<and> length ip \<noteq> 12) \<or> length ip + 4 > 16 then None
         else map_option (\<lambda>fs. (ip @ fs, ellipsis)) (parseIPv4Fields s))
      else
        let ip' = ip @ [hex_number h div 256, hex_number h mod 256] in
        if rest = [] then Some (ip', ellipsis)
        else if hd rest \<noteq> CHR '':'' \<or> tl rest = [] then None
        else if hd (tl rest) = CHR '':'' then
          (if ellipsis \<noteq> None then None
           else if tl (tl rest) = [] then Some (ip', Some (length ip'))
           else parse6_loop n ip' (Some (length ip')) (tl (tl rest)))
        else parse6_loop n ip' ellipsis (tl rest))"

definition expand_ellipsis :: "int list \<times> nat option \<Rightarrow> int list option" where
  "expand_ellipsis r = (case r of (ip, ellipsis) \<Rightarrow>
     if length ip < 16 then
       (case ellipsis of None \<Rightarrow> None
        | Some e \<Rightarrow> Some (take e ip @ replicate (16 - length ip) 0 @ drop e ip))
     else if ellipsis \<noteq> None then None else Some ip)"

definition parse6_groups :: "string \<Rightarrow> nat option \<Rightarrow> string \<Rightarrow> Addr option" where
  "parse6_groups zone ellipsis s =
     (case parse6_loop 8 [] ellipsis s of
        None \<Rightarrow> None | Some r \<Rightarrow> map_option (\<lambda>b. Addr6 b zone) (expand_ellipsis r))"

definition parseIPv6 :: "string \<Rightarrow> Addr option" where
  "parseIPv6 inp =
     (let s = takeWhile (\<lambda>c. c \<noteq> CHR ''%'') inp; z = dropWhile (\<lambda>c. c \<noteq> CHR ''%'') inp in
      if z \<noteq> [] \<and> tl z = [] then None
      else let zone = tl z in
        if has_prefix s ''::'' then
          (if drop 2 s = [] then Some (Addr6 (replicate 16 0) zone)
           else parse6_groups zone (Some 0) (drop 2 s))
        else parse6_groups zone None s)"

definition ParseAddr :: "string \<Rightarrow> Addr option" where
  "ParseAddr s =
     (case dropWhile (\<lambda>c. c \<noteq> CHR ''.'' \<and> c \<noteq> CHR '':'' \<and> c \<noteq> CHR ''%'') s of
        [] \<Rightarrow> None
      | c # _ \<Rightarrow> if c = CHR ''.'' then map_option Addr4 (parseIPv4Fields s)
                 else if c = CHR '':'' then parseIPv6 s else None)"

record Prefix =
  px_addr :: Addr
  px_bits :: nat

definition ParsePrefix :: "string \<Rightarrow> Prefix option" where
  "ParsePrefix s =
     (let r = rev s; bitsStr = rev (takeWhile (\<lambda>c. c \<noteq> CHR ''/'') r);
          rest = dropWhile (\<lambda>c. c \<noteq> CHR ''/'') r in
      if rest = [] then None
      else case ParseAddr (rev (tl rest)) of
        None \<Rightarrow> None
      | Some ip \<Rightarrow>
          if addr_zone ip \<noteq> [] then None
          else if bitsStr = [] \<or> \<not> list_all is_digit bitsStr
                  \<or> (length bitsStr > 1 \<and> hd bitsStr = CHR ''0'') then None
          else if decimal_value bitsStr > int (BitLen ip) then None
          else Some \<lparr>px_addr = ip, px_bits = nat (decimal_value bitsStr)\<rparr>)"

subsection \<open>Masking\<close>

definition mask_byte :: "nat \<Rightarrow> int \<Rightarrow> int" where
  "mask_byte k b = (b div 2 ^ (8 - k)) * 2 ^ (8 - k)"

definition mask_bytes :: "nat \<Rightarrow> int list \<Rightarrow> int list" where
  "mask_bytes n bs = map (\<lambda>i. mask_byte (min 8 (n - 8 * i)) (bs ! i)) [0..<length bs]"

fun mask_addr :: "nat \<Rightarrow> Addr \<Rightarrow> Addr" where
  "mask_addr n (Addr4 b) = Addr4 (mask_bytes n b)"
| "mask_addr n (Addr6 b z) = Addr6 (mask_bytes n b) []"

definition Masked :: "Prefix \<Rightarrow> Prefix" where
  "Masked p = p\<lparr>px_addr := mask_addr (px_bits p) (px_addr p)\<rparr>"

text \<open>\<open>Prefix.Contains\<close>: same family, no zone, and the leading bits agree.\<close>

definition prefix_Contains :: "Prefix \<Rightarrow> Addr \<Rightarrow> bool" where
  "prefix_Contains p a \<longleftrightarrow> addr_zone a = [] \<and> BitLen (px_addr p) = BitLen a
     \<and> take (px_bits p) (addr_bits (px_addr p)) = take (px_bits p) (addr_bits a)"

subsection \<open>Facts\<close>

lemma length_addr_bits [simp]: "length (addr_bits a) = BitLen a"
  by (simp add: addr_bits_def)

lemma BitLen_mask [simp]: "BitLen (mask_addr n a) = BitLen a"
  by (cases a) simp_all

lemma Is4_mask [simp]: "Is4 (mask_addr n a) = Is4 a"
  by (cases a) simp_all

lemma addr_bytes_mask [simp]: "addr_bytes (mask_addr n a) = mask_bytes n (addr_bytes a)"
  by (cases a) simp_all

lemma mask_byte_bit:
  assumes "j < 8" "k \<le> 8"
  shows "odd (mask_byte k b div 2 ^ (7 - j)) \<longleftrightarrow> j < k \<and> odd (b div 2 ^ (7 - j))"
proof (cases "j < k")
  case True
  then have "(2::int) ^ (7 - j) = 2 ^ (8 - k) * 2 ^ (k - 1 - j)"
    using assms by (auto simp: power_add[symmetric])
  then have "mask_byte k b div 2 ^ (7 - j) = b div 2 ^ (8 - k) div 2 ^ (k - 1 - j)"
    by (simp add: mask_byte_def div_mult2_eq[symmetric] zdiv_zmult2_eq)
  then show ?thesis using True \<open>2 ^ (7 - j) = 2 ^ (8 - k) * 2 ^ (k - 1 - j)\<close>
    by (simp add: zdiv_zmult2_eq)
next
  case False
  then have e: "(2::int) ^ (8 - k) = 2 ^ (7 - j) * (2 * 2 ^ (j - k))"
    using assms by (simp add: power_add[symmetric] power_Suc[symmetric] del: power_Suc)
  have "mask_byte k b div 2 ^ (7 - j) = (b div 2 ^ (8 - k)) * (2 * 2 ^ (j - k))"
    unfolding mask_byte_def e by (simp add: mult.left_commute[of _ "2 ^ (7 - j)"])
  then show ?thesis using False by simp
qed

lemma addressBit_mask:
  assumes "i div 8 < length (addr_bytes a)"
  shows "addressBit (mask_addr n a) i \<longleftrightarrow> i < n \<and> addressBit a i"
proof -
  have "i mod 8 < min 8 (n - 8 * (i div 8)) \<longleftrightarrow> i < n"
    unfolding min_def by presburger
  then show ?thesis
    using assms mask_byte_bit[of "i mod 8" "min 8 (n - 8 * (i div 8))" "addr_bytes a ! (i div 8)"]
    by (simp add: addressBit_def mask_bytes_def)
qed

lemma take_bits_mask:
  assumes "addr_ok a" "n \<le> BitLen a"
  shows "map (addressBit (mask_addr n a)) [0..<n] = take n (addr_bits a)"
proof -
  have "i div 8 < length (addr_bytes a)" if "i < n" for i
    using that assms by (auto simp: addr_ok_def)
  then show ?thesis
    using assms(2) by (auto simp: addr_bits_def take_map addressBit_mask)
qed

end
