(* ===== verification/Lease_Policy.thy ===== *)
theory Lease_Policy
  imports Net_Addr
begin

text \<open>
  Network leases, first part: targets, the offline allowlist and its checks, of
  \<open>internal/netlease/policy.go\<close>. A Go map used as a set is a set; an error that wraps
  values is a constructor with these values, so that \<open>errors.Is\<close> is a test of the
  constructor.
\<close>

definition MaxLeaseTTL :: duration where
  "MaxLeaseTTL = 10 * go_minute"

datatype lease_error =
    ErrExternalEgressDenied string int | ErrResourceNotAllowed | ErrPolicyEpoch | ErrLeaseExpired
  | ErrLeaseRevoked | ErrLeaseScope | ErrLeaseScopeEpoch | ErrLeaseConsumed | ErrLeaseNotConsumed
  | ErrInvalidLease | ErrLeaseTTL | ErrConfirmationRequired | ErrConfirmationDenied lease_error
  | ErrConfirmationExpired | ErrUsageLimit | ErrConfirmationReplay | ErrTemporaryEgressDenied
  | ErrTemporarySessionUnavailable | ErrTemporarySessionExpired | ErrTemporarySessionRevoked
  | ErrTemporarySessionTTL | ErrAdministratorSessionDenied | ErrAdministratorPasswordDenied
  | ErrConfirmationScope | ErrRandom

text \<open>\<open>err.Error()\<close> of the errors that reach an audit event.\<close>

fun lease_error_text :: "lease_error \<Rightarrow> string" where
  "lease_error_text ErrLeaseExpired = ''socket lease expired''"
| "lease_error_text ErrLeaseRevoked = ''socket lease revoked''"
| "lease_error_text ErrLeaseScope = ''socket lease scope mismatch''"
| "lease_error_text ErrLeaseScopeEpoch = ''socket lease scope mismatch: network policy epoch mismatch''"
| "lease_error_text ErrLeaseConsumed = ''socket lease already consumed''"
| "lease_error_text ErrLeaseNotConsumed = ''socket lease has not been consumed''"
| "lease_error_text ErrInvalidLease = ''invalid socket lease''"
| "lease_error_text ErrConfirmationExpired = ''administrator confirmation expired''"
| "lease_error_text ErrUsageLimit = ''socket lease usage limit exceeded''"
| "lease_error_text _ = []"

subsection \<open>Targets\<close>

record Target =
  tg_Host :: string
  tg_Port :: int
  tg_Protocol :: string

definition safeNetworkToken :: "string \<Rightarrow> bool" where
  "safeNetworkToken value = list_all (\<lambda>r. \<not> (r > 127 \<or> is_space r \<or> is_control r \<or> is_format r)) (runes value)"

definition validOpaque :: "string \<Rightarrow> nat \<Rightarrow> bool" where
  "validOpaque value n \<longleftrightarrow> value \<noteq> [] \<and> length value \<le> n \<and> safeNetworkToken value"

definition safeAuditToken :: "string \<Rightarrow> bool" where
  "safeAuditToken value \<longleftrightarrow> value \<noteq> [] \<and> safeNetworkToken value \<and> length value \<le> 128"

text \<open>\<open>net.ParseIP\<close>: an address without a zone.\<close>

definition ParseIP :: "string \<Rightarrow> bool" where
  "ParseIP s = (case ParseAddr s of None \<Rightarrow> False | Some a \<Rightarrow> addr_zone a = [])"

definition lower_alpha :: "char \<Rightarrow> bool" where
  "lower_alpha c \<longleftrightarrow> 97 \<le> byte c \<and> byte c \<le> 122"

definition host_label :: "string \<Rightarrow> bool" where
  "host_label label \<longleftrightarrow> label \<noteq> [] \<and> length label \<le> 63 \<and> hd label \<noteq> CHR ''-'' \<and> last label \<noteq> CHR ''-''
     \<and> list_all (\<lambda>c. lower_alpha c \<or> is_digit c \<or> c = CHR ''-'') label"

definition validHost :: "string \<Rightarrow> bool" where
  "validHost value \<longleftrightarrow>
     \<not> (value = [] \<or> value \<noteq> trim_space value \<or> value \<noteq> to_lower value \<or> \<not> safeNetworkToken value
        \<or> length value > 253)
     \<and> (ParseIP value
        \<or> \<not> (list_ex (\<lambda>c. c \<in> set (''/?#@:*[]'' @ [char_of (92 :: int)] @ ''%'')) value
              \<or> has_prefix value ''.'' \<or> has_suffix value ''.'' \<or> contains value ''..'')
          \<and> list_all host_label (split_at (CHR ''.'') value)
          \<and> \<not> list_all (list_all is_digit) (split_at (CHR ''.'') value))"

definition validProtocol :: "string \<Rightarrow> bool" where
  "validProtocol value \<longleftrightarrow> value \<noteq> [] \<and> value = to_lower value \<and> length value \<le> 32
     \<and> lower_alpha (hd value)
     \<and> list_all (\<lambda>c. lower_alpha c \<or> is_digit c \<or> c \<in> {CHR ''+'', CHR ''-'', CHR ''.''}) (tl value)"

definition target_Validate :: "Target \<Rightarrow> lease_error option" where
  "target_Validate t = first_error
     [fail_if (\<not> validHost (tg_Host t)) ErrResourceNotAllowed,
      fail_if (tg_Port t \<le> 0 \<or> tg_Port t > 65535) ErrResourceNotAllowed,
      fail_if (\<not> validProtocol (tg_Protocol t)) ErrResourceNotAllowed]"

definition ValidateTLSFingerprint :: "string \<Rightarrow> lease_error option" where
  "ValidateTLSFingerprint value =
     (if length value \<noteq> 71 \<or> \<not> has_prefix value ''sha256:'' then Some ErrInvalidLease
      else if list_all (\<lambda>c. is_digit c \<or> 97 \<le> byte c \<and> byte c \<le> 102) (drop 7 value) then None
      else Some ErrInvalidLease)"

subsection \<open>The allowlist\<close>

record ResourceBinding =
  rb_ID :: string
  rb_Target :: Target

record OfflinePolicy =
  op_internal :: "Target set"
  op_hosts :: "string set"
  op_resourceIDs :: "string \<rightharpoonup> Target"
  op_epoch :: u64

definition newOfflinePolicy :: "Target list \<Rightarrow> (string \<rightharpoonup> Target) \<Rightarrow> u64 \<Rightarrow> OfflinePolicy" where
  "newOfflinePolicy resources ids epoch =
     (let ok = filter (\<lambda>r. target_Validate r = None) resources in
      \<lparr>op_internal = set ok, op_hosts = tg_Host ` set ok,
       op_resourceIDs = (\<lambda>id. case ids id of None \<Rightarrow> None
         | Some t \<Rightarrow> if id \<noteq> [] \<and> target_Validate t = None \<and> t \<in> set ok then Some t else None),
       op_epoch = epoch\<rparr>)"

definition NewOfflinePolicyWithEpoch :: "Target list \<Rightarrow> u64 \<Rightarrow> OfflinePolicy" where
  "NewOfflinePolicyWithEpoch resources epoch = newOfflinePolicy resources Map.empty epoch"

definition NewOfflinePolicy :: "Target list \<Rightarrow> OfflinePolicy" where
  "NewOfflinePolicy resources = newOfflinePolicy resources Map.empty 0"

fun bind_resources :: "ResourceBinding list \<Rightarrow> Target list \<Rightarrow> (string \<rightharpoonup> Target) \<Rightarrow> Target list \<times> (string \<rightharpoonup> Target)" where
  "bind_resources [] resources ids = (resources, ids)"
| "bind_resources (b # bs) resources ids =
     (if rb_ID b \<noteq> [] \<and> \<not> safeNetworkToken (rb_ID b) then bind_resources bs resources ids
      else bind_resources bs (resources @ [rb_Target b])
        (if rb_ID b \<noteq> [] \<and> (case ids (rb_ID b) of None \<Rightarrow> True | Some prior \<Rightarrow> prior = rb_Target b)
         then ids(rb_ID b \<mapsto> rb_Target b) else ids))"

definition NewOfflinePolicyFromBindings :: "ResourceBinding list \<Rightarrow> u64 \<Rightarrow> OfflinePolicy" where
  "NewOfflinePolicyFromBindings bindings epoch =
     (case bind_resources bindings [] Map.empty of (resources, ids) \<Rightarrow> newOfflinePolicy resources ids epoch)"

definition policy_Check :: "OfflinePolicy \<Rightarrow> Target \<Rightarrow> lease_error option" where
  "policy_Check p t =
     (if target_Validate t \<noteq> None then Some ErrResourceNotAllowed
      else if t \<in> op_internal p then None
      else if tg_Host t \<in> op_hosts p then Some ErrResourceNotAllowed
      else Some (ErrExternalEgressDenied (tg_Host t) (tg_Port t)))"

definition CheckAt :: "OfflinePolicy \<Rightarrow> Target \<Rightarrow> u64 \<Rightarrow> lease_error option" where
  "CheckAt p t epoch =
     (if op_epoch p \<noteq> 0 \<and> epoch \<noteq> op_epoch p then Some ErrPolicyEpoch else policy_Check p t)"

definition CheckResource :: "OfflinePolicy \<Rightarrow> string \<Rightarrow> Target \<Rightarrow> u64 \<Rightarrow> lease_error option" where
  "CheckResource p rid t epoch =
     (if \<not> validOpaque rid 256 then Some ErrResourceNotAllowed
      else if op_resourceIDs p rid \<noteq> Some t then Some ErrResourceNotAllowed
      else CheckAt p t epoch)"

record IssueRequest =
  ir_PluginID :: string
  ir_PluginVersion :: string
  ir_Target :: Target
  ir_TLSFingerprint :: string
  ir_PolicyEpoch :: u64
  ir_ConfirmationID :: string
  ir_TTL :: duration
  ir_TemporaryEgress :: bool
  ir_ResourceID :: string
  ir_OperatorID :: string
  ir_ConfirmationExpiresAt :: time
  ir_MaxBytes :: int
  ir_MaxRequests :: int

definition is_external :: "lease_error \<Rightarrow> bool" where
  "is_external e = (case e of ErrExternalEgressDenied _ _ \<Rightarrow> True | _ \<Rightarrow> False)"

text \<open>\<open>len(policy.resourceIDs) > 0\<close> is that the table of names is not empty.\<close>

definition checkIssuePolicy :: "OfflinePolicy \<Rightarrow> IssueRequest \<Rightarrow> bool \<Rightarrow> lease_error option" where
  "checkIssuePolicy p r allowTemporaryEgress =
     (let named = op_resourceIDs p \<noteq> Map.empty;
          policyErr = (if ir_ResourceID r \<noteq> [] then CheckResource p (ir_ResourceID r) (ir_Target r) (ir_PolicyEpoch r)
                       else CheckAt p (ir_Target r) (ir_PolicyEpoch r))
      in if op_epoch p = 0 then Some ErrPolicyEpoch
         else if named \<and> ir_ResourceID r = [] \<and> \<not> ir_TemporaryEgress r then Some ErrResourceNotAllowed
         else if named \<and> ir_ResourceID r = [] \<and> policyErr = None then Some ErrResourceNotAllowed
         else case policyErr of
           None \<Rightarrow> None
         | Some e \<Rightarrow>
             if ir_TemporaryEgress r \<and> ir_ResourceID r \<noteq> [] \<and> is_external e then Some ErrResourceNotAllowed
             else if \<not> (ir_TemporaryEgress r \<and> allowTemporaryEgress \<and> is_external e) then Some e
             else None)"

text \<open>
  What the allowlist lets through: a registered target of the current epoch, under its name
  when names are in use, or, for a temporary egress and without a name, a well-formed target
  on a host that is not registered at all.
\<close>

lemma checkIssuePolicy_None:
  "checkIssuePolicy p r allow = None \<longleftrightarrow>
     op_epoch p \<noteq> 0 \<and> ir_PolicyEpoch r = op_epoch p \<and> target_Validate (ir_Target r) = None
     \<and> (ir_Target r \<in> op_internal p
          \<and> (if ir_ResourceID r \<noteq> [] then validOpaque (ir_ResourceID r) 256
                \<and> op_resourceIDs p (ir_ResourceID r) = Some (ir_Target r)
             else op_resourceIDs p = Map.empty)
        \<or> ir_Target r \<notin> op_internal p \<and> tg_Host (ir_Target r) \<notin> op_hosts p
          \<and> ir_TemporaryEgress r \<and> allow \<and> ir_ResourceID r = [])"
  by (auto simp: checkIssuePolicy_def CheckResource_def CheckAt_def policy_Check_def Let_def is_external_def
      split: option.splits if_splits)

end
