(* ===== verification/Lease_Session.thy ===== *)
theory Lease_Session
  imports Lease_Policy
begin

text \<open>
  Network leases, second part: the temporary administrator sessions and their one-time
  confirmations, of \<open>internal/netlease/session.go\<close>.

  The authenticator is an interface value: its two methods, as they answer during one call, are
  an argument of that call, each true when it raised no error. A fresh identifier is an argument too, absent when the random source
  failed. \<open>pruneLocked\<close> walks a Go map in an order of the runtime's choosing and looks
  at no more than 128 entries: the order is the argument \<open>visit\<close>. A method that gives
  up the mutex to call the authenticator is written as its two critical sections, with the
  state each of them finds.
\<close>

record AdministratorIdentity =
  ai_ID :: string
  ai_ManagementSessionID :: string

definition identity_valid :: "AdministratorIdentity \<Rightarrow> bool" where
  "identity_valid i \<longleftrightarrow> validOpaque (ai_ID i) 256
     \<and> (ai_ManagementSessionID i = [] \<or> validOpaque (ai_ManagementSessionID i) 256)"

record Authenticator =
  au_VerifySession :: "AdministratorIdentity \<Rightarrow> time \<Rightarrow> bool"
  au_VerifyPassword :: "AdministratorIdentity \<Rightarrow> string \<Rightarrow> bool"

record TemporarySession =
  ts_ID :: string
  ts_AdministratorID :: string
  ts_ManagementSessionID :: string
  ts_IssuedAt :: time
  ts_ExpiresAt :: time
  ts_Revoked :: bool

record ConfirmationInput =
  ci_SessionID :: string
  ci_Password :: string
  ci_PluginID :: string
  ci_PluginVersion :: string
  ci_Target :: Target
  ci_TLSFingerprint :: string
  ci_PolicyEpoch :: u64
  ci_TTL :: duration
  ci_MaxBytes :: int

record TemporaryConfirmation =
  tc_ID :: string
  tc_SessionID :: string
  tc_AdministratorID :: string
  tc_PluginID :: string
  tc_PluginVersion :: string
  tc_Target :: Target
  tc_TLSFingerprint :: string
  tc_PolicyEpoch :: u64
  tc_TTL :: duration
  tc_MaxBytes :: int
  tc_IssuedAt :: time
  tc_ExpiresAt :: time
  tc_Used :: bool

record ConfirmationRequest =
  cr_ID :: string
  cr_OperatorID :: string
  cr_PluginID :: string
  cr_PluginVersion :: string
  cr_ResourceID :: string
  cr_Target :: Target
  cr_TLSFingerprint :: string
  cr_PolicyEpoch :: u64
  cr_TTL :: duration
  cr_ConfirmationExpiresAt :: time
  cr_TemporaryEgress :: bool
  cr_MaxBytes :: int

record TemporarySessionManager =
  tm_maxTTL :: duration
  tm_sessions :: "string \<rightharpoonup> TemporarySession"
  tm_confirmations :: "string \<rightharpoonup> TemporaryConfirmation \<times> AdministratorIdentity"

definition NewTemporarySessionManager :: "bool \<Rightarrow> duration \<Rightarrow> lease_error + TemporarySessionManager" where
  "NewTemporarySessionManager hasAuthenticator maxTTL =
     (if \<not> hasAuthenticator then Inl ErrTemporarySessionUnavailable
      else Inr \<lparr>tm_maxTTL = (if maxTTL \<le> 0 \<or> maxTTL > MaxLeaseTTL then MaxLeaseTTL else maxTTL),
             tm_sessions = Map.empty, tm_confirmations = Map.empty\<rparr>)"

text \<open>One pass over a map with a budget of 128 entries.\<close>

definition prune_map :: "string list \<Rightarrow> ('v \<Rightarrow> bool) \<Rightarrow> (string \<rightharpoonup> 'v) \<Rightarrow> (string \<rightharpoonup> 'v)" where
  "prune_map visit due m =
     fold (\<lambda>k m. case m k of None \<Rightarrow> m | Some v \<Rightarrow> if due v then m(k := None) else m) (take 128 visit) m"

definition session_prune :: "string list \<Rightarrow> string list \<Rightarrow> time \<Rightarrow> TemporarySessionManager \<Rightarrow> TemporarySessionManager" where
  "session_prune visit1 visit2 now m = m\<lparr>
     tm_sessions := prune_map visit1 (\<lambda>s. \<not> now < ts_ExpiresAt s + MaxLeaseTTL) (tm_sessions m),
     tm_confirmations := prune_map visit2 (\<lambda>(c, _). \<not> now < tc_ExpiresAt c + MaxLeaseTTL) (tm_confirmations m)\<rparr>"

definition activeSessionLocked :: "string \<Rightarrow> time \<Rightarrow> TemporarySessionManager \<Rightarrow> lease_error + TemporarySession" where
  "activeSessionLocked sid now m =
     (case tm_sessions m sid of
        None \<Rightarrow> Inl ErrTemporarySessionUnavailable
      | Some s \<Rightarrow>
          if ts_Revoked s then Inl ErrTemporarySessionRevoked
          else if \<not> now < ts_ExpiresAt s then Inl ErrTemporarySessionExpired
          else Inr s)"

definition sess_Begin ::
    "Authenticator \<Rightarrow> time \<Rightarrow> string option \<Rightarrow> string list \<Rightarrow> string list \<Rightarrow> AdministratorIdentity \<Rightarrow> duration \<Rightarrow> time
       \<Rightarrow> TemporarySessionManager \<Rightarrow> (lease_error + TemporarySession) \<times> TemporarySessionManager" where
  "sess_Begin au now newID visit1 visit2 identity ttl bound m =
     (if \<not> identity_valid identity \<or> ttl \<le> 0 then (Inl ErrTemporarySessionUnavailable, m)
      else if ttl > tm_maxTTL m then (Inl ErrTemporarySessionTTL, m)
      else if \<not> au_VerifySession au identity now then (Inl ErrAdministratorSessionDenied, m)
      else case newID of
        None \<Rightarrow> (Inl ErrRandom, m)
      | Some sid \<Rightarrow>
          let expiresAt = (if \<not> is_zero_time bound \<and> bound < now + ttl then bound else now + ttl) in
          if \<not> now < expiresAt then (Inl ErrTemporarySessionExpired, m)
          else let session = \<lparr>ts_ID = sid, ts_AdministratorID = ai_ID identity,
                     ts_ManagementSessionID = ai_ManagementSessionID identity, ts_IssuedAt = now,
                     ts_ExpiresAt = expiresAt, ts_Revoked = False\<rparr>;
                   m1 = session_prune visit1 visit2 now m
               in if map_len (tm_sessions m1) \<ge> 65536 then (Inl ErrUsageLimit, m1)
                  else (Inr session, m1\<lparr>tm_sessions := (tm_sessions m1)(sid \<mapsto> session)\<rparr>))"

definition validConfirmationInput :: "ConfirmationInput \<Rightarrow> bool" where
  "validConfirmationInput i \<longleftrightarrow> validOpaque (ci_SessionID i) 256 \<and> ci_Password i \<noteq> []
     \<and> validOpaque (ci_PluginID i) 256 \<and> validOpaque (ci_PluginVersion i) 128
     \<and> target_Validate (ci_Target i) = None \<and> ValidateTLSFingerprint (ci_TLSFingerprint i) = None
     \<and> ci_PolicyEpoch i \<noteq> 0 \<and> 0 < ci_TTL i \<and> ci_TTL i \<le> MaxLeaseTTL \<and> 0 \<le> ci_MaxBytes i"

definition session_identity :: "TemporarySession \<Rightarrow> AdministratorIdentity" where
  "session_identity s = \<lparr>ai_ID = ts_AdministratorID s, ai_ManagementSessionID = ts_ManagementSessionID s\<rparr>"

text \<open>\<open>Confirm\<close> before and after the authenticator was asked.\<close>

definition confirm_begin ::
    "Authenticator \<Rightarrow> time \<Rightarrow> string option \<Rightarrow> ConfirmationInput \<Rightarrow> TemporarySessionManager
       \<Rightarrow> lease_error + TemporaryConfirmation \<times> AdministratorIdentity" where
  "confirm_begin au now newID input m =
     (if \<not> validConfirmationInput input then Inl ErrInvalidLease
      else case activeSessionLocked (ci_SessionID input) now m of
        Inl e \<Rightarrow> Inl e
      | Inr session \<Rightarrow>
          let identity = session_identity session in
          if \<not> au_VerifySession au identity now then Inl ErrAdministratorSessionDenied
          else if \<not> au_VerifyPassword au identity (ci_Password input) then Inl ErrAdministratorPasswordDenied
          else case newID of
            None \<Rightarrow> Inl ErrRandom
          | Some cid \<Rightarrow>
              Inr (\<lparr>tc_ID = cid, tc_SessionID = ts_ID session, tc_AdministratorID = ts_AdministratorID session,
                tc_PluginID = ci_PluginID input, tc_PluginVersion = ci_PluginVersion input,
                tc_Target = ci_Target input, tc_TLSFingerprint = ci_TLSFingerprint input,
                tc_PolicyEpoch = ci_PolicyEpoch input, tc_TTL = ci_TTL input, tc_MaxBytes = ci_MaxBytes input,
                tc_IssuedAt = now,
                tc_ExpiresAt = (if ts_ExpiresAt session < now + ci_TTL input then ts_ExpiresAt session
                                else now + ci_TTL input),
                tc_Used = False\<rparr>, identity))"

definition confirm_end ::
    "time \<Rightarrow> string list \<Rightarrow> string list \<Rightarrow> string \<Rightarrow> TemporaryConfirmation \<times> AdministratorIdentity
       \<Rightarrow> TemporarySessionManager \<Rightarrow> (lease_error + TemporaryConfirmation) \<times> TemporarySessionManager" where
  "confirm_end now visit1 visit2 sid ci m =
     (case activeSessionLocked sid now m of
        Inl e \<Rightarrow> (Inl e, m)
      | Inr _ \<Rightarrow>
          let m1 = session_prune visit1 visit2 now m in
          if map_len (tm_confirmations m1) \<ge> 65536 then (Inl ErrUsageLimit, m1)
          else (Inr (fst ci), m1\<lparr>tm_confirmations := (tm_confirmations m1)(tc_ID (fst ci) \<mapsto> ci)\<rparr>))"

definition sess_Confirm ::
    "Authenticator \<Rightarrow> time \<Rightarrow> string option \<Rightarrow> string list \<Rightarrow> string list \<Rightarrow> ConfirmationInput
       \<Rightarrow> TemporarySessionManager \<Rightarrow> (lease_error + TemporaryConfirmation) \<times> TemporarySessionManager" where
  "sess_Confirm au now newID visit1 visit2 input m =
     (case confirm_begin au now newID input m of
        Inl e \<Rightarrow> (Inl e, m)
      | Inr ci \<Rightarrow> confirm_end now visit1 visit2 (ci_SessionID input) ci m)"

definition validConfirmationRequest :: "ConfirmationRequest \<Rightarrow> bool" where
  "validConfirmationRequest r \<longleftrightarrow> validOpaque (cr_ID r) 256 \<and> validOpaque (cr_OperatorID r) 256
     \<and> validOpaque (cr_PluginID r) 256 \<and> validOpaque (cr_PluginVersion r) 128
     \<and> target_Validate (cr_Target r) = None \<and> ValidateTLSFingerprint (cr_TLSFingerprint r) = None
     \<and> cr_PolicyEpoch r \<noteq> 0 \<and> 0 < cr_TTL r \<and> cr_TTL r \<le> MaxLeaseTTL
     \<and> cr_TemporaryEgress r \<and> cr_ResourceID r = [] \<and> 0 \<le> cr_MaxBytes r"

definition confirmationMatches :: "TemporaryConfirmation \<Rightarrow> ConfirmationRequest \<Rightarrow> bool" where
  "confirmationMatches c r \<longleftrightarrow> tc_ID c = cr_ID r \<and> tc_AdministratorID c = cr_OperatorID r
     \<and> tc_PluginID c = cr_PluginID r \<and> tc_PluginVersion c = cr_PluginVersion r
     \<and> tc_Target c = cr_Target r \<and> tc_TLSFingerprint c = cr_TLSFingerprint r
     \<and> tc_PolicyEpoch c = cr_PolicyEpoch r \<and> tc_TTL c = cr_TTL r \<and> tc_MaxBytes c = cr_MaxBytes r
     \<and> \<not> is_zero_time (cr_ConfirmationExpiresAt r) \<and> tc_ExpiresAt c = cr_ConfirmationExpiresAt r
     \<and> cr_TemporaryEgress r \<and> cr_ResourceID r = []"

text \<open>The checks both critical sections of \<open>ConsumeConfirmation\<close> make.\<close>

definition consume_check ::
    "time \<Rightarrow> ConfirmationRequest \<Rightarrow> TemporarySessionManager
       \<Rightarrow> lease_error + TemporaryConfirmation \<times> AdministratorIdentity" where
  "consume_check now req m =
     (case tm_confirmations m (cr_ID req) of
        None \<Rightarrow> Inl ErrConfirmationRequired
      | Some (c, identity) \<Rightarrow>
          if tc_Used c then Inl ErrConfirmationReplay
          else if \<not> now < tc_ExpiresAt c then Inl ErrConfirmationExpired
          else if \<not> confirmationMatches c req then Inl ErrConfirmationScope
          else case activeSessionLocked (tc_SessionID c) now m of
            Inl e \<Rightarrow> Inl e
          | Inr _ \<Rightarrow> Inr (c, identity))"

definition consume_begin ::
    "Authenticator \<Rightarrow> time \<Rightarrow> ConfirmationRequest \<Rightarrow> TemporarySessionManager \<Rightarrow> lease_error option" where
  "consume_begin au now req m =
     (if \<not> validConfirmationRequest req then Some ErrConfirmationRequired
      else case consume_check now req m of
        Inl e \<Rightarrow> Some e
      | Inr (c, identity) \<Rightarrow>
          if \<not> au_VerifySession au identity now then Some ErrAdministratorSessionDenied else None)"

definition consume_end ::
    "time \<Rightarrow> ConfirmationRequest \<Rightarrow> TemporarySessionManager \<Rightarrow> lease_error option \<times> TemporarySessionManager" where
  "consume_end now req m =
     (case consume_check now req m of
        Inl e \<Rightarrow> (Some e, m)
      | Inr (c, identity) \<Rightarrow>
          (None, m\<lparr>tm_confirmations := (tm_confirmations m)(cr_ID req \<mapsto> (c\<lparr>tc_Used := True\<rparr>, identity))\<rparr>))"

definition ConsumeConfirmation ::
    "Authenticator \<Rightarrow> time \<Rightarrow> ConfirmationRequest \<Rightarrow> TemporarySessionManager
       \<Rightarrow> lease_error option \<times> TemporarySessionManager" where
  "ConsumeConfirmation au now req m =
     (case consume_begin au now req m of Some e \<Rightarrow> (Some e, m) | None \<Rightarrow> consume_end now req m)"

definition sess_Revoke :: "string \<Rightarrow> TemporarySessionManager \<Rightarrow> lease_error option \<times> TemporarySessionManager" where
  "sess_Revoke sid m =
     (if \<not> validOpaque sid 256 then (Some ErrTemporarySessionUnavailable, m)
      else case tm_sessions m sid of
        None \<Rightarrow> (Some ErrTemporarySessionUnavailable, m)
      | Some s \<Rightarrow> (None, m\<lparr>tm_sessions := (tm_sessions m)(sid \<mapsto> s\<lparr>ts_Revoked := True\<rparr>)\<rparr>))"

text \<open>\<open>ValidateActive\<close> over the states its two critical sections find.\<close>

definition ValidateActive ::
    "Authenticator \<Rightarrow> time \<Rightarrow> string \<Rightarrow> TemporarySessionManager \<Rightarrow> TemporarySessionManager
       \<Rightarrow> lease_error + TemporarySession" where
  "ValidateActive au now sid m m' =
     (if \<not> validOpaque sid 256 then Inl ErrTemporarySessionUnavailable
      else case activeSessionLocked sid now m of
        Inl e \<Rightarrow> Inl e
      | Inr s \<Rightarrow>
          if \<not> au_VerifySession au (session_identity s) now then Inl ErrAdministratorSessionDenied
          else activeSessionLocked sid now m')"

definition session_Get :: "string \<Rightarrow> TemporarySessionManager \<Rightarrow> TemporarySession option" where
  "session_Get sid m = tm_sessions m sid"

definition session_Confirmation :: "string \<Rightarrow> TemporarySessionManager \<Rightarrow> TemporaryConfirmation option" where
  "session_Confirmation cid m = map_option fst (tm_confirmations m cid)"

end
