(* ===== verification/Lease_Manager.thy ===== *)
theory Lease_Manager
  imports Lease_Session
begin

text \<open>
  Network leases, third part: the lease manager of \<open>internal/netlease/policy.go\<close>.

  \<open>Issue\<close> gives up the mutex between reading its configuration and storing the lease,
  while the confirmation is verified: \<open>issue_checks\<close> is what it does on the way, on the
  configuration it read, \<open>issue_commit\<close> is the last critical section on the state found
  then, and \<open>lease_Issue\<close> is the whole call without interference. The verifier is an
  argument that returns an error or none. Byte and request counts are integers; the guards
  keep them inside 64 bits. The execution gate orders policy updates and revocations with
  running attempts and has no state of its own.
\<close>

record RequestScope =
  rs_PluginID :: string
  rs_PluginVersion :: string
  rs_Target :: Target
  rs_TLSFingerprint :: string
  rs_PolicyEpoch :: u64
  rs_ResourceID :: string
  rs_OperatorID :: string
  rs_TemporaryEgress :: bool

record Lease =
  le_ID :: string
  le_PluginID :: string
  le_PluginVersion :: string
  le_Target :: Target
  le_TLSFingerprint :: string
  le_PolicyEpoch :: u64
  le_ConfirmationID :: string
  le_ResourceID :: string
  le_OperatorID :: string
  le_IssuedAt :: time
  le_ExpiresAt :: time
  le_ConfirmationExpiresAt :: time
  le_TemporaryEgress :: bool
  le_Revoked :: bool
  le_Consumed :: bool
  le_Completed :: bool
  le_LastResult :: string
  le_MaxBytes :: int
  le_MaxRequests :: int
  le_Bytes :: int
  le_Requests :: int

record LeaseEvent =
  lv_LeaseID :: string
  lv_Action :: string
  lv_PluginID :: string
  lv_PluginVersion :: string
  lv_Target :: Target
  lv_ConfirmationID :: string
  lv_ResourceID :: string
  lv_OperatorID :: string
  lv_TLSFingerprint :: string
  lv_PolicyEpoch :: u64
  lv_TemporaryEgress :: bool
  lv_Bytes :: int
  lv_BytesSent :: int
  lv_BytesReceived :: int
  lv_Requests :: int
  lv_Result :: string
  lv_Reason :: string
  lv_At :: time

record Manager =
  lm_leases :: "string \<rightharpoonup> Lease"
  lm_audit :: "LeaseEvent list"
  lm_policy :: OfflinePolicy
  lm_requirePolicy :: bool
  lm_requireConfirmation :: bool
  lm_hasVerifier :: bool
  lm_consumeConfirmation :: bool
  lm_allowTemporaryEgress :: bool
  lm_confirmations :: "string \<rightharpoonup> time"

definition NewManagerWithOptions ::
    "OfflinePolicy \<Rightarrow> bool \<Rightarrow> bool \<Rightarrow> bool \<Rightarrow> bool \<Rightarrow> bool \<Rightarrow> Manager" where
  "NewManagerWithOptions policy requirePolicy requireConfirmation hasVerifier consumeConfirmation allowTemporaryEgress =
     \<lparr>lm_leases = Map.empty, lm_audit = [], lm_policy = policy, lm_requirePolicy = requirePolicy,
      lm_requireConfirmation = requireConfirmation, lm_hasVerifier = hasVerifier,
      lm_consumeConfirmation = consumeConfirmation, lm_allowTemporaryEgress = allowTemporaryEgress,
      lm_confirmations = Map.empty\<rparr>"

definition NewManager :: Manager where
  "NewManager = NewManagerWithOptions (newOfflinePolicy [] Map.empty 0) False False False False False"

definition NewSecureManager :: "OfflinePolicy \<Rightarrow> bool \<Rightarrow> Manager" where
  "NewSecureManager policy hasVerifier = NewManagerWithOptions policy True False hasVerifier True True"

definition appendAuditLocked :: "LeaseEvent \<Rightarrow> Manager \<Rightarrow> Manager" where
  "appendAuditLocked event m =
     (let audit = (if length (lm_audit m) \<ge> 4096 then drop (length (lm_audit m) - 4096 + 1) (lm_audit m)
                   else lm_audit m)
      in m\<lparr>lm_audit := audit @ [event]\<rparr>)"

definition eventLocked :: "Lease \<Rightarrow> string \<Rightarrow> int \<Rightarrow> int \<Rightarrow> string \<Rightarrow> time \<Rightarrow> LeaseEvent" where
  "eventLocked l action bytes reqs result at =
     \<lparr>lv_LeaseID = le_ID l, lv_Action = action, lv_PluginID = le_PluginID l, lv_PluginVersion = le_PluginVersion l,
      lv_Target = le_Target l, lv_ConfirmationID = le_ConfirmationID l, lv_ResourceID = le_ResourceID l,
      lv_OperatorID = le_OperatorID l, lv_TLSFingerprint = le_TLSFingerprint l, lv_PolicyEpoch = le_PolicyEpoch l,
      lv_TemporaryEgress = le_TemporaryEgress l, lv_Bytes = bytes, lv_BytesSent = 0, lv_BytesReceived = 0,
      lv_Requests = reqs, lv_Result = result, lv_Reason = result, lv_At = at\<rparr>"

definition eventForScope :: "string \<Rightarrow> RequestScope \<Rightarrow> string \<Rightarrow> string \<Rightarrow> time \<Rightarrow> LeaseEvent" where
  "eventForScope leaseID s action result at =
     \<lparr>lv_LeaseID = leaseID, lv_Action = action, lv_PluginID = rs_PluginID s, lv_PluginVersion = rs_PluginVersion s,
      lv_Target = rs_Target s, lv_ConfirmationID = [], lv_ResourceID = rs_ResourceID s,
      lv_OperatorID = rs_OperatorID s, lv_TLSFingerprint = rs_TLSFingerprint s, lv_PolicyEpoch = rs_PolicyEpoch s,
      lv_TemporaryEgress = rs_TemporaryEgress s, lv_Bytes = 0, lv_BytesSent = 0, lv_BytesReceived = 0,
      lv_Requests = 0, lv_Result = result, lv_Reason = result, lv_At = at\<rparr>"

subsection \<open>Policy updates\<close>

definition UpdatePolicy :: "OfflinePolicy \<Rightarrow> Manager \<Rightarrow> lease_error option \<times> Manager" where
  "UpdatePolicy policy m =
     (if op_epoch policy = 0 then (Some ErrPolicyEpoch, m)
      else if lm_requirePolicy m \<and> op_epoch (lm_policy m) \<noteq> 0 \<and> op_epoch policy \<le> op_epoch (lm_policy m)
      then (Some ErrPolicyEpoch, m)
      else (None, m\<lparr>lm_policy := policy, lm_requirePolicy := True\<rparr>))"

subsection \<open>Issuing\<close>

definition lease_prune :: "string list \<Rightarrow> string list \<Rightarrow> time \<Rightarrow> Manager \<Rightarrow> Manager" where
  "lease_prune visit1 visit2 now m = m\<lparr>
     lm_leases := prune_map visit1 (\<lambda>l. \<not> now < le_ExpiresAt l + MaxLeaseTTL) (lm_leases m),
     lm_confirmations := prune_map visit2 (\<lambda>expires. \<not> now < expires) (lm_confirmations m)\<rparr>"

definition at_capacity :: "Manager \<Rightarrow> bool" where
  "at_capacity m \<longleftrightarrow> map_len (lm_leases m) \<ge> 65536 \<or> map_len (lm_confirmations m) \<ge> 65536"

definition confirmation_request :: "IssueRequest \<Rightarrow> ConfirmationRequest" where
  "confirmation_request r = \<lparr>cr_ID = ir_ConfirmationID r, cr_OperatorID = ir_OperatorID r,
     cr_PluginID = ir_PluginID r, cr_PluginVersion = ir_PluginVersion r, cr_ResourceID = ir_ResourceID r,
     cr_Target = ir_Target r, cr_TLSFingerprint = ir_TLSFingerprint r, cr_PolicyEpoch = ir_PolicyEpoch r,
     cr_TTL = ir_TTL r, cr_ConfirmationExpiresAt = ir_ConfirmationExpiresAt r,
     cr_TemporaryEgress = ir_TemporaryEgress r, cr_MaxBytes = ir_MaxBytes r\<rparr>"

definition must_verify :: "Manager \<Rightarrow> IssueRequest \<Rightarrow> bool" where
  "must_verify m r \<longleftrightarrow> lm_hasVerifier m \<and> (lm_requireConfirmation m \<or> ir_TemporaryEgress r)"

text \<open>Everything before the verifier is asked, in the source's order.\<close>

definition issue_checks :: "time \<Rightarrow> IssueRequest \<Rightarrow> Manager \<Rightarrow> lease_error option" where
  "issue_checks now r m = first_error
     [fail_if (\<not> validOpaque (ir_PluginID r) 256 \<or> \<not> validOpaque (ir_PluginVersion r) 128
        \<or> target_Validate (ir_Target r) \<noteq> None \<or> \<not> validOpaque (ir_TLSFingerprint r) 256
        \<or> ir_PolicyEpoch r = 0 \<or> \<not> validOpaque (ir_ConfirmationID r) 256 \<or> ir_TTL r \<le> 0) ErrInvalidLease,
      fail_if ((lm_requirePolicy m \<or> ir_TemporaryEgress r)
        \<and> ValidateTLSFingerprint (ir_TLSFingerprint r) \<noteq> None) ErrInvalidLease,
      fail_if ((ir_ResourceID r \<noteq> [] \<and> \<not> validOpaque (ir_ResourceID r) 256)
        \<or> (ir_OperatorID r \<noteq> [] \<and> \<not> validOpaque (ir_OperatorID r) 128)) ErrInvalidLease,
      fail_if (ir_TTL r > MaxLeaseTTL) ErrLeaseTTL,
      fail_if (ir_MaxBytes r < 0 \<or> ir_MaxRequests r < 0 \<or> ir_MaxRequests r > 1) ErrInvalidLease,
      fail_if (\<not> is_zero_time (ir_ConfirmationExpiresAt r) \<and> \<not> now < ir_ConfirmationExpiresAt r)
        ErrConfirmationExpired,
      (if lm_requirePolicy m then checkIssuePolicy (lm_policy m) r (lm_allowTemporaryEgress m) else None),
      fail_if (ir_TemporaryEgress r \<and> \<not> lm_allowTemporaryEgress m) ErrTemporaryEgressDenied,
      fail_if (ir_TemporaryEgress r \<and> (\<not> validOpaque (ir_OperatorID r) 128 \<or> \<not> lm_hasVerifier m))
        ErrConfirmationRequired,
      fail_if (lm_requireConfirmation m \<and> (\<not> validOpaque (ir_OperatorID r) 128 \<or> \<not> lm_hasVerifier m))
        ErrConfirmationRequired,
      fail_if (must_verify m r \<and> lm_consumeConfirmation m \<and> lm_confirmations m (ir_ConfirmationID r) \<noteq> None)
        ErrConfirmationReplay]"

definition lease_of :: "time \<Rightarrow> string \<Rightarrow> IssueRequest \<Rightarrow> Lease" where
  "lease_of now lid r =
     \<lparr>le_ID = lid, le_PluginID = ir_PluginID r, le_PluginVersion = ir_PluginVersion r, le_Target = ir_Target r,
      le_TLSFingerprint = ir_TLSFingerprint r, le_PolicyEpoch = ir_PolicyEpoch r,
      le_ConfirmationID = ir_ConfirmationID r, le_ResourceID = ir_ResourceID r, le_OperatorID = ir_OperatorID r,
      le_IssuedAt = now,
      le_ExpiresAt = (if \<not> is_zero_time (ir_ConfirmationExpiresAt r) \<and> ir_ConfirmationExpiresAt r < now + ir_TTL r
                      then ir_ConfirmationExpiresAt r else now + ir_TTL r),
      le_ConfirmationExpiresAt = ir_ConfirmationExpiresAt r, le_TemporaryEgress = ir_TemporaryEgress r,
      le_Revoked = False, le_Consumed = False, le_Completed = False, le_LastResult = [],
      le_MaxBytes = ir_MaxBytes r, le_MaxRequests = (if ir_MaxRequests r = 0 then 1 else ir_MaxRequests r),
      le_Bytes = 0, le_Requests = 0\<rparr>"

text \<open>The last critical section; \<open>consuming\<close> was read at the start.\<close>

definition issue_commit ::
    "time \<Rightarrow> string \<Rightarrow> IssueRequest \<Rightarrow> bool \<Rightarrow> Manager \<Rightarrow> (lease_error + Lease) \<times> Manager" where
  "issue_commit now lid r consuming m =
     (case first_error
        [fail_if (lm_requirePolicy m \<and> op_epoch (lm_policy m) \<noteq> ir_PolicyEpoch r) ErrPolicyEpoch,
         (if lm_requirePolicy m then checkIssuePolicy (lm_policy m) r (lm_allowTemporaryEgress m) else None),
         fail_if (consuming \<and> lm_confirmations m (ir_ConfirmationID r) \<noteq> None) ErrConfirmationReplay] of
        Some e \<Rightarrow> (Inl e, m)
      | None \<Rightarrow>
          let l = lease_of now lid r;
              m1 = (if consuming
                    then m\<lparr>lm_confirmations := (lm_confirmations m)(ir_ConfirmationID r \<mapsto> now + MaxLeaseTTL)\<rparr> else m);
              m2 = m1\<lparr>lm_leases := (lm_leases m1)(lid \<mapsto> l)\<rparr>
          in (Inr l, appendAuditLocked (eventLocked l ''issued'' 0 0 ''issued'' now) m2))"

definition lease_Issue ::
    "time \<Rightarrow> time \<Rightarrow> string list \<Rightarrow> string list \<Rightarrow> (ConfirmationRequest \<Rightarrow> lease_error option) \<Rightarrow> string option \<Rightarrow> IssueRequest
       \<Rightarrow> Manager \<Rightarrow> (lease_error + Lease) \<times> Manager" where
  "lease_Issue now0 now visit1 visit2 verifier newID r m0 =
     (let m = lease_prune visit1 visit2 now0 m0 in
      if at_capacity m then (Inl ErrUsageLimit, m)
      else case issue_checks now r m of
        Some e \<Rightarrow> (Inl e, m)
      | None \<Rightarrow>
          (case (if must_verify m r then verifier (confirmation_request r) else None) of
             Some e \<Rightarrow> (Inl (ErrConfirmationDenied e), m)
           | None \<Rightarrow>
          case newID of
            None \<Rightarrow> (Inl ErrRandom, m)
          | Some lid \<Rightarrow> issue_commit now lid r (lm_consumeConfirmation m \<and> must_verify m r) m))"

definition lease_IssueTemporary ::
    "time \<Rightarrow> time \<Rightarrow> string list \<Rightarrow> string list \<Rightarrow> (ConfirmationRequest \<Rightarrow> lease_error option) \<Rightarrow> string option \<Rightarrow> IssueRequest
       \<Rightarrow> Manager \<Rightarrow> (lease_error + Lease) \<times> Manager" where
  "lease_IssueTemporary now0 now visit1 visit2 verifier newID r m =
     lease_Issue now0 now visit1 visit2 verifier newID (r\<lparr>ir_TemporaryEgress := True\<rparr>) m"

subsection \<open>Using a lease\<close>

definition leaseMatchesScope :: "Lease \<Rightarrow> RequestScope \<Rightarrow> bool" where
  "leaseMatchesScope l s \<longleftrightarrow> le_PluginID l = rs_PluginID s \<and> le_PluginVersion l = rs_PluginVersion s
     \<and> le_Target l = rs_Target s \<and> le_TLSFingerprint l = rs_TLSFingerprint s
     \<and> le_PolicyEpoch l = rs_PolicyEpoch s \<and> le_ResourceID l = rs_ResourceID s
     \<and> le_OperatorID l = rs_OperatorID s \<and> le_TemporaryEgress l = rs_TemporaryEgress s"

definition validateLocked :: "string \<Rightarrow> RequestScope \<Rightarrow> time \<Rightarrow> Manager \<Rightarrow> lease_error + Lease" where
  "validateLocked lid s now m =
     (case lm_leases m lid of
        None \<Rightarrow> Inl ErrInvalidLease
      | Some l \<Rightarrow>
          if le_Revoked l then Inl ErrLeaseRevoked
          else if \<not> is_zero_time (le_ConfirmationExpiresAt l) \<and> \<not> now < le_ConfirmationExpiresAt l
          then Inl ErrConfirmationExpired
          else if \<not> now < le_ExpiresAt l then Inl ErrLeaseExpired
          else if lm_requirePolicy m \<and> op_epoch (lm_policy m) \<noteq> 0 \<and> le_PolicyEpoch l \<noteq> op_epoch (lm_policy m)
          then Inl ErrLeaseScopeEpoch
          else if \<not> leaseMatchesScope l s then Inl ErrLeaseScope
          else Inr l)"

definition lease_Authorize :: "time \<Rightarrow> string \<Rightarrow> RequestScope \<Rightarrow> Manager \<Rightarrow> lease_error option \<times> Manager" where
  "lease_Authorize now lid s m =
     (case validateLocked lid s now m of
        Inl e \<Rightarrow> (Some e, appendAuditLocked (eventForScope lid s ''authorization_denied'' (lease_error_text e) now) m)
      | Inr l \<Rightarrow>
          if le_Consumed l then (Some ErrLeaseConsumed, appendAuditLocked (eventLocked l ''authorization_denied'' 0
              (le_Requests l) (lease_error_text ErrLeaseConsumed) now) m)
          else (None, appendAuditLocked (eventLocked l ''authorized'' 0 0 ''authorized'' now) m))"

definition consumeLocked :: "string \<Rightarrow> RequestScope \<Rightarrow> time \<Rightarrow> Manager \<Rightarrow> (lease_error + Lease) \<times> Manager" where
  "consumeLocked lid s now m =
     (case validateLocked lid s now m of
        Inl e \<Rightarrow> (Inl e, appendAuditLocked (eventForScope lid s ''consume_denied'' (lease_error_text e) now) m)
      | Inr l \<Rightarrow>
          if le_Consumed l then (Inl ErrLeaseConsumed, appendAuditLocked (eventLocked l ''consume_denied'' 0
              (le_Requests l) (lease_error_text ErrLeaseConsumed) now) m)
          else if le_MaxRequests l > 0 \<and> le_Requests l \<ge> le_MaxRequests l
          then (Inl ErrUsageLimit, appendAuditLocked (eventLocked l ''consume_denied'' 0 (le_Requests l)
              (lease_error_text ErrUsageLimit) now) m)
          else let l' = l\<lparr>le_Consumed := True, le_Requests := le_Requests l + 1\<rparr>
               in (Inr l', appendAuditLocked (eventLocked l' ''consumed'' 0 (le_Requests l') ''consumed'' now)
                     (m\<lparr>lm_leases := (lm_leases m)(le_ID l' \<mapsto> l')\<rparr>)))"

text \<open>\<open>Consume\<close>, \<open>AuthorizeOnce\<close> and the state part of \<open>AcquireUse\<close>.\<close>

definition lease_Consume :: "time \<Rightarrow> string \<Rightarrow> RequestScope \<Rightarrow> Manager \<Rightarrow> lease_error option \<times> Manager" where
  "lease_Consume now lid s m =
     (case consumeLocked lid s now m of (Inl e, m') \<Rightarrow> (Some e, m') | (Inr _, m') \<Rightarrow> (None, m'))"

definition AcquireUse :: "time \<Rightarrow> string \<Rightarrow> RequestScope \<Rightarrow> Manager \<Rightarrow> (lease_error + Lease) \<times> Manager" where
  "AcquireUse now lid s m = consumeLocked lid s now m"

text \<open>
  The common end of \<open>RecordUsage\<close>, \<open>RecordTransfer\<close> and
  \<open>RecordTransferFinal\<close> once the lease was found.
\<close>

definition record_result ::
    "time \<Rightarrow> Lease \<Rightarrow> int \<Rightarrow> int \<Rightarrow> int \<Rightarrow> string \<Rightarrow> Manager \<Rightarrow> lease_error option \<times> Manager" where
  "record_result now l bytes sent received result m =
     (if \<not> le_Consumed l then (Some ErrLeaseNotConsumed, appendAuditLocked (eventLocked l ''result_denied'' 0
          (le_Requests l) (lease_error_text ErrLeaseNotConsumed) now) m)
      else if le_Completed l then (Some ErrLeaseConsumed, appendAuditLocked (eventLocked l ''result_denied'' 0
          (le_Requests l) (lease_error_text ErrLeaseConsumed) now) m)
      else if le_MaxBytes l > 0 \<and> le_Bytes l > le_MaxBytes l - bytes
      then (Some ErrUsageLimit, appendAuditLocked (eventLocked l ''result_denied'' bytes (le_Requests l)
          (lease_error_text ErrUsageLimit) now) m)
      else let l' = l\<lparr>le_Bytes := le_Bytes l + bytes, le_Completed := True, le_LastResult := result\<rparr>
           in (None, appendAuditLocked ((eventLocked l' ''result'' bytes (le_Requests l') result now)
                       \<lparr>lv_BytesSent := sent, lv_BytesReceived := received\<rparr>)
                 (m\<lparr>lm_leases := (lm_leases m)(le_ID l' \<mapsto> l')\<rparr>)))"

definition lease_RecordUsage ::
    "time \<Rightarrow> string \<Rightarrow> RequestScope \<Rightarrow> int \<Rightarrow> string \<Rightarrow> Manager \<Rightarrow> lease_error option \<times> Manager" where
  "lease_RecordUsage now lid s bytes result m =
     (if bytes < 0 \<or> \<not> safeAuditToken result then (Some ErrInvalidLease, m)
      else case validateLocked lid s now m of
        Inl e \<Rightarrow> (Some e, appendAuditLocked (eventForScope lid s ''result_denied'' (lease_error_text e) now) m)
      | Inr l \<Rightarrow> record_result now l bytes 0 0 result m)"

definition usage_invalid :: "int \<Rightarrow> int \<Rightarrow> string \<Rightarrow> bool" where
  "usage_invalid sent received result \<longleftrightarrow> sent < 0 \<or> received < 0 \<or> sent > max_duration - received
     \<or> \<not> safeAuditToken result"

definition lease_RecordTransfer ::
    "time \<Rightarrow> string \<Rightarrow> RequestScope \<Rightarrow> int \<Rightarrow> int \<Rightarrow> string \<Rightarrow> Manager \<Rightarrow> lease_error option \<times> Manager" where
  "lease_RecordTransfer now lid s sent received result m =
     (if usage_invalid sent received result then (Some ErrInvalidLease, m)
      else case validateLocked lid s now m of
        Inl e \<Rightarrow> (Some e, appendAuditLocked (eventForScope lid s ''result_denied'' (lease_error_text e) now) m)
      | Inr l \<Rightarrow> record_result now l (sent + received) sent received result m)"

definition lease_RecordTransferFinal ::
    "time \<Rightarrow> string \<Rightarrow> RequestScope \<Rightarrow> int \<Rightarrow> int \<Rightarrow> string \<Rightarrow> Manager \<Rightarrow> lease_error option \<times> Manager" where
  "lease_RecordTransferFinal now lid s sent received result m =
     (if usage_invalid sent received result then (Some ErrInvalidLease, m)
      else case lm_leases m lid of
        None \<Rightarrow> (Some ErrInvalidLease, appendAuditLocked (eventForScope lid s ''result_denied''
                   (lease_error_text ErrInvalidLease) now) m)
      | Some l \<Rightarrow>
          if \<not> leaseMatchesScope l s
          then (Some ErrLeaseScope, appendAuditLocked (eventForScope lid s ''result_denied''
                   (lease_error_text ErrLeaseScope) now) m)
          else record_result now l (sent + received) sent received result m)"

definition lease_Revoke :: "time \<Rightarrow> string \<Rightarrow> Manager \<Rightarrow> lease_error option \<times> Manager" where
  "lease_Revoke now lid m =
     (case lm_leases m lid of
        None \<Rightarrow> (Some ErrInvalidLease, m)
      | Some l \<Rightarrow>
          if le_Revoked l then (None, m)
          else let l' = l\<lparr>le_Revoked := True\<rparr>
               in (None, appendAuditLocked (eventLocked l' ''revoked'' 0 (le_Requests l') ''revoked'' now)
                     (m\<lparr>lm_leases := (lm_leases m)(lid \<mapsto> l')\<rparr>)))"

definition lease_Get :: "string \<Rightarrow> Manager \<Rightarrow> Lease option" where
  "lease_Get lid m = lm_leases m lid"

definition lease_Audit :: "Manager \<Rightarrow> LeaseEvent list" where
  "lease_Audit m = lm_audit m"

end
