(* ===== verification/Lease_Properties.thy ===== *)
theory Lease_Properties
  imports Lease_Manager
begin

text \<open>
  Properties of network leases: what a use of a lease proves, the fence of a policy update, and
  the whole path of a temporary egress, from the administrator's password to the one
  connection it pays for, under every interleaving of the managers' critical sections.
\<close>

subsection \<open>Frame facts\<close>

lemma appendAudit_frame [simp]:
  "lm_leases (appendAuditLocked e m) = lm_leases m" "lm_policy (appendAuditLocked e m) = lm_policy m"
  "lm_requirePolicy (appendAuditLocked e m) = lm_requirePolicy m"
  "lm_confirmations (appendAuditLocked e m) = lm_confirmations m"
  "lm_hasVerifier (appendAuditLocked e m) = lm_hasVerifier m"
  by (simp_all add: appendAuditLocked_def Let_def)

lemma prune_map_le: "prune_map visit due m \<subseteq>\<^sub>m m"
proof -
  have "fold (\<lambda>k m. case m k of None \<Rightarrow> m | Some v \<Rightarrow> if due v then m(k := None) else m) ks m \<subseteq>\<^sub>m m" for ks
  proof (induction ks arbitrary: m)
    case (Cons k ks)
    let ?m = "case m k of None \<Rightarrow> m | Some v \<Rightarrow> if due v then m(k := None) else m"
    have "?m \<subseteq>\<^sub>m m" by (auto simp: map_le_def split: option.split)
    then show ?case using Cons[of ?m] by (auto intro: map_le_trans)
  qed simp
  then show ?thesis by (simp add: prune_map_def)
qed

lemma prune_map_Some: "prune_map visit due m k = Some v \<Longrightarrow> m k = Some v"
  using prune_map_le[of visit due m] by (auto simp: map_le_def dom_def)

lemma validateLocked_Inr:
  "validateLocked lid s now m = Inr l \<longleftrightarrow> lm_leases m lid = Some l \<and> \<not> le_Revoked l
     \<and> (is_zero_time (le_ConfirmationExpiresAt l) \<or> now < le_ConfirmationExpiresAt l)
     \<and> now < le_ExpiresAt l
     \<and> (lm_requirePolicy m \<and> op_epoch (lm_policy m) \<noteq> 0 \<longrightarrow> le_PolicyEpoch l = op_epoch (lm_policy m))
     \<and> leaseMatchesScope l s"
  by (auto simp: validateLocked_def split: option.splits)

lemma consumeLocked_Inr:
  assumes "consumeLocked lid s now m = (Inr l, m')"
  obtains l0 where "validateLocked lid s now m = Inr l0" "\<not> le_Consumed l0"
    "l = l0\<lparr>le_Consumed := True, le_Requests := le_Requests l0 + 1\<rparr>"
    "lm_leases m' = (lm_leases m)(le_ID l0 \<mapsto> l)" "lm_policy m' = lm_policy m" "lm_requirePolicy m' = lm_requirePolicy m"
  using assms by (auto simp: consumeLocked_def Let_def split: sum.splits if_splits)

lemma consumeLocked_Inl:
  "consumeLocked lid s now m = (Inl e, m') \<Longrightarrow> lm_leases m' = lm_leases m \<and> lm_policy m' = lm_policy m
     \<and> lm_requirePolicy m' = lm_requirePolicy m"
  by (auto simp: consumeLocked_def Let_def split: sum.splits if_splits)

subsection \<open>The lease manager's other operations\<close>

text \<open>
  What never happens to a stored lease: the fields fixed when it was issued do not change, a
  spent or revoked lease stays so, and a result, once recorded, stays.
\<close>

definition later_lease :: "Lease \<Rightarrow> Lease \<Rightarrow> bool" where
  "later_lease l k \<longleftrightarrow> le_ID k = le_ID l \<and> le_PluginID k = le_PluginID l \<and> le_PluginVersion k = le_PluginVersion l
     \<and> le_Target k = le_Target l \<and> le_TLSFingerprint k = le_TLSFingerprint l \<and> le_PolicyEpoch k = le_PolicyEpoch l
     \<and> le_ConfirmationID k = le_ConfirmationID l \<and> le_ResourceID k = le_ResourceID l
     \<and> le_OperatorID k = le_OperatorID l \<and> le_IssuedAt k = le_IssuedAt l \<and> le_ExpiresAt k = le_ExpiresAt l
     \<and> le_ConfirmationExpiresAt k = le_ConfirmationExpiresAt l \<and> le_TemporaryEgress k = le_TemporaryEgress l
     \<and> le_MaxBytes k = le_MaxBytes l
     \<and> (le_Consumed l \<longrightarrow> le_Consumed k) \<and> (le_Revoked l \<longrightarrow> le_Revoked k)
     \<and> (le_Completed l \<longrightarrow> le_Completed k \<and> le_Bytes k = le_Bytes l \<and> le_LastResult k = le_LastResult l)"

lemma later_lease_refl [simp]: "later_lease l l"
  by (simp add: later_lease_def)

lemma later_lease_trans: "later_lease l k \<Longrightarrow> later_lease k j \<Longrightarrow> later_lease l j"
  by (auto simp: later_lease_def)

definition keyed :: "(string \<rightharpoonup> Lease) \<Rightarrow> bool" where
  "keyed ls \<longleftrightarrow> (\<forall>i l. ls i = Some l \<longrightarrow> le_ID l = i)"

text \<open>The operations that neither issue nor consume: each stored lease is a later version of
  one stored before.\<close>

inductive lease_other :: "Manager \<Rightarrow> Manager \<Rightarrow> bool" where
  prune: "lease_other m (lease_prune v1 v2 now m)"
| policy: "lease_other m (snd (UpdatePolicy p m))"
| authorize: "lease_other m (snd (lease_Authorize now lid s m))"
| usage: "lease_other m (snd (lease_RecordUsage now lid s bytes result m))"
| transfer: "lease_other m (snd (lease_RecordTransfer now lid s sent received result m))"
| final_transfer: "lease_other m (snd (lease_RecordTransferFinal now lid s sent received result m))"
| revoke: "lease_other m (snd (lease_Revoke now lid m))"
| refused: "consumeLocked lid s now m = (Inl e, m') \<Longrightarrow> lease_other m m'"

text \<open>What one such operation may do to a stored lease.\<close>

definition lease_step :: "Lease \<Rightarrow> Lease \<Rightarrow> bool" where
  "lease_step j k \<longleftrightarrow> k = j \<or> k = j\<lparr>le_Revoked := True\<rparr>
     \<or> le_Consumed j \<and> \<not> le_Completed j \<and> (\<exists>b res. 0 \<le> b \<and> (0 < le_MaxBytes j \<longrightarrow> le_Bytes j + b \<le> le_MaxBytes j)
          \<and> k = j\<lparr>le_Bytes := le_Bytes j + b, le_Completed := True, le_LastResult := res\<rparr>)"

lemma lease_step_refl [simp]: "lease_step j j"
  by (simp add: lease_step_def)

lemma lease_step_later: "lease_step j k \<Longrightarrow> later_lease j k"
  by (auto simp: lease_step_def later_lease_def)

lemma record_result_step:
  assumes "keyed (lm_leases m)" "lm_leases m lid = Some l" "0 \<le> b"
    "lm_leases (snd (record_result now l b x y res m)) i = Some k"
  shows "\<exists>j. lm_leases m i = Some j \<and> lease_step j k"
proof -
  have id: "le_ID l = lid" using assms(1,2) by (simp add: keyed_def)
  show ?thesis
  proof (cases "i = lid \<and> le_Consumed l \<and> \<not> le_Completed l \<and> \<not> (le_MaxBytes l > 0 \<and> le_Bytes l > le_MaxBytes l - b)")
    case True
    then have "k = l\<lparr>le_Bytes := le_Bytes l + b, le_Completed := True, le_LastResult := res\<rparr>"
      using assms(4) id by (auto simp: record_result_def Let_def)
    then have "lease_step l k" using True assms(3) unfolding lease_step_def by auto
    then show ?thesis using True assms(2) by blast
  next
    case False
    then have "lm_leases m i = Some k" using assms(4) id by (auto simp: record_result_def Let_def split: if_splits)
    then show ?thesis by simp
  qed
qed

lemma lease_other_step:
  assumes "lease_other m m'" "keyed (lm_leases m)" "lm_leases m' i = Some k"
  shows "\<exists>j. lm_leases m i = Some j \<and> lease_step j k"
  using assms(1)
proof cases
  case (prune v1 v2 now)
  then show ?thesis using assms(3) by (auto simp: lease_prune_def dest!: prune_map_Some)
next
  case (policy p)
  then show ?thesis using assms(3) by (auto simp: UpdatePolicy_def split: if_splits)
next
  case (authorize now lid s)
  then show ?thesis using assms(3) by (auto simp: lease_Authorize_def split: sum.splits if_splits)
next
  case (usage now lid s bytes result)
  show ?thesis
  proof (cases "\<exists>l. validateLocked lid s now m = Inr l \<and> \<not> (bytes < 0 \<or> \<not> safeAuditToken result)")
    case True
    then obtain l where l: "validateLocked lid s now m = Inr l"
      "m' = snd (record_result now l bytes 0 0 result m)" "0 \<le> bytes" using usage by (auto simp: lease_RecordUsage_def)
    then have "lm_leases m lid = Some l" by (simp add: validateLocked_Inr)
    from record_result_step[OF assms(2) this] show ?thesis using assms(3) l(2,3) by blast
  next
    case False
    then show ?thesis using usage assms(3)
      by (cases "validateLocked lid s now m") (auto simp: lease_RecordUsage_def split: if_splits)
  qed
next
  case (transfer now lid s sent received result)
  show ?thesis
  proof (cases "\<exists>l. validateLocked lid s now m = Inr l \<and> \<not> usage_invalid sent received result")
    case True
    then obtain l where l: "validateLocked lid s now m = Inr l"
      "m' = snd (record_result now l (sent + received) sent received result m)" "0 \<le> sent + received"
      using transfer by (auto simp: lease_RecordTransfer_def usage_invalid_def)
    then have "lm_leases m lid = Some l" by (simp add: validateLocked_Inr)
    from record_result_step[OF assms(2) this] show ?thesis using assms(3) l(2,3) by blast
  next
    case False
    then show ?thesis using transfer assms(3)
      by (cases "validateLocked lid s now m") (auto simp: lease_RecordTransfer_def split: if_splits)
  qed
next
  case (final_transfer now lid s sent received result)
  show ?thesis
  proof (cases "\<exists>l. lm_leases m lid = Some l \<and> leaseMatchesScope l s \<and> \<not> usage_invalid sent received result")
    case True
    then obtain l where l: "lm_leases m lid = Some l"
      "m' = snd (record_result now l (sent + received) sent received result m)" "0 \<le> sent + received"
      using final_transfer by (auto simp: lease_RecordTransferFinal_def usage_invalid_def)
    from record_result_step[OF assms(2) l(1)] show ?thesis using assms(3) l(2,3) by blast
  next
    case False
    then show ?thesis using final_transfer assms(3)
      by (cases "lm_leases m lid") (auto simp: lease_RecordTransferFinal_def split: if_splits)
  qed
next
  case (revoke now lid)
  then show ?thesis using assms(3)
    by (auto simp: lease_Revoke_def Let_def lease_step_def split: option.splits if_splits)
next
  case (refused lid s now e)
  then show ?thesis using assms(3) consumeLocked_Inl by auto
qed

lemma lease_other_later:
  "lease_other m m' \<Longrightarrow> keyed (lm_leases m) \<Longrightarrow> lm_leases m' i = Some k \<Longrightarrow> \<exists>j. lm_leases m i = Some j \<and> later_lease j k"
  using lease_other_step lease_step_later by blast

lemma record_result_policy [simp]:
  "lm_requirePolicy (snd (record_result now l b x y res m)) = lm_requirePolicy m"
  "lm_policy (snd (record_result now l b x y res m)) = lm_policy m"
  by (simp_all add: record_result_def Let_def)

lemma lease_other_policy:
  assumes "lease_other m m'" "lm_requirePolicy m"
  shows "lm_requirePolicy m' \<and> (lm_policy m' = lm_policy m \<or> op_epoch (lm_policy m) < op_epoch (lm_policy m'))"
  using assms
proof cases
  case (policy p)
  then show ?thesis using assms(2) by (auto simp: UpdatePolicy_def word_neq_0_conv not_le)
next
  case (refused lid s now e)
  then show ?thesis using assms(2) consumeLocked_Inl by auto
qed (use assms(2) in \<open>simp_all add: lease_prune_def lease_Authorize_def lease_RecordUsage_def lease_RecordTransfer_def
       lease_RecordTransferFinal_def lease_Revoke_def Let_def split: sum.split option.split\<close>)

subsection \<open>The two managers together\<close>

text \<open>
  The state of both managers, with what an observer records: the requests whose confirmation
  the verifier has consumed and that are not stored yet, the confirmations minted, the leases
  issued and the leases taken into use, in order, and the identifiers drawn so far. The
  critical sections interleave freely; an identifier is drawn once, as 128 random bits are.
  What the authenticator answers may change from call to call: \<open>au i\<close> is how it answers during
  the call that draws the identifier \<open>i\<close>.
\<close>

record egress =
  eg_leases :: Manager
  eg_sessions :: TemporarySessionManager
  eg_verified :: "IssueRequest list"
  eg_minted :: "TemporaryConfirmation list"
  eg_issued :: "Lease list"
  eg_used :: "Lease list"
  eg_ids :: "string set"

inductive egress_step :: "(string \<Rightarrow> Authenticator) \<Rightarrow> egress \<Rightarrow> egress \<Rightarrow> bool" for au where
  session: "i \<notin> eg_ids st \<Longrightarrow> egress_step au st (st\<lparr>
     eg_sessions := snd (sess_Begin (au i) now (Some i) v1 v2 identity ttl bound (eg_sessions st)),
     eg_ids := insert i (eg_ids st)\<rparr>)"
| mint: "i \<notin> eg_ids st \<Longrightarrow> confirm_begin (au i) now (Some i) input m0 = Inr ci \<Longrightarrow>
     confirm_end now v1 v2 (ci_SessionID input) ci (eg_sessions st) = (Inr c, m') \<Longrightarrow>
     egress_step au st (st\<lparr>eg_sessions := m', eg_minted := c # eg_minted st, eg_ids := insert i (eg_ids st)\<rparr>)"
| mint_failed: "confirm_end now v1 v2 sid ci (eg_sessions st) = (Inl e, m') \<Longrightarrow>
     egress_step au st (st\<lparr>eg_sessions := m'\<rparr>)"
| revoke_session: "egress_step au st (st\<lparr>eg_sessions := snd (sess_Revoke sid (eg_sessions st))\<rparr>)"
| verify: "consume_end now (confirmation_request r) (eg_sessions st) = (None, m') \<Longrightarrow>
     egress_step au st (st\<lparr>eg_sessions := m', eg_verified := r # eg_verified st\<rparr>)"
| abandon: "egress_step au st (st\<lparr>eg_verified := remove1 r (eg_verified st)\<rparr>)"
| issue: "i \<notin> eg_ids st \<Longrightarrow> issue_checks now r m0 = None \<Longrightarrow>
     (must_verify m0 r \<Longrightarrow> r \<in> set (eg_verified st)) \<Longrightarrow>
     issue_commit now i r (lm_consumeConfirmation m0 \<and> must_verify m0 r) (eg_leases st) = (Inr l, m') \<Longrightarrow>
     egress_step au st (st\<lparr>eg_leases := m', eg_issued := l # eg_issued st, eg_ids := insert i (eg_ids st),
       eg_verified := (if must_verify m0 r then remove1 r (eg_verified st) else eg_verified st)\<rparr>)"
| use: "consumeLocked lid s now (eg_leases st) = (Inr l, m') \<Longrightarrow>
     egress_step au st (st\<lparr>eg_leases := m', eg_used := l # eg_used st\<rparr>)"
| other: "lease_other (eg_leases st) m' \<Longrightarrow> egress_step au st (st\<lparr>eg_leases := m'\<rparr>)"

inductive egress_run :: "(string \<Rightarrow> Authenticator) \<Rightarrow> egress \<Rightarrow> egress \<Rightarrow> bool" for au st0 where
  start: "egress_run au st0 st0"
| step: "egress_run au st0 st \<Longrightarrow> egress_step au st st' \<Longrightarrow> egress_run au st0 st'"

definition egress_start :: "Manager \<Rightarrow> TemporarySessionManager \<Rightarrow> egress" where
  "egress_start lm sm = \<lparr>eg_leases = lm, eg_sessions = sm, eg_verified = [], eg_minted = [], eg_issued = [],
     eg_used = [], eg_ids = {}\<rparr>"

text \<open>A temporary lease is bound to the confirmation it was issued for.\<close>

definition bound_to :: "TemporaryConfirmation \<Rightarrow> Lease \<Rightarrow> bool" where
  "bound_to c l \<longleftrightarrow> tc_ID c = le_ConfirmationID l \<and> tc_AdministratorID c = le_OperatorID l
     \<and> tc_PluginID c = le_PluginID l \<and> tc_PluginVersion c = le_PluginVersion l \<and> tc_Target c = le_Target l
     \<and> tc_TLSFingerprint c = le_TLSFingerprint l \<and> tc_PolicyEpoch c = le_PolicyEpoch l
     \<and> tc_MaxBytes c = le_MaxBytes l \<and> le_ExpiresAt l \<le> tc_ExpiresAt c"

definition spent :: "TemporarySessionManager \<Rightarrow> string \<Rightarrow> bool" where
  "spent m cid \<longleftrightarrow> (case tm_confirmations m cid of None \<Rightarrow> True | Some (c, _) \<Rightarrow> tc_Used c)"

abbreviation temporaries :: "Lease list \<Rightarrow> Lease list" where
  "temporaries \<equiv> filter le_TemporaryEgress"

text \<open>The invariant on the lease side.\<close>

definition leases_inv :: "egress \<Rightarrow> bool" where
  "leases_inv st \<longleftrightarrow> keyed (lm_leases (eg_leases st))
     \<and> (\<forall>i l. lm_leases (eg_leases st) i = Some l \<longrightarrow> (\<exists>k\<in>set (eg_issued st). later_lease k l))
     \<and> le_ID ` set (eg_issued st) \<subseteq> eg_ids st \<and> distinct (map le_ID (eg_issued st))
     \<and> distinct (map le_ID (eg_used st))
     \<and> (\<forall>l\<in>set (eg_used st). (\<exists>k\<in>set (eg_issued st). later_lease k l)
          \<and> (\<forall>j. lm_leases (eg_leases st) (le_ID l) = Some j \<longrightarrow> le_Consumed j))"

text \<open>The invariant on the confirmation side.\<close>

definition verified_match :: "TemporaryConfirmation \<Rightarrow> IssueRequest \<Rightarrow> bool" where
  "verified_match c r \<longleftrightarrow> confirmationMatches c (confirmation_request r)"

definition confirmations_inv :: "egress \<Rightarrow> bool" where
  "confirmations_inv st \<longleftrightarrow>
     (\<forall>i c a. tm_confirmations (eg_sessions st) i = Some (c, a) \<longrightarrow> tc_ID c = i \<and> i \<in> eg_ids st
        \<and> (\<exists>c0\<in>set (eg_minted st). c = c0 \<or> c = c0\<lparr>tc_Used := True\<rparr>))
     \<and> distinct (map ir_ConfirmationID (eg_verified st) @ map le_ConfirmationID (temporaries (eg_issued st)))
     \<and> (\<forall>r\<in>set (eg_verified st). spent (eg_sessions st) (ir_ConfirmationID r) \<and> ir_ConfirmationID r \<in> eg_ids st
          \<and> ir_TemporaryEgress r \<and> (\<exists>c\<in>set (eg_minted st). verified_match c r))
     \<and> (\<forall>l\<in>set (temporaries (eg_issued st)). spent (eg_sessions st) (le_ConfirmationID l)
          \<and> le_ConfirmationID l \<in> eg_ids st \<and> (\<exists>c\<in>set (eg_minted st). bound_to c l))"

lemma issue_commit_Inr:
  assumes "issue_commit now i r consuming m = (Inr l, m')"
  shows "l = lease_of now i r" "lm_leases m' = (lm_leases m)(i \<mapsto> l)" "lm_policy m' = lm_policy m"
    "lm_requirePolicy m' = lm_requirePolicy m"
    "lm_requirePolicy m \<Longrightarrow> op_epoch (lm_policy m) = ir_PolicyEpoch r
       \<and> checkIssuePolicy (lm_policy m) r (lm_allowTemporaryEgress m) = None"
  using assms by (auto simp: issue_commit_def Let_def split: option.splits if_splits)

lemma lease_of_simps [simp]:
  "le_ID (lease_of now i r) = i" "le_TemporaryEgress (lease_of now i r) = ir_TemporaryEgress r"
  "le_ConfirmationID (lease_of now i r) = ir_ConfirmationID r" "\<not> le_Consumed (lease_of now i r)"
  by (simp_all add: lease_of_def)

lemma leases_inv_other:
  assumes "leases_inv st" "lease_other (eg_leases st) m'"
  shows "leases_inv (st\<lparr>eg_leases := m'\<rparr>)"
proof -
  have k: "keyed (lm_leases (eg_leases st))" using assms(1) by (simp add: leases_inv_def)
  have lat: "\<exists>j. lm_leases (eg_leases st) i = Some j \<and> later_lease j l" if "lm_leases m' i = Some l" for i l
    using lease_other_later[OF assms(2) k that] .
  have "keyed (lm_leases m')" using lat k unfolding keyed_def later_lease_def by metis
  moreover have "\<exists>k\<in>set (eg_issued st). later_lease k l" if "lm_leases m' i = Some l" for i l
    using lat[OF that] assms(1) later_lease_trans unfolding leases_inv_def by metis
  moreover have "le_Consumed j" if "l \<in> set (eg_used st)" "lm_leases m' (le_ID l) = Some j" for l j
    using lat[OF that(2)] assms(1) that(1) unfolding leases_inv_def later_lease_def by metis
  ultimately show ?thesis using assms(1) unfolding leases_inv_def by auto
qed

lemma leases_inv_issue:
  assumes "leases_inv st" "i \<notin> eg_ids st" "issue_commit now i r b (eg_leases st) = (Inr l, m')"
  shows "leases_inv (st\<lparr>eg_leases := m', eg_issued := l # eg_issued st, eg_ids := insert i (eg_ids st), eg_verified := vs\<rparr>)"
proof -
  note c = issue_commit_Inr[OF assms(3)]
  have id: "le_ID l = i" using c(1) by simp
  have new: "i \<notin> le_ID ` set (eg_issued st)" using assms(1,2) by (auto simp: leases_inv_def)
  have "le_ID u \<noteq> i" if "u \<in> set (eg_used st)" for u
    using assms(1) that new unfolding leases_inv_def later_lease_def by (metis image_eqI)
  then show ?thesis using assms(1) c(2) id new unfolding leases_inv_def keyed_def by (auto intro: later_lease_refl)
qed

lemma leases_inv_use:
  assumes "leases_inv st" "consumeLocked lid s now (eg_leases st) = (Inr l, m')"
  shows "leases_inv (st\<lparr>eg_leases := m', eg_used := l # eg_used st\<rparr>)"
proof -
  obtain l0 where u: "validateLocked lid s now (eg_leases st) = Inr l0" "\<not> le_Consumed l0"
    "l = l0\<lparr>le_Consumed := True, le_Requests := le_Requests l0 + 1\<rparr>"
    "lm_leases m' = (lm_leases (eg_leases st))(le_ID l0 \<mapsto> l)"
    using assms(2) by (rule consumeLocked_Inr)
  have st0: "lm_leases (eg_leases st) lid = Some l0" using u(1) by (simp add: validateLocked_Inr)
  then have id: "le_ID l0 = lid" using assms(1) by (auto simp: leases_inv_def keyed_def)
  have lat: "later_lease l0 l" "le_ID l = lid" "le_Consumed l" using u(3) id by (auto simp: later_lease_def)
  obtain k where k: "k \<in> set (eg_issued st)" "later_lease k l"
    using assms(1) st0 lat(1) later_lease_trans unfolding leases_inv_def by metis
  have fresh: "lid \<notin> le_ID ` set (eg_used st)"
    using assms(1) st0 u(2) unfolding leases_inv_def by auto
  have store: "lm_leases m' j = (if j = lid then Some l else lm_leases (eg_leases st) j)" for j
    using u(4) id by simp
  note inv = assms(1)[unfolded leases_inv_def]
  have "keyed (lm_leases m')" using inv lat(2) unfolding keyed_def store by auto
  moreover have "\<forall>i j. lm_leases m' i = Some j \<longrightarrow> (\<exists>k\<in>set (eg_issued st). later_lease k j)"
    using inv k unfolding store by auto
  moreover have "\<forall>v\<in>set (l # eg_used st). (\<exists>k\<in>set (eg_issued st). later_lease k v)
          \<and> (\<forall>j. lm_leases m' (le_ID v) = Some j \<longrightarrow> le_Consumed j)"
    using inv k lat(2,3) unfolding store by auto
  moreover have "distinct (map le_ID (l # eg_used st))" using inv fresh lat(2) by simp
  ultimately show ?thesis using inv unfolding leases_inv_def by simp
qed

lemma spent_mono: "tm_confirmations m' \<subseteq>\<^sub>m tm_confirmations m \<Longrightarrow> spent m cid \<Longrightarrow> spent m' cid"
  by (cases "tm_confirmations m' cid") (auto simp: spent_def map_le_def dom_def split: option.splits)

lemma confirmations_inv_shrink:
  assumes "confirmations_inv st" "tm_confirmations m' \<subseteq>\<^sub>m tm_confirmations (eg_sessions st)" "eg_ids st \<subseteq> ids"
  shows "confirmations_inv (st\<lparr>eg_sessions := m', eg_ids := ids\<rparr>)"
proof -
  have sub: "tm_confirmations (eg_sessions st) i = Some v" if "tm_confirmations m' i = Some v" for i v
    using assms(2) that by (auto simp: map_le_def dom_def)
  have sp: "spent (eg_sessions st) cid \<Longrightarrow> spent m' cid" for cid using spent_mono[OF assms(2)] .
  note inv = assms(1)[unfolded confirmations_inv_def]
  have "\<forall>i c a. tm_confirmations m' i = Some (c, a) \<longrightarrow> tc_ID c = i \<and> i \<in> ids
        \<and> (\<exists>c0\<in>set (eg_minted st). c = c0 \<or> c = c0\<lparr>tc_Used := True\<rparr>)"
    using inv sub assms(3) by blast
  moreover have "\<forall>r\<in>set (eg_verified st). spent m' (ir_ConfirmationID r) \<and> ir_ConfirmationID r \<in> ids
          \<and> ir_TemporaryEgress r \<and> (\<exists>c\<in>set (eg_minted st). verified_match c r)"
    using inv sp assms(3) by blast
  moreover have "\<forall>l\<in>set (temporaries (eg_issued st)). spent m' (le_ConfirmationID l)
          \<and> le_ConfirmationID l \<in> ids \<and> (\<exists>c\<in>set (eg_minted st). bound_to c l)"
    using inv sp assms(3) by blast
  ultimately show ?thesis using inv unfolding confirmations_inv_def by simp
qed

lemma sess_Begin_confirmations:
  "tm_confirmations (snd (sess_Begin au now i v1 v2 identity ttl bound m)) \<subseteq>\<^sub>m tm_confirmations m"
  by (auto simp: sess_Begin_def Let_def session_prune_def prune_map_le split: option.split)

lemma session_prune_confirmations: "tm_confirmations (session_prune v1 v2 now m) \<subseteq>\<^sub>m tm_confirmations m"
  by (simp add: session_prune_def prune_map_le)

lemma confirm_end_Inl:
  "confirm_end now v1 v2 sid ci m = (Inl e, m') \<Longrightarrow> tm_confirmations m' \<subseteq>\<^sub>m tm_confirmations m"
  by (auto simp: confirm_end_def Let_def session_prune_confirmations split: sum.splits if_splits)

lemma confirm_end_Inr:
  assumes "confirm_end now v1 v2 sid ci m = (Inr c, m')"
  obtains n where "c = fst ci" "n \<subseteq>\<^sub>m tm_confirmations m" "tm_confirmations m' = n(tc_ID c \<mapsto> ci)"
proof (rule that)
  show "c = fst ci" "tm_confirmations m' = (tm_confirmations (session_prune v1 v2 now m))(tc_ID c \<mapsto> ci)"
    using assms by (auto simp: confirm_end_def Let_def split: sum.splits if_splits)
qed (rule session_prune_confirmations)

lemma confirm_begin_Inr:
  "confirm_begin au now (Some i) input m = Inr ci \<Longrightarrow> tc_ID (fst ci) = i \<and> \<not> tc_Used (fst ci)"
  by (auto simp: confirm_begin_def Let_def split: sum.splits if_splits)

lemma confirmations_inv_mint:
  assumes inv: "confirmations_inv st" and i: "i \<notin> eg_ids st" and c: "tc_ID (fst ci) = i"
    and n: "n \<subseteq>\<^sub>m tm_confirmations (eg_sessions st)" "tm_confirmations m' = n(i \<mapsto> ci)"
  shows "confirmations_inv (st\<lparr>eg_sessions := m', eg_minted := fst ci # eg_minted st, eg_ids := insert i (eg_ids st)\<rparr>)"
proof -
  define m1 where "m1 = (eg_sessions st)\<lparr>tm_confirmations := n\<rparr>"
  have inv1: "confirmations_inv (st\<lparr>eg_sessions := m1, eg_ids := eg_ids st\<rparr>)"
    by (rule confirmations_inv_shrink[OF inv]) (auto simp: m1_def n(1))
  note v = inv1[unfolded confirmations_inv_def, simplified]
  have sp: "spent m' cid" if "spent m1 cid" "cid \<in> eg_ids st" for cid
    using that i by (auto simp: spent_def n(2) m1_def)
  have "\<forall>j c a. tm_confirmations m' j = Some (c, a) \<longrightarrow> tc_ID c = j \<and> j \<in> insert i (eg_ids st)
        \<and> (\<exists>c0\<in>set (fst ci # eg_minted st). c = c0 \<or> c = c0\<lparr>tc_Used := True\<rparr>)"
    using v c unfolding n(2) m1_def by auto
  moreover have "\<forall>r\<in>set (eg_verified st). spent m' (ir_ConfirmationID r) \<and> ir_ConfirmationID r \<in> insert i (eg_ids st)
          \<and> ir_TemporaryEgress r \<and> (\<exists>c\<in>set (fst ci # eg_minted st). verified_match c r)"
    using v sp by (metis insertCI list.set_intros(2))
  moreover have "\<forall>l\<in>set (temporaries (eg_issued st)). spent m' (le_ConfirmationID l)
          \<and> le_ConfirmationID l \<in> insert i (eg_ids st) \<and> (\<exists>c\<in>set (fst ci # eg_minted st). bound_to c l)"
    using v sp by auto
  moreover have "distinct (map ir_ConfirmationID (eg_verified st) @ map le_ConfirmationID (temporaries (eg_issued st)))"
    using inv unfolding confirmations_inv_def by blast
  ultimately show ?thesis unfolding confirmations_inv_def by simp
qed

lemma consume_end_None:
  assumes "consume_end now req m = (None, m')"
  obtains c a where "tm_confirmations m (cr_ID req) = Some (c, a)" "\<not> tc_Used c" "confirmationMatches c req"
    "now < tc_ExpiresAt c" "m' = m\<lparr>tm_confirmations := (tm_confirmations m)(cr_ID req \<mapsto> (c\<lparr>tc_Used := True\<rparr>, a))\<rparr>"
  using assms by (auto simp: consume_end_def consume_check_def split: sum.splits option.splits if_splits)

lemma verified_match_used [simp]: "verified_match (c\<lparr>tc_Used := b\<rparr>) r = verified_match c r"
  by (simp add: verified_match_def confirmationMatches_def)

lemma confirmations_inv_verify:
  assumes inv: "confirmations_inv st" and e: "consume_end now (confirmation_request r) (eg_sessions st) = (None, m')"
  shows "confirmations_inv (st\<lparr>eg_sessions := m', eg_verified := r # eg_verified st\<rparr>)"
proof -
  let ?cid = "ir_ConfirmationID r"
  obtain c a where c: "tm_confirmations (eg_sessions st) ?cid = Some (c, a)" "\<not> tc_Used c"
    "confirmationMatches c (confirmation_request r)"
    "m' = (eg_sessions st)\<lparr>tm_confirmations := (tm_confirmations (eg_sessions st))(?cid \<mapsto> (c\<lparr>tc_Used := True\<rparr>, a))\<rparr>"
    using e by (rule consume_end_None) (simp add: confirmation_request_def)
  note v = inv[unfolded confirmations_inv_def]
  have cv: "tc_ID c = ?cid" "?cid \<in> eg_ids st" "\<exists>c0\<in>set (eg_minted st). c = c0 \<or> c = c0\<lparr>tc_Used := True\<rparr>"
    using v c(1) by blast+
  have minted: "\<exists>c0\<in>set (eg_minted st). verified_match c0 r"
    using cv(3) c(3) verified_match_def verified_match_used by metis
  have notspent: "\<not> spent (eg_sessions st) ?cid" using c(1,2) by (simp add: spent_def)
  have new: "?cid \<notin> ir_ConfirmationID ` set (eg_verified st)"
    "?cid \<notin> le_ConfirmationID ` set (temporaries (eg_issued st))"
    using v notspent by auto
  have temp: "ir_TemporaryEgress r" using c(3) by (simp add: confirmationMatches_def confirmation_request_def)
  have sp: "spent m' cid" if "spent (eg_sessions st) cid \<or> cid = ?cid" for cid
    using that unfolding c(4) by (auto simp: spent_def)
  have "\<forall>j d a. tm_confirmations m' j = Some (d, a) \<longrightarrow> tc_ID d = j \<and> j \<in> eg_ids st
        \<and> (\<exists>c0\<in>set (eg_minted st). d = c0 \<or> d = c0\<lparr>tc_Used := True\<rparr>)"
    using v cv unfolding c(4) by auto
  moreover have "\<forall>q\<in>set (r # eg_verified st). spent m' (ir_ConfirmationID q) \<and> ir_ConfirmationID q \<in> eg_ids st
          \<and> ir_TemporaryEgress q \<and> (\<exists>c\<in>set (eg_minted st). verified_match c q)"
    using v sp cv(2) temp minted by (auto simp del: verified_match_used)
  moreover have "\<forall>l\<in>set (temporaries (eg_issued st)). spent m' (le_ConfirmationID l)
          \<and> le_ConfirmationID l \<in> eg_ids st \<and> (\<exists>c\<in>set (eg_minted st). bound_to c l)"
    using v sp by blast
  moreover have "distinct (map ir_ConfirmationID (r # eg_verified st) @ map le_ConfirmationID (temporaries (eg_issued st)))"
    using v new by auto
  ultimately show ?thesis unfolding confirmations_inv_def by simp
qed

lemma distinct_map_remove1:
  assumes "distinct (map f vs)" "r \<in> set vs"
  shows "distinct (map f (remove1 r vs)) \<and> f ` set (remove1 r vs) = f ` set vs - {f r}"
  using assms by (induction vs) auto

lemma confirmations_inv_abandon:
  assumes "confirmations_inv st"
  shows "confirmations_inv (st\<lparr>eg_verified := remove1 r (eg_verified st)\<rparr>)"
proof -
  note v = assms[unfolded confirmations_inv_def]
  have sub: "set (remove1 r (eg_verified st)) \<subseteq> set (eg_verified st)" by (rule set_remove1_subset)
  have d: "distinct (map ir_ConfirmationID (eg_verified st))" "distinct (map le_ConfirmationID (temporaries (eg_issued st)))"
    "ir_ConfirmationID ` set (eg_verified st) \<inter> le_ConfirmationID ` set (temporaries (eg_issued st)) = {}"
    using conjunct1[OF conjunct2[OF v]] by auto
  have "distinct (map ir_ConfirmationID (remove1 r (eg_verified st)))"
    using distinct_map_remove1[OF d(1)] d(1) by (cases "r \<in> set (eg_verified st)") (simp_all add: remove1_idem)
  moreover have "ir_ConfirmationID ` set (remove1 r (eg_verified st)) \<inter> le_ConfirmationID ` set (temporaries (eg_issued st)) = {}"
    using d(3) image_mono[OF sub, of ir_ConfirmationID] by blast
  ultimately have "distinct (map ir_ConfirmationID (remove1 r (eg_verified st)) @ map le_ConfirmationID (temporaries (eg_issued st)))"
    using d(2) by (simp only: distinct_append set_map)
  moreover have "\<forall>q\<in>set (remove1 r (eg_verified st)). spent (eg_sessions st) (ir_ConfirmationID q) \<and> ir_ConfirmationID q \<in> eg_ids st
          \<and> ir_TemporaryEgress q \<and> (\<exists>c\<in>set (eg_minted st). verified_match c q)"
    using v sub by blast
  ultimately show ?thesis using v unfolding confirmations_inv_def by simp
qed

lemma bound_of_match:
  assumes "verified_match c r"
  shows "bound_to c (lease_of now i r)"
  using assms by (auto simp: verified_match_def confirmationMatches_def confirmation_request_def bound_to_def lease_of_def)

lemma confirmations_inv_issue:
  assumes inv: "confirmations_inv st" and r: "b \<Longrightarrow> r \<in> set (eg_verified st)" "\<not> b \<Longrightarrow> \<not> ir_TemporaryEgress r"
    and l: "l = lease_of now i r"
  shows "confirmations_inv (st\<lparr>eg_leases := m', eg_issued := l # eg_issued st, eg_ids := insert i (eg_ids st),
       eg_verified := (if b then remove1 r (eg_verified st) else eg_verified st)\<rparr>)"
proof (cases b)
  case False
  then show ?thesis using inv r(2) unfolding confirmations_inv_def l by auto
next
  case True
  note v = inv[unfolded confirmations_inv_def]
  have rv: "r \<in> set (eg_verified st)" using r(1) True by simp
  have temp: "ir_TemporaryEgress r" using v rv by blast
  obtain c where c: "c \<in> set (eg_minted st)" "verified_match c r" using v rv by blast
  have dv: "distinct (map ir_ConfirmationID (eg_verified st))" using v by simp
  note d = distinct_map_remove1[OF dv rv]
  have sub: "set (remove1 r (eg_verified st)) \<subseteq> set (eg_verified st)" by (rule set_remove1_subset)
  have iss: "temporaries (l # eg_issued st) = l # temporaries (eg_issued st)" using temp l by simp
  have "distinct (map ir_ConfirmationID (remove1 r (eg_verified st)) @ map le_ConfirmationID (temporaries (l # eg_issued st)))"
    unfolding iss using d v rv l by auto
  moreover have "\<forall>k\<in>set (temporaries (l # eg_issued st)). spent (eg_sessions st) (le_ConfirmationID k)
          \<and> le_ConfirmationID k \<in> insert i (eg_ids st) \<and> (\<exists>c\<in>set (eg_minted st). bound_to c k)"
    unfolding iss using v rv bound_of_match[OF c(2)] c(1) l by auto
  moreover have "\<forall>q\<in>set (remove1 r (eg_verified st)). spent (eg_sessions st) (ir_ConfirmationID q)
          \<and> ir_ConfirmationID q \<in> insert i (eg_ids st) \<and> ir_TemporaryEgress q \<and> (\<exists>c\<in>set (eg_minted st). verified_match c q)"
    using v sub by blast
  ultimately show ?thesis using v True unfolding confirmations_inv_def by simp
qed

subsection \<open>Every run\<close>

lemma issue_checks_temporary:
  "issue_checks now r m = None \<Longrightarrow> ir_TemporaryEgress r \<Longrightarrow> must_verify m r"
  unfolding issue_checks_def first_error_None by (auto simp: must_verify_def)

lemma egress_step_leases:
  assumes "egress_step au st st'" "leases_inv st"
  shows "leases_inv st'"
  using assms(1)
proof cases
  case (issue i now r m0 l m')
  then show ?thesis using leases_inv_issue[OF assms(2)] by blast
next
  case (use lid s now l m')
  then show ?thesis using leases_inv_use[OF assms(2)] by blast
next
  case (other m')
  then show ?thesis using leases_inv_other[OF assms(2)] by blast
qed (use assms(2) in \<open>auto simp: leases_inv_def\<close>)

lemma egress_step_confirmations:
  assumes "egress_step au st st'" "confirmations_inv st"
  shows "confirmations_inv st'"
  using assms(1)
proof cases
  case (session i now v1 v2 identity ttl bound)
  have "confirmations_inv (st\<lparr>eg_sessions := snd (sess_Begin (au i) now (Some i) v1 v2 identity ttl bound (eg_sessions st)),
      eg_ids := insert i (eg_ids st)\<rparr>)"
    using assms(2) by (rule confirmations_inv_shrink) (auto simp: sess_Begin_confirmations)
  then show ?thesis using session by simp
next
  case (mint i now input m0 ci v1 v2 c m')
  obtain n where n: "c = fst ci" "n \<subseteq>\<^sub>m tm_confirmations (eg_sessions st)" "tm_confirmations m' = n(tc_ID c \<mapsto> ci)"
    using mint(4) by (rule confirm_end_Inr)
  have "tc_ID (fst ci) = i" using confirm_begin_Inr[OF mint(3)] by simp
  from confirmations_inv_mint[OF assms(2) mint(2) this n(2)] show ?thesis using mint(1) n(1,3) \<open>tc_ID (fst ci) = i\<close> by simp
next
  case (mint_failed now v1 v2 sid ci e m')
  from confirmations_inv_shrink[OF assms(2) confirm_end_Inl[OF mint_failed(2)], of "eg_ids st"]
  show ?thesis using mint_failed(1) by simp
next
  case (revoke_session sid)
  have "tm_confirmations (snd (sess_Revoke sid (eg_sessions st))) = tm_confirmations (eg_sessions st)"
    by (auto simp: sess_Revoke_def split: option.split)
  then show ?thesis using confirmations_inv_shrink[OF assms(2), of "snd (sess_Revoke sid (eg_sessions st))" "eg_ids st"] revoke_session
    by simp
next
  case (verify now r m')
  then show ?thesis using confirmations_inv_verify[OF assms(2)] by blast
next
  case (abandon r)
  then show ?thesis using confirmations_inv_abandon[OF assms(2)] by simp
next
  case (issue i now r m0 l m')
  show ?thesis
    unfolding issue(1)
  proof (rule confirmations_inv_issue[OF assms(2)])
    show "must_verify m0 r \<Longrightarrow> r \<in> set (eg_verified st)" by (rule issue(4))
    show "\<not> must_verify m0 r \<Longrightarrow> \<not> ir_TemporaryEgress r" using issue_checks_temporary[OF issue(3)] by blast
    show "l = lease_of now i r" by (rule issue_commit_Inr(1)[OF issue(5)])
  qed
qed (use assms(2) in \<open>auto simp: confirmations_inv_def\<close>)

lemma egress_run_inv:
  assumes "egress_run au (egress_start lm sm) st" "lm_leases lm = Map.empty" "tm_confirmations sm = Map.empty"
  shows "leases_inv st \<and> confirmations_inv st"
  using assms(1)
proof induction
  case start
  then show ?case using assms(2,3)
    by (auto simp: leases_inv_def confirmations_inv_def egress_start_def keyed_def)
next
  case (step st st')
  then show ?case using egress_step_leases egress_step_confirmations by blast
qed

text \<open>Used temporaries have pairwise different confirmations, because the leases they are
  later versions of have.\<close>

lemma used_confirmations_distinct:
  assumes "distinct (map f iss)" "distinct (map g (filter p iss))" "distinct (map f us)"
    "\<forall>u\<in>set us. \<exists>k\<in>set iss. f k = f u \<and> g k = g u \<and> p k = p u"
  shows "distinct (map g (filter p us))"
  using assms(3,4)
proof (induction us)
  case (Cons u us)
  have "g u \<notin> g ` set (filter p us)" if p: "p u"
  proof
    assume "g u \<in> g ` set (filter p us)"
    then obtain v where v: "v \<in> set us" "p v" "g v = g u" by auto
    obtain k where k: "k \<in> set iss" "f k = f u" "g k = g u" "p k" using Cons.prems(2) p by auto
    obtain j where j: "j \<in> set iss" "f j = f v" "g j = g v" "p j" using Cons.prems(2) v by auto
    have "k = j" using assms(2) k j v(3) by (auto simp: distinct_map inj_on_def)
    then have "f u \<in> f ` set us" using k(2) j(2) v(1) by (metis image_eqI)
    then show False using Cons.prems(1) by simp
  qed
  then show ?case using Cons by auto
qed simp

end
