(* ===== verification/Lease_Egress.thy ===== *)
theory Lease_Egress
  imports Lease_Properties
begin

text \<open>
  What every run of the two lease managers keeps, over every interleaving of their critical
  sections: the well-formedness of the stored leases, their admission by the policy in force,
  and the one connection an administrator's password pays for.
\<close>

subsection \<open>Well-formed leases\<close>

definition lease_wf :: "Lease \<Rightarrow> bool" where
  "lease_wf l \<longleftrightarrow> validOpaque (le_PluginID l) 256 \<and> validOpaque (le_PluginVersion l) 128
     \<and> target_Validate (le_Target l) = None \<and> validOpaque (le_TLSFingerprint l) 256 \<and> le_PolicyEpoch l \<noteq> 0
     \<and> validOpaque (le_ConfirmationID l) 256
     \<and> (le_TemporaryEgress l \<longrightarrow> ValidateTLSFingerprint (le_TLSFingerprint l) = None \<and> validOpaque (le_OperatorID l) 128)
     \<and> le_IssuedAt l < le_ExpiresAt l \<and> le_ExpiresAt l \<le> le_IssuedAt l + MaxLeaseTTL
     \<and> le_MaxRequests l = 1 \<and> le_Requests l = (if le_Consumed l then 1 else 0)
     \<and> (le_Completed l \<longrightarrow> le_Consumed l) \<and> (le_Completed l \<or> le_Bytes l = 0)
     \<and> 0 \<le> le_Bytes l \<and> (0 < le_MaxBytes l \<longrightarrow> le_Bytes l \<le> le_MaxBytes l)"

lemma lease_wf_step: "lease_step j k \<Longrightarrow> lease_wf j \<Longrightarrow> lease_wf k"
proof -
  assume s: "lease_step j k" and w: "lease_wf j"
  from s consider "k = j" | "k = j\<lparr>le_Revoked := True\<rparr>"
    | b res where "le_Consumed j" "\<not> le_Completed j" "0 \<le> b" "0 < le_MaxBytes j \<longrightarrow> le_Bytes j + b \<le> le_MaxBytes j"
        "k = j\<lparr>le_Bytes := le_Bytes j + b, le_Completed := True, le_LastResult := res\<rparr>"
    unfolding lease_step_def by blast
  then show "lease_wf k"
  proof cases
    case 1
    then show ?thesis using w by simp
  next
    case 2
    then show ?thesis using w unfolding lease_wf_def by simp
  next
    case 3
    have "le_Bytes j = 0" using w 3(2) unfolding lease_wf_def by blast
    then show ?thesis using w 3(1,3,4) unfolding 3(5) lease_wf_def by simp
  qed
qed

lemma lease_wf_consumed:
  "lease_wf l \<Longrightarrow> \<not> le_Consumed l \<Longrightarrow> lease_wf (l\<lparr>le_Consumed := True, le_Requests := le_Requests l + 1\<rparr>)"
  by (auto simp: lease_wf_def)

lemma lease_wf_issued:
  assumes "issue_checks now r m = None"
  shows "lease_wf (lease_of now i r)"
  using assms unfolding issue_checks_def first_error_None
  by (auto simp: lease_wf_def lease_of_def)

definition stored_wf :: "egress \<Rightarrow> bool" where
  "stored_wf st \<longleftrightarrow> (\<forall>i l. lm_leases (eg_leases st) i = Some l \<longrightarrow> le_ID l = i \<and> lease_wf l)"

lemma egress_step_wf:
  assumes "egress_step au st st'" "stored_wf st"
  shows "stored_wf st'"
  using assms(1)
proof cases
  case (issue i now r m0 l m')
  note c = issue_commit_Inr[OF issue(5)]
  have "lease_wf l" "le_ID l = i" using lease_wf_issued[OF issue(3)] c(1) by simp_all
  then show ?thesis using assms(2) c(2) unfolding issue(1) stored_wf_def by simp
next
  case (use lid s now l m')
  obtain l0 where u: "validateLocked lid s now (eg_leases st) = Inr l0" "\<not> le_Consumed l0"
    "l = l0\<lparr>le_Consumed := True, le_Requests := le_Requests l0 + 1\<rparr>"
    "lm_leases m' = (lm_leases (eg_leases st))(le_ID l0 \<mapsto> l)"
    using use(2) by (rule consumeLocked_Inr)
  have "lm_leases (eg_leases st) lid = Some l0" using u(1) by (simp add: validateLocked_Inr)
  then have "lease_wf l0" using assms(2) by (simp add: stored_wf_def)
  from lease_wf_consumed[OF this u(2)] have "lease_wf l" "le_ID l = le_ID l0" by (simp_all add: u(3))
  then show ?thesis using assms(2) unfolding use(1) stored_wf_def by (auto simp: u(4))
next
  case (other m')
  have k: "keyed (lm_leases (eg_leases st))" using assms(2) by (simp add: stored_wf_def keyed_def)
  have "le_ID l = i \<and> lease_wf l" if l: "lm_leases m' i = Some l" for i l
  proof -
    obtain j where j: "lm_leases (eg_leases st) i = Some j" "lease_step j l"
      using lease_other_step[OF other(2) k l] by blast
    then show ?thesis using assms(2) lease_wf_step[OF j(2)] lease_step_later[OF j(2)]
      by (auto simp: stored_wf_def later_lease_def)
  qed
  then show ?thesis unfolding other(1) stored_wf_def by simp
qed (use assms(2) in \<open>auto simp: stored_wf_def\<close>)

subsection \<open>Admission\<close>

text \<open>What the policy asks of a lease, by the characterisation of \<open>checkIssuePolicy\<close>.\<close>

definition admitted :: "OfflinePolicy \<Rightarrow> Lease \<Rightarrow> bool" where
  "admitted p l \<longleftrightarrow>
     (if le_Target l \<in> op_internal p
      then if le_ResourceID l = [] then op_resourceIDs p = Map.empty
           else op_resourceIDs p (le_ResourceID l) = Some (le_Target l)
      else tg_Host (le_Target l) \<notin> op_hosts p \<and> le_TemporaryEgress l \<and> le_ResourceID l = [])"

lemma checkIssuePolicy_admitted:
  "checkIssuePolicy p r allow = None \<Longrightarrow> op_epoch p \<noteq> 0 \<and> le_PolicyEpoch (lease_of now i r) = op_epoch p
     \<and> admitted p (lease_of now i r)"
  unfolding checkIssuePolicy_None by (auto simp: admitted_def lease_of_def)

lemma admitted_later: "later_lease j k \<Longrightarrow> admitted p k = admitted p j"
  by (simp add: later_lease_def admitted_def)

definition lease_admission_inv :: "Manager \<Rightarrow> bool" where
  "lease_admission_inv m \<longleftrightarrow> lm_requirePolicy m
     \<and> (\<forall>i l. lm_leases m i = Some l \<longrightarrow> op_epoch (lm_policy m) \<noteq> 0 \<and> le_PolicyEpoch l \<le> op_epoch (lm_policy m)
          \<and> (le_PolicyEpoch l = op_epoch (lm_policy m) \<longrightarrow> admitted (lm_policy m) l))"

lemma lease_admission_inv_issue:
  assumes "lease_admission_inv m" "issue_commit now i r b m = (Inr l, m')"
  shows "lease_admission_inv m'"
proof -
  note c = issue_commit_Inr[OF assms(2)]
  have req: "lm_requirePolicy m" using assms(1) by (simp add: lease_admission_inv_def)
  have "op_epoch (lm_policy m) \<noteq> 0 \<and> le_PolicyEpoch l = op_epoch (lm_policy m) \<and> admitted (lm_policy m) l"
    using checkIssuePolicy_admitted[OF conjunct2[OF c(5)[OF req]], of now i] c(1) by simp
  then show ?thesis using assms(1) unfolding lease_admission_inv_def c(2,3,4) by auto
qed

lemma lease_admission_inv_frame:
  assumes "lease_admission_inv m" "lm_requirePolicy m'"
    "lm_policy m' = lm_policy m \<or> op_epoch (lm_policy m) < op_epoch (lm_policy m')"
    "\<And>i k. lm_leases m' i = Some k \<Longrightarrow> \<exists>j. lm_leases m i = Some j \<and> later_lease j k"
  shows "lease_admission_inv m'"
  unfolding lease_admission_inv_def
proof (intro conjI allI impI)
  fix i k assume "lm_leases m' i = Some k"
  then obtain j where j: "lm_leases m i = Some j" "later_lease j k" using assms(4) by blast
  note a = assms(1)[unfolded lease_admission_inv_def, THEN conjunct2, rule_format, OF j(1)]
  have e: "le_PolicyEpoch k = le_PolicyEpoch j" using j(2) by (simp add: later_lease_def)
  show "op_epoch (lm_policy m') \<noteq> 0" using a assms(3) by (metis word_not_simps(1))
  show "le_PolicyEpoch k \<le> op_epoch (lm_policy m')" using a assms(3) e by auto
  show "admitted (lm_policy m') k" if eq: "le_PolicyEpoch k = op_epoch (lm_policy m')"
  proof -
    have "lm_policy m' = lm_policy m" using a assms(3) e eq by auto
    then show ?thesis using a e eq admitted_later[OF j(2)] by simp
  qed
qed (rule assms(2))

lemma egress_step_admission:
  assumes "egress_step au st st'" "lease_admission_inv (eg_leases st)" "stored_wf st"
  shows "lease_admission_inv (eg_leases st')"
proof -
  have k: "keyed (lm_leases (eg_leases st))" using assms(3) by (simp add: stored_wf_def keyed_def)
  have req: "lm_requirePolicy (eg_leases st)" using assms(2) by (simp add: lease_admission_inv_def)
  show ?thesis
    using assms(1)
  proof cases
    case (issue i now r m0 l m')
    then show ?thesis using lease_admission_inv_issue[OF assms(2) issue(5)] by simp
  next
    case (use lid s now l m')
    obtain l0 where u: "validateLocked lid s now (eg_leases st) = Inr l0" "\<not> le_Consumed l0"
      "l = l0\<lparr>le_Consumed := True, le_Requests := le_Requests l0 + 1\<rparr>"
      "lm_leases m' = (lm_leases (eg_leases st))(le_ID l0 \<mapsto> l)" "lm_policy m' = lm_policy (eg_leases st)"
      "lm_requirePolicy m' = lm_requirePolicy (eg_leases st)"
      using use(2) by (rule consumeLocked_Inr)
    have l0: "lm_leases (eg_leases st) (le_ID l0) = Some l0"
      using u(1) k by (auto simp: validateLocked_Inr keyed_def)
    have "later_lease l0 l" by (simp add: u(3) later_lease_def)
    then have "lease_admission_inv m'" using u(4-6) req l0
      by (intro lease_admission_inv_frame[OF assms(2)]) (auto split: if_splits)
    then show ?thesis using use(1) by simp
  next
    case (other m')
    then show ?thesis
      using lease_other_policy[OF other(2) req] lease_other_later[OF other(2) k]
      by (simp add: lease_admission_inv_frame[OF assms(2)])
  qed (use assms(2) in simp_all)
qed

subsection \<open>The password behind a confirmation\<close>

definition minted_inv :: "(string \<Rightarrow> Authenticator) \<Rightarrow> egress \<Rightarrow> bool" where
  "minted_inv au st \<longleftrightarrow> (\<forall>c\<in>set (eg_minted st). \<exists>identity pw. ai_ID identity = tc_AdministratorID c
     \<and> au_VerifySession (au (tc_ID c)) identity (tc_IssuedAt c) \<and> au_VerifyPassword (au (tc_ID c)) identity pw)"

lemma confirm_begin_password:
  assumes "confirm_begin au now (Some i) input m = Inr ci"
  shows "\<exists>identity pw. ai_ID identity = tc_AdministratorID (fst ci)
     \<and> au_VerifySession au identity (tc_IssuedAt (fst ci)) \<and> au_VerifyPassword au identity pw"
proof -
  obtain s where s: "activeSessionLocked (ci_SessionID input) now m = Inr s"
    "au_VerifySession au (session_identity s) now" "au_VerifyPassword au (session_identity s) (ci_Password input)"
    "tc_AdministratorID (fst ci) = ts_AdministratorID s" "tc_IssuedAt (fst ci) = now"
    using assms by (auto simp: confirm_begin_def Let_def split: sum.splits if_splits)
  then show ?thesis by (metis session_identity_def AdministratorIdentity.select_convs(1))
qed

lemma egress_step_minted:
  assumes "egress_step au st st'" "minted_inv au st"
  shows "minted_inv au st'"
  using assms(1)
proof cases
  case (mint i now input m0 ci v1 v2 c m')
  obtain n where "c = fst ci" using mint(4) by (rule confirm_end_Inr)
  moreover have "tc_ID (fst ci) = i" using confirm_begin_Inr[OF mint(3)] by simp
  ultimately show ?thesis
    using confirm_begin_password[OF mint(3)] assms(2) unfolding mint(1) minted_inv_def by simp
qed (use assms(2) in \<open>simp_all add: minted_inv_def\<close>)

lemma secure_run_inv:
  assumes "egress_run au (egress_start (NewSecureManager p True) sm) st" "NewTemporarySessionManager True ttl = Inr sm"
  shows "leases_inv st" "confirmations_inv st" "stored_wf st" "lease_admission_inv (eg_leases st)" "minted_inv au st"
proof -
  have e: "lm_leases (NewSecureManager p True) = Map.empty" "tm_confirmations sm = Map.empty"
    using assms(2) by (auto simp: NewSecureManager_def NewManagerWithOptions_def NewTemporarySessionManager_def)
  show "leases_inv st" "confirmations_inv st" using egress_run_inv[OF assms(1) e] by auto
  have "stored_wf st \<and> lease_admission_inv (eg_leases st) \<and> minted_inv au st"
    using assms(1)
  proof induction
    case start
    then show ?case
      by (simp add: stored_wf_def lease_admission_inv_def minted_inv_def egress_start_def NewSecureManager_def NewManagerWithOptions_def)
  next
    case (step st st')
    then show ?case using egress_step_wf egress_step_admission egress_step_minted by blast
  qed
  then show "stored_wf st" "lease_admission_inv (eg_leases st)" "minted_inv au st" by auto
qed

end
