(* ===== verification/Lease_Claims.thy ===== *)
theory Lease_Claims
  imports Lease_Egress
begin

text \<open>
  The claims about network leases, with a run of the two managers in which an administrator
  opens a session, confirms one egress, and the lease issued for it is used.
\<close>

subsection \<open>A run\<close>

definition demo_target :: Target where
  "demo_target = \<lparr>tg_Host = ''a.test'', tg_Port = 443, tg_Protocol = ''tcp''\<rparr>"

definition demo_policy :: OfflinePolicy where
  "demo_policy = NewOfflinePolicyWithEpoch [demo_target\<lparr>tg_Host := ''db.test''\<rparr>] 3"

definition demo_fingerprint :: string where
  "demo_fingerprint = ''sha256:'' @ replicate 64 (CHR ''a'')"

definition demo_au :: Authenticator where
  "demo_au = \<lparr>au_VerifySession = \<lambda>_ _. True, au_VerifyPassword = \<lambda>_ pw. pw = ''pw''\<rparr>"

definition demo_identity :: AdministratorIdentity where
  "demo_identity = \<lparr>ai_ID = ''root'', ai_ManagementSessionID = []\<rparr>"

definition demo_input :: ConfirmationInput where
  "demo_input = \<lparr>ci_SessionID = ''s'', ci_Password = ''pw'', ci_PluginID = ''p'', ci_PluginVersion = ''v'',
     ci_Target = demo_target, ci_TLSFingerprint = demo_fingerprint, ci_PolicyEpoch = 3, ci_TTL = 100, ci_MaxBytes = 10\<rparr>"

definition demo_request :: IssueRequest where
  "demo_request = \<lparr>ir_PluginID = ''p'', ir_PluginVersion = ''v'', ir_Target = demo_target,
     ir_TLSFingerprint = demo_fingerprint, ir_PolicyEpoch = 3, ir_ConfirmationID = ''c'', ir_TTL = 100,
     ir_TemporaryEgress = True, ir_ResourceID = [], ir_OperatorID = ''root'', ir_ConfirmationExpiresAt = 1101,
     ir_MaxBytes = 10, ir_MaxRequests = 1\<rparr>"

definition demo_scope :: RequestScope where
  "demo_scope = \<lparr>rs_PluginID = ''p'', rs_PluginVersion = ''v'', rs_Target = demo_target,
     rs_TLSFingerprint = demo_fingerprint, rs_PolicyEpoch = 3, rs_ResourceID = [], rs_OperatorID = ''root'',
     rs_TemporaryEgress = True\<rparr>"

lemma demo_values:
  "validOpaque ''s'' 256" "validOpaque ''p'' 256" "validOpaque ''v'' 128" "validOpaque ''c'' 256" "validOpaque ''root'' 128"
  "validOpaque ''root'' 256" "validOpaque demo_fingerprint 256" "target_Validate demo_target = None" 
  "target_Validate (demo_target\<lparr>tg_Host := ''db.test''\<rparr>) = None"
  "ValidateTLSFingerprint demo_fingerprint = None" "MaxLeaseTTL = 600000000000"
  by code_simp+

lemma demo_admits: "checkIssuePolicy demo_policy demo_request True = None"
  unfolding checkIssuePolicy_None
  by (simp add: demo_policy_def NewOfflinePolicyWithEpoch_def newOfflinePolicy_def demo_request_def demo_values)
    (simp add: demo_target_def)

definition demo_sm0 :: TemporarySessionManager where
  "demo_sm0 = \<lparr>tm_maxTTL = MaxLeaseTTL, tm_sessions = Map.empty, tm_confirmations = Map.empty\<rparr>"

definition demo_sm1 :: TemporarySessionManager where
  "demo_sm1 = snd (sess_Begin demo_au 1000 (Some ''s'') [] [] demo_identity 500 0 demo_sm0)"

definition demo_confirmation :: "TemporaryConfirmation \<times> AdministratorIdentity" where
  "demo_confirmation = (\<lparr>tc_ID = ''c'', tc_SessionID = ''s'', tc_AdministratorID = ''root'', tc_PluginID = ''p'',
     tc_PluginVersion = ''v'', tc_Target = demo_target, tc_TLSFingerprint = demo_fingerprint, tc_PolicyEpoch = 3,
     tc_TTL = 100, tc_MaxBytes = 10, tc_IssuedAt = 1001, tc_ExpiresAt = 1101, tc_Used = False\<rparr>, demo_identity)"

definition demo_sm2 :: TemporarySessionManager where
  "demo_sm2 = snd (confirm_end 1001 [] [] ''s'' demo_confirmation demo_sm1)"

definition demo_sm3 :: TemporarySessionManager where
  "demo_sm3 = snd (consume_end 1003 (confirmation_request demo_request) demo_sm2)"

definition demo_lm0 :: Manager where
  "demo_lm0 = NewSecureManager demo_policy True"

definition demo_lm1 :: Manager where
  "demo_lm1 = snd (issue_commit 1004 ''l'' demo_request True demo_lm0)"

lemma prune_map_Nil [simp]: "prune_map [] due m = m"
  by (simp add: prune_map_def)

lemma demo_begin: "demo_sm1 = demo_sm0\<lparr>tm_sessions := [''s'' \<mapsto> \<lparr>ts_ID = ''s'', ts_AdministratorID = ''root'',
    ts_ManagementSessionID = [], ts_IssuedAt = 1000, ts_ExpiresAt = 1500, ts_Revoked = False\<rparr>]\<rparr>"
  unfolding demo_sm1_def sess_Begin_def
  by (simp add: demo_identity_def identity_valid_def demo_values demo_sm0_def demo_au_def session_prune_def Let_def)

lemma demo_mint:
  "confirm_begin demo_au 1001 (Some ''c'') demo_input demo_sm1 = Inr demo_confirmation"
  "confirm_end 1001 [] [] ''s'' demo_confirmation demo_sm1 = (Inr (fst demo_confirmation), demo_sm2)"
  "tm_confirmations demo_sm2 = [''c'' \<mapsto> demo_confirmation]" "tm_sessions demo_sm2 = tm_sessions demo_sm1"
  unfolding demo_sm2_def confirm_begin_def confirm_end_def demo_begin
  by (simp_all add: demo_input_def validConfirmationInput_def demo_values activeSessionLocked_def session_identity_def
      demo_au_def demo_confirmation_def demo_identity_def session_prune_def demo_sm0_def Let_def)

lemma demo_verify: "consume_end 1003 (confirmation_request demo_request) demo_sm2 = (None, demo_sm3)"
  unfolding demo_sm3_def consume_end_def consume_check_def
  by (simp add: demo_mint(3,4) demo_begin confirmation_request_def demo_request_def demo_confirmation_def
      confirmationMatches_def activeSessionLocked_def demo_sm0_def)

lemma demo_issue:
  "issue_checks 1004 demo_request demo_lm0 = None" "must_verify demo_lm0 demo_request" "lm_consumeConfirmation demo_lm0"
  "issue_commit 1004 ''l'' demo_request True demo_lm0 = (Inr (lease_of 1004 ''l'' demo_request), demo_lm1)"
  "lm_leases demo_lm1 = [''l'' \<mapsto> lease_of 1004 ''l'' demo_request]" "lm_policy demo_lm1 = demo_policy" "lm_requirePolicy demo_lm1"
proof -
  have a: "checkIssuePolicy demo_policy demo_request True = None" by (rule demo_admits)
  have e: "op_epoch demo_policy = 3" by (simp add: demo_policy_def NewOfflinePolicyWithEpoch_def newOfflinePolicy_def)
  show "issue_checks 1004 demo_request demo_lm0 = None"
    unfolding issue_checks_def first_error_None demo_lm0_def NewSecureManager_def NewManagerWithOptions_def
    using a by (simp add: demo_request_def demo_values)
  show "must_verify demo_lm0 demo_request" "lm_consumeConfirmation demo_lm0"
    by (simp_all add: must_verify_def demo_lm0_def NewSecureManager_def NewManagerWithOptions_def demo_request_def)
  have "ir_PolicyEpoch demo_request = 3" by (simp add: demo_request_def)
  then show "issue_commit 1004 ''l'' demo_request True demo_lm0 = (Inr (lease_of 1004 ''l'' demo_request), demo_lm1)"
    "lm_leases demo_lm1 = [''l'' \<mapsto> lease_of 1004 ''l'' demo_request]" "lm_policy demo_lm1 = demo_policy" "lm_requirePolicy demo_lm1"
    unfolding demo_lm1_def issue_commit_def demo_lm0_def NewSecureManager_def NewManagerWithOptions_def
    using a e by (simp_all add: Let_def)
qed

lemma demo_use:
  "\<exists>m' l. consumeLocked ''l'' demo_scope 1005 demo_lm1 = (Inr l, m') \<and> le_TemporaryEgress l"
  unfolding consumeLocked_def validateLocked_def
  by (simp add: demo_issue(5,6) lease_of_def demo_request_def leaseMatchesScope_def demo_scope_def demo_policy_def
      NewOfflinePolicyWithEpoch_def newOfflinePolicy_def Let_def)

lemma demo_sessions: "NewTemporarySessionManager True 0 = Inr demo_sm0"
  by (simp add: NewTemporarySessionManager_def demo_sm0_def)

lemma demo_run:
  obtains st where "egress_run (\<lambda>_. demo_au) (egress_start (NewSecureManager demo_policy True) demo_sm0) st"
    "eg_leases st = demo_lm1" "eg_used st = []" "eg_minted st = [fst demo_confirmation]"
proof -
  let ?s0 = "egress_start (NewSecureManager demo_policy True) demo_sm0"
  have s0: "eg_ids ?s0 = {}" "eg_leases ?s0 = demo_lm0" "eg_sessions ?s0 = demo_sm0" "eg_verified ?s0 = []" "eg_used ?s0 = []"
    "eg_minted ?s0 = []"
    by (simp_all add: egress_start_def demo_lm0_def)
  let ?s1 = "?s0\<lparr>eg_sessions := demo_sm1, eg_ids := {''s''}\<rparr>"
  have r1: "egress_run (\<lambda>_. demo_au) ?s0 ?s1"
    using egress_step.session[of "''s''" ?s0 "\<lambda>_. demo_au" 1000 "[]" "[]" demo_identity 500 0] s0
    by (auto intro: egress_run.intros simp: demo_sm1_def)
  let ?s2 = "?s1\<lparr>eg_sessions := demo_sm2, eg_minted := [fst demo_confirmation], eg_ids := {''c'', ''s''}\<rparr>"
  have sid: "ci_SessionID demo_input = ''s''" by (simp add: demo_input_def)
  have "egress_step (\<lambda>_. demo_au) ?s1 ?s2"
    using egress_step.mint[of "''c''" ?s1 "\<lambda>_. demo_au" 1001 demo_input demo_sm1 demo_confirmation "[]" "[]" "fst demo_confirmation" demo_sm2]
      demo_mint(1,2) s0 sid by simp
  then have r2: "egress_run (\<lambda>_. demo_au) ?s0 ?s2" using r1 egress_run.step by blast
  let ?s3 = "?s2\<lparr>eg_sessions := demo_sm3, eg_verified := [demo_request]\<rparr>"
  have "egress_step (\<lambda>_. demo_au) ?s2 ?s3"
    using egress_step.verify[of 1003 demo_request ?s2 demo_sm3 "\<lambda>_. demo_au"] demo_verify s0 by simp
  then have r3: "egress_run (\<lambda>_. demo_au) ?s0 ?s3" using r2 egress_run.step by blast
  let ?l = "lease_of 1004 ''l'' demo_request"
  let ?s4 = "?s3\<lparr>eg_leases := demo_lm1, eg_issued := ?l # eg_issued ?s3, eg_ids := insert ''l'' (eg_ids ?s3),
    eg_verified := (if must_verify demo_lm0 demo_request then remove1 demo_request (eg_verified ?s3) else eg_verified ?s3)\<rparr>"
  have "egress_step (\<lambda>_. demo_au) ?s3 ?s4"
    by (rule egress_step.issue[OF _ demo_issue(1)]) (use demo_issue(2-4) s0 in simp_all)
  then have r4: "egress_run (\<lambda>_. demo_au) ?s0 ?s4" using r3 egress_run.step by blast
  show thesis by (rule that[OF r4]) (simp_all add: s0)
qed

subsection \<open>Claims\<close>

text \<open>
  C11: One password, one connection. Over every interleaving of the critical sections of a
  secure lease manager and its session manager (sessions opened and revoked, confirmations
  minted, verified, abandoned, leases issued, authorised, used, revoked, pruned, transfers
  recorded, policies replaced), no lease is taken into use twice, no two temporary leases in
  use share a confirmation, and each was issued for a confirmation that was minted after its
  administrator's session and password were verified in the call that minted it, for exactly the plugin, version, target,
  certificate, policy epoch, byte limit and operator of the lease, which never outlives it.
\<close>

theorem one_prompt_one_connection:
  assumes "NewTemporarySessionManager True ttl = Inr sm"
    and "egress_run au (egress_start (NewSecureManager p True) sm) st"
  shows "distinct (map le_ID (eg_used st)) \<and> distinct (map le_ConfirmationID (filter le_TemporaryEgress (eg_used st)))
    \<and> (\<forall>l\<in>set (eg_used st). le_TemporaryEgress l \<longrightarrow> (\<exists>c\<in>set (eg_minted st). bound_to c l
         \<and> (\<exists>identity pw. ai_ID identity = le_OperatorID l \<and> au_VerifySession (au (tc_ID c)) identity (tc_IssuedAt c)
              \<and> au_VerifyPassword (au (tc_ID c)) identity pw)))"
proof -
  note inv = secure_run_inv[OF assms(2,1)]
  have used: "\<forall>u\<in>set (eg_used st). \<exists>k\<in>set (eg_issued st). later_lease k u" using inv(1) unfolding leases_inv_def by blast
  have d: "distinct (map le_ID (eg_used st))" "distinct (map le_ID (eg_issued st))" using inv(1) unfolding leases_inv_def by blast+
  have "distinct (map le_ConfirmationID (temporaries (eg_issued st)))" using inv(2) unfolding confirmations_inv_def by simp
  moreover have "\<forall>u\<in>set (eg_used st). \<exists>k\<in>set (eg_issued st). le_ID k = le_ID u \<and> le_ConfirmationID k = le_ConfirmationID u
      \<and> le_TemporaryEgress k = le_TemporaryEgress u"
    using used unfolding later_lease_def by metis
  ultimately have c: "distinct (map le_ConfirmationID (temporaries (eg_used st)))"
    by (rule used_confirmations_distinct[OF d(2) _ d(1)])
  have "\<exists>c\<in>set (eg_minted st). bound_to c l \<and> (\<exists>identity pw. ai_ID identity = le_OperatorID l
      \<and> au_VerifySession (au (tc_ID c)) identity (tc_IssuedAt c) \<and> au_VerifyPassword (au (tc_ID c)) identity pw)"
    if l: "l \<in> set (eg_used st)" "le_TemporaryEgress l" for l
  proof -
    obtain k where k: "k \<in> set (eg_issued st)" "later_lease k l" using used l(1) by blast
    then have "k \<in> set (temporaries (eg_issued st))" using l(2) by (simp add: later_lease_def)
    then obtain c where c: "c \<in> set (eg_minted st)" "bound_to c k" using inv(2) unfolding confirmations_inv_def by blast
    have "bound_to c l" using c(2) k(2) by (simp add: bound_to_def later_lease_def)
    moreover have "tc_AdministratorID c = le_OperatorID l" using calculation by (simp add: bound_to_def)
    ultimately show ?thesis using inv(5) c(1) unfolding minted_inv_def by metis
  qed
  then show ?thesis using d(1) c by blast
qed

theorem one_prompt_one_connection_witness:
  "\<exists>st. egress_run (\<lambda>_. demo_au) (egress_start (NewSecureManager demo_policy True) demo_sm0) st \<and> length (temporaries (eg_used st)) = 1
     \<and> (\<forall>l\<in>set (eg_used st). \<exists>c\<in>set (eg_minted st). bound_to c l)"
proof -
  obtain st where st: "egress_run (\<lambda>_. demo_au) (egress_start (NewSecureManager demo_policy True) demo_sm0) st"
    "eg_leases st = demo_lm1" "eg_used st = []" by (rule demo_run)
  obtain l m' where l: "consumeLocked ''l'' demo_scope 1005 (eg_leases st) = (Inr l, m')" "le_TemporaryEgress l"
    using demo_use st(2) by auto
  let ?st = "st\<lparr>eg_leases := m', eg_used := l # eg_used st\<rparr>"
  have r: "egress_run (\<lambda>_. demo_au) (egress_start (NewSecureManager demo_policy True) demo_sm0) ?st"
    using st(1) egress_step.use[OF l(1)] by (rule egress_run.step)
  from one_prompt_one_connection[OF demo_sessions r] show ?thesis using r l(2) st(3) by (intro exI[of _ ?st]) auto
qed

text \<open>
  C12: A lease is used only while the policy in force admits it. In every run of a secure
  manager, when a use succeeds the lease is unrevoked and was not used before, it is younger
  than ten minutes and unexpired, the request repeats its scope exactly, its epoch is the
  epoch of the policy in force, and that very policy, however often it was replaced since,
  admits the lease's target under the lease's name, or, for a temporary egress, does not know
  the host at all.
\<close>

theorem used_lease_is_admitted:
  assumes "NewTemporarySessionManager True ttl = Inr sm"
    and "egress_run au (egress_start (NewSecureManager p True) sm) st"
    and "consumeLocked lid s now (eg_leases st) = (Inr l, m')"
  shows "lid \<notin> le_ID ` set (eg_used st) \<and> le_ID l = lid \<and> \<not> le_Revoked l \<and> now < le_ExpiresAt l
    \<and> now < le_IssuedAt l + MaxLeaseTTL \<and> leaseMatchesScope l s
    \<and> le_PolicyEpoch l = op_epoch (lm_policy (eg_leases st)) \<and> admitted (lm_policy (eg_leases st)) l"
proof -
  note inv = secure_run_inv[OF assms(2,1)]
  obtain l0 where u: "validateLocked lid s now (eg_leases st) = Inr l0" "\<not> le_Consumed l0"
    "l = l0\<lparr>le_Consumed := True, le_Requests := le_Requests l0 + 1\<rparr>"
    using assms(3) by (rule consumeLocked_Inr)
  note v = u(1)[unfolded validateLocked_Inr]
  have l0: "lm_leases (eg_leases st) lid = Some l0" using v by blast
  have w: "le_ID l0 = lid" "lease_wf l0" using inv(3) l0 by (simp_all add: stored_wf_def)
  have fresh: "lid \<notin> le_ID ` set (eg_used st)" using inv(1) l0 u(2) unfolding leases_inv_def by auto
  have a: "lm_requirePolicy (eg_leases st)" "op_epoch (lm_policy (eg_leases st)) \<noteq> 0"
    using inv(4) l0 unfolding lease_admission_inv_def by blast+
  then have e: "le_PolicyEpoch l0 = op_epoch (lm_policy (eg_leases st))" using v by blast
  have "admitted (lm_policy (eg_leases st)) l0" using inv(4) l0 e unfolding lease_admission_inv_def by blast
  then have "admitted (lm_policy (eg_leases st)) l" unfolding u(3) admitted_def by simp
  moreover have "now < le_IssuedAt l0 + MaxLeaseTTL" using w(2) v unfolding lease_wf_def by linarith
  moreover have "leaseMatchesScope l s" using v unfolding u(3) leaseMatchesScope_def by simp
  ultimately show ?thesis using v w(1) fresh e by (simp add: u(3))
qed

theorem used_lease_is_admitted_witness:
  "\<exists>st l m'. egress_run (\<lambda>_. demo_au) (egress_start (NewSecureManager demo_policy True) demo_sm0) st
     \<and> consumeLocked ''l'' demo_scope 1005 (eg_leases st) = (Inr l, m') \<and> admitted (lm_policy (eg_leases st)) l"
proof -
  obtain st where st: "egress_run (\<lambda>_. demo_au) (egress_start (NewSecureManager demo_policy True) demo_sm0) st"
    "eg_leases st = demo_lm1" by (rule demo_run)
  obtain l m' where l: "consumeLocked ''l'' demo_scope 1005 (eg_leases st) = (Inr l, m')" using demo_use st(2) by auto
  from used_lease_is_admitted[OF demo_sessions st(1) l] show ?thesis using st(1) l by blast
qed

text \<open>
  C13: The stored leases are well-formed in every run of a secure manager: each is filed under
  its own identifier, its fields passed the checks of \<open>Issue\<close>, it lives for at most ten
  minutes, it counts one request exactly when it was used, a result is recorded only after a
  use, and the bytes recorded are never negative and never above the lease's limit.
\<close>

theorem stored_leases_wellformed:
  assumes "NewTemporarySessionManager True ttl = Inr sm"
    and "egress_run au (egress_start (NewSecureManager p True) sm) st"
  shows "lm_leases (eg_leases st) i = Some l \<Longrightarrow> le_ID l = i \<and> lease_wf l"
  using secure_run_inv(3)[OF assms(2,1)] by (simp add: stored_wf_def)

theorem stored_leases_wellformed_witness:
  "lm_leases demo_lm1 ''l'' = Some (lease_of 1004 ''l'' demo_request) \<and> lease_wf (lease_of 1004 ''l'' demo_request)"
proof -
  obtain st where st: "egress_run (\<lambda>_. demo_au) (egress_start (NewSecureManager demo_policy True) demo_sm0) st"
    "eg_leases st = demo_lm1" by (rule demo_run)
  have l: "lm_leases (eg_leases st) ''l'' = Some (lease_of 1004 ''l'' demo_request)" using st(2) demo_issue(5) by simp
  from stored_leases_wellformed[OF demo_sessions st(1) l] show ?thesis using l st(2) by simp
qed

end
