(* ===== verification/Proxy_Trust.thy ===== *)
theory Proxy_Trust
  imports Net_Addr Go_Net
begin

text \<open>
  The trusted-proxy policy of \<open>internal/proxytrust/policy.go\<close>: which socket peers may
  speak for a client, and the address of the client a request is attributed to. The map of
  provider CIDRs is a list of its entries, in the order of the iteration. Requests and policies
  are present.
\<close>

subsection \<open>Addresses as text\<close>

text \<open>\<open>netip.Addr.String\<close>. The first longest run of at least two zero groups of an
  IPv6 address is written as a double colon.\<close>

function small_hex :: "nat \<Rightarrow> string" where
  "small_hex n = (if n < 16 then [hex_digits ! n] else small_hex (n div 16) @ [hex_digits ! (n mod 16)])"
  by auto
termination by (relation "measure (\<lambda>n. n)") auto

fun string4 :: "int list \<Rightarrow> string" where
  "string4 [] = []"
| "string4 [b] = decimal b"
| "string4 (b # bs) = decimal b @ CHR ''.'' # string4 bs"

fun groups6 :: "int list \<Rightarrow> nat list" where
  "groups6 (a # b # bs) = nat (a * 256 + b) # groups6 bs"
| "groups6 _ = []"

definition zero_run :: "nat list \<Rightarrow> nat \<Rightarrow> nat" where
  "zero_run gs i = length (takeWhile (\<lambda>g. g = 0) (drop i gs))"

text \<open>The loop that looks for the longest run: its start and length so far.\<close>

definition longest_zeros :: "nat list \<Rightarrow> nat \<times> nat" where
  "longest_zeros gs = foldl (\<lambda>(s, l) i. if 2 \<le> zero_run gs i \<and> l < zero_run gs i then (i, zero_run gs i) else (s, l))
     (255, 0) [0..<8]"

fun join_colon :: "nat list \<Rightarrow> string" where
  "join_colon [] = []"
| "join_colon [g] = small_hex g"
| "join_colon (g # gs) = small_hex g @ CHR '':'' # join_colon gs"

definition string6 :: "nat list \<Rightarrow> string" where
  "string6 gs = (case longest_zeros gs of (s, l) \<Rightarrow>
     if l = 0 then join_colon gs else join_colon (take s gs) @ ''::'' @ join_colon (drop (s + l) gs))"

fun addr_String :: "Addr \<Rightarrow> string" where
  "addr_String (Addr4 b) = string4 b"
| "addr_String (Addr6 b z) =
     (if Is4In6 (Addr6 b z) then ''::ffff:'' @ string4 (drop 12 b) else string6 (groups6 b))
     @ (if z = [] then [] else CHR ''%'' # z)"

subsection \<open>Providers\<close>

definition providerPolicies :: "(string \<times> string list) list" where
  "providerPolicies =
    [(''cloudflare'', [''CF-Connecting-IP'', ''True-Client-IP'']),
     (''akamai'', [''True-Client-IP'']),
     (''fastly'', [''Fastly-Client-IP'']),
     (''fly'', [''Fly-Client-IP'']),
     (''digitalocean'', [''DO-Connecting-IP'']),
     (''aliyun'', [''Ali-CDN-Real-IP'']),
     (''generic-cdn'', [''CDN-Src-IP'', ''X-CDN-Src-IP'']),
     (''azure'', [''X-Azure-ClientIP'']),
     (''vercel'', [''X-Vercel-Forwarded-For'']),
     (''original-forwarded'', [''X-Original-Forwarded-For'']),
     (''nginx'', [''X-Real-IP'']),
     (''client-ip'', [''X-Client-IP'']),
     (''cluster'', [''X-Cluster-Client-IP'']),
     (''google-app-engine'', [''X-Appengine-User-IP''])]"

definition CanonicalProvider :: "string \<Rightarrow> string option" where
  "CanonicalProvider raw =
     (let name = to_lower (trim_space raw) in
      if name \<in> set (map fst providerPolicies) then Some name else None)"

fun distinct_headers :: "string set \<Rightarrow> string list \<Rightarrow> string list" where
  "distinct_headers seen [] = []"
| "distinct_headers seen (h # hs) =
     (let c = CanonicalHeaderKey h in
      if c \<in> seen then distinct_headers seen hs else c # distinct_headers (insert c seen) hs)"

definition ProviderIdentityHeaders :: "string list" where
  "ProviderIdentityHeaders = distinct_headers {} (concat (map snd providerPolicies))"

subsection \<open>Compiling a policy\<close>

record Policy =
  tp_providers :: "string \<rightharpoonup> Prefix list"
  tp_all :: "Prefix list"
  tp_allCIDRs :: "string list"

datatype trust_error = InvalidCIDR string string | UnknownProvider string | DuplicateProvider string

definition parsePrefix :: "string \<Rightarrow> Prefix option" where
  "parsePrefix raw0 =
     (let raw = trim_space raw0 in
      if raw = [] then None
      else if CHR ''/'' \<in> set raw then map_option Masked (ParsePrefix raw)
      else case ParseAddr raw of
        None \<Rightarrow> None
      | Some a \<Rightarrow> let addr = Unmap a in
          Some (if Is4 addr then \<lparr>px_addr = addr, px_bits = 32\<rparr>
                else \<lparr>px_addr = (case addr of Addr6 b z \<Rightarrow> Addr6 b [] | _ \<Rightarrow> addr), px_bits = 128\<rparr>))"

fun compile_cidrs :: "string \<Rightarrow> string list \<Rightarrow> trust_error + Prefix list" where
  "compile_cidrs scope [] = Inr []"
| "compile_cidrs scope (raw # rs) =
     (case parsePrefix raw of
        None \<Rightarrow> Inl (InvalidCIDR scope (trim_space raw))
      | Some p \<Rightarrow> (case compile_cidrs scope rs of Inl e \<Rightarrow> Inl e | Inr ps \<Rightarrow> Inr (p # ps)))"

fun compile_providers :: "(string \<times> string list) list \<Rightarrow> string set \<Rightarrow> Policy \<Rightarrow> trust_error + Policy" where
  "compile_providers [] seen p = Inr p"
| "compile_providers ((rawName, cidrs) # es) seen p =
     (case CanonicalProvider rawName of
        None \<Rightarrow> Inl (UnknownProvider (trim_space rawName))
      | Some name \<Rightarrow>
          if name \<in> seen then Inl (DuplicateProvider name)
          else (case compile_cidrs (''trusted_proxy_providers.'' @ name) cidrs of
                  Inl e \<Rightarrow> Inl e
                | Inr compiled \<Rightarrow> compile_providers es (insert name seen)
                    (p\<lparr>tp_providers := (tp_providers p)(name \<mapsto> compiled), tp_all := tp_all p @ compiled,
                       tp_allCIDRs := tp_allCIDRs p @ map trim_space cidrs\<rparr>)))"

definition Compile :: "string list \<Rightarrow> (string \<times> string list) list \<Rightarrow> trust_error + Policy" where
  "Compile genericCIDRs providerCIDRs =
     (case compile_cidrs ''trusted_cidrs'' genericCIDRs of
        Inl e \<Rightarrow> Inl e
      | Inr ps \<Rightarrow> compile_providers providerCIDRs {}
          \<lparr>tp_providers = Map.empty, tp_all = ps, tp_allCIDRs = map trim_space genericCIDRs\<rparr>)"

subsection \<open>Peers\<close>

definition containsAny :: "Prefix list \<Rightarrow> Addr \<Rightarrow> bool" where
  "containsAny cidrs addr = list_ex (\<lambda>p. prefix_Contains p addr) cidrs"

definition isTrusted :: "Policy \<Rightarrow> Addr \<Rightarrow> bool" where
  "isTrusted p addr = containsAny (tp_all p) addr"

definition parseRemoteAddr :: "string \<Rightarrow> Addr option" where
  "parseRemoteAddr raw0 =
     (let raw = trim_space raw0 in
      if raw = [] then None
      else let host = (case SplitHostPort raw of Some h \<Rightarrow> h | None \<Rightarrow> trim_set ''[]'' raw)
           in map_option Unmap (ParseAddr (trim_space host)))"

definition IsTrustedRemoteAddr :: "Policy \<Rightarrow> string \<Rightarrow> bool" where
  "IsTrustedRemoteAddr p remoteAddr =
     (case parseRemoteAddr remoteAddr of None \<Rightarrow> False | Some addr \<Rightarrow> isTrusted p addr)"

record inbound_request =
  hq_RemoteAddr :: string
  hq_Header :: header

definition remoteAddrIP :: "inbound_request \<Rightarrow> string" where
  "remoteAddrIP r = (case parseRemoteAddr (hq_RemoteAddr r) of
     Some addr \<Rightarrow> addr_String addr | None \<Rightarrow> trim_space (hq_RemoteAddr r))"

subsection \<open>Headers\<close>

definition joinedHeaderValue :: "header \<Rightarrow> string \<Rightarrow> string option" where
  "joinedHeaderValue h name = map_option join_comma (h (CanonicalHeaderKey name))"

text \<open>The loop of \<open>splitHeaderList\<close>: \<open>cur\<close> is the part since \<open>start\<close>,
  reversed.\<close>

fun split_list :: "char \<Rightarrow> bool \<Rightarrow> bool \<Rightarrow> string \<Rightarrow> string \<Rightarrow> string list" where
  "split_list sep inQuote escaped cur [] = [rev cur]"
| "split_list sep inQuote escaped cur (c # s) =
     (if escaped then split_list sep inQuote False (c # cur) s
      else if inQuote \<and> c = CHR 0x5C then split_list sep inQuote True (c # cur) s
      else if c = CHR 0x22 then split_list sep (\<not> inQuote) False (c # cur) s
      else if \<not> inQuote \<and> c = sep then rev cur # split_list sep inQuote False [] s
      else split_list sep inQuote False (c # cur) s)"

definition splitHeaderList :: "string \<Rightarrow> char \<Rightarrow> string list" where
  "splitHeaderList raw sep = split_list sep False False [] raw"

definition parseHeaderIP :: "string \<Rightarrow> string" where
  "parseHeaderIP raw0 =
     (let raw = trim_space (trim_set [CHR 0x22] raw0) in
      if raw = [] \<or> equal_fold raw ''unknown'' then []
      else let host = (case SplitHostPort raw of Some h \<Rightarrow> h | None \<Rightarrow> trim_set ''[]'' raw) in
        case ParseAddr (trim_space host) of None \<Rightarrow> [] | Some addr \<Rightarrow> addr_String (Unmap addr))"

definition firstHeaderIP :: "string \<Rightarrow> string" where
  "firstHeaderIP value = (case splitHeaderList value (CHR '','') of [] \<Rightarrow> [] | part # _ \<Rightarrow> parseHeaderIP part)"

text \<open>The parameters of one element of \<open>Forwarded\<close>: the last \<open>for\<close> wins, none
  when a parameter has no equals sign or an empty value.\<close>

definition cut_equals :: "string \<Rightarrow> (string \<times> string) option" where
  "cut_equals s = (case dropWhile (\<lambda>c. c \<noteq> CHR ''='') s of
     [] \<Rightarrow> None | _ # v \<Rightarrow> Some (takeWhile (\<lambda>c. c \<noteq> CHR ''='') s, v))"

fun for_value :: "string \<Rightarrow> string list \<Rightarrow> string option" where
  "for_value forValue [] = Some forValue"
| "for_value forValue (part # parts) =
     (case cut_equals (trim_space part) of
        None \<Rightarrow> None
      | Some (key, rawValue) \<Rightarrow>
          if \<not> equal_fold (trim_space key) ''for'' then for_value forValue parts
          else if rawValue = [] then None
          else for_value (trim_space rawValue) parts)"

definition forwardedHeaderValues :: "string \<Rightarrow> string list" where
  "forwardedHeaderValues raw = map (\<lambda>item. case for_value [] (splitHeaderList item (CHR '';'')) of
     None \<Rightarrow> [] | Some v \<Rightarrow> v) (splitHeaderList raw (CHR '',''))"

text \<open>The loop from the last part to the first: the address and whether a part was
  malformed.\<close>

fun forwarded_loop :: "Policy \<Rightarrow> string \<Rightarrow> string list \<Rightarrow> string \<times> bool" where
  "forwarded_loop p nearest [] = (nearest, False)"
| "forwarded_loop p nearest (part # parts) =
     (let ip = parseHeaderIP part in
      if ip = [] then (nearest, True)
      else case ParseAddr ip of
        None \<Rightarrow> (ip, False)
      | Some addr \<Rightarrow> if \<not> isTrusted p addr then (ip, False) else forwarded_loop p ip parts)"

definition forwardedForValues :: "Policy \<Rightarrow> string list \<Rightarrow> string \<times> bool" where
  "forwardedForValues p parts = forwarded_loop p [] (rev parts)"

definition forwardedFor :: "Policy \<Rightarrow> string \<Rightarrow> string \<times> bool" where
  "forwardedFor p value = forwardedForValues p (splitHeaderList value (CHR '',''))"

subsection \<open>The client address\<close>

text \<open>The first present header of a provider decides; a provider none of whose headers are
  present leaves the decision to the next.\<close>

fun provider_headers :: "header \<Rightarrow> string \<Rightarrow> string list \<Rightarrow> string option" where
  "provider_headers h remote [] = None"
| "provider_headers h remote (name # names) =
     (case joinedHeaderValue h name of
        None \<Rightarrow> provider_headers h remote names
      | Some value \<Rightarrow> Some (if firstHeaderIP value \<noteq> [] then firstHeaderIP value else remote))"

fun provider_loop :: "Policy \<Rightarrow> Addr \<Rightarrow> header \<Rightarrow> string \<Rightarrow> (string \<times> string list) list \<Rightarrow> string option" where
  "provider_loop p remoteAddr h remote [] = None"
| "provider_loop p remoteAddr h remote ((name, names) # pps) =
     (case tp_providers p name of
        None \<Rightarrow> provider_loop p remoteAddr h remote pps
      | Some cidrs \<Rightarrow>
          if \<not> containsAny cidrs remoteAddr then provider_loop p remoteAddr h remote pps
          else (case provider_headers h remote names of
                  Some ip \<Rightarrow> Some ip
                | None \<Rightarrow> provider_loop p remoteAddr h remote pps))"

text \<open>One forwarding header: \<open>None\<close> leaves the decision to what follows.\<close>

definition forwarding :: "string \<Rightarrow> string \<times> bool \<Rightarrow> string option" where
  "forwarding remote r = (if fst r \<noteq> [] then Some (fst r) else if snd r then Some remote else None)"

definition ClientIP :: "Policy \<Rightarrow> inbound_request \<Rightarrow> string" where
  "ClientIP p r =
     (let remote = remoteAddrIP r; h = hq_Header r in
      case parseRemoteAddr remote of
        None \<Rightarrow> remote
      | Some remoteAddr \<Rightarrow>
          if \<not> isTrusted p remoteAddr then remote
          else case provider_loop p remoteAddr h remote providerPolicies of
            Some ip \<Rightarrow> ip
          | None \<Rightarrow>
              (case (case joinedHeaderValue h ''X-Forwarded-For'' of
                       None \<Rightarrow> None | Some value \<Rightarrow> forwarding remote (forwardedFor p value)) of
                 Some ip \<Rightarrow> ip
               | None \<Rightarrow>
                   (case (case joinedHeaderValue h ''Forwarded'' of
                            None \<Rightarrow> None
                          | Some value \<Rightarrow> forwarding remote (forwardedForValues p (forwardedHeaderValues value))) of
                      Some ip \<Rightarrow> ip
                    | None \<Rightarrow> remote)))"

end
