(* ===== verification/Trust_Properties.thy ===== *)
theory Trust_Properties
  imports Proxy_Trust
begin

text \<open>
  Properties of the trusted-proxy policy: which headers can influence the client address, and
  that the addresses appended by trusted proxies outweigh what the client wrote before them,
  as long as its quotes are closed.
\<close>

subsection \<open>What a decision reads\<close>

definition read_headers :: "Policy \<Rightarrow> inbound_request \<Rightarrow> string set" where
  "read_headers p r = (case parseRemoteAddr (remoteAddrIP r) of
     None \<Rightarrow> {}
   | Some a \<Rightarrow> if isTrusted p a
       then CanonicalHeaderKey ` ({''X-Forwarded-For'', ''Forwarded''} \<union>
         {name. \<exists>provider names. (provider, names) \<in> set providerPolicies \<and> name \<in> set names
            \<and> (\<exists>cidrs. tp_providers p provider = Some cidrs \<and> containsAny cidrs a)})
       else {})"

lemma provider_headers_cong:
  "\<forall>name\<in>set names. h (CanonicalHeaderKey name) = k (CanonicalHeaderKey name) \<Longrightarrow>
     provider_headers h remote names = provider_headers k remote names"
  by (induction names) (auto simp: joinedHeaderValue_def split: option.split)

lemma provider_loop_cong:
  assumes "\<And>provider names cidrs name. (provider, names) \<in> set pps \<Longrightarrow> tp_providers p provider = Some cidrs \<Longrightarrow>
     containsAny cidrs a \<Longrightarrow> name \<in> set names \<Longrightarrow> h (CanonicalHeaderKey name) = k (CanonicalHeaderKey name)"
  shows "provider_loop p a h remote pps = provider_loop p a k remote pps"
  using assms
proof (induction pps)
  case (Cons pp pps)
  obtain provider names where pp: "pp = (provider, names)" by fastforce
  have ih: "provider_loop p a h remote pps = provider_loop p a k remote pps"
    by (rule Cons.IH) (use Cons.prems in \<open>auto\<close>)
  have "provider_headers h remote names = provider_headers k remote names"
    if "tp_providers p provider = Some cidrs" "containsAny cidrs a" for cidrs
    by (rule provider_headers_cong) (use Cons.prems[of provider names cidrs] that pp in auto)
  then show ?case using ih by (auto simp: pp split: option.split)
qed simp

text \<open>
  C18: Non-interference of the client address. The address a request is attributed to depends on
  the socket peer and, only if the peer is a trusted proxy, on the two forwarding headers and
  the identity headers of the providers whose own networks contain the peer. No other header,
  and no header at all of a peer that is not trusted, can change it.
\<close>

theorem client_ip_noninterference:
  assumes "hq_RemoteAddr r = hq_RemoteAddr q"
    and "\<forall>name\<in>read_headers p r. hq_Header r name = hq_Header q name"
  shows "ClientIP p r = ClientIP p q"
proof -
  have rem: "remoteAddrIP r = remoteAddrIP q" using assms(1) by (simp add: remoteAddrIP_def split: option.split)
  show ?thesis
  proof (cases "parseRemoteAddr (remoteAddrIP r)")
    case None
    then show ?thesis using rem by (simp add: ClientIP_def)
  next
    case (Some a)
    show ?thesis
    proof (cases "isTrusted p a")
      case False
      then show ?thesis using rem Some by (simp add: ClientIP_def)
    next
      case True
      note agree = assms(2)[unfolded read_headers_def Some option.case if_P[OF True]]
      have fwd: "joinedHeaderValue (hq_Header r) name = joinedHeaderValue (hq_Header q) name"
        if "name \<in> {''X-Forwarded-For'', ''Forwarded''}" for name
        using agree that unfolding joinedHeaderValue_def by auto
      have "provider_loop p a (hq_Header r) remote providerPolicies = provider_loop p a (hq_Header q) remote providerPolicies" for remote
        by (rule provider_loop_cong) (use agree in blast)
      then show ?thesis using rem Some True fwd[of "''X-Forwarded-For''"] fwd[of "''Forwarded''"]
        by (simp add: ClientIP_def Let_def cong: option.case_cong)
    qed
  qed
qed

subsection \<open>Splitting a list header\<close>

text \<open>Whether a quotation, and an escape in it, is open after a text.\<close>

fun quote_state :: "bool \<Rightarrow> bool \<Rightarrow> string \<Rightarrow> bool \<times> bool" where
  "quote_state q e [] = (q, e)"
| "quote_state q e (c # s) =
     (if e then quote_state q False s
      else if q \<and> c = CHR 0x5C then quote_state q True s
      else if c = CHR 0x22 then quote_state (\<not> q) False s
      else quote_state q False s)"

definition quotes_closed :: "string \<Rightarrow> bool" where
  "quotes_closed s \<longleftrightarrow> quote_state False False s = (False, False)"

definition plain_hop :: "string \<Rightarrow> bool" where
  "plain_hop s \<longleftrightarrow> CHR 0x22 \<notin> set s \<and> CHR '','' \<notin> set s"

lemma split_list_append:
  "quote_state q e xs = (False, False) \<Longrightarrow> sep \<noteq> CHR 0x22 \<Longrightarrow>
     split_list sep q e cur (xs @ sep # ys) = split_list sep q e cur xs @ split_list sep False False [] ys"
  by (induction sep q e cur xs rule: split_list.induct) (auto split: if_splits)

lemma split_closed:
  "quotes_closed xs \<Longrightarrow> splitHeaderList (xs @ CHR '','' # ys) (CHR '','') =
     splitHeaderList xs (CHR '','') @ splitHeaderList ys (CHR '','')"
  unfolding splitHeaderList_def quotes_closed_def by (rule split_list_append) simp_all

lemma split_plain: "plain_hop s \<Longrightarrow> split_list (CHR '','') False False cur s = [rev cur @ s]"
  by (induction s arbitrary: cur) (auto simp: plain_hop_def)

lemma plain_closed: "plain_hop s \<Longrightarrow> quotes_closed s"
proof -
  have "CHR 0x22 \<notin> set s \<Longrightarrow> quote_state False False s = (False, False)" by (induction s) auto
  then show "plain_hop s \<Longrightarrow> quotes_closed s" by (simp add: plain_hop_def quotes_closed_def)
qed

lemma split_hops:
  "list_all plain_hop hops \<Longrightarrow> hops \<noteq> [] \<Longrightarrow> splitHeaderList (join_comma hops) (CHR '','') = hops"
proof (induction hops rule: join_comma.induct)
  case (2 v)
  then show ?case by (simp add: splitHeaderList_def split_plain)
next
  case (3 v w ws)
  then show ?case using split_closed[OF plain_closed, of v "join_comma (w # ws)"]
    by (simp add: splitHeaderList_def split_plain)
qed simp

subsection \<open>Walking the hops\<close>

definition trusted_hop :: "Policy \<Rightarrow> string \<Rightarrow> bool" where
  "trusted_hop p part \<longleftrightarrow> parseHeaderIP part \<noteq> []
     \<and> (case ParseAddr (parseHeaderIP part) of None \<Rightarrow> False | Some a \<Rightarrow> isTrusted p a)"

definition client_hop :: "Policy \<Rightarrow> string \<Rightarrow> bool" where
  "client_hop p part \<longleftrightarrow> parseHeaderIP part \<noteq> []
     \<and> (case ParseAddr (parseHeaderIP part) of None \<Rightarrow> True | Some a \<Rightarrow> \<not> isTrusted p a)"

lemma forwarded_loop_client:
  "list_all (trusted_hop p) ts \<Longrightarrow> client_hop p hop \<Longrightarrow>
     forwarded_loop p nearest (ts @ hop # rest) = (parseHeaderIP hop, False)"
  by (induction ts arbitrary: nearest)
     (auto simp: trusted_hop_def client_hop_def Let_def split: option.splits)

text \<open>
  C19: The nearest address that is not a trusted proxy is the client. When a trusted peer that no
  provider binding covers sends X-Forwarded-For, and the header ends with an address that is
  not trusted followed by trusted hops only, or is just that, all of them without quotation
  marks, then that address is the client's, whatever the client itself wrote before it,
  provided the client's part leaves no quotation open.
\<close>

theorem nearest_untrusted_hop_is_client:
  assumes "parseRemoteAddr (remoteAddrIP r) = Some a" "isTrusted p a"
    and "\<forall>provider cidrs. tp_providers p provider = Some cidrs \<longrightarrow> \<not> containsAny cidrs a"
    and "hq_Header r (CanonicalHeaderKey ''X-Forwarded-For'') = Some vs"
    and "join_comma vs = join_comma (hop # hops)
      \<or> quotes_closed client \<and> join_comma vs = client @ CHR '','' # join_comma (hop # hops)"
    and "list_all plain_hop (hop # hops)"
    and "client_hop p hop" "list_all (trusted_hop p) hops"
  shows "ClientIP p r = parseHeaderIP hop"
proof -
  have none: "provider_loop p a h remote pps = None" for h remote pps
    using assms(3) by (induction pps) (auto split: option.split)
  obtain before where "splitHeaderList (join_comma vs) (CHR '','') = before @ hop # hops"
    using assms(5) split_closed split_hops[OF assms(6)] by fastforce
  then have "forwardedFor p (join_comma vs) = (parseHeaderIP hop, False)"
    using forwarded_loop_client[of p "rev hops" hop "[]" "rev before"] assms(7,8)
    by (simp add: forwardedFor_def forwardedForValues_def list_all_iff)
  then show ?thesis using assms(1,2,4,7) none
    by (simp add: ClientIP_def joinedHeaderValue_def forwarding_def client_hop_def)
qed

subsection \<open>Examples\<close>

definition trust_demo :: Policy where
  "trust_demo = (case Compile [''10.0.0.0/8''] [(''fastly'', [''192.0.2.0/24''])] of Inr p \<Rightarrow> p
     | Inl _ \<Rightarrow> \<lparr>tp_providers = Map.empty, tp_all = [], tp_allCIDRs = []\<rparr>)"

definition forwarded_request :: "string \<Rightarrow> string \<Rightarrow> inbound_request" where
  "forwarded_request remote xff = \<lparr>hq_RemoteAddr = remote, hq_Header = [''X-Forwarded-For'' \<mapsto> [xff]]\<rparr>"

text \<open>A quotation the client leaves open swallows the comma and the address the trusted proxy
  appends; \<open>SplitHostPort\<close> then takes them for a port, and the client has chosen its
  own address. Without the quotation mark the appended address counts.\<close>

lemma open_quote_spoofs_client:
  "ClientIP trust_demo (forwarded_request ''10.0.0.1:5000'' (''1.1.1.1:x'' @ '', 203.0.113.9'')) = ''203.0.113.9''"
  "ClientIP trust_demo (forwarded_request ''10.0.0.1:5000'' ((CHR 0x22 # ''1.1.1.1:x'') @ '', 203.0.113.9'')) = ''1.1.1.1''"
  by code_simp+

theorem client_ip_noninterference_witness:
  "ClientIP trust_demo (forwarded_request ''198.51.100.7:4000'' ''1.1.1.1'') =
     ClientIP trust_demo (forwarded_request ''198.51.100.7:4000'' ''2.2.2.2'')"
proof (rule client_ip_noninterference)
  have "parseRemoteAddr (remoteAddrIP (forwarded_request ''198.51.100.7:4000'' ''1.1.1.1'')) = Some (Addr4 [198, 51, 100, 7])"
    "\<not> isTrusted trust_demo (Addr4 [198, 51, 100, 7])"
    by code_simp+
  then show "\<forall>name\<in>read_headers trust_demo (forwarded_request ''198.51.100.7:4000'' ''1.1.1.1'').
      hq_Header (forwarded_request ''198.51.100.7:4000'' ''1.1.1.1'') name = hq_Header (forwarded_request ''198.51.100.7:4000'' ''2.2.2.2'') name"
    by (simp add: read_headers_def)
qed (simp add: forwarded_request_def)

lemma trust_demo_providers: "tp_providers trust_demo = [''fastly'' \<mapsto> [\<lparr>px_addr = Addr4 [192, 0, 2, 0], px_bits = 24\<rparr>]]"
proof -
  have "CanonicalProvider ''fastly'' = Some ''fastly''"
    "compile_cidrs ''trusted_cidrs'' [''10.0.0.0/8''] = Inr [\<lparr>px_addr = Addr4 [10, 0, 0, 0], px_bits = 8\<rparr>]"
    "compile_cidrs (''trusted_proxy_providers.'' @ ''fastly'') [''192.0.2.0/24''] = Inr [\<lparr>px_addr = Addr4 [192, 0, 2, 0], px_bits = 24\<rparr>]"
    by code_simp+
  then show ?thesis by (simp add: trust_demo_def Compile_def)
qed

theorem nearest_untrusted_hop_is_client_witness:
  "ClientIP trust_demo (forwarded_request ''10.0.0.1:5000'' (''1.1.1.1, 127.0.0.1'' @ '','' @ ''203.0.113.9,10.3.2.1'')) = ''203.0.113.9''"
proof -
  let ?r = "forwarded_request ''10.0.0.1:5000'' (''1.1.1.1, 127.0.0.1'' @ '','' @ ''203.0.113.9,10.3.2.1'')"
  have ip: "parseHeaderIP ''203.0.113.9'' = ''203.0.113.9''" by code_simp
  have "ClientIP trust_demo ?r = parseHeaderIP ''203.0.113.9''"
  proof (rule nearest_untrusted_hop_is_client[where vs = "[''1.1.1.1, 127.0.0.1'' @ '','' @ ''203.0.113.9,10.3.2.1'']"
        and client = "''1.1.1.1, 127.0.0.1''" and hops = "[''10.3.2.1'']" and a = "Addr4 [10, 0, 0, 1]"])
    show "parseRemoteAddr (remoteAddrIP ?r) = Some (Addr4 [10, 0, 0, 1])" by code_simp
    show "isTrusted trust_demo (Addr4 [10, 0, 0, 1])" by code_simp
    have "\<not> containsAny [\<lparr>px_addr = Addr4 [192, 0, 2, 0], px_bits = 24\<rparr>] (Addr4 [10, 0, 0, 1])" by code_simp
    then show "\<forall>provider cidrs. tp_providers trust_demo provider = Some cidrs \<longrightarrow> \<not> containsAny cidrs (Addr4 [10, 0, 0, 1])"
      by (auto simp: trust_demo_providers)
    show "hq_Header ?r (CanonicalHeaderKey ''X-Forwarded-For'') = Some [''1.1.1.1, 127.0.0.1'' @ '','' @ ''203.0.113.9,10.3.2.1'']"
      by code_simp
    have "join_comma [''1.1.1.1, 127.0.0.1'' @ '','' @ ''203.0.113.9,10.3.2.1''] =
        ''1.1.1.1, 127.0.0.1'' @ CHR '','' # join_comma [''203.0.113.9'', ''10.3.2.1'']"
      "quotes_closed ''1.1.1.1, 127.0.0.1''" by code_simp+
    then show "join_comma [''1.1.1.1, 127.0.0.1'' @ '','' @ ''203.0.113.9,10.3.2.1''] = join_comma [''203.0.113.9'', ''10.3.2.1'']
        \<or> quotes_closed ''1.1.1.1, 127.0.0.1'' \<and> join_comma [''1.1.1.1, 127.0.0.1'' @ '','' @ ''203.0.113.9,10.3.2.1''] =
        ''1.1.1.1, 127.0.0.1'' @ CHR '','' # join_comma [''203.0.113.9'', ''10.3.2.1'']" by blast
    show "list_all plain_hop [''203.0.113.9'', ''10.3.2.1'']" by code_simp
    show "client_hop trust_demo ''203.0.113.9''" by code_simp
    show "list_all (trusted_hop trust_demo) [''10.3.2.1'']" by code_simp
  qed
  then show ?thesis using ip by simp
qed

end
