(* ===== verification/Decoder.thy ===== *)
theory Decoder
  imports Request_Path
begin

text \<open>
  \<open>internal/engine/decoder\<close>: the bounded decoding of request text for the detectors.

  \<open>html.UnescapeString\<close> and the four base64 decoders of the standard library are the
  fields of a record that is an argument; a decoder that reports an error yields
  \<open>None\<close>. The regular expressions are written as the predicates they denote. The ratio
  of printable runes is compared as a fraction: the two floating-point thresholds are the
  doubles nearest to 65/100 and 70/100, and a quotient of lengths that differs from them is
  further away than the rounding.
\<close>

record codec =
  cd_html :: "string \<Rightarrow> string"
  cd_base64 :: "(string \<Rightarrow> string option) list"

record Decoded =
  de_Raw :: string
  de_Layers :: "string list"
  de_Text :: string

definition DefaultDecodeDepth :: int where
  "DefaultDecodeDepth = 10"

definition MaxDecodeDepth :: int where
  "MaxDecodeDepth = 12"

subsection \<open>The layers\<close>

text \<open>\<open>url.QueryUnescape\<close>.\<close>

fun QueryUnescape :: "string \<Rightarrow> string option" where
  "QueryUnescape [] = Some []"
| "QueryUnescape (c # s) =
     (if c = CHR ''%'' then
        (case s of
           a # b # t \<Rightarrow> if is_hex a \<and> is_hex b
             then map_option (Cons (char_of (hex_value a * 16 + hex_value b))) (QueryUnescape t) else None
         | _ \<Rightarrow> None)
      else map_option (Cons (if c = CHR ''+'' then CHR '' '' else c)) (QueryUnescape s))"

definition decoder_URL :: "string \<Rightarrow> string option" where
  "decoder_URL raw = QueryUnescape raw"

fun try_base64 :: "(string \<Rightarrow> string option) list \<Rightarrow> string \<Rightarrow> string option" where
  "try_base64 [] raw = None"
| "try_base64 (e # es) raw =
     (case e raw of Some decoded \<Rightarrow> if decoded \<noteq> [] then Some decoded else try_base64 es raw
      | None \<Rightarrow> try_base64 es raw)"

definition TryBase64 :: "codec \<Rightarrow> string \<Rightarrow> string option" where
  "TryBase64 cd raw = try_base64 (cd_base64 cd) raw"

text \<open>\<open>string(rune(value))\<close> for a value of at most sixteen bits: the UTF-8 encoding, or
  that of the replacement character for a surrogate.\<close>

definition encode_rune :: "int \<Rightarrow> string" where
  "encode_rune v =
     (if v < 0x80 then [char_of v]
      else if v < 0x800 then [char_of (0xC0 + v div 64), char_of (0x80 + v mod 64)]
      else if in_range 0xD800 0xDFFF v then [CHR 0xEF, CHR 0xBF, CHR 0xBD]
      else [char_of (0xE0 + v div 4096), char_of (0x80 + v div 64 mod 64), char_of (0x80 + v mod 64)])"

definition escape_value :: "string \<Rightarrow> int" where
  "escape_value s = foldl (\<lambda>v c. v * 16 + hex_value c) 0 s"

text \<open>How many bytes an escape at the front takes: a backslash with \<open>u\<close> and four or
  \<open>x\<close> and two hexadecimal digits; none otherwise.\<close>

definition escape_width :: "(char \<Rightarrow> char \<Rightarrow> bool) \<Rightarrow> string \<Rightarrow> nat" where
  "escape_width eq s =
     (if length s \<ge> 6 \<and> s ! 0 = CHR 0x5C \<and> eq (s ! 1) (CHR ''u'') \<and> list_all is_hex (take 4 (drop 2 s)) then 6
      else if length s \<ge> 4 \<and> s ! 0 = CHR 0x5C \<and> eq (s ! 1) (CHR ''x'') \<and> list_all is_hex (take 2 (drop 2 s)) then 4
      else 0)"

function replace_escapes :: "string \<Rightarrow> string \<times> bool" where
  "replace_escapes s =
     (if s = [] then ([], False)
      else let w = escape_width (=) s in
        if w = 0 then (case replace_escapes (tl s) of (out, changed) \<Rightarrow> (hd s # out, changed))
        else (case replace_escapes (drop w s) of
                (out, _) \<Rightarrow> (encode_rune (escape_value (drop 2 (take w s))) @ out, True)))"
  by auto
termination by (relation "measure length") (auto simp: escape_width_def Let_def split: if_splits)

declare replace_escapes.simps [simp del]

definition unescapeUnicode :: "string \<Rightarrow> string \<times> bool" where
  "unescapeUnicode raw =
     (if \<not> contains raw [CHR 0x5C, CHR ''u''] \<and> \<not> contains raw [CHR 0x5C, CHR ''x''] then (raw, False)
      else replace_escapes raw)"

subsection \<open>What looks encoded\<close>

text \<open>The class of the first expression under case folding: the Kelvin sign and the long s
  fold to letters.\<close>

definition base64_rune :: "int \<Rightarrow> bool" where
  "base64_rune r \<longleftrightarrow> in_range 97 122 r \<or> in_range 65 90 r \<or> r = 0x212A \<or> r = 0x17F \<or> in_range 48 57 r
     \<or> r \<in> {43, 47, 61}"

definition rxBase64Blob :: "string \<Rightarrow> bool" where
  "rxBase64Blob text \<longleftrightarrow> length (runes text) \<ge> 20 \<and> list_all base64_rune (runes text)"

text \<open>An expression that repeats a part: the width of one part at the front, none if it does
  not match, and whether a number of them follow each other somewhere.\<close>

fun repeats :: "(string \<Rightarrow> nat) \<Rightarrow> nat \<Rightarrow> string \<Rightarrow> bool" where
  "repeats w 0 s = True"
| "repeats w (Suc n) s \<longleftrightarrow> w s \<noteq> 0 \<and> repeats w n (drop (w s) s)"

fun somewhere :: "(string \<Rightarrow> bool) \<Rightarrow> string \<Rightarrow> bool" where
  "somewhere p [] = p []"
| "somewhere p (c # s) \<longleftrightarrow> p (c # s) \<or> somewhere p s"

definition percent_width :: "string \<Rightarrow> nat" where
  "percent_width s = (if length s \<ge> 3 \<and> s ! 0 = CHR ''%'' \<and> is_hex (s ! 1) \<and> is_hex (s ! 2) then 3 else 0)"

definition rxPercentRun :: "string \<Rightarrow> bool" where
  "rxPercentRun text = somewhere (repeats percent_width 4) text"

definition same_letter :: "char \<Rightarrow> char \<Rightarrow> bool" where
  "same_letter c l \<longleftrightarrow> lower_byte c = l"

definition rxEscapeRun :: "string \<Rightarrow> bool" where
  "rxEscapeRun text = somewhere (repeats (escape_width same_letter) 2) text"

definition entity_width :: "string \<Rightarrow> nat" where
  "entity_width s =
     (if length s \<ge> 2 \<and> s ! 0 = CHR ''&'' \<and> s ! 1 = CHR ''#'' then
        let x = (if length s \<ge> 3 \<and> same_letter (s ! 2) (CHR ''x'') then 3 else 2);
            h = length (takeWhile is_hex (drop x s))
        in if h \<noteq> 0 \<and> length s > x + h \<and> s ! (x + h) = CHR '';'' then x + h + 1 else 0
      else 0)"

definition rxEntityRun :: "string \<Rightarrow> bool" where
  "rxEntityRun text = somewhere (repeats entity_width 2) text"

definition looksLikeEncodedPayload :: "string \<Rightarrow> bool" where
  "looksLikeEncodedPayload text \<longleftrightarrow>
     length text \<ge> 20 \<and> rxBase64Blob text
     \<or> length text \<ge> 12 \<and> CHR ''%'' \<in> set text \<and> rxPercentRun text
     \<or> length text \<ge> 8 \<and> CHR 0x5C \<in> set text \<and> rxEscapeRun text
     \<or> length text \<ge> 8 \<and> CHR ''&'' \<in> set text \<and> rxEntityRun text"

definition printable :: "int \<Rightarrow> bool" where
  "printable r \<longleftrightarrow> (0x20 \<le> r \<and> r < 0x7F) \<or> r \<in> {10, 13, 9}"

definition printable_above :: "nat \<Rightarrow> string \<Rightarrow> bool" where
  "printable_above percent text \<longleftrightarrow>
     (if text = [] then False else length (filter printable (runes text)) * 100 > percent * length text)"

subsection \<open>The loop\<close>

definition url_layer :: "string \<Rightarrow> string option" where
  "url_layer text =
     (if CHR ''%'' \<in> set text \<or> CHR ''+'' \<in> set text then
        (case QueryUnescape text of Some nxt \<Rightarrow> if nxt \<noteq> text then Some nxt else None | None \<Rightarrow> None)
      else None)"

definition html_layer :: "codec \<Rightarrow> string \<Rightarrow> string option" where
  "html_layer cd text =
     (if CHR ''&'' \<in> set text \<and> cd_html cd text \<noteq> text then Some (cd_html cd text) else None)"

definition base64_layer :: "codec \<Rightarrow> string \<Rightarrow> string option" where
  "base64_layer cd text =
     (if looksLikeEncodedPayload text then
        (case TryBase64 cd (trim_space text) of
           Some b64 \<Rightarrow> if printable_above 65 b64 then Some b64 else None | None \<Rightarrow> None)
      else None)"

definition unicode_layer :: "string \<Rightarrow> string option" where
  "unicode_layer text = (case unescapeUnicode text of (unescaped, changed) \<Rightarrow> if changed then Some unescaped else None)"

fun first_layer :: "(string \<times> string option) list \<Rightarrow> (string \<times> string) option" where
  "first_layer [] = None"
| "first_layer ((name, r) # rs) = (case r of Some t \<Rightarrow> Some (name, t) | None \<Rightarrow> first_layer rs)"

definition next_layer :: "codec \<Rightarrow> string \<Rightarrow> (string \<times> string) option" where
  "next_layer cd text = first_layer
     [(''url'', url_layer text), (''html'', html_layer cd text), (''base64'', base64_layer cd text),
      (''unicode'', unicode_layer text)]"

text \<open>At most \<open>n\<close> layers; the text reached and the layers in the order applied.\<close>

fun decode_loop :: "codec \<Rightarrow> nat \<Rightarrow> string \<Rightarrow> string \<times> string list" where
  "decode_loop cd 0 text = (text, [])"
| "decode_loop cd (Suc n) text =
     (case next_layer cd text of
        None \<Rightarrow> (text, [])
      | Some (name, t) \<Rightarrow> (case decode_loop cd n t of (t', ls) \<Rightarrow> (t', name # ls)))"

definition decode_depth :: "int \<Rightarrow> nat" where
  "decode_depth maxDepth0 =
     (let maxDepth = (if maxDepth0 \<le> 0 then DefaultDecodeDepth else maxDepth0)
      in nat (if maxDepth > MaxDecodeDepth then MaxDecodeDepth else maxDepth))"

definition strip_nul :: "string \<Rightarrow> string" where
  "strip_nul s = filter (\<lambda>c. c \<noteq> CHR 0x00) s"

definition decodeWithDepth :: "codec \<Rightarrow> string \<Rightarrow> int \<Rightarrow> bool \<Rightarrow> Decoded" where
  "decodeWithDepth cd raw maxDepth stripNUL =
     (case decode_loop cd (decode_depth maxDepth) raw of
        (text, layers) \<Rightarrow>
          \<lparr>de_Raw = raw, de_Layers = ''raw'' # layers,
           de_Text = (if stripNUL then strip_nul (trim_space text) else trim_space text)\<rparr>)"

definition DecodeWithDepth :: "codec \<Rightarrow> string \<Rightarrow> int \<Rightarrow> Decoded" where
  "DecodeWithDepth cd raw maxDepth = decodeWithDepth cd raw maxDepth True"

definition DecodeWithDepthPreserveControls :: "codec \<Rightarrow> string \<Rightarrow> int \<Rightarrow> Decoded" where
  "DecodeWithDepthPreserveControls cd raw maxDepth = decodeWithDepth cd raw maxDepth False"

definition Decode :: "codec \<Rightarrow> string \<Rightarrow> Decoded" where
  "Decode cd raw = DecodeWithDepth cd raw DefaultDecodeDepth"

definition DeepDecode :: "codec \<Rightarrow> string \<Rightarrow> Decoded" where
  "DeepDecode cd raw = DecodeWithDepth cd raw MaxDecodeDepth"

definition deepDecodeFrom :: "codec \<Rightarrow> Decoded \<Rightarrow> Decoded" where
  "deepDecodeFrom cd result =
     (let remaining = MaxDecodeDepth - (int (length (de_Layers result)) - 1) in
      if length (de_Layers result) > 1 \<and> remaining > 0 then
        let second = DecodeWithDepth cd (de_Text result) remaining in
        if length (de_Layers second) > 1
        then result\<lparr>de_Text := de_Text second, de_Layers := de_Layers result @ tl (de_Layers second)\<rparr>
        else result
      else result)"

text \<open>The last loop of \<open>DecodeAll\<close>: the first encoding that yields printable text.\<close>

fun base64_variant :: "(string \<Rightarrow> string option) list \<Rightarrow> Decoded \<Rightarrow> Decoded list" where
  "base64_variant [] deep = []"
| "base64_variant (e # es) deep =
     (case e (trim_space (de_Text deep)) of
        Some decoded \<Rightarrow>
          if decoded \<noteq> [] \<and> printable_above 70 decoded
          then [\<lparr>de_Raw = de_Text deep, de_Layers = de_Layers deep @ [''base64''], de_Text = strip_nul decoded\<rparr>]
          else base64_variant es deep
      | None \<Rightarrow> base64_variant es deep)"

definition DecodeAll :: "codec \<Rightarrow> string \<Rightarrow> Decoded list" where
  "DecodeAll cd raw =
     (let result = Decode cd raw; deep = deepDecodeFrom cd result
      in result # (if de_Text deep \<noteq> de_Text result then [deep] else []) @ base64_variant (cd_base64 cd) deep)"

subsection \<open>Flattening JSON\<close>

text \<open>A decoded document, an object with its members in the order of the iteration, a number
  or truth value as the text \<open>fmt.Sprint\<close> gives it. Decoding is an argument.\<close>

datatype json = JObject "(string \<times> json) list" | JArray "json list" | JString string | JScalar string | JNull

definition maxJSONDepth :: nat where
  "maxJSONDepth = 8"

text \<open>None is the error of a document that is too deep.\<close>

fun flatten :: "json \<Rightarrow> nat \<Rightarrow> string list option"
  and flatten_members :: "(string \<times> json) list \<Rightarrow> nat \<Rightarrow> string list option"
  and flatten_items :: "json list \<Rightarrow> nat \<Rightarrow> string list option" where
  "flatten value depth =
     (if depth > maxJSONDepth then None
      else case value of
        JObject ms \<Rightarrow> flatten_members ms (depth + 1)
      | JArray vs \<Rightarrow> flatten_items vs (depth + 1)
      | JString s \<Rightarrow> Some [s]
      | JScalar s \<Rightarrow> Some [s]
      | JNull \<Rightarrow> Some [])"
| "flatten_members [] depth = Some []"
| "flatten_members ((k, v) # ms) depth =
     (case flatten v depth of None \<Rightarrow> None
      | Some xs \<Rightarrow> map_option (\<lambda>ys. k # xs @ ys) (flatten_members ms depth))"
| "flatten_items [] depth = Some []"
| "flatten_items (v # vs) depth =
     (case flatten v depth of None \<Rightarrow> None | Some xs \<Rightarrow> map_option (\<lambda>ys. xs @ ys) (flatten_items vs depth))"

fun join_space :: "string list \<Rightarrow> string" where
  "join_space [] = []"
| "join_space [s] = s"
| "join_space (s # t # ss) = s @ CHR '' '' # join_space (t # ss)"

text \<open>The text and whether the depth error was returned.\<close>

definition FlattenJSON :: "(string \<Rightarrow> json option) \<Rightarrow> string \<Rightarrow> string \<times> bool" where
  "FlattenJSON unmarshal raw =
     (case unmarshal raw of
        None \<Rightarrow> (raw, False)
      | Some value \<Rightarrow> (case flatten value 0 of None \<Rightarrow> (raw, True) | Some parts \<Rightarrow> (join_space parts, False)))"

end
