(* ===== verification/Decoder_Properties.thy ===== *)
theory Decoder_Properties
  imports Decoder
begin

text \<open>
  Properties of the decoder: its byte gates change nothing, nested encodings are undone up to
  the depth and no further, and a document is flattened whole or refused.
\<close>

subsection \<open>The gates\<close>

lemma QueryUnescape_plain: "CHR ''%'' \<notin> set s \<Longrightarrow> CHR ''+'' \<notin> set s \<Longrightarrow> QueryUnescape s = Some s"
  by (induction s) auto

lemma length_runes: "length (runes s) \<le> length s"
proof -
  have "length xs \<le> length (concat (map snd xs))" if "\<forall>x\<in>set xs. snd x \<noteq> []" for xs :: "(int \<times> string) list"
    using that
  proof (induction xs)
    case (Cons x xs)
    then have "1 \<le> length (snd x)" by (cases "snd x") auto
    then show ?case using Cons by simp
  qed simp
  moreover have "\<forall>x\<in>set (segs s). snd x \<noteq> []"
  proof (induction s rule: segs.induct)
    case (2 c s)
    obtain r w where d: "decode_rune (c # s) = (r, w)" by fastforce
    have "0 < w" using decode_rune_width_pos[of "c # s"] d by simp
    then show ?case using 2[OF d[symmetric] refl] by (subst segs.simps(2)) (auto simp: d)
  qed simp
  ultimately have "length (segs s) \<le> length (concat (map snd (segs s)))" by blast
  then show ?thesis by (simp add: runes_def)
qed

text \<open>A part that starts with a certain byte and has a minimal width forces that byte and the
  multiple of the width on every text that repeats it somewhere.\<close>

definition part_shape :: "(string \<Rightarrow> nat) \<Rightarrow> char \<Rightarrow> nat \<Rightarrow> bool" where
  "part_shape w c k \<longleftrightarrow> (\<forall>s. w s \<noteq> 0 \<longrightarrow> k \<le> w s \<and> w s \<le> length s \<and> s \<noteq> [] \<and> s ! 0 = c)"

lemma repeats_length: "part_shape w c k \<Longrightarrow> repeats w n s \<Longrightarrow> n * k \<le> length s"
proof (induction n arbitrary: s)
  case (Suc n)
  then have w: "k \<le> w s" "w s \<le> length s" by (auto simp: part_shape_def)
  have "repeats w n (drop (w s) s)" using Suc.prems(2) by simp
  then have "n * k \<le> length (drop (w s) s)" using Suc by blast
  then show ?case using w by simp
qed simp

lemma somewhere_suffix: "somewhere p s \<Longrightarrow> \<exists>i. p (drop i s)"
proof (induction s)
  case (Cons c s)
  then show ?case
  proof (cases "p (c # s)")
    case True
    then show ?thesis by (intro exI[of _ 0]) simp
  next
    case False
    then obtain i where "p (drop i s)" using Cons by auto
    then show ?thesis by (intro exI[of _ "Suc i"]) simp
  qed
qed auto

lemma run_gate:
  assumes "part_shape w c k" "somewhere (repeats w (Suc n)) s"
  shows "Suc n * k \<le> length s \<and> c \<in> set s"
proof -
  obtain i where i: "repeats w (Suc n) (drop i s)" using somewhere_suffix[OF assms(2)] by blast
  have "Suc n * k \<le> length (drop i s)" using repeats_length[OF assms(1) i] .
  moreover have "w (drop i s) \<noteq> 0" using i by simp
  then have "drop i s \<noteq> [] \<and> hd (drop i s) = c" using assms(1) unfolding part_shape_def by (metis hd_conv_nth)
  ultimately show ?thesis using in_set_dropD[of c i s] by (metis diff_le_self hd_in_set le_trans length_drop)
qed

lemma part_shapes:
  "part_shape percent_width (CHR ''%'') 3" "part_shape (escape_width same_letter) (CHR 0x5C) 4"
  "part_shape entity_width (CHR ''&'') 4"
  by (auto simp: part_shape_def percent_width_def escape_width_def entity_width_def Let_def Suc_le_eq split: if_splits)

definition looks_encoded :: "string \<Rightarrow> bool" where
  "looks_encoded text \<longleftrightarrow> rxBase64Blob text \<or> rxPercentRun text \<or> rxEscapeRun text \<or> rxEntityRun text"

lemma gate_is_superset: "looksLikeEncodedPayload text = looks_encoded text"
proof -
  have "rxBase64Blob text \<Longrightarrow> 20 \<le> length text" using length_runes[of "text"] by (simp add: rxBase64Blob_def)
  moreover have "rxPercentRun text \<Longrightarrow> 12 \<le> length text \<and> CHR ''%'' \<in> set text"
    using run_gate[OF part_shapes(1), of 3 "text"] by (simp add: rxPercentRun_def numeral_eq_Suc)
  moreover have "rxEscapeRun text \<Longrightarrow> 8 \<le> length text \<and> CHR 0x5C \<in> set text"
    using run_gate[OF part_shapes(2), of 1 "text"] by (simp add: rxEscapeRun_def numeral_eq_Suc)
  moreover have "rxEntityRun text \<Longrightarrow> 8 \<le> length text \<and> CHR ''&'' \<in> set text"
    using run_gate[OF part_shapes(3), of 1 "text"] by (simp add: rxEntityRun_def numeral_eq_Suc)
  ultimately show ?thesis unfolding looksLikeEncodedPayload_def looks_encoded_def by blast
qed

lemma replace_escapes_plain:
  "\<not> contains s [CHR 0x5C, CHR ''u''] \<Longrightarrow> \<not> contains s [CHR 0x5C, CHR ''x''] \<Longrightarrow> replace_escapes s = (s, False)"
proof (induction s)
  case Nil
  then show ?case by (simp add: replace_escapes.simps)
next
  case (Cons c s)
  have "has_prefix t [CHR 0x5C, CHR ''u''] \<or> has_prefix t [CHR 0x5C, CHR ''x'']" if "escape_width (=) t \<noteq> 0" for t
    using that by (cases t rule: list.exhaust[case_product list.exhaust[of "tl t"]])
      (auto simp: escape_width_def has_prefix_def split: if_splits)
  then have "escape_width (=) (c # s) = 0" using Cons.prems by auto
  moreover have "replace_escapes s = (s, False)" using Cons by simp
  ultimately show ?case by (subst replace_escapes.simps) (simp add: Let_def)
qed

text \<open>The decoder without its gates: every primitive is called on every text.\<close>

definition reference_layer :: "codec \<Rightarrow> string \<Rightarrow> (string \<times> string) option" where
  "reference_layer cd text = first_layer
     [(''url'', case QueryUnescape text of Some nxt \<Rightarrow> if nxt \<noteq> text then Some nxt else None | None \<Rightarrow> None),
      (''html'', if cd_html cd text \<noteq> text then Some (cd_html cd text) else None),
      (''base64'', if looks_encoded text then
         (case TryBase64 cd (trim_space text) of
            Some b64 \<Rightarrow> if printable_above 65 b64 then Some b64 else None | None \<Rightarrow> None) else None),
      (''unicode'', case replace_escapes text of (unescaped, changed) \<Rightarrow> if changed then Some unescaped else None)]"

fun reference_loop :: "codec \<Rightarrow> nat \<Rightarrow> string \<Rightarrow> string \<times> string list" where
  "reference_loop cd 0 text = (text, [])"
| "reference_loop cd (Suc n) text =
     (case reference_layer cd text of
        None \<Rightarrow> (text, [])
      | Some (name, t) \<Rightarrow> (case reference_loop cd n t of (t', ls) \<Rightarrow> (t', name # ls)))"

definition decode_reference :: "codec \<Rightarrow> string \<Rightarrow> int \<Rightarrow> bool \<Rightarrow> Decoded" where
  "decode_reference cd raw maxDepth stripNUL =
     (case reference_loop cd (decode_depth maxDepth) raw of
        (text, layers) \<Rightarrow>
          \<lparr>de_Raw = raw, de_Layers = ''raw'' # layers,
           de_Text = (if stripNUL then strip_nul (trim_space text) else trim_space text)\<rparr>)"

lemma url_layer_ungated:
  "url_layer text = (case QueryUnescape text of Some nxt \<Rightarrow> if nxt \<noteq> text then Some nxt else None | None \<Rightarrow> None)"
  using QueryUnescape_plain[of "text"] by (auto simp: url_layer_def)

lemma unicode_layer_ungated:
  "unicode_layer text = (case replace_escapes text of (unescaped, changed) \<Rightarrow> if changed then Some unescaped else None)"
  using replace_escapes_plain[of "text"] by (auto simp: unicode_layer_def unescapeUnicode_def)

text \<open>
  C22: The gates of the decoder are exact. Skipping the unescaping of a text without percent or
  plus sign, of entities without an ampersand, of escapes without their marker, and each
  regular expression below its minimal length or without its marker byte, changes neither the
  text nor the layers the decoder reports, for every input and depth; of
  \<open>html.UnescapeString\<close> only that it leaves text without an ampersand alone is used.
\<close>

theorem decode_gates_exact:
  assumes "\<forall>s. CHR ''&'' \<notin> set s \<longrightarrow> cd_html cd s = s"
  shows "decodeWithDepth cd raw maxDepth stripNUL = decode_reference cd raw maxDepth stripNUL"
proof -
  have "html_layer cd text = (if cd_html cd text \<noteq> text then Some (cd_html cd text) else None)" for "text"
    using assms by (auto simp: html_layer_def)
  then have "next_layer cd text = reference_layer cd text" for "text"
    by (simp add: next_layer_def reference_layer_def url_layer_ungated unicode_layer_ungated base64_layer_def gate_is_superset)
  then have "decode_loop cd n text = reference_loop cd n text" for n "text"
    by (induction n arbitrary: "text") (auto split: option.split)
  then show ?thesis by (simp add: decodeWithDepth_def decode_reference_def)
qed

subsection \<open>Depth\<close>

text \<open>Percent-encoding of every byte.\<close>

definition pct_byte :: "char \<Rightarrow> string" where
  "pct_byte c = [CHR ''%'', hex_digits ! nat (byte c div 16), hex_digits ! nat (byte c mod 16)]"

definition pct_encode :: "string \<Rightarrow> string" where
  "pct_encode s = concat (map pct_byte s)"

lemma hex_value_digit: "n < 16 \<Longrightarrow> is_hex (hex_digits ! n) \<and> hex_value (hex_digits ! n) = int n"
  by (simp add: numeral_eq_Suc less_Suc_eq) (elim disjE; simp add: hex_digits_def is_hex_def hex_value_def in_range_def byte_def)

lemma char_of_byte: "char_of (byte c) = c"
  by (simp add: byte_def)

lemma QueryUnescape_pct: "QueryUnescape (pct_encode s) = Some s"
proof (induction s)
  case (Cons c s)
  have b: "0 \<le> byte c" "byte c < 256" by simp_all
  then have "nat (byte c div 16) < 16" "nat (byte c mod 16) < 16" by linarith+
  note d = hex_value_digit[OF this(1)] hex_value_digit[OF this(2)]
  have "int (nat (byte c div 16)) * 16 + int (nat (byte c mod 16)) = byte c" using b by simp
  then show ?case using Cons d by (simp add: pct_encode_def pct_byte_def char_of_byte)
qed (simp add: pct_encode_def)

lemma pct_encode_differs: "s \<noteq> [] \<Longrightarrow> pct_encode s \<noteq> s \<and> pct_encode s \<noteq> [] \<and> CHR ''%'' \<in> set (pct_encode s)"
proof -
  assume s: "s \<noteq> []"
  have "length (pct_encode s) = 3 * length s" by (induction s) (auto simp: pct_encode_def pct_byte_def)
  then have "pct_encode s \<noteq> s" using s by auto
  moreover have "CHR ''%'' \<in> set (pct_encode s)" using s by (cases s) (auto simp: pct_encode_def pct_byte_def)
  ultimately show ?thesis by auto
qed

lemma pct_encode_layer: "s \<noteq> [] \<Longrightarrow> next_layer cd (pct_encode s) = Some (''url'', s)"
  using pct_encode_differs[of s] by (auto simp: next_layer_def url_layer_def QueryUnescape_pct)

lemma pct_power_nonempty: "s \<noteq> [] \<Longrightarrow> (pct_encode ^^ k) s \<noteq> []"
  using pct_encode_differs by (induction k) auto

lemma decode_loop_nested:
  assumes "s \<noteq> []" "next_layer cd s = None"
  shows "decode_loop cd n ((pct_encode ^^ k) s) = ((pct_encode ^^ (k - n)) s, replicate (min k n) ''url'')"
proof (induction n arbitrary: k)
  case (Suc n)
  show ?case
  proof (cases k)
    case 0
    then show ?thesis using assms(2) by simp
  next
    case k: (Suc j)
    have "next_layer cd ((pct_encode ^^ k) s) = Some (''url'', (pct_encode ^^ j) s)"
      using pct_encode_layer[OF pct_power_nonempty[OF assms(1)]] by (simp add: k)
    then show ?thesis using Suc[of j] by (simp add: k)
  qed
qed simp

text \<open>
  Nested encodings are undone to the depth and no further. A text to which no layer applies,
  percent-encoded any number of times, comes back with exactly as many layers removed as the
  depth allows, the depth being the requested one, ten for none, at most twelve: the original
  if it was encoded no more often, else what is left of its encodings.
\<close>

theorem nested_encoding_depth:
  assumes "s \<noteq> []" "next_layer cd s = None"
  shows "de_Layers (decodeWithDepth cd ((pct_encode ^^ k) s) d False) = ''raw'' # replicate (min k (decode_depth d)) ''url''
    \<and> de_Text (decodeWithDepth cd ((pct_encode ^^ k) s) d False) = trim_space ((pct_encode ^^ (k - decode_depth d)) s)
    \<and> 1 \<le> decode_depth d \<and> decode_depth d \<le> 12"
  using decode_loop_nested[OF assms, of "decode_depth d" k]
  by (auto simp: decodeWithDepth_def decode_depth_def DefaultDecodeDepth_def MaxDecodeDepth_def Let_def)

definition plain_codec :: codec where
  "plain_codec = \<lparr>cd_html = (\<lambda>s. s), cd_base64 = []\<rparr>"

theorem decode_gates_exact_witness:
  "decodeWithDepth plain_codec ''a%2Bb'' 12 True = decode_reference plain_codec ''a%2Bb'' 12 True"
  by (rule decode_gates_exact) (simp add: plain_codec_def)

theorem nested_encoding_depth_witness:
  "de_Text (decodeWithDepth plain_codec ((pct_encode ^^ 2) ''<script>'') 12 False) = ''<script>''
   \<and> de_Text (decodeWithDepth plain_codec ((pct_encode ^^ 3) ''x'') 2 False) = trim_space (pct_encode ''x'')"
proof -
  have "next_layer plain_codec ''<script>'' = None" "next_layer plain_codec ''x'' = None" by code_simp+
  note n = nested_encoding_depth[OF _ this(1), of 2 12] nested_encoding_depth[OF _ this(2), of 3 2]
  have "decode_depth 12 = 12" "decode_depth 2 = 2" "trim_space ''<script>'' = ''<script>''" by code_simp+
  then show ?thesis using n by simp
qed

subsection \<open>Flattening\<close>

text \<open>The nesting of a document: how far below its root the deepest value stands.\<close>

fun json_depth :: "json \<Rightarrow> nat" and members_depth :: "(string \<times> json) list \<Rightarrow> nat" and items_depth :: "json list \<Rightarrow> nat" where
  "json_depth (JObject ms) = members_depth ms"
| "json_depth (JArray vs) = items_depth vs"
| "json_depth (JString s) = 0"
| "json_depth (JScalar s) = 0"
| "json_depth JNull = 0"
| "members_depth [] = 0"
| "members_depth ((k, v) # ms) = max (Suc (json_depth v)) (members_depth ms)"
| "items_depth [] = 0"
| "items_depth (v # vs) = max (Suc (json_depth v)) (items_depth vs)"

fun json_parts :: "json \<Rightarrow> string list" and members_parts :: "(string \<times> json) list \<Rightarrow> string list"
  and items_parts :: "json list \<Rightarrow> string list" where
  "json_parts (JObject ms) = members_parts ms"
| "json_parts (JArray vs) = items_parts vs"
| "json_parts (JString s) = [s]"
| "json_parts (JScalar s) = [s]"
| "json_parts JNull = []"
| "members_parts [] = []"
| "members_parts ((k, v) # ms) = k # json_parts v @ members_parts ms"
| "items_parts [] = []"
| "items_parts (v # vs) = json_parts v @ items_parts vs"

lemma flatten_spec:
  "flatten v d = (if d + json_depth v \<le> 8 then Some (json_parts v) else None)"
  "flatten_members ms (Suc d) = (if d + members_depth ms \<le> 8 \<or> ms = [] then Some (members_parts ms) else None)"
  "flatten_items vs (Suc d) = (if d + items_depth vs \<le> 8 \<or> vs = [] then Some (items_parts vs) else None)"
proof (induction v and ms and vs arbitrary: d and d and d rule: json_parts_members_parts_items_parts.induct)
  case (1 ms)
  then show ?case by (cases ms) (auto simp: maxJSONDepth_def)
next
  case (2 vs)
  then show ?case by (cases vs) (auto simp: maxJSONDepth_def)
next
  case (7 k v ms)
  then show ?case using 7(1)[of "Suc d"] 7(2)[of d] by (cases ms) (auto simp del: flatten.simps)
next
  case (9 v vs)
  then show ?case using 9(1)[of "Suc d"] 9(2)[of d] by (cases vs) (auto simp del: flatten.simps)
qed (auto simp: maxJSONDepth_def)

text \<open>
  A document is flattened whole or returned untouched: with the error exactly when a value
  stands more than eight levels below the root, else as all its keys and scalars in order.
\<close>

theorem flatten_whole_or_refused:
  "FlattenJSON unmarshal raw =
     (case unmarshal raw of
        None \<Rightarrow> (raw, False)
      | Some v \<Rightarrow> if json_depth v \<le> 8 then (join_space (json_parts v), False) else (raw, True))"
  by (simp add: FlattenJSON_def flatten_spec(1) del: flatten.simps split: option.split)

end
