(* ===== verification/Pipeline.thy ===== *)
theory Pipeline
  imports Complex_Main Go_Strings
begin

text \<open>
  \<open>internal/engine/pipeline.go\<close> with the types of \<open>types.go\<close> and \<open>GuardContext\<close> of \<open>sandbox.go\<close>:
  the detection pipeline. A detector is a function of the request snapshot it is given; it
  returns a result, an error and the metadata it leaves in its snapshot. What the code cannot
  decide is in a \<open>detect_env\<close>: at every moment (a number that grows along the program) whether
  the caller's context has ended, whether the analysis deadline has passed, what becomes of a
  guarded call and of a queued job, the order in which semantic jobs report, and what
  \<open>EnsureBodyContext\<close> answers. A confidence is the rational number the float stands for (not a
  NaN). Deep copies of metadata are the values themselves. The budget metrics hook is left out.
\<close>

subsection \<open>Types\<close>

text \<open>An \<open>Action\<close> is an integer with four names; a detector may return any other.\<close>

datatype Action = ActionPass | ActionBlock | ActionChallenge | ActionLog | ActionOther int

datatype Severity = SeverityInfo | SeverityLow | SeverityMedium | SeverityHigh | SeverityCritical

fun severity_int :: "Severity \<Rightarrow> nat" where
  "severity_int SeverityInfo = 0"
| "severity_int SeverityLow = 1"
| "severity_int SeverityMedium = 2"
| "severity_int SeverityHigh = 3"
| "severity_int SeverityCritical = 4"

record DetectionResult =
  dr_Detected :: bool
  dr_DetectorID :: string
  dr_Category :: string
  dr_Severity :: Severity
  dr_Action :: Action
  dr_Message :: string
  dr_Confidence :: rat
  dr_Payload :: string

datatype ctx_error = DeadlineExceeded | Canceled

datatype det_error =
    is_CtxError: CtxError ctx_error
  | ErrDetectionOverload
  | AnalysisIncomplete string
  | ErrRequestBody string
  | OtherError string

text \<open>Values of the metadata map: the types the pipeline looks at, any other value by a tag.\<close>

datatype metaval = MBool bool | MString string | MDuration duration | MOther nat

type_synonym metadata = "string \<rightharpoonup> metaval"

datatype Body = NoBody | Reader string

record HTTPRequest =
  hr_URI :: string
  hr_Header :: "string \<rightharpoonup> string list"
  hr_Body :: "Body option"
  hr_GetBody :: "Body option option"
  hr_ContentLength :: int

record RequestContext =
  rc_Request :: "HTTPRequest option"
  rc_ClientIP :: string
  rc_TraceID :: string
  rc_SiteID :: string
  rc_NormalizedPath :: string
  rc_HostValidated :: bool
  rc_TrustedProxyCIDRs :: "string list"
  rc_DecodedURI :: string
  rc_DecodedBody :: string
  rc_Results :: "DetectionResult list"
  rc_Metadata :: metadata
  rc_maxBodyBytes :: int
  rc_bodyLoaded :: bool
  rc_rawBody :: string
  rc_bodyErr :: "det_error option"
  rc_bodyReadStarted :: bool
  rc_bodyReservation :: int
  rc_bodyReservationHeld :: bool

record Detector =
  dt_ID :: string
  dt_Name :: string
  dt_Priority :: int
  dt_Detect :: "RequestContext \<Rightarrow> DetectionResult option \<times> det_error option \<times> metadata"

subsection \<open>What the environment decides\<close>

datatype guard_fate = GuardRefused | GuardPanic string | GuardAbandoned ctx_error | GuardFinished

datatype job_fate = NoPermit | QueueFull | QueueCanceled ctx_error | Queued

record detect_env =
  en_parent :: "nat \<Rightarrow> ctx_error option"
  en_deadline :: "nat \<Rightarrow> bool"
  en_guard :: "nat \<Rightarrow> guard_fate"
  en_job :: "nat \<Rightarrow> job_fate"
  en_arrivals :: "nat list"
  en_bodyLocked :: bool
  en_ensureBody :: "RequestContext \<Rightarrow> det_error option \<times> RequestContext"

text \<open>The derived context ends with its parent or at the deadline.\<close>

definition ctx_Err :: "detect_env \<Rightarrow> nat \<Rightarrow> ctx_error option" where
  "ctx_Err env m =
     (case en_parent env m of Some e \<Rightarrow> Some e | None \<Rightarrow> if en_deadline env m then Some DeadlineExceeded else None)"

definition GuardContext ::
    "detect_env \<Rightarrow> nat \<Rightarrow> DetectionResult option \<times> det_error option \<times> metadata
       \<Rightarrow> DetectionResult option \<times> det_error option \<times> metadata" where
  "GuardContext env m call =
     (case ctx_Err env m of
        Some e \<Rightarrow> (None, Some (CtxError e), Map.empty)
      | None \<Rightarrow>
          (case en_guard env m of
             GuardRefused \<Rightarrow> (None, Some ErrDetectionOverload, Map.empty)
           | GuardPanic msg \<Rightarrow> (None, Some (OtherError msg), Map.empty)
           | GuardAbandoned e \<Rightarrow> (None, Some (CtxError e), Map.empty)
           | GuardFinished \<Rightarrow> call))"

subsection \<open>The budget and the detectors\<close>

definition clamp_budget :: "duration \<Rightarrow> duration" where
  "clamp_budget budget0 =
     (let budget = (if budget0 \<le> 0 then 100 * 1000000 else budget0)
      in if budget > 5 * go_second then 5 * go_second else budget)"

definition SetDetectionBudget :: "duration \<Rightarrow> duration" where
  "SetDetectionBudget budget = clamp_budget budget"

definition detectionBudget :: "(string \<Rightarrow> duration option) \<Rightarrow> duration \<Rightarrow> RequestContext option \<Rightarrow> duration" where
  "detectionBudget parseDuration stored reqCtx =
     clamp_budget
       (case reqCtx of
          None \<Rightarrow> stored
        | Some rc \<Rightarrow>
            (case rc_Metadata rc ''detection_budget'' of
               Some (MDuration d) \<Rightarrow> d
             | Some (MString s) \<Rightarrow> (case parseDuration s of Some d \<Rightarrow> d | None \<Rightarrow> stored)
             | _ \<Rightarrow> stored))"

record pipelineSnapshot =
  ps_detectors :: "Detector list"
  ps_preFilters :: "Detector list"
  ps_semanticGroup :: "Detector list"

definition makePipelineSnapshot :: "Detector list \<Rightarrow> pipelineSnapshot" where
  "makePipelineSnapshot detectors =
     \<lparr>ps_detectors = detectors, ps_preFilters = filter (\<lambda>d. dt_Priority d < 290) detectors,
      ps_semanticGroup = filter (\<lambda>d. \<not> dt_Priority d < 290) detectors\<rparr>"

definition pipeline_Add :: "Detector option \<Rightarrow> pipelineSnapshot option \<Rightarrow> pipelineSnapshot option" where
  "pipeline_Add detector p =
     (case detector of
        None \<Rightarrow> p
      | Some d \<Rightarrow>
          let previous = (case p of None \<Rightarrow> [] | Some s \<Rightarrow> ps_detectors s)
          in Some (makePipelineSnapshot (sort_key dt_Priority (previous @ [d]))))"

definition NewPipeline :: "Detector option list \<Rightarrow> pipelineSnapshot option" where
  "NewPipeline detectors = fold pipeline_Add detectors None"

definition pipeline_Detectors :: "pipelineSnapshot option \<Rightarrow> Detector list" where
  "pipeline_Detectors p = (case p of None \<Rightarrow> [] | Some s \<Rightarrow> ps_detectors s)"

subsection \<open>Comparing results\<close>

fun actionRank :: "Action \<Rightarrow> nat" where
  "actionRank ActionBlock = 4"
| "actionRank ActionChallenge = 3"
| "actionRank ActionLog = 2"
| "actionRank ActionPass = 1"
| "actionRank (ActionOther _) = 0"

definition betterDetectionResult :: "DetectionResult \<Rightarrow> DetectionResult option \<Rightarrow> bool" where
  "betterDetectionResult next current =
     (case current of
        None \<Rightarrow> True
      | Some c \<Rightarrow>
          if dr_Action next \<noteq> dr_Action c then actionRank (dr_Action next) > actionRank (dr_Action c)
          else if dr_Severity next \<noteq> dr_Severity c then severity_int (dr_Severity next) > severity_int (dr_Severity c)
          else dr_Confidence next > dr_Confidence c)"

definition keep_better :: "DetectionResult \<Rightarrow> DetectionResult option \<Rightarrow> DetectionResult option" where
  "keep_better r first = (if dr_Detected r \<and> (first = None \<or> betterDetectionResult r first) then Some r else first)"

subsection \<open>Incomplete analysis\<close>

definition detectorIncompleteReason :: "det_error option \<Rightarrow> string option" where
  "detectorIncompleteReason err =
     (case err of
        Some (AnalysisIncomplete reason) \<Rightarrow>
          Some (let r = trim_space reason in if r = [] then ''detector_input_incomplete'' else r)
      | _ \<Rightarrow> None)"

definition budgetAnalysisIncomplete :: "detect_env \<Rightarrow> nat \<Rightarrow> RequestContext \<Rightarrow> det_error option \<Rightarrow> bool" where
  "budgetAnalysisIncomplete env m rc detectErr =
     (if ctx_Err env m = None then False
      else if detectErr \<noteq> None then True
      else if rc_Metadata rc ''semantic_analysis_incomplete'' = Some (MBool True)
      then rc_Metadata rc ''semantic_input_incomplete'' \<noteq> Some (MBool True)
      else False)"

definition set_meta :: "string \<Rightarrow> metaval \<Rightarrow> RequestContext \<Rightarrow> RequestContext" where
  "set_meta k v rc = rc\<lparr>rc_Metadata := (rc_Metadata rc)(k \<mapsto> v)\<rparr>"

definition add_result :: "DetectionResult \<Rightarrow> RequestContext \<Rightarrow> RequestContext" where
  "add_result r rc = rc\<lparr>rc_Results := rc_Results rc @ [r]\<rparr>"

definition fail_policy :: "RequestContext \<Rightarrow> string" where
  "fail_policy rc =
     (let policy = (case rc_Metadata rc ''budget_exhausted_policy'' of
                      Some (MString s) \<Rightarrow> to_lower (trim_space s) | _ \<Rightarrow> [])
      in if policy \<in> {''open'', ''observe'', ''closed''} then policy else ''closed'')"

definition pass_result :: DetectionResult where
  "pass_result = \<lparr>dr_Detected = False, dr_DetectorID = [], dr_Category = [], dr_Severity = SeverityInfo,
     dr_Action = ActionPass, dr_Message = [], dr_Confidence = 0, dr_Payload = []\<rparr>"

definition closed_result :: "bool \<Rightarrow> DetectionResult" where
  "closed_result budgetExhausted =
     \<lparr>dr_Detected = True,
      dr_DetectorID = (if budgetExhausted then ''pipeline.budget'' else ''pipeline.incomplete''),
      dr_Category = (if budgetExhausted then ''detection_budget'' else ''detection_incomplete''),
      dr_Severity = SeverityMedium, dr_Action = ActionChallenge,
      dr_Message = (if budgetExhausted then ''detection budget exhausted; challenge preferred for incomplete analysis''
                    else ''request analysis incomplete; challenge preferred''),
      dr_Confidence = 55 / 100, dr_Payload = []\<rparr>"

definition observe_result :: "bool \<Rightarrow> DetectionResult" where
  "observe_result budgetExhausted =
     (closed_result budgetExhausted)\<lparr>dr_Severity := SeverityInfo, dr_Action := ActionLog,
        dr_Message := (if budgetExhausted then ''detection budget exhausted; observe only''
                       else ''request analysis incomplete; observe only''),
        dr_Confidence := 4 / 10\<rparr>"

definition mark_incomplete :: "string \<Rightarrow> bool \<Rightarrow> RequestContext \<Rightarrow> RequestContext" where
  "mark_incomplete reason0 budgetExhausted rc0 =
     (let rc1 = set_meta ''detection_analysis_incomplete'' (MBool True) rc0;
          reason1 = trim_space reason0;
          reason = (if reason1 = [] then ''detector_input_incomplete'' else reason1);
          rc2 = (if rc_Metadata rc1 ''detection_analysis_incomplete_reason'' = None
                 then set_meta ''detection_analysis_incomplete_reason'' (MString reason) rc1 else rc1);
          rc3 = (if budgetExhausted then set_meta ''detection_budget_exhausted'' (MBool True) rc2
                 else set_meta ''detection_input_incomplete'' (MBool True) rc2)
      in set_meta ''budget_exhausted_policy'' (MString (fail_policy rc3)) rc3)"

definition finalizeAnalysisIncomplete ::
    "RequestContext \<Rightarrow> DetectionResult option \<Rightarrow> string \<Rightarrow> bool \<Rightarrow> DetectionResult \<times> RequestContext" where
  "finalizeAnalysisIncomplete rc0 firstDetected reason budgetExhausted =
     (let rc = mark_incomplete reason budgetExhausted rc0;
          strong = (case firstDetected of None \<Rightarrow> False
                    | Some r \<Rightarrow> dr_Detected r \<and> (dr_Action r = ActionBlock \<or> dr_Action r = ActionChallenge));
          detected = (case firstDetected of None \<Rightarrow> False | Some r \<Rightarrow> dr_Detected r)
      in if strong then (the firstDetected, rc)
         else if fail_policy rc = ''closed'' then
           (closed_result budgetExhausted, add_result (closed_result budgetExhausted) rc)
         else if fail_policy rc = ''observe'' then
           (if detected then (the firstDetected, rc)
            else (observe_result budgetExhausted, add_result (observe_result budgetExhausted) rc))
         else (case firstDetected of Some r \<Rightarrow> (r, rc) | None \<Rightarrow> (pass_result, rc)))"

definition finalizeBudgetExhausted :: "RequestContext \<Rightarrow> DetectionResult option \<Rightarrow> DetectionResult \<times> RequestContext" where
  "finalizeBudgetExhausted rc firstDetected = finalizeAnalysisIncomplete rc firstDetected ''pipeline_deadline'' True"

definition finalizeInputIncomplete ::
    "RequestContext \<Rightarrow> DetectionResult option \<Rightarrow> string \<Rightarrow> DetectionResult \<times> RequestContext" where
  "finalizeInputIncomplete rc firstDetected reason = finalizeAnalysisIncomplete rc firstDetected reason False"

definition finalizeGuardOverload :: "RequestContext \<Rightarrow> DetectionResult option \<Rightarrow> DetectionResult \<times> RequestContext" where
  "finalizeGuardOverload rc firstDetected =
     finalizeBudgetExhausted
       (set_meta ''detection_analysis_incomplete_reason'' (MString ''guard_overload'')
         (set_meta ''detection_overloaded'' (MBool True) rc)) firstDetected"

subsection \<open>Snapshots for detectors\<close>

definition header_Get :: "HTTPRequest \<Rightarrow> string \<Rightarrow> string" where
  "header_Get r k = (case hr_Header r k of Some (v # _) \<Rightarrow> v | _ \<Rightarrow> [])"

definition setReplayBody :: "string \<Rightarrow> bool \<Rightarrow> HTTPRequest \<Rightarrow> HTTPRequest" where
  "setReplayBody body semantic request =
     request\<lparr>hr_Body := Some (Reader body), hr_GetBody := Some (Some (Reader body)),
       hr_ContentLength := int (length body),
       hr_Header := (if semantic then (hr_Header request)(''Content-Encoding'' := None, ''Content-Length'' := None)
                     else hr_Header request)\<rparr>"

text \<open>Case folding against the ASCII word needs no more than folding of ASCII letters.\<close>

definition encoded_body :: "HTTPRequest \<Rightarrow> bool" where
  "encoded_body request \<longleftrightarrow>
     (let enc = trim_space (header_Get request ''Content-Encoding'')
      in enc \<noteq> [] \<and> map lower_byte enc \<noteq> ''identity'')"

definition cloneRequestForDetection ::
    "HTTPRequest option \<Rightarrow> string \<Rightarrow> string \<Rightarrow> bool \<Rightarrow> bool \<Rightarrow> HTTPRequest option" where
  "cloneRequestForDetection src rawBody decodedBody bodyLoaded bodyPresent =
     (case src of
        None \<Rightarrow> None
      | Some request \<Rightarrow> Some
          (if bodyLoaded then
             (if bodyPresent then
                (if encoded_body request then setReplayBody decodedBody True request
                 else setReplayBody rawBody False request)
              else if decodedBody \<noteq> [] then setReplayBody decodedBody True request
              else request\<lparr>hr_Body := None, hr_GetBody := None\<rparr>)
           else (case hr_GetBody request of
                   Some (Some body) \<Rightarrow> request\<lparr>hr_Body := Some body\<rparr>
                 | _ \<Rightarrow> if decodedBody \<noteq> [] then setReplayBody decodedBody True request
                        else request\<lparr>hr_Body := None, hr_GetBody := None\<rparr>)))"

definition forkRequestContextWithContext :: "RequestContext \<Rightarrow> RequestContext" where
  "forkRequestContextWithContext src =
     (let bodyPresent = (case rc_Request src of None \<Rightarrow> False | Some r \<Rightarrow> hr_Body r \<noteq> None)
      in src\<lparr>rc_Request := cloneRequestForDetection (rc_Request src) (rc_rawBody src) (rc_DecodedBody src)
                              (rc_bodyLoaded src) bodyPresent,
             rc_Results := [], rc_bodyReadStarted := False, rc_bodyReservation := 0, rc_bodyReservationHeld := False\<rparr>)"

definition forked_keys :: "string list" where
  "forked_keys = [''semantic_analysis'', ''semantic_anomaly_score'', ''semantic_analysis_incomplete'',
     ''semantic_analysis_incomplete_reason'', ''semantic_input_incomplete'', ''semantic_input_incomplete_reason'',
     ''detection_budget_exhausted'', ''detection_input_incomplete'', ''budget_exhausted_policy'',
     ''waf_policy_decision'', ''semantic_skipped'']"

definition mergeRequestContext :: "metadata \<Rightarrow> RequestContext \<Rightarrow> RequestContext" where
  "mergeRequestContext fork parent = parent\<lparr>rc_Metadata := (\<lambda>k.
     case fork k of
       None \<Rightarrow> rc_Metadata parent k
     | Some v \<Rightarrow> if rc_Metadata parent k = None \<or> k \<in> set forked_keys then Some v else rc_Metadata parent k)\<rparr>"

subsection \<open>Detection\<close>

text \<open>A finished detection returns a result or an error.\<close>

datatype verdict = Failed det_error | Verdict DetectionResult

type_synonym outcome = "verdict \<times> RequestContext"

definition verdict_of :: "DetectionResult \<times> RequestContext \<Rightarrow> outcome" where
  "verdict_of p = (Verdict (fst p), snd p)"

text \<open>The pattern \<open>if parentErr := parentCtx.Err(); parentErr != nil { return nil, parentErr }\<close>.\<close>

definition unless_parent :: "detect_env \<Rightarrow> nat \<Rightarrow> RequestContext \<Rightarrow> outcome \<Rightarrow> outcome" where
  "unless_parent env m rc otherwise =
     (case en_parent env m of Some e \<Rightarrow> (Failed (CtxError e), rc) | None \<Rightarrow> otherwise)"

definition requestBodyNeedsSnapshot :: "Body option \<Rightarrow> bool" where
  "requestBodyNeedsSnapshot body = (case body of None \<Rightarrow> False | Some b \<Rightarrow> b \<noteq> NoBody)"

definition load_body :: "detect_env \<Rightarrow> RequestContext \<Rightarrow> det_error option \<times> RequestContext" where
  "load_body env rc =
     (let body = (case rc_Request rc of None \<Rightarrow> None | Some r \<Rightarrow> hr_Body r) in
      if \<not> en_bodyLocked env \<and> rc_bodyErr rc \<noteq> None then (rc_bodyErr rc, rc)
      else if \<not> en_bodyLocked env \<and> rc_bodyLoaded rc then (rc_bodyErr rc, rc)
      else if en_bodyLocked env \<or> requestBodyNeedsSnapshot body then en_ensureBody env rc
      else (None, rc))"

definition collect_body :: "detect_env \<Rightarrow> pipelineSnapshot \<Rightarrow> RequestContext \<Rightarrow> det_error option \<times> RequestContext" where
  "collect_body env s rc =
     (if ps_preFilters s \<noteq> [] \<or> ps_semanticGroup s \<noteq> [] then load_body env rc else (None, rc))"

text \<open>
  Phase 1. A detector consumes eight moments: the check before it starts, the guarded call, and
  the readings of the contexts after an error.
\<close>

fun prefilter_loop ::
    "detect_env \<Rightarrow> nat \<Rightarrow> Detector list \<Rightarrow> RequestContext \<Rightarrow> DetectionResult option \<Rightarrow> string
       \<Rightarrow> outcome + RequestContext \<times> DetectionResult option \<times> string" where
  "prefilter_loop env m [] rc first reason = Inr (rc, first, reason)"
| "prefilter_loop env m (d # ds) rc first reason =
     (if ctx_Err env m \<noteq> None then
        Inl (unless_parent env (m + 1) rc (verdict_of (finalizeBudgetExhausted rc first)))
      else case GuardContext env (m + 2) (dt_Detect d (forkRequestContextWithContext rc)) of
        (result, None, fork) \<Rightarrow>
          (let rc1 = mergeRequestContext fork rc in
           case result of
             None \<Rightarrow> prefilter_loop env (m + 8) ds rc1 first reason
           | Some r \<Rightarrow>
               let rc2 = add_result r rc1 in
               if dr_Detected r \<and> dr_Action r = ActionBlock then Inl (Verdict r, rc2)
               else prefilter_loop env (m + 8) ds rc2 (if dr_Detected r \<and> first = None then Some r else first) reason)
      | (result, Some e, fork) \<Rightarrow>
          if e = ErrDetectionOverload then
            Inl (unless_parent env (m + 3) rc (verdict_of (finalizeGuardOverload rc first)))
          else if en_parent env (m + 4) \<noteq> None then Inl (Failed (CtxError (the (en_parent env (m + 4)))), rc)
          else if budgetAnalysisIncomplete env (m + 5) rc (Some e) then Inl (verdict_of (finalizeBudgetExhausted rc first))
          else (case detectorIncompleteReason (Some e) of
                  None \<Rightarrow> Inl (verdict_of (finalizeInputIncomplete rc first ''detector_error''))
                | Some why \<Rightarrow>
                    let rc1 = mergeRequestContext fork rc;
                        reason' = (if reason = [] then why else reason) in
                    (case result of
                       None \<Rightarrow> prefilter_loop env (m + 8) ds rc1 first reason'
                     | Some r \<Rightarrow>
                         let rc2 = add_result r rc1 in
                         if dr_Detected r \<and> dr_Action r = ActionBlock then Inl (Verdict r, rc2)
                         else prefilter_loop env (m + 8) ds rc2 (keep_better r first) reason')))"

text \<open>The common end of both phases.\<close>

definition conclude :: "RequestContext \<Rightarrow> DetectionResult option \<Rightarrow> string \<Rightarrow> outcome" where
  "conclude rc first reason =
     (if reason \<noteq> [] then verdict_of (finalizeInputIncomplete rc first reason)
      else case first of Some r \<Rightarrow> (Verdict r, rc) | None \<Rightarrow> (Verdict pass_result, rc))"

text \<open>Phase 2 with one detector.\<close>

definition detect_single ::
    "detect_env \<Rightarrow> nat \<Rightarrow> Detector \<Rightarrow> RequestContext \<Rightarrow> DetectionResult option \<Rightarrow> string \<Rightarrow> outcome" where
  "detect_single env m d rc0 first0 reason0 =
     (case GuardContext env m (dt_Detect d (forkRequestContextWithContext rc0)) of
        (result, err, fork) \<Rightarrow>
          let rc1 = (if err = None then mergeRequestContext fork rc0 else rc0);
              rc = (case result of Some r \<Rightarrow> if err = None then add_result r rc1 else rc1 | None \<Rightarrow> rc1);
              first = (case result of Some r \<Rightarrow> if err = None then keep_better r first0 else first0 | None \<Rightarrow> first0)
          in case detectorIncompleteReason err of
               Some why \<Rightarrow>
                 unless_parent env (m + 1) rc
                   (verdict_of (finalizeInputIncomplete (mergeRequestContext fork rc) first why))
             | None \<Rightarrow>
                 if err = Some ErrDetectionOverload then
                   unless_parent env (m + 2) rc (verdict_of (finalizeGuardOverload rc first))
                 else if en_parent env (m + 3) \<noteq> None then (Failed (CtxError (the (en_parent env (m + 3)))), rc)
                 else if en_parent env (m + 4) = None \<and> budgetAnalysisIncomplete env (m + 5) rc err then
                   verdict_of (finalizeBudgetExhausted rc first)
                 else if err \<noteq> None then verdict_of (finalizeInputIncomplete rc first ''detector_error'')
                 else conclude rc first reason0)"

subsubsection \<open>Phase 2 with several detectors\<close>

record semanticJobOut =
  jo_result :: "DetectionResult option"
  jo_fork :: "metadata option"
  jo_err :: "det_error option"

definition zero_out :: semanticJobOut where
  "zero_out = \<lparr>jo_result = None, jo_fork = None, jo_err = None\<rparr>"

text \<open>What a worker reports for a job that was queued, and what the submitter records otherwise.\<close>

definition run_job :: "detect_env \<Rightarrow> nat \<Rightarrow> Detector \<Rightarrow> RequestContext \<Rightarrow> semanticJobOut" where
  "run_job env m d rc =
     (case ctx_Err env m of
        Some e \<Rightarrow> \<lparr>jo_result = None, jo_fork = None, jo_err = Some (CtxError e)\<rparr>
      | None \<Rightarrow>
          (case GuardContext env (m + 1) (dt_Detect d (forkRequestContextWithContext rc)) of
             (result, err, fork) \<Rightarrow> \<lparr>jo_result = result, jo_fork = Some fork, jo_err = err\<rparr>))"

definition submit_out :: "job_fate \<Rightarrow> semanticJobOut" where
  "submit_out fate =
     (case fate of
        NoPermit \<Rightarrow> \<lparr>jo_result = None, jo_fork = None, jo_err = Some ErrDetectionOverload\<rparr>
      | QueueFull \<Rightarrow> \<lparr>jo_result = None, jo_fork = None, jo_err = Some ErrDetectionOverload\<rparr>
      | QueueCanceled e \<Rightarrow> \<lparr>jo_result = None, jo_fork = None, jo_err = Some (CtxError e)\<rparr>
      | Queued \<Rightarrow> zero_out)"

definition collect :: "(nat \<Rightarrow> semanticJobOut) \<Rightarrow> nat list \<Rightarrow> semanticJobOut list \<Rightarrow> semanticJobOut list" where
  "collect report arrivals outs = fold (\<lambda>i os. os[i := report i]) arrivals outs"

definition semantic_outs :: "detect_env \<Rightarrow> nat \<Rightarrow> Detector list \<Rightarrow> RequestContext \<Rightarrow> semanticJobOut list" where
  "semantic_outs env m ds rc =
     collect (\<lambda>i. run_job env (m + 4 * i) (ds ! i) rc) (en_arrivals env)
       (map (\<lambda>i. submit_out (en_job env i)) [0..<length ds])"

record merge_state =
  ms_ctx :: RequestContext
  ms_first :: "DetectionResult option"
  ms_err :: "det_error option"
  ms_overloaded :: bool
  ms_reason :: string

definition merge_out :: "semanticJobOut \<Rightarrow> merge_state \<Rightarrow> merge_state" where
  "merge_out out s =
     (case detectorIncompleteReason (jo_err out) of
        Some why \<Rightarrow>
          s\<lparr>ms_ctx := (case jo_fork out of None \<Rightarrow> ms_ctx s | Some f \<Rightarrow> mergeRequestContext f (ms_ctx s)),
            ms_reason := (if ms_reason s = [] then why else ms_reason s)\<rparr>
      | None \<Rightarrow>
          (case jo_err out of
             Some e \<Rightarrow>
               s\<lparr>ms_overloaded := (ms_overloaded s \<or> e = ErrDetectionOverload),
                 ms_err := (if ms_err s = None \<or> is_CtxError e
                            then Some e else ms_err s)\<rparr>
           | None \<Rightarrow>
               (case jo_fork out of
                  None \<Rightarrow> s
                | Some f \<Rightarrow>
                    let rc1 = mergeRequestContext f (ms_ctx s) in
                    (case jo_result out of
                       None \<Rightarrow> s\<lparr>ms_ctx := rc1\<rparr>
                     | Some r \<Rightarrow> s\<lparr>ms_ctx := add_result r rc1, ms_first := keep_better r (ms_first s)\<rparr>))))"

definition detect_group ::
    "detect_env \<Rightarrow> nat \<Rightarrow> Detector list \<Rightarrow> RequestContext \<Rightarrow> DetectionResult option \<Rightarrow> string \<Rightarrow> outcome" where
  "detect_group env m ds rc0 first0 reason0 =
     (let s = fold merge_out (semantic_outs env m ds rc0)
                \<lparr>ms_ctx = rc0, ms_first = first0, ms_err = None, ms_overloaded = False, ms_reason = reason0\<rparr>;
          rc = ms_ctx s; first = ms_first s; k = m + 4 * length ds in
      if en_parent env k = None \<and> ms_overloaded s then verdict_of (finalizeGuardOverload rc first)
      else if en_parent env (k + 1) = None \<and> budgetAnalysisIncomplete env (k + 2) rc (ms_err s) then
        verdict_of (finalizeBudgetExhausted rc first)
      else unless_parent env (k + 3) rc
        (if ms_reason s \<noteq> [] then verdict_of (finalizeInputIncomplete rc first (ms_reason s))
         else if ms_err s \<noteq> None then verdict_of (finalizeInputIncomplete rc first ''detector_error'')
         else conclude rc first (ms_reason s)))"

definition detect_phases :: "detect_env \<Rightarrow> pipelineSnapshot \<Rightarrow> RequestContext \<Rightarrow> outcome" where
  "detect_phases env p rc =
     (case prefilter_loop env 1 (ps_preFilters p) rc None [] of
        Inl result \<Rightarrow> result
      | Inr (rc1, first, reason) \<Rightarrow>
          let m = 8 * length (ps_preFilters p) + 1 in
          if ctx_Err env m \<noteq> None then
            unless_parent env (m + 1) rc1 (verdict_of (finalizeBudgetExhausted rc1 first))
          else (case ps_semanticGroup p of
                  [] \<Rightarrow> conclude rc1 first reason
                | [d] \<Rightarrow> detect_single env (m + 2) d rc1 first reason
                | ds \<Rightarrow> detect_group env (m + 2) ds rc1 first reason))"

definition Detect :: "detect_env \<Rightarrow> pipelineSnapshot option \<Rightarrow> RequestContext option \<Rightarrow> (verdict \<times> RequestContext) option" where
  "Detect env p reqCtx =
     (case reqCtx of
        None \<Rightarrow> None
      | Some rc0 \<Rightarrow> Some
          (case p of
             None \<Rightarrow> (Verdict pass_result, rc0)
           | Some s \<Rightarrow>
               (case collect_body env s rc0 of
                  (Some e, rc) \<Rightarrow> unless_parent env 0 rc (Failed e, rc)
                | (None, rc) \<Rightarrow> detect_phases env s rc)))"

end
