(* ===== verification/Rules_Engine.thy ===== *)
theory Rules_Engine
  imports Pipeline Decoder Go_Net "HOL-Library.List_Lexorder"
begin

text \<open>
  \<open>internal/engine/rules\<close>: the custom rules, their compilation, the views of a request a
  rule is matched against, and the detector.

  A compiled regular expression is the record of the three methods the code calls; compiling
  is an argument. What \<open>net/http\<close>, \<open>net/url\<close>, \<open>mime\<close>, \<open>encoding/json\<close> and
  \<open>html\<close> make of a request is collected in a record of arguments. A Go map is the list
  of its entries in the order of the iteration. The three fields of \<open>requestViews\<close> that keep
  the body, header and cookie text of the request are left out: they hold what is computed
  here. Requests are present.
\<close>

subsection \<open>Rules\<close>

record regex =
  rx_MatchString :: "string \<Rightarrow> bool"
  rx_FindStringIndex :: "string \<Rightarrow> (nat \<times> nat) option"
  rx_LiteralPrefix :: string

record Rule =
  ru_ID :: string
  ru_Name :: string
  ru_Pattern :: regex
  ru_Location :: string
  ru_Action :: Action
  ru_Severity :: Severity
  ru_Priority :: int
  ru_Enabled :: bool
  ru_literalPrefix :: string

record CustomRuleConfig =
  cr_ID :: string
  cr_Name :: string
  cr_Description :: string
  cr_Pattern :: string
  cr_Location :: string
  cr_Action :: string
  cr_Severity :: string
  cr_Enabled :: bool
  cr_Priority :: int

record storage_Rule =
  sr_ID :: string
  sr_SiteID :: string
  sr_Name :: string
  sr_Description :: string
  sr_Pattern :: string
  sr_Location :: string
  sr_Action :: string
  sr_Severity :: string
  sr_Enabled :: bool
  sr_Priority :: int

definition ParseAction :: "string \<Rightarrow> Action" where
  "ParseAction action =
     (let a = to_lower action in
      if a \<in> {''log'', ''monitor''} then ActionLog
      else if a = ''challenge'' then ActionChallenge
      else if a \<in> {''pass'', ''allow''} then ActionPass
      else ActionBlock)"

definition ParseSeverity :: "string \<Rightarrow> Severity" where
  "ParseSeverity severity =
     (let s = to_lower severity in
      if s = ''critical'' then SeverityCritical
      else if s = ''high'' then SeverityHigh
      else if s = ''low'' then SeverityLow
      else if s = ''info'' then SeverityInfo
      else SeverityMedium)"

text \<open>None is the error of a pattern that does not compile.\<close>

definition rule_compile :: "(string \<Rightarrow> regex option) \<Rightarrow> storage_Rule \<Rightarrow> Rule option" where
  "rule_compile regexp_Compile item =
     (let rid = (if sr_ID item = [] then sr_Name item else sr_ID item);
          location = (if sr_Location item = [] then ''uri'' else sr_Location item);
          priority = (if sr_Priority item = 0 then 200 else sr_Priority item)
      in case regexp_Compile (sr_Pattern item) of
        None \<Rightarrow> None
      | Some re \<Rightarrow>
          let literalPrefix = (if contains (sr_Pattern item) ''(?i'' \<or> contains (sr_Pattern item) ''(?-i'' then []
                               else rx_LiteralPrefix re)
          in Some \<lparr>ru_ID = rid, ru_Name = sr_Name item, ru_Pattern = re, ru_Location = to_lower location,
               ru_Action = ParseAction (sr_Action item), ru_Severity = ParseSeverity (sr_Severity item),
               ru_Priority = priority, ru_Enabled = sr_Enabled item, ru_literalPrefix = literalPrefix\<rparr>)"

fun FromStorage :: "(string \<Rightarrow> regex option) \<Rightarrow> storage_Rule list \<Rightarrow> Rule list option" where
  "FromStorage regexp_Compile [] = Some []"
| "FromStorage regexp_Compile (item # items) =
     (case rule_compile regexp_Compile item of
        None \<Rightarrow> None
      | Some rule \<Rightarrow> map_option (Cons rule) (FromStorage regexp_Compile items))"

definition ConfigToStorage :: "string \<Rightarrow> CustomRuleConfig list \<Rightarrow> storage_Rule list" where
  "ConfigToStorage siteID items = map (\<lambda>item.
     \<lparr>sr_ID = cr_ID item, sr_SiteID = siteID, sr_Name = cr_Name item, sr_Description = cr_Description item,
      sr_Pattern = cr_Pattern item, sr_Location = cr_Location item, sr_Action = cr_Action item,
      sr_Severity = cr_Severity item, sr_Enabled = cr_Enabled item, sr_Priority = cr_Priority item\<rparr>) items"

definition FromConfig :: "(string \<Rightarrow> regex option) \<Rightarrow> CustomRuleConfig list \<Rightarrow> Rule list option" where
  "FromConfig regexp_Compile items = FromStorage regexp_Compile (ConfigToStorage [] items)"

subsection \<open>The request and what the libraries read in it\<close>

record rule_request =
  rr_Method :: string
  rr_RequestURI :: string
  rr_RawQuery :: string
  rr_Path :: string
  rr_Header :: "(string \<times> string list) list"
  rr_Cookies :: "(string \<times> string) list"
  rr_NormalizedPath :: string
  rr_DecodedBody :: string

text \<open>A part of a multipart body: whether it has a file name, what can be read of it, and
  whether reading on then fails. The parts end with the body or with an error.\<close>

record multipart_part =
  mp_file :: bool
  mp_content :: string
  mp_broken :: bool

record rules_lib =
  rl_codec :: codec
  rl_ParseQuery :: "string \<Rightarrow> (string \<times> string list) list \<times> bool"
  rl_ParseMediaType :: "string \<Rightarrow> (string \<times> (string \<rightharpoonup> string)) option"
  rl_parts :: "string \<Rightarrow> string \<Rightarrow> multipart_part list \<times> bool"
  rl_json_Valid :: "string \<Rightarrow> bool"
  rl_json_tokens :: "string \<Rightarrow> string option list \<times> bool"

definition request_Get :: "rule_request \<Rightarrow> string \<Rightarrow> string" where
  "request_Get r name = header_Get (map_of (rr_Header r)) name"

definition headersText :: "(string \<times> string list) list \<Rightarrow> string" where
  "headersText header = concat (map (\<lambda>(key, values). key @ '':'' @ join_comma values @ [CHR 0x0A]) header)"

definition cookiesText :: "(string \<times> string) list \<Rightarrow> string" where
  "cookiesText cookies = concat (map (\<lambda>(name, value). name @ ''='' @ value @ '';'') cookies)"

definition view_match :: "Rule \<Rightarrow> rule_request \<Rightarrow> string" where
  "view_match rule r =
     (if ru_Location rule = ''request_uri'' then rr_RequestURI r
      else if ru_Location rule = ''query'' then rr_RawQuery r
      else if ru_Location rule = ''body'' then rr_DecodedBody r
      else if ru_Location rule = ''header'' then headersText (rr_Header r)
      else if ru_Location rule = ''cookie'' then cookiesText (rr_Cookies r)
      else if ru_Location rule = ''method'' then rr_Method r
      else if rr_NormalizedPath r \<noteq> [] then rr_NormalizedPath r else rr_Path r)"

definition maxArgumentFields :: nat where
  "maxArgumentFields = 128"

definition maxArgumentValueBytes :: nat where
  "maxArgumentValueBytes = 16384"

text \<open>The reason of an incomplete inspection; the empty one for JSON and query strings.\<close>

type_synonym incomplete = string

fun multipart_loop :: "nat \<Rightarrow> bool \<Rightarrow> multipart_part list \<Rightarrow> string list \<times> incomplete option" where
  "multipart_loop parts failed [] = ([], if failed then Some ''custom_rule_multipart_incomplete'' else None)"
| "multipart_loop parts failed (p # ps) =
     (if parts + 1 > maxArgumentFields then ([], Some ''custom_rule_multipart_limit'')
      else if mp_file p then
        (if mp_broken p then ([], Some ''custom_rule_multipart_incomplete'') else multipart_loop (parts + 1) failed ps)
      else if length (mp_content p) > maxArgumentValueBytes then ([], Some ''custom_rule_multipart_limit'')
      else if mp_broken p then ([], Some ''custom_rule_multipart_incomplete'')
      else (case multipart_loop (parts + 1) failed ps of (vs, e) \<Rightarrow> (mp_content p # vs, e)))"

definition multipartArgumentValues :: "rules_lib \<Rightarrow> string \<Rightarrow> string \<Rightarrow> string list \<times> incomplete option" where
  "multipartArgumentValues lib body boundary =
     (if boundary = [] \<or> body = [] then ([], Some ''custom_rule_multipart_incomplete'')
      else case rl_parts lib body boundary of (ps, failed) \<Rightarrow> multipart_loop 0 failed ps)"

text \<open>The values of a query, by sorted name.\<close>

definition query_values :: "(string \<times> string list) list \<Rightarrow> string list" where
  "query_values q = concat (map snd (sort_key (\<lambda>(key, _). map byte key) q))"

text \<open>A later incompleteness replaces an earlier one.\<close>

definition later_err :: "incomplete option \<Rightarrow> incomplete option \<Rightarrow> incomplete option" where
  "later_err e e' = (case e' of None \<Rightarrow> e | Some _ \<Rightarrow> e')"

definition form_values :: "rules_lib \<Rightarrow> rule_request \<Rightarrow> string list \<times> incomplete option" where
  "form_values lib r =
     (let contentType = request_Get r ''Content-Type'' in
      case rl_ParseMediaType lib contentType of
        None \<Rightarrow>
          ([], if has_prefix (to_lower (trim_space contentType)) ''multipart/form-data''
                  \<or> has_prefix (to_lower (trim_space contentType)) ''application/x-www-form-urlencoded''
               then Some ''custom_rule_form_media_type'' else None)
      | Some (mediaType, params) \<Rightarrow>
          if equal_fold mediaType ''application/x-www-form-urlencoded'' then
            (case rl_ParseQuery lib (rr_DecodedBody r) of
               (form, failed) \<Rightarrow> (query_values form, if failed then Some [] else None))
          else if equal_fold mediaType ''multipart/form-data'' then
            multipartArgumentValues lib (rr_DecodedBody r) (lookup_or [] params ''boundary'')
          else ([], None))"

definition argumentValues :: "rules_lib \<Rightarrow> rule_request \<Rightarrow> string list \<times> incomplete option" where
  "argumentValues lib r =
     (case rl_ParseQuery lib (rr_RawQuery r) of
        (query, failed) \<Rightarrow>
          (case form_values lib r of
             (vs, e) \<Rightarrow> (query_values query @ vs, later_err (if failed then Some [] else None) e)))"

subsection \<open>Views\<close>

fun add_paths :: "string \<Rightarrow> string list \<Rightarrow> string list \<Rightarrow> string list" where
  "add_paths wirePath rawValues [] = rawValues"
| "add_paths wirePath rawValues (path # paths) =
     (if path = wirePath \<and> path \<noteq> hd rawValues then add_paths wirePath rawValues paths
      else if path \<in> set rawValues then add_paths wirePath rawValues paths
      else add_paths wirePath (rawValues @ [path]) paths)"

definition raw_values :: "rules_lib \<Rightarrow> Rule \<Rightarrow> rule_request \<Rightarrow> string list \<times> incomplete option" where
  "raw_values lib rule r =
     (if ru_Location rule = ''args'' then argumentValues lib r
      else if ru_Location rule \<in> {''uri'', ''path''} \<and> (CHR '';'' \<in> set (rr_Path r) \<or> CHR ''%'' \<in> set (rr_Path r)) then
        (case SecurityPathViews (rr_Path r) of
           (paths, valid) \<Rightarrow>
             (if valid then add_paths (rr_Path r) [view_match rule r] paths else [view_match rule r], None))
      else ([view_match rule r], None))"

definition decoded_text :: "rules_lib \<Rightarrow> string \<Rightarrow> string" where
  "decoded_text lib raw = de_Text (DecodeWithDepthPreserveControls (rl_codec lib) raw MaxDecodeDepth)"

definition decoded_views :: "rules_lib \<Rightarrow> string list \<Rightarrow> string list" where
  "decoded_views lib raws = concat (map (\<lambda>raw. if decoded_text lib raw \<noteq> raw then [decoded_text lib raw] else []) raws)"

text \<open>The string tokens of a JSON body, at most 4096 tokens of any kind.\<close>

fun json_views :: "rules_lib \<Rightarrow> nat \<Rightarrow> string option list \<Rightarrow> bool \<Rightarrow> string list \<times> incomplete option" where
  "json_views lib 0 ts failed = ([], Some [])"
| "json_views lib (Suc n) [] failed = ([], if failed then Some [] else None)"
| "json_views lib (Suc n) (t # ts) failed =
     (case json_views lib n ts failed of
        (vs, e) \<Rightarrow> (case t of None \<Rightarrow> (vs, e)
          | Some value \<Rightarrow> (value # decoded_views lib [value] @ vs, e)))"

definition view_list :: "rules_lib \<Rightarrow> Rule \<Rightarrow> rule_request \<Rightarrow> string list \<times> incomplete option" where
  "view_list lib rule r =
     (case raw_values lib rule r of
        (raws, e) \<Rightarrow>
          if ru_Location rule = ''method'' then (raws, e)
          else let out = raws @ decoded_views lib raws in
            if ru_Location rule = ''body'' \<and> contains (to_lower (request_Get r ''Content-Type'')) ''json'' then
              (if \<not> rl_json_Valid lib (hd raws) then (out, Some [])
               else case rl_json_tokens lib (hd raws) of
                 (ts, failed) \<Rightarrow> (case json_views lib 4096 ts failed of (vs, e') \<Rightarrow> (out @ vs, later_err e e')))
            else (out, e))"

record requestViews =
  vw_decoded :: "string \<rightharpoonup> string list"
  vw_err :: "incomplete option"

definition cacheKey :: "Rule \<Rightarrow> rule_request \<Rightarrow> string" where
  "cacheKey rule r = (if ru_Location rule \<in> {''uri'', ''path''} then ru_Location rule @ '':'' @ rr_NormalizedPath r
     else ru_Location rule)"

definition variants :: "rules_lib \<Rightarrow> Rule \<Rightarrow> rule_request \<Rightarrow> requestViews \<Rightarrow> string list \<times> requestViews" where
  "variants lib rule r v =
     (case vw_decoded v (cacheKey rule r) of
        Some cached \<Rightarrow> (cached, v)
      | None \<Rightarrow> (case view_list lib rule r of
          (out, e) \<Rightarrow> (out, v\<lparr>vw_decoded := (vw_decoded v)(cacheKey rule r \<mapsto> out), vw_err := later_err (vw_err v) e\<rparr>)))"

subsection \<open>The detector\<close>

definition maxPayloadBytes :: int where
  "maxPayloadBytes = 512"

text \<open>The window of \<open>clipPayloadAroundMatch\<close> on the integers of the code.\<close>

definition clip_window :: "int \<Rightarrow> int \<Rightarrow> int \<Rightarrow> int \<times> int" where
  "clip_window n matchStart matchEnd =
     (let ws0 = max 0 (matchStart - 256);
          we0 = ws0 + maxPayloadBytes;
          (ws1, we1) = (if we0 > n then (max 0 (n - maxPayloadBytes), n) else (ws0, we0))
      in if matchEnd - matchStart \<le> maxPayloadBytes then
           let (ws2, we2) =
                 (if matchStart < ws1 then
                    (if matchStart + maxPayloadBytes > n then (max 0 (n - maxPayloadBytes), n)
                     else (matchStart, matchStart + maxPayloadBytes))
                  else (ws1, we1))
           in if matchEnd > we2 then (max 0 (matchEnd - maxPayloadBytes), matchEnd) else (ws2, we2)
         else (ws1, we1))"

definition clipPayloadAroundMatch :: "string \<Rightarrow> Rule \<Rightarrow> string" where
  "clipPayloadAroundMatch value rule =
     (if int (length value) \<le> maxPayloadBytes then value
      else case (case rx_FindStringIndex (ru_Pattern rule) value of None \<Rightarrow> (0, 0) | Some loc \<Rightarrow> loc) of
        (matchStart, matchEnd) \<Rightarrow>
          (case clip_window (int (length value)) (int matchStart) (int matchEnd) of
             (ws, we) \<Rightarrow> take (nat (we - ws)) (drop (nat ws) value)))"

definition matchPayload :: "string \<Rightarrow> Rule \<Rightarrow> string" where
  "matchPayload value rule =
     (if ru_Location rule = ''header'' then ''[redacted header match]''
      else if ru_Location rule = ''cookie'' then ''[redacted cookie match]''
      else clipPayloadAroundMatch value rule)"

fun actionStrength :: "Action \<Rightarrow> nat" where
  "actionStrength ActionBlock = 3"
| "actionStrength ActionChallenge = 2"
| "actionStrength ActionLog = 1"
| "actionStrength _ = 0"

definition rules_New :: "Rule list \<Rightarrow> Rule list" where
  "rules_New ruleSet = sort_key ru_Priority ruleSet"

definition rule_result :: "Rule \<Rightarrow> string \<Rightarrow> DetectionResult" where
  "rule_result rule value =
     \<lparr>dr_Detected = True, dr_DetectorID = ''rules.custom.'' @ ru_ID rule, dr_Category = ''custom_rule'',
      dr_Severity = ru_Severity rule, dr_Action = ru_Action rule,
      dr_Message = ''custom rule matched: '' @ ru_Name rule, dr_Confidence = 8 / 10,
      dr_Payload = matchPayload value rule\<rparr>"

definition stronger :: "DetectionResult \<Rightarrow> DetectionResult option \<Rightarrow> bool" where
  "stronger result best = (case best of None \<Rightarrow> True
     | Some b \<Rightarrow> actionStrength (dr_Action result) > actionStrength (dr_Action b))"

fun match_values :: "Rule \<Rightarrow> string list \<Rightarrow> DetectionResult option \<Rightarrow> DetectionResult option" where
  "match_values rule [] best = best"
| "match_values rule (value # vs) best =
     (if ru_literalPrefix rule \<noteq> [] \<and> \<not> contains value (ru_literalPrefix rule) then match_values rule vs best
      else if rx_MatchString (ru_Pattern rule) value \<and> stronger (rule_result rule value) best
      then match_values rule vs (Some (rule_result rule value))
      else match_values rule vs best)"

text \<open>The loop; \<open>ctxErr\<close> is what \<open>ctx.Err()\<close> returns before the rule with this many
  rules left.\<close>

fun rules_loop :: "rules_lib \<Rightarrow> (nat \<Rightarrow> ctx_error option) \<Rightarrow> rule_request \<Rightarrow> Rule list \<Rightarrow> requestViews
    \<Rightarrow> DetectionResult option \<Rightarrow> ctx_error + DetectionResult option \<times> requestViews" where
  "rules_loop lib ctxErr r [] views best = Inr (best, views)"
| "rules_loop lib ctxErr r (rule # rules) views best =
     (case ctxErr (length rules) of
        Some e \<Rightarrow> Inl e
      | None \<Rightarrow>
          if \<not> ru_Enabled rule then rules_loop lib ctxErr r rules views best
          else (case variants lib rule r views of
                  (vs, views') \<Rightarrow> rules_loop lib ctxErr r rules views' (match_values rule vs best)))"

definition IncompleteReason :: "incomplete \<Rightarrow> string" where
  "IncompleteReason reason = (if reason = [] then ''custom_rule_json_field_limit'' else reason)"

definition rules_Detect ::
    "rules_lib \<Rightarrow> (nat \<Rightarrow> ctx_error option) \<Rightarrow> Rule list \<Rightarrow> rule_request \<Rightarrow> DetectionResult option \<times> det_error option" where
  "rules_Detect lib ctxErr rules r =
     (case rules_loop lib ctxErr r rules \<lparr>vw_decoded = Map.empty, vw_err = None\<rparr> None of
        Inl e \<Rightarrow> (None, Some (CtxError e))
      | Inr (best, views) \<Rightarrow>
          (case best of
             Some b \<Rightarrow> if dr_Action b = ActionBlock then (Some b, None)
                       else (Some b, map_option (AnalysisIncomplete \<circ> IncompleteReason) (vw_err views))
           | None \<Rightarrow> (None, map_option (AnalysisIncomplete \<circ> IncompleteReason) (vw_err views))))"

end
