(* ===== verification/Rules_Properties.thy ===== *)
theory Rules_Properties
  imports Rules_Engine
begin

text \<open>
  Properties of the custom rules: the detector, with its cache of views and its filter on a
  literal prefix, finds exactly the first strongest match over all rules and all views, and the
  payload it reports is a bounded window that shows the match.
\<close>

subsection \<open>The reference\<close>

definition all_matches :: "rules_lib \<Rightarrow> Rule list \<Rightarrow> rule_request \<Rightarrow> DetectionResult list" where
  "all_matches lib rules r = concat (map (\<lambda>rule. map (rule_result rule)
     (filter (rx_MatchString (ru_Pattern rule)) (fst (view_list lib rule r)))) (filter ru_Enabled rules))"

definition first_strongest :: "DetectionResult list \<Rightarrow> DetectionResult option" where
  "first_strongest xs = find (\<lambda>x. \<forall>y\<in>set xs. actionStrength (dr_Action y) \<le> actionStrength (dr_Action x)) xs"

definition incomplete_view :: "rules_lib \<Rightarrow> Rule list \<Rightarrow> rule_request \<Rightarrow> bool" where
  "incomplete_view lib rules r \<longleftrightarrow> (\<exists>rule\<in>set rules. ru_Enabled rule \<and> snd (view_list lib rule r) \<noteq> None)"

subsection \<open>Keeping the strongest\<close>

definition keep :: "DetectionResult option \<Rightarrow> DetectionResult \<Rightarrow> DetectionResult option" where
  "keep best x = (if stronger x best then Some x else best)"

lemma find_snoc: "find p (xs @ [x]) = (case find p xs of None \<Rightarrow> if p x then Some x else None | Some y \<Rightarrow> Some y)"
  by (induction xs) auto

lemma find_eq: "(\<And>x. x \<in> set xs \<Longrightarrow> p x = q x) \<Longrightarrow> find p xs = find q xs"
  by (induction xs) auto

lemma first_strongest_max:
  assumes "xs \<noteq> []"
  shows "\<exists>b. first_strongest xs = Some b \<and> b \<in> set xs \<and> (\<forall>y\<in>set xs. actionStrength (dr_Action y) \<le> actionStrength (dr_Action b))"
proof -
  let ?f = "\<lambda>x. actionStrength (dr_Action x)"
  obtain m where m: "m \<in> set xs" "?f m = Max (?f ` set xs)" using assms Max_in[of "?f ` set xs"] by fastforce
  then have "\<forall>y\<in>set xs. ?f y \<le> ?f m" by simp
  then have "first_strongest xs \<noteq> None" using m(1) by (auto simp: first_strongest_def find_None_iff)
  then obtain b where b: "first_strongest xs = Some b" by auto
  then have "b \<in> set xs \<and> (\<forall>y\<in>set xs. ?f y \<le> ?f b)" unfolding first_strongest_def find_Some_iff by auto
  then show ?thesis using b by blast
qed

lemma first_strongest_snoc: "first_strongest (xs @ [x]) = keep (first_strongest xs) x"
proof (cases "xs = []")
  case True
  then show ?thesis by (simp add: first_strongest_def keep_def stronger_def)
next
  case False
  let ?f = "\<lambda>x. actionStrength (dr_Action x)"
  obtain b where b: "first_strongest xs = Some b" "b \<in> set xs" "\<forall>y\<in>set xs. ?f y \<le> ?f b"
    using first_strongest_max[OF False] by blast
  show ?thesis
  proof (cases "?f b < ?f x")
    case True
    then have "\<not> (\<forall>z\<in>set (xs @ [x]). ?f z \<le> ?f y)" if "y \<in> set xs" for y using b(3) that by force
    then have "find (\<lambda>y. \<forall>z\<in>set (xs @ [x]). ?f z \<le> ?f y) xs = None" unfolding find_None_iff by blast
    moreover have "\<forall>z\<in>set (xs @ [x]). ?f z \<le> ?f x" using b(3) True by force
    ultimately show ?thesis using b(1) True unfolding first_strongest_def find_snoc by (simp add: keep_def stronger_def)
  next
    case nlt: False
    have "find (\<lambda>y. \<forall>z\<in>set (xs @ [x]). ?f z \<le> ?f y) xs = find (\<lambda>y. \<forall>z\<in>set xs. ?f z \<le> ?f y) xs"
    proof (rule find_eq)
      fix y assume "y \<in> set xs"
      show "(\<forall>z\<in>set (xs @ [x]). ?f z \<le> ?f y) = (\<forall>z\<in>set xs. ?f z \<le> ?f y)"
        using nlt b(2) by (auto simp: not_less intro: order_trans)
    qed
    then have "first_strongest (xs @ [x]) = Some b"
      using b(1) unfolding first_strongest_def find_snoc by (simp only: option.case)
    then show ?thesis using b(1) nlt by (simp add: keep_def stronger_def)
  qed
qed

lemma foldl_keep: "foldl keep None xs = first_strongest xs"
proof (induction xs rule: rev_induct)
  case Nil
  then show ?case by (simp add: first_strongest_def)
next
  case (snoc x xs)
  then show ?case by (simp add: first_strongest_snoc)
qed

lemma match_values_keep:
  assumes "\<And>s. rx_MatchString (ru_Pattern rule) s \<Longrightarrow> contains s (ru_literalPrefix rule)"
  shows "match_values rule vs best = foldl keep best (map (rule_result rule) (filter (rx_MatchString (ru_Pattern rule)) vs))"
  using assms by (induction vs arbitrary: best) (auto simp: keep_def)

subsection \<open>The cache of views\<close>

lemma view_list_location: "ru_Location a = ru_Location b \<Longrightarrow> view_list lib a r = view_list lib b r"
proof -
  assume l: "ru_Location a = ru_Location b"
  have m: "view_match a r = view_match b r" unfolding view_match_def l ..
  have "raw_values lib a r = raw_values lib b r" unfolding raw_values_def l m ..
  then show ?thesis unfolding view_list_def l by simp
qed

definition plain_location :: "Rule \<Rightarrow> bool" where
  "plain_location rule \<longleftrightarrow> CHR '':'' \<notin> set (ru_Location rule)"

lemma cacheKey_location:
  assumes "plain_location a" "plain_location b" "cacheKey a r = cacheKey b r"
  shows "ru_Location a = ru_Location b"
proof -
  have cut: "takeWhile (\<lambda>c. c \<noteq> CHR '':'') (cacheKey rule r) = ru_Location rule" if "plain_location rule" for rule
    using that by (auto simp: cacheKey_def plain_location_def takeWhile_eq_all_conv takeWhile_append2)
  show ?thesis using cut[OF assms(1)] cut[OF assms(2)] assms(3) by simp
qed

text \<open>The cache holds the views of rules seen, and the error flag tells whether one of them
  was incomplete.\<close>

definition views_ok :: "rules_lib \<Rightarrow> rule_request \<Rightarrow> Rule list \<Rightarrow> requestViews \<Rightarrow> bool" where
  "views_ok lib r seen v \<longleftrightarrow>
     (\<forall>key vs. vw_decoded v key = Some vs \<longrightarrow> (\<exists>rule\<in>set seen. ru_Enabled rule \<and> plain_location rule
        \<and> key = cacheKey rule r \<and> vs = fst (view_list lib rule r)))
     \<and> (vw_err v \<noteq> None \<longleftrightarrow> incomplete_view lib seen r)"

lemma later_err_None [simp]: "later_err e e' = None \<longleftrightarrow> e = None \<and> e' = None"
  by (auto simp: later_err_def split: option.split)

lemma variants_ok:
  assumes "views_ok lib r seen v" "plain_location rule" "ru_Enabled rule" "variants lib rule r v = (vs, v')"
  shows "vs = fst (view_list lib rule r) \<and> views_ok lib r (seen @ [rule]) v'"
proof (cases "vw_decoded v (cacheKey rule r)")
  case None
  obtain out e where o: "view_list lib rule r = (out, e)" by fastforce
  have v': "vs = out" "v' = v\<lparr>vw_decoded := (vw_decoded v)(cacheKey rule r \<mapsto> out), vw_err := later_err (vw_err v) e\<rparr>"
    using assms(4) None o by (auto simp: variants_def)
  have "vw_err v' \<noteq> None \<longleftrightarrow> incomplete_view lib (seen @ [rule]) r"
    using assms(1,3) o unfolding v'(2) views_ok_def incomplete_view_def by auto
  moreover have "\<exists>q\<in>set (seen @ [rule]). ru_Enabled q \<and> plain_location q \<and> key = cacheKey q r \<and> ws = fst (view_list lib q r)"
    if "vw_decoded v' key = Some ws" for key ws
    using that assms(1-3) o unfolding v'(2) views_ok_def by (auto split: if_splits)
  ultimately show ?thesis using v'(1) o unfolding views_ok_def by simp
next
  case (Some cached)
  then have v': "vs = cached" "v' = v" using assms(4) by (auto simp: variants_def)
  obtain q where q: "q \<in> set seen" "ru_Enabled q" "plain_location q" "cacheKey rule r = cacheKey q r" "cached = fst (view_list lib q r)"
    using assms(1) Some unfolding views_ok_def by blast
  have same: "view_list lib rule r = view_list lib q r"
    using view_list_location[OF cacheKey_location[OF assms(2) q(3,4)]] .
  have "incomplete_view lib (seen @ [rule]) r = incomplete_view lib seen r"
    using q(1,2) same by (auto simp: incomplete_view_def)
  then show ?thesis using assms(1) q(5) same unfolding views_ok_def v' by auto
qed

lemma rules_loop_reference:
  assumes "\<forall>n. ctxErr n = None" "\<forall>rule\<in>set rules. plain_location rule"
    "\<forall>rule\<in>set rules. \<forall>s. rx_MatchString (ru_Pattern rule) s \<longrightarrow> contains s (ru_literalPrefix rule)"
    "views_ok lib r seen v"
  shows "\<exists>v'. rules_loop lib ctxErr r rules v best = Inr (foldl keep best (all_matches lib rules r), v')
     \<and> (vw_err v' \<noteq> None \<longleftrightarrow> incomplete_view lib (seen @ rules) r)"
  using assms(2-4)
proof (induction rules arbitrary: v seen best)
  case Nil
  then show ?case by (simp add: all_matches_def views_ok_def)
next
  case (Cons rule rules)
  show ?case
  proof (cases "ru_Enabled rule")
    case False
    have "incomplete_view lib (seen @ rule # rules) r = incomplete_view lib (seen @ rules) r"
      using False by (auto simp: incomplete_view_def)
    then show ?thesis using Cons.IH[of seen v best] Cons.prems False assms(1) by (simp add: all_matches_def)
  next
    case True
    obtain vs v' where v': "variants lib rule r v = (vs, v')" by fastforce
    have ok: "vs = fst (view_list lib rule r)" "views_ok lib r (seen @ [rule]) v'"
      using variants_ok[OF Cons.prems(3) _ True v'] Cons.prems(1) by auto
    have "match_values rule vs best = foldl keep best (map (rule_result rule) (filter (rx_MatchString (ru_Pattern rule)) vs))"
      using Cons.prems(2) by (intro match_values_keep) auto
    then show ?thesis
      using Cons.IH[of "seen @ [rule]" v' "match_values rule vs best"] Cons.prems(1,2) ok v' True assms(1)
      by (simp add: all_matches_def)
  qed
qed

lemma FromStorage_rules:
  assumes "FromStorage rc items = Some rules" "rule \<in> set rules"
  shows "\<exists>item\<in>set items. rule_compile rc item = Some rule"
  using assms by (induction items arbitrary: rules) (auto split: option.splits)

lemma compiled_prefix:
  assumes "rule_compile rc item = Some rule" "\<forall>p re s. rc p = Some re \<longrightarrow> rx_MatchString re s \<longrightarrow> contains s (rx_LiteralPrefix re)"
    "rx_MatchString (ru_Pattern rule) s"
  shows "contains s (ru_literalPrefix rule)"
proof -
  obtain re where re: "rc (sr_Pattern item) = Some re" "ru_Pattern rule = re"
    "ru_literalPrefix rule = [] \<or> ru_literalPrefix rule = rx_LiteralPrefix re"
    using assms(1) by (auto simp: rule_compile_def Let_def split: option.splits)
  have "contains s []" unfolding contains_iff by (metis append_Nil)
  then show ?thesis using re assms(2,3) by metis
qed

text \<open>
  C20: Custom rules find the first strongest match. For rules compiled from stored ones and
  sorted by priority, the detector returns, among all matches of all enabled rules on all views
  of the request, the first whose action no other match exceeds; neither the cache of views nor
  the filter on the literal prefix of a pattern hides a match. A blocking result comes without
  error, any other outcome carries the incompleteness of a view if some enabled rule's view
  was incomplete. Of the regular expressions only that a match contains the literal prefix is
  used.
\<close>

theorem rules_find_first_strongest:
  assumes "FromStorage rc items = Some rs" "\<forall>item\<in>set items. CHR '':'' \<notin> set (to_lower (sr_Location item))"
    and "\<forall>p re s. rc p = Some re \<longrightarrow> rx_MatchString re s \<longrightarrow> contains s (rx_LiteralPrefix re)"
    and "\<forall>n. ctxErr n = None"
  shows "fst (rules_Detect lib ctxErr (rules_New rs) r) = first_strongest (all_matches lib (rules_New rs) r)
    \<and> (snd (rules_Detect lib ctxErr (rules_New rs) r) = None \<longleftrightarrow>
        map_option dr_Action (first_strongest (all_matches lib (rules_New rs) r)) = Some ActionBlock
        \<or> \<not> incomplete_view lib rs r)"
proof -
  have set_rs: "set (rules_New rs) = set rs" by (simp add: rules_New_def)
  have comp: "\<exists>item\<in>set items. rule_compile rc item = Some rule" if "rule \<in> set rs" for rule
    using FromStorage_rules[OF assms(1) that] .
  have "plain_location rule" if r: "rule \<in> set rs" for rule
  proof -
    obtain item where "item \<in> set items" "rule_compile rc item = Some rule" using comp[OF r] by blast
    moreover have "to_lower ''uri'' = ''uri''" by code_simp
    ultimately show ?thesis using assms(2)
      by (auto simp: rule_compile_def Let_def plain_location_def split: option.splits if_splits)
  qed
  moreover have "contains s (ru_literalPrefix rule)" if "rule \<in> set rs" "rx_MatchString (ru_Pattern rule) s" for rule s
    using comp[OF that(1)] compiled_prefix[OF _ assms(3) that(2)] by blast
  moreover have "views_ok lib r [] \<lparr>vw_decoded = Map.empty, vw_err = None\<rparr>"
    by (simp add: views_ok_def incomplete_view_def)
  ultimately have "\<exists>v'. rules_loop lib ctxErr r (rules_New rs) \<lparr>vw_decoded = Map.empty, vw_err = None\<rparr> None
      = Inr (foldl keep None (all_matches lib (rules_New rs) r), v') \<and> (vw_err v' \<noteq> None \<longleftrightarrow> incomplete_view lib ([] @ rules_New rs) r)"
    unfolding set_rs[symmetric] by (intro rules_loop_reference assms(4)) blast+
  then obtain v' where v': "rules_loop lib ctxErr r (rules_New rs) \<lparr>vw_decoded = Map.empty, vw_err = None\<rparr> None
      = Inr (first_strongest (all_matches lib (rules_New rs) r), v')" "vw_err v' \<noteq> None \<longleftrightarrow> incomplete_view lib (rules_New rs) r"
    unfolding foldl_keep by auto
  have inc: "incomplete_view lib (rules_New rs) r = incomplete_view lib rs r" by (simp add: incomplete_view_def set_rs)
  show ?thesis using v' unfolding inc rules_Detect_def by (auto split: option.split)
qed

definition literal_regex :: "string \<Rightarrow> regex option" where
  "literal_regex p = Some \<lparr>rx_MatchString = (\<lambda>s. contains s p), rx_FindStringIndex = (\<lambda>s. None), rx_LiteralPrefix = p\<rparr>"

definition demo_lib :: rules_lib where
  "demo_lib = \<lparr>rl_codec = \<lparr>cd_html = (\<lambda>s. s), cd_base64 = []\<rparr>, rl_ParseQuery = (\<lambda>s. ([], False)),
     rl_ParseMediaType = (\<lambda>s. None), rl_parts = (\<lambda>b s. ([], False)), rl_json_Valid = (\<lambda>s. False),
     rl_json_tokens = (\<lambda>s. ([], False))\<rparr>"

definition demo_item :: "string \<Rightarrow> string \<Rightarrow> string \<Rightarrow> int \<Rightarrow> storage_Rule" where
  "demo_item i pattern action priority = \<lparr>sr_ID = i, sr_SiteID = [], sr_Name = i, sr_Description = [], sr_Pattern = pattern,
     sr_Location = ''query'', sr_Action = action, sr_Severity = ''high'', sr_Enabled = True, sr_Priority = priority\<rparr>"

definition demo_rule_request :: rule_request where
  "demo_rule_request = \<lparr>rr_Method = ''GET'', rr_RequestURI = ''/?q=%2575nion'', rr_RawQuery = ''q=%2575nion'', rr_Path = ''/'',
     rr_Header = [], rr_Cookies = [], rr_NormalizedPath = ''/'', rr_DecodedBody = []\<rparr>"

definition demo_items :: "storage_Rule list" where
  "demo_items = [demo_item ''a'' ''union'' ''block'' 300, demo_item ''b'' ''q='' ''log'' 100]"

theorem rules_find_first_strongest_witness:
  "\<exists>rs. FromStorage literal_regex demo_items = Some rs
     \<and> map_option dr_DetectorID (fst (rules_Detect demo_lib (\<lambda>_. None) (rules_New rs) demo_rule_request)) = Some ''rules.custom.a''
     \<and> snd (rules_Detect demo_lib (\<lambda>_. None) (rules_New rs) demo_rule_request) = None"
proof -
  obtain rs where rs: "FromStorage literal_regex demo_items = Some rs" "map ru_Location rs = [''query'', ''query'']"
    "map_option dr_DetectorID (first_strongest (all_matches demo_lib (rules_New rs) demo_rule_request)) = Some ''rules.custom.a''"
    "map_option dr_Action (first_strongest (all_matches demo_lib (rules_New rs) demo_rule_request)) = Some ActionBlock"
  proof -
    have "(case FromStorage literal_regex demo_items of None \<Rightarrow> False | Some rs \<Rightarrow> map ru_Location rs = [''query'', ''query'']
        \<and> map_option dr_DetectorID (first_strongest (all_matches demo_lib (rules_New rs) demo_rule_request)) = Some ''rules.custom.a''
        \<and> map_option dr_Action (first_strongest (all_matches demo_lib (rules_New rs) demo_rule_request)) = Some ActionBlock)"
      by code_simp
    then show thesis using that by (auto split: option.splits)
  qed
  have loc: "\<forall>item\<in>set demo_items. CHR '':'' \<notin> set (to_lower (sr_Location item))" by code_simp
  have "\<forall>p re s. literal_regex p = Some re \<longrightarrow> rx_MatchString re s \<longrightarrow> contains s (rx_LiteralPrefix re)"
    by (auto simp: literal_regex_def)
  from rules_find_first_strongest[OF rs(1) loc this, of "\<lambda>_. None" demo_lib demo_rule_request]
  show ?thesis using rs by auto
qed

subsection \<open>The payload\<close>

lemma clip_window_bounds:
  assumes "0 \<le> ms" "ms \<le> me" "me \<le> n" "512 < n" "clip_window n ms me = (ws, we)"
  shows "0 \<le> ws \<and> we = ws + 512 \<and> we \<le> n \<and> (me - ms \<le> 512 \<longrightarrow> ws \<le> ms \<and> me \<le> we)"
  using assms by (auto simp: clip_window_def maxPayloadBytes_def Let_def max_def split: if_splits)

text \<open>
  The payload of a match is at most 512 bytes of the text, consecutive, and shows the whole
  match if it is that short.
\<close>

theorem payload_shows_match:
  assumes "rx_FindStringIndex (ru_Pattern rule) value = Some (ms, me)" "ms \<le> me" "me \<le> length value"
  shows "\<exists>a b. value = a @ clipPayloadAroundMatch value rule @ b \<and> length (clipPayloadAroundMatch value rule) \<le> 512
    \<and> (me - ms \<le> 512 \<longrightarrow> length a \<le> ms \<and> me \<le> length a + length (clipPayloadAroundMatch value rule))"
proof (cases "length value \<le> 512")
  case True
  then have "clipPayloadAroundMatch value rule = value" by (simp add: clipPayloadAroundMatch_def maxPayloadBytes_def)
  then show ?thesis using True assms(3) by (intro exI[of _ "[]"]) simp
next
  case False
  obtain ws we where w: "clip_window (int (length value)) (int ms) (int me) = (ws, we)" by fastforce
  note b = clip_window_bounds[OF _ _ _ _ w]
  have bb: "0 \<le> ws" "we = ws + 512" "we \<le> int (length value)" "int me - int ms \<le> 512 \<longrightarrow> ws \<le> int ms \<and> int me \<le> we"
    using b assms(2,3) False by auto
  have c: "clipPayloadAroundMatch value rule = take 512 (drop (nat ws) value)"
    using False w assms(1) bb(2) by (simp add: clipPayloadAroundMatch_def maxPayloadBytes_def)
  have len: "length (take 512 (drop (nat ws) value)) = 512" using bb(1-3) by simp
  have "value = take (nat ws) value @ take 512 (drop (nat ws) value) @ drop 512 (drop (nat ws) value)"
    by (metis append_take_drop_id)
  moreover have "length (take (nat ws) value) = nat ws" using bb(1-3) by simp
  moreover have "me - ms \<le> 512 \<longrightarrow> nat ws \<le> ms \<and> me \<le> nat ws + 512" using bb assms(2) by auto
  ultimately show ?thesis unfolding c using len by (metis le_refl)
qed

end
