(* ===== verification/ACL_Policy.thy ===== *)
theory ACL_Policy
  imports Rules_Engine
begin

text \<open>
  \<open>internal/protection/acl/policy.go\<close>: access control by method, path and header, judged
  under every reading of the path. \<open>strings.EqualFold\<close> on header values is an argument.
  Policies and requests are present.
\<close>

record ACLRuleConfig =
  ac_ID :: string
  ac_Name :: string
  ac_Method :: string
  ac_PathPrefix :: string
  ac_Header :: string
  ac_HeaderValue :: string
  ac_Action :: string
  ac_Severity :: string
  ac_Enabled :: bool

record ACLProtectionConfig =
  ap_Enabled :: bool
  ap_Rules :: "ACLRuleConfig list"

record ACLRule =
  al_ID :: string
  al_Name :: string
  al_Method :: string
  al_PathPrefix :: string
  al_Header :: string
  al_HeaderValue :: string
  al_Action :: Action
  al_Severity :: Severity
  al_Enabled :: bool

record ACLPolicy =
  po_enabled :: bool
  po_rules :: "ACLRule list"

definition compile_item :: "ACLRuleConfig \<Rightarrow> ACLRule option" where
  "compile_item item =
     (let method = to_upper (trim_space (ac_Method item));
          pathPrefix = trim_space (ac_PathPrefix item);
          header = trim_space (ac_Header item);
          headerValue = trim_space (ac_HeaderValue item)
      in if \<not> ac_Enabled item \<or> (method = [] \<and> pathPrefix = [] \<and> header = []) \<or> (header = [] \<and> headerValue \<noteq> [])
         then None
         else Some \<lparr>al_ID = ac_ID item, al_Name = ac_Name item, al_Method = method, al_PathPrefix = pathPrefix,
           al_Header = header, al_HeaderValue = headerValue, al_Action = ParseAction (ac_Action item),
           al_Severity = ParseSeverity (ac_Severity item), al_Enabled = ac_Enabled item\<rparr>)"

definition NewPolicy :: "ACLProtectionConfig \<Rightarrow> ACLPolicy" where
  "NewPolicy cfg = \<lparr>po_enabled = ap_Enabled cfg, po_rules = List.map_filter compile_item (ap_Rules cfg)\<rparr>"

record acl_request =
  aq_Method :: string
  aq_Path :: string
  aq_RequestURI :: string
  aq_Header :: header

definition header_matches :: "(string \<Rightarrow> string \<Rightarrow> bool) \<Rightarrow> ACLRule \<Rightarrow> string \<Rightarrow> bool" where
  "header_matches EqualFold rule value0 =
     (let value = trim_space value0 in
      (al_HeaderValue rule = [] \<and> value \<noteq> []) \<or> (al_HeaderValue rule \<noteq> [] \<and> EqualFold value (al_HeaderValue rule)))"

definition acl_matches :: "(string \<Rightarrow> string \<Rightarrow> bool) \<Rightarrow> ACLRule \<Rightarrow> acl_request \<Rightarrow> string \<Rightarrow> bool" where
  "acl_matches EqualFold rule req path \<longleftrightarrow>
     \<not> (al_Method rule \<noteq> [] \<and> al_Method rule \<noteq> to_upper (aq_Method req))
     \<and> \<not> (al_PathPrefix rule \<noteq> [] \<and> \<not> PathMatchesPrefix path (al_PathPrefix rule))
     \<and> (al_Header rule \<noteq> [] \<longrightarrow> list_ex (header_matches EqualFold rule) (header_Values (aq_Header req) (al_Header rule)))"

fun acl_rank :: "Action \<Rightarrow> nat" where
  "acl_rank ActionBlock = 3"
| "acl_rank ActionChallenge = 2"
| "acl_rank ActionLog = 1"
| "acl_rank _ = 0"

text \<open>The readings of the path; none when it cannot be normalised.\<close>

definition acl_paths :: "string \<Rightarrow> string list" where
  "acl_paths path =
     (case NormalizeRequestPath path of
        None \<Rightarrow> []
      | Some cleaned \<Rightarrow>
          if CHR '';'' \<in> set path \<or> CHR ''%'' \<in> set path then
            (case SecurityPathViews path of
               (paths, valid) \<Rightarrow> if \<not> valid then [] else if path \<noteq> cleaned then tl paths else paths)
          else [cleaned])"

fun acl_select :: "(string \<Rightarrow> string \<Rightarrow> bool) \<Rightarrow> ACLRule list \<Rightarrow> acl_request \<Rightarrow> string list \<Rightarrow> ACLRule option \<Rightarrow> ACLRule option" where
  "acl_select EqualFold rules req [] selected = selected"
| "acl_select EqualFold rules req (path # paths) selected =
     acl_select EqualFold rules req paths
       (case find (\<lambda>rule. al_Enabled rule \<and> acl_matches EqualFold rule req path) rules of
          None \<Rightarrow> selected
        | Some rule \<Rightarrow>
            (case selected of
               None \<Rightarrow> Some rule
             | Some s \<Rightarrow> if acl_rank (al_Action rule) > acl_rank (al_Action s) then Some rule else Some s))"

definition acl_Evaluate :: "(string \<Rightarrow> string \<Rightarrow> bool) \<Rightarrow> ACLPolicy \<Rightarrow> acl_request \<Rightarrow> DetectionResult option" where
  "acl_Evaluate EqualFold p req =
     (if \<not> po_enabled p then None
      else map_option (\<lambda>rule.
        \<lparr>dr_Detected = True, dr_DetectorID = ''acl.'' @ al_ID rule, dr_Category = ''acl'', dr_Severity = al_Severity rule,
         dr_Action = al_Action rule, dr_Message = ''ACL rule matched: '' @ al_Name rule, dr_Confidence = 1,
         dr_Payload = aq_Method req @ '' '' @ aq_RequestURI req\<rparr>)
        (acl_select EqualFold (po_rules p) req (acl_paths (aq_Path req)) None))"

subsection \<open>Every reading counts\<close>

definition first_match :: "(string \<Rightarrow> string \<Rightarrow> bool) \<Rightarrow> ACLPolicy \<Rightarrow> acl_request \<Rightarrow> string \<Rightarrow> ACLRule option" where
  "first_match EqualFold p req path = find (\<lambda>rule. al_Enabled rule \<and> acl_matches EqualFold rule req path) (po_rules p)"

text \<open>The invariant of the selection: strictest so far.\<close>

definition strictest_of :: "(string \<Rightarrow> ACLRule option) \<Rightarrow> string set \<Rightarrow> ACLRule option \<Rightarrow> bool" where
  "strictest_of f ps sel \<longleftrightarrow>
     (case sel of
        None \<Rightarrow> \<forall>path\<in>ps. f path = None
      | Some s \<Rightarrow> (\<exists>path\<in>ps. f path = Some s) \<and> (\<forall>path\<in>ps. \<forall>rule. f path = Some rule \<longrightarrow> acl_rank (al_Action rule) \<le> acl_rank (al_Action s)))"

lemma acl_select_strictest:
  "strictest_of (first_match eq p req) seen sel \<Longrightarrow>
     strictest_of (first_match eq p req) (seen \<union> set paths) (acl_select eq (po_rules p) req paths sel)"
proof (induction paths arbitrary: seen sel)
  case (Cons path paths)
  let ?f = "first_match eq p req"
  let ?sel = "case ?f path of None \<Rightarrow> sel | Some rule \<Rightarrow> (case sel of None \<Rightarrow> Some rule
     | Some s \<Rightarrow> if acl_rank (al_Action rule) > acl_rank (al_Action s) then Some rule else Some s)"
  have "strictest_of ?f (insert path seen) ?sel"
  proof (cases "?f path")
    case None
    then show ?thesis using Cons.prems by (auto simp: strictest_of_def split: option.splits)
  next
    case (Some rule)
    then show ?thesis using Cons.prems by (cases sel) (auto simp: strictest_of_def not_less split: option.splits)
  qed
  from Cons.IH[OF this] show ?case by (simp add: first_match_def)
qed simp

text \<open>
  C23: The access control list judges every reading of the path. The verdict of an enabled policy
  is that of a rule which is the first match under some reading of the request's path, and no
  reading's first match has a stricter action: a reading that only logs never hides one that
  blocks. There is no verdict only if no rule matches under any reading.
\<close>

theorem acl_strictest_reading:
  assumes "po_enabled p"
  shows "(case acl_Evaluate eq p req of
      None \<Rightarrow> \<forall>path\<in>set (acl_paths (aq_Path req)). first_match eq p req path = None
    | Some d \<Rightarrow> (\<exists>path\<in>set (acl_paths (aq_Path req)). \<exists>rule. first_match eq p req path = Some rule
          \<and> dr_DetectorID d = ''acl.'' @ al_ID rule \<and> dr_Action d = al_Action rule)
        \<and> (\<forall>path\<in>set (acl_paths (aq_Path req)). \<forall>rule. first_match eq p req path = Some rule
             \<longrightarrow> acl_rank (al_Action rule) \<le> acl_rank (dr_Action d)))"
proof -
  have "strictest_of (first_match eq p req) ({} \<union> set (acl_paths (aq_Path req)))
     (acl_select eq (po_rules p) req (acl_paths (aq_Path req)) None)"
    by (rule acl_select_strictest) (simp add: strictest_of_def)
  then show ?thesis using assms by (auto simp: acl_Evaluate_def strictest_of_def split: option.splits)
qed

definition acl_demo :: ACLPolicy where
  "acl_demo = NewPolicy \<lparr>ap_Enabled = True, ap_Rules =
     [\<lparr>ac_ID = ''1'', ac_Name = ''w'', ac_Method = [], ac_PathPrefix = ''/a;v=1'', ac_Header = [], ac_HeaderValue = [],
        ac_Action = ''log'', ac_Severity = [], ac_Enabled = True\<rparr>,
      \<lparr>ac_ID = ''2'', ac_Name = ''b'', ac_Method = ''get'', ac_PathPrefix = ''/a/secret'', ac_Header = [], ac_HeaderValue = [],
        ac_Action = ''block'', ac_Severity = [], ac_Enabled = True\<rparr>]\<rparr>"

definition acl_demo_request :: acl_request where
  "acl_demo_request = \<lparr>aq_Method = ''GET'', aq_Path = ''/a;v=1/secret'', aq_RequestURI = ''/a;v=1/secret'', aq_Header = Map.empty\<rparr>"

theorem acl_strictest_reading_witness:
  "(\<exists>d. acl_Evaluate (=) acl_demo acl_demo_request = Some d \<and> dr_Action d = ActionBlock
     \<and> (\<exists>path\<in>set (acl_paths (aq_Path acl_demo_request)). \<exists>rule.
          first_match (=) acl_demo acl_demo_request path = Some rule
          \<and> dr_DetectorID d = ''acl.'' @ al_ID rule \<and> al_Action rule = ActionBlock))"
proof -
  have e: "po_enabled acl_demo" by code_simp
  have "map_option dr_Action (acl_Evaluate (=) acl_demo acl_demo_request) = Some ActionBlock" by code_simp
  then obtain d where d: "acl_Evaluate (=) acl_demo acl_demo_request = Some d" "dr_Action d = ActionBlock" by auto
  then obtain path rule where "path \<in> set (acl_paths (aq_Path acl_demo_request))"
    "first_match (=) acl_demo acl_demo_request path = Some rule" "dr_DetectorID d = ''acl.'' @ al_ID rule" "al_Action rule = ActionBlock"
    using acl_strictest_reading[OF e, where eq = "(=)" and req = acl_demo_request] by auto
  then show ?thesis using d by blast
qed

end
