(* ===== verification/Protocol_Enforcement.thy ===== *)
theory Protocol_Enforcement
  imports Pipeline Go_Net
begin

text \<open>
  \<open>internal/engine/protocol_enforcement.go\<close>: the checks for ambiguous framing and invalid
  protocol fields. A header map is the list of its entries in the order of the iteration, with
  each name once. Whether \<open>mime.ParseMediaType\<close> accepts a value is an argument. Requests
  are present.
\<close>

record ProtocolViolation =
  pv_Detected :: bool
  pv_Type :: string
  pv_Severity :: Severity
  pv_Confidence :: rat
  pv_Message :: string

record protocol_request =
  pq_Method :: string
  pq_ProtoMajor :: int
  pq_ProtoMinor :: int
  pq_Header :: "(string \<times> string list) list"
  pq_ContentLength :: int
  pq_TransferEncoding :: "string list"

abbreviation pq_map :: "protocol_request \<Rightarrow> header" where
  "pq_map r \<equiv> map_of (pq_Header r)"

definition violation :: "string \<Rightarrow> Severity \<Rightarrow> rat \<Rightarrow> string \<Rightarrow> ProtocolViolation" where
  "violation ty severity confidence message =
     \<lparr>pv_Detected = True, pv_Type = ty, pv_Severity = severity, pv_Confidence = confidence, pv_Message = message\<rparr>"

subsection \<open>Duplicate and merged headers\<close>

definition ambiguous_header :: "(string \<Rightarrow> bool) \<Rightarrow> string \<Rightarrow> string list \<Rightarrow> ProtocolViolation option" where
  "ambiguous_header mediaTypeOK name values =
     (let merged = violation ''ambiguous_header'' SeverityHigh (98 / 100) (''invalid or merged '' @ name @ '' header'') in
      if length values > 1
      then Some (violation ''ambiguous_header'' SeverityHigh (98 / 100) (''ambiguous duplicate '' @ name @ '' header''))
      else if length values = 1 \<and> trim_space (hd values) = [] then Some merged
      else if length values = 1 \<and> name = ''Content-Type'' \<and> \<not> mediaTypeOK (hd values) then Some merged
      else if length values = 1 \<and> name = ''Content-Encoding'' \<and> CHR '','' \<in> set (hd values) then Some merged
      else None)"

definition detectAmbiguousContentHeaders :: "(string \<Rightarrow> bool) \<Rightarrow> protocol_request \<Rightarrow> ProtocolViolation option" where
  "detectAmbiguousContentHeaders mediaTypeOK r = first_error
     (map (\<lambda>name. ambiguous_header mediaTypeOK name (header_Values (pq_map r) name))
       [''Content-Type'', ''Content-Encoding'', ''Transfer-Encoding''])"

subsection \<open>Framing\<close>

fun split_comma :: "string \<Rightarrow> string list" where
  "split_comma [] = [[]]"
| "split_comma (c # s) =
     (if c = CHR '','' then [] # split_comma s
      else (case split_comma s of [] \<Rightarrow> [[c]] | x # xs \<Rightarrow> (c # x) # xs))"

definition transferEncodingValues :: "protocol_request \<Rightarrow> string list" where
  "transferEncodingValues r =
     (if pq_TransferEncoding r \<noteq> [] then pq_TransferEncoding r
      else case pq_map r ''Transfer-Encoding'' of
        Some (v # vs) \<Rightarrow> filter (\<lambda>part. part \<noteq> []) (map trim_space (concat (map split_comma (v # vs))))
      | _ \<Rightarrow> (let te = trim_space (header_Get (pq_map r) ''Transfer-Encoding'') in if te \<noteq> [] then [te] else []))"

fun join_comma_space :: "string list \<Rightarrow> string" where
  "join_comma_space [] = []"
| "join_comma_space [v] = v"
| "join_comma_space (v # w # vs) = v @ '', '' @ join_comma_space (w # vs)"

definition transferEncodingJoined :: "protocol_request \<Rightarrow> string" where
  "transferEncodingJoined r = join_comma_space (transferEncodingValues r)"

definition hasChunkedTransferEncoding :: "protocol_request \<Rightarrow> bool" where
  "hasChunkedTransferEncoding r = list_ex (\<lambda>v. contains (to_lower v) ''chunked'') (transferEncodingValues r)"

text \<open>\<open>strconv.Atoi\<close> returns a positive number without error: digits after an optional
  plus sign, not zero, within 64 bits.\<close>

definition positive_Atoi :: "string \<Rightarrow> bool" where
  "positive_Atoi s =
     (let digits = (if s \<noteq> [] \<and> hd s = CHR ''+'' then tl s else s);
          n = foldl (\<lambda>v c. v * 10 + (byte c - 48)) 0 digits
      in digits \<noteq> [] \<and> list_all (\<lambda>c. in_range 48 57 (byte c)) digits \<and> 0 < n \<and> n < 2 ^ 63)"

definition positiveContentLength :: "protocol_request \<Rightarrow> bool" where
  "positiveContentLength r \<longleftrightarrow> pq_ContentLength r > 0
     \<or> positive_Atoi (trim_space (header_Get (pq_map r) ''Content-Length''))"

definition detectCLTESmuggling :: "protocol_request \<Rightarrow> ProtocolViolation option" where
  "detectCLTESmuggling r =
     (if \<not> positiveContentLength r \<or> \<not> hasChunkedTransferEncoding r then None
      else Some (violation ''smuggling'' SeverityHigh (92 / 100)
        ''HTTP request smuggling: Content-Length + Transfer-Encoding: chunked conflict (CL.TE attack)''))"

definition detectTECLSmuggling :: "protocol_request \<Rightarrow> ProtocolViolation option" where
  "detectTECLSmuggling r =
     (let vals = transferEncodingValues r in
      if vals = [] then None
      else if \<not> contains (to_lower (join_comma_space vals)) ''chunked'' then None
      else case find (\<lambda>v. v \<noteq> ''chunked'' \<and> v \<noteq> []) (map (\<lambda>v. to_lower (trim_space v)) vals) of
        Some v \<Rightarrow> Some (violation ''smuggling'' SeverityCritical (95 / 100)
          (''HTTP request smuggling: Transfer-Encoding with suspicious additional value: '' @ v))
      | None \<Rightarrow>
          if CHR 0x0B \<in> set (transferEncodingJoined r) \<or> CHR 0x00 \<in> set (transferEncodingJoined r)
          then Some (violation ''smuggling'' SeverityCritical (98 / 100)
            ''HTTP request smuggling: Transfer-Encoding header obfuscation (null/vertical-tab byte)'')
          else None)"

subsection \<open>Upgrades and header values\<close>

definition detectUpgradeDowngradeAbuse :: "protocol_request \<Rightarrow> ProtocolViolation option" where
  "detectUpgradeDowngradeAbuse r =
     (let get = header_Get (pq_map r) in
      if pq_ProtoMajor r \<ge> 2 then
        (let te = trim_space (to_lower (get ''TE'')) in
         if get ''Connection'' \<noteq> [] then Some (violation ''smuggling'' SeverityHigh (90 / 100)
           ''HTTP/2 request contains forbidden hop-by-hop Connection header'')
         else if get ''Upgrade'' \<noteq> [] then Some (violation ''smuggling'' SeverityHigh (90 / 100)
           ''HTTP/2 request contains forbidden Upgrade header (downgrade smuggling vector)'')
         else if te \<noteq> [] \<and> te \<noteq> ''trailers'' then Some (violation ''smuggling'' SeverityHigh (88 / 100)
           (''HTTP/2 request contains invalid TE header value: '' @ te))
         else if transferEncodingValues r \<noteq> [] then Some (violation ''smuggling'' SeverityCritical (96 / 100)
           ''HTTP/2 request contains forbidden Transfer-Encoding header'')
         else None)
      else if \<not> equal_fold (trim_space (get ''Upgrade'')) ''websocket'' then None
      else if pq_Method r \<noteq> ''GET'' \<or> \<not> contains (to_lower (get ''Connection'')) ''upgrade''
              \<or> trim_space (get ''Sec-WebSocket-Key'') = [] \<or> trim_space (get ''Sec-WebSocket-Version'') \<noteq> ''13''
      then Some (violation ''upgrade_abuse'' SeverityMedium (78 / 100) ''malformed WebSocket upgrade request'')
      else None)"

definition crlf :: "string \<Rightarrow> bool" where
  "crlf v \<longleftrightarrow> CHR 0x0D \<in> set v \<or> CHR 0x0A \<in> set v"

definition detectHeaderInjection :: "protocol_request \<Rightarrow> ProtocolViolation option" where
  "detectHeaderInjection r =
     (case find (\<lambda>(key, values). list_ex crlf values) (pq_Header r) of
        Some (key, _) \<Rightarrow> Some (violation ''header_injection'' SeverityCritical (98 / 100)
          (''header injection detected: CR/LF bytes in header '' @ key))
      | None \<Rightarrow>
     (case find (\<lambda>(key, values). list_ex (\<lambda>v. length v > 8192) values) (pq_Header r) of
        Some (key, _) \<Rightarrow> Some (violation ''header_injection'' SeverityHigh (85 / 100)
          (''oversized header value in '' @ key @ '' (possible buffer overflow probe)''))
      | None \<Rightarrow>
          if pq_ProtoMajor r = 1 \<and> pq_ProtoMinor r = 0
             \<and> (header_Get (pq_map r) ''Host'' = [] \<or> header_Get (pq_map r) ''Connection'' = ''keep-alive'')
          then Some (violation ''encoding_abuse'' SeverityMedium (65 / 100)
            ''HTTP/1.0 request with keep-alive (potential smuggling downgrade)'')
          else None))"

definition DetectProtocolViolations :: "(string \<Rightarrow> bool) \<Rightarrow> protocol_request \<Rightarrow> ProtocolViolation option" where
  "DetectProtocolViolations mediaTypeOK r = first_error
     [detectAmbiguousContentHeaders mediaTypeOK r, detectCLTESmuggling r, detectTECLSmuggling r,
      detectUpgradeDowngradeAbuse r, detectHeaderInjection r]"

subsection \<open>What passes\<close>













definition demo_chunked :: "protocol_request" where
  "demo_chunked = \<lparr>pq_Method = ''POST'', pq_ProtoMajor = 1, pq_ProtoMinor = 1,
     pq_Header = [(''Content-Type'', [''text/plain''])], pq_ContentLength = -1, pq_TransferEncoding = [''chunked'']\<rparr>"


text \<open>
  Two Content-Length headers that disagree, beside a chunked body, pass: the list of
  duplicates checked leaves Content-Length out, and only its first value is read.
\<close>

lemma duplicate_content_length_passes:
  "DetectProtocolViolations (\<lambda>_. True)
     (demo_chunked\<lparr>pq_Header := [(''Content-Length'', [''0'', ''10''])]\<rparr>) = None"
  by code_simp

text \<open>A server's request has no Host entry in its header map, since \<open>net/http\<close> moves it to
  a field of its own: every request of HTTP/1.0 is reported.\<close>

lemma http10_always_reported:
  assumes "pq_ProtoMajor r = 1" "pq_ProtoMinor r = 0" "pq_map r ''Host'' = None"
  shows "DetectProtocolViolations ok r \<noteq> None"
proof -
  have "CanonicalHeaderKey ''Host'' = ''Host''" by code_simp
  then have "header_Get (pq_map r) ''Host'' = []" using assms(3) by (simp add: header_Get_def header_Values_def)
  then have "detectHeaderInjection r \<noteq> None" using assms(1,2) by (auto simp: detectHeaderInjection_def split: option.splits)
  then show ?thesis unfolding DetectProtocolViolations_def first_error_None by simp
qed

end
