(* ===== verification/Go_Heap.thy ===== *)
theory Go_Heap
  imports Prelude
begin

text \<open>
  Go's \<open>container/heap\<close> over the \<open>Less\<close>, \<open>Swap\<close>, \<open>Push\<close> and \<open>Pop\<close> of an interface value:
  the sift loops \<open>up\<close> and \<open>down\<close>, and \<open>heap.Push\<close>, \<open>heap.Pop\<close>, \<open>heap.Fix\<close> and
  \<open>heap.Remove\<close>. The locale
  \<open>heap_interface\<close> states what an implementation promises and proves once that the loops
  restore the heap order and keep every property that \<open>Swap\<close> keeps.
\<close>

section \<open>The loops\<close>

definition parent :: "nat \<Rightarrow> nat" where
  "parent j = (j - 1) div 2"

function heap_up :: "('s \<Rightarrow> nat \<Rightarrow> nat \<Rightarrow> bool) \<Rightarrow> (nat \<Rightarrow> nat \<Rightarrow> 's \<Rightarrow> 's) \<Rightarrow> nat \<Rightarrow> 's \<Rightarrow> 's" where
  "heap_up Less Swap j h =
     (let i = parent j in
      if i = j \<or> \<not> Less h j i then h else heap_up Less Swap i (Swap i j h))"
  by pat_completeness auto
termination
  by (relation "measure (\<lambda>(_, _, j, _). j)") (auto simp: parent_def)

text \<open>The second component tells whether the element moved.\<close>

function heap_down ::
    "('s \<Rightarrow> nat \<Rightarrow> nat \<Rightarrow> bool) \<Rightarrow> (nat \<Rightarrow> nat \<Rightarrow> 's \<Rightarrow> 's) \<Rightarrow> nat \<Rightarrow> nat \<Rightarrow> 's \<Rightarrow> 's \<times> bool" where
  "heap_down Less Swap n i h =
     (let j1 = 2 * i + 1 in
      if j1 \<ge> n then (h, False)
      else let j = (if j1 + 1 < n \<and> Less h (j1 + 1) j1 then j1 + 1 else j1) in
        if \<not> Less h j i then (h, False)
        else (fst (heap_down Less Swap n j (Swap i j h)), True))"
  by pat_completeness auto
termination
  by (relation "measure (\<lambda>(_, _, n, i, _). n - i)") (auto split: if_splits)

declare heap_up.simps [simp del] heap_down.simps [simp del]

definition smaller_child :: "('s \<Rightarrow> nat \<Rightarrow> nat \<Rightarrow> bool) \<Rightarrow> nat \<Rightarrow> nat \<Rightarrow> 's \<Rightarrow> nat" where
  "smaller_child Less n i h =
     (if 2 * i + 1 + 1 < n \<and> Less h (2 * i + 1 + 1) (2 * i + 1) then 2 * i + 1 + 1 else 2 * i + 1)"

lemma heap_down_stays:
  "2 * i + 1 \<ge> n \<or> \<not> Less h (smaller_child Less n i h) i \<Longrightarrow> heap_down Less Swap n i h = (h, False)"
  by (subst heap_down.simps) (auto simp: smaller_child_def Let_def)

lemma heap_down_moves:
  "\<not> (2 * i + 1 \<ge> n \<or> \<not> Less h (smaller_child Less n i h) i) \<Longrightarrow>
   heap_down Less Swap n i h
     = (fst (heap_down Less Swap n (smaller_child Less n i h) (Swap i (smaller_child Less n i h) h)), True)"
  unfolding heap_down.simps[of Less Swap n i h] Let_def smaller_child_def[symmetric] by simp

lemma smaller_child_bounds:
  "2 * i + 1 < n \<Longrightarrow> i < smaller_child Less n i h \<and> smaller_child Less n i h < n \<and> (smaller_child Less n i h - 1) div 2 = i"
  by (auto simp: smaller_child_def)

definition heap_Push where
  "heap_Push len Less Swap push x h = (let h' = push x h in heap_up Less Swap (len h' - 1) h')"

definition heap_Pop where
  "heap_Pop len Less Swap pop h =
     (let n = len h - 1; h' = Swap 0 n h in pop (fst (heap_down Less Swap n 0 h')))"

text \<open>Moving the element at \<open>i\<close> to its place among the first \<open>n\<close>: down, or else up.\<close>

definition heap_sift where
  "heap_sift Less Swap n i h =
     (case heap_down Less Swap n i h of
        (h', moved) \<Rightarrow> if moved then h' else heap_up Less Swap i h')"

definition heap_Fix where
  "heap_Fix len Less Swap i h = heap_sift Less Swap (len h) i h"

definition heap_Remove where
  "heap_Remove len Less Swap pop i h =
     (let n = len h - 1 in pop (if n = i then h else heap_sift Less Swap n i (Swap i n h)))"

section \<open>Heap order\<close>

definition edge :: "int list \<Rightarrow> nat \<Rightarrow> bool" where
  "edge xs c \<longleftrightarrow> xs ! parent c \<le> xs ! c"

definition heap_order :: "int list \<Rightarrow> nat \<Rightarrow> bool" where
  "heap_order xs n \<longleftrightarrow> (\<forall>c. 0 < c \<and> c < n \<longrightarrow> edge xs c)"

text \<open>Order but for the edges around \<open>i\<close>, and its parent below its children.\<close>

definition bridged :: "int list \<Rightarrow> nat \<Rightarrow> nat \<Rightarrow> bool" where
  "bridged xs n i \<longleftrightarrow> (\<forall>c. 0 < c \<and> c < n \<and> parent c = i \<and> 0 < i \<longrightarrow> xs ! parent i \<le> xs ! c)"

definition order_but_into :: "int list \<Rightarrow> nat \<Rightarrow> nat \<Rightarrow> bool" where
  "order_but_into xs n i \<longleftrightarrow> (\<forall>c. 0 < c \<and> c < n \<and> c \<noteq> i \<longrightarrow> edge xs c) \<and> bridged xs n i"

definition order_but_around :: "int list \<Rightarrow> nat \<Rightarrow> nat \<Rightarrow> bool" where
  "order_but_around xs n i \<longleftrightarrow> (\<forall>c. 0 < c \<and> c < n \<and> c \<noteq> i \<and> parent c \<noteq> i \<longrightarrow> edge xs c) \<and> bridged xs n i"

lemma parent_less: "0 < c \<Longrightarrow> parent c < c"
  by (simp add: parent_def)

lemma parent_eq_self: "parent c = c \<longleftrightarrow> c = 0"
  by (auto simp: parent_def)

lemma parent_children: "0 < c \<Longrightarrow> parent c = i \<longleftrightarrow> c = 2 * i + 1 \<or> c = 2 * i + 2"
  by (auto simp: parent_def)

lemma heap_root_minimum:
  assumes "heap_order xs n" "i < n"
  shows "xs ! 0 \<le> xs ! i"
  using assms(2)
proof (induction i rule: less_induct)
  case (less i)
  show ?case
  proof (cases "i = 0")
    case False
    then have "xs ! 0 \<le> xs ! parent i" using less parent_less[of i] by simp
    also have "\<dots> \<le> xs ! i" using assms(1) False less.prems by (simp add: heap_order_def edge_def)
    finally show ?thesis .
  qed simp
qed

definition swap_at :: "'a list \<Rightarrow> nat \<Rightarrow> nat \<Rightarrow> 'a list" where
  "swap_at xs i j = xs[i := xs ! j, j := xs ! i]"

lemma swap_at_length [simp]: "length (swap_at xs i j) = length xs"
  by (simp add: swap_at_def)

lemma swap_at_nth:
  "i < length xs \<Longrightarrow> j < length xs \<Longrightarrow>
   swap_at xs i j ! k = (if k = i then xs ! j else if k = j then xs ! i else xs ! k)"
  by (auto simp: swap_at_def nth_list_update)

lemma swap_at_set: "i < length xs \<Longrightarrow> j < length xs \<Longrightarrow> set (swap_at xs i j) = set xs"
  by (simp add: swap_at_def)

lemma swap_at_distinct: "i < length xs \<Longrightarrow> j < length xs \<Longrightarrow> distinct (swap_at xs i j) = distinct xs"
  by (simp add: swap_at_def distinct_swap)

text \<open>One step of \<open>up\<close>: the hole moves to the parent.\<close>

lemma up_step:
  assumes "order_but_into xs n j" "0 < j" "j < n" "n \<le> length xs" "xs ! j < xs ! parent j"
  shows "order_but_into (swap_at xs (parent j) j) n (parent j)"
proof -
  let ?i = "parent j" and ?ys = "swap_at xs (parent j) j"
  have lt: "?i < j" using parent_less[OF assms(2)] .
  have nth: "?ys ! k = (if k = ?i then xs ! j else if k = j then xs ! ?i else xs ! k)" for k
    using swap_at_nth[of ?i xs j k] lt assms(3,4) by simp
  have edges: "\<And>c. 0 < c \<Longrightarrow> c < n \<Longrightarrow> c \<noteq> j \<Longrightarrow> edge xs c"
    and bridge: "\<And>c. 0 < c \<Longrightarrow> c < n \<Longrightarrow> parent c = j \<Longrightarrow> xs ! ?i \<le> xs ! c"
    using assms(1,2) by (auto simp: order_but_into_def bridged_def)
  have "edge ?ys c" if c: "0 < c" "c < n" "c \<noteq> ?i" for c
  proof -
    consider "c = j" | "c \<noteq> j" "parent c = ?i" | "c \<noteq> j" "parent c = j" | "c \<noteq> j" "parent c \<noteq> ?i" "parent c \<noteq> j"
      by blast
    then show ?thesis
      using c assms(5) edges[of c] bridge[of c] lt by cases (auto simp: edge_def nth)
  qed
  moreover have "?ys ! parent ?i \<le> ?ys ! c" if c: "0 < c" "c < n" "parent c = ?i" "0 < ?i" for c
  proof -
    have up: "xs ! parent ?i \<le> xs ! ?i" using edges[of ?i] c(4) lt assms(3) by (simp add: edge_def)
    have "parent ?i \<noteq> ?i" "parent ?i \<noteq> j" "c \<noteq> ?i"
      using parent_less[OF c(4)] parent_less[OF c(1)] c(3) lt by auto
    then show ?thesis using up edges[of c] c by (cases "c = j") (auto simp: nth edge_def)
  qed
  ultimately show ?thesis by (auto simp: order_but_into_def bridged_def)
qed

text \<open>One step of \<open>down\<close> to the smallest child \<open>j\<close>: the hole moves there, already below its parent.\<close>

lemma down_step:
  assumes "order_but_around xs n i" "0 < j" "j < n" "n \<le> length xs" "parent j = i" "xs ! j < xs ! i"
    and small: "\<And>c. 0 < c \<Longrightarrow> c < n \<Longrightarrow> parent c = i \<Longrightarrow> xs ! j \<le> xs ! c"
  shows "order_but_around (swap_at xs i j) n j \<and> edge (swap_at xs i j) j
     \<and> (0 < i \<longrightarrow> edge (swap_at xs i j) i)"
proof -
  let ?ys = "swap_at xs i j"
  have lt: "i < j" using parent_less[OF assms(2)] assms(5) by simp
  have nth: "?ys ! k = (if k = i then xs ! j else if k = j then xs ! i else xs ! k)" for k
    using swap_at_nth[of i xs j k] lt assms(3,4) by simp
  have edges: "\<And>c. 0 < c \<Longrightarrow> c < n \<Longrightarrow> c \<noteq> i \<Longrightarrow> parent c \<noteq> i \<Longrightarrow> edge xs c"
    using assms(1) by (auto simp: order_but_around_def)
  have into: "edge ?ys i" if "0 < i"
    using that parent_less[OF that] assms(1-3,5) lt by (auto simp: order_but_around_def bridged_def edge_def nth)
  have "edge ?ys c" if c: "0 < c" "c < n" "c \<noteq> j" "parent c \<noteq> j" for c
  proof -
    consider "c = i" | "c \<noteq> i" "parent c = i" | "c \<noteq> i" "parent c \<noteq> i" by blast
    then show ?thesis using c into small[of c] edges[of c] by cases (auto simp: edge_def nth)
  qed
  moreover have "?ys ! parent j \<le> ?ys ! c" if c: "0 < c" "c < n" "parent c = j" for c
    using edges[of c] c lt parent_less[OF c(1)] assms(5) by (auto simp: nth edge_def)
  moreover have "edge ?ys j" using assms(5,6) lt by (simp add: edge_def nth)
  ultimately show ?thesis using into by (auto simp: order_but_around_def bridged_def)
qed

section \<open>Implementations\<close>

locale heap_interface =
  fixes times :: "'s \<Rightarrow> int list"
    and Less :: "'s \<Rightarrow> nat \<Rightarrow> nat \<Rightarrow> bool"
    and Swap :: "nat \<Rightarrow> nat \<Rightarrow> 's \<Rightarrow> 's"
    and ok :: "'s \<Rightarrow> bool"
  assumes less_iff: "ok h \<Longrightarrow> i < length (times h) \<Longrightarrow> j < length (times h) \<Longrightarrow>
      Less h i j \<longleftrightarrow> times h ! i < times h ! j"
    and times_swap: "ok h \<Longrightarrow> i < length (times h) \<Longrightarrow> j < length (times h) \<Longrightarrow>
      times (Swap i j h) = swap_at (times h) i j"
    and ok_swap: "ok h \<Longrightarrow> i < length (times h) \<Longrightarrow> j < length (times h) \<Longrightarrow> ok (Swap i j h)"
begin

text \<open>Whatever \<open>Swap\<close> keeps, the loops keep, for as long as the indices are in range.\<close>

lemma up_keeps:
  assumes "ok h" "j < n" "n \<le> length (times h)" "P h"
    and "\<And>h i j. ok h \<Longrightarrow> P h \<Longrightarrow> i < n \<Longrightarrow> j < n \<Longrightarrow> n \<le> length (times h) \<Longrightarrow> P (Swap i j h)"
  shows "ok (heap_up Less Swap j h) \<and> length (times (heap_up Less Swap j h)) = length (times h)
    \<and> P (heap_up Less Swap j h)"
  using assms(1-4)
proof (induction j arbitrary: h rule: less_induct)
  case (less j)
  note IH = less.IH and prems = less.prems
  show ?case
  proof (cases "parent j = j \<or> \<not> Less h j (parent j)")
    case True
    then show ?thesis using prems by (subst (1 2 3) heap_up.simps) (auto simp: Let_def)
  next
    case False
    then have lt: "parent j < j" using parent_less[of j] parent_eq_self[of j] by auto
    let ?h = "Swap (parent j) j h"
    have "ok ?h" "P ?h" "length (times ?h) = length (times h)"
      using ok_swap assms(5) times_swap prems lt by auto
    then show ?thesis using IH[OF lt, of ?h] lt prems False
      by (subst (1 2 3) heap_up.simps) (simp add: Let_def)
  qed
qed

lemma up_restores:
  assumes "ok h" "order_but_into (times h) n j" "j < n" "n \<le> length (times h)"
  shows "heap_order (times (heap_up Less Swap j h)) n"
  using assms
proof (induction j arbitrary: h rule: less_induct)
  case (less j)
  note IH = less.IH and prems = less.prems
  have inr: "j < length (times h)" using prems(3,4) by simp
  show ?case
  proof (cases "parent j = j \<or> \<not> Less h j (parent j)")
    case True
    have "edge (times h) j" if "0 < j"
    proof -
      have "parent j < j" using parent_less that by simp
      then have "\<not> times h ! j < times h ! parent j" using True less_iff[OF prems(1) inr] inr by auto
      then show ?thesis by (simp add: edge_def)
    qed
    then have "heap_order (times h) n"
      using prems(2) by (auto simp: heap_order_def order_but_into_def)
    then show ?thesis using True by (subst heap_up.simps) (simp add: Let_def)
  next
    case False
    then have lt: "parent j < j" "0 < j" using parent_less[of j] parent_eq_self[of j] by auto
    let ?h = "Swap (parent j) j h"
    have t: "times ?h = swap_at (times h) (parent j) j" "ok ?h"
      using times_swap[OF prems(1)] ok_swap[OF prems(1)] lt inr by auto
    have "times h ! j < times h ! parent j" using less_iff[OF prems(1) inr] lt inr False by simp
    then have "order_but_into (times ?h) n (parent j)"
      using up_step[OF prems(2) lt(2) prems(3,4)] t(1) by simp
    then show ?thesis using IH[OF lt(1) t(2)] t(1) lt prems(3,4) False
      by (subst heap_up.simps) (simp add: Let_def)
  qed
qed

lemma down_keeps:
  assumes "ok h" "n \<le> length (times h)" "P h"
    and "\<And>h i j. ok h \<Longrightarrow> P h \<Longrightarrow> i < n \<Longrightarrow> j < n \<Longrightarrow> n \<le> length (times h) \<Longrightarrow> P (Swap i j h)"
  shows "ok (fst (heap_down Less Swap n i h)) \<and> length (times (fst (heap_down Less Swap n i h))) = length (times h)
    \<and> P (fst (heap_down Less Swap n i h))"
  using assms(1-3)
proof (induction "n - i" arbitrary: i h rule: less_induct)
  case (less i)
  note IH = less.hyps and prems = less.prems
  let ?j = "smaller_child Less n i h"
  show ?case
  proof (cases "2 * i + 1 \<ge> n \<or> \<not> Less h ?j i")
    case True
    then have "heap_down Less Swap n i h = (h, False)" by (rule heap_down_stays)
    then show ?thesis using prems by simp
  next
    case False
    then have lt: "i < ?j" "?j < n" using smaller_child_bounds[of i n Less h] by auto
    let ?h = "Swap i ?j h"
    have "ok ?h" "P ?h" "length (times ?h) = length (times h)"
      using ok_swap[of h i ?j] assms(4)[of h i ?j] times_swap[of h i ?j] prems lt by auto
    moreover have "fst (heap_down Less Swap n i h) = fst (heap_down Less Swap n ?j ?h)"
      using heap_down_moves[where Less = Less and Swap = Swap, OF False] by simp
    moreover have "n - ?j < n - i" using lt by linarith
    ultimately show ?thesis using IH[of ?j ?h] prems(2) by simp
  qed
qed

lemma down_restores:
  assumes "ok h" "order_but_around (times h) n i" "n \<le> length (times h)"
  shows "(snd (heap_down Less Swap n i h) \<longrightarrow> heap_order (times (fst (heap_down Less Swap n i h))) n)
    \<and> (\<not> snd (heap_down Less Swap n i h) \<longrightarrow>
         fst (heap_down Less Swap n i h) = h \<and> order_but_into (times h) n i)"
  using assms
proof (induction "n - i" arbitrary: i h rule: less_induct)
  case (less i)
  note IH = less.hyps and prems = less.prems
  let ?j = "smaller_child Less n i h"
  have small: "times h ! ?j \<le> times h ! c" if "2 * i + 1 < n" "0 < c" "c < n" "parent c = i" for c
    using that parent_children[of c i] less_iff[OF prems(1), of "2 * i + 1 + 1" "2 * i + 1"] prems(3)
    by (auto simp: smaller_child_def)
  show ?case
  proof (cases "2 * i + 1 \<ge> n \<or> \<not> Less h ?j i")
    case True
    then have same: "heap_down Less Swap n i h = (h, False)" by (rule heap_down_stays)
    have "edge (times h) c" if c: "0 < c" "c < n" "parent c = i" for c
    proof -
      have in_n: "2 * i + 1 < n" using parent_children[of c i] c by auto
      then have "?j < n" "i < n" using smaller_child_bounds[of i n Less h] by auto
      then have "times h ! i \<le> times h ! ?j" using True in_n less_iff[OF prems(1), of ?j i] prems(3) by auto
      then show ?thesis using small[OF in_n c] c by (simp add: edge_def)
    qed
    then have "order_but_into (times h) n i" using prems(2) by (auto simp: order_but_into_def order_but_around_def)
    then show ?thesis using same by simp
  next
    case False
    then have lt: "i < ?j" "?j < n" "0 < ?j" "parent ?j = i"
      using smaller_child_bounds[of i n Less h] by (auto simp: parent_def)
    let ?h = "Swap i ?j h"
    have t: "times ?h = swap_at (times h) i ?j" "ok ?h"
      using times_swap[OF prems(1)] ok_swap[OF prems(1)] lt prems(3) by auto
    have "times h ! ?j < times h ! i" using False less_iff[OF prems(1), of ?j i] lt prems(3) by auto
    from down_step[OF prems(2) lt(3,2) prems(3) lt(4) this]
    have step: "order_but_around (times ?h) n ?j" "edge (times ?h) ?j" using small False t(1) by auto
    have "n - ?j < n - i" using lt by linarith
    note ih = IH[OF this t(2) step(1)]
    have "heap_order (times (fst (heap_down Less Swap n ?j ?h))) n"
      using ih step(2) t(1) prems(3)
      by (cases "snd (heap_down Less Swap n ?j ?h)") (auto simp: order_but_into_def heap_order_def)
    moreover have "heap_down Less Swap n i h = (fst (heap_down Less Swap n ?j ?h), True)"
      using False by (rule heap_down_moves)
    ultimately show ?thesis by simp
  qed
qed

lemma sift_restores:
  assumes "ok h" "order_but_around (times h) n i" "i < n" "n \<le> length (times h)"
  shows "heap_order (times (heap_sift Less Swap n i h)) n"
  using down_restores[OF assms(1,2,4)] up_restores[OF assms(1) _ assms(3,4)]
  by (auto simp: heap_sift_def split: prod.split)

lemma sift_keeps:
  assumes "ok h" "i < n" "n \<le> length (times h)" "P h"
    and "\<And>h i j. ok h \<Longrightarrow> P h \<Longrightarrow> i < n \<Longrightarrow> j < n \<Longrightarrow> n \<le> length (times h) \<Longrightarrow> P (Swap i j h)"
  shows "ok (heap_sift Less Swap n i h) \<and> length (times (heap_sift Less Swap n i h)) = length (times h)
    \<and> P (heap_sift Less Swap n i h)"
  using down_keeps[where P = P, OF assms(1,3,4,5), of i] up_keeps[where P = P and j = i and n = n] assms(2-5)
  by (fastforce simp: heap_sift_def split: prod.split)

lemma fix_restores:
  assumes "ok h" "order_but_around (times h) (length (times h)) i" "i < length (times h)"
  shows "heap_order (times (heap_Fix (\<lambda>h. length (times h)) Less Swap i h)) (length (times h))"
  unfolding heap_Fix_def by (intro sift_restores assms order_refl)

lemma fix_keeps:
  assumes "ok h" "i < length (times h)" "P h"
    and "\<And>h i j. ok h \<Longrightarrow> P h \<Longrightarrow> i < length (times h) \<Longrightarrow> j < length (times h) \<Longrightarrow> P (Swap i j h)"
  shows "ok (heap_Fix (\<lambda>h. length (times h)) Less Swap i h) \<and> P (heap_Fix (\<lambda>h. length (times h)) Less Swap i h)
    \<and> length (times (heap_Fix (\<lambda>h. length (times h)) Less Swap i h)) = length (times h)"
  using sift_keeps[where P = P, OF assms(1,2) order_refl assms(3)] assms(4) by (simp add: heap_Fix_def)

text \<open>Taking an element out: it trades places with the last one, which then finds its place.\<close>

lemma swapped_out:
  assumes "heap_order xs (length xs)" "Suc n = length xs" "i < n"
  shows "order_but_around (swap_at xs i n) n i"
proof -
  have nth: "swap_at xs i n ! k = (if k = i then xs ! n else if k = n then xs ! i else xs ! k)" for k
    using assms(2,3) by (intro swap_at_nth) auto
  have e: "\<And>c. 0 < c \<Longrightarrow> c \<le> n \<Longrightarrow> xs ! parent c \<le> xs ! c"
    using assms(1,2) by (auto simp: heap_order_def edge_def)
  have "edge (swap_at xs i n) c" if "0 < c" "c < n" "c \<noteq> i" "parent c \<noteq> i" for c
    using e[of c] that parent_less[OF that(1)] by (auto simp: edge_def nth)
  moreover have "swap_at xs i n ! parent i \<le> swap_at xs i n ! c" if "0 < c" "c < n" "parent c = i" "0 < i" for c
    using e[of c] e[of i] that assms(3) parent_less[OF that(1)] parent_less[OF that(4)] by (auto simp: nth)
  ultimately show ?thesis by (auto simp: order_but_around_def bridged_def)
qed

lemma remove_restores:
  assumes "ok h" "heap_order (times h) (length (times h))" "Suc n = length (times h)" "i < n"
  shows "heap_order (times (heap_sift Less Swap n i (Swap i n h))) n"
  using sift_restores[of "Swap i n h" n i] ok_swap[OF assms(1), of i n] times_swap[OF assms(1), of i n]
    swapped_out[OF assms(2-4)] assms(3,4) by simp

end

end
