(* ===== verification/Rate_Limiter.thy ===== *)
theory Rate_Limiter
  imports Go_Heap Go_Strings
begin

text \<open>
  \<open>internal/protection/ratelimit/limiter.go\<close>: the sharded fixed-window rate limiter. A
  \<open>*bucket\<close> is named by its key: a bucket is created only for a key without one and leaves the
  key map and the expiry heap together, so the heap holds keys and the map the bucket itself.
  Every operation runs under its shard's mutex and reads the clock once, so an operation is a
  function of the clock reading and a run is a sequence of calls.
\<close>

unbundle bit_operations_syntax

subsection \<open>State\<close>

record RateLimitProfile =
  rp_Requests :: int
  rp_Window :: duration
  rp_Burst :: int

record bucket =
  bk_key :: string
  bk_windowStart :: "Prelude.time"
  bk_count :: int
  bk_heapIndex :: int

record limiterShard =
  sh_keys :: "string \<rightharpoonup> bucket"
  sh_expirations :: "string list"

record Limiter =
  lm_enabled :: bool
  lm_requests :: int
  lm_window :: duration
  lm_burst :: int
  lm_maxKeys :: int
  lm_shards :: "limiterShard list"

definition defaultShards :: nat where "defaultShards = 32"

definition defaultMaxKeys :: int where "defaultMaxKeys = 100000"

definition evictionBudget :: nat where "evictionBudget = 8"

text \<open>Signed 64-bit arithmetic of Go's \<open>int\<close>.\<close>

definition wrap_int64 :: "int \<Rightarrow> int" where
  "wrap_int64 x = (x + 2 ^ 63) mod 2 ^ 64 - 2 ^ 63"

subsection \<open>The expiry heap\<close>

definition nil_bucket :: bucket where
  "nil_bucket = \<lparr>bk_key = [], bk_windowStart = 0, bk_count = 0, bk_heapIndex = 0\<rparr>"

definition bucket_of :: "limiterShard \<Rightarrow> string \<Rightarrow> bucket" where
  "bucket_of sh k = lookup_or nil_bucket (sh_keys sh) k"

definition set_heapIndex :: "string \<Rightarrow> int \<Rightarrow> limiterShard \<Rightarrow> limiterShard" where
  "set_heapIndex k i sh = sh\<lparr>sh_keys := (sh_keys sh)(k \<mapsto> (bucket_of sh k)\<lparr>bk_heapIndex := i\<rparr>)\<rparr>"

definition heap_Len :: "limiterShard \<Rightarrow> nat" where
  "heap_Len sh = length (sh_expirations sh)"

definition heap_Less :: "limiterShard \<Rightarrow> nat \<Rightarrow> nat \<Rightarrow> bool" where
  "heap_Less sh i j \<longleftrightarrow> bk_windowStart (bucket_of sh (sh_expirations sh ! i))
     < bk_windowStart (bucket_of sh (sh_expirations sh ! j))"

definition heap_Swap :: "nat \<Rightarrow> nat \<Rightarrow> limiterShard \<Rightarrow> limiterShard" where
  "heap_Swap i j sh =
     (let h = swap_at (sh_expirations sh) i j
      in set_heapIndex (h ! j) (int j) (set_heapIndex (h ! i) (int i) (sh\<lparr>sh_expirations := h\<rparr>)))"

definition bucket_Push :: "string \<Rightarrow> limiterShard \<Rightarrow> limiterShard" where
  "bucket_Push k sh =
     (let sh' = set_heapIndex k (int (heap_Len sh)) sh
      in sh'\<lparr>sh_expirations := sh_expirations sh' @ [k]\<rparr>)"

definition bucket_Pop :: "limiterShard \<Rightarrow> limiterShard" where
  "bucket_Pop sh =
     (let sh' = set_heapIndex (last (sh_expirations sh)) (- 1) sh
      in sh'\<lparr>sh_expirations := butlast (sh_expirations sh')\<rparr>)"

subsection \<open>Construction\<close>

definition empty_shard :: limiterShard where
  "empty_shard = \<lparr>sh_keys = Map.empty, sh_expirations = []\<rparr>"

definition New :: "RateLimitProfile \<Rightarrow> bool \<Rightarrow> Limiter" where
  "New p enabled =
     (let requests = (if rp_Requests p \<le> 0 then 100 else rp_Requests p);
          window = (if rp_Window p \<le> 0 then go_minute else rp_Window p);
          burst = (if rp_Burst p < 0 then requests else rp_Burst p)
      in \<lparr>lm_enabled = enabled, lm_requests = requests, lm_window = window, lm_burst = burst,
          lm_maxKeys = defaultMaxKeys, lm_shards = replicate defaultShards empty_shard\<rparr>)"

definition WithMaxKeys :: "int \<Rightarrow> Limiter option \<Rightarrow> Limiter option" where
  "WithMaxKeys n l = map_option (\<lambda>m. if n > 0 then m\<lparr>lm_maxKeys := n\<rparr> else m) l"

subsection \<open>Sharding\<close>

definition fnvOffset :: "32 word" where "fnvOffset = 2166136261"

definition fnvPrime :: "32 word" where "fnvPrime = 16777619"

definition fnv1a :: "string \<Rightarrow> 32 word" where
  "fnv1a key = foldl (\<lambda>h c. (h XOR of_int (byte c)) * fnvPrime) fnvOffset key"

definition shard_index :: "nat \<Rightarrow> string \<Rightarrow> nat" where
  "shard_index n key = unat (fnv1a key) mod n"

definition perShardCap :: "Limiter \<Rightarrow> int" where
  "perShardCap l =
     (let n = (if length (lm_shards l) < 1 then 1 else int (length (lm_shards l)));
          capPer = lm_maxKeys l div n
      in if capPer < 64 then 64 else capPer)"

subsection \<open>Operations\<close>

fun expire_loop :: "nat \<Rightarrow> duration \<Rightarrow> Prelude.time \<Rightarrow> limiterShard \<Rightarrow> limiterShard" where
  "expire_loop 0 window now sh = sh"
| "expire_loop (Suc n) window now sh =
     (if sh_expirations sh = [] then sh
      else let b = bucket_of sh (sh_expirations sh ! 0) in
        if time_sub now (bk_windowStart b) < window then sh
        else let sh' = heap_Pop heap_Len heap_Less heap_Swap bucket_Pop sh
          in expire_loop n window now (sh'\<lparr>sh_keys := (sh_keys sh')(bk_key b := None)\<rparr>))"

definition expireLocked :: "Limiter \<Rightarrow> Prelude.time \<Rightarrow> limiterShard \<Rightarrow> limiterShard" where
  "expireLocked l now sh = expire_loop evictionBudget (lm_window l) now sh"

text \<open>The part of \<open>Allow\<close> that runs under the shard's lock.\<close>

definition allow_locked :: "Limiter \<Rightarrow> Prelude.time \<Rightarrow> string \<Rightarrow> limiterShard \<Rightarrow> bool \<times> limiterShard" where
  "allow_locked l now key sh0 =
     (let sh = expireLocked l now sh0; capPer = perShardCap l in
      case sh_keys sh key of
        None \<Rightarrow>
          if int (map_len (sh_keys sh)) \<ge> capPer then (False, sh)
          else let b = \<lparr>bk_key = key, bk_windowStart = now, bk_count = 1, bk_heapIndex = 0\<rparr>
            in (True, heap_Push heap_Len heap_Less heap_Swap bucket_Push key
                        (sh\<lparr>sh_keys := (sh_keys sh)(key \<mapsto> b)\<rparr>))
      | Some b \<Rightarrow>
          if time_sub now (bk_windowStart b) \<ge> lm_window l then
            (True, heap_Fix heap_Len heap_Less heap_Swap (nat (bk_heapIndex b))
                     (sh\<lparr>sh_keys := (sh_keys sh)(key \<mapsto> b\<lparr>bk_windowStart := now, bk_count := 1\<rparr>)\<rparr>))
          else if bk_count b \<ge> wrap_int64 (lm_requests l + lm_burst l) then (False, sh)
          else (True, sh\<lparr>sh_keys := (sh_keys sh)(key \<mapsto> b\<lparr>bk_count := bk_count b + 1\<rparr>)\<rparr>))"

definition Allow :: "Prelude.time \<Rightarrow> string \<Rightarrow> Limiter option \<Rightarrow> bool \<times> Limiter option" where
  "Allow now key lo =
     (case lo of
        None \<Rightarrow> (True, None)
      | Some l \<Rightarrow>
          if \<not> lm_enabled l \<or> key = [] then (True, Some l)
          else let i = shard_index (length (lm_shards l)) key;
                   (granted, sh) = allow_locked l now key (lm_shards l ! i)
            in (granted, Some (l\<lparr>lm_shards := (lm_shards l)[i := sh]\<rparr>)))"

definition Snapshot :: "Prelude.time \<Rightarrow> Limiter option \<Rightarrow> (string \<rightharpoonup> int) \<times> Limiter option" where
  "Snapshot now lo =
     (case lo of
        None \<Rightarrow> (Map.empty, None)
      | Some l \<Rightarrow>
          let shards = map (expireLocked l now) (lm_shards l);
              out = foldl (\<lambda>m sh. m ++ (\<lambda>k. map_option bk_count (sh_keys sh k))) Map.empty shards
          in (out, Some (l\<lparr>lm_shards := shards\<rparr>)))"

definition KeyCount :: "Limiter option \<Rightarrow> int" where
  "KeyCount lo = (case lo of
     None \<Rightarrow> 0 | Some l \<Rightarrow> sum_list (map (\<lambda>sh. int (map_len (sh_keys sh))) (lm_shards l)))"

end
