(* ===== verification/Traffic.thy ===== *)
theory Traffic
  imports Rate_Limiter Go_Net "HOL-Library.List_Lexorder"
begin

text \<open>
  \<open>internal/cluster/traffic\<close>: the choice of a cluster peer for a request (\<open>scheduler.go\<close>) with
  circuit breaking, pressure demotion and stickiness (\<open>advanced.go\<close>). Every operation but
  \<open>PickAdvanced\<close> runs under the scheduler's mutex from start to end and reads the clock once. \<open>PickAdvanced\<close> takes the mutex for \<open>FilterHealthy\<close> and again for \<open>Pick\<close>:
  the definition composes the two, and the runs of \<open>Traffic_Properties\<close> take its halves as separate steps.
  (A pruning report reads the clock a second time; the model uses one reading.) Go's \<open>strings.EqualFold\<close> is an argument of the
  region choice; the order in which Go ranges over a map is an argument of the pruning. The scheduler is never
  nil; \<open>sort.Slice\<close> leaves the order of peers with equal identifiers open and the model keeps theirs.
\<close>

subsection \<open>State\<close>

definition ModeRoundRobin :: string where "ModeRoundRobin = ''round_robin''"
definition ModeWeighted :: string where "ModeWeighted = ''weighted''"
definition ModeIPHash :: string where "ModeIPHash = ''ip_hash''"
definition ModeLeastConn :: string where "ModeLeastConn = ''least_conn''"
definition ModeRegionPref :: string where "ModeRegionPref = ''region_prefer''"
definition ModeSticky :: string where "ModeSticky = ''sticky''"

record RuntimeNodeStatus =
  ns_NodeID :: string
  ns_Role :: string
  ns_AdvertiseAddr :: string
  ns_Region :: string
  ns_Datacenter :: string
  ns_State :: string
  ns_Local :: bool
  ns_LastHeartbeatAt :: "Prelude.time option"
  ns_LastSeenAgoSeconds :: int
  ns_ConfigVersion :: string
  ns_CanReceiveTraffic :: bool
  ns_CanWriteConfig :: bool
  ns_Reason :: string

record Peer =
  pe_NodeID :: string
  pe_AdvertiseAddr :: string
  pe_Region :: string
  pe_Weight :: int
  pe_Online :: bool
  pe_CanReceive :: bool

record circuitState =
  cs_failures :: int
  cs_openedAt :: "Prelude.time"
  cs_probeAt :: "Prelude.time"

record Scheduler =
  sc_rr :: int
  sc_inflight :: "string \<rightharpoonup> int"
  sc_circuits :: "string \<rightharpoonup> circuitState"
  sc_circuitFailures :: int
  sc_circuitOpenFor :: duration
  sc_pressureLimit :: int

record AdvancedOptions =
  ao_CircuitFailures :: int
  ao_CircuitOpenFor :: duration
  ao_PressureLimit :: int

definition defaultCircuitFailures :: int where "defaultCircuitFailures = 3"
definition defaultCircuitOpenFor :: duration where "defaultCircuitOpenFor = 30 * go_second"
definition defaultPressureLimit :: int where "defaultPressureLimit = 32"
definition maxCircuitMapSize :: int where "maxCircuitMapSize = 1000"

definition ensureAdvanced :: "Scheduler \<Rightarrow> Scheduler" where
  "ensureAdvanced s = s\<lparr>
     sc_pressureLimit := (if sc_pressureLimit s \<le> 0 then defaultPressureLimit else sc_pressureLimit s),
     sc_circuitFailures := (if sc_circuitFailures s \<le> 0 then defaultCircuitFailures else sc_circuitFailures s),
     sc_circuitOpenFor := (if sc_circuitOpenFor s \<le> 0 then defaultCircuitOpenFor else sc_circuitOpenFor s)\<rparr>"

definition NewScheduler :: Scheduler where
  "NewScheduler = ensureAdvanced \<lparr>sc_rr = 0, sc_inflight = Map.empty, sc_circuits = Map.empty,
     sc_circuitFailures = 0, sc_circuitOpenFor = 0, sc_pressureLimit = 0\<rparr>"

definition ConfigureAdvanced :: "AdvancedOptions \<Rightarrow> Scheduler \<Rightarrow> Scheduler" where
  "ConfigureAdvanced opts s = ensureAdvanced (s\<lparr>
     sc_circuitFailures := (if ao_CircuitFailures opts > 0 then ao_CircuitFailures opts else sc_circuitFailures s),
     sc_circuitOpenFor := (if ao_CircuitOpenFor opts > 0 then ao_CircuitOpenFor opts else sc_circuitOpenFor s),
     sc_pressureLimit := (if ao_PressureLimit opts > 0 then ao_PressureLimit opts else sc_pressureLimit s)\<rparr>)"

subsection \<open>Eligible peers\<close>

definition eligible :: "RuntimeNodeStatus \<Rightarrow> bool" where
  "eligible node \<longleftrightarrow> \<not> (trim_space (ns_Role node) \<noteq> [] \<and> ns_Role node \<noteq> ''waf'')
     \<and> \<not> (ns_State node \<noteq> ''online'' \<or> \<not> ns_CanReceiveTraffic node) \<and> trim_space (ns_AdvertiseAddr node) \<noteq> []"

definition peer_of :: "RuntimeNodeStatus \<Rightarrow> Peer" where
  "peer_of node = \<lparr>pe_NodeID = ns_NodeID node, pe_AdvertiseAddr = trim_space (ns_AdvertiseAddr node),
     pe_Region = ns_Region node, pe_Weight = 4, pe_Online = True, pe_CanReceive = True\<rparr>"

definition EligiblePeers :: "RuntimeNodeStatus list \<Rightarrow> Peer list" where
  "EligiblePeers nodes = sort_key (\<lambda>p. map byte (pe_NodeID p)) (map peer_of (filter eligible nodes))"

subsection \<open>Picking\<close>

definition pickIPHash :: "Peer list \<Rightarrow> string \<Rightarrow> Peer" where
  "pickIPHash peers clientIP =
     (if clientIP = [] then peers ! 0
      else let host = (case SplitHostPort clientIP of Some h \<Rightarrow> h | None \<Rightarrow> clientIP)
        in peers ! (unat (fnv1a host) mod length peers))"

definition pickRoundRobin :: "Peer list \<Rightarrow> Scheduler \<Rightarrow> Peer \<times> Scheduler" where
  "pickRoundRobin peers s =
     (let rr = (if sc_rr s < 0 then 0 else sc_rr s)
      in (peers ! nat (rr mod int (length peers)), s\<lparr>sc_rr := wrap_int64 (rr + 1)\<rparr>))"

definition expand_weights :: "Peer list \<Rightarrow> Peer list" where
  "expand_weights peers =
     concat (map (\<lambda>p. replicate (nat (if pe_Weight p \<le> 0 then 1 else pe_Weight p)) p) peers)"

definition pickWeightedRoundRobin :: "Peer list \<Rightarrow> Scheduler \<Rightarrow> Peer \<times> Scheduler" where
  "pickWeightedRoundRobin peers s = pickRoundRobin (expand_weights peers) s"

definition load_of :: "Scheduler \<Rightarrow> Peer \<Rightarrow> int" where
  "load_of s p = lookup_or 0 (sc_inflight s) (pe_NodeID p)"

definition pickLeastConn :: "Scheduler \<Rightarrow> Peer list \<Rightarrow> Peer" where
  "pickLeastConn s peers = foldl (\<lambda>best p.
     if load_of s p < load_of s best
        \<or> (load_of s p = load_of s best \<and> map byte (pe_NodeID p) < map byte (pe_NodeID best))
     then p else best) (hd peers) (tl peers)"

definition pickRegionPrefer :: "(string \<Rightarrow> string \<Rightarrow> bool) \<Rightarrow> Peer list \<Rightarrow> string \<Rightarrow> string \<Rightarrow> Peer" where
  "pickRegionPrefer equalFold peers preferRegion0 clientIP =
     (let preferRegion = trim_space preferRegion0;
          near = filter (\<lambda>p. equalFold (pe_Region p) preferRegion) peers
      in if preferRegion \<noteq> [] \<and> near \<noteq> [] then pickIPHash near clientIP else pickIPHash peers clientIP)"

definition Pick ::
    "(string \<Rightarrow> string \<Rightarrow> bool) \<Rightarrow> string \<Rightarrow> Peer list \<Rightarrow> string \<Rightarrow> string \<Rightarrow> Scheduler \<Rightarrow> Peer option \<times> Scheduler" where
  "Pick equalFold mode0 peers clientIP preferRegion s =
     (if peers = [] then (None, s)
      else let mode1 = trim_space (to_lower mode0); mode = (if mode1 = [] then ModeRoundRobin else mode1) in
        if mode = ModeIPHash then (Some (pickIPHash peers clientIP), s)
        else if mode = ModeLeastConn then (Some (pickLeastConn s peers), s)
        else if mode = ModeRegionPref then (Some (pickRegionPrefer equalFold peers preferRegion clientIP), s)
        else if mode = ModeWeighted then map_prod Some id (pickWeightedRoundRobin peers s)
        else map_prod Some id (pickRoundRobin peers s))"

definition traffic_Acquire :: "string \<Rightarrow> Scheduler \<Rightarrow> Scheduler" where
  "traffic_Acquire node s = s\<lparr>sc_inflight := (sc_inflight s)(node \<mapsto> lookup_or 0 (sc_inflight s) node + 1)\<rparr>"

definition traffic_Release :: "string \<Rightarrow> Scheduler \<Rightarrow> Scheduler" where
  "traffic_Release node s =
     (if lookup_or 0 (sc_inflight s) node > 0
      then s\<lparr>sc_inflight := (sc_inflight s)(node \<mapsto> lookup_or 0 (sc_inflight s) node - 1)\<rparr> else s)"

subsection \<open>Circuits\<close>

definition prune_old :: "Prelude.time \<Rightarrow> Scheduler \<Rightarrow> string \<Rightarrow> (string \<rightharpoonup> circuitState) \<Rightarrow> (string \<rightharpoonup> circuitState)" where
  "prune_old now s node m =
     (case m node of
        None \<Rightarrow> m
      | Some st \<Rightarrow>
          if \<not> is_zero_time (cs_openedAt st) \<and> time_sub now (cs_openedAt st) \<ge> wrap_int64 (sc_circuitOpenFor s * 2)
          then m(node := None) else m)"

fun prune_any :: "string list \<Rightarrow> (string \<rightharpoonup> circuitState) \<Rightarrow> (string \<rightharpoonup> circuitState)" where
  "prune_any [] m = m"
| "prune_any (node # order) m =
     (if m node = None then prune_any order m
      else let m' = m(node := None) in
        if int (map_len m') < maxCircuitMapSize div 2 then m' else prune_any order m')"

text \<open>
  The two loops range over the map, each in an order of Go's choosing: a list that
  enumerates the keys. A key deleted before it is reached is not visited.
\<close>

definition pruneOldCircuits :: "Prelude.time \<Rightarrow> string list \<Rightarrow> string list \<Rightarrow> Scheduler \<Rightarrow> Scheduler" where
  "pruneOldCircuits now order1 order2 s =
     (if int (map_len (sc_circuits s)) < maxCircuitMapSize then s
      else let m = fold (prune_old now s) order1 (sc_circuits s)
        in s\<lparr>sc_circuits := (if int (map_len m) \<ge> maxCircuitMapSize then prune_any order2 m else m)\<rparr>)"

definition zero_circuit :: circuitState where
  "zero_circuit = \<lparr>cs_failures = 0, cs_openedAt = zero_time, cs_probeAt = zero_time\<rparr>"

definition ReportFailure :: "Prelude.time \<Rightarrow> string list \<Rightarrow> string list \<Rightarrow> string \<Rightarrow> Scheduler \<Rightarrow> Scheduler" where
  "ReportFailure now order1 order2 node s0 =
     (if trim_space node = [] then s0
      else let s1 = ensureAdvanced s0;
               s = (if int (map_len (sc_circuits s1)) \<ge> maxCircuitMapSize then pruneOldCircuits now order1 order2 s1 else s1);
               st = lookup_or zero_circuit (sc_circuits s) node;
               st1 = st\<lparr>cs_failures := cs_failures st + 1\<rparr>;
               st2 = (if cs_failures st1 \<ge> sc_circuitFailures s
                      then st1\<lparr>cs_openedAt := now, cs_probeAt := zero_time\<rparr> else st1)
        in s\<lparr>sc_circuits := (sc_circuits s)(node \<mapsto> st2)\<rparr>)"

definition ReportSuccess :: "string \<Rightarrow> Scheduler \<Rightarrow> Scheduler" where
  "ReportSuccess node s =
     (if trim_space node = [] then s else s\<lparr>sc_circuits := (sc_circuits s)(node := None)\<rparr>)"

definition pressure_weight :: "Scheduler \<Rightarrow> Peer \<Rightarrow> int" where
  "pressure_weight s p =
     (let w = (if pe_Weight p \<le> 0 then 1 else pe_Weight p); load = load_of s p in
      if sc_pressureLimit s > 0 \<and> load \<ge> sc_pressureLimit s then 1
      else if sc_pressureLimit s > 0 \<and> load > sc_pressureLimit s div 2 then (if w > 1 then w div 2 else w)
      else w)"

definition circuit_skips :: "Prelude.time \<Rightarrow> Scheduler \<Rightarrow> circuitState \<Rightarrow> bool" where
  "circuit_skips now s st \<longleftrightarrow> \<not> is_zero_time (cs_openedAt st)
     \<and> (time_sub now (cs_openedAt st) < sc_circuitOpenFor s
        \<or> (\<not> is_zero_time (cs_probeAt st) \<and> time_sub now (cs_probeAt st) < sc_circuitOpenFor s))"

definition reserve_probe :: "Prelude.time \<Rightarrow> string \<Rightarrow> Scheduler \<Rightarrow> Scheduler" where
  "reserve_probe now node s =
     (case sc_circuits s node of
        None \<Rightarrow> s
      | Some st \<Rightarrow>
          if is_zero_time (cs_openedAt st) then s
          else s\<lparr>sc_circuits := (sc_circuits s)(node \<mapsto> st\<lparr>cs_probeAt := now\<rparr>)\<rparr>)"

fun filter_loop :: "Prelude.time \<Rightarrow> Peer list \<Rightarrow> Scheduler \<Rightarrow> Peer list \<times> Scheduler" where
  "filter_loop now [] s = ([], s)"
| "filter_loop now (p # ps) s =
     (if (case sc_circuits s (pe_NodeID p) of None \<Rightarrow> False | Some st \<Rightarrow> circuit_skips now s st)
      then filter_loop now ps s
      else let s1 = reserve_probe now (pe_NodeID p) s; (out, s2) = filter_loop now ps s1
        in (p\<lparr>pe_Weight := pressure_weight s1 p\<rparr> # out, s2))"

definition FilterHealthy :: "Prelude.time \<Rightarrow> Peer list \<Rightarrow> Scheduler \<Rightarrow> Peer list \<times> Scheduler" where
  "FilterHealthy now peers s = (if peers = [] then (peers, s) else filter_loop now peers (ensureAdvanced s))"

text \<open>\<open>PickAdvanced\<close> after its call of \<open>FilterHealthy\<close>.\<close>

definition pick_filtered ::
    "(string \<Rightarrow> string \<Rightarrow> bool) \<Rightarrow> string \<Rightarrow> Peer list \<Rightarrow> string \<Rightarrow> string \<Rightarrow> string
       \<Rightarrow> Scheduler \<Rightarrow> Peer option \<times> Scheduler" where
  "pick_filtered equalFold mode0 filtered clientIP preferRegion stickyKey s =
     (if filtered = [] then (None, s)
      else let mode = trim_space (to_lower mode0) in
        if mode = ModeSticky \<or> mode = ''session'' then
          (let key0 = trim_space stickyKey; key = (if key0 = [] then clientIP else key0)
           in (Some (pickIPHash filtered key), s))
        else Pick equalFold mode filtered clientIP preferRegion s)"

definition PickAdvanced ::
    "(string \<Rightarrow> string \<Rightarrow> bool) \<Rightarrow> Prelude.time \<Rightarrow> string \<Rightarrow> Peer list \<Rightarrow> string \<Rightarrow> string \<Rightarrow> string
       \<Rightarrow> Scheduler \<Rightarrow> Peer option \<times> Scheduler" where
  "PickAdvanced equalFold now mode peers clientIP preferRegion stickyKey s =
     (case FilterHealthy now peers s of
        (filtered, s1) \<Rightarrow> pick_filtered equalFold mode filtered clientIP preferRegion stickyKey s1)"

end
