(* ===== verification/Cluster_Status.thy ===== *)
theory Cluster_Status
  imports Traffic
begin

text \<open>
  The cluster's view of itself: heartbeats and node states of \<open>internal/cluster/runtime.go\<close>,
  the status derived from them in \<open>status.go\<close>, and the built-in coordinator of
  \<open>consensus/builtin.go\<close>.

  A registry may be absent; the clock reading is an argument. The configuration is the part of
  it the code reads. The two languages of a message are its texts, the Chinese one as its UTF-8
  bytes. The verb \<open>%q\<close> is written out for ASCII names; it keeps a printable rune beyond
  ASCII as it is, and the model takes every such byte to belong to one.
\<close>

subsection \<open>Messages\<close>

definition is_zh :: "string \<Rightarrow> bool" where
  "is_zh lang = has_prefix lang ''zh''"

definition text_wait :: "bool \<Rightarrow> string" where
  "text_wait zh = (if zh then map char_of [231, 173, 137, 229, 190, 133, 232, 138, 130, 231, 130, 185, 229, 191, 131, 232, 183, 179 :: nat]
    else ''Waiting for node heartbeat'')"

definition text_local :: "bool \<Rightarrow> string" where
  "text_local zh = (if zh then map char_of [230, 156, 172, 230, 156, 186, 232, 138, 130, 231, 130, 185 :: nat]
    else ''Local node'')"

definition text_timeout :: "bool \<Rightarrow> string" where
  "text_timeout zh = (if zh then map char_of [232, 138, 130, 231, 130, 185, 229, 191, 131, 232, 183, 179, 232, 182, 133, 230, 151, 182 :: nat]
    else ''Node heartbeat timed out'')"

definition text_majority :: "bool \<Rightarrow> string" where
  "text_majority zh = (if zh then map char_of [231, 173, 137, 229, 190, 133, 229, 164, 154, 230, 149, 176, 232, 138, 130, 231, 130, 185, 229,
    191, 131, 232, 183, 179, 231, 161, 174, 232, 174, 164, 229, 144, 142, 229, 133, 129, 232, 174, 184, 233, 133,
    141, 231, 189, 174, 229, 143, 152, 230, 155, 180 :: nat]
    else ''Waiting for majority node heartbeats before allowing configuration writes'')"

definition text_builtin :: "bool \<Rightarrow> string" where
  "text_builtin zh = (if zh then map char_of [229, 164, 154, 232, 138, 130, 231, 130, 185, 230, 136, 150, 229, 133, 177, 228, 186, 171, 233,
    133, 141, 231, 189, 174, 233, 155, 134, 231, 190, 164, 229, 191, 133, 233, 161, 187, 228, 189, 191, 231, 148,
    168, 32, 101, 116, 99, 100, 239, 188, 155, 229, 134, 133, 231, 189, 174, 229, 133, 177, 232, 175, 134, 228,
    187, 133, 233, 153, 144, 229, 141, 149, 232, 138, 130, 231, 130, 185 :: nat]
    else ''Multi-node or shared-configuration clusters require etcd; builtin consensus is single-node only'')"

definition text_endpoints :: "bool \<Rightarrow> string" where
  "text_endpoints zh = (if zh then map char_of [229, 183, 178, 233, 128, 137, 230, 139, 169, 32, 101, 116, 99, 100, 32, 229, 133, 177, 232, 175,
    134, 239, 188, 140, 228, 189, 134, 230, 156, 170, 233, 133, 141, 231, 189, 174, 230, 156, 137, 230, 149, 136,
    231, 171, 175, 231, 130, 185 :: nat]
    else ''etcd consensus is selected but no valid endpoints are configured'')"

definition text_external :: "bool \<Rightarrow> string" where
  "text_external zh = (if zh then map char_of [230, 156, 170, 233, 133, 141, 231, 189, 174, 229, 164, 150, 233, 131, 168, 32, 101, 116, 99, 100,
    32, 229, 141, 143, 232, 176, 131, 229, 153, 168, 239, 188, 155, 230, 139, 146, 231, 187, 157, 229, 155, 158,
    233, 128, 128, 229, 136, 176, 229, 134, 133, 231, 189, 174, 229, 191, 131, 232, 183, 179, 233, 128, 137, 228,
    184, 187 :: nat]
    else ''etcd consensus requires an etcd-backed coordinator; refusing builtin heartbeat election'')"

definition text_provider :: "bool \<Rightarrow> string" where
  "text_provider zh = (if zh then map char_of [233, 155, 134, 231, 190, 164, 229, 133, 177, 232, 175, 134, 230, 143, 144, 228, 190, 155, 231,
    168, 139, 229, 186, 143, 230, 156, 170, 233, 133, 141, 231, 189, 174, 230, 136, 150, 228, 184, 141, 229, 143,
    151, 230, 148, 175, 230, 140, 129 :: nat]
    else ''Cluster consensus provider is not configured or unsupported'')"

definition ModeLabel :: "string \<Rightarrow> string \<Rightarrow> string" where
  "ModeLabel mode lang =
     (let zh = is_zh lang in
      if mode \<in> {''single-node'', ''standalone''} then if zh then map char_of [229, 141, 149, 230, 156, 186, 230, 168, 161, 229, 188, 143 :: nat] else ''Standalone''
      else
      if mode = ''dual-node-load-balancing'' then if zh then map char_of [229, 143, 140, 232, 138, 130, 231, 130, 185, 232, 180, 159, 232, 189, 189, 229, 157, 135, 232,
        161, 161 :: nat] else ''Dual-node load balancing''
      else
      if mode = ''minimum-ha'' then if zh then map char_of [230, 156, 128, 229, 176, 143, 233, 171, 152, 229, 143, 175, 231, 148, 168 :: nat] else ''Minimum HA''
      else
      if mode = ''multi-node-ha'' then if zh then map char_of [229, 164, 154, 232, 138, 130, 231, 130, 185, 233, 171, 152, 229, 143, 175, 231, 148, 168 :: nat] else ''Multi-node HA''
      else
      if mode = ''protection'' then if zh then map char_of [228, 191, 157, 230, 138, 164, 230, 168, 161, 229, 188, 143 :: nat] else ''Protection mode''
      else
      if zh then map char_of [229, 136, 157, 229, 167, 139, 229, 140, 150, 228, 184, 173 :: nat] else ''Initializing'')"

subsection \<open>Heartbeats\<close>

record Heartbeat =
  hb_NodeID :: string
  hb_Role :: string
  hb_AdvertiseAddr :: string
  hb_ConfigVersion :: string
  hb_CanReceiveTraffic :: bool
  hb_CanReceiveTrafficSet :: bool
  hb_CanWriteConfig :: bool
  hb_CanWriteConfigSet :: bool
  hb_RecordedAt :: time

definition zero_Heartbeat :: Heartbeat where
  "zero_Heartbeat = \<lparr>hb_NodeID = [], hb_Role = [], hb_AdvertiseAddr = [], hb_ConfigVersion = [],
     hb_CanReceiveTraffic = False, hb_CanReceiveTrafficSet = False, hb_CanWriteConfig = False,
     hb_CanWriteConfigSet = False, hb_RecordedAt = zero_time\<rparr>"

record HeartbeatRegistry =
  hr_ttl :: duration
  hr_records :: "string \<rightharpoonup> Heartbeat"

definition DefaultHeartbeatTTL :: duration where
  "DefaultHeartbeatTTL = 30 * go_second"

definition NewHeartbeatRegistry :: "duration \<Rightarrow> HeartbeatRegistry" where
  "NewHeartbeatRegistry ttl = \<lparr>hr_ttl = (if ttl \<le> 0 then DefaultHeartbeatTTL else ttl), hr_records = Map.empty\<rparr>"

datatype heartbeat_error = NodeIDRequired | NodeIDTooLong | RoleTooLong | AddressTooLong | VersionTooLong

definition heartbeat_Record :: "time \<Rightarrow> Heartbeat \<Rightarrow> HeartbeatRegistry \<Rightarrow> (heartbeat_error + Heartbeat) \<times> HeartbeatRegistry" where
  "heartbeat_Record now inp r =
     (let nodeID = trim_space (hb_NodeID inp);
          record0 = inp\<lparr>hb_NodeID := nodeID, hb_Role := trim_space (hb_Role inp),
            hb_AdvertiseAddr := trim_space (hb_AdvertiseAddr inp), hb_ConfigVersion := trim_space (hb_ConfigVersion inp)\<rparr>
      in case first_error
           [fail_if (nodeID = []) NodeIDRequired,
            fail_if (length nodeID > 64) NodeIDTooLong,
            fail_if (length (hb_Role record0) > 16) RoleTooLong,
            fail_if (length (hb_AdvertiseAddr record0) > 256) AddressTooLong,
            fail_if (length (hb_ConfigVersion record0) > 256) VersionTooLong] of
        Some e \<Rightarrow> (Inl e, r)
      | None \<Rightarrow>
          let record1 = record0\<lparr>hb_RecordedAt := now\<rparr>
          in (Inr record1, r\<lparr>hr_records := (hr_records r)(nodeID \<mapsto> record1)\<rparr>))"

definition registry_records :: "HeartbeatRegistry option \<Rightarrow> (string \<rightharpoonup> Heartbeat)" where
  "registry_records registry = (case registry of None \<Rightarrow> Map.empty | Some r \<Rightarrow> hr_records r)"

definition ttlOrDefault :: "HeartbeatRegistry option \<Rightarrow> duration" where
  "ttlOrDefault registry = (case registry of None \<Rightarrow> DefaultHeartbeatTTL
     | Some r \<Rightarrow> if hr_ttl r \<le> 0 then DefaultHeartbeatTTL else hr_ttl r)"

subsection \<open>Nodes\<close>

record ClusterNodeConfig =
  cn_ID :: string
  cn_Role :: string
  cn_AdvertiseAddr :: string
  cn_Region :: string
  cn_Datacenter :: string

record cluster_config =
  cc_Enabled :: bool
  cc_DeploymentMode :: string
  cc_HAMode :: string
  cc_ClusterID :: string
  cc_NodeID :: string
  cc_Nodes :: "ClusterNodeConfig list"
  cc_AdvertiseAddr :: string
  cc_Provider :: string
  cc_EtcdEndpoints :: "string list"
  cc_FreezeWritesWithoutMajority :: bool
  cc_AllowTrafficInProtectionMode :: bool

definition configured_status :: "cluster_config \<Rightarrow> ClusterNodeConfig \<Rightarrow> string \<Rightarrow> RuntimeNodeStatus" where
  "configured_status cfg node lang =
     (let role = (if trim_space (cn_Role node) = [] then ''waf'' else trim_space (cn_Role node));
          isLocal = (trim_space (cc_NodeID cfg) \<noteq> [] \<and> trim_space (cc_NodeID cfg) = trim_space (cn_ID node));
          addr = trim_space (cn_AdvertiseAddr node)
      in \<lparr>ns_NodeID = trim_space (cn_ID node), ns_Role = role,
          ns_AdvertiseAddr = (if addr = [] \<and> isLocal then trim_space (cc_AdvertiseAddr cfg) else addr),
          ns_Region = trim_space (cn_Region node), ns_Datacenter = trim_space (cn_Datacenter node),
          ns_State = ''unknown'', ns_Local = isLocal, ns_LastHeartbeatAt = None, ns_LastSeenAgoSeconds = 0,
          ns_ConfigVersion = [], ns_CanReceiveTraffic = False, ns_CanWriteConfig = False,
          ns_Reason = text_wait (is_zh lang)\<rparr>)"

definition runtimeNodeFromConfig ::
    "cluster_config \<Rightarrow> ClusterNodeConfig \<Rightarrow> Heartbeat \<Rightarrow> time \<Rightarrow> duration \<Rightarrow> string \<Rightarrow> RuntimeNodeStatus" where
  "runtimeNodeFromConfig cfg node heartbeat now ttl lang =
     (let status = configured_status cfg node lang; role = ns_Role status; recordedAt = hb_RecordedAt heartbeat in
      if ns_Local status \<and> is_zero_time recordedAt then
        status\<lparr>ns_State := ''online'', ns_CanReceiveTraffic := (role = ''waf''), ns_CanWriteConfig := True,
          ns_Reason := text_local (is_zh lang)\<rparr>
      else if is_zero_time recordedAt then status
      else let s1 = status\<lparr>ns_LastHeartbeatAt := Some recordedAt,
                 ns_LastSeenAgoSeconds := (if now > recordedAt then time_sub now recordedAt div go_second else 0),
                 ns_Role := (if hb_Role heartbeat \<noteq> [] then hb_Role heartbeat else role),
                 ns_AdvertiseAddr := (if hb_AdvertiseAddr heartbeat \<noteq> [] then hb_AdvertiseAddr heartbeat else ns_AdvertiseAddr status),
                 ns_ConfigVersion := hb_ConfigVersion heartbeat\<rparr>
        in if time_sub now recordedAt > ttl then
             s1\<lparr>ns_State := ''stale'', ns_CanReceiveTraffic := False, ns_CanWriteConfig := False,
               ns_Reason := text_timeout (is_zh lang)\<rparr>
           else s1\<lparr>ns_State := ''online'',
             ns_CanReceiveTraffic := (if hb_CanReceiveTrafficSet heartbeat then hb_CanReceiveTraffic heartbeat else role = ''waf''),
             ns_CanWriteConfig := (if hb_CanWriteConfigSet heartbeat then hb_CanWriteConfig heartbeat else True),
             ns_Reason := []\<rparr>)"

definition clustered :: "cluster_config option \<Rightarrow> bool" where
  "clustered cfg = (case cfg of None \<Rightarrow> False | Some c \<Rightarrow> cc_Enabled c \<and> cc_DeploymentMode c = ''cluster'')"

definition node_status :: "cluster_config \<Rightarrow> HeartbeatRegistry option \<Rightarrow> time \<Rightarrow> string \<Rightarrow> ClusterNodeConfig \<Rightarrow> RuntimeNodeStatus" where
  "node_status cfg registry now lang node =
     runtimeNodeFromConfig cfg node (lookup_or zero_Heartbeat (registry_records registry) (trim_space (cn_ID node)))
       now (ttlOrDefault registry) lang"

definition RuntimeNodes :: "cluster_config option \<Rightarrow> HeartbeatRegistry option \<Rightarrow> time \<Rightarrow> string \<Rightarrow> RuntimeNodeStatus list" where
  "RuntimeNodes cfg0 registry now lang =
     (case cfg0 of
        None \<Rightarrow> []
      | Some cfg \<Rightarrow>
          if \<not> clustered cfg0 then []
          else let named = filter (\<lambda>node. trim_space (cn_ID node) \<noteq> []) (cc_Nodes cfg);
                   localID = trim_space (cc_NodeID cfg);
                   extra = (if localID \<noteq> [] \<and> localID \<notin> (\<lambda>node. trim_space (cn_ID node)) ` set named
                            then [\<lparr>cn_ID = localID, cn_Role = ''waf'', cn_AdvertiseAddr = cc_AdvertiseAddr cfg,
                                   cn_Region = [], cn_Datacenter = []\<rparr>] else [])
               in sort_key (\<lambda>n. map byte (ns_NodeID n)) (map (node_status cfg registry now lang) (named @ extra)))"

definition isVotingRole :: "string \<Rightarrow> bool" where
  "isVotingRole role \<longleftrightarrow> trim_space role \<in> {''waf'', ''monitor''}"

definition onlineVotingNodeCount :: "RuntimeNodeStatus list \<Rightarrow> nat" where
  "onlineVotingNodeCount nodes =
     length (filter (\<lambda>n. isVotingRole (ns_Role n) \<and> ns_State n = ''online'' \<and> ns_CanWriteConfig n) nodes)"

definition votingNodeCount :: "RuntimeNodeStatus list \<Rightarrow> nat" where
  "votingNodeCount nodes = length (filter (\<lambda>n. isVotingRole (ns_Role n)) nodes)"

subsection \<open>Status\<close>

record Status =
  cs_Mode :: string
  cs_Enabled :: bool
  cs_ClusterID :: string
  cs_NodeID :: string
  cs_ProductModeLabel :: string
  cs_CanWriteConfig :: bool
  cs_CanReceiveTraffic :: bool
  cs_MajorityConfirmed :: bool
  cs_NodeCount :: nat
  cs_WAFNodeCount :: nat
  cs_MonitorNodeCount :: nat
  cs_OnlineNodeCount :: nat
  cs_OnlineVotingCount :: nat
  cs_VotingNodeCount :: nat
  cs_ConsensusProvider :: string
  cs_ProtectionModeReason :: string

definition standaloneStatus :: "string \<Rightarrow> Status" where
  "standaloneStatus lang =
     \<lparr>cs_Mode = ''standalone'', cs_Enabled = False, cs_ClusterID = [], cs_NodeID = [],
      cs_ProductModeLabel = ModeLabel ''standalone'' lang, cs_CanWriteConfig = True, cs_CanReceiveTraffic = True,
      cs_MajorityConfirmed = True, cs_NodeCount = 0, cs_WAFNodeCount = 0, cs_MonitorNodeCount = 0, cs_OnlineNodeCount = 0,
      cs_OnlineVotingCount = 0, cs_VotingNodeCount = 0, cs_ConsensusProvider = ''builtin'', cs_ProtectionModeReason = []\<rparr>"

definition configuredConsensusProvider :: "string \<Rightarrow> string" where
  "configuredConsensusProvider provider =
     (let p = to_lower (trim_space provider) in if p = [] then ''unconfigured'' else p)"

definition majorityConfirmed :: "string \<Rightarrow> nat \<Rightarrow> nat \<Rightarrow> bool" where
  "majorityConfirmed mode0 voters online =
     (let mode = trim_space mode0 in
      if mode \<in> {[], ''single-node'', ''standalone'', ''dual-node-load-balancing''} then True
      else if voters \<le> 1 then True
      else online \<ge> voters div 2 + 1)"

definition usableEtcdEndpoints :: "string list \<Rightarrow> bool" where
  "usableEtcdEndpoints endpoints \<longleftrightarrow> endpoints \<noteq> [] \<and> list_all (\<lambda>e. trim_space e \<noteq> []) endpoints"

definition deny_writes :: "string \<Rightarrow> Status \<Rightarrow> Status" where
  "deny_writes reason s = s\<lparr>cs_MajorityConfirmed := False, cs_CanWriteConfig := False, cs_ProtectionModeReason := reason\<rparr>"

definition applyConsensusSafety :: "cluster_config \<Rightarrow> string \<Rightarrow> string \<Rightarrow> Status \<Rightarrow> Status" where
  "applyConsensusSafety cfg mode lang s =
     (let provider = configuredConsensusProvider (cc_Provider cfg);
          shared = (mode \<noteq> ''single-node'' \<or> cs_NodeCount s > 1)
      in if provider = ''builtin'' \<and> shared then deny_writes (text_builtin (is_zh lang)) s
         else if provider = ''etcd'' \<and> \<not> usableEtcdEndpoints (cc_EtcdEndpoints cfg)
         then deny_writes (text_endpoints (is_zh lang)) s
         else if provider = ''etcd'' \<and> shared then deny_writes (text_external (is_zh lang)) s
         else if provider \<noteq> ''builtin'' \<and> provider \<noteq> ''etcd'' then deny_writes (text_provider (is_zh lang)) s
         else s)"

definition FromConfigWithRuntime :: "cluster_config option \<Rightarrow> HeartbeatRegistry option \<Rightarrow> time \<Rightarrow> string \<Rightarrow> Status" where
  "FromConfigWithRuntime cfg0 registry now lang =
     (case cfg0 of
        None \<Rightarrow> standaloneStatus lang
      | Some cfg \<Rightarrow>
          if \<not> clustered cfg0 then standaloneStatus lang
          else
            let mode = (if trim_space (cc_HAMode cfg) = [] then ''single-node'' else trim_space (cc_HAMode cfg));
                nodes = RuntimeNodes cfg0 registry now lang;
                majority = majorityConfirmed mode (votingNodeCount nodes) (onlineVotingNodeCount nodes);
                protecting = (mode \<in> {''minimum-ha'', ''multi-node-ha''} \<and> \<not> majority);
                s = \<lparr>cs_Mode = mode, cs_Enabled = True, cs_ClusterID = cc_ClusterID cfg, cs_NodeID = cc_NodeID cfg,
                     cs_ProductModeLabel = [],
                     cs_CanWriteConfig = \<not> (protecting \<and> cc_FreezeWritesWithoutMajority cfg),
                     cs_CanReceiveTraffic = \<not> (protecting \<and> \<not> cc_AllowTrafficInProtectionMode cfg),
                     cs_MajorityConfirmed = majority, cs_NodeCount = length nodes,
                     cs_WAFNodeCount = length (filter (\<lambda>n. cn_Role n = ''waf'') (cc_Nodes cfg)),
                     cs_MonitorNodeCount = length (filter (\<lambda>n. cn_Role n = ''monitor'') (cc_Nodes cfg)),
                     cs_OnlineNodeCount = length (filter (\<lambda>n. ns_State n = ''online'') nodes),
                     cs_OnlineVotingCount = onlineVotingNodeCount nodes, cs_VotingNodeCount = votingNodeCount nodes,
                     cs_ConsensusProvider = configuredConsensusProvider (cc_Provider cfg),
                     cs_ProtectionModeReason = (if protecting then text_majority (is_zh lang) else [])\<rparr>
            in (applyConsensusSafety cfg mode lang s)\<lparr>cs_ProductModeLabel := ModeLabel mode lang\<rparr>)"

definition FromConfig :: "cluster_config option \<Rightarrow> time \<Rightarrow> string \<Rightarrow> Status" where
  "FromConfig cfg now lang = FromConfigWithRuntime cfg None now lang"

subsection \<open>The built-in coordinator\<close>

record ConfigVersionRecord =
  vr_Version :: string
  vr_LeaderID :: string
  vr_Message :: string
  vr_CreatedAt :: time

record Coordinator =
  co_provider :: string
  co_localID :: string
  co_etcd :: "string list"
  co_term :: u64
  co_log :: "ConfigVersionRecord list"
  co_maxLog :: int

definition provider_name :: "string \<Rightarrow> string" where
  "provider_name raw = (let p = trim_space (to_lower raw) in if p = [] then ''unconfigured'' else p)"

definition NewCoordinator :: "string \<Rightarrow> string \<Rightarrow> string list \<Rightarrow> int \<Rightarrow> Coordinator" where
  "NewCoordinator provider localNodeID etcd maxLog =
     \<lparr>co_provider = provider_name provider, co_localID = trim_space localNodeID, co_etcd = etcd, co_term = 0,
      co_log = [], co_maxLog = (if maxLog \<le> 0 then 32 else maxLog)\<rparr>"

definition SetProvider :: "string \<Rightarrow> string list \<Rightarrow> Coordinator \<Rightarrow> Coordinator" where
  "SetProvider provider etcd c = c\<lparr>co_provider := provider_name provider, co_etcd := etcd\<rparr>"

record coordinator_snapshot =
  sn_Provider :: string
  sn_LeaderID :: string
  sn_LocalNodeID :: string
  sn_LocalRole :: string
  sn_Term :: u64
  sn_MajorityConfirmed :: bool
  sn_CanWriteConfig :: bool
  sn_OnlineVoters :: nat
  sn_VotingNodes :: nat
  sn_EtcdConfigured :: bool
  sn_EtcdEndpoints :: "string list"
  sn_RecentVersions :: "ConfigVersionRecord list"
  sn_Reason :: string

definition builtinSharedConfiguration :: "Status \<Rightarrow> RuntimeNodeStatus list \<Rightarrow> bool" where
  "builtinSharedConfiguration status nodes \<longleftrightarrow>
     trim_space (cs_Mode status) \<notin> {[], ''standalone'', ''single-node''}
     \<or> cs_VotingNodeCount status > 1 \<or> length nodes > 1"

definition onlineVotingIDs :: "RuntimeNodeStatus list \<Rightarrow> string list" where
  "onlineVotingIDs nodes =
     map ns_NodeID (filter (\<lambda>n. ns_State n = ''online'' \<and> ns_CanWriteConfig n \<and> isVotingRole (ns_Role n)) nodes)"

definition isVotingNode :: "RuntimeNodeStatus list \<Rightarrow> string \<Rightarrow> bool" where
  "isVotingNode nodes nodeID =
     (case find (\<lambda>n. ns_NodeID n = nodeID) nodes of None \<Rightarrow> False | Some n \<Rightarrow> isVotingRole (ns_Role n))"

definition observe :: "string \<Rightarrow> coordinator_snapshot \<Rightarrow> coordinator_snapshot" where
  "observe reason s = s\<lparr>sn_MajorityConfirmed := False, sn_CanWriteConfig := False, sn_LocalRole := ''observer'', sn_Reason := reason\<rparr>"

definition quoted_byte :: "char \<Rightarrow> string" where
  "quoted_byte c =
     (let b = byte c in
      if b = 34 \<or> b = 92 then [CHR 0x5C, c]
      else if b = 7 then CHR 0x5C # ''a''
      else if b = 8 then CHR 0x5C # ''b''
      else if b = 12 then CHR 0x5C # ''f''
      else if b = 10 then CHR 0x5C # ''n''
      else if b = 13 then CHR 0x5C # ''r''
      else if b = 9 then CHR 0x5C # ''t''
      else if b = 11 then CHR 0x5C # ''v''
      else if b < 32 \<or> b = 127
      then CHR 0x5C # CHR ''x'' # [''0123456789abcdef'' ! nat (b div 16), ''0123456789abcdef'' ! nat (b mod 16)]
      else [c])"

definition quoted :: "string \<Rightarrow> string" where
  "quoted s = CHR 0x22 # concat (map quoted_byte s) @ [CHR 0x22]"

definition provider_reason :: "Coordinator \<Rightarrow> bool \<Rightarrow> string" where
  "provider_reason c etcdConfigured =
     (if co_provider c = ''etcd'' \<and> \<not> etcdConfigured
      then ''etcd consensus provider selected but no endpoints are configured''
      else if co_provider c = ''etcd''
      then ''etcd consensus provider requires an etcd-backed coordinator; refusing builtin heartbeat election''
      else if co_provider c = ''unconfigured'' then ''consensus provider is not configured''
      else ''unsupported consensus provider '' @ quoted (co_provider c))"

definition coordinator_Evaluate :: "Coordinator \<Rightarrow> Status \<Rightarrow> RuntimeNodeStatus list \<Rightarrow> coordinator_snapshot" where
  "coordinator_Evaluate c status nodes =
     (let etcdConfigured = (co_provider c = ''etcd'' \<and> usableEtcdEndpoints (co_etcd c));
          snap = \<lparr>sn_Provider = co_provider c, sn_LeaderID = [], sn_LocalNodeID = co_localID c, sn_LocalRole = [],
            sn_Term = co_term c, sn_MajorityConfirmed = cs_MajorityConfirmed status,
            sn_CanWriteConfig = cs_CanWriteConfig status, sn_OnlineVoters = cs_OnlineVotingCount status,
            sn_VotingNodes = cs_VotingNodeCount status, sn_EtcdConfigured = etcdConfigured,
            sn_EtcdEndpoints = co_etcd c, sn_RecentVersions = co_log c, sn_Reason = cs_ProtectionModeReason status\<rparr>
      in if co_provider c \<noteq> ''builtin'' then observe (provider_reason c etcdConfigured) snap
         else if builtinSharedConfiguration status nodes
         then observe ''multi-node or shared-configuration cluster requires etcd; builtin consensus is single-node only'' snap
         else
           (case sort_key (map byte) (onlineVotingIDs nodes) of
              [] \<Rightarrow> if co_localID c \<noteq> [] then snap\<lparr>sn_LeaderID := co_localID c, sn_LocalRole := ''leader''\<rparr> else snap
            | leader # _ \<Rightarrow>
                snap\<lparr>sn_LeaderID := leader,
                  sn_LocalRole := (if co_localID c = [] then ''observer''
                    else if co_localID c = leader then ''leader''
                    else if isVotingNode nodes (co_localID c) then ''follower'' else ''observer'')\<rparr>))"

datatype propose_error = VersionRequired | WritesFrozen string | LocalIDRequired | NotLeader string string

definition firstNonEmpty :: "string \<Rightarrow> string \<Rightarrow> string" where
  "firstNonEmpty a b = (if trim_space a \<noteq> [] then trim_space a else if trim_space b \<noteq> [] then trim_space b else [])"

definition ProposeConfigVersion ::
    "time \<Rightarrow> string \<Rightarrow> string \<Rightarrow> Status \<Rightarrow> RuntimeNodeStatus list \<Rightarrow> Coordinator
       \<Rightarrow> (propose_error + ConfigVersionRecord) \<times> Coordinator" where
  "ProposeConfigVersion now version0 message status nodes c =
     (let version = trim_space version0; snap = coordinator_Evaluate c status nodes in
      case first_error
        [fail_if (version = []) VersionRequired,
         fail_if (\<not> sn_CanWriteConfig snap) (WritesFrozen (trim_space (sn_Reason snap))),
         fail_if (trim_space (sn_LocalNodeID snap) = []) LocalIDRequired,
         fail_if (sn_LocalRole snap \<noteq> ''leader'') (NotLeader (sn_LeaderID snap) (sn_LocalRole snap))] of
        Some e \<Rightarrow> (Inl e, c)
      | None \<Rightarrow>
          let leader = (if sn_LeaderID snap = [] then co_localID c else sn_LeaderID snap);
              rec0 = \<lparr>vr_Version = version, vr_LeaderID = firstNonEmpty leader (co_localID c),
                vr_Message = trim_space message, vr_CreatedAt = now\<rparr>;
              log = co_log c @ [rec0]
          in (Inr rec0, c\<lparr>co_term := co_term c + 1,
               co_log := (if int (length log) > co_maxLog c then drop (nat (int (length log) - co_maxLog c)) log else log)\<rparr>))"

end
