(* ===== verification/Cluster_Properties.thy ===== *)
theory Cluster_Properties
  imports Cluster_Status
begin

text \<open>
  Properties of the cluster status and the built-in coordinator: a shared configuration is
  never written on the strength of heartbeats, the version log holds the latest accepted
  versions, and traffic goes only to nodes heard of lately.
\<close>

subsection \<open>No writes without consensus\<close>

definition ha_mode :: "cluster_config \<Rightarrow> string" where
  "ha_mode cfg = (if trim_space (cc_HAMode cfg) = [] then ''single-node'' else trim_space (cc_HAMode cfg))"

lemma safety_denies_shared:
  "mode \<noteq> ''single-node'' \<or> cs_NodeCount s > 1 \<Longrightarrow>
     \<not> cs_CanWriteConfig (applyConsensusSafety cfg mode lang s) \<and> \<not> cs_MajorityConfirmed (applyConsensusSafety cfg mode lang s)"
  by (auto simp: applyConsensusSafety_def deny_writes_def Let_def)

lemma shared_status_denies:
  assumes "clustered (Some cfg)" "ha_mode cfg \<noteq> ''single-node'' \<or> length (RuntimeNodes (Some cfg) registry now lang) > 1"
  shows "\<not> cs_CanWriteConfig (FromConfigWithRuntime (Some cfg) registry now lang)
    \<and> \<not> cs_MajorityConfirmed (FromConfigWithRuntime (Some cfg) registry now lang)"
  using assms safety_denies_shared by (simp add: FromConfigWithRuntime_def Let_def ha_mode_def[symmetric])

lemma evaluate_writes: "sn_CanWriteConfig (coordinator_Evaluate c status nodes) \<Longrightarrow> cs_CanWriteConfig status"
  by (auto simp: coordinator_Evaluate_def observe_def Let_def split: if_splits list.splits)

lemma propose_accepted:
  assumes "ProposeConfigVersion now version message status nodes c = (Inr v, c')"
  shows "cs_CanWriteConfig status" "sn_LocalRole (coordinator_Evaluate c status nodes) = ''leader''"
    "co_term c' = co_term c + 1" "co_maxLog c' = co_maxLog c"
    "co_log c' = (if int (length (co_log c @ [v])) > co_maxLog c
       then drop (nat (int (length (co_log c @ [v])) - co_maxLog c)) (co_log c @ [v]) else co_log c @ [v])"
proof -
  have ok: "first_error
        [fail_if (trim_space version = []) VersionRequired,
         fail_if (\<not> sn_CanWriteConfig (coordinator_Evaluate c status nodes)) (WritesFrozen (trim_space (sn_Reason (coordinator_Evaluate c status nodes)))),
         fail_if (trim_space (sn_LocalNodeID (coordinator_Evaluate c status nodes)) = []) LocalIDRequired,
         fail_if (sn_LocalRole (coordinator_Evaluate c status nodes) \<noteq> ''leader'')
           (NotLeader (sn_LeaderID (coordinator_Evaluate c status nodes)) (sn_LocalRole (coordinator_Evaluate c status nodes)))] = None"
    using assms by (auto simp: ProposeConfigVersion_def Let_def split: option.splits simp del: first_error_Cons)
  then show "cs_CanWriteConfig status" "sn_LocalRole (coordinator_Evaluate c status nodes) = ''leader''"
    unfolding first_error_None using evaluate_writes by auto
  show "co_term c' = co_term c + 1" "co_maxLog c' = co_maxLog c"
    "co_log c' = (if int (length (co_log c @ [v])) > co_maxLog c
       then drop (nat (int (length (co_log c @ [v])) - co_maxLog c)) (co_log c @ [v]) else co_log c @ [v])"
    using assms unfolding ProposeConfigVersion_def Let_def ok option.case by auto
qed

text \<open>
  C24: Heartbeats never license a write to a shared configuration. In a cluster whose mode is
  not single-node or that has more than one node, whatever the heartbeats and the provider,
  the status confirms no majority and allows no configuration write, and no coordinator, of
  any provider and on any of the nodes, accepts a proposal under it.
\<close>

theorem shared_cluster_never_writes:
  assumes "clustered (Some cfg)" "ha_mode cfg \<noteq> ''single-node'' \<or> length (RuntimeNodes (Some cfg) registry now lang) > 1"
  shows "\<not> cs_CanWriteConfig (FromConfigWithRuntime (Some cfg) registry now lang)
    \<and> \<not> cs_MajorityConfirmed (FromConfigWithRuntime (Some cfg) registry now lang)
    \<and> (\<exists>e. ProposeConfigVersion t version message (FromConfigWithRuntime (Some cfg) registry now lang) nodes c = (Inl e, c))"
proof -
  let ?p = "ProposeConfigVersion t version message (FromConfigWithRuntime (Some cfg) registry now lang) nodes c"
  note d = shared_status_denies[OF assms]
  have "\<exists>e. ?p = (Inl e, c)"
  proof (cases "fst ?p")
    case (Inl e)
    then show ?thesis by (auto simp: ProposeConfigVersion_def Let_def split: option.splits)
  next
    case (Inr v)
    then have "?p = (Inr v, snd ?p)" by (metis prod.collapse)
    from propose_accepted(1)[OF this] show ?thesis using d by simp
  qed
  then show ?thesis using d by blast
qed

subsection \<open>The version log\<close>

inductive coordinator_run :: "Coordinator \<Rightarrow> Coordinator \<Rightarrow> ConfigVersionRecord list \<Rightarrow> bool" for c0 where
  start: "coordinator_run c0 c0 []"
| accepted: "coordinator_run c0 c vs \<Longrightarrow> ProposeConfigVersion now version message status nodes c = (Inr v, c')
    \<Longrightarrow> coordinator_run c0 c' (vs @ [v])"
| refused: "coordinator_run c0 c vs \<Longrightarrow> ProposeConfigVersion now version message status nodes c = (Inl e, c')
    \<Longrightarrow> coordinator_run c0 c' vs"
| provider: "coordinator_run c0 c vs \<Longrightarrow> coordinator_run c0 (SetProvider p etcd c) vs"

lemma drop_snoc_window: "drop (Suc (length xs) - k) (xs @ [x]) = (if k \<le> length (drop (length xs - k) xs) then
    drop (Suc (length (drop (length xs - k) xs)) - k) (drop (length xs - k) xs @ [x]) else drop (length xs - k) xs @ [x])"
  if "0 < k"
  using that by (cases "k \<le> length xs") (auto simp: Suc_diff_le)

text \<open>
  The coordinator's log holds, in order, the last accepted versions up to its capacity, and its
  term counts the accepted proposals.
\<close>

theorem version_log_recent:
  assumes "coordinator_run (NewCoordinator p local etcd maxLog) c vs"
  shows "co_log c = drop (length vs - nat (co_maxLog c)) vs \<and> co_term c = of_nat (length vs)
    \<and> co_maxLog c = (if maxLog \<le> 0 then 32 else maxLog)"
  using assms
proof induction
  case start
  then show ?case by (simp add: NewCoordinator_def)
next
  case (accepted c vs now version message status nodes v c')
  note a = propose_accepted[OF accepted(2)]
  obtain k where k: "co_maxLog c = int k" "0 < k" using accepted.IH by (metis pos_int_cases zero_less_numeral not_le)
  define l where "l = co_log c"
  have l: "l = drop (length vs - k) vs" using accepted.IH k(1) by (simp add: l_def)
  have "co_log c' = (if k \<le> length l then drop (Suc (length l) - k) (l @ [v]) else l @ [v])"
  proof -
    have "nat (int (length (l @ [v])) - int k) = Suc (length l) - k" "int (length (l @ [v])) > int k \<longleftrightarrow> k \<le> length l" by auto
    then show ?thesis using a(5) unfolding l_def[symmetric] k(1) by (simp only:)
  qed
  also have "\<dots> = drop (length (vs @ [v]) - k) (vs @ [v])"
    using drop_snoc_window[OF k(2), of vs v] unfolding l by simp
  finally show ?case using a(3,4) k(1) accepted.IH by simp
next
  case (refused c vs now version message status nodes e c')
  then have "c' = c" by (auto simp: ProposeConfigVersion_def Let_def split: option.splits)
  then show ?case using refused.IH by simp
next
  case (provider c vs p etcd)
  then show ?case by (simp add: SetProvider_def)
qed

subsection \<open>Traffic\<close>

lemma fresh_node:
  assumes "ns_State (runtimeNodeFromConfig cfg node hb now ttl lang) = ''online''"
  shows "is_zero_time (hb_RecordedAt hb) \<and> ns_Local (runtimeNodeFromConfig cfg node hb now ttl lang)
    \<or> \<not> is_zero_time (hb_RecordedAt hb) \<and> time_sub now (hb_RecordedAt hb) \<le> ttl"
  using assms by (auto simp: runtimeNodeFromConfig_def configured_status_def Let_def split: if_splits)

text \<open>
  Traffic goes only to nodes heard of lately. Every peer the traffic scheduler may choose
  among the nodes of a cluster is the local node, or its last heartbeat is in the registry and
  no older than the time to live.
\<close>

theorem eligible_peers_fresh:
  assumes "peer \<in> set (EligiblePeers (RuntimeNodes (Some cfg) (Some registry) now lang))"
  shows "pe_NodeID peer = trim_space (cc_NodeID cfg)
    \<or> (\<exists>hb. hr_records registry (pe_NodeID peer) = Some hb \<and> time_sub now (hb_RecordedAt hb) \<le> ttlOrDefault (Some registry))"
proof -
  obtain n where n: "n \<in> set (RuntimeNodes (Some cfg) (Some registry) now lang)" "eligible n" "peer = peer_of n"
    using assms by (auto simp: EligiblePeers_def)
  obtain node where node: "n = node_status cfg (Some registry) now lang node"
    using n(1) by (auto simp: RuntimeNodes_def Let_def split: if_splits)
  let ?hb = "lookup_or zero_Heartbeat (hr_records registry) (trim_space (cn_ID node))"
  have nid: "ns_NodeID n = trim_space (cn_ID node)"
    by (auto simp: node node_status_def runtimeNodeFromConfig_def configured_status_def Let_def)
  have loc: "ns_Local n \<Longrightarrow> trim_space (cc_NodeID cfg) = trim_space (cn_ID node)"
    by (auto simp: node node_status_def runtimeNodeFromConfig_def configured_status_def Let_def split: if_splits)
  have "ns_State n = ''online''" using n(2) by (simp add: eligible_def)
  then have f: "is_zero_time (hb_RecordedAt ?hb) \<and> ns_Local n
      \<or> \<not> is_zero_time (hb_RecordedAt ?hb) \<and> time_sub now (hb_RecordedAt ?hb) \<le> ttlOrDefault (Some registry)"
    using fresh_node[of cfg node ?hb now "ttlOrDefault (Some registry)" lang]
    by (simp add: node node_status_def registry_records_def)
  have "hr_records registry (trim_space (cn_ID node)) = Some ?hb" if "\<not> is_zero_time (hb_RecordedAt ?hb)"
    using that by (cases "hr_records registry (trim_space (cn_ID node))") (simp_all add: lookup_or_def zero_Heartbeat_def zero_time_def)
  moreover have "pe_NodeID peer = trim_space (cn_ID node)" using nid n(3) by (simp add: peer_of_def)
  ultimately show ?thesis using f loc by metis
qed

subsection \<open>Examples\<close>

definition demo_cluster :: cluster_config where
  "demo_cluster = \<lparr>cc_Enabled = True, cc_DeploymentMode = ''cluster'', cc_HAMode = ''minimum-ha'', cc_ClusterID = ''c'', cc_NodeID = ''n1'',
     cc_Nodes = [\<lparr>cn_ID = ''n1'', cn_Role = ''waf'', cn_AdvertiseAddr = ''a'', cn_Region = [], cn_Datacenter = []\<rparr>,
       \<lparr>cn_ID = ''n2'', cn_Role = ''waf'', cn_AdvertiseAddr = ''b'', cn_Region = [], cn_Datacenter = []\<rparr>],
     cc_AdvertiseAddr = ''a'', cc_Provider = ''builtin'', cc_EtcdEndpoints = [], cc_FreezeWritesWithoutMajority = False,
     cc_AllowTrafficInProtectionMode = True\<rparr>"

definition demo_registry :: HeartbeatRegistry where
  "demo_registry = snd (heartbeat_Record 1000 (zero_Heartbeat\<lparr>hb_NodeID := ''n2''\<rparr>) (NewHeartbeatRegistry 0))"

theorem shared_cluster_never_writes_witness:
  "clustered (Some demo_cluster) \<and> \<not> cs_CanWriteConfig (FromConfigWithRuntime (Some demo_cluster) (Some demo_registry) 2000 [])"
proof -
  have a: "clustered (Some demo_cluster)" "ha_mode demo_cluster \<noteq> ''single-node''" by code_simp+
  then show ?thesis using shared_cluster_never_writes[OF a(1) disjI1[OF a(2)]] by blast
qed

theorem eligible_peers_fresh_witness:
  "\<exists>peer\<in>set (EligiblePeers (RuntimeNodes (Some demo_cluster) (Some demo_registry) 2000 [])).
     pe_NodeID peer = ''n2'' \<and> (\<exists>hb. hr_records demo_registry ''n2'' = Some hb
        \<and> time_sub 2000 (hb_RecordedAt hb) \<le> ttlOrDefault (Some demo_registry))"
proof -
  have "map pe_NodeID (EligiblePeers (RuntimeNodes (Some demo_cluster) (Some demo_registry) 2000 [])) = [''n1'', ''n2'']" by code_simp
  then have "''n2'' \<in> pe_NodeID ` set (EligiblePeers (RuntimeNodes (Some demo_cluster) (Some demo_registry) 2000 []))"
    by (metis image_set list.set_intros)
  then obtain peer where p: "peer \<in> set (EligiblePeers (RuntimeNodes (Some demo_cluster) (Some demo_registry) 2000 []))" "pe_NodeID peer = ''n2''"
    by (metis imageE)
  have "trim_space (cc_NodeID demo_cluster) \<noteq> ''n2''" by code_simp
  then show ?thesis using eligible_peers_fresh[OF p(1)] p by auto
qed

end
