(* ===== verification/Control_State.thy ===== *)
theory Control_State
  imports Go_Crypto "HOL-Library.AList"
begin

text \<open>
  \<open>internal/controlplane/state.go\<close>: the deterministic state machine of the control plane,
  with leadership epochs, compare-and-swap proposals, fencing tokens and the nonce ledger.

  A nonce ledger (\<open>map[string]Revision\<close>) is an association list with distinct keys;
  every loop over it in the source computes a conjunction, so the iteration order does not
  matter. An error stands for the sentinel it wraps; the message text is dropped. The clock
  \<open>m.now()\<close> is read at most once per call and is an argument. Each operation runs under the
  machine's lock and is one function on the state.
\<close>

datatype cp_error =
    ErrInvalidProposal | ErrNotLeader | ErrWritesFrozen | ErrStaleEpoch | ErrStaleRevision
  | ErrStaleFence | ErrLeadershipConflict | ErrDuplicateNonce | ErrInvalidCommit

type_synonym ledger = "(string \<times> u64) list"

record DesiredState =
  ds_Version :: string
  ds_Digest :: string
  ds_Payload :: string

record FenceToken =
  ft_ClusterID :: string
  ft_LeaderID :: string
  ft_Epoch :: u64
  ft_Revision :: u64
  ft_Digest :: string
  ft_Nonce :: string

record State =
  st_ClusterID :: string
  st_LeaderID :: string
  st_Term :: u64
  st_Epoch :: u64
  st_Revision :: u64
  st_Desired :: DesiredState
  st_WriteFrozen :: bool
  st_FreezeReason :: string
  st_UpdatedAt :: time
  st_NonceLedger :: ledger

record Proposal =
  pr_LeaderID :: string
  pr_ExpectedEpoch :: u64
  pr_ExpectedRevision :: u64
  pr_Version :: string
  pr_Payload :: string
  pr_Digest :: string
  pr_Nonce :: string

record Commit =
  cm_State :: State
  cm_Fence :: FenceToken

record StateMachine =
  m_state :: State
  m_committed :: State
  m_fences :: "u64 \<rightharpoonup> string"
  m_committedFences :: "u64 \<rightharpoonup> string"
  m_nonces :: ledger
  m_proposals :: "u64 \<rightharpoonup> Commit"

subsection \<open>Validation of the parts\<close>

definition Digest :: "string \<Rightarrow> string" where
  "Digest payload = hex_sha256 payload"

definition ValidIdentity :: "string \<Rightarrow> bool" where
  "ValidIdentity value \<longleftrightarrow> \<not> (value = [] \<or> trim_space value \<noteq> value \<or> \<not> valid_utf8 value)
     \<and> list_all (\<lambda>r. \<not> (is_space r \<or> is_control r \<or> is_format r)) (runes value)"

definition ledger_get :: "ledger \<Rightarrow> string \<Rightarrow> u64" where
  "ledger_get l nonce = lookup_or 0 (map_of l) nonce"

definition sameNonceLedger :: "ledger \<Rightarrow> ledger \<Rightarrow> bool" where
  "sameNonceLedger a b \<longleftrightarrow> length a = length b \<and> list_all (\<lambda>(nonce, revision). ledger_get b nonce = revision) a"

definition validNonceLedger :: "ledger \<Rightarrow> u64 \<Rightarrow> bool" where
  "validNonceLedger ledger revision =
     (if revision = 0 then ledger = []
      else if revision = - 1 then False
      else if of_nat (length ledger) \<noteq> revision then False
      else list_all (\<lambda>(nonce, r). ValidIdentity nonce \<and> r \<noteq> 0 \<and> r \<le> revision) ledger
        \<and> distinct (map snd ledger)
        \<and> list_all (\<lambda>k. of_nat k \<in> set (map snd ledger)) [1..<Suc (unat revision)])"

definition statesEquivalentForCommit :: "State \<Rightarrow> State \<Rightarrow> bool" where
  "statesEquivalentForCommit a b \<longleftrightarrow>
     st_ClusterID a = st_ClusterID b \<and> st_LeaderID a = st_LeaderID b \<and> st_Term a = st_Term b
     \<and> st_Epoch a = st_Epoch b \<and> st_Revision a = st_Revision b
     \<and> ds_Version (st_Desired a) = ds_Version (st_Desired b)
     \<and> ds_Digest (st_Desired a) = ds_Digest (st_Desired b)
     \<and> ds_Payload (st_Desired a) = ds_Payload (st_Desired b)
     \<and> st_WriteFrozen a = st_WriteFrozen b \<and> st_FreezeReason a = st_FreezeReason b
     \<and> st_UpdatedAt a = st_UpdatedAt b \<and> sameNonceLedger (st_NonceLedger a) (st_NonceLedger b)"

definition commitsEquivalent :: "Commit \<Rightarrow> Commit \<Rightarrow> bool" where
  "commitsEquivalent a b \<longleftrightarrow> cm_Fence a = cm_Fence b
     \<and> statesEquivalentForCommit (cm_State a) (cm_State b)"

definition stateCarriesExactCommit :: "State \<Rightarrow> Commit \<Rightarrow> bool" where
  "stateCarriesExactCommit s c \<longleftrightarrow>
     st_ClusterID s = st_ClusterID (cm_State c) \<and> st_LeaderID s = st_LeaderID (cm_State c)
     \<and> st_Term s = st_Term (cm_State c) \<and> st_Epoch s = st_Epoch (cm_State c)
     \<and> st_Revision s = st_Revision (cm_State c)
     \<and> ds_Version (st_Desired s) = ds_Version (st_Desired (cm_State c))
     \<and> ds_Digest (st_Desired s) = ds_Digest (st_Desired (cm_State c))
     \<and> ds_Payload (st_Desired s) = ds_Payload (st_Desired (cm_State c))
     \<and> ft_ClusterID (cm_Fence c) = st_ClusterID s \<and> ft_LeaderID (cm_Fence c) = st_LeaderID s
     \<and> ft_Epoch (cm_Fence c) = st_Epoch s \<and> ft_Revision (cm_Fence c) = st_Revision s
     \<and> ft_Digest (cm_Fence c) = ds_Digest (st_Desired s) \<and> ValidIdentity (ft_Nonce (cm_Fence c))
     \<and> ledger_get (st_NonceLedger s) (ft_Nonce (cm_Fence c)) = st_Revision s
     \<and> sameNonceLedger (st_NonceLedger s) (st_NonceLedger (cm_State c))"

definition sameLeadershipState :: "State \<Rightarrow> State \<Rightarrow> bool" where
  "sameLeadershipState a b \<longleftrightarrow> st_ClusterID a = st_ClusterID b \<and> st_Term a = st_Term b
     \<and> st_Epoch a = st_Epoch b \<and> st_LeaderID a = st_LeaderID b"

subsection \<open>Construction and snapshots\<close>

definition empty_desired :: DesiredState where
  "empty_desired = \<lparr>ds_Version = [], ds_Digest = [], ds_Payload = []\<rparr>"

definition NewStateMachine :: "time \<Rightarrow> string \<Rightarrow> cp_error + StateMachine" where
  "NewStateMachine now clusterID =
     (if \<not> ValidIdentity clusterID then Inl ErrInvalidProposal
      else let initial = \<lparr>st_ClusterID = clusterID, st_LeaderID = [], st_Term = 0, st_Epoch = 0,
             st_Revision = 0, st_Desired = empty_desired, st_WriteFrozen = True,
             st_FreezeReason = ''leader not established'', st_UpdatedAt = now, st_NonceLedger = []\<rparr>
      in Inr \<lparr>m_state = initial, m_committed = initial, m_fences = Map.empty,
           m_committedFences = Map.empty, m_nonces = [], m_proposals = Map.empty\<rparr>)"

definition Snapshot :: "StateMachine \<Rightarrow> State" where
  "Snapshot m = m_committed m"

definition snapshotLocked :: "StateMachine \<Rightarrow> State" where
  "snapshotLocked m = (m_state m)\<lparr>st_NonceLedger := m_nonces m\<rparr>"

subsection \<open>Leadership and freezing\<close>

definition InstallLeadership ::
    "time \<Rightarrow> u64 \<Rightarrow> string \<Rightarrow> StateMachine \<Rightarrow> (cp_error + State) \<times> StateMachine" where
  "InstallLeadership now trm leaderID m =
     (let s = m_state m; com = m_committed m in
      if trm = 0 \<or> \<not> ValidIdentity leaderID then (Inl ErrInvalidProposal, m)
      else if trm < st_Term s \<or> (trm = st_Term s \<and> leaderID = st_LeaderID s)
        then (Inr (snapshotLocked m), m)
      else if trm = st_Term s \<and> leaderID \<noteq> st_LeaderID s then (Inl ErrLeadershipConflict, m)
      else if st_Epoch s = - 1 then
        (Inl ErrInvalidProposal,
         m\<lparr>m_state := s\<lparr>st_WriteFrozen := True, st_FreezeReason := ''epoch overflow''\<rparr>,
           m_committed := com\<lparr>st_WriteFrozen := True, st_FreezeReason := ''epoch overflow''\<rparr>\<rparr>)
      else
        let back = st_WriteFrozen s \<and> st_Revision com \<noteq> st_Revision s;
            base = (if back then com else s);
            ledger = (if back then st_NonceLedger com else m_nonces m);
            open = (\<not> st_WriteFrozen s \<or> st_Revision com = 0
                    \<or> st_FreezeReason s = ''native-raft leadership unavailable'');
            s' = base\<lparr>st_Term := trm, st_LeaderID := leaderID, st_Epoch := st_Epoch base + 1,
                      st_WriteFrozen := \<not> open,
                      st_FreezeReason := (if open then [] else st_FreezeReason s),
                      st_UpdatedAt := now, st_NonceLedger := ledger\<rparr>;
            m' = \<lparr>m_state = s', m_committed = s', m_fences = Map.empty,
                  m_committedFences = Map.empty, m_nonces = ledger, m_proposals = Map.empty\<rparr>
        in (Inr (snapshotLocked m'), m'))"

definition FreezeWrites :: "time \<Rightarrow> string \<Rightarrow> StateMachine \<Rightarrow> StateMachine" where
  "FreezeWrites now reason m =
     (let why = (if reason = [] then ''writes frozen'' else reason) in
      m\<lparr>m_state := (m_state m)\<lparr>st_WriteFrozen := True, st_FreezeReason := why, st_UpdatedAt := now\<rparr>,
        m_committed := (m_committed m)\<lparr>st_WriteFrozen := True, st_FreezeReason := why,
          st_UpdatedAt := now\<rparr>\<rparr>)"

definition validateFenceLocked :: "FenceToken \<Rightarrow> StateMachine \<Rightarrow> cp_error option" where
  "validateFenceLocked token m =
     (let com = m_committed m; digest = m_committedFences m (ft_Revision token) in
      fail_if (ft_ClusterID token \<noteq> st_ClusterID com \<or> ft_LeaderID token \<noteq> st_LeaderID com
        \<or> ft_Epoch token \<noteq> st_Epoch com \<or> ft_Revision token = 0
        \<or> ft_Revision token > st_Revision com \<or> digest \<noteq> Some (ft_Digest token)
        \<or> ft_Nonce token = [] \<or> ledger_get (m_nonces m) (ft_Nonce token) \<noteq> ft_Revision token)
        ErrStaleFence)"

definition ValidateFence :: "FenceToken \<Rightarrow> StateMachine \<Rightarrow> cp_error option" where
  "ValidateFence token m = validateFenceLocked token m"

definition validateResumeFenceLocked :: "FenceToken \<Rightarrow> StateMachine \<Rightarrow> cp_error option" where
  "validateResumeFenceLocked token m =
     (if ft_Revision token \<noteq> st_Revision (m_committed m) then Some ErrStaleFence
      else validateFenceLocked token m)"

definition ResumeWrites :: "time \<Rightarrow> FenceToken \<Rightarrow> StateMachine \<Rightarrow> cp_error option \<times> StateMachine" where
  "ResumeWrites now token m =
     (case validateResumeFenceLocked token m of
        Some e \<Rightarrow> (Some ErrWritesFrozen, m)
      | None \<Rightarrow> (None,
          m\<lparr>m_state := (m_state m)\<lparr>st_WriteFrozen := False, st_FreezeReason := [], st_UpdatedAt := now\<rparr>,
            m_committed := (m_committed m)\<lparr>st_WriteFrozen := False, st_FreezeReason := [],
              st_UpdatedAt := now\<rparr>\<rparr>))"

subsection \<open>Proposals and commits\<close>

definition Propose :: "time \<Rightarrow> Proposal \<Rightarrow> StateMachine \<Rightarrow> (cp_error + Commit) \<times> StateMachine" where
  "Propose now p m =
     (let s = m_state m; digest = (if pr_Digest p = [] then Digest (pr_Payload p) else pr_Digest p) in
      case first_error
        [fail_if (\<not> ValidIdentity (pr_LeaderID p) \<or> \<not> ValidIdentity (pr_Version p)
           \<or> \<not> ValidIdentity (pr_Nonce p)) ErrInvalidProposal,
         fail_if (pr_Payload p = []) ErrInvalidProposal,
         fail_if (\<not> valid_digest digest) ErrInvalidProposal,
         fail_if (digest \<noteq> Digest (pr_Payload p)) ErrInvalidProposal,
         fail_if (st_WriteFrozen s) ErrWritesFrozen,
         fail_if (pr_LeaderID p \<noteq> st_LeaderID s) ErrNotLeader,
         fail_if (pr_ExpectedEpoch p \<noteq> st_Epoch s) ErrStaleEpoch,
         fail_if (pr_ExpectedRevision p \<noteq> st_Revision s) ErrStaleRevision,
         fail_if (map_of (m_nonces m) (pr_Nonce p) \<noteq> None) ErrDuplicateNonce] of
        Some e \<Rightarrow> (Inl e, m)
      | None \<Rightarrow>
          let rev = st_Revision s + 1;
              nonces = AList.update (pr_Nonce p) rev (m_nonces m);
              s' = s\<lparr>st_Revision := rev,
                st_Desired := \<lparr>ds_Version = pr_Version p, ds_Digest = digest, ds_Payload = pr_Payload p\<rparr>,
                st_UpdatedAt := now, st_NonceLedger := nonces\<rparr>;
              commit = \<lparr>cm_State = s', cm_Fence = \<lparr>ft_ClusterID = st_ClusterID s,
                ft_LeaderID = st_LeaderID s, ft_Epoch = st_Epoch s, ft_Revision = rev,
                ft_Digest = digest, ft_Nonce = pr_Nonce p\<rparr>\<rparr>
          in (Inr commit,
              m\<lparr>m_state := s', m_fences := (m_fences m)(rev \<mapsto> digest), m_nonces := nonces,
                m_proposals := (m_proposals m)(rev \<mapsto> commit)\<rparr>))"

definition validateCommitLocked :: "Commit \<Rightarrow> StateMachine \<Rightarrow> cp_error option" where
  "validateCommitLocked c m =
     (let f = cm_Fence c; s = cm_State c; cur = m_state m in first_error
     [fail_if (\<not> ValidIdentity (ft_ClusterID f) \<or> \<not> ValidIdentity (ft_LeaderID f)
        \<or> \<not> ValidIdentity (ft_Nonce f) \<or> ft_Revision f = 0) ErrInvalidCommit,
      fail_if (\<not> ValidIdentity (st_ClusterID s) \<or> \<not> ValidIdentity (st_LeaderID s)
        \<or> \<not> ValidIdentity (ds_Version (st_Desired s)) \<or> ds_Payload (st_Desired s) = []) ErrInvalidCommit,
      fail_if (ds_Digest (st_Desired s) \<noteq> Digest (ds_Payload (st_Desired s))
        \<or> \<not> valid_digest (ds_Digest (st_Desired s))) ErrInvalidCommit,
      fail_if (ft_Digest f \<noteq> ds_Digest (st_Desired s) \<or> \<not> valid_digest (ft_Digest f)
        \<or> st_Revision s \<noteq> ft_Revision f) ErrInvalidCommit,
      fail_if (st_WriteFrozen s) ErrInvalidCommit,
      fail_if (\<not> validNonceLedger (st_NonceLedger s) (st_Revision s)) ErrInvalidCommit,
      fail_if (st_ClusterID s \<noteq> st_ClusterID cur \<or> ft_ClusterID f \<noteq> st_ClusterID cur) ErrInvalidCommit,
      fail_if (st_LeaderID s \<noteq> ft_LeaderID f \<or> st_Term s \<noteq> st_Term cur \<or> st_Epoch s \<noteq> ft_Epoch f
        \<or> st_Revision s > st_Revision cur) ErrInvalidCommit,
      fail_if (ft_LeaderID f \<noteq> st_LeaderID cur \<or> ft_Epoch f \<noteq> st_Epoch cur
        \<or> ft_Revision f > st_Revision cur) ErrInvalidCommit,
      fail_if (m_fences m (ft_Revision f) \<noteq> Some (ft_Digest f)) ErrInvalidCommit,
      fail_if (map_of (m_nonces m) (ft_Nonce f) \<noteq> Some (ft_Revision f)) ErrInvalidCommit,
      fail_if (\<not> list_all (\<lambda>(nonce, r). ledger_get (m_nonces m) nonce = r) (st_NonceLedger s))
        ErrInvalidCommit,
      (case m_proposals m (ft_Revision f) of
         Some source \<Rightarrow> fail_if (\<not> commitsEquivalent source c) ErrInvalidCommit
       | None \<Rightarrow> fail_if (st_Revision s \<noteq> st_Revision (m_committed m)
             \<or> \<not> stateCarriesExactCommit (m_committed m) c) ErrInvalidCommit)])"

definition ValidateCommit :: "Commit \<Rightarrow> StateMachine \<Rightarrow> cp_error option" where
  "ValidateCommit c m = validateCommitLocked c m"

definition validateCurrentCommitLocked :: "Commit \<Rightarrow> StateMachine \<Rightarrow> cp_error option" where
  "validateCurrentCommitLocked c m = first_error
     [validateCommitLocked c m,
      fail_if (st_Revision (cm_State c) \<noteq> st_Revision (m_committed m)) ErrStaleRevision,
      fail_if (\<not> stateCarriesExactCommit (m_committed m) c) ErrInvalidCommit,
      fail_if (m_committedFences m (ft_Revision (cm_Fence c)) \<noteq> Some (ft_Digest (cm_Fence c)))
        ErrStaleFence]"

definition ClaimCurrentCommit :: "Commit \<Rightarrow> StateMachine \<Rightarrow> cp_error option" where
  "ClaimCurrentCommit c m = validateCurrentCommitLocked c m"

definition InstallCommit :: "Commit \<Rightarrow> StateMachine \<Rightarrow> cp_error option \<times> StateMachine" where
  "InstallCommit c m =
     (case validateCommitLocked c m of
        Some e \<Rightarrow> (Some e, m)
      | None \<Rightarrow>
          let frozen = st_WriteFrozen (m_state m);
              s = (cm_State c)\<lparr>st_WriteFrozen := frozen,
                     st_FreezeReason := (if frozen then st_FreezeReason (m_state m) else [])\<rparr>;
              m1 = (if st_Revision (cm_State c) \<ge> st_Revision (m_committed m)
                    then m\<lparr>m_committed := s, m_committedFences := (m_committedFences m)
                           (st_Revision (cm_State c) \<mapsto> ds_Digest (st_Desired (cm_State c)))\<rparr>
                    else m);
              m2 = (if frozen \<or> st_Revision (cm_State c) \<ge> st_Revision (m_state m)
                    then m1\<lparr>m_state := s\<rparr> else m1)
          in (None, m2))"

subsection \<open>Installing a durable snapshot\<close>

definition snapshot_checks :: "State \<Rightarrow> cp_error option" where
  "snapshot_checks snap = first_error
     ([fail_if (\<not> ValidIdentity (st_ClusterID snap)) ErrInvalidCommit]
      @ (if st_Revision snap = 0 then
          [fail_if (ds_Version (st_Desired snap) \<noteq> [] \<or> ds_Payload (st_Desired snap) \<noteq> []
             \<or> ds_Digest (st_Desired snap) \<noteq> []) ErrInvalidCommit,
           fail_if (\<not> validNonceLedger (st_NonceLedger snap) 0) ErrInvalidCommit]
         else
          [fail_if (\<not> ValidIdentity (ds_Version (st_Desired snap)) \<or> ds_Payload (st_Desired snap) = []
             \<or> \<not> valid_digest (ds_Digest (st_Desired snap))
             \<or> ds_Digest (st_Desired snap) \<noteq> Digest (ds_Payload (st_Desired snap))
             \<or> \<not> validNonceLedger (st_NonceLedger snap) (st_Revision snap)) ErrInvalidCommit])
      @ [fail_if (st_LeaderID snap \<noteq> [] \<and> \<not> ValidIdentity (st_LeaderID snap)) ErrInvalidCommit,
         fail_if (st_LeaderID snap = [] \<and> (st_Term snap \<noteq> 0 \<or> st_Epoch snap \<noteq> 0)) ErrInvalidCommit,
         fail_if (st_LeaderID snap = [] \<and> \<not> st_WriteFrozen snap) ErrInvalidCommit,
         fail_if (st_LeaderID snap \<noteq> [] \<and> (st_Term snap = 0 \<or> st_Epoch snap = 0)) ErrInvalidCommit])"

definition snapshot_regress :: "State \<Rightarrow> State option \<Rightarrow> StateMachine \<Rightarrow> cp_error option" where
  "snapshot_regress snap expected m = (let cur = m_committed m in first_error
     [fail_if (st_ClusterID snap \<noteq> st_ClusterID (m_state m)) ErrInvalidCommit,
      fail_if (case expected of None \<Rightarrow> False | Some e \<Rightarrow> \<not> sameLeadershipState cur e) ErrStaleRevision,
      fail_if (st_Revision snap < st_Revision cur \<or> st_Epoch snap < st_Epoch cur
        \<or> (st_Epoch snap = st_Epoch cur \<and> st_Term snap < st_Term cur)) ErrStaleRevision,
      fail_if (st_Epoch snap = st_Epoch cur \<and> st_Term snap \<noteq> st_Term cur) ErrInvalidCommit,
      fail_if (st_Epoch snap = st_Epoch cur \<and> st_LeaderID snap \<noteq> st_LeaderID cur) ErrInvalidCommit,
      fail_if (st_Epoch snap > st_Epoch cur \<and> st_Term snap \<le> st_Term cur) ErrInvalidCommit,
      fail_if (st_Revision snap = st_Revision cur \<and> st_Revision snap > 0
        \<and> (ds_Version (st_Desired snap) \<noteq> ds_Version (st_Desired cur)
           \<or> ds_Digest (st_Desired snap) \<noteq> ds_Digest (st_Desired cur)
           \<or> ds_Payload (st_Desired snap) \<noteq> ds_Payload (st_Desired cur)
           \<or> \<not> sameNonceLedger (st_NonceLedger snap) (st_NonceLedger cur))) ErrInvalidCommit])"

definition loadSnapshot ::
    "time \<Rightarrow> State \<Rightarrow> State option \<Rightarrow> StateMachine \<Rightarrow> cp_error option \<times> StateMachine" where
  "loadSnapshot now snap expected m =
     (case first_error [snapshot_checks snap, snapshot_regress snap expected m] of
        Some e \<Rightarrow> (Some e, m)
      | None \<Rightarrow>
          let frozen = st_WriteFrozen (m_state m);
              snap1 = (if is_zero_time (st_UpdatedAt snap) then snap\<lparr>st_UpdatedAt := now\<rparr> else snap);
              snap2 = (if frozen then snap1\<lparr>st_WriteFrozen := True,
                         st_FreezeReason := st_FreezeReason (m_state m)\<rparr> else snap1);
              fence = (if st_Revision snap > 0
                       then [st_Revision snap \<mapsto> ds_Digest (st_Desired snap)] else Map.empty)
          in (None, \<lparr>m_state = snap2, m_committed = snap2, m_fences = fence,
                m_committedFences = fence, m_nonces = st_NonceLedger snap, m_proposals = Map.empty\<rparr>))"

definition LoadSnapshot :: "time \<Rightarrow> State \<Rightarrow> StateMachine \<Rightarrow> cp_error option \<times> StateMachine" where
  "LoadSnapshot now snap m = loadSnapshot now snap None m"

definition LoadSnapshotIfCurrent ::
    "time \<Rightarrow> State \<Rightarrow> State \<Rightarrow> StateMachine \<Rightarrow> cp_error option \<times> StateMachine" where
  "LoadSnapshotIfCurrent now expected snap m = loadSnapshot now snap (Some expected) m"

end
