(* ===== verification/Control_Properties.thy ===== *)
theory Control_Properties
  imports Control_State
begin

text \<open>
  Properties of the control-plane state machine: the agreement of its two states on the
  leadership, the integrity of the committed payload, the fence of a leadership change, the
  freeze, the single use of nonces, and the path of a proposal to an installed commit.
\<close>

subsection \<open>Runs\<close>

inductive cp_step :: "StateMachine \<Rightarrow> StateMachine \<Rightarrow> bool" where
  leadership: "cp_step m (snd (InstallLeadership now trm leader m))"
| freeze: "cp_step m (FreezeWrites now reason m)"
| resume: "cp_step m (snd (ResumeWrites now token m))"
| propose: "cp_step m (snd (Propose now p m))"
| install: "cp_step m (snd (InstallCommit c m))"
| load: "cp_step m (snd (LoadSnapshot now snap m))"
| load_if: "cp_step m (snd (LoadSnapshotIfCurrent now expected snap m))"

inductive cp_run :: "StateMachine \<Rightarrow> StateMachine \<Rightarrow> bool" for m0 where
  start: "cp_run m0 m0"
| step: "cp_run m0 m \<Longrightarrow> cp_step m h \<Longrightarrow> cp_run m0 h"

definition cp_reachable :: "StateMachine \<Rightarrow> bool" where
  "cp_reachable m \<longleftrightarrow> (\<exists>now cluster m0. NewStateMachine now cluster = Inr m0 \<and> cp_run m0 m)"

lemma cp_reachable_step: "cp_reachable m \<Longrightarrow> cp_step m h \<Longrightarrow> cp_reachable h"
  unfolding cp_reachable_def using cp_run.step by blast

lemma cp_reachable_induct [consumes 1, case_names new step]:
  assumes "cp_reachable m"
    and "\<And>now cluster m. NewStateMachine now cluster = Inr m \<Longrightarrow> P m"
    and "\<And>m h. cp_reachable m \<Longrightarrow> P m \<Longrightarrow> cp_step m h \<Longrightarrow> P h"
  shows "P m"
proof -
  from assms(1) obtain now cluster m0 where m0: "NewStateMachine now cluster = Inr m0" "cp_run m0 m"
    by (auto simp: cp_reachable_def)
  from m0(2) show ?thesis
  proof (induction rule: cp_run.induct)
    case start
    then show ?case using assms(2) m0(1) by blast
  next
    case (step m h)
    then have "cp_reachable m" using m0(1) by (auto simp: cp_reachable_def)
    then show ?case using assms(3) step by blast
  qed
qed

subsection \<open>What a successful validation says\<close>

lemma Digest_valid [simp]: "valid_digest (Digest p)"
  by (simp add: Digest_def)

lemma validateCommitLocked_None:
  assumes "validateCommitLocked c m = None"
  shows "st_ClusterID (cm_State c) = st_ClusterID (m_state m)"
    "st_LeaderID (cm_State c) = st_LeaderID (m_state m)" "st_Term (cm_State c) = st_Term (m_state m)"
    "st_Epoch (cm_State c) = st_Epoch (m_state m)" "st_Revision (cm_State c) \<le> st_Revision (m_state m)"
    "ft_Revision (cm_Fence c) = st_Revision (cm_State c)" "st_Revision (cm_State c) \<noteq> 0"
    "ds_Digest (st_Desired (cm_State c)) = Digest (ds_Payload (st_Desired (cm_State c)))"
    "ds_Payload (st_Desired (cm_State c)) \<noteq> []"
    "ft_Digest (cm_Fence c) = ds_Digest (st_Desired (cm_State c))"
    "validNonceLedger (st_NonceLedger (cm_State c)) (st_Revision (cm_State c))"
    "map_of (m_nonces m) (ft_Nonce (cm_Fence c)) = Some (ft_Revision (cm_Fence c))"
  using assms unfolding validateCommitLocked_def Let_def first_error_None by (auto simp: not_less)

lemma snapshot_checks_desired:
  assumes "snapshot_checks snap = None"
  shows "st_Desired snap = empty_desired
    \<or> ds_Payload (st_Desired snap) \<noteq> [] \<and> ds_Digest (st_Desired snap) = Digest (ds_Payload (st_Desired snap))"
proof (cases "st_Revision snap = 0")
  case True
  then have "ds_Version (st_Desired snap) = [] \<and> ds_Payload (st_Desired snap) = [] \<and> ds_Digest (st_Desired snap) = []"
    using assms unfolding snapshot_checks_def first_error_None by auto
  then show ?thesis by (simp add: empty_desired_def)
next
  case False
  then show ?thesis using assms unfolding snapshot_checks_def first_error_None by auto
qed

lemma loadSnapshot_cases:
  assumes "loadSnapshot now snap expected m = (r, h)"
  obtains (refused) e where "r = Some e" "h = m"
  | (loaded) s where "r = None" "snapshot_checks snap = None" "snapshot_regress snap expected m = None"
      "m_state h = s" "m_committed h = s" "m_nonces h = st_NonceLedger snap"
      "st_Desired s = st_Desired snap" "st_Epoch s = st_Epoch snap" "st_Term s = st_Term snap"
      "st_LeaderID s = st_LeaderID snap" "st_ClusterID s = st_ClusterID snap"
      "st_Revision s = st_Revision snap" "st_NonceLedger s = st_NonceLedger snap"
      "st_WriteFrozen (m_state m) \<Longrightarrow> st_WriteFrozen s"
proof (cases "first_error [snapshot_checks snap, snapshot_regress snap expected m]")
  case None
  then have "snapshot_checks snap = None" "snapshot_regress snap expected m = None"
    unfolding first_error_None by simp_all
  then show thesis using assms None
    by (intro loaded[of "m_state h"]) (auto simp: loadSnapshot_def Let_def)
next
  case (Some e)
  then show thesis using assms
    by (intro refused[of e]) (auto simp: loadSnapshot_def simp del: first_error_Cons)
qed

lemma InstallLeadership_cases:
  assumes "InstallLeadership now trm leader m = (r, h)"
  obtains (kept) "h = m" "isl r \<or> trm \<le> st_Term (m_state m)"
  | (overflow) "r = Inl ErrInvalidProposal"
      "h = m\<lparr>m_state := (m_state m)\<lparr>st_WriteFrozen := True, st_FreezeReason := ''epoch overflow''\<rparr>,
             m_committed := (m_committed m)\<lparr>st_WriteFrozen := True, st_FreezeReason := ''epoch overflow''\<rparr>\<rparr>"
  | (advanced) base where "st_Term (m_state m) < trm" "st_Epoch (m_state m) \<noteq> - 1"
      "base = m_state m \<or> base = m_committed m"
      "st_Term (m_state h) = trm" "st_LeaderID (m_state h) = leader"
      "st_Epoch (m_state h) = st_Epoch base + 1" "st_Desired (m_state h) = st_Desired base"
      "st_ClusterID (m_state h) = st_ClusterID base" "m_committed h = m_state h"
      "m_committedFences h = Map.empty"
      "st_WriteFrozen (m_state m) \<Longrightarrow> \<not> st_WriteFrozen (m_state h) \<Longrightarrow>
         st_Revision (m_committed m) = 0
         \<or> st_FreezeReason (m_state m) = ''native-raft leadership unavailable''"
proof -
  consider (a) "h = m" "isl r \<or> trm \<le> st_Term (m_state m)" | (b) "r = Inl ErrInvalidProposal"
      "h = m\<lparr>m_state := (m_state m)\<lparr>st_WriteFrozen := True, st_FreezeReason := ''epoch overflow''\<rparr>,
             m_committed := (m_committed m)\<lparr>st_WriteFrozen := True, st_FreezeReason := ''epoch overflow''\<rparr>\<rparr>"
    | (c) "st_Term (m_state m) < trm" "st_Epoch (m_state m) \<noteq> - 1"
        "\<not> (trm = 0 \<or> \<not> ValidIdentity leader)"
  proof (cases "trm = 0 \<or> \<not> ValidIdentity leader \<or> \<not> st_Term (m_state m) < trm")
    case True
    then have "h = m" "isl r \<or> trm \<le> st_Term (m_state m)"
      using assms by (auto simp: InstallLeadership_def Let_def not_less split: if_splits)
    then show thesis by (rule a)
  next
    case False
    then have later: "\<not> trm < st_Term (m_state m)" "trm \<noteq> st_Term (m_state m)" "trm \<noteq> 0" "ValidIdentity leader" by auto
    show thesis
    proof (cases "st_Epoch (m_state m) = - 1")
      case True
      then show thesis using assms later by (intro b) (simp_all add: InstallLeadership_def Let_def)
    next
      case epoch: False
      then show thesis using False later by (intro c) simp_all
    qed
  qed
  then show thesis
  proof cases
    case c
    let ?b = "if st_WriteFrozen (m_state m) \<and> st_Revision (m_committed m) \<noteq> st_Revision (m_state m)
              then m_committed m else m_state m"
    have "\<not> trm < st_Term (m_state m)" "trm \<noteq> st_Term (m_state m)" using c(1) by auto
    then have h: "m_committed h = m_state h" "m_committedFences h = Map.empty"
      "st_Term (m_state h) = trm" "st_LeaderID (m_state h) = leader" "st_Epoch (m_state h) = st_Epoch ?b + 1"
      "st_Desired (m_state h) = st_Desired ?b" "st_ClusterID (m_state h) = st_ClusterID ?b"
      "st_WriteFrozen (m_state h) \<longleftrightarrow> st_WriteFrozen (m_state m) \<and> st_Revision (m_committed m) \<noteq> 0
         \<and> st_FreezeReason (m_state m) \<noteq> ''native-raft leadership unavailable''"
      using assms[symmetric] c by (simp_all add: InstallLeadership_def Let_def)
    show thesis
    proof (rule advanced[of ?b])
      show "?b = m_state m \<or> ?b = m_committed m" by simp
      show "st_Revision (m_committed m) = 0 \<or> st_FreezeReason (m_state m) = ''native-raft leadership unavailable''"
        if "st_WriteFrozen (m_state m)" "\<not> st_WriteFrozen (m_state h)" using that h(8) by blast
    qed (fact c(1) c(2) h)+
  qed (use kept overflow in auto)
qed

lemma Propose_cases:
  assumes "Propose now p m = (r, h)"
  obtains (refused) e where "r = Inl e" "h = m"
  | (accepted) s digest where "\<not> st_WriteFrozen (m_state m)" "pr_LeaderID p = st_LeaderID (m_state m)"
      "pr_ExpectedEpoch p = st_Epoch (m_state m)" "pr_ExpectedRevision p = st_Revision (m_state m)"
      "map_of (m_nonces m) (pr_Nonce p) = None" "digest = Digest (pr_Payload p)" "pr_Payload p \<noteq> []"
      "ValidIdentity (pr_LeaderID p)" "ValidIdentity (pr_Version p)" "ValidIdentity (pr_Nonce p)"
      "s = (m_state m)\<lparr>st_Revision := st_Revision (m_state m) + 1,
             st_Desired := \<lparr>ds_Version = pr_Version p, ds_Digest = digest, ds_Payload = pr_Payload p\<rparr>,
             st_UpdatedAt := now,
             st_NonceLedger := AList.update (pr_Nonce p) (st_Revision (m_state m) + 1) (m_nonces m)\<rparr>"
      "r = Inr \<lparr>cm_State = s, cm_Fence = \<lparr>ft_ClusterID = st_ClusterID (m_state m),
             ft_LeaderID = st_LeaderID (m_state m), ft_Epoch = st_Epoch (m_state m),
             ft_Revision = st_Revision (m_state m) + 1, ft_Digest = digest, ft_Nonce = pr_Nonce p\<rparr>\<rparr>"
      "h = m\<lparr>m_state := s, m_fences := (m_fences m)(st_Revision (m_state m) + 1 \<mapsto> digest),
             m_nonces := AList.update (pr_Nonce p) (st_Revision (m_state m) + 1) (m_nonces m),
             m_proposals := (m_proposals m)(st_Revision (m_state m) + 1 \<mapsto> projr r)\<rparr>"
proof -
  let ?d = "if pr_Digest p = [] then Digest (pr_Payload p) else pr_Digest p"
  let ?es = "[fail_if (\<not> ValidIdentity (pr_LeaderID p) \<or> \<not> ValidIdentity (pr_Version p)
           \<or> \<not> ValidIdentity (pr_Nonce p)) ErrInvalidProposal,
         fail_if (pr_Payload p = []) ErrInvalidProposal,
         fail_if (\<not> valid_digest ?d) ErrInvalidProposal,
         fail_if (?d \<noteq> Digest (pr_Payload p)) ErrInvalidProposal,
         fail_if (st_WriteFrozen (m_state m)) ErrWritesFrozen,
         fail_if (pr_LeaderID p \<noteq> st_LeaderID (m_state m)) ErrNotLeader,
         fail_if (pr_ExpectedEpoch p \<noteq> st_Epoch (m_state m)) ErrStaleEpoch,
         fail_if (pr_ExpectedRevision p \<noteq> st_Revision (m_state m)) ErrStaleRevision,
         fail_if (map_of (m_nonces m) (pr_Nonce p) \<noteq> None) ErrDuplicateNonce]"
  show thesis
  proof (cases "first_error ?es")
    case (Some e)
    then show thesis using assms unfolding Propose_def Let_def Some by (intro refused) auto
  next
    case None
    note ok = None[unfolded first_error_None, simplified]
    show thesis
      using assms unfolding Propose_def Let_def None option.case
      by (intro accepted[OF _ _ _ _ _ refl _ _ _ _ refl]) (use ok in \<open>auto split: if_splits\<close>)
  qed
qed

subsection \<open>The invariant\<close>

text \<open>
  The working state and the committed state agree on cluster, leader, term and epoch, and
  both carry a payload that matches its digest (or the empty initial one).
\<close>

definition desired_ok :: "DesiredState \<Rightarrow> bool" where
  "desired_ok d \<longleftrightarrow> d = empty_desired \<or> ds_Payload d \<noteq> [] \<and> ds_Digest d = Digest (ds_Payload d)"

definition cp_inv :: "StateMachine \<Rightarrow> bool" where
  "cp_inv m \<longleftrightarrow> sameLeadershipState (m_state m) (m_committed m)
     \<and> desired_ok (st_Desired (m_state m)) \<and> desired_ok (st_Desired (m_committed m))"

lemma cp_inv_InstallLeadership [wf_intros]:
  assumes "cp_inv m"
  shows "cp_inv (snd (InstallLeadership now trm leader m))"
proof (cases "InstallLeadership now trm leader m")
  case (Pair r h)
  from Pair show ?thesis
    by (cases rule: InstallLeadership_cases)
       (use assms Pair in \<open>auto simp: cp_inv_def sameLeadershipState_def\<close>)
qed

lemma cp_inv_Propose [wf_intros]:
  assumes "cp_inv m"
  shows "cp_inv (snd (Propose now p m))"
proof (cases "Propose now p m")
  case (Pair r h)
  from Pair show ?thesis
    by (cases rule: Propose_cases)
       (use assms Pair in \<open>auto simp: cp_inv_def sameLeadershipState_def desired_ok_def\<close>)
qed

lemma cp_inv_InstallCommit [wf_intros]:
  assumes "cp_inv m"
  shows "cp_inv (snd (InstallCommit c m))"
proof (cases "validateCommitLocked c m")
  case None
  then show ?thesis using assms validateCommitLocked_None[OF None]
    by (auto simp: InstallCommit_def Let_def cp_inv_def sameLeadershipState_def desired_ok_def)
qed (use assms in \<open>simp add: InstallCommit_def\<close>)

lemma cp_inv_loadSnapshot [wf_intros]:
  assumes "cp_inv m"
  shows "cp_inv (snd (loadSnapshot now snap expected m))"
proof (cases "loadSnapshot now snap expected m")
  case (Pair r h)
  from Pair show ?thesis
    by (cases rule: loadSnapshot_cases)
       (use assms Pair snapshot_checks_desired in
         \<open>auto simp: cp_inv_def sameLeadershipState_def desired_ok_def\<close>)
qed

lemma cp_inv_step: "cp_step m h \<Longrightarrow> cp_inv m \<Longrightarrow> cp_inv h"
  by (induction rule: cp_step.induct)
     (auto simp: LoadSnapshot_def LoadSnapshotIfCurrent_def intro: wf_intros,
      auto simp: FreezeWrites_def ResumeWrites_def Let_def cp_inv_def sameLeadershipState_def
        split: option.split)

lemma cp_inv_reachable: "cp_reachable m \<Longrightarrow> cp_inv m"
proof (induction rule: cp_reachable_induct)
  case (new now cluster m)
  then show ?case
    by (auto simp: NewStateMachine_def Let_def cp_inv_def sameLeadershipState_def desired_ok_def
        split: if_splits)
qed (rule cp_inv_step)

text \<open>
  In every reachable state the published snapshot is intact: its digest is the SHA-256 of
  its payload (or nothing has been committed), and the working state belongs to the same
  cluster, leader, term and epoch.
\<close>

theorem snapshot_integrity:
  assumes "cp_reachable m"
  shows "(st_Desired (Snapshot m) = empty_desired
      \<or> ds_Digest (st_Desired (Snapshot m)) = Digest (ds_Payload (st_Desired (Snapshot m))))
    \<and> sameLeadershipState (m_state m) (Snapshot m)"
  using cp_inv_reachable[OF assms] by (auto simp: cp_inv_def desired_ok_def Snapshot_def)

subsection \<open>Epochs only grow\<close>

lemma snapshot_regress_epoch:
  assumes "snapshot_regress snap expected m = None"
  shows "st_Epoch (m_committed m) \<le> st_Epoch snap"
  using assms unfolding snapshot_regress_def Let_def first_error_None by (auto simp: not_less)

lemma loadSnapshot_epoch:
  "st_Epoch (m_committed m) \<le> st_Epoch (m_committed (snd (loadSnapshot now snap expected m)))"
proof (cases "loadSnapshot now snap expected m")
  case (Pair r h)
  from Pair show ?thesis
    by (cases rule: loadSnapshot_cases) (use Pair snapshot_regress_epoch in auto)
qed

lemma InstallLeadership_epoch:
  assumes "cp_inv m"
  shows "st_Epoch (m_committed m) \<le> st_Epoch (m_committed (snd (InstallLeadership now trm leader m)))"
proof (cases "InstallLeadership now trm leader m")
  case (Pair r h)
  have same: "st_Epoch (m_state m) = st_Epoch (m_committed m)"
    using assms by (simp add: cp_inv_def sameLeadershipState_def)
  from Pair show ?thesis
  proof (cases rule: InstallLeadership_cases)
    case (advanced base)
    then have "st_Epoch base = st_Epoch (m_committed m)" using same by auto
    then show ?thesis using advanced Pair same word_plus_one_gt[of "st_Epoch (m_committed m)"]
      by (auto simp: less_imp_le)
  qed (use Pair in auto)
qed

lemma InstallCommit_epoch:
  assumes "cp_inv m"
  shows "st_Epoch (m_committed (snd (InstallCommit c m))) = st_Epoch (m_committed m)"
proof (cases "validateCommitLocked c m")
  case None
  then show ?thesis using assms validateCommitLocked_None(4)[OF None]
    by (auto simp: InstallCommit_def Let_def cp_inv_def sameLeadershipState_def)
qed (simp add: InstallCommit_def)

lemma Propose_leadership: "sameLeadershipState (m_state (snd (Propose now p m))) (m_state m)"
proof (cases "Propose now p m")
  case (Pair r h)
  from Pair show ?thesis
    by (cases rule: Propose_cases) (use Pair in \<open>auto simp: sameLeadershipState_def\<close>)
qed

lemma InstallCommit_leadership: "sameLeadershipState (m_state (snd (InstallCommit c m))) (m_state m)"
proof (cases "validateCommitLocked c m")
  case None
  then show ?thesis using validateCommitLocked_None[OF None]
    by (simp add: InstallCommit_def Let_def sameLeadershipState_def)
qed (simp add: InstallCommit_def sameLeadershipState_def)

lemma Propose_committed [simp]: "m_committed (snd (Propose now p m)) = m_committed m"
proof (cases "Propose now p m")
  case (Pair r h)
  from Pair show ?thesis by (cases rule: Propose_cases) (use Pair in auto)
qed

lemma step_epoch:
  assumes "cp_step m h" "cp_inv m"
  shows "st_Epoch (m_committed m) \<le> st_Epoch (m_committed h)"
  using assms
  by (induction rule: cp_step.induct)
     (auto simp: LoadSnapshot_def LoadSnapshotIfCurrent_def InstallLeadership_epoch InstallCommit_epoch
        loadSnapshot_epoch FreezeWrites_def ResumeWrites_def Let_def split: option.split)

lemma run_epoch:
  assumes "cp_run m h" "cp_inv m"
  shows "st_Epoch (m_committed m) \<le> st_Epoch (m_committed h) \<and> cp_inv h"
  using assms
  by (induction rule: cp_run.induct) (auto dest: step_epoch cp_inv_step intro: order_trans)

text \<open>
  C16: a leadership change fences the previous leader for good: every token that was valid
  before \<open>InstallLeadership\<close> advanced the term is refused in every later state.
\<close>

theorem leadership_fences_old_tokens:
  assumes "cp_reachable m" "ValidateFence token m = None" "st_Term (Snapshot m) < trm"
    and "InstallLeadership now trm leader m = (Inr s, m')" "cp_run m' h"
  shows "ValidateFence token h = Some ErrStaleFence"
proof -
  have inv: "cp_inv m" "cp_inv m'"
    using cp_inv_reachable[OF assms(1)] cp_inv_InstallLeadership[of m now trm leader] assms(4) by simp_all
  have epochs: "st_Epoch (m_state m) = st_Epoch (m_committed m)" "st_Term (m_state m) = st_Term (m_committed m)"
    using inv(1) by (simp_all add: cp_inv_def sameLeadershipState_def)
  have tok: "ft_Epoch token = st_Epoch (m_committed m)"
    using assms(2) by (simp add: ValidateFence_def validateFenceLocked_def Let_def)
  from assms(4) have "st_Epoch (m_committed m) < st_Epoch (m_committed m')"
  proof (cases rule: InstallLeadership_cases)
    case kept
    then show ?thesis using assms(3) epochs(2) by (simp add: Snapshot_def)
  next
    case (advanced base)
    then have "st_Epoch base = st_Epoch (m_committed m)" using epochs by auto
    then show ?thesis using advanced epochs word_plus_one_gt[of "st_Epoch (m_committed m)"] by simp
  qed simp
  moreover have "st_Epoch (m_committed m') \<le> st_Epoch (m_committed h)"
    using run_epoch[OF assms(5) inv(2)] by simp
  ultimately have "ft_Epoch token \<noteq> st_Epoch (m_committed h)" using tok by auto
  then show ?thesis by (simp add: ValidateFence_def validateFenceLocked_def Let_def)
qed

text \<open>
  A freeze is lifted only with authority: when one call takes a frozen machine to an
  unfrozen one, it was \<open>ResumeWrites\<close> with a valid token of the committed revision, or
  \<open>InstallLeadership\<close> with a higher term before anything was committed or after a loss of
  leadership. Commits, snapshots and proposals never lift it, and a frozen machine refuses
  every proposal.
\<close>

theorem freeze_lifted_only_with_authority:
  assumes "cp_step m h" "st_WriteFrozen (m_state m)" "\<not> st_WriteFrozen (m_state h)"
  shows "(\<exists>now token. h = snd (ResumeWrites now token m) \<and> ValidateFence token m = None
        \<and> ft_Revision token = st_Revision (Snapshot m))
    \<or> (\<exists>now trm leader. h = snd (InstallLeadership now trm leader m) \<and> st_Term (m_state m) < trm
        \<and> (st_Revision (Snapshot m) = 0
           \<or> st_FreezeReason (m_state m) = ''native-raft leadership unavailable''))"
  using assms(1)
proof (cases rule: cp_step.cases)
  case (leadership now trm leader)
  then have "InstallLeadership now trm leader m = (fst (InstallLeadership now trm leader m), h)" by simp
  then show ?thesis
  proof (cases rule: InstallLeadership_cases)
    case (advanced base)
    then have "st_Revision (Snapshot m) = 0
        \<or> st_FreezeReason (m_state m) = ''native-raft leadership unavailable''"
      using assms(2,3) by (simp add: Snapshot_def)
    then show ?thesis using advanced(1) leadership by blast
  qed (use assms(2,3) in auto)
next
  case (resume now token)
  show ?thesis
  proof (cases "validateResumeFenceLocked token m")
    case None
    then show ?thesis using resume
      by (auto simp: validateResumeFenceLocked_def ValidateFence_def Snapshot_def split: if_splits)
  next
    case (Some e)
    then show ?thesis using resume assms(2,3) by (simp add: ResumeWrites_def)
  qed
next
  case (propose now p)
  then have "Propose now p m = (fst (Propose now p m), h)" by simp
  then show ?thesis by (cases rule: Propose_cases) (use assms(2,3) in auto)
next
  case (install c)
  then show ?thesis using assms(2,3)
    by (auto simp: InstallCommit_def Let_def split: option.splits if_splits)
next
  case (load now snap)
  then have "loadSnapshot now snap None m = (fst (LoadSnapshot now snap m), h)"
    by (simp add: LoadSnapshot_def)
  then show ?thesis by (cases rule: loadSnapshot_cases) (use assms(2,3) in auto)
next
  case (load_if now expected snap)
  then have "loadSnapshot now snap (Some expected) m = (fst (LoadSnapshotIfCurrent now expected snap m), h)"
    by (simp add: LoadSnapshotIfCurrent_def)
  then show ?thesis by (cases rule: loadSnapshot_cases) (use assms(2,3) in auto)
qed (use assms(3) in \<open>simp add: FreezeWrites_def Let_def\<close>)

subsection \<open>Nonces\<close>

text \<open>Steps that keep the leadership: proposals, commits, freezing and resuming.\<close>

inductive epoch_run :: "StateMachine \<Rightarrow> StateMachine \<Rightarrow> bool" for m0 where
  start: "epoch_run m0 m0"
| propose: "epoch_run m0 m \<Longrightarrow> epoch_run m0 (snd (Propose now p m))"
| install: "epoch_run m0 m \<Longrightarrow> epoch_run m0 (snd (InstallCommit c m))"
| freeze: "epoch_run m0 m \<Longrightarrow> epoch_run m0 (FreezeWrites now reason m)"
| resume: "epoch_run m0 m \<Longrightarrow> epoch_run m0 (snd (ResumeWrites now token m))"

lemma Propose_nonces:
  "map_of (m_nonces m) n \<noteq> None \<Longrightarrow> map_of (m_nonces (snd (Propose now p m))) n \<noteq> None"
proof (cases "Propose now p m")
  case (Pair r h)
  assume used: "map_of (m_nonces m) n \<noteq> None"
  from Pair show ?thesis by (cases rule: Propose_cases) (use Pair used in \<open>auto simp: update_conv'\<close>)
qed

lemma other_nonces [simp]:
  "m_nonces (snd (InstallCommit c m)) = m_nonces m"
  "m_nonces (FreezeWrites now reason m) = m_nonces m"
  "m_nonces (snd (ResumeWrites now token m)) = m_nonces m"
  by (simp_all add: InstallCommit_def FreezeWrites_def ResumeWrites_def Let_def split: option.split)

lemma epoch_run_nonces:
  "epoch_run m h \<Longrightarrow> map_of (m_nonces m) n \<noteq> None \<Longrightarrow> map_of (m_nonces h) n \<noteq> None"
proof (induction rule: epoch_run.induct)
  case (propose m now p)
  then show ?case using Propose_nonces by blast
qed simp_all

text \<open>
  Compare-and-swap: an accepted proposal was made by the current leader for the current
  epoch and revision; it takes exactly the next revision; and its nonce is spent for the whole
  leadership: whatever is proposed, committed, frozen and resumed afterwards, no proposal with
  the same nonce is accepted, so a retry never commits twice.
\<close>

theorem proposal_cas_and_nonce:
  assumes "Propose now p m = (Inr c, m')" "epoch_run m' h" "pr_Nonce p' = pr_Nonce p"
  shows "pr_LeaderID p = st_LeaderID (m_state m) \<and> pr_ExpectedEpoch p = st_Epoch (m_state m)
    \<and> pr_ExpectedRevision p = st_Revision (m_state m) \<and> \<not> st_WriteFrozen (m_state m)
    \<and> st_Revision (m_state m') = st_Revision (m_state m) + 1
    \<and> ft_Revision (cm_Fence c) = st_Revision (m_state m) + 1
    \<and> ft_Digest (cm_Fence c) = Digest (pr_Payload p)
    \<and> Snapshot m' = Snapshot m
    \<and> fst (Propose now' p' h) \<noteq> Inr c'"
proof -
  from assms(1) have acc: "pr_LeaderID p = st_LeaderID (m_state m) \<and> pr_ExpectedEpoch p = st_Epoch (m_state m)
    \<and> pr_ExpectedRevision p = st_Revision (m_state m) \<and> \<not> st_WriteFrozen (m_state m)
    \<and> st_Revision (m_state m') = st_Revision (m_state m) + 1
    \<and> ft_Revision (cm_Fence c) = st_Revision (m_state m) + 1
    \<and> ft_Digest (cm_Fence c) = Digest (pr_Payload p) \<and> Snapshot m' = Snapshot m
    \<and> map_of (m_nonces m') (pr_Nonce p) \<noteq> None"
    by (cases rule: Propose_cases) (auto simp: Snapshot_def update_conv')
  then have used: "map_of (m_nonces h) (pr_Nonce p') \<noteq> None"
    using epoch_run_nonces[OF assms(2)] assms(3) by metis
  have "fst (Propose now' p' h) \<noteq> Inr c'"
  proof
    assume "fst (Propose now' p' h) = Inr c'"
    then have "Propose now' p' h = (Inr c', snd (Propose now' p' h))" by (simp add: prod_eq_iff)
    then show False by (cases rule: Propose_cases) (use used in auto)
  qed
  then show ?thesis using acc by blast
qed

subsection \<open>From a proposal to an installed commit\<close>

text \<open>
  A clean machine: its ledger assigns one nonce to each revision up to the current one, and
  nothing newer than the working state is committed.
\<close>

definition cp_clean :: "StateMachine \<Rightarrow> bool" where
  "cp_clean m \<longleftrightarrow> sameLeadershipState (m_state m) (m_committed m) \<and> distinct (map fst (m_nonces m))
     \<and> validNonceLedger (m_nonces m) (st_Revision (m_state m))
     \<and> st_Revision (m_committed m) \<le> st_Revision (m_state m) \<and> ValidIdentity (st_ClusterID (m_state m))"

lemma update_new: "map_of l n = None \<Longrightarrow> AList.update n v l = l @ [(n, v)]"
  by (induction l) (auto split: if_splits)

lemma validNonceLedger_iff:
  assumes "r \<noteq> 0"
  shows "validNonceLedger l r \<longleftrightarrow> r \<noteq> - 1 \<and> of_nat (length l) = r
     \<and> (\<forall>(n, k) \<in> set l. ValidIdentity n \<and> k \<noteq> 0 \<and> k \<le> r) \<and> distinct (map snd l)
     \<and> (\<forall>k. 0 < k \<and> k \<le> unat r \<longrightarrow> of_nat k \<in> snd ` set l)"
proof -
  have "list_all (\<lambda>k. of_nat k \<in> set (map snd l)) [1..<Suc (unat r)]
      \<longleftrightarrow> (\<forall>k. 0 < k \<and> k \<le> unat r \<longrightarrow> of_nat k \<in> snd ` set l)"
    by (auto simp: list_all_iff simp del: upt_Suc)
  then show ?thesis using assms unfolding validNonceLedger_def by (simp add: list_all_iff del: upt_Suc)
qed

lemma validNonceLedger_below:
  assumes "validNonceLedger l r" "(n, k) \<in> set l"
  shows "k \<le> r \<and> k \<noteq> 0"
  using assms validNonceLedger_iff[of r l] by (cases "r = 0") (auto simp: validNonceLedger_def)

lemma validNonceLedger_extend:
  assumes valid: "validNonceLedger l r" and n: "ValidIdentity n" and r: "r \<noteq> - 1" "r + 1 \<noteq> - 1"
  shows "validNonceLedger (l @ [(n, r + 1)]) (r + 1)"
proof -
  have lt: "r < r + 1" using word_plus_one_gt[OF r(1)] .
  then have nz: "r + 1 \<noteq> 0" by auto
  have len: "of_nat (length l) = r"
    using valid by (cases "r = 0") (auto simp: validNonceLedger_def split: if_splits)
  have below: "\<forall>(n, k) \<in> set l. ValidIdentity n \<and> k \<noteq> 0 \<and> k \<le> r" "distinct (map snd l)"
    using valid validNonceLedger_iff[of r l] by (cases "r = 0"; simp add: validNonceLedger_def)+
  have fresh: "r + 1 \<notin> snd ` set l" using below(1) lt by fastforce
  note un = unat_plus_one[OF r(1)]
  have cover: "of_nat k \<in> snd ` set (l @ [(n, r + 1)])" if k: "0 < k" "k \<le> unat (r + 1)" for k
  proof (cases "k = unat (r + 1)")
    case True
    then show ?thesis by simp
  next
    case False
    then have "k \<le> unat r" using k un by simp
    moreover from this k have "r \<noteq> 0" by auto
    ultimately show ?thesis using valid validNonceLedger_iff[of r l] k by auto
  qed
  show ?thesis
    unfolding validNonceLedger_iff[OF nz]
    using len below fresh cover lt nz r(2) n by (auto simp: image_iff)
qed

lemma ledger_get_self:
  assumes "distinct (map fst l)"
  shows "list_all (\<lambda>(n, k). ledger_get l n = k) l"
  using assms by (auto simp: list_all_iff ledger_get_def map_of_is_SomeI)

lemma sameNonceLedger_refl: "distinct (map fst l) \<Longrightarrow> sameNonceLedger l l"
  by (simp add: sameNonceLedger_def ledger_get_self)

lemma Propose_unfrozen:
  "Propose now p m = (Inr c, m') \<Longrightarrow> \<not> st_WriteFrozen (m_state m')"
  by (erule Propose_cases) simp_all

lemma commitsEquivalent_refl:
  "distinct (map fst (st_NonceLedger (cm_State c))) \<Longrightarrow> commitsEquivalent c c"
  by (simp add: commitsEquivalent_def statesEquivalentForCommit_def sameNonceLedger_refl)

text \<open>The check of a proposed commit depends on the leadership and the bookkeeping only.\<close>

lemma validateCommitLocked_cong:
  assumes "m_proposals m (ft_Revision (cm_Fence c)) = Some source"
    and "sameLeadershipState (m_state h) (m_state m)" "st_Revision (m_state h) = st_Revision (m_state m)"
    and "m_fences h = m_fences m" "m_nonces h = m_nonces m" "m_proposals h = m_proposals m"
  shows "validateCommitLocked c h = None \<longleftrightarrow> validateCommitLocked c m = None"
  using assms(2) unfolding validateCommitLocked_def Let_def assms(1,3-6) option.case
  by (simp only: sameLeadershipState_def)

text \<open>The commit a proposal just produced passes every check, and installing it keeps it current.\<close>

lemma proposed_commit:
  assumes clean: "cp_clean m" and p: "Propose now p m = (Inr c, m')"
    and room: "st_Revision (m_state m) + 1 \<noteq> - 1"
  shows "validateCommitLocked c m' = None" "cm_State c = m_state m'"
    "m_nonces m' = st_NonceLedger (cm_State c)" "distinct (map fst (m_nonces m'))"
    "m_proposals m' (ft_Revision (cm_Fence c)) = Some c"
    "st_Revision (m_committed m') < st_Revision (m_state m')"
    "ds_Payload (st_Desired (m_state m')) = pr_Payload p"
proof -
  let ?r = "st_Revision (m_state m) + 1"
  have nomax: "st_Revision (m_state m) \<noteq> - 1"
    using clean by (auto simp: cp_clean_def validNonceLedger_def split: if_splits)
  have lt: "st_Revision (m_state m) < ?r" using word_plus_one_gt[OF nomax] .
  then have nz: "?r \<noteq> 0" by auto
  from p show "cm_State c = m_state m'" "m_nonces m' = st_NonceLedger (cm_State c)"
      "m_proposals m' (ft_Revision (cm_Fence c)) = Some c"
      "ds_Payload (st_Desired (m_state m')) = pr_Payload p"
    by (cases rule: Propose_cases; simp)+
  from p show "st_Revision (m_committed m') < st_Revision (m_state m')"
    by (cases rule: Propose_cases) (use lt clean in \<open>auto simp: cp_clean_def\<close>)
  from p show dist: "distinct (map fst (m_nonces m'))"
    by (cases rule: Propose_cases) (use clean in \<open>auto simp: cp_clean_def intro: distinct_update\<close>)
  from p show "validateCommitLocked c m' = None"
  proof (cases rule: Propose_cases)
    case (accepted s digest)
    let ?l = "AList.update (pr_Nonce p) ?r (m_nonces m)"
    have l: "?l = m_nonces m @ [(pr_Nonce p, ?r)]" using accepted(5) by (rule update_new)
    have valid: "validNonceLedger ?l ?r"
      unfolding l using clean accepted(10) nomax room
      by (intro validNonceLedger_extend) (simp_all add: cp_clean_def)
    have self: "list_all (\<lambda>(n, k). ledger_get ?l n = k) ?l"
      using dist accepted by (intro ledger_get_self) simp
    have eqv: "commitsEquivalent c c"
      using dist accepted by (intro commitsEquivalent_refl) simp
    have bind: "map_of ?l (pr_Nonce p) = Some ?r" by (simp add: update_conv')
    show ?thesis
      unfolding validateCommitLocked_def Let_def first_error_None
      using accepted valid self eqv bind nz clean by (simp add: cp_clean_def)
  qed simp
qed

lemma installed_commit:
  assumes "cp_clean m" "Propose now p m = (Inr c, m')" "st_Revision (m_state m) + 1 \<noteq> - 1"
  shows "fst (InstallCommit c m') = None
    \<and> ds_Payload (st_Desired (Snapshot (snd (InstallCommit c m')))) = pr_Payload p
    \<and> st_Revision (Snapshot (snd (InstallCommit c m'))) = st_Revision (m_state m) + 1
    \<and> ValidateFence (cm_Fence c) (snd (InstallCommit c m')) = None
    \<and> ClaimCurrentCommit c (snd (InstallCommit c m')) = None
    \<and> cp_clean (snd (InstallCommit c m'))"
proof -
  note pc = proposed_commit[OF assms]
  note v = validateCommitLocked_None[OF pc(1)]
  note unfrozen = Propose_unfrozen[OF assms(2)]
  define s where "s = (cm_State c)\<lparr>st_WriteFrozen := False, st_FreezeReason := []\<rparr>"
  define h where "h = m'\<lparr>m_committed := s, m_committedFences := (m_committedFences m')
      (st_Revision (cm_State c) \<mapsto> ds_Digest (st_Desired (cm_State c))), m_state := s\<rparr>"
  have inst: "InstallCommit c m' = (None, h)"
    using pc(1,2,6) unfrozen by (simp add: InstallCommit_def Let_def s_def h_def less_imp_le)
  have ident: "ValidIdentity (ft_Nonce (cm_Fence c))" "ft_ClusterID (cm_Fence c) = st_ClusterID (cm_State c)"
      "ft_LeaderID (cm_Fence c) = st_LeaderID (cm_State c)" "ft_Epoch (cm_Fence c) = st_Epoch (cm_State c)"
      "ValidIdentity (st_ClusterID (cm_State c))"
    using pc(1) unfolding validateCommitLocked_def Let_def first_error_None by auto
  have get: "ledger_get (st_NonceLedger (cm_State c)) (ft_Nonce (cm_Fence c)) = st_Revision (cm_State c)"
    using v(6,12) pc(3) by (simp add: ledger_get_def)
  have same: "sameNonceLedger (st_NonceLedger (cm_State c)) (st_NonceLedger (cm_State c))"
    using pc(3,4) by (simp add: sameNonceLedger_refl)
  have carries: "stateCarriesExactCommit s c"
    using ident v get same by (simp add: stateCarriesExactCommit_def s_def)
  have fence: "ValidateFence (cm_Fence c) h = None"
    using ident v get pc(3) by (auto simp: ValidateFence_def validateFenceLocked_def Let_def h_def s_def
        ValidIdentity_def)
  have again: "validateCommitLocked c h = None"
    using validateCommitLocked_cong[OF pc(5), of h] pc(1)
    by (simp add: h_def s_def pc(2) sameLeadershipState_def)
  have claim: "ClaimCurrentCommit c h = None"
    unfolding ClaimCurrentCommit_def validateCurrentCommitLocked_def first_error_None
    using again carries v by (simp add: h_def s_def)
  have rv: "st_Revision (m_state m') = st_Revision (m_state m) + 1"
    using assms(2) by (cases rule: Propose_cases) simp_all
  have "cp_clean h"
    using pc(3,4) v(11) ident(5) by (simp add: cp_clean_def h_def s_def sameLeadershipState_def)
  then show ?thesis using inst fence claim pc(2,7) rv by (simp add: Snapshot_def h_def s_def)
qed

text \<open>
  Orderly operation keeps a machine clean: elections, freezes and resumptions, refused
  proposals, and accepted ones that are installed before anything else happens. (Cleanness is
  not an invariant of all runs: \<open>historical_retry_regresses\<close> below leaves it.)
\<close>

inductive orderly :: "StateMachine \<Rightarrow> bool" where
  new: "NewStateMachine now cluster = Inr m \<Longrightarrow> orderly m"
| leadership: "orderly m \<Longrightarrow> orderly (snd (InstallLeadership now trm leader m))"
| freeze: "orderly m \<Longrightarrow> orderly (FreezeWrites now why m)"
| resume: "orderly m \<Longrightarrow> orderly (snd (ResumeWrites now token m))"
| refused: "orderly m \<Longrightarrow> Propose now p m = (Inl e, m') \<Longrightarrow> orderly m'"
| installed: "orderly m \<Longrightarrow> Propose now p m = (Inr c, m') \<Longrightarrow> st_Revision (m_state m) + 1 \<noteq> - 1 \<Longrightarrow>
    orderly (snd (InstallCommit c m'))"

lemma clean_leadership:
  assumes "cp_clean m" "st_Revision (m_committed m) = st_Revision (m_state m)"
  shows "cp_clean (snd (InstallLeadership now trm leader m))
    \<and> st_Revision (m_committed (snd (InstallLeadership now trm leader m)))
        = st_Revision (m_state (snd (InstallLeadership now trm leader m)))"
  using assms by (auto simp: InstallLeadership_def Let_def cp_clean_def sameLeadershipState_def)

lemma orderly_clean_committed:
  "orderly m \<Longrightarrow> cp_clean m \<and> st_Revision (m_committed m) = st_Revision (m_state m)"
proof (induction rule: orderly.induct)
  case (new now cluster m)
  then show ?case
    by (auto simp: NewStateMachine_def Let_def cp_clean_def sameLeadershipState_def validNonceLedger_def
        split: if_splits)
next
  case (leadership m now trm leader)
  then show ?case using clean_leadership by blast
next
  case (freeze m now why)
  then show ?case by (auto simp: FreezeWrites_def Let_def cp_clean_def sameLeadershipState_def)
next
  case (resume m now token)
  then show ?case by (auto simp: ResumeWrites_def cp_clean_def sameLeadershipState_def split: option.split)
next
  case (refused m now p e m')
  from refused.hyps(2) show ?case by (cases rule: Propose_cases) (use refused in simp_all)
next
  case (installed m now p c m')
  have clean: "cp_clean (snd (InstallCommit c m'))"
    using installed_commit[OF conjunct1[OF installed.IH] installed.hyps(2,3)] by blast
  have "fst (InstallCommit c m') = None"
    using installed_commit[OF conjunct1[OF installed.IH] installed.hyps(2,3)] by blast
  moreover have "\<not> st_WriteFrozen (m_state m')" using Propose_unfrozen[OF installed.hyps(2)] by simp
  ultimately have "m_committed (snd (InstallCommit c m')) = m_state (snd (InstallCommit c m'))"
    using proposed_commit(2,6)[OF conjunct1[OF installed.IH] installed.hyps(2,3)]
    by (auto simp: InstallCommit_def Let_def less_imp_le split: option.splits if_splits)
  then show ?case using clean by simp
qed

lemma orderly_clean: "orderly m \<Longrightarrow> cp_clean m"
  using orderly_clean_committed by blast

text \<open>
  C17: a proposal reaches the data plane: on a clean machine, which orderly operation always
  leaves, with room for another revision, an accepted proposal yields a
  commit that \<open>InstallCommit\<close> installs, after which the snapshot carries the proposed
  payload, the commit's token passes \<open>ValidateFence\<close>, the commit is the exact current
  one for \<open>ClaimCurrentCommit\<close>, and the machine is clean again, ready for the next revision.
\<close>

theorem proposal_installs:
  assumes "cp_clean m \<or> orderly m" "Propose now p m = (Inr c, m')" "st_Revision (m_state m) + 1 \<noteq> - 1"
  shows "fst (InstallCommit c m') = None
    \<and> ds_Payload (st_Desired (Snapshot (snd (InstallCommit c m')))) = pr_Payload p
    \<and> st_Revision (Snapshot (snd (InstallCommit c m'))) = st_Revision (m_state m) + 1
    \<and> ValidateFence (cm_Fence c) (snd (InstallCommit c m')) = None
    \<and> ClaimCurrentCommit c (snd (InstallCommit c m')) = None
    \<and> cp_clean (snd (InstallCommit c m'))"
  using installed_commit[OF _ assms(2,3)] orderly_clean assms(1) by blast

subsection \<open>Historical commits\<close>

lemma validateCommitLocked_ledger:
  assumes "validateCommitLocked c m = None"
  shows "list_all (\<lambda>(n, k). ledger_get (m_nonces m) n = k) (st_NonceLedger (cm_State c))"
  using assms unfolding validateCommitLocked_def Let_def first_error_None by simp

lemma ledger_get_update:
  assumes "map_of l n' = None" "ledger_get l n = k" "k \<noteq> 0"
  shows "ledger_get (AList.update n' v l) n = k"
  using assms by (auto simp: ledger_get_def lookup_or_def update_conv' split: option.splits)

lemma commit_valid_after_Propose:
  assumes v: "validateCommitLocked c m = None" and max: "st_Revision (m_state m) \<noteq> - 1"
  shows "validateCommitLocked c (snd (Propose now p m)) = None"
proof (cases "Propose now p m")
  case (Pair r h)
  note c = validateCommitLocked_None[OF v]
  have lt: "st_Revision (m_state m) < st_Revision (m_state m) + 1" using word_plus_one_gt[OF max] .
  have below: "st_Revision (cm_State c) \<noteq> st_Revision (m_state m) + 1"
      "st_Revision (cm_State c) \<le> st_Revision (m_state m) + 1" using c(5) lt by auto
  from Pair show ?thesis
  proof (cases rule: Propose_cases)
    case (accepted s digest)
    have led: "list_all (\<lambda>(n, k). ledger_get (m_nonces h) n = k) (st_NonceLedger (cm_State c))"
    proof (unfold list_all_iff, clarify)
      fix n k assume nk: "(n, k) \<in> set (st_NonceLedger (cm_State c))"
      then have "ledger_get (m_nonces m) n = k" "k \<noteq> 0"
        using validateCommitLocked_ledger[OF v] validNonceLedger_below[OF c(11)] by (auto simp: list_all_iff)
      then show "ledger_get (m_nonces h) n = k" using accepted ledger_get_update by simp
    qed
    have "ft_Nonce (cm_Fence c) \<noteq> pr_Nonce p" using c(12) accepted(5) by auto
    then have bind: "map_of (m_nonces h) (ft_Nonce (cm_Fence c)) = Some (ft_Revision (cm_Fence c))"
      using accepted c(12) by (simp add: update_conv')
    have "sameLeadershipState (m_state h) (m_state m)"
      using Propose_leadership[of now p m] Pair by simp
    moreover have "m_fences h (ft_Revision (cm_Fence c)) = m_fences m (ft_Revision (cm_Fence c))"
        "m_proposals h (ft_Revision (cm_Fence c)) = m_proposals m (ft_Revision (cm_Fence c))"
        "m_committed h = m_committed m" "st_Revision (m_state h) = st_Revision (m_state m) + 1"
      using accepted below c(6) by simp_all
    ultimately show ?thesis
      using v led bind below c(6) Pair
      unfolding validateCommitLocked_def Let_def first_error_None
      by (auto simp: sameLeadershipState_def not_less split: option.splits)
  qed (use v Pair in simp)
qed

lemma commit_valid_after_InstallCommit:
  assumes v: "validateCommitLocked c m = None" and pq: "m_proposals m (ft_Revision (cm_Fence c)) = Some q"
    and unfrozen: "\<not> st_WriteFrozen (m_state m)"
  shows "validateCommitLocked c (snd (InstallCommit d m)) = None"
proof (cases "validateCommitLocked d m")
  case None
  have "st_Revision (m_state (snd (InstallCommit d m))) = st_Revision (m_state m)"
    using None validateCommitLocked_None(5)[OF None] unfrozen by (simp add: InstallCommit_def Let_def)
  moreover have "m_fences (snd (InstallCommit d m)) = m_fences m"
      "m_proposals (snd (InstallCommit d m)) = m_proposals m"
    using None by (simp_all add: InstallCommit_def Let_def)
  ultimately show ?thesis
    using validateCommitLocked_cong[OF pq InstallCommit_leadership[of d m]] v by simp
qed (use v in \<open>simp add: InstallCommit_def\<close>)

text \<open>
  A commit of the current epoch stays valid for a retry: after any later proposal, and
  after any commit installed while writes are not frozen, \<open>ValidateCommit\<close> still accepts it.
\<close>

theorem historical_commit_stays_valid:
  assumes "ValidateCommit c m = None" "m_proposals m (ft_Revision (cm_Fence c)) \<noteq> None"
    and "st_Revision (m_state m) \<noteq> - 1" "\<not> st_WriteFrozen (m_state m)"
  shows "ValidateCommit c (snd (Propose now p m)) = None
    \<and> ValidateCommit c (snd (InstallCommit d m)) = None"
  using assms commit_valid_after_Propose commit_valid_after_InstallCommit
  by (auto simp: ValidateCommit_def)

text \<open>
  The retry of such a commit while writes are frozen replaces the working state by the older
  one. If the freeze is then lifted with the current token and leadership changes, the
  committed state falls back to the older revision.
\<close>

theorem historical_retry_regresses:
  assumes v: "ValidateCommit c m = None" and older: "st_Revision (cm_State c) < st_Revision (Snapshot m)"
    and tok: "ValidateFence token m = None" "ft_Revision token = st_Revision (Snapshot m)"
    and lead: "st_Term (m_state m) < trm" "ValidIdentity leader" "st_Epoch (m_state m) \<noteq> - 1"
    and m1: "m1 = FreezeWrites now why m" and m2: "m2 = snd (InstallCommit c m1)"
    and m3: "m3 = snd (ResumeWrites now token m2)" and m4: "m4 = snd (InstallLeadership now trm leader m3)"
  shows "st_Revision (Snapshot m4) = st_Revision (cm_State c)
    \<and> st_Desired (Snapshot m4) = st_Desired (cm_State c)"
proof -
  have "m_proposals m (ft_Revision (cm_Fence c)) \<noteq> None"
    using v older unfolding ValidateCommit_def validateCommitLocked_def Let_def first_error_None
    by (auto simp: Snapshot_def split: option.splits)
  then obtain q where "m_proposals m (ft_Revision (cm_Fence c)) = Some q" by blast
  then have v1: "validateCommitLocked c m1 = None"
    using validateCommitLocked_cong[of m c q m1] v
    by (simp add: m1 FreezeWrites_def Let_def ValidateCommit_def sameLeadershipState_def)
  note cm = validateCommitLocked_None[OF v1]
  have f1: "st_WriteFrozen (m_state m1)" "st_Revision (m_committed m1) = st_Revision (m_committed m)"
      "m_committedFences m1 = m_committedFences m" "m_nonces m1 = m_nonces m"
    by (simp_all add: m1 FreezeWrites_def Let_def)
  have s2: "m_state m2 = (cm_State c)\<lparr>st_WriteFrozen := True, st_FreezeReason := st_FreezeReason (m_state m1)\<rparr>"
      "m_committed m2 = m_committed m1" "m_committedFences m2 = m_committedFences m" "m_nonces m2 = m_nonces m"
    using v1 f1 older[unfolded Snapshot_def not_le[symmetric]]
    by (simp_all add: m2 InstallCommit_def Let_def)
  have "validateResumeFenceLocked token m2 = None"
    using tok s2 by (simp add: validateResumeFenceLocked_def ValidateFence_def validateFenceLocked_def
        Let_def m1 FreezeWrites_def Snapshot_def)
  then have s3: "m_state m3 = (cm_State c)\<lparr>st_WriteFrozen := False, st_FreezeReason := [], st_UpdatedAt := now\<rparr>"
    using s2 by (simp add: m3 ResumeWrites_def)
  have eqs: "st_Term (m_state m3) = st_Term (m_state m)" "st_Epoch (m_state m3) = st_Epoch (m_state m)"
    using cm(3,4) by (simp_all add: s3 m1 FreezeWrites_def Let_def)
  have ok: "\<not> (trm = 0 \<or> \<not> ValidIdentity leader)" "\<not> trm < st_Term (m_state m3)"
      "trm \<noteq> st_Term (m_state m3)" "st_Epoch (m_state m3) \<noteq> - 1"
    using lead eqs by auto
  show ?thesis unfolding m4 using ok by (simp add: InstallLeadership_def Let_def Snapshot_def s3)
qed

subsection \<open>An example machine\<close>

text \<open>A cluster whose first leader has been elected, and its first two proposals.\<close>

definition ex_m0 :: StateMachine where
  "ex_m0 = projr (NewStateMachine 1 ''c1'')"

definition ex_m1 :: StateMachine where
  "ex_m1 = snd (InstallLeadership 2 1 ''n1'' ex_m0)"

definition ex_proposal :: "u64 \<Rightarrow> string \<Rightarrow> Proposal" where
  "ex_proposal rv nonce = \<lparr>pr_LeaderID = ''n1'', pr_ExpectedEpoch = 1, pr_ExpectedRevision = rv,
     pr_Version = ''v1'', pr_Payload = ''{}'', pr_Digest = [], pr_Nonce = nonce\<rparr>"

lemma ex_m0_new: "NewStateMachine 1 ''c1'' = Inr ex_m0"
proof -
  have "\<not> isl (NewStateMachine 1 ''c1'')" by code_simp
  then show ?thesis by (simp add: ex_m0_def)
qed

lemma ex_m1_reachable: "cp_reachable ex_m1"
proof -
  have "cp_run ex_m0 ex_m1"
    unfolding ex_m1_def by (rule cp_run.step[OF cp_run.start cp_step.leadership])
  then show ?thesis using ex_m0_new by (auto simp: cp_reachable_def)
qed

lemma ex_m1_fields:
  "st_WriteFrozen (m_state ex_m1) = False" "st_LeaderID (m_state ex_m1) = ''n1''"
  "st_Epoch (m_state ex_m1) = 1" "st_Revision (m_state ex_m1) = 0" "st_Term (m_state ex_m1) = 1"
  "m_nonces ex_m1 = []" "st_Revision (m_committed ex_m1) = 0" "ValidIdentity (st_ClusterID (m_state ex_m1))"
  by code_simp+

lemma ex_m1_clean: "cp_clean ex_m1"
  using cp_inv_reachable[OF ex_m1_reachable]
  by (simp add: cp_clean_def cp_inv_def ex_m1_fields validNonceLedger_def)

lemma ex_identities: "ValidIdentity ''n1''" "ValidIdentity ''n2''" "ValidIdentity ''v1''"
    "ValidIdentity ''a''" "ValidIdentity ''b''"
  by code_simp+

lemma ex_proposal_accepted:
  assumes "st_WriteFrozen (m_state m) = False" "st_LeaderID (m_state m) = ''n1''"
    "st_Epoch (m_state m) = 1" "st_Revision (m_state m) = rv" "map_of (m_nonces m) n = None" "ValidIdentity n"
  shows "\<exists>c h. Propose now (ex_proposal rv n) m = (Inr c, h)"
  unfolding Propose_def Let_def using assms by (simp add: ex_proposal_def ex_identities)

definition ex_c1 :: Commit where
  "ex_c1 = projr (fst (Propose 3 (ex_proposal 0 ''a'') ex_m1))"

definition ex_m2 :: StateMachine where
  "ex_m2 = snd (Propose 3 (ex_proposal 0 ''a'') ex_m1)"

definition ex_m3 :: StateMachine where
  "ex_m3 = snd (InstallCommit ex_c1 ex_m2)"

lemma ex_propose1: "Propose 3 (ex_proposal 0 ''a'') ex_m1 = (Inr ex_c1, ex_m2)"
proof -
  obtain c h where "Propose 3 (ex_proposal 0 ''a'') ex_m1 = (Inr c, h)"
    using ex_proposal_accepted[of ex_m1 0 "''a''" 3] by (auto simp: ex_m1_fields ex_identities)
  then show ?thesis by (simp add: ex_c1_def ex_m2_def)
qed

lemma ex_m3_facts:
  "cp_reachable ex_m3" "cp_clean ex_m3" "ValidateFence (cm_Fence ex_c1) ex_m3 = None"
  "st_Revision (Snapshot ex_m3) = 1" "InstallCommit ex_c1 ex_m2 = (None, ex_m3)"
proof -
  have "cp_reachable ex_m2"
    using cp_reachable_step[OF ex_m1_reachable cp_step.propose] by (simp add: ex_m2_def)
  from cp_reachable_step[OF this cp_step.install] show "cp_reachable ex_m3" by (simp add: ex_m3_def)
  have "st_Revision (m_state ex_m1) + 1 \<noteq> - 1" by (simp add: ex_m1_fields)
  from installed_commit[OF ex_m1_clean ex_propose1 this]
  show "cp_clean ex_m3" "ValidateFence (cm_Fence ex_c1) ex_m3 = None" "st_Revision (Snapshot ex_m3) = 1"
      "InstallCommit ex_c1 ex_m2 = (None, ex_m3)"
    by (simp_all add: ex_m3_def ex_m1_fields prod_eq_iff)
qed

theorem snapshot_integrity_witness:
  "cp_reachable ex_m3 \<and> sameLeadershipState (m_state ex_m3) (Snapshot ex_m3)"
  using snapshot_integrity[OF ex_m3_facts(1)] ex_m3_facts(1) by blast

theorem proposal_installs_witness:
  "ds_Payload (st_Desired (Snapshot ex_m3)) = ''{}'' \<and> ClaimCurrentCommit ex_c1 ex_m3 = None"
proof -
  have "st_Revision (m_state ex_m1) + 1 \<noteq> - 1" by (simp add: ex_m1_fields)
  from proposal_installs[OF disjI1[OF ex_m1_clean] ex_propose1 this] show ?thesis
    by (simp add: ex_m3_def ex_proposal_def)
qed

theorem proposal_cas_and_nonce_witness:
  "\<not> (\<exists>c. fst (Propose 4 (ex_proposal 1 ''a'') ex_m3) = Inr c)"
proof -
  have "epoch_run ex_m2 ex_m3"
    unfolding ex_m3_def by (rule epoch_run.install[OF epoch_run.start])
  moreover have "pr_Nonce (ex_proposal 1 ''a'') = pr_Nonce (ex_proposal 0 ''a'')"
    by (simp add: ex_proposal_def)
  ultimately show ?thesis using proposal_cas_and_nonce[OF ex_propose1] by blast
qed

theorem leadership_fences_old_tokens_witness:
  "ValidateFence (cm_Fence ex_c1) ex_m3 = None
   \<and> ValidateFence (cm_Fence ex_c1) (snd (InstallLeadership 5 2 ''n2'' ex_m3)) = Some ErrStaleFence"
proof -
  let ?i = "InstallLeadership 5 2 ''n2'' ex_m3"
  have t: "st_Term (m_state ex_m3) = 1" "st_Epoch (m_state ex_m3) = 1"
    using Propose_leadership[of 3 "ex_proposal 0 ''a''" ex_m1] InstallCommit_leadership[of ex_c1 ex_m2]
    by (simp_all add: ex_m2_def ex_m3_def sameLeadershipState_def ex_m1_fields)
  have "st_Term (Snapshot ex_m3) = 1"
    using ex_m3_facts(2) t by (simp add: cp_clean_def sameLeadershipState_def Snapshot_def)
  moreover have "\<exists>s. ?i = (Inr s, snd ?i)"
    using t by (simp add: InstallLeadership_def Let_def ex_identities)
  ultimately show ?thesis
    using leadership_fences_old_tokens[OF ex_m3_facts(1,3) _ _ cp_run.start] ex_m3_facts(3) by force
qed

theorem freeze_lifted_only_with_authority_witness:
  "st_WriteFrozen (m_state ex_m0) \<and> \<not> st_WriteFrozen (m_state ex_m1)
   \<and> (\<exists>now trm leader. ex_m1 = snd (InstallLeadership now trm leader ex_m0)
        \<or> (\<exists>token. ex_m1 = snd (ResumeWrites now token ex_m0)))"
proof -
  have "st_WriteFrozen (m_state ex_m0)" "\<not> st_WriteFrozen (m_state ex_m1)" by code_simp+
  moreover have "cp_step ex_m0 ex_m1" unfolding ex_m1_def by (rule cp_step.leadership)
  ultimately show ?thesis using freeze_lifted_only_with_authority[of ex_m0 ex_m1] by blast
qed

theorem historical_commit_stays_valid_witness:
  "ValidateCommit ex_c1 ex_m3 = None \<and> ValidateCommit ex_c1 (snd (Propose 4 (ex_proposal 1 ''b'') ex_m3)) = None"
proof -
  have room: "st_Revision (m_state ex_m1) + 1 \<noteq> - 1" by (simp add: ex_m1_fields)
  note pc = proposed_commit[OF ex_m1_clean ex_propose1 room]
  note unfrozen = Propose_unfrozen[OF ex_propose1]
  have "validateCommitLocked ex_c1 ex_m3 = None"
    unfolding ex_m3_def by (rule commit_valid_after_InstallCommit[OF pc(1,5) unfrozen])
  moreover have "m_proposals ex_m3 (ft_Revision (cm_Fence ex_c1)) = Some ex_c1"
      "\<not> st_WriteFrozen (m_state ex_m3)"
    using pc(1,5) unfrozen by (simp_all add: ex_m3_def InstallCommit_def Let_def)
  moreover have "st_Revision (m_state ex_m3) \<noteq> - 1"
    using ex_m3_facts(2) by (auto simp: cp_clean_def validNonceLedger_def split: if_splits)
  ultimately show ?thesis using historical_commit_stays_valid[of ex_c1 ex_m3] by (simp add: ValidateCommit_def)
qed

end
