(* ===== verification/Token_Manager.thy ===== *)
theory Token_Manager
  imports Go_Crypto Event_Log
begin

text \<open>
  \<open>internal/tokens/manager.go\<close>: scoped management tokens with their lifetime policy,
  authorization, revocation, coalesced cleanup and event log.

  Randomness is an argument: the list of the 48-byte values \<open>rand.Read\<close> delivers, or
  \<open>None\<close> where it fails. The creation loop draws until the identifier is free; a result
  \<open>None\<close> means that the given draws did not suffice. Ranging over the token map visits
  the tokens in an unspecified order, which is an argument of \<open>Cleanup\<close>.
\<close>

definition go_day :: duration where
  "go_day = 24 * go_hour"

definition DefaultTTL :: duration where
  "DefaultTTL = 90 * go_day"

definition MaxTTL :: duration where
  "MaxTTL = 365 * go_day"

definition InactivityTTL :: duration where
  "InactivityTTL = 180 * go_day"

definition CleanupDelay :: duration where
  "CleanupDelay = 10 * go_minute"

datatype token_error =
    ErrInvalidRequest | ErrInvalidTTL | ErrTTLExceeded | ErrSecondConfirmationRequired | ErrNotFound
  | ErrInvalidSecret | ErrPermissionDenied | ErrResourceDenied | ErrExpired | ErrInactive
  | ErrDisabled | ErrRevoked | ErrAlreadyDisabled | ErrAlreadyRevoked | ErrInvalidTime | ErrRandom

type_synonym EventType = string

definition EventCreated :: EventType where "EventCreated = ''created''"

definition EventAuthorized :: EventType where "EventAuthorized = ''authorized''"

definition EventDisabled :: EventType where "EventDisabled = ''disabled''"

definition EventRevoked :: EventType where "EventRevoked = ''revoked''"

definition EventAutoDestroyed :: EventType where "EventAutoDestroyed = ''auto_destroyed''"

record CreateRequest =
  cr_Owner :: string
  cr_Permissions :: "string list"
  cr_Resources :: "string list"
  cr_Scopes :: "string list"
  cr_Note :: string
  cr_PolicyEpoch :: u64
  cr_TTL :: duration
  cr_NeverExpire :: bool
  cr_ConfirmNeverExpire :: bool

record Metadata =
  md_ID :: string
  md_Owner :: string
  md_Permissions :: "string list"
  md_Resources :: "string list"
  md_Scopes :: "string list"
  md_Note :: string
  md_PolicyEpoch :: u64
  md_CreatedAt :: time
  md_ExpiresAt :: time
  md_NeverExpire :: bool
  md_Disabled :: bool
  md_Revoked :: bool
  md_LastActivityAt :: time

record Issued =
  is_Metadata :: Metadata
  is_Secret :: string

record Lifetime =
  lt_ExpiresAt :: time
  lt_NeverExpire :: bool

record TokenEvent =
  te_Sequence :: u64
  te_Type :: EventType
  te_At :: time
  te_TokenID :: string
  te_Actor :: string
  te_Reason :: string
  te_Notification :: bool

record token_record =
  tr_metadata :: Metadata
  tr_secret :: string

record Manager =
  tokens :: "string \<rightharpoonup> token_record"
  tm_events :: "TokenEvent list"
  tm_sequence :: u64
  cleanupAt :: time
  firstCreation :: time
  lastCreation :: time

definition NewManager :: Manager where
  "NewManager = \<lparr>tokens = Map.empty, tm_events = [], tm_sequence = 0, cleanupAt = zero_time,
     firstCreation = zero_time, lastCreation = zero_time\<rparr>"

subsection \<open>Lifetimes, identities and credentials\<close>

definition ResolveLifetime ::
    "time \<Rightarrow> duration \<Rightarrow> time \<Rightarrow> bool \<Rightarrow> bool \<Rightarrow> token_error + Lifetime" where
  "ResolveLifetime now ttl expiresAt neverExpire confirmNeverExpire =
     (if is_zero_time now then Inl ErrInvalidTTL
      else if neverExpire then
        (if \<not> confirmNeverExpire then Inl ErrSecondConfirmationRequired
         else if ttl \<noteq> 0 \<or> \<not> is_zero_time expiresAt then Inl ErrInvalidTTL
         else Inr \<lparr>lt_ExpiresAt = zero_time, lt_NeverExpire = True\<rparr>)
      else if ttl < 0 \<or> (\<not> is_zero_time expiresAt \<and> ttl \<noteq> 0) then Inl ErrInvalidTTL
      else if \<not> is_zero_time expiresAt then
        (if \<not> expiresAt > now then Inl ErrInvalidTTL
         else if expiresAt > now + MaxTTL then Inl ErrTTLExceeded
         else Inr \<lparr>lt_ExpiresAt = expiresAt, lt_NeverExpire = False\<rparr>)
      else let ttl' = (if ttl = 0 then DefaultTTL else ttl) in
        if ttl' \<le> 0 then Inl ErrInvalidTTL
        else if ttl' > MaxTTL then Inl ErrTTLExceeded
        else Inr \<lparr>lt_ExpiresAt = now + ttl', lt_NeverExpire = False\<rparr>)"

definition strictIdentity :: "string \<Rightarrow> bool" where
  "strictIdentity value \<longleftrightarrow> value \<noteq> []
     \<and> \<not> list_ex (\<lambda>r. is_space r \<or> is_control r \<or> is_format r) (runes value)"

fun normalize_loop :: "string set \<Rightarrow> string list \<Rightarrow> string list \<Rightarrow> string list option" where
  "normalize_loop seen out [] = Some out"
| "normalize_loop seen out (v # vs) =
     (if \<not> strictIdentity v then None
      else if v \<in> seen then normalize_loop seen out vs
      else normalize_loop (insert v seen) (out @ [v]) vs)"

definition normalize :: "string list \<Rightarrow> string list \<times> bool" where
  "normalize values = (case normalize_loop {} [] values of
       None \<Rightarrow> ([], False) | Some out \<Rightarrow> (out, length out > 0))"

definition matches :: "string list \<Rightarrow> string \<Rightarrow> bool" where
  "matches values wanted \<longleftrightarrow> wanted \<noteq> [] \<and> list_ex (\<lambda>v. v = wanted \<or> v = ''*'') values"

definition hashSecret :: "string \<Rightarrow> string" where
  "hashSecret secret = sha256 secret"

definition newCredential :: "string \<Rightarrow> string \<times> string \<times> string" where
  "newCredential raw = (let secret = hex_encode raw in
     (''tok_'' @ hex_encode (take 16 raw), secret, hashSecret secret))"

fun draw_credential ::
    "(string \<rightharpoonup> token_record) \<Rightarrow> string option list \<Rightarrow> (token_error + string \<times> string \<times> string) option" where
  "draw_credential toks [] = None"
| "draw_credential toks (None # ds) = Some (Inl ErrRandom)"
| "draw_credential toks (Some raw # ds) =
     (if toks (fst (newCredential raw)) \<noteq> None then draw_credential toks ds
      else Some (Inr (newCredential raw)))"

subsection \<open>Operations\<close>

definition appendEvent ::
    "time \<Rightarrow> EventType \<Rightarrow> string \<Rightarrow> string \<Rightarrow> string \<Rightarrow> bool \<Rightarrow> Manager \<Rightarrow> Manager" where
  "appendEvent t0 ty tid actor reason notification m =
     (let s = tm_sequence m + 1 in
      m\<lparr>tm_sequence := s, tm_events := tm_events m @ [\<lparr>te_Sequence = s, te_Type = ty, te_At = t0,
         te_TokenID = tid, te_Actor = actor, te_Reason = reason, te_Notification = notification\<rparr>]\<rparr>)"

definition minTime :: "time \<Rightarrow> time \<Rightarrow> time" where
  "minTime a b = (if a < b then a else b)"

definition create_capabilities :: "time \<Rightarrow> CreateRequest \<Rightarrow> token_error + string list \<times> string list" where
  "create_capabilities now req =
     (if \<not> strictIdentity (cr_Owner req) \<or> length (cr_Permissions req) = 0
         \<or> (length (cr_Resources req) = 0 \<and> length (cr_Scopes req) = 0) \<or> cr_PolicyEpoch req = 0
         \<or> is_zero_time now then Inl ErrInvalidRequest
      else let (permissions, ok) = normalize (cr_Permissions req) in
        if \<not> ok then Inl ErrInvalidRequest
        else let (resources, ok) = normalize (cr_Resources req);
                 merged = (if length (cr_Resources req) = 0 then Inr (normalize (cr_Scopes req))
                   else if length (cr_Scopes req) > 0 then
                     (let (aliases, aliasesOK) = normalize (cr_Scopes req) in
                      if \<not> aliasesOK then Inl ErrInvalidRequest else Inr (normalize (resources @ aliases)))
                   else Inr (resources, ok))
             in case merged of
                  Inl e \<Rightarrow> Inl e
                | Inr (resources', ok') \<Rightarrow>
                    if \<not> ok' then Inl ErrInvalidRequest else Inr (permissions, resources'))"

definition create_metadata ::
    "time \<Rightarrow> CreateRequest \<Rightarrow> string list \<Rightarrow> string list \<Rightarrow> Lifetime \<Rightarrow> string \<Rightarrow> Metadata" where
  "create_metadata now req permissions resources lifetime tid =
     \<lparr>md_ID = tid, md_Owner = cr_Owner req, md_Permissions = permissions, md_Resources = resources,
      md_Scopes = resources, md_Note = cr_Note req, md_PolicyEpoch = cr_PolicyEpoch req,
      md_CreatedAt = now, md_ExpiresAt = lt_ExpiresAt lifetime, md_NeverExpire = lt_NeverExpire lifetime,
      md_Disabled = False, md_Revoked = False, md_LastActivityAt = now\<rparr>"

definition store_token :: "time \<Rightarrow> Metadata \<Rightarrow> string \<Rightarrow> Manager \<Rightarrow> Manager" where
  "store_token now meta digest m =
     (let first = (if is_zero_time (firstCreation m) then now else firstCreation m)
      in appendEvent now EventCreated (md_ID meta) (md_Owner meta) [] False
           (m\<lparr>tokens := (tokens m)(md_ID meta \<mapsto> \<lparr>tr_metadata = meta, tr_secret = digest\<rparr>),
              firstCreation := first, lastCreation := now,
              cleanupAt := minTime (now + CleanupDelay) (first + go_hour)\<rparr>))"

definition Create ::
    "string option list \<Rightarrow> time \<Rightarrow> CreateRequest \<Rightarrow> Manager \<Rightarrow> ((token_error + Issued) \<times> Manager) option" where
  "Create draws now req m =
     (case create_capabilities now req of
        Inl e \<Rightarrow> Some (Inl e, m)
      | Inr (permissions, resources) \<Rightarrow>
          (case ResolveLifetime now (cr_TTL req) zero_time (cr_NeverExpire req) (cr_ConfirmNeverExpire req) of
             Inl e \<Rightarrow> Some (Inl e, m)
           | Inr lifetime \<Rightarrow>
               (case draw_credential (tokens m) draws of
                  None \<Rightarrow> None
                | Some (Inl e) \<Rightarrow> Some (Inl e, m)
                | Some (Inr (tid, secret, digest)) \<Rightarrow>
                    let meta = create_metadata now req permissions resources lifetime tid
                    in Some (Inr \<lparr>is_Metadata = meta, is_Secret = secret\<rparr>, store_token now meta digest m))))"

definition Get :: "time \<Rightarrow> string \<Rightarrow> Manager \<Rightarrow> Metadata option" where
  "Get now tid m = (if \<not> strictIdentity tid then None else map_option tr_metadata (tokens m tid))"

definition token_expired :: "time \<Rightarrow> Metadata \<Rightarrow> bool" where
  "token_expired now md \<longleftrightarrow> \<not> md_NeverExpire md \<and> \<not> now < md_ExpiresAt md"

definition token_inactive :: "time \<Rightarrow> Metadata \<Rightarrow> bool" where
  "token_inactive now md \<longleftrightarrow> time_sub now (md_LastActivityAt md) \<ge> InactivityTTL"

definition authorize_checks ::
    "time \<Rightarrow> token_record \<Rightarrow> string \<Rightarrow> string \<Rightarrow> string \<Rightarrow> token_error option" where
  "authorize_checks now r secret permission resource = (let md = tr_metadata r in first_error
     [fail_if (is_zero_time now \<or> now < md_CreatedAt md \<or> now < md_LastActivityAt md) ErrInvalidTime,
      fail_if (hashSecret secret \<noteq> tr_secret r) ErrInvalidSecret,
      fail_if (md_Revoked md) ErrRevoked,
      fail_if (md_Disabled md) ErrDisabled,
      fail_if (token_expired now md) ErrExpired,
      fail_if (token_inactive now md) ErrInactive,
      fail_if (\<not> matches (md_Permissions md) permission) ErrPermissionDenied,
      fail_if (\<not> matches (md_Resources md) resource) ErrResourceDenied])"

definition Authorize ::
    "time \<Rightarrow> string \<Rightarrow> string \<Rightarrow> string \<Rightarrow> string \<Rightarrow> Manager \<Rightarrow> (token_error + Metadata) \<times> Manager" where
  "Authorize now tid secret permission resource m =
     (if \<not> strictIdentity tid \<or> \<not> strictIdentity permission \<or> \<not> strictIdentity resource
      then (Inl ErrInvalidRequest, m)
      else case tokens m tid of
        None \<Rightarrow> (Inl ErrNotFound, m)
      | Some r \<Rightarrow>
          (case authorize_checks now r secret permission resource of
             Some e \<Rightarrow> (Inl e, m)
           | None \<Rightarrow>
               let md = (tr_metadata r)\<lparr>md_LastActivityAt := now\<rparr>
               in (Inr md, appendEvent now EventAuthorized tid (md_Owner md) [] False
                     (m\<lparr>tokens := (tokens m)(tid \<mapsto> r\<lparr>tr_metadata := md\<rparr>)\<rparr>))))"

definition setStatus ::
    "time \<Rightarrow> string \<Rightarrow> string \<Rightarrow> bool \<Rightarrow> Manager \<Rightarrow> token_error option \<times> Manager" where
  "setStatus now tid reason revoke m =
     (if \<not> strictIdentity tid then (Some ErrInvalidRequest, m)
      else case tokens m tid of
        None \<Rightarrow> (Some ErrNotFound, m)
      | Some r \<Rightarrow>
          let md = tr_metadata r in
          if is_zero_time now \<or> now < md_CreatedAt md then (Some ErrInvalidTime, m)
          else if revoke then
            (if md_Revoked md then (Some ErrAlreadyRevoked, m)
             else (None, appendEvent now EventRevoked tid (md_Owner md) reason False
                (m\<lparr>tokens := (tokens m)(tid \<mapsto> r\<lparr>tr_metadata := md\<lparr>md_Revoked := True\<rparr>\<rparr>)\<rparr>)))
          else if md_Disabled md then (Some ErrAlreadyDisabled, m)
          else (None, appendEvent now EventDisabled tid (md_Owner md) reason False
                (m\<lparr>tokens := (tokens m)(tid \<mapsto> r\<lparr>tr_metadata := md\<lparr>md_Disabled := True\<rparr>\<rparr>)\<rparr>)))"

definition Disable :: "time \<Rightarrow> string \<Rightarrow> string \<Rightarrow> Manager \<Rightarrow> token_error option \<times> Manager" where
  "Disable now tid reason m = setStatus now tid (trim_space reason) False m"

definition Revoke :: "time \<Rightarrow> string \<Rightarrow> string \<Rightarrow> Manager \<Rightarrow> token_error option \<times> Manager" where
  "Revoke now tid reason m = setStatus now tid (trim_space reason) True m"

definition cleanup_one :: "time \<Rightarrow> string \<Rightarrow> nat \<times> Manager \<Rightarrow> nat \<times> Manager" where
  "cleanup_one now tid nm = (case nm of (removed, m) \<Rightarrow>
     (case tokens m tid of
        None \<Rightarrow> (removed, m)
      | Some r \<Rightarrow>
          let md = tr_metadata r; expired = token_expired now md; inactive = token_inactive now md in
          if \<not> expired \<and> \<not> inactive then (removed, m)
          else (Suc removed,
                appendEvent now EventAutoDestroyed tid (md_Owner md)
                  (if expired then ''expired'' else ''inactive'') True
                  (m\<lparr>tokens := (tokens m)(tid := None)\<rparr>))))"

definition Cleanup :: "string list \<Rightarrow> time \<Rightarrow> Manager \<Rightarrow> nat \<times> Manager" where
  "Cleanup order now m =
     (if is_zero_time now \<or> is_zero_time (cleanupAt m) \<or> now < cleanupAt m then (0, m)
      else let (removed, m1) = fold (cleanup_one now) order (0, m) in
        (removed,
         if map_len (tokens m1) = 0
         then m1\<lparr>cleanupAt := zero_time, firstCreation := zero_time, lastCreation := zero_time\<rparr>
         else m1\<lparr>cleanupAt := now + CleanupDelay\<rparr>))"

definition NextCleanupAt :: "Manager \<Rightarrow> time" where
  "NextCleanupAt m = cleanupAt m"

end
