(* ===== verification/Token_Properties.thy ===== *)
theory Token_Properties
  imports Token_Manager
begin

text \<open>
  Properties of the token manager: what an authorization proves, the finality of revocation, the
  exactness of the cleanup in whatever order the map is visited, the lifetime bounds and the
  numbering of the events.
\<close>

subsection \<open>The event log\<close>

definition manager_append ::
    "time \<times> EventType \<times> string \<times> string \<times> string \<times> bool \<Rightarrow> Manager \<Rightarrow> Manager" where
  "manager_append a m = (case a of (t, ty, i, actor, why, n) \<Rightarrow> appendEvent t ty i actor why n m)"

interpretation manager_log: event_log tm_events tm_sequence te_Sequence manager_append
  by unfold_locales (auto simp: manager_append_def appendEvent_def Let_def)

definition events_numbered :: "Manager \<Rightarrow> bool" where
  "events_numbered m \<longleftrightarrow> numbered te_Sequence (tm_events m) (tm_sequence m)"

lemma events_numbered_append [wf_intros]:
  "events_numbered m \<Longrightarrow> events_numbered (appendEvent t ty i actor why n m)"
  using manager_log.numbered_append[of m "(t, ty, i, actor, why, n)"]
  by (simp add: events_numbered_def manager_append_def)

lemma events_numbered_update [simp]:
  "events_numbered (m\<lparr>tokens := x\<rparr>) = events_numbered m"
  "events_numbered (m\<lparr>cleanupAt := t\<rparr>) = events_numbered m"
  "events_numbered (m\<lparr>firstCreation := u\<rparr>) = events_numbered m"
  "events_numbered (m\<lparr>lastCreation := v\<rparr>) = events_numbered m"
  by (simp_all add: events_numbered_def)

lemma appendEvent_simps [simp]:
  "tokens (appendEvent t ty i actor why n m) = tokens m"
  "cleanupAt (appendEvent t ty i actor why n m) = cleanupAt m"
  "firstCreation (appendEvent t ty i actor why n m) = firstCreation m"
  "lastCreation (appendEvent t ty i actor why n m) = lastCreation m"
  by (simp_all add: appendEvent_def Let_def)

subsection \<open>Runs\<close>

text \<open>
  One call of the manager. A creation carries its draws, a cleanup the order in which the map
  was visited: some enumeration of its keys.
\<close>

inductive tm_step :: "Manager \<Rightarrow> Manager \<Rightarrow> bool" where
  create: "Create draws now req m = Some (r, h) \<Longrightarrow> tm_step m h"
| authorize: "tm_step m (snd (Authorize now i secret permission resource m))"
| disable: "tm_step m (snd (Disable now i why m))"
| revoke: "tm_step m (snd (Revoke now i why m))"
| cleanup: "set order = dom (tokens m) \<Longrightarrow> distinct order \<Longrightarrow> tm_step m (snd (Cleanup order now m))"

inductive tm_run :: "Manager \<Rightarrow> Manager \<Rightarrow> bool" for m0 where
  start: "tm_run m0 m0"
| step: "tm_run m0 m \<Longrightarrow> tm_step m h \<Longrightarrow> tm_run m0 h"

subsection \<open>Creation\<close>

lemma draw_credential_fresh:
  "draw_credential toks draws = Some (Inr (i, secret, digest)) \<Longrightarrow>
     toks i = None \<and> digest = hashSecret secret"
  by (induction toks draws rule: draw_credential.induct)
     (auto simp: newCredential_def Let_def split: if_splits)

lemma Create_cases:
  assumes "Create draws now req m = Some (r, h)"
  obtains (refused) e where "r = Inl e" "h = m"
  | (created) meta secret lifetime where "r = Inr \<lparr>is_Metadata = meta, is_Secret = secret\<rparr>"
      "tokens m (md_ID meta) = None" "h = store_token now meta (hashSecret secret) m"
      "ResolveLifetime now (cr_TTL req) zero_time (cr_NeverExpire req) (cr_ConfirmNeverExpire req) = Inr lifetime"
      "create_capabilities now req = Inr (md_Permissions meta, md_Resources meta)"
      "md_ExpiresAt meta = lt_ExpiresAt lifetime" "md_NeverExpire meta = lt_NeverExpire lifetime"
      "md_CreatedAt meta = now" "md_LastActivityAt meta = now" "md_Owner meta = cr_Owner req"
      "\<not> md_Revoked meta" "\<not> md_Disabled meta"
proof -
  consider (a) e where "r = Inl e" "h = m"
    | (b) p q l i s d where "create_capabilities now req = Inr (p, q)"
        "ResolveLifetime now (cr_TTL req) zero_time (cr_NeverExpire req) (cr_ConfirmNeverExpire req) = Inr l"
        "draw_credential (tokens m) draws = Some (Inr (i, s, d))"
    using assms by (auto simp: Create_def split: sum.splits option.splits prod.splits)
  then show thesis
  proof cases
    case b
    let ?meta = "create_metadata now req p q l i"
    have "d = hashSecret s" "tokens m i = None" using draw_credential_fresh[OF b(3)] by simp_all
    then show thesis using assms b
      by (intro created[of ?meta s l]) (auto simp: Create_def create_metadata_def Let_def)
  qed (rule refused)
qed

lemma store_token_simps [simp]:
  "tokens (store_token now meta d m) = (tokens m)(md_ID meta \<mapsto> \<lparr>tr_metadata = meta, tr_secret = d\<rparr>)"
  by (simp add: store_token_def Let_def)

subsection \<open>Cleanup\<close>

definition doomed :: "time \<Rightarrow> token_record \<Rightarrow> bool" where
  "doomed now r \<longleftrightarrow> token_expired now (tr_metadata r) \<or> token_inactive now (tr_metadata r)"

lemma cleanup_one_doomed:
  assumes "tokens m i = Some r"
  shows "cleanup_one now i (k, m) =
    (if doomed now r then (Suc k, appendEvent now EventAutoDestroyed i (md_Owner (tr_metadata r))
        (if token_expired now (tr_metadata r) then ''expired'' else ''inactive'') True
        (m\<lparr>tokens := (tokens m)(i := None)\<rparr>))
     else (k, m))"
  using assms by (auto simp: cleanup_one_def doomed_def Let_def)

lemma cleanup_one_absent: "tokens m i = None \<Longrightarrow> cleanup_one now i (k, m) = (k, m)"
  by (simp add: cleanup_one_def)

definition survivors :: "time \<Rightarrow> string set \<Rightarrow> (string \<rightharpoonup> token_record) \<Rightarrow> (string \<rightharpoonup> token_record)" where
  "survivors now visited toks = (\<lambda>i. case toks i of None \<Rightarrow> None
     | Some r \<Rightarrow> if i \<in> visited \<and> doomed now r then None else Some r)"

lemma survivors_empty [simp]: "survivors now {} toks = toks"
  by (auto simp: survivors_def split: option.split)

lemma fold_cleanup:
  assumes "distinct order"
  shows "tokens (snd (fold (cleanup_one now) order (k, m))) = survivors now (set order) (tokens m)
    \<and> fst (fold (cleanup_one now) order (k, m))
        = k + card {i \<in> set order. \<exists>r. tokens m i = Some r \<and> doomed now r}
    \<and> length (tm_events (snd (fold (cleanup_one now) order (k, m))))
        = length (tm_events m) + card {i \<in> set order. \<exists>r. tokens m i = Some r \<and> doomed now r}"
  using assms
proof (induction order arbitrary: k m)
  case (Cons i order)
  show ?case
  proof (cases "\<exists>r. tokens m i = Some r \<and> doomed now r")
    case True
    then obtain r where r: "tokens m i = Some r" "doomed now r" by blast
    obtain m1 where one: "cleanup_one now i (k, m) = (Suc k, m1)" "tokens m1 = (tokens m)(i := None)"
        "length (tm_events m1) = Suc (length (tm_events m))"
      using r by (simp add: cleanup_one_doomed appendEvent_def Let_def)
    have set_eq: "{j \<in> set order. \<exists>r. tokens m1 j = Some r \<and> doomed now r}
        = {j \<in> set order. \<exists>r. tokens m j = Some r \<and> doomed now r}"
      using Cons.prems one(2) by auto
    have "{j \<in> set (i # order). \<exists>r. tokens m j = Some r \<and> doomed now r}
        = insert i {j \<in> set order. \<exists>r. tokens m j = Some r \<and> doomed now r}" using r by auto
    moreover have "survivors now (set order) (tokens m1) = survivors now (set (i # order)) (tokens m)"
      using r one(2) by (auto simp: survivors_def fun_eq_iff split: option.split)
    ultimately show ?thesis
      using Cons.IH[of "Suc k" m1] Cons.prems set_eq by (simp add: one(1,3))
  next
    case False
    then have one: "cleanup_one now i (k, m) = (k, m)"
      by (cases "tokens m i") (auto simp: cleanup_one_absent cleanup_one_doomed)
    have "{j \<in> set (i # order). \<exists>r. tokens m j = Some r \<and> doomed now r}
        = {j \<in> set order. \<exists>r. tokens m j = Some r \<and> doomed now r}" using False by auto
    moreover have "survivors now (set order) (tokens m) = survivors now (set (i # order)) (tokens m)"
      using False by (auto simp: survivors_def fun_eq_iff split: option.split)
    ultimately show ?thesis using Cons.IH[of k m] Cons.prems by (simp add: one)
  qed
qed (simp)

lemma Cleanup_tokens:
  assumes "set order = dom (tokens m)" "distinct order"
  shows "tokens (snd (Cleanup order now m)) =
    (if is_zero_time now \<or> is_zero_time (cleanupAt m) \<or> now < cleanupAt m then tokens m
     else survivors now (dom (tokens m)) (tokens m))"
  using fold_cleanup[OF assms(2), of now 0 m] assms(1)
  by (simp add: Cleanup_def Let_def split_def)

subsection \<open>Authorization\<close>

lemma InactivityTTL_range: "min_duration < InactivityTTL" "InactivityTTL \<le> max_duration"
  by (simp_all add: InactivityTTL_def go_day_def go_units min_duration_def max_duration_def)

lemma token_inactive_iff: "token_inactive now md \<longleftrightarrow> InactivityTTL \<le> now - md_LastActivityAt md"
  by (simp add: token_inactive_def time_sub_ge InactivityTTL_range)

lemma Authorize_cases:
  assumes "Authorize now i secret permission resource m = (r, h)"
  obtains (refused) e where "r = Inl e" "h = m"
  | (granted) tok where "tokens m i = Some tok"
      "authorize_checks now tok secret permission resource = None"
      "r = Inr ((tr_metadata tok)\<lparr>md_LastActivityAt := now\<rparr>)"
      "tokens h = (tokens m)(i \<mapsto> tok\<lparr>tr_metadata := (tr_metadata tok)\<lparr>md_LastActivityAt := now\<rparr>\<rparr>)"
      "h = appendEvent now EventAuthorized i (md_Owner (tr_metadata tok)) [] False
         (m\<lparr>tokens := (tokens m)(i \<mapsto> tok\<lparr>tr_metadata := (tr_metadata tok)\<lparr>md_LastActivityAt := now\<rparr>\<rparr>)\<rparr>)"
proof (cases "strictIdentity i \<and> strictIdentity permission \<and> strictIdentity resource")
  case True
  show thesis
  proof (cases "tokens m i")
    case None
    then show thesis using assms True by (intro refused) (auto simp: Authorize_def)
  next
    case (Some tok)
    show thesis
    proof (cases "authorize_checks now tok secret permission resource")
      case None
      then show thesis using assms True Some
        by (intro granted[of tok]) (simp_all add: Authorize_def Let_def, auto)
    next
      case (Some e)
      then show thesis using assms True \<open>tokens m i = Some tok\<close>
        by (intro refused) (auto simp: Authorize_def)
    qed
  qed
next
  case False
  then show thesis using assms by (intro refused) (auto simp: Authorize_def)
qed

text \<open>
  C25: an authorization is granted only to the holder of the secret of a token that is neither
  revoked, disabled nor expired, was used in the last 180 days, and whose immutable snapshot
  covers the permission and the resource; it changes nothing but the token's last activity.
\<close>

theorem authorize_requires:
  assumes "Authorize now i secret permission resource m = (Inr md, h)"
  shows "\<exists>tok. tokens m i = Some tok \<and> tr_secret tok = hashSecret secret
    \<and> \<not> md_Revoked (tr_metadata tok) \<and> \<not> md_Disabled (tr_metadata tok)
    \<and> (md_NeverExpire (tr_metadata tok) \<or> now < md_ExpiresAt (tr_metadata tok))
    \<and> now - md_LastActivityAt (tr_metadata tok) < InactivityTTL
    \<and> md_LastActivityAt (tr_metadata tok) \<le> now
    \<and> (permission \<in> set (md_Permissions (tr_metadata tok)) \<or> ''*'' \<in> set (md_Permissions (tr_metadata tok)))
    \<and> (resource \<in> set (md_Resources (tr_metadata tok)) \<or> ''*'' \<in> set (md_Resources (tr_metadata tok)))
    \<and> md = (tr_metadata tok)\<lparr>md_LastActivityAt := now\<rparr>
    \<and> tokens h = (tokens m)(i \<mapsto> tok\<lparr>tr_metadata := md\<rparr>)"
  using assms
proof (cases rule: Authorize_cases)
  case (granted tok)
  have checks: "tr_secret tok = hashSecret secret" "\<not> md_Revoked (tr_metadata tok)"
      "\<not> md_Disabled (tr_metadata tok)" "\<not> token_expired now (tr_metadata tok)"
      "\<not> token_inactive now (tr_metadata tok)" "matches (md_Permissions (tr_metadata tok)) permission"
      "matches (md_Resources (tr_metadata tok)) resource" "md_LastActivityAt (tr_metadata tok) \<le> now"
    using granted(2) unfolding authorize_checks_def Let_def first_error_None by auto
  then show ?thesis using granted
    by (auto simp: token_expired_def token_inactive_iff matches_def list_ex_iff)
qed simp

subsection \<open>Revocation is final\<close>

text \<open>A run in which the identifier of interest is not drawn again for a new token.\<close>

inductive tm_run_without :: "string \<Rightarrow> Manager \<Rightarrow> Manager \<Rightarrow> bool" for i m0 where
  start: "tm_run_without i m0 m0"
| step: "tm_run_without i m0 m \<Longrightarrow> tm_step m h \<Longrightarrow> tokens m i \<noteq> None \<or> tokens h i = None \<Longrightarrow>
    tm_run_without i m0 h"

definition dead :: "string \<Rightarrow> Manager \<Rightarrow> bool" where
  "dead i m \<longleftrightarrow> (\<forall>r. tokens m i = Some r \<longrightarrow> md_Revoked (tr_metadata r))"

lemma setStatus_tokens:
  "tokens (snd (setStatus now j why rv m)) i = tokens m i
   \<or> (\<exists>r md. i = j \<and> tokens m j = Some r \<and> tokens (snd (setStatus now j why rv m)) i = Some (r\<lparr>tr_metadata := md\<rparr>)
        \<and> (md_Revoked (tr_metadata r) \<longrightarrow> md_Revoked md))"
  by (auto simp: setStatus_def Let_def split: option.split)

lemma dead_step:
  assumes "tm_step m h" "dead i m" "tokens m i \<noteq> None \<or> tokens h i = None"
  shows "dead i h"
  using assms(1)
proof (cases rule: tm_step.cases)
  case (create draws now req r)
  then show ?thesis
    by (cases rule: Create_cases) (use assms in \<open>auto simp: dead_def\<close>)
next
  case (authorize now j secret permission resource)
  then have "Authorize now j secret permission resource m = (fst (Authorize now j secret permission resource m), h)"
    by simp
  then show ?thesis by (cases rule: Authorize_cases) (use assms(2) in \<open>auto simp: dead_def\<close>)
next
  case (disable now j why)
  then show ?thesis using assms(2) setStatus_tokens[of now j "trim_space why" False m i]
    by (auto simp: dead_def Disable_def)
next
  case (revoke now j why)
  then show ?thesis using assms(2) setStatus_tokens[of now j "trim_space why" True m i]
    by (auto simp: dead_def Revoke_def)
next
  case (cleanup order now)
  then show ?thesis using assms(2) Cleanup_tokens[of order m now]
    by (auto simp: dead_def survivors_def split: if_splits option.splits)
qed

lemma dead_run: "tm_run_without i m h \<Longrightarrow> dead i m \<Longrightarrow> dead i h"
  by (induction rule: tm_run_without.induct) (auto intro: dead_step)

text \<open>
  A revoked token is dead: as long as its identifier is not drawn again for a new token,
  whatever is created, disabled, cleaned up or tried afterwards, it authorizes nothing.
\<close>

theorem revoked_never_authorizes:
  assumes "Revoke now i why m = (None, m')" "tm_run_without i m' h"
  shows "fst (Authorize now' i secret permission resource h) \<noteq> Inr md"
proof
  assume "fst (Authorize now' i secret permission resource h) = Inr md"
  then have ok: "Authorize now' i secret permission resource h
      = (Inr md, snd (Authorize now' i secret permission resource h))" by (simp add: prod_eq_iff)
  have "dead i m'"
    using assms(1) by (auto simp: Revoke_def setStatus_def dead_def Let_def split: if_splits option.splits)
  then have "dead i h" using dead_run[OF assms(2)] by blast
  with ok show False
    by (cases rule: Authorize_cases)
       (auto simp: dead_def authorize_checks_def Let_def first_error_None simp del: first_error_Cons)
qed

text \<open>
  A due cleanup removes exactly the expired and the inactive tokens, counts them, emits one
  event for each and leaves every other token unchanged, whatever order the map is visited in;
  before the deadline it does nothing.
\<close>

theorem cleanup_exact:
  assumes "set order = dom (tokens m)" "distinct order"
  shows "(if now = 0 \<or> NextCleanupAt m = 0 \<or> now < NextCleanupAt m then Cleanup order now m = (0, m)
    else (\<forall>i r. tokens (snd (Cleanup order now m)) i = Some r \<longleftrightarrow>
            tokens m i = Some r \<and> (md_NeverExpire (tr_metadata r) \<or> now < md_ExpiresAt (tr_metadata r))
            \<and> now - md_LastActivityAt (tr_metadata r) < InactivityTTL)
      \<and> fst (Cleanup order now m) = card (dom (tokens m) - dom (tokens (snd (Cleanup order now m))))
      \<and> length (tm_events (snd (Cleanup order now m))) = length (tm_events m) + fst (Cleanup order now m))"
proof (cases "now = 0 \<or> NextCleanupAt m = 0 \<or> now < NextCleanupAt m")
  case True
  then show ?thesis by (auto simp: Cleanup_def NextCleanupAt_def)
next
  case False
  let ?c = "snd (Cleanup order now m)"
  have due: "\<not> (now = 0 \<or> cleanupAt m = 0 \<or> now < cleanupAt m)"
    using False by (simp add: NextCleanupAt_def)
  have toks: "tokens ?c = survivors now (dom (tokens m)) (tokens m)"
    using Cleanup_tokens[OF assms, of now] due by auto
  have D: "{i \<in> set order. \<exists>r. tokens m i = Some r \<and> doomed now r} = dom (tokens m) - dom (tokens ?c)"
    unfolding toks using assms(1) by (auto simp: survivors_def domIff split: option.splits if_splits)
  have "fst (Cleanup order now m) = card (dom (tokens m) - dom (tokens ?c))"
      "length (tm_events ?c) = length (tm_events m) + fst (Cleanup order now m)"
    using fold_cleanup[OF assms(2), of now 0 m] due D
    by (simp_all add: Cleanup_def Let_def split_def)
  moreover have "\<forall>i r. tokens ?c i = Some r \<longleftrightarrow>
            tokens m i = Some r \<and> (md_NeverExpire (tr_metadata r) \<or> now < md_ExpiresAt (tr_metadata r))
            \<and> now - md_LastActivityAt (tr_metadata r) < InactivityTTL"
    unfolding toks
    by (auto simp: survivors_def doomed_def token_expired_def token_inactive_iff not_le split: option.splits if_splits)
  ultimately show ?thesis using False by simp
qed

text \<open>
  Authorization is fail-closed before the cleanup has run: a token that a due cleanup at
  some time would destroy is refused by every authorization at that time.
\<close>

theorem cleanup_and_authorize_agree:
  assumes "set order = dom (tokens m)" "distinct order" "tokens m i \<noteq> None"
    and "tokens (snd (Cleanup order now m)) i = None"
  shows "fst (Authorize now i secret permission resource m) \<noteq> Inr md"
proof
  assume "fst (Authorize now i secret permission resource m) = Inr md"
  then have ok: "Authorize now i secret permission resource m
      = (Inr md, snd (Authorize now i secret permission resource m))" by (simp add: prod_eq_iff)
  from assms obtain r where r: "tokens m i = Some r" "doomed now r"
    using Cleanup_tokens[OF assms(1,2), of now] by (auto simp: survivors_def split: if_splits option.splits)
  from ok show False
    by (cases rule: Authorize_cases)
       (use r in \<open>auto simp: doomed_def authorize_checks_def Let_def first_error_None simp del: first_error_Cons\<close>)
qed

subsection \<open>Lifetimes and creation\<close>

text \<open>
  The lifetime policy: a resolved lifetime either never expires, and then that was asked
  for and confirmed and no expiry was given, or it ends strictly after now and at most 365 days
  later; with neither a TTL nor an expiry it is 90 days.
\<close>

theorem lifetime_policy:
  assumes "ResolveLifetime now ttl expiresAt never confirm = Inr l"
  shows "(lt_NeverExpire l \<longleftrightarrow> never) \<and> (never \<longrightarrow> confirm \<and> ttl = 0 \<and> expiresAt = 0)
    \<and> (\<not> never \<longrightarrow> now < lt_ExpiresAt l \<and> lt_ExpiresAt l \<le> now + MaxTTL)
    \<and> (\<not> never \<and> ttl = 0 \<and> expiresAt = 0 \<longrightarrow> lt_ExpiresAt l = now + DefaultTTL)"
  using assms
  by (auto simp: ResolveLifetime_def Let_def DefaultTTL_def MaxTTL_def go_day_def go_units zero_time_def
      split: if_splits)

lemma normalize_loop_Some:
  assumes "normalize_loop seen out vs = Some res" "distinct out" "set out = seen"
  shows "distinct res \<and> set res = seen \<union> set vs \<and> list_all strictIdentity vs"
  using assms
proof (induction vs arbitrary: seen out)
  case (Cons v vs)
  then have v: "strictIdentity v" by (auto split: if_splits)
  show ?case
  proof (cases "v \<in> seen")
    case True
    then show ?thesis using Cons.IH[of seen out] Cons.prems v by auto
  next
    case False
    then show ?thesis using Cons.IH[of "insert v seen" "out @ [v]"] Cons.prems v by auto
  qed
qed auto

lemma normalize_subset: "set (fst (normalize vs)) \<subseteq> set vs"
  using normalize_loop_Some[of "{}" "[]" vs] by (auto simp: normalize_def split: option.splits)

lemma normalize_ok:
  "normalize vs = (out, True) \<Longrightarrow> distinct out \<and> set out = set vs \<and> out \<noteq> []"
  using normalize_loop_Some[of "{}" "[]" vs out] by (auto simp: normalize_def split: option.splits)

lemma create_capabilities_ok:
  assumes "create_capabilities now req = Inr (p, q)"
  shows "normalize (cr_Permissions req) = (p, True)
    \<and> (\<exists>vs. normalize vs = (q, True) \<and> set vs \<subseteq> set (cr_Resources req) \<union> set (cr_Scopes req))"
proof -
  obtain p' okp where np: "normalize (cr_Permissions req) = (p', okp)" by (cases "normalize (cr_Permissions req)")
  obtain r' okr where nr: "normalize (cr_Resources req) = (r', okr)" by (cases "normalize (cr_Resources req)")
  obtain s' oks where ns: "normalize (cr_Scopes req) = (s', oks)" by (cases "normalize (cr_Scopes req)")
  have p: "okp" "p = p'"
    using assms np nr ns by (auto simp: create_capabilities_def Let_def split: if_splits sum.splits prod.splits)
  have sub: "set r' \<subseteq> set (cr_Resources req)" "set s' \<subseteq> set (cr_Scopes req)"
    using normalize_subset[of "cr_Resources req"] normalize_subset[of "cr_Scopes req"] nr ns by simp_all
  consider (scopes) "oks" "q = s'" | (both) "normalize (r' @ s') = (q, True)" | (resources) "okr" "q = r'"
    using assms np nr ns p
    by (cases "cr_Resources req = []"; cases "cr_Scopes req = []")
       (auto simp: create_capabilities_def Let_def split: if_splits sum.splits prod.splits)
  then have "\<exists>vs. normalize vs = (q, True) \<and> set vs \<subseteq> set (cr_Resources req) \<union> set (cr_Scopes req)"
  proof cases
    case scopes
    then show ?thesis using ns by auto
  next
    case both
    have "set (r' @ s') \<subseteq> set (cr_Resources req) \<union> set (cr_Scopes req)" using sub by auto
    then show ?thesis using both by blast
  next
    case resources
    then show ?thesis using nr by auto
  qed
  then show ?thesis using np p by auto
qed

text \<open>
  A created token never exceeds its request: it is stored under an identifier that was
  free, its permissions are exactly the requested ones, every resource of it was requested, its lifetime obeys
  the policy, only the digest of the secret is kept, and the cleanup deadline is at most ten
  minutes away and at most an hour after the first creation.
\<close>

theorem created_token_within_request:
  assumes "Create draws now req m = Some (Inr issued, h)"
  shows "let md = is_Metadata issued in tokens m (md_ID md) = None
    \<and> tokens h (md_ID md) = Some \<lparr>tr_metadata = md, tr_secret = hashSecret (is_Secret issued)\<rparr>
    \<and> set (md_Permissions md) = set (cr_Permissions req) \<and> md_Permissions md \<noteq> []
    \<and> set (md_Resources md) \<subseteq> set (cr_Resources req) \<union> set (cr_Scopes req) \<and> md_Resources md \<noteq> []
    \<and> (md_NeverExpire md \<longrightarrow> cr_NeverExpire req \<and> cr_ConfirmNeverExpire req)
    \<and> (\<not> md_NeverExpire md \<longrightarrow> now < md_ExpiresAt md \<and> md_ExpiresAt md \<le> now + MaxTTL)
    \<and> NextCleanupAt h \<le> now + CleanupDelay \<and> NextCleanupAt h \<le> firstCreation h + go_hour"
  using assms
proof (cases rule: Create_cases)
  case (created meta secret lifetime)
  have life: "lt_NeverExpire lifetime \<longrightarrow> cr_NeverExpire req \<and> cr_ConfirmNeverExpire req"
      "\<not> lt_NeverExpire lifetime \<longrightarrow> now < lt_ExpiresAt lifetime \<and> lt_ExpiresAt lifetime \<le> now + MaxTTL"
    using created(4)
    by (auto simp: ResolveLifetime_def Let_def DefaultTTL_def MaxTTL_def go_day_def go_units zero_time_def
        split: if_splits)
  obtain vs where vs: "normalize vs = (md_Resources meta, True)"
      "set vs \<subseteq> set (cr_Resources req) \<union> set (cr_Scopes req)"
      "normalize (cr_Permissions req) = (md_Permissions meta, True)"
    using create_capabilities_ok[OF created(5)] by blast
  have caps: "set (md_Permissions meta) = set (cr_Permissions req)" "md_Permissions meta \<noteq> []"
      "set (md_Resources meta) \<subseteq> set (cr_Resources req) \<union> set (cr_Scopes req)" "md_Resources meta \<noteq> []"
    using normalize_ok[OF vs(1)] normalize_ok[OF vs(3)] vs(2) by auto
  have "NextCleanupAt h \<le> now + CleanupDelay \<and> NextCleanupAt h \<le> firstCreation h + go_hour"
    unfolding created(3) by (auto simp: NextCleanupAt_def store_token_def minTime_def Let_def)
  then show ?thesis using created life caps by (simp add: Let_def)
qed simp

text \<open>
  A list of resources with an invalid entry is not refused when scopes are given as well: the
  whole list is dropped and the token is issued for the scopes alone.
\<close>

definition ex_mixed_request :: CreateRequest where
  "ex_mixed_request = \<lparr>cr_Owner = ''alice'', cr_Permissions = [''read''], cr_Resources = [''site 1''],
     cr_Scopes = [''*''], cr_Note = [], cr_PolicyEpoch = 1, cr_TTL = 0, cr_NeverExpire = False,
     cr_ConfirmNeverExpire = False\<rparr>"

theorem invalid_resources_dropped:
  "\<not> strictIdentity ''site 1''
   \<and> create_capabilities 1 ex_mixed_request = Inr ([''read''], [''*''])
   \<and> create_capabilities 1 (ex_mixed_request\<lparr>cr_Scopes := []\<rparr>) = Inl ErrInvalidRequest"
  by code_simp

text \<open>The creation loop ends as soon as a draw yields a free identifier.\<close>

lemma draw_credential_terminates:
  assumes "draws = map Some raws @ Some raw # rest" "tokens m (fst (newCredential raw)) = None"
    and "\<forall>x\<in>set raws. tokens m (fst (newCredential x)) \<noteq> None"
  shows "draw_credential (tokens m) draws = Some (Inr (newCredential raw))"
  using assms(1,3)
proof (induction raws arbitrary: draws)
  case (Cons x raws)
  then show ?case using Cons.IH[of "map Some raws @ Some raw # rest"] by auto
qed (use assms(2) in simp)

text \<open>
  C26: the creation loop terminates: for a valid request, once a draw yields a free identifier
  the token is issued under it, no matter how many taken identifiers were drawn before.
\<close>

theorem create_terminates:
  assumes "create_capabilities now req = Inr (p, q)"
    and "ResolveLifetime now (cr_TTL req) zero_time (cr_NeverExpire req) (cr_ConfirmNeverExpire req) = Inr l"
    and "draws = map Some raws @ Some raw # rest" "tokens m (fst (newCredential raw)) = None"
    and "\<forall>x\<in>set raws. tokens m (fst (newCredential x)) \<noteq> None"
  shows "\<exists>issued h. Create draws now req m = Some (Inr issued, h)
    \<and> md_ID (is_Metadata issued) = fst (newCredential raw)
    \<and> is_Secret issued = fst (snd (newCredential raw))"
  using draw_credential_terminates[OF assms(3-5)] assms(1,2)
  by (cases "newCredential raw") (simp add: Create_def Let_def create_metadata_def)

subsection \<open>Events\<close>

lemma events_numbered_step:
  assumes "tm_step m h" "events_numbered m"
  shows "events_numbered h"
proof -
  have fold: "events_numbered (snd (fold (cleanup_one now) order (k, x)))" if "events_numbered x" for now order k x
    using that
  proof (induction order arbitrary: k x)
    case (Cons i order)
    have "events_numbered (snd (cleanup_one now i (k, x)))"
      using Cons.prems by (auto simp: cleanup_one_def Let_def intro: wf_intros split: option.split)
    then show ?case using Cons.IH[of "snd (cleanup_one now i (k, x))" "fst (cleanup_one now i (k, x))"] by simp
  qed simp
  have status: "events_numbered (snd (setStatus now i why rv x))" if "events_numbered x" for now i why rv x
    using that by (auto simp: setStatus_def Let_def intro: wf_intros split: option.split)
  show ?thesis
    using assms(1)
  proof (cases rule: tm_step.cases)
    case (create draws now req r)
    then show ?thesis
      by (cases rule: Create_cases)
         (use assms(2) in \<open>auto simp: store_token_def Let_def intro: wf_intros\<close>)
  next
    case (authorize now i secret permission resource)
    then have "Authorize now i secret permission resource m
        = (fst (Authorize now i secret permission resource m), h)" by simp
    then show ?thesis by (cases rule: Authorize_cases) (use assms(2) in \<open>auto intro: wf_intros\<close>)
  next
    case (cleanup order now)
    then show ?thesis using assms(2) fold[of m now order 0] by (auto simp: Cleanup_def Let_def split_def)
  qed (use status assms(2) in \<open>auto simp: Disable_def Revoke_def\<close>)
qed

text \<open>
  in every run of a new manager the events are numbered from one without gaps, and below
  the wrap-around of the counter no two share a number.
\<close>

theorem token_events_numbered:
  assumes "tm_run NewManager m" "length (tm_events m) < 2 ^ 64" "k < length (tm_events m)"
  shows "te_Sequence (tm_events m ! k) = of_nat (Suc k) \<and> distinct (map te_Sequence (tm_events m))"
proof -
  have "events_numbered m"
    using assms(1)
  proof (induction rule: tm_run.induct)
    case start
    then show ?case by (simp add: events_numbered_def NewManager_def)
  qed (rule events_numbered_step)
  then show ?thesis using assms(2,3) numbered_distinct[of te_Sequence "tm_events m"]
    by (simp add: events_numbered_def numbered_def)
qed

subsection \<open>An example token\<close>

definition ex_token_request :: CreateRequest where
  "ex_token_request = \<lparr>cr_Owner = ''alice'', cr_Permissions = [''read''], cr_Resources = [''site''],
     cr_Scopes = [], cr_Note = [], cr_PolicyEpoch = 1, cr_TTL = go_hour, cr_NeverExpire = False,
     cr_ConfirmNeverExpire = False\<rparr>"

definition ex_token_meta :: Metadata where
  "ex_token_meta = create_metadata 1 ex_token_request [''read''] [''site'']
     \<lparr>lt_ExpiresAt = 1 + go_hour, lt_NeverExpire = False\<rparr> ''tok_1''"

definition ex_manager :: Manager where
  "ex_manager = store_token 1 ex_token_meta (hashSecret ''s'') NewManager"

lemma ex_token_identities: "strictIdentity ''tok_1''" "strictIdentity ''read''" "strictIdentity ''site''"
  by code_simp+

lemma ex_manager_tokens:
  "tokens ex_manager = [''tok_1'' \<mapsto> \<lparr>tr_metadata = ex_token_meta, tr_secret = hashSecret ''s''\<rparr>]"
  by (simp add: ex_manager_def NewManager_def ex_token_meta_def create_metadata_def)

lemma ex_capabilities: "create_capabilities 1 ex_token_request = Inr ([''read''], [''site''])"
  by code_simp

lemma ex_lifetime:
  "ResolveLifetime 1 (cr_TTL ex_token_request) zero_time (cr_NeverExpire ex_token_request)
     (cr_ConfirmNeverExpire ex_token_request) = Inr \<lparr>lt_ExpiresAt = 1 + go_hour, lt_NeverExpire = False\<rparr>"
  by code_simp

lemma ex_create:
  "\<exists>issued h. Create [Some ''raw''] 1 ex_token_request NewManager = Some (Inr issued, h)"
  by (cases "newCredential ''raw''")
     (simp add: Create_def ex_capabilities ex_lifetime NewManager_def Let_def)

lemma ex_authorize:
  "\<exists>md h. Authorize 2 ''tok_1'' ''s'' ''read'' ''site'' ex_manager = (Inr md, h)"
proof -
  have "matches (md_Permissions ex_token_meta) ''read''" "matches (md_Resources ex_token_meta) ''site''"
      "\<not> token_expired 2 ex_token_meta" "\<not> token_inactive 2 ex_token_meta" "\<not> md_Revoked ex_token_meta"
      "\<not> md_Disabled ex_token_meta" "md_CreatedAt ex_token_meta = 1" "md_LastActivityAt ex_token_meta = 1"
    by code_simp+
  then have "authorize_checks 2 \<lparr>tr_metadata = ex_token_meta, tr_secret = hashSecret ''s''\<rparr> ''s'' ''read'' ''site'' = None"
    unfolding authorize_checks_def Let_def first_error_None by simp
  then show ?thesis by (simp add: Authorize_def ex_token_identities ex_manager_tokens Let_def)
qed

theorem authorize_requires_witness:
  "\<exists>tok. tokens ex_manager ''tok_1'' = Some tok \<and> tr_secret tok = hashSecret ''s''"
proof -
  obtain md h where "Authorize 2 ''tok_1'' ''s'' ''read'' ''site'' ex_manager = (Inr md, h)"
    using ex_authorize by blast
  from authorize_requires[OF this] show ?thesis by blast
qed

theorem revoked_never_authorizes_witness:
  "\<not> (\<exists>md. fst (Authorize 3 ''tok_1'' ''s'' ''read'' ''site'' (snd (Revoke 2 ''tok_1'' ''lost'' ex_manager))) = Inr md)"
proof -
  have "md_CreatedAt ex_token_meta = 1" "\<not> md_Revoked ex_token_meta" by code_simp+
  then have "fst (Revoke 2 ''tok_1'' ''lost'' ex_manager) = None"
    by (simp add: Revoke_def setStatus_def ex_token_identities ex_manager_tokens Let_def)
  then have "Revoke 2 ''tok_1'' ''lost'' ex_manager = (None, snd (Revoke 2 ''tok_1'' ''lost'' ex_manager))"
    by (simp add: prod_eq_iff)
  from revoked_never_authorizes[OF this tm_run_without.start] show ?thesis by blast
qed

lemma ex_order: "set [''tok_1''] = dom (tokens ex_manager)" "distinct [''tok_1'']"
  by (simp_all add: ex_manager_tokens)

lemma ex_expired: "tokens (snd (Cleanup [''tok_1''] (2 * go_hour) ex_manager)) ''tok_1'' = None"
proof -
  have "token_expired (2 * go_hour) ex_token_meta" by code_simp
  then have "doomed (2 * go_hour) \<lparr>tr_metadata = ex_token_meta, tr_secret = hashSecret ''s''\<rparr>"
    by (simp add: doomed_def)
  moreover have "cleanupAt ex_manager = 1 + CleanupDelay"
    by (simp add: ex_manager_def store_token_def NewManager_def minTime_def Let_def CleanupDelay_def go_units zero_time_def)
  ultimately show ?thesis using Cleanup_tokens[OF ex_order, of "2 * go_hour"]
    by (simp add: ex_manager_tokens survivors_def CleanupDelay_def go_units)
qed

theorem cleanup_exact_witness: "fst (Cleanup [''tok_1''] (2 * go_hour) ex_manager) = 1"
proof -
  have "cleanupAt ex_manager = 1 + CleanupDelay"
    by (simp add: ex_manager_def store_token_def NewManager_def minTime_def Let_def CleanupDelay_def go_units zero_time_def)
  then have due: "\<not> (2 * go_hour = 0 \<or> NextCleanupAt ex_manager = 0 \<or> 2 * go_hour < NextCleanupAt ex_manager)"
    by (simp add: NextCleanupAt_def CleanupDelay_def go_units)
  have "dom (tokens ex_manager) - dom (tokens (snd (Cleanup [''tok_1''] (2 * go_hour) ex_manager))) = {''tok_1''}"
    unfolding ex_order(1)[symmetric] using ex_expired by (simp only: list.set insert_Diff_if empty_Diff domIff if_True simp_thms if_False)
  then show ?thesis using cleanup_exact[OF ex_order, of "2 * go_hour"] due by simp
qed

theorem cleanup_and_authorize_agree_witness:
  "\<not> (\<exists>md. fst (Authorize (2 * go_hour) ''tok_1'' ''s'' ''read'' ''site'' ex_manager) = Inr md)"
  using cleanup_and_authorize_agree[OF ex_order _ ex_expired] by (auto simp: ex_manager_tokens)

theorem lifetime_policy_witness:
  "ResolveLifetime 1 0 0 False False = Inr \<lparr>lt_ExpiresAt = 1 + DefaultTTL, lt_NeverExpire = False\<rparr>
   \<and> 1 + DefaultTTL \<le> 1 + MaxTTL"
proof -
  have r: "ResolveLifetime 1 0 0 False False = Inr \<lparr>lt_ExpiresAt = 1 + DefaultTTL, lt_NeverExpire = False\<rparr>"
    by code_simp
  from lifetime_policy[OF r] r show ?thesis by simp
qed

theorem created_token_within_request_witness:
  "\<exists>issued h. Create [Some ''raw''] 1 ex_token_request NewManager = Some (Inr issued, h)
     \<and> tokens h (md_ID (is_Metadata issued)) \<noteq> None"
proof -
  obtain issued h where c: "Create [Some ''raw''] 1 ex_token_request NewManager = Some (Inr issued, h)"
    using ex_create by blast
  from created_token_within_request[OF c] c show ?thesis by (auto simp: Let_def)
qed

theorem create_terminates_witness:
  "\<exists>issued h. Create [Some ''raw''] 1 ex_token_request NewManager = Some (Inr issued, h)
     \<and> md_ID (is_Metadata issued) = fst (newCredential ''raw'')"
  using create_terminates[OF ex_capabilities ex_lifetime, of "[Some ''raw'']" "[]" "''raw''" "[]" NewManager]
  by (auto simp: NewManager_def)

theorem token_events_numbered_witness:
  "\<exists>h. tm_run NewManager h \<and> te_Sequence (tm_events h ! 0) = 1"
proof -
  obtain issued h where c: "Create [Some ''raw''] 1 ex_token_request NewManager = Some (Inr issued, h)"
    using ex_create by blast
  then have run: "tm_run NewManager h" using tm_run.step[OF tm_run.start tm_step.create] by blast
  from c have len: "length (tm_events h) = 1"
  proof (cases rule: Create_cases)
    case (created meta secret lifetime)
    show ?thesis unfolding created(3) by (simp add: store_token_def appendEvent_def NewManager_def Let_def)
  qed simp
  have "length (tm_events h) < 2 ^ 64" "0 < length (tm_events h)" unfolding len by simp_all
  from token_events_numbered[OF run this] have "te_Sequence (tm_events h ! 0) = 1" by simp
  then show ?thesis using run by blast
qed

end
