(* ===== verification/Path_Properties.thy ===== *)
theory Path_Properties
  imports Request_Path
begin

text \<open>
  Properties of path normalisation: the normal form, idempotence, independence of layers of
  percent-encoding, the views of a path, and prefix matching by whole segments.
\<close>

subsection \<open>Decoding\<close>

lemma PathUnescape_id: "CHR ''%'' \<notin> set s \<Longrightarrow> PathUnescape s = Some s"
  by (induction s) auto

lemma decode_rounds_id: "CHR ''%'' \<notin> set s \<Longrightarrow> decode_rounds n s = Some s"
  by (cases n) (simp_all add: PathUnescape_id)

lemma decode_rounds_no_nul:
  "decode_rounds n s = Some d \<Longrightarrow> CHR 0x00 \<notin> set s \<Longrightarrow> CHR 0x00 \<notin> set d"
  by (induction n s rule: decode_rounds.induct) (auto split: if_splits option.splits)

lemma decode_rounds_mono: "decode_rounds n s = Some d \<Longrightarrow> decode_rounds (Suc n) s = Some d"
proof (induction n s rule: decode_rounds.induct)
  case (1 cur)
  then show ?case by (auto simp: PathUnescape_id split: if_splits)
next
  case (2 n cur)
  then show ?case by (auto simp del: decode_rounds.simps simp: decode_rounds.simps(2)[of _ cur]
        split: option.splits if_splits)
qed

subsection \<open>Segments of a cleaned path\<close>

lemma clean_seg_set: "set (clean_seg r out seg) \<subseteq> insert seg (set out)"
  by (auto simp: clean_seg_def dest: in_set_butlastD)

lemma foldl_clean_set: "set (foldl (clean_seg r) out sgs) \<subseteq> set out \<union> set sgs"
proof (induction sgs arbitrary: out)
  case (Cons s sgs)
  then show ?case using clean_seg_set[of r out s] by fastforce
qed simp

lemma split_path_Clean:
  "set (split_slash (path_Clean p)) \<subseteq> insert [] (insert ''.'' (set (split_slash p)))"
proof -
  let ?out = "foldl (clean_seg (hd p = CHR ''/'')) [] (split_slash p)"
  have sub: "set ?out \<subseteq> set (split_slash p)"
    using foldl_clean_set[of "hd p = CHR ''/''" "[]" "split_slash p"] by auto
  have noslash: "\<forall>s\<in>set ?out. CHR ''/'' \<notin> set s" using sub split_slash_no_slash by blast
  have split: "set (split_slash (join_slash ?out)) \<subseteq> insert [] (set ?out)"
    using split_join[OF _ noslash] by (cases "?out = []") auto
  show ?thesis using sub split by (auto simp: path_Clean_def Let_def)
qed

lemma has_prefix_before_slash:
  "CHR ''/'' \<notin> set p \<Longrightarrow> has_prefix (a @ CHR ''/'' # b) p \<longleftrightarrow> has_prefix a p"
proof (induction p arbitrary: a)
  case (Cons c p)
  then show ?case by (cases a) (auto simp: has_prefix_def)
qed (simp add: has_prefix_def)

lemma has_prefix_slash [simp]: "has_prefix (CHR ''/'' # s) ''/''"
  by (simp add: has_prefix_def)

lemma matrix_loop_iff:
  "matrix_loop s \<longleftrightarrow> (\<exists>seg\<in>set (split_slash s). has_prefix seg ''..;'')"
proof (induction s rule: matrix_loop.induct)
  case (1 s)
  show ?case
  proof (cases "dropWhile (\<lambda>c. c \<noteq> CHR ''/'') s")
    case Nil
    then have "CHR ''/'' \<notin> set s" by (auto simp: dropWhile_eq_Nil_conv)
    then have "split_slash s = [s]" by (rule split_slash_single)
    moreover have "matrix_loop s \<longleftrightarrow> has_prefix s ''..;''"
      unfolding matrix_loop.simps[of s] Nil by (cases s) (simp_all add: has_prefix_def)
    ultimately show ?thesis by simp
  next
    case (Cons c rest)
    let ?a = "takeWhile (\<lambda>c. c \<noteq> CHR ''/'') s"
    have c: "c = CHR ''/''" using Cons by (metis (mono_tags) hd_dropWhile list.sel(1) list.distinct(1))
    have s: "s = ?a @ CHR ''/'' # rest" using Cons c by (metis takeWhile_dropWhile_id)
    have a: "CHR ''/'' \<notin> set ?a" by (auto dest: set_takeWhileD)
    have split: "split_slash s = ?a # split_slash rest"
      using split_slash_append[of ?a rest] split_slash_single[OF a] s by simp
    have pre: "has_prefix s ''..;'' \<longleftrightarrow> has_prefix ?a ''..;''"
      using has_prefix_before_slash[of "''..;''" ?a rest] s by simp
    have "s \<noteq> []" using Cons by auto
    then have "matrix_loop s \<longleftrightarrow> has_prefix s ''..;'' \<or> matrix_loop rest"
      using Cons by (simp add: matrix_loop.simps[of s])
    moreover have "matrix_loop rest \<longleftrightarrow> (\<exists>seg\<in>set (split_slash rest). has_prefix seg ''..;'')"
      if "\<not> has_prefix s ''..;''"
      using 1[OF \<open>s \<noteq> []\<close> that Cons] .
    ultimately show ?thesis using pre split by auto
  qed
qed

lemma matrix_char: "matrix_loop s \<Longrightarrow> CHR '';'' \<in> set s"
proof -
  assume "matrix_loop s"
  then obtain seg where seg: "seg \<in> set (split_slash s)" "has_prefix seg ''..;''"
    by (auto simp: matrix_loop_iff)
  then have "CHR '';'' \<in> set seg" by (auto simp: has_prefix_iff)
  then show ?thesis using split_slash_chars[OF seg(1)] by blast
qed

lemma hasMatrix_iff: "hasMatrixParentSegment s \<longleftrightarrow> (\<exists>seg\<in>set (split_slash s). has_prefix seg ''..;'')"
  using matrix_char by (auto simp: hasMatrixParentSegment_def matrix_loop_iff[symmetric])

lemma join_slash_chars: "c \<in> set (join_slash l) \<Longrightarrow> c = CHR ''/'' \<or> (\<exists>s\<in>set l. c \<in> set s)"
  by (induction l rule: join_slash.induct) auto

text \<open>Cleaning makes no relative path absolute.\<close>

lemma foldl_clean_nonempty:
  "\<forall>s\<in>set out. s \<noteq> [] \<Longrightarrow> \<forall>s\<in>set (foldl (clean_seg r) out l). s \<noteq> []"
proof (induction l arbitrary: out)
  case (Cons s l)
  have "\<forall>x\<in>set (clean_seg r out s). x \<noteq> []"
    using Cons.prems by (auto simp: clean_seg_def dest: in_set_butlastD)
  then show ?case using Cons.IH by simp
qed simp

lemma path_Clean_relative:
  assumes "\<not> has_prefix p ''/''"
  shows "\<not> has_prefix (path_Clean p) ''/''"
proof
  assume pre: "has_prefix (path_Clean p) ''/''"
  let ?out = "foldl (clean_seg False) [] (split_slash p)"
  have "path_Clean p = ''.'' \<or> path_Clean p = join_slash ?out \<and> ?out \<noteq> []"
    using assms by (cases p) (auto simp: path_Clean_def Let_def has_prefix_def)
  then have c: "path_Clean p = join_slash ?out" "?out \<noteq> []" using pre by (auto simp: has_prefix_def)
  have sub: "set ?out \<subseteq> set (split_slash p)" using foldl_clean_set[of False "[]" "split_slash p"] by simp
  then have "\<forall>s\<in>set ?out. CHR ''/'' \<notin> set s" using split_slash_no_slash by blast
  then have "split_slash (path_Clean p) = ?out" using split_join[OF c(2)] c(1) by simp
  moreover have "hd ?out \<noteq> []" using foldl_clean_nonempty[of "[]" False "split_slash p"] c(2) by simp
  moreover from pre obtain t where "path_Clean p = CHR ''/'' # t" by (auto simp: has_prefix_iff)
  ultimately show False by (metis list.sel(1) split_slash.simps(2))
qed

subsection \<open>The normal form\<close>

text \<open>What a normalised path is made of.\<close>

lemma NormalizeRequestPath_cases:
  assumes "NormalizeRequestPath raw = Some p"
  obtains decoded sgs where "raw \<noteq> []" "CHR 0x00 \<notin> set raw" "decode_rounds 5 raw = Some decoded"
    "\<not> hasMatrixParentSegment decoded" "p = normal_path sgs" "list_all plain sgs"
    "set sgs \<subseteq> set (split_slash decoded)" "CHR ''%'' \<notin> set p"
    "\<not> (p = ''..'' \<or> has_prefix p ''../'' \<or> contains p ''/../'' \<or> has_suffix p ''/..'')"
proof -
  from assms obtain decoded where d: "decode_rounds 5 raw = Some decoded"
    by (auto simp: NormalizeRequestPath_def fullyDecodePath_def split: if_splits option.splits)
  let ?c = "path_Clean decoded"
  let ?c' = "if has_prefix ?c ''/'' then ?c else path_Clean (''/'' @ ?c)"
  have *: "raw \<noteq> []" "CHR 0x00 \<notin> set raw" "\<not> hasMatrixParentSegment decoded" "p = ?c'"
      "CHR ''%'' \<notin> set p" "\<not> (p = ''..'' \<or> has_prefix p ''../'' \<or> contains p ''/../'' \<or> has_suffix p ''/..'')"
      "?c \<noteq> ''.''"
    using assms d by (auto simp: NormalizeRequestPath_def fullyDecodePath_def Let_def simp del: contains.simps split: if_splits)
  have "\<exists>sgs. p = normal_path sgs \<and> list_all plain sgs \<and> set sgs \<subseteq> set (split_slash decoded)"
  proof (cases "has_prefix ?c ''/''")
    case True
    then have "has_prefix decoded ''/''" using path_Clean_relative by blast
    then show ?thesis using path_Clean_rooted[of decoded] *(4) True by auto
  next
    case False
    then obtain sgs where s: "p = normal_path sgs" "list_all plain sgs" "set sgs \<subseteq> set (split_slash (''/'' @ ?c))"
      using path_Clean_rooted[of "''/'' @ ?c"] *(4) by auto
    have "set (split_slash (''/'' @ ?c)) \<subseteq> insert [] (insert ''.'' (set (split_slash decoded)))"
      using split_path_Clean[of decoded] by auto
    then have "set sgs \<subseteq> set (split_slash decoded)"
      using s(2,3) by (fastforce simp: list_all_iff plain_def)
    then show ?thesis using s by blast
  qed
  then show thesis using that d * by blast
qed

text \<open>
  C27: a normalised path is absolute and made of plain segments only: none is empty, a dot or
  a parent segment; it holds no percent sign and no NUL byte, and no parent segment hides
  behind matrix parameters.
\<close>

theorem normalized_path_is_normal:
  assumes "NormalizeRequestPath raw = Some p"
  shows "\<exists>sgs. p = normal_path sgs \<and> list_all plain sgs \<and> CHR ''%'' \<notin> set p \<and> CHR 0x00 \<notin> set p
    \<and> (\<forall>s\<in>set sgs. \<not> has_prefix s ''..;'')"
  using assms
proof (cases rule: NormalizeRequestPath_cases)
  case (1 decoded sgs)
  have nul: "CHR 0x00 \<notin> set decoded" using decode_rounds_no_nul[OF 1(3)] 1(2) by simp
  have "CHR 0x00 \<notin> set p"
    using join_slash_chars[of "CHR 0x00" sgs] 1(5,7) nul split_slash_chars[of _ decoded]
    by (fastforce simp: normal_path_def)
  moreover have "\<forall>s\<in>set sgs. \<not> has_prefix s ''..;''" using 1(4,7) by (auto simp: hasMatrix_iff)
  ultimately show ?thesis using 1 by blast
qed

text \<open>
  Normalisation is idempotent: a normalised path normalises to itself, so policies that
  normalise again see the same path.
\<close>

theorem normalize_idempotent:
  assumes "NormalizeRequestPath raw = Some p"
  shows "NormalizeRequestPath p = Some p"
  using assms
proof (cases rule: NormalizeRequestPath_cases)
  case (1 decoded sgs)
  have nul: "CHR 0x00 \<notin> set p"
  proof -
    have "CHR 0x00 \<notin> set decoded" using decode_rounds_no_nul[OF 1(3)] 1(2) by simp
    then show ?thesis
      using join_slash_chars[of "CHR 0x00" sgs] 1(5,7) split_slash_chars[of _ decoded]
      by (fastforce simp: normal_path_def)
  qed
  have clean: "path_Clean p = p" using path_Clean_normal[OF 1(6)] 1(5) by simp
  have slash: "has_prefix p ''/''" "p \<noteq> []" "p \<noteq> ''.''" using 1(5) by (auto simp: normal_path_def has_prefix_def)
  have "set (split_slash p) \<subseteq> insert [] (set sgs)"
    using 1(5,6) split_join[of sgs]
    by (cases "sgs = []") (auto simp: normal_path_def plain_def list_all_iff)
  moreover have "\<not> has_prefix [] ''..;''" by (simp add: has_prefix_def)
  ultimately have "\<not> hasMatrixParentSegment p"
    using 1(4,7) unfolding hasMatrix_iff by blast
  then show ?thesis
    using 1(8,9) nul clean slash decode_rounds_id[of p 5]
    by (simp add: NormalizeRequestPath_def fullyDecodePath_def Let_def del: contains.simps)
qed

text \<open>
  One more layer of percent-encoding does not change the normalised path: a string that
  decodes to \<open>raw\<close> normalises as \<open>raw\<close> does, as long as four rounds decode
  \<open>raw\<close>.
\<close>

theorem encoding_layer_invariant:
  assumes "PathUnescape wire = Some raw" "decode_rounds 4 raw = Some d"
    and "CHR 0x00 \<notin> set wire" "CHR 0x00 \<notin> set raw" "raw \<noteq> []" "wire \<noteq> []"
  shows "NormalizeRequestPath wire = NormalizeRequestPath raw"
proof -
  have "decode_rounds 5 raw = Some d" using decode_rounds_mono[OF assms(2)] by simp
  moreover have "decode_rounds 5 wire = Some d"
  proof (cases "raw = wire")
    case True
    then show ?thesis using \<open>decode_rounds 5 raw = Some d\<close> by simp
  next
    case False
    then have "decode_rounds (Suc 4) wire = decode_rounds 4 raw"
      unfolding decode_rounds.simps(2) using assms(1,4) by simp
    then show ?thesis using assms(2) by simp
  qed
  ultimately show ?thesis using assms(3-6) by (simp add: NormalizeRequestPath_def fullyDecodePath_def)
qed

subsection \<open>Views\<close>

text \<open>
  The views of a path are the raw path, its normal form, and, where decoding reveals
  matrix parameters, the normal form of the path without them: between one and three distinct
  strings, the raw one first, and every other one absolute and free of dot and parent segments.
\<close>

theorem views_cover_interpretations:
  assumes "SecurityPathViews raw = (views, True)"
  shows "views \<noteq> [] \<and> hd views = raw \<and> distinct views \<and> length views \<le> 3
    \<and> (\<exists>p. NormalizeRequestPath raw = Some p \<and> p \<in> set views)
    \<and> list_all (\<lambda>v. v = raw \<or> (\<exists>sgs. v = normal_path sgs \<and> list_all plain sgs)) views
    \<and> (\<exists>d. decode_rounds 5 raw = Some d
         \<and> (CHR '';'' \<in> set d \<longrightarrow> (\<exists>v\<in>set views. v = path_Clean (strip_matrix False d)
                 \<or> v = path_Clean (''/'' @ path_Clean (strip_matrix False d)))))"
proof -
  obtain p where p: "NormalizeRequestPath raw = Some p"
    using assms by (auto simp: SecurityPathViews_def split: option.splits)
  obtain d where d: "decode_rounds 5 raw = Some d" using p by (rule NormalizeRequestPath_cases)
  obtain sgs where pn: "p = normal_path sgs" "list_all plain sgs" using p by (rule NormalizeRequestPath_cases)
  let ?vs = "raw # (if p \<noteq> raw then [p] else [])"
  let ?base = "path_Clean (strip_matrix False d)"
  let ?m = "if has_prefix ?base ''/'' then ?base else path_Clean (''/'' @ ?base)"
  have m: "\<exists>sgs. ?m = normal_path sgs \<and> list_all plain sgs"
  proof (cases "has_prefix ?base ''/''")
    case True
    then have "has_prefix (strip_matrix False d) ''/''"
      using path_Clean_relative[of "strip_matrix False d"] by argo
    from path_Clean_rooted[OF this] show ?thesis using True by auto
  next
    case False
    then show ?thesis using path_Clean_rooted[of "''/'' @ ?base"] by auto
  qed
  have same: "CHR ''%'' \<notin> set raw \<Longrightarrow> d = raw" using d decode_rounds_id[of raw 5] by simp
  have fd: "fullyDecodePath raw 5 = Some d" using d by (simp add: fullyDecodePath_def)
  have views: "views = (if CHR '';'' \<notin> set raw \<and> CHR ''%'' \<notin> set raw \<or> CHR '';'' \<notin> set d then ?vs
      else if ?m \<in> set ?vs then ?vs else ?vs @ [?m])"
    using arg_cong[of _ _ fst, OF assms[unfolded SecurityPathViews_def p option.case Let_def fd]]
    by (cases "CHR '';'' \<notin> set raw \<and> CHR ''%'' \<notin> set raw"; cases "CHR '';'' \<notin> set d")
       (simp_all only: if_distrib[of fst] fst_conv if_True if_False simp_thms)
  consider (plain) "views = ?vs" "CHR '';'' \<notin> set raw \<and> CHR ''%'' \<notin> set raw \<or> CHR '';'' \<notin> set d"
    | (old) "views = ?vs" "?m \<in> set ?vs" | (new) "views = ?vs @ [?m]" "?m \<notin> set ?vs"
    using views by (cases "CHR '';'' \<notin> set raw \<and> CHR ''%'' \<notin> set raw \<or> CHR '';'' \<notin> set d"; cases "?m \<in> set ?vs")
      (simp_all only: if_True if_False simp_thms)
  then show ?thesis
  proof cases
    case plain
    then have "CHR '';'' \<notin> set d" using same by auto
    then show ?thesis using plain(1) p d pn by auto
  next
    case old
    then show ?thesis using p d pn m by (auto split: if_splits)
  next
    case new
    then show ?thesis using p d pn m by (auto split: if_splits)
  qed
qed

subsection \<open>Prefix matching\<close>

lemma join_slash_append:
  "a \<noteq> [] \<Longrightarrow> b \<noteq> [] \<Longrightarrow> join_slash (a @ b) = join_slash a @ CHR ''/'' # join_slash b"
proof (induction a rule: join_slash.induct)
  case (2 s)
  then show ?case by (cases b) auto
qed auto

lemma split_normal_path:
  assumes "list_all plain a" "a \<noteq> []"
  shows "split_slash (normal_path a) = [] # a"
  using assms split_join[of a] by (auto simp: normal_path_def plain_def list_all_iff)

lemma join_slash_last:
  assumes "list_all plain a" "a \<noteq> []"
  shows "join_slash a \<noteq> []" "last (join_slash a) \<noteq> CHR ''/''"
proof -
  have "join_slash a \<noteq> [] \<and> last (join_slash a) \<noteq> CHR ''/''"
    using assms
  proof (induction a rule: join_slash.induct)
    case (2 s)
    then show ?case by (auto simp: plain_def dest: last_in_set)
  qed auto
  then show "join_slash a \<noteq> []" "last (join_slash a) \<noteq> CHR ''/''" by auto
qed

lemma trim_right_slash_normal:
  assumes "list_all plain b"
  shows "trim_right_slash (normal_path b) = (if b = [] then [] else normal_path b)"
proof (cases "b = []")
  case False
  have "last (normal_path b) \<noteq> CHR ''/''"
    using join_slash_last[OF assms False] by (simp add: normal_path_def)
  then have "hd (rev (normal_path b)) \<noteq> CHR ''/''" by (simp only: hd_rev not_False_eq_True)
  moreover have "rev (normal_path b) \<noteq> []" by (simp add: normal_path_def)
  ultimately show ?thesis
    using False by (cases "rev (normal_path b)") (auto simp: trim_right_slash_def)
qed (simp add: trim_right_slash_def normal_path_def)

text \<open>
  Prefix matching respects segment boundaries: on normal paths a prefix matches exactly
  when its segments are the first segments of the path, so a rule for one directory never
  covers a sibling whose name merely starts the same way.
\<close>

theorem prefix_matches_whole_segments:
  assumes "list_all plain a" "list_all plain b"
  shows "PathMatchesPrefix (normal_path a) (normal_path b) \<longleftrightarrow> prefix b a"
proof (cases "b = []")
  case True
  then show ?thesis using trim_right_slash_normal[of "[]"] by (simp add: PathMatchesPrefix_def normal_path_def)
next
  case False
  have match: "PathMatchesPrefix (normal_path a) (normal_path b) \<longleftrightarrow>
      normal_path a = normal_path b \<or> has_prefix (normal_path a) (normal_path b @ ''/'')"
    using trim_right_slash_normal[OF assms(2)] False by (simp add: PathMatchesPrefix_def normal_path_def Let_def)
  show ?thesis
  proof
    assume "PathMatchesPrefix (normal_path a) (normal_path b)"
    then consider (eq) "normal_path a = normal_path b"
      | (under) t where "normal_path a = normal_path b @ CHR ''/'' # t"
      using match by (auto simp: has_prefix_iff)
    then show "prefix b a"
    proof cases
      case eq
      then have "join_slash a = join_slash b" by (simp add: normal_path_def)
      then have "a \<noteq> []" using join_slash_last(1)[OF assms(2) False] by auto
      then have "[] # a = [] # b"
        using split_normal_path[OF assms(1)] split_normal_path[OF assms(2) False] eq by metis
      then show ?thesis by simp
    next
      case under
      then have "a \<noteq> []" by (auto simp: normal_path_def)
      then have "[] # a = ([] # b) @ split_slash t"
        using under split_slash_append[of "normal_path b" t] split_normal_path[OF assms(1)]
          split_normal_path[OF assms(2) False] by simp
      then show ?thesis by (auto simp: prefix_def)
    qed
  next
    assume "prefix b a"
    then obtain c where a: "a = b @ c" by (auto simp: prefix_def)
    show "PathMatchesPrefix (normal_path a) (normal_path b)"
    proof (cases "c = []")
      case True
      then show ?thesis using match a by simp
    next
      case c: False
      have "normal_path a = normal_path b @ CHR ''/'' # join_slash c"
        using join_slash_append[OF False c] a by (simp add: normal_path_def)
      then show ?thesis using match by (auto simp: has_prefix_iff)
    qed
  qed
qed

subsection \<open>Witnesses\<close>

theorem normalized_path_is_normal_witness:
  "NormalizeRequestPath ''/a/%2e%2e/b'' = Some ''/b''
   \<and> (\<exists>sgs. ''/b'' = normal_path sgs \<and> list_all plain sgs)"
proof -
  have n: "NormalizeRequestPath ''/a/%2e%2e/b'' = Some ''/b''" by code_simp
  from normalized_path_is_normal[OF n] n show ?thesis by blast
qed

theorem normalize_idempotent_witness: "NormalizeRequestPath ''/b'' = Some ''/b''"
proof -
  have "NormalizeRequestPath ''/a/%2e%2e/b'' = Some ''/b''" by code_simp
  then show ?thesis by (rule normalize_idempotent)
qed

theorem encoding_layer_invariant_witness:
  "NormalizeRequestPath ''/%252e%252e/b'' = NormalizeRequestPath ''/%2e%2e/b''"
  by (rule encoding_layer_invariant[where d = "''/../b''"]) code_simp+

theorem views_cover_interpretations_witness:
  "SecurityPathViews ''/a;x=1/b'' = ([''/a;x=1/b'', ''/a/b''], True)
   \<and> distinct [''/a;x=1/b'', ''/a/b'']"
proof -
  have v: "SecurityPathViews ''/a;x=1/b'' = ([''/a;x=1/b'', ''/a/b''], True)" by code_simp
  from views_cover_interpretations[OF v] v show ?thesis by blast
qed

theorem prefix_matches_whole_segments_witness:
  "PathMatchesPrefix ''/api/v1'' ''/api'' \<and> \<not> PathMatchesPrefix ''/apixyz'' ''/api''"
proof -
  have p: "list_all plain [''api'']" "list_all plain [''api'', ''v1'']" "list_all plain [''apixyz'']" by code_simp+
  from prefix_matches_whole_segments[OF p(2,1)] prefix_matches_whole_segments[OF p(3,1)]
  show ?thesis by (simp add: normal_path_def)
qed

end
