(* ===== verification/IP_Access.thy ===== *)
theory IP_Access
  imports Net_Addr Path_Properties "HOL-Library.Multiset"
begin

text \<open>
  \<open>internal/protection/ip\<close>: the binary prefix index (\<open>prefix_index.go\<close>), the matcher
  of addresses and networks (\<open>blacklist.go\<close>) and the access policy over scoped rules
  (\<open>access.go\<close>).
\<close>

subsection \<open>The prefix index\<close>

datatype 'a prefixNode = Node "'a prefixNode option" "'a prefixNode option" "'a list"

definition empty_node :: "'a prefixNode" where
  "empty_node = Node None None []"

fun node_add :: "bool list \<Rightarrow> 'a \<Rightarrow> 'a prefixNode \<Rightarrow> 'a prefixNode" where
  "node_add [] v (Node l r vs) = Node l r (vs @ [v])"
| "node_add (b # bs) v (Node l r vs) =
     (if b then Node l (Some (node_add bs v (case r of None \<Rightarrow> empty_node | Some n \<Rightarrow> n))) vs
      else Node (Some (node_add bs v (case l of None \<Rightarrow> empty_node | Some n \<Rightarrow> n))) r vs)"

fun node_match :: "bool list \<Rightarrow> 'a prefixNode \<Rightarrow> 'a list" where
  "node_match [] (Node l r vs) = vs"
| "node_match (b # bs) (Node l r vs) =
     vs @ (case (if b then r else l) of None \<Rightarrow> [] | Some n \<Rightarrow> node_match bs n)"

record 'a prefixIndex =
  ix_v4 :: "'a prefixNode option"
  ix_v6 :: "'a prefixNode option"

definition empty_index :: "'a prefixIndex" where
  "empty_index = \<lparr>ix_v4 = None, ix_v6 = None\<rparr>"

definition canonicalPrefix :: "Prefix \<Rightarrow> Prefix option" where
  "canonicalPrefix p =
     (if Is4In6 (px_addr p) then
        (if px_bits p \<le> 96 then None
         else Some (Masked \<lparr>px_addr = Unmap (px_addr p), px_bits = px_bits p - 96\<rparr>))
      else Some (Masked p))"

definition index_add :: "Prefix \<Rightarrow> 'a \<Rightarrow> 'a prefixIndex \<Rightarrow> 'a prefixIndex" where
  "index_add prefix0 v ix =
     (let p = Masked prefix0; addr = Unmap (px_addr p);
          path = map (addressBit addr) [0..<px_bits p];
          grow = (\<lambda>root. Some (node_add path v (case root of None \<Rightarrow> empty_node | Some n \<Rightarrow> n)))
      in if Is4 addr then ix\<lparr>ix_v4 := grow (ix_v4 ix)\<rparr> else ix\<lparr>ix_v6 := grow (ix_v6 ix)\<rparr>)"

definition index_match :: "'a prefixIndex \<Rightarrow> Addr \<Rightarrow> 'a list" where
  "index_match ix addr0 =
     (let addr = Unmap addr0 in
      case (if Is4 addr then ix_v4 ix else ix_v6 ix) of
        None \<Rightarrow> [] | Some n \<Rightarrow> node_match (addr_bits addr) n)"

subsection \<open>Matcher\<close>

record Matcher =
  mt_ips :: "Addr list"
  mt_prefixes :: "Prefix list"
  mt_cidrs :: "unit prefixIndex"

definition empty_matcher :: Matcher where
  "empty_matcher = \<lparr>mt_ips = [], mt_prefixes = [], mt_cidrs = empty_index\<rparr>"

definition matcher_entry :: "string \<Rightarrow> Matcher \<Rightarrow> Matcher option" where
  "matcher_entry entry0 m =
     (let entry = trim_space entry0 in
      if entry = [] then None
      else if contains entry ''/'' then
        (case ParsePrefix entry of
           None \<Rightarrow> None
         | Some p \<Rightarrow>
             (case canonicalPrefix p of
                None \<Rightarrow> None
              | Some c \<Rightarrow> Some (m\<lparr>mt_prefixes := mt_prefixes m @ [c], mt_cidrs := index_add c () (mt_cidrs m)\<rparr>)))
      else
        (case ParseAddr entry of
           None \<Rightarrow> None
         | Some a \<Rightarrow> Some (m\<lparr>mt_ips := List.insert (Unmap a) (mt_ips m)\<rparr>)))"

fun matcher_entries :: "string list \<Rightarrow> Matcher \<Rightarrow> Matcher option" where
  "matcher_entries [] m = Some m"
| "matcher_entries (e # es) m =
     (case matcher_entry e m of None \<Rightarrow> None | Some m' \<Rightarrow> matcher_entries es m')"

definition NewMatcher :: "string list \<Rightarrow> Matcher option" where
  "NewMatcher entries = matcher_entries entries empty_matcher"

definition matcher_contains_addr :: "Addr \<Rightarrow> Matcher \<Rightarrow> bool" where
  "matcher_contains_addr a m \<longleftrightarrow> Unmap a \<in> set (mt_ips m) \<or> length (index_match (mt_cidrs m) (Unmap a)) > 0"

definition Contains :: "string \<Rightarrow> Matcher \<Rightarrow> bool" where
  "Contains raw m = (case ParseAddr (trim_space raw) of
     None \<Rightarrow> False | Some a \<Rightarrow> matcher_contains_addr a m)"

subsection \<open>Access rules\<close>

definition AccessActionAllow :: string where "AccessActionAllow = ''allow''"

definition AccessActionBlock :: string where "AccessActionBlock = ''block''"

definition AccessActionMonitor :: string where "AccessActionMonitor = ''monitor''"

record IPAccessRuleConfig =
  ac_ID :: string
  ac_Name :: string
  ac_Description :: string
  ac_Action :: string
  ac_Scope :: string
  ac_SiteID :: string
  ac_PathPrefix :: string
  ac_Entries :: "string list"
  ac_Enabled :: bool

record IPProtectionConfig =
  ipc_Blacklist :: "string list"
  ipc_Whitelist :: "string list"
  ipc_AccessRules :: "IPAccessRuleConfig list"

record AccessDecision =
  ad_Matched :: bool
  ad_Action :: string
  ad_RuleID :: string
  ad_RuleName :: string
  ad_Scope :: string
  ad_SiteID :: string
  ad_PathPrefix :: string
  ad_Description :: string

definition no_decision :: AccessDecision where
  "no_decision = \<lparr>ad_Matched = False, ad_Action = ''none'', ad_RuleID = [], ad_RuleName = [],
     ad_Scope = [], ad_SiteID = [], ad_PathPrefix = [], ad_Description = []\<rparr>"

record accessRule =
  ru_id :: string
  ru_name :: string
  ru_description :: string
  ru_action :: string
  ru_scope :: string
  ru_siteID :: string
  ru_pathPrefix :: string
  ru_matcher :: Matcher

record AccessPolicy =
  po_rules :: "accessRule list"
  po_exact :: "Addr \<rightharpoonup> nat list"
  po_networks :: "nat prefixIndex"

definition empty_policy :: AccessPolicy where
  "empty_policy = \<lparr>po_rules = [], po_exact = Map.empty, po_networks = empty_index\<rparr>"

definition normalizeAccessAction :: "string \<Rightarrow> string" where
  "normalizeAccessAction action =
     (let a = to_lower (trim_space action) in
      if a = AccessActionBlock then AccessActionBlock
      else if a = AccessActionMonitor then AccessActionMonitor else AccessActionAllow)"

definition normalizeAccessScope :: "string \<Rightarrow> string" where
  "normalizeAccessScope scope =
     (let s = to_lower (trim_space scope) in
      if s = ''site'' then ''site''
      else if s = ''path'' \<or> s = ''directory'' then ''path'' else ''global'')"

definition normalizePathPrefix :: "string \<Rightarrow> string" where
  "normalizePathPrefix pre =
     (let p = trim_space pre in
      if p = [] then [] else if \<not> has_prefix p ''/'' then ''/'' @ p else p)"

definition newAccessRule :: "IPAccessRuleConfig \<Rightarrow> accessRule option" where
  "newAccessRule item =
     (case NewMatcher (ac_Entries item) of
        None \<Rightarrow> None
      | Some matcher \<Rightarrow> Some \<lparr>ru_id = trim_space (ac_ID item), ru_name = trim_space (ac_Name item),
          ru_description = trim_space (ac_Description item),
          ru_action = normalizeAccessAction (ac_Action item),
          ru_scope = normalizeAccessScope (ac_Scope item), ru_siteID = trim_space (ac_SiteID item),
          ru_pathPrefix = normalizePathPrefix (ac_PathPrefix item), ru_matcher = matcher\<rparr>)"

definition addRule :: "accessRule \<Rightarrow> AccessPolicy \<Rightarrow> AccessPolicy" where
  "addRule rule p =
     (let index = length (po_rules p) in
      p\<lparr>po_rules := po_rules p @ [rule],
        po_exact := fold (\<lambda>a m. m(a \<mapsto> lookup_or [] m a @ [index])) (mt_ips (ru_matcher rule)) (po_exact p),
        po_networks := fold (\<lambda>x ix. index_add x index ix) (mt_prefixes (ru_matcher rule)) (po_networks p)\<rparr>)"

fun add_configured :: "IPAccessRuleConfig list \<Rightarrow> AccessPolicy \<Rightarrow> AccessPolicy option" where
  "add_configured [] p = Some p"
| "add_configured (item # items) p =
     (if \<not> ac_Enabled item then add_configured items p
      else case newAccessRule item of
        None \<Rightarrow> None | Some rule \<Rightarrow> add_configured items (addRule rule p))"

definition legacy_rule :: "string \<Rightarrow> string \<Rightarrow> string \<Rightarrow> string list \<Rightarrow> IPAccessRuleConfig" where
  "legacy_rule i name action entries = \<lparr>ac_ID = i, ac_Name = name, ac_Description = [],
     ac_Action = action, ac_Scope = ''global'', ac_SiteID = [], ac_PathPrefix = [],
     ac_Entries = entries, ac_Enabled = True\<rparr>"

definition NewAccessPolicy :: "IPProtectionConfig \<Rightarrow> AccessPolicy option" where
  "NewAccessPolicy cfg = add_configured
     ((if ipc_Whitelist cfg = [] then [] else
         [legacy_rule ''legacy-whitelist'' ''Global allowlist'' AccessActionAllow (ipc_Whitelist cfg)])
      @ (if ipc_Blacklist cfg = [] then [] else
         [legacy_rule ''legacy-blacklist'' ''Global blocklist'' AccessActionBlock (ipc_Blacklist cfg)])
      @ ipc_AccessRules cfg) empty_policy"

definition pathMatchesPrefix :: "string \<Rightarrow> string \<Rightarrow> bool" where
  "pathMatchesPrefix path0 pre0 =
     (case NormalizeRequestPath path0 of
        None \<Rightarrow> False
      | Some path \<Rightarrow>
          (case NormalizeRequestPath pre0 of
             None \<Rightarrow> False
           | Some pre \<Rightarrow>
               if pre = [] then True
               else if path = [] then False
               else let base = trim_right_slash pre in
                 if base = [] then has_prefix path ''/''
                 else path = base \<or> has_prefix path (base @ ''/'')))"

definition appliesScope :: "string \<Rightarrow> string \<Rightarrow> accessRule \<Rightarrow> bool" where
  "appliesScope siteID path r =
     (if ru_scope r = ''site'' then ru_siteID r \<noteq> [] \<and> ru_siteID r = siteID
      else if ru_scope r = ''path'' then
        (if ru_siteID r \<noteq> [] \<and> ru_siteID r \<noteq> siteID then False
         else pathMatchesPrefix path (if ru_pathPrefix r = [] then ''/'' else ru_pathPrefix r))
      else True)"

definition decision :: "accessRule \<Rightarrow> AccessDecision" where
  "decision r = \<lparr>ad_Matched = True, ad_Action = ru_action r, ad_RuleID = ru_id r, ad_RuleName = ru_name r,
     ad_Scope = ru_scope r, ad_SiteID = ru_siteID r, ad_PathPrefix = ru_pathPrefix r,
     ad_Description = ru_description r\<rparr>"

definition specificity :: "Addr \<Rightarrow> accessRule \<Rightarrow> nat" where
  "specificity addr r =
     (let exact = (if addr \<in> set (mt_ips (ru_matcher r)) then BitLen addr else 0);
          score = foldl (\<lambda>s p. if prefix_Contains p addr \<and> px_bits p > s then px_bits p else s)
                    exact (mt_prefixes (ru_matcher r))
      in if ru_scope r = ''path'' then 3000 + length (ru_pathPrefix r) + score
         else if ru_scope r = ''site'' then 2000 + score else 1000 + score)"

subsection \<open>Evaluation\<close>

fun evaluate_loop ::
    "AccessPolicy \<Rightarrow> Addr \<Rightarrow> string \<Rightarrow> string \<Rightarrow> nat option \<Rightarrow> (AccessDecision \<times> nat) option \<Rightarrow> nat list
       \<Rightarrow> (AccessDecision \<times> nat) option" where
  "evaluate_loop p addr siteID path previous best [] = best"
| "evaluate_loop p addr siteID path previous best (i # is) =
     (if previous = Some i then evaluate_loop p addr siteID path previous best is
      else let r = po_rules p ! i in
        if \<not> appliesScope siteID path r then evaluate_loop p addr siteID path (Some i) best is
        else let score = specificity addr r in
          (case best of
             None \<Rightarrow> evaluate_loop p addr siteID path (Some i) (Some (decision r, score)) is
           | Some (d, s) \<Rightarrow>
               if score > s then evaluate_loop p addr siteID path (Some i) (Some (decision r, score)) is
               else evaluate_loop p addr siteID path (Some i) best is))"

definition evaluatePath :: "AccessPolicy \<Rightarrow> Addr \<Rightarrow> string \<Rightarrow> string \<Rightarrow> nat list \<Rightarrow> AccessDecision" where
  "evaluatePath p addr siteID path indices =
     (case evaluate_loop p addr siteID path None None indices of
        None \<Rightarrow> no_decision | Some (d, s) \<Rightarrow> d)"

text \<open>
  The loop over the views: a block ends it; otherwise the first view's decision stands unless
  a later one, not an allow, tightens it.
\<close>

fun view_loop :: "(string \<Rightarrow> AccessDecision) \<Rightarrow> bool \<Rightarrow> AccessDecision \<Rightarrow> string list \<Rightarrow> AccessDecision" where
  "view_loop eval first selected [] = selected"
| "view_loop eval first selected (v # vs) =
     (let d = eval v in
      if ad_Action d = AccessActionBlock then d
      else view_loop eval False
        (if first \<or> (ad_Action d \<noteq> AccessActionAllow
              \<and> (ad_Action selected = AccessActionAllow \<or> \<not> ad_Matched selected
                 \<or> ad_Action d = AccessActionMonitor))
         then d else selected) vs)"

definition zero_decision :: AccessDecision where
  "zero_decision = no_decision\<lparr>ad_Action := []\<rparr>"

definition candidate_indices :: "AccessPolicy \<Rightarrow> Addr \<Rightarrow> nat list" where
  "candidate_indices p addr = sort (lookup_or [] (po_exact p) addr @ index_match (po_networks p) addr)"

definition Evaluate :: "string \<Rightarrow> string \<Rightarrow> string \<Rightarrow> AccessPolicy \<Rightarrow> AccessDecision" where
  "Evaluate clientIP siteID path p =
     (if po_rules p = [] then no_decision
      else let (views, valid) = SecurityPathViews path in
        if \<not> valid then no_decision
        else case ParseAddr (trim_space clientIP) of
          None \<Rightarrow> no_decision
        | Some a \<Rightarrow>
            let addr = Unmap a; indices = candidate_indices p addr
            in view_loop (\<lambda>v. evaluatePath p addr siteID v indices) True zero_decision views)"

end
