(* ===== verification/IP_Properties.thy ===== *)
theory IP_Properties
  imports IP_Access
begin

text \<open>
  Correctness of the IP policies: the trie answers what a linear scan of the prefixes would,
  the matcher covers exactly its entries, the indexed evaluation picks the most specific
  applicable rule, and the views of a path can only tighten a decision.
\<close>

subsection \<open>The contract of a prefix store\<close>

text \<open>
  What the matcher and the access policy rely on: an empty store matches nothing, and adding
  a prefix adds its value to the matches of exactly the addresses it covers.
\<close>

locale prefix_store =
  fixes empty :: 's
    and add :: "'p \<Rightarrow> 'v \<Rightarrow> 's \<Rightarrow> 's"
    and find :: "'s \<Rightarrow> 'a \<Rightarrow> 'v list"
    and covers :: "'p \<Rightarrow> 'a \<Rightarrow> bool"
    and ok :: "'p \<Rightarrow> bool"
  assumes find_empty: "find empty a = []"
    and find_add: "ok p \<Longrightarrow> mset (find (add p v s) a) = mset (find s a) + (if covers p a then {#v#} else {#})"
begin

lemma find_add_set:
  "ok p \<Longrightarrow> set (find (add p v s) a) = set (find s a) \<union> (if covers p a then {v} else {})"
  using arg_cong[OF find_add[of p v s a], of set_mset] by simp

lemma find_fold:
  "\<forall>p\<in>set ps. ok p \<Longrightarrow>
     set (find (fold (\<lambda>p s. add p v s) ps s) a) = set (find s a) \<union> (if \<exists>p\<in>set ps. covers p a then {v} else {})"
  by (induction ps arbitrary: s) (auto simp: find_add_set)

end

subsection \<open>The trie meets it\<close>

lemma node_match_empty [simp]: "node_match bits empty_node = []"
  by (cases bits) (simp_all add: empty_node_def)

lemma node_match_add:
  "mset (node_match bits (node_add path v n)) =
     mset (node_match bits n) + (if prefix path bits then {#v#} else {#})"
proof (induction path v n arbitrary: bits rule: node_add.induct)
  case (1 v l r vs)
  then show ?case by (cases bits) auto
next
  case (2 b bs v l r vs)
  show ?case
  proof (cases bits)
    case Nil
    then show ?thesis by auto
  next
    case (Cons c cs)
    then show ?thesis using 2[of cs] by (cases b; cases c) (auto split: option.split)
  qed
qed

definition index_covers :: "Prefix \<Rightarrow> Addr \<Rightarrow> bool" where
  "index_covers p a \<longleftrightarrow> BitLen (px_addr p) = BitLen (Unmap a)
     \<and> take (px_bits p) (addr_bits (px_addr p)) = take (px_bits p) (addr_bits (Unmap a))"

definition prefix_ok :: "Prefix \<Rightarrow> bool" where
  "prefix_ok p \<longleftrightarrow> addr_ok (px_addr p) \<and> px_bits p \<le> BitLen (px_addr p) \<and> \<not> Is4In6 (px_addr (Masked p))"

lemma Is4_BitLen: "Is4 a = Is4 b \<longleftrightarrow> BitLen a = BitLen b"
  by (cases a; cases b) auto

lemma prefix_take: "prefix (take n xs) ys \<longleftrightarrow> take n xs = take n ys" if "n \<le> length xs" "length xs = length ys"
  using that by (metis append_eq_conv_conj append_take_drop_id length_take min_absorb2 prefix_def)

lemma index_match_add:
  assumes "prefix_ok p"
  shows "mset (index_match (index_add p v ix) a) =
    mset (index_match ix a) + (if index_covers p a then {#v#} else {#})"
proof -
  let ?q = "px_addr (Masked p)"
  have q: "Unmap ?q = ?q" using assms by (simp add: prefix_ok_def Unmap_def)
  have path: "map (addressBit ?q) [0..<px_bits p] = take (px_bits p) (addr_bits (px_addr p))"
    using assms by (simp add: prefix_ok_def Masked_def take_bits_mask)
  have four: "Is4 ?q = Is4 (px_addr p)" by (simp add: Masked_def)
  have cov: "prefix (take (px_bits p) (addr_bits (px_addr p))) (addr_bits (Unmap a)) \<longleftrightarrow> index_covers p a"
    if "Is4 (px_addr p) = Is4 (Unmap a)"
    using that assms by (simp add: index_covers_def prefix_ok_def prefix_take Is4_BitLen)
  have nocov: "Is4 (px_addr p) \<noteq> Is4 (Unmap a) \<Longrightarrow> \<not> index_covers p a"
    by (simp add: index_covers_def Is4_BitLen)
  have bits: "px_bits (Masked p) = px_bits p" by (simp add: Masked_def)
  show ?thesis
  proof (cases "Is4 (px_addr p) = Is4 (Unmap a)")
    case True
    then show ?thesis using cov[OF True]
      by (cases "Is4 (px_addr p)")
         (auto simp: index_match_def index_add_def Let_def q path four bits node_match_add split: option.split)
  next
    case False
    then show ?thesis using nocov[OF False]
      by (cases "Is4 (px_addr p)") (auto simp: index_match_def index_add_def Let_def q four)
  qed
qed

lemma index_match_empty [simp]: "index_match empty_index a = []"
  by (simp add: index_match_def empty_index_def Let_def)

interpretation trie: prefix_store empty_index index_add index_match index_covers prefix_ok
  by unfold_locales (simp_all add: index_match_add)

subsection \<open>Parsed addresses and prefixes are well formed\<close>

lemma parseIPv4Fields_length: "parseIPv4Fields s = Some fs \<Longrightarrow> length fs = 4"
  by (auto simp: parseIPv4Fields_def Let_def split: if_splits)

lemma parse6_loop_length:
  assumes "parse6_loop n ip ell s = Some (ip', ell')" "length ip + 2 * n = 16"
    and "\<forall>e. ell = Some e \<longrightarrow> e \<le> length ip"
  shows "length ip' \<le> 16 \<and> (\<forall>e. ell' = Some e \<longrightarrow> e \<le> length ip')"
  using assms
proof (induction n arbitrary: ip ell s)
  case 0
  then show ?case by (auto split: if_splits)
next
  case (Suc n)
  from Suc.prems(1) consider
      (v4) fs where "parseIPv4Fields s = Some fs" "ip' = ip @ fs" "ell' = ell" "length ip + 4 \<le> 16"
    | (last) x y where "ip' = ip @ [x, y]" "ell' = ell \<or> ell' = Some (length ip')"
    | (more) x y ell1 s1 where "parse6_loop n (ip @ [x, y]) ell1 s1 = Some (ip', ell')"
        "ell1 = ell \<or> ell1 = Some (length ip + 2)"
    by (auto simp: Let_def split: if_splits)
  then show ?case
  proof cases
    case v4
    then show ?thesis using parseIPv4Fields_length[OF v4(1)] Suc.prems(3) by fastforce
  next
    case last
    then show ?thesis using Suc.prems(2,3) by fastforce
  next
    case more
    then show ?thesis using Suc.IH[OF more(1)] Suc.prems(2,3) by fastforce
  qed
qed

lemma expand_ellipsis_length:
  assumes "expand_ellipsis (ip, ell) = Some b" "length ip \<le> 16" "\<forall>e. ell = Some e \<longrightarrow> e \<le> length ip"
  shows "length b = 16"
  using assms by (auto simp: expand_ellipsis_def split: if_splits option.splits)

lemma parse6_groups_ok:
  assumes "parse6_groups z ell t = Some a" "ell = None \<or> ell = Some 0"
  shows "\<exists>b. a = Addr6 b z \<and> length b = 16"
proof -
  from assms(1) obtain ip e where r: "parse6_loop 8 [] ell t = Some (ip, e)"
      "map_option (\<lambda>b. Addr6 b z) (expand_ellipsis (ip, e)) = Some a"
    by (auto simp: parse6_groups_def split: option.splits)
  have "length ip \<le> 16 \<and> (\<forall>k. e = Some k \<longrightarrow> k \<le> length ip)"
    using parse6_loop_length[OF r(1)] assms(2) by auto
  then show ?thesis using r(2) expand_ellipsis_length by auto
qed

lemma parseIPv6_ok: "parseIPv6 s = Some a \<Longrightarrow> \<exists>b z. a = Addr6 b z \<and> length b = 16"
  by (auto simp: parseIPv6_def Let_def split: if_splits dest!: parse6_groups_ok)

lemma ParseAddr_ok: "ParseAddr s = Some a \<Longrightarrow> addr_ok a"
  using parseIPv6_ok[of s a]
  by (auto simp: ParseAddr_def addr_ok_def parseIPv4Fields_length split: list.splits if_splits)

lemma Unmap_ok [simp]: "addr_ok a \<Longrightarrow> addr_ok (Unmap a)"
  by (cases a) (auto simp: Unmap_def addr_ok_def)

lemma Unmap_not_4In6 [simp]: "\<not> Is4In6 (Unmap a)"
  by (simp add: Unmap_def)

lemma Unmap_idem [simp]: "Unmap (Unmap a) = Unmap a"
  by (simp add: Unmap_def)

lemma ParsePrefix_ok: "ParsePrefix s = Some p \<Longrightarrow> addr_ok (px_addr p) \<and> px_bits p \<le> BitLen (px_addr p)"
  by (auto simp: ParsePrefix_def Let_def ParseAddr_ok nat_le_iff split: if_splits option.splits)

lemma mask_byte_255: "mask_byte k b = 255 \<Longrightarrow> k \<le> 8 \<Longrightarrow> k = 8 \<and> b = 255"
proof -
  assume m: "mask_byte k b = 255" "k \<le> 8"
  have "k = 8"
  proof (rule ccontr)
    assume "k \<noteq> 8"
    then have "even ((2::int) ^ (8 - k))" using m(2) by simp
    then have "even (mask_byte k b)" by (simp add: mask_byte_def)
    then show False using m(1) by simp
  qed
  then show ?thesis using m(1) by (simp add: mask_byte_def)
qed

text \<open>Masking does not turn an address into an IPv4-mapped one.\<close>

lemma mask_not_4In6:
  assumes "addr_ok a" "\<not> Is4In6 a"
  shows "\<not> Is4In6 (mask_addr n a)"
proof (cases a)
  case (Addr6 b z)
  have len: "length b = 16" using assms(1) Addr6 by (simp add: addr_ok_def)
  show ?thesis
  proof
    assume "Is4In6 (mask_addr n a)"
    then have t: "take 12 (mask_bytes n b) = replicate 10 0 @ [255, 255]" using Addr6 by simp
    have nth: "mask_bytes n b ! i = mask_byte (min 8 (n - 8 * i)) (b ! i)" if "i < 12" for i
      using that len by (simp add: mask_bytes_def)
    have "mask_bytes n b ! 11 = 255"
    proof -
      have "take 12 (mask_bytes n b) ! 11 = 255" unfolding t by (simp add: nth_append)
      then show ?thesis by simp
    qed
    then have "min 8 (n - 88) = 8" using mask_byte_255[of "min 8 (n - 88)" "b ! 11"] nth[of 11] by simp
    then have "n \<ge> 96" by simp
    then have "mask_bytes n b ! i = b ! i" if "i < 12" for i
      using that nth[OF that] by (simp add: mask_byte_def min_def)
    then have "take 12 (mask_bytes n b) = take 12 b"
      using len by (auto simp: list_eq_iff_nth_eq mask_bytes_def)
    then show False using t assms(2) Addr6 by simp
  qed
qed simp

lemma mask_bits_take:
  assumes "addr_ok a"
  shows "take n (addr_bits (mask_addr n a)) = take n (addr_bits a)"
proof -
  have "addressBit (mask_addr n a) i = addressBit a i" if "i < n" "i < BitLen a" for i
    using that assms addressBit_mask[of i a n] by (auto simp: addr_ok_def)
  then show ?thesis by (intro nth_equalityI) (auto simp: addr_bits_def)
qed

lemma addr_ok_mask [simp]: "addr_ok a \<Longrightarrow> addr_ok (mask_addr n a)"
  by (simp add: addr_ok_def mask_bytes_def)

lemma canonicalPrefix_ok:
  assumes "canonicalPrefix p = Some c" "addr_ok (px_addr p)" "px_bits p \<le> BitLen (px_addr p)"
  shows "prefix_ok c"
proof (cases "Is4In6 (px_addr p)")
  case True
  then obtain b z where b: "px_addr p = Addr6 b z" by (cases "px_addr p") auto
  have c: "c = Masked \<lparr>px_addr = Unmap (px_addr p), px_bits = px_bits p - 96\<rparr>"
    using assms(1) True by (simp add: canonicalPrefix_def split: if_splits)
  have "Unmap (px_addr p) = Addr4 (drop 12 b)" "length b = 16"
    using True b assms(2) by (simp_all add: Unmap_def addr_ok_def)
  then show ?thesis using c b assms(3) by (simp add: prefix_ok_def Masked_def addr_ok_def mask_bytes_def)
next
  case False
  then have c: "c = Masked p" using assms(1) by (simp add: canonicalPrefix_def)
  show ?thesis
    unfolding c prefix_ok_def using assms(2,3) False mask_not_4In6
    by (simp add: Masked_def)
qed

subsection \<open>The matcher covers exactly its entries\<close>

text \<open>
  What an entry of the configuration covers: a single address, or the addresses that share the
  leading bits of a network; IPv4-mapped notation stands for the IPv4 address it maps.
\<close>

definition network_covers :: "Prefix \<Rightarrow> Addr \<Rightarrow> bool" where
  "network_covers p a \<longleftrightarrow> (let q = Unmap (px_addr p);
       n = (if Is4In6 (px_addr p) then px_bits p - 96 else px_bits p)
     in BitLen q = BitLen (Unmap a) \<and> take n (addr_bits q) = take n (addr_bits (Unmap a)))"

definition entry_covers :: "string \<Rightarrow> Addr \<Rightarrow> bool" where
  "entry_covers e a \<longleftrightarrow> (let t = trim_space e in
     if contains t ''/'' then (case ParsePrefix t of None \<Rightarrow> False | Some p \<Rightarrow> network_covers p a)
     else (case ParseAddr t of None \<Rightarrow> False | Some b \<Rightarrow> Unmap b = Unmap a))"

lemma canonicalPrefix_covers:
  assumes "canonicalPrefix p = Some c" "addr_ok (px_addr p)"
  shows "index_covers c a \<longleftrightarrow> network_covers p a"
proof (cases "Is4In6 (px_addr p)")
  case True
  then have "c = Masked \<lparr>px_addr = Unmap (px_addr p), px_bits = px_bits p - 96\<rparr>"
    using assms(1) by (simp add: canonicalPrefix_def split: if_splits)
  then show ?thesis using assms(2) True
    by (simp add: index_covers_def network_covers_def Masked_def mask_bits_take Let_def)
next
  case False
  then have "c = Masked p" "Unmap (px_addr p) = px_addr p"
    using assms(1) by (simp_all add: canonicalPrefix_def Unmap_def)
  then show ?thesis using assms(2) False
    by (simp add: index_covers_def network_covers_def Masked_def mask_bits_take Let_def)
qed

definition matcher_ok :: "Matcher \<Rightarrow> bool" where
  "matcher_ok m \<longleftrightarrow> (\<forall>p\<in>set (mt_prefixes m). prefix_ok p)
     \<and> (\<forall>a. index_match (mt_cidrs m) a \<noteq> [] \<longleftrightarrow> (\<exists>p\<in>set (mt_prefixes m). index_covers p a))"

lemma matcher_ok_empty: "matcher_ok empty_matcher"
  by (simp add: matcher_ok_def empty_matcher_def)

lemma matcher_entry_ok:
  assumes "matcher_entry e m = Some m'" "matcher_ok m"
  shows "matcher_ok m' \<and> (matcher_contains_addr a m' \<longleftrightarrow> matcher_contains_addr a m \<or> entry_covers e a)"
proof (cases "contains (trim_space e) ''/''")
  case True
  then obtain p c where pc: "ParsePrefix (trim_space e) = Some p" "canonicalPrefix p = Some c"
      "m' = m\<lparr>mt_prefixes := mt_prefixes m @ [c], mt_cidrs := index_add c () (mt_cidrs m)\<rparr>"
    using assms(1) by (auto simp: matcher_entry_def Let_def split: option.splits if_splits)
  note p = ParsePrefix_ok[OF pc(1)]
  have c: "prefix_ok c" using canonicalPrefix_ok[OF pc(2)] p by simp
  have find: "index_match (mt_cidrs m') x \<noteq> [] \<longleftrightarrow> index_match (mt_cidrs m) x \<noteq> [] \<or> index_covers c x" for x
    using trie.find_add_set[OF c, of "()" "mt_cidrs m" x] pc(3) by (auto simp flip: set_empty)
  have "matcher_ok m'" using assms(2) c find pc(3) by (auto simp: matcher_ok_def)
  moreover have "matcher_contains_addr a m' \<longleftrightarrow> matcher_contains_addr a m \<or> index_covers c (Unmap a)"
    using find[of "Unmap a"] pc(3) by (auto simp: matcher_contains_addr_def)
  moreover have "index_covers c (Unmap a) \<longleftrightarrow> entry_covers e a"
    using canonicalPrefix_covers[OF pc(2)] p True pc(1) by (simp add: entry_covers_def Let_def network_covers_def)
  ultimately show ?thesis by simp
next
  case False
  then obtain b where b: "ParseAddr (trim_space e) = Some b" "m' = m\<lparr>mt_ips := List.insert (Unmap b) (mt_ips m)\<rparr>"
    using assms(1) by (auto simp: matcher_entry_def Let_def split: option.splits if_splits)
  then show ?thesis using assms(2) False
    by (auto simp: matcher_ok_def matcher_contains_addr_def entry_covers_def Let_def)
qed

lemma matcher_entries_ok:
  assumes "matcher_entries es m = Some m'" "matcher_ok m"
  shows "matcher_ok m' \<and> (matcher_contains_addr a m' \<longleftrightarrow> matcher_contains_addr a m \<or> (\<exists>e\<in>set es. entry_covers e a))"
  using assms
proof (induction es arbitrary: m)
  case (Cons e es)
  then obtain m1 where "matcher_entry e m = Some m1" "matcher_entries es m1 = Some m'"
    by (auto split: option.splits)
  then show ?case using Cons matcher_entry_ok[of e m m1 a] by auto
qed simp

lemma NewMatcher_ok: "NewMatcher es = Some m \<Longrightarrow> matcher_ok m"
  using matcher_entries_ok[OF _ matcher_ok_empty] by (auto simp: NewMatcher_def)

text \<open>
  A matcher built from a list of entries contains an address exactly when some entry covers
  it: as that very address or as a network that shares the leading bits, IPv4-mapped forms
  being the IPv4 addresses they map.
\<close>

theorem matcher_contains_iff:
  assumes "NewMatcher entries = Some m"
  shows "Contains raw m \<longleftrightarrow>
    (\<exists>a. ParseAddr (trim_space raw) = Some a \<and> (\<exists>e\<in>set entries. entry_covers e a))"
proof -
  have "matcher_contains_addr a m \<longleftrightarrow> (\<exists>e\<in>set entries. entry_covers e a)" for a
    using matcher_entries_ok[OF assms[unfolded NewMatcher_def] matcher_ok_empty, of a]
    by (simp add: matcher_contains_addr_def empty_matcher_def)
  then show ?thesis by (auto simp: Contains_def split: option.split)
qed

theorem matcher_contains_iff_witness:
  "\<exists>m. NewMatcher [''10.0.0.0/8'', ''::1''] = Some m \<and> Contains ''::ffff:10.1.2.3'' m"
proof -
  have "NewMatcher [''10.0.0.0/8'', ''::1''] \<noteq> None" by code_simp
  then obtain m where m: "NewMatcher [''10.0.0.0/8'', ''::1''] = Some m" by blast
  have "(case ParseAddr (trim_space ''::ffff:10.1.2.3'') of None \<Rightarrow> False
         | Some a \<Rightarrow> entry_covers ''10.0.0.0/8'' a)" by code_simp
  then have "\<exists>a. ParseAddr (trim_space ''::ffff:10.1.2.3'') = Some a
      \<and> (\<exists>e\<in>set [''10.0.0.0/8'', ''::1'']. entry_covers e a)"
    by (auto split: option.splits)
  then show ?thesis using matcher_contains_iff[OF m] m by blast
qed

subsection \<open>The policy index is complete\<close>

definition rule_matches :: "Addr \<Rightarrow> accessRule \<Rightarrow> bool" where
  "rule_matches a r = matcher_contains_addr a (ru_matcher r)"

definition policy_ok :: "AccessPolicy \<Rightarrow> bool" where
  "policy_ok p \<longleftrightarrow> (\<forall>a. Unmap a = a \<longrightarrow>
     set (candidate_indices p a) = {i. i < length (po_rules p) \<and> rule_matches a (po_rules p ! i)})"

lemma fold_exact:
  "set (lookup_or [] (fold (\<lambda>a m. m(a \<mapsto> lookup_or [] m a @ [i])) ips ex) a)
     = set (lookup_or [] ex a) \<union> (if a \<in> set ips then {i} else {})"
  by (induction ips arbitrary: ex) auto

lemma addRule_ok:
  assumes "policy_ok p" "matcher_ok (ru_matcher r)"
  shows "policy_ok (addRule r p)"
  unfolding policy_ok_def
proof (intro allI impI)
  fix a assume a: "Unmap a = a"
  let ?n = "length (po_rules p)" and ?m = "ru_matcher r"
  have nets: "set (index_match (po_networks (addRule r p)) a)
      = set (index_match (po_networks p) a) \<union> (if \<exists>x\<in>set (mt_prefixes ?m). index_covers x a then {?n} else {})"
    using trie.find_fold[of "mt_prefixes ?m" ?n "po_networks p" a] assms(2)
    by (simp add: addRule_def Let_def matcher_ok_def)
  have "set (candidate_indices (addRule r p) a)
      = set (candidate_indices p a) \<union> (if rule_matches a r then {?n} else {})"
    using nets fold_exact[of ?n "mt_ips ?m" "po_exact p" a] assms(2) a
    by (auto simp: candidate_indices_def addRule_def Let_def rule_matches_def matcher_contains_addr_def
        matcher_ok_def)
  also have "set (candidate_indices p a) = {i. i < ?n \<and> rule_matches a (po_rules p ! i)}"
    using assms(1) a by (simp add: policy_ok_def)
  finally show "set (candidate_indices (addRule r p) a)
      = {i. i < length (po_rules (addRule r p)) \<and> rule_matches a (po_rules (addRule r p) ! i)}"
    by (auto simp: addRule_def Let_def nth_append less_Suc_eq)
qed

lemma add_configured_ok: "add_configured items p = Some q \<Longrightarrow> policy_ok p \<Longrightarrow> policy_ok q"
proof (induction items arbitrary: p)
  case (Cons item items)
  show ?case
  proof (cases "ac_Enabled item")
    case True
    then obtain r where r: "newAccessRule item = Some r" "add_configured items (addRule r p) = Some q"
      using Cons.prems(1) by (auto split: option.splits)
    have "matcher_ok (ru_matcher r)"
      using r(1) NewMatcher_ok by (auto simp: newAccessRule_def split: option.splits)
    then show ?thesis using Cons.IH[OF r(2)] addRule_ok Cons.prems(2) by blast
  qed (use Cons in simp)
qed simp

lemma NewAccessPolicy_ok: "NewAccessPolicy cfg = Some p \<Longrightarrow> policy_ok p"
  unfolding NewAccessPolicy_def
  by (erule add_configured_ok)
     (simp add: policy_ok_def empty_policy_def candidate_indices_def)

subsection \<open>The most specific rule decides\<close>

definition applicable :: "AccessPolicy \<Rightarrow> string \<Rightarrow> string \<Rightarrow> nat \<Rightarrow> bool" where
  "applicable p siteID path i = appliesScope siteID path (po_rules p ! i)"

definition best_of ::
    "AccessPolicy \<Rightarrow> Addr \<Rightarrow> string \<Rightarrow> string \<Rightarrow> nat set \<Rightarrow> (AccessDecision \<times> nat) option \<Rightarrow> bool" where
  "best_of p a siteID path X best \<longleftrightarrow>
     (case best of
        None \<Rightarrow> (\<forall>i\<in>X. \<not> applicable p siteID path i)
      | Some (d, s) \<Rightarrow> (\<exists>i\<in>X. applicable p siteID path i \<and> d = decision (po_rules p ! i)
          \<and> s = specificity a (po_rules p ! i)
          \<and> (\<forall>j\<in>X. applicable p siteID path j \<longrightarrow>
               specificity a (po_rules p ! j) \<le> s \<and> (specificity a (po_rules p ! j) = s \<longrightarrow> i \<le> j))))"

lemma evaluate_loop_best:
  assumes "best_of p a siteID path X best" "sorted is" "\<forall>x\<in>X. \<forall>y\<in>set is. x \<le> y"
    and "\<forall>k. previous = Some k \<longrightarrow> k \<in> X"
  shows "best_of p a siteID path (X \<union> set is) (evaluate_loop p a siteID path previous best is)"
  using assms
proof (induction "is" arbitrary: X previous best)
  case (Cons i "is")
  have mono: "\<forall>x\<in>insert i X. \<forall>y\<in>set is. x \<le> y" using Cons.prems(2,3) by auto
  have le: "\<forall>x\<in>X. x \<le> i" using Cons.prems(3) by simp
  show ?case
  proof (cases "previous = Some i")
    case True
    then have "X \<union> set (i # is) = X \<union> set is" using Cons.prems(4) by auto
    then show ?thesis using True Cons.IH[of X best previous] Cons.prems by simp
  next
    case False
    let ?r = "po_rules p ! i"
    let ?best = "if \<not> appliesScope siteID path ?r then best
      else (case best of None \<Rightarrow> Some (decision ?r, specificity a ?r)
        | Some (d, s) \<Rightarrow> if specificity a ?r > s then Some (decision ?r, specificity a ?r) else best)"
    have step: "evaluate_loop p a siteID path previous best (i # is)
        = evaluate_loop p a siteID path (Some i) ?best is"
      using False by (auto simp: Let_def split: option.split)
    have "best_of p a siteID path (insert i X) ?best"
      using Cons.prems(1) le
      by (cases best) (auto simp: best_of_def applicable_def split: if_splits, fastforce+)
    then have "best_of p a siteID path (insert i X \<union> set is) (evaluate_loop p a siteID path (Some i) ?best is)"
      using Cons.IH[of "insert i X"] Cons.prems(2) mono by auto
    then show ?thesis unfolding step by simp
  qed
qed simp

definition live_rules :: "AccessPolicy \<Rightarrow> Addr \<Rightarrow> string \<Rightarrow> string \<Rightarrow> nat set" where
  "live_rules p a siteID path = {i. i < length (po_rules p) \<and> rule_matches a (po_rules p ! i)
      \<and> appliesScope siteID path (po_rules p ! i)}"

text \<open>
  In a policy built from a configuration, one reading of the path is decided by the most
  specific rule among those whose entries contain the address and whose scope applies (the
  earliest of them when several are equally specific); no rule decides exactly when none
  matches and applies.
\<close>

theorem most_specific_rule_decides:
  assumes "NewAccessPolicy cfg = Some p" "Unmap a = a"
  shows "(live_rules p a siteID path = {}
      \<longleftrightarrow> evaluatePath p a siteID path (candidate_indices p a) = no_decision)
    \<and> (live_rules p a siteID path \<noteq> {} \<longrightarrow>
       (\<exists>i\<in>live_rules p a siteID path.
          evaluatePath p a siteID path (candidate_indices p a) = decision (po_rules p ! i)
          \<and> (\<forall>j\<in>live_rules p a siteID path.
               specificity a (po_rules p ! j) < specificity a (po_rules p ! i)
               \<or> specificity a (po_rules p ! j) = specificity a (po_rules p ! i) \<and> i \<le> j)))"
proof -
  let ?r = "evaluate_loop p a siteID path None None (candidate_indices p a)"
  let ?d = "evaluatePath p a siteID path (candidate_indices p a)"
  let ?L = "live_rules p a siteID path"
  have "policy_ok p" using NewAccessPolicy_ok[OF assms(1)] .
  then have cand: "set (candidate_indices p a) = {i. i < length (po_rules p) \<and> rule_matches a (po_rules p ! i)}"
    using assms(2) by (simp add: policy_ok_def)
  have "best_of p a siteID path ({} \<union> set (candidate_indices p a)) ?r"
    by (rule evaluate_loop_best) (simp_all add: best_of_def candidate_indices_def)
  then have best: "best_of p a siteID path (set (candidate_indices p a)) ?r" by simp
  have live: "i \<in> ?L \<longleftrightarrow> i \<in> set (candidate_indices p a) \<and> applicable p siteID path i" for i
    unfolding live_rules_def cand applicable_def by auto
  have matched: "decision r \<noteq> no_decision" for r by (simp add: decision_def no_decision_def)
  show ?thesis
  proof (cases ?r)
    case None
    then have "?d = no_decision" "?L = {}" using best live by (auto simp: evaluatePath_def best_of_def)
    then show ?thesis by simp
  next
    case (Some ds)
    then obtain i where i: "i \<in> ?L" "?d = decision (po_rules p ! i)"
      "\<forall>j\<in>?L. specificity a (po_rules p ! j) \<le> specificity a (po_rules p ! i)
         \<and> (specificity a (po_rules p ! j) = specificity a (po_rules p ! i) \<longrightarrow> i \<le> j)"
      using best live by (fastforce simp: evaluatePath_def best_of_def)
    from i(3) have "\<forall>j\<in>?L. specificity a (po_rules p ! j) < specificity a (po_rules p ! i)
         \<or> specificity a (po_rules p ! j) = specificity a (po_rules p ! i) \<and> i \<le> j"
      using le_neq_implies_less by blast
    then show ?thesis using i matched by auto
  qed
qed

subsection \<open>Several readings of one path\<close>

definition action_names :: "string set" where
  "action_names = {AccessActionAllow, AccessActionBlock, AccessActionMonitor}"

lemma access_actions_distinct [simp]:
  "AccessActionAllow \<noteq> AccessActionBlock" "AccessActionAllow \<noteq> AccessActionMonitor"
  "AccessActionBlock \<noteq> AccessActionAllow" "AccessActionBlock \<noteq> AccessActionMonitor"
  "AccessActionMonitor \<noteq> AccessActionAllow" "AccessActionMonitor \<noteq> AccessActionBlock"
  "AccessActionAllow \<noteq> ''none''" "AccessActionBlock \<noteq> ''none''" "AccessActionMonitor \<noteq> ''none''"
  "''none'' \<noteq> AccessActionAllow" "''none'' \<noteq> AccessActionBlock" "''none'' \<noteq> AccessActionMonitor"
  by (simp_all add: AccessActionAllow_def AccessActionBlock_def AccessActionMonitor_def)

lemma normalized_action: "normalizeAccessAction s \<in> action_names"
  by (simp add: normalizeAccessAction_def action_names_def Let_def)

definition decision_shape :: "AccessDecision \<Rightarrow> bool" where
  "decision_shape d \<longleftrightarrow> d = no_decision \<or> ad_Matched d \<and> ad_Action d \<in> action_names"

definition rules_shape :: "AccessPolicy \<Rightarrow> bool" where
  "rules_shape p \<longleftrightarrow> (\<forall>r\<in>set (po_rules p). ru_action r \<in> action_names)"

lemma add_configured_shape: "add_configured items p = Some q \<Longrightarrow> rules_shape p \<Longrightarrow> rules_shape q"
proof (induction items arbitrary: p)
  case (Cons item items)
  have "rules_shape (addRule r p)" if "newAccessRule item = Some r" for r
    using that Cons.prems(2)
    by (auto simp: newAccessRule_def rules_shape_def addRule_def normalized_action Let_def split: option.splits)
  then show ?case using Cons by (auto split: if_splits option.splits)
qed simp

lemma NewAccessPolicy_shape: "NewAccessPolicy cfg = Some p \<Longrightarrow> rules_shape p"
  unfolding NewAccessPolicy_def by (erule add_configured_shape) (simp add: rules_shape_def empty_policy_def)

lemma evaluate_loop_cases:
  "evaluate_loop p a siteID path previous best js = best
   \<or> (\<exists>j\<in>set js. \<exists>s. evaluate_loop p a siteID path previous best js = Some (decision (po_rules p ! j), s))"
proof (induction js arbitrary: previous best)
  case (Cons j js)
  have "(\<exists>prev. evaluate_loop p a siteID path previous best (j # js) = evaluate_loop p a siteID path prev best js)
    \<or> (\<exists>sc. evaluate_loop p a siteID path previous best (j # js)
        = evaluate_loop p a siteID path (Some j) (Some (decision (po_rules p ! j), sc)) js)"
    by (cases best) (auto simp: Let_def, blast+)
  then consider (same) prev where "evaluate_loop p a siteID path previous best (j # js)
        = evaluate_loop p a siteID path prev best js"
    | (new) sc where "evaluate_loop p a siteID path previous best (j # js)
        = evaluate_loop p a siteID path (Some j) (Some (decision (po_rules p ! j), sc)) js"
    by blast
  then show ?case
  proof cases
    case same
    then show ?thesis using Cons.IH[of prev best] by auto
  next
    case new
    then show ?thesis using Cons.IH[of "Some j" "Some (decision (po_rules p ! j), sc)"] by auto
  qed
qed simp

lemma evaluatePath_shape:
  assumes "rules_shape p" "\<forall>i\<in>set js. i < length (po_rules p)"
  shows "decision_shape (evaluatePath p a siteID path js)"
  using evaluate_loop_cases[of p a siteID path None None js] assms
  by (auto simp: evaluatePath_def decision_shape_def decision_def rules_shape_def)

text \<open>The strictest of a list of decisions: block, then monitor, then none, then allow.\<close>

definition strictest :: "string list \<Rightarrow> string" where
  "strictest acts =
     (if AccessActionBlock \<in> set acts then AccessActionBlock
      else if AccessActionMonitor \<in> set acts then AccessActionMonitor
      else if ''none'' \<in> set acts then ''none'' else AccessActionAllow)"

lemma strictest_take:
  assumes "x \<in> insert ''none'' action_names" "y \<in> insert ''none'' action_names"
    and "x \<noteq> AccessActionBlock" "y \<noteq> AccessActionBlock"
    and "z = (if y \<noteq> AccessActionAllow \<and> (x = AccessActionAllow \<or> x = ''none'' \<or> y = AccessActionMonitor)
              then y else x)"
  shows "strictest (z # acts) = strictest (x # y # acts)"
proof -
  have "x = AccessActionAllow \<or> x = AccessActionMonitor \<or> x = ''none''"
    "y = AccessActionAllow \<or> y = AccessActionMonitor \<or> y = ''none''"
    using assms(1-4) by (auto simp: action_names_def)
  then show ?thesis unfolding assms(5) by (elim disjE) (simp_all add: strictest_def)
qed

lemma decision_shape_action:
  "decision_shape d \<Longrightarrow> ad_Action d \<in> insert ''none'' action_names \<and> (ad_Matched d \<longleftrightarrow> ad_Action d \<noteq> ''none'')"
  by (auto simp: decision_shape_def no_decision_def action_names_def)

lemma view_loop_strictest:
  assumes "\<And>v. decision_shape (eval v)" "decision_shape sel" "ad_Action sel \<noteq> AccessActionBlock"
  shows "ad_Action (view_loop eval False sel vs) = strictest (ad_Action sel # map (\<lambda>v. ad_Action (eval v)) vs)"
  using assms(2,3)
proof (induction vs arbitrary: sel)
  case Nil
  then show ?case using decision_shape_action[of sel] by (auto simp: strictest_def action_names_def)
next
  case (Cons v vs)
  let ?take = "ad_Action (eval v) \<noteq> AccessActionAllow \<and> (ad_Action sel = AccessActionAllow
       \<or> \<not> ad_Matched sel \<or> ad_Action (eval v) = AccessActionMonitor)"
  show ?case
  proof (cases "ad_Action (eval v) = AccessActionBlock")
    case True
    then show ?thesis by (simp add: strictest_def Let_def)
  next
    case False
    then have "ad_Action (view_loop eval False sel (v # vs))
        = strictest (ad_Action (if ?take then eval v else sel) # map (\<lambda>v. ad_Action (eval v)) vs)"
      using Cons.IH[of "if ?take then eval v else sel"] Cons.prems assms(1)[of v] by (simp add: Let_def)
    also have "\<dots> = strictest (ad_Action sel # ad_Action (eval v) # map (\<lambda>v. ad_Action (eval v)) vs)"
      using decision_shape_action[OF assms(1)[of v]] decision_shape_action[OF Cons.prems(1)] Cons.prems(2) False
      by (intro strictest_take) auto
    finally show ?thesis by simp
  qed
qed

lemma view_loop_first:
  assumes "\<And>v. decision_shape (eval v)" "vs \<noteq> []"
  shows "ad_Action (view_loop eval True sel vs) = strictest (map (\<lambda>v. ad_Action (eval v)) vs)"
proof (cases vs)
  case (Cons v us)
  then show ?thesis
    using view_loop_strictest[where eval = eval and sel = "eval v" and vs = us] assms(1)
    by (auto simp: Let_def strictest_def)
qed (use assms(2) in simp)

lemma views_not_empty: "SecurityPathViews raw = (views, True) \<Longrightarrow> views \<noteq> []"
  by (auto simp: SecurityPathViews_def Let_def split: option.splits if_splits)

text \<open>
  C28: the policy's answer is the strictest of its answers to the readings of the path: one
  reading that is blocked blocks the request, and an allow is granted only when every reading
  is allowed, so a second interpretation of the path never grants an exemption.
\<close>

theorem strictest_view_decides:
  assumes "NewAccessPolicy cfg = Some p" "po_rules p \<noteq> []"
    and "SecurityPathViews path = (views, True)" "ParseAddr (trim_space clientIP) = Some a"
  shows "ad_Action (Evaluate clientIP siteID path p) = strictest
     (map (\<lambda>v. ad_Action (evaluatePath p (Unmap a) siteID v (candidate_indices p (Unmap a)))) views)"
proof -
  have "\<forall>i\<in>set (candidate_indices p (Unmap a)). i < length (po_rules p)"
    using NewAccessPolicy_ok[OF assms(1)] by (simp add: policy_ok_def)
  then have "decision_shape (evaluatePath p (Unmap a) siteID v (candidate_indices p (Unmap a)))" for v
    using evaluatePath_shape NewAccessPolicy_shape[OF assms(1)] by blast
  then show ?thesis
    using assms(2-4) view_loop_first[OF _ views_not_empty[OF assms(3)]]
    by (simp add: Evaluate_def Let_def)
qed

subsection \<open>Witnesses\<close>

definition sample_policy_config :: IPProtectionConfig where
  "sample_policy_config = \<lparr>ipc_Blacklist = [''10.0.0.0/8''], ipc_Whitelist = [''10.1.0.0/16''],
     ipc_AccessRules = [\<lparr>ac_ID = ''admin'', ac_Name = ''admin'', ac_Description = [], ac_Action = ''Block'',
       ac_Scope = ''path'', ac_SiteID = [], ac_PathPrefix = ''/admin'', ac_Entries = [''10.1.2.3''],
       ac_Enabled = True\<rparr>]\<rparr>"

definition sample_addr :: Addr where
  "sample_addr = Addr4 [10, 1, 2, 3]"

lemma sample_policy: obtains p where "NewAccessPolicy sample_policy_config = Some p" "po_rules p \<noteq> []"
proof -
  have "(case NewAccessPolicy sample_policy_config of None \<Rightarrow> False | Some p \<Rightarrow> po_rules p \<noteq> [])"
    by code_simp
  then show ?thesis using that by (cases "NewAccessPolicy sample_policy_config") auto
qed

theorem most_specific_rule_decides_witness:
  "\<exists>p i. NewAccessPolicy sample_policy_config = Some p \<and> i \<in> live_rules p sample_addr [] ''/''
     \<and> evaluatePath p sample_addr [] ''/'' (candidate_indices p sample_addr) = decision (po_rules p ! i)"
proof -
  obtain p where p: "NewAccessPolicy sample_policy_config = Some p" by (rule sample_policy)
  have "(case NewAccessPolicy sample_policy_config of None \<Rightarrow> False | Some p \<Rightarrow>
      evaluatePath p sample_addr [] ''/'' (candidate_indices p sample_addr) \<noteq> no_decision)" by code_simp
  then have "live_rules p sample_addr [] ''/'' \<noteq> {}"
    using most_specific_rule_decides[OF p, of sample_addr "[]" "''/''"] p by (simp add: sample_addr_def Unmap_def)
  then show ?thesis
    using most_specific_rule_decides[OF p, of sample_addr "[]" "''/''"] p by (auto simp: sample_addr_def Unmap_def)
qed

theorem strictest_view_decides_witness:
  "\<exists>p. NewAccessPolicy sample_policy_config = Some p
     \<and> ad_Action (Evaluate ''10.1.2.3'' [] ''/admin;x=1/a'' p) = AccessActionBlock"
proof -
  obtain p where p: "NewAccessPolicy sample_policy_config = Some p" "po_rules p \<noteq> []" by (rule sample_policy)
  have v: "SecurityPathViews ''/admin;x=1/a'' = ([''/admin;x=1/a'', ''/admin/a''], True)" by code_simp
  have a: "ParseAddr (trim_space ''10.1.2.3'') = Some sample_addr" by code_simp
  have "(case NewAccessPolicy sample_policy_config of None \<Rightarrow> False | Some p \<Rightarrow>
      strictest (map (\<lambda>v. ad_Action (evaluatePath p (Unmap sample_addr) [] v
        (candidate_indices p (Unmap sample_addr)))) [''/admin;x=1/a'', ''/admin/a'']) = AccessActionBlock)"
    by code_simp
  then show ?thesis using strictest_view_decides[OF p v a, of "[]"] p by simp
qed

end
