(* ===== verification/Rate_Shard.thy ===== *)
theory Rate_Shard
  imports Rate_Limiter
begin

text \<open>
  One shard of the rate limiter: its key map and its expiry heap describe the same buckets with
  the oldest window at the root, and pushing, fixing and popping a bucket keep this and change
  the quotas exactly as meant. The heap operations come from the interpretation of
  \<open>heap_interface\<close> on the shard.
\<close>

section \<open>A shard's invariant\<close>

definition shard_times :: "limiterShard \<Rightarrow> int list" where
  "shard_times sh = map (\<lambda>k. bk_windowStart (bucket_of sh k)) (sh_expirations sh)"

text \<open>The heap lists the keys of the map, each once, at the index its bucket records.\<close>

definition indexed :: "limiterShard \<Rightarrow> bool" where
  "indexed sh \<longleftrightarrow> distinct (sh_expirations sh) \<and> set (sh_expirations sh) = dom (sh_keys sh)
     \<and> (\<forall>i < length (sh_expirations sh). bk_heapIndex (bucket_of sh (sh_expirations sh ! i)) = int i)
     \<and> (\<forall>k \<in> dom (sh_keys sh). bk_key (bucket_of sh k) = k)"

definition shard_ok :: "limiterShard \<Rightarrow> bool" where
  "shard_ok sh \<longleftrightarrow> indexed sh \<and> heap_order (shard_times sh) (length (sh_expirations sh))"

text \<open>What a shard knows of a key: the start of its window and its count.\<close>

definition quota :: "limiterShard \<Rightarrow> string \<Rightarrow> (int \<times> int) option" where
  "quota sh k = map_option (\<lambda>b. (bk_windowStart b, bk_count b)) (sh_keys sh k)"

lemma length_shard_times [simp]: "length (shard_times sh) = length (sh_expirations sh)"
  by (simp add: shard_times_def)

lemma heap_Len_times: "heap_Len = (\<lambda>sh. length (shard_times sh))"
  by (simp add: heap_Len_def fun_eq_iff)

lemma bucket_of_Some [simp]: "sh_keys sh k = Some b \<Longrightarrow> bucket_of sh k = b"
  by (simp add: bucket_of_def)

lemma bucket_of_set_heapIndex:
  "bucket_of (set_heapIndex k i sh) l = (if l = k then (bucket_of sh k)\<lparr>bk_heapIndex := i\<rparr> else bucket_of sh l)"
  by (simp add: set_heapIndex_def bucket_of_def)

lemma set_heapIndex_fields [simp]:
  "sh_expirations (set_heapIndex k i sh) = sh_expirations sh"
  "dom (sh_keys (set_heapIndex k i sh)) = insert k (dom (sh_keys sh))"
  by (simp_all add: set_heapIndex_def)

lemma quota_set_heapIndex [simp]:
  "k \<in> dom (sh_keys sh) \<Longrightarrow> quota (set_heapIndex k i sh) = quota sh"
  by (auto simp: quota_def set_heapIndex_def bucket_of_def fun_eq_iff)

lemma bucket_of_expirations [simp]:
  "bucket_of (sh\<lparr>sh_expirations := e\<rparr>) = bucket_of sh" "quota (sh\<lparr>sh_expirations := e\<rparr>) = quota sh"
  by (simp_all add: bucket_of_def quota_def fun_eq_iff)

lemma indexed_nth: "indexed sh \<Longrightarrow> i < length (sh_expirations sh) \<Longrightarrow> sh_expirations sh ! i \<in> dom (sh_keys sh)"
  using nth_mem[of i "sh_expirations sh"] by (auto simp: indexed_def)

lemma indexed_key: "indexed sh \<Longrightarrow> sh_keys sh k = Some b \<Longrightarrow> bk_key b = k"
  unfolding indexed_def by (metis bucket_of_Some domI)

lemma indexed_at:
  "indexed sh \<Longrightarrow> i < length (sh_expirations sh) \<Longrightarrow> bk_heapIndex (bucket_of sh (sh_expirations sh ! i)) = int i"
  by (simp add: indexed_def)

lemma windowStart_Swap:
  "bk_windowStart (bucket_of (heap_Swap i j sh) k) = bk_windowStart (bucket_of sh k)"
  by (simp add: heap_Swap_def bucket_of_set_heapIndex Let_def)

lemma bk_key_Swap: "bk_key (bucket_of (heap_Swap i j sh) k) = bk_key (bucket_of sh k)"
  by (simp add: heap_Swap_def bucket_of_set_heapIndex Let_def)

lemma expirations_Swap: "sh_expirations (heap_Swap i j sh) = swap_at (sh_expirations sh) i j"
  by (simp add: heap_Swap_def Let_def)

lemma swap_at_map: "i < length xs \<Longrightarrow> j < length xs \<Longrightarrow> map f (swap_at xs i j) = swap_at (map f xs) i j"
  by (intro nth_equalityI) (simp_all add: swap_at_nth)

lemma indexed_Swap:
  assumes "indexed sh" "i < length (sh_expirations sh)" "j < length (sh_expirations sh)"
  shows "indexed (heap_Swap i j sh) \<and> quota (heap_Swap i j sh) = quota sh
    \<and> dom (sh_keys (heap_Swap i j sh)) = dom (sh_keys sh)"
proof -
  let ?e = "swap_at (sh_expirations sh) i j" and ?s = "heap_Swap i j sh"
  have nth: "?e ! k = (if k = i then sh_expirations sh ! j else if k = j then sh_expirations sh ! i
      else sh_expirations sh ! k)" for k
    using assms(2,3) by (rule swap_at_nth)
  have keys: "?e ! i \<in> dom (sh_keys sh)" "?e ! j \<in> dom (sh_keys sh)"
    using indexed_nth[OF assms(1)] assms(2,3) by (auto simp: nth)
  have dist: "distinct ?e" using assms by (simp add: swap_at_distinct indexed_def)
  have idx: "bk_heapIndex (bucket_of ?s (?e ! k)) = int k" if k: "k < length (sh_expirations sh)" for k
  proof -
    have eq: "?e ! k = ?e ! m \<longleftrightarrow> k = m" if "m < length (sh_expirations sh)" for m
      using nth_eq_iff_index_eq[OF dist] k that by simp
    show ?thesis
      using assms(1) k eq[OF assms(2)] eq[OF assms(3)] nth[of k]
      by (auto simp: heap_Swap_def Let_def bucket_of_set_heapIndex indexed_def)
  qed
  have dom: "dom (sh_keys ?s) = dom (sh_keys sh)"
    using keys by (auto simp: heap_Swap_def Let_def)
  moreover have "quota ?s = quota sh" using keys by (simp add: heap_Swap_def Let_def)
  moreover have "indexed ?s"
    using assms dist idx dom unfolding indexed_def expirations_Swap bk_key_Swap
    by (simp add: swap_at_set)
  ultimately show ?thesis by simp
qed

interpretation expiry: heap_interface shard_times heap_Less heap_Swap indexed
proof unfold_locales
  show "heap_Less h i j \<longleftrightarrow> shard_times h ! i < shard_times h ! j"
    if "indexed h" "i < length (shard_times h)" "j < length (shard_times h)" for h i j
    using that by (simp add: heap_Less_def shard_times_def)
  show "shard_times (heap_Swap i j h) = swap_at (shard_times h) i j"
    if "indexed h" "i < length (shard_times h)" "j < length (shard_times h)" for h i j
    using that by (simp add: shard_times_def expirations_Swap windowStart_Swap swap_at_map)
  show "indexed (heap_Swap i j h)"
    if "indexed h" "i < length (shard_times h)" "j < length (shard_times h)" for h i j
    using that indexed_Swap by simp
qed

text \<open>The index, the quotas and the tracked keys are kept by every heap loop.\<close>

definition same_content :: "limiterShard \<Rightarrow> limiterShard \<Rightarrow> bool" where
  "same_content sh sh' \<longleftrightarrow> quota sh' = quota sh"

lemma quota_dom: "dom (quota sh) = dom (sh_keys sh)"
  by (auto simp: quota_def dom_def)

lemma same_content_refl [simp]: "same_content sh sh"
  by (simp add: same_content_def)

lemma same_content_Swap:
  "indexed h \<Longrightarrow> same_content sh h \<Longrightarrow> i < length (shard_times h) \<Longrightarrow> j < length (shard_times h)
   \<Longrightarrow> same_content sh (heap_Swap i j h)"
  using indexed_Swap by (simp add: same_content_def)

subsection \<open>Fixing a bucket whose window restarted\<close>

lemma fix_bucket:
  fixes t c :: int
  assumes "shard_ok sh" "sh_keys sh k = Some b"
  defines "sh1 \<equiv> sh\<lparr>sh_keys := (sh_keys sh)(k \<mapsto> b\<lparr>bk_windowStart := t, bk_count := c\<rparr>)\<rparr>"
  shows "shard_ok (heap_Fix heap_Len heap_Less heap_Swap (nat (bk_heapIndex b)) sh1)
    \<and> quota (heap_Fix heap_Len heap_Less heap_Swap (nat (bk_heapIndex b)) sh1) = (quota sh)(k \<mapsto> (t, c))"
proof -
  have idx: "indexed sh" and heap: "heap_order (shard_times sh) (length (sh_expirations sh))"
    using assms(1) by (auto simp: shard_ok_def)
  obtain i where i: "i < length (sh_expirations sh)" "sh_expirations sh ! i = k"
    using assms(2) idx by (metis domI in_set_conv_nth indexed_def)
  then have bi: "nat (bk_heapIndex b) = i" using idx assms(2) by (auto simp: indexed_def)
  have bo: "bucket_of sh1 l = (if l = k then b\<lparr>bk_windowStart := t, bk_count := c\<rparr> else bucket_of sh l)" for l
    by (simp add: sh1_def bucket_of_def)
  have idx1: "indexed sh1"
    using idx assms(2) indexed_key[OF idx assms(2)] indexed_at[OF idx i(1)] i(2)
    unfolding indexed_def bo by (auto simp: sh1_def)
  have times: "shard_times sh1 ! m = shard_times sh ! m" if "m \<noteq> i" "m < length (sh_expirations sh)" for m
    using that i idx nth_eq_iff_index_eq[of "sh_expirations sh" m i]
    by (auto simp: shard_times_def indexed_def sh1_def bucket_of_def)
  let ?n = "length (sh_expirations sh)"
  have len: "length (shard_times sh1) = ?n" "length (sh_expirations sh1) = ?n" by (simp_all add: sh1_def)
  have "edge (shard_times sh1) m" if "0 < m" "m < ?n" "m \<noteq> i" "parent m \<noteq> i" for m
    using that times heap parent_less[of m] by (simp add: edge_def heap_order_def)
  moreover have "shard_times sh1 ! parent i \<le> shard_times sh1 ! m"
    if "0 < m" "m < ?n" "parent m = i" "0 < i" for m
  proof -
    have "edge (shard_times sh) i" "edge (shard_times sh) m" using heap that i(1) by (simp_all add: heap_order_def)
    then have "shard_times sh ! parent i \<le> shard_times sh ! m" using that(3) by (simp add: edge_def)
    moreover have "parent i \<noteq> i" "parent i < ?n" "m \<noteq> i"
      using parent_less[OF that(4)] parent_less[OF that(1)] that(3) i(1) by auto
    ultimately show ?thesis using times[of m] times[of "parent i"] that(2) by simp
  qed
  ultimately have "order_but_around (shard_times sh1) (length (shard_times sh1)) i"
    unfolding len by (auto simp: order_but_around_def bridged_def)
  then have "heap_order (shard_times (heap_Fix heap_Len heap_Less heap_Swap i sh1)) ?n"
    using expiry.fix_restores[OF idx1] i(1) len unfolding heap_Len_times by metis
  moreover have "indexed (heap_Fix heap_Len heap_Less heap_Swap i sh1)
      \<and> same_content sh1 (heap_Fix heap_Len heap_Less heap_Swap i sh1)
      \<and> length (shard_times (heap_Fix heap_Len heap_Less heap_Swap i sh1)) = ?n"
    using expiry.fix_keeps[where P = "same_content sh1", OF idx1] i(1) len same_content_Swap
    unfolding heap_Len_times by auto
  moreover have "quota sh1 = (quota sh)(k \<mapsto> (t, c))" by (auto simp: quota_def sh1_def fun_eq_iff)
  ultimately show ?thesis unfolding bi by (simp add: shard_ok_def same_content_def)
qed

subsection \<open>Pushing a new bucket\<close>

lemma push_bucket:
  assumes "shard_ok sh" "sh_keys sh k = None" "bk_key b = k"
  defines "sh1 \<equiv> sh\<lparr>sh_keys := (sh_keys sh)(k \<mapsto> b)\<rparr>"
  shows "shard_ok (heap_Push heap_Len heap_Less heap_Swap bucket_Push k sh1)
    \<and> quota (heap_Push heap_Len heap_Less heap_Swap bucket_Push k sh1)
        = (quota sh)(k \<mapsto> (bk_windowStart b, bk_count b))"
proof -
  have idx: "indexed sh" and heap: "heap_order (shard_times sh) (length (sh_expirations sh))"
    using assms(1) by (auto simp: shard_ok_def)
  let ?n = "length (sh_expirations sh)" and ?p = "bucket_Push k sh1"
  have fresh: "k \<notin> set (sh_expirations sh)" using idx assms(2) by (auto simp: indexed_def)
  have exp: "sh_expirations ?p = sh_expirations sh @ [k]" by (simp add: bucket_Push_def Let_def sh1_def)
  have bo: "bucket_of ?p l = (if l = k then b\<lparr>bk_heapIndex := int ?n\<rparr> else bucket_of sh l)" for l
    by (simp add: bucket_Push_def Let_def bucket_of_set_heapIndex sh1_def heap_Len_def) (simp add: bucket_of_def)
  have dom: "dom (sh_keys ?p) = insert k (dom (sh_keys sh))"
    by (auto simp: bucket_Push_def Let_def sh1_def)
  have nth: "(sh_expirations sh @ [k]) ! i = k \<longleftrightarrow> i = ?n" if "i < Suc ?n" for i
    using that fresh by (auto simp: nth_append less_Suc_eq)
  have idx1: "indexed ?p"
    using idx fresh nth assms(3) unfolding indexed_def exp dom bo
    by (auto simp: nth_append less_Suc_eq)
  have times: "shard_times ?p = shard_times sh @ [bk_windowStart b]"
    using fresh by (auto simp: shard_times_def exp bo)
  have "edge (shard_times ?p) c" if "0 < c" "c < Suc ?n" "c \<noteq> ?n" for c
    using that heap parent_less[of c] by (simp add: times edge_def heap_order_def nth_append)
  moreover have "bridged (shard_times ?p) (Suc ?n) ?n"
    unfolding bridged_def by (metis less_Suc_eq_le not_le parent_less)
  ultimately have "order_but_into (shard_times ?p) (length (shard_times ?p)) ?n"
    by (auto simp: order_but_into_def exp)
  then have "heap_order (shard_times (heap_up heap_Less heap_Swap ?n ?p)) (length (shard_times ?p))"
    by (intro expiry.up_restores idx1) (simp_all add: exp)
  moreover have "indexed (heap_up heap_Less heap_Swap ?n ?p)
      \<and> length (shard_times (heap_up heap_Less heap_Swap ?n ?p)) = length (shard_times ?p)
      \<and> same_content ?p (heap_up heap_Less heap_Swap ?n ?p)"
    using idx1 same_content_Swap by (intro expiry.up_keeps[where n = "Suc ?n"]) (simp_all add: exp)
  moreover have "quota ?p = (quota sh)(k \<mapsto> (bk_windowStart b, bk_count b))"
    by (auto simp: bucket_Push_def Let_def sh1_def) (auto simp: quota_def fun_eq_iff)
  moreover have "heap_Push heap_Len heap_Less heap_Swap bucket_Push k sh1 = heap_up heap_Less heap_Swap ?n ?p"
    by (simp add: heap_Push_def Let_def heap_Len_def exp)
  ultimately show ?thesis by (simp add: shard_ok_def same_content_def exp)
qed

subsection \<open>Popping the oldest bucket\<close>

lemma pop_down:
  assumes "shard_ok sh" "sh_expirations sh \<noteq> []"
  defines "n \<equiv> length (sh_expirations sh) - 1"
  defines "sh2 \<equiv> fst (heap_down heap_Less heap_Swap n 0 (heap_Swap 0 n sh))"
  shows "indexed sh2" "quota sh2 = quota sh" "length (sh_expirations sh2) = Suc n"
    "sh_expirations sh2 ! n = sh_expirations sh ! 0" "heap_order (shard_times sh2) n"
proof -
  have idx: "indexed sh" and heap: "heap_order (shard_times sh) (length (sh_expirations sh))"
    using assms(1) by (auto simp: shard_ok_def)
  let ?s = "heap_Swap 0 n sh" and ?root = "sh_expirations sh ! 0"
  have n: "n < length (sh_expirations sh)" "0 < length (sh_expirations sh)" "length (sh_expirations sh) = Suc n"
    using assms(2) by (auto simp: n_def)
  have s: "indexed ?s" "quota ?s = quota sh" using indexed_Swap[OF idx n(2,1)] by auto
  have len: "length (shard_times ?s) = Suc n" "length (sh_expirations ?s) = Suc n"
    using n by (simp_all add: expirations_Swap)
  have last: "sh_expirations ?s ! n = ?root" by (simp add: expirations_Swap swap_at_nth n)
  have times: "shard_times ?s = swap_at (shard_times sh) 0 n" using expiry.times_swap[OF idx] n by simp
  have edges: "edge (shard_times ?s) c" if "0 < c" "c < n" "parent c \<noteq> 0" for c
    using that heap parent_less[of c] n
    by (simp add: times edge_def heap_order_def swap_at_nth)
  then have "order_but_around (shard_times ?s) n 0" by (auto simp: order_but_around_def bridged_def)
  from expiry.down_restores[OF s(1) this]
  show "heap_order (shard_times sh2) n"
    using len by (auto simp: sh2_def heap_order_def order_but_into_def)
  let ?P = "\<lambda>h. same_content sh h \<and> sh_expirations h ! n = ?root"
  have keep: "?P (heap_Swap i j h)"
    if "indexed h" "?P h" "i < n" "j < n" "n \<le> length (shard_times h)" for h i j
    using that same_content_Swap[of h sh i j] by (simp add: expirations_Swap swap_at_nth)
  have "?P ?s" using s(2) last by (simp add: same_content_def)
  from expiry.down_keeps[where P = ?P, OF s(1) _ this keep]
  have "indexed sh2 \<and> length (shard_times sh2) = Suc n \<and> ?P sh2" unfolding sh2_def using len by auto
  then show "indexed sh2" "quota sh2 = quota sh" "length (sh_expirations sh2) = Suc n"
    "sh_expirations sh2 ! n = ?root" by (simp_all add: same_content_def)
qed

lemma pop_root:
  assumes "shard_ok sh" "sh_expirations sh \<noteq> []"
  defines "sh' \<equiv> heap_Pop heap_Len heap_Less heap_Swap bucket_Pop sh"
  defines "sh'' \<equiv> sh'\<lparr>sh_keys := (sh_keys sh')(bk_key (bucket_of sh (sh_expirations sh ! 0)) := None)\<rparr>"
  shows "shard_ok sh'' \<and> quota sh'' = (quota sh)(sh_expirations sh ! 0 := None)"
proof -
  let ?n = "length (sh_expirations sh) - 1" and ?root = "sh_expirations sh ! 0"
  let ?sh2 = "fst (heap_down heap_Less heap_Swap ?n 0 (heap_Swap 0 ?n sh))"
  note down = pop_down[OF assms(1,2)]
  have idx: "indexed sh" using assms(1) by (simp add: shard_ok_def)
  have root_in: "?root \<in> dom (sh_keys sh)" using indexed_nth[OF idx] assms(2) by simp
  then have key: "bk_key (bucket_of sh ?root) = ?root" using indexed_key[OF idx] by auto
  let ?e = "butlast (sh_expirations ?sh2)"
  have last: "last (sh_expirations ?sh2) = ?root" "sh_expirations ?sh2 = ?e @ [?root]" "length ?e = ?n"
  proof -
    have "sh_expirations ?sh2 \<noteq> []" using down(3) by auto
    then show "last (sh_expirations ?sh2) = ?root" using down(3,4) by (simp add: last_conv_nth)
    then show "sh_expirations ?sh2 = ?e @ [?root]"
      using append_butlast_last_id[OF \<open>sh_expirations ?sh2 \<noteq> []\<close>] by simp
  qed (use down(3) in simp)
  have fields: "sh_expirations sh'' = ?e" "sh_keys sh'' k = (if k = ?root then None else sh_keys ?sh2 k)" for k
    using key last(1)
    by (simp_all add: sh''_def sh'_def heap_Pop_def Let_def bucket_Pop_def heap_Len_def set_heapIndex_def)
  have nth: "?e ! i = sh_expirations ?sh2 ! i" "?e ! i \<noteq> ?root" if "i < ?n" for i
  proof -
    show "?e ! i = sh_expirations ?sh2 ! i" using that last(3) nth_butlast[of i "sh_expirations ?sh2"] by simp
    have "distinct (?e @ [?root])" using down(1) unfolding indexed_def last(2)[symmetric] by (rule conjunct1)
    then have "?root \<notin> set ?e" by simp
    then show "?e ! i \<noteq> ?root" using that last(3) nth_mem[of i ?e] by metis
  qed
  have bo: "bucket_of sh'' k = bucket_of ?sh2 k" if "k \<noteq> ?root" for k
    using that fields(2)[of k] by (simp add: bucket_of_def lookup_or_def)
  have "indexed sh''"
  proof -
    have parts: "distinct ?e" "set ?e = dom (sh_keys ?sh2) - {?root}"
      using down(1) arg_cong[OF last(2), of distinct] arg_cong[OF last(2), of set]
      unfolding indexed_def by auto
    have dom: "dom (sh_keys sh'') = dom (sh_keys ?sh2) - {?root}"
      using fields(2) by (auto simp: dom_def split: if_splits)
    have at: "bk_heapIndex (bucket_of sh'' (?e ! i)) = int i" if "i < length ?e" for i
      using indexed_at[OF down(1), of i] nth[of i] bo[of "?e ! i"] that last(3) down(3) by simp
    have key: "bk_key (bucket_of sh'' k) = k" if k: "k \<in> dom (sh_keys sh'')" for k
    proof -
      obtain b where b: "sh_keys sh'' k = Some b" using k by blast
      then have "k \<noteq> ?root" "sh_keys ?sh2 k = Some b" using fields(2)[of k] by (auto split: if_splits)
      then show ?thesis using indexed_key[OF down(1)] bo[of k] by simp
    qed
    have all: "set ?e = dom (sh_keys sh'')" using parts(2) dom by simp
    show ?thesis unfolding indexed_def fields(1) by (intro conjI allI impI ballI) (fact parts(1) all at key)+
  qed
  moreover have times: "shard_times sh'' ! i = shard_times ?sh2 ! i" if "i < ?n" for i
    using that nth[OF that] bo last(3) down(3) by (simp add: shard_times_def fields(1))
  have "edge (shard_times sh'') c" if "0 < c" "c < ?n" for c
    using down(5) that times[of c] times[of "parent c"] parent_less[of c] by (simp add: heap_order_def edge_def)
  then have "heap_order (shard_times sh'') (length (sh_expirations sh''))"
    using fields(1) last(3) by (simp add: heap_order_def)
  moreover have "quota sh'' = (quota sh)(?root := None)"
    using fields(2) down(2) by (auto simp: quota_def fun_eq_iff)
  ultimately show ?thesis by (simp add: shard_ok_def)
qed

end
