(* ===== verification/Rate_Properties.thy ===== *)
theory Rate_Properties
  imports Rate_Shard
begin

text \<open>
  Correctness of the rate limiter: every operation acts on the live quotas as a fixed-window
  counter per key; expiry removes only windows that are over and always makes room when one is.
  Over whole runs this bounds what a key is granted in any interval of one window and how many
  keys a limiter tracks.
\<close>

section \<open>Expiry\<close>

definition stale :: "int \<Rightarrow> int \<Rightarrow> (int \<times> int) option \<Rightarrow> bool" where
  "stale w now q = (case q of None \<Rightarrow> False | Some (s, c) \<Rightarrow> w \<le> now - s)"

definition live :: "int \<Rightarrow> int \<Rightarrow> (int \<times> int) option \<Rightarrow> (int \<times> int) option" where
  "live w now q = (if stale w now q then None else q)"

lemma live_simps [simp]:
  "live w now None = None" "live w now (Some (s, c)) = (if now - s < w then Some (s, c) else None)"
  by (simp_all add: live_def stale_def)

lemma stale_simps [simp]: "\<not> stale w now None" "stale w now (Some (s, c)) \<longleftrightarrow> w \<le> now - s"
  by (simp_all add: stale_def)

lemma map_len_expirations: "indexed sh \<Longrightarrow> map_len (sh_keys sh) = length (sh_expirations sh)"
  unfolding indexed_def map_len_def by (metis distinct_card)

lemma quota_Some_root:
  assumes "shard_ok sh" "quota sh k = Some (s, c)"
  shows "sh_expirations sh \<noteq> [] \<and> bk_windowStart (bucket_of sh (sh_expirations sh ! 0)) \<le> s"
proof -
  have idx: "indexed sh" using assms(1) by (simp add: shard_ok_def)
  obtain b where b: "sh_keys sh k = Some b" "bk_windowStart b = s" using assms(2) by (auto simp: quota_def)
  then obtain i where i: "i < length (sh_expirations sh)" "sh_expirations sh ! i = k"
    using idx by (metis domI in_set_conv_nth indexed_def)
  have "shard_times sh ! 0 \<le> shard_times sh ! i"
    using assms(1) i(1) by (intro heap_root_minimum) (simp_all add: shard_ok_def)
  moreover have "0 < length (sh_expirations sh)" using i(1) by linarith
  ultimately show ?thesis using i b by (auto simp: shard_times_def)
qed

lemma expire_loop_spec:
  assumes "shard_ok sh" "0 < w" "w \<le> max_duration"
  shows "shard_ok (expire_loop n w now sh)
    \<and> (\<forall>k. quota (expire_loop n w now sh) k = quota sh k
          \<or> quota (expire_loop n w now sh) k = None \<and> stale w now (quota sh k))
    \<and> map_len (sh_keys (expire_loop n w now sh)) \<le> map_len (sh_keys sh)
    \<and> (0 < n \<and> (\<exists>k. stale w now (quota sh k)) \<longrightarrow>
         map_len (sh_keys (expire_loop n w now sh)) < map_len (sh_keys sh))"
  using assms(1)
proof (induction n arbitrary: sh)
  case (Suc n)
  have min: "min_duration < w" using assms(2) by (simp add: min_duration_def)
  let ?root = "sh_expirations sh ! 0"
  let ?b = "bucket_of sh ?root"
  show ?case
  proof (cases "sh_expirations sh = [] \<or> time_sub now (bk_windowStart ?b) < w")
    case True
    have "\<not> stale w now (quota sh k)" for k
    proof
      assume "stale w now (quota sh k)"
      then obtain s c where q: "quota sh k = Some (s, c)" "w \<le> now - s" by (auto simp: stale_def split: option.splits)
      have "now - bk_windowStart ?b < w"
        using True quota_Some_root[OF Suc.prems q(1)] time_sub_less[OF min assms(3)] by auto
      then show False using quota_Some_root[OF Suc.prems q(1)] q(2) by linarith
    qed
    then show ?thesis using True Suc.prems by (auto simp: Let_def)
  next
    case False
    let ?sh' = "heap_Pop heap_Len heap_Less heap_Swap bucket_Pop sh"
    let ?s = "?sh'\<lparr>sh_keys := (sh_keys ?sh')(bk_key ?b := None)\<rparr>"
    have pop: "shard_ok ?s" "quota ?s = (quota sh)(?root := None)"
      using pop_root[OF Suc.prems] False by auto
    have step: "expire_loop (Suc n) w now sh = expire_loop n w now ?s" using False by (simp add: Let_def)
    have root: "?root \<in> dom (sh_keys sh)"
      using indexed_nth[of sh 0] Suc.prems False by (simp add: shard_ok_def)
    then have stale: "stale w now (quota sh ?root)"
      using False time_sub_less[OF min assms(3)] by (auto simp: quota_def stale_def)
    have fin: "finite (dom (sh_keys sh))"
      using Suc.prems by (metis shard_ok_def indexed_def List.finite_set)
    have "dom (sh_keys ?s) = dom (sh_keys sh) - {?root}"
      using quota_dom[of ?s] quota_dom[of sh] pop(2) by simp
    then have less: "map_len (sh_keys ?s) < map_len (sh_keys sh)"
      unfolding map_len_def using card_Diff1_less[OF fin root] by (simp only:)
    note ih = Suc.IH[OF pop(1)]
    have "\<forall>k. quota (expire_loop n w now ?s) k = quota sh k
        \<or> quota (expire_loop n w now ?s) k = None \<and> stale w now (quota sh k)"
      using ih stale unfolding pop(2) by (metis fun_upd_apply)
    moreover have "shard_ok (expire_loop n w now ?s)" using ih by blast
    moreover have "map_len (sh_keys (expire_loop n w now ?s)) \<le> map_len (sh_keys ?s)" using ih by blast
    then have "map_len (sh_keys (expire_loop n w now ?s)) < map_len (sh_keys sh)" using less by (rule le_less_trans)
    ultimately show ?thesis unfolding step by (intro conjI impI) (assumption | linarith)+
  qed
qed simp

lemma expire_live:
  assumes "shard_ok sh" "0 < w" "w \<le> max_duration"
  shows "live w now (quota (expire_loop n w now sh) k) = live w now (quota sh k)"
proof -
  have "quota (expire_loop n w now sh) k = quota sh k
      \<or> quota (expire_loop n w now sh) k = None \<and> stale w now (quota sh k)"
    using expire_loop_spec[OF assms, of n now] by blast
  then show ?thesis by (auto simp: live_def)
qed

section \<open>One call on one shard\<close>

definition limiter_wf :: "Limiter \<Rightarrow> bool" where
  "limiter_wf l \<longleftrightarrow> 0 < lm_window l \<and> lm_window l \<le> max_duration \<and> 1 \<le> lm_requests l \<and> 0 \<le> lm_burst l
     \<and> lm_shards l \<noteq> []"

definition limit_of :: "Limiter \<Rightarrow> int" where
  "limit_of l = wrap_int64 (lm_requests l + lm_burst l)"

lemma wrap_int64_le: "0 \<le> x \<Longrightarrow> wrap_int64 x \<le> x"
proof -
  assume "0 \<le> x"
  then have "(x + 2 ^ 63) mod 2 ^ 64 \<le> x + 2 ^ 63" by (intro zmod_le_nonneg_dividend) simp
  then show ?thesis unfolding wrap_int64_def by linarith
qed

text \<open>
  The fixed-window counter that a shard implements: a key without a live window starts one when
  there is room, a live window grants until its count reaches the limit.
\<close>

definition window_step ::
    "int \<Rightarrow> int \<Rightarrow> bool \<Rightarrow> (int \<times> int) option \<Rightarrow> bool \<times> (int \<times> int) option" where
  "window_step limit now room q =
     (case q of
        None \<Rightarrow> if room then (True, Some (now, 1)) else (False, None)
      | Some (s, c) \<Rightarrow> if limit \<le> c then (False, Some (s, c)) else (True, Some (s, c + 1)))"

definition room_for :: "Limiter \<Rightarrow> int \<Rightarrow> limiterShard \<Rightarrow> bool" where
  "room_for l now sh \<longleftrightarrow> int (map_len (sh_keys sh)) < perShardCap l
     \<or> (\<exists>k. stale (lm_window l) now (quota sh k))"

lemma count_bucket:
  assumes "shard_ok sh" "sh_keys sh k = Some b"
  shows "shard_ok (sh\<lparr>sh_keys := (sh_keys sh)(k \<mapsto> b\<lparr>bk_count := c\<rparr>)\<rparr>)"
    "quota (sh\<lparr>sh_keys := (sh_keys sh)(k \<mapsto> b\<lparr>bk_count := c\<rparr>)\<rparr>) = (quota sh)(k \<mapsto> (bk_windowStart b, c))"
proof -
  let ?s = "sh\<lparr>sh_keys := (sh_keys sh)(k \<mapsto> b\<lparr>bk_count := c\<rparr>)\<rparr>"
  have bo: "bucket_of ?s x = (if x = k then b\<lparr>bk_count := c\<rparr> else bucket_of sh x)" for x
    by (simp add: bucket_of_def)
  have b: "bucket_of sh k = b" using assms(2) by simp
  have "shard_times ?s = shard_times sh" by (auto simp: shard_times_def bo b)
  moreover have "indexed ?s"
    using assms b indexed_key[OF _ assms(2)] unfolding shard_ok_def indexed_def bo
    by (auto simp: insert_absorb domI)
  ultimately show "shard_ok ?s" using assms(1) by (simp add: shard_ok_def)
  show "quota ?s = (quota sh)(k \<mapsto> (bk_windowStart b, c))" by (auto simp: quota_def fun_eq_iff)
qed

lemma shard_card: "map_len (sh_keys sh) = card (dom (quota sh))"
  by (simp add: map_len_def quota_dom)

lemma shard_finite: "shard_ok sh \<Longrightarrow> finite (dom (quota sh))"
  unfolding quota_dom by (metis shard_ok_def indexed_def List.finite_set)

text \<open>What a call does once the shard has been expired.\<close>

definition allow_decide :: "Limiter \<Rightarrow> int \<Rightarrow> string \<Rightarrow> limiterShard \<Rightarrow> bool \<times> limiterShard" where
  "allow_decide l now key e =
     (case sh_keys e key of
        None \<Rightarrow> if int (map_len (sh_keys e)) \<ge> perShardCap l then (False, e)
          else (True, heap_Push heap_Len heap_Less heap_Swap bucket_Push key
              (e\<lparr>sh_keys := (sh_keys e)(key \<mapsto> \<lparr>bk_key = key, bk_windowStart = now, bk_count = 1, bk_heapIndex = 0\<rparr>)\<rparr>))
      | Some b \<Rightarrow> if time_sub now (bk_windowStart b) \<ge> lm_window l then
            (True, heap_Fix heap_Len heap_Less heap_Swap (nat (bk_heapIndex b))
                     (e\<lparr>sh_keys := (sh_keys e)(key \<mapsto> b\<lparr>bk_windowStart := now, bk_count := 1\<rparr>)\<rparr>))
          else if bk_count b \<ge> limit_of l then (False, e)
          else (True, e\<lparr>sh_keys := (sh_keys e)(key \<mapsto> b\<lparr>bk_count := bk_count b + 1\<rparr>)\<rparr>))"

lemma allow_locked_decide: "allow_locked l now key sh = allow_decide l now key (expireLocked l now sh)"
  unfolding allow_locked_def allow_decide_def limit_of_def Let_def by simp

lemma allow_decide_new:
  assumes "shard_ok e" "limiter_wf l" "int (map_len (sh_keys e)) \<le> perShardCap l" "sh_keys e key = None"
    and "allow_decide l now key e = (granted, sh')"
  shows "shard_ok sh' \<and> int (map_len (sh_keys sh')) \<le> perShardCap l
    \<and> (granted \<longleftrightarrow> int (map_len (sh_keys e)) < perShardCap l)
    \<and> quota sh' = (if granted then (quota e)(key \<mapsto> (now, 1)) else quota e)"
proof (cases "int (map_len (sh_keys e)) < perShardCap l")
  case True
  let ?b = "\<lparr>bk_key = key, bk_windowStart = now, bk_count = 1, bk_heapIndex = 0\<rparr>"
  have sh': "granted" "sh' = heap_Push heap_Len heap_Less heap_Swap bucket_Push key
      (e\<lparr>sh_keys := (sh_keys e)(key \<mapsto> ?b)\<rparr>)"
    using assms(4,5) True by (auto simp: allow_decide_def)
  have push: "shard_ok sh'" "quota sh' = (quota e)(key \<mapsto> (now, 1))"
    using push_bucket[OF assms(1,4), of ?b] by (simp_all add: sh'(2))
  have "key \<notin> dom (quota e)" using assms(4) by (simp add: quota_def domIff)
  then have "int (map_len (sh_keys sh')) \<le> perShardCap l"
    using True shard_finite[OF assms(1)] unfolding shard_card push(2) by simp
  then show ?thesis using push sh'(1) True by simp
qed (use assms in \<open>auto simp: allow_decide_def\<close>)

lemma allow_decide_known:
  assumes "shard_ok e" "limiter_wf l" "sh_keys e key = Some b"
    and "allow_decide l now key e = (granted, sh')"
  shows "shard_ok sh' \<and> map_len (sh_keys sh') = map_len (sh_keys e)
    \<and> (if now - bk_windowStart b \<ge> lm_window l then granted \<and> quota sh' = (quota e)(key \<mapsto> (now, 1))
       else if bk_count b \<ge> limit_of l then \<not> granted \<and> quota sh' = quota e
       else granted \<and> quota sh' = (quota e)(key \<mapsto> (bk_windowStart b, bk_count b + 1)))"
proof -
  have ts: "lm_window l \<le> time_sub now (bk_windowStart b) \<longleftrightarrow> lm_window l \<le> now - bk_windowStart b"
    using assms(2) by (intro time_sub_ge) (auto simp: limiter_wf_def min_duration_def)
  have dom: "map_len (sh_keys s) = map_len (sh_keys e)" if "quota s = (quota e)(key \<mapsto> x)" for s x
    using that assms(3) by (simp add: shard_card insert_absorb quota_def domI)
  note fx = fix_bucket[OF assms(1,3), where t = now and c = 1]
  note cb = count_bucket[OF assms(1,3), of "bk_count b + 1"]
  consider (stale) "lm_window l \<le> now - bk_windowStart b"
    | (full) "\<not> lm_window l \<le> now - bk_windowStart b" "limit_of l \<le> bk_count b"
    | (count) "\<not> lm_window l \<le> now - bk_windowStart b" "\<not> limit_of l \<le> bk_count b" by blast
  then show ?thesis
  proof cases
    case stale
    then have "(granted, sh') = (True, heap_Fix heap_Len heap_Less heap_Swap (nat (bk_heapIndex b))
        (e\<lparr>sh_keys := (sh_keys e)(key \<mapsto> b\<lparr>bk_windowStart := now, bk_count := 1\<rparr>)\<rparr>))"
      using assms(3,4) ts by (simp add: allow_decide_def)
    then show ?thesis using fx stale dom by auto
  next
    case full
    then have "(granted, sh') = (False, e)" using assms(3,4) ts by (simp add: allow_decide_def)
    then show ?thesis using assms(1) full by simp
  next
    case count
    then have "(granted, sh') = (True, e\<lparr>sh_keys := (sh_keys e)(key \<mapsto> b\<lparr>bk_count := bk_count b + 1\<rparr>)\<rparr>)"
      using assms(3,4) ts by (simp add: allow_decide_def)
    then show ?thesis using cb count dom[OF cb(2)] by auto
  qed
qed

lemma room_after_expiry:
  assumes "shard_ok sh" "limiter_wf l" "int (map_len (sh_keys sh)) \<le> perShardCap l"
  shows "room_for l now sh \<longleftrightarrow> int (map_len (sh_keys (expireLocked l now sh))) < perShardCap l"
proof -
  have w: "0 < lm_window l" "lm_window l \<le> max_duration" using assms(2) by (auto simp: limiter_wf_def)
  note exp = expire_loop_spec[OF assms(1) w, of evictionBudget now, folded expireLocked_def]
  show ?thesis
  proof (cases "\<exists>k. stale (lm_window l) now (quota sh k)")
    case True
    moreover have "0 < evictionBudget" by (simp add: evictionBudget_def)
    ultimately have "map_len (sh_keys (expireLocked l now sh)) < map_len (sh_keys sh)" using exp by blast
    then show ?thesis using True assms(3) by (auto simp: room_for_def)
  next
    case False
    then have "quota (expireLocked l now sh) = quota sh" using exp by (metis ext)
    then show ?thesis using False by (simp add: room_for_def shard_card)
  qed
qed

text \<open>
  A call on a shard: the key's live quota takes one step of the fixed-window counter, every
  other key keeps its live quota, and the shard stays within its capacity.
\<close>

lemma allow_locked_spec:
  assumes "shard_ok sh" "limiter_wf l" "int (map_len (sh_keys sh)) \<le> perShardCap l"
    and res: "allow_locked l now key sh = (granted, sh')"
  shows "shard_ok sh' \<and> int (map_len (sh_keys sh')) \<le> perShardCap l
    \<and> (granted, live (lm_window l) now (quota sh' key))
        = window_step (limit_of l) now (room_for l now sh) (live (lm_window l) now (quota sh key))
    \<and> (\<forall>k. k \<noteq> key \<longrightarrow> live (lm_window l) now (quota sh' k) = live (lm_window l) now (quota sh k))"
proof -
  let ?w = "lm_window l" and ?cap = "perShardCap l" and ?e = "expireLocked l now sh"
  have w: "0 < ?w" "?w \<le> max_duration" using assms(2) by (auto simp: limiter_wf_def)
  note exp = expire_loop_spec[OF assms(1) w, of evictionBudget now, folded expireLocked_def]
  note lv = expire_live[OF assms(1) w, of now evictionBudget, folded expireLocked_def]
  note room = room_after_expiry[OF assms(1-3), of now]
  have ok: "shard_ok ?e" and small: "int (map_len (sh_keys ?e)) \<le> ?cap" using exp assms(3) by auto
  note res' = res[unfolded allow_locked_decide]
  show ?thesis
  proof (cases "sh_keys ?e key")
    case None
    then have "quota ?e key = None" by (simp add: quota_def)
    then have "live ?w now (quota sh key) = None" using lv[of key] by simp
    then show ?thesis using allow_decide_new[OF ok assms(2) small None res'] room lv w(1) \<open>quota ?e key = None\<close>
      by (auto simp: window_step_def)
  next
    case (Some b)
    then have q: "quota ?e key = Some (bk_windowStart b, bk_count b)" by (simp add: quota_def)
    have "room_for l now sh" if "?w \<le> now - bk_windowStart b"
    proof -
      have "quota sh key = Some (bk_windowStart b, bk_count b)" using exp q by (metis option.distinct(1))
      then have "stale ?w now (quota sh key)" using that by simp
      then show ?thesis unfolding room_for_def by blast
    qed
    moreover have "live ?w now (quota sh key) = live ?w now (Some (bk_windowStart b, bk_count b))"
      using lv[of key] unfolding q by simp
    ultimately show ?thesis using allow_decide_known[OF ok assms(2) Some res'] lv q small w(1)
      by (auto simp: window_step_def split: if_splits)
  qed
qed

section \<open>Runs of a limiter\<close>

definition key_shard :: "Limiter \<Rightarrow> string \<Rightarrow> limiterShard" where
  "key_shard l key = lm_shards l ! shard_index (length (lm_shards l)) key"

definition key_quota :: "Limiter \<Rightarrow> int \<Rightarrow> string \<Rightarrow> (int \<times> int) option" where
  "key_quota l now key = live (lm_window l) now (quota (key_shard l key) key)"

definition limiter_ok :: "Limiter \<Rightarrow> bool" where
  "limiter_ok l \<longleftrightarrow> limiter_wf l
     \<and> (\<forall>sh \<in> set (lm_shards l). shard_ok sh \<and> int (map_len (sh_keys sh)) \<le> perShardCap l)"

lemma shard_index_less: "limiter_wf l \<Longrightarrow> shard_index (length (lm_shards l)) key < length (lm_shards l)"
  by (simp add: shard_index_def limiter_wf_def)

lemma key_shard_ok: "limiter_ok l \<Longrightarrow> shard_ok (key_shard l key) \<and> int (map_len (sh_keys (key_shard l key))) \<le> perShardCap l"
  using shard_index_less[of l key] by (auto simp: limiter_ok_def key_shard_def)

definition same_config :: "Limiter \<Rightarrow> Limiter \<Rightarrow> bool" where
  "same_config l l' \<longleftrightarrow> lm_enabled l' = lm_enabled l \<and> lm_requests l' = lm_requests l
     \<and> lm_window l' = lm_window l \<and> lm_burst l' = lm_burst l \<and> lm_maxKeys l' = lm_maxKeys l
     \<and> length (lm_shards l') = length (lm_shards l)"

lemma same_config_fields:
  assumes "same_config l l'"
  shows "lm_window l' = lm_window l" "limit_of l' = limit_of l" "perShardCap l' = perShardCap l"
    "limiter_wf l' = limiter_wf l" "lm_enabled l' = lm_enabled l" "lm_requests l' = lm_requests l"
    "lm_burst l' = lm_burst l" "length (lm_shards l') = length (lm_shards l)"
  using assms by (simp_all add: same_config_def limit_of_def limiter_wf_def perShardCap_def flip: length_greater_0_conv)

lemma allow_fixed_window:
  assumes "limiter_ok l" "lm_enabled l" "key \<noteq> []"
    and "Allow now key (Some l) = (granted, Some l')"
  shows "limiter_ok l' \<and> same_config l l'
    \<and> (granted, key_quota l' now key)
        = window_step (limit_of l) now (room_for l now (key_shard l key)) (key_quota l now key)
    \<and> (\<forall>k. k \<noteq> key \<longrightarrow> key_quota l' now k = key_quota l now k)"
proof -
  let ?n = "length (lm_shards l)"
  let ?i = "shard_index ?n key"
  have wf: "limiter_wf l" using assms(1) by (simp add: limiter_ok_def)
  have i: "?i < ?n" using shard_index_less[OF wf] .
  obtain sh' where r: "allow_locked l now key (key_shard l key) = (granted, sh')"
    and l': "l' = l\<lparr>lm_shards := (lm_shards l)[?i := sh']\<rparr>"
    using assms(2-4) unfolding Allow_def key_shard_def
    by (cases "allow_locked l now key (lm_shards l ! ?i)") (simp add: Let_def)
  have "shard_ok (key_shard l key)" "int (map_len (sh_keys (key_shard l key))) \<le> perShardCap l"
    using key_shard_ok[OF assms(1), of key] by auto
  note sp = allow_locked_spec[OF this(1) wf this(2) r]
  have cfg: "same_config l l'" unfolding same_config_def l' by simp
  have shard: "key_shard l' k = (if shard_index ?n k = ?i then sh' else key_shard l k)" for k
    unfolding key_shard_def l' using i by simp
  have "set (lm_shards l') \<subseteq> insert sh' (set (lm_shards l))"
    unfolding l' using set_update_subset_insert[of "lm_shards l" ?i sh'] by simp
  then have "limiter_ok l'"
    using sp assms(1) same_config_fields(3,4)[OF cfg] unfolding limiter_ok_def by auto
  moreover have quo: "key_quota l' now k = live (lm_window l) now (quota (key_shard l' k) k)" for k
    using same_config_fields(1)[OF cfg] by (simp add: key_quota_def)
  have "key_quota l' now k = key_quota l now k" if "k \<noteq> key" for k
  proof (cases "shard_index ?n k = ?i")
    case True
    then have "key_shard l k = key_shard l key" by (simp add: key_shard_def)
    then show ?thesis using sp that True unfolding quo shard by (simp add: key_quota_def)
  next
    case False
    then show ?thesis unfolding quo shard by (simp add: key_quota_def)
  qed
  moreover have "key_quota l' now key = live (lm_window l) now (quota sh' key)" unfolding quo shard by simp
  ultimately show ?thesis using sp cfg by (simp add: key_quota_def)
qed

subsection \<open>Sequences of calls\<close>

datatype limiter_call = CallAllow (call_time: int) string | CallSnapshot (call_time: int)

text \<open>The granted requests of a sequence of calls, in order, and the limiter after it.\<close>

fun run_calls :: "limiter_call list \<Rightarrow> Limiter option \<Rightarrow> (int \<times> string) list \<times> Limiter option" where
  "run_calls [] l = ([], l)"
| "run_calls (CallAllow t k # cs) l =
     (let (g, l1) = Allow t k l; (gs, l2) = run_calls cs l1 in ((if g then [(t, k)] else []) @ gs, l2))"
| "run_calls (CallSnapshot t # cs) l = run_calls cs (snd (Snapshot t l))"

definition granted_times :: "string \<Rightarrow> (int \<times> string) list \<Rightarrow> int list" where
  "granted_times key gs = map fst (filter (\<lambda>(t, k). k = key) gs)"

definition count_if :: "('a \<Rightarrow> bool) \<Rightarrow> 'a list \<Rightarrow> int" where
  "count_if P xs = int (length (filter P xs))"

lemma count_if_append [simp]: "count_if P (xs @ ys) = count_if P xs + count_if P ys"
  and count_if_Nil [simp]: "count_if P [] = 0"
  and count_if_one [simp]: "count_if P [x] = (if P x then 1 else 0)"
  by (simp_all add: count_if_def)

lemma count_if_mono: "(\<And>x. x \<in> set xs \<Longrightarrow> P x \<Longrightarrow> Q x) \<Longrightarrow> count_if P xs \<le> count_if Q xs"
  by (induction xs) (auto simp: count_if_def)

lemma count_if_zero: "(\<And>x. x \<in> set xs \<Longrightarrow> \<not> P x) \<Longrightarrow> count_if P xs = 0"
  by (simp add: count_if_def filter_False)

lemma count_if_split:
  "(\<And>x. x \<in> set xs \<Longrightarrow> P x \<Longrightarrow> Q x \<or> R x) \<Longrightarrow> count_if P xs \<le> count_if Q xs + count_if R xs"
  by (induction xs) (auto simp: count_if_def)

text \<open>
  What the grants of one key look like at a moment: in a live window the grants since its start
  are its count, and at most a limit's worth lie in the window's length before it; without one,
  every grant is past and at most a limit's worth lie in the last window's length.
\<close>

definition window_inv :: "int \<Rightarrow> int \<Rightarrow> int \<Rightarrow> int list \<Rightarrow> (int \<times> int) option \<Rightarrow> bool" where
  "window_inv w lim now G q \<longleftrightarrow> (\<forall>a. count_if (\<lambda>t. a \<le> t \<and> t < a + w) G \<le> 2 * lim)
     \<and> (\<forall>t\<in>set G. t \<le> now)
     \<and> (case q of
          None \<Rightarrow> count_if (\<lambda>t. now - w \<le> t) G \<le> lim \<and> (\<forall>t\<in>set G. t < now)
        | Some (s, c) \<Rightarrow> s \<le> now \<and> now - s < w \<and> 1 \<le> c \<and> c \<le> lim \<and> count_if (\<lambda>t. s \<le> t) G = c
            \<and> count_if (\<lambda>t. s - w \<le> t \<and> t < s) G \<le> lim)"

lemma window_inv_advance:
  assumes "window_inv w lim now G q" "now \<le> now'"
  shows "window_inv w lim now' G (live w now' q)"
proof (cases q)
  case None
  have "count_if (\<lambda>t. now' - w \<le> t) G \<le> count_if (\<lambda>t. now - w \<le> t) G"
    using assms(2) by (intro count_if_mono) simp
  then show ?thesis using assms None by (fastforce simp: window_inv_def)
next
  case (Some sc)
  obtain s c where sc: "sc = (s, c)" by fastforce
  have "count_if (\<lambda>t. now' - w \<le> t) G \<le> count_if (\<lambda>t. s \<le> t) G" if "w \<le> now' - s"
    using that by (intro count_if_mono) simp
  then show ?thesis using assms Some sc by (fastforce simp: window_inv_def)
qed

lemma window_inv_start:
  assumes "window_inv w lim now G None" "1 \<le> lim" "0 < w"
  shows "window_inv w lim now (G @ [now]) (Some (now, 1))"
proof -
  have "count_if (\<lambda>t. a \<le> t \<and> t < a + w) (G @ [now]) \<le> 2 * lim" for a
  proof (cases "a \<le> now \<and> now < a + w")
    case True
    have "count_if (\<lambda>t. a \<le> t \<and> t < a + w) G \<le> count_if (\<lambda>t. now - w \<le> t) G"
      using True by (intro count_if_mono) linarith
    then show ?thesis using assms True by (simp add: window_inv_def)
  qed (use assms in \<open>auto simp: window_inv_def\<close>)
  moreover have "count_if (\<lambda>t. now \<le> t) G = 0"
    using assms(1) by (intro count_if_zero) (fastforce simp: window_inv_def)
  moreover have "count_if (\<lambda>t. now - w \<le> t \<and> t < now) G \<le> count_if (\<lambda>t. now - w \<le> t) G"
    by (intro count_if_mono) simp
  ultimately show ?thesis using assms by (auto simp: window_inv_def)
qed

lemma window_inv_count:
  assumes "window_inv w lim now G (Some (s, c))" "c < lim"
  shows "window_inv w lim now (G @ [now]) (Some (s, c + 1))"
proof -
  have "count_if (\<lambda>t. a \<le> t \<and> t < a + w) (G @ [now]) \<le> 2 * lim" for a
  proof (cases "a \<le> now \<and> now < a + w")
    case True
    have "count_if (\<lambda>t. a \<le> t \<and> t < a + w) G
        \<le> count_if (\<lambda>t. s - w \<le> t \<and> t < s) G + count_if (\<lambda>t. s \<le> t) G"
      using True assms(1) by (intro count_if_split) (auto simp: window_inv_def)
    then show ?thesis using assms True by (simp add: window_inv_def)
  qed (use assms in \<open>auto simp: window_inv_def\<close>)
  then show ?thesis using assms by (auto simp: window_inv_def)
qed

lemma window_inv_step:
  assumes "window_inv w lim now G q" "1 \<le> lim" "0 < w" "limit \<le> lim"
    and "window_step limit now room q = (granted, q')"
  shows "window_inv w lim now (if granted then G @ [now] else G) q'"
proof (cases q)
  case None
  then show ?thesis using assms window_inv_start by (auto simp: window_step_def split: if_splits)
next
  case (Some sc)
  obtain s c where "sc = (s, c)" by fastforce
  then show ?thesis using assms Some window_inv_count[of w lim now G s c]
    by (auto simp: window_step_def split: if_splits)
qed

lemma Snapshot_step:
  assumes "limiter_ok l"
  obtains l' where "snd (Snapshot t (Some l)) = Some l'" "limiter_ok l'" "same_config l l'"
    "\<And>k. key_quota l' t k = key_quota l t k"
proof
  let ?l = "l\<lparr>lm_shards := map (expireLocked l t) (lm_shards l)\<rparr>"
  show "snd (Snapshot t (Some l)) = Some ?l" by (simp add: Snapshot_def Let_def)
  show cfg: "same_config l ?l" by (simp add: same_config_def)
  have wf: "limiter_wf l" and w: "0 < lm_window l" "lm_window l \<le> max_duration"
    using assms by (auto simp: limiter_ok_def limiter_wf_def)
  have "shard_ok (expireLocked l t sh) \<and> int (map_len (sh_keys (expireLocked l t sh))) \<le> perShardCap l"
    if "sh \<in> set (lm_shards l)" for sh
    using expire_loop_spec[OF _ w, of sh evictionBudget t] that assms
    by (fastforce simp: limiter_ok_def expireLocked_def)
  then show "limiter_ok ?l"
    using wf same_config_fields(3,4)[OF cfg] by (auto simp: limiter_ok_def)
  fix k
  have "key_shard ?l k = expireLocked l t (key_shard l k)"
    using shard_index_less[OF wf, of k] by (simp add: key_shard_def)
  then show "key_quota ?l t k = key_quota l t k"
    using expire_live[OF _ w] key_shard_ok[OF assms, of k] by (simp add: key_quota_def expireLocked_def)
qed

lemma Allow_Some:
  assumes "limiter_ok l"
  obtains granted l' where "Allow now key (Some l) = (granted, Some l')" "limiter_ok l'" "same_config l l'"
    "\<And>k. k \<noteq> key \<or> \<not> lm_enabled l \<or> key = [] \<Longrightarrow> key_quota l' now k = key_quota l now k"
    "lm_enabled l \<Longrightarrow> key \<noteq> [] \<Longrightarrow> (granted, key_quota l' now key)
      = window_step (limit_of l) now (room_for l now (key_shard l key)) (key_quota l now key)"
proof (cases "\<not> lm_enabled l \<or> key = []")
  case True
  then have "Allow now key (Some l) = (True, Some l)" by (simp add: Allow_def)
  then show ?thesis using that[of True l] assms True by (auto simp: same_config_def)
next
  case False
  obtain granted sh where "allow_locked l now key (lm_shards l ! shard_index (length (lm_shards l)) key) = (granted, sh)"
    by fastforce
  then obtain l' where r: "Allow now key (Some l) = (granted, Some l')" using False by (simp add: Allow_def)
  from that[OF r] show ?thesis using allow_fixed_window[OF assms _ _ r] False by blast
qed

lemma key_quota_advance: "now \<le> t \<Longrightarrow> key_quota l t k = live (lm_window l) t (key_quota l now k)"
  by (cases "quota (key_shard l k) k") (auto simp: key_quota_def)

lemma run_window_inv:
  assumes "limiter_ok l" "lm_enabled l" "key \<noteq> []"
    and "window_inv (lm_window l) (lm_requests l + lm_burst l) now G (key_quota l now key)"
    and "sorted (now # map call_time cs)"
  shows "\<exists>t q. window_inv (lm_window l) (lm_requests l + lm_burst l) t
      (G @ granted_times key (fst (run_calls cs (Some l)))) q"
  using assms
proof (induction cs arbitrary: l now G)
  case Nil
  then show ?case by (auto simp: granted_times_def)
next
  case (Cons c cs)
  let ?t = "call_time c" and ?w = "lm_window l" and ?lim = "lm_requests l + lm_burst l"
  have lim: "1 \<le> ?lim" "0 < ?w" "limit_of l \<le> ?lim"
    using Cons.prems(1) wrap_int64_le[of ?lim] by (auto simp: limiter_ok_def limiter_wf_def limit_of_def)
  have inv: "window_inv ?w ?lim ?t G (key_quota l ?t key)"
    using window_inv_advance[OF Cons.prems(4), of ?t] key_quota_advance[of now ?t l key] Cons.prems(5) by simp
  have srt: "sorted (?t # map call_time cs)" using Cons.prems(5) by simp
  show ?case
  proof (cases c)
    case (CallSnapshot t)
    obtain l' where l': "snd (Snapshot t (Some l)) = Some l'" "limiter_ok l'" "same_config l l'"
        "key_quota l' t key = key_quota l t key" using Snapshot_step[OF Cons.prems(1)] by metis
    then show ?thesis
      using Cons.IH[OF l'(2), of t G] inv srt Cons.prems(2,3) same_config_fields[OF l'(3)] CallSnapshot by simp
  next
    case (CallAllow t k)
    obtain granted l' where l': "Allow t k (Some l) = (granted, Some l')" "limiter_ok l'" "same_config l l'"
        "k \<noteq> key \<Longrightarrow> key_quota l' t key = key_quota l t key"
        "k = key \<Longrightarrow> (granted, key_quota l' t key)
          = window_step (limit_of l) t (room_for l t (key_shard l key)) (key_quota l t key)"
      using Allow_Some[OF Cons.prems(1), of t k] Cons.prems(2,3) by metis
    let ?G = "if granted \<and> k = key then G @ [t] else G"
    have "window_inv ?w ?lim t ?G (key_quota l' t key)"
    proof (cases "k = key")
      case True
      then show ?thesis
        using window_inv_step[OF _ lim l'(5)[symmetric], of G] inv CallAllow by auto
    qed (use l'(4) inv CallAllow in auto)
    then have "\<exists>t q. window_inv ?w ?lim t (?G @ granted_times key (fst (run_calls cs (Some l')))) q"
      using Cons.IH[OF l'(2), of t ?G] srt Cons.prems(2,3) same_config_fields[OF l'(3)] CallAllow by simp
    moreover have "G @ granted_times key (fst (run_calls (c # cs) (Some l)))
        = ?G @ granted_times key (fst (run_calls cs (Some l')))"
      using l'(1) CallAllow by (auto simp: granted_times_def split: prod.split)
    ultimately show ?thesis by simp
  qed
qed

text \<open>
  C29: a call for a non-empty key on an enabled limiter takes one step of the fixed-window
  counter on that key's live quota: without a live window the request is granted and starts one
  exactly when the key's shard is below its capacity or holds an expired window, and a live
  window grants exactly while its count is below the limit. Every other key keeps its live
  quota, and the limiter keeps its invariant: no live quota is dropped to admit another key.
\<close>

theorem allow_is_fixed_window:
  assumes "limiter_ok l" "lm_enabled l" "key \<noteq> []"
    and "Allow now key (Some l) = (granted, Some l')"
  shows "limiter_ok l' \<and> same_config l l'
    \<and> (granted, key_quota l' now key)
        = window_step (limit_of l) now (room_for l now (key_shard l key)) (key_quota l now key)
    \<and> (\<forall>k. k \<noteq> key \<longrightarrow> key_quota l' now k = key_quota l now k)"
  by (rule allow_fixed_window[OF assms])

text \<open>The limiter that a configuration builds.\<close>

lemma built_fields:
  assumes "WithMaxKeys m (Some (New p enabled)) = Some l"
  shows "lm_enabled l = enabled" "lm_requests l = lm_requests (New p enabled)" "lm_window l = lm_window (New p enabled)"
    "lm_burst l = lm_burst (New p enabled)" "lm_maxKeys l = (if 0 < m then m else defaultMaxKeys)"
    "lm_shards l = replicate 32 empty_shard"
  using assms by (cases "0 < m"; force simp: WithMaxKeys_def New_def Let_def defaultShards_def)+

lemma New_ok:
  assumes "rp_Window p \<le> max_duration" "WithMaxKeys m (Some (New p enabled)) = Some l"
  shows "limiter_ok l"
proof -
  have "go_minute \<le> max_duration" by (simp add: go_units max_duration_def)
  then have wf: "limiter_wf l"
    using assms(1) built_fields[OF assms(2)] by (simp add: New_def limiter_wf_def Let_def go_units)
  have cap: "0 \<le> perShardCap l" by (simp add: perShardCap_def Let_def)
  have "set (lm_shards l) \<subseteq> {empty_shard}"
    using built_fields[OF assms(2)] by simp
  moreover have "shard_ok empty_shard"
    by (simp add: shard_ok_def indexed_def empty_shard_def heap_order_def)
  ultimately show ?thesis using wf cap by (auto simp: limiter_ok_def empty_shard_def)
qed

text \<open>
  Over any sequence of calls with a clock that does not go back, no key is granted more than
  twice the configured requests plus burst in any interval as long as the window: windows
  start at least one window's length apart and each grants at most requests plus burst.
\<close>

theorem window_grants_bounded:
  assumes "rp_Window p \<le> max_duration" "WithMaxKeys m (Some (New p True)) = Some l" "key \<noteq> []"
    and "sorted (map call_time cs)" "run_calls cs (Some l) = (gs, l')"
  shows "count_if (\<lambda>t. a \<le> t \<and> t < a + lm_window l) (granted_times key gs)
    \<le> 2 * (lm_requests l + lm_burst l)"
proof (cases cs)
  case (Cons c cs')
  have ok: "limiter_ok l" using New_ok[OF assms(1,2)] .
  have en: "lm_enabled l" using built_fields[OF assms(2)] by simp
  have "key_shard l key \<in> set (lm_shards l)"
    using shard_index_less[of l key] ok by (simp add: key_shard_def limiter_ok_def)
  then have "key_shard l key = empty_shard" using built_fields[OF assms(2)] by simp
  then have "key_quota l (call_time c) key = None" by (simp add: key_quota_def quota_def empty_shard_def)
  moreover have "0 \<le> lm_requests l + lm_burst l" using ok by (simp add: limiter_ok_def limiter_wf_def)
  ultimately have "window_inv (lm_window l) (lm_requests l + lm_burst l) (call_time c) [] (key_quota l (call_time c) key)"
    by (simp add: window_inv_def)
  from run_window_inv[OF ok en assms(3) this, of cs] assms(4,5) Cons
  show ?thesis by (auto simp: window_inv_def)
qed (use assms New_ok[OF assms(1,2)] in \<open>auto simp: granted_times_def limiter_ok_def limiter_wf_def\<close>)

lemma run_calls_ok: "limiter_ok l \<Longrightarrow> \<exists>l'. snd (run_calls cs (Some l)) = Some l' \<and> limiter_ok l' \<and> same_config l l'"
proof (induction cs arbitrary: l)
  case (Cons c cs)
  have "\<exists>l1. limiter_ok l1 \<and> same_config l l1 \<and> snd (run_calls (c # cs) (Some l)) = snd (run_calls cs (Some l1))"
  proof (cases c)
    case (CallAllow t k)
    obtain g l1 where l1: "Allow t k (Some l) = (g, Some l1)" "limiter_ok l1" "same_config l l1"
      using Allow_Some[OF Cons.prems, of t k] by metis
    then have "snd (run_calls (c # cs) (Some l)) = snd (run_calls cs (Some l1))"
      using CallAllow by (simp split: prod.split)
    then show ?thesis using l1(2,3) by blast
  next
    case (CallSnapshot t)
    then show ?thesis using Snapshot_step[OF Cons.prems, of t] by (metis run_calls.simps(3))
  qed
  then obtain l1 where l1: "limiter_ok l1" "same_config l l1"
    "snd (run_calls (c # cs) (Some l)) = snd (run_calls cs (Some l1))" by blast
  then show ?case using Cons.IH[OF l1(1)] by (auto simp: same_config_def)
qed (simp add: same_config_def)

text \<open>
  The memory of a limiter is bounded: after any sequence of calls the number of tracked keys
  is at most the configured capacity (at least 64 keys for each of the 32 shards).
\<close>

theorem tracked_keys_bounded:
  assumes "rp_Window p \<le> max_duration" "run_calls cs (WithMaxKeys m (Some (New p enabled))) = (gs, l')"
  shows "KeyCount l' \<le> max 2048 (if 0 < m then m else defaultMaxKeys)"
proof -
  let ?M = "if 0 < m then m else defaultMaxKeys"
  obtain l where l: "WithMaxKeys m (Some (New p enabled)) = Some l" by (simp add: WithMaxKeys_def)
  have cap: "perShardCap l = max 64 (?M div 32)" "length (lm_shards l) = 32"
    using built_fields[OF l] by (auto simp: Let_def perShardCap_def)
  obtain l2 where l2: "l' = Some l2" "limiter_ok l2" "same_config l l2"
    using run_calls_ok[OF New_ok[OF assms(1) l], of cs] assms(2) l by auto
  have "sum_list (map (\<lambda>sh. int (map_len (sh_keys sh))) (lm_shards l2))
      \<le> sum_list (map (\<lambda>sh. perShardCap l2) (lm_shards l2))"
    using l2(2) by (intro sum_list_mono) (auto simp: limiter_ok_def)
  also have "\<dots> = 32 * max 64 (?M div 32)"
    using same_config_fields(3,8)[OF l2(3)] cap by (simp add: sum_list_triv)
  also have "\<dots> \<le> max 2048 ?M"
  proof -
    have "32 * (?M div 32) \<le> ?M" by simp
    then show ?thesis by (auto simp: max_def)
  qed
  finally show ?thesis using l2(1) by (simp add: KeyCount_def)
qed

section \<open>Witnesses\<close>

definition sample_profile :: RateLimitProfile where
  "sample_profile = \<lparr>rp_Requests = 2, rp_Window = go_second, rp_Burst = 1\<rparr>"

lemma sample_limiter:
  obtains l where "WithMaxKeys 100 (Some (New sample_profile True)) = Some l" "rp_Window sample_profile \<le> max_duration"
    "limiter_ok l" "lm_enabled l" "lm_requests l = 2" "lm_burst l = 1" "lm_window l = go_second"
    "key_quota l t k = None" "room_for l t (key_shard l k)"
proof -
  obtain l where l: "WithMaxKeys 100 (Some (New sample_profile True)) = Some l" by (simp add: WithMaxKeys_def)
  have w: "rp_Window sample_profile \<le> max_duration" by (simp add: sample_profile_def)
  note ok = New_ok[OF w l] and f = built_fields[OF l]
  have fields: "lm_requests l = 2" "lm_burst l = 1" "lm_window l = go_second" "lm_enabled l"
    using f by (simp_all add: New_def sample_profile_def Let_def go_units)
  have "key_shard l k \<in> set (lm_shards l)"
    using shard_index_less[of l k] ok by (simp add: key_shard_def limiter_ok_def)
  then have e: "key_shard l k = empty_shard" using f by simp
  then have "key_quota l t k = None" by (simp add: key_quota_def quota_def empty_shard_def)
  moreover have "room_for l t (key_shard l k)"
    unfolding room_for_def e by (simp add: empty_shard_def perShardCap_def Let_def)
  ultimately show ?thesis using that[OF l w ok] fields by blast
qed

theorem allow_is_fixed_window_witness:
  "\<exists>l l'. WithMaxKeys 100 (Some (New sample_profile True)) = Some l
     \<and> Allow 7 ''k'' (Some l) = (True, Some l') \<and> key_quota l' 7 ''k'' = Some (7, 1)"
proof -
  obtain l where l: "WithMaxKeys 100 (Some (New sample_profile True)) = Some l" "limiter_ok l" "lm_enabled l"
    "key_quota l 7 ''k'' = None" "room_for l 7 (key_shard l ''k'')" by (rule sample_limiter[of 7 "''k''"])
  obtain g l' where r: "Allow 7 ''k'' (Some l) = (g, Some l')" by (rule Allow_Some[OF l(2)])
  from allow_is_fixed_window[OF l(2,3) _ r] l(4,5) have "g" "key_quota l' 7 ''k'' = Some (7, 1)"
    by (simp_all add: window_step_def)
  then show ?thesis using l(1) r by auto
qed

theorem window_grants_bounded_witness:
  "\<exists>l gs l'. WithMaxKeys 100 (Some (New sample_profile True)) = Some l
     \<and> run_calls [CallAllow 0 ''k'', CallSnapshot 3, CallAllow 5 ''k''] (Some l) = (gs, l')
     \<and> count_if (\<lambda>t. 0 \<le> t \<and> t < go_second) (granted_times ''k'' gs) \<le> 6"
proof -
  obtain l where l: "WithMaxKeys 100 (Some (New sample_profile True)) = Some l" "rp_Window sample_profile \<le> max_duration"
    "lm_requests l = 2" "lm_burst l = 1" "lm_window l = go_second" by (rule sample_limiter[of 0 "''k''"])
  obtain gs l' where r: "run_calls [CallAllow 0 ''k'', CallSnapshot 3, CallAllow 5 ''k''] (Some l) = (gs, l')"
    by (cases "run_calls [CallAllow 0 ''k'', CallSnapshot 3, CallAllow 5 ''k''] (Some l)")
  from window_grants_bounded[OF l(2,1) _ _ r, of "''k''" 0] l(3-5)
  have "count_if (\<lambda>t. 0 \<le> t \<and> t < go_second) (granted_times ''k'' gs) \<le> 6" by simp
  then show ?thesis using l(1) r by blast
qed

theorem tracked_keys_bounded_witness:
  "KeyCount (snd (run_calls [CallAllow 0 ''a'', CallAllow 1 ''b''] (WithMaxKeys 4096 (Some (New sample_profile True))))) \<le> 4096"
proof -
  obtain gs l' where r: "run_calls [CallAllow 0 ''a'', CallAllow 1 ''b''] (WithMaxKeys 4096 (Some (New sample_profile True))) = (gs, l')"
    by fastforce
  have "rp_Window sample_profile \<le> max_duration" by (simp add: sample_profile_def)
  from tracked_keys_bounded[OF this r] show ?thesis unfolding r by simp
qed

end
