(* ===== verification/Site_Admission.thy ===== *)
theory Site_Admission
  imports Go_Strings "HOL-Library.Multiset"
begin

text \<open>
  \<open>internal/engine/site_admission.go\<close>: the bounded per-site permits that the detection pipeline,
  the body reader and the sandbox guards take before they do work. Requests run concurrently, so
  the development considers every interleaving of acquisitions and releases.
\<close>

record siteAdmission =
  sa_maxActive :: int
  sa_maxSites :: int
  sa_bySite :: "string \<rightharpoonup> int"

text \<open>A token names its site; the empty token holds no permit.\<close>

record siteAdmissionToken =
  tk_site :: string
  tk_held :: bool

definition empty_token :: siteAdmissionToken where
  "empty_token = \<lparr>tk_site = [], tk_held = False\<rparr>"

definition admission_acquire :: "string \<Rightarrow> siteAdmission \<Rightarrow> (siteAdmissionToken \<times> bool) \<times> siteAdmission" where
  "admission_acquire siteID0 a =
     (let siteID = trim_space siteID0 in
      if siteID = [] then ((empty_token, True), a)
      else let active = lookup_or 0 (sa_bySite a) siteID in
        if sa_bySite a siteID = None \<and> sa_maxSites a > 0 \<and> int (map_len (sa_bySite a)) \<ge> sa_maxSites a
        then ((empty_token, True), a)
        else if sa_maxActive a > 0 \<and> active \<ge> sa_maxActive a then ((empty_token, False), a)
        else ((\<lparr>tk_site = siteID, tk_held = True\<rparr>, True),
              a\<lparr>sa_bySite := (sa_bySite a)(siteID \<mapsto> active + 1)\<rparr>))"

definition admission_release :: "siteAdmissionToken \<Rightarrow> siteAdmission \<Rightarrow> siteAdmission" where
  "admission_release t a =
     (if \<not> tk_held t \<or> tk_site t = [] then a
      else let active = lookup_or 0 (sa_bySite a) (tk_site t) in
        if active \<le> 1 then a\<lparr>sa_bySite := (sa_bySite a)(tk_site t := None)\<rparr>
        else a\<lparr>sa_bySite := (sa_bySite a)(tk_site t \<mapsto> active - 1)\<rparr>)"

definition new_admission :: "int \<Rightarrow> int \<Rightarrow> siteAdmission" where
  "new_admission maxActive maxSites = \<lparr>sa_maxActive = maxActive, sa_maxSites = maxSites, sa_bySite = Map.empty\<rparr>"

section \<open>Interleavings\<close>

text \<open>The tokens that were handed out and not yet released, beside the admission state.\<close>

inductive admission_run :: "int \<Rightarrow> int \<Rightarrow> siteAdmission \<Rightarrow> siteAdmissionToken multiset \<Rightarrow> bool"
  for maxActive maxSites :: int where
  start: "admission_run maxActive maxSites (new_admission maxActive maxSites) {#}"
| acquire: "admission_run maxActive maxSites a out \<Longrightarrow> admission_acquire site a = ((t, True), a')
    \<Longrightarrow> admission_run maxActive maxSites a' (add_mset t out)"
| refuse: "admission_run maxActive maxSites a out \<Longrightarrow> admission_acquire site a = ((t, False), a')
    \<Longrightarrow> admission_run maxActive maxSites a' out"
| release: "admission_run maxActive maxSites a (add_mset t out)
    \<Longrightarrow> admission_run maxActive maxSites (admission_release t a) out"

definition permits :: "siteAdmissionToken multiset \<Rightarrow> string \<Rightarrow> nat" where
  "permits out s = size (filter_mset (\<lambda>t. tk_held t \<and> tk_site t = s) out)"

lemma permits_simps [simp]:
  "permits {#} s = 0"
  "permits (add_mset t out) s = (if tk_held t \<and> tk_site t = s then Suc (permits out s) else permits out s)"
  by (simp_all add: permits_def)

definition admission_inv :: "siteAdmission \<Rightarrow> siteAdmissionToken multiset \<Rightarrow> bool" where
  "admission_inv a out \<longleftrightarrow> finite (dom (sa_bySite a)) \<and> (\<forall>t\<in>#out. tk_held t \<longrightarrow> tk_site t \<noteq> [])
     \<and> (\<forall>s. sa_bySite a s = (if permits out s = 0 then None else Some (int (permits out s))))
     \<and> (0 < sa_maxActive a \<longrightarrow> (\<forall>s. int (permits out s) \<le> sa_maxActive a))
     \<and> (0 < sa_maxSites a \<longrightarrow> int (map_len (sa_bySite a)) \<le> sa_maxSites a)"

lemma acquire_cases:
  assumes "admission_acquire site a = ((t, admitted), a')"
  obtains (untracked) "t = empty_token" "a' = a" "admitted"
      "trim_space site = [] \<or> (sa_bySite a (trim_space site) = None \<and> 0 < sa_maxSites a
         \<and> sa_maxSites a \<le> int (map_len (sa_bySite a)))"
    | (refused) "t = empty_token" "a' = a" "\<not> admitted" "trim_space site \<noteq> []" "0 < sa_maxActive a"
      "sa_maxActive a \<le> lookup_or 0 (sa_bySite a) (trim_space site)"
    | (permit) "t = \<lparr>tk_site = trim_space site, tk_held = True\<rparr>" "admitted" "trim_space site \<noteq> []"
      "a' = a\<lparr>sa_bySite := (sa_bySite a)(trim_space site \<mapsto> lookup_or 0 (sa_bySite a) (trim_space site) + 1)\<rparr>"
      "0 < sa_maxActive a \<Longrightarrow> lookup_or 0 (sa_bySite a) (trim_space site) < sa_maxActive a"
      "sa_bySite a (trim_space site) = None \<Longrightarrow> 0 < sa_maxSites a \<Longrightarrow> int (map_len (sa_bySite a)) < sa_maxSites a"
  using assms by (auto simp: admission_acquire_def Let_def split: if_splits)

lemma acquire_inv:
  assumes "admission_inv a out" "admission_acquire site a = ((t, admitted), a')"
  shows "admission_inv a' (if admitted then add_mset t out else out)"
  using assms(2)
proof (cases rule: acquire_cases)
  case permit
  let ?s = "trim_space site"
  have get: "lookup_or 0 (sa_bySite a) ?s = int (permits out ?s)"
    using assms(1) by (auto simp: admission_inv_def lookup_or_def)
  have dom: "?s \<in> dom (sa_bySite a) \<longleftrightarrow> sa_bySite a ?s \<noteq> None" by auto
  have "map_len (sa_bySite a') = (if sa_bySite a ?s = None then Suc (map_len (sa_bySite a)) else map_len (sa_bySite a))"
    using assms(1) permit(4) by (auto simp: admission_inv_def map_len_upd)
  then have "0 < sa_maxSites a' \<longrightarrow> int (map_len (sa_bySite a')) \<le> sa_maxSites a'"
    using assms(1) permit(4,6) by (auto simp: admission_inv_def split: if_splits)
  moreover have "0 < sa_maxActive a' \<longrightarrow> (\<forall>s. int (permits (add_mset t out) s) \<le> sa_maxActive a')"
    using assms(1) permit(1,4,5) get by (auto simp: admission_inv_def)
  ultimately show ?thesis
    using assms(1) permit(1-4) get by (auto simp: admission_inv_def)
qed (use assms(1) in \<open>auto simp: admission_inv_def empty_token_def\<close>)

lemma release_inv:
  assumes "admission_inv a (add_mset t out)"
  shows "admission_inv (admission_release t a) out"
proof (cases "tk_held t")
  case True
  let ?s = "tk_site t"
  have s: "?s \<noteq> []" "sa_bySite a ?s = Some (int (Suc (permits out ?s)))"
    using assms True by (auto simp: admission_inv_def)
  have fin: "finite (dom (sa_bySite a))" using assms by (simp add: admission_inv_def)
  let ?m = "(sa_bySite a)(?s := (if permits out ?s = 0 then None else Some (int (permits out ?s))))"
  have rel: "admission_release t a = a\<lparr>sa_bySite := ?m\<rparr>"
    using s True by (auto simp: admission_release_def Let_def)
  have "dom ?m \<subseteq> dom (sa_bySite a)" using s(2) by (auto split: if_splits)
  then have "map_len ?m \<le> map_len (sa_bySite a)" "finite (dom ?m)"
    using fin unfolding map_len_def by (blast intro: card_mono finite_subset)+
  moreover have "int (permits out x) \<le> sa_maxActive a" if "0 < sa_maxActive a" for x
  proof -
    have "int (permits (add_mset t out) x) \<le> sa_maxActive a" using assms that by (simp add: admission_inv_def)
    then show ?thesis by (simp split: if_splits)
  qed
  moreover have "?m s = (if permits out s = 0 then None else Some (int (permits out s)))" for s
    using assms True by (simp add: admission_inv_def)
  ultimately show ?thesis using assms unfolding rel admission_inv_def by auto
next
  case False
  then show ?thesis using assms by (auto simp: admission_inv_def admission_release_def)
qed

lemma admission_run_inv:
  "admission_run maxActive maxSites a out \<Longrightarrow>
   admission_inv a out \<and> sa_maxActive a = maxActive \<and> sa_maxSites a = maxSites"
proof (induction rule: admission_run.induct)
  case start
  then show ?case by (simp add: new_admission_def admission_inv_def)
next
  case (acquire a out site t a')
  then show ?case using acquire_inv[of a out site t True a'] by (auto elim!: acquire_cases)
next
  case (refuse a out site t a')
  then show ?case using acquire_inv[of a out site t False a'] by (auto elim!: acquire_cases)
next
  case (release a t out)
  then show ?case using release_inv[of a t out] by (auto simp: admission_release_def Let_def)
qed

text \<open>
  In every interleaving of acquisitions and releases the counter of a site is the number of
  its permits that are out (no entry remains when all were returned), no site holds more than
  the configured maximum, and the registry never exceeds its bound, so once every permit has
  been returned the registry is empty again.
\<close>

theorem site_permits_balanced:
  assumes "admission_run maxActive maxSites a out"
  shows "lookup_or 0 (sa_bySite a) s = int (permits out s)
    \<and> (s \<in> dom (sa_bySite a) \<longleftrightarrow> permits out s > 0)
    \<and> (0 < maxActive \<longrightarrow> int (permits out s) \<le> maxActive)
    \<and> (0 < maxSites \<longrightarrow> int (map_len (sa_bySite a)) \<le> maxSites)
    \<and> (out = {#} \<longrightarrow> a = new_admission maxActive maxSites)"
proof -
  have inv: "admission_inv a out" and m: "sa_maxActive a = maxActive" "sa_maxSites a = maxSites"
    using admission_run_inv[OF assms] by auto
  have cnt: "sa_bySite a x = (if permits out x = 0 then None else Some (int (permits out x)))" for x
    using inv by (simp add: admission_inv_def)
  have "a = new_admission maxActive maxSites" if "out = {#}"
  proof -
    have "sa_bySite a = Map.empty" using cnt that by auto
    then show ?thesis using m by (cases a) (simp add: new_admission_def)
  qed
  then show ?thesis using inv m cnt[of s] unfolding admission_inv_def by (auto simp: lookup_or_def)
qed

theorem site_permits_balanced_witness:
  "\<exists>a out. admission_run 2 8 a out \<and> permits out ''s'' = 1 \<and> lookup_or 0 (sa_bySite a) ''s'' = 1"
proof -
  let ?t = "\<lparr>tk_site = ''s'', tk_held = True\<rparr>"
  let ?a = "\<lparr>sa_maxActive = 2, sa_maxSites = 8, sa_bySite = [''s'' \<mapsto> 1]\<rparr>"
  have trim: "trim_space ''s'' = ''s''" by code_simp
  have "admission_acquire ''s'' (new_admission 2 8) = ((?t, True), ?a)"
    unfolding admission_acquire_def trim by (simp add: new_admission_def Let_def)
  then have run: "admission_run 2 8 ?a {#?t#}" using admission_run.acquire[OF admission_run.start] by blast
  from site_permits_balanced[OF run, of "''s''"] run show ?thesis by (intro exI[of _ ?a] exI[of _ "{#?t#}"]) simp
qed

end
