(* ===== verification/WebSocket.thy ===== *)
theory WebSocket
  imports Go_Strings
begin

text \<open>
  \<open>internal/proxy/websocket_frames.go\<close>: the tunnel that inspects WebSocket messages between a
  client and an upstream. Bytes are 8-bit words. The inspection callback is an argument (absent
  or a function of direction, opcode and payload), as is the outcome of each write to the upstream
  connection: success, or a failure after so many bytes of it went out. The bytes the upstream will still send are a list; its end is the end of the stream. The idle
  and lifetime timers are their deadlines.
\<close>

unbundle bit_operations_syntax

type_synonym bytes = "u8 list"

datatype ws_error =
    WSExtensionOrMask | WSOpcode | WSNoncanonicalLength | WSInvalidLength | WSFrameLimit | WSControlFrame
  | WSFrameRate | WSClosePayload | WSCloseStatus | WSContinuation | WSInterleaved | WSMessageLimit
  | WSTextEncoding | WSRejected | WSWrite | WSEOF | WSPanic

definition maxWebSocketMessage :: int where "maxWebSocketMessage = 2 ^ 20"

definition webSocketIdleTimeout :: duration where "webSocketIdleTimeout = 60 * go_second"

definition webSocketLifetime :: duration where "webSocketLifetime = go_hour"

record webSocketMessage =
  wm_opcode :: u8
  wm_payload :: bytes
  wm_wire :: bytes
  wm_fragments :: int
  wm_window :: "Prelude.time"
  wm_frames :: int

record webSocketFrameTunnel =
  ws_input :: bytes
  ws_sent :: bytes
  ws_limit :: int
  ws_incoming :: webSocketMessage
  ws_outgoing :: webSocketMessage
  ws_writeBuffer :: bytes
  ws_readBuffer :: bytes
  ws_idle :: "Prelude.time"
  ws_lifetime :: "Prelude.time"
  ws_closed :: bool
  ws_framesIn :: u64
  ws_framesOut :: u64
  ws_bytesIn :: u64
  ws_bytesOut :: u64
  ws_messagesIn :: u64
  ws_messagesOut :: u64

type_synonym inspector = "(bool \<Rightarrow> u8 \<Rightarrow> bytes \<Rightarrow> bool) option"

definition empty_message :: webSocketMessage where
  "empty_message = \<lparr>wm_opcode = 0, wm_payload = [], wm_wire = [], wm_fragments = 0,
     wm_window = zero_time, wm_frames = 0\<rparr>"

definition newWebSocketFrameTunnel :: "Prelude.time \<Rightarrow> bytes \<Rightarrow> int \<Rightarrow> webSocketFrameTunnel" where
  "newWebSocketFrameTunnel now input limit =
     \<lparr>ws_input = input, ws_sent = [],
      ws_limit = (if limit \<le> 0 \<or> limit > maxWebSocketMessage then maxWebSocketMessage else limit),
      ws_incoming = empty_message, ws_outgoing = empty_message, ws_writeBuffer = [], ws_readBuffer = [],
      ws_idle = now + webSocketIdleTimeout, ws_lifetime = now + webSocketLifetime, ws_closed = False,
      ws_framesIn = 0, ws_framesOut = 0, ws_bytesIn = 0, ws_bytesOut = 0, ws_messagesIn = 0, ws_messagesOut = 0\<rparr>"

definition ws_Close :: "webSocketFrameTunnel \<Rightarrow> webSocketFrameTunnel" where
  "ws_Close t = t\<lparr>ws_closed := True\<rparr>"

definition touch :: "Prelude.time \<Rightarrow> webSocketFrameTunnel \<Rightarrow> webSocketFrameTunnel" where
  "touch now t = (if ws_closed t then t else t\<lparr>ws_idle := now + webSocketIdleTimeout\<rparr>)"

subsection \<open>Frame headers\<close>

text \<open>\<open>binary.BigEndian.Uint16\<close> and \<open>Uint64\<close> of the leading bytes, as numbers.\<close>

definition big_endian :: "bytes \<Rightarrow> nat" where
  "big_endian bs = foldl (\<lambda>n b. n * 256 + unat b) 0 bs"

text \<open>The length a header announces and the header's own length; \<open>None\<close> asks for more bytes.\<close>

definition length16 :: "bytes \<Rightarrow> nat \<Rightarrow> nat \<Rightarrow> ws_error + (nat \<times> nat) option" where
  "length16 raw len header =
     (if len = 126 then
        (if length raw < 4 then Inr None
         else let n = big_endian (take 2 (drop 2 raw)) in
           if n < 126 then Inl WSNoncanonicalLength else Inr (Some (n, 4)))
      else Inr (Some (len, header)))"

definition length64 :: "bytes \<Rightarrow> nat \<Rightarrow> nat \<Rightarrow> ws_error + (nat \<times> nat) option" where
  "length64 raw len header =
     (if len = 127 then
        (if length raw < 10 then Inr None
         else let n = big_endian (take 8 (drop 2 raw)) in
           if n < 65536 \<or> n div 2 ^ 63 \<noteq> 0 then Inl WSInvalidLength else Inr (Some (n, 10)))
      else Inr (Some (len, header)))"

definition frameLength :: "webSocketFrameTunnel \<Rightarrow> bytes \<Rightarrow> bool \<Rightarrow> ws_error + nat" where
  "frameLength t raw client =
     (if length raw < 2 then Inr 0
      else let opcode = raw ! 0 AND 15 in
        if raw ! 0 AND 0x70 \<noteq> 0 \<or> (raw ! 1 AND 0x80 \<noteq> 0) \<noteq> client then Inl WSExtensionOrMask
        else if opcode \<noteq> 0 \<and> opcode \<noteq> 1 \<and> opcode \<noteq> 2 \<and> opcode \<noteq> 8 \<and> opcode \<noteq> 9 \<and> opcode \<noteq> 10 then Inl WSOpcode
        else case length16 raw (unat (raw ! 1 AND 127)) 2 of
            Inl e \<Rightarrow> Inl e
          | Inr None \<Rightarrow> Inr 0
          | Inr (Some (len1, header1)) \<Rightarrow>
              (case length64 raw len1 header1 of
                 Inl e \<Rightarrow> Inl e
               | Inr None \<Rightarrow> Inr 0
               | Inr (Some (len, header)) \<Rightarrow>
                   if int len > ws_limit t then Inl WSFrameLimit
                   else if opcode \<ge> 8 \<and> (len > 125 \<or> raw ! 0 AND 128 = 0) then Inl WSControlFrame
                   else Inr ((if client then header + 4 else header) + len)))"

subsection \<open>Frames and messages\<close>

definition direction :: "bool \<Rightarrow> webSocketFrameTunnel \<Rightarrow> webSocketMessage" where
  "direction client t = (if client then ws_incoming t else ws_outgoing t)"

definition set_direction :: "bool \<Rightarrow> webSocketMessage \<Rightarrow> webSocketFrameTunnel \<Rightarrow> webSocketFrameTunnel" where
  "set_direction client m t = (if client then t\<lparr>ws_incoming := m\<rparr> else t\<lparr>ws_outgoing := m\<rparr>)"

definition unmask :: "bytes \<Rightarrow> bytes \<Rightarrow> bytes" where
  "unmask key payload = map (\<lambda>(i, b). b XOR key ! (i mod 4)) (zip [0..<length payload] payload)"

definition header_length :: "bytes \<Rightarrow> nat" where
  "header_length raw = (let k = raw ! 1 AND 127 in if k = 126 then 4 else if k = 127 then 10 else 2)"

definition frame_payload :: "bytes \<Rightarrow> bool \<Rightarrow> bytes" where
  "frame_payload raw client =
     (let header = header_length raw in
      if client then unmask (take 4 (drop header raw)) (drop (header + 4) raw) else drop header raw)"

definition bytes_string :: "bytes \<Rightarrow> string" where
  "bytes_string bs = map (\<lambda>b. char_of (unat b)) bs"

definition close_error :: "bytes \<Rightarrow> ws_error option" where
  "close_error payload =
     (if length payload = 1 then Some WSClosePayload
      else if length payload \<ge> 2 then
        (let code = big_endian (take 2 payload) in
         if code < 1000 \<or> code \<ge> 5000 \<or> (code \<ge> 1016 \<and> code < 3000) \<or> code = 1004 \<or> code = 1005
            \<or> code = 1006 \<or> code = 1015 \<or> \<not> valid_utf8 (bytes_string (drop 2 payload))
         then Some WSCloseStatus else None)
      else None)"

definition count_frame :: "bytes \<Rightarrow> bool \<Rightarrow> webSocketFrameTunnel \<Rightarrow> webSocketFrameTunnel" where
  "count_frame raw client t =
     (if client then t\<lparr>ws_framesIn := ws_framesIn t + 1, ws_bytesIn := ws_bytesIn t + of_nat (length raw)\<rparr>
      else t\<lparr>ws_framesOut := ws_framesOut t + 1, ws_bytesOut := ws_bytesOut t + of_nat (length raw)\<rparr>)"

definition count_message :: "bool \<Rightarrow> webSocketFrameTunnel \<Rightarrow> webSocketFrameTunnel" where
  "count_message client t =
     (if client then t\<lparr>ws_messagesIn := ws_messagesIn t + 1\<rparr> else t\<lparr>ws_messagesOut := ws_messagesOut t + 1\<rparr>)"

text \<open>The per-second frame budget: the window restarts after a second.\<close>

definition tick_window :: "Prelude.time \<Rightarrow> webSocketMessage \<Rightarrow> webSocketMessage" where
  "tick_window now m =
     (let m' = (if time_sub now (wm_window m) \<ge> go_second then m\<lparr>wm_window := now, wm_frames := 0\<rparr> else m)
      in m'\<lparr>wm_frames := wm_frames m' + 1\<rparr>)"

definition process_data ::
    "inspector \<Rightarrow> Prelude.time \<Rightarrow> bytes \<Rightarrow> bytes \<Rightarrow> bool \<Rightarrow> webSocketFrameTunnel \<Rightarrow> (ws_error + bytes) \<times> webSocketFrameTunnel" where
  "process_data inspect now raw payload client t =
     (let opcode = raw ! 0 AND 15; fin = (raw ! 0 AND 128 \<noteq> 0); m = direction client t in
      if opcode = 0 \<and> wm_opcode m = 0 then (Inl WSContinuation, t)
      else if opcode \<noteq> 0 \<and> wm_opcode m \<noteq> 0 then (Inl WSInterleaved, t)
      else let m1 = (if opcode = 0 then m else m\<lparr>wm_opcode := opcode\<rparr>) in
        if int (length (wm_payload m1) + length payload) > ws_limit t \<or> wm_fragments m1 \<ge> 1024
        then (Inl WSMessageLimit, set_direction client m1 t)
        else let m2 = m1\<lparr>wm_fragments := wm_fragments m1 + 1, wm_payload := wm_payload m1 @ payload,
                         wm_wire := wm_wire m1 @ raw\<rparr>;
                 t2 = set_direction client m2 t in
          if \<not> fin then (Inr [], touch now t2)
          else if wm_opcode m2 = 1 \<and> \<not> valid_utf8 (bytes_string (wm_payload m2)) then (Inl WSTextEncoding, t2)
          else if (case inspect of None \<Rightarrow> False | Some ok \<Rightarrow> \<not> ok client (wm_opcode m2) (wm_payload m2))
          then (Inl WSRejected, t2)
          else (Inr (wm_wire m2),
                touch now (set_direction client
                  (m2\<lparr>wm_opcode := 0, wm_payload := [], wm_wire := [], wm_fragments := 0\<rparr>) (count_message client t2))))"

definition process ::
    "inspector \<Rightarrow> Prelude.time \<Rightarrow> bytes \<Rightarrow> bool \<Rightarrow> webSocketFrameTunnel \<Rightarrow> (ws_error + bytes) \<times> webSocketFrameTunnel" where
  "process inspect now raw client t0 =
     (let m = tick_window now (direction client t0);
          t = set_direction client m (count_frame raw client t0) in
      if wm_frames m > 256 then (Inl WSFrameRate, t)
      else if length raw < 2 \<or> length raw < header_length raw + (if client then 4 else 0) then (Inl WSPanic, t)
      else let opcode = raw ! 0 AND 15; payload = frame_payload raw client in
        if opcode \<ge> 8 then
          (case (if opcode = 8 then close_error payload else None) of
             Some e \<Rightarrow> (Inl e, t)
           | None \<Rightarrow> (Inr raw, touch now t))
        else process_data inspect now raw payload client t)"

subsection \<open>The two directions\<close>

text \<open>
  \<open>Write\<close> hands over what the client sent; frames that are complete are processed one by one.
  The argument \<open>wfail\<close> says which writes to the upstream fail and how many of their bytes were
  sent before; \<open>clock n\<close> is the clock reading taken
  for the frame after the first \<open>n\<close> of the direction, one per frame as in \<open>process\<close>.
\<close>

function write_loop ::
    "inspector \<Rightarrow> (bytes \<Rightarrow> nat option) \<Rightarrow> (u64 \<Rightarrow> Prelude.time) \<Rightarrow> bytes \<Rightarrow> webSocketFrameTunnel
       \<Rightarrow> ws_error option \<times> webSocketFrameTunnel" where
  "write_loop inspect wfail clock wb t =
     (if wb = [] then (None, t\<lparr>ws_writeBuffer := []\<rparr>)
      else case frameLength t wb True of
          Inl e \<Rightarrow> (Some e, ws_Close (t\<lparr>ws_writeBuffer := wb\<rparr>))
        | Inr len \<Rightarrow>
            if len = 0 \<or> length wb < len then (None, t\<lparr>ws_writeBuffer := wb\<rparr>)
            else case process inspect (clock (ws_framesIn t)) (take len wb) True t of
                (Inl e, t') \<Rightarrow> (Some e, ws_Close (t'\<lparr>ws_writeBuffer := wb\<rparr>))
              | (Inr ready, t') \<Rightarrow>
                  (case (if ready = [] then None else wfail ready) of
                     Some n \<Rightarrow> (Some WSWrite, t'\<lparr>ws_sent := ws_sent t' @ take n ready, ws_writeBuffer := wb\<rparr>)
                   | None \<Rightarrow> write_loop inspect wfail clock (drop len wb) (t'\<lparr>ws_sent := ws_sent t' @ ready\<rparr>)))"
  by pat_completeness auto
termination
  by (relation "measure (\<lambda>(_, _, _, wb, _). length wb)") auto

definition ws_Write ::
    "inspector \<Rightarrow> (bytes \<Rightarrow> nat option) \<Rightarrow> (u64 \<Rightarrow> Prelude.time) \<Rightarrow> bytes \<Rightarrow> webSocketFrameTunnel
       \<Rightarrow> (ws_error + nat) \<times> webSocketFrameTunnel" where
  "ws_Write inspect wfail clock src t =
     (case write_loop inspect wfail clock (ws_writeBuffer t @ src) t of
        (Some e, t') \<Rightarrow> (Inl e, t') | (None, t') \<Rightarrow> (Inr (length src), t'))"

text \<open>\<open>Read\<close> returns processed bytes of the upstream, fetching frames until some are ready.\<close>

function fetch_frames ::
    "inspector \<Rightarrow> (u64 \<Rightarrow> Prelude.time) \<Rightarrow> bytes \<Rightarrow> webSocketFrameTunnel \<Rightarrow> ws_error option \<times> webSocketFrameTunnel" where
  "fetch_frames inspect clock input t =
     (if ws_readBuffer t \<noteq> [] then (None, t\<lparr>ws_input := input\<rparr>)
      else if length input < 2 then (Some WSEOF, t\<lparr>ws_input := input\<rparr>)
      else let needed = header_length input in
        if length input < needed then (Some WSEOF, t\<lparr>ws_input := input\<rparr>)
        else case frameLength t (take needed input) False of
            Inl e \<Rightarrow> (Some e, ws_Close (t\<lparr>ws_input := input\<rparr>))
          | Inr len \<Rightarrow>
              if length input < len then (Some WSEOF, t\<lparr>ws_input := []\<rparr>)
              else (case process inspect (clock (ws_framesOut t)) (take len input) False t of
                (Inl e, t') \<Rightarrow>
                  (Some e, (if e = WSPanic then id else ws_Close)
                     (t'\<lparr>ws_input := drop len input, ws_readBuffer := []\<rparr>))
              | (Inr ready, t') \<Rightarrow>
                  if len = 0 then (Some WSPanic, t')
                  else fetch_frames inspect clock (drop len input) (t'\<lparr>ws_readBuffer := ready\<rparr>)))"
  by pat_completeness auto
termination
  by (relation "measure (\<lambda>(_, _, input, _). length input)") (auto split: if_splits)

definition ws_Read ::
    "inspector \<Rightarrow> (u64 \<Rightarrow> Prelude.time) \<Rightarrow> nat \<Rightarrow> webSocketFrameTunnel \<Rightarrow> (ws_error + bytes) \<times> webSocketFrameTunnel" where
  "ws_Read inspect clock dst t =
     (case fetch_frames inspect clock (ws_input t) t of
        (Some e, t') \<Rightarrow> (Inl e, t')
      | (None, t') \<Rightarrow> (Inr (take dst (ws_readBuffer t')), t'\<lparr>ws_readBuffer := drop dst (ws_readBuffer t')\<rparr>))"

declare write_loop.simps [simp del] fetch_frames.simps [simp del]

end
