(* ===== verification/WebSocket_Properties.thy ===== *)
theory WebSocket_Properties
  imports WebSocket
begin

text \<open>
  The WebSocket tunnel: a client frame with a canonical header is recognised whatever follows
  it, except one of 127 payload bytes, and cutting the stream differently changes nothing. What
  reaches the upstream is the subject of \<open>WebSocket_Forwarding\<close>.
\<close>

unbundle bit_operations_syntax

section \<open>Canonical frames\<close>

definition be_bytes_u8 :: "nat \<Rightarrow> nat \<Rightarrow> bytes" where
  "be_bytes_u8 k n = map (\<lambda>i. of_nat (n div 256 ^ (k - 1 - i))) [0..<k]"

text \<open>The frame a client sends: the shortest length field, the masking key and the masked payload.\<close>

definition client_frame :: "bool \<Rightarrow> u8 \<Rightarrow> bytes \<Rightarrow> bytes \<Rightarrow> bytes" where
  "client_frame fin op key payload =
     [(if fin then 128 else 0) OR op] @
     (let n = length payload in
      if n < 126 then [128 OR of_nat n]
      else if n < 65536 then (128 OR of_nat 126) # be_bytes_u8 2 n
      else (128 OR of_nat 127) # be_bytes_u8 8 n)
     @ key @ unmask key payload"

lemma low7: "k < 128 \<Longrightarrow> unat ((128 OR of_nat k :: u8) AND 127) = k"
proof -
  assume k: "k < 128"
  have "(128 OR of_nat k :: u8) AND 127 = of_nat k AND 127"
    by (simp add: bit.conj_disj_distrib2)
  also have "(127 :: u8) = mask 7" by (simp add: mask_eq_exp_minus_1)
  then have "(of_nat k :: u8) AND 127 = take_bit 7 (of_nat k)" by (simp add: take_bit_eq_mask)
  finally show ?thesis using k by (simp add: take_bit_of_nat take_bit_nat_eq_self unat_of_nat)
qed

lemma high1: "(128 OR x :: u8) AND 128 \<noteq> 0"
  by (simp add: bit.conj_disj_distrib2)

lemma byte_bound: "unat (x :: u8) < 256"
  using unsigned_less[of x] by simp

lemma big_endian_snoc: "big_endian (bs @ [b]) = big_endian bs * 256 + unat b"
  by (simp add: big_endian_def)

lemma be_bytes_Suc: "be_bytes_u8 (Suc k) n = be_bytes_u8 k (n div 256) @ [of_nat n]"
proof -
  have "map (\<lambda>i. of_nat (n div 256 ^ (k - i)) :: u8) [0..<k]
      = map (\<lambda>i. of_nat (n div 256 div 256 ^ (k - 1 - i))) [0..<k]"
  proof (rule map_cong[OF refl])
    fix i assume "i \<in> set [0..<k]"
    then have "k - i = Suc (k - 1 - i)" by auto
    then show "(of_nat (n div 256 ^ (k - i)) :: u8) = of_nat (n div 256 div 256 ^ (k - 1 - i))"
      by (simp add: div_mult2_eq)
  qed
  then show ?thesis by (simp add: be_bytes_u8_def)
qed

lemma big_endian_be_bytes: "n < 256 ^ k \<Longrightarrow> big_endian (be_bytes_u8 k n) = n"
proof (induction k arbitrary: n)
  case 0
  then show ?case by (simp add: be_bytes_u8_def big_endian_def)
next
  case (Suc k)
  then have "n div 256 < 256 ^ k" by (simp add: less_mult_imp_div_less mult.commute)
  then show ?case using Suc.IH[of "n div 256"]
    by (simp add: be_bytes_Suc big_endian_snoc unat_of_nat)
qed

lemma length_be_bytes_u8 [simp]: "length (be_bytes_u8 k n) = k"
  by (simp add: be_bytes_u8_def)

lemma length_unmask [simp]: "length (unmask key p) = length p"
  by (simp add: unmask_def)

lemma unmask_unmask: "unmask key (unmask key p) = p"
  by (rule nth_equalityI) (simp_all add: unmask_def xor.assoc)

definition ws_opcodes :: "u8 set" where
  "ws_opcodes = {0, 1, 2, 8, 9, 10}"

lemma opcode_bits:
  assumes "op \<in> ws_opcodes"
  shows "((if fin then 128 else 0) OR op) AND 15 = op" "((if fin then 128 else 0) OR op) AND 0x70 = 0"
    "((if fin then 128 else 0) OR op) AND 128 = (if fin then 128 else 0)"
  using assms by (auto simp: ws_opcodes_def)

definition header_fields :: "nat \<Rightarrow> bytes" where
  "header_fields n =
     (if n < 126 then [128 OR of_nat n]
      else if n < 65536 then (128 OR of_nat 126) # be_bytes_u8 2 n
      else (128 OR of_nat 127) # be_bytes_u8 8 n)"

lemma client_frame_parts:
  "client_frame fin op key payload = ((if fin then 128 else 0) OR op) # header_fields (length payload) @ key @ unmask key payload"
  by (simp add: client_frame_def header_fields_def Let_def)

text \<open>What the two length stages and the payload extraction see of a canonical header.\<close>

lemma header_lengths:
  fixes b0 :: u8 and rest :: bytes
  assumes "n \<le> 2 ^ 20" "n \<noteq> 127"
  defines "raw \<equiv> b0 # header_fields n @ rest"
  shows "raw ! 1 AND 0x80 \<noteq> 0"
    "\<exists>l1 h1. length16 raw (unat (raw ! 1 AND 127)) 2 = Inr (Some (l1, h1))
       \<and> length64 raw l1 h1 = Inr (Some (n, Suc (length (header_fields n))))"
    "header_length raw = Suc (length (header_fields n))"
proof -
  consider "n < 126" | "126 \<le> n" "n < 65536" | "65536 \<le> n" by linarith
  then have "raw ! 1 AND 0x80 \<noteq> 0
    \<and> (\<exists>l1 h1. length16 raw (unat (raw ! 1 AND 127)) 2 = Inr (Some (l1, h1))
       \<and> length64 raw l1 h1 = Inr (Some (n, Suc (length (header_fields n)))))
    \<and> header_length raw = Suc (length (header_fields n))"
  proof cases
    case 1
    have r: "raw ! 1 = 128 OR of_nat n" using 1 by (simp add: raw_def header_fields_def)
    have k: "unat (raw ! 1 AND 127) = n" unfolding r using low7[of n] 1 by simp
    then have "raw ! 1 AND 127 \<noteq> 126" "raw ! 1 AND 127 \<noteq> 127" using 1 by (auto simp: unat_arith_simps)
    then have "header_length raw = 2" by (simp add: header_length_def Let_def)
    then show ?thesis unfolding k using 1 high1[of "of_nat n"] r
      by (simp add: length16_def length64_def header_fields_def)
  next
    case 2
    have r: "raw ! 1 = 254" "take 2 (drop 2 raw) = be_bytes_u8 2 n" "4 \<le> length raw"
      using 2 by (simp_all add: raw_def header_fields_def)
    have n: "big_endian (be_bytes_u8 2 n) = n" using 2 by (intro big_endian_be_bytes) simp
    show ?thesis unfolding header_length_def length16_def length64_def r(1) using 2 r n assms(2)
      by (simp add: header_fields_def)
  next
    case 3
    have r: "raw ! 1 = 255" "take 8 (drop 2 raw) = be_bytes_u8 8 n" "10 \<le> length raw"
      using 3 by (simp_all add: raw_def header_fields_def)
    have n: "big_endian (be_bytes_u8 8 n) = n" using assms(1) by (intro big_endian_be_bytes) simp
    have "n div 2 ^ 63 = 0" using assms(1) by simp
    then show ?thesis unfolding header_length_def length16_def length64_def r(1) using 3 r n
      by (simp add: header_fields_def)
  qed
  then show "raw ! 1 AND 0x80 \<noteq> 0"
    "\<exists>l1 h1. length16 raw (unat (raw ! 1 AND 127)) 2 = Inr (Some (l1, h1))
       \<and> length64 raw l1 h1 = Inr (Some (n, Suc (length (header_fields n))))"
    "header_length raw = Suc (length (header_fields n))" by auto
qed

lemma client_frame_roundtrip_payload:
  assumes "length key = 4" "length payload \<le> 2 ^ 20" "length payload \<noteq> 127"
  shows "frame_payload (client_frame fin op key payload) True = payload"
proof -
  note h = header_lengths(3)[OF assms(2,3), of _ "key @ unmask key payload"]
  have parts: "take 4 (drop (Suc (length hs)) (b # hs @ key @ u)) = key"
      "drop (Suc (length hs) + 4) (b # hs @ key @ u) = u" for b :: u8 and hs u
    using assms(1) by (simp_all add: add.commute flip: assms(1))
  show ?thesis unfolding frame_payload_def client_frame_parts Let_def h parts by (simp add: unmask_unmask)
qed

text \<open>
  C30: a canonical client frame within the limit is recognised whatever bytes follow it: the
  tunnel computes exactly its length, and unmasking the frame yields the payload the client
  masked. The one payload length excluded is 127.
\<close>

theorem client_frame_roundtrip:
  assumes "op \<in> ws_opcodes" "length key = 4" "length payload \<noteq> 127"
    and "int (length payload) \<le> ws_limit t" "ws_limit t \<le> maxWebSocketMessage"
    and "8 \<le> op \<Longrightarrow> fin \<and> length payload \<le> 125"
  shows "frameLength t (client_frame fin op key payload @ rest) True
      = Inr (length (client_frame fin op key payload))
    \<and> frame_payload (client_frame fin op key payload) True = payload"
proof -
  let ?n = "length payload" and ?b = "(if fin then 128 else 0) OR op"
  have n: "?n \<le> 2 ^ 20" using assms(4,5) by (simp add: maxWebSocketMessage_def)
  let ?raw = "?b # header_fields ?n @ key @ unmask key payload @ rest"
  note h = header_lengths[OF n assms(3), of ?b]
  obtain l1 h1 where l: "length16 ?raw (unat (?raw ! 1 AND 127)) 2 = Inr (Some (l1, h1))"
    "length64 ?raw l1 h1 = Inr (Some (?n, Suc (length (header_fields ?n))))"
    using h(2)[of "key @ unmask key payload @ rest"] by blast
  have op: "op = 0 \<or> op = 1 \<or> op = 2 \<or> op = 8 \<or> op = 9 \<or> op = 10" using assms(1) by (auto simp: ws_opcodes_def)
  have "\<not> length ?raw < 2" by (simp add: header_fields_def)
  moreover have "\<not> (8 \<le> op \<and> (?n > 125 \<or> ?b AND 128 = 0))"
    using assms(6) opcode_bits(3)[OF assms(1), of fin] by auto
  ultimately have "frameLength t ?raw True = Inr (Suc (length (header_fields ?n)) + 4 + ?n)"
    using h(1) l op opcode_bits[OF assms(1), of fin] assms(4)
    unfolding frameLength_def Let_def by simp
  moreover have "frame_payload (client_frame fin op key payload) True = payload"
    by (rule client_frame_roundtrip_payload[OF assms(2) n assms(3)])
  ultimately show ?thesis using assms(2) by (simp add: client_frame_parts)
qed

text \<open>
  A payload of exactly 127 bytes is not recognised: its 16-bit length field is read again as a
  64-bit one. From a client the frame is refused as oversized; from the upstream the header is
  reported incomplete, a frame of no bytes is processed, and the access to its first byte panics.
\<close>

theorem frame_127_refused:
  assumes "ws_limit t \<le> maxWebSocketMessage" "length key = 4" "length payload = 127"
  shows "frameLength t (client_frame True 2 key payload) True = Inl WSFrameLimit"
proof -
  obtain k0 k1 k2 k3 where key: "key = [k0, k1, k2, k3]"
    using assms(2) by (auto simp: length_Suc_conv eval_nat_numeral)
  have be: "be_bytes_u8 2 127 = [0, 127]" by (simp add: be_bytes_u8_def upt_conv_Cons)
  let ?raw = "client_frame True 2 key payload"
  have raw: "?raw = 130 # 254 # 0 # 127 # key @ unmask key payload"
    using assms(3) be by (simp add: client_frame_def Let_def)
  have "length (unmask key payload) = 127" using assms(3) by simp
  then obtain p0 p1 ps where p: "unmask key payload = p0 # p1 # ps"
    by (cases "unmask key payload"; cases "tl (unmask key payload)") auto
  have len: "length ?raw \<ge> 10" unfolding raw using assms(2,3) by simp
  have sixteen: "length16 ?raw (unat (?raw ! 1 AND 127)) 2 = Inr (Some (127, 4))"
    using len unfolding raw by (simp add: length16_def big_endian_def)
  have t8: "take 8 (drop 2 ?raw) = [0, 127, k0, k1, k2, k3, p0, p1]" unfolding raw p unfolding key by simp
  have big: "35747322042253312 \<le> big_endian [0, 127, k0, k1, k2, k3, p0, p1]"
    "big_endian [0, 127, k0, k1, k2, k3, p0, p1] < 2 ^ 63"
    using byte_bound[of k0] byte_bound[of k1] byte_bound[of k2] byte_bound[of k3] byte_bound[of p0] byte_bound[of p1]
    by (simp_all add: big_endian_def)
  then have "length64 ?raw 127 4 = Inr (Some (big_endian [0, 127, k0, k1, k2, k3, p0, p1], 10))"
    using len unfolding length64_def t8 by (simp add: Let_def)
  moreover have "\<not> int (big_endian [0, 127, k0, k1, k2, k3, p0, p1]) \<le> ws_limit t"
    using big(1) assms(1) by (simp add: maxWebSocketMessage_def)
  moreover have "?raw ! 0 = 130" "?raw ! 1 = 254" unfolding raw by simp_all
  ultimately show ?thesis using sixteen len unfolding frameLength_def Let_def by simp
qed

theorem frame_127_panics:
  assumes "ws_limit t \<le> maxWebSocketMessage" "ws_readBuffer t = []" "ws_input t = 130 # 126 # 0 # 127 # rest"
    and "wm_frames (tick_window (clock (ws_framesOut t)) (ws_outgoing t)) \<le> 256"
  shows "fst (ws_Read inspect clock dst t) = Inl WSPanic"
proof -
  have h: "header_length (130 # 126 # 0 # 127 # rest) = 4" by (simp add: header_length_def)
  have "frameLength t [130, 126, 0, 127] False = Inr 0"
    by (simp add: frameLength_def length16_def length64_def big_endian_def Let_def)
  moreover have "fst (process inspect (clock (ws_framesOut t)) [] False t) = Inl WSPanic"
    using assms(4) by (simp add: process_def direction_def Let_def)
  ultimately have "fst (fetch_frames inspect clock (130 # 126 # 0 # 127 # rest) t) = Some WSPanic"
    using assms(2) h by (subst fetch_frames.simps) (auto simp: Let_def split: prod.split sum.split)
  then show ?thesis using assms(3)
    by (cases "fetch_frames inspect clock (130 # 126 # 0 # 127 # rest) t") (simp add: ws_Read_def)
qed

section \<open>Cutting the stream\<close>

lemma length16_append:
  "length16 raw len header = Inr (Some r) \<Longrightarrow> length16 (raw @ b) len header = Inr (Some r)"
  "length16 raw len header = Inl e \<Longrightarrow> length16 (raw @ b) len header = Inl e"
  by (auto simp: length16_def Let_def split: if_splits)

lemma length64_append:
  "length64 raw len header = Inr (Some r) \<Longrightarrow> length64 (raw @ b) len header = Inr (Some r)"
  "length64 raw len header = Inl e \<Longrightarrow> length64 (raw @ b) len header = Inl e"
  by (auto simp: length64_def Let_def split: if_splits)

text \<open>Once the header is decided, later bytes do not change what it announces.\<close>

definition length_stage ::
    "webSocketFrameTunnel \<Rightarrow> u8 \<Rightarrow> bool \<Rightarrow> ws_error + (nat \<times> nat) option
       \<Rightarrow> (nat \<Rightarrow> nat \<Rightarrow> ws_error + (nat \<times> nat) option) \<Rightarrow> ws_error + nat" where
  "length_stage t b0 client x y =
     (case x of
        Inl e \<Rightarrow> Inl e
      | Inr None \<Rightarrow> Inr 0
      | Inr (Some (l1, h1)) \<Rightarrow>
          (case y l1 h1 of
             Inl e \<Rightarrow> Inl e
           | Inr None \<Rightarrow> Inr 0
           | Inr (Some (len, header)) \<Rightarrow>
               if int len > ws_limit t then Inl WSFrameLimit
               else if b0 AND 15 \<ge> 8 \<and> (len > 125 \<or> b0 AND 128 = 0) then Inl WSControlFrame
               else Inr ((if client then header + 4 else header) + len)))"

definition header_error :: "u8 \<Rightarrow> u8 \<Rightarrow> bool \<Rightarrow> ws_error option" where
  "header_error b0 b1 client =
     (if b0 AND 0x70 \<noteq> 0 \<or> (b1 AND 0x80 \<noteq> 0) \<noteq> client then Some WSExtensionOrMask
      else if b0 AND 15 \<noteq> 0 \<and> b0 AND 15 \<noteq> 1 \<and> b0 AND 15 \<noteq> 2 \<and> b0 AND 15 \<noteq> 8 \<and> b0 AND 15 \<noteq> 9
        \<and> b0 AND 15 \<noteq> 10 then Some WSOpcode
      else None)"

lemma frameLength_stages:
  "\<not> length raw < 2 \<Longrightarrow> frameLength t raw client =
     (case header_error (raw ! 0) (raw ! 1) client of
        Some e \<Rightarrow> Inl e
      | None \<Rightarrow> length_stage t (raw ! 0) client (length16 raw (unat (raw ! 1 AND 127)) 2) (length64 raw))"
  unfolding frameLength_def Let_def header_error_def length_stage_def by auto

lemma frameLength_extend:
  "frameLength t raw client = Inr 0 \<or> frameLength t (raw @ b) client = frameLength t raw client"
proof (cases "length raw < 2")
  case True
  then show ?thesis by (simp add: frameLength_def)
next
  case False
  have nth: "(raw @ b) ! 0 = raw ! 0" "(raw @ b) ! 1 = raw ! 1"
    using False by (cases raw; cases "tl raw"; simp)+
  let ?x = "\<lambda>r. length16 r (unat (raw ! 1 AND 127)) 2" and ?y = "\<lambda>r. length64 r"
  have x: "?x raw = Inr None \<or> ?x (raw @ b) = ?x raw"
    by (cases "?x raw"; cases "projr (?x raw)") (auto simp: length16_append)
  have y: "?y raw l h = Inr None \<or> ?y (raw @ b) l h = ?y raw l h" for l h
    by (cases "?y raw l h"; cases "projr (?y raw l h)") (auto simp: length64_append)
  have "length_stage t (raw ! 0) client (?x raw) (?y raw) = Inr 0
      \<or> length_stage t (raw ! 0) client (?x (raw @ b)) (?y (raw @ b)) = length_stage t (raw ! 0) client (?x raw) (?y raw)"
  proof (cases "?x raw = Inr None")
    case True
    then show ?thesis by (simp add: length_stage_def)
  next
    case xs: False
    show ?thesis
    proof (cases "\<exists>l h. ?x raw = Inr (Some (l, h)) \<and> ?y raw l h = Inr None")
      case True
      then show ?thesis by (auto simp: length_stage_def)
    next
      case False
      then have "?x (raw @ b) = ?x raw" "\<And>l h. ?x raw = Inr (Some (l, h)) \<Longrightarrow> ?y (raw @ b) l h = ?y raw l h"
        using xs x y by blast+
      then show ?thesis unfolding length_stage_def by (cases "?x raw"; cases "projr (?x raw)") auto
    qed
  qed
  moreover have "\<not> length (raw @ b) < 2" using False by simp
  ultimately show ?thesis unfolding frameLength_stages[OF False] frameLength_stages[OF \<open>\<not> length (raw @ b) < 2\<close>] nth
    by (cases "header_error (raw ! 0) (raw ! 1) client") auto
qed

lemma frameLength_append:
  "frameLength t raw client = Inr (Suc n) \<Longrightarrow> frameLength t (raw @ b) client = Inr (Suc n)"
  using frameLength_extend[of t raw client b] by auto

lemma frameLength_limit: "ws_limit t' = ws_limit t \<Longrightarrow> frameLength t' raw client = frameLength t raw client"
  by (simp only: frameLength_def)

text \<open>Processing neither reads nor writes the write buffer and never changes the limit.\<close>

lemma direction_buffer [simp]: "direction c (t\<lparr>ws_writeBuffer := x\<rparr>) = direction c t"
  "set_direction c m (t\<lparr>ws_writeBuffer := x\<rparr>) = (set_direction c m t)\<lparr>ws_writeBuffer := x\<rparr>"
  "count_frame raw c (t\<lparr>ws_writeBuffer := x\<rparr>) = (count_frame raw c t)\<lparr>ws_writeBuffer := x\<rparr>"
  "count_message c (t\<lparr>ws_writeBuffer := x\<rparr>) = (count_message c t)\<lparr>ws_writeBuffer := x\<rparr>"
  "touch now (t\<lparr>ws_writeBuffer := x\<rparr>) = (touch now t)\<lparr>ws_writeBuffer := x\<rparr>"
  by (simp_all add: direction_def set_direction_def count_frame_def count_message_def touch_def)

lemma limit_kept [simp]: "ws_limit (set_direction c m t) = ws_limit t" "ws_limit (count_frame raw c t) = ws_limit t"
  "ws_limit (count_message c t) = ws_limit t" "ws_limit (touch now t) = ws_limit t"
  by (simp_all add: set_direction_def count_frame_def count_message_def touch_def)

lemma process_buffer:
  "process inspect now raw client (t\<lparr>ws_writeBuffer := x\<rparr>)
   = (let (r, t') = process inspect now raw client t in (r, t'\<lparr>ws_writeBuffer := x\<rparr>))"
  by (simp add: process_def process_data_def Let_def split: option.split)

lemma process_limit: "process inspect now raw client t = (r, t') \<Longrightarrow> ws_limit t' = ws_limit t"
  by (auto simp: process_def process_data_def Let_def split: if_splits option.splits)

text \<open>The loop stops when no whole frame is buffered, and otherwise takes one frame.\<close>

definition whole_frame :: "webSocketFrameTunnel \<Rightarrow> bytes \<Rightarrow> nat \<Rightarrow> bool" where
  "whole_frame t wb len \<longleftrightarrow> wb \<noteq> [] \<and> frameLength t wb True = Inr len \<and> \<not> (len = 0 \<or> length wb < len)"

lemma write_loop_stop:
  assumes "\<nexists>len. whole_frame t wb len"
  shows "write_loop inspect wfail clock wb t =
    (case frameLength t wb True of
       Inl e \<Rightarrow> (Some e, ws_Close (t\<lparr>ws_writeBuffer := wb\<rparr>))
     | Inr _ \<Rightarrow> (None, t\<lparr>ws_writeBuffer := wb\<rparr>))"
proof (cases "wb = []")
  case True
  then show ?thesis by (subst write_loop.simps) (simp add: frameLength_def)
next
  case False
  then show ?thesis using assms by (subst write_loop.simps) (auto simp: whole_frame_def split: sum.split)
qed

lemma write_loop_frame:
  assumes "whole_frame t wb len" "process inspect (clock (ws_framesIn t)) (take len wb) True t = (r, t')"
  shows "write_loop inspect wfail clock wb t =
    (case r of
       Inl e \<Rightarrow> (Some e, ws_Close (t'\<lparr>ws_writeBuffer := wb\<rparr>))
     | Inr ready \<Rightarrow>
         (case (if ready = [] then None else wfail ready) of
            Some n \<Rightarrow> (Some WSWrite, t'\<lparr>ws_sent := ws_sent t' @ take n ready, ws_writeBuffer := wb\<rparr>)
          | None \<Rightarrow> write_loop inspect wfail clock (drop len wb) (t'\<lparr>ws_sent := ws_sent t' @ ready\<rparr>)))"
  using assms by (subst write_loop.simps) (simp add: whole_frame_def split: sum.split)

lemma whole_frame_limit: "ws_limit t' = ws_limit t \<Longrightarrow> whole_frame t' wb len = whole_frame t wb len"
  using frameLength_limit[of t' t] by (simp add: whole_frame_def)

lemma write_loop_buffer: "write_loop inspect wfail clock wb (t\<lparr>ws_writeBuffer := x\<rparr>) = write_loop inspect wfail clock wb t"
proof (induction wb arbitrary: t rule: measure_induct_rule[where f = length])
  case (less wb)
  let ?t = "t\<lparr>ws_writeBuffer := x\<rparr>"
  have wf: "whole_frame ?t wb len = whole_frame t wb len" for len by (rule whole_frame_limit) simp
  show ?case
  proof (cases "\<exists>len. whole_frame t wb len")
    case False
    moreover have "frameLength ?t wb True = frameLength t wb True" by (rule frameLength_limit) simp
    ultimately show ?thesis using write_loop_stop[of t wb] write_loop_stop[of ?t wb] wf
      by (simp add: ws_Close_def split: sum.split)
  next
    case True
    then obtain len where len: "whole_frame t wb len" by blast
    obtain r t' where p: "process inspect (clock (ws_framesIn t)) (take len wb) True t = (r, t')" by fastforce
    have q: "process inspect (clock (ws_framesIn ?t)) (take len wb) True ?t = (r, t'\<lparr>ws_writeBuffer := x\<rparr>)"
      using p by (simp add: process_buffer)
    have "length (drop len wb) < length wb" using len by (auto simp: whole_frame_def)
    note ih = less.IH[OF this]
    have "write_loop inspect wfail clock (drop len wb)
          (t'\<lparr>ws_writeBuffer := x, ws_sent := ws_sent (t'\<lparr>ws_writeBuffer := x\<rparr>) @ ready\<rparr>)
        = write_loop inspect wfail clock (drop len wb) (t'\<lparr>ws_sent := ws_sent t' @ ready\<rparr>)" for ready
      using ih[of "t'\<lparr>ws_sent := ws_sent t' @ ready\<rparr>"] by (cases t') simp
    note step = this
    show ?thesis unfolding write_loop_frame[where clock = clock, OF len p] write_loop_frame[where clock = clock, OF len[folded wf] q] step
      by (cases t') (simp split: sum.split option.split)
  qed
qed

lemma write_loop_split:
  assumes "write_loop inspect wfail clock wb t = (None, t1)"
  shows "write_loop inspect wfail clock (ws_writeBuffer t1 @ b) t1 = write_loop inspect wfail clock (wb @ b) t"
  using assms
proof (induction wb arbitrary: t rule: measure_induct_rule[where f = length])
  case (less wb)
  show ?case
  proof (cases "\<exists>len. whole_frame t wb len")
    case False
    then have "t1 = t\<lparr>ws_writeBuffer := wb\<rparr>"
      using less.prems write_loop_stop[of t wb] by (auto split: sum.splits)
    then show ?thesis by (simp add: write_loop_buffer)
  next
    case True
    then obtain len where len: "whole_frame t wb len" by blast
    obtain r t' where p: "process inspect (clock (ws_framesIn t)) (take len wb) True t = (r, t')" by fastforce
    obtain ready where r: "r = Inr ready" "(if ready = [] then None else wfail ready) = None"
      "write_loop inspect wfail clock (drop len wb) (t'\<lparr>ws_sent := ws_sent t' @ ready\<rparr>) = (None, t1)"
      using less.prems unfolding write_loop_frame[where clock = clock, OF len p] by (auto split: sum.splits option.splits)
    have "frameLength t (wb @ b) True = Inr len"
      using frameLength_append[of t wb True "len - 1" b] len by (simp add: whole_frame_def)
    then have "whole_frame t (wb @ b) len" using len by (auto simp: whole_frame_def)
    moreover have "process inspect (clock (ws_framesIn t)) (take len (wb @ b)) True t = (Inr ready, t')"
      using p r(1) len by (auto simp: whole_frame_def)
    ultimately have "write_loop inspect wfail clock (wb @ b) t
        = write_loop inspect wfail clock (drop len wb @ b) (t'\<lparr>ws_sent := ws_sent t' @ ready\<rparr>)"
      using write_loop_frame[of t "wb @ b" len inspect clock "Inr ready" t' wfail] r(2) len
      by (auto simp: whole_frame_def)
    moreover have "length (drop len wb) < length wb" using len by (auto simp: whole_frame_def)
    ultimately show ?thesis using less.IH[OF _ r(3)] by simp
  qed
qed

text \<open>
  Where the client's bytes are cut into writes does not matter: after a successful write, a
  further one leaves the tunnel in the very state (bytes forwarded, counters, buffers,
  verdict) that writing both at once leaves.
\<close>

theorem write_cut_anywhere:
  assumes "ws_Write inspect wfail clock a t = (Inr n, t1)"
  shows "snd (ws_Write inspect wfail clock b t1) = snd (ws_Write inspect wfail clock (a @ b) t)
    \<and> (\<forall>e. fst (ws_Write inspect wfail clock b t1) = Inl e \<longleftrightarrow> fst (ws_Write inspect wfail clock (a @ b) t) = Inl e)"
proof -
  have "write_loop inspect wfail clock (ws_writeBuffer t @ a) t = (None, t1)"
    using assms by (auto simp: ws_Write_def split: prod.splits option.splits)
  from write_loop_split[OF this, of b] show ?thesis
    by (auto simp: ws_Write_def split: prod.split option.split)
qed

section \<open>Witnesses\<close>

definition sample_key :: bytes where "sample_key = [1, 2, 3, 4]"

definition sample_payload :: bytes where "sample_payload = [104, 105]"

definition sample_tunnel :: webSocketFrameTunnel where
  "sample_tunnel = newWebSocketFrameTunnel 1 [] 1024"

theorem client_frame_roundtrip_witness:
  "frameLength sample_tunnel (client_frame True 1 sample_key sample_payload @ [7]) True = Inr 8
   \<and> frame_payload (client_frame True 1 sample_key sample_payload) True = sample_payload"
proof -
  have "frameLength sample_tunnel (client_frame True 1 sample_key sample_payload @ [7]) True
      = Inr (length (client_frame True 1 sample_key sample_payload))
    \<and> frame_payload (client_frame True 1 sample_key sample_payload) True = sample_payload"
    by (rule client_frame_roundtrip)
      (simp_all add: ws_opcodes_def sample_key_def sample_payload_def sample_tunnel_def newWebSocketFrameTunnel_def
        maxWebSocketMessage_def)
  moreover have "length (client_frame True 1 sample_key sample_payload) = 8"
    by (simp add: client_frame_def sample_key_def sample_payload_def)
  ultimately show ?thesis by simp
qed

theorem write_cut_anywhere_witness:
  "let f = client_frame True 1 sample_key sample_payload; w = ws_Write None (\<lambda>_. None) (\<lambda>_. 5) in
   snd (w (drop 3 f) (snd (w (take 3 f) sample_tunnel))) = snd (w f sample_tunnel)"
proof -
  let ?f = "client_frame True 1 sample_key sample_payload" and ?w = "ws_Write None (\<lambda>_. None) (\<lambda>_. 5)"
  have "(case fst (?w (take 3 ?f) sample_tunnel) of Inl _ \<Rightarrow> False | Inr _ \<Rightarrow> True)" by code_simp
  then obtain n t1 where "?w (take 3 ?f) sample_tunnel = (Inr n, t1)"
    by (cases "?w (take 3 ?f) sample_tunnel") (auto split: sum.splits)
  from write_cut_anywhere[OF this, of "drop 3 ?f"] this show ?thesis by (simp add: Let_def)
qed

end
