(* ===== verification/WebSocket_Forwarding.thy ===== *)
theory WebSocket_Forwarding
  imports WebSocket_Properties
begin

text \<open>
  What the tunnel sends to the upstream, said on frames instead of bytes: the client's bytes
  are a sequence of canonical frames, control frames pass at once, data frames are held until
  their message ends, and every unit that passes obeys the protocol's rules and the inspection.
\<close>

unbundle bit_operations_syntax

section \<open>Only canonical frames are recognised\<close>

text \<open>A client frame before encoding.\<close>

datatype cframe = CFrame (cf_fin: bool) (cf_op: u8) (cf_key: bytes) (cf_payload: bytes)

definition enc :: "cframe \<Rightarrow> bytes" where
  "enc f = client_frame (cf_fin f) (cf_op f) (cf_key f) (cf_payload f)"

definition frame_ok :: "int \<Rightarrow> cframe \<Rightarrow> bool" where
  "frame_ok limit f \<longleftrightarrow> cf_op f \<in> ws_opcodes \<and> length (cf_key f) = 4
     \<and> int (length (cf_payload f)) \<le> limit \<and> length (cf_payload f) \<noteq> 127
     \<and> (8 \<le> cf_op f \<longrightarrow> cf_fin f \<and> length (cf_payload f) \<le> 125)"

lemma and_high_bit: "(x :: u8) AND 128 = (if x AND 128 = 0 then 0 else 128)"
proof -
  have "x AND 2 ^ 7 = (if bit x 7 then 2 ^ 7 else 0)"
    by (rule bit_word_eqI) (auto simp: bit_and_iff bit_exp_iff simp del: power_numeral_even power_numeral_odd power_numeral)
  then show ?thesis by simp
qed

lemma byte_split: "(x :: u8) = (x AND 128) OR (x AND 0x70) OR (x AND 15)" "(x :: u8) = (x AND 128) OR (x AND 127)"
proof -
  have ones: "(- 1 :: u8) = 128 OR 0x70 OR 15" "(- 1 :: u8) = 128 OR 127" by simp_all
  have "x = x AND - 1" by simp
  then show "x = (x AND 128) OR (x AND 0x70) OR (x AND 15)" unfolding ones(1) bit.conj_disj_distrib .
  have "x = x AND - 1" by simp
  then show "x = (x AND 128) OR (x AND 127)" unfolding ones(2) bit.conj_disj_distrib .
qed

lemma first_byte:
  assumes "(b :: u8) AND 0x70 = 0"
  shows "b = (if b AND 128 \<noteq> 0 then 128 else 0) OR (b AND 15)"
  using byte_split(1)[of b] and_high_bit[of b] assms by (auto split: if_splits)

lemma second_byte:
  assumes "(b :: u8) AND 0x80 \<noteq> 0"
  shows "b = 128 OR of_nat (unat (b AND 127))"
  using byte_split(2)[of b] and_high_bit[of b] assms by simp

lemma be_bytes_big_endian: "length bs = k \<Longrightarrow> be_bytes_u8 k (big_endian bs) = bs"
proof (induction bs arbitrary: k rule: rev_induct)
  case (snoc b bs)
  then obtain j where k: "k = Suc j" "length bs = j" by (cases k) auto
  have "(big_endian bs * 256 + unat b) div 256 = big_endian bs" using byte_bound[of b] by simp
  moreover have "(of_nat (big_endian bs * 256 + unat b) :: u8) = b"
  proof -
    have "(256 :: u8) = 0" by code_simp
    then show ?thesis by (simp only: of_nat_add of_nat_mult of_nat_numeral mult_zero_right add_0) simp
  qed
  ultimately show ?case using snoc.IH[OF k(2)] by (simp add: k(1) be_bytes_Suc big_endian_snoc)
qed (simp add: be_bytes_u8_def)

lemma big_endian_append: "big_endian (bs @ cs) = big_endian bs * 256 ^ length cs + big_endian cs"
proof (induction cs rule: rev_induct)
  case (snoc c cs)
  have "big_endian (bs @ cs @ [c]) = big_endian (bs @ cs) * 256 + unat c"
    using big_endian_snoc[of "bs @ cs" c] by simp
  then show ?case using snoc by (simp add: big_endian_snoc algebra_simps)
qed (simp add: big_endian_def)

text \<open>The three canonical length fields, and nothing else, get through the two length stages.\<close>

lemma length_stages_canonical:
  assumes "ws_limit t \<le> maxWebSocketMessage"
    and "length16 (b0 # b1 # rest) (unat (b1 AND 127)) 2 = Inr (Some (l1, h1))"
    and "length64 (b0 # b1 # rest) l1 h1 = Inr (Some (n, h))" "int n \<le> ws_limit t"
    and "b1 AND 0x80 \<noteq> 0"
  shows "b1 # take (h - 2) rest = header_fields n" "h = Suc (length (header_fields n))" "n \<noteq> 127"
    "h \<le> length rest + 2"
proof -
  have lim: "n \<le> 1048576" using assms(1,4) by (simp add: maxWebSocketMessage_def)
  let ?k = "unat (b1 AND 127)"
  have b1: "b1 = 128 OR of_nat ?k" using assms(5) by (rule second_byte)
  have "b1 AND 127 \<le> 127" by (rule word_and_le1)
  then have "?k \<le> 127" by (simp add: word_le_nat_alt)
  then consider (short) "?k < 126" | (mid) "?k = 126" | (long) "?k = 127" by linarith
  then have "b1 # take (h - 2) rest = header_fields n \<and> h = Suc (length (header_fields n)) \<and> n \<noteq> 127
      \<and> h \<le> length rest + 2"
  proof cases
    case short
    then have "n = ?k" "h = 2" using assms(2,3) by (auto simp: length16_def length64_def)
    then show ?thesis using short b1 by (simp add: header_fields_def)
  next
    case mid
    let ?m = "big_endian (take 2 rest)"
    have len: "2 \<le> length rest" "126 \<le> ?m" "l1 = ?m" "h1 = 4"
      using assms(2) mid by (auto simp: length16_def Let_def split: if_splits)
    have "?m \<noteq> 127"
    proof
      assume m: "?m = 127"
      then have eight: "8 \<le> length rest" "n = big_endian (take 8 rest)"
        using assms(3) len(3,4) by (auto simp: length64_def Let_def split: if_splits)
      have "take 8 rest = take 2 rest @ take 6 (drop 2 rest)" 
        using take_add[of 2 6 rest] by simp
      then have "127 * 256 ^ 6 \<le> n" using eight m by (simp add: big_endian_append)
      then show False using lim by simp
    qed
    then have "n = ?m" "h = 4" using assms(3) len(3,4) by (auto simp: length64_def)
    moreover have "?m < 65536"
      using byte_bound[of "rest ! 0"] byte_bound[of "rest ! 1"] len(1)
      by (cases rest; cases "tl rest") (auto simp: big_endian_def)
    moreover have "be_bytes_u8 2 ?m = take 2 rest" using len(1) by (intro be_bytes_big_endian) simp
    ultimately show ?thesis using b1 mid len(1,2) \<open>?m \<noteq> 127\<close> by (simp add: header_fields_def)
  next
    case long
    then have "l1 = 127" "h1 = 2" using assms(2) by (auto simp: length16_def)
    then have e: "8 \<le> length rest" "n = big_endian (take 8 rest)" "65536 \<le> n" "h = 10"
      using assms(3) by (auto simp: length64_def Let_def split: if_splits)
    moreover have "be_bytes_u8 8 n = take 8 rest" unfolding e(2) using e(1) by (intro be_bytes_big_endian) simp
    ultimately show ?thesis using b1 long by (simp add: header_fields_def)
  qed
  then show "b1 # take (h - 2) rest = header_fields n" "h = Suc (length (header_fields n))" "n \<noteq> 127"
    "h \<le> length rest + 2" by auto
qed

lemma frameLength_canonical:
  assumes lim: "ws_limit t \<le> maxWebSocketMessage"
    and fl: "frameLength t wb True = Inr len" "len \<noteq> 0" "len \<le> length wb"
  obtains f where "take len wb = enc f" "frame_ok (ws_limit t) f"
proof -
  have two: "\<not> length wb < 2" using fl by (auto simp: frameLength_def)
  then obtain b0 b1 rest where wb: "wb = b0 # b1 # rest" by (cases wb; cases "tl wb") auto
  have he: "header_error b0 b1 True = None"
    using fl(1) unfolding frameLength_stages[OF two] by (auto simp: wb split: option.splits)
  then have bits: "b0 AND 0x70 = 0" "b1 AND 0x80 \<noteq> 0" "b0 AND 15 \<in> ws_opcodes"
    by (auto simp: header_error_def ws_opcodes_def split: if_splits)
  have st: "length_stage t b0 True (length16 wb (unat (b1 AND 127)) 2) (length64 wb) = Inr len"
    using fl(1) he unfolding frameLength_stages[OF two] by (simp add: wb)
  then obtain l1 h1 n h where s: "length16 wb (unat (b1 AND 127)) 2 = Inr (Some (l1, h1))"
      "length64 wb l1 h1 = Inr (Some (n, h))" "int n \<le> ws_limit t"
      "\<not> (b0 AND 15 \<ge> 8 \<and> (n > 125 \<or> b0 AND 128 = 0))" "len = h + 4 + n"
    using fl(2) by (auto simp: length_stage_def split: sum.splits option.splits if_splits)
  note c = length_stages_canonical[OF lim s(1)[unfolded wb] s(2)[unfolded wb] s(3) bits(2)]
  let ?key = "take 4 (drop (h - 2) rest)" and ?body = "take n (drop (h + 2) rest)"
  have h2: "2 \<le> h" unfolding c(2) by (simp add: header_fields_def)
  have room: "h - 2 + 4 + n \<le> length rest" using fl(3) s(5) h2 by (simp add: wb)
  have "h - 2 + 4 = h + 2" using h2 by simp
  then have "take (h - 2 + 4 + n) rest = take (h - 2) rest @ ?key @ ?body"
    using take_add[of "h - 2 + 4" n rest] take_add[of "h - 2" 4 rest] by simp
  moreover have "len = Suc (Suc (h - 2 + 4 + n))" using h2 s(5) by simp
  ultimately have tk: "take len wb = b0 # b1 # take (h - 2) rest @ ?key @ ?body"
    by (simp only: wb take_Suc_Cons)
  let ?f = "CFrame (b0 AND 128 \<noteq> 0) (b0 AND 15) ?key (unmask ?key ?body)"
  have lens: "length ?key = 4" "length ?body = n" using room h2 by simp_all
  have "take len wb = enc ?f"
    unfolding tk enc_def client_frame_parts using first_byte[OF bits(1)] c(1) lens
    by (simp add: unmask_unmask)
  moreover have "frame_ok (ws_limit t) ?f"
    using bits(3) lens s(3,4) c(3) by (auto simp: frame_ok_def)
  ultimately show thesis using that by blast
qed

section \<open>Units\<close>

definition wire :: "cframe list \<Rightarrow> bytes" where
  "wire fs = concat (map enc fs)"

definition payloads :: "cframe list \<Rightarrow> bytes" where
  "payloads fs = concat (map cf_payload fs)"

text \<open>
  The order of sending: a control frame goes out alone and at once, the frames of a message go
  out together when its last one has come. The second component is what is held back.
\<close>

fun route_step :: "cframe list list \<times> cframe list \<Rightarrow> cframe \<Rightarrow> cframe list list \<times> cframe list" where
  "route_step (units, held) f =
     (if 8 \<le> cf_op f then (units @ [[f]], held)
      else if cf_fin f then (units @ [held @ [f]], []) else (units, held @ [f]))"

definition route :: "cframe list \<Rightarrow> cframe list list \<times> cframe list" where
  "route fs = foldl route_step ([], []) fs"

text \<open>The close codes an endpoint may send: RFC 6455, section 7.4, and the registry's ranges.\<close>

definition legal_close :: "bytes \<Rightarrow> bool" where
  "legal_close p \<longleftrightarrow> p = [] \<or> (\<exists>hi lo reason. p = hi # lo # reason
     \<and> 256 * unat hi + unat lo \<in> {1000..1003} \<union> {1007..1014} \<union> {3000..4999}
     \<and> valid_utf8 (bytes_string reason))"

definition control_unit :: "cframe list \<Rightarrow> bool" where
  "control_unit u \<longleftrightarrow> (\<exists>f. u = [f] \<and> cf_op f \<in> {8, 9, 10} \<and> cf_fin f
     \<and> length (cf_payload f) \<le> 125 \<and> (cf_op f = 8 \<longrightarrow> legal_close (cf_payload f)))"

definition message_unit :: "inspector \<Rightarrow> int \<Rightarrow> cframe list \<Rightarrow> bool" where
  "message_unit inspect limit u \<longleftrightarrow> (\<exists>op\<in>{1, 2}. u \<noteq> [] \<and> length u \<le> 1024
     \<and> map cf_op u = op # replicate (length u - 1) 0
     \<and> map cf_fin u = replicate (length u - 1) False @ [True]
     \<and> int (length (payloads u)) \<le> limit
     \<and> (op = 1 \<longrightarrow> valid_utf8 (bytes_string (payloads u)))
     \<and> (case inspect of None \<Rightarrow> True | Some ok \<Rightarrow> ok True op (payloads u)))"

definition accepted :: "inspector \<Rightarrow> int \<Rightarrow> cframe list \<Rightarrow> bool" where
  "accepted inspect limit u \<longleftrightarrow> list_all (frame_ok limit) u
     \<and> (control_unit u \<or> message_unit inspect limit u)"

text \<open>What the tunnel holds of the message under way.\<close>

definition holding :: "int \<Rightarrow> webSocketMessage \<Rightarrow> cframe list \<Rightarrow> bool" where
  "holding limit m held \<longleftrightarrow> wm_wire m = wire held \<and> wm_payload m = payloads held
     \<and> wm_fragments m = int (length held) \<and> length held \<le> 1024 \<and> int (length (payloads held)) \<le> limit
     \<and> list_all (frame_ok limit) held \<and> map cf_fin held = replicate (length held) False
     \<and> (if held = [] then wm_opcode m = 0
        else wm_opcode m \<in> {1, 2} \<and> map cf_op held = wm_opcode m # replicate (length held - 1) 0)"

lemma wire_simps [simp]: "wire [] = []" "wire (fs @ gs) = wire fs @ wire gs" "wire [f] = enc f"
  "payloads [] = []" "payloads (fs @ gs) = payloads fs @ payloads gs" "payloads [f] = cf_payload f"
  by (simp_all add: wire_def payloads_def)

lemma enc_not_Nil [simp]: "enc f \<noteq> []"
  by (simp add: enc_def client_frame_parts)

lemma enc_facts:
  assumes "frame_ok limit f" "limit \<le> maxWebSocketMessage"
  shows "enc f ! 0 AND 15 = cf_op f" "enc f ! 0 AND 128 \<noteq> 0 \<longleftrightarrow> cf_fin f"
    "frame_payload (enc f) True = cf_payload f"
    "\<not> (length (enc f) < 2 \<or> length (enc f) < header_length (enc f) + 4)"
proof -
  let ?n = "length (cf_payload f)" and ?b = "(if cf_fin f then 128 else 0) OR cf_op f"
  have op: "cf_op f \<in> ws_opcodes" and key: "length (cf_key f) = 4" and n: "?n \<noteq> 127" "int ?n \<le> limit"
    using assms(1) by (auto simp: frame_ok_def)
  have n': "?n \<le> 2 ^ 20" using n(2) assms(2) by (simp add: maxWebSocketMessage_def)
  show "enc f ! 0 AND 15 = cf_op f" "enc f ! 0 AND 128 \<noteq> 0 \<longleftrightarrow> cf_fin f"
    using opcode_bits[OF op, of "cf_fin f"] by (simp_all add: enc_def client_frame_parts)
  show "frame_payload (enc f) True = cf_payload f"
    unfolding enc_def by (rule client_frame_roundtrip_payload[OF key n' n(1)])
  have "header_length (enc f) = Suc (length (header_fields ?n))"
    unfolding enc_def client_frame_parts by (rule header_lengths(3)[OF n' n(1)])
  then show "\<not> (length (enc f) < 2 \<or> length (enc f) < header_length (enc f) + 4)"
    using key by (simp add: enc_def client_frame_parts header_fields_def)
qed

lemma legal_close_error: "close_error p = None \<longleftrightarrow> legal_close p"
proof -
  consider "p = []" | b where "p = [b]" | hi lo reason where "p = hi # lo # reason"
    by (metis list.exhaust)
  then show ?thesis
  proof cases
    case (3 hi lo reason)
    have "(close_error p = None) = (256 * unat hi + unat lo \<in> {1000..1003} \<union> {1007..1014} \<union> {3000..4999}
        \<and> valid_utf8 (bytes_string reason))"
      using 3 by (auto simp: close_error_def big_endian_def Let_def)
    then show ?thesis using 3 by (simp add: legal_close_def)
  qed (simp_all add: close_error_def legal_close_def)
qed

lemma direction_set [simp]: "direction c (set_direction c m t) = m" "direction c (touch now t) = direction c t"
  "direction c (count_frame raw c t) = direction c t" "direction c (count_message c t) = direction c t"
  by (simp_all add: direction_def set_direction_def touch_def count_frame_def count_message_def)

lemma sent_kept [simp]: "ws_sent (set_direction c m t) = ws_sent t" "ws_sent (touch now t) = ws_sent t"
  "ws_sent (count_frame raw c t) = ws_sent t" "ws_sent (count_message c t) = ws_sent t"
  by (simp_all add: set_direction_def touch_def count_frame_def count_message_def)

lemma process_sent: "process inspect now raw client t = (r, t') \<Longrightarrow> ws_sent t' = ws_sent t"
  by (auto simp: process_def process_data_def Let_def split: if_splits option.splits)

lemma holding_tick: "holding limit (tick_window now m) held = holding limit m held"
  by (simp add: holding_def tick_window_def Let_def)

lemma holding_snoc:
  assumes "holding limit m held" "frame_ok limit f" "\<not> 8 \<le> cf_op f"
    and "cf_op f = 0 \<longleftrightarrow> wm_opcode m \<noteq> 0" "op = (if cf_op f = 0 then wm_opcode m else cf_op f)"
  shows "op \<in> {1, 2}" "map cf_op (held @ [f]) = op # replicate (length held) 0"
    "list_all (frame_ok limit) (held @ [f])"
proof -
  have f: "cf_op f = 0 \<or> cf_op f = 1 \<or> cf_op f = 2"
    using assms(2,3) by (auto simp: frame_ok_def ws_opcodes_def)
  have "op \<in> {1, 2} \<and> map cf_op (held @ [f]) = op # replicate (length held) 0"
  proof (cases "held = []")
    case True
    then show ?thesis using assms(1,4,5) f by (auto simp: holding_def)
  next
    case False
    then have h: "wm_opcode m \<in> {1, 2}" "map cf_op held = wm_opcode m # replicate (length held - 1) 0"
      using assms(1) by (auto simp: holding_def)
    then have "cf_op f = 0" "op = wm_opcode m" using assms(4,5) by auto
    moreover have "replicate (length held - 1) 0 @ [0] = replicate (length held) (0 :: u8)"
      using False by (cases "length held") (auto simp: replicate_append_same)
    ultimately show ?thesis using h by simp
  qed
  then show "op \<in> {1, 2}" "map cf_op (held @ [f]) = op # replicate (length held) 0" by auto
  show "list_all (frame_ok limit) (held @ [f])" using assms(1,2) by (simp add: holding_def)
qed

lemma process_data_client:
  assumes hold: "holding (ws_limit t) (direction True t) held"
    and f: "frame_ok (ws_limit t) f" "\<not> 8 \<le> cf_op f" and lim: "ws_limit t \<le> maxWebSocketMessage"
    and p: "process_data inspect now (enc f) (cf_payload f) True t = (Inr ready, t')"
  shows "if cf_fin f
    then ready = wire (held @ [f]) \<and> message_unit inspect (ws_limit t) (held @ [f])
      \<and> holding (ws_limit t) (direction True t') []
    else ready = [] \<and> holding (ws_limit t) (direction True t') (held @ [f])"
proof -
  let ?m = "direction True t" and ?op = "cf_op f"
  let ?o = "if ?op = 0 then wm_opcode ?m else ?op"
  note e = enc_facts[OF f(1) lim]
  have ops: "?op = 0 \<longleftrightarrow> wm_opcode ?m \<noteq> 0"
    and room: "int (length (wm_payload ?m) + length (cf_payload f)) \<le> ws_limit t" "wm_fragments ?m < 1024"
    using p by (auto simp: process_data_def Let_def e(1,2) split: if_splits)
  have h: "wm_wire ?m = wire held" "wm_payload ?m = payloads held" "wm_fragments ?m = int (length held)"
    "map cf_fin held = replicate (length held) False"
    using hold by (simp_all add: holding_def)
  note snoc = holding_snoc[OF hold f ops refl]
  show ?thesis
  proof (cases "cf_fin f")
    case False
    then have r: "ready = []" "wm_wire (direction True t') = wire (held @ [f])"
        "wm_payload (direction True t') = payloads (held @ [f])" "wm_opcode (direction True t') = ?o"
        "wm_fragments (direction True t') = int (length (held @ [f]))"
      using p ops room h(1-3) by (auto simp: process_data_def Let_def e(1,2) split: if_splits)
    have "map cf_fin (held @ [f]) = replicate (length (held @ [f])) False"
      using h(4) False by (simp add: replicate_append_same)
    moreover have "length (held @ [f]) \<le> 1024" using room(2) h(3) by simp
    moreover have "int (length (payloads (held @ [f]))) \<le> ws_limit t" using room(1) h(2) by simp
    ultimately have "holding (ws_limit t) (direction True t') (held @ [f])"
      unfolding holding_def r(2-5) using snoc by auto
    then show ?thesis using r(1) False by simp
  next
    case True
    have r: "ready = wire (held @ [f])"
        "?o = 1 \<longrightarrow> valid_utf8 (bytes_string (payloads (held @ [f])))"
        "case inspect of None \<Rightarrow> True | Some ok \<Rightarrow> ok True ?o (payloads (held @ [f]))"
        "wm_opcode (direction True t') = 0" "wm_payload (direction True t') = []"
        "wm_wire (direction True t') = []" "wm_fragments (direction True t') = 0"
      using p ops room True h(1,2)
      by (auto simp: process_data_def Let_def e(1,2) split: if_splits option.splits)
    have "message_unit inspect (ws_limit t) (held @ [f])"
      unfolding message_unit_def
    proof (rule bexI[OF _ snoc(1)], intro conjI)
      show "map cf_op (held @ [f]) = ?o # replicate (length (held @ [f]) - 1) 0" using snoc(2) by simp
      show "map cf_fin (held @ [f]) = replicate (length (held @ [f]) - 1) False @ [True]"
        using h(4) True by simp
      show "length (held @ [f]) \<le> 1024" using room(2) h(3) by simp
      show "int (length (payloads (held @ [f]))) \<le> ws_limit t" using room(1) h(2) by simp
    qed (use r(2,3) in auto)
    moreover have "0 \<le> ws_limit t" using room(1) by linarith
    then have "holding (ws_limit t) (direction True t') []" using r(4-7) by (simp add: holding_def)
    ultimately show ?thesis using r(1) True by simp
  qed
qed

lemma control_opcode: "op \<in> ws_opcodes \<Longrightarrow> 8 \<le> op \<Longrightarrow> op \<in> {8, 9, 10}"
proof -
  assume op: "op \<in> ws_opcodes" "8 \<le> op"
  have "\<not> (8 :: u8) \<le> 0" "\<not> (8 :: u8) \<le> 1" "\<not> (8 :: u8) \<le> 2" by code_simp+
  then show ?thesis using op unfolding ws_opcodes_def by fastforce
qed

lemma process_client:
  assumes hold: "holding (ws_limit t) (ws_incoming t) held"
    and f: "frame_ok (ws_limit t) f" and lim: "ws_limit t \<le> maxWebSocketMessage"
    and p: "process inspect now (enc f) True t = (Inr ready, t')"
    and route: "route_step (units, held) f = (units', held')"
  shows "holding (ws_limit t') (ws_incoming t') held'
    \<and> (units' = units \<and> ready = []
       \<or> (\<exists>u. units' = units @ [u] \<and> ready = wire u \<and> accepted inspect (ws_limit t) u))"
proof -
  note e = enc_facts[OF f lim]
  let ?m = "tick_window now (direction True t)"
  let ?t = "set_direction True ?m (count_frame (enc f) True t)"
  have b: "holding (ws_limit ?t) (direction True ?t) held"
    using hold by (simp add: holding_tick) (simp add: direction_def)
  have l: "ws_limit t' = ws_limit t" using process_limit[OF p] .
  show ?thesis
  proof (cases "8 \<le> cf_op f")
    case True
    have "ready = enc f" "t' = touch now ?t" "cf_op f = 8 \<longrightarrow> close_error (cf_payload f) = None"
      using p True e by (auto simp: process_def Let_def split: if_splits option.splits)
    moreover have "control_unit [f]"
      using f control_opcode[OF _ True] calculation(3) True
      by (auto simp: control_unit_def frame_ok_def legal_close_error)
    moreover have "ws_incoming t' = direction True t'" by (simp add: direction_def)
    ultimately show ?thesis using route True b f l by (auto simp: accepted_def)
  next
    case False
    then have "process_data inspect now (enc f) (cf_payload f) True ?t = (Inr ready, t')"
      using p e by (auto simp: process_def Let_def split: if_splits)
    moreover have "ws_limit ?t = ws_limit t" by simp
    ultimately have "if cf_fin f
      then ready = wire (held @ [f]) \<and> message_unit inspect (ws_limit t) (held @ [f])
        \<and> holding (ws_limit t) (direction True t') []
      else ready = [] \<and> holding (ws_limit t) (direction True t') (held @ [f])"
      using process_data_client[of ?t held f inspect now ready t'] b f False lim by metis
    moreover have "list_all (frame_ok (ws_limit t)) (held @ [f])" using hold f by (simp add: holding_def)
    moreover have "ws_incoming t' = direction True t'" by (simp add: direction_def)
    ultimately show ?thesis using route False l by (cases "cf_fin f") (auto simp: accepted_def)
  qed
qed

section \<open>Whole connections\<close>

text \<open>
  The tunnel after it has taken \<open>consumed\<close> from the client without an error, and what may be
  said of the bytes sent when the client has written \<open>written\<close>: they are the wire form of the
  units of a sequence of frames the client wrote, up to a last unit whose write failed.
\<close>

definition ingested :: "inspector \<Rightarrow> int \<Rightarrow> bytes \<Rightarrow> webSocketFrameTunnel \<Rightarrow> bool" where
  "ingested inspect limit consumed t \<longleftrightarrow> ws_limit t = limit
     \<and> (\<exists>fs. consumed = wire fs \<and> list_all (frame_ok limit) fs
          \<and> holding limit (ws_incoming t) (snd (route fs))
          \<and> ws_sent t = concat (map wire (fst (route fs)))
          \<and> list_all (accepted inspect limit) (fst (route fs)))"

definition forwarded :: "inspector \<Rightarrow> int \<Rightarrow> bool \<Rightarrow> bytes \<Rightarrow> bytes \<Rightarrow> bool" where
  "forwarded inspect limit broken written sent \<longleftrightarrow> (\<exists>fs rest. written = wire fs @ rest
     \<and> list_all (frame_ok limit) fs \<and> list_all (accepted inspect limit) (fst (route fs))
     \<and> (sent = concat (map wire (fst (route fs)))
        \<or> broken \<and> (\<exists>units u n. fst (route fs) = units @ [u]
             \<and> sent = concat (map wire units) @ take n (wire u))))"

lemma route_snoc: "route (fs @ [f]) = route_step (route fs) f"
  by (simp add: route_def)

lemma ingested_forwarded:
  assumes "ingested inspect limit consumed t" "ws_sent t' = ws_sent t"
  shows "forwarded inspect limit broken (consumed @ later) (ws_sent t')"
  using assms unfolding ingested_def forwarded_def by auto

lemma ingested_frame:
  assumes ing: "ingested inspect limit consumed t" and lim: "limit \<le> maxWebSocketMessage"
    and f: "frame_ok limit f" and p: "process inspect now (enc f) True t = (Inr ready, t')"
  shows "ingested inspect limit (consumed @ enc f) (t'\<lparr>ws_sent := ws_sent t' @ ready\<rparr>)"
    "ready \<noteq> [] \<Longrightarrow> forwarded inspect limit True (consumed @ enc f @ later) (ws_sent t' @ take n ready)"
proof -
  obtain fs where fs: "consumed = wire fs" "list_all (frame_ok limit) fs"
      "holding limit (ws_incoming t) (snd (route fs))" "ws_sent t = concat (map wire (fst (route fs)))"
      "list_all (accepted inspect limit) (fst (route fs))" "ws_limit t = limit"
    using ing by (auto simp: ingested_def)
  obtain units held where r: "route fs = (units, held)" by fastforce
  obtain units' held' where r': "route (fs @ [f]) = (units', held')" by fastforce
  then have "route_step (units, held) f = (units', held')" by (simp add: route_snoc r)
  from process_client[OF _ _ _ p this] fs(3,6) f lim r
  have out: "holding (ws_limit t') (ws_incoming t') held'"
    "units' = units \<and> ready = [] \<or> (\<exists>u. units' = units @ [u] \<and> ready = wire u \<and> accepted inspect limit u)"
    by auto
  have t': "ws_limit t' = limit" "ws_sent t' = concat (map wire units)"
    using process_limit[OF p] process_sent[OF p] fs(4,6) r by auto
  have ok: "consumed @ enc f = wire (fs @ [f])" "list_all (frame_ok limit) (fs @ [f])"
    "list_all (accepted inspect limit) units'"
    using fs(1,2,5) f out(2) r by auto
  show "ingested inspect limit (consumed @ enc f) (t'\<lparr>ws_sent := ws_sent t' @ ready\<rparr>)"
    unfolding ingested_def
    by (intro conjI exI[of _ "fs @ [f]"]) (use ok r' t' out in auto)
  assume "ready \<noteq> []"
  then obtain u where u: "units' = units @ [u]" "ready = wire u" using out(2) by auto
  then have "\<exists>us v k. fst (route (fs @ [f])) = us @ [v]
      \<and> ws_sent t' @ take n ready = concat (map wire us) @ take k (wire v)"
    using r' t'(2) by auto
  moreover have "consumed @ enc f @ later = wire (fs @ [f]) @ later" using ok(1) by simp
  moreover have "list_all (accepted inspect limit) (fst (route (fs @ [f])))" using ok(3) r' by simp
  ultimately show "forwarded inspect limit True (consumed @ enc f @ later) (ws_sent t' @ take n ready)"
    unfolding forwarded_def using ok(2) by blast
qed

lemma forwarded_broken: "forwarded inspect limit b written sent \<Longrightarrow> b \<longrightarrow> b' \<Longrightarrow> forwarded inspect limit b' written sent"
  unfolding forwarded_def by blast

lemma write_loop_forwards:
  assumes "ingested inspect limit consumed t" "limit \<le> maxWebSocketMessage"
    and "write_loop inspect wfail clock wb t = (e, t')"
  shows "forwarded inspect limit (\<exists>u. wfail u \<noteq> None) (consumed @ wb) (ws_sent t')
    \<and> (e = None \<longrightarrow> (\<exists>taken. ingested inspect limit taken t' \<and> taken @ ws_writeBuffer t' = consumed @ wb
         \<and> (\<nexists>len. whole_frame t' (ws_writeBuffer t') len)))"
  using assms
proof (induction wb arbitrary: t consumed rule: measure_induct_rule[where f = length])
  case (less wb)
  have lim: "ws_limit t = limit" using less.prems(1) by (simp add: ingested_def)
  show ?case
  proof (cases "\<exists>len. whole_frame t wb len")
    case False
    then have res: "ws_sent t' = ws_sent t" "e = None \<longrightarrow> t' = t\<lparr>ws_writeBuffer := wb\<rparr>"
      using less.prems(3) write_loop_stop[of t wb] by (auto simp: ws_Close_def split: sum.splits)
    moreover have "ingested inspect limit consumed (t\<lparr>ws_writeBuffer := wb\<rparr>)"
      using less.prems(1) by (simp add: ingested_def)
    moreover have "\<nexists>len. whole_frame (t\<lparr>ws_writeBuffer := wb\<rparr>) wb len"
      using False whole_frame_limit[of "t\<lparr>ws_writeBuffer := wb\<rparr>" t] by simp
    ultimately show ?thesis using ingested_forwarded[OF less.prems(1) res(1)] by auto
  next
    case True
    then obtain len where len: "whole_frame t wb len" by blast
    then have fl: "frameLength t wb True = Inr len" "len \<noteq> 0" "len \<le> length wb" by (auto simp: whole_frame_def)
    obtain f where f: "take len wb = enc f" "frame_ok limit f"
      using frameLength_canonical[OF _ fl] less.prems(2) lim by auto
    have wb: "wb = enc f @ drop len wb" using f(1) append_take_drop_id[of len wb] by simp
    obtain r t1 where p: "process inspect (clock (ws_framesIn t)) (take len wb) True t = (r, t1)" by fastforce
    note res = less.prems(3)[unfolded write_loop_frame[where clock = clock, OF len p]]
    show ?thesis
    proof (cases r)
      case (Inl err)
      then have "ws_sent t' = ws_sent t" "e \<noteq> None"
        using res process_sent[OF p] by (auto simp: ws_Close_def)
      moreover have "forwarded inspect limit (\<exists>u. wfail u \<noteq> None) (consumed @ wb) (ws_sent t')"
        using calculation(1) by (rule ingested_forwarded[OF less.prems(1)])
      ultimately show ?thesis by blast
    next
      case (Inr ready)
      note step = ingested_frame[OF less.prems(1,2) f(2) p[unfolded f(1) Inr]]
      show ?thesis
      proof (cases "if ready = [] then None else wfail ready")
        case None
        then have go: "write_loop inspect wfail clock (drop len wb) (t1\<lparr>ws_sent := ws_sent t1 @ ready\<rparr>) = (e, t')"
          using res Inr by simp
        have "length (drop len wb) < length wb" using fl by simp
        from less.IH[OF this step(1) less.prems(2) go] show ?thesis using wb by simp
      next
        case (Some n)
        then have "ready \<noteq> []" "wfail ready = Some n" by (auto split: if_splits)
        moreover have "ws_sent t' = ws_sent t1 @ take n ready" "e \<noteq> None" using res Inr Some by auto
        moreover have "forwarded inspect limit True (consumed @ wb) (ws_sent t1 @ take n ready)"
          using step(2)[of "drop len wb" n] wb calculation(1) by simp
        then have "forwarded inspect limit (\<exists>u. wfail u \<noteq> None) (consumed @ wb) (ws_sent t1 @ take n ready)"
          by (rule forwarded_broken) (use calculation(2) in blast)
        ultimately show ?thesis by auto
      qed
    qed
  qed
qed

text \<open>
  A connection: the client's writes one after the other, each with its clock and its outcome of
  writing to the upstream; the first error ends it.
\<close>

type_synonym client_write = "(u64 \<Rightarrow> Prelude.time) \<times> (bytes \<Rightarrow> nat option) \<times> bytes"

fun ws_writes ::
    "inspector \<Rightarrow> client_write list \<Rightarrow> webSocketFrameTunnel \<Rightarrow> ws_error option \<times> webSocketFrameTunnel" where
  "ws_writes inspect [] t = (None, t)"
| "ws_writes inspect ((clock, wfail, src) # ws) t =
     (case ws_Write inspect wfail clock src t of
        (Inl e, t') \<Rightarrow> (Some e, t') | (Inr n, t') \<Rightarrow> ws_writes inspect ws t')"

definition written :: "client_write list \<Rightarrow> bytes" where
  "written ws = concat (map (\<lambda>(clock, wfail, src). src) ws)"

definition some_write_fails :: "client_write list \<Rightarrow> bool" where
  "some_write_fails ws \<longleftrightarrow> (\<exists>(clock, wfail, src)\<in>set ws. \<exists>u. wfail u \<noteq> None)"

lemma forwarded_more: "forwarded inspect limit b w sent \<Longrightarrow> forwarded inspect limit b (w @ later) sent"
  unfolding forwarded_def by (metis append.assoc)

definition settled :: "inspector \<Rightarrow> int \<Rightarrow> bytes \<Rightarrow> webSocketFrameTunnel \<Rightarrow> bool" where
  "settled inspect limit received t \<longleftrightarrow> (\<exists>taken. ingested inspect limit taken t
     \<and> taken @ ws_writeBuffer t = received \<and> (\<nexists>len. whole_frame t (ws_writeBuffer t) len))"

lemma ws_writes_forwards:
  assumes "settled inspect limit received t" "limit \<le> maxWebSocketMessage"
    and "ws_writes inspect ws t = (e, t')"
  shows "forwarded inspect limit (some_write_fails ws) (received @ written ws) (ws_sent t')
    \<and> (e = None \<longrightarrow> settled inspect limit (received @ written ws) t')"
  using assms(1,3)
proof (induction ws arbitrary: t received)
  case Nil
  then obtain taken where "ingested inspect limit taken t" "taken @ ws_writeBuffer t = received"
    by (auto simp: settled_def)
  then show ?case using Nil ingested_forwarded[of inspect limit taken t t _ "ws_writeBuffer t"]
    by (simp add: written_def)
next
  case (Cons w ws)
  obtain clock wfail src where w: "w = (clock, wfail, src)" by (cases w)
  obtain taken where taken: "ingested inspect limit taken t" "taken @ ws_writeBuffer t = received"
    using Cons.prems(1) by (auto simp: settled_def)
  obtain e1 t1 where l: "write_loop inspect wfail clock (ws_writeBuffer t @ src) t = (e1, t1)" by fastforce
  have sp: "forwarded inspect limit (\<exists>u. wfail u \<noteq> None) (received @ src) (ws_sent t1)"
    "e1 = None \<longrightarrow> settled inspect limit (received @ src) t1"
    using write_loop_forwards[OF taken(1) assms(2) l] taken(2) by (auto simp: settled_def)
  have wr: "received @ written (w # ws) = (received @ src) @ written ws" by (simp add: w written_def)
  show ?case
  proof (cases e1)
    case None
    then have "ws_writes inspect ws t1 = (e, t')" using Cons.prems(2) l w by (simp add: ws_Write_def)
    then have ih: "forwarded inspect limit (some_write_fails ws) ((received @ src) @ written ws) (ws_sent t')"
      "e = None \<longrightarrow> settled inspect limit ((received @ src) @ written ws) t'"
      using Cons.IH sp(2) None by blast+
    show ?thesis unfolding wr
      by (intro conjI forwarded_broken[OF ih(1)] ih(2)) (auto simp: w some_write_fails_def)
  next
    case (Some err)
    then have "t' = t1" "e \<noteq> None" using Cons.prems(2) l w by (auto simp: ws_Write_def)
    moreover have "forwarded inspect limit (some_write_fails (w # ws)) (received @ written (w # ws)) (ws_sent t1)"
      unfolding wr by (intro forwarded_more forwarded_broken[OF sp(1)]) (auto simp: w some_write_fails_def)
    ultimately show ?thesis by blast
  qed
qed

text \<open>
  C31: whatever a client writes, and however it is cut into writes, the bytes that reach the
  upstream are determined by a sequence of canonical frames (reserved bits clear, a known
  opcode, masked, the shortest length field, within the limit, a payload length other than 127)
  that the client's bytes begin with: control frames are sent at once and alone, and are final,
  of at most 125 bytes and with a legal close code; data frames are sent when their message has
  ended, as one unit of at most 1024 frames, the first a text or binary frame and the rest
  continuations, only the last of them final, whose joined payload is within the limit, is valid
  UTF-8 in a text message, and was accepted by the inspection. Nothing else is sent; if a write
  to the upstream fails, what was sent ends with a prefix of the unit it failed on. Where no
  write returned an error, every unit of the client's bytes was sent: what they hold after these
  frames does not begin with another canonical one.
\<close>

theorem forwards_only_inspected:
  assumes "ws_writes inspect ws (newWebSocketFrameTunnel now input bound) = (e, t)"
  shows "\<exists>fs rest. written ws = wire fs @ rest
    \<and> list_all (frame_ok (ws_limit (newWebSocketFrameTunnel now input bound))) fs
    \<and> list_all (accepted inspect (ws_limit (newWebSocketFrameTunnel now input bound))) (fst (route fs))
    \<and> (ws_sent t = concat (map wire (fst (route fs)))
         \<and> (e = None \<longrightarrow> (\<nexists>f later. frame_ok (ws_limit t) f \<and> rest = enc f @ later))
       \<or> some_write_fails ws \<and> e \<noteq> None \<and> (\<exists>units u n. fst (route fs) = units @ [u]
            \<and> ws_sent t = concat (map wire units) @ take n (wire u)))"
proof -
  let ?t0 = "newWebSocketFrameTunnel now input bound"
  have lim: "ws_limit ?t0 \<le> maxWebSocketMessage" by (simp add: newWebSocketFrameTunnel_def)
  have "ingested inspect (ws_limit ?t0) [] ?t0"
    unfolding ingested_def
    by (intro conjI exI[of _ "[]"])
       (simp_all add: newWebSocketFrameTunnel_def empty_message_def route_def holding_def maxWebSocketMessage_def)
  then have "settled inspect (ws_limit ?t0) [] ?t0"
    by (simp add: settled_def whole_frame_def) (simp add: newWebSocketFrameTunnel_def)
  from ws_writes_forwards[OF this lim assms]
  have out: "forwarded inspect (ws_limit ?t0) (some_write_fails ws) (written ws) (ws_sent t)"
    "e = None \<longrightarrow> settled inspect (ws_limit ?t0) (written ws) t" by auto
  show ?thesis
  proof (cases e)
    case (Some err)
    then show ?thesis using out(1) unfolding forwarded_def by blast
  next
    case None
    then obtain taken where taken: "ingested inspect (ws_limit ?t0) taken t"
        "taken @ ws_writeBuffer t = written ws" "\<nexists>len. whole_frame t (ws_writeBuffer t) len"
      using out(2) unfolding settled_def by blast
    then obtain fs where fs: "written ws = wire fs @ ws_writeBuffer t" "list_all (frame_ok (ws_limit ?t0)) fs"
        "ws_sent t = concat (map wire (fst (route fs)))" "ws_limit t = ws_limit ?t0"
        "list_all (accepted inspect (ws_limit ?t0)) (fst (route fs))"
      unfolding ingested_def by metis
    have "ws_writeBuffer t \<noteq> enc f @ later" if f: "frame_ok (ws_limit t) f" for f later
    proof
      assume buf: "ws_writeBuffer t = enc f @ later"
      have "frameLength t (enc f @ later) True = Inr (length (enc f))"
        unfolding enc_def using f lim fs(4)
        by (intro client_frame_roundtrip[THEN conjunct1]) (auto simp: frame_ok_def)
      then show False using taken(3) buf by (auto simp: whole_frame_def)
    qed
    then show ?thesis using fs by blast
  qed
qed

text \<open>
  A ping between the two halves of a text message: the ping is sent first, the message after it
  in one piece.
\<close>

definition demo_frames :: "cframe list" where
  "demo_frames = [CFrame False 1 [1, 2, 3, 4] [104], CFrame True 9 [0, 0, 0, 0] [],
     CFrame True 0 [5, 6, 7, 8] [105]]"

theorem forwards_only_inspected_witness:
  "\<exists>fs rest. wire demo_frames = wire fs @ rest
     \<and> list_all (accepted None 1024) (fst (route fs))
     \<and> ws_sent (snd (ws_writes None [(\<lambda>_. 5, \<lambda>_. None, wire demo_frames)] (newWebSocketFrameTunnel 1 [] 1024)))
         = concat (map wire (fst (route fs)))"
proof -
  let ?ws = "[(\<lambda>_. 5, \<lambda>_. None, wire demo_frames)] :: client_write list"
  let ?t = "newWebSocketFrameTunnel 1 [] 1024"
  have ok: "fst (ws_writes None ?ws ?t) = None" by code_simp
  have w: "written ?ws = wire demo_frames" "ws_limit ?t = 1024" "\<not> some_write_fails ?ws"
    by (simp_all add: written_def newWebSocketFrameTunnel_def maxWebSocketMessage_def some_write_fails_def)
  have "ws_writes None ?ws ?t = (fst (ws_writes None ?ws ?t), snd (ws_writes None ?ws ?t))" by simp
  from forwards_only_inspected[OF this] show ?thesis unfolding w(1,2) using w(3) by blast
qed

end
