(* ===== verification/Traffic_Properties.thy ===== *)
theory Traffic_Properties
  imports Traffic "HOL-Library.Multiset"
begin

text \<open>
  The traffic scheduler: a request is never sent to a peer with an open circuit, an open circuit
  whose interval has passed admits at most one probe per interval, round robin and its weighted form
  serve the peers in exact proportion, and the circuit map stays bounded.
\<close>

section \<open>Open circuits\<close>

definition blocked :: "Prelude.time \<Rightarrow> string \<Rightarrow> Scheduler \<Rightarrow> bool" where
  "blocked now node s = (case sc_circuits s node of None \<Rightarrow> False | Some st \<Rightarrow> circuit_skips now s st)"

lemma ensureAdvanced_fields [simp]:
  "sc_circuits (ensureAdvanced s) = sc_circuits s" "sc_rr (ensureAdvanced s) = sc_rr s"
  "sc_inflight (ensureAdvanced s) = sc_inflight s" "0 < sc_circuitOpenFor (ensureAdvanced s)"
  "0 < sc_pressureLimit (ensureAdvanced s)" "0 < sc_circuitFailures (ensureAdvanced s)"
  by (simp_all add: ensureAdvanced_def defaultCircuitOpenFor_def defaultPressureLimit_def
      defaultCircuitFailures_def go_units)

lemma ensureAdvanced_id:
  "0 < sc_circuitOpenFor s \<Longrightarrow> 0 < sc_pressureLimit s \<Longrightarrow> 0 < sc_circuitFailures s \<Longrightarrow> ensureAdvanced s = s"
  by (simp add: ensureAdvanced_def)

lemma reserve_probe_fields [simp]:
  "sc_circuitOpenFor (reserve_probe now node s) = sc_circuitOpenFor s"
  "sc_inflight (reserve_probe now node s) = sc_inflight s" "sc_rr (reserve_probe now node s) = sc_rr s"
  "sc_pressureLimit (reserve_probe now node s) = sc_pressureLimit s"
  "sc_circuitFailures (reserve_probe now node s) = sc_circuitFailures s"
  by (simp_all add: reserve_probe_def split: option.split)

lemma time_sub_self [simp]: "time_sub t t = 0"
  by (simp add: time_sub_def min_duration_def max_duration_def)

text \<open>Reserving a probe blocks the node at that moment, and never unblocks another.\<close>

lemma blocked_reserve:
  assumes "0 < sc_circuitOpenFor s" "now \<noteq> 0" "blocked now m s"
  shows "blocked now m (reserve_probe now node s)"
  using assms by (auto simp: blocked_def reserve_probe_def circuit_skips_def split: option.splits)

lemma filter_loop_spec:
  assumes "0 < sc_circuitOpenFor s" "now \<noteq> 0" "filter_loop now ps s = (out, s')"
  shows "(\<forall>p\<in>set out. \<not> blocked now (pe_NodeID p) s
      \<and> (\<exists>q\<in>set ps. pe_NodeID p = pe_NodeID q \<and> pe_AdvertiseAddr p = pe_AdvertiseAddr q \<and> pe_Region p = pe_Region q))
    \<and> (\<forall>m. blocked now m s \<longrightarrow> blocked now m s')"
  using assms
proof (induction ps arbitrary: s out)
  case (Cons p ps)
  show ?case
  proof (cases "blocked now (pe_NodeID p) s")
    case True
    then have "filter_loop now ps s = (out, s')" using Cons.prems(3) by (simp add: blocked_def)
    from Cons.IH[OF Cons.prems(1,2) this] show ?thesis by auto
  next
    case False
    let ?s = "reserve_probe now (pe_NodeID p) s"
    obtain out1 where r: "filter_loop now ps ?s = (out1, s')" "out = p\<lparr>pe_Weight := pressure_weight ?s p\<rparr> # out1"
      using Cons.prems(3) False by (auto simp: blocked_def Let_def split: prod.splits)
    have ih: "\<forall>q\<in>set out1. \<not> blocked now (pe_NodeID q) ?s
        \<and> (\<exists>x\<in>set ps. pe_NodeID q = pe_NodeID x \<and> pe_AdvertiseAddr q = pe_AdvertiseAddr x \<and> pe_Region q = pe_Region x)"
      "\<forall>m. blocked now m ?s \<longrightarrow> blocked now m s'"
      using Cons.IH[OF _ Cons.prems(2) r(1)] Cons.prems(1) by auto
    have mono: "blocked now m ?s" if "blocked now m s" for m
      using blocked_reserve[OF Cons.prems(1,2) that] .
    have "\<forall>q\<in>set out1. \<not> blocked now (pe_NodeID q) s" using ih(1) mono by blast
    then show ?thesis using ih mono False r(2) by (fastforce simp del: filter_loop.simps)
  qed
qed simp

lemma pickIPHash_mem: "ps \<noteq> [] \<Longrightarrow> pickIPHash ps ip \<in> set ps"
  by (simp add: pickIPHash_def Let_def split: option.split)

lemma pickRoundRobin_mem: "ps \<noteq> [] \<Longrightarrow> fst (pickRoundRobin ps s) \<in> set ps"
  by (auto simp: pickRoundRobin_def Let_def intro!: nth_mem) (simp_all add: nat_less_iff)

lemma expand_weights_set: "set (expand_weights ps) = set ps"
  by (auto simp: expand_weights_def)

lemma expand_weights_Nil [simp]: "expand_weights ps = [] \<longleftrightarrow> ps = []"
  using expand_weights_set[of ps] by (metis set_empty)

text \<open>The least loaded peer, the smaller identifier first among equals.\<close>

lemma pickLeastConn_min:
  assumes "ps \<noteq> []"
  shows "pickLeastConn s ps \<in> set ps \<and> (\<forall>q\<in>set ps. load_of s (pickLeastConn s ps) \<le> load_of s q)"
proof -
  define f where "f = (\<lambda>best p. if load_of s p < load_of s best
        \<or> (load_of s p = load_of s best \<and> map byte (pe_NodeID p) < map byte (pe_NodeID best)) then p else best)"
  have f: "f b q = b \<or> f b q = q" "load_of s (f b q) \<le> load_of s b" "load_of s (f b q) \<le> load_of s q" for b q
    by (auto simp: f_def)
  have "foldl f b qs \<in> insert b (set qs) \<and> (\<forall>q\<in>insert b (set qs). load_of s (foldl f b qs) \<le> load_of s q)" for b qs
  proof (induction qs arbitrary: b)
    case (Cons q qs)
    have "foldl f (f b q) qs \<in> insert b (set (q # qs))" using Cons.IH[of "f b q"] f(1)[of b q] by auto
    moreover have "load_of s (foldl f (f b q) qs) \<le> load_of s (f b q)"
      "\<forall>x\<in>set qs. load_of s (foldl f (f b q) qs) \<le> load_of s x" using Cons.IH[of "f b q"] by auto
    ultimately show ?case using f(2,3)[of b q] by (auto intro: order_trans)
  qed simp
  from this[of "hd ps" "tl ps"] show ?thesis
    using assms unfolding pickLeastConn_def f_def[symmetric] by (metis list.collapse list.simps(15))
qed

lemma Pick_cases:
  assumes "ps \<noteq> []"
  shows "(\<exists>x\<in>set ps. Pick equalFold mode ps ip region s = (Some x, s))
    \<or> (\<exists>qs. qs \<noteq> [] \<and> set qs = set ps \<and> Pick equalFold mode ps ip region s = map_prod Some id (pickRoundRobin qs s))"
proof -
  have near: "pickRegionPrefer equalFold ps region ip \<in> set ps"
    using pickIPHash_mem[OF assms] pickIPHash_mem[of "filter (\<lambda>p. equalFold (pe_Region p) (trim_space region)) ps" ip]
    by (auto simp: pickRegionPrefer_def Let_def)
  have "\<exists>qs. qs \<noteq> [] \<and> set qs = set ps \<and> map_prod Some id (pickWeightedRoundRobin ps s) = map_prod Some id (pickRoundRobin qs s)"
    unfolding pickWeightedRoundRobin_def using assms expand_weights_set[of ps]
    by (intro exI[of _ "expand_weights ps"]) simp
  moreover have "\<exists>qs. qs \<noteq> [] \<and> set qs = set ps \<and> map_prod Some id (pickRoundRobin ps s) = map_prod Some id (pickRoundRobin qs s)"
    using assms by blast
  ultimately show ?thesis
    using near assms pickIPHash_mem[OF assms, of ip] pickLeastConn_min[OF assms, of s]
    unfolding Pick_def Let_def by simp
qed

definition same_circuits :: "Scheduler \<Rightarrow> Scheduler \<Rightarrow> bool" where
  "same_circuits s s' \<longleftrightarrow> sc_circuits s' = sc_circuits s \<and> sc_circuitOpenFor s' = sc_circuitOpenFor s
     \<and> sc_pressureLimit s' = sc_pressureLimit s \<and> sc_circuitFailures s' = sc_circuitFailures s"

lemma Pick_mem:
  assumes "Pick equalFold mode ps ip region s = (Some p, s')"
  shows "p \<in> set ps \<and> same_circuits s s'"
proof -
  have ne: "ps \<noteq> []" using assms by (auto simp: Pick_def)
  from Pick_cases[OF ne, of equalFold mode ip region s] show ?thesis
  proof
    assume "\<exists>qs. qs \<noteq> [] \<and> set qs = set ps \<and> Pick equalFold mode ps ip region s = map_prod Some id (pickRoundRobin qs s)"
    then obtain qs where qs: "qs \<noteq> []" "set qs = set ps"
      "Pick equalFold mode ps ip region s = map_prod Some id (pickRoundRobin qs s)" by blast
    have rr: "pickRoundRobin qs s = (p, s')" using assms qs(3) by (cases "pickRoundRobin qs s") simp
    then have "p \<in> set ps" using pickRoundRobin_mem[OF qs(1), of s] qs(2) by simp
    moreover have "same_circuits s s'"
      using rr by (auto simp: pickRoundRobin_def same_circuits_def Let_def)
    ultimately show ?thesis by simp
  qed (use assms in \<open>auto simp: same_circuits_def\<close>)
qed

lemma pick_filtered_mem:
  assumes "pick_filtered equalFold mode ps ip region sticky s = (r, s')"
  shows "same_circuits s s' \<and> (\<forall>p. r = Some p \<longrightarrow> p \<in> set ps)"
proof (cases "ps = []")
  case False
  have "same_circuits s s2 \<and> (\<forall>p. r' = Some p \<longrightarrow> p \<in> set ps)"
    if "Pick equalFold m ps ip region s = (r', s2)" for m r' s2
  proof (cases r')
    case None
    then show ?thesis using that Pick_cases[OF False, of equalFold m ip region s]
      by (auto simp: map_prod_def split: prod.splits)
  qed (use that Pick_mem in auto)
  then show ?thesis using assms False pickIPHash_mem[OF False]
    by (auto simp: pick_filtered_def same_circuits_def Let_def split: if_splits)
qed (use assms in \<open>auto simp: pick_filtered_def same_circuits_def\<close>)

lemma PickAdvanced_filtered:
  assumes "PickAdvanced equalFold now mode peers ip region sticky s = (Some p, s')"
  obtains filtered s1 where "filter_loop now peers (ensureAdvanced s) = (filtered, s1)" "p \<in> set filtered"
    "same_circuits s1 s'"
proof -
  obtain filtered s1 where f: "FilterHealthy now peers s = (filtered, s1)" by fastforce
  then have r: "pick_filtered equalFold mode filtered ip region sticky s1 = (Some p, s')"
    using assms by (simp add: PickAdvanced_def)
  then have "filtered \<noteq> []" by (auto simp: pick_filtered_def)
  then have "filter_loop now peers (ensureAdvanced s) = (filtered, s1)"
    using f by (auto simp: FilterHealthy_def split: if_splits)
  then show ?thesis using that pick_filtered_mem[OF r] by blast
qed

lemma picked_not_blocked:
  assumes "PickAdvanced equalFold now mode peers ip region sticky s = (Some p, s')" "now \<noteq> 0"
  shows "\<not> blocked now (pe_NodeID p) (ensureAdvanced s)
    \<and> (\<exists>q\<in>set peers. pe_NodeID p = pe_NodeID q \<and> pe_AdvertiseAddr p = pe_AdvertiseAddr q)"
proof -
  obtain filtered s1 where f: "filter_loop now peers (ensureAdvanced s) = (filtered, s1)" "p \<in> set filtered"
    using PickAdvanced_filtered[OF assms(1)] by metis
  show ?thesis using filter_loop_spec[OF _ assms(2) f(1)] f(2) by force
qed

text \<open>
  A picked peer is one of the candidates and its circuit is not open: it has no recorded
  failure streak, or the open interval has passed and no probe is outstanding.
\<close>

theorem picked_peer_not_blocked:
  assumes "PickAdvanced equalFold now mode peers ip region sticky s = (Some p, s')" "now \<noteq> 0"
  shows "\<not> blocked now (pe_NodeID p) (ensureAdvanced s)
    \<and> (\<exists>q\<in>set peers. pe_NodeID p = pe_NodeID q \<and> pe_AdvertiseAddr p = pe_AdvertiseAddr q)"
  by (rule picked_not_blocked[OF assms])

section \<open>One probe per interval\<close>

text \<open>A circuit is open, and it was opened or a probe went out at \<open>t0\<close> or later.\<close>

definition probing :: "string \<Rightarrow> Prelude.time \<Rightarrow> duration \<Rightarrow> Scheduler \<Rightarrow> bool" where
  "probing node t0 d s \<longleftrightarrow> d \<le> sc_circuitOpenFor s \<and> 0 < sc_pressureLimit s \<and> 0 < sc_circuitFailures s
     \<and> (\<exists>st. sc_circuits s node = Some st \<and> cs_openedAt st \<noteq> 0
          \<and> (t0 \<le> cs_openedAt st \<or> cs_probeAt st \<noteq> 0 \<and> t0 \<le> cs_probeAt st))"

lemma probing_blocked:
  assumes "probing node t0 d s" "now < t0 + d" "0 < d" "d \<le> max_duration"
  shows "blocked now node s"
proof -
  obtain st where st: "sc_circuits s node = Some st" "cs_openedAt st \<noteq> 0"
    "t0 \<le> cs_openedAt st \<or> cs_probeAt st \<noteq> 0 \<and> t0 \<le> cs_probeAt st"
    using assms(1) by (auto simp: probing_def)
  have "time_sub now x < d" if "t0 \<le> x" for x
    using that assms(2-4) by (subst time_sub_less) (auto simp: min_duration_def)
  moreover have "d \<le> sc_circuitOpenFor s" using assms(1) by (simp add: probing_def)
  ultimately have "time_sub now x < sc_circuitOpenFor s" if "t0 \<le> x" for x
    using that by (meson order_less_le_trans)
  then show ?thesis using st by (auto simp: blocked_def circuit_skips_def)
qed

lemma probing_reserve:
  assumes "probing node t0 d s" "now \<noteq> 0" "t0 \<le> now"
  shows "probing node t0 d (reserve_probe now m s)"
  using assms by (auto simp: probing_def reserve_probe_def split: option.split)

lemma probing_filter:
  assumes "filter_loop now ps s = (out, s')" "probing node t0 d s" "now \<noteq> 0" "t0 \<le> now"
  shows "probing node t0 d s'"
  using assms
proof (induction ps arbitrary: s out)
  case (Cons p ps)
  show ?case
  proof (cases "blocked now (pe_NodeID p) s")
    case True
    then show ?thesis using Cons by (simp add: blocked_def)
  next
    case False
    then obtain out1 where "filter_loop now ps (reserve_probe now (pe_NodeID p) s) = (out1, s')"
      using Cons.prems(1) by (auto simp: blocked_def Let_def split: prod.splits)
    then show ?thesis using Cons.IH probing_reserve[OF Cons.prems(2-4)] Cons.prems(3,4) by blast
  qed
qed simp

lemma filter_admits:
  assumes "filter_loop t0 ps s = (out, s')" "p \<in> set out" "0 < t0"
    and "sc_circuits s (pe_NodeID p) = Some st" "cs_openedAt st \<noteq> 0"
    and "0 < sc_pressureLimit s" "0 < sc_circuitFailures s"
  shows "probing (pe_NodeID p) t0 (sc_circuitOpenFor s) s'"
  using assms
proof (induction ps arbitrary: s out st)
  case (Cons q ps)
  show ?case
  proof (cases "blocked t0 (pe_NodeID q) s")
    case True
    then show ?thesis using Cons.IH Cons.prems by (simp add: blocked_def)
  next
    case False
    let ?s = "reserve_probe t0 (pe_NodeID q) s"
    obtain out1 where r: "filter_loop t0 ps ?s = (out1, s')" "out = q\<lparr>pe_Weight := pressure_weight ?s q\<rparr> # out1"
      using Cons.prems(1) False by (auto simp: blocked_def Let_def split: prod.splits)
    show ?thesis
    proof (cases "pe_NodeID p = pe_NodeID q")
      case True
      then have "probing (pe_NodeID p) t0 (sc_circuitOpenFor s) ?s"
        using Cons.prems(3-7) by (auto simp: probing_def reserve_probe_def)
      then show ?thesis using probing_filter[OF r(1)] Cons.prems(3) by simp
    next
      case other: False
      then have "p \<in> set out1" "sc_circuits ?s (pe_NodeID p) = Some st"
        using r(2) Cons.prems(2,4) by (auto simp: reserve_probe_def split: option.split)
      then show ?thesis using Cons.IH[OF r(1)] Cons.prems(3-7) by simp
    qed
  qed
qed simp

text \<open>
  What may happen after a probe of \<open>node\<close> at \<open>t0\<close>, each step one section under the mutex: calls of
  \<open>FilterHealthy\<close>, alone or as the first half of \<open>PickAdvanced\<close>, and second halves of \<open>PickAdvanced\<close>,
  of whatever callers and interleaved at will; requests that start and finish; new settings that
  do not shorten the open interval below \<open>d\<close>; successes of other nodes; and failures of any node,
  with the pruning they set off, as long as it does not drop the circuit of \<open>node\<close>.
\<close>

inductive quiet :: "string \<Rightarrow> Prelude.time \<Rightarrow> duration \<Rightarrow> Scheduler \<Rightarrow> Scheduler \<Rightarrow> bool"
  for node :: string and t0 :: "Prelude.time" and d :: duration where
  none: "quiet node t0 d s s"
| health: "quiet node t0 d s s1 \<Longrightarrow> t0 \<le> t \<Longrightarrow> FilterHealthy t peers s1 = (out, s2) \<Longrightarrow> quiet node t0 d s s2"
| pick: "quiet node t0 d s s1 \<Longrightarrow> pick_filtered equalFold mode filtered ip region sticky s1 = (r, s2) \<Longrightarrow>
    quiet node t0 d s s2"
| acquire: "quiet node t0 d s s1 \<Longrightarrow> quiet node t0 d s (traffic_Acquire m s1)"
| finish: "quiet node t0 d s s1 \<Longrightarrow> quiet node t0 d s (traffic_Release m s1)"
| configure: "quiet node t0 d s s1 \<Longrightarrow> d \<le> sc_circuitOpenFor (ConfigureAdvanced opts s1) \<Longrightarrow>
    quiet node t0 d s (ConfigureAdvanced opts s1)"
| success: "quiet node t0 d s s1 \<Longrightarrow> m \<noteq> node \<Longrightarrow> quiet node t0 d s (ReportSuccess m s1)"
| failure: "quiet node t0 d s s1 \<Longrightarrow> t0 \<le> t \<Longrightarrow>
    sc_circuits (pruneOldCircuits t o1 o2 (ensureAdvanced s1)) node \<noteq> None \<Longrightarrow>
    quiet node t0 d s (ReportFailure t o1 o2 m s1)"

lemma probing_ensure: "probing node t0 d s \<Longrightarrow> 0 < d \<Longrightarrow> ensureAdvanced s = s"
  by (intro ensureAdvanced_id) (auto simp: probing_def)

lemma prune_keeps: "prune_any order m node = None \<or> prune_any order m node = m node"
proof (induction order arbitrary: m)
  case (Cons k order)
  define m' where "m' = m(k := None)"
  have "m' node = None \<or> m' node = m node" by (simp add: m'_def)
  moreover have "prune_any (k # order) m = (if m k = None then prune_any order m
      else if int (map_len m') < maxCircuitMapSize div 2 then m' else prune_any order m')"
    by (simp add: m'_def Let_def)
  ultimately show ?case using Cons.IH[of m] Cons.IH[of m'] by auto
qed simp

lemma fold_prune_old_keeps:
  "fold (prune_old now s) order m node = None \<or> fold (prune_old now s) order m node = m node"
proof (induction order arbitrary: m)
  case (Cons k order)
  have "prune_old now s k m node = None \<or> prune_old now s k m node = m node"
    by (auto simp: prune_old_def split: option.split)
  then show ?case using Cons.IH[of "prune_old now s k m"] by auto
qed simp

lemma pruneOldCircuits_keeps:
  "sc_circuits (pruneOldCircuits now o1 o2 s) node \<noteq> None \<Longrightarrow>
     sc_circuits (pruneOldCircuits now o1 o2 s) node = sc_circuits s node"
  using prune_keeps[of o2 "fold (prune_old now s) o1 (sc_circuits s)" node] fold_prune_old_keeps[of now s o1 "sc_circuits s" node]
  by (auto simp: pruneOldCircuits_def Let_def)

lemma pruneOldCircuits_settings [simp]:
  "sc_circuitOpenFor (pruneOldCircuits now o1 o2 s) = sc_circuitOpenFor s"
  "sc_pressureLimit (pruneOldCircuits now o1 o2 s) = sc_pressureLimit s"
  "sc_circuitFailures (pruneOldCircuits now o1 o2 s) = sc_circuitFailures s"
  by (simp_all add: pruneOldCircuits_def Let_def)

lemma ReportFailure_probing:
  assumes "probing node t0 d s" "0 < t0" "0 < d" "t0 \<le> t"
    and "sc_circuits (pruneOldCircuits t o1 o2 (ensureAdvanced s)) node \<noteq> None"
  shows "probing node t0 d (ReportFailure t o1 o2 m s)"
proof -
  have ens: "ensureAdvanced s = s" using probing_ensure[OF assms(1,3)] .
  let ?s = "if maxCircuitMapSize \<le> int (map_len (sc_circuits s)) then pruneOldCircuits t o1 o2 s else s"
  have p: "probing node t0 d ?s"
    using assms(1) pruneOldCircuits_keeps[of t o1 o2 s node] assms(5) by (auto simp: probing_def ens)
  have "probing node t0 d (?s\<lparr>sc_circuits := (sc_circuits ?s)(m \<mapsto>
      (if F then st\<lparr>cs_failures := n, cs_openedAt := t, cs_probeAt := zero_time\<rparr> else st\<lparr>cs_failures := n\<rparr>))\<rparr>)"
    if "st = lookup_or zero_circuit (sc_circuits ?s) m" for F st n
  proof (cases "m = node")
    case True
    then show ?thesis using p that assms(2,4) by (auto simp: probing_def lookup_or_def)
  next
    case False
    then show ?thesis using p by (simp add: probing_def)
  qed
  from this[OF refl] show ?thesis using assms(1)
    by (simp add: ReportFailure_def ens Let_def)
qed

lemma quiet_probing:
  assumes "quiet node t0 d s s'" "probing node t0 d s" "0 < t0" "0 < d"
  shows "probing node t0 d s'"
  using assms
proof (induction rule: quiet.induct)
  case (health s s1 t peers out s2)
  have ens: "ensureAdvanced s1 = s1" using probing_ensure health.IH health.prems by blast
  show ?case using health probing_filter[of t peers s1 out s2]
    by (auto simp: FilterHealthy_def ens split: if_splits)
next
  case (pick s s1 equalFold mode filtered ip region sticky r s2)
  then show ?case using pick_filtered_mem[OF pick.hyps(2)] by (simp add: probing_def same_circuits_def)
next
  case (configure s s1 opts)
  then show ?case by (auto simp: probing_def ConfigureAdvanced_def)
next
  case (failure s s1 t o1 o2 m)
  then show ?case using ReportFailure_probing by blast
qed (auto simp: probing_def traffic_Acquire_def traffic_Release_def ReportSuccess_def)

text \<open>
  C37: an open circuit lets at most one probe through per interval. When \<open>FilterHealthy\<close>, called
  alone or by \<open>PickAdvanced\<close>, has admitted a node whose circuit is open, then until the open
  interval has passed again no call of \<open>FilterHealthy\<close> admits the node and no \<open>PickAdvanced\<close> built on
  such a call returns it. In between, any callers may filter, pick, start and finish requests,
  report failures of any node and successes of the others and change the settings, in any
  interleaving of the sections under the mutex; excepted are a success report for the node,
  a setting that shortens the interval and a pruning of the circuit map that drops the node.
\<close>

theorem one_probe_per_interval:
  assumes "FilterHealthy t0 peers s = (admitted, s1)" "p \<in> set admitted" "0 < t0"
    and "sc_circuits s (pe_NodeID p) = Some st" "cs_openedAt st \<noteq> 0"
    and "d = sc_circuitOpenFor (ensureAdvanced s)" "d \<le> max_duration"
    and "quiet (pe_NodeID p) t0 d s1 s2" "t0 \<le> t" "t < t0 + d"
    and "FilterHealthy t peers' s2 = (admitted', s3)"
  shows "(\<forall>q\<in>set admitted'. pe_NodeID q \<noteq> pe_NodeID p)
    \<and> (pick_filtered equalFold mode admitted' ip region sticky s4 = (Some q, s5) \<longrightarrow> pe_NodeID q \<noteq> pe_NodeID p)"
proof -
  let ?n = "pe_NodeID p"
  have f: "filter_loop t0 peers (ensureAdvanced s) = (admitted, s1)"
    using assms(1,2) by (auto simp: FilterHealthy_def split: if_splits)
  have d: "0 < d" using assms(6) by simp
  have "probing ?n t0 d s1" using filter_admits[OF f assms(2,3)] assms(4-6) by simp
  then have probe: "probing ?n t0 d s2" using quiet_probing[OF assms(8) _ assms(3) d] by blast
  then have "blocked t ?n s2" "ensureAdvanced s2 = s2"
    using probing_blocked[OF probe assms(10) d assms(7)] probing_ensure[OF probe d] by auto
  moreover have "filter_loop t peers' s2 = (admitted', s3) \<or> admitted' = []"
    using assms(11) calculation(2) by (auto simp: FilterHealthy_def split: if_splits)
  moreover have "0 < sc_circuitOpenFor s2" using probe d by (auto simp: probing_def)
  ultimately have no: "\<forall>q\<in>set admitted'. pe_NodeID q \<noteq> ?n"
    using filter_loop_spec[of s2 t peers' admitted' s3] assms(3,9) by fastforce
  then show ?thesis using pick_filtered_mem by blast
qed

section \<open>Shares of round robin\<close>

fun picks ::
    "nat \<Rightarrow> (string \<Rightarrow> string \<Rightarrow> bool) \<Rightarrow> string \<Rightarrow> Peer list \<Rightarrow> string \<Rightarrow> string \<Rightarrow> Scheduler \<Rightarrow> Peer option list" where
  "picks 0 equalFold mode ps ip region s = []"
| "picks (Suc k) equalFold mode ps ip region s =
     (case Pick equalFold mode ps ip region s of (r, s') \<Rightarrow> r # picks k equalFold mode ps ip region s')"

fun rr_run :: "nat \<Rightarrow> Peer list \<Rightarrow> Scheduler \<Rightarrow> Peer list" where
  "rr_run 0 ps s = []"
| "rr_run (Suc k) ps s = (case pickRoundRobin ps s of (p, s') \<Rightarrow> p # rr_run k ps s')"

lemma wrap_int64_id: "0 \<le> x \<Longrightarrow> x < 2 ^ 63 \<Longrightarrow> wrap_int64 x = x"
  by (simp add: wrap_int64_def)

lemma rr_run_eq:
  assumes "0 \<le> sc_rr s" "sc_rr s + int k < 2 ^ 63"
  shows "rr_run k ps s = map (\<lambda>i. ps ! ((nat (sc_rr s) + i) mod length ps)) [0..<k]"
  using assms
proof (induction k arbitrary: s)
  case (Suc k)
  let ?s = "s\<lparr>sc_rr := sc_rr s + 1\<rparr>"
  have step: "pickRoundRobin ps s = (ps ! (nat (sc_rr s) mod length ps), ?s)"
    using Suc.prems by (simp add: pickRoundRobin_def Let_def wrap_int64_id nat_mod_distrib)
  have "nat (sc_rr ?s) + i = nat (sc_rr s) + Suc i" for i using Suc.prems(1) by (simp add: nat_add_distrib)
  then have "rr_run k ps ?s = map (\<lambda>i. ps ! ((nat (sc_rr s) + Suc i) mod length ps)) [0..<k]"
    using Suc.IH[of ?s] Suc.prems by simp
  then show ?case by (simp add: step upt_conv_Cons map_Suc_upt[symmetric] del: upt_Suc)
qed simp

text \<open>Any run of as many positions as the list is long visits every position once.\<close>

lemma mset_rotate1: "mset (rotate1 xs) = mset xs"
  by (cases xs) simp_all

lemma mset_rotate: "mset (rotate k xs) = mset xs"
  by (induction k) (simp_all add: mset_rotate1)

lemma rotate_positions:
  assumes "ps \<noteq> []"
  shows "mset (map (\<lambda>i. ps ! ((c + i) mod length ps)) [0..<length ps]) = mset ps"
proof -
  have "rotate (c mod length ps) ps = map (\<lambda>i. ps ! ((c + i) mod length ps)) [0..<length ps]"
    by (rule nth_equalityI) (simp_all add: nth_rotate mod_simps add.commute)
  then show ?thesis by (metis mset_rotate)
qed

lemma rr_run_share:
  assumes "ps \<noteq> []" "0 \<le> sc_rr s" "sc_rr s + int (length ps) < 2 ^ 63"
  shows "mset (rr_run (length ps) ps s) = mset ps"
  using rr_run_eq[OF assms(2,3)] rotate_positions[OF assms(1)] by simp

lemma weighted_mode: "trim_space (to_lower ModeWeighted) = ModeWeighted"
  by code_simp

lemma mode_distinct:
  "ModeWeighted \<noteq> []" "ModeWeighted \<noteq> ModeIPHash" "ModeWeighted \<noteq> ModeLeastConn" "ModeWeighted \<noteq> ModeRegionPref"
  by (simp_all add: ModeWeighted_def ModeIPHash_def ModeLeastConn_def ModeRegionPref_def)

lemma Pick_weighted: "ps \<noteq> [] \<Longrightarrow>
  Pick equalFold ModeWeighted ps ip region s = map_prod Some id (pickRoundRobin (expand_weights ps) s)"
  by (simp add: Pick_def Let_def weighted_mode mode_distinct pickWeightedRoundRobin_def)

lemma picks_weighted:
  "ps \<noteq> [] \<Longrightarrow> picks k equalFold ModeWeighted ps ip region s = map Some (rr_run k (expand_weights ps) s)"
  by (induction k arbitrary: s) (auto simp: Pick_weighted split: prod.split)

lemma count_image_Some: "count (image_mset Some M) (Some x) = count M x"
  by (induction M) auto

lemma count_expand: "count (mset (expand_weights ps)) p = count (mset ps) p * nat (max 1 (pe_Weight p))"
  by (induction ps) (auto simp: expand_weights_def max_def algebra_simps)

text \<open>
  Over as many consecutive weighted picks as the weights add up to, every peer is picked
  exactly as often as its weight says (a weight below one counts as one), wherever the cursor
  stands.
\<close>

theorem weighted_picks_proportional:
  assumes "ps \<noteq> []" "0 \<le> sc_rr s" "sc_rr s + int (length (expand_weights ps)) < 2 ^ 63"
  shows "count (mset (picks (length (expand_weights ps)) equalFold ModeWeighted ps ip region s)) (Some p)
    = count (mset ps) p * nat (max 1 (pe_Weight p))"
proof -
  have "mset (picks (length (expand_weights ps)) equalFold ModeWeighted ps ip region s)
      = image_mset Some (mset (expand_weights ps))"
    using picks_weighted[OF assms(1)] rr_run_share[of "expand_weights ps" s] assms by simp
  then show ?thesis by (simp add: count_image_Some count_expand)
qed

section \<open>The circuit map is bounded\<close>

lemma prune_any_small:
  "finite (dom m) \<Longrightarrow> dom m \<subseteq> set order \<Longrightarrow>
   finite (dom (prune_any order m)) \<and> int (map_len (prune_any order m)) < maxCircuitMapSize div 2"
proof (induction order arbitrary: m)
  case Nil
  then show ?case by (simp add: maxCircuitMapSize_def)
next
  case (Cons node order)
  show ?case
  proof (cases "m node = None")
    case True
    then have "dom m \<subseteq> set order" using Cons.prems(2) by auto
    then show ?thesis using Cons.IH Cons.prems(1) True by simp
  next
    case False
    define m' where "m' = m(node := None)"
    have m': "dom m' \<subseteq> set order" "finite (dom m')" using Cons.prems by (auto simp: m'_def)
    have "prune_any (node # order) m = (if int (map_len m') < maxCircuitMapSize div 2 then m' else prune_any order m')"
      using False unfolding m'_def prune_any.simps Let_def by (rule if_not_P)
    then show ?thesis using Cons.IH[OF m'(2,1)] m'(2) by simp
  qed
qed

lemma prune_old_dom: "dom (prune_old now s node m) \<subseteq> dom m"
  by (auto simp: prune_old_def split: option.splits if_splits)

lemma fold_prune_old_dom: "dom (fold (prune_old now s) order m) \<subseteq> dom m"
proof (induction order arbitrary: m)
  case (Cons node order)
  show ?case using Cons.IH[of "prune_old now s node m"] prune_old_dom[of now s node m] by auto
qed simp

definition circuits_ok :: "Scheduler \<Rightarrow> bool" where
  "circuits_ok s \<longleftrightarrow> finite (dom (sc_circuits s)) \<and> int (map_len (sc_circuits s)) \<le> maxCircuitMapSize"

lemma prune_circuits:
  assumes "finite (dom (sc_circuits s))" "dom (sc_circuits s) \<subseteq> set order2"
    and "maxCircuitMapSize \<le> int (map_len (sc_circuits s))"
  shows "finite (dom (sc_circuits (pruneOldCircuits now order1 order2 s)))
    \<and> int (map_len (sc_circuits (pruneOldCircuits now order1 order2 s))) < maxCircuitMapSize"
proof -
  let ?m = "fold (prune_old now s) order1 (sc_circuits s)"
  have m: "finite (dom ?m)" "dom ?m \<subseteq> set order2"
    using fold_prune_old_dom[of now s order1 "sc_circuits s"] assms(1,2) finite_subset by auto
  from prune_any_small[OF m] show ?thesis
    using assms(3) m(1) by (auto simp: pruneOldCircuits_def Let_def maxCircuitMapSize_def)
qed

lemma ReportFailure_ok:
  assumes "circuits_ok s" "dom (sc_circuits s) \<subseteq> set order2"
  shows "circuits_ok (ReportFailure now order1 order2 node s)"
proof (cases "trim_space node = []")
  case False
  let ?s = "if int (map_len (sc_circuits (ensureAdvanced s))) \<ge> maxCircuitMapSize
    then pruneOldCircuits now order1 order2 (ensureAdvanced s) else ensureAdvanced s"
  have small: "finite (dom (sc_circuits ?s))" "int (map_len (sc_circuits ?s)) < maxCircuitMapSize"
    using assms prune_circuits[of "ensureAdvanced s" order2 now order1]
    by (auto simp: circuits_ok_def split: if_splits)
  obtain st where "ReportFailure now order1 order2 node s = ?s\<lparr>sc_circuits := (sc_circuits ?s)(node \<mapsto> st)\<rparr>"
    using False by (auto simp: ReportFailure_def Let_def)
  then show ?thesis using small by (auto simp: circuits_ok_def map_len_upd)
qed (use assms in \<open>simp add: ReportFailure_def\<close>)

lemma filter_loop_circuits_dom: "filter_loop now ps s = (out, s') \<Longrightarrow> dom (sc_circuits s') = dom (sc_circuits s)"
proof (induction ps arbitrary: s out)
  case (Cons p ps)
  have "dom (sc_circuits (reserve_probe now (pe_NodeID p) s)) = dom (sc_circuits s)"
    by (auto simp: reserve_probe_def split: option.split)
  then show ?case using Cons by (auto simp: Let_def split: if_splits prod.splits)
qed simp

lemma FilterHealthy_dom:
  "FilterHealthy t peers s = (filtered, s1) \<Longrightarrow> dom (sc_circuits s1) = dom (sc_circuits s)"
  using filter_loop_circuits_dom[of t peers "ensureAdvanced s" filtered s1]
  by (auto simp: FilterHealthy_def split: if_splits)

inductive traffic_run :: "Scheduler \<Rightarrow> bool" where
  start: "traffic_run NewScheduler"
| configure: "traffic_run s \<Longrightarrow> traffic_run (ConfigureAdvanced opts s)"
| health: "traffic_run s \<Longrightarrow> FilterHealthy t peers s = (out, s') \<Longrightarrow> traffic_run s'"
| pick: "traffic_run s \<Longrightarrow> pick_filtered equalFold mode filtered ip region sticky s = (r, s') \<Longrightarrow> traffic_run s'"
| acquire: "traffic_run s \<Longrightarrow> traffic_run (traffic_Acquire m s)"
| finish: "traffic_run s \<Longrightarrow> traffic_run (traffic_Release m s)"
| success: "traffic_run s \<Longrightarrow> traffic_run (ReportSuccess m s)"
| failure: "traffic_run s \<Longrightarrow> dom (sc_circuits s) \<subseteq> set o2 \<Longrightarrow> traffic_run (ReportFailure t o1 o2 m s)"

text \<open>
  In every run of a new scheduler the circuit map holds at most a thousand nodes, whatever
  identifiers failures are reported for and in whatever order Go ranges over the map.
\<close>

theorem circuit_map_bounded:
  assumes "traffic_run s"
  shows "int (map_len (sc_circuits s)) \<le> 1000"
proof -
  have "circuits_ok s"
    using assms
  proof (induction rule: traffic_run.induct)
    case (health s t peers out s')
    then show ?case using FilterHealthy_dom[OF health.hyps(2)] by (simp add: circuits_ok_def map_len_def)
  next
    case (pick s equalFold mode filtered ip region sticky r s')
    then show ?case using pick_filtered_mem[OF pick.hyps(2)] by (simp add: circuits_ok_def same_circuits_def)
  next
    case (success s m)
    then show ?case by (auto simp: circuits_ok_def ReportSuccess_def map_len_del)
  next
    case (failure s o2 t o1 m)
    then show ?case by (intro ReportFailure_ok)
  qed (auto simp: circuits_ok_def NewScheduler_def ConfigureAdvanced_def traffic_Acquire_def traffic_Release_def
      maxCircuitMapSize_def)
  then show ?thesis by (simp add: circuits_ok_def maxCircuitMapSize_def)
qed

section \<open>Witnesses\<close>

definition sample_peer :: "string \<Rightarrow> int \<Rightarrow> Peer" where
  "sample_peer n w = \<lparr>pe_NodeID = n, pe_AdvertiseAddr = n, pe_Region = [], pe_Weight = w, pe_Online = True, pe_CanReceive = True\<rparr>"

definition sample_circuit :: circuitState where
  "sample_circuit = \<lparr>cs_failures = 3, cs_openedAt = 1, cs_probeAt = 0\<rparr>"

definition sample_scheduler :: Scheduler where
  "sample_scheduler = \<lparr>sc_rr = 0, sc_inflight = Map.empty, sc_circuits = [''n1'' \<mapsto> sample_circuit],
     sc_circuitFailures = 3, sc_circuitOpenFor = 10, sc_pressureLimit = 32\<rparr>"

lemma pickIPHash_singleton: "pickIPHash [p] ip = p"
  by (simp add: pickIPHash_def Let_def)

lemma sample_filter:
  "FilterHealthy 20 [sample_peer ''n1'' 4] sample_scheduler
   = ([(sample_peer ''n1'' 4)], reserve_probe 20 ''n1'' sample_scheduler)"
  by (simp add: FilterHealthy_def ensureAdvanced_def sample_scheduler_def sample_peer_def sample_circuit_def
      circuit_skips_def reserve_probe_def pressure_weight_def load_of_def Let_def time_sub_def
      max_duration_def min_duration_def)

lemma ip_hash_mode: "trim_space (to_lower ''ip_hash'') = ''ip_hash''"
  by code_simp

lemma sample_pick:
  "PickAdvanced (=) 20 ''ip_hash'' [sample_peer ''n1'' 4] ''1.2.3.4'' [] [] sample_scheduler
     = (Some (sample_peer ''n1'' 4), reserve_probe 20 ''n1'' sample_scheduler)"
  unfolding PickAdvanced_def sample_filter pick_filtered_def Pick_def Let_def prod.case
  by (simp add: ip_hash_mode ModeIPHash_def ModeSticky_def pickIPHash_singleton)

theorem picked_peer_not_blocked_witness:
  "PickAdvanced (=) 20 ''ip_hash'' [sample_peer ''n1'' 4] ''1.2.3.4'' [] [] sample_scheduler
       = (Some (sample_peer ''n1'' 4), reserve_probe 20 ''n1'' sample_scheduler)
     \<and> \<not> blocked 20 ''n1'' (ensureAdvanced sample_scheduler)"
  using picked_peer_not_blocked[OF sample_pick] sample_pick by (simp add: sample_peer_def)

theorem one_probe_per_interval_witness:
  "FilterHealthy 20 [sample_peer ''n1'' 4] sample_scheduler
       = ([sample_peer ''n1'' 4], reserve_probe 20 ''n1'' sample_scheduler)
   \<and> fst (FilterHealthy 25 [sample_peer ''n1'' 4]
       (ReportFailure 24 [] [] ''n1'' (reserve_probe 20 ''n1'' sample_scheduler))) = []"
proof -
  let ?s1 = "reserve_probe 20 ''n1'' sample_scheduler"
  let ?s2 = "ReportFailure 24 [] [] ''n1'' ?s1"
  have c: "sc_circuits sample_scheduler ''n1'' = Some sample_circuit" "cs_openedAt sample_circuit \<noteq> 0"
    "sc_circuitOpenFor (ensureAdvanced sample_scheduler) = 10" "pe_NodeID (sample_peer ''n1'' 4) = ''n1''"
    by (simp_all add: sample_scheduler_def sample_circuit_def sample_peer_def ensureAdvanced_def)
  have "sc_circuits (pruneOldCircuits 24 [] [] (ensureAdvanced ?s1)) ''n1'' \<noteq> None"
    by (simp add: pruneOldCircuits_def sample_scheduler_def reserve_probe_def sample_circuit_def map_len_def
        maxCircuitMapSize_def)
  then have q: "quiet ''n1'' 20 10 ?s1 ?s2" by (intro quiet.failure[OF quiet.none]) simp_all
  obtain out s3 where f: "FilterHealthy 25 [sample_peer ''n1'' 4] ?s2 = (out, s3)" by fastforce
  have "\<forall>q\<in>set out. pe_NodeID q \<noteq> ''n1''"
    using one_probe_per_interval[OF sample_filter, of "sample_peer ''n1'' 4" sample_circuit 10 ?s2 25 "[sample_peer ''n1'' 4]" out s3]
      c q f by (simp add: max_duration_def)
  moreover have "\<exists>x\<in>set [sample_peer ''n1'' 4]. pe_NodeID q = pe_NodeID x" if "q \<in> set out" for q
  proof -
    have "filter_loop 25 [sample_peer ''n1'' 4] (ensureAdvanced ?s2) = (out, s3)"
      using f by (simp add: FilterHealthy_def del: filter_loop.simps)
    from filter_loop_spec[OF _ _ this] that show ?thesis by fastforce
  qed
  ultimately have "out = []" using c(4) by (cases out) auto
  then show ?thesis using sample_filter f by simp
qed

theorem weighted_picks_proportional_witness:
  "count (mset (picks 3 (=) ModeWeighted [sample_peer ''a'' 2, sample_peer ''b'' 1] [] [] sample_scheduler))
     (Some (sample_peer ''a'' 2)) = 2"
proof -
  have l: "length (expand_weights [sample_peer ''a'' 2, sample_peer ''b'' 1]) = 3"
    by (simp add: expand_weights_def sample_peer_def)
  from weighted_picks_proportional[of "[sample_peer ''a'' 2, sample_peer ''b'' 1]" sample_scheduler "(=)" "[]" "[]"
      "sample_peer ''a'' 2"] l
  show ?thesis by (simp add: sample_scheduler_def sample_peer_def)
qed

theorem circuit_map_bounded_witness:
  "int (map_len (sc_circuits (ReportFailure 5 [] [] ''n'' NewScheduler))) \<le> 1000"
proof -
  have "dom (sc_circuits NewScheduler) \<subseteq> set []" by (simp add: NewScheduler_def)
  then show ?thesis using circuit_map_bounded[OF traffic_run.failure[OF traffic_run.start]] by blast
qed

end
