(* ===== verification/Pipeline_Properties.thy ===== *)
theory Pipeline_Properties
  imports Pipeline "HOL-Library.Multiset"
begin

text \<open>
  Properties of the detection pipeline: a block that was recorded decides, an incomplete
  analysis never passes under the closed policy, the order in which detectors are registered
  and in which semantic jobs report does not matter beyond the priorities.
\<close>

section \<open>Registration\<close>

lemma sort_key_snoc: "sort_key f (sort_key f xs @ [x]) = sort_key f (xs @ [x])"
proof (rule properties_for_sort_key)
  show "filter (\<lambda>y. f k = f y) (sort_key f (xs @ [x])) = filter (\<lambda>y. f k = f y) (sort_key f xs @ [x])" for k
    using sort_key_stable[of f "f k" "xs @ [x]"] sort_key_stable[of f "f k" xs]
    by (simp add: eq_commute[of "f k"])
qed simp_all

definition registered :: "Detector option list \<Rightarrow> Detector list" where
  "registered ds = List.map_filter id ds"

lemma registered_simps [simp]:
  "registered [] = []" "registered (None # ds) = registered ds" "registered (Some d # ds) = d # registered ds"
  by (simp_all add: registered_def List.map_filter_simps)

lemma Add_all:
  assumes "case p of None \<Rightarrow> xs = [] | Some s \<Rightarrow> s = makePipelineSnapshot (sort_key dt_Priority xs)"
  shows "case fold pipeline_Add ds p of
      None \<Rightarrow> xs @ registered ds = []
    | Some s \<Rightarrow> s = makePipelineSnapshot (sort_key dt_Priority (xs @ registered ds))"
  using assms
proof (induction ds arbitrary: p xs)
  case (Cons d ds)
  show ?case
  proof (cases d)
    case None
    then have "pipeline_Add d p = p" by (simp add: pipeline_Add_def)
    then show ?thesis using Cons.IH[OF Cons.prems] None by (simp cong: option.case_cong)
  next
    case (Some x)
    have "pipeline_Add d p = Some (makePipelineSnapshot (sort_key dt_Priority (xs @ [x])))"
      using Cons.prems Some
      by (auto simp: pipeline_Add_def Let_def makePipelineSnapshot_def sort_key_snoc split: option.splits)
    then show ?thesis using Cons.IH[of "xs @ [x]" "pipeline_Add d p"] Some by (simp cong: option.case_cong)
  qed
qed (auto split: option.splits)

text \<open>
  A pipeline built from a list of detectors holds the non-nil ones in stable order of
  priority, whatever order they were added in between: adding one after the other and sorting
  each time is one stable sort. The pre-filters are exactly those below priority 290 and run
  before the rest, both in that order.
\<close>

theorem pipeline_is_stably_sorted:
  "pipeline_Detectors (NewPipeline ds) = sort_key dt_Priority (registered ds)
   \<and> (case NewPipeline ds of
        None \<Rightarrow> registered ds = []
      | Some s \<Rightarrow> ps_detectors s = ps_preFilters s @ ps_semanticGroup s
          \<and> ps_preFilters s = filter (\<lambda>d. dt_Priority d < 290) (ps_detectors s))"
proof -
  have split_sorted: "filter (\<lambda>d. dt_Priority d < 290) xs @ filter (\<lambda>d. \<not> dt_Priority d < 290) xs = xs"
    if "sorted (map dt_Priority xs)" for xs :: "Detector list"
    using that
  proof (induction xs)
    case (Cons x xs)
    show ?case
    proof (cases "dt_Priority x < 290")
      case False
      then have "\<forall>y\<in>set xs. \<not> dt_Priority y < 290" using Cons.prems by auto
      then have "filter (\<lambda>d. dt_Priority d < 290) xs = []" "filter (\<lambda>d. \<not> dt_Priority d < 290) xs = xs"
        by (auto simp: filter_empty_conv intro: filter_True)
      then show ?thesis using False by simp
    qed (use Cons in simp)
  qed simp
  have "case NewPipeline ds of None \<Rightarrow> registered ds = []
      | Some s \<Rightarrow> s = makePipelineSnapshot (sort_key dt_Priority (registered ds))"
    using Add_all[where p = None and xs = "[]" and ds = ds] by (simp add: NewPipeline_def cong: option.case_cong)
  then show ?thesis
    using split_sorted[of "sort_key dt_Priority (registered ds)"]
    by (auto simp: pipeline_Detectors_def makePipelineSnapshot_def split: option.splits)
qed

section \<open>Incomplete analysis\<close>

definition blocking :: "DetectionResult \<Rightarrow> bool" where
  "blocking r \<longleftrightarrow> dr_Detected r \<and> dr_Action r = ActionBlock"

definition has_block :: "RequestContext \<Rightarrow> bool" where
  "has_block rc \<longleftrightarrow> list_ex blocking (rc_Results rc)"

lemma has_block_simps [simp]:
  "has_block (add_result r rc) \<longleftrightarrow> has_block rc \<or> blocking r"
  "has_block (set_meta k v rc) \<longleftrightarrow> has_block rc"
  "has_block (mergeRequestContext f rc) \<longleftrightarrow> has_block rc"
  by (auto simp: has_block_def add_result_def set_meta_def mergeRequestContext_def)

lemma policy_words: "to_lower (trim_space ''open'') = ''open''" "to_lower (trim_space ''observe'') = ''observe''"
  "to_lower (trim_space ''closed'') = ''closed''"
  by code_simp+

lemma fail_policy_range: "fail_policy rc \<in> {''open'', ''observe'', ''closed''}"
  by (auto simp: fail_policy_def Let_def)

lemma fail_policy_word:
  "w \<in> {''open'', ''observe'', ''closed''} \<Longrightarrow> fail_policy (set_meta ''budget_exhausted_policy'' (MString w) rc) = w"
  by (auto simp: fail_policy_def set_meta_def policy_words)

lemmas fail_policy_set = fail_policy_word[OF fail_policy_range]

lemma fail_policy_add [simp]: "fail_policy (add_result r rc) = fail_policy rc"
  by (simp add: fail_policy_def add_result_def)

lemma has_block_mark [simp]: "has_block (mark_incomplete reason b rc) = has_block rc"
  by (simp add: mark_incomplete_def Let_def)

definition held_back :: "DetectionResult \<Rightarrow> bool" where
  "held_back r \<longleftrightarrow> dr_Action r \<in> {ActionBlock, ActionChallenge}"

text \<open>What every way of ending an incomplete analysis guarantees.\<close>

lemma finalize_spec:
  assumes "finalizeAnalysisIncomplete rc first reason b = (r, rc')"
  shows "has_block rc' = has_block rc" "first = Some f \<Longrightarrow> blocking f \<Longrightarrow> r = f"
    and "fail_policy rc' = ''closed'' \<Longrightarrow> held_back r"
  using assms
  by (auto simp: finalizeAnalysisIncomplete_def Let_def blocking_def held_back_def closed_result_def observe_result_def
      split: option.splits if_splits)

definition decided_by_block :: "outcome \<Rightarrow> bool" where
  "decided_by_block out = (case out of (Verdict r, rc) \<Rightarrow> has_block rc \<longrightarrow> blocking r | _ \<Rightarrow> True)"

definition held_when_closed :: "outcome \<Rightarrow> bool" where
  "held_when_closed out = (case out of (Verdict r, rc) \<Rightarrow> fail_policy rc = ''closed'' \<longrightarrow> held_back r | _ \<Rightarrow> True)"

definition first_covers :: "RequestContext \<Rightarrow> DetectionResult option \<Rightarrow> bool" where
  "first_covers rc first \<longleftrightarrow>
     (case first of None \<Rightarrow> \<not> has_block rc | Some f \<Rightarrow> dr_Detected f \<and> (has_block rc \<longrightarrow> blocking f))"

lemma finalize_outcome:
  shows "first_covers rc first \<Longrightarrow> decided_by_block (verdict_of (finalizeAnalysisIncomplete rc first reason b))"
    and "held_when_closed (verdict_of (finalizeAnalysisIncomplete rc first reason b))"
proof -
  obtain r rc' where f: "finalizeAnalysisIncomplete rc first reason b = (r, rc')" by fastforce
  show "first_covers rc first \<Longrightarrow> decided_by_block (verdict_of (finalizeAnalysisIncomplete rc first reason b))"
    using finalize_spec(1,2)[OF f] f
    by (auto simp: first_covers_def decided_by_block_def verdict_of_def split: option.splits)
  show "held_when_closed (verdict_of (finalizeAnalysisIncomplete rc first reason b))"
    using finalize_spec(3)[OF f] f by (simp add: held_when_closed_def verdict_of_def)
qed

lemma first_covers_meta [simp]:
  "first_covers (set_meta k v rc) first = first_covers rc first"
  "first_covers (mergeRequestContext f rc) first = first_covers rc first"
  by (simp_all add: first_covers_def cong: option.case_cong)

lemma ends_decided:
  assumes "first_covers rc first"
  shows "decided_by_block (verdict_of (finalizeBudgetExhausted rc first))"
    "decided_by_block (verdict_of (finalizeGuardOverload rc first))"
    "decided_by_block (verdict_of (finalizeInputIncomplete rc first reason))"
  using assms by (simp_all add: finalizeBudgetExhausted_def finalizeGuardOverload_def finalizeInputIncomplete_def finalize_outcome(1))

lemma ends_held:
  "held_when_closed (verdict_of (finalizeBudgetExhausted rc first))"
  "held_when_closed (verdict_of (finalizeGuardOverload rc first))"
  "held_when_closed (verdict_of (finalizeInputIncomplete rc first reason))"
  by (simp_all add: finalizeBudgetExhausted_def finalizeGuardOverload_def finalizeInputIncomplete_def finalize_outcome(2))

lemma decided_simps [simp]:
  "decided_by_block (Failed e, rc)" "decided_by_block (Verdict r, rc) \<longleftrightarrow> (has_block rc \<longrightarrow> blocking r)"
  "held_when_closed (Failed e, rc)"
  by (simp_all add: decided_by_block_def held_when_closed_def)

lemma decided_unless_parent: "decided_by_block out \<Longrightarrow> decided_by_block (unless_parent env m rc out)"
  and held_unless_parent: "held_when_closed out \<Longrightarrow> held_when_closed (unless_parent env m rc out)"
  by (auto simp: unless_parent_def split: option.split)

lemma actionRank_block: "actionRank a \<le> 4" "actionRank a = 4 \<longleftrightarrow> a = ActionBlock"
  by (cases a; simp)+

lemma keep_better_covers:
  assumes "first_covers rc first"
  shows "first_covers (add_result r rc) (keep_better r first)"
proof (cases first)
  case (Some f)
  have "actionRank (dr_Action f) < 4" if "\<not> blocking f"
    using actionRank_block[of "dr_Action f"] assms Some that by (auto simp: first_covers_def blocking_def)
  then show ?thesis
    using assms Some actionRank_block(1)[of "dr_Action r"]
    by (cases "blocking f"; cases "blocking r")
      (auto simp: first_covers_def keep_better_def betterDetectionResult_def blocking_def)
qed (use assms in \<open>auto simp: first_covers_def keep_better_def blocking_def\<close>)

section \<open>A recorded block decides\<close>

lemma prefilter_decided:
  assumes "\<not> has_block rc" "first_covers rc first"
  shows "case prefilter_loop env m ds rc first reason of
      Inl out \<Rightarrow> decided_by_block out
    | Inr (rc', first', reason') \<Rightarrow> \<not> has_block rc' \<and> first_covers rc' first'"
  using assms
proof (induction ds arbitrary: m rc first reason)
  case (Cons d ds)
  obtain result err fork where g: "GuardContext env (m + 2) (dt_Detect d (forkRequestContextWithContext rc)) = (result, err, fork)"
    by (metis prod_cases3)
  let ?rc1 = "mergeRequestContext fork rc"
  have go: "case prefilter_loop env (m + 8) ds rc' first' reason' of
      Inl out \<Rightarrow> decided_by_block out
    | Inr (rc', first', reason') \<Rightarrow> \<not> has_block rc' \<and> first_covers rc' first'"
    if "\<not> has_block rc'" "first_covers rc' first'" for rc' first' reason'
    by (rule Cons.IH[OF that])
  have r1: "\<not> has_block (add_result r ?rc1)" "first_covers (add_result r ?rc1) (keep_better r first)"
    "first_covers (add_result r ?rc1) (if dr_Detected r \<and> first = None then Some r else first)"
    if "\<not> blocking r" for r
    using Cons.prems that keep_better_covers[of ?rc1 first r]
    by (auto simp: first_covers_def split: option.splits)
  have end1: "decided_by_block (unless_parent env k rc (verdict_of (finalizeBudgetExhausted rc first)))"
    "decided_by_block (unless_parent env k rc (verdict_of (finalizeGuardOverload rc first)))" for k
    by (intro decided_unless_parent ends_decided Cons.prems)+
  note ends = ends_decided[OF Cons.prems(2)]
  show ?case
  proof (cases "ctx_Err env m")
    case None
    note next_filter = go[of ?rc1 first] go[OF r1(1,2)] go[OF r1(1,3)]
    show ?thesis
    proof (cases err)
      case None
      then show ?thesis
        using \<open>ctx_Err env m = None\<close> g Cons.prems next_filter
        by (cases result) (simp_all add: Let_def blocking_def)
    next
      case (Some e)
      then show ?thesis
        using \<open>ctx_Err env m = None\<close> g Cons.prems next_filter ends end1
        by (cases result; cases "detectorIncompleteReason (Some e)") (simp_all add: Let_def blocking_def)
    qed
  qed (use end1 in simp)
qed (use assms in simp)

lemma conclude_decided: "first_covers rc first \<Longrightarrow> decided_by_block (conclude rc first reason)"
  using ends_decided(3)[of rc first reason] by (auto simp: conclude_def first_covers_def split: option.splits)

lemma single_decided:
  assumes "first_covers rc first"
  shows "decided_by_block (detect_single env m d rc first reason)"
proof -
  obtain result err fork where g: "GuardContext env m (dt_Detect d (forkRequestContextWithContext rc)) = (result, err, fork)"
    by (metis prod_cases3)
  define rc1 where "rc1 = (if err = None then mergeRequestContext fork rc else rc)"
  define rc2 where "rc2 = (case result of Some r \<Rightarrow> if err = None then add_result r rc1 else rc1 | None \<Rightarrow> rc1)"
  define f2 where "f2 = (case result of Some r \<Rightarrow> if err = None then keep_better r first else first | None \<Rightarrow> first)"
  have cov: "first_covers rc2 f2"
    using assms keep_better_covers[of rc1 first] by (auto simp: rc2_def f2_def rc1_def split: option.split)
  note ends = ends_decided[OF cov] ends_decided(3)[of "mergeRequestContext fork rc2" f2] conclude_decided[OF cov]
  show ?thesis
    unfolding detect_single_def g prod.case Let_def rc1_def[symmetric] rc2_def[symmetric] f2_def[symmetric]
    by (simp add: ends cov decided_unless_parent split: option.split)
qed

lemma merge_out_covers:
  "first_covers (ms_ctx s) (ms_first s) \<Longrightarrow> first_covers (ms_ctx (merge_out out s)) (ms_first (merge_out out s))"
  using keep_better_covers by (auto simp: merge_out_def Let_def split: option.splits)

lemma merge_outs_covers:
  "first_covers (ms_ctx s) (ms_first s) \<Longrightarrow>
   first_covers (ms_ctx (fold merge_out outs s)) (ms_first (fold merge_out outs s))"
  by (induction outs arbitrary: s) (simp_all add: merge_out_covers)

lemma group_decided:
  assumes "first_covers rc first"
  shows "decided_by_block (detect_group env m ds rc first reason)"
proof -
  define s where "s = fold merge_out (semantic_outs env m ds rc)
    \<lparr>ms_ctx = rc, ms_first = first, ms_err = None, ms_overloaded = False, ms_reason = reason\<rparr>"
  have cov: "first_covers (ms_ctx s) (ms_first s)" unfolding s_def by (rule merge_outs_covers) (simp add: assms)
  note ends = ends_decided[OF cov] conclude_decided[OF cov]
  show ?thesis
    using ends unfolding detect_group_def s_def[symmetric] Let_def
    by (simp add: decided_unless_parent)
qed

lemma phases_decided:
  assumes "\<not> has_block rc"
  shows "decided_by_block (detect_phases env s rc)"
proof (cases "prefilter_loop env 1 (ps_preFilters s) rc None []")
  case (Inl out)
  then show ?thesis
    using prefilter_decided[OF assms, of None env 1 "ps_preFilters s" "[]"] assms
    by (simp add: detect_phases_def first_covers_def)
next
  case (Inr st)
  obtain rc1 first reason where n: "st = (rc1, first, reason)" by (cases st)
  have cov: "first_covers rc1 first"
    using prefilter_decided[OF assms, of None env 1 "ps_preFilters s" "[]"] assms Inr n by (simp add: first_covers_def)
  show ?thesis
    unfolding detect_phases_def Inr n sum.case prod.case Let_def
    by (simp add: single_decided[OF cov] group_decided[OF cov] conclude_decided[OF cov] decided_unless_parent
        ends_decided(1)[OF cov] split: list.split)
qed

lemma Detect_verdict:
  assumes "Detect env (Some s) (Some rc) = Some (Verdict r, rc')"
  obtains rc1 where "collect_body env s rc = (None, rc1)" "detect_phases env s rc1 = (Verdict r, rc')"
proof (cases "collect_body env s rc")
  case (Pair err rc1)
  then have "err = None" "detect_phases env s rc1 = (Verdict r, rc')"
    using assms by (auto simp: Detect_def unless_parent_def split: option.splits)
  then show thesis using that Pair by simp
qed

text \<open>
  A detection that records a blocking result of any detector answers with a blocking
  result. Neither a weaker earlier finding nor an exhausted budget, an overloaded guard, a
  failing detector or an open fail mode turns it into anything else.
\<close>

theorem recorded_block_decides:
  assumes "Detect env (Some s) (Some rc) = Some (Verdict r, rc')"
    and "\<not> has_block (snd (collect_body env s rc))" "has_block rc'"
  shows "dr_Detected r \<and> dr_Action r = ActionBlock"
proof -
  obtain rc1 where c: "collect_body env s rc = (None, rc1)" "detect_phases env s rc1 = (Verdict r, rc')"
    using assms(1) by (rule Detect_verdict)
  then show ?thesis using phases_decided[of rc1 env s] assms(2,3) by (simp add: blocking_def)
qed

section \<open>Only a complete analysis passes under the closed policy\<close>

text \<open>A detector that was started in time, finished and returned no error.\<close>

definition completed :: "detect_env \<Rightarrow> nat \<Rightarrow> Detector \<Rightarrow> RequestContext \<Rightarrow> bool" where
  "completed env m d rc \<longleftrightarrow> ctx_Err env m = None \<and> en_guard env m = GuardFinished
     \<and> fst (snd (dt_Detect d (forkRequestContextWithContext rc))) = None"

definition recorded :: "Detector \<Rightarrow> RequestContext \<Rightarrow> RequestContext" where
  "recorded d rc =
     (case dt_Detect d (forkRequestContextWithContext rc) of
        (result, _, fork) \<Rightarrow>
          (case result of None \<Rightarrow> mergeRequestContext fork rc | Some r \<Rightarrow> add_result r (mergeRequestContext fork rc)))"

text \<open>The pre-filters all completed, each on the context the ones before it left.\<close>

fun clean_run :: "detect_env \<Rightarrow> nat \<Rightarrow> Detector list \<Rightarrow> RequestContext \<Rightarrow> RequestContext option" where
  "clean_run env m [] rc = Some rc"
| "clean_run env m (d # ds) rc =
     (if completed env (m + 2) d rc then clean_run env (m + 8) ds (recorded d rc) else None)"

definition semantic_complete :: "detect_env \<Rightarrow> nat \<Rightarrow> Detector list \<Rightarrow> RequestContext \<Rightarrow> bool" where
  "semantic_complete env m ds rc \<longleftrightarrow>
     (case ds of
        [] \<Rightarrow> True
      | [d] \<Rightarrow> completed env m d rc
      | _ \<Rightarrow> list_all (\<lambda>i. en_job env i = Queued \<and> completed env (m + 4 * i + 1) (ds ! i) rc) [0..<length ds])"

definition arrivals_ok :: "detect_env \<Rightarrow> nat \<Rightarrow> bool" where
  "arrivals_ok env n \<longleftrightarrow> set (en_arrivals env) = {i. i < n \<and> en_job env i = Queued}"

lemma blocking_held: "blocking r \<Longrightarrow> held_back r"
  by (simp add: blocking_def held_back_def)

lemma guard_no_error:
  assumes "GuardContext env m call = (result, None, fork)"
  shows "ctx_Err env m = None \<and> en_guard env m = GuardFinished \<and> call = (result, None, fork)"
  using assms by (auto simp: GuardContext_def split: option.splits guard_fate.splits)

lemma incomplete_reason_nonempty: "detectorIncompleteReason err = Some why \<Longrightarrow> why \<noteq> []"
  by (auto simp: detectorIncompleteReason_def Let_def split: option.splits det_error.splits if_splits)

definition kept_back :: "outcome + RequestContext \<times> DetectionResult option \<times> string \<Rightarrow> bool" where
  "kept_back res = (case res of Inl out \<Rightarrow> held_when_closed out | Inr (_, _, reason) \<Rightarrow> reason \<noteq> [])"

lemma kept_back_Inl [simp]:
  "kept_back (Inl out) = held_when_closed out" "dr_Action r = ActionBlock \<Longrightarrow> held_when_closed (Verdict r, rc)"
  by (simp_all add: kept_back_def held_when_closed_def held_back_def)

lemma prefilter_closed:
  "case prefilter_loop env m ds rc first reason of
     Inl out \<Rightarrow> held_when_closed out
   | Inr (rc', first', reason') \<Rightarrow> reason' = [] \<longrightarrow> reason = [] \<and> clean_run env m ds rc = Some rc'"
proof (induction ds arbitrary: m rc first reason)
  case (Cons d ds)
  obtain result err fork where g: "GuardContext env (m + 2) (dt_Detect d (forkRequestContextWithContext rc)) = (result, err, fork)"
    by (metis prod_cases3)
  have late: "kept_back (prefilter_loop env (m + 8) ds rc' first' why)" if "why \<noteq> []" for rc' first' why
    using Cons.IH[where m = "m + 8" and rc = rc' and first = first' and reason = why] that
    by (auto simp: kept_back_def split: sum.splits)
  have end1: "held_when_closed (unless_parent env k rc (verdict_of (finalizeBudgetExhausted rc first)))"
    "held_when_closed (unless_parent env k rc (verdict_of (finalizeGuardOverload rc first)))" for k
    by (intro held_unless_parent ends_held)+
  show ?case
  proof (cases "ctx_Err env m")
    case started: None
    show ?thesis
    proof (cases err)
      case None
      then have fin: "completed env (m + 2) d rc"
          "recorded d rc = (case result of None \<Rightarrow> mergeRequestContext fork rc
             | Some r \<Rightarrow> add_result r (mergeRequestContext fork rc))"
        using guard_no_error[OF g[unfolded None]] by (auto simp: completed_def recorded_def)
      have run: "clean_run env m (d # ds) rc = clean_run env (m + 8) ds (recorded d rc)" using fin(1) by simp
      note ih = Cons.IH[where m = "m + 8" and rc = "recorded d rc" and reason = reason]
      show ?thesis
      proof (cases result)
        case None
        show ?thesis unfolding run using started \<open>err = None\<close> g ih fin(2) None by (simp add: Let_def)
      next
        case (Some r)
        show ?thesis
        proof (cases "blocking r")
          case True
          then show ?thesis using started \<open>err = None\<close> g Some blocking_held[OF True]
            by (simp add: Let_def held_when_closed_def blocking_def)
        next
          case False
          then have nb: "(dr_Detected r \<and> dr_Action r = ActionBlock) = False" by (simp add: blocking_def)
          have "prefilter_loop env m (d # ds) rc first reason
              = prefilter_loop env (m + 8) ds (recorded d rc) (if dr_Detected r \<and> first = None then Some r else first) reason"
            using started \<open>err = None\<close> g fin(2) Some by (simp only: prefilter_loop.simps prod.case option.case nb Let_def) simp
          then show ?thesis unfolding run using ih by (simp only:)
        qed
      qed
    next
      case (Some e)
      show ?thesis
      proof (cases "detectorIncompleteReason (Some e)")
        case None
        then show ?thesis using started Some g end1 ends_held by simp
      next
        case why: (Some why)
        have ne: "(if reason = [] then why else reason) \<noteq> []" using incomplete_reason_nonempty[OF why] by simp
        have "kept_back (prefilter_loop env m (d # ds) rc first reason)"
          using started Some g why end1 ends_held late[OF ne] by (cases result) (simp_all add: Let_def)
        then show ?thesis by (auto simp: kept_back_def split: sum.splits)
      qed
    qed
  qed (use end1 in simp)
qed simp

lemma conclude_closed: "held_when_closed (conclude rc first reason) \<or> reason = []"
  using ends_held(3) by (auto simp: conclude_def)

lemma single_closed: "held_when_closed (detect_single env m d rc first reason) \<or> reason = [] \<and> completed env m d rc"
proof -
  obtain result err fork where g: "GuardContext env m (dt_Detect d (forkRequestContextWithContext rc)) = (result, err, fork)"
    by (metis prod_cases3)
  show ?thesis
  proof (cases err)
    case None
    then have c: "completed env m d rc" using guard_no_error[OF g[unfolded None]] by (simp add: completed_def)
    show ?thesis
    proof (cases "reason = []")
      case False
      then have "held_when_closed (conclude rc' f' reason)" for rc' f' using conclude_closed by blast
      then show ?thesis
        unfolding detect_single_def g prod.case Let_def None by (simp add: ends_held detectorIncompleteReason_def)
    qed (use c in simp)
  next
    case (Some e)
    show ?thesis
      unfolding detect_single_def g prod.case Let_def Some
      by (simp add: ends_held held_unless_parent split: option.split)
  qed
qed

subsection \<open>The order of reports\<close>

lemma collect_length [simp]: "length (collect report arrivals outs) = length outs"
  unfolding collect_def by (induction arrivals arbitrary: outs) simp_all

lemma collect_nth:
  "i < length outs \<Longrightarrow> collect report arrivals outs ! i = (if i \<in> set arrivals then report i else outs ! i)"
  unfolding collect_def
proof (induction arrivals arbitrary: outs)
  case (Cons j js)
  then show ?case using Cons.IH[of "outs[j := report j]"] by (auto simp: nth_list_update)
qed simp

lemma semantic_outs_eq:
  assumes "arrivals_ok env (length ds)"
  shows "semantic_outs env m ds rc = map (\<lambda>i. if en_job env i = Queued then run_job env (m + 4 * i) (ds ! i) rc
      else submit_out (en_job env i)) [0..<length ds]"
  using assms by (intro nth_equalityI) (auto simp: semantic_outs_def collect_nth arrivals_ok_def)

text \<open>
  C39: whatever order the workers of the semantic group report in, the detection gives the same
  verdict and leaves the same request context: results and metadata are merged in the order of
  the detectors.
\<close>

theorem report_order_irrelevant:
  assumes "arrivals_ok env (length (ps_semanticGroup s))" "mset order = mset (en_arrivals env)"
  shows "Detect (env\<lparr>en_arrivals := order\<rparr>) (Some s) (Some rc) = Detect env (Some s) (Some rc)"
proof -
  let ?env = "env\<lparr>en_arrivals := order\<rparr>"
  have flds: "en_parent ?env = en_parent env" "en_guard ?env = en_guard env" "en_deadline ?env = en_deadline env"
    "en_job ?env = en_job env" "en_bodyLocked ?env = en_bodyLocked env" "en_ensureBody ?env = en_ensureBody env"
    by simp_all
  have err: "ctx_Err ?env = ctx_Err env" by (rule ext) (unfold ctx_Err_def flds, rule refl)
  have guard: "GuardContext ?env = GuardContext env" by (intro ext) (unfold GuardContext_def err flds, rule refl)
  have budget: "budgetAnalysisIncomplete ?env = budgetAnalysisIncomplete env"
    by (intro ext) (unfold budgetAnalysisIncomplete_def err, rule refl)
  have parent: "unless_parent ?env = unless_parent env" by (intro ext) (unfold unless_parent_def flds, rule refl)
  have pre: "prefilter_loop ?env m ds rc first reason = prefilter_loop env m ds rc first reason" for m ds rc first reason
    by (induction ds arbitrary: m rc first reason)
      (simp, unfold prefilter_loop.simps err guard budget parent flds, presburger)
  have job: "run_job ?env = run_job env" by (intro ext) (unfold run_job_def err guard, rule refl)
  have "set order = set (en_arrivals env)" using assms(2) mset_eq_setD by blast
  then have outs: "semantic_outs ?env m (ps_semanticGroup s) rc1 = semantic_outs env m (ps_semanticGroup s) rc1" for m rc1
    using assms(1) by (simp add: semantic_outs_eq arrivals_ok_def job)
  have group: "detect_group ?env m (ps_semanticGroup s) rc1 first reason = detect_group env m (ps_semanticGroup s) rc1 first reason"
    for m rc1 first reason
    by (unfold detect_group_def outs budget parent flds, rule refl)
  have single: "detect_single ?env = detect_single env"
    by (intro ext) (unfold detect_single_def guard budget parent flds, rule refl)
  have body: "collect_body ?env = collect_body env" by (intro ext) (unfold collect_body_def load_body_def flds, rule refl)
  have "detect_phases ?env s rc1 = detect_phases env s rc1" for rc1
    using group unfolding detect_phases_def pre err parent single
    by (cases "ps_semanticGroup s"; cases "tl (ps_semanticGroup s)") (simp_all add: Let_def split: sum.split prod.split)
  then show ?thesis unfolding Detect_def body parent by (simp split: prod.split option.split)
qed

subsection \<open>Completeness\<close>

lemma merge_outs_clean:
  assumes "ms_reason (fold merge_out outs s) = []" "ms_err (fold merge_out outs s) = None"
  shows "ms_reason s = [] \<and> ms_err s = None \<and> (\<forall>out\<in>set outs. jo_err out = None)"
  using assms
proof (induction outs arbitrary: s)
  case (Cons out outs)
  have "ms_reason (merge_out out s) = []" "ms_err (merge_out out s) = None" "\<forall>out\<in>set outs. jo_err out = None"
    using Cons.IH[of "merge_out out s"] Cons.prems by auto
  moreover have "ms_reason s = []" "ms_err s = None" "jo_err out = None"
    using calculation(1,2) incomplete_reason_nonempty[of "jo_err out"]
    by (auto simp: merge_out_def Let_def split: option.splits if_splits)
  ultimately show ?case by simp
qed simp

lemma group_closed:
  assumes "arrivals_ok env (length ds)" "\<not> held_when_closed (detect_group env m ds rc first reason)"
  shows "reason = [] \<and> list_all (\<lambda>i. en_job env i = Queued \<and> completed env (m + 4 * i + 1) (ds ! i) rc) [0..<length ds]"
proof -
  define s where "s = fold merge_out (semantic_outs env m ds rc)
    \<lparr>ms_ctx = rc, ms_first = first, ms_err = None, ms_overloaded = False, ms_reason = reason\<rparr>"
  have "ms_reason s = []" "ms_err s = None"
    using assms(2) ends_held conclude_closed held_unless_parent
    unfolding detect_group_def s_def[symmetric] Let_def by (auto split: if_splits)
  then have clean: "reason = []" "\<forall>out\<in>set (semantic_outs env m ds rc). jo_err out = None"
    unfolding s_def by (auto dest!: merge_outs_clean)
  have "en_job env i = Queued \<and> completed env (m + 4 * i + 1) (ds ! i) rc" if "i < length ds" for i
  proof -
    let ?out = "if en_job env i = Queued then run_job env (m + 4 * i) (ds ! i) rc else submit_out (en_job env i)"
    have "?out \<in> set (semantic_outs env m ds rc)"
      unfolding semantic_outs_eq[OF assms(1)] set_map by (rule image_eqI[of _ _ i]) (use that in simp_all)
    then have ok: "jo_err ?out = None" using clean(2) by blast
    then have q: "en_job env i = Queued" by (cases "en_job env i") (auto simp: submit_out_def)
    obtain result err fork where g: "GuardContext env (m + 4 * i + 1)
        (dt_Detect (ds ! i) (forkRequestContextWithContext rc)) = (result, err, fork)" by (metis prod_cases3)
    have "err = None" using ok q g by (auto simp: run_job_def split: option.splits)
    then show ?thesis using q guard_no_error[OF g[unfolded \<open>err = None\<close>]] by (simp add: completed_def)
  qed
  then show ?thesis using clean(1) by (simp add: list_all_iff)
qed

text \<open>
  C1: under the closed policy a request is answered with anything weaker than a challenge only
  after a complete analysis: its body was loaded, every pre-filter ran to its end without an
  error, each on the context left by the ones before, and every semantic detector was admitted,
  started in time and returned without an error. A timeout, a full queue, an overloaded guard,
  a panic, a failing detector or an input a detector could not cover never ends in a pass.
\<close>

theorem closed_pass_is_complete:
  assumes "Detect env (Some s) (Some rc) = Some (Verdict r, rc')"
    and "fail_policy rc' = ''closed''" "dr_Action r \<notin> {ActionBlock, ActionChallenge}"
    and "arrivals_ok env (length (ps_semanticGroup s))"
  shows "\<exists>rc1 rc2. collect_body env s rc = (None, rc1) \<and> clean_run env 1 (ps_preFilters s) rc1 = Some rc2
    \<and> semantic_complete env (8 * length (ps_preFilters s) + 3) (ps_semanticGroup s) rc2"
proof -
  let ?k = "8 * length (ps_preFilters s) + 3"
  obtain rc1 where c: "collect_body env s rc = (None, rc1)" "detect_phases env s rc1 = (Verdict r, rc')"
    using assms(1) by (rule Detect_verdict)
  have weak: "\<not> held_when_closed (Verdict r, rc')"
    using assms(2,3) by (auto simp: held_when_closed_def held_back_def)
  note pre = prefilter_closed[where env = env and m = 1 and ds = "ps_preFilters s" and rc = rc1 and first = None and reason = "[]"]
  obtain rc2 first reason where p: "prefilter_loop env 1 (ps_preFilters s) rc1 None [] = Inr (rc2, first, reason)"
    using pre c(2) weak by (auto simp: detect_phases_def split: sum.splits)
  have phase2: "(Verdict r, rc') = (case ps_semanticGroup s of [] \<Rightarrow> conclude rc2 first reason
      | [d] \<Rightarrow> detect_single env ?k d rc2 first reason | ds \<Rightarrow> detect_group env ?k ds rc2 first reason)"
    using c(2) weak held_unless_parent[OF ends_held(1)[of rc2 first], of env "8 * length (ps_preFilters s) + 2" rc2]
    unfolding detect_phases_def p sum.case prod.case Let_def
    by (auto simp: eval_nat_numeral split: if_splits list.splits)
  have "reason = [] \<and> semantic_complete env ?k (ps_semanticGroup s) rc2"
  proof (cases "ps_semanticGroup s")
    case Nil
    then show ?thesis using phase2 weak conclude_closed[of rc2 first reason] by (auto simp: semantic_complete_def)
  next
    case (Cons d ds)
    show ?thesis
    proof (cases ds)
      case Nil
      then show ?thesis using phase2 weak Cons single_closed[of env ?k d rc2 first reason] by (auto simp: semantic_complete_def)
    next
      case (Cons d' ds')
      then show ?thesis
        using phase2 weak \<open>ps_semanticGroup s = d # ds\<close> group_closed[OF assms(4), of ?k rc2 first reason]
        by (simp add: semantic_complete_def)
    qed
  qed
  then show ?thesis using c(1) pre p by auto
qed

section \<open>Witnesses\<close>

definition quiet_env :: detect_env where
  "quiet_env = \<lparr>en_parent = (\<lambda>_. None), en_deadline = (\<lambda>_. False), en_guard = (\<lambda>_. GuardFinished), en_job = (\<lambda>_. Queued),
     en_arrivals = [1, 0], en_bodyLocked = False, en_ensureBody = (\<lambda>rc. (None, rc))\<rparr>"

definition sample_result :: "string \<Rightarrow> Action \<Rightarrow> DetectionResult" where
  "sample_result name action = \<lparr>dr_Detected = True, dr_DetectorID = name, dr_Category = name, dr_Severity = SeverityLow,
     dr_Action = action, dr_Message = name, dr_Confidence = 1 / 2, dr_Payload = []\<rparr>"

definition sample_detector :: "string \<Rightarrow> int \<Rightarrow> DetectionResult option \<Rightarrow> Detector" where
  "sample_detector name prio result =
     \<lparr>dt_ID = name, dt_Name = name, dt_Priority = prio, dt_Detect = (\<lambda>rc. (result, None, rc_Metadata rc))\<rparr>"

definition sample_ctx :: RequestContext where
  "sample_ctx = \<lparr>rc_Request = None, rc_ClientIP = ''192.0.2.1'', rc_TraceID = ''t'', rc_SiteID = ''s'', rc_NormalizedPath = ''/'',
     rc_HostValidated = True, rc_TrustedProxyCIDRs = [], rc_DecodedURI = ''/'', rc_DecodedBody = [], rc_Results = [],
     rc_Metadata = Map.empty, rc_maxBodyBytes = 0, rc_bodyLoaded = True, rc_rawBody = [], rc_bodyErr = None,
     rc_bodyReadStarted = False, rc_bodyReservation = 0, rc_bodyReservationHeld = False\<rparr>"

definition logging :: Detector where "logging = sample_detector ''log'' 100 (Some (sample_result ''log'' ActionLog))"
definition silent :: Detector where "silent = sample_detector ''silent'' 310 None"
definition blocker :: Detector where "blocker = sample_detector ''sqli'' 300 (Some (sample_result ''sqli'' ActionBlock))"

definition sample_pipeline :: "Detector \<Rightarrow> pipelineSnapshot" where
  "sample_pipeline d = \<lparr>ps_detectors = [logging, d, silent], ps_preFilters = [logging], ps_semanticGroup = [d, silent]\<rparr>"

lemmas sample_defs = quiet_env_def sample_ctx_def sample_pipeline_def logging_def silent_def blocker_def
  sample_detector_def sample_result_def

lemmas detect_eval = Detect_def collect_body_def load_body_def detect_phases_def ctx_Err_def GuardContext_def detect_group_def
  semantic_outs_def collect_def run_job_def merge_out_def mergeRequestContext_def add_result_def keep_better_def
  betterDetectionResult_def budgetAnalysisIncomplete_def detectorIncompleteReason_def conclude_def unless_parent_def
  forkRequestContextWithContext_def zero_out_def submit_out_def Let_def

lemma sample_block: "\<exists>rc'. Detect quiet_env (Some (sample_pipeline blocker)) (Some sample_ctx)
    = Some (Verdict (sample_result ''sqli'' ActionBlock), rc') \<and> has_block rc' \<and> fail_policy rc' = ''closed''"
  by (simp add: detect_eval sample_defs has_block_def blocking_def fail_policy_def)

theorem recorded_block_decides_witness:
  "\<exists>r rc'. Detect quiet_env (Some (sample_pipeline blocker)) (Some sample_ctx) = Some (Verdict r, rc')
     \<and> dr_Detected r \<and> dr_Action r = ActionBlock"
proof -
  obtain r rc' where d: "Detect quiet_env (Some (sample_pipeline blocker)) (Some sample_ctx) = Some (Verdict r, rc')" "has_block rc'"
    using sample_block by blast
  have "\<not> has_block (snd (collect_body quiet_env (sample_pipeline blocker) sample_ctx))"
    by (simp add: has_block_def collect_body_def load_body_def sample_defs)
  from recorded_block_decides[OF d(1) this d(2)] d(1) show ?thesis by blast
qed

theorem report_order_irrelevant_witness:
  "Detect (quiet_env\<lparr>en_arrivals := [0, 1]\<rparr>) (Some (sample_pipeline blocker)) (Some sample_ctx)
   = Detect quiet_env (Some (sample_pipeline blocker)) (Some sample_ctx)"
  by (rule report_order_irrelevant) (auto simp: arrivals_ok_def quiet_env_def sample_pipeline_def)

lemma sample_pass: "\<exists>rc'. Detect quiet_env (Some (sample_pipeline silent)) (Some sample_ctx)
    = Some (Verdict (sample_result ''log'' ActionLog), rc') \<and> fail_policy rc' = ''closed''"
  by (simp add: detect_eval sample_defs fail_policy_def)

theorem closed_pass_is_complete_witness:
  "\<exists>rc1 rc2. collect_body quiet_env (sample_pipeline silent) sample_ctx = (None, rc1)
     \<and> clean_run quiet_env 1 (ps_preFilters (sample_pipeline silent)) rc1 = Some rc2
     \<and> semantic_complete quiet_env (8 * length (ps_preFilters (sample_pipeline silent)) + 3)
         (ps_semanticGroup (sample_pipeline silent)) rc2"
proof -
  obtain rc' where d: "Detect quiet_env (Some (sample_pipeline silent)) (Some sample_ctx)
      = Some (Verdict (sample_result ''log'' ActionLog), rc')" "fail_policy rc' = ''closed''"
    using sample_pass by blast
  show ?thesis
    by (rule closed_pass_is_complete[OF d]) (auto simp: sample_result_def arrivals_ok_def quiet_env_def sample_pipeline_def)
qed

end
