(* ===== verification/Worker_Pools.thy ===== *)
theory Worker_Pools
  imports Site_Admission
begin

text \<open>
  The bounded worker pools of \<open>internal/engine\<close>: the guard slots of \<open>GuardContext\<close> and
  \<open>GuardSync\<close> (\<open>sandbox.go\<close>), the body readers of \<open>EnsureBodyContext\<close> (\<open>context.go\<close>) and the
  semantic job queue of \<open>enqueueSemanticJob\<close> (\<open>pipeline.go\<close>). Each takes a permit of the site
  first, then a place of the process-wide semaphore, and gives the permit back when there is
  none. A place is held until the worker has exited, whether or not its caller still waits.
  The common contract is the locale \<open>worker_pool\<close>.
\<close>

section \<open>The contract\<close>

record pool =
  pl_slots :: nat
  pl_site :: siteAdmission

text \<open>Workers start and exit in any order; the running ones are the permits that are out.\<close>

inductive pool_run ::
    "(string \<Rightarrow> pool \<Rightarrow> siteAdmissionToken option \<times> pool) \<Rightarrow> (siteAdmissionToken \<Rightarrow> pool \<Rightarrow> pool) \<Rightarrow> pool
       \<Rightarrow> pool \<Rightarrow> siteAdmissionToken multiset \<Rightarrow> bool"
  for start finish fresh where
  fresh: "pool_run start finish fresh fresh {#}"
| start: "pool_run start finish fresh p run \<Longrightarrow> start site p = (Some t, p') \<Longrightarrow> pool_run start finish fresh p' (add_mset t run)"
| refuse: "pool_run start finish fresh p run \<Longrightarrow> start site p = (None, p') \<Longrightarrow> pool_run start finish fresh p' run"
| finish: "pool_run start finish fresh p (add_mset t run) \<Longrightarrow> pool_run start finish fresh (finish t p) run"

text \<open>A permit that is taken and given back at once leaves the registry as it was.\<close>

lemma acquire_release:
  assumes "admission_inv a out" "admission_acquire site a = ((t, True), a')"
  shows "admission_release t a' = a"
  using assms(2)
proof (cases rule: acquire_cases)
  case permit
  let ?s = "trim_space site"
  have "sa_bySite a ?s = (if permits out ?s = 0 then None else Some (int (permits out ?s)))"
    using assms(1) by (simp add: admission_inv_def)
  then have "(sa_bySite a)(?s := sa_bySite a ?s) = sa_bySite a"
    "admission_release t a' = a\<lparr>sa_bySite := (sa_bySite a)(?s := sa_bySite a ?s)\<rparr>"
    using permit by (auto simp: admission_release_def lookup_or_def Let_def split: if_splits)
  then show ?thesis by simp
qed (auto simp: admission_release_def empty_token_def)

locale worker_pool =
  fixes start :: "string \<Rightarrow> pool \<Rightarrow> siteAdmissionToken option \<times> pool"
    and finish :: "siteAdmissionToken \<Rightarrow> pool \<Rightarrow> pool"
    and fresh :: pool and cap :: nat and maxActive maxSites :: int
  assumes fresh_pool: "fresh = \<lparr>pl_slots = 0, pl_site = new_admission maxActive maxSites\<rparr>"
    and start_some: "start site p = (Some t, p') \<Longrightarrow>
      admission_acquire site (pl_site p) = ((t, True), pl_site p') \<and> pl_slots p' = Suc (pl_slots p) \<and> pl_slots p < cap"
    and start_none: "start site p = (None, p') \<Longrightarrow> pl_slots p' = pl_slots p
      \<and> ((\<exists>t. admission_acquire site (pl_site p) = ((t, False), pl_site p'))
         \<or> (\<exists>t a. admission_acquire site (pl_site p) = ((t, True), a) \<and> pl_site p' = admission_release t a))"
    and finish_law: "pl_slots (finish t p) = pl_slots p - 1 \<and> pl_site (finish t p) = admission_release t (pl_site p)"
begin

lemma pool_admission:
  "pool_run start finish fresh p run \<Longrightarrow>
   admission_run maxActive maxSites (pl_site p) run \<and> pl_slots p = size run \<and> pl_slots p \<le> cap"
proof (induction rule: pool_run.induct)
  case fresh
  then show ?case by (simp add: fresh_pool admission_run.start)
next
  case (start p run site t p')
  then show ?case using start_some[OF start.hyps(2)] admission_run.acquire by fastforce
next
  case (refuse p run site p')
  have inv: "admission_inv (pl_site p) run" using admission_run_inv refuse.IH by blast
  from start_none[OF refuse.hyps(2)] consider
      (no) t where "admission_acquire site (pl_site p) = ((t, False), pl_site p')"
    | (returned) t a where "admission_acquire site (pl_site p) = ((t, True), a)" "pl_site p' = admission_release t a"
    by blast
  then have "admission_run maxActive maxSites (pl_site p') run"
  proof cases
    case no
    then show ?thesis using refuse.IH admission_run.refuse by blast
  next
    case returned
    then show ?thesis using refuse.IH acquire_release[OF inv returned(1)] by simp
  qed
  then show ?case using refuse.IH start_none[OF refuse.hyps(2)] by simp
next
  case (finish p t run)
  then show ?case using finish_law[of t p] admission_run.release[of maxActive maxSites "pl_site p" t run] by simp
qed

lemma pool_bounds:
  assumes "pool_run start finish fresh p run"
  shows "pl_slots p = size run \<and> size run \<le> cap
    \<and> (0 < maxActive \<longrightarrow> int (permits run s) \<le> maxActive) \<and> (run = {#} \<longrightarrow> p = fresh)"
proof -
  have a: "admission_run maxActive maxSites (pl_site p) run" "pl_slots p = size run" "pl_slots p \<le> cap"
    using pool_admission[OF assms] by auto
  have inv: "admission_inv (pl_site p) run" "sa_maxActive (pl_site p) = maxActive" "sa_maxSites (pl_site p) = maxSites"
    using admission_run_inv[OF a(1)] by auto
  have "p = fresh" if "run = {#}"
  proof -
    have "sa_bySite (pl_site p) = Map.empty" using inv(1) that by (auto simp: admission_inv_def)
    then show ?thesis using a(2) inv(2,3) that by (cases p, cases "pl_site p") (simp add: fresh_pool new_admission_def)
  qed
  then show ?thesis using a inv by (simp add: admission_inv_def)
qed

end

section \<open>The pools of the engine\<close>

subsection \<open>Guards\<close>

definition maxInflightGuards :: nat where "maxInflightGuards = 128"

definition maxInflightGuardsPerSite :: int where "maxInflightGuardsPerSite = 64"

definition guard_pool :: pool where
  "guard_pool = \<lparr>pl_slots = 0, pl_site = new_admission maxInflightGuardsPerSite 1024\<rparr>"

text \<open>The admission of \<open>GuardContext\<close>; \<open>None\<close> is \<open>ErrDetectionOverload\<close>.\<close>

definition guard_start :: "string \<Rightarrow> pool \<Rightarrow> siteAdmissionToken option \<times> pool" where
  "guard_start site p =
     (case admission_acquire site (pl_site p) of
        ((t, admitted), a) \<Rightarrow>
          if \<not> admitted then (None, p\<lparr>pl_site := a\<rparr>)
          else if pl_slots p < maxInflightGuards then (Some t, p\<lparr>pl_slots := Suc (pl_slots p), pl_site := a\<rparr>)
          else (None, p\<lparr>pl_site := admission_release t a\<rparr>))"

text \<open>The deferred calls of its goroutine.\<close>

definition guard_exit :: "siteAdmissionToken \<Rightarrow> pool \<Rightarrow> pool" where
  "guard_exit t p = p\<lparr>pl_slots := pl_slots p - 1, pl_site := admission_release t (pl_site p)\<rparr>"

interpretation guards: worker_pool guard_start guard_exit guard_pool maxInflightGuards maxInflightGuardsPerSite 1024
  by unfold_locales (auto simp: guard_pool_def guard_start_def guard_exit_def split: prod.splits if_splits)

subsection \<open>Body readers\<close>

definition maxInflightBodyReads :: nat where "maxInflightBodyReads = 256"

definition maxInflightBodyReadsPerSite :: int where "maxInflightBodyReadsPerSite = 32"

definition body_pool :: pool where
  "body_pool = \<lparr>pl_slots = 0, pl_site = new_admission maxInflightBodyReadsPerSite 1024\<rparr>"

text \<open>The admission of \<open>EnsureBodyContext\<close>; \<open>None\<close> is \<open>ErrRequestBodyReadOverload\<close>.\<close>

definition body_start :: "string \<Rightarrow> pool \<Rightarrow> siteAdmissionToken option \<times> pool" where
  "body_start site p =
     (case admission_acquire site (pl_site p) of
        ((t, admitted), a) \<Rightarrow>
          if \<not> admitted then (None, p\<lparr>pl_site := a\<rparr>)
          else if pl_slots p < maxInflightBodyReads then (Some t, p\<lparr>pl_slots := Suc (pl_slots p), pl_site := a\<rparr>)
          else (None, p\<lparr>pl_site := admission_release t a\<rparr>))"

definition body_exit :: "siteAdmissionToken \<Rightarrow> pool \<Rightarrow> pool" where
  "body_exit t p = p\<lparr>pl_slots := pl_slots p - 1, pl_site := admission_release t (pl_site p)\<rparr>"

interpretation readers: worker_pool body_start body_exit body_pool maxInflightBodyReads maxInflightBodyReadsPerSite 1024
  by unfold_locales (auto simp: body_pool_def body_start_def body_exit_def split: prod.splits if_splits)

text \<open>
  C40: however detectors are started, refused and finished, and whether or not their callers
  still wait, at most 128 guarded detectors run at a time and at most 64 of one site that is in
  the registry; the slots in use are exactly the detectors that have not exited, and when all
  have exited nothing is left behind.
\<close>

theorem guard_workers_bounded:
  assumes "pool_run guard_start guard_exit guard_pool p run"
  shows "pl_slots p = size run \<and> size run \<le> 128 \<and> permits run s \<le> 64 \<and> (run = {#} \<longrightarrow> p = guard_pool)"
  using guards.pool_bounds[OF assms, of s] by (simp add: maxInflightGuards_def maxInflightGuardsPerSite_def)

text \<open>The same for body readers: at most 256, at most 32 of one site.\<close>

lemma body_readers_bounded:
  assumes "pool_run body_start body_exit body_pool p run"
  shows "pl_slots p = size run \<and> size run \<le> 256 \<and> permits run s \<le> 32 \<and> (run = {#} \<longrightarrow> p = body_pool)"
  using readers.pool_bounds[OF assms, of s] by (simp add: maxInflightBodyReads_def maxInflightBodyReadsPerSite_def)

theorem guard_workers_bounded_witness:
  "\<exists>p run. pool_run guard_start guard_exit guard_pool p run \<and> permits run ''s'' = 1 \<and> pl_slots p = 1"
proof -
  let ?t = "\<lparr>tk_site = ''s'', tk_held = True\<rparr>"
  have trim: "trim_space ''s'' = ''s''" by code_simp
  have "\<exists>p. guard_start ''s'' guard_pool = (Some ?t, p)"
    unfolding guard_start_def admission_acquire_def trim
    by (simp add: guard_pool_def new_admission_def maxInflightGuards_def maxInflightGuardsPerSite_def Let_def)
  then obtain p where "guard_start ''s'' guard_pool = (Some ?t, p)" by blast
  then have run: "pool_run guard_start guard_exit guard_pool p {#?t#}" using pool_run.start[OF pool_run.fresh] by blast
  from guard_workers_bounded[OF run, of "''s''"] run show ?thesis
    by (intro exI[of _ p] exI[of _ "{#?t#}"]) simp
qed

section \<open>The semantic job queue\<close>

definition maxSemanticJobsPerSite :: int where "maxSemanticJobsPerSite = 32"

record job_queue =
  jq_site :: siteAdmission
  jq_queue :: "siteAdmissionToken list"
  jq_workers :: nat

definition semantic_queue :: "nat \<Rightarrow> job_queue" where
  "semantic_queue procs =
     \<lparr>jq_site = new_admission maxSemanticJobsPerSite 1024, jq_queue = [],
      jq_workers = (if procs > 32 then 32 else if procs < 1 then 1 else procs)\<rparr>"

datatype enqueued = NotAdmitted | Submitted | Overloaded | CtxDone

text \<open>
  One detector of the group: its site permit and \<open>enqueueSemanticJob\<close>. The argument says whether
  \<open>select\<close> takes the branch of the ended context; it may still take a free place of the channel then.
\<close>

definition enqueueSemanticJob :: "bool \<Rightarrow> siteAdmissionToken \<Rightarrow> job_queue \<Rightarrow> enqueued \<times> job_queue" where
  "enqueueSemanticJob ctxDone t q =
     (if ctxDone then (CtxDone, q\<lparr>jq_site := admission_release t (jq_site q)\<rparr>)
      else if length (jq_queue q) < maxInflightGuards then (Submitted, q\<lparr>jq_queue := jq_queue q @ [t]\<rparr>)
      else (Overloaded, q\<lparr>jq_site := admission_release t (jq_site q)\<rparr>))"

definition submit_job :: "bool \<Rightarrow> string \<Rightarrow> job_queue \<Rightarrow> enqueued \<times> job_queue" where
  "submit_job ctxDone site q =
     (case admission_acquire site (jq_site q) of
        ((t, admitted), a) \<Rightarrow>
          if \<not> admitted then (NotAdmitted, q\<lparr>jq_site := a\<rparr>)
          else enqueueSemanticJob ctxDone t (q\<lparr>jq_site := a\<rparr>))"

text \<open>Workers take jobs in the order of the channel and give the permit back when they are done.\<close>

inductive queue_run :: "nat \<Rightarrow> job_queue \<Rightarrow> siteAdmissionToken multiset \<Rightarrow> bool" for procs where
  start: "queue_run procs (semantic_queue procs) {#}"
| submit: "queue_run procs q busy \<Longrightarrow> queue_run procs (snd (submit_job ctxDone site q)) busy"
| take: "queue_run procs q busy \<Longrightarrow> jq_queue q = t # ts \<Longrightarrow> size busy < jq_workers q
    \<Longrightarrow> queue_run procs (q\<lparr>jq_queue := ts\<rparr>) (add_mset t busy)"
| finish: "queue_run procs q (add_mset t busy)
    \<Longrightarrow> queue_run procs (q\<lparr>jq_site := admission_release t (jq_site q)\<rparr>) busy"

lemma queue_admission:
  "queue_run procs q busy \<Longrightarrow>
   admission_run maxSemanticJobsPerSite 1024 (jq_site q) (mset (jq_queue q) + busy)
     \<and> length (jq_queue q) \<le> maxInflightGuards \<and> size busy \<le> jq_workers q \<and> jq_workers q \<le> 32"
proof (induction rule: queue_run.induct)
  case start
  then show ?case by (auto simp: semantic_queue_def intro: admission_run.start)
next
  case (submit q busy ctxDone site)
  let ?out = "mset (jq_queue q) + busy"
  have inv: "admission_inv (jq_site q) ?out" using admission_run_inv submit.IH by blast
  obtain t admitted a where acq: "admission_acquire site (jq_site q) = ((t, admitted), a)" by (metis prod.collapse)
  have run: "admission_run maxSemanticJobsPerSite 1024 (jq_site q) ?out" using submit.IH by blast
  show ?case
  proof (cases admitted)
    case True
    have "admission_run maxSemanticJobsPerSite 1024 a (add_mset t ?out)"
      using admission_run.acquire[OF run, of site t a] acq True by simp
    moreover have "admission_release t a = jq_site q" using acquire_release[OF inv, of site t a] acq True by simp
    ultimately show ?thesis using submit.IH acq True by (auto simp: submit_job_def enqueueSemanticJob_def)
  next
    case False
    then show ?thesis using admission_run.refuse[OF run, of site t a] submit.IH acq by (auto simp: submit_job_def)
  qed
next
  case (take q busy t ts)
  then show ?case by simp
next
  case (finish q t busy)
  then show ?case
    using admission_run.release[of maxSemanticJobsPerSite 1024 "jq_site q" t "mset (jq_queue q) + busy"] by simp
qed

text \<open>
  At most 32 semantic jobs of one registered site wait or run together, whatever the
  interleaving of submissions, cancellations, full queues and workers: the shared queue and the
  workers cannot be taken by one site.
\<close>

theorem semantic_jobs_fair:
  assumes "queue_run procs q busy"
  shows "permits (mset (jq_queue q) + busy) s \<le> 32 \<and> length (jq_queue q) \<le> 128 \<and> size busy \<le> 32
    \<and> lookup_or 0 (sa_bySite (jq_site q)) s = int (permits (mset (jq_queue q) + busy) s)"
proof -
  let ?out = "mset (jq_queue q) + busy"
  have a: "admission_run maxSemanticJobsPerSite 1024 (jq_site q) ?out" "length (jq_queue q) \<le> maxInflightGuards"
      "size busy \<le> jq_workers q" "jq_workers q \<le> 32"
    using queue_admission[OF assms] by auto
  have inv: "admission_inv (jq_site q) ?out" "sa_maxActive (jq_site q) = 32"
    using admission_run_inv[OF a(1)] by (auto simp: maxSemanticJobsPerSite_def)
  then have "int (permits ?out s) \<le> 32" "sa_bySite (jq_site q) s = (if permits ?out s = 0 then None else Some (int (permits ?out s)))"
    by (auto simp: admission_inv_def)
  then show ?thesis using a by (auto simp: maxInflightGuards_def lookup_or_def)
qed

theorem semantic_jobs_fair_witness:
  "\<exists>q. queue_run 4 q {#} \<and> permits (mset (jq_queue q)) ''s'' = 1 \<and> lookup_or 0 (sa_bySite (jq_site q)) ''s'' = 1"
proof -
  let ?q = "snd (submit_job False ''s'' (semantic_queue 4))"
  have trim: "trim_space ''s'' = ''s''" by code_simp
  have run: "queue_run 4 ?q {#}" by (rule queue_run.submit[OF queue_run.start])
  have "jq_queue ?q = [\<lparr>tk_site = ''s'', tk_held = True\<rparr>]"
    unfolding submit_job_def admission_acquire_def trim
    by (simp add: semantic_queue_def new_admission_def enqueueSemanticJob_def maxInflightGuards_def maxSemanticJobsPerSite_def Let_def)
  then have "permits (mset (jq_queue ?q)) ''s'' = 1" by simp
  with semantic_jobs_fair[OF run, of "''s''"] run show ?thesis by (intro exI[of _ ?q]) simp
qed

end
