(* ===== verification/Body_Reader.thy ===== *)
theory Body_Reader
  imports Pipeline Worker_Pools
begin

text \<open>
  \<open>internal/engine/context.go\<close>: reading a request body once, into a bounded buffer that is
  charged to a process-wide and a per-site byte budget, and publishing it as the immutable
  snapshot detectors and the upstream see. A reader is the list of what its calls of \<open>Read\<close>
  deliver; reading past the list is the end of the stream. Cancellation and the idle timeout
  come from other goroutines: \<open>re_abort\<close> says, at every moment, what error the attempt was ended
  with. \<open>reclaimBodyBudget\<close> waits for other requests and for the garbage collector; its outcome
  is an argument. Content decoding (gzip, deflate) is an argument of the worker.
\<close>

subsection \<open>The byte budget\<close>

definition defaultRequestBodyLimit :: int where "defaultRequestBodyLimit = 8 * 2 ^ 20"
definition maxBodyBytesPerSite :: int where "maxBodyBytesPerSite = 64 * 2 ^ 20"
definition maxBodyBytesGlobal :: int where "maxBodyBytesGlobal = 256 * 2 ^ 20"
definition bodyReadChunkBytes :: int where "bodyReadChunkBytes = 32 * 2 ^ 10"

definition ErrRequestBodyTooLarge :: det_error where
  "ErrRequestBodyTooLarge = ErrRequestBody ''request body exceeds configured limit''"
definition ErrRequestBodyReadOverload :: det_error where
  "ErrRequestBodyReadOverload = ErrRequestBody ''request body inspection overloaded''"
definition ErrRequestBodyReadTimeout :: det_error where
  "ErrRequestBodyReadTimeout = ErrRequestBody ''request body read idle timeout''"
definition ErrNoProgress :: det_error where
  "ErrNoProgress = OtherError ''multiple Read calls return no data or error''"

record bodyBudget =
  bb_global :: int
  bb_bySite :: "string \<rightharpoonup> int"

definition reserveBodyBudget :: "string \<Rightarrow> int \<Rightarrow> bodyBudget \<Rightarrow> bool \<times> bodyBudget" where
  "reserveBodyBudget siteID amount b =
     (if amount \<le> 0 \<or> amount > maxBodyBytesPerSite then (False, b)
      else if bb_global b + amount > maxBodyBytesGlobal then (False, b)
      else if lookup_or 0 (bb_bySite b) siteID + amount > maxBodyBytesPerSite then (False, b)
      else (True, \<lparr>bb_global = bb_global b + amount,
                   bb_bySite = (bb_bySite b)(siteID \<mapsto> lookup_or 0 (bb_bySite b) siteID + amount)\<rparr>))"

definition releaseRetainedBodyBudget :: "string \<Rightarrow> int \<Rightarrow> bodyBudget \<Rightarrow> bodyBudget" where
  "releaseRetainedBodyBudget siteID bytes b =
     (let left = lookup_or 0 (bb_bySite b) siteID - bytes
      in \<lparr>bb_global = bb_global b - bytes,
          bb_bySite = (if left \<le> 0 then (bb_bySite b)(siteID := None) else (bb_bySite b)(siteID \<mapsto> left))\<rparr>)"

subsection \<open>Readers\<close>

datatype read_err = EOF | MaxBytesError | ReadFailed string

text \<open>The error a failed \<open>Read\<close> is reported with; that of \<open>http.MaxBytesReader\<close> has its own type.\<close>

fun read_failure :: "read_err \<Rightarrow> det_error" where
  "read_failure MaxBytesError = ErrRequestBody ''http: request body too large''"
| "read_failure (ReadFailed msg) = OtherError msg"
| "read_failure EOF = OtherError ''EOF''"

type_synonym reader = "(string \<times> read_err option) list"

text \<open>One \<open>Read\<close> into a buffer of \<open>k\<close> bytes.\<close>

fun reader_Read :: "nat \<Rightarrow> reader \<Rightarrow> string \<times> read_err option \<times> reader" where
  "reader_Read k [] = ([], Some EOF, [])"
| "reader_Read k ((d, e) # rd) = (if length d \<le> k then (d, e, rd) else (take k d, None, (drop k d, e) # rd))"

record read_env =
  re_site :: string
  re_abort :: "nat \<Rightarrow> det_error option"
  re_reclaim :: "nat \<Rightarrow> int \<Rightarrow> bodyBudget \<Rightarrow> bool \<times> bodyBudget"

record read_state =
  rs_buffer :: string
  rs_cap :: int
  rs_empty :: nat
  rs_reader :: reader
  rs_budget :: bodyBudget
  rs_reserved :: int

text \<open>\<open>reserveBodyBudget\<close> of the request context: two looks at \<open>bodyLoaded\<close> around the reservation.\<close>

definition ctx_reserve :: "read_env \<Rightarrow> nat \<Rightarrow> int \<Rightarrow> read_state \<Rightarrow> bool \<times> read_state" where
  "ctx_reserve env i amount st =
     (if re_abort env (3 * i + 1) \<noteq> None then (False, st)
      else case (case reserveBodyBudget (re_site env) amount (rs_budget st) of
                   (True, b) \<Rightarrow> (True, b) | (False, b) \<Rightarrow> re_reclaim env i amount b) of
          (False, b) \<Rightarrow> (False, st\<lparr>rs_budget := b\<rparr>)
        | (True, b) \<Rightarrow>
            if re_abort env (3 * i + 2) \<noteq> None
            then (False, st\<lparr>rs_budget := releaseRetainedBodyBudget (re_site env) amount b\<rparr>)
            else (True, st\<lparr>rs_budget := b, rs_reserved := rs_reserved st + amount\<rparr>))"

definition grow_capacity :: "int \<Rightarrow> int \<Rightarrow> int" where
  "grow_capacity maxBodyBytes cap =
     (let capacity = max bodyReadChunkBytes (2 * cap);
          capacity = (if capacity > maxBodyBytes then maxBodyBytes else capacity)
      in max capacity 32)"

definition grow_buffer :: "read_env \<Rightarrow> nat \<Rightarrow> int \<Rightarrow> read_state \<Rightarrow> bool \<times> read_state" where
  "grow_buffer env i maxBodyBytes st =
     (if int (length (rs_buffer st)) \<noteq> rs_cap st then (True, st)
      else let capacity = grow_capacity maxBodyBytes (rs_cap st) in
        case ctx_reserve env i (capacity - rs_cap st) st of
          (False, st1) \<Rightarrow> (False, st1)
        | (True, st1) \<Rightarrow> (True, st1\<lparr>rs_cap := capacity\<rparr>))"

definition compactBodyBuffer :: "string \<Rightarrow> read_state \<Rightarrow> read_state" where
  "compactBodyBuffer site st =
     (let len = int (length (rs_buffer st)); capacity = (if len = 0 then 0 else max len 32) in
      if capacity \<ge> rs_cap st then st
      else let unused = rs_cap st - capacity
        in st\<lparr>rs_cap := capacity, rs_reserved := rs_reserved st - unused,
              rs_budget := releaseRetainedBodyBudget site unused (rs_budget st)\<rparr>)"

text \<open>
  One iteration of the loop of \<open>readBodyWithBudget\<close>, the \<open>i\<close>-th: it returns, or goes on with a new
  state. The budget of consecutive empty reads is 100.
\<close>

definition empty_read :: "nat \<Rightarrow> read_state \<Rightarrow> ((det_error + string) \<times> read_state) + read_state" where
  "empty_read emptyReads st =
     (if emptyReads + 1 \<ge> 100 then Inl (Inl ErrNoProgress, st) else Inr (st\<lparr>rs_empty := emptyReads + 1\<rparr>))"

definition read_done :: "read_env \<Rightarrow> read_err \<Rightarrow> read_state \<Rightarrow> (det_error + string) \<times> read_state" where
  "read_done env e st =
     (if e = EOF then (Inr (rs_buffer st), compactBodyBuffer (re_site env) st) else (Inl (read_failure e), st))"

definition read_step :: "read_env \<Rightarrow> int \<Rightarrow> nat \<Rightarrow> read_state \<Rightarrow> ((det_error + string) \<times> read_state) + read_state" where
  "read_step env maxBodyBytes i st =
     (case re_abort env (3 * i) of
        Some e \<Rightarrow> Inl (Inl e, st)
      | None \<Rightarrow>
          if int (length (rs_buffer st)) \<ge> maxBodyBytes then
            (case reader_Read 1 (rs_reader st) of
               (data, err, rd) \<Rightarrow>
                 let st1 = st\<lparr>rs_reader := rd\<rparr> in
                 if data \<noteq> [] then Inl (Inl ErrRequestBodyTooLarge, st1)
                 else (case err of Some e \<Rightarrow> Inl (read_done env e st1) | None \<Rightarrow> empty_read (rs_empty st) st1))
          else
            (case grow_buffer env i maxBodyBytes st of
               (False, st1) \<Rightarrow> Inl (Inl ErrRequestBodyReadOverload, st1)
             | (True, st1) \<Rightarrow>
                 (case reader_Read (nat (min (rs_cap st1) maxBodyBytes - int (length (rs_buffer st)))) (rs_reader st1) of
                    (data, err, rd) \<Rightarrow>
                      let st2 = st1\<lparr>rs_reader := rd, rs_buffer := rs_buffer st @ data,
                                    rs_empty := (if data \<noteq> [] then 0 else rs_empty st)\<rparr> in
                      (case err of
                         Some e \<Rightarrow> Inl (read_done env e st2)
                       | None \<Rightarrow> if data \<noteq> [] then Inr st2 else empty_read (rs_empty st) st2))))"

lemma read_step_decreases:
  assumes "read_step env m i st = Inr st'"
  shows "nat (m - int (length (rs_buffer st'))) < nat (m - int (length (rs_buffer st)))
    \<or> nat (m - int (length (rs_buffer st'))) = nat (m - int (length (rs_buffer st))) \<and> 100 - rs_empty st' < 100 - rs_empty st"
  using assms
  by (auto simp: read_step_def empty_read_def Let_def split: option.splits if_splits prod.splits bool.splits)

function read_loop :: "read_env \<Rightarrow> int \<Rightarrow> nat \<Rightarrow> read_state \<Rightarrow> (det_error + string) \<times> read_state" where
  "read_loop env maxBodyBytes i st =
     (case read_step env maxBodyBytes i st of
        Inl result \<Rightarrow> result | Inr st' \<Rightarrow> read_loop env maxBodyBytes (i + 1) st')"
  by pat_completeness auto
termination
  by (relation "measures [\<lambda>(_, maxBodyBytes, _, st). nat (maxBodyBytes - int (length (rs_buffer st))),
                          \<lambda>(_, _, _, st). 100 - rs_empty st]") (auto dest: read_step_decreases)

declare read_loop.simps [simp del]

definition readBodyWithBudget :: "read_env \<Rightarrow> int \<Rightarrow> reader \<Rightarrow> bodyBudget \<Rightarrow> int \<Rightarrow> (det_error + string) \<times> read_state" where
  "readBodyWithBudget env maxBodyBytes rd b reserved =
     read_loop env maxBodyBytes 0
       \<lparr>rs_buffer = [], rs_cap = 0, rs_empty = 0, rs_reader = rd, rs_budget = b, rs_reserved = reserved\<rparr>"

subsection \<open>Decoding and publishing\<close>

definition maxDecompressionRatio :: int where "maxDecompressionRatio = 20"

definition decode_limit :: "string \<Rightarrow> int \<Rightarrow> int" where
  "decode_limit raw maxPlain =
     (let ratioCap = int (length raw) * maxDecompressionRatio
      in if ratioCap > 0 \<and> ratioCap < maxPlain then ratioCap else maxPlain)"

definition decodeHTTPContentEncoding ::
    "(string \<Rightarrow> string \<Rightarrow> string + reader) \<Rightarrow> read_env \<Rightarrow> string \<Rightarrow> string \<Rightarrow> int \<Rightarrow> bodyBudget \<Rightarrow> int
       \<Rightarrow> (det_error + string) \<times> bodyBudget \<times> int" where
  "decodeHTTPContentEncoding inflate env raw encoding maxPlain b reserved =
     (if CHR '','' \<in> set encoding then (Inl (OtherError ''unsupported multi-layer content-encoding''), b, reserved)
      else if encoding \<in> {''gzip'', ''x-gzip'', ''deflate''} then
        (case inflate encoding raw of
           Inl msg \<Rightarrow> (Inl (OtherError msg), b, reserved)
         | Inr rd \<Rightarrow>
             (case readBodyWithBudget env (decode_limit raw maxPlain) rd b reserved of
                (result, st) \<Rightarrow> (result, rs_budget st, rs_reserved st)))
      else (Inl (OtherError (''unsupported content-encoding for inspection: '' @ encoding)), b, reserved))"

text \<open>The body of \<open>readBodyWorker\<close> up to \<open>finishBodyRead\<close>.\<close>

definition readBodyWorker ::
    "(string \<Rightarrow> string \<Rightarrow> string + reader) \<Rightarrow> read_env \<Rightarrow> read_env \<Rightarrow> reader \<Rightarrow> int \<Rightarrow> string \<Rightarrow> bodyBudget
       \<Rightarrow> (det_error + string \<times> string) \<times> bodyBudget \<times> int" where
  "readBodyWorker inflate env env2 rd maxBodyBytes encoding b0 =
     (case readBodyWithBudget env maxBodyBytes rd b0 0 of
        (Inl e, st) \<Rightarrow>
          (Inl (if e = read_failure MaxBytesError then ErrRequestBodyTooLarge else e), rs_budget st, rs_reserved st)
      | (Inr raw, st) \<Rightarrow>
          if int (length raw) > maxBodyBytes then (Inl ErrRequestBodyTooLarge, rs_budget st, rs_reserved st)
          else if encoding \<noteq> [] \<and> encoding \<noteq> ''identity'' then
            (case decodeHTTPContentEncoding inflate env2 raw encoding maxBodyBytes (rs_budget st) (rs_reserved st) of
               (Inl e, b, reserved) \<Rightarrow> (Inl e, b, reserved)
             | (Inr decoded, b, reserved) \<Rightarrow> (Inr (raw, decoded), b, reserved))
          else (Inr (raw, raw), rs_budget st, rs_reserved st))"

definition releaseBodyBudgetLocked :: "RequestContext \<Rightarrow> bodyBudget \<Rightarrow> RequestContext \<times> bodyBudget" where
  "releaseBodyBudgetLocked c b =
     (if \<not> rc_bodyReservationHeld c then (c, b)
      else (c\<lparr>rc_bodyReservation := 0, rc_bodyReservationHeld := False\<rparr>,
            releaseRetainedBodyBudget (rc_SiteID c) (rc_bodyReservation c) b))"

definition publish_body :: "string \<Rightarrow> string \<Rightarrow> RequestContext \<Rightarrow> RequestContext" where
  "publish_body raw decoded c =
     c\<lparr>rc_rawBody := raw, rc_DecodedBody := decoded,
       rc_Request := map_option (\<lambda>r. let body = (if raw = [] then NoBody else Reader raw) in
         r\<lparr>hr_Body := Some body, hr_GetBody := Some (Some body), hr_ContentLength := int (length raw)\<rparr>) (rc_Request c)\<rparr>"

text \<open>
  Published buffers stay charged to the budget until the garbage collector frees them, so their
  reservation leaves the context without being released.
\<close>

definition finishBodyRead ::
    "det_error + string \<times> string \<Rightarrow> RequestContext \<Rightarrow> bodyBudget \<Rightarrow> RequestContext \<times> bodyBudget" where
  "finishBodyRead result c b =
     (if rc_bodyLoaded c then releaseBodyBudgetLocked c b
      else case result of
        Inl e \<Rightarrow> releaseBodyBudgetLocked (c\<lparr>rc_bodyErr := Some e, rc_bodyLoaded := True\<rparr>) b
      | Inr (raw, decoded) \<Rightarrow>
          (case (if raw = [] then releaseBodyBudgetLocked c b
                 else (c\<lparr>rc_bodyReservation := 0, rc_bodyReservationHeld := False\<rparr>, b)) of
             (c1, b1) \<Rightarrow>
               releaseBodyBudgetLocked
                 ((publish_body raw (if raw = [] then [] else decoded) c1)\<lparr>rc_bodyErr := None, rc_bodyLoaded := True\<rparr>) b1))"

definition abortBodyRead :: "det_error \<Rightarrow> RequestContext \<Rightarrow> det_error option \<times> RequestContext" where
  "abortBodyRead ctxErr c =
     (if rc_bodyLoaded c then (rc_bodyErr c, c)
      else (Some ctxErr, c\<lparr>rc_bodyErr := Some ctxErr, rc_bodyLoaded := True\<rparr>))"

text \<open>
  \<open>EnsureBodyContext\<close> up to the point where it waits: an answer, an attempt that is already
  under way, or a started worker with its permit.
\<close>

datatype ensure_step = Answered "det_error option" | Waiting | Started siteAdmissionToken

definition empty_replay :: "RequestContext \<Rightarrow> RequestContext" where
  "empty_replay c =
     c\<lparr>rc_Request := map_option (\<lambda>r. r\<lparr>hr_Body := Some NoBody, hr_GetBody := Some (Some NoBody), hr_ContentLength := 0\<rparr>)
         (rc_Request c)\<rparr>"

definition EnsureBodyContext :: "RequestContext \<Rightarrow> pool \<Rightarrow> bodyBudget \<Rightarrow> ensure_step \<times> RequestContext \<times> pool \<times> bodyBudget" where
  "EnsureBodyContext c p b =
     (let body = (case rc_Request c of None \<Rightarrow> None | Some r \<Rightarrow> hr_Body r);
          maxBodyBytes = (if rc_maxBodyBytes c \<le> 0 then defaultRequestBodyLimit else rc_maxBodyBytes c);
          contentLength = (case rc_Request c of None \<Rightarrow> 0 | Some r \<Rightarrow> hr_ContentLength r) in
      if rc_bodyLoaded c \<or> rc_bodyErr c \<noteq> None then (Answered (rc_bodyErr c), c, p, b)
      else if body = None then
        (Answered None,
         (if rc_DecodedBody c \<noteq> [] then publish_body (rc_DecodedBody c) (rc_DecodedBody c) c else empty_replay c)
           \<lparr>rc_bodyLoaded := True\<rparr>, p, b)
      else if contentLength > maxBodyBytes then
        (Answered (Some ErrRequestBodyTooLarge),
         c\<lparr>rc_bodyErr := Some ErrRequestBodyTooLarge, rc_bodyLoaded := True\<rparr>, p, b)
      else if rc_bodyReadStarted c then (Waiting, c, p, b)
      else let c1 = c\<lparr>rc_bodyReadStarted := True, rc_rawBody := [], rc_DecodedBody := []\<rparr> in
        (case body_start (rc_SiteID c) p of
           (Some t, p1) \<Rightarrow> (Started t, c1, p1, b)
         | (None, p1) \<Rightarrow>
             (case finishBodyRead (Inl ErrRequestBodyReadOverload) c1 b of
                (c2, b1) \<Rightarrow> (Answered (Some ErrRequestBodyReadOverload), c2, p1, b1))))"

end
