(* ===== verification/Body_Properties.thy ===== *)
theory Body_Properties
  imports Body_Reader
begin

text \<open>
  Properties of the body reader: a body that is accepted is exactly what the stream delivered,
  never a prefix and never more than the limit; the budget always equals what is outstanding;
  an attempt that was ended publishes nothing afterwards.
\<close>

section \<open>The budget equals what is outstanding\<close>

text \<open>
  Reservations that are outstanding, in any interleaving of requests: successive reservations of
  one buffer add up, and compaction gives a part back.
\<close>

inductive budget_run :: "bodyBudget \<Rightarrow> (string \<times> int) multiset \<Rightarrow> bool" where
  start: "budget_run \<lparr>bb_global = 0, bb_bySite = Map.empty\<rparr> {#}"
| reserve: "budget_run b out \<Longrightarrow> reserveBodyBudget s n b = (True, b') \<Longrightarrow> budget_run b' (add_mset (s, n) out)"
| refuse: "budget_run b out \<Longrightarrow> reserveBodyBudget s n b = (False, b') \<Longrightarrow> budget_run b' out"
| join: "budget_run b (add_mset (s, m) (add_mset (s, n) out)) \<Longrightarrow> budget_run b (add_mset (s, m + n) out)"
| divide: "budget_run b (add_mset (s, m + n) out) \<Longrightarrow> 0 < m \<Longrightarrow> 0 < n \<Longrightarrow>
    budget_run b (add_mset (s, m) (add_mset (s, n) out))"
| release: "budget_run b (add_mset (s, n) out) \<Longrightarrow> budget_run (releaseRetainedBodyBudget s n b) out"

definition outstanding :: "(string \<times> int) multiset \<Rightarrow> int" where
  "outstanding out = (\<Sum>x\<in>#out. snd x)"

definition site_total :: "string \<Rightarrow> (string \<times> int) multiset \<Rightarrow> int" where
  "site_total s out = (\<Sum>x\<in>#out. if fst x = s then snd x else 0)"

lemma outstanding_simps [simp]: "outstanding {#} = 0" "outstanding (add_mset x out) = snd x + outstanding out"
  by (simp_all add: outstanding_def)

lemma site_total_simps [simp]:
  "site_total s {#} = 0" "site_total s (add_mset x out) = (if fst x = s then snd x else 0) + site_total s out"
  by (simp_all add: site_total_def)

definition budget_inv :: "bodyBudget \<Rightarrow> (string \<times> int) multiset \<Rightarrow> bool" where
  "budget_inv b out \<longleftrightarrow> bb_global b = outstanding out \<and> bb_global b \<le> maxBodyBytesGlobal \<and> (\<forall>x\<in>#out. 0 < snd x)
     \<and> (\<forall>s. bb_bySite b s = (if site_total s out = 0 then None else Some (site_total s out)))
     \<and> (\<forall>s. site_total s out \<le> maxBodyBytesPerSite)"

lemma site_total_nonneg: "\<forall>x\<in>#out. 0 < snd x \<Longrightarrow> 0 \<le> site_total s out"
  by (induction out) auto

lemma budget_lookup: "budget_inv b out \<Longrightarrow> lookup_or 0 (bb_bySite b) s = site_total s out"
  by (auto simp: budget_inv_def lookup_or_def)

lemma budget_inv_regroup:
  assumes "budget_inv b out" "outstanding out' = outstanding out" "\<And>s. site_total s out' = site_total s out" "\<forall>x\<in>#out'. 0 < snd x"
  shows "budget_inv b out'"
  using assms by (simp add: budget_inv_def)

lemma budget_run_inv: "budget_run b out \<Longrightarrow> budget_inv b out"
proof (induction rule: budget_run.induct)
  case start
  then show ?case by (simp add: budget_inv_def maxBodyBytesGlobal_def maxBodyBytesPerSite_def)
next
  case (reserve b out s n b')
  note look = budget_lookup[OF reserve.IH, of s]
  have n: "0 < n" "bb_global b + n \<le> maxBodyBytesGlobal" "site_total s out + n \<le> maxBodyBytesPerSite"
    "b' = \<lparr>bb_global = bb_global b + n, bb_bySite = (bb_bySite b)(s \<mapsto> site_total s out + n)\<rparr>"
    using reserve.hyps(2) look by (auto simp: reserveBodyBudget_def split: if_splits)
  have "0 \<le> site_total s out" using reserve.IH site_total_nonneg by (auto simp: budget_inv_def)
  then show ?case using reserve.IH n by (auto simp: budget_inv_def)
next
  case (refuse b out s n b')
  then show ?case by (auto simp: reserveBodyBudget_def split: if_splits)
next
  case (release b s n out)
  note look = budget_lookup[OF release.IH, of s]
  have pos: "0 < n" "\<forall>x\<in>#out. 0 < snd x" using release.IH by (auto simp: budget_inv_def)
  have left: "lookup_or 0 (bb_bySite b) s - n = site_total s out" using look by simp
  have site: "bb_bySite b x = (if site_total x (add_mset (s, n) out) = 0 then None else Some (site_total x (add_mset (s, n) out)))" for x
    using release.IH by (simp add: budget_inv_def)
  have "bb_bySite (releaseRetainedBodyBudget s n b) x = (if site_total x out = 0 then None else Some (site_total x out))" for x
    using site[of x] site_total_nonneg[OF pos(2), of s]
    by (simp add: releaseRetainedBodyBudget_def Let_def left del: site_total_simps(2)) (simp split: if_splits)
  moreover have "site_total x out \<le> maxBodyBytesPerSite" for x
  proof -
    have "site_total x (add_mset (s, n) out) \<le> maxBodyBytesPerSite" using release.IH unfolding budget_inv_def by blast
    then show ?thesis using pos(1) by (simp split: if_splits)
  qed
  moreover have "bb_global (releaseRetainedBodyBudget s n b) = outstanding out" "outstanding out \<le> maxBodyBytesGlobal"
    using release.IH pos(1) by (simp_all add: budget_inv_def releaseRetainedBodyBudget_def Let_def)
  ultimately show ?case using pos(2) by (simp add: budget_inv_def)
next
  case (join b s m n out)
  have "\<forall>x\<in>#add_mset (s, m + n) out. 0 < snd x" using join.IH by (auto simp: budget_inv_def)
  then show ?case by (intro budget_inv_regroup[OF join.IH]) simp_all
next
  case (divide b s m n out)
  have "\<forall>x\<in>#add_mset (s, m) (add_mset (s, n) out). 0 < snd x" using divide.IH divide.hyps by (auto simp: budget_inv_def)
  then show ?case by (intro budget_inv_regroup[OF divide.IH]) simp_all
qed

text \<open>
  C38: in every interleaving of reservations, refusals, compactions and releases the global
  counter and the counter of every site are the bytes that are outstanding, within 256 and 64
  megabytes; when everything was given back the budget is as it started.
\<close>

theorem body_budget_balanced:
  assumes "budget_run b out"
  shows "bb_global b = outstanding out \<and> outstanding out \<le> 256 * 2 ^ 20
    \<and> lookup_or 0 (bb_bySite b) s = site_total s out \<and> site_total s out \<le> 64 * 2 ^ 20
    \<and> (out = {#} \<longrightarrow> b = \<lparr>bb_global = 0, bb_bySite = Map.empty\<rparr>)"
proof -
  note inv = budget_run_inv[OF assms]
  have "b = \<lparr>bb_global = 0, bb_bySite = Map.empty\<rparr>" if "out = {#}"
    using inv that by (cases b) (auto simp: budget_inv_def)
  then show ?thesis
    using inv budget_lookup[OF inv, of s] by (simp add: budget_inv_def maxBodyBytesGlobal_def maxBodyBytesPerSite_def)
qed

section \<open>What is read\<close>

fun script_data :: "reader \<Rightarrow> string" where
  "script_data [] = []"
| "script_data ((d, e) # rd) = d @ (case e of None \<Rightarrow> script_data rd | Some _ \<Rightarrow> [])"

fun script_end :: "reader \<Rightarrow> read_err" where
  "script_end [] = EOF"
| "script_end ((d, e) # rd) = (case e of None \<Rightarrow> script_end rd | Some x \<Rightarrow> x)"

lemma Read_spec:
  assumes "reader_Read k rd = (d, e, rd')"
  shows "script_data rd = d @ (case e of None \<Rightarrow> script_data rd' | Some _ \<Rightarrow> [])"
    and "script_end rd = (case e of None \<Rightarrow> script_end rd' | Some x \<Rightarrow> x)"
    and "length d \<le> k"
  using assms by (cases "(k, rd)" rule: reader_Read.cases; auto split: if_splits)+

lemma grow_buffer_keeps:
  "grow_buffer env i m st = (ok, st') \<Longrightarrow> rs_buffer st' = rs_buffer st \<and> rs_reader st' = rs_reader st \<and> rs_empty st' = rs_empty st"
  by (auto simp: grow_buffer_def ctx_reserve_def Let_def split: if_splits prod.splits bool.splits)

lemma read_step_sound:
  assumes "read_step env m i st = res"
  shows "case res of
      Inr st' \<Rightarrow> rs_buffer st' @ script_data (rs_reader st') = rs_buffer st @ script_data (rs_reader st)
        \<and> script_end (rs_reader st') = script_end (rs_reader st)
        \<and> (int (length (rs_buffer st)) \<le> m \<longrightarrow> int (length (rs_buffer st')) \<le> m)
    | Inl (Inr body, st') \<Rightarrow> body = rs_buffer st @ script_data (rs_reader st) \<and> script_end (rs_reader st) = EOF
        \<and> (int (length (rs_buffer st)) \<le> m \<longrightarrow> int (length body) \<le> m)
    | _ \<Rightarrow> True"
proof (cases "re_abort env (3 * i)")
  case None
  show ?thesis
  proof (cases "m \<le> int (length (rs_buffer st))")
    case True
    obtain d e rd where r: "reader_Read 1 (rs_reader st) = (d, e, rd)" by (metis prod_cases3)
    show ?thesis
      using assms None True r Read_spec[OF r]
      by (auto simp: read_step_def empty_read_def read_done_def Let_def split: option.splits if_splits)
  next
    case False
    obtain ok st1 where g: "grow_buffer env i m st = (ok, st1)" by fastforce
    let ?k = "nat (min (rs_cap st1) m - int (length (rs_buffer st)))"
    obtain d e rd where r: "reader_Read ?k (rs_reader st1) = (d, e, rd)" by (metis prod_cases3)
    have "int (length (rs_buffer st @ d)) \<le> m" using Read_spec(3)[OF r] False by simp
    then show ?thesis
      using assms None False g r Read_spec(1,2)[OF r] grow_buffer_keeps[OF g]
      by (cases ok; cases e)
        (auto simp: read_step_def empty_read_def read_done_def Let_def split: if_splits)
  qed
qed (use assms in \<open>auto simp: read_step_def\<close>)

lemma read_loop_sound:
  "read_loop env m i st = (Inr body, st') \<Longrightarrow>
   body = rs_buffer st @ script_data (rs_reader st) \<and> script_end (rs_reader st) = EOF
     \<and> (int (length (rs_buffer st)) \<le> m \<longrightarrow> int (length body) \<le> m)"
proof (induction env m i st rule: read_loop.induct)
  case (1 env m i st)
  show ?case
    using "1.prems" "1.IH" read_step_sound[of env m i st]
    by (subst (asm) read_loop.simps) (auto split: sum.splits)
qed

section \<open>Every body within the limit is read\<close>

text \<open>Fewer than a hundred empty reads in a row, counting from \<open>n\<close>.\<close>

fun patient :: "nat \<Rightarrow> reader \<Rightarrow> bool" where
  "patient n [] \<longleftrightarrow> True"
| "patient n ((d, e) # rd) \<longleftrightarrow>
     e \<noteq> None \<or> (if d = [] then n + 1 < 100 \<and> patient (n + 1) rd else patient 0 rd)"

lemma Read_patient:
  assumes "reader_Read k rd = (d, None, rd')" "patient n rd" "0 < k"
  shows "if d = [] then n + 1 < 100 \<and> patient (n + 1) rd' else patient 0 rd'"
  using assms by (cases "(k, rd)" rule: reader_Read.cases) (auto split: if_splits)

text \<open>What the budget must still have, and what the loop has taken of it.\<close>

definition room :: "read_env \<Rightarrow> int \<Rightarrow> bodyBudget \<Rightarrow> bool" where
  "room env m b \<longleftrightarrow> 0 \<le> lookup_or 0 (bb_bySite b) (re_site env) \<and> bb_global b + max 32 m \<le> maxBodyBytesGlobal
     \<and> lookup_or 0 (bb_bySite b) (re_site env) + max 32 m \<le> maxBodyBytesPerSite"

definition charged :: "read_env \<Rightarrow> int \<Rightarrow> bodyBudget \<Rightarrow> int \<Rightarrow> read_state \<Rightarrow> bool" where
  "charged env m b r0 st \<longleftrightarrow> int (length (rs_buffer st)) \<le> rs_cap st \<and> rs_cap st \<le> max 32 m \<and> 0 \<le> rs_cap st
     \<and> bb_global (rs_budget st) = bb_global b + rs_cap st
     \<and> lookup_or 0 (bb_bySite (rs_budget st)) (re_site env) = lookup_or 0 (bb_bySite b) (re_site env) + rs_cap st
     \<and> rs_reserved st = r0 + rs_cap st"

lemma grow_capacity_bounds: "0 \<le> cap \<Longrightarrow> cap < m \<Longrightarrow> cap < grow_capacity m cap \<and> grow_capacity m cap \<le> max 32 m"
  by (auto simp: grow_capacity_def Let_def bodyReadChunkBytes_def)

lemma grow_buffer_room:
  assumes "room env m b" "charged env m b r0 st" "int (length (rs_buffer st)) < m" "\<forall>j. re_abort env j = None"
  shows "\<exists>st1. grow_buffer env i m st = (True, st1) \<and> charged env m b r0 st1
    \<and> int (length (rs_buffer st1)) < rs_cap st1"
proof (cases "int (length (rs_buffer st)) = rs_cap st")
  case True
  let ?c = "grow_capacity m (rs_cap st)"
  have c: "rs_cap st < ?c" "?c \<le> max 32 m"
    using grow_capacity_bounds[of "rs_cap st" m] assms(2,3) True by (auto simp: charged_def)
  have "reserveBodyBudget (re_site env) (?c - rs_cap st) (rs_budget st)
      = (True, \<lparr>bb_global = bb_global (rs_budget st) + (?c - rs_cap st),
          bb_bySite = (bb_bySite (rs_budget st))(re_site env \<mapsto>
            lookup_or 0 (bb_bySite (rs_budget st)) (re_site env) + (?c - rs_cap st))\<rparr>)"
    using assms(1,2) c by (auto simp: reserveBodyBudget_def room_def charged_def)
  then show ?thesis
    using True assms(2,4) c by (auto simp: grow_buffer_def ctx_reserve_def Let_def charged_def)
next
  case False
  then show ?thesis using assms(2) by (auto simp: grow_buffer_def charged_def)
qed

lemma read_loop_complete:
  assumes "room env m b" "charged env m b r0 st" "\<forall>j. re_abort env j = None" "patient (rs_empty st) (rs_reader st)"
    and "0 \<le> m" "int (length (rs_buffer st)) \<le> m"
  shows "fst (read_loop env m i st) =
    (if m < int (length (rs_buffer st @ script_data (rs_reader st))) then Inl ErrRequestBodyTooLarge
     else if script_end (rs_reader st) = EOF then Inr (rs_buffer st @ script_data (rs_reader st))
     else Inl (read_failure (script_end (rs_reader st))))"
  using assms
proof (induction env m i st rule: read_loop.induct)
  case (1 env m i st)
  note IH = "1.IH"[OF _ "1.prems"(1) _ "1.prems"(3) _ "1.prems"(5)]
  show ?case
  proof (cases "m \<le> int (length (rs_buffer st))")
    case True
    obtain d e rd where r: "reader_Read 1 (rs_reader st) = (d, e, rd)" by (metis prod_cases3)
    note spec = Read_spec[OF r]
    show ?thesis
    proof (cases "e = None \<and> d = []")
      case empty: True
      let ?st = "st\<lparr>rs_reader := rd, rs_empty := rs_empty st + 1\<rparr>"
      have p: "rs_empty st + 1 < 100" "patient (rs_empty st + 1) rd"
        using Read_patient[of 1 "rs_reader st" d rd "rs_empty st"] r "1.prems"(4) empty by auto
      have step: "read_step env m i st = Inr ?st"
        using "1.prems"(3) True r empty p(1) by (simp add: read_step_def empty_read_def)
      have ch: "charged env m b r0 ?st" using "1.prems"(2) by (simp add: charged_def)
      have "fst (read_loop env m (i + 1) ?st) = (if m < int (length (rs_buffer ?st @ script_data (rs_reader ?st))) then Inl ErrRequestBodyTooLarge
         else if script_end (rs_reader ?st) = EOF then Inr (rs_buffer ?st @ script_data (rs_reader ?st))
         else Inl (read_failure (script_end (rs_reader ?st))))"
        by (rule IH[OF step ch]) (use p "1.prems"(6) in simp_all)
      then show ?thesis using step spec empty by (subst read_loop.simps) simp
    next
      case False
      then have "fst (read_loop env m i st) = (if d \<noteq> [] then Inl ErrRequestBodyTooLarge
          else if the e = EOF then Inr (rs_buffer st) else Inl (read_failure (the e)))"
        using "1.prems"(3) True r by (subst read_loop.simps) (auto simp: read_step_def read_done_def Let_def)
      then show ?thesis using spec True False "1.prems"(6) by (cases d; cases e) auto
    qed
  next
    case False
    obtain st1 where g: "grow_buffer env i m st = (True, st1)" "charged env m b r0 st1" "int (length (rs_buffer st1)) < rs_cap st1"
      using grow_buffer_room[OF "1.prems"(1,2)] "1.prems"(3) False by fastforce
    note kept = grow_buffer_keeps[OF g(1)]
    let ?k = "nat (min (rs_cap st1) m - int (length (rs_buffer st)))"
    have k: "0 < ?k" using g(3) kept False by simp
    obtain d e rd where r: "reader_Read ?k (rs_reader st1) = (d, e, rd)" by (metis prod_cases3)
    note spec = Read_spec[OF r]
    have "int (length d) \<le> min (rs_cap st1) m - int (length (rs_buffer st))" using spec(3) k by linarith
    then have len: "int (length (rs_buffer st @ d)) \<le> min (rs_cap st1) m" unfolding length_append of_nat_add by linarith
    let ?st = "st1\<lparr>rs_reader := rd, rs_buffer := rs_buffer st @ d, rs_empty := (if d \<noteq> [] then 0 else rs_empty st + 1)\<rparr>"
    show ?thesis
    proof (cases e)
      case None
      have p: "if d = [] then rs_empty st + 1 < 100 \<and> patient (rs_empty st + 1) rd else patient 0 rd"
        using Read_patient[OF r[unfolded None] _ k, of "rs_empty st"] kept "1.prems"(4) by simp
      have step: "read_step env m i st = Inr ?st"
        using "1.prems"(3) False g(1) r None p by (auto simp: read_step_def empty_read_def Let_def)
      have ch: "charged env m b r0 ?st" using g(2) len by (simp add: charged_def)
      have "fst (read_loop env m (i + 1) ?st) = (if m < int (length (rs_buffer ?st @ script_data (rs_reader ?st))) then Inl ErrRequestBodyTooLarge
         else if script_end (rs_reader ?st) = EOF then Inr (rs_buffer ?st @ script_data (rs_reader ?st))
         else Inl (read_failure (script_end (rs_reader ?st))))"
        by (rule IH[OF step ch]) (use p len in \<open>simp_all split: if_splits\<close>)
      then show ?thesis using step spec(1,2) None kept by (subst read_loop.simps) simp
    next
      case (Some x)
      then have "fst (read_loop env m i st) = (if x = EOF then Inr (rs_buffer st @ d) else Inl (read_failure x))"
        using "1.prems"(3) False g(1) r by (subst read_loop.simps) (auto simp: read_step_def read_done_def Let_def)
      then show ?thesis using spec(1,2) Some kept len by simp
    qed
  qed
qed

section \<open>Claims\<close>

text \<open>
  Reading a body under the limit gives exactly the stream or the error that ended it: with
  room in the budget, no cancellation and no hundred empty reads in a row, a stream longer than
  the limit is refused as too large, a failing stream returns its failure, and any other stream
  is returned whole.
\<close>

theorem body_read_complete:
  assumes "room env m b" "\<forall>j. re_abort env j = None" "patient 0 rd" "0 \<le> m"
  shows "fst (readBodyWithBudget env m rd b reserved) =
    (if m < int (length (script_data rd)) then Inl ErrRequestBodyTooLarge
     else if script_end rd = EOF then Inr (script_data rd) else Inl (read_failure (script_end rd)))"
proof -
  let ?st = "\<lparr>rs_buffer = [], rs_cap = 0, rs_empty = 0, rs_reader = rd, rs_budget = b, rs_reserved = reserved\<rparr>"
  have "charged env m b reserved ?st" by (simp add: charged_def)
  from read_loop_complete[OF assms(1) this assms(2) _ assms(4)] show ?thesis
    using assms(3,4) by (simp add: readBodyWithBudget_def)
qed

definition replaying :: "string \<Rightarrow> HTTPRequest \<Rightarrow> HTTPRequest" where
  "replaying raw r =
     (let body = (if raw = [] then NoBody else Reader raw)
      in r\<lparr>hr_Body := Some body, hr_GetBody := Some (Some body), hr_ContentLength := int (length raw)\<rparr>)"

lemma publish_replaying: "publish_body raw decoded c =
    c\<lparr>rc_rawBody := raw, rc_DecodedBody := decoded, rc_Request := map_option (replaying raw) (rc_Request c)\<rparr>"
  by (simp add: publish_body_def replaying_def[abs_def])

definition same_body :: "RequestContext \<Rightarrow> RequestContext \<Rightarrow> bool" where
  "same_body c c' \<longleftrightarrow> rc_rawBody c' = rc_rawBody c \<and> rc_DecodedBody c' = rc_DecodedBody c \<and> rc_Request c' = rc_Request c"

lemma worker_raw:
  assumes "readBodyWorker inflate env env2 rd m encoding b = (Inr (raw, decoded), b1, reserved)" "0 \<le> m"
  shows "raw = script_data rd \<and> script_end rd = EOF \<and> int (length raw) \<le> m"
proof -
  obtain raw' st where r: "readBodyWithBudget env m rd b 0 = (Inr raw', st)" "raw = raw'"
    using assms(1) by (auto simp: readBodyWorker_def split: prod.splits sum.splits if_splits)
  then show ?thesis using read_loop_sound[OF r(1)[unfolded readBodyWithBudget_def]] assms(2) by auto
qed

lemma release_locked_simps [simp]:
  "\<not> rc_bodyReservationHeld (fst (releaseBodyBudgetLocked c b))"
  "rc_bodyErr (fst (releaseBodyBudgetLocked c b)) = rc_bodyErr c"
  "rc_bodyLoaded (fst (releaseBodyBudgetLocked c b)) = rc_bodyLoaded c"
  "rc_DecodedBody (fst (releaseBodyBudgetLocked c b)) = rc_DecodedBody c"
  "rc_rawBody (fst (releaseBodyBudgetLocked c b)) = rc_rawBody c"
  "rc_Request (fst (releaseBodyBudgetLocked c b)) = rc_Request c"
  by (simp_all add: releaseBodyBudgetLocked_def)

lemma finish_cases:
  "fst (finishBodyRead result c b) = fst (releaseBodyBudgetLocked
     (if rc_bodyLoaded c then c
      else case result of
        Inl e \<Rightarrow> c\<lparr>rc_bodyErr := Some e, rc_bodyLoaded := True\<rparr>
      | Inr (raw, decoded) \<Rightarrow> (publish_body raw (if raw = [] then [] else decoded)
          (if raw = [] then fst (releaseBodyBudgetLocked c b) else c\<lparr>rc_bodyReservation := 0, rc_bodyReservationHeld := False\<rparr>))
             \<lparr>rc_bodyErr := None, rc_bodyLoaded := True\<rparr>) b)"
proof (cases "rc_bodyLoaded c")
  case True
  then show ?thesis by (simp add: finishBodyRead_def)
next
  case False
  then show ?thesis
    by (auto simp: finishBodyRead_def releaseBodyBudgetLocked_def publish_body_def split: sum.split prod.split)
qed

text \<open>
  C2: a body attempt publishes all or nothing. If the attempt was ended before the worker
  finished, the late result changes neither the snapshots nor the request nor the recorded
  error. Otherwise the attempt is over, and either an error is recorded and the snapshots and
  the request are untouched, or the raw snapshot is the whole stream, within the limit, and the
  request replays exactly these bytes. Nothing stays reserved by the context.
\<close>

theorem published_body_exact:
  assumes "readBodyWorker inflate env env2 rd m encoding b = (result, b1, reserved)" "0 \<le> m"
    and c0_def: "c0 = c\<lparr>rc_bodyReservation := reserved, rc_bodyReservationHeld := 0 < reserved\<rparr>"
    and c'_def: "c' = fst (finishBodyRead result c0 b1)"
  shows "\<not> rc_bodyReservationHeld c'
    \<and> (if rc_bodyLoaded c then same_body c c' \<and> rc_bodyErr c' = rc_bodyErr c
       else rc_bodyLoaded c'
         \<and> (case rc_bodyErr c' of
              Some e \<Rightarrow> same_body c c'
            | None \<Rightarrow> rc_rawBody c' = script_data rd \<and> script_end rd = EOF \<and> int (length (script_data rd)) \<le> m
                \<and> rc_Request c' = map_option (replaying (script_data rd)) (rc_Request c)))"
proof (cases "rc_bodyLoaded c")
  case True
  then show ?thesis by (simp add: c'_def c0_def finish_cases same_body_def)
next
  case False
  show ?thesis
  proof (cases result)
    case (Inl e)
    then show ?thesis using False by (simp add: c'_def c0_def finish_cases same_body_def)
  next
    case (Inr p)
    obtain raw decoded where p: "p = (raw, decoded)" by fastforce
    have raw: "raw = script_data rd" "script_end rd = EOF" "int (length raw) \<le> m"
      using worker_raw[of inflate env env2 rd m encoding b raw decoded b1 reserved] assms(1,2) Inr p by auto
    have "c' = fst (releaseBodyBudgetLocked ((publish_body raw (if raw = [] then [] else decoded)
          (if raw = [] then fst (releaseBodyBudgetLocked c0 b1) else c0\<lparr>rc_bodyReservation := 0, rc_bodyReservationHeld := False\<rparr>))
             \<lparr>rc_bodyErr := None, rc_bodyLoaded := True\<rparr>) b1)"
      using False Inr p by (simp add: c'_def c0_def finish_cases)
    then show ?thesis using False raw by (cases "raw = []") (simp_all add: publish_replaying c0_def)
  qed
qed

section \<open>Witnesses\<close>

definition sample_env :: read_env where
  "sample_env = \<lparr>re_site = ''s'', re_abort = (\<lambda>_. None), re_reclaim = (\<lambda>_ _ b. (False, b))\<rparr>"

definition empty_budget :: bodyBudget where
  "empty_budget = \<lparr>bb_global = 0, bb_bySite = Map.empty\<rparr>"

definition sample_reader :: reader where
  "sample_reader = [(''ab'', None), ([], None), (''c'', Some EOF)]"

theorem body_budget_balanced_witness:
  "\<exists>b. budget_run b {#(''s'', 40)#} \<and> bb_global b = 40"
proof -
  have "\<exists>b. reserveBodyBudget ''s'' 40 \<lparr>bb_global = 0, bb_bySite = Map.empty\<rparr> = (True, b)"
    by (simp add: reserveBodyBudget_def maxBodyBytesGlobal_def maxBodyBytesPerSite_def)
  then obtain b where "reserveBodyBudget ''s'' 40 \<lparr>bb_global = 0, bb_bySite = Map.empty\<rparr> = (True, b)" by blast
  then have run: "budget_run b {#(''s'', 40)#}" by (rule budget_run.reserve[OF budget_run.start])
  from body_budget_balanced[OF run, of "''s''"] run show ?thesis by (intro exI[of _ b]) simp
qed

theorem body_read_complete_witness:
  "fst (readBodyWithBudget sample_env 3 sample_reader empty_budget 0) = Inr ''abc''
   \<and> fst (readBodyWithBudget sample_env 2 sample_reader empty_budget 0) = Inl ErrRequestBodyTooLarge"
proof -
  have room: "room sample_env 3 empty_budget" "room sample_env 2 empty_budget"
    by (simp_all add: room_def sample_env_def empty_budget_def maxBodyBytesGlobal_def maxBodyBytesPerSite_def)
  have env: "\<forall>j. re_abort sample_env j = None" "patient 0 sample_reader" by (simp_all add: sample_env_def sample_reader_def)
  have d: "script_data sample_reader = ''abc''" "script_end sample_reader = EOF" by (simp_all add: sample_reader_def)
  show ?thesis
    using body_read_complete[OF room(1) env, of 0] body_read_complete[OF room(2) env, of 0] by (simp add: d)
qed

definition blank_ctx :: RequestContext where
  "blank_ctx = \<lparr>rc_Request = None, rc_ClientIP = [], rc_TraceID = [], rc_SiteID = ''s'', rc_NormalizedPath = [],
     rc_HostValidated = True, rc_TrustedProxyCIDRs = [], rc_DecodedURI = [], rc_DecodedBody = [], rc_Results = [],
     rc_Metadata = Map.empty, rc_maxBodyBytes = 0, rc_bodyLoaded = False, rc_rawBody = [], rc_bodyErr = None,
     rc_bodyReadStarted = True, rc_bodyReservation = 0, rc_bodyReservationHeld = False\<rparr>"

theorem published_body_exact_witness:
  "\<exists>b1 reserved c'.
     readBodyWorker (\<lambda>_ _. Inl []) sample_env sample_env sample_reader 8 [] empty_budget = (Inr (''abc'', ''abc''), b1, reserved)
     \<and> c' = fst (finishBodyRead (Inr (''abc'', ''abc''))
              (blank_ctx\<lparr>rc_bodyReservation := reserved, rc_bodyReservationHeld := 0 < reserved\<rparr>) b1)
     \<and> rc_bodyLoaded c' \<and> rc_bodyErr c' = None \<and> rc_rawBody c' = ''abc''"
proof -
  have room: "room sample_env 8 empty_budget"
    by (simp add: room_def sample_env_def empty_budget_def maxBodyBytesGlobal_def maxBodyBytesPerSite_def)
  have env: "\<forall>j. re_abort sample_env j = None" "patient 0 sample_reader" by (simp_all add: sample_env_def sample_reader_def)
  have d: "script_data sample_reader = ''abc''" "script_end sample_reader = EOF" by (simp_all add: sample_reader_def)
  let ?st = "\<lparr>rs_buffer = [], rs_cap = 0, rs_empty = 0, rs_reader = sample_reader, rs_budget = empty_budget, rs_reserved = 0\<rparr>"
  have "charged sample_env 8 empty_budget 0 ?st" by (simp add: charged_def)
  from read_loop_complete[OF room this env(1)] have "fst (readBodyWithBudget sample_env 8 sample_reader empty_budget 0) = Inr ''abc''"
    using env(2) by (simp add: readBodyWithBudget_def d)
  then obtain st where "readBodyWithBudget sample_env 8 sample_reader empty_budget 0 = (Inr ''abc'', st)"
    by (metis prod.collapse)
  then have w: "readBodyWorker (\<lambda>_ _. Inl []) sample_env sample_env sample_reader 8 [] empty_budget
      = (Inr (''abc'', ''abc''), rs_budget st, rs_reserved st)"
    by (simp add: readBodyWorker_def)
  let ?c = "blank_ctx\<lparr>rc_bodyReservation := rs_reserved st, rc_bodyReservationHeld := 0 < rs_reserved st\<rparr>"
  let ?c' = "fst (finishBodyRead (Inr (''abc'', ''abc'')) ?c (rs_budget st))"
  have err: "rc_bodyErr ?c' = None" unfolding finish_cases by (simp add: blank_ctx_def)
  from published_body_exact[OF w _ refl refl, of blank_ctx] err have "rc_bodyLoaded ?c'" "rc_rawBody ?c' = ''abc''"
    by (simp_all add: blank_ctx_def d)
  then show ?thesis using w err by blast
qed

end
