(* ===== verification/Regex_Gate.thy ===== *)
theory Regex_Gate
  imports Go_Strings
begin

text \<open>
  The complexity gate of \<open>internal/engine/sandbox.go\<close> in front of \<open>regexp.Compile\<close>, which is an
  argument: a pattern is scored for nested quantifiers, alternations and expensive fragments and
  refused above a limit.
\<close>

definition MaxRegexComplexityScore :: nat where "MaxRegexComplexityScore = 30"

text \<open>\<open>strings.Count\<close> for a non-empty needle: occurrences that do not overlap, from the left.\<close>

function strings_Count :: "string \<Rightarrow> string \<Rightarrow> nat" where
  "strings_Count s needle =
     (if needle = [] \<or> s = [] then 0
      else if has_prefix s needle then Suc (strings_Count (drop (length needle) s) needle)
      else strings_Count (tl s) needle)"
  by pat_completeness auto
termination by (relation "measure (\<lambda>(s, _). length s)") (auto simp: neq_Nil_conv)

declare strings_Count.simps [simp del]

definition isQuantifier :: "char \<Rightarrow> bool" where
  "isQuantifier b \<longleftrightarrow> b = CHR ''*'' \<or> b = CHR ''+'' \<or> b = CHR ''?'' \<or> b = CHR ''{''"

text \<open>The first loop of the score: its index stops before \<open>len(pattern)-2\<close>.\<close>

definition nested_quantifiers :: "string \<Rightarrow> nat" where
  "nested_quantifiers pattern =
     length (filter (\<lambda>i. isQuantifier (pattern ! (i + 1)) \<and> isQuantifier (pattern ! i)) [0..<length pattern - 2])"

definition RegexComplexityScore :: "string \<Rightarrow> nat" where
  "RegexComplexityScore pattern =
     4 * nested_quantifiers pattern + strings_Count pattern ''|''
     + (if contains pattern ''(.*)'' \<or> contains pattern ''(.+)'' then 3 else 0)
     + 3 * sum_list (map (strings_Count pattern)
         [''['' @ [CHR 0x5C] @ ''s'' @ [CHR 0x5C] @ ''S]*'', ''['' @ [CHR 0x5C] @ ''w'' @ [CHR 0x5C] @ ''W]*'',
          ''['' @ [CHR 0x5C] @ ''d'' @ [CHR 0x5C] @ ''D]*'', ''[^}]*'', ''.*?''])
     + 5 * strings_Count pattern ([CHR 0x5C] @ ''1'') + 5 * strings_Count pattern ([CHR 0x5C] @ ''2'')
     + (if contains pattern ''(?=.*)'' \<or> contains pattern ''(?=.*?)'' then 2 else 0)"

datatype compile_error = TooComplex nat | CompileFailed string

definition CompileSafe :: "(string \<Rightarrow> string + 'r) \<Rightarrow> string \<Rightarrow> compile_error + 'r" where
  "CompileSafe compile pattern =
     (if RegexComplexityScore pattern > MaxRegexComplexityScore then Inl (TooComplex (RegexComplexityScore pattern))
      else case compile pattern of Inl msg \<Rightarrow> Inl (CompileFailed msg) | Inr re \<Rightarrow> Inr re)"

text \<open>
  The last two characters of a pattern are never looked at as a pair: a quantifier pair at the
  very end, as in the examples the code's comment gives, does not count.
\<close>

lemma last_pair_ignored: "nested_quantifiers (p @ [a, b]) = nested_quantifiers (p @ [a, c])"
proof -
  have "(p @ [a, b]) ! i = (p @ [a, c]) ! i" if "i < Suc (length p)" for i
    using that by (auto simp: nth_append less_Suc_eq)
  then show ?thesis unfolding nested_quantifiers_def
    by (intro arg_cong[where f = length] filter_cong) auto
qed

theorem trailing_nested_quantifier_unscored: "RegexComplexityScore ''.*+'' = 0 \<and> RegexComplexityScore ''.+?'' = 0"
  by code_simp

end
