(* ===== verification/Challenge_Rate.thy ===== *)
theory Challenge_Rate
  imports Go_Heap Go_Strings
begin

text \<open>
  \<open>internal/protection/bot/issuance_rate.go\<close>: the rate limit on issuing challenges. Every
  reservation takes a token that counts against the whole store, its owner and its peer until
  the window has passed; a token that was never started can be given back. Expiry objects are
  shared between the record table and the expiry heap and carry their heap index, so they live
  in an explicit store: a pointer is the number of its allocation. A nil rate state, which
  limits nothing, is \<open>None\<close>.
\<close>

subsection \<open>State\<close>

record issuanceRateExpiry =
  ie_id :: u64
  ie_expires :: "Prelude.time"
  ie_index :: int

record issuanceRateRecord =
  rt_owner :: string
  rt_peer :: string
  rt_expiry :: nat
  rt_committed :: bool

record issuanceRateState =
  is_window :: duration
  is_globalLimit :: int
  is_ownerLimit :: int
  is_peerLimit :: int
  is_records :: "u64 \<rightharpoonup> issuanceRateRecord"
  is_ownerCount :: "string \<rightharpoonup> int"
  is_peerCount :: "string \<rightharpoonup> int"
  is_expirations :: "nat list"
  is_nextID :: u64
  is_objects :: "nat \<rightharpoonup> issuanceRateExpiry"
  is_allocated :: nat

definition issuanceRateCleanupBudget :: nat where "issuanceRateCleanupBudget = 64"

definition generationReservationTTL :: duration where "generationReservationTTL = 15 * go_second"

definition generationReservationExpiry :: "Prelude.time \<Rightarrow> Prelude.time \<Rightarrow> Prelude.time" where
  "generationReservationExpiry now requested =
     (let leaseExpiry = now + generationReservationTTL
      in if requested < leaseExpiry then requested else leaseExpiry)"

subsection \<open>The expiry heap\<close>

definition nil_expiry :: issuanceRateExpiry where
  "nil_expiry = \<lparr>ie_id = 0, ie_expires = 0, ie_index = 0\<rparr>"

definition expiry_of :: "issuanceRateState \<Rightarrow> nat \<Rightarrow> issuanceRateExpiry" where
  "expiry_of s a = lookup_or nil_expiry (is_objects s) a"

definition set_index :: "nat \<Rightarrow> int \<Rightarrow> issuanceRateState \<Rightarrow> issuanceRateState" where
  "set_index a i s = s\<lparr>is_objects := (is_objects s)(a \<mapsto> (expiry_of s a)\<lparr>ie_index := i\<rparr>)\<rparr>"

definition rate_Len :: "issuanceRateState \<Rightarrow> nat" where
  "rate_Len s = length (is_expirations s)"

definition rate_Less :: "issuanceRateState \<Rightarrow> nat \<Rightarrow> nat \<Rightarrow> bool" where
  "rate_Less s i j \<longleftrightarrow> ie_expires (expiry_of s (is_expirations s ! i)) < ie_expires (expiry_of s (is_expirations s ! j))"

definition rate_Swap :: "nat \<Rightarrow> nat \<Rightarrow> issuanceRateState \<Rightarrow> issuanceRateState" where
  "rate_Swap i j s =
     (let h = swap_at (is_expirations s) i j
      in set_index (h ! j) (int j) (set_index (h ! i) (int i) (s\<lparr>is_expirations := h\<rparr>)))"

definition rate_Push :: "nat \<Rightarrow> issuanceRateState \<Rightarrow> issuanceRateState" where
  "rate_Push a s = (let s' = set_index a (int (rate_Len s)) s in s'\<lparr>is_expirations := is_expirations s' @ [a]\<rparr>)"

definition rate_Pop :: "issuanceRateState \<Rightarrow> issuanceRateState" where
  "rate_Pop s = (let s' = set_index (last (is_expirations s)) (- 1) s in s'\<lparr>is_expirations := butlast (is_expirations s')\<rparr>)"

subsection \<open>Operations\<close>

definition newIssuanceRateState :: "duration \<Rightarrow> int \<Rightarrow> int \<Rightarrow> int \<Rightarrow> issuanceRateState option" where
  "newIssuanceRateState window globalLimit ownerLimit peerLimit =
     (if window \<le> 0 \<or> globalLimit < 1 \<or> ownerLimit < 1 \<or> peerLimit < 1 then None
      else Some \<lparr>is_window = window, is_globalLimit = globalLimit, is_ownerLimit = min ownerLimit globalLimit,
        is_peerLimit = min peerLimit globalLimit, is_records = Map.empty, is_ownerCount = Map.empty,
        is_peerCount = Map.empty, is_expirations = [], is_nextID = 0, is_objects = Map.empty, is_allocated = 0\<rparr>)"

definition incrementIssueCount :: "(string \<rightharpoonup> int) \<Rightarrow> string \<Rightarrow> (string \<rightharpoonup> int)" where
  "incrementIssueCount counts key = counts(key \<mapsto> lookup_or 0 counts key + 1)"

definition decrementIssueCount :: "(string \<rightharpoonup> int) \<Rightarrow> string \<Rightarrow> (string \<rightharpoonup> int)" where
  "decrementIssueCount counts key =
     (let remaining = lookup_or 0 counts key - 1
      in if remaining > 0 then counts(key \<mapsto> remaining) else counts(key := None))"

definition rate_removeEntry :: "u64 \<Rightarrow> issuanceRateRecord \<Rightarrow> issuanceRateState \<Rightarrow> issuanceRateState" where
  "rate_removeEntry id0 r s =
     s\<lparr>is_records := (is_records s)(id0 := None),
       is_ownerCount := decrementIssueCount (is_ownerCount s) (rt_owner r),
       is_peerCount := decrementIssueCount (is_peerCount s) (rt_peer r)\<rparr>"

definition rate_remove :: "u64 \<Rightarrow> issuanceRateRecord \<Rightarrow> issuanceRateState \<Rightarrow> issuanceRateState" where
  "rate_remove id0 r s =
     (let i = ie_index (expiry_of s (rt_expiry r));
          s' = (if i \<ge> 0 then heap_Remove rate_Len rate_Less rate_Swap rate_Pop (nat i) s else s)
      in rate_removeEntry id0 r s')"

fun rate_clean_loop :: "nat \<Rightarrow> Prelude.time \<Rightarrow> issuanceRateState \<Rightarrow> nat \<times> issuanceRateState" where
  "rate_clean_loop 0 now s = (0, s)"
| "rate_clean_loop (Suc budget) now s =
     (if is_expirations s = [] then (0, s)
      else let a = is_expirations s ! 0; first = expiry_of s a in
        if now < ie_expires first then (0, s)
        else let s1 = heap_Pop rate_Len rate_Less rate_Swap rate_Pop s;
                 s2 = (case is_records s1 (ie_id first) of
                         None \<Rightarrow> s1
                       | Some r \<Rightarrow> if rt_expiry r = a then rate_removeEntry (ie_id first) r s1 else s1);
                 (cleaned, s3) = rate_clean_loop budget now s2
          in (Suc cleaned, s3))"

definition rate_clean :: "Prelude.time \<Rightarrow> nat \<Rightarrow> issuanceRateState option \<Rightarrow> nat \<times> issuanceRateState option" where
  "rate_clean now budget so =
     (case so of None \<Rightarrow> (0, None) | Some s \<Rightarrow> (case rate_clean_loop budget now s of (c, s') \<Rightarrow> (c, Some s')))"

text \<open>The identifier after \<open>n\<close>: zero is skipped when the counter wraps around.\<close>

definition next_id :: "u64 \<Rightarrow> u64" where
  "next_id n = (if n + 1 = 0 then 1 else n + 1)"

definition rate_reserve ::
    "Prelude.time \<Rightarrow> string \<Rightarrow> string \<Rightarrow> issuanceRateState option \<Rightarrow> u64 option \<times> issuanceRateState option" where
  "rate_reserve now owner peer so =
     (case so of
        None \<Rightarrow> (Some 0, None)
      | Some s0 \<Rightarrow>
          let s = snd (rate_clean_loop issuanceRateCleanupBudget now s0) in
          if int (map_len (is_records s)) \<ge> is_globalLimit s
             \<or> lookup_or 0 (is_ownerCount s) owner \<ge> is_ownerLimit s
             \<or> lookup_or 0 (is_peerCount s) peer \<ge> is_peerLimit s
          then (None, Some s)
          else let id0 = next_id (is_nextID s); a = is_allocated s;
                   s1 = s\<lparr>is_nextID := id0, is_allocated := a + 1,
                     is_objects := (is_objects s)(a \<mapsto> \<lparr>ie_id = id0, ie_expires = now + is_window s, ie_index = 0\<rparr>),
                     is_records := (is_records s)(id0 \<mapsto> \<lparr>rt_owner = owner, rt_peer = peer, rt_expiry = a, rt_committed = False\<rparr>),
                     is_ownerCount := incrementIssueCount (is_ownerCount s) owner,
                     is_peerCount := incrementIssueCount (is_peerCount s) peer\<rparr>
            in (Some id0, Some (heap_Push rate_Len rate_Less rate_Swap rate_Push a s1)))"

definition rate_start :: "u64 \<Rightarrow> issuanceRateState option \<Rightarrow> bool \<times> issuanceRateState option" where
  "rate_start id0 so =
     (case so of
        None \<Rightarrow> (True, None)
      | Some s \<Rightarrow>
          (case is_records s id0 of
             None \<Rightarrow> (False, Some s)
           | Some r \<Rightarrow> if rt_committed r then (False, Some s)
               else (True, Some (s\<lparr>is_records := (is_records s)(id0 \<mapsto> r\<lparr>rt_committed := True\<rparr>)\<rparr>))))"

definition rate_started :: "u64 \<Rightarrow> issuanceRateState option \<Rightarrow> bool" where
  "rate_started id0 so =
     (case so of None \<Rightarrow> True | Some s \<Rightarrow> (case is_records s id0 of None \<Rightarrow> False | Some r \<Rightarrow> rt_committed r))"

definition rate_rollback :: "u64 \<Rightarrow> issuanceRateState option \<Rightarrow> bool \<times> issuanceRateState option" where
  "rate_rollback id0 so =
     (case so of
        None \<Rightarrow> (True, None)
      | Some s \<Rightarrow>
          (case is_records s id0 of
             None \<Rightarrow> (False, Some s)
           | Some r \<Rightarrow> if rt_committed r then (False, Some s) else (True, Some (rate_remove id0 r s))))"

end
