(* ===== verification/Challenge_Store.thy ===== *)
theory Challenge_Store
  imports Challenge_Rate
begin

text \<open>
  The store behind bot challenges and clearances (\<open>internal/protection/bot/challenge_security.go\<close>
  and the memory backend of \<open>store_backend.go\<close>): capacity is reserved before a challenge is
  generated, the reservation is started, and committing it publishes the challenge identifier,
  which can be consumed once.

  A reservation is handed out as a pointer to an object that is never written again, so it is its
  contents with its address, and comparing pointers is comparing these. Every method holds the
  mutex and reads the clock once; the reading is an argument, as is the order in which
  \<open>range\<close> visits the two maps. Methods on a nil store are left out: no constructor returns one.
\<close>

subsection \<open>State\<close>

datatype ChallengeStatus = ChallengePending | ChallengeUsed | ChallengeExpired

datatype challenge_error = ErrChallengeCapacity | ChallengeError string

record ChallengeStoreConfig =
  cf_Capacity :: int
  cf_PerOwnerCapacity :: int
  cf_PerPeerCapacity :: int
  cf_ConcurrentCapacity :: int
  cf_PerOwnerConcurrent :: int
  cf_PerPeerConcurrent :: int
  cf_UsedRetention :: duration
  cf_RateWindow :: duration
  cf_GlobalRate :: int
  cf_PerOwnerRate :: int
  cf_PerPeerRate :: int

record challengeEntry =
  ce_status :: ChallengeStatus
  ce_expires :: "Prelude.time"
  ce_purge :: "Prelude.time"
  ce_owner :: string
  ce_peer :: string

record ChallengeReservation =
  cr_addr :: nat
  cr_id :: u64
  cr_rateID :: u64
  cr_owner :: string
  cr_peer :: string
  cr_expires :: "Prelude.time"

record ChallengeStore =
  st_m :: "string \<rightharpoonup> challengeEntry"
  st_reservations :: "u64 \<rightharpoonup> ChallengeReservation"
  st_ownerEntries :: "string \<rightharpoonup> int"
  st_peerEntries :: "string \<rightharpoonup> int"
  st_ownerReserved :: "string \<rightharpoonup> int"
  st_peerReserved :: "string \<rightharpoonup> int"
  st_cap :: int
  st_perOwnerCap :: int
  st_perPeerCap :: int
  st_concurrentCap :: int
  st_perOwnerConcurrent :: int
  st_perPeerConcurrent :: int
  st_ret :: duration
  st_rates :: "issuanceRateState option"
  st_nextReservation :: u64
  st_allocated :: nat

text \<open>The order in which a call visits the entries and the reservations.\<close>

type_synonym map_order = "string list \<times> u64 list"

subsection \<open>Construction\<close>

text \<open>
  The limits are unbounded integers here. Where a rate or a peer limit is not configured, four
  times a capacity stands in for it; in Go that product wraps only for capacities above
  \<open>2 ^ 61\<close>, more entries than memory can hold.
\<close>

definition default_int :: "int \<Rightarrow> int \<Rightarrow> int" where
  "default_int d v = (if v < 1 then d else v)"

definition applyDefaults :: "ChallengeStoreConfig \<Rightarrow> ChallengeStoreConfig" where
  "applyDefaults c =
     (let rated = cf_RateWindow c > 0;
          capacity = default_int 10000 (cf_Capacity c);
          retention = (if cf_UsedRetention c \<le> 0 then 5 * go_minute else cf_UsedRetention c);
          owner = min (default_int 8 (cf_PerOwnerCapacity c)) capacity;
          peer = min (default_int (min capacity (owner * 4)) (cf_PerPeerCapacity c)) capacity;
          concurrent = min (default_int (if rated then min capacity 256 else capacity) (cf_ConcurrentCapacity c)) capacity;
          ownerConcurrent = min (default_int (if rated then min owner 2 else owner) (cf_PerOwnerConcurrent c)) owner;
          peerConcurrent = min (default_int (if rated then min peer 16 else peer) (cf_PerPeerConcurrent c)) peer
      in c\<lparr>cf_Capacity := capacity, cf_UsedRetention := retention, cf_PerOwnerCapacity := owner,
           cf_PerPeerCapacity := peer, cf_ConcurrentCapacity := concurrent, cf_PerOwnerConcurrent := ownerConcurrent,
           cf_PerPeerConcurrent := peerConcurrent,
           cf_GlobalRate := (if rated then default_int (capacity * 4) (cf_GlobalRate c) else cf_GlobalRate c),
           cf_PerOwnerRate := (if rated then default_int (owner * 4) (cf_PerOwnerRate c) else cf_PerOwnerRate c),
           cf_PerPeerRate := (if rated then default_int (peer * 4) (cf_PerPeerRate c) else cf_PerPeerRate c)\<rparr>)"

definition NewChallengeStore :: "ChallengeStoreConfig \<Rightarrow> ChallengeStore" where
  "NewChallengeStore c0 =
     (let c = applyDefaults c0 in
      \<lparr>st_m = Map.empty, st_reservations = Map.empty, st_ownerEntries = Map.empty, st_peerEntries = Map.empty,
       st_ownerReserved = Map.empty, st_peerReserved = Map.empty, st_cap = cf_Capacity c,
       st_perOwnerCap = cf_PerOwnerCapacity c, st_perPeerCap = cf_PerPeerCapacity c,
       st_concurrentCap = cf_ConcurrentCapacity c, st_perOwnerConcurrent = cf_PerOwnerConcurrent c,
       st_perPeerConcurrent = cf_PerPeerConcurrent c, st_ret = cf_UsedRetention c,
       st_rates = newIssuanceRateState (cf_RateWindow c) (cf_GlobalRate c) (cf_PerOwnerRate c) (cf_PerPeerRate c),
       st_nextReservation = 0, st_allocated = 0\<rparr>)"

subsection \<open>Helpers under the lock\<close>

definition bump :: "(string \<rightharpoonup> int) \<Rightarrow> string \<Rightarrow> (string \<rightharpoonup> int)" where
  "bump counts key = (if key \<noteq> [] then incrementIssueCount counts key else counts)"

definition drop_count :: "(string \<rightharpoonup> int) \<Rightarrow> string \<Rightarrow> (string \<rightharpoonup> int)" where
  "drop_count counts key = (if key \<noteq> [] then decrementIssueCount counts key else counts)"

definition deleteEntryLocked :: "string \<Rightarrow> challengeEntry \<Rightarrow> ChallengeStore \<Rightarrow> ChallengeStore" where
  "deleteEntryLocked j e s =
     s\<lparr>st_m := (st_m s)(j := None), st_ownerEntries := drop_count (st_ownerEntries s) (ce_owner e),
       st_peerEntries := drop_count (st_peerEntries s) (ce_peer e)\<rparr>"

definition removeReservationLocked :: "ChallengeReservation \<Rightarrow> ChallengeStore \<Rightarrow> ChallengeStore" where
  "removeReservationLocked r s =
     s\<lparr>st_reservations := (st_reservations s)(cr_id r := None),
       st_ownerReserved := drop_count (st_ownerReserved s) (cr_owner r),
       st_peerReserved := drop_count (st_peerReserved s) (cr_peer r)\<rparr>"

definition rollbackReservationLocked :: "ChallengeReservation \<Rightarrow> ChallengeStore \<Rightarrow> bool \<times> ChallengeStore" where
  "rollbackReservationLocked r s =
     (if st_reservations s (cr_id r) \<noteq> Some r then (False, s)
      else (True, removeReservationLocked r (s\<lparr>st_rates := snd (rate_rollback (cr_rateID r) (st_rates s))\<rparr>)))"

text \<open>The loops return how many they removed and what is left of the budget.\<close>

fun clean_entries :: "nat \<Rightarrow> Prelude.time \<Rightarrow> string list \<Rightarrow> ChallengeStore \<Rightarrow> nat \<times> nat \<times> ChallengeStore" where
  "clean_entries left n [] s = (0, left, s)"
| "clean_entries left n (j # js) s =
     (if left = 0 then (0, 0, s)
      else case st_m s j of
        None \<Rightarrow> clean_entries left n js s
      | Some e \<Rightarrow>
          if n < ce_purge e then clean_entries (left - 1) n js s
          else case clean_entries (left - 1) n js (deleteEntryLocked j e s) of (c, l, s') \<Rightarrow> (Suc c, l, s'))"

fun clean_reservations :: "nat \<Rightarrow> Prelude.time \<Rightarrow> u64 list \<Rightarrow> ChallengeStore \<Rightarrow> nat \<times> nat \<times> ChallengeStore" where
  "clean_reservations left n [] s = (0, left, s)"
| "clean_reservations left n (i # js) s =
     (if left = 0 then (0, 0, s)
      else case st_reservations s i of
        None \<Rightarrow> clean_reservations left n js s
      | Some r \<Rightarrow>
          if n < cr_expires r then clean_reservations (left - 1) n js s
          else case clean_reservations (left - 1) n js (snd (rollbackReservationLocked r s)) of (c, l, s') \<Rightarrow> (Suc c, l, s'))"

definition store_clean :: "Prelude.time \<Rightarrow> nat \<Rightarrow> map_order \<Rightarrow> ChallengeStore \<Rightarrow> nat \<times> ChallengeStore" where
  "store_clean n budget ord s0 =
     (case clean_entries budget n (fst ord) s0 of
        (c1, l1, s1) \<Rightarrow>
      (case clean_reservations l1 n (snd ord) s1 of
        (c2, l2, s2) \<Rightarrow>
          if l2 > 0 then
            (case rate_clean n l2 (st_rates s2) of (c3, rates) \<Rightarrow> (c1 + c2 + c3, s2\<lparr>st_rates := rates\<rparr>))
          else (c1 + c2, s2)))"

abbreviation cleaned :: "Prelude.time \<Rightarrow> map_order \<Rightarrow> ChallengeStore \<Rightarrow> ChallengeStore" where
  "cleaned n ord s \<equiv> snd (store_clean n issuanceRateCleanupBudget ord s)"

subsection \<open>The transaction\<close>

definition over_capacity :: "string \<Rightarrow> string \<Rightarrow> ChallengeStore \<Rightarrow> bool" where
  "over_capacity owner peer s \<longleftrightarrow>
     int (map_len (st_m s)) + int (map_len (st_reservations s)) \<ge> st_cap s
     \<or> owner \<noteq> [] \<and> lookup_or 0 (st_ownerEntries s) owner + lookup_or 0 (st_ownerReserved s) owner \<ge> st_perOwnerCap s
     \<or> peer \<noteq> [] \<and> lookup_or 0 (st_peerEntries s) peer + lookup_or 0 (st_peerReserved s) peer \<ge> st_perPeerCap s
     \<or> int (map_len (st_reservations s)) \<ge> st_concurrentCap s
     \<or> owner \<noteq> [] \<and> lookup_or 0 (st_ownerReserved s) owner \<ge> st_perOwnerConcurrent s
     \<or> peer \<noteq> [] \<and> lookup_or 0 (st_peerReserved s) peer \<ge> st_perPeerConcurrent s"

definition rate_owner :: "string \<Rightarrow> string" where
  "rate_owner owner = (if owner = [] then ''unscoped'' else owner)"

definition rate_peer :: "string \<Rightarrow> string \<Rightarrow> string" where
  "rate_peer owner peer = (if peer = [] then rate_owner owner else peer)"

definition ReserveScoped ::
    "Prelude.time \<Rightarrow> map_order \<Rightarrow> string \<Rightarrow> string \<Rightarrow> Prelude.time \<Rightarrow> ChallengeStore
       \<Rightarrow> (challenge_error + ChallengeReservation) \<times> ChallengeStore" where
  "ReserveScoped n ord owner peer exp s0 =
     (if is_zero_time exp then (Inl (ChallengeError ''challenge store and expiration required''), s0)
      else let s = cleaned n ord s0 in
        if \<not> n < exp then (Inl (ChallengeError ''challenge already expired''), s)
        else if over_capacity owner peer s then (Inl ErrChallengeCapacity, s)
        else case rate_reserve n (rate_owner owner) (rate_peer owner peer) (st_rates s) of
          (None, rates) \<Rightarrow> (Inl ErrChallengeCapacity, s\<lparr>st_rates := rates\<rparr>)
        | (Some rateID, rates) \<Rightarrow>
            let i = next_id (st_nextReservation s);
                r = \<lparr>cr_addr = st_allocated s, cr_id = i, cr_rateID = rateID, cr_owner = owner, cr_peer = peer,
                     cr_expires = generationReservationExpiry n exp\<rparr>
            in (Inr r, s\<lparr>st_rates := rates, st_nextReservation := i, st_allocated := st_allocated s + 1,
                 st_reservations := (st_reservations s)(i \<mapsto> r),
                 st_ownerReserved := bump (st_ownerReserved s) owner, st_peerReserved := bump (st_peerReserved s) peer\<rparr>))"

definition Start ::
    "Prelude.time \<Rightarrow> ChallengeReservation option \<Rightarrow> ChallengeStore \<Rightarrow> challenge_error option \<times> ChallengeStore" where
  "Start n ro s =
     (case ro of
        None \<Rightarrow> (Some (ChallengeError ''challenge reservation required''), s)
      | Some r \<Rightarrow>
          if st_reservations s (cr_id r) \<noteq> Some r \<or> \<not> n < cr_expires r
          then (Some (ChallengeError ''challenge reservation is stale''), s)
          else case rate_start (cr_rateID r) (st_rates s) of
            (granted, rates) \<Rightarrow>
              (if granted then None else Some (ChallengeError ''challenge rate reservation is stale''), s\<lparr>st_rates := rates\<rparr>))"

definition Commit ::
    "Prelude.time \<Rightarrow> ChallengeReservation option \<Rightarrow> string \<Rightarrow> Prelude.time \<Rightarrow> ChallengeStore
       \<Rightarrow> challenge_error option \<times> ChallengeStore" where
  "Commit n ro j exp s =
     (case ro of
        None \<Rightarrow> (Some (ChallengeError ''challenge reservation, jti, and expiration required''), s)
      | Some r \<Rightarrow>
          if j = [] \<or> is_zero_time exp
          then (Some (ChallengeError ''challenge reservation, jti, and expiration required''), s)
          else if st_reservations s (cr_id r) \<noteq> Some r
          then (Some (ChallengeError ''challenge reservation is stale''), s)
          else if \<not> n < cr_expires r \<or> \<not> n < exp
          then (Some (ChallengeError ''challenge reservation expired''), snd (rollbackReservationLocked r s))
          else if st_m s j \<noteq> None
          then (Some (ChallengeError ''duplicate jti''), snd (rollbackReservationLocked r s))
          else if \<not> rate_started (cr_rateID r) (st_rates s)
          then (Some (ChallengeError ''challenge work was not started''), snd (rollbackReservationLocked r s))
          else let s' = removeReservationLocked r s in
            (None, s'\<lparr>st_m := (st_m s')(j \<mapsto> \<lparr>ce_status = ChallengePending, ce_expires = exp, ce_purge = exp,
                                       ce_owner = cr_owner r, ce_peer = cr_peer r\<rparr>),
               st_ownerEntries := bump (st_ownerEntries s') (cr_owner r),
               st_peerEntries := bump (st_peerEntries s') (cr_peer r)\<rparr>))"

definition Rollback :: "ChallengeReservation option \<Rightarrow> ChallengeStore \<Rightarrow> bool \<times> ChallengeStore" where
  "Rollback ro s = (case ro of None \<Rightarrow> (False, s) | Some r \<Rightarrow> rollbackReservationLocked r s)"

text \<open>The convenience form reads the clock in each of its three calls.\<close>

definition AddScopedWithPeer ::
    "Prelude.time \<times> Prelude.time \<times> Prelude.time \<Rightarrow> map_order \<Rightarrow> string \<Rightarrow> string \<Rightarrow> string \<Rightarrow> Prelude.time \<Rightarrow> ChallengeStore
       \<Rightarrow> challenge_error option \<times> ChallengeStore" where
  "AddScopedWithPeer clock ord j owner peer exp s0 =
     (if j = [] \<or> is_zero_time exp then (Some (ChallengeError ''jti and expiration required''), s0)
      else case clock of (n1, n2, n3) \<Rightarrow>
        (case ReserveScoped n1 ord owner peer exp s0 of
           (Inl e, s1) \<Rightarrow> (Some e, s1)
         | (Inr r, s1) \<Rightarrow>
             (case Start n2 (Some r) s1 of
                (Some e, s2) \<Rightarrow> (Some e, snd (Rollback (Some r) s2))
              | (None, s2) \<Rightarrow>
                  (case Commit n3 (Some r) j exp s2 of
                     (Some e, s3) \<Rightarrow> (Some e, snd (Rollback (Some r) s3))
                   | (None, s3) \<Rightarrow> (None, s3)))))"

definition AddScoped where
  "AddScoped clock ord j owner exp s = AddScopedWithPeer clock ord j owner owner exp s"

definition store_Add where
  "store_Add clock ord j exp s = AddScoped clock ord j [] exp s"

subsection \<open>Lookups\<close>

definition consume ::
    "Prelude.time \<Rightarrow> map_order \<Rightarrow> string \<Rightarrow> string \<Rightarrow> string \<Rightarrow> bool \<Rightarrow> ChallengeStore
       \<Rightarrow> (ChallengeStatus \<times> bool) \<times> ChallengeStore" where
  "consume n ord j owner peer scoped s0 =
     (let s = cleaned n ord s0 in
      case st_m s j of
        None \<Rightarrow> ((ChallengeExpired, False), s)
      | Some e \<Rightarrow>
          if \<not> n < ce_expires e then ((ChallengeExpired, False), deleteEntryLocked j e s)
          else if scoped \<and> (ce_owner e \<noteq> owner \<or> ce_peer e \<noteq> peer) then ((ChallengePending, False), s)
          else if ce_status e \<noteq> ChallengePending then ((ce_status e, False), s)
          else ((ChallengeUsed, True), deleteEntryLocked j e s))"

definition Consume where
  "Consume n ord j s = consume n ord j [] [] False s"

definition ConsumeScoped where
  "ConsumeScoped n ord j owner peer s = consume n ord j owner peer True s"

definition Challenge_Status :: "Prelude.time \<Rightarrow> map_order \<Rightarrow> string \<Rightarrow> ChallengeStore \<Rightarrow> ChallengeStatus \<times> ChallengeStore" where
  "Challenge_Status n ord j s0 =
     (let s = cleaned n ord s0 in
      case st_m s j of
        None \<Rightarrow> (ChallengeExpired, s)
      | Some e \<Rightarrow> if \<not> n < ce_expires e then (ChallengeExpired, deleteEntryLocked j e s) else (ce_status e, s))"

definition store_Remove :: "string \<Rightarrow> ChallengeStore \<Rightarrow> bool \<times> ChallengeStore" where
  "store_Remove j s =
     (if j = [] then (False, s)
      else case st_m s j of None \<Rightarrow> (False, s) | Some e \<Rightarrow> (True, deleteEntryLocked j e s))"

text \<open>\<open>Len\<close> visits every entry and reservation and drains the expired rate tokens round by round.\<close>

fun purge_entries :: "Prelude.time \<Rightarrow> string list \<Rightarrow> ChallengeStore \<Rightarrow> ChallengeStore" where
  "purge_entries n [] s = s"
| "purge_entries n (j # js) s =
     purge_entries n js (case st_m s j of None \<Rightarrow> s | Some e \<Rightarrow> if n < ce_purge e then s else deleteEntryLocked j e s)"

fun purge_reservations :: "Prelude.time \<Rightarrow> u64 list \<Rightarrow> ChallengeStore \<Rightarrow> ChallengeStore" where
  "purge_reservations n [] s = s"
| "purge_reservations n (i # js) s =
     purge_reservations n js
       (case st_reservations s i of None \<Rightarrow> s | Some r \<Rightarrow> if n < cr_expires r then s else snd (rollbackReservationLocked r s))"

lemma heap_down_length: "length (is_expirations (fst (heap_down rate_Less rate_Swap n i s))) = length (is_expirations s)"
proof (induction rate_Less rate_Swap n i s rule: heap_down.induct)
  case (1 n i s)
  then show ?case
    by (subst heap_down.simps) (auto simp: Let_def rate_Swap_def set_index_def)
qed

lemma rate_clean_loop_length:
  "rate_clean_loop b now s = (c, t) \<Longrightarrow> length (is_expirations t) + c = length (is_expirations s)"
proof (induction b arbitrary: s c)
  case (Suc b)
  have pop: "length (is_expirations (heap_Pop rate_Len rate_Less rate_Swap rate_Pop s)) = length (is_expirations s) - 1" for s
    using heap_down_length[of "length (is_expirations s) - 1" 0 "rate_Swap 0 (length (is_expirations s) - 1) s"]
    by (simp add: heap_Pop_def Let_def rate_Pop_def rate_Len_def set_index_def rate_Swap_def)
  show ?case
    using Suc.prems Suc.IH
    by (fastforce simp: Let_def pop rate_removeEntry_def split: if_splits option.splits prod.splits)
qed simp

function drain_rates :: "Prelude.time \<Rightarrow> issuanceRateState option \<Rightarrow> issuanceRateState option" where
  "drain_rates now so =
     (case rate_clean now issuanceRateCleanupBudget so of
        (c, so') \<Rightarrow> if c = issuanceRateCleanupBudget then drain_rates now so' else so')"
  by pat_completeness auto
termination
proof (relation "measure (\<lambda>(_, so). case so of None \<Rightarrow> 0 | Some s \<Rightarrow> length (is_expirations s))", goal_cases)
  case (2 now so c so')
  then show ?case
    using rate_clean_loop_length
    by (cases so) (fastforce simp: rate_clean_def issuanceRateCleanupBudget_def split: prod.splits)+
qed simp

declare drain_rates.simps [simp del]

definition store_Len :: "Prelude.time \<Rightarrow> map_order \<Rightarrow> ChallengeStore \<Rightarrow> nat \<times> ChallengeStore" where
  "store_Len now ord s0 =
     (let s1 = purge_reservations now (snd ord) (purge_entries now (fst ord) s0);
          s2 = s1\<lparr>st_rates := drain_rates now (st_rates s1)\<rparr>
      in (map_len (st_m s2), s2))"

subsection \<open>Clearances\<close>

text \<open>\<open>ClearanceStateStore\<close> is the same store under other names.\<close>

definition Issue where
  "Issue clock ord jti owner expires s = AddScoped clock ord jti owner expires s"

definition Valid :: "Prelude.time \<Rightarrow> map_order \<Rightarrow> string \<Rightarrow> ChallengeStore \<Rightarrow> bool \<times> ChallengeStore" where
  "Valid n ord jti s = (case Challenge_Status n ord jti s of (status, s') \<Rightarrow> (status = ChallengePending, s'))"

definition clearance_Revoke :: "Prelude.time \<Rightarrow> map_order \<Rightarrow> string \<Rightarrow> ChallengeStore \<Rightarrow> bool \<times> ChallengeStore" where
  "clearance_Revoke n ord jti s0 =
     (let s = cleaned n ord s0 in
      case st_m s jti of
        None \<Rightarrow> (False, s)
      | Some e \<Rightarrow> if \<not> n < ce_expires e then (False, s) else (True, deleteEntryLocked jti e s))"

end
