(* ===== verification/Challenge_Tokens.thy ===== *)
theory Challenge_Tokens
  imports Challenge_Rate
begin

text \<open>
  What the rate limit on issuing challenges guarantees: the record table, the counters and the
  expiry heap describe the same tokens, a token disappears only when its window is over or when
  it is given back unstarted, and cleaning removes every expired token its budget allows. The
  heap facts come from the interpretation of \<open>heap_interface\<close>.
\<close>

section \<open>Counters of a table\<close>

definition tally :: "('v \<Rightarrow> string) \<Rightarrow> ('k \<rightharpoonup> 'v) \<Rightarrow> string \<Rightarrow> nat" where
  "tally f m k = card {i \<in> dom m. f (the (m i)) = k}"

text \<open>A counter map that counts, for each key of interest, the entries with that key.\<close>

definition tallied :: "string set \<Rightarrow> (string \<rightharpoonup> int) \<Rightarrow> ('v \<Rightarrow> string) \<Rightarrow> ('k \<rightharpoonup> 'v) \<Rightarrow> bool" where
  "tallied K counts f m \<longleftrightarrow> (\<forall>k\<in>K. lookup_or 0 counts k = int (tally f m k))"

lemma tally_empty [simp]: "tally f Map.empty k = 0"
  by (simp add: tally_def)

lemma tally_le: "finite (dom m) \<Longrightarrow> tally f m k \<le> map_len m"
  unfolding tally_def map_len_def by (rule card_mono) auto

lemma tally_add:
  assumes "finite (dom m)" "m i = None"
  shows "tally f (m(i \<mapsto> v)) k = tally f m k + (if f v = k then 1 else 0)"
proof -
  have "{j \<in> dom (m(i \<mapsto> v)). f (the ((m(i \<mapsto> v)) j)) = k}
      = (if f v = k then insert i {j \<in> dom m. f (the (m j)) = k} else {j \<in> dom m. f (the (m j)) = k})"
    using assms(2) by auto
  moreover have "finite {j \<in> dom m. f (the (m j)) = k}" "i \<notin> {j \<in> dom m. f (the (m j)) = k}"
    using assms by auto
  ultimately show ?thesis unfolding tally_def by simp
qed

lemma tally_del:
  assumes "finite (dom m)" "m i = Some v"
  shows "tally f m k = tally f (m(i := None)) k + (if f v = k then 1 else 0)"
proof -
  have "(m(i := None))(i \<mapsto> v) = m" using assms(2) by auto
  then show ?thesis using tally_add[of "m(i := None)" i f v k] assms(1) by simp
qed

lemma tally_upd_same: "m i = Some v \<Longrightarrow> f v' = f v \<Longrightarrow> tally f (m(i \<mapsto> v')) k = tally f m k"
  unfolding tally_def by (rule arg_cong[where f = card]) auto

lemma tallied_empty [simp]: "tallied K Map.empty f Map.empty"
  by (simp add: tallied_def)

lemma tallied_add:
  "tallied K c f m \<Longrightarrow> finite (dom m) \<Longrightarrow> m i = None \<Longrightarrow> tallied K (incrementIssueCount c (f v)) f (m(i \<mapsto> v))"
  by (auto simp: tallied_def incrementIssueCount_def tally_add)

lemma tallied_del:
  "tallied K c f m \<Longrightarrow> finite (dom m) \<Longrightarrow> m i = Some v \<Longrightarrow> tallied K (decrementIssueCount c (f v)) f (m(i := None))"
  using tally_del[of m i v f] by (fastforce simp: tallied_def decrementIssueCount_def Let_def)

text \<open>An entry outside the keys of interest is not counted.\<close>

lemma tallied_add_other:
  "tallied K c f m \<Longrightarrow> finite (dom m) \<Longrightarrow> m i = None \<Longrightarrow> f v \<notin> K \<Longrightarrow> tallied K c f (m(i \<mapsto> v))"
  by (auto simp: tallied_def tally_add)

lemma tallied_del_other:
  "tallied K c f m \<Longrightarrow> finite (dom m) \<Longrightarrow> m i = Some v \<Longrightarrow> f v \<notin> K \<Longrightarrow> tallied K c f (m(i := None))"
  using tally_del[of m i v f] by (fastforce simp: tallied_def)

section \<open>The heap\<close>

definition rate_times :: "issuanceRateState \<Rightarrow> int list" where
  "rate_times s = map (\<lambda>a. ie_expires (expiry_of s a)) (is_expirations s)"

definition heaped :: "issuanceRateState \<Rightarrow> bool" where
  "heaped s \<longleftrightarrow> distinct (is_expirations s) \<and> (\<forall>a\<in>set (is_expirations s). a < is_allocated s)
     \<and> (\<forall>i < length (is_expirations s). ie_index (expiry_of s (is_expirations s ! i)) = int i)"

text \<open>Only the order of the heap and the indices in its objects change.\<close>

definition same_tokens :: "issuanceRateState \<Rightarrow> issuanceRateState \<Rightarrow> bool" where
  "same_tokens s s' \<longleftrightarrow> s' = s\<lparr>is_expirations := is_expirations s', is_objects := is_objects s'\<rparr>
     \<and> (\<forall>a. ie_id (expiry_of s' a) = ie_id (expiry_of s a) \<and> ie_expires (expiry_of s' a) = ie_expires (expiry_of s a))"

lemma same_tokens_refl [simp]: "same_tokens s s"
  by (simp add: same_tokens_def)

lemma same_tokens_trans:
  assumes "same_tokens s t" "same_tokens t u"
  shows "same_tokens s u"
proof -
  have "t = s\<lparr>is_expirations := is_expirations t, is_objects := is_objects t\<rparr>"
    "u = t\<lparr>is_expirations := is_expirations u, is_objects := is_objects u\<rparr>"
    using assms by (simp_all add: same_tokens_def)
  then have "u = s\<lparr>is_expirations := is_expirations u, is_objects := is_objects u\<rparr>"
    by (metis (no_types, lifting) issuanceRateState.update_convs(8,10) issuanceRateState.surjective)
  then show ?thesis using assms by (simp add: same_tokens_def)
qed

lemma same_tokens_fields:
  assumes "same_tokens s s'"
  shows "is_window s' = is_window s" "is_globalLimit s' = is_globalLimit s" "is_ownerLimit s' = is_ownerLimit s"
    "is_peerLimit s' = is_peerLimit s" "is_records s' = is_records s" "is_ownerCount s' = is_ownerCount s"
    "is_peerCount s' = is_peerCount s" "is_nextID s' = is_nextID s" "is_allocated s' = is_allocated s"
    "ie_id (expiry_of s' a) = ie_id (expiry_of s a)" "ie_expires (expiry_of s' a) = ie_expires (expiry_of s a)"
proof -
  have "s' = s\<lparr>is_expirations := is_expirations s', is_objects := is_objects s'\<rparr>"
    using assms by (simp add: same_tokens_def)
  then show "is_window s' = is_window s" "is_globalLimit s' = is_globalLimit s" "is_ownerLimit s' = is_ownerLimit s"
    "is_peerLimit s' = is_peerLimit s" "is_records s' = is_records s" "is_ownerCount s' = is_ownerCount s"
    "is_peerCount s' = is_peerCount s" "is_nextID s' = is_nextID s" "is_allocated s' = is_allocated s"
    by (metis issuanceRateState.select_convs issuanceRateState.surjective issuanceRateState.update_convs(8,10))+
qed (use assms in \<open>simp_all add: same_tokens_def\<close>)

lemma length_rate_times [simp]: "length (rate_times s) = length (is_expirations s)"
  by (simp add: rate_times_def)

lemma rate_Len_times: "rate_Len = (\<lambda>s. length (rate_times s))"
  by (simp add: rate_Len_def fun_eq_iff)

lemma expiry_of_set_index:
  "expiry_of (set_index a i s) b = (if b = a then (expiry_of s a)\<lparr>ie_index := i\<rparr> else expiry_of s b)"
  by (simp add: set_index_def expiry_of_def)

lemma expiry_of_expirations [simp]: "expiry_of (s\<lparr>is_expirations := e\<rparr>) = expiry_of s"
  by (simp add: expiry_of_def fun_eq_iff)

lemma set_index_fields [simp]:
  "is_expirations (set_index a i s) = is_expirations s" "is_allocated (set_index a i s) = is_allocated s"
  by (simp_all add: set_index_def)

lemma same_tokens_set_index: "same_tokens s (set_index a i s)"
  by (simp add: same_tokens_def expiry_of_set_index) (simp add: set_index_def)

lemma same_tokens_expirations: "same_tokens s (s\<lparr>is_expirations := e\<rparr>)"
  by (simp add: same_tokens_def)

lemma same_tokens_Swap: "same_tokens s (rate_Swap i j s)"
  unfolding rate_Swap_def Let_def
  by (rule same_tokens_trans[OF same_tokens_trans[OF same_tokens_expirations same_tokens_set_index] same_tokens_set_index])

lemma rate_Swap_expirations: "is_expirations (rate_Swap i j s) = swap_at (is_expirations s) i j"
  by (simp add: rate_Swap_def Let_def)

lemma map_swap_at: "i < length xs \<Longrightarrow> j < length xs \<Longrightarrow> map f (swap_at xs i j) = swap_at (map f xs) i j"
  by (intro nth_equalityI) (simp_all add: swap_at_nth)

lemma rate_times_Swap:
  "i < length (is_expirations s) \<Longrightarrow> j < length (is_expirations s) \<Longrightarrow>
   rate_times (rate_Swap i j s) = swap_at (rate_times s) i j"
  by (simp add: rate_times_def rate_Swap_expirations same_tokens_fields(11)[OF same_tokens_Swap] map_swap_at)

lemma heaped_Swap:
  assumes "heaped s" "i < length (is_expirations s)" "j < length (is_expirations s)"
  shows "heaped (rate_Swap i j s)"
proof -
  let ?e = "swap_at (is_expirations s) i j"
  have nth: "?e ! k = (if k = i then is_expirations s ! j else if k = j then is_expirations s ! i
      else is_expirations s ! k)" for k
    using assms(2,3) by (rule swap_at_nth)
  have dist: "distinct ?e" using assms by (simp add: swap_at_distinct heaped_def)
  have "ie_index (expiry_of (rate_Swap i j s) (?e ! k)) = int k" if k: "k < length (is_expirations s)" for k
  proof -
    have eq: "?e ! k = ?e ! m \<longleftrightarrow> k = m" if "m < length (is_expirations s)" for m
      using nth_eq_iff_index_eq[OF dist] k that by simp
    show ?thesis
      using assms(1) k eq[OF assms(2)] eq[OF assms(3)] nth[of k]
      by (auto simp: rate_Swap_def Let_def expiry_of_set_index heaped_def)
  qed
  then show ?thesis
    using assms dist unfolding heaped_def rate_Swap_expirations
    by (simp add: swap_at_set same_tokens_fields(9)[OF same_tokens_Swap])
qed

interpretation tokens: heap_interface rate_times rate_Less rate_Swap heaped
proof unfold_locales
  show "rate_Less h i j \<longleftrightarrow> rate_times h ! i < rate_times h ! j"
    if "heaped h" "i < length (rate_times h)" "j < length (rate_times h)" for h i j
    using that by (simp add: rate_Less_def rate_times_def)
  show "rate_times (rate_Swap i j h) = swap_at (rate_times h) i j"
    if "heaped h" "i < length (rate_times h)" "j < length (rate_times h)" for h i j
    using that by (simp add: rate_times_Swap)
  show "heaped (rate_Swap i j h)"
    if "heaped h" "i < length (rate_times h)" "j < length (rate_times h)" for h i j
    using that heaped_Swap by simp
qed

subsection \<open>Taking a token out of the heap\<close>

text \<open>The state just before \<open>Pop\<close>: the token to leave is last, and the others are in order.\<close>

definition parting :: "issuanceRateState \<Rightarrow> nat \<Rightarrow> issuanceRateState \<Rightarrow> bool" where
  "parting s a t \<longleftrightarrow> same_tokens s t \<and> set (is_expirations t) = set (is_expirations s)
     \<and> is_expirations t \<noteq> [] \<and> last (is_expirations t) = a"

lemma parting_Swap:
  assumes "heaped t" "parting s a t" "i < n" "j < n" "n < length (is_expirations t)"
  shows "parting s a (rate_Swap i j t)"
proof -
  let ?e = "is_expirations t"
  have ne: "?e \<noteq> []" using assms(5) by auto
  have "last (swap_at ?e i j) = swap_at ?e i j ! (length ?e - 1)"
    using assms(5) by (subst last_conv_nth) (auto simp: swap_at_def)
  also have "\<dots> = last ?e" using assms(3-5) by (subst swap_at_nth) (auto simp: last_conv_nth[OF ne])
  finally show ?thesis
    using assms same_tokens_trans[OF _ same_tokens_Swap[of t i j]]
    by (auto simp: parting_def rate_Swap_expirations swap_at_set swap_at_def)
qed

lemma swap_parting:
  assumes "heaped s" "i < length (is_expirations s)"
  shows "parting s (is_expirations s ! i) (rate_Swap i (length (is_expirations s) - 1) s)"
proof -
  let ?e = "is_expirations s"
  have "last (swap_at ?e i (length ?e - 1)) = ?e ! i"
    using assms(2) by (subst last_conv_nth) (auto simp: swap_at_def nth_list_update)
  moreover have "swap_at ?e i (length ?e - 1) \<noteq> []" using assms(2) by (auto simp: swap_at_def)
  ultimately show ?thesis
    using assms by (simp add: parting_def same_tokens_Swap rate_Swap_expirations swap_at_set)
qed

text \<open>A heap without its last token.\<close>

lemma popped:
  assumes "heaped t" "parting s a t" "heap_order (rate_times t) (length (is_expirations t) - 1)"
  shows "heaped (rate_Pop t)"
    and "heap_order (rate_times (rate_Pop t)) (length (is_expirations (rate_Pop t)))"
    and "same_tokens s (rate_Pop t)" "set (is_expirations (rate_Pop t)) = set (is_expirations s) - {a}"
proof -
  obtain es where es: "is_expirations t = es @ [a]"
    using assms(2) by (metis append_butlast_last_id parting_def)
  have e: "is_expirations (rate_Pop t) = es" by (simp add: rate_Pop_def Let_def es)
  have same: "same_tokens t (rate_Pop t)"
    unfolding rate_Pop_def Let_def by (rule same_tokens_trans[OF same_tokens_set_index same_tokens_expirations])
  have d: "distinct es" "a \<notin> set es" using assms(1) by (auto simp: heaped_def es)
  have obj: "expiry_of (rate_Pop t) b = (if b = a then (expiry_of t a)\<lparr>ie_index := - 1\<rparr> else expiry_of t b)" for b
    by (simp add: rate_Pop_def Let_def expiry_of_set_index es)
  have "ie_index (expiry_of (rate_Pop t) (es ! i)) = int i" if "i < length es" for i
  proof -
    have "es ! i \<noteq> a" using d that nth_mem by metis
    moreover have "ie_index (expiry_of t ((es @ [a]) ! i)) = int i" using assms(1) that by (auto simp: heaped_def es)
    ultimately show ?thesis using that by (simp add: obj nth_append)
  qed
  then show "heaped (rate_Pop t)"
    using assms(1) d by (auto simp: heaped_def e es same_tokens_fields(9)[OF same])
  have nth: "rate_times (rate_Pop t) ! k = rate_times t ! k" if "k < length es" for k
    using that by (simp add: rate_times_def e es nth_append same_tokens_fields(11)[OF same])
  have "edge (rate_times (rate_Pop t)) c" if c: "0 < c" "c < length es" for c
  proof -
    have "rate_times t ! parent c \<le> rate_times t ! c" using assms(3) c by (simp add: heap_order_def edge_def es)
    then show ?thesis using c parent_less[OF c(1)] by (simp add: edge_def nth)
  qed
  then show "heap_order (rate_times (rate_Pop t)) (length (is_expirations (rate_Pop t)))"
    by (simp add: heap_order_def e)
  show "same_tokens s (rate_Pop t)" using same assms(2) same_tokens_trans by (auto simp: parting_def)
  show "set (is_expirations (rate_Pop t)) = set (is_expirations s) - {a}"
    using assms(2) d by (auto simp: parting_def e es)
qed

definition takes_out :: "issuanceRateState \<Rightarrow> nat \<Rightarrow> issuanceRateState \<Rightarrow> bool" where
  "takes_out s a t \<longleftrightarrow> heaped t \<and> heap_order (rate_times t) (length (is_expirations t)) \<and> same_tokens s t
     \<and> set (is_expirations t) = set (is_expirations s) - {a}"

lemma remove_takes_out:
  assumes "heaped s" "heap_order (rate_times s) (length (is_expirations s))" "i < length (is_expirations s)"
  shows "takes_out s (is_expirations s ! i) (heap_Remove rate_Len rate_Less rate_Swap rate_Pop i s)"
proof -
  let ?n = "length (is_expirations s) - 1" and ?a = "is_expirations s ! i"
  let ?t = "if ?n = i then s else heap_sift rate_Less rate_Swap ?n i (rate_Swap i ?n s)"
  have "heaped ?t \<and> length (rate_times ?t) = length (rate_times s) \<and> parting s ?a ?t \<and> heap_order (rate_times ?t) ?n"
  proof (cases "?n = i")
    case True
    moreover have "is_expirations s \<noteq> []" using assms(3) by auto
    ultimately show ?thesis using assms by (auto simp: parting_def last_conv_nth heap_order_def)
  next
    case False
    then have i: "i < ?n" "Suc ?n = length (rate_times s)" using assms(3) by auto
    let ?w = "rate_Swap i ?n s"
    have w: "heaped ?w" "length (rate_times ?w) = Suc ?n" "parting s ?a ?w"
      using heaped_Swap[OF assms(1), of i ?n] assms(3) i swap_parting[OF assms(1,3)] by (auto simp: rate_Swap_expirations)
    from tokens.sift_keeps[OF w(1) i(1), of "\<lambda>t. parting s ?a t \<and> length (is_expirations t) = Suc ?n"] w
    have "heaped ?t \<and> length (rate_times ?t) = length (rate_times ?w)
        \<and> parting s ?a ?t \<and> length (is_expirations ?t) = Suc ?n"
      using False parting_Swap[of _ s ?a _ ?n] by (simp add: rate_Swap_expirations)
    moreover have "heap_order (rate_times ?t) ?n"
      using tokens.remove_restores[OF assms(1) _ i(2,1)] assms(2) False by simp
    ultimately show ?thesis using trans[OF _ trans[OF w(2) i(2)]] by blast
  qed
  moreover have "heap_Remove rate_Len rate_Less rate_Swap rate_Pop i s = rate_Pop ?t"
    by (simp add: heap_Remove_def rate_Len_def Let_def)
  ultimately show ?thesis using popped[of ?t s ?a] unfolding takes_out_def by simp
qed

lemma pop_takes_out:
  assumes "heaped s" "heap_order (rate_times s) (length (is_expirations s))" "is_expirations s \<noteq> []"
  shows "takes_out s (is_expirations s ! 0) (heap_Pop rate_Len rate_Less rate_Swap rate_Pop s)"
proof -
  let ?n = "length (is_expirations s) - 1" and ?a = "is_expirations s ! 0"
  let ?w = "rate_Swap 0 ?n s"
  let ?t = "fst (heap_down rate_Less rate_Swap ?n 0 ?w)"
  have len: "0 < length (is_expirations s)" "Suc ?n = length (rate_times s)" using assms(3) by auto
  have w: "heaped ?w" "length (rate_times ?w) = Suc ?n" "parting s ?a ?w"
    using heaped_Swap[OF assms(1), of 0 ?n] len swap_parting[OF assms(1) len(1)] by (auto simp: rate_Swap_expirations)
  from tokens.down_keeps[OF w(1), of ?n "\<lambda>t. parting s ?a t \<and> length (is_expirations t) = Suc ?n" 0] w
  have keep: "heaped ?t \<and> length (rate_times ?t) = Suc ?n \<and> parting s ?a ?t"
    using parting_Swap[of _ s ?a _ ?n] by (simp add: rate_Swap_expirations)
  have "heap_order (rate_times ?t) ?n"
  proof (cases "?n = 0")
    case False
    then have "order_but_around (rate_times ?w) ?n 0"
      using tokens.swapped_out[OF _ len(2), of 0] assms(2) len(1) rate_times_Swap[of 0 s ?n] by simp
    then show ?thesis using tokens.down_restores[OF w(1), of ?n 0] w(2)
      by (auto simp: order_but_into_def heap_order_def)
  qed (simp add: heap_order_def)
  then show ?thesis using keep popped[of ?t s ?a] unfolding takes_out_def
    by (simp add: heap_Pop_def Let_def rate_Len_def)
qed

section \<open>The tokens\<close>

text \<open>Every record has its expiry object in the heap, and the heap holds nothing else.\<close>

definition linked :: "issuanceRateState \<Rightarrow> bool" where
  "linked s \<longleftrightarrow>
     (\<forall>i r. is_records s i = Some r \<longrightarrow> rt_expiry r \<in> set (is_expirations s) \<and> ie_id (expiry_of s (rt_expiry r)) = i)
   \<and> (\<forall>a\<in>set (is_expirations s). \<exists>r. is_records s (ie_id (expiry_of s a)) = Some r \<and> rt_expiry r = a)"

lemma linked_at: "linked s \<Longrightarrow> is_records s i = Some r \<Longrightarrow> \<exists>k<length (is_expirations s). is_expirations s ! k = rt_expiry r"
  unfolding linked_def by (metis in_set_conv_nth)

definition counted :: "issuanceRateState \<Rightarrow> bool" where
  "counted s \<longleftrightarrow> finite (dom (is_records s)) \<and> (\<forall>i\<in>dom (is_records s). i \<le> is_nextID s)
     \<and> tallied UNIV (is_ownerCount s) rt_owner (is_records s) \<and> tallied UNIV (is_peerCount s) rt_peer (is_records s)"

definition rate_ok :: "issuanceRateState \<Rightarrow> bool" where
  "rate_ok s \<longleftrightarrow> heaped s \<and> heap_order (rate_times s) (length (is_expirations s)) \<and> linked s \<and> counted s"

lemma rate_ok_parts:
  assumes "rate_ok s"
  shows "heaped s" "heap_order (rate_times s) (length (is_expirations s))" "linked s" "counted s"
  using assms by (simp_all add: rate_ok_def)

text \<open>What is known of a token: its owner, its peer, the end of its window, whether work on it started.\<close>

type_synonym token_view = "string \<times> string \<times> Prelude.time \<times> bool"

definition issued :: "issuanceRateState \<Rightarrow> u64 \<Rightarrow> token_view option" where
  "issued s i = map_option (\<lambda>r. (rt_owner r, rt_peer r, ie_expires (expiry_of s (rt_expiry r)), rt_committed r)) (is_records s i)"

abbreviation token_expires :: "token_view \<Rightarrow> Prelude.time" where
  "token_expires v \<equiv> fst (snd (snd v))"

definition same_limits :: "issuanceRateState \<Rightarrow> issuanceRateState \<Rightarrow> bool" where
  "same_limits s t \<longleftrightarrow> is_window t = is_window s \<and> is_globalLimit t = is_globalLimit s
     \<and> is_ownerLimit t = is_ownerLimit s \<and> is_peerLimit t = is_peerLimit s \<and> is_nextID t = is_nextID s"

lemma same_limits_refl [simp]: "same_limits s s"
  by (simp add: same_limits_def)

lemma same_limits_trans: "same_limits s t \<Longrightarrow> same_limits t u \<Longrightarrow> same_limits s u"
  by (simp add: same_limits_def)

lemma removeEntry_fields [simp]:
  "is_records (rate_removeEntry i r s) = (is_records s)(i := None)"
  "is_ownerCount (rate_removeEntry i r s) = decrementIssueCount (is_ownerCount s) (rt_owner r)"
  "is_peerCount (rate_removeEntry i r s) = decrementIssueCount (is_peerCount s) (rt_peer r)"
  "is_expirations (rate_removeEntry i r s) = is_expirations s" "is_allocated (rate_removeEntry i r s) = is_allocated s"
  "is_nextID (rate_removeEntry i r s) = is_nextID s" "is_objects (rate_removeEntry i r s) = is_objects s"
  by (simp_all add: rate_removeEntry_def)

lemma removeEntry_expiry_of [simp]: "expiry_of (rate_removeEntry i r s) = expiry_of s"
  by (simp add: expiry_of_def fun_eq_iff)

text \<open>A token leaves the heap, then the table and the counters.\<close>

lemma drop_token:
  assumes ok: "rate_ok s" and r: "is_records s i = Some r" and out: "takes_out s (rt_expiry r) t"
  defines "u \<equiv> rate_removeEntry i r t"
  shows "rate_ok u" "issued u = (issued s)(i := None)" "same_limits s u"
proof -
  note parts = rate_ok_parts[OF ok]
  have same: "same_tokens s t" and t: "heaped t" "heap_order (rate_times t) (length (is_expirations t))"
    and e: "set (is_expirations t) = set (is_expirations s) - {rt_expiry r}" using out by (auto simp: takes_out_def)
  note f = same_tokens_fields[OF same]
  have times: "rate_times u = rate_times t" by (simp add: u_def rate_times_def)
  have heap: "heaped u" using t(1) by (simp add: u_def heaped_def)
  have other: "rt_expiry r' \<noteq> rt_expiry r" if "is_records s j = Some r'" "j \<noteq> i" for j r'
    using that r parts(3) unfolding linked_def by metis
  have "linked u"
    unfolding linked_def
  proof (intro conjI allI impI ballI)
    fix j r' assume "is_records u j = Some r'"
    then have j: "is_records s j = Some r'" "j \<noteq> i" by (auto simp: u_def f split: if_splits)
    then show "rt_expiry r' \<in> set (is_expirations u)" "ie_id (expiry_of u (rt_expiry r')) = j"
      using parts(3) other[OF j] e by (auto simp: u_def f linked_def)
  next
    fix a assume "a \<in> set (is_expirations u)"
    then have a: "a \<in> set (is_expirations s)" "a \<noteq> rt_expiry r" using e by (auto simp: u_def)
    then obtain r' where r': "is_records s (ie_id (expiry_of s a)) = Some r'" "rt_expiry r' = a"
      using parts(3) unfolding linked_def by blast
    moreover have "ie_id (expiry_of s a) \<noteq> i" using r r' a(2) by auto
    ultimately show "\<exists>r'. is_records u (ie_id (expiry_of u a)) = Some r' \<and> rt_expiry r' = a" by (simp add: u_def f)
  qed
  moreover have "counted u"
    using parts(4) r by (auto simp: counted_def u_def f intro: tallied_del)
  ultimately show "rate_ok u" using heap t(2) by (simp add: rate_ok_def times) (simp add: u_def)
  show "issued u = (issued s)(i := None)" by (simp add: fun_eq_iff issued_def u_def f)
  show "same_limits s u" by (simp add: same_limits_def u_def f rate_removeEntry_def)
qed

lemma rate_remove_ok:
  assumes "rate_ok s" "is_records s i = Some r"
  shows "rate_ok (rate_remove i r s)" "issued (rate_remove i r s) = (issued s)(i := None)"
    "same_limits s (rate_remove i r s)"
proof -
  note parts = rate_ok_parts[OF assms(1)]
  obtain k where k: "k < length (is_expirations s)" "is_expirations s ! k = rt_expiry r"
    using linked_at[OF parts(3) assms(2)] by blast
  then have "ie_index (expiry_of s (rt_expiry r)) = int k" using parts(1) by (auto simp: heaped_def)
  then have u: "rate_remove i r s = rate_removeEntry i r (heap_Remove rate_Len rate_Less rate_Swap rate_Pop k s)"
    by (simp add: rate_remove_def)
  have "takes_out s (rt_expiry r) (heap_Remove rate_Len rate_Less rate_Swap rate_Pop k s)"
    using remove_takes_out[OF parts(1,2) k(1)] k(2) by simp
  from drop_token[OF assms this]
  show "rate_ok (rate_remove i r s)" "issued (rate_remove i r s) = (issued s)(i := None)"
    "same_limits s (rate_remove i r s)" by (simp_all add: u)
qed

text \<open>One round of cleaning takes out the token at the root.\<close>

lemma clean_step:
  assumes "rate_ok s" "is_expirations s \<noteq> []"
  obtains i r where "is_records s i = Some r" "ie_id (expiry_of s (is_expirations s ! 0)) = i"
    "rt_expiry r = is_expirations s ! 0"
    "takes_out s (rt_expiry r) (heap_Pop rate_Len rate_Less rate_Swap rate_Pop s)"
    "is_records (heap_Pop rate_Len rate_Less rate_Swap rate_Pop s) i = Some r"
proof -
  note parts = rate_ok_parts[OF assms(1)]
  let ?a = "is_expirations s ! 0"
  have "?a \<in> set (is_expirations s)" using assms(2) by simp
  then obtain r where r: "is_records s (ie_id (expiry_of s ?a)) = Some r" "rt_expiry r = ?a"
    using parts(3) by (auto simp: linked_def)
  have out: "takes_out s ?a (heap_Pop rate_Len rate_Less rate_Swap rate_Pop s)"
    by (rule pop_takes_out[OF parts(1,2) assms(2)])
  then have "is_records (heap_Pop rate_Len rate_Less rate_Swap rate_Pop s) = is_records s"
    using same_tokens_fields(5) by (auto simp: takes_out_def)
  then show ?thesis using that[OF r(1) refl r(2)] r out by simp
qed

definition cleaned_by :: "Prelude.time \<Rightarrow> issuanceRateState \<Rightarrow> issuanceRateState \<Rightarrow> bool" where
  "cleaned_by now s t \<longleftrightarrow> rate_ok t \<and> same_limits s t
     \<and> (\<forall>i. issued t i = issued s i \<or> issued t i = None \<and> (\<exists>v. issued s i = Some v \<and> token_expires v \<le> now))"

lemma cleaned_by_refl: "rate_ok s \<Longrightarrow> cleaned_by now s s"
  by (simp add: cleaned_by_def)

lemma cleaned_by_trans:
  assumes "cleaned_by now s t" "cleaned_by now t u"
  shows "cleaned_by now s u"
proof -
  have "issued u i = issued s i \<or> issued u i = None \<and> (\<exists>v. issued s i = Some v \<and> token_expires v \<le> now)" for i
  proof -
    have "issued t i = issued s i \<or> issued t i = None \<and> (\<exists>v. issued s i = Some v \<and> token_expires v \<le> now)"
      "issued u i = issued t i \<or> issued u i = None \<and> (\<exists>v. issued t i = Some v \<and> token_expires v \<le> now)"
      using assms by (auto simp: cleaned_by_def)
    then show ?thesis by (elim disjE conjE) simp_all
  qed
  then show ?thesis using assms same_limits_trans[of s t u] by (simp add: cleaned_by_def)
qed

lemma root_unexpired:
  assumes "rate_ok s" "is_expirations s = [] \<or> now < ie_expires (expiry_of s (is_expirations s ! 0))" "issued s i = Some v"
  shows "now < token_expires v"
proof -
  note parts = rate_ok_parts[OF assms(1)]
  obtain r where r: "is_records s i = Some r" "token_expires v = ie_expires (expiry_of s (rt_expiry r))"
    using assms(3) by (auto simp: issued_def)
  then obtain k where k: "k < length (is_expirations s)" "is_expirations s ! k = rt_expiry r"
    using linked_at[OF parts(3)] by blast
  then have "rate_times s ! 0 \<le> rate_times s ! k" using heap_root_minimum[OF parts(2)] by simp
  moreover have "0 < length (is_expirations s)" using k(1) by linarith
  then have "rate_times s ! 0 = ie_expires (expiry_of s (is_expirations s ! 0))" "rate_times s ! k = token_expires v"
    using k r by (simp_all add: rate_times_def nth_map)
  ultimately show ?thesis using assms(2) k by auto
qed

lemma rate_clean_loop_ok:
  assumes "rate_ok s" "rate_clean_loop b now s = (c, t)"
  shows "cleaned_by now s t \<and> c \<le> b \<and> length (is_expirations t) + c = length (is_expirations s)
    \<and> (c < b \<longrightarrow> (\<forall>i v. issued t i = Some v \<longrightarrow> now < token_expires v))"
  using assms
proof (induction b arbitrary: s c)
  case (Suc b)
  let ?a = "is_expirations s ! 0"
  show ?case
  proof (cases "is_expirations s = [] \<or> now < ie_expires (expiry_of s ?a)")
    case True
    then have "c = 0" "t = s" using Suc.prems(2) True by (auto simp: Let_def split: if_splits)
    then show ?thesis using Suc.prems(1) cleaned_by_refl root_unexpired[OF Suc.prems(1) True] by auto
  next
    case False
    then obtain i r where r: "is_records s i = Some r" "ie_id (expiry_of s ?a) = i" "rt_expiry r = ?a"
      "takes_out s (rt_expiry r) (heap_Pop rate_Len rate_Less rate_Swap rate_Pop s)"
      "is_records (heap_Pop rate_Len rate_Less rate_Swap rate_Pop s) i = Some r"
      using clean_step[OF Suc.prems(1)] by blast
    let ?u = "rate_removeEntry i r (heap_Pop rate_Len rate_Less rate_Swap rate_Pop s)"
    note u = drop_token[OF Suc.prems(1) r(1,4)]
    obtain c' where c': "rate_clean_loop b now ?u = (c', t)" "c = Suc c'"
      using Suc.prems(2) False r by (auto simp: Let_def split: prod.splits)
    have "issued s i = Some (rt_owner r, rt_peer r, ie_expires (expiry_of s ?a), rt_committed r)"
      using r by (simp add: issued_def)
    then have one: "cleaned_by now s ?u" using u False by (auto simp: cleaned_by_def)
    have len: "length (is_expirations ?u) + 1 = length (is_expirations s)"
    proof -
      have "set (is_expirations ?u) = set (is_expirations s) - {?a}" "distinct (is_expirations ?u)" "distinct (is_expirations s)"
        using r(3,4) Suc.prems(1) by (auto simp: takes_out_def heaped_def rate_ok_def)
      then have "length (is_expirations ?u) = card (set (is_expirations s) - {?a})"
        "length (is_expirations s) = card (set (is_expirations s))" by (metis distinct_card)+
      moreover have "?a \<in> set (is_expirations s)" using False by simp
      ultimately show ?thesis using card_Suc_Diff1[of "set (is_expirations s)" ?a] by simp
    qed
    have "cleaned_by now s t" using cleaned_by_trans[OF one] Suc.IH[OF u(1) c'(1)] by blast
    then show ?thesis using Suc.IH[OF u(1) c'(1)] c'(2) len by auto
  qed
qed (auto simp: cleaned_by_def)

subsection \<open>Taking a token\<close>

lemma push_heap:
  assumes "heaped s" "heap_order (rate_times s) (length (is_expirations s))" "a \<notin> set (is_expirations s)" "a < is_allocated s"
  defines "u \<equiv> heap_Push rate_Len rate_Less rate_Swap rate_Push a s"
  shows "heaped u \<and> heap_order (rate_times u) (length (is_expirations u)) \<and> same_tokens s u
    \<and> set (is_expirations u) = insert a (set (is_expirations s))"
proof -
  let ?p = "rate_Push a s" and ?n = "length (is_expirations s)"
  have e: "is_expirations ?p = is_expirations s @ [a]" by (simp add: rate_Push_def Let_def)
  have same: "same_tokens s ?p"
    unfolding rate_Push_def Let_def by (rule same_tokens_trans[OF same_tokens_set_index same_tokens_expirations])
  have obj: "ie_index (expiry_of ?p b) = (if b = a then int ?n else ie_index (expiry_of s b))" for b
    by (simp add: rate_Push_def Let_def expiry_of_set_index rate_Len_def)
  have nth: "is_expirations s ! i \<noteq> a" if "i < ?n" for i using assms(3) that nth_mem by metis
  have heap: "heaped ?p"
    using assms(1,3,4) nth unfolding heaped_def e same_tokens_fields(9)[OF same]
    by (auto simp: nth_append less_Suc_eq obj)
  have times: "rate_times ?p = rate_times s @ [ie_expires (expiry_of s a)]"
    by (simp add: rate_times_def e same_tokens_fields(11)[OF same])
  have "edge (rate_times ?p) c" if "0 < c" "c < Suc ?n" "c \<noteq> ?n" for c
    using that assms(2) parent_less[of c] by (simp add: times edge_def heap_order_def nth_append)
  moreover have "bridged (rate_times ?p) (Suc ?n) ?n"
    unfolding bridged_def by (metis less_Suc_eq_le not_le parent_less)
  ultimately have "order_but_into (rate_times ?p) (Suc ?n) ?n" by (auto simp: order_but_into_def)
  then have "heap_order (rate_times (heap_up rate_Less rate_Swap ?n ?p)) (Suc ?n)"
    by (intro tokens.up_restores heap) (simp_all add: e)
  moreover have "heaped (heap_up rate_Less rate_Swap ?n ?p)
      \<and> length (rate_times (heap_up rate_Less rate_Swap ?n ?p)) = length (rate_times ?p)
      \<and> same_tokens ?p (heap_up rate_Less rate_Swap ?n ?p)
      \<and> set (is_expirations (heap_up rate_Less rate_Swap ?n ?p)) = set (is_expirations ?p)"
    using heap same_tokens_trans[OF _ same_tokens_Swap]
    by (intro tokens.up_keeps[where n = "Suc ?n"]) (auto simp: e rate_Swap_expirations swap_at_set)
  moreover have "u = heap_up rate_Less rate_Swap ?n ?p" by (simp add: u_def heap_Push_def Let_def rate_Len_def e)
  ultimately show ?thesis using same_tokens_trans[OF same] by (auto simp: e)
qed

text \<open>The state between filling in the new record and pushing its expiry object.\<close>

definition with_token :: "Prelude.time \<Rightarrow> string \<Rightarrow> string \<Rightarrow> issuanceRateState \<Rightarrow> issuanceRateState" where
  "with_token now owner peer s =
     (let i = next_id (is_nextID s); a = is_allocated s in
      s\<lparr>is_nextID := i, is_allocated := a + 1,
        is_objects := (is_objects s)(a \<mapsto> \<lparr>ie_id = i, ie_expires = now + is_window s, ie_index = 0\<rparr>),
        is_records := (is_records s)(i \<mapsto> \<lparr>rt_owner = owner, rt_peer = peer, rt_expiry = a, rt_committed = False\<rparr>),
        is_ownerCount := incrementIssueCount (is_ownerCount s) owner,
        is_peerCount := incrementIssueCount (is_peerCount s) peer\<rparr>)"

lemma next_id_fresh:
  assumes "is_nextID s \<noteq> - 1" "counted s"
  shows "is_records s (next_id (is_nextID s)) = None" "next_id (is_nextID s) = is_nextID s + 1"
    "is_nextID s < next_id (is_nextID s)"
proof -
  have less: "is_nextID s < is_nextID s + 1" by (rule word_plus_one_gt[OF assms(1)])
  then show step: "next_id (is_nextID s) = is_nextID s + 1" by (auto simp: next_id_def)
  then show "is_nextID s < next_id (is_nextID s)" using less by simp
  show "is_records s (next_id (is_nextID s)) = None"
    using assms(2) less unfolding step counted_def by (metis domIff leD)
qed

lemma take_token:
  fixes now owner peer
  assumes ok: "rate_ok s" and "is_nextID s \<noteq> - 1"
  defines "i \<equiv> next_id (is_nextID s)"
  defines "u \<equiv> heap_Push rate_Len rate_Less rate_Swap rate_Push (is_allocated s) (with_token now owner peer s)"
  shows "rate_ok u" "issued u = (issued s)(i \<mapsto> (owner, peer, now + is_window s, False))" "issued s i = None" "is_nextID u = i"
    "is_window u = is_window s" "is_globalLimit u = is_globalLimit s" "is_ownerLimit u = is_ownerLimit s" "is_peerLimit u = is_peerLimit s"
proof -
  note parts = rate_ok_parts[OF ok]
  note fresh = next_id_fresh[OF assms(2) parts(4), folded i_def]
  let ?w = "with_token now owner peer s" and ?a = "is_allocated s"
  have w: "is_expirations ?w = is_expirations s" "is_allocated ?w = Suc ?a" "is_nextID ?w = i"
    "is_records ?w = (is_records s)(i \<mapsto> \<lparr>rt_owner = owner, rt_peer = peer, rt_expiry = ?a, rt_committed = False\<rparr>)"
    "expiry_of ?w b = (if b = ?a then \<lparr>ie_id = i, ie_expires = now + is_window s, ie_index = 0\<rparr> else expiry_of s b)" for b
    by (simp_all add: with_token_def Let_def i_def expiry_of_def)
  have old: "?a \<notin> set (is_expirations s)" "a \<in> set (is_expirations s) \<Longrightarrow> a \<noteq> ?a" for a
    using parts(1) by (auto simp: heaped_def)
  have heap: "heaped ?w" using parts(1) old(2)[OF nth_mem] by (auto simp: heaped_def w)
  have "rate_times ?w = rate_times s" using old by (auto simp: rate_times_def w)
  then have push: "heaped u" "heap_order (rate_times u) (length (is_expirations u))" "same_tokens ?w u"
      "set (is_expirations u) = insert ?a (set (is_expirations s))"
    using push_heap[OF heap, of ?a] parts(2) old by (auto simp: u_def w)
  note f = same_tokens_fields[OF push(3)]
  have other: "rt_expiry r \<noteq> ?a" if "is_records s j = Some r" for j r
    using old(1) parts(3) that unfolding linked_def by metis
  have linked: "linked u"
    unfolding linked_def
  proof (intro conjI allI impI ballI)
    fix j r assume "is_records u j = Some r"
    then have "(j = i \<and> rt_expiry r = ?a) \<or> (j \<noteq> i \<and> is_records s j = Some r)" by (auto simp: f w split: if_splits)
    then show "rt_expiry r \<in> set (is_expirations u)" "ie_id (expiry_of u (rt_expiry r)) = j"
      using parts(3) push(4) other[of j r] by (auto simp: f w linked_def)
  next
    fix a assume a: "a \<in> set (is_expirations u)"
    show "\<exists>r. is_records u (ie_id (expiry_of u a)) = Some r \<and> rt_expiry r = a"
    proof (cases "a = ?a")
      case False
      then obtain r where "is_records s (ie_id (expiry_of s a)) = Some r" "rt_expiry r = a"
        using a push(4) parts(3) unfolding linked_def by blast
      then show ?thesis using False fresh(1) by (auto simp: f w)
    qed (simp add: f w)
  qed
  have "j \<le> i" if "j \<in> dom (is_records u)" for j
  proof (cases "j = i")
    case False
    then have "j \<le> is_nextID s" using that parts(4) by (auto simp: counted_def f w)
    then show ?thesis using fresh(3) by (simp add: less_imp_le order.trans)
  qed simp
  moreover have "tallied UNIV (is_ownerCount u) rt_owner (is_records u)" "tallied UNIV (is_peerCount u) rt_peer (is_records u)"
    using parts(4) fresh(1) tallied_add[of UNIV "is_ownerCount s" rt_owner "is_records s" i "\<lparr>rt_owner = owner, rt_peer = peer, rt_expiry = ?a, rt_committed = False\<rparr>"]
      tallied_add[of UNIV "is_peerCount s" rt_peer "is_records s" i "\<lparr>rt_owner = owner, rt_peer = peer, rt_expiry = ?a, rt_committed = False\<rparr>"]
    by (simp_all add: counted_def f w) (simp_all add: with_token_def Let_def)
  moreover have "finite (dom (is_records u))" using parts(4) by (simp add: counted_def f w)
  ultimately have "counted u" by (simp add: counted_def f w)
  then show "rate_ok u" using push(1,2) linked by (simp add: rate_ok_def)
  show "issued u = (issued s)(i \<mapsto> (owner, peer, now + is_window s, False))"
    using other by (auto simp: fun_eq_iff issued_def f w intro!: option.map_cong)
  show "issued s i = None" using fresh(1) by (simp add: issued_def)
  show "is_nextID u = i" "is_window u = is_window s" "is_globalLimit u = is_globalLimit s"
    "is_ownerLimit u = is_ownerLimit s" "is_peerLimit u = is_peerLimit s"
    by (simp_all add: f w) (simp_all add: with_token_def Let_def)
qed

section \<open>The operations on tokens\<close>

definition rates_ok :: "issuanceRateState option \<Rightarrow> bool" where
  "rates_ok so = (case so of None \<Rightarrow> True | Some s \<Rightarrow> rate_ok s)"

lemma rates_ok_simps [simp]: "rates_ok None" "rates_ok (Some s) = rate_ok s"
  by (simp_all add: rates_ok_def)

lemma rates_ok_new: "rates_ok (newIssuanceRateState window g ow p)"
  by (simp add: newIssuanceRateState_def rate_ok_def heaped_def heap_order_def linked_def counted_def)

lemma issued_None_iff: "issued s i = None \<longleftrightarrow> is_records s i = None"
  by (simp add: issued_def)

lemma dom_issued: "dom (issued s) = dom (is_records s)"
  by (auto simp: issued_def)

lemma tally_issued:
  "tally fst (issued s) k = tally rt_owner (is_records s) k"
  "tally (\<lambda>v. fst (snd v)) (issued s) k = tally rt_peer (is_records s) k"
  "map_len (issued s) = map_len (is_records s)"
proof -
  show "tally fst (issued s) k = tally rt_owner (is_records s) k"
    "tally (\<lambda>v. fst (snd v)) (issued s) k = tally rt_peer (is_records s) k"
    unfolding tally_def dom_issued by (auto simp: issued_def intro!: arg_cong[where f = card])
  show "map_len (issued s) = map_len (is_records s)" by (simp add: map_len_def dom_issued)
qed

lemma counts_issued:
  assumes "rate_ok s"
  shows "lookup_or 0 (is_ownerCount s) k = int (tally fst (issued s) k)"
    "lookup_or 0 (is_peerCount s) k = int (tally (\<lambda>v. fst (snd v)) (issued s) k)" "finite (dom (issued s))"
  using rate_ok_parts(4)[OF assms] by (simp_all add: counted_def tallied_def tally_issued dom_issued)

text \<open>
  Reserving first cleans. It is refused exactly when a limit is reached by what is left, and
  otherwise adds one unstarted token for a full window.
\<close>

lemma rate_reserve_Some:
  assumes "rate_ok s" "is_nextID s \<noteq> - 1" "rate_reserve now owner peer (Some s) = (res, so)"
  obtains t where "cleaned_by now s t"
    "res = None \<Longrightarrow> so = Some t \<and> (is_globalLimit s \<le> int (map_len (issued t))
       \<or> is_ownerLimit s \<le> int (tally fst (issued t) owner) \<or> is_peerLimit s \<le> int (tally (\<lambda>v. fst (snd v)) (issued t) peer))"
    "\<And>i. res = Some i \<Longrightarrow> \<exists>u. so = Some u \<and> rate_ok u \<and> issued u = (issued t)(i \<mapsto> (owner, peer, now + is_window s, False))
       \<and> issued t i = None \<and> i = is_nextID s + 1 \<and> is_nextID u = i \<and> is_window u = is_window s \<and> is_globalLimit u = is_globalLimit s
       \<and> is_ownerLimit u = is_ownerLimit s \<and> is_peerLimit u = is_peerLimit s
       \<and> int (map_len (issued t)) < is_globalLimit s \<and> int (tally fst (issued t) owner) < is_ownerLimit s
       \<and> int (tally (\<lambda>v. fst (snd v)) (issued t) peer) < is_peerLimit s"
proof -
  obtain c t where loop: "rate_clean_loop issuanceRateCleanupBudget now s = (c, t)" by fastforce
  have t: "cleaned_by now s t" using rate_clean_loop_ok[OF assms(1) loop] by simp
  then have ok: "rate_ok t" and lim: "same_limits s t" by (auto simp: cleaned_by_def)
  then have n: "is_nextID t \<noteq> - 1" using assms(2) by (simp add: same_limits_def)
  note c = counts_issued[OF ok] tally_issued(3)[of t]
  note tok = take_token(1,2,4-8)[OF ok n, where now = now and owner = owner and peer = peer] take_token(3)[OF ok n]
  have step: "next_id (is_nextID t) = is_nextID t + 1" using next_id_fresh(2)[OF n rate_ok_parts(4)[OF ok]] .
  have eq: "(res, so) = (if is_globalLimit t \<le> int (map_len (issued t)) \<or> is_ownerLimit t \<le> int (tally fst (issued t) owner)
        \<or> is_peerLimit t \<le> int (tally (\<lambda>v. fst (snd v)) (issued t) peer) then (None, Some t)
      else (Some (next_id (is_nextID t)),
        Some (heap_Push rate_Len rate_Less rate_Swap rate_Push (is_allocated t) (with_token now owner peer t))))"
    unfolding assms(3)[symmetric]
    by (simp only: rate_reserve_def loop Let_def with_token_def option.simps snd_conv c)
  show ?thesis
    by (rule that[OF t]) (use eq lim tok step in \<open>auto simp: same_limits_def split: if_splits\<close>)
qed

lemma rate_start_Some:
  assumes "rate_ok s" "rate_start i (Some s) = (granted, so)"
  shows "\<exists>u. so = Some u \<and> rate_ok u \<and> same_limits s u \<and> (if granted
    then \<exists>ow p e. issued s i = Some (ow, p, e, False) \<and> issued u = (issued s)(i \<mapsto> (ow, p, e, True)) else u = s)"
proof (cases "is_records s i")
  case None
  then show ?thesis using assms by (auto simp: rate_start_def)
next
  case (Some r)
  show ?thesis
  proof (cases "rt_committed r")
    case False
    let ?u = "s\<lparr>is_records := (is_records s)(i \<mapsto> r\<lparr>rt_committed := True\<rparr>)\<rparr>"
    have e: "expiry_of ?u = expiry_of s" by (simp add: expiry_of_def fun_eq_iff)
    have "linked ?u"
      unfolding linked_def
    proof (intro conjI allI impI ballI)
      fix j r' assume "is_records ?u j = Some r'"
      then obtain r0 where "is_records s j = Some r0" "rt_expiry r' = rt_expiry r0" using Some by (auto split: if_splits)
      then show "rt_expiry r' \<in> set (is_expirations ?u)" "ie_id (expiry_of ?u (rt_expiry r')) = j"
        using rate_ok_parts(3)[OF assms(1)] by (auto simp: linked_def e)
    next
      fix a assume "a \<in> set (is_expirations ?u)"
      then have "a \<in> set (is_expirations s)" by simp
      then obtain r0 where "is_records s (ie_id (expiry_of s a)) = Some r0" "rt_expiry r0 = a"
        using rate_ok_parts(3)[OF assms(1)] unfolding linked_def by blast
      then show "\<exists>r'. is_records ?u (ie_id (expiry_of ?u a)) = Some r' \<and> rt_expiry r' = a" using Some by (auto simp: e)
    qed
    moreover have "counted ?u"
      using rate_ok_parts(4)[OF assms(1)] Some
      by (auto simp: counted_def tallied_def tally_upd_same)
    moreover have "heaped ?u" "rate_times ?u = rate_times s"
      using rate_ok_parts(1)[OF assms(1)] by (simp_all add: heaped_def rate_times_def e)
    ultimately have "rate_ok ?u" using rate_ok_parts(2)[OF assms(1)] by (simp add: rate_ok_def)
    moreover have "issued ?u = (issued s)(i \<mapsto> (rt_owner r, rt_peer r, ie_expires (expiry_of s (rt_expiry r)), True))"
      by (simp add: fun_eq_iff issued_def e)
    moreover have "issued s i = Some (rt_owner r, rt_peer r, ie_expires (expiry_of s (rt_expiry r)), False)"
      using Some False by (simp add: issued_def)
    moreover have "granted" "so = Some ?u" using assms(2) Some False by (auto simp: rate_start_def)
    ultimately show ?thesis by (simp add: same_limits_def)
  qed (use assms Some in \<open>auto simp: rate_start_def\<close>)
qed

lemma rate_rollback_Some:
  assumes "rate_ok s" "rate_rollback i (Some s) = (released, so)"
  shows "\<exists>u. so = Some u \<and> rate_ok u \<and> same_limits s u \<and> (if released
    then (\<exists>ow p e. issued s i = Some (ow, p, e, False)) \<and> issued u = (issued s)(i := None) else u = s)"
  using assms(2) rate_remove_ok[OF assms(1), of i] assms(1)
  by (auto simp: rate_rollback_def issued_def split: option.splits if_splits)

lemma rate_started_Some:
  "rate_started i (Some s) \<longleftrightarrow> (\<exists>ow p e. issued s i = Some (ow, p, e, True))"
  by (auto simp: rate_started_def issued_def split: option.splits)

lemma rate_clean_Some:
  assumes "rate_ok s" "rate_clean now b (Some s) = (c, so)"
  shows "\<exists>t. so = Some t \<and> cleaned_by now s t \<and> c \<le> b \<and> length (is_expirations t) + c = length (is_expirations s)
    \<and> (c < b \<longrightarrow> (\<forall>i v. issued t i = Some v \<longrightarrow> now < token_expires v))"
  using assms rate_clean_loop_ok[OF assms(1)] by (auto simp: rate_clean_def split: prod.splits)

end
