(* ===== verification/Challenge_Properties.thy ===== *)
theory Challenge_Properties
  imports Challenge_Store Challenge_Tokens
begin

text \<open>
  Runs of the challenge store. Every sequence of calls keeps the counters equal to what they
  count, the capacities respected and the rate tokens within their limits; a challenge is consumed
  at most once for each time it was committed; and no owner starts more challenges within one
  window than its rate allows.
\<close>

section \<open>The invariant\<close>

definition entries_counted :: "ChallengeStore \<Rightarrow> bool" where
  "entries_counted s \<longleftrightarrow> finite (dom (st_m s)) \<and> tallied (- {[]}) (st_ownerEntries s) ce_owner (st_m s)
     \<and> tallied (- {[]}) (st_peerEntries s) ce_peer (st_m s)"

definition reservations_counted :: "ChallengeStore \<Rightarrow> bool" where
  "reservations_counted s \<longleftrightarrow> finite (dom (st_reservations s))
     \<and> tallied (- {[]}) (st_ownerReserved s) cr_owner (st_reservations s)
     \<and> tallied (- {[]}) (st_peerReserved s) cr_peer (st_reservations s)
     \<and> (\<forall>i r. st_reservations s i = Some r \<longrightarrow> cr_id r = i \<and> i \<le> st_nextReservation s)"

text \<open>The limits on entries and reservations together, and on reservations alone.\<close>

definition within_capacity :: "ChallengeStore \<Rightarrow> bool" where
  "within_capacity s \<longleftrightarrow>
     int (map_len (st_m s) + map_len (st_reservations s)) \<le> st_cap s
     \<and> (\<forall>k. k \<noteq> [] \<longrightarrow> int (tally ce_owner (st_m s) k + tally cr_owner (st_reservations s) k) \<le> st_perOwnerCap s)
     \<and> (\<forall>k. k \<noteq> [] \<longrightarrow> int (tally ce_peer (st_m s) k + tally cr_peer (st_reservations s) k) \<le> st_perPeerCap s)
     \<and> int (map_len (st_reservations s)) \<le> st_concurrentCap s
     \<and> (\<forall>k. k \<noteq> [] \<longrightarrow> int (tally cr_owner (st_reservations s) k) \<le> st_perOwnerConcurrent s)
     \<and> (\<forall>k. k \<noteq> [] \<longrightarrow> int (tally cr_peer (st_reservations s) k) \<le> st_perPeerConcurrent s)"

definition tokens_of :: "ChallengeStore \<Rightarrow> u64 \<Rightarrow> token_view option" where
  "tokens_of s i = (case st_rates s of None \<Rightarrow> None | Some r \<Rightarrow> issued r i)"

definition rate_limited :: "issuanceRateState \<Rightarrow> bool" where
  "rate_limited r \<longleftrightarrow> rate_ok r \<and> (\<forall>k. int (tally fst (issued r) k) \<le> is_ownerLimit r)
     \<and> (\<forall>k. int (tally (\<lambda>v. fst (snd v)) (issued r) k) \<le> is_peerLimit r) \<and> int (map_len (issued r)) \<le> is_globalLimit r"

definition rates_within :: "ChallengeStore \<Rightarrow> bool" where
  "rates_within s = (case st_rates s of None \<Rightarrow> True | Some r \<Rightarrow> rate_limited r)"

lemma rate_limitedD:
  assumes "rate_limited r"
  shows "rate_ok r" "int (tally fst (issued r) k) \<le> is_ownerLimit r"
    "int (tally (\<lambda>v. fst (snd v)) (issued r) k) \<le> is_peerLimit r" "int (map_len (issued r)) \<le> is_globalLimit r"
    "finite (dom (issued r))"
  using assms counts_issued(3)[of r] by (simp_all add: rate_limited_def)

definition store_ok :: "ChallengeStore \<Rightarrow> bool" where
  "store_ok s \<longleftrightarrow> entries_counted s \<and> reservations_counted s \<and> within_capacity s \<and> rates_within s"

lemma store_ok_parts:
  assumes "store_ok s"
  shows "entries_counted s" "reservations_counted s" "within_capacity s" "rates_within s"
  using assms by (simp_all add: store_ok_def)

text \<open>A smaller table counts less.\<close>

definition submap :: "('k \<rightharpoonup> 'v) \<Rightarrow> ('k \<rightharpoonup> 'v) \<Rightarrow> bool" where
  "submap g f \<longleftrightarrow> (\<forall>i. g i = f i \<or> g i = None)"

lemma submap_refl [simp]: "submap f f"
  by (simp add: submap_def)

lemma submap_del [simp]: "submap (f(i := None)) f"
  by (simp add: submap_def)

lemma submap_trans: "submap g f \<Longrightarrow> submap h g \<Longrightarrow> submap h f"
  unfolding submap_def by metis

lemma submap_Some: "submap g f \<Longrightarrow> g i = Some v \<Longrightarrow> f i = Some v"
  unfolding submap_def by (metis option.distinct(1))

lemma tally_submap: "submap g f \<Longrightarrow> finite (dom f) \<Longrightarrow> tally h g k \<le> tally h f k"
  unfolding tally_def by (rule card_mono) (auto dest: submap_Some)

lemma map_len_submap: "submap g f \<Longrightarrow> finite (dom f) \<Longrightarrow> map_len g \<le> map_len f"
  unfolding map_len_def by (rule card_mono) (auto dest: submap_Some)

lemma within_capacityD:
  assumes "within_capacity s"
  shows "int (map_len (st_m s)) + int (map_len (st_reservations s)) \<le> st_cap s"
    "int (map_len (st_reservations s)) \<le> st_concurrentCap s"
    "k \<noteq> [] \<Longrightarrow> int (tally ce_owner (st_m s) k) + int (tally cr_owner (st_reservations s) k) \<le> st_perOwnerCap s"
    "k \<noteq> [] \<Longrightarrow> int (tally ce_peer (st_m s) k) + int (tally cr_peer (st_reservations s) k) \<le> st_perPeerCap s"
    "k \<noteq> [] \<Longrightarrow> int (tally cr_owner (st_reservations s) k) \<le> st_perOwnerConcurrent s"
    "k \<noteq> [] \<Longrightarrow> int (tally cr_peer (st_reservations s) k) \<le> st_perPeerConcurrent s"
  using assms by (simp_all add: within_capacity_def)

lemma within_capacityI:
  assumes "int (map_len (st_m s)) + int (map_len (st_reservations s)) \<le> st_cap s"
    "int (map_len (st_reservations s)) \<le> st_concurrentCap s"
    "\<And>k. k \<noteq> [] \<Longrightarrow> int (tally ce_owner (st_m s) k) + int (tally cr_owner (st_reservations s) k) \<le> st_perOwnerCap s"
    "\<And>k. k \<noteq> [] \<Longrightarrow> int (tally ce_peer (st_m s) k) + int (tally cr_peer (st_reservations s) k) \<le> st_perPeerCap s"
    "\<And>k. k \<noteq> [] \<Longrightarrow> int (tally cr_owner (st_reservations s) k) \<le> st_perOwnerConcurrent s"
    "\<And>k. k \<noteq> [] \<Longrightarrow> int (tally cr_peer (st_reservations s) k) \<le> st_perPeerConcurrent s"
  shows "within_capacity s"
  using assms by (simp add: within_capacity_def)

section \<open>Shrinking\<close>

text \<open>What cleaning and withdrawing may do: entries, reservations and tokens only go away, a started token only after its window.\<close>

definition same_caps :: "ChallengeStore \<Rightarrow> ChallengeStore \<Rightarrow> bool" where
  "same_caps s t \<longleftrightarrow> st_cap t = st_cap s \<and> st_perOwnerCap t = st_perOwnerCap s \<and> st_perPeerCap t = st_perPeerCap s
     \<and> st_concurrentCap t = st_concurrentCap s \<and> st_perOwnerConcurrent t = st_perOwnerConcurrent s
     \<and> st_perPeerConcurrent t = st_perPeerConcurrent s \<and> st_nextReservation t = st_nextReservation s
     \<and> st_allocated t = st_allocated s \<and> rel_option same_limits (st_rates s) (st_rates t)"

definition keeps_started :: "Prelude.time \<Rightarrow> (u64 \<rightharpoonup> token_view) \<Rightarrow> (u64 \<rightharpoonup> token_view) \<Rightarrow> bool" where
  "keeps_started now f g \<longleftrightarrow>
     (\<forall>i. g i = f i \<or> g i = None \<and> (\<exists>v. f i = Some v \<and> (token_expires v \<le> now \<or> \<not> snd (snd (snd v)))))"

definition shrinks :: "Prelude.time \<Rightarrow> ChallengeStore \<Rightarrow> ChallengeStore \<Rightarrow> bool" where
  "shrinks now s t \<longleftrightarrow> store_ok t \<and> same_caps s t \<and> submap (st_m t) (st_m s)
     \<and> submap (st_reservations t) (st_reservations s) \<and> keeps_started now (tokens_of s) (tokens_of t)"

lemma rel_same_limits_refl [simp]: "rel_option same_limits so so"
  by (cases so) auto

lemma same_caps_refl [simp]: "same_caps s s"
  by (simp add: same_caps_def)

lemma rel_same_limits_trans:
  "rel_option same_limits a b \<Longrightarrow> rel_option same_limits b c \<Longrightarrow> rel_option same_limits a c"
  by (cases a; cases b; cases c) (auto intro: same_limits_trans)

lemma same_caps_trans: "same_caps s t \<Longrightarrow> same_caps t u \<Longrightarrow> same_caps s u"
  unfolding same_caps_def by (auto intro: rel_same_limits_trans)

lemma keeps_started_refl [simp]: "keeps_started now f f"
  by (simp add: keeps_started_def)

lemma keeps_started_trans:
  assumes "keeps_started now f g" "keeps_started now g h"
  shows "keeps_started now f h"
  unfolding keeps_started_def
proof
  fix i
  have "g i = f i \<or> g i = None \<and> (\<exists>v. f i = Some v \<and> (token_expires v \<le> now \<or> \<not> snd (snd (snd v))))"
    "h i = g i \<or> h i = None \<and> (\<exists>v. g i = Some v \<and> (token_expires v \<le> now \<or> \<not> snd (snd (snd v))))"
    using assms by (auto simp: keeps_started_def)
  then show "h i = f i \<or> h i = None \<and> (\<exists>v. f i = Some v \<and> (token_expires v \<le> now \<or> \<not> snd (snd (snd v))))"
    by (elim disjE conjE) simp_all
qed

lemma keeps_started_submap:
  assumes "keeps_started now f g"
  shows "submap g f"
  unfolding submap_def
proof
  fix i show "g i = f i \<or> g i = None" using assms[unfolded keeps_started_def, rule_format, of i] by auto
qed

lemma shrinks_refl: "store_ok s \<Longrightarrow> shrinks now s s"
  by (simp add: shrinks_def)

lemma shrinks_trans: "shrinks now s t \<Longrightarrow> shrinks now t u \<Longrightarrow> shrinks now s u"
  unfolding shrinks_def by (blast intro: same_caps_trans submap_trans keeps_started_trans)

lemma shrinks_ok: "shrinks now s t \<Longrightarrow> store_ok t"
  by (simp add: shrinks_def)

text \<open>A store with fewer entries and reservations and the same tokens stays within its limits.\<close>

lemma within_capacity_submap:
  assumes "within_capacity s" "same_caps s t" "submap (st_m t) (st_m s)" "submap (st_reservations t) (st_reservations s)"
    "finite (dom (st_m s))" "finite (dom (st_reservations s))"
  shows "within_capacity t"
proof -
  note e = tally_submap[OF assms(3,5)] map_len_submap[OF assms(3,5)]
  note r = tally_submap[OF assms(4,6)] map_len_submap[OF assms(4,6)]
  note c = within_capacityD[OF assms(1)]
  have cap: "st_cap t = st_cap s" "st_perOwnerCap t = st_perOwnerCap s" "st_perPeerCap t = st_perPeerCap s"
    "st_concurrentCap t = st_concurrentCap s" "st_perOwnerConcurrent t = st_perOwnerConcurrent s"
    "st_perPeerConcurrent t = st_perPeerConcurrent s" using assms(2) by (simp_all add: same_caps_def)
  show ?thesis
  proof (rule within_capacityI, goal_cases)
    case 1 show ?case using c(1) e(2) r(2) cap by linarith
  next
    case 2 show ?case using c(2) r(2) cap by linarith
  next
    case (3 k) then show ?case using c(3)[of k] e(1)[of ce_owner k] r(1)[of cr_owner k] cap by linarith
  next
    case (4 k) then show ?case using c(4)[of k] e(1)[of ce_peer k] r(1)[of cr_peer k] cap by linarith
  next
    case (5 k) then show ?case using c(5)[of k] r(1)[of cr_owner k] cap by linarith
  next
    case (6 k) then show ?case using c(6)[of k] r(1)[of cr_peer k] cap by linarith
  qed
qed

lemma tallied_drop:
  "tallied (- {[]}) c f m \<Longrightarrow> finite (dom m) \<Longrightarrow> m i = Some v \<Longrightarrow> tallied (- {[]}) (drop_count c (f v)) f (m(i := None))"
  by (simp add: drop_count_def tallied_del tallied_del_other)

lemma tallied_bump:
  "tallied (- {[]}) c f m \<Longrightarrow> finite (dom m) \<Longrightarrow> m i = None \<Longrightarrow> tallied (- {[]}) (bump c (f v)) f (m(i \<mapsto> v))"
  by (simp add: bump_def tallied_add tallied_add_other)

lemma deleteEntry_shrinks:
  assumes "store_ok s" "st_m s j = Some e"
  shows "shrinks now s (deleteEntryLocked j e s)"
proof -
  note p = store_ok_parts[OF assms(1)]
  let ?t = "deleteEntryLocked j e s"
  have same: "same_caps s ?t" "st_reservations ?t = st_reservations s" "st_m ?t = (st_m s)(j := None)" "st_rates ?t = st_rates s"
    by (simp_all add: deleteEntryLocked_def same_caps_def)
  have fin: "finite (dom (st_m s))" using p(1) by (simp add: entries_counted_def)
  have "entries_counted ?t"
    using p(1) tallied_drop[OF _ fin assms(2), of "st_ownerEntries s" ce_owner]
      tallied_drop[OF _ fin assms(2), of "st_peerEntries s" ce_peer]
    unfolding entries_counted_def deleteEntryLocked_def by simp
  moreover have "reservations_counted ?t" using p(2) by (simp add: reservations_counted_def deleteEntryLocked_def)
  moreover have "within_capacity ?t"
    using p by (intro within_capacity_submap[OF p(3) same(1)]) (auto simp: same entries_counted_def reservations_counted_def)
  moreover have "rates_within ?t" using p(4) by (simp add: rates_within_def same)
  ultimately show ?thesis using same by (simp add: shrinks_def store_ok_def tokens_of_def[abs_def])
qed

text \<open>Tokens that go away leave the rest within the limits.\<close>

lemma rate_limited_submap:
  assumes "rate_limited r" "rate_ok u" "same_limits r u" "submap (issued u) (issued r)"
  shows "rate_limited u"
proof -
  note lim = rate_limitedD[OF assms(1)]
  have le: "int (tally f (issued u) k) \<le> int (tally f (issued r) k)" "int (map_len (issued u)) \<le> int (map_len (issued r))"
    for f and k :: string
    using tally_submap[OF assms(4) lim(5), of f k] map_len_submap[OF assms(4) lim(5)] by auto
  show ?thesis
    using assms(2,3) order.trans[OF le(1) lim(2)] order.trans[OF le(1) lim(3)] order.trans[OF le(2) lim(4)]
    by (auto simp: rate_limited_def same_limits_def)
qed

lemma rates_shrink:
  assumes "store_ok s" "st_rates s = Some r" "rate_ok u" "same_limits r u" "keeps_started now (issued r) (issued u)"
  shows "shrinks now s (s\<lparr>st_rates := Some u\<rparr>)"
proof -
  note p = store_ok_parts[OF assms(1)]
  have "submap (issued u) (issued r)" by (rule keeps_started_submap[OF assms(5)])
  then have "rates_within (s\<lparr>st_rates := Some u\<rparr>)"
    using rate_limited_submap[OF _ assms(3,4)] p(4) assms(2) by (simp add: rates_within_def)
  then show ?thesis
    using p assms by (simp add: shrinks_def store_ok_def same_caps_def entries_counted_def reservations_counted_def
        within_capacity_def tokens_of_def[abs_def])
qed

lemma cleaned_keeps_started:
  assumes "cleaned_by now s t"
  shows "keeps_started now (issued s) (issued t)"
  unfolding keeps_started_def
proof
  fix i
  have "issued t i = issued s i \<or> issued t i = None \<and> (\<exists>v. issued s i = Some v \<and> token_expires v \<le> now)"
    using assms by (simp add: cleaned_by_def)
  then show "issued t i = issued s i \<or> issued t i = None
      \<and> (\<exists>v. issued s i = Some v \<and> (token_expires v \<le> now \<or> \<not> snd (snd (snd v))))" by blast
qed

lemma rate_clean_shrinks:
  assumes "store_ok s" "rate_clean now b (st_rates s) = (c, so)"
  shows "shrinks now s (s\<lparr>st_rates := so\<rparr>)"
proof (cases "st_rates s")
  case None
  then have "so = st_rates s" using assms(2) by (simp add: rate_clean_def)
  then have "s\<lparr>st_rates := so\<rparr> = s" by simp
  then show ?thesis using shrinks_refl[OF assms(1)] by metis
next
  case (Some r)
  have "rate_ok r" using store_ok_parts(4)[OF assms(1)] Some by (simp add: rates_within_def rate_limited_def)
  with rate_clean_Some[OF this, of now b c so] assms(2) Some obtain t where t: "so = Some t" "cleaned_by now r t" by auto
  then show ?thesis
    using rates_shrink[OF assms(1) Some, of t now] cleaned_keeps_started by (auto simp: cleaned_by_def)
qed

lemma removeReservation_shrinks:
  assumes "store_ok s" "st_reservations s (cr_id r) = Some r"
  shows "shrinks now s (removeReservationLocked r s)"
proof -
  note p = store_ok_parts[OF assms(1)]
  let ?t = "removeReservationLocked r s"
  have same: "same_caps s ?t" "st_reservations ?t = (st_reservations s)(cr_id r := None)" "st_m ?t = st_m s" "st_rates ?t = st_rates s"
    by (simp_all add: removeReservationLocked_def same_caps_def)
  have fin: "finite (dom (st_reservations s))" using p(2) by (simp add: reservations_counted_def)
  have "reservations_counted ?t"
    using p(2) tallied_drop[OF _ fin assms(2), of "st_ownerReserved s" cr_owner]
      tallied_drop[OF _ fin assms(2), of "st_peerReserved s" cr_peer]
    unfolding reservations_counted_def removeReservationLocked_def by simp
  moreover have "entries_counted ?t" using p(1) by (simp add: entries_counted_def removeReservationLocked_def)
  moreover have "within_capacity ?t"
    using p by (intro within_capacity_submap[OF p(3) same(1)]) (auto simp: same entries_counted_def reservations_counted_def)
  moreover have "rates_within ?t" using p(4) by (simp add: rates_within_def same)
  ultimately show ?thesis using same by (simp add: shrinks_def store_ok_def tokens_of_def[abs_def])
qed

lemma rollback_shrinks:
  assumes "store_ok s" "rollbackReservationLocked r s = (b, t)"
  shows "shrinks now s t"
proof (cases "st_reservations s (cr_id r) = Some r")
  case False
  then show ?thesis using assms shrinks_refl by (auto simp: rollbackReservationLocked_def)
next
  case True
  let ?u = "s\<lparr>st_rates := snd (rate_rollback (cr_rateID r) (st_rates s))\<rparr>"
  have u: "shrinks now s ?u"
  proof (cases "st_rates s")
    case None
    then have "?u = s" by (simp add: rate_rollback_def)
    then show ?thesis using shrinks_refl[OF assms(1)] by simp
  next
    case (Some x)
    have "rate_ok x" using store_ok_parts(4)[OF assms(1)] Some by (simp add: rates_within_def rate_limited_def)
    moreover obtain b' so where so: "rate_rollback (cr_rateID r) (Some x) = (b', so)" by fastforce
    ultimately obtain y where y: "so = Some y" "rate_ok y" "same_limits x y"
        "if b' then (\<exists>ow p e. issued x (cr_rateID r) = Some (ow, p, e, False)) \<and> issued y = (issued x)(cr_rateID r := None) else y = x"
      using rate_rollback_Some by blast
    then have "keeps_started now (issued x) (issued y)" by (auto simp: keeps_started_def split: if_splits)
    note y = y(1-3) this
    then show ?thesis using rates_shrink[OF assms(1) Some y(2-4)] so Some by simp
  qed
  moreover have "st_reservations ?u (cr_id r) = Some r" using True by simp
  ultimately have "shrinks now s (removeReservationLocked r ?u)"
    using removeReservation_shrinks shrinks_trans shrinks_ok by metis
  then show ?thesis using assms(2) True by (simp add: rollbackReservationLocked_def)
qed

subsection \<open>Cleaning\<close>

lemma clean_entries_shrinks:
  "store_ok s \<Longrightarrow> clean_entries left n js s = (c, l, t) \<Longrightarrow> shrinks n s t"
proof (induction js arbitrary: left s c)
  case (Cons j js)
  show ?case
  proof (cases "left = 0 \<or> st_m s j = None")
    case True
    then show ?thesis using Cons shrinks_refl by (auto split: if_splits)
  next
    case False
    then obtain e where e: "st_m s j = Some e" "left \<noteq> 0" by auto
    have d: "shrinks n s (deleteEntryLocked j e s)" by (rule deleteEntry_shrinks[OF Cons.prems(1) e(1)])
    show ?thesis
    proof (cases "n < ce_purge e")
      case True
      then show ?thesis using Cons.IH[OF Cons.prems(1)] Cons.prems(2) e by auto
    next
      case False
      then obtain c' where "clean_entries (left - 1) n js (deleteEntryLocked j e s) = (c', l, t)"
        using Cons.prems(2) e by (auto split: prod.splits)
      then show ?thesis using Cons.IH[OF shrinks_ok[OF d]] shrinks_trans[OF d] by blast
    qed
  qed
qed (auto intro: shrinks_refl)

lemma clean_reservations_shrinks:
  "store_ok s \<Longrightarrow> clean_reservations left n js s = (c, l, t) \<Longrightarrow> shrinks n s t"
proof (induction js arbitrary: left s c)
  case (Cons i js)
  show ?case
  proof (cases "left = 0 \<or> st_reservations s i = None")
    case True
    then show ?thesis using Cons shrinks_refl by (auto split: if_splits)
  next
    case False
    then obtain r where r: "st_reservations s i = Some r" "left \<noteq> 0" by auto
    have d: "shrinks n s (snd (rollbackReservationLocked r s))"
      using rollback_shrinks[OF Cons.prems(1)] by (metis prod.collapse)
    show ?thesis
    proof (cases "n < cr_expires r")
      case True
      then show ?thesis using Cons.IH[OF Cons.prems(1)] Cons.prems(2) r by auto
    next
      case False
      then obtain c' where "clean_reservations (left - 1) n js (snd (rollbackReservationLocked r s)) = (c', l, t)"
        using Cons.prems(2) r by (auto split: prod.splits)
      then show ?thesis using Cons.IH[OF shrinks_ok[OF d]] shrinks_trans[OF d] by blast
    qed
  qed
qed (auto intro: shrinks_refl)

lemma cleaned_shrinks:
  assumes "store_ok s"
  shows "shrinks n s (cleaned n ord s)"
proof -
  obtain c1 l1 s1 where 1: "clean_entries issuanceRateCleanupBudget n (fst ord) s = (c1, l1, s1)"
    using prod_cases3 by blast
  obtain c2 l2 s2 where 2: "clean_reservations l1 n (snd ord) s1 = (c2, l2, s2)"
    using prod_cases3 by blast
  obtain c3 so where 3: "rate_clean n l2 (st_rates s2) = (c3, so)" by fastforce
  have s1: "shrinks n s s1" by (rule clean_entries_shrinks[OF assms 1])
  have s2: "shrinks n s s2" by (rule shrinks_trans[OF s1 clean_reservations_shrinks[OF shrinks_ok[OF s1] 2]])
  then show ?thesis
    using shrinks_trans[OF s2 rate_clean_shrinks[OF shrinks_ok[OF s2] 3]]
    by (simp add: store_clean_def 1 2 3)
qed

lemma purge_entries_shrinks: "store_ok s \<Longrightarrow> shrinks n s (purge_entries n js s)"
proof (induction js arbitrary: s)
  case (Cons j js)
  let ?t = "case st_m s j of None \<Rightarrow> s | Some e \<Rightarrow> if n < ce_purge e then s else deleteEntryLocked j e s"
  have "shrinks n s ?t"
    using shrinks_refl[OF Cons.prems] deleteEntry_shrinks[OF Cons.prems] by (simp split: option.split)
  then show ?case using Cons.IH[of ?t] shrinks_trans shrinks_ok unfolding purge_entries.simps by blast
qed (simp add: shrinks_refl)

lemma purge_reservations_shrinks: "store_ok s \<Longrightarrow> shrinks n s (purge_reservations n js s)"
proof (induction js arbitrary: s)
  case (Cons j js)
  let ?t = "case st_reservations s j of None \<Rightarrow> s
    | Some r \<Rightarrow> if n < cr_expires r then s else snd (rollbackReservationLocked r s)"
  have "shrinks n s (snd (rollbackReservationLocked r s))" for r
    using rollback_shrinks[OF Cons.prems] by (metis prod.collapse)
  then have "shrinks n s ?t" using shrinks_refl[OF Cons.prems] by (simp split: option.split)
  then show ?case using Cons.IH[of ?t] shrinks_trans shrinks_ok unfolding purge_reservations.simps by blast
qed (simp add: shrinks_refl)

lemma drain_shrinks:
  assumes "store_ok s"
  shows "shrinks n s (s\<lparr>st_rates := drain_rates n (st_rates s)\<rparr>)"
  using assms
proof (induction n "st_rates s" arbitrary: s rule: drain_rates.induct)
  case (1 n)
  obtain c so where step: "rate_clean n issuanceRateCleanupBudget (st_rates s) = (c, so)" by fastforce
  let ?t = "s\<lparr>st_rates := so\<rparr>"
  have t: "shrinks n s ?t" by (rule rate_clean_shrinks[OF 1(2) step])
  show ?case
  proof (cases "c = issuanceRateCleanupBudget")
    case True
    then have "drain_rates n (st_rates s) = drain_rates n (st_rates ?t)" using step by (subst drain_rates.simps) simp
    moreover have "shrinks n ?t (?t\<lparr>st_rates := drain_rates n (st_rates ?t)\<rparr>)"
      using 1(1)[of c ?t] step True shrinks_ok[OF t] by simp
    ultimately show ?thesis using shrinks_trans[OF t] by simp
  next
    case False
    then have "drain_rates n (st_rates s) = so" using step by (subst drain_rates.simps) simp
    then show ?thesis using t by simp
  qed
qed

lemma Len_shrinks:
  assumes "store_ok s" "store_Len n ord s = (k, t)"
  shows "shrinks n s t"
proof -
  let ?u = "purge_reservations n (snd ord) (purge_entries n (fst ord) s)"
  have u: "shrinks n s ?u"
    using shrinks_trans[OF purge_entries_shrinks[OF assms(1)] purge_reservations_shrinks[OF shrinks_ok[OF purge_entries_shrinks[OF assms(1)]]]] .
  then show ?thesis using assms(2) shrinks_trans[OF u drain_shrinks[OF shrinks_ok[OF u]]] by (auto simp: store_Len_def Let_def)
qed

section \<open>Calls\<close>

text \<open>
  The calls a client can make and what they achieve. \<open>AddScopedWithPeer\<close> and \<open>Issue\<close> are the
  three calls of the transaction in a row.
\<close>

datatype challenge_call =
    CallReserve string string "Prelude.time"
  | CallStart "ChallengeReservation option"
  | CallCommit "ChallengeReservation option" string "Prelude.time"
  | CallRollback "ChallengeReservation option"
  | CallConsume string
  | CallConsumeScoped string string string
  | CallStatus string
  | CallRemove string
  | CallRevoke string
  | CallLen

datatype challenge_event =
    Reserved ChallengeReservation
  | Started ChallengeReservation
  | Committed string ChallengeReservation
  | Consumed string
  | Quiet

fun perform :: "Prelude.time \<Rightarrow> map_order \<Rightarrow> challenge_call \<Rightarrow> ChallengeStore \<Rightarrow> challenge_event \<times> ChallengeStore" where
  "perform n ord (CallReserve owner peer exp) s =
     (case ReserveScoped n ord owner peer exp s of (Inr r, s') \<Rightarrow> (Reserved r, s') | (Inl _, s') \<Rightarrow> (Quiet, s'))"
| "perform n ord (CallStart ro) s =
     (case (ro, Start n ro s) of (Some r, None, s') \<Rightarrow> (Started r, s') | (_, _, s') \<Rightarrow> (Quiet, s'))"
| "perform n ord (CallCommit ro j exp) s =
     (case (ro, Commit n ro j exp s) of (Some r, None, s') \<Rightarrow> (Committed j r, s') | (_, _, s') \<Rightarrow> (Quiet, s'))"
| "perform n ord (CallRollback ro) s = (Quiet, snd (Rollback ro s))"
| "perform n ord (CallConsume j) s =
     (case Consume n ord j s of ((_, used), s') \<Rightarrow> (if used then Consumed j else Quiet, s'))"
| "perform n ord (CallConsumeScoped j owner peer) s =
     (case ConsumeScoped n ord j owner peer s of ((_, used), s') \<Rightarrow> (if used then Consumed j else Quiet, s'))"
| "perform n ord (CallStatus j) s = (Quiet, snd (Challenge_Status n ord j s))"
| "perform n ord (CallRemove j) s = (Quiet, snd (store_Remove j s))"
| "perform n ord (CallRevoke j) s = (Quiet, snd (clearance_Revoke n ord j s))"
| "perform n ord CallLen s = (Quiet, snd (store_Len n ord s))"

text \<open>A call that publishes nothing shrinks the store; consuming takes the entry out.\<close>

lemma consume_effect:
  assumes "store_ok s" "consume n ord j owner peer scoped s = ((status, used), s')"
  shows "shrinks n s s' \<and> (used \<longrightarrow> st_m s j \<noteq> None \<and> st_m s' j = None)"
proof -
  let ?t = "cleaned n ord s"
  have t: "shrinks n s ?t" by (rule cleaned_shrinks[OF assms(1)])
  show ?thesis
  proof (cases "st_m ?t j")
    case None
    then show ?thesis using assms(2) t by (auto simp: consume_def Let_def)
  next
    case (Some e)
    have d: "shrinks n s (deleteEntryLocked j e ?t)"
      using shrinks_trans[OF t deleteEntry_shrinks[OF shrinks_ok[OF t] Some]] .
    have "submap (st_m ?t) (st_m s)" using t by (simp add: shrinks_def)
    then have "st_m s j = Some e" using Some by (rule submap_Some)
    then show ?thesis
      using assms(2) Some t d by (auto simp: consume_def Let_def deleteEntryLocked_def split: if_splits)
  qed
qed

lemma quiet_shrinks:
  assumes "store_ok s"
  shows "shrinks n s (snd (Rollback ro s))" "shrinks n s (snd (Challenge_Status n ord j s))"
    "shrinks n s (snd (store_Remove j s))" "shrinks n s (snd (clearance_Revoke n ord j s))" "shrinks n s (snd (store_Len n ord s))"
proof -
  let ?t = "cleaned n ord s"
  have t: "shrinks n s ?t" by (rule cleaned_shrinks[OF assms])
  have d: "shrinks n s (deleteEntryLocked j e ?t)" if "st_m ?t j = Some e" for e
    using shrinks_trans[OF t deleteEntry_shrinks[OF shrinks_ok[OF t] that]] .
  have "shrinks n s (snd (rollbackReservationLocked r s))" for r
    using rollback_shrinks[OF assms] by (metis prod.collapse)
  then show "shrinks n s (snd (Rollback ro s))" using shrinks_refl[OF assms] by (auto simp: Rollback_def split: option.split)
  show "shrinks n s (snd (Challenge_Status n ord j s))" using t d by (auto simp: Challenge_Status_def Let_def split: option.split)
  show "shrinks n s (snd (store_Remove j s))"
    using shrinks_refl[OF assms] deleteEntry_shrinks[OF assms] by (auto simp: store_Remove_def split: option.split)
  show "shrinks n s (snd (clearance_Revoke n ord j s))" using t d by (auto simp: clearance_Revoke_def Let_def split: option.split)
  show "shrinks n s (snd (store_Len n ord s))" using Len_shrinks[OF assms] by (metis prod.collapse)
qed

subsection \<open>Reserving\<close>

text \<open>Identifiers are left: neither 64-bit counter has reached its maximum.\<close>

definition ids_left :: "ChallengeStore \<Rightarrow> bool" where
  "ids_left s \<longleftrightarrow> st_nextReservation s \<noteq> - 1 \<and> (case st_rates s of None \<Rightarrow> True | Some x \<Rightarrow> is_nextID x \<noteq> - 1)"

definition same_rates :: "issuanceRateState \<Rightarrow> issuanceRateState \<Rightarrow> bool" where
  "same_rates x u \<longleftrightarrow> is_window u = is_window x \<and> is_globalLimit u = is_globalLimit x
     \<and> is_ownerLimit u = is_ownerLimit x \<and> is_peerLimit u = is_peerLimit x"

text \<open>The store after a reservation \<open>r\<close> in the cleaned store \<open>t\<close>, whose rate state becomes \<open>rates\<close>.\<close>

definition reserved_in :: "ChallengeReservation \<Rightarrow> issuanceRateState option \<Rightarrow> ChallengeStore \<Rightarrow> ChallengeStore" where
  "reserved_in r rates t =
     t\<lparr>st_rates := rates, st_nextReservation := cr_id r, st_allocated := st_allocated t + 1,
       st_reservations := (st_reservations t)(cr_id r \<mapsto> r),
       st_ownerReserved := bump (st_ownerReserved t) (cr_owner r), st_peerReserved := bump (st_peerReserved t) (cr_peer r)\<rparr>"

lemma next_reservation:
  assumes "reservations_counted t" "st_nextReservation t \<noteq> - 1"
  shows "next_id (st_nextReservation t) = st_nextReservation t + 1"
    "st_reservations t (st_nextReservation t + 1) = None" "st_nextReservation t < st_nextReservation t + 1"
proof -
  show lt: "st_nextReservation t < st_nextReservation t + 1" by (rule word_plus_one_gt[OF assms(2)])
  then show "next_id (st_nextReservation t) = st_nextReservation t + 1" by (auto simp: next_id_def)
  show "st_reservations t (st_nextReservation t + 1) = None"
  proof (cases "st_reservations t (st_nextReservation t + 1)")
    case (Some r)
    then have "st_nextReservation t + 1 \<le> st_nextReservation t" using assms(1) by (auto simp: reservations_counted_def)
    then show ?thesis using lt by simp
  qed
qed

lemma reserved_counted:
  assumes "reservations_counted t" "st_nextReservation t \<noteq> - 1" "cr_id r = st_nextReservation t + 1"
  shows "reservations_counted (reserved_in r rates t)"
proof -
  note n = next_reservation[OF assms(1,2)]
  have fin: "finite (dom (st_reservations t))" using assms(1) by (simp add: reservations_counted_def)
  have "st_reservations t (cr_id r) = None" using n(2) assms(3) by simp
  note b = tallied_bump[OF _ fin this, of "st_ownerReserved t" cr_owner r] tallied_bump[OF _ fin this, of "st_peerReserved t" cr_peer r]
  have "cr_id q = i \<and> i \<le> cr_id r" if "((st_reservations t)(cr_id r \<mapsto> r)) i = Some q" for i q
  proof (cases "i = cr_id r")
    case False
    then have "st_reservations t i = Some q" using that by simp
    then have "cr_id q = i" "i \<le> st_nextReservation t" using assms(1) unfolding reservations_counted_def by blast+
    then show ?thesis using n(3) assms(3) by (simp add: less_imp_le order.trans)
  qed (use that in auto)
  moreover have "tallied (- {[]}) (st_ownerReserved t) cr_owner (st_reservations t)"
    "tallied (- {[]}) (st_peerReserved t) cr_peer (st_reservations t)" using assms(1) by (simp_all add: reservations_counted_def)
  moreover have f: "st_reservations (reserved_in r rates t) = (st_reservations t)(cr_id r \<mapsto> r)"
    "st_ownerReserved (reserved_in r rates t) = bump (st_ownerReserved t) (cr_owner r)"
    "st_peerReserved (reserved_in r rates t) = bump (st_peerReserved t) (cr_peer r)"
    "st_nextReservation (reserved_in r rates t) = cr_id r" "finite (dom ((st_reservations t)(cr_id r \<mapsto> r)))"
    using fin by (simp_all add: reserved_in_def)
  ultimately show ?thesis using b f(5) unfolding reservations_counted_def f(1-4) by blast
qed

lemma reserved_capacity:
  assumes "entries_counted t" "reservations_counted t" "within_capacity t" "\<not> over_capacity (cr_owner r) (cr_peer r) t"
    "st_reservations t (cr_id r) = None"
  shows "within_capacity (reserved_in r rates t)"
proof -
  have fin: "finite (dom (st_reservations t))" using assms(2) by (simp add: reservations_counted_def)
  note c = within_capacityD[OF assms(3)]
  have counts: "lookup_or 0 (st_ownerEntries t) k = int (tally ce_owner (st_m t) k)"
    "lookup_or 0 (st_peerEntries t) k = int (tally ce_peer (st_m t) k)"
    "lookup_or 0 (st_ownerReserved t) k = int (tally cr_owner (st_reservations t) k)"
    "lookup_or 0 (st_peerReserved t) k = int (tally cr_peer (st_reservations t) k)" if "k \<noteq> []" for k
    using assms(1,2) that by (auto simp: entries_counted_def reservations_counted_def tallied_def)
  have room: "int (map_len (st_m t)) + int (map_len (st_reservations t)) < st_cap t" "int (map_len (st_reservations t)) < st_concurrentCap t"
    "cr_owner r \<noteq> [] \<Longrightarrow> int (tally ce_owner (st_m t) (cr_owner r)) + int (tally cr_owner (st_reservations t) (cr_owner r)) < st_perOwnerCap t
       \<and> int (tally cr_owner (st_reservations t) (cr_owner r)) < st_perOwnerConcurrent t"
    "cr_peer r \<noteq> [] \<Longrightarrow> int (tally ce_peer (st_m t) (cr_peer r)) + int (tally cr_peer (st_reservations t) (cr_peer r)) < st_perPeerCap t
       \<and> int (tally cr_peer (st_reservations t) (cr_peer r)) < st_perPeerConcurrent t"
    using assms(4) by (auto simp: over_capacity_def counts)
  have add: "tally f ((st_reservations t)(cr_id r \<mapsto> r)) k = tally f (st_reservations t) k + (if f r = k then 1 else 0)"
    "map_len ((st_reservations t)(cr_id r \<mapsto> r)) = Suc (map_len (st_reservations t))" for f and k :: string
    using tally_add[OF fin assms(5)] map_len_upd[OF fin] assms(5) by (simp_all add: domIff)
  show ?thesis
    by (rule within_capacityI)
      (use c room in \<open>auto simp: reserved_in_def add\<close>)
qed

text \<open>The rate side of a reservation: one more unstarted token, under a new identifier.\<close>

definition took :: "Prelude.time \<Rightarrow> string \<Rightarrow> string \<Rightarrow> u64 \<Rightarrow> issuanceRateState \<Rightarrow> issuanceRateState \<Rightarrow> bool" where
  "took n ow p i x u \<longleftrightarrow> same_rates x u \<and> is_nextID u = is_nextID x + 1 \<and> i = is_nextID x + 1
     \<and> (\<exists>f. keeps_started n (issued x) f \<and> f i = None \<and> issued u = f(i \<mapsto> (ow, p, n + is_window x, False)))"

lemma rate_reserve_limited:
  assumes "rate_limited x" "is_nextID x \<noteq> - 1" "rate_reserve n ow p (Some x) = (res, so)"
  obtains u where "so = Some u" "rate_limited u"
    "case res of None \<Rightarrow> same_limits x u \<and> keeps_started n (issued x) (issued u) | Some i \<Rightarrow> took n ow p i x u"
proof -
  note lim = rate_limitedD[OF assms(1)]
  note that' = that
  from lim(1) assms(2,3) show ?thesis
  proof (rule rate_reserve_Some, goal_cases)
    case (1 t)
    note t = 1(1) and none = 1(2) and some = 1(3)
    have keep: "keeps_started n (issued x) (issued t)" and okt: "rate_ok t" "same_limits x t"
      using cleaned_keeps_started[OF t] t by (auto simp: cleaned_by_def)
    have limt: "rate_limited t" by (rule rate_limited_submap[OF assms(1) okt keeps_started_submap[OF keep]])
    show ?thesis
    proof (cases res)
      case None
      then show ?thesis using that'[of t] none[OF None] limt okt keep by simp
    next
      case (Some i)
      from some[OF Some] obtain u where u: "so = Some u" "rate_ok u" "issued u = (issued t)(i \<mapsto> (ow, p, n + is_window x, False))"
        "issued t i = None" "i = is_nextID x + 1" "is_nextID u = i" "same_rates x u"
        and room: "int (map_len (issued t)) < is_globalLimit x" "int (tally fst (issued t) ow) < is_ownerLimit x"
          "int (tally (\<lambda>v. fst (snd v)) (issued t) p) < is_peerLimit x"
        by (auto simp: same_rates_def)
      note lt = rate_limitedD[OF limt]
      have add: "tally f (issued u) k = tally f (issued t) k + (if f (ow, p, n + is_window x, False) = k then 1 else 0)"
        "map_len (issued u) = Suc (map_len (issued t))" for f and k :: string
        using u(3,4) tally_add[OF lt(5) u(4)] map_len_upd[OF lt(5)] by (auto simp: domIff)
      have "rate_limited u"
        using u(2,7) okt(2) room lt(2,3) by (auto simp: rate_limited_def same_rates_def same_limits_def add)
      moreover have "took n ow p i x u" using u keep by (auto simp: took_def)
      ultimately show ?thesis using that'[of u] u(1) Some by simp
    qed
  qed
qed

definition rate_taken :: "Prelude.time \<Rightarrow> ChallengeReservation \<Rightarrow> ChallengeStore \<Rightarrow> issuanceRateState option \<Rightarrow> bool" where
  "rate_taken n r t rates = (case st_rates t of None \<Rightarrow> rates = None
     | Some x \<Rightarrow> \<exists>u. rates = Some u \<and> took n (rate_owner (cr_owner r)) (rate_peer (cr_owner r) (cr_peer r)) (cr_rateID r) x u)"

definition reserves :: "Prelude.time \<Rightarrow> ChallengeReservation \<Rightarrow> ChallengeStore \<Rightarrow> ChallengeStore \<Rightarrow> bool" where
  "reserves n r s s' \<longleftrightarrow> store_ok s' \<and> cr_id r = st_nextReservation s + 1
     \<and> (\<exists>t rates. shrinks n s t \<and> s' = reserved_in r rates t \<and> rate_taken n r t rates)"

lemma ids_left_shrinks: "shrinks n s t \<Longrightarrow> ids_left s = ids_left t"
  by (cases "st_rates s"; cases "st_rates t") (auto simp: shrinks_def same_caps_def ids_left_def same_limits_def)

lemma Reserve_effect:
  assumes "store_ok s" "ids_left s" "ReserveScoped n ord owner peer exp s = (res, s')"
  shows "case res of Inl e \<Rightarrow> shrinks n s s' | Inr r \<Rightarrow> reserves n r s s'"
proof -
  let ?t = "cleaned n ord s"
  have t: "shrinks n s ?t" by (rule cleaned_shrinks[OF assms(1)])
  note ok = shrinks_ok[OF t] and p = store_ok_parts[OF shrinks_ok[OF t]]
  have ids: "ids_left ?t" using ids_left_shrinks[OF t] assms(2) by simp
  note nr = next_reservation[OF p(2)]
  obtain g rates where rr: "rate_reserve n (rate_owner owner) (rate_peer owner peer) (st_rates ?t) = (g, rates)" by fastforce
  show ?thesis
  proof (cases "is_zero_time exp \<or> \<not> n < exp \<or> over_capacity owner peer ?t")
    case True
    then show ?thesis using assms t shrinks_refl[OF assms(1)] by (auto simp: ReserveScoped_def Let_def split: if_splits)
  next
    case False
    note res = assms(3)[unfolded ReserveScoped_def Let_def rr]
    have rates: "(g = None \<longrightarrow> shrinks n ?t (?t\<lparr>st_rates := rates\<rparr>)) \<and> rates_within (?t\<lparr>st_rates := rates\<rparr>)
      \<and> (\<forall>i. g = Some i \<longrightarrow> (case st_rates ?t of None \<Rightarrow> rates = None
            | Some x \<Rightarrow> \<exists>u. rates = Some u \<and> took n (rate_owner owner) (rate_peer owner peer) i x u))"
    proof (cases "st_rates ?t")
      case None
      then show ?thesis using rr by (auto simp: rate_reserve_def rates_within_def)
    next
      case (Some x)
      have "rate_limited x" "is_nextID x \<noteq> - 1" using p(4) ids Some by (simp_all add: rates_within_def ids_left_def)
      from this rr[unfolded Some] obtain u where u: "rates = Some u" "rate_limited u"
        "case g of None \<Rightarrow> same_limits x u \<and> keeps_started n (issued x) (issued u)
           | Some i \<Rightarrow> took n (rate_owner owner) (rate_peer owner peer) i x u"
        by (rule rate_reserve_limited)
      then show ?thesis using Some rates_shrink[OF ok Some] rate_limitedD(1) by (auto simp: rates_within_def)
    qed
    show ?thesis
    proof (cases g)
      case None
      then show ?thesis using res False rates shrinks_trans[OF t] by auto
    next
      case (Some i)
      let ?r = "\<lparr>cr_addr = st_allocated ?t, cr_id = st_nextReservation ?t + 1, cr_rateID = i, cr_owner = owner, cr_peer = peer,
        cr_expires = generationReservationExpiry n exp\<rparr>"
      have n1: "st_nextReservation ?t \<noteq> - 1" using ids by (simp add: ids_left_def)
      have r: "res = Inr ?r" "s' = reserved_in ?r rates ?t"
        using res False Some nr(1)[OF n1] by (auto simp: reserved_in_def)
      have "entries_counted s'" using p(1) by (simp add: r entries_counted_def reserved_in_def)
      moreover have "reservations_counted s'" unfolding r(2) by (rule reserved_counted[OF p(2) n1]) simp
      moreover have "within_capacity s'"
        unfolding r(2) by (rule reserved_capacity[OF p(1-3)]) (use False nr(2)[OF n1] in simp_all)
      moreover have "rates_within s'" using rates by (simp add: r reserved_in_def rates_within_def)
      moreover have "st_nextReservation ?t = st_nextReservation s" using t by (simp add: shrinks_def same_caps_def)
      moreover have "rate_taken n ?r ?t rates" using rates Some by (simp add: rate_taken_def split: option.splits)
      ultimately have "reserves n ?r s s'" unfolding reserves_def store_ok_def using t r(2) by auto
      then show ?thesis by (simp add: r(1))
    qed
  qed
qed

subsection \<open>Starting and committing\<close>

definition starts :: "Prelude.time \<Rightarrow> ChallengeReservation \<Rightarrow> ChallengeStore \<Rightarrow> ChallengeStore \<Rightarrow> bool" where
  "starts n r s s' \<longleftrightarrow> store_ok s' \<and> st_reservations s (cr_id r) = Some r \<and> (\<exists>rates. s' = s\<lparr>st_rates := rates\<rparr>
     \<and> (case st_rates s of None \<Rightarrow> rates = None
        | Some x \<Rightarrow> \<exists>u ow p e. rates = Some u \<and> same_limits x u \<and> issued x (cr_rateID r) = Some (ow, p, e, False)
            \<and> issued u = (issued x)(cr_rateID r \<mapsto> (ow, p, e, True))))"

lemma store_ok_rates:
  "store_ok s \<Longrightarrow> rates_within (s\<lparr>st_rates := rates\<rparr>) \<Longrightarrow> store_ok (s\<lparr>st_rates := rates\<rparr>)"
  by (simp add: store_ok_def entries_counted_def reservations_counted_def within_capacity_def)

lemma Start_effect:
  assumes "store_ok s" "Start n (Some r) s = (res, s')"
  shows "case res of None \<Rightarrow> starts n r s s' | Some e \<Rightarrow> s' = s"
proof (cases "st_reservations s (cr_id r) \<noteq> Some r \<or> \<not> n < cr_expires r")
  case True
  then show ?thesis using assms by (auto simp: Start_def)
next
  case False
  obtain g rates where st: "rate_start (cr_rateID r) (st_rates s) = (g, rates)" by fastforce
  have s': "s' = s\<lparr>st_rates := rates\<rparr>" "res = None \<longleftrightarrow> g" using assms(2) False st by (auto simp: Start_def split: if_splits)
  show ?thesis
  proof (cases "st_rates s")
    case None
    then have "rates = None" "g" using st by (auto simp: rate_start_def)
    moreover from this have "store_ok s'" using s'(1) store_ok_rates[OF assms(1)] by (simp add: rates_within_def)
    ultimately have "starts n r s s'"
      unfolding starts_def using s'(1) False None by (intro conjI exI[of _ rates]) simp_all
    then show ?thesis using s'(2) \<open>g\<close> by simp
  next
    case (Some x)
    have lim: "rate_limited x" using store_ok_parts(4)[OF assms(1)] Some by (simp add: rates_within_def)
    from rate_start_Some[OF rate_limitedD(1)[OF lim] st[unfolded Some]] obtain u where
      u: "rates = Some u" "rate_ok u" "same_limits x u" and eff: "if g then \<exists>ow p e. issued x (cr_rateID r) = Some (ow, p, e, False)
        \<and> issued u = (issued x)(cr_rateID r \<mapsto> (ow, p, e, True)) else u = x" by auto
    show ?thesis
    proof (cases g)
      case True
      then obtain ow p e where v: "issued x (cr_rateID r) = Some (ow, p, e, False)"
        "issued u = (issued x)(cr_rateID r \<mapsto> (ow, p, e, True))" using eff by auto
      have "tally f (issued u) k = tally f (issued x) k" if "f (ow, p, e, True) = f (ow, p, e, False)" for f and k :: string
        unfolding v(2) using tally_upd_same[of "issued x" "cr_rateID r" _ f "(ow, p, e, True)" k] v(1) that by simp
      moreover have "map_len (issued u) = map_len (issued x)" using v by (simp add: map_len_def insert_absorb domI)
      ultimately have "rate_limited u" using lim u(2,3) by (simp add: rate_limited_def same_limits_def)
      then have "store_ok s'" using store_ok_rates[OF assms(1)] by (simp add: s' u(1) rates_within_def)
      then show ?thesis using s' u v False Some True by (auto simp: starts_def)
    next
      case False
      then have "s\<lparr>st_rates := rates\<rparr> = s" using eff u(1) Some by simp
      then show ?thesis using s' False by (auto split: option.split)
    qed
  qed
qed

definition commits :: "Prelude.time \<Rightarrow> string \<Rightarrow> ChallengeReservation \<Rightarrow> ChallengeStore \<Rightarrow> ChallengeStore \<Rightarrow> bool" where
  "commits n j r s s' \<longleftrightarrow> store_ok s' \<and> same_caps s s' \<and> st_rates s' = st_rates s \<and> st_m s j = None
     \<and> st_reservations s (cr_id r) = Some r \<and> rate_started (cr_rateID r) (st_rates s)
     \<and> st_reservations s' = (st_reservations s)(cr_id r := None) \<and> (\<exists>e. st_m s' = (st_m s)(j \<mapsto> e))"

lemma Commit_effect:
  assumes "store_ok s" "Commit n (Some r) j exp s = (res, s')"
  shows "case res of None \<Rightarrow> commits n j r s s' | Some e \<Rightarrow> shrinks n s s'"
proof (cases "res = None")
  case False
  have "shrinks n s (snd (rollbackReservationLocked r s))"
    using rollback_shrinks[OF assms(1)] by (metis prod.collapse)
  then show ?thesis using assms False shrinks_refl[OF assms(1)] by (auto simp: Commit_def Let_def split: if_splits)
next
  case True
  let ?e = "\<lparr>ce_status = ChallengePending, ce_expires = exp, ce_purge = exp, ce_owner = cr_owner r, ce_peer = cr_peer r\<rparr>"
  let ?t = "removeReservationLocked r s"
  have ok: "st_reservations s (cr_id r) = Some r" "st_m s j = None" "rate_started (cr_rateID r) (st_rates s)"
    and s': "s' = ?t\<lparr>st_m := (st_m ?t)(j \<mapsto> ?e), st_ownerEntries := bump (st_ownerEntries ?t) (cr_owner r),
      st_peerEntries := bump (st_peerEntries ?t) (cr_peer r)\<rparr>"
    using assms(2) True by (auto simp: Commit_def Let_def split: if_splits)
  have t: "shrinks n s ?t" by (rule removeReservation_shrinks[OF assms(1) ok(1)])
  note p = store_ok_parts[OF shrinks_ok[OF t]] and c = within_capacityD[OF store_ok_parts(3)[OF assms(1)]]
  have same: "st_m ?t = st_m s" "st_rates ?t = st_rates s" "st_reservations ?t = (st_reservations s)(cr_id r := None)" "same_caps s ?t"
    by (simp_all add: removeReservationLocked_def same_caps_def)
  have fin: "finite (dom (st_m s))" "finite (dom (st_reservations s))"
    using store_ok_parts(1,2)[OF assms(1)] by (simp_all add: entries_counted_def reservations_counted_def)
  have "entries_counted s'"
    using p(1) tallied_bump[OF _ fin(1) ok(2), of "st_ownerEntries ?t" ce_owner ?e] tallied_bump[OF _ fin(1) ok(2), of "st_peerEntries ?t" ce_peer ?e]
    by (simp add: s' entries_counted_def same)
  moreover have "reservations_counted s'" using p(2) by (simp add: s' reservations_counted_def)
  moreover have "within_capacity s'"
  proof -
    note add = tally_add[OF fin(1) ok(2), of _ ?e] map_len_upd[OF fin(1), of j ?e]
    note del = tally_del[OF fin(2) ok(1)] map_len_del[OF fin(2), of "cr_id r"]
    have pos: "0 < map_len (st_reservations s)" using ok(1) fin(2) by (auto simp: map_len_def card_gt_0_iff)
    have caps: "st_cap s' = st_cap s" "st_perOwnerCap s' = st_perOwnerCap s" "st_perPeerCap s' = st_perPeerCap s"
      "st_concurrentCap s' = st_concurrentCap s" "st_perOwnerConcurrent s' = st_perOwnerConcurrent s"
      "st_perPeerConcurrent s' = st_perPeerConcurrent s"
      by (simp_all add: s' removeReservationLocked_def)
    have m: "st_m s' = (st_m s)(j \<mapsto> ?e)" "st_reservations s' = (st_reservations s)(cr_id r := None)" by (simp_all add: s' same)
    show ?thesis
    proof (rule within_capacityI, goal_cases)
      case 1 show ?case using c(1) add(2) del(2) pos ok by (simp add: m caps domIff)
    next
      case 2 show ?case using c(2) del(2) ok by (simp add: m caps domIff)
    next
      case (3 k) then show ?case using c(3)[of k] add(1)[of ce_owner k] del(1)[of cr_owner k] by (simp add: m caps split: if_splits)
    next
      case (4 k) then show ?case using c(4)[of k] add(1)[of ce_peer k] del(1)[of cr_peer k] by (simp add: m caps split: if_splits)
    next
      case (5 k) then show ?case using c(5)[of k] del(1)[of cr_owner k] by (simp add: m caps split: if_splits)
    next
      case (6 k) then show ?case using c(6)[of k] del(1)[of cr_peer k] by (simp add: m caps split: if_splits)
    qed
  qed
  moreover have "rates_within s'" using p(4) by (simp add: s' rates_within_def)
  ultimately have "store_ok s'" by (simp add: store_ok_def)
  moreover have "same_caps s s'" using same(4) by (simp add: s' same_caps_def)
  ultimately have "commits n j r s s'" using ok unfolding commits_def by (auto simp: s' same)
  then show ?thesis using True by simp
qed

end
