(* ===== verification/Runs.thy ===== *)
theory Runs
  imports Prelude
begin

text \<open>
  Sequences of calls on a component's state: a step function answers a call with an event and the
  next state, and a run collects the events. The locale \<open>one_time_store\<close> is the contract of a
  store whose items are minted, pending and spent.
\<close>

fun run_calls :: "('c \<Rightarrow> 's \<Rightarrow> 'e \<times> 's) \<Rightarrow> 'c list \<Rightarrow> 's \<Rightarrow> 'e list \<times> 's" where
  "run_calls step [] s = ([], s)"
| "run_calls step (c # cs) s =
     (case step c s of (e, s') \<Rightarrow> (case run_calls step cs s' of (es, t) \<Rightarrow> (e # es, t)))"

lemma run_calls_ConsE:
  assumes "run_calls step (c # cs) s = (es, t)"
  obtains e s' es' where "step c s = (e, s')" "run_calls step cs s' = (es', t)" "es = e # es'"
  using assms by (auto split: prod.splits)

text \<open>
  An invariant of the events so far and the state that every step keeps, and what a step shows of
  its event, holds at every event of a run.
\<close>

lemma run_calls_events:
  assumes step: "\<And>evs s c e s'. I evs s \<Longrightarrow> c \<in> set cs \<Longrightarrow> step c s = (e, s') \<Longrightarrow> I (evs @ [e]) s' \<and> Q evs e"
    and "I evs0 s" "run_calls step cs s = (es, t)"
  shows "I (evs0 @ es) t \<and> (\<forall>before e after. es = before @ e # after \<longrightarrow> Q (evs0 @ before) e)"
  using assms
proof (induction cs arbitrary: evs0 s es)
  case (Cons c cs)
  from Cons.prems(3) obtain e s' es' where c: "step c s = (e, s')" "run_calls step cs s' = (es', t)" "es = e # es'"
    by (rule run_calls_ConsE)
  have one: "I (evs0 @ [e]) s' \<and> Q evs0 e" using Cons.prems(1)[OF Cons.prems(2) _ c(1)] by simp
  have "I ((evs0 @ [e]) @ es') t \<and> (\<forall>before f after. es' = before @ f # after \<longrightarrow> Q ((evs0 @ [e]) @ before) f)"
  proof (rule Cons.IH)
    show "I (evs @ [f]) u' \<and> Q evs f" if "I evs u" "d \<in> set cs" "step d u = (f, u')" for evs u d f u'
      using Cons.prems(1)[OF that(1) _ that(3)] that(2) by simp
  qed (use one c(2) in auto)
  then show ?case using one c(3) by (auto simp: Cons_eq_append_conv)
qed simp

locale one_time_store =
  fixes good :: "nat \<Rightarrow> 's \<Rightarrow> bool"
    and pending :: "'s \<Rightarrow> 'j \<Rightarrow> bool"
    and step :: "'c \<Rightarrow> 's \<Rightarrow> 'e \<times> 's"
    and minted spent :: "'e \<Rightarrow> 'j \<Rightarrow> bool"
  assumes good_step: "good (Suc k) s \<Longrightarrow> step c s = (e, s') \<Longrightarrow> good k s'"
    and spending: "good (Suc k) s \<Longrightarrow> step c s = (e, s') \<Longrightarrow> spent e j \<Longrightarrow> pending s j \<and> \<not> pending s' j"
    and appearing: "good (Suc k) s \<Longrightarrow> step c s = (e, s') \<Longrightarrow> \<not> pending s j \<Longrightarrow> pending s' j \<Longrightarrow> minted e j"
begin

lemma good_run: "good (length cs) s \<Longrightarrow> run_calls step cs s = (es, t) \<Longrightarrow> good 0 t"
proof (induction cs arbitrary: s es)
  case (Cons c cs)
  obtain e s' where c: "step c s = (e, s')" by fastforce
  then obtain es' where "run_calls step cs s' = (es', t)" using Cons.prems(2) by (auto split: prod.splits)
  then show ?case using Cons.IH[of s' es'] good_step[of "length cs", OF _ c] Cons.prems(1) by simp
qed simp

lemma run_keeps:
  assumes keep: "\<And>k s c e s'. good (Suc k) s \<Longrightarrow> step c s = (e, s') \<Longrightarrow> f s' = f s"
    and "good (length cs) s" "run_calls step cs s = (es, t)"
  shows "f t = f s"
  using assms(2,3)
proof (induction cs arbitrary: s es)
  case (Cons c cs)
  from Cons.prems(2) obtain e s' es' where c: "step c s = (e, s')" "run_calls step cs s' = (es', t)"
    by (rule run_calls_ConsE)
  have g: "good (Suc (length cs)) s" using Cons.prems(1) by simp
  show ?case using Cons.IH[OF good_step[OF g c(1)] c(2)] keep[OF g c(1)] by simp
qed simp

text \<open>Every spending was preceded by a minting of its own.\<close>

lemma spent_le_minted:
  "good (length cs) s \<Longrightarrow> run_calls step cs s = (es, t) \<Longrightarrow>
   length (filter (\<lambda>e. spent e j) es) + of_bool (pending t j) \<le> length (filter (\<lambda>e. minted e j) es) + of_bool (pending s j)"
proof (induction cs arbitrary: s es)
  case (Cons c cs)
  obtain e s' where c: "step c s = (e, s')" by fastforce
  then obtain es' where r: "run_calls step cs s' = (es', t)" "es = e # es'" using Cons.prems(2) by (auto split: prod.splits)
  have g: "good (Suc (length cs)) s" using Cons.prems(1) by simp
  from Cons.IH[OF good_step[OF g c] r(1)] show ?case
    using spending[OF g c, of j] appearing[OF g c, of j] r(2)
    by (cases "pending s' j"; cases "pending s j"; cases "pending t j"; cases "spent e j"; cases "minted e j") auto
qed simp

end

end
