(* ===== verification/Challenge_Claims.thy ===== *)
theory Challenge_Claims
  imports Challenge_Properties Runs
begin

text \<open>
  What runs of the challenge store guarantee: the capacities hold, identifiers are consumed once
  (the interpretation of \<open>one_time_store\<close> on the calls), and the issuance rates hold (the log of
  a run relates its events to the rate tokens).
\<close>

section \<open>Calls on the challenge store\<close>

text \<open>A call with its clock reading and its map order; the event carries the reading.\<close>

definition store_step :: "Prelude.time \<times> map_order \<times> challenge_call \<Rightarrow> ChallengeStore \<Rightarrow> (Prelude.time \<times> challenge_event) \<times> ChallengeStore" where
  "store_step c s = (case c of (n, ord, call) \<Rightarrow> (case perform n ord call s of (ev, s') \<Rightarrow> ((n, ev), s')))"

definition entry_pending :: "ChallengeStore \<Rightarrow> string \<Rightarrow> bool" where
  "entry_pending s j \<longleftrightarrow> st_m s j \<noteq> None"

fun commits_jti :: "Prelude.time \<times> challenge_event \<Rightarrow> string \<Rightarrow> bool" where
  "commits_jti (n, Committed i r) j = (i = j)"
| "commits_jti (n, _) j = False"

fun consumes_jti :: "Prelude.time \<times> challenge_event \<Rightarrow> string \<Rightarrow> bool" where
  "consumes_jti (n, Consumed i) j = (i = j)"
| "consumes_jti (n, _) j = False"

lemma perform_effect:
  assumes "store_ok s" "ids_left s" "perform n ord c s = (ev, s')"
  shows "case ev of Reserved r \<Rightarrow> reserves n r s s' | Started r \<Rightarrow> starts n r s s' | Committed j r \<Rightarrow> commits n j r s s'
    | Consumed j \<Rightarrow> shrinks n s s' \<and> st_m s j \<noteq> None \<and> st_m s' j = None | Quiet \<Rightarrow> shrinks n s s'"
proof (cases c)
  case (CallReserve owner peer exp)
  then show ?thesis using assms(3) Reserve_effect[OF assms(1,2), of n ord owner peer exp]
    by (auto split: prod.splits sum.splits)
next
  case (CallStart ro)
  show ?thesis
  proof (cases ro)
    case None
    then show ?thesis using CallStart assms(3) shrinks_refl[OF assms(1)] by (auto simp: Start_def)
  next
    case (Some r)
    obtain res u where "Start n (Some r) s = (res, u)" by fastforce
    then show ?thesis using Start_effect[OF assms(1), of n r res u] CallStart Some assms(3) shrinks_refl[OF assms(1)]
      by (cases res) auto
  qed
next
  case (CallCommit ro j exp)
  show ?thesis
  proof (cases ro)
    case None
    then show ?thesis using CallCommit assms(3) shrinks_refl[OF assms(1)] by (auto simp: Commit_def)
  next
    case (Some r)
    obtain res u where "Commit n (Some r) j exp s = (res, u)" by fastforce
    then show ?thesis using Commit_effect[OF assms(1), of n r j exp res u] CallCommit Some assms(3) by (cases res) auto
  qed
next
  case (CallConsume j)
  then show ?thesis using assms(3) consume_effect[OF assms(1), of n ord j "[]" "[]" False]
    by (auto simp: Consume_def split: prod.splits if_splits)
next
  case (CallConsumeScoped j ow p)
  then show ?thesis using assms(3) consume_effect[OF assms(1), of n ord j ow p True]
    by (auto simp: ConsumeScoped_def split: prod.splits if_splits)
qed (use assms(3) quiet_shrinks(1,3)[OF assms(1), of n] quiet_shrinks(2,4,5)[OF assms(1), of n ord] in auto)

text \<open>Good for \<open>k\<close> more calls: the invariant holds and the 64-bit counters cannot wrap.\<close>

definition store_good :: "nat \<Rightarrow> ChallengeStore \<Rightarrow> bool" where
  "store_good k s \<longleftrightarrow> store_ok s \<and> unat (st_nextReservation s) + k < 2 ^ 64
     \<and> (case st_rates s of None \<Rightarrow> True | Some x \<Rightarrow> unat (is_nextID x) + k < 2 ^ 64)"

lemma counter_left:
  assumes "unat (w :: u64) + Suc k < 2 ^ 64"
  shows "w \<noteq> - 1" "unat (w + 1) = Suc (unat w)"
proof -
  have "unat (- 1 :: u64) = 2 ^ 64 - 1" by (simp add: unsigned_minus_1_eq_mask mask_eq_exp_minus_1)
  then show "w \<noteq> - 1" using assms by auto
  then show "unat (w + 1) = Suc (unat w)" by (rule unat_plus_one)
qed

lemma store_good_ids: "store_good (Suc k) s \<Longrightarrow> ids_left s"
  using counter_left(1) by (auto simp: store_good_def ids_left_def split: option.splits)

lemma store_good_mono: "store_good (Suc k) s \<Longrightarrow> store_good k s"
  by (auto simp: store_good_def split: option.splits)

lemma store_good_same:
  assumes "store_good (Suc k) s" "store_ok s'" "same_caps s s'"
  shows "store_good k s'"
  using assms by (cases "st_rates s"; cases "st_rates s'") (auto simp: store_good_def same_caps_def same_limits_def)

lemma store_good_step:
  assumes "store_good (Suc k) s" "perform n ord c s = (ev, s')"
  shows "store_good k s'"
proof -
  have ok: "store_ok s" using assms(1) by (simp add: store_good_def)
  note eff = perform_effect[OF ok store_good_ids[OF assms(1)] assms(2)]
  consider (res) r where "reserves n r s s'" | (other) "store_ok s'" "same_caps s s'"
  proof (cases ev)
    case (Started r)
    then have st: "starts n r s s'" using eff by simp
    then have "same_caps s s'"
      by (cases "st_rates s") (auto simp: starts_def same_caps_def)
    then show ?thesis using that(2) st by (simp add: starts_def)
  qed (use eff that in \<open>auto simp: commits_def shrinks_def\<close>)
  then show ?thesis
  proof cases
    case res
    then obtain t rates where t: "shrinks n s t" "s' = reserved_in r rates t" "rate_taken n r t rates"
      and r: "cr_id r = st_nextReservation s + 1" and ok': "store_ok s'" by (auto simp: reserves_def)
    have g: "unat (st_nextReservation s) + Suc k < 2 ^ 64" using assms(1) by (simp add: store_good_def)
    have "unat (st_nextReservation s') + k < 2 ^ 64" using counter_left(2)[OF g] r t(2) g by (simp add: reserved_in_def)
    moreover have "unat (is_nextID u) + k < 2 ^ 64" if u: "st_rates s' = Some u" for u
    proof -
      obtain x where x: "st_rates t = Some x" "is_nextID u = is_nextID x + 1"
        using t(2,3) u by (auto simp: reserved_in_def rate_taken_def took_def split: option.splits)
      then obtain y where "st_rates s = Some y" "is_nextID x = is_nextID y"
        using t(1) by (cases "st_rates s") (auto simp: shrinks_def same_caps_def same_limits_def)
      then have "unat (is_nextID x) + Suc k < 2 ^ 64" using assms(1) by (simp add: store_good_def)
      then show ?thesis using counter_left(2) x(2) by force
    qed
    ultimately show ?thesis using ok' by (auto simp: store_good_def split: option.split)
  next
    case other
    then show ?thesis by (rule store_good_same[OF assms(1)])
  qed
qed

text \<open>No call changes the limits.\<close>

definition limits_of :: "ChallengeStore \<Rightarrow> int list" where
  "limits_of s = [st_cap s, st_perOwnerCap s, st_perPeerCap s, st_concurrentCap s, st_perOwnerConcurrent s, st_perPeerConcurrent s]"

lemma same_caps_limits: "same_caps s t \<Longrightarrow> limits_of t = limits_of s"
  by (simp add: same_caps_def limits_of_def)

lemma perform_limits:
  assumes "store_good (Suc k) s" "perform n ord c s = (ev, s')"
  shows "limits_of s' = limits_of s"
proof -
  have ok: "store_ok s" using assms(1) by (simp add: store_good_def)
  note eff = perform_effect[OF ok store_good_ids[OF assms(1)] assms(2)]
  show ?thesis
  proof (cases ev)
    case (Reserved r)
    then obtain t rates where t: "shrinks n s t" "s' = reserved_in r rates t" using eff by (auto simp: reserves_def)
    have "limits_of s' = limits_of t" by (simp add: t(2) reserved_in_def limits_of_def)
    then show ?thesis using t(1) same_caps_limits[of s t] by (simp add: shrinks_def)
  next
    case (Started r)
    then show ?thesis using eff by (auto simp: starts_def limits_of_def)
  qed (use eff same_caps_limits in \<open>auto simp: commits_def shrinks_def\<close>)
qed

interpretation challenges: one_time_store store_good entry_pending store_step commits_jti consumes_jti
proof unfold_locales
  fix k s c e s' assume g: "store_good (Suc k) s" and c: "store_step c s = (e, s')"
  obtain n ord call where call: "c = (n, ord, call)" by (cases c)
  obtain ev where ev: "perform n ord call s = (ev, s')" "e = (n, ev)"
    using c by (auto simp: store_step_def call split: prod.splits)
  show "store_good k s'" by (rule store_good_step[OF g ev(1)])
  have ok: "store_ok s" using g by (simp add: store_good_def)
  note eff = perform_effect[OF ok store_good_ids[OF g] ev(1)]
  show "entry_pending s j \<and> \<not> entry_pending s' j" if "consumes_jti e j" for j
    using that eff ev(2) by (cases ev) (auto simp: entry_pending_def)
  show "commits_jti e j" if "\<not> entry_pending s j" "entry_pending s' j" for j
  proof (cases ev)
    case (Reserved r)
    then obtain t rates where "submap (st_m t) (st_m s)" "s' = reserved_in r rates t"
      using eff by (auto simp: reserves_def shrinks_def)
    then show ?thesis using that submap_Some[of "st_m t" "st_m s" j] by (auto simp: entry_pending_def reserved_in_def)
  next
    case (Started r)
    then show ?thesis using that eff by (auto simp: entry_pending_def starts_def)
  next
    case (Committed i r)
    then show ?thesis using that eff ev(2) by (auto simp: entry_pending_def commits_def split: if_splits)
  qed (use that eff submap_Some[of "st_m s'" "st_m s" j] in \<open>auto simp: entry_pending_def shrinks_def\<close>)
qed

section \<open>Capacity\<close>

lemma default_int_pos: "1 \<le> d \<Longrightarrow> 1 \<le> default_int d v"
  by (simp add: default_int_def)

lemma min_pos: "1 \<le> a \<Longrightarrow> 1 \<le> b \<Longrightarrow> 1 \<le> min a (b :: int)"
  by (rule min.boundedI)

lemma four_pos: "1 \<le> a \<Longrightarrow> 1 \<le> a * (4 :: int)"
  by simp

lemmas limit_pos = default_int_pos min_pos four_pos

text \<open>Every limit is positive once the defaults are in.\<close>

lemma applyDefaults_fields:
  fixes c
  defines "d \<equiv> applyDefaults c" and "rated \<equiv> cf_RateWindow c > 0"
  shows "cf_Capacity d = default_int 10000 (cf_Capacity c)" "cf_RateWindow d = cf_RateWindow c"
    "cf_PerOwnerCapacity d = min (default_int 8 (cf_PerOwnerCapacity c)) (cf_Capacity d)"
    "cf_PerPeerCapacity d = min (default_int (min (cf_Capacity d) (cf_PerOwnerCapacity d * 4)) (cf_PerPeerCapacity c)) (cf_Capacity d)"
    "cf_ConcurrentCapacity d = min (default_int (if rated then min (cf_Capacity d) 256 else cf_Capacity d) (cf_ConcurrentCapacity c)) (cf_Capacity d)"
    "cf_PerOwnerConcurrent d = min (default_int (if rated then min (cf_PerOwnerCapacity d) 2 else cf_PerOwnerCapacity d) (cf_PerOwnerConcurrent c)) (cf_PerOwnerCapacity d)"
    "cf_PerPeerConcurrent d = min (default_int (if rated then min (cf_PerPeerCapacity d) 16 else cf_PerPeerCapacity d) (cf_PerPeerConcurrent c)) (cf_PerPeerCapacity d)"
    "rated \<Longrightarrow> cf_GlobalRate d = default_int (cf_Capacity d * 4) (cf_GlobalRate c)"
    "rated \<Longrightarrow> cf_PerOwnerRate d = default_int (cf_PerOwnerCapacity d * 4) (cf_PerOwnerRate c)"
    "rated \<Longrightarrow> cf_PerPeerRate d = default_int (cf_PerPeerCapacity d * 4) (cf_PerPeerRate c)"
  unfolding d_def rated_def by (cases c; simp only: applyDefaults_def Let_def ChallengeStoreConfig.simps if_True)+

lemma applyDefaults_pos:
  shows "1 \<le> cf_Capacity (applyDefaults c)" "1 \<le> cf_PerOwnerCapacity (applyDefaults c)" "1 \<le> cf_PerPeerCapacity (applyDefaults c)"
    "1 \<le> cf_ConcurrentCapacity (applyDefaults c)" "1 \<le> cf_PerOwnerConcurrent (applyDefaults c)"
    "1 \<le> cf_PerPeerConcurrent (applyDefaults c)"
    "0 < cf_RateWindow c \<Longrightarrow> 1 \<le> cf_GlobalRate (applyDefaults c)" "0 < cf_RateWindow c \<Longrightarrow> 1 \<le> cf_PerOwnerRate (applyDefaults c)"
    "0 < cf_RateWindow c \<Longrightarrow> 1 \<le> cf_PerPeerRate (applyDefaults c)"
proof -
  note f = applyDefaults_fields[of c]
  show cap: "1 \<le> cf_Capacity (applyDefaults c)" unfolding f(1) by (rule default_int_pos) simp
  show own: "1 \<le> cf_PerOwnerCapacity (applyDefaults c)" unfolding f(3) by (intro limit_pos cap) simp
  show peer: "1 \<le> cf_PerPeerCapacity (applyDefaults c)" unfolding f(4) by (intro limit_pos cap own)
  show "1 \<le> cf_ConcurrentCapacity (applyDefaults c)" unfolding f(5) using cap by (intro limit_pos) (auto intro: limit_pos)
  show "1 \<le> cf_PerOwnerConcurrent (applyDefaults c)" unfolding f(6) using own by (intro limit_pos) (auto intro: limit_pos)
  show "1 \<le> cf_PerPeerConcurrent (applyDefaults c)" unfolding f(7) using peer by (intro limit_pos) (auto intro: limit_pos)
  assume "0 < cf_RateWindow c"
  then show "1 \<le> cf_GlobalRate (applyDefaults c)" "1 \<le> cf_PerOwnerRate (applyDefaults c)" "1 \<le> cf_PerPeerRate (applyDefaults c)"
    using cap own peer f(8-10) limit_pos(1,3) by metis+
qed

lemma new_store_good:
  assumes "k < 2 ^ 64"
  shows "store_good k (NewChallengeStore c)"
proof -
  let ?s = "NewChallengeStore c"
  have caps: "0 \<le> st_cap ?s" "0 \<le> st_perOwnerCap ?s" "0 \<le> st_perPeerCap ?s" "0 \<le> st_concurrentCap ?s"
    "0 \<le> st_perOwnerConcurrent ?s" "0 \<le> st_perPeerConcurrent ?s"
    using applyDefaults_pos[of c] by (simp_all add: NewChallengeStore_def Let_def)
  have rates: "rate_limited x \<and> is_nextID x = 0" if "st_rates ?s = Some x" for x
    using that rates_ok_new[of "cf_RateWindow (applyDefaults c)" "cf_GlobalRate (applyDefaults c)" "cf_PerOwnerRate (applyDefaults c)" "cf_PerPeerRate (applyDefaults c)"]
    by (auto simp: NewChallengeStore_def Let_def newIssuanceRateState_def rate_limited_def issued_def[abs_def] tally_def map_len_def split: if_splits)
  have "within_capacity ?s" using caps by (intro within_capacityI) (simp_all add: NewChallengeStore_def Let_def)
  then have "store_ok ?s"
    using rates by (auto simp: store_ok_def rates_within_def entries_counted_def reservations_counted_def split: option.split)
      (simp_all add: NewChallengeStore_def Let_def)
  moreover have "st_nextReservation ?s = 0" by (simp add: NewChallengeStore_def Let_def)
  ultimately show ?thesis using assms rates by (auto simp: store_good_def split: option.split)
qed

subsection \<open>A run\<close>

text \<open>A challenge is reserved, started, committed, consumed, and refused the second time.\<close>

definition challenge_demo :: ChallengeStoreConfig where
  "challenge_demo = \<lparr>cf_Capacity = 2, cf_PerOwnerCapacity = 1, cf_PerPeerCapacity = 2, cf_ConcurrentCapacity = 2,
     cf_PerOwnerConcurrent = 1, cf_PerPeerConcurrent = 2, cf_UsedRetention = 0, cf_RateWindow = 60, cf_GlobalRate = 4,
     cf_PerOwnerRate = 1, cf_PerPeerRate = 2\<rparr>"

definition challenge_demo_reservation :: ChallengeReservation where
  "challenge_demo_reservation = \<lparr>cr_addr = 0, cr_id = 1, cr_rateID = 1, cr_owner = ''o'', cr_peer = ''p'', cr_expires = 15\<rparr>"

definition challenge_demo_calls :: "(Prelude.time \<times> map_order \<times> challenge_call) list" where
  "challenge_demo_calls = [(10, ([], []), CallReserve ''o'' ''p'' 15), (11, ([], []), CallStart (Some challenge_demo_reservation)),
     (12, ([], []), CallCommit (Some challenge_demo_reservation) ''j'' 15), (13, ([''j''], []), CallConsume ''j''),
     (14, ([], []), CallConsume ''j'')]"

definition challenge_demo_events :: "(Prelude.time \<times> challenge_event) list" where
  "challenge_demo_events = [(10, Reserved challenge_demo_reservation), (11, Started challenge_demo_reservation),
     (12, Committed ''j'' challenge_demo_reservation), (13, Consumed ''j''), (14, Quiet)]"

lemmas challenge_demo_simps = challenge_demo_calls_def challenge_demo_reservation_def challenge_demo_def store_step_def NewChallengeStore_def applyDefaults_def default_int_def
  newIssuanceRateState_def ReserveScoped_def store_clean_def rate_clean_def issuanceRateCleanupBudget_def over_capacity_def
  rate_owner_def rate_peer_def rate_reserve_def next_id_def generationReservationExpiry_def generationReservationTTL_def go_units
  heap_Push_def rate_Push_def rate_Len_def set_index_def expiry_of_def bump_def incrementIssueCount_def decrementIssueCount_def drop_count_def
  Start_def rate_start_def Commit_def rate_started_def removeReservationLocked_def Consume_def consume_def deleteEntryLocked_def
  heap_up.simps parent_def map_len_def rate_clean_loop.simps Let_def

lemma challenge_demo_run:
  obtains s where "run_calls store_step challenge_demo_calls (NewChallengeStore challenge_demo) = (challenge_demo_events, s)"
proof -
  have "fst (run_calls store_step challenge_demo_calls (NewChallengeStore challenge_demo)) = challenge_demo_events"
    by (simp add: challenge_demo_simps challenge_demo_events_def numeral_eq_Suc)
  then show ?thesis using that by (metis prod.collapse)
qed

lemma challenge_demo_small: "length challenge_demo_calls < 2 ^ 64"
  by (simp add: challenge_demo_calls_def)

text \<open>
  C33: However the calls to a challenge store are interleaved, and in whatever order its cleaning
  visits the maps, the store never holds more entries and reservations than its capacity, no
  owner and no peer has more of them than its configured share, and no more challenges are being
  generated at once than the configured concurrency allows, as long as fewer than 2 ^ 64 calls are made.
\<close>

theorem challenge_capacity:
  assumes "length calls < 2 ^ 64" "run_calls store_step calls (NewChallengeStore c) = (evs, s)"
  shows "int (card (dom (st_m s)) + card (dom (st_reservations s))) \<le> cf_Capacity (applyDefaults c)
    \<and> int (card (dom (st_reservations s))) \<le> cf_ConcurrentCapacity (applyDefaults c)
    \<and> (\<forall>k. k \<noteq> [] \<longrightarrow>
         int (card {j \<in> dom (st_m s). ce_owner (the (st_m s j)) = k}
            + card {i \<in> dom (st_reservations s). cr_owner (the (st_reservations s i)) = k}) \<le> cf_PerOwnerCapacity (applyDefaults c)
       \<and> int (card {j \<in> dom (st_m s). ce_peer (the (st_m s j)) = k}
            + card {i \<in> dom (st_reservations s). cr_peer (the (st_reservations s i)) = k}) \<le> cf_PerPeerCapacity (applyDefaults c)
       \<and> int (card {i \<in> dom (st_reservations s). cr_owner (the (st_reservations s i)) = k}) \<le> cf_PerOwnerConcurrent (applyDefaults c)
       \<and> int (card {i \<in> dom (st_reservations s). cr_peer (the (st_reservations s i)) = k}) \<le> cf_PerPeerConcurrent (applyDefaults c))"
proof -
  have "store_good 0 s" using challenges.good_run[OF new_store_good[OF assms(1)] assms(2)] .
  then have "within_capacity s" by (simp add: store_good_def store_ok_def)
  moreover have "limits_of s = limits_of (NewChallengeStore c)"
  proof (rule challenges.run_keeps[OF _ new_store_good[OF assms(1)] assms(2)])
    show "limits_of u' = limits_of u" if "store_good (Suc k) u" "store_step d u = (e, u')" for k u d e u'
      using that perform_limits by (auto simp: store_step_def split: prod.splits)
  qed
  ultimately show ?thesis by (simp add: within_capacity_def tally_def map_len_def limits_of_def NewChallengeStore_def Let_def)
qed

theorem challenge_capacity_witness:
  "\<exists>s. run_calls store_step challenge_demo_calls (NewChallengeStore challenge_demo) = (challenge_demo_events, s)
     \<and> int (card (dom (st_m s)) + card (dom (st_reservations s))) \<le> 2"
proof -
  obtain s where s: "run_calls store_step challenge_demo_calls (NewChallengeStore challenge_demo) = (challenge_demo_events, s)"
    by (rule challenge_demo_run)
  have "cf_Capacity (applyDefaults challenge_demo) = 2" by (simp add: challenge_demo_def applyDefaults_def default_int_def Let_def)
  then show ?thesis using s challenge_capacity[OF challenge_demo_small s] by auto
qed

text \<open>
  C32: A challenge or clearance identifier can be consumed at most as often as it was committed:
  in every run of a new store the successful consumptions of an identifier do not outnumber its
  successful commits.
\<close>

theorem challenge_consumed_once:
  assumes "length calls < 2 ^ 64" "run_calls store_step calls (NewChallengeStore c) = (evs, s)"
  shows "length (filter (\<lambda>e. consumes_jti e j) evs) \<le> length (filter (\<lambda>e. commits_jti e j) evs)"
  using challenges.spent_le_minted[OF new_store_good[OF assms(1)] assms(2), of j]
  by (simp add: entry_pending_def NewChallengeStore_def Let_def)

theorem challenge_consumed_once_witness:
  "length (filter (\<lambda>e. consumes_jti e ''j'') challenge_demo_events) = 1
   \<and> 1 \<le> length (filter (\<lambda>e. commits_jti e ''j'') challenge_demo_events)"
proof -
  obtain s where s: "run_calls store_step challenge_demo_calls (NewChallengeStore challenge_demo) = (challenge_demo_events, s)"
    by (rule challenge_demo_run)
  have "length (filter (\<lambda>e. consumes_jti e ''j'') challenge_demo_events) = 1" by (simp add: challenge_demo_events_def)
  then show ?thesis using challenge_consumed_once[OF challenge_demo_small s, of "''j''"] by simp
qed

section \<open>The issuance rate\<close>

text \<open>
  The log of a run against the rate tokens: a reservation names its token, a token was started
  exactly if a start is in the log, and a started token is gone only after its window.
\<close>

definition was_started :: "(Prelude.time \<times> challenge_event) list \<Rightarrow> ChallengeReservation \<Rightarrow> bool" where
  "was_started evs r \<longleftrightarrow> (\<exists>t. (t, Started r) \<in> set evs)"

definition token_logged :: "(Prelude.time \<times> challenge_event) list \<Rightarrow> Prelude.time \<Rightarrow> issuanceRateState \<Rightarrow> Prelude.time \<Rightarrow> ChallengeReservation \<Rightarrow> bool" where
  "token_logged evs now x t r \<longleftrightarrow> cr_rateID r \<le> is_nextID x \<and> (case issued x (cr_rateID r) of
     Some v \<Rightarrow> v = (rate_owner (cr_owner r), rate_peer (cr_owner r) (cr_peer r), t + is_window x, was_started evs r)
   | None \<Rightarrow> was_started evs r \<longrightarrow> t + is_window x \<le> now)"

definition rate_log :: "(Prelude.time \<times> challenge_event) list \<Rightarrow> Prelude.time \<Rightarrow> ChallengeStore \<Rightarrow> issuanceRateState \<Rightarrow> bool" where
  "rate_log evs now s x \<longleftrightarrow> st_rates s = Some x
     \<and> (\<forall>t r. (t, Reserved r) \<in> set evs \<longrightarrow> token_logged evs now x t r)
     \<and> (\<forall>t r t' r'. (t, Reserved r) \<in> set evs \<longrightarrow> (t', Reserved r') \<in> set evs \<longrightarrow> cr_rateID r = cr_rateID r' \<longrightarrow> r = r' \<and> t = t')
     \<and> (\<forall>i r. st_reservations s i = Some r \<longrightarrow> (\<exists>t. (t, Reserved r) \<in> set evs))
     \<and> (\<forall>r. was_started evs r \<longrightarrow> (\<exists>t. (t, Reserved r) \<in> set evs))"

lemma rate_logD:
  assumes "rate_log evs now s x"
  shows "st_rates s = Some x" "(t, Reserved r) \<in> set evs \<Longrightarrow> token_logged evs now x t r"
    "(t, Reserved r) \<in> set evs \<Longrightarrow> (t', Reserved r') \<in> set evs \<Longrightarrow> cr_rateID r = cr_rateID r' \<Longrightarrow> r = r' \<and> t = t'"
    "st_reservations s i = Some r \<Longrightarrow> \<exists>t. (t, Reserved r) \<in> set evs"
    "was_started evs r \<Longrightarrow> \<exists>t. (t, Reserved r) \<in> set evs"
  using assms unfolding rate_log_def by blast+

lemma rate_logI:
  assumes "st_rates s = Some x" "\<And>t r. (t, Reserved r) \<in> set evs \<Longrightarrow> token_logged evs now x t r"
    "\<And>t r t' r'. (t, Reserved r) \<in> set evs \<Longrightarrow> (t', Reserved r') \<in> set evs \<Longrightarrow> cr_rateID r = cr_rateID r' \<Longrightarrow> r = r' \<and> t = t'"
    "\<And>i r. st_reservations s i = Some r \<Longrightarrow> \<exists>t. (t, Reserved r) \<in> set evs"
    "\<And>r. was_started evs r \<Longrightarrow> \<exists>t. (t, Reserved r) \<in> set evs"
  shows "rate_log evs now s x"
  using assms unfolding rate_log_def by blast

text \<open>Time passes and tokens go away as they may.\<close>

lemma token_logged_shrinks:
  assumes "token_logged evs now x t r" "now \<le> n" "same_limits x u" "keeps_started n (issued x) (issued u)"
  shows "token_logged evs n u t r"
  using assms assms(4)[unfolded keeps_started_def, rule_format, of "cr_rateID r"]
  by (auto simp: token_logged_def same_limits_def split: option.splits)

lemma rate_log_shrinks:
  assumes "rate_log evs now s x" "now \<le> n" "shrinks n s s'"
  shows "\<exists>u. rate_log evs n s' u \<and> same_limits x u"
proof -
  note log = rate_logD[OF assms(1)]
  obtain u where u: "st_rates s' = Some u" "same_limits x u"
    using assms(3) log(1) by (cases "st_rates s'") (auto simp: shrinks_def same_caps_def)
  have keep: "keeps_started n (issued x) (issued u)" and sub: "submap (st_reservations s') (st_reservations s)"
    using assms(3) log(1) u(1) by (simp_all add: shrinks_def tokens_of_def[abs_def])
  have "rate_log evs n s' u"
  proof (rule rate_logI[OF u(1)])
    show "token_logged evs n u t r" if "(t, Reserved r) \<in> set evs" for t r
      by (rule token_logged_shrinks[OF log(2)[OF that] assms(2) u(2) keep])
    show "\<exists>t. (t, Reserved r) \<in> set evs" if "st_reservations s' i = Some r" for i r
      using log(4)[OF submap_Some[OF sub that]] .
  qed (use log(3,5) in blast)+
  then show ?thesis using u(2) by blast
qed

text \<open>An event that neither reserves nor starts says nothing about tokens.\<close>

lemma rate_log_event:
  assumes "rate_log evs now s x" "\<And>r. ev \<noteq> Reserved r" "\<And>r. ev \<noteq> Started r"
  shows "rate_log (evs @ [(n, ev)]) now s x"
proof -
  have st: "was_started (evs @ [(n, ev)]) r = was_started evs r" for r using assms(3)[of r] by (auto simp: was_started_def)
  have re: "(t, Reserved r) \<in> set (evs @ [(n, ev)]) \<longleftrightarrow> (t, Reserved r) \<in> set evs" for t r using assms(2)[of r] by auto
  show ?thesis using assms(1) unfolding rate_log_def token_logged_def st re .
qed

lemma rate_log_reserves:
  assumes "rate_log evs now s x" "now \<le> n" "reserves n r s s'" "is_nextID x \<noteq> - 1"
  shows "\<exists>u. rate_log (evs @ [(n, Reserved r)]) n s' u \<and> same_rates x u"
proof -
  obtain t rates where t: "shrinks n s t" "s' = reserved_in r rates t" "rate_taken n r t rates"
    using assms(3) by (auto simp: reserves_def)
  from rate_log_shrinks[OF assms(1,2) t(1)] obtain y where y: "rate_log evs n t y" "same_limits x y" by blast
  note log = rate_logD[OF y(1)]
  obtain u f where u: "rates = Some u" "same_rates y u" "is_nextID u = is_nextID y + 1" "cr_rateID r = is_nextID y + 1"
    "keeps_started n (issued y) f" "f (cr_rateID r) = None"
    "issued u = f(cr_rateID r \<mapsto> (rate_owner (cr_owner r), rate_peer (cr_owner r) (cr_peer r), n + is_window y, False))"
    using t(3) log(1) by (auto simp: rate_taken_def took_def)
  have lt: "is_nextID y < cr_rateID r" using word_plus_one_gt[of "is_nextID y"] assms(4) y(2) u(4) by (simp add: same_limits_def)
  have old: "cr_rateID q < cr_rateID r" if "(t, Reserved q) \<in> set evs" for t q
    using log(2)[OF that] lt by (auto simp: token_logged_def)
  have fresh: "\<not> was_started evs r" using log(5) old by blast
  let ?evs = "evs @ [(n, Reserved r)]"
  have st: "was_started ?evs q = was_started evs q" for q by (simp add: was_started_def)
  have "rate_log ?evs n s' u"
  proof (rule rate_logI)
    show "st_rates s' = Some u" by (simp add: t(2) u(1) reserved_in_def)
    fix t0 q assume q: "(t0, Reserved q) \<in> set ?evs"
    show "token_logged ?evs n u t0 q"
    proof (cases "(t0, Reserved q) \<in> set evs")
      case True
      have "cr_rateID q \<noteq> cr_rateID r" "cr_rateID q \<le> is_nextID u" using old[OF True] u(3,4) by auto
      then show ?thesis
        using log(2)[OF True] u(2,7) u(5)[unfolded keeps_started_def, rule_format, of "cr_rateID q"]
        by (auto simp: token_logged_def st same_rates_def split: option.splits)
    next
      case False
      then have "q = r" "t0 = n" using q by auto
      then show ?thesis using u fresh by (simp add: token_logged_def st same_rates_def)
    qed
    fix t1 q' assume q': "(t1, Reserved q') \<in> set ?evs" "cr_rateID q = cr_rateID q'"
    then show "q = q' \<and> t0 = t1" using q log(3)[of t0 q t1 q'] old by fastforce
  next
    show "\<exists>t. (t, Reserved q) \<in> set ?evs" if "st_reservations s' i = Some q" for i q
      using that log(4) by (auto simp: t(2) reserved_in_def split: if_splits)
    show "\<exists>t. (t, Reserved q) \<in> set ?evs" if "was_started ?evs q" for q using that log(5) by (auto simp: st)
  qed
  then show ?thesis using y(2) u(2) by (auto simp: same_limits_def same_rates_def)
qed

lemma rate_log_starts:
  assumes "rate_log evs now s x" "now \<le> n" "starts n r s s'"
  shows "\<exists>u. rate_log (evs @ [(n, Started r)]) n s' u \<and> same_rates x u"
proof -
  note log = rate_logD[OF assms(1)]
  have r: "st_reservations s (cr_id r) = Some r" using assms(3) by (simp add: starts_def)
  obtain u ow p e where u: "s' = s\<lparr>st_rates := Some u\<rparr>" "same_limits x u" "issued x (cr_rateID r) = Some (ow, p, e, False)"
    "issued u = (issued x)(cr_rateID r \<mapsto> (ow, p, e, True))"
    using assms(3) log(1) by (auto simp: starts_def)
  from log(4)[OF r] obtain t where t: "(t, Reserved r) \<in> set evs" ..
  let ?evs = "evs @ [(n, Started r)]"
  have st: "was_started ?evs q \<longleftrightarrow> was_started evs q \<or> q = r" for q by (auto simp: was_started_def)
  have re: "(t0, Reserved q) \<in> set ?evs \<longleftrightarrow> (t0, Reserved q) \<in> set evs" for t0 q by auto
  have "rate_log ?evs n s' u"
  proof (rule rate_logI, unfold re)
    show "st_rates s' = Some u" by (simp add: u(1))
    show "token_logged ?evs n u t0 q" if q: "(t0, Reserved q) \<in> set evs" for t0 q
    proof (cases "q = r")
      case True
      then have "t0 = t" using log(3)[OF q t] by simp
      then show ?thesis using log(2)[OF t] True u(2-4) by (simp add: token_logged_def st same_limits_def)
    next
      case False
      then have "cr_rateID q \<noteq> cr_rateID r" using log(3)[OF q t] by blast
      then show ?thesis using log(2)[OF q] False u(2,4) assms(2)
        by (auto simp: token_logged_def st same_limits_def split: option.splits)
    qed
    show "\<exists>t. (t, Reserved q) \<in> set evs" if "st_reservations s' i = Some q" for i q
      using that log(4) by (simp add: u(1))
    show "\<exists>t. (t, Reserved q) \<in> set evs" if "was_started ?evs q" for q using that log(5) t by (auto simp: st)
  qed (use log(3) in blast)
  then show ?thesis using u(2) by (auto simp: same_limits_def same_rates_def)
qed

lemma same_rates_trans: "same_rates x y \<Longrightarrow> same_rates y z \<Longrightarrow> same_rates x z"
  by (simp add: same_rates_def)

lemma same_limits_rates: "same_limits x y \<Longrightarrow> same_rates x y"
  by (simp add: same_limits_def same_rates_def)

lemma rate_log_step:
  assumes "rate_log evs now s x" "now \<le> n" "store_good (Suc k) s" "perform n ord c s = (ev, s')"
  shows "\<exists>u. rate_log (evs @ [(n, ev)]) n s' u \<and> same_rates x u"
proof -
  have ok: "store_ok s" "is_nextID x \<noteq> - 1"
    using assms(3) store_good_ids[OF assms(3)] rate_logD(1)[OF assms(1)] by (simp_all add: store_good_def ids_left_def)
  note eff = perform_effect[OF ok(1) store_good_ids[OF assms(3)] assms(4)]
  have shrink: ?thesis if "shrinks n s s'" "\<And>r. ev \<noteq> Reserved r" "\<And>r. ev \<noteq> Started r"
    using rate_log_shrinks[OF assms(1,2) that(1)] rate_log_event[OF _ that(2,3)] same_limits_rates by blast
  show ?thesis
  proof (cases ev)
    case (Committed j r)
    then have c: "commits n j r s s'" using eff by simp
    have "rate_log evs n s' x"
    proof (rule rate_logI)
      show "st_rates s' = Some x" using c rate_logD(1)[OF assms(1)] by (simp add: commits_def)
      show "token_logged evs n x t q" if "(t, Reserved q) \<in> set evs" for t q
        using rate_logD(2)[OF assms(1) that] assms(2) by (auto simp: token_logged_def split: option.splits)
      show "\<exists>t. (t, Reserved q) \<in> set evs" if "st_reservations s' i = Some q" for i q
        using that rate_logD(4)[OF assms(1)] c by (auto simp: commits_def split: if_splits)
    qed (use rate_logD(3,5)[OF assms(1)] in blast)+
    then show ?thesis using rate_log_event[of evs n s' x ev n] Committed by (auto simp: same_rates_def)
  qed (use eff shrink rate_log_reserves[OF assms(1,2) _ ok(2)] rate_log_starts[OF assms(1,2)] in auto)
qed

lemma rate_log_run:
  assumes "store_good (length calls) s" "rate_log evs now s x" "sorted (now # map fst calls)" "run_calls store_step calls s = (es, t)"
  shows "\<exists>u. rate_log (evs @ es) (last (now # map fst calls)) t u \<and> same_rates x u"
  using assms
proof (induction calls arbitrary: evs now s x es)
  case Nil
  then show ?case by (auto simp: same_rates_def)
next
  case (Cons c calls)
  obtain n ord call where c: "c = (n, ord, call)" by (cases c)
  obtain ev s' where step: "perform n ord call s = (ev, s')" by fastforce
  then have "store_step c s = ((n, ev), s')" by (simp add: c store_step_def)
  then obtain es' where run: "run_calls store_step calls s' = (es', t)" "es = (n, ev) # es'"
    using Cons.prems(4) by (auto split: prod.splits)
  have g: "store_good (Suc (length calls)) s" "now \<le> n" using Cons.prems(1,3) by (auto simp: c)
  from rate_log_step[OF Cons.prems(2) g(2,1) step] obtain u where
    u: "rate_log (evs @ [(n, ev)]) n s' u" "same_rates x u" by blast
  have "sorted (n # map fst calls)" using Cons.prems(3) by (simp add: c)
  from Cons.IH[OF store_good_step[OF g(1) step] u(1) this run(1)] obtain w where
    w: "rate_log ((evs @ [(n, ev)]) @ es') (last (n # map fst calls)) t w" "same_rates u w" by blast
  moreover have "(evs @ [(n, ev)]) @ es' = evs @ es" "last (n # map fst calls) = last (now # map fst (c # calls))"
    by (simp_all add: run(2) c)
  ultimately show ?case using same_rates_trans[OF u(2) w(2)] by metis
qed

text \<open>The started reservations that are less than a window old still have their tokens.\<close>

definition started_since :: "(Prelude.time \<times> challenge_event) list \<Rightarrow> Prelude.time \<Rightarrow> (ChallengeReservation \<Rightarrow> bool) \<Rightarrow> ChallengeReservation set" where
  "started_since evs since P = {r. P r \<and> was_started evs r \<and> (\<exists>t > since. (t, Reserved r) \<in> set evs)}"

lemma started_since_tokens:
  assumes "rate_log evs now s x" "rate_limited x"
    and "\<And>r. P r \<Longrightarrow> Q (rate_owner (cr_owner r), rate_peer (cr_owner r) (cr_peer r))"
  shows "card (started_since evs (now - is_window x) P) \<le> card {i \<in> dom (issued x). Q (fst (the (issued x i)), fst (snd (the (issued x i))))}"
proof (rule card_inj_on_le[where f = cr_rateID])
  note log = rate_logD[OF assms(1)]
  show "inj_on cr_rateID (started_since evs (now - is_window x) P)"
    unfolding inj_on_def started_since_def using log(3) by blast
  show "cr_rateID ` started_since evs (now - is_window x) P \<subseteq> {i \<in> dom (issued x). Q (fst (the (issued x i)), fst (snd (the (issued x i))))}"
  proof
    fix i assume "i \<in> cr_rateID ` started_since evs (now - is_window x) P"
    then obtain r t where r: "i = cr_rateID r" "P r" "was_started evs r" "now - is_window x < t" "(t, Reserved r) \<in> set evs"
      by (auto simp: started_since_def)
    then show "i \<in> {i \<in> dom (issued x). Q (fst (the (issued x i)), fst (snd (the (issued x i))))}"
      using log(2)[OF r(5)] assms(3)[of r] by (auto simp: token_logged_def split: option.splits)
  qed
  show "finite {i \<in> dom (issued x). Q (fst (the (issued x i)), fst (snd (the (issued x i))))}"
    using rate_limitedD(5)[OF assms(2)] by simp
qed

text \<open>
  C34: With a rate window configured, and a clock that does not go back, at no point of a run have
  more challenges been started from reservations less than a window old than the configured
  rates allow: for the whole store, for one owner and for one peer. Work on a challenge that was
  started and then abandoned counts as well.
\<close>

theorem challenge_rate_limited:
  assumes "0 < cf_RateWindow c" "length calls < 2 ^ 64" "calls \<noteq> []" "sorted (map fst calls)"
    "run_calls store_step calls (NewChallengeStore c) = (evs, s)"
  shows "int (card (started_since evs (fst (last calls) - cf_RateWindow c) (\<lambda>_. True))) \<le> cf_GlobalRate (applyDefaults c)
    \<and> int (card (started_since evs (fst (last calls) - cf_RateWindow c) (\<lambda>r. rate_owner (cr_owner r) = ow))) \<le> cf_PerOwnerRate (applyDefaults c)
    \<and> int (card (started_since evs (fst (last calls) - cf_RateWindow c) (\<lambda>r. rate_peer (cr_owner r) (cr_peer r) = p))) \<le> cf_PerPeerRate (applyDefaults c)"
proof -
  let ?new = "NewChallengeStore c" and ?now = "fst (hd calls)"
  note pos = applyDefaults_pos(7-9)[OF assms(1)] and win = applyDefaults_fields(2)[of c]
  then obtain x where x: "st_rates ?new = Some x" "is_window x = cf_RateWindow c" "issued x = Map.empty"
    "is_globalLimit x = cf_GlobalRate (applyDefaults c)" "is_ownerLimit x \<le> cf_PerOwnerRate (applyDefaults c)"
    "is_peerLimit x \<le> cf_PerPeerRate (applyDefaults c)"
    using assms(1) by (simp add: NewChallengeStore_def Let_def newIssuanceRateState_def issued_def[abs_def])
  have "rate_log [] ?now ?new x"
    using x(1) by (intro rate_logI) (simp_all add: was_started_def, simp add: NewChallengeStore_def Let_def)
  moreover have "sorted (?now # map fst calls)" "last (?now # map fst calls) = fst (last calls)"
    using assms(3,4) by (cases calls; simp add: last_map)+
  ultimately obtain u where u: "rate_log evs (fst (last calls)) s u" "same_rates x u"
    using rate_log_run[OF new_store_good[OF assms(2)] _ _ assms(5)] by (metis append_Nil)
  have "store_good 0 s" using challenges.good_run[OF new_store_good[OF assms(2)] assms(5)] .
  then have lim: "rate_limited u" using rate_logD(1)[OF u(1)] by (simp add: store_good_def store_ok_def rates_within_def)
  note l = rate_limitedD[OF lim]
  have w: "is_window u = cf_RateWindow c" using u(2) x(2) by (simp add: same_rates_def)
  note card = started_since_tokens[OF u(1) lim, unfolded w]
  have "int (card (started_since evs (fst (last calls) - cf_RateWindow c) (\<lambda>_. True))) \<le> int (map_len (issued u))"
    using card[of "\<lambda>_. True" "\<lambda>_. True"] by (simp add: map_len_def)
  moreover have "int (card (started_since evs (fst (last calls) - cf_RateWindow c) (\<lambda>r. rate_owner (cr_owner r) = ow)))
      \<le> int (tally fst (issued u) ow)"
    using card[of "\<lambda>r. rate_owner (cr_owner r) = ow" "\<lambda>v. fst v = ow"] by (simp add: tally_def)
  moreover have "int (card (started_since evs (fst (last calls) - cf_RateWindow c) (\<lambda>r. rate_peer (cr_owner r) (cr_peer r) = p)))
      \<le> int (tally (\<lambda>v. fst (snd v)) (issued u) p)"
    using card[of "\<lambda>r. rate_peer (cr_owner r) (cr_peer r) = p" "\<lambda>v. snd v = p"] by (simp add: tally_def)
  ultimately show ?thesis
    using l(2)[of ow] l(3)[of p] l(4) u(2) x(4-6) by (simp add: same_rates_def)
qed

theorem challenge_rate_limited_witness:
  "int (card (started_since challenge_demo_events (14 - 60) (\<lambda>r. rate_owner (cr_owner r) = ''o''))) \<le> 1
   \<and> was_started challenge_demo_events challenge_demo_reservation"
proof -
  obtain s where s: "run_calls store_step challenge_demo_calls (NewChallengeStore challenge_demo) = (challenge_demo_events, s)"
    by (rule challenge_demo_run)
  have "0 < cf_RateWindow challenge_demo" "challenge_demo_calls \<noteq> []" "sorted (map fst challenge_demo_calls)"
    "fst (last challenge_demo_calls) = 14" "cf_RateWindow challenge_demo = 60" "cf_PerOwnerRate (applyDefaults challenge_demo) = 1"
    by (simp_all add: challenge_demo_calls_def challenge_demo_def applyDefaults_def default_int_def Let_def)
  moreover have "was_started challenge_demo_events challenge_demo_reservation"
    by (auto simp: was_started_def challenge_demo_events_def)
  ultimately show ?thesis using challenge_rate_limited[OF _ challenge_demo_small _ _ s, of "''o''"] by simp
qed

end
