(* ===== verification/Failure_Tracker.thy ===== *)
theory Failure_Tracker
  imports Go_Strings Runs
begin

text \<open>
  The failure tracker of \<open>internal/protection/bot/challenge_security.go\<close>: wrong challenge answers
  per client, site and policy, counted over a sliding window, with rising levels and a block. Every
  method holds the mutex and reads the clock once; the reading and the order in which
  cleaning visits the keys are arguments. Entries are objects only the tracker refers to, so
  writing through a pointer is updating the map.
\<close>

record FailureKey =
  fk_Client :: string
  fk_Site :: string
  fk_Policy :: string

record FailureTrackerConfig =
  fc_Capacity :: int
  fc_Window :: duration
  fc_IdleTTL :: duration
  fc_LevelAt :: "int list"
  fc_BlockAt :: int
  fc_BlockDuration :: duration

record FailureDecision =
  fd_Failures :: int
  fd_Level :: int
  fd_Blocked :: bool
  fd_BlockedUntil :: "Prelude.time"

record failureEntry =
  fe_at :: "Prelude.time list"
  fe_blocked :: "Prelude.time"
  fe_last :: "Prelude.time"

record FailureTracker =
  ft_m :: "FailureKey \<rightharpoonup> failureEntry"
  ft_cap :: int
  ft_win :: duration
  ft_idle :: duration
  ft_block :: duration
  ft_levels :: "int list"
  ft_blockAt :: int

datatype failure_error = DurationsRequired | CompleteKeyRequired | TrackerFull

definition NewFailureTracker :: "FailureTrackerConfig \<Rightarrow> failure_error + FailureTracker" where
  "NewFailureTracker c =
     (if fc_Window c \<le> 0 \<or> fc_BlockDuration c \<le> 0 then Inl DurationsRequired
      else Inr \<lparr>ft_m = Map.empty, ft_cap = (if fc_Capacity c < 1 then 10000 else fc_Capacity c), ft_win = fc_Window c,
        ft_idle = (if fc_IdleTTL c \<le> 0 then fc_Window c + fc_BlockDuration c else fc_IdleTTL c),
        ft_block = fc_BlockDuration c, ft_levels = sort (fc_LevelAt c), ft_blockAt = fc_BlockAt c\<rparr>)"

definition no_decision :: FailureDecision where
  "no_decision = \<lparr>fd_Failures = 0, fd_Level = 0, fd_Blocked = False, fd_BlockedUntil = zero_time\<rparr>"

definition new_entry :: failureEntry where
  "new_entry = \<lparr>fe_at = [], fe_blocked = zero_time, fe_last = zero_time\<rparr>"

definition failure_trim :: "FailureTracker \<Rightarrow> Prelude.time \<Rightarrow> failureEntry \<Rightarrow> failureEntry" where
  "failure_trim t n e =
     (let cut = n - ft_win t
      in e\<lparr>fe_at := dropWhile (\<lambda>a. a < cut) (fe_at e),
           fe_blocked := (if \<not> n < fe_blocked e then zero_time else fe_blocked e)\<rparr>)"

definition failure_result :: "FailureTracker \<Rightarrow> Prelude.time \<Rightarrow> failureEntry \<Rightarrow> FailureDecision" where
  "failure_result t n e =
     \<lparr>fd_Failures = int (length (fe_at e)),
      fd_Level = int (length (filter (\<lambda>x. x > 0 \<and> int (length (fe_at e)) \<ge> x) (ft_levels t))),
      fd_Blocked = n < fe_blocked e, fd_BlockedUntil = fe_blocked e\<rparr>"

text \<open>One visit of a cleaning loop: trim, and drop an entry that is empty and idle.\<close>

definition clean_key :: "Prelude.time \<Rightarrow> FailureKey \<Rightarrow> FailureTracker \<Rightarrow> FailureTracker" where
  "clean_key n k t =
     (case ft_m t k of
        None \<Rightarrow> t
      | Some e0 \<Rightarrow>
          let e = failure_trim t n e0 in
          if fe_at e = [] \<and> \<not> n < fe_last e + ft_idle t then t\<lparr>ft_m := (ft_m t)(k := None)\<rparr>
          else t\<lparr>ft_m := (ft_m t)(k \<mapsto> e)\<rparr>)"

fun cleanBudget :: "Prelude.time \<Rightarrow> nat \<Rightarrow> FailureKey list \<Rightarrow> FailureTracker \<Rightarrow> FailureTracker" where
  "cleanBudget n budget [] t = t"
| "cleanBudget n budget (k # ks) t =
     (if budget = 0 then t
      else case ft_m t k of None \<Rightarrow> cleanBudget n budget ks t | Some _ \<Rightarrow> cleanBudget n (budget - 1) ks (clean_key n k t))"

definition failure_clean :: "Prelude.time \<Rightarrow> FailureKey list \<Rightarrow> FailureTracker \<Rightarrow> FailureTracker" where
  "failure_clean n ks t = fold (clean_key n) ks t"

definition RecordFailure ::
    "Prelude.time \<Rightarrow> FailureKey list \<Rightarrow> FailureKey \<Rightarrow> FailureTracker \<Rightarrow> (FailureDecision \<times> failure_error option) \<times> FailureTracker" where
  "RecordFailure n ks k t0 =
     (if trim_space (fk_Client k) = [] \<or> fk_Site k = [] \<or> fk_Policy k = [] then ((no_decision, Some CompleteKeyRequired), t0)
      else let t = cleanBudget n 16 ks t0 in
        if ft_m t k = None \<and> int (map_len (ft_m t)) \<ge> ft_cap t
        then ((no_decision\<lparr>fd_Blocked := True, fd_BlockedUntil := n + ft_block t\<rparr>, Some TrackerFull), t)
        else let e1 = failure_trim t n (case ft_m t k of None \<Rightarrow> new_entry | Some e \<Rightarrow> e);
                 e2 = e1\<lparr>fe_at := fe_at e1 @ [n], fe_last := n\<rparr>;
                 e3 = (if ft_blockAt t > 0 \<and> int (length (fe_at e2)) \<ge> ft_blockAt t then e2\<lparr>fe_blocked := n + ft_block t\<rparr> else e2)
          in ((failure_result t n e3, None), t\<lparr>ft_m := (ft_m t)(k \<mapsto> e3)\<rparr>))"

definition failure_Check :: "Prelude.time \<Rightarrow> FailureKey \<Rightarrow> FailureTracker \<Rightarrow> FailureDecision \<times> FailureTracker" where
  "failure_Check n k t =
     (case ft_m t k of
        None \<Rightarrow> (no_decision, t)
      | Some e0 \<Rightarrow>
          let e = failure_trim t n e0 in
          if fe_at e = [] \<and> \<not> n < fe_last e + ft_idle t then (no_decision, t\<lparr>ft_m := (ft_m t)(k := None)\<rparr>)
          else (failure_result t n e, t\<lparr>ft_m := (ft_m t)(k \<mapsto> e)\<rparr>))"

definition failure_Reset :: "FailureKey \<Rightarrow> FailureTracker \<Rightarrow> FailureTracker" where
  "failure_Reset k t = t\<lparr>ft_m := (ft_m t)(k := None)\<rparr>"

definition failure_Len :: "Prelude.time \<Rightarrow> FailureKey list \<Rightarrow> FailureTracker \<Rightarrow> nat \<times> FailureTracker" where
  "failure_Len n ks t0 = (let t = failure_clean n ks t0 in (map_len (ft_m t), t))"

section \<open>Calls and the history they leave\<close>

datatype failure_call = FailRecord FailureKey | FailCheck FailureKey | FailReset FailureKey | FailLen

datatype failure_event =
    FailureCounted FailureKey FailureDecision
  | FailureChecked FailureKey FailureDecision
  | FailureCleared FailureKey
  | NoFailure

fun failure_step :: "Prelude.time \<times> FailureKey list \<times> failure_call \<Rightarrow> FailureTracker \<Rightarrow> (Prelude.time \<times> failure_event) \<times> FailureTracker" where
  "failure_step (n, ks, FailRecord k) t =
     (case RecordFailure n ks k t of ((d, err), t') \<Rightarrow> ((n, case err of None \<Rightarrow> FailureCounted k d | Some _ \<Rightarrow> NoFailure), t'))"
| "failure_step (n, ks, FailCheck k) t = (case failure_Check n k t of (d, t') \<Rightarrow> ((n, FailureChecked k d), t'))"
| "failure_step (n, ks, FailReset k) t = ((n, FailureCleared k), failure_Reset k t)"
| "failure_step (n, ks, FailLen) t = ((n, NoFailure), snd (failure_Len n ks t))"

text \<open>The failures of a key since it was last cleared, oldest first.\<close>

fun failures_after :: "FailureKey \<Rightarrow> Prelude.time list \<Rightarrow> Prelude.time \<times> failure_event \<Rightarrow> Prelude.time list" where
  "failures_after k h (n, FailureCounted k' d) = (if k' = k then h @ [n] else h)"
| "failures_after k h (n, FailureCleared k') = (if k' = k then [] else h)"
| "failures_after k h (n, _) = h"

definition failures_of :: "FailureKey \<Rightarrow> (Prelude.time \<times> failure_event) list \<Rightarrow> Prelude.time list" where
  "failures_of k evs = foldl (failures_after k) [] evs"

section \<open>The tracker counts its history\<close>

abbreviation recent :: "FailureTracker \<Rightarrow> Prelude.time \<Rightarrow> Prelude.time list \<Rightarrow> Prelude.time list" where
  "recent t n h \<equiv> filter (\<lambda>a. n - ft_win t \<le> a) h"

definition times_of :: "FailureTracker \<Rightarrow> FailureKey \<Rightarrow> Prelude.time list" where
  "times_of t k = (case ft_m t k of None \<Rightarrow> [] | Some e \<Rightarrow> fe_at e)"

definition same_setup :: "FailureTracker \<Rightarrow> FailureTracker \<Rightarrow> bool" where
  "same_setup t u \<longleftrightarrow> ft_cap u = ft_cap t \<and> ft_win u = ft_win t \<and> ft_block u = ft_block t \<and> ft_idle u = ft_idle t
     \<and> ft_levels u = ft_levels t \<and> ft_blockAt u = ft_blockAt t"

text \<open>An entry's times are sorted and, like its last failure, past.\<close>

definition times_ok :: "Prelude.time \<Rightarrow> Prelude.time list \<Rightarrow> bool" where
  "times_ok now xs \<longleftrightarrow> sorted xs \<and> (\<forall>a\<in>set xs. a \<le> now)"

definition entry_ok :: "Prelude.time \<Rightarrow> failureEntry \<Rightarrow> bool" where
  "entry_ok now e \<longleftrightarrow> times_ok now (fe_at e) \<and> fe_last e \<le> now"

definition tracked :: "(FailureKey \<Rightarrow> Prelude.time list) \<Rightarrow> Prelude.time \<Rightarrow> FailureTracker \<Rightarrow> bool" where
  "tracked h now t \<longleftrightarrow> 0 \<le> ft_win t \<and> (\<forall>k e. ft_m t k = Some e \<longrightarrow> entry_ok now e)
     \<and> (\<forall>k. recent t now (h k) = recent t now (times_of t k)) \<and> (\<forall>k. times_ok now (h k))"

lemma dropWhile_sorted: "sorted xs \<Longrightarrow> dropWhile (\<lambda>a. a < c) xs = filter (\<lambda>a. c \<le> a) (xs :: int list)"
  by (induction xs) (auto intro!: filter_True[symmetric])

lemma failure_trim_fields [simp]:
  "fe_last (failure_trim t n e) = fe_last e"
  "fe_at (failure_trim t n e) = dropWhile (\<lambda>a. a < n - ft_win t) (fe_at e)"
  "fe_blocked (failure_trim t n e) = (if \<not> n < fe_blocked e then zero_time else fe_blocked e)"
  by (simp_all add: failure_trim_def Let_def)

lemma times_ok_recent: "times_ok now xs \<Longrightarrow> times_ok now (recent t n xs)"
  using sorted_filter[of "\<lambda>x. x" xs] by (simp add: times_ok_def)

lemma trim_recent: "times_ok now (fe_at e) \<Longrightarrow> fe_at (failure_trim t n e) = recent t n (fe_at e)"
  using dropWhile_sorted[of "fe_at e" "n - ft_win t"] by (simp add: times_ok_def)

lemma entry_ok_trim:
  assumes "entry_ok n e"
  shows "entry_ok n (failure_trim t n e)" "fe_at (failure_trim t n e) = recent t n (fe_at e)"
  using assms trim_recent[where now = n and t = t and n = n and e = e]
    times_ok_recent[where now = n and t = t and n = n and xs = "fe_at e"]
  by (simp_all add: entry_ok_def)

lemma recent_later: "now \<le> n \<Longrightarrow> recent t now xs = recent t now ys \<Longrightarrow> recent t n xs = recent t n ys"
proof -
  assume le: "now \<le> n" and eq: "recent t now xs = recent t now ys"
  have "recent t n xs = recent t n (recent t now xs)" for xs
    using le by (auto intro: filter_cong)
  then show ?thesis using eq by metis
qed

text \<open>Time passing and trimming change nothing that counts.\<close>

lemma tracked_later:
  assumes "tracked h now t" "now \<le> n"
  shows "tracked h n t"
  using assms recent_later[OF assms(2)] unfolding tracked_def entry_ok_def times_ok_def by (meson order.trans)

lemma clean_key_tracked:
  assumes "tracked h n t"
  shows "tracked h n (clean_key n k t)" "same_setup t (clean_key n k t)"
proof -
  show "same_setup t (clean_key n k t)" by (auto simp: clean_key_def same_setup_def Let_def split: option.split)
  show "tracked h n (clean_key n k t)"
  proof (cases "ft_m t k")
    case (Some e)
    have e: "entry_ok n e" using assms Some by (simp add: tracked_def)
    note tr = entry_ok_trim[OF e]
    let ?t = "clean_key n k t" and ?e = "failure_trim t n e"
    have m: "ft_m ?t k' = (if k' = k then (if fe_at ?e = [] \<and> \<not> n < fe_last e + ft_idle t then None else Some ?e) else ft_m t k')" for k'
      using Some by (simp add: clean_key_def Let_def)
    have f: "ft_win ?t = ft_win t" "ft_block ?t = ft_block t" using Some by (simp_all add: clean_key_def Let_def)
    have "recent t n (times_of ?t k') = recent t n (times_of t k')" for k'
      using Some tr(2) by (cases "k' = k") (auto simp: times_of_def m)
    moreover have "entry_ok n e'" if "ft_m ?t k' = Some e'" for k' e'
      using that assms tr(1) f by (auto simp: m tracked_def entry_ok_def split: if_splits)
    ultimately show ?thesis using assms f unfolding tracked_def by simp
  qed (use assms in \<open>simp add: clean_key_def\<close>)
qed

lemma cleanBudget_keeps:
  assumes "\<And>k t. P t \<Longrightarrow> P (clean_key n k t)" "P t"
  shows "P (cleanBudget n b ks t)"
  using assms(2)
proof (induction ks arbitrary: b t)
  case (Cons k ks)
  then show ?case using assms(1)[of t k] by (auto split: option.split)
qed simp

lemma failure_clean_keeps:
  assumes "\<And>k t. P t \<Longrightarrow> P (clean_key n k t)" "P t"
  shows "P (failure_clean n ks t)"
  using assms(2) unfolding failure_clean_def by (induction ks arbitrary: t) (auto intro: assms(1))

lemma same_setup_refl [simp]: "same_setup t t"
  by (simp add: same_setup_def)

lemma same_setup_trans: "same_setup s t \<Longrightarrow> same_setup t u \<Longrightarrow> same_setup s u"
  by (simp add: same_setup_def)

lemma same_setup_fields:
  assumes "same_setup t u"
  shows "ft_win u = ft_win t" "ft_block u = ft_block t" "ft_idle u = ft_idle t" "ft_levels u = ft_levels t" "ft_blockAt u = ft_blockAt t"
  using assms by (simp_all add: same_setup_def)

text \<open>The answer to a call: the recent failures of the key are counted, and the thresholds they reach.\<close>

definition decides :: "FailureTracker \<Rightarrow> Prelude.time list \<Rightarrow> Prelude.time \<Rightarrow> FailureDecision \<Rightarrow> bool" where
  "decides t h n d \<longleftrightarrow> fd_Failures d = int (length (recent t n h))
     \<and> fd_Level d = int (length (filter (\<lambda>x. x > 0 \<and> x \<le> int (length (recent t n h))) (ft_levels t)))"

lemma decides_result: "fe_at e = recent t n h \<Longrightarrow> decides t h n (failure_result t n e)"
  by (simp add: decides_def failure_result_def)

lemma decides_none: "recent t n h = [] \<Longrightarrow> decides t h n no_decision"
  by (auto simp: decides_def no_decision_def)

text \<open>Counting a failure, and putting a trimmed entry back.\<close>

lemma tracked_put:
  assumes "tracked h n t" "entry_ok n e" "recent t n (fe_at e) = recent t n (h' k)" "times_ok n (h' k)"
    "\<And>k'. k' \<noteq> k \<Longrightarrow> h' k' = h k'"
  shows "tracked h' n (t\<lparr>ft_m := (ft_m t)(k \<mapsto> e)\<rparr>)"
  unfolding tracked_def
proof (intro conjI allI impI)
  fix k' e' assume "ft_m (t\<lparr>ft_m := (ft_m t)(k \<mapsto> e)\<rparr>) k' = Some e'"
  then show "entry_ok n e'"
    using assms(1,2) by (auto simp: tracked_def entry_ok_def split: if_splits)
next
  fix k'
  show "recent (t\<lparr>ft_m := (ft_m t)(k \<mapsto> e)\<rparr>) n (h' k') = recent (t\<lparr>ft_m := (ft_m t)(k \<mapsto> e)\<rparr>) n (times_of (t\<lparr>ft_m := (ft_m t)(k \<mapsto> e)\<rparr>) k')"
    using assms(1,3,5) by (cases "k' = k") (auto simp: tracked_def times_of_def)
  show "times_ok n (h' k')" using assms(1,4,5) by (cases "k' = k"; simp add: tracked_def)
qed (use assms(1) in \<open>simp add: tracked_def\<close>)

lemma tracked_drop:
  assumes "tracked h n t" "recent t n (h' k) = []" "times_ok n (h' k)" "\<And>k'. k' \<noteq> k \<Longrightarrow> h' k' = h k'"
  shows "tracked h' n (t\<lparr>ft_m := (ft_m t)(k := None)\<rparr>)"
  unfolding tracked_def
proof (intro conjI allI impI)
  fix k' e' assume "ft_m (t\<lparr>ft_m := (ft_m t)(k := None)\<rparr>) k' = Some e'"
  then show "entry_ok n e'"
    using assms(1) by (auto simp: tracked_def entry_ok_def split: if_splits)
next
  fix k'
  show "recent (t\<lparr>ft_m := (ft_m t)(k := None)\<rparr>) n (h' k') = recent (t\<lparr>ft_m := (ft_m t)(k := None)\<rparr>) n (times_of (t\<lparr>ft_m := (ft_m t)(k := None)\<rparr>) k')"
    using assms(1,2,4) by (cases "k' = k") (auto simp: tracked_def times_of_def)
  show "times_ok n (h' k')" using assms(1,3,4) by (cases "k' = k"; simp add: tracked_def)
qed (use assms(1) in \<open>simp add: tracked_def\<close>)

lemma Check_tracked:
  assumes "tracked h n t" "failure_Check n k t = (d, t')"
  shows "tracked h n t' \<and> same_setup t t' \<and> decides t (h k) n d"
proof (cases "ft_m t k")
  case None
  have "recent t n (h k) = []" using assms(1) None by (simp add: tracked_def times_of_def)
  then show ?thesis using assms None decides_none by (auto simp: failure_Check_def)
next
  case (Some e0)
  have e0: "entry_ok n e0" and h: "recent t n (h k) = recent t n (fe_at e0)" "times_ok n (h k)"
    using assms(1) Some by (auto simp: tracked_def times_of_def)
  let ?e = "failure_trim t n e0"
  note tr = entry_ok_trim[OF e0]
  have put: "tracked h n (t\<lparr>ft_m := (ft_m t)(k \<mapsto> ?e)\<rparr>)" by (rule tracked_put[OF assms(1) tr(1)]) (use tr(2) h in auto)
  show ?thesis
  proof (cases "fe_at ?e = [] \<and> \<not> n < fe_last e0 + ft_idle t")
    case True
    then have "recent t n (h k) = []" using tr(2) h(1) by metis
    moreover have "tracked h n (t\<lparr>ft_m := (ft_m t)(k := None)\<rparr>)" by (rule tracked_drop[OF assms(1)]) (use calculation h in simp_all)
    ultimately show ?thesis using assms(2) Some True decides_none by (auto simp: failure_Check_def Let_def same_setup_def)
  next
    case False
    then show ?thesis using assms(2) Some put decides_result[of ?e n t "h k"] tr(2) h(1)
      by (auto simp: failure_Check_def Let_def same_setup_def split: if_splits)
  qed
qed

lemma Record_tracked:
  assumes "tracked h n t" "RecordFailure n ks k t = ((d, err), t')"
  shows "same_setup t t' \<and> (case err of
      Some _ \<Rightarrow> tracked h n t'
    | None \<Rightarrow> tracked (h(k := h k @ [n])) n t' \<and> decides t (h k @ [n]) n d)"
proof (cases "trim_space (fk_Client k) = [] \<or> fk_Site k = [] \<or> fk_Policy k = []")
  case True
  then show ?thesis using assms by (auto simp: RecordFailure_def)
next
  case False
  let ?t = "cleanBudget n 16 ks t"
  have "tracked h n ?t \<and> same_setup t ?t"
  proof (rule cleanBudget_keeps[where P = "\<lambda>u. tracked h n u \<and> same_setup t u"])
    show "tracked h n (clean_key n k u) \<and> same_setup t (clean_key n k u)" if "tracked h n u \<and> same_setup t u" for k u
      using that clean_key_tracked[of h n u k] same_setup_trans by blast
  qed (simp add: assms(1))
  then have c: "tracked h n ?t" "same_setup t ?t" by blast+
  note f = same_setup_fields[OF c(2)]
  show ?thesis
  proof (cases "ft_m ?t k = None \<and> int (map_len (ft_m ?t)) \<ge> ft_cap ?t")
    case True
    then show ?thesis using assms(2) False c by (auto simp: RecordFailure_def Let_def)
  next
    case full: False
    define e0 where "e0 = (case ft_m ?t k of None \<Rightarrow> new_entry | Some e \<Rightarrow> e)"
    have e0: "times_ok n (fe_at e0)" and h: "recent ?t n (h k) = recent ?t n (fe_at e0)" "times_ok n (h k)"
      using c(1) by (auto simp: e0_def tracked_def times_of_def new_entry_def entry_ok_def times_ok_def split: option.splits)
    define e1 where "e1 = failure_trim ?t n e0"
    have tr: "fe_at e1 = recent ?t n (fe_at e0)" unfolding e1_def by (rule trim_recent[OF e0])
    define e3 where "e3 = (let e2 = e1\<lparr>fe_at := fe_at e1 @ [n], fe_last := n\<rparr>
      in if ft_blockAt ?t > 0 \<and> int (length (fe_at e2)) \<ge> ft_blockAt ?t then e2\<lparr>fe_blocked := n + ft_block ?t\<rparr> else e2)"
    have out: "d = failure_result ?t n e3" "err = None" "t' = ?t\<lparr>ft_m := (ft_m ?t)(k \<mapsto> e3)\<rparr>"
      using assms(2) False full by (auto simp: RecordFailure_def Let_def e0_def e1_def e3_def)
    have at: "fe_at e3 = fe_at e1 @ [n]" by (simp add: e3_def Let_def)
    have ok3: "entry_ok n e3"
      using times_ok_recent[OF e0, where t = ?t and n = n] by (auto simp: entry_ok_def times_ok_def at tr sorted_append e3_def Let_def)
    have "0 \<le> ft_win ?t" using c(1) by (simp add: tracked_def)
    then have win: "recent ?t n (h k @ [n]) = fe_at e3" using tr h(1) by (simp add: at)
    have "recent ?t n (fe_at e3) = fe_at e3" unfolding win[symmetric] by simp
    then have "tracked (h(k := h k @ [n])) n t'"
      unfolding out(3) using win h(2) by (intro tracked_put[OF c(1) ok3]) (auto simp: times_ok_def sorted_append)
    moreover have "decides ?t (h k @ [n]) n d" unfolding out(1) by (rule decides_result) (simp only: win)
    then have "decides t (h k @ [n]) n d" using f by (simp add: decides_def)
    moreover have "same_setup t t'" using c(2) by (simp add: out(3) same_setup_def)
    ultimately show ?thesis using out(2) by simp
  qed
qed

text \<open>Every call keeps the tracker in step with the history of its events.\<close>

definition tracks :: "(Prelude.time \<times> failure_event) list \<Rightarrow> FailureTracker \<Rightarrow> bool" where
  "tracks evs t \<longleftrightarrow> (\<forall>n. (\<forall>a\<in>set (map fst evs). a \<le> n) \<longrightarrow> tracked (\<lambda>k. failures_of k evs) n t)"

definition answers :: "FailureTracker \<Rightarrow> (Prelude.time \<times> failure_event) list \<Rightarrow> Prelude.time \<times> failure_event \<Rightarrow> bool" where
  "answers t evs ev = (case snd ev of
     FailureCounted k d \<Rightarrow> decides t (failures_of k (evs @ [ev])) (fst ev) d
   | FailureChecked k d \<Rightarrow> decides t (failures_of k evs) (fst ev) d
   | _ \<Rightarrow> True)"

lemma failures_of_snoc: "failures_of k (evs @ [ev]) = failures_after k (failures_of k evs) ev"
  by (simp add: failures_of_def)

lemma tracks_now:
  assumes "tracked (\<lambda>k. failures_of k (evs @ [(n, ev)])) n t"
  shows "tracks (evs @ [(n, ev)]) t"
  using tracked_later[OF assms] by (simp add: tracks_def)

lemma failure_step_tracks:
  assumes "tracks evs t" "\<forall>a\<in>set (map fst evs). a \<le> n" "failure_step (n, ks, c) t = (ev, t')"
  shows "tracks (evs @ [ev]) t' \<and> same_setup t t' \<and> answers t evs ev"
proof -
  let ?h = "\<lambda>k. failures_of k evs"
  have tr: "tracked ?h n t" using assms(1,2) by (simp add: tracks_def)
  show ?thesis
  proof (cases c)
    case (FailRecord k)
    obtain d err u where r: "RecordFailure n ks k t = ((d, err), u)" using prod_cases3 by (metis surj_pair)
    note rec = Record_tracked[OF tr r]
    show ?thesis
    proof (cases err)
      case None
      then have ev: "ev = (n, FailureCounted k d)" "t' = u" using assms(3) FailRecord r by auto
      have h: "(\<lambda>k'. failures_of k' (evs @ [ev])) = ?h(k := ?h k @ [n])" by (auto simp: failures_of_snoc ev)
      have "answers t evs ev" using rec None by (simp add: answers_def ev failures_of_snoc)
      then show ?thesis using rec None tracks_now[of evs n "FailureCounted k d" u] ev h by simp
    next
      case (Some e)
      then have ev: "ev = (n, NoFailure)" "t' = u" using assms(3) FailRecord r by auto
      have "(\<lambda>k'. failures_of k' (evs @ [ev])) = ?h" by (simp add: failures_of_snoc ev)
      then show ?thesis using rec Some tracks_now[of evs n NoFailure u] ev by (simp add: answers_def)
    qed
  next
    case (FailCheck k)
    obtain d u where r: "failure_Check n k t = (d, u)" by fastforce
    have ev: "ev = (n, FailureChecked k d)" "t' = u" using assms(3) FailCheck r by auto
    have "(\<lambda>k'. failures_of k' (evs @ [ev])) = ?h" by (simp add: failures_of_snoc ev)
    then show ?thesis using Check_tracked[OF tr r] tracks_now[of evs n "FailureChecked k d" u] ev by (simp add: answers_def)
  next
    case (FailReset k)
    have ev: "ev = (n, FailureCleared k)" "t' = t\<lparr>ft_m := (ft_m t)(k := None)\<rparr>" using assms(3) FailReset by (auto simp: failure_Reset_def)
    have h: "(\<lambda>k'. failures_of k' (evs @ [ev])) = ?h(k := [])" by (auto simp: failures_of_snoc ev)
    have "tracked (?h(k := [])) n t'" unfolding ev(2) by (rule tracked_drop[OF tr]) (auto simp: times_ok_def)
    then show ?thesis using tracks_now[of evs n "FailureCleared k" t'] h ev by (simp add: answers_def same_setup_def)
  next
    case FailLen
    have ev: "ev = (n, NoFailure)" "t' = failure_clean n ks t" using assms(3) FailLen by (auto simp: failure_Len_def Let_def)
    have "tracked ?h n t' \<and> same_setup t t'"
      unfolding ev(2)
    proof (rule failure_clean_keeps[where P = "\<lambda>u. tracked ?h n u \<and> same_setup t u"])
      show "tracked ?h n (clean_key n k u) \<and> same_setup t (clean_key n k u)" if "tracked ?h n u \<and> same_setup t u" for k u
        using that clean_key_tracked[of ?h n u k] same_setup_trans by blast
    qed (simp add: tr)
    moreover have "(\<lambda>k'. failures_of k' (evs @ [ev])) = ?h" by (simp add: failures_of_snoc ev)
    ultimately show ?thesis using tracks_now[of evs n NoFailure t'] ev by (simp add: answers_def)
  qed
qed

text \<open>
  C35: With a clock that does not go back, every answer of a failure tracker is exact: the number of
  failures it reports for a key is the number of failures counted for that key since it was last
  cleared that are no older than the window, and the level is the number of configured thresholds
  this reaches. Cleaning, in whatever order and however cut short, never shows.
\<close>

theorem failures_counted_exactly:
  assumes "NewFailureTracker cfg = Inr t0" "run_calls failure_step calls t0 = (before @ (n, ev) # after, t)"
    "sorted (map fst before @ [n])"
  shows "case ev of
      FailureCounted k d \<Rightarrow> fd_Failures d = int (length (filter (\<lambda>a. n - fc_Window cfg \<le> a) (failures_of k before @ [n])))
        \<and> fd_Level d = int (length (filter (\<lambda>x. 0 < x \<and> x \<le> fd_Failures d) (fc_LevelAt cfg)))
    | FailureChecked k d \<Rightarrow> fd_Failures d = int (length (filter (\<lambda>a. n - fc_Window cfg \<le> a) (failures_of k before)))
        \<and> fd_Level d = int (length (filter (\<lambda>x. 0 < x \<and> x \<le> fd_Failures d) (fc_LevelAt cfg)))
    | _ \<Rightarrow> True"
proof -
  have t0: "ft_win t0 = fc_Window cfg" "ft_levels t0 = sort (fc_LevelAt cfg)" "ft_m t0 = Map.empty" "0 \<le> ft_win t0"
    using assms(1) by (auto simp: NewFailureTracker_def split: if_splits)
  let ?I = "\<lambda>evs t. sorted (map fst evs) \<longrightarrow> tracks evs t \<and> same_setup t0 t"
  let ?Q = "\<lambda>evs e. sorted (map fst (evs @ [e])) \<longrightarrow> answers t0 evs e"
  have "?I ([] @ before @ (n, ev) # after) t \<and> (\<forall>b e a. before @ (n, ev) # after = b @ e # a \<longrightarrow> ?Q ([] @ b) e)"
  proof (rule run_calls_events[where I = ?I and Q = ?Q and step = failure_step and cs = calls and s = t0])
    fix evs s c e s' assume I: "?I evs s" and step: "failure_step c s = (e, s')"
    obtain m ks call where c: "c = (m, ks, call)" by (cases c)
    have m: "fst e = m" using step unfolding c by (cases call) (auto split: prod.splits)
    show "?I (evs @ [e]) s' \<and> ?Q evs e"
    proof (cases "sorted (map fst (evs @ [e]))")
      case True
      then have s: "tracks evs s" "same_setup t0 s" "\<forall>a\<in>set (map fst evs). a \<le> m" using I m by (auto simp: sorted_append)
      have "answers s evs e = answers t0 evs e"
        using same_setup_fields[OF s(2)] by (simp add: answers_def decides_def split: failure_event.split)
      then show ?thesis using failure_step_tracks[OF s(1,3) step[unfolded c]] s(2) same_setup_trans by blast
    qed simp
  next
    show "?I [] t0" using t0 by (simp add: tracks_def tracked_def failures_of_def times_of_def times_ok_def)
  qed (rule assms(2))
  then have "answers t0 before (n, ev)" using assms(3) by simp
  moreover have "length (filter P (sort xs)) = length (filter P xs)" for P and xs :: "int list"
    by (metis filter_sort length_sort)
  ultimately show ?thesis by (cases ev) (auto simp: answers_def decides_def t0 failures_of_snoc)
qed

section \<open>Blocks\<close>

text \<open>The end of the block that the events have earned a key, if any.\<close>

fun block_after :: "FailureTrackerConfig \<Rightarrow> FailureKey \<Rightarrow> Prelude.time option \<Rightarrow> Prelude.time \<times> failure_event \<Rightarrow> Prelude.time option" where
  "block_after cfg k b (n, FailureCounted k' d) =
     (if k' = k \<and> 0 < fc_BlockAt cfg \<and> fc_BlockAt cfg \<le> fd_Failures d then Some (n + fc_BlockDuration cfg) else b)"
| "block_after cfg k b (n, FailureCleared k') = (if k' = k then None else b)"
| "block_after cfg k b (n, _) = b"

definition block_of :: "FailureTrackerConfig \<Rightarrow> FailureKey \<Rightarrow> (Prelude.time \<times> failure_event) list \<Rightarrow> Prelude.time option" where
  "block_of cfg k evs = foldl (block_after cfg k) None evs"

definition holds_block :: "Prelude.time \<Rightarrow> FailureKey \<Rightarrow> FailureTracker \<Rightarrow> bool" where
  "holds_block u k t \<longleftrightarrow> (\<exists>e. ft_m t k = Some e \<and> u \<le> fe_blocked e \<and> u \<le> fe_last e + ft_block t)"

text \<open>While a block lasts, cleaning keeps the entry: it is not idle for as long as a block.\<close>

lemma clean_key_block:
  assumes "holds_block u k t" "n < u" "ft_block t \<le> ft_idle t"
  shows "holds_block u k (clean_key n k' t)"
proof -
  obtain e where e: "ft_m t k = Some e" "u \<le> fe_blocked e" "u \<le> fe_last e + ft_block t" using assms(1) by (auto simp: holds_block_def)
  then have "n < fe_last e + ft_idle t" "n < fe_blocked e" using assms(2,3) by linarith+
  then show ?thesis using e by (cases "k' = k") (auto simp: clean_key_def holds_block_def Let_def split: option.split)
qed

lemma cleaned_block:
  assumes "holds_block u k t" "n < u" "ft_block t \<le> ft_idle t"
  shows "holds_block u k (cleanBudget n b ks t)" "holds_block u k (failure_clean n ks t)"
proof -
  let ?P = "\<lambda>t'. holds_block u k t' \<and> ft_block t' \<le> ft_idle t'"
  have same: "ft_block (clean_key n k' t') = ft_block t'" "ft_idle (clean_key n k' t') = ft_idle t'" for k' t'
    by (simp_all add: clean_key_def Let_def split: option.split)
  have step: "?P (clean_key n k' t')" if "?P t'" for k' t' using clean_key_block[of u k t' n k'] that assms(2) same by simp
  show "holds_block u k (cleanBudget n b ks t)" using cleanBudget_keeps[where P = ?P, OF step] assms(1,3) by blast
  show "holds_block u k (failure_clean n ks t)" using failure_clean_keeps[where P = ?P, OF step] assms(1,3) by blast
qed

lemma Check_block:
  assumes "holds_block u k t" "n < u" "ft_block t \<le> ft_idle t" "failure_Check n k' t = (d, t')"
  shows "holds_block u k t' \<and> (k' = k \<longrightarrow> fd_Blocked d)"
proof -
  obtain e where e: "ft_m t k = Some e" "u \<le> fe_blocked e" "u \<le> fe_last e + ft_block t" using assms(1) by (auto simp: holds_block_def)
  then have "n < fe_last e + ft_idle t" "n < fe_blocked e" using assms(2,3) by linarith+
  then show ?thesis using e assms(4)
    by (cases "k' = k") (auto simp: failure_Check_def holds_block_def Let_def failure_result_def split: option.splits if_splits)
qed

lemma Record_block:
  assumes "tracked h n t" "RecordFailure n ks k' t = ((d, err), t')" "n < u" "ft_block t \<le> ft_idle t"
    "holds_block u k t \<or> k' = k \<and> err = None \<and> 0 < ft_blockAt t \<and> ft_blockAt t \<le> fd_Failures d \<and> u = n + ft_block t"
  shows "holds_block u k t'"
proof (cases "trim_space (fk_Client k') = [] \<or> fk_Site k' = [] \<or> fk_Policy k' = []")
  case True
  then show ?thesis using assms(2,5) by (auto simp: RecordFailure_def)
next
  case False
  let ?t = "cleanBudget n 16 ks t"
  have c: "tracked h n ?t \<and> same_setup t ?t"
  proof (rule cleanBudget_keeps[where P = "\<lambda>u. tracked h n u \<and> same_setup t u"])
    show "tracked h n (clean_key n k u) \<and> same_setup t (clean_key n k u)" if "tracked h n u \<and> same_setup t u" for k u
      using that clean_key_tracked[of h n u k] same_setup_trans by blast
  qed (simp add: assms(1))
  note f = same_setup_fields[OF conjunct2[OF c]]
  have keep: "holds_block u k ?t" if "holds_block u k t" using cleaned_block(1)[OF that assms(3,4)] .
  have past: "fe_last e \<le> n" if "ft_m ?t k' = Some e" for e
    using conjunct1[OF c] that by (auto simp: tracked_def entry_ok_def)
  show ?thesis
  proof (cases "holds_block u k t")
    case True
    from keep[OF this] obtain e where e: "ft_m ?t k = Some e" "u \<le> fe_blocked e" "u \<le> fe_last e + ft_block ?t"
      by (auto simp: holds_block_def)
    then have "n < fe_blocked e" using assms(3) by linarith
    then show ?thesis using assms(2) False e past[of e]
      by (cases "k' = k") (auto simp: RecordFailure_def Let_def holds_block_def split: if_splits)
  next
    case none: False
    then show ?thesis
      using assms(2,5) False f by (auto simp: RecordFailure_def Let_def holds_block_def failure_result_def split: if_splits)
  qed
qed

text \<open>A call before a block ends leaves it in force; one that earns a block installs it.\<close>

lemma failure_step_block:
  assumes "tracks evs t" "\<forall>a\<in>set (map fst evs). a \<le> n" "failure_step (n, ks, c) t = (ev, t')" "ft_block t \<le> ft_idle t"
    "fc_BlockAt cfg = ft_blockAt t" "fc_BlockDuration cfg = ft_block t"
    "block_after cfg k b ev = Some u" "n < u" "b = Some u \<longrightarrow> holds_block u k t"
  shows "holds_block u k t' \<and> (\<forall>d. b = Some u \<longrightarrow> ev = (n, FailureChecked k d) \<longrightarrow> fd_Blocked d)"
proof (cases c)
  case (FailRecord k')
  obtain d err v where r: "RecordFailure n ks k' t = ((d, err), v)" by (metis surj_pair)
  have tr: "tracked (\<lambda>k. failures_of k evs) n t" using assms(1,2) by (simp add: tracks_def)
  have ev: "ev = (n, case err of None \<Rightarrow> FailureCounted k' d | Some _ \<Rightarrow> NoFailure)" "t' = v"
    using assms(3) r FailRecord by auto
  have "holds_block u k t \<or> k' = k \<and> err = None \<and> 0 < ft_blockAt t \<and> ft_blockAt t \<le> fd_Failures d \<and> u = n + ft_block t"
    using assms(5-7,9) ev(1) by (cases err) (auto split: if_splits)
  then show ?thesis using Record_block[OF tr r assms(8,4)] ev by (cases err) auto
next
  case (FailCheck k')
  then show ?thesis using assms Check_block[of u k t n k'] by (auto split: prod.splits)
next
  case (FailReset k')
  then show ?thesis using assms by (auto simp: failure_Reset_def holds_block_def split: if_splits)
next
  case FailLen
  then show ?thesis using assms cleaned_block(2)[of u k t n ks] by (auto simp: failure_Len_def Let_def)
qed

text \<open>
  C36: A block is served to its end: when the counted failures of a key have reached the blocking
  threshold, every check of the key before the block runs out answers that it is blocked, unless
  the key was cleared in between. Neither the cleaning nor the forgetting of old failures lifts a
  block early, provided the idle time is left to its default or is no shorter than a block.
\<close>

theorem failure_block_holds:
  assumes "NewFailureTracker cfg = Inr t0"
    "run_calls failure_step calls t0 = (before @ (n, FailureChecked k d) # after, t)"
    "sorted (map fst before @ [n])" "block_of cfg k before = Some u" "n < u"
    "fc_IdleTTL cfg \<le> 0 \<or> fc_BlockDuration cfg \<le> fc_IdleTTL cfg"
  shows "fd_Blocked d"
proof -
  have t0: "ft_m t0 = Map.empty" "0 \<le> ft_win t0" "fc_BlockAt cfg = ft_blockAt t0" "fc_BlockDuration cfg = ft_block t0" "ft_block t0 \<le> ft_idle t0"
    using assms(1,6) by (auto simp: NewFailureTracker_def split: if_splits)
  let ?I = "\<lambda>evs t. sorted (map fst evs) \<longrightarrow> tracks evs t \<and> same_setup t0 t
    \<and> (\<forall>u. block_of cfg k evs = Some u \<longrightarrow> (\<forall>a\<in>set (map fst evs). a < u) \<longrightarrow> holds_block u k t)"
  let ?Q = "\<lambda>evs e. sorted (map fst (evs @ [e])) \<longrightarrow>
    (\<forall>u m d. block_of cfg k evs = Some u \<longrightarrow> m < u \<longrightarrow> e = (m, FailureChecked k d) \<longrightarrow> fd_Blocked d)"
  let ?es = "before @ (n, FailureChecked k d) # after"
  have "?I ([] @ ?es) t \<and> (\<forall>b e a. ?es = b @ e # a \<longrightarrow> ?Q ([] @ b) e)"
  proof (rule run_calls_events[where I = ?I and Q = ?Q and step = failure_step and cs = calls and s = t0])
    fix evs s c e s' assume I: "?I evs s" and step: "failure_step c s = (e, s')"
    obtain m ks call where c: "c = (m, ks, call)" by (cases c)
    have m: "fst e = m" using step unfolding c by (cases call) (auto split: prod.splits)
    show "?I (evs @ [e]) s' \<and> ?Q evs e"
    proof (cases "sorted (map fst (evs @ [e]))")
      case True
      then have s: "tracks evs s" "same_setup t0 s" "\<forall>a\<in>set (map fst evs). a \<le> m"
        and old: "\<And>u. block_of cfg k evs = Some u \<Longrightarrow> m < u \<Longrightarrow> holds_block u k s"
        using I m by (fastforce simp: sorted_append)+
      note f = same_setup_fields[OF s(2)]
      have next_block: "block_of cfg k (evs @ [e]) = block_after cfg k (block_of cfg k evs) e" by (simp add: block_of_def)
      have blk: "holds_block u k s' \<and> (\<forall>d. block_of cfg k evs = Some u \<longrightarrow> e = (m, FailureChecked k d) \<longrightarrow> fd_Blocked d)"
        if "block_of cfg k (evs @ [e]) = Some u" "m < u" for u
        using that old t0(3-5) f by (intro failure_step_block[OF s(1,3) step[unfolded c], of cfg]) (auto simp: next_block)
      have "?Q evs e" using blk next_block m by fastforce
      then show ?thesis using failure_step_tracks[OF s(1,3) step[unfolded c]] s(2) same_setup_trans blk m by fastforce
    qed simp
  next
    show "?I [] t0" using t0 by (simp add: tracks_def tracked_def failures_of_def times_of_def times_ok_def block_of_def same_setup_def)
  qed (rule assms(2))
  then have "?Q before (n, FailureChecked k d)" by (metis append_Nil)
  then show ?thesis using assms(3-5) by simp
qed

section \<open>A tracker at work\<close>

text \<open>A client that fails twice is blocked until 70 and asks at 60.\<close>

definition failure_demo :: FailureTrackerConfig where
  "failure_demo = \<lparr>fc_Capacity = 0, fc_Window = 100, fc_IdleTTL = 0, fc_LevelAt = [2, 1], fc_BlockAt = 2, fc_BlockDuration = 50\<rparr>"

definition failure_demo_key :: FailureKey where
  "failure_demo_key = \<lparr>fk_Client = ''c'', fk_Site = ''s'', fk_Policy = ''p''\<rparr>"

definition failure_demo_calls :: "(Prelude.time \<times> FailureKey list \<times> failure_call) list" where
  "failure_demo_calls = [(10, [], FailRecord failure_demo_key), (20, [failure_demo_key], FailRecord failure_demo_key),
     (60, [], FailCheck failure_demo_key)]"

definition failure_demo_before :: "(Prelude.time \<times> failure_event) list" where
  "failure_demo_before =
     [(10, FailureCounted failure_demo_key \<lparr>fd_Failures = 1, fd_Level = 1, fd_Blocked = False, fd_BlockedUntil = zero_time\<rparr>),
      (20, FailureCounted failure_demo_key \<lparr>fd_Failures = 2, fd_Level = 2, fd_Blocked = True, fd_BlockedUntil = 70\<rparr>)]"

definition failure_demo_answer :: FailureDecision where
  "failure_demo_answer = \<lparr>fd_Failures = 2, fd_Level = 2, fd_Blocked = True, fd_BlockedUntil = 70\<rparr>"

lemma failure_demo_run:
  obtains t0 t where "NewFailureTracker failure_demo = Inr t0"
    "run_calls failure_step failure_demo_calls t0 = (failure_demo_before @ (60, FailureChecked failure_demo_key failure_demo_answer) # [], t)"
proof -
  obtain t0 where t0: "NewFailureTracker failure_demo = Inr t0" by (simp add: NewFailureTracker_def failure_demo_def)
  have client: "trim_space ''c'' \<noteq> []" by code_simp
  have "fst (run_calls failure_step failure_demo_calls t0) = failure_demo_before @ [(60, FailureChecked failure_demo_key failure_demo_answer)]"
    using t0[symmetric] by (simp add: NewFailureTracker_def failure_demo_def failure_demo_calls_def failure_demo_before_def failure_demo_answer_def
      failure_demo_key_def RecordFailure_def failure_Check_def failure_result_def clean_key_def new_entry_def Let_def map_len_upd
      zero_time_def client numeral_nat)
  then show thesis using that[OF t0] by (metis prod.collapse)
qed

theorem failures_counted_exactly_witness:
  "fd_Failures failure_demo_answer = int (length (filter (\<lambda>a. 60 - 100 \<le> a) (failures_of failure_demo_key failure_demo_before)))
   \<and> failures_of failure_demo_key failure_demo_before = [10, 20]"
proof -
  obtain t0 t where r: "NewFailureTracker failure_demo = Inr t0"
    "run_calls failure_step failure_demo_calls t0 = (failure_demo_before @ (60, FailureChecked failure_demo_key failure_demo_answer) # [], t)"
    by (rule failure_demo_run)
  have "sorted (map fst failure_demo_before @ [60])" "fc_Window failure_demo = 100" "failures_of failure_demo_key failure_demo_before = [10, 20]"
    by (simp_all add: failure_demo_before_def failure_demo_def failures_of_def)
  then show ?thesis using failures_counted_exactly[OF r] by simp
qed

theorem failure_block_holds_witness:
  "block_of failure_demo failure_demo_key failure_demo_before = Some 70 \<and> fd_Blocked failure_demo_answer"
proof -
  obtain t0 t where r: "NewFailureTracker failure_demo = Inr t0"
    "run_calls failure_step failure_demo_calls t0 = (failure_demo_before @ (60, FailureChecked failure_demo_key failure_demo_answer) # [], t)"
    by (rule failure_demo_run)
  have "sorted (map fst failure_demo_before @ [60])" "fc_IdleTTL failure_demo \<le> 0"
    and b: "block_of failure_demo failure_demo_key failure_demo_before = Some 70"
    by (simp_all add: failure_demo_before_def failure_demo_def block_of_def)
  then show ?thesis using failure_block_holds[OF r _ b] by simp
qed

end
