(* ===== verification/Spec2Isabelle.thy ===== *)
theory Spec2Isabelle
  imports Approval_Workflow Approval_Restart LB_Properties Lease_Claims Trust_Properties Decoder_Properties Rules_Properties ACL_Policy Protocol_Enforcement Cluster_Properties Control_Properties Token_Properties IP_Properties Rate_Properties Site_Admission
    WebSocket_Forwarding Traffic_Properties Pipeline_Properties Body_Properties Regex_Gate Challenge_Claims Failure_Tracker
begin

text \<open>
  CheeseWAF: a verification library for the decision logic of the web application firewall.

  \<^bold>\<open>The program.\<close> A request enters through the proxy. The address of its client is derived from the
  socket and from the headers trusted proxies wrote; its path is normalised; address and access
  policies, rate limits and bot challenges apply; the detection pipeline runs pre-filters (custom
  rules and protocol checks among them) and a group of semantic detectors under a budget; and the
  verdict lets the request pass to an upstream or to a cluster peer, or holds it back. Around this
  path a management plane changes configuration: changes need an approval, are committed through a
  revisioned control plane, are made by holders of access tokens, and outbound connections need a
  lease. The development models the components that carry these decisions, each from its Go source
  under \<^verbatim>\<open>src/\<close>, with the state as a record, one definition per operation, and the errors as values.

  \<^bold>\<open>Shared theories.\<close>
  \<^item> \<open>Prelude\<close>: time, durations, machine words, maps with Go's zero-value lookup, chains of checks,
    and the collections of lemmas the components simplify with. \<open>Runs\<close>: sequences of calls on a
    component, and the locale \<open>one_time_store\<close> of stores whose items are minted, pending and spent.
  \<^item> \<open>Go_Strings\<close>: UTF-8 decoding, trimming, lower-casing and searching as \<open>strings\<close> does;
    \<open>Go_Crypto\<close>: SHA-256, hexadecimal digests and JSON quoting; \<open>Go_Net\<close>: hosts and header maps;
    \<open>Net_Addr\<close>: parsing and masking of \<open>netip\<close> addresses and prefixes; \<open>Go_Heap\<close>: \<open>container/heap\<close>
    over an interface, with the locale \<open>heap_interface\<close> that proves the heap order once.
  \<^item> \<open>Event_Log\<close>: the locale \<open>event_log\<close> of numbered event lists.

  \<^bold>\<open>Interfaces.\<close> Every locale is interpreted on the model's definitions: \<open>event_log\<close> on the audit of
  the approval gate (\<open>gate_log\<close>) and the events of the token manager (\<open>manager_log\<close>);
  \<open>heap_interface\<close> on the buckets of the rate limiter (\<open>expiry\<close>) and the rate tokens of challenges
  (\<open>tokens\<close>); \<open>worker_pool\<close> on the guard slots (\<open>guards\<close>) and the body readers (\<open>readers\<close>);
  \<open>prefix_store\<close> on the binary prefix index (\<open>trie\<close>); \<open>cyclic_cursor\<close> on the counters of the load
  balancer (\<open>lbc\<close>); \<open>one_time_store\<close> on the challenge store (\<open>challenges\<close>).

  \<^bold>\<open>Detection\<close> (\<^verbatim>\<open>internal/engine\<close>).
  \<^item> \<open>Request_Path\<close>, \<open>Path_Properties\<close> (\<^verbatim>\<open>path.go\<close>): repeated decoding, cleaning, readings of a path.
    A normalised path is normal, normalising is idempotent and does not depend on encoding
    layers, prefixes match whole segments.
  \<^item> \<open>Decoder\<close>, \<open>Decoder_Properties\<close> (\<^verbatim>\<open>decoder\<close>): layered decoding of request text. The byte gates
    change nothing, nested encodings are undone up to the depth.
  \<^item> \<open>Rules_Engine\<close>, \<open>Rules_Properties\<close> (\<^verbatim>\<open>rules\<close>): the detector with its cache and its prefix filter
    finds the first strongest match over all rules and views.
  \<^item> \<open>Protocol_Enforcement\<close> (\<^verbatim>\<open>protocol_enforcement.go\<close>): a request that passes and declares a chunked
    body is framed by nothing else; one lemma shows the repeated lengths that do pass.
  \<^item> \<open>Pipeline\<close>, \<open>Pipeline_Properties\<close> (\<^verbatim>\<open>pipeline.go\<close>, \<^verbatim>\<open>types.go\<close>, \<open>GuardContext\<close> of \<^verbatim>\<open>sandbox.go\<close>): the two
    phases with every early return. Detectors are arbitrary functions; contexts, deadlines and the
    fate of guarded calls and queued jobs are an environment that is quantified over, so a
    statement holds for every timing. A recorded block decides, a closed pipeline passes only
    after a complete analysis, the order of reports does not matter, registration is a stable
    sort.
  \<^item> \<open>Site_Admission\<close> (\<^verbatim>\<open>site_admission.go\<close>) and \<open>Worker_Pools\<close>: permits per site and the pools built
    on them; slots equal running workers in every interleaving.
  \<^item> \<open>Body_Reader\<close>, \<open>Body_Properties\<close> (\<^verbatim>\<open>context.go\<close>): the bounded read loop, its byte budget and
    publishing. What is published is the whole stream within the limit or nothing; the budget
    equals what is outstanding.
  \<^item> \<open>Regex_Gate\<close> (\<^verbatim>\<open>sandbox.go\<close>): the complexity score of patterns, with the pair it overlooks.

  \<^bold>\<open>Protection.\<close>
  \<^item> \<open>IP_Access\<close>, \<open>IP_Properties\<close> (\<^verbatim>\<open>internal/protection/ip\<close>): the binary prefix index equals the set of
    listed networks; the most specific rule decides one reading of the path and the strictest
    reading decides the request. \<open>ACL_Policy\<close> (\<^verbatim>\<open>internal/protection/acl\<close>): the same for the rules on
    methods, paths and headers.
  \<^item> \<open>Rate_Limiter\<close>, \<open>Rate_Shard\<close>, \<open>Rate_Properties\<close> (\<^verbatim>\<open>internal/protection/ratelimit\<close>): the sharded
    limiter with its expiry heap refines a fixed-window counter per key.
  \<^item> \<open>Challenge_Rate\<close>, \<open>Challenge_Tokens\<close> (\<^verbatim>\<open>internal/protection/bot/issuance_rate.go\<close>), \<open>Challenge_Store\<close>,
    \<open>Challenge_Properties\<close>, \<open>Challenge_Claims\<close> and \<open>Failure_Tracker\<close> (\<^verbatim>\<open>challenge_security.go\<close>, \<^verbatim>\<open>store_backend.go\<close>):
    challenges are consumed once, capacities and issuance rates hold over all sequences of calls,
    and failures are counted exactly with blocks that hold to their end.

  \<^bold>\<open>Proxy and cluster.\<close>
  \<^item> \<open>Proxy_Trust\<close>, \<open>Trust_Properties\<close> (\<^verbatim>\<open>internal/proxytrust\<close>): only the headers granted to the socket
    peer influence the client address; behind a trusted peer the nearest untrusted hop is it.
  \<^item> \<open>Load_Balancer\<close>, \<open>LB_Properties\<close> (\<^verbatim>\<open>internal/proxy/loadbalancer.go\<close>, \<^verbatim>\<open>health_check.go\<close>, \<^verbatim>\<open>failover.go\<close>
    and the loop of \<^verbatim>\<open>server.go\<close>): exact weighted shares, stable hashing, fewest connections, health
    with its thresholds, a failover that tries each upstream once.
  \<^item> \<open>WebSocket\<close>, \<open>WebSocket_Properties\<close>, \<open>WebSocket_Forwarding\<close> (\<^verbatim>\<open>internal/proxy/websocket_frames.go\<close>): frame
    lengths, unmasking, reassembly, inspection. What reaches the upstream is a sequence of whole
    valid control frames and whole inspected messages, wherever the stream is cut and whichever
    write fails half-way; two theorems show what the code does with payloads of exactly 127 bytes.
  \<^item> \<open>Traffic\<close>, \<open>Traffic_Properties\<close> (\<^verbatim>\<open>internal/cluster/traffic\<close>): choosing a peer, circuits with
    half-open probes, shares of weighted round robin, a bounded circuit map.
  \<^item> \<open>Cluster_Status\<close>, \<open>Cluster_Properties\<close> (\<^verbatim>\<open>internal/cluster\<close>): heartbeats, the status and the built-in
    coordinator; a shared cluster never writes on the strength of heartbeats.

  \<^bold>\<open>Management.\<close>
  \<^item> \<open>Approval_Types\<close>, \<open>Approval_Gate\<close>, \<open>Approval_Invariants\<close>, \<open>Approval_Safety\<close>, \<open>Approval_History\<close>,
    \<open>Approval_Properties\<close>, \<open>Approval_Workflow\<close> (\<^verbatim>\<open>internal/approval\<close>): requests, confirmations, the gate
    with its ledger (any ledger), bindings, batches, delegations, roles. Every grant passed every
    check. Over histories that also bind a ledger, restore from it and let others write to it,
    records stay valid, an authorization is consumed once, a confirmation serves once and epochs
    are final; where these need that the ledger does not hand out older records, the hypothesis
    \<open>ledger_honest\<close> says so.
  \<^item> \<open>Approval_Ledger\<close>, \<open>Approval_Chain\<close>, \<open>Approval_Restart\<close> (\<^verbatim>\<open>persistence.go\<close>): the in-memory ledger, its hash
    chains and idempotent writes; a new gate restored from the ledger of a gate is that gate again,
    and this ledger is honest.
  \<^item> \<open>Control_State\<close>, \<open>Control_Properties\<close> (\<^verbatim>\<open>internal/controlplane/state.go\<close>): leadership, fencing,
    proposals, commits, snapshots. Old tokens are fenced for good, proposals are compare-and-swap
    with unused nonces and can be installed as long as no older commit was installed late; one
    theorem shows such a retry, which moves the committed revision back.
  \<^item> \<open>Token_Manager\<close>, \<open>Token_Properties\<close> (\<^verbatim>\<open>internal/tokens/manager.go\<close>): creation, authorization,
    revocation, cleanup.
  \<^item> \<open>Lease_Policy\<close>, \<open>Lease_Session\<close>, \<open>Lease_Manager\<close>, \<open>Lease_Properties\<close>, \<open>Lease_Egress\<close>, \<open>Lease_Claims\<close>
    (\<^verbatim>\<open>internal/netlease\<close>): each temporary connection is paid for by one confirmation of its own, a
    used lease is admitted by the policy in force, stored leases are well formed.

  \<^bold>\<open>Steps and interleavings.\<close> An operation that holds its mutex from start to end is one step. An
  operation with several critical sections is split where a property depends on what happens
  between them: the lease and session managers around the verifier and the authenticator (which
  answers anew in every call), the two halves of \<open>PickAdvanced\<close>, the failover loop with whatever other
  requests do to the balancer between its sections, permits, readers and reports. \<open>Restore\<close> of the
  gate takes the mutex for each record: a history may put calls between the records, and only a
  failed restore, which puts its first snapshot back, is taken as uninterrupted; a lemma shows
  what it undoes otherwise.

  \<^bold>\<open>Termination, bounds and fuel.\<close> Every loop is a total function. Loops that draw from a source the
  code does not bound (fresh token identifiers) run on a stream with fuel and return an option,
  and a theorem says when they return. The read loop of a body is bounded by the limit and by
  the hundred empty reads the code allows. Go's map iteration order, clocks, random bytes,
  callbacks, decompression, regular expressions and Unicode case folding are arguments of the definitions.
  Machine integers are words or wrapped integers where they can overflow; capacities of the
  challenge store are unbounded, their products wrap only beyond what memory can hold.

  \<^bold>\<open>Not modelled.\<close> SQL and Redis back ends, HTTP handlers, the command line, cryptographic
  libraries, the heuristics of the semantic detectors, response inspection, CAPTCHA images, cluster
  deployment and the operational services are input and output or data rather than decision logic
  and are left out. Of the decision logic these remain: the rate limiter of the management API, the
  coordinator that drives the control plane over Raft, and the broker of rule packages.
\<close>

end
